(* ===== verification/Prelude.thy ===== *)
theory Prelude
  imports "HOL-Library.Word"
begin

text \<open>
  Shared vocabulary of the development: the fixed-width integers of
  \<^verbatim>\<open>src/ntvdmex_types.h\<close> as words, the byte-addressed memory the DOS and device
  code works on, the bit tests the device registers use, the \<^verbatim>\<open>for\<close> loops that
  look for the first slot with a property, and the byte-copy loops of the memory managers.
  The theorem collections \<open>bit_facts\<close>, \<open>mem_facts\<close> and \<open>scan_facts\<close> gather what the
  component theories hand to the simplifier.
\<close>

unbundle bit_operations_syntax

named_theorems bit_facts "how the bit tests of the device registers read after an update"
named_theorems mem_facts "reads of byte memory after a write"
named_theorems scan_facts "the first slot with a property"

subsection \<open>Fixed-width integers\<close>

type_synonym u8 = "8 word"
type_synonym u16 = "16 word"
type_synonym u32 = "32 word"
type_synonym u64 = "64 word"

abbreviation line_bit :: "nat \<Rightarrow> 'a::len word" where
  "line_bit n \<equiv> 2 ^ n"

lemma bit_line_bit [bit_facts]: "bit (line_bit n :: 'a::len word) m \<longleftrightarrow> m = n \<and> n < LENGTH('a)"
  by (auto simp: bit_exp_iff)

lemma bit_set_line [bit_facts]:
  "bit ((x :: 'a::len word) OR line_bit n) m \<longleftrightarrow> bit x m \<or> (m = n \<and> n < LENGTH('a))"
  by (simp add: bit_or_iff bit_line_bit)

lemma bit_clear_line [bit_facts]:
  "bit ((x :: 'a::len word) AND NOT (line_bit n)) m \<longleftrightarrow> bit x m \<and> m \<noteq> n"
  using bit_imp_le_length [of x m]
  by (auto simp: bit_and_iff bit_not_iff bit_line_bit)

lemma bit_mask_out:
  "bit ((x :: 'a::len word) AND NOT y) m \<longleftrightarrow> bit x m \<and> \<not> bit y m"
  using bit_imp_le_length [of x m]
  by (auto simp: bit_and_iff bit_not_iff)

lemma word_eq_zero_iff_no_bit: "(x :: 'a::len word) = 0 \<longleftrightarrow> (\<forall>n. \<not> bit x n)"
  by (metis bit_0_eq bit_eq_iff bot_apply bot_bool_def)

lemma word_eq_bits: "(x :: 'a::len word) = y \<longleftrightarrow> (\<forall>n. bit x n \<longleftrightarrow> bit y n)"
  by (auto intro: bit_eqI)

lemma ucast_ucast_widen [simp]: "ucast (ucast (v :: u8) :: u32) = v"
  by (rule bit_word_eqI) (simp add: bit_simps)

lemma unat_of_nat_small: "n < 2 ^ LENGTH('a) \<Longrightarrow> unat (of_nat n :: 'a::len word) = n"
  by (simp add: unat_of_nat take_bit_nat_eq_self)

lemma word_odd_iff: "(w :: 'a::len word) AND 1 \<noteq> 0 \<longleftrightarrow> odd (unat w)"
proof -
  have "bit (unat w) 0 \<longleftrightarrow> bit w 0" by (simp add: bit_unsigned_iff)
  then show ?thesis by (simp add: and_one_eq mod_2_eq_odd bit_0)
qed

lemma nat_and_7 [simp]: "(n :: nat) AND 7 = n mod 8"
proof -
  have "n AND 7 = n AND mask 3" by (simp add: mask_eq_exp_minus_1)
  also have "\<dots> = take_bit 3 n" by (simp add: take_bit_eq_mask)
  also have "\<dots> = n mod 8" by (simp add: take_bit_eq_mod)
  finally show ?thesis .
qed

lemma int_and_7: "(i :: int) AND 7 = i mod 8"
proof -
  have "i AND 7 = i AND mask 3" by (simp add: mask_eq_exp_minus_1)
  also have "\<dots> = take_bit 3 i" by (simp add: take_bit_eq_mask)
  also have "\<dots> = i mod 8" by (simp add: take_bit_eq_mod)
  finally show ?thesis .
qed

subsection \<open>Scanning a table for the first slot with a property\<close>

text \<open>
  \<open>first_from p i n\<close> is the C loop \<^verbatim>\<open>for (; i < n; ++i) if (p(i)) break;\<close>: the first
  index from \<open>i\<close> on with \<open>p\<close>, or \<open>n\<close> when there is none.
\<close>

function first_from :: "(nat \<Rightarrow> bool) \<Rightarrow> nat \<Rightarrow> nat \<Rightarrow> nat" where
  "first_from p i n = (if i < n \<and> \<not> p i then first_from p (Suc i) n else if i < n then i else n)"
  by pat_completeness auto
termination
  by (relation "measure (\<lambda>(p, i, n). n - i)") auto

declare first_from.simps [simp del]

lemma first_from_le: "first_from p i n \<le> n"
  by (induction p i n rule: first_from.induct) (subst first_from.simps, simp)

lemma first_from_ge: "i \<le> n \<Longrightarrow> i \<le> first_from p i n"
proof (induction p i n rule: first_from.induct)
  case (1 p i n)
  then show ?case by (subst first_from.simps) (auto intro: Suc_leD)
qed

lemma first_from_holds [scan_facts]: "first_from p i n < n \<Longrightarrow> p (first_from p i n)"
proof (induction p i n rule: first_from.induct)
  case (1 p i n)
  show ?case
  proof (cases "i < n \<and> \<not> p i")
    case True
    with 1 show ?thesis by (simp add: first_from.simps [of p i n])
  next
    case False
    with "1.prems" show ?thesis by (auto simp: first_from.simps [of p i n] split: if_splits)
  qed
qed

lemma first_from_before [scan_facts]: "i \<le> j \<Longrightarrow> j < first_from p i n \<Longrightarrow> \<not> p j"
proof (induction p i n rule: first_from.induct)
  case (1 p i n)
  show ?case
  proof (cases "i < n \<and> \<not> p i")
    case True
    show ?thesis
    proof (cases "j = i")
      case False
      with 1 True show ?thesis by (simp add: first_from.simps [of p i n])
    qed (use True in simp)
  next
    case False
    with "1.prems" show ?thesis by (auto simp: first_from.simps [of p i n] split: if_splits)
  qed
qed

lemma first_from_full [scan_facts]:
  "first_from p 0 n = n \<longleftrightarrow> (\<forall>j<n. \<not> p j)"
proof
  assume eq: "first_from p 0 n = n"
  then show "\<forall>j<n. \<not> p j" using first_from_before [of 0 _ p n] by simp
next
  assume none: "\<forall>j<n. \<not> p j"
  show "first_from p 0 n = n"
  proof (rule ccontr)
    assume "first_from p 0 n \<noteq> n"
    with first_from_le [of p 0 n] have less: "first_from p 0 n < n" by simp
    with first_from_holds [OF less] none show False by simp
  qed
qed

subsection \<open>Byte memory\<close>

text \<open>
  The address space of the process: guest linear addresses are host addresses (the VDM is
  identity-mapped at 0), so one function from addresses to bytes serves both. Pointers
  are natural numbers; the guest's own address arithmetic is done in words before it
  becomes a pointer.
\<close>

type_synonym mem = "nat \<Rightarrow> u8"

definition range_free :: "nat \<Rightarrow> nat \<Rightarrow> nat \<Rightarrow> nat \<Rightarrow> bool" where
  "range_free a n b m \<longleftrightarrow> a + n \<le> b \<or> b + m \<le> a"

lemma range_free_sym: "range_free a n b m = range_free b m a n"
  by (auto simp: range_free_def)

text \<open>The two directions of a byte-copy loop.\<close>

primrec copy_up :: "nat \<Rightarrow> nat \<Rightarrow> nat \<Rightarrow> mem \<Rightarrow> mem" where
  \<comment> \<open>\<^verbatim>\<open>for (i = 0; i < n; ++i) d[i] = s[i];\<close>\<close>
  "copy_up d s 0 m = m"
| "copy_up d s (Suc n) m = (let m' = copy_up d s n m in m'(d + n := m' (s + n)))"

primrec copy_down :: "nat \<Rightarrow> nat \<Rightarrow> nat \<Rightarrow> mem \<Rightarrow> mem" where
  \<comment> \<open>\<^verbatim>\<open>for (i = n; i-- > 0; ) d[i] = s[i];\<close>\<close>
  "copy_down d s 0 m = m"
| "copy_down d s (Suc n) m = copy_down d s n (m(d + n := m (s + n)))"

definition mem_copied :: "nat \<Rightarrow> nat \<Rightarrow> nat \<Rightarrow> mem \<Rightarrow> mem" where
  \<comment> \<open>what a copy means: the \<open>n\<close> old bytes at \<open>s\<close> now also stand at \<open>d\<close>\<close>
  "mem_copied d s n m = (\<lambda>a. if d \<le> a \<and> a < d + n then m (s + (a - d)) else m a)"

lemma copy_up_correct:
  assumes "d \<le> s \<or> s + n \<le> d"
  shows "copy_up d s n m = mem_copied d s n m"
  using assms
proof (induction n)
  case 0
  then show ?case by (auto simp: mem_copied_def fun_eq_iff)
next
  case (Suc n)
  then have IH: "copy_up d s n m = mem_copied d s n m" by auto
  show ?case
  proof
    fix a
    show "copy_up d s (Suc n) m a = mem_copied d s (Suc n) m a"
      using Suc.prems by (auto simp: Let_def IH mem_copied_def)
  qed
qed

lemma copy_down_correct:
  assumes "s \<le> d"
  shows "copy_down d s n m = mem_copied d s n m"
proof (induction n arbitrary: m)
  case 0
  then show ?case by (auto simp: mem_copied_def fun_eq_iff)
next
  case (Suc n)
  show ?case
  proof
    fix a
    show "copy_down d s (Suc n) m a = mem_copied d s (Suc n) m a"
      using assms by (auto simp: Suc.IH mem_copied_def)
  qed
qed

lemma mem_copied_inside [mem_facts]: "i < n \<Longrightarrow> mem_copied d s n m (d + i) = m (s + i)"
  by (simp add: mem_copied_def)

lemma mem_copied_outside [mem_facts]: "a < d \<or> d + n \<le> a \<Longrightarrow> mem_copied d s n m a = m a"
  by (auto simp: mem_copied_def)

end
