(* ===== verification/Vdd_Bus.thy ===== *)
theory Vdd_Bus
  imports Prelude
begin

text \<open>
  The device bus, \<^verbatim>\<open>src/vdd/vdd_bus.c\<close>: the claim registries a virtual device fills from
  its \<^verbatim>\<open>Initialize\<close>, and the dispatch the host's service loop performs on a trapped port
  access, memory access, interrupt or frame tick. The type \<open>'m\<close> is the machine the
  routines act on (the C routines reach theirs through a context pointer) and \<open>'r\<close> the
  register file an interrupt service sees, \<open>'f\<close> a frame to present. The tables are lists: the C arrays with their
  counts. The locale \<open>port_device\<close> is the contract a device's port routines owe the bus,
  and \<open>port_slot\<close> the same contract once the device is one part of a larger machine.
\<close>

subsection \<open>The tables\<close>

definition VDD_MAX_PORT_RANGES :: nat where "VDD_MAX_PORT_RANGES = 48"
definition VDD_MAX_MEMORY_WINDOWS :: nat where "VDD_MAX_MEMORY_WINDOWS = 8"
definition VDD_MAX_FRAME_SUBSCRIBERS :: nat where "VDD_MAX_FRAME_SUBSCRIBERS = 8"
definition VDD_MAX_DEVICES :: nat where "VDD_MAX_DEVICES = 24"

record 'm port_entry =
  First :: u16
  Last :: u16
  PortIn :: "('m \<Rightarrow> u16 \<Rightarrow> u8 \<Rightarrow> 'm \<times> u32) option"
  PortOut :: "('m \<Rightarrow> u16 \<Rightarrow> u8 \<Rightarrow> u32 \<Rightarrow> 'm) option"

record 'm memory_entry =
  Base :: u32
  End :: u32
  MemRead :: "('m \<Rightarrow> u32 \<Rightarrow> 'm \<times> u8) option"
  MemWrite :: "('m \<Rightarrow> u32 \<Rightarrow> u8 \<Rightarrow> 'm) option"

record 'm device_entry =
  DeviceReset :: "('m \<Rightarrow> 'm) option"
  DeviceShutdown :: "('m \<Rightarrow> 'm) option"

record ('m, 'r, 'f) vdd_bus =
  MemoryBase :: nat
  IrqSink :: "('m \<Rightarrow> u8 \<Rightarrow> 'm) option"
  PresentSink :: "('m \<Rightarrow> 'f \<Rightarrow> 'm) option"
  Ports :: "'m port_entry list"
  Memory :: "'m memory_entry list"
  Interrupts :: "u8 \<Rightarrow> ('m \<Rightarrow> 'r \<Rightarrow> 'm \<times> 'r) option"
  FrameSubscribers :: "('m \<Rightarrow> 'm) option list"
  Devices :: "'m device_entry list"
  ClaimFailures :: int

subsection \<open>Lifecycle\<close>

definition VddBusInitialize :: "nat \<Rightarrow> ('m, 'r, 'f) vdd_bus" where
  "VddBusInitialize memoryBase =
     \<lparr>MemoryBase = memoryBase, IrqSink = None, PresentSink = None, Ports = [], Memory = [],
      Interrupts = (\<lambda>_. None), FrameSubscribers = [], Devices = [], ClaimFailures = 0\<rparr>"

definition VddBusSetSinks ::
  "('m, 'r, 'f) vdd_bus \<Rightarrow> ('m \<Rightarrow> u8 \<Rightarrow> 'm) option \<Rightarrow> ('m \<Rightarrow> 'f \<Rightarrow> 'm) option \<Rightarrow> ('m, 'r, 'f) vdd_bus" where
  "VddBusSetSinks bus irqSink presentSink = bus\<lparr>IrqSink := irqSink, PresentSink := presentSink\<rparr>"

text \<open>
  \<open>VddBusAdd\<close> returns the device's own verdict: \<open>True\<close> is \<^verbatim>\<open>VDD_BUS_OK\<close>. The device's
  \<^verbatim>\<open>Initialize\<close> is the argument \<open>init\<close>, which runs after the device has its slot.
\<close>

definition VddBusAdd ::
  "('m, 'r, 'f) vdd_bus \<Rightarrow> 'm device_entry \<Rightarrow>
   (('m, 'r, 'f) vdd_bus \<Rightarrow> 'm \<Rightarrow> ('m, 'r, 'f) vdd_bus \<times> 'm \<times> bool) option \<Rightarrow> 'm \<Rightarrow>
   ('m, 'r, 'f) vdd_bus \<times> 'm \<times> bool" where
  "VddBusAdd bus device init m =
     (if length (Devices bus) \<ge> VDD_MAX_DEVICES
      then (bus\<lparr>ClaimFailures := ClaimFailures bus + 1\<rparr>, m, False)
      else let bus' = bus\<lparr>Devices := Devices bus @ [device]\<rparr>
           in case init of None \<Rightarrow> (bus', m, True) | Some f \<Rightarrow> f bus' m)"

fun reset_devices :: "'m device_entry list \<Rightarrow> 'm \<Rightarrow> 'm" where
  "reset_devices [] m = m"
| "reset_devices (d # ds) m =
     reset_devices ds (case DeviceReset d of None \<Rightarrow> m | Some f \<Rightarrow> f m)"

definition VddBusResetAll :: "('m, 'r, 'f) vdd_bus \<Rightarrow> 'm \<Rightarrow> 'm" where
  "VddBusResetAll bus m = reset_devices (Devices bus) m"

fun shutdown_devices :: "'m device_entry list \<Rightarrow> 'm \<Rightarrow> 'm" where
  "shutdown_devices [] m = m"
| "shutdown_devices (d # ds) m =
     shutdown_devices ds (case DeviceShutdown d of None \<Rightarrow> m | Some f \<Rightarrow> f m)"

definition VddBusShutdownAll :: "('m, 'r, 'f) vdd_bus \<Rightarrow> 'm \<Rightarrow> 'm" where
  "VddBusShutdownAll bus m = shutdown_devices (Devices bus) m"

subsection \<open>The claim registries\<close>

definition VddClaimPorts ::
  "('m, 'r, 'f) vdd_bus \<Rightarrow> u16 \<Rightarrow> u16 \<Rightarrow> ('m \<Rightarrow> u16 \<Rightarrow> u8 \<Rightarrow> 'm \<times> u32) option \<Rightarrow>
   ('m \<Rightarrow> u16 \<Rightarrow> u8 \<Rightarrow> u32 \<Rightarrow> 'm) option \<Rightarrow> ('m, 'r, 'f) vdd_bus \<times> bool" where
  "VddClaimPorts bus firstPort lastPort inRoutine outRoutine =
     (if firstPort > lastPort \<or> length (Ports bus) \<ge> VDD_MAX_PORT_RANGES
      then (bus\<lparr>ClaimFailures := ClaimFailures bus + 1\<rparr>, False)
      else (bus\<lparr>Ports := Ports bus @
              [\<lparr>First = firstPort, Last = lastPort, PortIn = inRoutine, PortOut = outRoutine\<rparr>]\<rparr>,
            True))"

definition VddClaimMemory ::
  "('m, 'r, 'f) vdd_bus \<Rightarrow> u32 \<Rightarrow> u32 \<Rightarrow> ('m \<Rightarrow> u32 \<Rightarrow> 'm \<times> u8) option \<Rightarrow>
   ('m \<Rightarrow> u32 \<Rightarrow> u8 \<Rightarrow> 'm) option \<Rightarrow> ('m, 'r, 'f) vdd_bus \<times> bool" where
  "VddClaimMemory bus base bytes readRoutine writeRoutine =
     (if bytes = 0 \<or> length (Memory bus) \<ge> VDD_MAX_MEMORY_WINDOWS
      then (bus\<lparr>ClaimFailures := ClaimFailures bus + 1\<rparr>, False)
      else (bus\<lparr>Memory := Memory bus @
              [\<lparr>Base = base, End = base + bytes - 1, MemRead = readRoutine,
                MemWrite = writeRoutine\<rparr>]\<rparr>, True))"

definition VddClaimInterrupt ::
  "('m, 'r, 'f) vdd_bus \<Rightarrow> u8 \<Rightarrow> ('m \<Rightarrow> 'r \<Rightarrow> 'm \<times> 'r) option \<Rightarrow>
   ('m, 'r, 'f) vdd_bus \<times> bool" where
  "VddClaimInterrupt bus vector serviceRoutine =
     (if Interrupts bus vector \<noteq> None then (bus, False)
      else (bus\<lparr>Interrupts := (Interrupts bus)(vector := serviceRoutine)\<rparr>, True))"

definition VddOnFrame ::
  "('m, 'r, 'f) vdd_bus \<Rightarrow> ('m \<Rightarrow> 'm) option \<Rightarrow> ('m, 'r, 'f) vdd_bus \<times> bool" where
  "VddOnFrame bus frameRoutine =
     (if length (FrameSubscribers bus) \<ge> VDD_MAX_FRAME_SUBSCRIBERS
      then (bus\<lparr>ClaimFailures := ClaimFailures bus + 1\<rparr>, False)
      else (bus\<lparr>FrameSubscribers := FrameSubscribers bus @ [frameRoutine]\<rparr>, True))"

subsection \<open>Services and dispatch\<close>

definition VddRaiseIrq :: "('m, 'r, 'f) vdd_bus \<Rightarrow> u8 \<Rightarrow> 'm \<Rightarrow> 'm" where
  "VddRaiseIrq bus irq m = (case IrqSink bus of None \<Rightarrow> m | Some sink \<Rightarrow> sink m irq)"

definition VddMapFlat :: "('m, 'r, 'f) vdd_bus \<Rightarrow> u16 \<Rightarrow> u16 \<Rightarrow> nat" where
  "VddMapFlat bus segment offset =
     MemoryBase bus + unat (push_bit 4 (ucast segment :: u32) + ucast offset)"

definition VddMapLinear :: "('m, 'r, 'f) vdd_bus \<Rightarrow> u32 \<Rightarrow> nat" where
  "VddMapLinear bus linear = MemoryBase bus + unat linear"

definition VddPresent :: "('m, 'r, 'f) vdd_bus \<Rightarrow> 'f \<Rightarrow> 'm \<Rightarrow> 'm" where
  "VddPresent bus frame m = (case PresentSink bus of None \<Rightarrow> m | Some sink \<Rightarrow> sink m frame)"

text \<open>
  The dispatch of one port access: the first range that covers the port serves it. The
  result is whether a device owned the access, the value on the data bus and the machine.
\<close>

fun bus_io :: "'m port_entry list \<Rightarrow> u16 \<Rightarrow> u8 \<Rightarrow> bool \<Rightarrow> u32 \<Rightarrow> 'm \<Rightarrow> bool \<times> u32 \<times> 'm" where
  "bus_io [] port width isIn value m = (False, value, m)"
| "bus_io (entry # entries) port width isIn value m =
     (if port < First entry \<or> port > Last entry
      then bus_io entries port width isIn value m
      else if isIn
      then (case PortIn entry of
              Some f \<Rightarrow> (let (m', v) = f m port width in (True, v, m'))
            | None \<Rightarrow> (True, 0xFFFFFFFF, m))
      else (case PortOut entry of
              Some f \<Rightarrow> (True, value, f m port width value)
            | None \<Rightarrow> (True, value, m)))"

definition VddBusIo ::
  "('m, 'r, 'f) vdd_bus \<Rightarrow> u16 \<Rightarrow> u8 \<Rightarrow> bool \<Rightarrow> u32 \<Rightarrow> 'm \<Rightarrow> bool \<times> u32 \<times> 'm" where
  "VddBusIo bus port width isIn value m = bus_io (Ports bus) port width isIn value m"

fun bus_memory_read :: "'m memory_entry list \<Rightarrow> u32 \<Rightarrow> u8 \<Rightarrow> 'm \<Rightarrow> bool \<times> u8 \<times> 'm" where
  "bus_memory_read [] address value m = (False, value, m)"
| "bus_memory_read (entry # entries) address value m =
     (if address < Base entry \<or> address > End entry
      then bus_memory_read entries address value m
      else (case MemRead entry of
              Some f \<Rightarrow> (let (m', v) = f m (address - Base entry) in (True, v, m'))
            | None \<Rightarrow> (True, 0xFF, m)))"

definition VddBusMemoryRead :: "('m, 'r, 'f) vdd_bus \<Rightarrow> u32 \<Rightarrow> u8 \<Rightarrow> 'm \<Rightarrow> bool \<times> u8 \<times> 'm" where
  "VddBusMemoryRead bus address value m = bus_memory_read (Memory bus) address value m"

fun bus_memory_write :: "'m memory_entry list \<Rightarrow> u32 \<Rightarrow> u8 \<Rightarrow> 'm \<Rightarrow> bool \<times> 'm" where
  "bus_memory_write [] address value m = (False, m)"
| "bus_memory_write (entry # entries) address value m =
     (if address < Base entry \<or> address > End entry
      then bus_memory_write entries address value m
      else (True, case MemWrite entry of
                    Some f \<Rightarrow> f m (address - Base entry) value
                  | None \<Rightarrow> m))"

definition VddBusMemoryWrite :: "('m, 'r, 'f) vdd_bus \<Rightarrow> u32 \<Rightarrow> u8 \<Rightarrow> 'm \<Rightarrow> bool \<times> 'm" where
  "VddBusMemoryWrite bus address value m = bus_memory_write (Memory bus) address value m"

definition VddBusDeliverInterrupt ::
  "('m, 'r, 'f) vdd_bus \<Rightarrow> u8 \<Rightarrow> 'r \<Rightarrow> 'm \<Rightarrow> bool \<times> 'm \<times> 'r" where
  "VddBusDeliverInterrupt bus vector registers m =
     (case Interrupts bus vector of
        None \<Rightarrow> (False, m, registers)
      | Some f \<Rightarrow> (let (m', r') = f m registers in (True, m', r')))"

fun run_frame :: "('m \<Rightarrow> 'm) option list \<Rightarrow> 'm \<Rightarrow> 'm" where
  "run_frame [] m = m"
| "run_frame (f # fs) m = run_frame fs (case f of None \<Rightarrow> m | Some g \<Rightarrow> g m)"

definition VddBusFrame :: "('m, 'r, 'f) vdd_bus \<Rightarrow> 'm \<Rightarrow> 'm" where
  "VddBusFrame bus m = run_frame (FrameSubscribers bus) m"

subsection \<open>Dispatch facts\<close>

definition covers :: "'m port_entry \<Rightarrow> u16 \<Rightarrow> bool" where
  "covers entry port \<longleftrightarrow> First entry \<le> port \<and> port \<le> Last entry"

lemma bus_io_find:
  "bus_io es port width isIn v m =
     (case find (\<lambda>c. covers c port) es of
        None \<Rightarrow> (False, v, m) | Some c \<Rightarrow> bus_io [c] port width isIn v m)"
  by (induction es) (auto simp: covers_def not_le not_less)

text \<open>A sequence of port claims, as the devices make them from their \<^verbatim>\<open>Initialize\<close>.\<close>

fun claim_ports :: "'m port_entry list \<Rightarrow> ('m, 'r, 'f) vdd_bus \<Rightarrow> ('m, 'r, 'f) vdd_bus" where
  "claim_ports [] bus = bus"
| "claim_ports (c # cs) bus =
     claim_ports cs (fst (VddClaimPorts bus (First c) (Last c) (PortIn c) (PortOut c)))"

abbreviation well_ordered :: "'m port_entry \<Rightarrow> bool" where
  "well_ordered c \<equiv> First c \<le> Last c"

lemma port_entry_eta: "\<lparr>First = First c, Last = Last c, PortIn = PortIn c, PortOut = PortOut c\<rparr> = c"
  by simp

lemma VddClaimPorts_refused:
  "First c > Last c \<or> length (Ports bus) \<ge> VDD_MAX_PORT_RANGES \<Longrightarrow>
   fst (VddClaimPorts bus (First c) (Last c) (PortIn c) (PortOut c)) =
     bus\<lparr>ClaimFailures := ClaimFailures bus + 1\<rparr>"
  by (simp add: VddClaimPorts_def)

lemma VddClaimPorts_granted:
  "First c \<le> Last c \<Longrightarrow> length (Ports bus) < VDD_MAX_PORT_RANGES \<Longrightarrow>
   fst (VddClaimPorts bus (First c) (Last c) (PortIn c) (PortOut c)) = bus\<lparr>Ports := Ports bus @ [c]\<rparr>"
  by (simp add: VddClaimPorts_def not_less [symmetric])

lemma claim_ports_table:
  "Ports (claim_ports cs bus) =
     Ports bus @ take (VDD_MAX_PORT_RANGES - length (Ports bus)) (filter well_ordered cs)"
proof (induction cs arbitrary: bus)
  case (Cons c cs)
  consider (full) "length (Ports bus) \<ge> VDD_MAX_PORT_RANGES" | (bad) "First c > Last c"
    | (good) "First c \<le> Last c" "length (Ports bus) < VDD_MAX_PORT_RANGES" by fastforce
  then show ?case
  proof cases
    case good
    have "VDD_MAX_PORT_RANGES - length (Ports bus) = Suc (VDD_MAX_PORT_RANGES - Suc (length (Ports bus)))"
      using good(2) by linarith
    with good show ?thesis by (simp add: VddClaimPorts_granted Cons.IH)
  qed (simp_all add: VddClaimPorts_refused Cons.IH)
qed simp

lemma claim_ports_count:
  "ClaimFailures (claim_ports cs bus) + int (length (Ports (claim_ports cs bus))) =
     ClaimFailures bus + int (length (Ports bus)) + int (length cs)"
proof (induction cs arbitrary: bus)
  case (Cons c cs)
  consider (bad) "First c > Last c \<or> length (Ports bus) \<ge> VDD_MAX_PORT_RANGES"
    | (good) "First c \<le> Last c" "length (Ports bus) < VDD_MAX_PORT_RANGES" by fastforce
  then show ?case
    by cases (simp_all add: VddClaimPorts_granted VddClaimPorts_refused Cons.IH)
qed simp

text \<open>
  Port ownership. Whatever claims the devices make on a fresh bus, in whatever order, each
  is either in the table or counted as a failure, at most 48 are in the table, and an access
  to a port is served by the first of the well-formed claims that got in and covers it, and
  by nobody, with machine and data untouched, when there is none.
\<close>

theorem bus_port_ownership:
  fixes cs :: "'m port_entry list" and memoryBase :: nat
  defines "bus \<equiv> claim_ports cs (VddBusInitialize memoryBase :: ('m, 'r, 'f) vdd_bus)"
    and "served \<equiv> take VDD_MAX_PORT_RANGES (filter well_ordered cs)"
  shows "ClaimFailures bus = int (length cs) - int (length served) \<and>
    length (Ports bus) \<le> VDD_MAX_PORT_RANGES \<and>
    VddBusIo bus port width isIn value m =
      (case find (\<lambda>c. covers c port) served of
         None \<Rightarrow> (False, value, m)
       | Some c \<Rightarrow> bus_io [c] port width isIn value m)"
proof -
  have fresh: "Ports (VddBusInitialize memoryBase :: ('m, 'r, 'f) vdd_bus) = []"
    "ClaimFailures (VddBusInitialize memoryBase :: ('m, 'r, 'f) vdd_bus) = 0"
    by (simp_all add: VddBusInitialize_def)
  have tab: "Ports bus = served"
    unfolding bus_def served_def claim_ports_table fresh by simp
  have "ClaimFailures bus + int (length served) = int (length cs)"
    unfolding tab [symmetric] unfolding bus_def claim_ports_count fresh by simp
  then have count: "ClaimFailures bus = int (length cs) - int (length served)" by simp
  have "VddBusIo bus port width isIn value m = bus_io served port width isIn value m"
    by (simp add: VddBusIo_def tab)
  then show ?thesis using tab count by (simp only: bus_io_find [of served]) (simp add: served_def)
qed

subsection \<open>The contract of a device's port routines\<close>

datatype port_access = GuestIn u16 u8 | GuestOut u16 u8 u32

fun guest_access ::
  "('s \<Rightarrow> u16 \<Rightarrow> u8 \<Rightarrow> 's \<times> u32) \<Rightarrow> ('s \<Rightarrow> u16 \<Rightarrow> u8 \<Rightarrow> u32 \<Rightarrow> 's) \<Rightarrow> port_access \<Rightarrow> 's \<Rightarrow> 's" where
  "guest_access pin pout (GuestIn port width) s = fst (pin s port width)"
| "guest_access pin pout (GuestOut port width value) s = pout s port width value"

locale port_device =
  fixes pin :: "'s \<Rightarrow> u16 \<Rightarrow> u8 \<Rightarrow> 's \<times> u32"
    and pout :: "'s \<Rightarrow> u16 \<Rightarrow> u8 \<Rightarrow> u32 \<Rightarrow> 's"
    and inv :: "'s \<Rightarrow> bool"
  assumes in_inv: "inv s \<Longrightarrow> inv (fst (pin s port width))"
    and out_inv: "inv s \<Longrightarrow> inv (pout s port width value)"
begin

lemma access_inv: "inv s \<Longrightarrow> inv (guest_access pin pout a s)"
  by (cases a) (auto intro: in_inv out_inv)

lemma run_inv: "inv s \<Longrightarrow> inv (fold (guest_access pin pout) accesses s)"
  by (induction accesses arbitrary: s) (auto intro: access_inv)

end

text \<open>
  A device that is one component of a machine: \<open>get\<close> reads its state out of the machine
  and \<open>put\<close> writes it back. \<open>slot_in\<close> and \<open>slot_out\<close> are the routines the device gives
  the bus.
\<close>

definition slot_in ::
  "('m \<Rightarrow> 's) \<Rightarrow> ('s \<Rightarrow> 'm \<Rightarrow> 'm) \<Rightarrow> ('s \<Rightarrow> u16 \<Rightarrow> u8 \<Rightarrow> 's \<times> u32) \<Rightarrow> 'm \<Rightarrow> u16 \<Rightarrow> u8 \<Rightarrow> 'm \<times> u32"
where
  "slot_in get put pin m port width =
     (let (s, v) = pin (get m) port width in (put s m, v))"

definition slot_out ::
  "('m \<Rightarrow> 's) \<Rightarrow> ('s \<Rightarrow> 'm \<Rightarrow> 'm) \<Rightarrow> ('s \<Rightarrow> u16 \<Rightarrow> u8 \<Rightarrow> u32 \<Rightarrow> 's) \<Rightarrow> 'm \<Rightarrow> u16 \<Rightarrow> u8 \<Rightarrow> u32 \<Rightarrow> 'm"
where
  "slot_out get put pout m port width value = put (pout (get m) port width value) m"

locale port_slot = port_device pin pout inv
  for pin :: "'s \<Rightarrow> u16 \<Rightarrow> u8 \<Rightarrow> 's \<times> u32"
    and pout :: "'s \<Rightarrow> u16 \<Rightarrow> u8 \<Rightarrow> u32 \<Rightarrow> 's"
    and inv :: "'s \<Rightarrow> bool" +
  fixes get :: "'m \<Rightarrow> 's"
    and put :: "'s \<Rightarrow> 'm \<Rightarrow> 'm"
  assumes get_put: "get (put s m) = s"
begin

lemma slot_in_inv: "inv (get m) \<Longrightarrow> inv (get (fst (slot_in get put pin m port width)))"
  using in_inv [of "get m" port width]
  by (auto simp: slot_in_def get_put split: prod.splits)

lemma slot_out_inv: "inv (get m) \<Longrightarrow> inv (get (slot_out get put pout m port width value))"
  by (simp add: slot_out_def get_put out_inv)

lemma slot_device: "port_device (slot_in get put pin) (slot_out get put pout) (\<lambda>m. inv (get m))"
  by unfold_locales (auto intro: slot_in_inv slot_out_inv)

end

text \<open>What every claimed routine keeps, an access through the bus keeps.\<close>

lemma bus_io_keeps:
  assumes "P m"
    and "\<And>e f m port width. e \<in> set entries \<Longrightarrow> PortIn e = Some f \<Longrightarrow> P m \<Longrightarrow> P (fst (f m port width))"
    and "\<And>e f m port width v. e \<in> set entries \<Longrightarrow> PortOut e = Some f \<Longrightarrow> P m \<Longrightarrow> P (f m port width v)"
  shows "P (snd (snd (bus_io entries port width isIn v m)))"
  using assms
proof (induction entries)
  case (Cons e entries)
  show ?case
  proof (cases "port < First e \<or> port > Last e")
    case True
    have "P (snd (snd (bus_io entries port width isIn v m)))"
    proof (rule Cons.IH)
      show "P m" by (rule Cons.prems(1))
      show "P (fst (f m port width))" if "e' \<in> set entries" "PortIn e' = Some f" "P m" for e' f m port width
        using Cons.prems(2) [of e' f m port width] that by simp
      show "P (f m port width v)" if "e' \<in> set entries" "PortOut e' = Some f" "P m" for e' f m port width v
        using Cons.prems(3) [of e' f m port width v] that by simp
    qed
    then show ?thesis using True by simp
  next
    case False
    have "P (fst (f m port width))" if "PortIn e = Some f" for f
      using Cons.prems(1) Cons.prems(2) [of e f] that by simp
    moreover have "P (f m port width v)" if "PortOut e = Some f" for f
      using Cons.prems(1) Cons.prems(3) [of e f] that by simp
    ultimately show ?thesis using False Cons.prems(1) by (auto split: option.splits prod.splits)
  qed
qed simp

end
