(* ===== verification/Pic_8259.thy ===== *)
theory Pic_8259
  imports Vdd_Bus
begin

text \<open>
  The 8259A interrupt-controller pair, \<^verbatim>\<open>src/vdd/vdd_pic.c\<close> and \<^verbatim>\<open>vdd_pic.h\<close>. A chip is
  the record \<open>pic_chip\<close> (the C struct, its 0/1 bytes as booleans and \<^verbatim>\<open>IcwStep\<close> as a
  datatype), the pair is \<open>pic_state\<close>; the bus pointer the struct also keeps is not needed by
  any operation but \<^verbatim>\<open>VddPicInitialize\<close>, which takes the bus as an argument. Lines are natural
  numbers, and \<^verbatim>\<open>PIC_NO_LINE\<close> is \<open>None\<close>. The atomic read-modify-writes of the in-service and
  request registers are the plain updates they perform.
\<close>

subsection \<open>State\<close>

datatype icw_step = Running | ExpectIcw2 | ExpectIcw3 | ExpectIcw4

record pic_chip =
  Imr :: u8
  Irr :: u8
  Isr :: u8
  VectorBase :: u8
  IcwStep :: icw_step
  IsIcw4Needed :: bool
  IsIsrSelected :: bool
  IsAutoEoi :: bool
  IsPollArmed :: bool
  LowestPriority :: u8
  IsRotateInAutoEoi :: bool
  IsSpecialMaskMode :: bool
  IsSpecialFullyNested :: bool

record pic_state =
  Master :: pic_chip
  Slave :: pic_chip

subsection \<open>The priority resolver\<close>

definition PicRank :: "pic_chip \<Rightarrow> nat \<Rightarrow> nat" where
  "PicRank chip line = nat ((int line - uint (LowestPriority chip) - 1) AND 7)"

definition PicTopLine :: "pic_chip \<Rightarrow> u8 \<Rightarrow> nat option" where
  "PicTopLine chip lines =
     find (\<lambda>line. bit lines line)
       (map (\<lambda>rank. (unat (LowestPriority chip) + 1 + rank) AND 7) [0..<8])"

definition PicEffectiveIsr :: "pic_chip \<Rightarrow> u8" where
  "PicEffectiveIsr chip =
     (if IsSpecialMaskMode chip then Isr chip AND NOT (Imr chip) else Isr chip)"

definition PicBlockers :: "pic_chip \<Rightarrow> nat \<Rightarrow> bool \<Rightarrow> u8" where
  "PicBlockers chip line isMaster =
     (let effective = PicEffectiveIsr chip; lineRank = PicRank chip line
      in fold (\<lambda>otherLine blockers.
           if \<not> bit effective otherLine then blockers
           else if isMaster \<and> IsSpecialFullyNested chip \<and> line = 2 \<and> otherLine = 2 then blockers
           else if PicRank chip otherLine \<le> lineRank then blockers OR line_bit otherLine
           else blockers) [0..<8] 0)"

definition PicIsLineOpen :: "pic_chip \<Rightarrow> nat \<Rightarrow> bool \<Rightarrow> bool" where
  "PicIsLineOpen chip line isMaster =
     (if bit (Imr chip) line then False else PicBlockers chip line isMaster = 0)"

definition PicChipReset :: "pic_chip \<Rightarrow> u8 \<Rightarrow> pic_chip" where
  "PicChipReset chip base = chip\<lparr>Imr := 0xFF, Irr := 0, Isr := 0, VectorBase := base,
     IcwStep := Running, IsIcw4Needed := False, IsIsrSelected := False, IsAutoEoi := False,
     IsPollArmed := False, LowestPriority := 7, IsRotateInAutoEoi := False,
     IsSpecialMaskMode := False, IsSpecialFullyNested := False\<rparr>"

definition PicInterruptAcknowledge :: "pic_chip \<Rightarrow> nat \<Rightarrow> pic_chip" where
  "PicInterruptAcknowledge chip line =
     (if \<not> IsAutoEoi chip then chip\<lparr>Isr := Isr chip OR line_bit line\<rparr>
      else if IsRotateInAutoEoi chip then chip\<lparr>LowestPriority := of_nat line\<rparr>
      else chip)"

subsection \<open>The port side\<close>

definition PicIcw1 :: "pic_chip \<Rightarrow> u8 \<Rightarrow> pic_chip" where
  "PicIcw1 chip value =
     (let chip1 = chip\<lparr>IcwStep := ExpectIcw2, IsIcw4Needed := bit value 0, Isr := 0, Irr := 0,
            Imr := 0, IsIsrSelected := False, LowestPriority := 7, IsSpecialMaskMode := False,
            IsRotateInAutoEoi := False\<rparr>
      in if \<not> IsIcw4Needed chip1
         then chip1\<lparr>IsAutoEoi := False, IsSpecialFullyNested := False\<rparr> else chip1)"

definition PicOcw3 :: "pic_chip \<Rightarrow> u8 \<Rightarrow> pic_chip" where
  "PicOcw3 chip value =
     (let chip1 = (if value AND 0x02 \<noteq> 0 then chip\<lparr>IsIsrSelected := value AND 0x01 \<noteq> 0\<rparr> else chip);
          chip2 = (if value AND 0x40 \<noteq> 0 then chip1\<lparr>IsSpecialMaskMode := value AND 0x20 \<noteq> 0\<rparr>
                   else chip1)
      in if value AND 0x04 \<noteq> 0 then chip2\<lparr>IsPollArmed := True\<rparr> else chip2)"

definition PicOcw2 :: "pic_chip \<Rightarrow> u8 \<Rightarrow> pic_chip" where
  "PicOcw2 chip value =
     (let command = value AND 0xE0; named = unat (value AND 7)
      in if command = 0x20 then
           (case PicTopLine chip (Isr chip) of
              None \<Rightarrow> chip
            | Some topLine \<Rightarrow> chip\<lparr>Isr := Isr chip AND NOT (line_bit topLine)\<rparr>)
         else if command = 0x60 then chip\<lparr>Isr := Isr chip AND NOT (line_bit named)\<rparr>
         else if command = 0xA0 then
           (case PicTopLine chip (Isr chip) of
              None \<Rightarrow> chip
            | Some topLine \<Rightarrow> chip\<lparr>Isr := Isr chip AND NOT (line_bit topLine),
                                   LowestPriority := of_nat topLine\<rparr>)
         else if command = 0xE0 then
           chip\<lparr>Isr := Isr chip AND NOT (line_bit named), LowestPriority := of_nat named\<rparr>
         else if command = 0xC0 then chip\<lparr>LowestPriority := of_nat named\<rparr>
         else if command = 0x80 then chip\<lparr>IsRotateInAutoEoi := True\<rparr>
         else if command = 0x00 then chip\<lparr>IsRotateInAutoEoi := False\<rparr>
         else chip)"

definition PicCommandWrite :: "pic_chip \<Rightarrow> u8 \<Rightarrow> pic_chip" where
  "PicCommandWrite chip value =
     (if value AND 0x10 \<noteq> 0 then PicIcw1 chip value
      else if value AND 0x08 \<noteq> 0 then PicOcw3 chip value
      else PicOcw2 chip value)"

definition PicDataWrite :: "pic_chip \<Rightarrow> u8 \<Rightarrow> pic_chip" where
  "PicDataWrite chip value =
     (case IcwStep chip of
        ExpectIcw2 \<Rightarrow> chip\<lparr>VectorBase := value, IcwStep := ExpectIcw3\<rparr>
      | ExpectIcw3 \<Rightarrow> chip\<lparr>IcwStep := (if IsIcw4Needed chip then ExpectIcw4 else Running)\<rparr>
      | ExpectIcw4 \<Rightarrow> chip\<lparr>IsAutoEoi := value AND 0x02 \<noteq> 0,
                            IsSpecialFullyNested := value AND 0x10 \<noteq> 0, IcwStep := Running\<rparr>
      | Running \<Rightarrow> chip\<lparr>Imr := value\<rparr>)"

definition PicPortOut :: "pic_state \<Rightarrow> u16 \<Rightarrow> u8 \<Rightarrow> u32 \<Rightarrow> pic_state" where
  "PicPortOut state port width value =
     (let byteValue = ucast value :: u8
      in if port = 0x20 then state\<lparr>Master := PicCommandWrite (Master state) byteValue\<rparr>
         else if port = 0x21 then state\<lparr>Master := PicDataWrite (Master state) byteValue\<rparr>
         else if port = 0xA0 then state\<lparr>Slave := PicCommandWrite (Slave state) byteValue\<rparr>
         else if port = 0xA1 then state\<lparr>Slave := PicDataWrite (Slave state) byteValue\<rparr>
         else state)"

definition PicPollRead :: "pic_chip \<Rightarrow> bool \<Rightarrow> pic_chip \<times> u8" where
  "PicPollRead chip isMaster =
     (case PicTopLine chip (Irr chip AND NOT (Imr chip)) of
        None \<Rightarrow> (chip, 0)
      | Some topLine \<Rightarrow>
          if \<not> PicIsLineOpen chip topLine isMaster then (chip, 0)
          else (PicInterruptAcknowledge (chip\<lparr>Irr := Irr chip AND NOT (line_bit topLine)\<rparr>) topLine,
                0x80 OR of_nat topLine))"

definition PicBaseRead :: "pic_chip \<Rightarrow> bool \<Rightarrow> pic_chip \<times> u8" where
  "PicBaseRead chip isMaster =
     (if IsPollArmed chip then PicPollRead (chip\<lparr>IsPollArmed := False\<rparr>) isMaster
      else (chip, if IsIsrSelected chip then Isr chip else Irr chip))"

definition PicPortIn :: "pic_state \<Rightarrow> u16 \<Rightarrow> u8 \<Rightarrow> pic_state \<times> u32" where
  "PicPortIn state port width =
     (if port < 0xA0
      then if port = 0x21 then (state, ucast (Imr (Master state)))
           else (let (chip, value) = PicBaseRead (Master state) True
                 in (state\<lparr>Master := chip\<rparr>, ucast value))
      else if port = 0xA1 then (state, ucast (Imr (Slave state)))
           else (let (chip, value) = PicBaseRead (Slave state) False
                 in (state\<lparr>Slave := chip\<rparr>, ucast value)))"

subsection \<open>The host side\<close>

definition VddPicRaise :: "pic_state \<Rightarrow> u8 \<Rightarrow> pic_state" where
  "VddPicRaise state irq =
     (if irq < 8 then state\<lparr>Master := (Master state)\<lparr>Irr := Irr (Master state) OR line_bit (unat irq)\<rparr>\<rparr>
      else if irq < 16
      then state\<lparr>Slave := (Slave state)\<lparr>Irr := Irr (Slave state) OR line_bit (unat irq - 8)\<rparr>\<rparr>
      else state)"

definition VddPicCanDeliver :: "pic_state \<Rightarrow> u8 \<Rightarrow> bool" where
  "VddPicCanDeliver state irq =
     (if irq \<ge> 16 then False
      else let chip = (if irq < 8 then Master state else Slave state)
           in if \<not> PicIsLineOpen chip (unat irq AND 7) (irq < 8) then False
              else if irq \<ge> 8 \<and> \<not> PicIsLineOpen (Master state) 2 True then False
              else True)"

definition PicAcknowledgeLine :: "pic_chip \<Rightarrow> nat \<Rightarrow> pic_chip" where
  "PicAcknowledgeLine chip line =
     PicInterruptAcknowledge (chip\<lparr>Irr := Irr chip AND NOT (line_bit line)\<rparr>) line"

definition VddPicAcknowledge :: "pic_state \<Rightarrow> u8 \<Rightarrow> pic_state" where
  "VddPicAcknowledge state irq =
     (if irq \<ge> 16 then state
      else if irq < 8
      then state\<lparr>Master := PicAcknowledgeLine (Master state) (unat irq AND 7)\<rparr>
      else state\<lparr>Slave := PicAcknowledgeLine (Slave state) (unat irq AND 7),
                 Master := PicInterruptAcknowledge (Master state) 2\<rparr>)"

definition VddPicEndOfInterrupt :: "pic_state \<Rightarrow> u8 \<Rightarrow> pic_state" where
  "VddPicEndOfInterrupt state irq =
     (if irq \<ge> 16 then state
      else if irq < 8
      then state\<lparr>Master := (Master state)\<lparr>Isr := Isr (Master state) AND NOT (line_bit (unat irq))\<rparr>\<rparr>
      else let slave = (Slave state)\<lparr>Isr := Isr (Slave state) AND NOT (line_bit (unat irq - 8))\<rparr>;
               state1 = state\<lparr>Slave := slave\<rparr>
           in if Isr slave = 0
              then state1\<lparr>Master := (Master state1)\<lparr>Isr := Isr (Master state1) AND NOT 0x04\<rparr>\<rparr>
              else state1)"

definition VddPicAcknowledgeAutoEoi :: "pic_state \<Rightarrow> u8 \<Rightarrow> pic_state" where
  "VddPicAcknowledgeAutoEoi state irq =
     (if irq \<ge> 8 then VddPicEndOfInterrupt (VddPicAcknowledge state irq) irq
      else let master = (Master state)\<lparr>Irr := Irr (Master state) AND NOT (line_bit (unat irq))\<rparr>
           in if IsAutoEoi master \<and> IsRotateInAutoEoi master
              then state\<lparr>Master := master\<lparr>LowestPriority := irq\<rparr>\<rparr>
              else state\<lparr>Master := master\<rparr>)"

definition VddPicVector :: "pic_state \<Rightarrow> u8 \<Rightarrow> u8" where
  "VddPicVector state irq =
     (if irq < 8 then VectorBase (Master state) + irq
      else if irq < 16 then VectorBase (Slave state) + (irq - 8)
      else 0)"

definition VddPicReset :: "pic_state \<Rightarrow> pic_state" where
  "VddPicReset state =
     (let state1 = state\<lparr>Master := PicChipReset (Master state) 0x08,
                         Slave := PicChipReset (Slave state) 0x70\<rparr>
      in state1\<lparr>Master := (Master state1)\<lparr>Imr := 0xFC\<rparr>, Slave := (Slave state1)\<lparr>Imr := 0xFF\<rparr>\<rparr>)"

definition VddPicInitialize ::
  "(pic_state \<Rightarrow> 'm \<Rightarrow> 'm) \<Rightarrow> ('m \<Rightarrow> pic_state) \<Rightarrow> ('m, 'r, 'f) vdd_bus \<Rightarrow> 'm \<Rightarrow>
   ('m, 'r, 'f) vdd_bus \<times> 'm \<times> bool" where
  "VddPicInitialize put get bus m =
     (let m1 = put (VddPicReset (get m)) m;
          pin = Some (slot_in get put PicPortIn); pout = Some (slot_out get put PicPortOut);
          (bus1, ok1) = VddClaimPorts bus 0x20 0x21 pin pout
      in if \<not> ok1 then (bus1, m1, False)
         else let (bus2, ok2) = VddClaimPorts bus1 0xA0 0xA1 pin pout
              in (bus2, m1, ok2))"

end
