(* ===== verification/Pic_Priority.thy ===== *)
theory Pic_Priority
  imports Pic_8259
begin

text \<open>
  What the 8259A model of \<open>Pic_8259\<close> guarantees: the resolver's rank, top line and blocking
  set against their specifications; the type invariant of the chips under every operation;
  the re-entrancy guard for arbitrary sequences of host and guest operations; and the
  refinement of fully nested mode to a stack of interrupted handlers.
\<close>

subsection \<open>Ranks\<close>

definition chip_ok :: "pic_chip \<Rightarrow> bool" where
  "chip_ok chip \<longleftrightarrow> LowestPriority chip \<le> 7"

definition pic_ok :: "pic_state \<Rightarrow> bool" where
  "pic_ok state \<longleftrightarrow> chip_ok (Master state) \<and> chip_ok (Slave state)"

lemma PicRank_eq_mod:
  "PicRank chip line = nat ((int line - int (unat (LowestPriority chip)) - 1) mod 8)"
  by (simp add: PicRank_def int_and_7)

lemma PicRank_less_8: "PicRank chip line < 8"
  by (simp add: PicRank_eq_mod nat_less_iff)

lemma mod_8_shift_inj:
  fixes l :: int
  assumes "(int a - l - 1) mod 8 = (int b - l - 1) mod 8" "a < 8" "b < 8"
  shows "a = b"
proof -
  from assms(1) have "8 dvd (int a - l - 1) - (int b - l - 1)" by (simp only: mod_eq_dvd_iff)
  then have "8 dvd int a - int b" by simp
  with assms(2,3) show ?thesis by presburger
qed

lemma PicRank_inj:
  assumes "PicRank chip a = PicRank chip b" "a < 8" "b < 8"
  shows "a = b"
  by (rule mod_8_shift_inj [of _ "int (unat (LowestPriority chip))"])
    (use assms in \<open>simp_all add: PicRank_eq_mod eq_nat_nat_iff\<close>)

lemma PicRank_fixed: "LowestPriority chip = 7 \<Longrightarrow> line < 8 \<Longrightarrow> PicRank chip line = line"
  by (simp add: PicRank_eq_mod)

definition rank_line :: "pic_chip \<Rightarrow> nat \<Rightarrow> nat" where
  "rank_line chip rank = (unat (LowestPriority chip) + 1 + rank) mod 8"

lemma PicRank_rank_line: "rank < 8 \<Longrightarrow> PicRank chip (rank_line chip rank) = rank"
proof -
  assume r: "rank < 8"
  let ?lp = "unat (LowestPriority chip)"
  have "(int ((?lp + 1 + rank) mod 8) - (int ?lp + 1)) mod 8 =
        (int (?lp + 1 + rank) - (int ?lp + 1)) mod 8"
    by (simp only: zmod_int of_nat_numeral mod_diff_left_eq)
  also have "\<dots> = int rank mod 8" by simp
  finally have "(int ((?lp + 1 + rank) mod 8) - int ?lp - 1) mod 8 = int rank mod 8"
    by (simp only: diff_diff_eq)
  with r show ?thesis by (simp add: PicRank_eq_mod rank_line_def)
qed

lemma rank_line_less_8: "rank_line chip rank < 8"
  by (simp add: rank_line_def)

lemma rank_line_PicRank: "line < 8 \<Longrightarrow> rank_line chip (PicRank chip line) = line"
  by (rule PicRank_inj [of chip]) (simp_all add: PicRank_rank_line PicRank_less_8 rank_line_less_8)

subsection \<open>The top line\<close>

lemma PicTopLine_find:
  "PicTopLine chip lines = find (\<lambda>line. bit lines line) (map (rank_line chip) [0..<8])"
  by (simp add: PicTopLine_def rank_line_def [abs_def])

lemma PicTopLine_Some_iff:
  "PicTopLine chip lines = Some line \<longleftrightarrow>
     line < 8 \<and> bit lines line \<and> (\<forall>other<8. bit lines other \<longrightarrow> PicRank chip line \<le> PicRank chip other)"
  (is "?lhs \<longleftrightarrow> ?rhs")
proof
  assume ?lhs
  then obtain i where i: "i < 8" "bit lines (rank_line chip i)" "line = rank_line chip i"
    and before: "\<forall>j<i. \<not> bit lines (rank_line chip j)"
    by (auto simp: PicTopLine_find find_Some_iff)
  have "PicRank chip line \<le> PicRank chip other" if o: "other < 8" "bit lines other" for other
  proof (rule ccontr)
    assume "\<not> ?thesis"
    with i have "PicRank chip other < i" by (simp add: PicRank_rank_line)
    with before have "\<not> bit lines (rank_line chip (PicRank chip other))" by blast
    with o show False by (simp add: rank_line_PicRank)
  qed
  with i show ?rhs by (simp add: rank_line_less_8)
next
  assume r: ?rhs
  let ?i = "PicRank chip line"
  have line: "line = rank_line chip ?i" using r by (simp add: rank_line_PicRank)
  have "\<not> bit lines (rank_line chip j)" if "j < ?i" for j
  proof
    assume "bit lines (rank_line chip j)"
    with r have "?i \<le> PicRank chip (rank_line chip j)" by (simp add: rank_line_less_8)
    moreover have "j < 8" using that PicRank_less_8 [of chip line] by simp
    ultimately show False using that by (simp add: PicRank_rank_line)
  qed
  with r line PicRank_less_8 [of chip line] show ?lhs
    unfolding PicTopLine_find find_Some_iff by (intro exI [of _ ?i]) (simp add: less_trans)
qed

lemma PicTopLine_None_iff: "PicTopLine chip lines = None \<longleftrightarrow> lines = 0"
proof
  assume "PicTopLine chip lines = None"
  then have none: "\<forall>r<8. \<not> bit lines (rank_line chip r)"
    by (auto simp: PicTopLine_find find_None_iff)
  have "\<not> bit lines n" for n
  proof
    assume b: "bit lines n"
    then have "n < 8" using bit_imp_le_length by fastforce
    with none b PicRank_less_8 [of chip n] rank_line_PicRank [of n chip] show False by auto
  qed
  then show "lines = 0" by (simp add: word_eq_zero_iff_no_bit)
next
  assume "lines = 0"
  then show "PicTopLine chip lines = None" by (simp add: PicTopLine_find find_None_iff)
qed

subsection \<open>The blocking set and the resolver\<close>

lemma bit_fold_lines:
  assumes "\<And>n acc k. k < 8 \<Longrightarrow> bit (f n acc) k \<longleftrightarrow> bit acc k \<or> (k = n \<and> c n)"
  shows "k < 8 \<Longrightarrow> bit (fold f ns (acc :: u8)) k \<longleftrightarrow> bit acc k \<or> (k \<in> set ns \<and> c k)"
  using assms by (induction ns arbitrary: acc) auto

definition blocks :: "pic_chip \<Rightarrow> bool \<Rightarrow> nat \<Rightarrow> nat \<Rightarrow> bool" where
  \<comment> \<open>in-service line \<open>other\<close> stops \<open>line\<close>\<close>
  "blocks chip isMaster line other \<longleftrightarrow>
     bit (Isr chip) other \<and> \<not> (IsSpecialMaskMode chip \<and> bit (Imr chip) other) \<and>
     \<not> (isMaster \<and> IsSpecialFullyNested chip \<and> line = 2 \<and> other = 2) \<and>
     PicRank chip other \<le> PicRank chip line"

lemma bit_PicEffectiveIsr:
  "bit (PicEffectiveIsr chip) n \<longleftrightarrow>
     bit (Isr chip) n \<and> \<not> (IsSpecialMaskMode chip \<and> bit (Imr chip) n)"
  by (auto simp: PicEffectiveIsr_def bit_mask_out)

lemma bit_PicBlockers:
  assumes "k < 8"
  shows "bit (PicBlockers chip line isMaster) k \<longleftrightarrow> blocks chip isMaster line k"
proof -
  let ?f = "\<lambda>other (acc :: u8). if \<not> bit (PicEffectiveIsr chip) other then acc
     else if isMaster \<and> IsSpecialFullyNested chip \<and> line = 2 \<and> other = 2 then acc
     else if PicRank chip other \<le> PicRank chip line then acc OR line_bit other else acc"
  have step: "bit (?f n acc) j \<longleftrightarrow> bit acc j \<or> (j = n \<and> blocks chip isMaster line n)"
    if "j < 8" for n j :: nat and acc :: u8
    using that by (auto simp: bit_facts bit_PicEffectiveIsr blocks_def)
  from bit_fold_lines [of ?f "blocks chip isMaster line", OF step assms]
  have "bit (fold ?f [0..<8] 0) k \<longleftrightarrow> k \<in> set [0..<8] \<and> blocks chip isMaster line k" by simp
  with assms show ?thesis by (simp add: PicBlockers_def)
qed

lemma PicBlockers_zero_iff:
  "PicBlockers chip line isMaster = 0 \<longleftrightarrow> (\<forall>other<8. \<not> blocks chip isMaster line other)"
proof -
  have "PicBlockers chip line isMaster = 0 \<longleftrightarrow> (\<forall>n. \<not> bit (PicBlockers chip line isMaster) n)"
    by (rule word_eq_zero_iff_no_bit)
  also have "\<dots> \<longleftrightarrow> (\<forall>n<8. \<not> bit (PicBlockers chip line isMaster) n)"
    using bit_imp_le_length by fastforce
  finally show ?thesis by (simp add: bit_PicBlockers)
qed

lemma PicIsLineOpen_iff:
  "PicIsLineOpen chip line isMaster \<longleftrightarrow>
     \<not> bit (Imr chip) line \<and> (\<forall>other<8. \<not> blocks chip isMaster line other)"
  by (simp add: PicIsLineOpen_def PicBlockers_zero_iff)

lemma PicIsLineOpen_not_in_service:
  assumes "PicIsLineOpen chip line isMaster" "line < 8" "\<not> (isMaster \<and> line = 2)"
  shows "\<not> bit (Isr chip) line"
  using assms by (auto simp: PicIsLineOpen_iff blocks_def)

lemma unat_irq_less [simp]:
  "(irq :: u8) < 8 \<longleftrightarrow> unat irq < 8" "(irq :: u8) < 16 \<longleftrightarrow> unat irq < 16"
  "(8 :: u8) \<le> irq \<longleftrightarrow> 8 \<le> unat irq" "(16 :: u8) \<le> irq \<longleftrightarrow> 16 \<le> unat irq"
  by (simp_all add: word_less_nat_alt word_le_nat_alt)

lemma line_of_irq:
  "n < 8 \<Longrightarrow> n mod 8 = (n :: nat)" "8 \<le> n \<Longrightarrow> n < 16 \<Longrightarrow> n mod 8 = n - (8 :: nat)"
  by (simp_all add: mod_nat_eqI)

lemma VddPicCanDeliver_iff:
  "VddPicCanDeliver s irq \<longleftrightarrow>
     (if unat irq < 8 then PicIsLineOpen (Master s) (unat irq) True
      else unat irq < 16 \<and> PicIsLineOpen (Slave s) (unat irq - 8) False \<and>
           PicIsLineOpen (Master s) 2 True)"
  by (cases "unat irq < 8"; cases "unat irq < 16") (simp_all add: VddPicCanDeliver_def line_of_irq)

subsection \<open>The chips' type invariant\<close>

lemma and_7_less_8: "unat ((value :: u8) AND 7) < 8"
proof -
  have "value AND 7 \<le> 7" by (rule word_and_le1)
  then show ?thesis by (simp add: word_le_nat_alt)
qed

lemma of_nat_line_le_7: "line < 8 \<Longrightarrow> (of_nat line :: u8) \<le> 7"
  by (simp add: word_le_nat_alt unat_of_nat take_bit_nat_eq_self)

lemma chip_ok_update [simp]:
  "chip_ok (chip\<lparr>Imr := v\<rparr>) = chip_ok chip" "chip_ok (chip\<lparr>Irr := v\<rparr>) = chip_ok chip"
  "chip_ok (chip\<lparr>Isr := v\<rparr>) = chip_ok chip" "chip_ok (chip\<lparr>VectorBase := v\<rparr>) = chip_ok chip"
  "chip_ok (chip\<lparr>IcwStep := w\<rparr>) = chip_ok chip" "chip_ok (chip\<lparr>IsIcw4Needed := b\<rparr>) = chip_ok chip"
  "chip_ok (chip\<lparr>IsIsrSelected := b\<rparr>) = chip_ok chip" "chip_ok (chip\<lparr>IsAutoEoi := b\<rparr>) = chip_ok chip"
  "chip_ok (chip\<lparr>IsPollArmed := b\<rparr>) = chip_ok chip"
  "chip_ok (chip\<lparr>IsRotateInAutoEoi := b\<rparr>) = chip_ok chip"
  "chip_ok (chip\<lparr>IsSpecialMaskMode := b\<rparr>) = chip_ok chip"
  "chip_ok (chip\<lparr>IsSpecialFullyNested := b\<rparr>) = chip_ok chip"
  "chip_ok (chip\<lparr>LowestPriority := v\<rparr>) \<longleftrightarrow> v \<le> 7"
  by (simp_all add: chip_ok_def)

lemma chip_ok_PicInterruptAcknowledge:
  "line < 8 \<Longrightarrow> chip_ok chip \<Longrightarrow> chip_ok (PicInterruptAcknowledge chip line)"
  by (simp add: PicInterruptAcknowledge_def of_nat_line_le_7)

lemma chip_ok_PicIcw1: "chip_ok (PicIcw1 chip value)"
  by (simp add: PicIcw1_def Let_def)

lemma chip_ok_PicOcw3: "chip_ok chip \<Longrightarrow> chip_ok (PicOcw3 chip value)"
  by (simp add: PicOcw3_def Let_def)

lemma chip_ok_PicOcw2: "chip_ok chip \<Longrightarrow> chip_ok (PicOcw2 chip value)"
  by (auto simp: PicOcw2_def Let_def word_and_le1 of_nat_line_le_7 PicTopLine_Some_iff
      split: option.splits)

lemma chip_ok_PicCommandWrite: "chip_ok chip \<Longrightarrow> chip_ok (PicCommandWrite chip value)"
  by (simp add: PicCommandWrite_def chip_ok_PicIcw1 chip_ok_PicOcw3 chip_ok_PicOcw2)

lemma chip_ok_PicDataWrite: "chip_ok chip \<Longrightarrow> chip_ok (PicDataWrite chip value)"
  by (simp add: PicDataWrite_def split: icw_step.splits)

lemma chip_ok_PicBaseRead: "chip_ok chip \<Longrightarrow> chip_ok (fst (PicBaseRead chip isMaster))"
  by (auto simp: PicBaseRead_def PicPollRead_def PicTopLine_Some_iff
      intro!: chip_ok_PicInterruptAcknowledge split: option.splits)

lemma pic_ok_PicPortOut: "pic_ok s \<Longrightarrow> pic_ok (PicPortOut s port width value)"
  by (simp add: pic_ok_def PicPortOut_def Let_def chip_ok_PicCommandWrite chip_ok_PicDataWrite)

lemma pic_ok_PicPortIn: "pic_ok s \<Longrightarrow> pic_ok (fst (PicPortIn s port width))"
  using chip_ok_PicBaseRead [of "Master s" True] chip_ok_PicBaseRead [of "Slave s" False]
  by (auto simp: pic_ok_def PicPortIn_def split: prod.splits)

interpretation pic: port_device PicPortIn PicPortOut pic_ok
  by unfold_locales (auto intro: pic_ok_PicPortIn pic_ok_PicPortOut)

text \<open>Everything that happens to the pair: the host's calls and the guest's port accesses.\<close>

datatype pic_event =
    Raise u8
  | Deliver u8
  | DeliverAutoEoi u8
  | HostEoi u8
  | Access port_access

fun pic_step :: "pic_event \<Rightarrow> pic_state \<Rightarrow> pic_state" where
  "pic_step (Raise irq) s = VddPicRaise s irq"
| "pic_step (Deliver irq) s = VddPicAcknowledge s irq"
| "pic_step (DeliverAutoEoi irq) s = VddPicAcknowledgeAutoEoi s irq"
| "pic_step (HostEoi irq) s = VddPicEndOfInterrupt s irq"
| "pic_step (Access a) s = guest_access PicPortIn PicPortOut a s"

lemma pic_ok_VddPicAcknowledge: "pic_ok s \<Longrightarrow> pic_ok (VddPicAcknowledge s irq)"
  by (auto simp: pic_ok_def VddPicAcknowledge_def PicAcknowledgeLine_def
      intro!: chip_ok_PicInterruptAcknowledge)

lemma pic_ok_VddPicEndOfInterrupt: "pic_ok s \<Longrightarrow> pic_ok (VddPicEndOfInterrupt s irq)"
  by (simp add: pic_ok_def VddPicEndOfInterrupt_def Let_def)

lemma irq_le_7: "unat (irq :: u8) < 8 \<Longrightarrow> irq \<le> 7"
  by (simp add: word_le_nat_alt)

lemma pic_ok_VddPicRaise: "pic_ok s \<Longrightarrow> pic_ok (VddPicRaise s irq)"
  by (simp add: pic_ok_def VddPicRaise_def)

lemma pic_ok_VddPicAcknowledgeAutoEoi: "pic_ok s \<Longrightarrow> pic_ok (VddPicAcknowledgeAutoEoi s irq)"
  using pic_ok_VddPicEndOfInterrupt [OF pic_ok_VddPicAcknowledge]
  by (auto simp: VddPicAcknowledgeAutoEoi_def Let_def pic_ok_def irq_le_7)

lemma pic_ok_pic_step: "pic_ok s \<Longrightarrow> pic_ok (pic_step e s)"
  by (cases e) (simp_all add: pic_ok_VddPicRaise pic_ok_VddPicAcknowledge pic.access_inv
      pic_ok_VddPicAcknowledgeAutoEoi pic_ok_VddPicEndOfInterrupt)

lemma pic_ok_run: "pic_ok s \<Longrightarrow> pic_ok (fold pic_step es s)"
  by (induction es arbitrary: s) (simp_all add: pic_ok_pic_step)

subsection \<open>The re-entrancy guard\<close>

definition in_service :: "pic_state \<Rightarrow> u8 \<Rightarrow> bool" where
  "in_service s irq =
     (if irq < 8 then bit (Isr (Master s)) (unat irq)
      else irq < 16 \<and> bit (Isr (Slave s)) (unat irq - 8))"

text \<open>The operations that may end an interrupt: an EOI (OCW2 with bit 5), or an ICW1.\<close>

definition eoi_command :: "u8 \<Rightarrow> bool" where
  "eoi_command v \<longleftrightarrow> v AND 0x10 \<noteq> 0 \<or> (v AND 0x08 = 0 \<and> v AND 0x20 \<noteq> 0)"

fun ends_service :: "pic_event \<Rightarrow> bool" where
  "ends_service (Raise irq) = False"
| "ends_service (Deliver irq) = False"
| "ends_service (DeliverAutoEoi irq) = (8 \<le> irq)"
| "ends_service (HostEoi irq) = True"
| "ends_service (Access (GuestIn port width)) = False"
| "ends_service (Access (GuestOut port width value)) =
     ((port = 0x20 \<or> port = 0xA0) \<and> eoi_command (ucast value))"

lemma and_E0_bit_5: "(v :: u8) AND 0xE0 \<in> {0x20, 0x60, 0xA0, 0xE0} \<Longrightarrow> v AND 0x20 \<noteq> 0"
proof
  assume z: "v AND 0x20 = 0" and c: "v AND 0xE0 \<in> {0x20, 0x60, 0xA0, 0xE0}"
  have "(v AND 0xE0) AND 0x20 = v AND (0xE0 AND 0x20)" by (simp only: and.assoc)
  then have "(v AND 0xE0) AND 0x20 = 0" using z by simp
  with c show False by auto
qed

lemma Isr_PicOcw2_keep: "v AND 0x20 = 0 \<Longrightarrow> Isr (PicOcw2 chip v) = Isr chip"
  using and_E0_bit_5 [of v] by (auto simp: PicOcw2_def Let_def split: option.splits)

lemma Isr_PicCommandWrite_keep:
  "\<not> eoi_command v \<Longrightarrow> Isr (PicCommandWrite chip v) = Isr chip"
  by (auto simp: PicCommandWrite_def eoi_command_def Isr_PicOcw2_keep PicOcw3_def Let_def)

lemma Isr_PicDataWrite [simp]: "Isr (PicDataWrite chip v) = Isr chip"
  by (simp add: PicDataWrite_def split: icw_step.splits)

lemma Isr_PicInterruptAcknowledge_mono:
  "bit (Isr chip) n \<Longrightarrow> bit (Isr (PicInterruptAcknowledge chip line)) n"
  by (simp add: PicInterruptAcknowledge_def bit_facts)

lemma Isr_PicBaseRead_mono: "bit (Isr chip) n \<Longrightarrow> bit (Isr (fst (PicBaseRead chip m))) n"
  by (auto simp: PicBaseRead_def PicPollRead_def intro!: Isr_PicInterruptAcknowledge_mono
      split: option.splits)

lemma pic_step_keeps_service:
  assumes "\<not> ends_service e"
  shows "bit (Isr (Master s)) n \<Longrightarrow> bit (Isr (Master (pic_step e s))) n"
    and "bit (Isr (Slave s)) n \<Longrightarrow> bit (Isr (Slave (pic_step e s))) n"
  using assms Isr_PicBaseRead_mono [of "Master s" n True] Isr_PicBaseRead_mono [of "Slave s" n False]
  by (induction e rule: ends_service.induct)
    (auto simp: VddPicRaise_def VddPicAcknowledge_def PicAcknowledgeLine_def
      VddPicAcknowledgeAutoEoi_def PicPortOut_def PicPortIn_def Let_def Isr_PicCommandWrite_keep
      intro!: Isr_PicInterruptAcknowledge_mono split: prod.splits if_splits)

lemma run_keeps_service:
  "\<forall>e\<in>set es. \<not> ends_service e \<Longrightarrow> in_service s irq \<Longrightarrow> in_service (fold pic_step es s) irq"
proof (induction es arbitrary: s)
  case (Cons e es)
  then have "in_service (pic_step e s) irq"
    using pic_step_keeps_service [of e s] by (auto simp: in_service_def split: if_splits)
  with Cons show ?case by simp
qed simp

lemma in_service_not_deliverable:
  assumes "in_service s irq" "irq \<noteq> 2"
  shows "\<not> VddPicCanDeliver s irq"
proof (cases "unat irq < 8")
  case True
  with assms have "unat irq \<noteq> 2" by (simp add: word_unat_eq_iff)
  with assms(1) True show ?thesis
    using PicIsLineOpen_not_in_service [of "Master s" "unat irq" True]
    by (auto simp: VddPicCanDeliver_iff in_service_def)
next
  case False
  with assms(1) have "unat irq - 8 < 8" by (auto simp: in_service_def)
  with False assms(1) show ?thesis
    using PicIsLineOpen_not_in_service [of "Slave s" "unat irq - 8" False]
    by (auto simp: VddPicCanDeliver_iff in_service_def)
qed

text \<open>
  C6. The re-entrancy guard. Once a line's in-service bit is set, no sequence of host calls
  and guest port accesses that contains no EOI and no ICW1 makes the PIC deliver that
  line again: whatever the guest does to the mask, the read selects, the special mask mode
  or the priorities in between. (Line 2 is the cascade input, which the host never raises.)
\<close>

theorem pic_no_reentry:
  assumes "in_service s irq" "irq \<noteq> 2" "\<forall>e\<in>set es. \<not> ends_service e"
  shows "\<not> VddPicCanDeliver (fold pic_step es s) irq"
  using in_service_not_deliverable run_keeps_service assms by blast

definition pic_boot :: pic_state where
  "pic_boot = (let chip = \<lparr>Imr = 0, Irr = 0, Isr = 0, VectorBase = 0, IcwStep = Running,
     IsIcw4Needed = False, IsIsrSelected = False, IsAutoEoi = False, IsPollArmed = False,
     LowestPriority = 0, IsRotateInAutoEoi = False, IsSpecialMaskMode = False,
     IsSpecialFullyNested = False\<rparr>
   in VddPicReset \<lparr>Master = chip, Slave = chip\<rparr>)"

lemma pic_no_reentry_witness:
  "VddPicCanDeliver pic_boot 1 \<and>
   \<not> VddPicCanDeliver (fold pic_step [Raise 1, Access (GuestOut 0x21 1 0x00)]
       (VddPicAcknowledge pic_boot 1)) 1"
proof
  show "VddPicCanDeliver pic_boot 1" by code_simp
  show "\<not> VddPicCanDeliver (fold pic_step [Raise 1, Access (GuestOut 0x21 1 0x00)]
       (VddPicAcknowledge pic_boot 1)) 1"
    by (rule pic_no_reentry) (code_simp, simp, simp)
qed

lemma open_line_outranked:
  assumes "\<not> PicIsLineOpen chip topl im" "\<not> bit (Imr chip) topl" "topl < 8" "line < 8"
    and "PicRank chip topl \<le> PicRank chip line"
  shows "\<not> PicIsLineOpen chip line im"
proof -
  from assms(1,2) obtain other where o: "other < 8" "blocks chip im topl other"
    by (auto simp: PicIsLineOpen_iff)
  have "blocks chip im line other \<or> line = 2 \<and> other = 2 \<and> topl \<noteq> 2"
    using o assms(5) by (auto simp: blocks_def)
  moreover have "\<not> (line = 2 \<and> other = 2 \<and> topl \<noteq> 2)"
  proof
    assume c: "line = 2 \<and> other = 2 \<and> topl \<noteq> 2"
    with o assms(5) have "PicRank chip topl = PicRank chip 2" by (simp add: blocks_def)
    with c assms(3) PicRank_inj [of chip topl 2] show False by simp
  qed
  ultimately show ?thesis using o(1) by (auto simp: PicIsLineOpen_iff)
qed

text \<open>
  A poll read is an acknowledge. It answers with bit 7 set exactly when some requested
  line could be delivered; the line it names is then the open requested line of highest
  priority, and the chip is left as a delivery of that line leaves it. Otherwise it answers
  0 and changes nothing: not looking past the top requested line loses no interrupt.
\<close>

theorem pic_poll_is_acknowledge:
  "case PicPollRead chip isMaster of (chip', answer) \<Rightarrow>
     (if \<exists>line<8. bit (Irr chip) line \<and> PicIsLineOpen chip line isMaster
      then \<exists>line<8. answer = 0x80 OR of_nat line \<and> bit (Irr chip) line \<and>
             PicIsLineOpen chip line isMaster \<and> chip' = PicAcknowledgeLine chip line \<and>
             (\<forall>other<8. bit (Irr chip) other \<and> PicIsLineOpen chip other isMaster \<longrightarrow>
                PicRank chip line \<le> PicRank chip other)
      else answer = 0 \<and> chip' = chip)"
proof (cases "PicTopLine chip (Irr chip AND NOT (Imr chip))")
  case None
  then have "Irr chip AND NOT (Imr chip) = 0" by (simp add: PicTopLine_None_iff)
  then have "\<not> (bit (Irr chip) line \<and> \<not> bit (Imr chip) line)" for line
    by (metis bit_mask_out bit_0_eq bot_apply bot_bool_def)
  with None show ?thesis by (auto simp: PicPollRead_def PicIsLineOpen_iff)
next
  case (Some topl)
  then have topl: "topl < 8" "bit (Irr chip) topl" "\<not> bit (Imr chip) topl"
    and least: "\<And>other. other < 8 \<Longrightarrow> bit (Irr chip) other \<Longrightarrow> \<not> bit (Imr chip) other \<Longrightarrow>
      PicRank chip topl \<le> PicRank chip other"
    by (auto simp: PicTopLine_Some_iff bit_mask_out)
  show ?thesis
  proof (cases "PicIsLineOpen chip topl isMaster")
    case True
    with Some topl have "PicPollRead chip isMaster = (PicAcknowledgeLine chip topl, 0x80 OR of_nat topl)"
      by (simp add: PicPollRead_def PicAcknowledgeLine_def)
    with True topl least show ?thesis by (auto simp: PicIsLineOpen_iff intro!: exI [of _ topl])
  next
    case False
    have "\<not> (bit (Irr chip) line \<and> PicIsLineOpen chip line isMaster)" if "line < 8" for line
      using open_line_outranked [OF False topl(3) topl(1) that] least that
      by (auto simp: PicIsLineOpen_iff)
    with Some False show ?thesis by (auto simp: PicPollRead_def)
  qed
qed

lemma pic_poll_is_acknowledge_witness:
  "let chip = (Master pic_boot)\<lparr>Irr := 3\<rparr> in
     PicPollRead chip True = (PicAcknowledgeLine chip 0, 0x80) \<and>
     (\<exists>line<8. (0x80 :: u8) = 0x80 OR of_nat line \<and> bit (Irr chip) line \<and>
        PicIsLineOpen chip line True)"
proof -
  let ?chip = "(Master pic_boot)\<lparr>Irr := 3\<rparr>"
  have p: "PicPollRead ?chip True = (PicAcknowledgeLine ?chip 0, 0x80)" by code_simp
  have o: "bit (Irr ?chip) 0 \<and> PicIsLineOpen ?chip 0 True" by code_simp
  then have e: "\<exists>line<8. bit (Irr ?chip) line \<and> PicIsLineOpen ?chip line True" by (intro exI [of _ 0]) simp
  have "\<exists>line<8. (0x80 :: u8) = 0x80 OR of_nat line \<and> bit (Irr ?chip) line \<and>
        PicIsLineOpen ?chip line True"
    using pic_poll_is_acknowledge [of ?chip True] e unfolding p prod.case if_P [OF e] by blast
  with p show ?thesis by (simp add: Let_def)
qed

subsection \<open>Acknowledging a line the host ends itself\<close>

lemma or_and_not_line:
  fixes x :: u8
  assumes "n < 8"
  shows "(x OR line_bit n) AND NOT (line_bit n) = x \<longleftrightarrow> \<not> bit x n"
proof -
  have "(x OR line_bit n) AND NOT (line_bit n) = x \<longleftrightarrow>
        (\<forall>m. (bit x m \<or> m = n \<and> n < 8) \<and> m \<noteq> n \<longleftrightarrow> bit x m)"
    by (simp add: word_eq_bits [of _ x] bit_facts)
  also have "\<dots> \<longleftrightarrow> \<not> bit x n" by auto
  finally show ?thesis .
qed

lemma and_not_line:
  fixes x :: u8
  shows "x AND NOT (line_bit n) = x \<longleftrightarrow> \<not> bit x n"
proof -
  have "x AND NOT (line_bit n) = x \<longleftrightarrow> (\<forall>m. bit x m \<and> m \<noteq> n \<longleftrightarrow> bit x m)"
    by (simp add: word_eq_bits [of _ x] bit_facts)
  then show ?thesis by auto
qed

lemma Isr_update_same: "chip\<lparr>Isr := x\<rparr> = chip \<longleftrightarrow> x = Isr chip"
  by (metis pic_chip.select_convs(3) pic_chip.surjective pic_chip.update_convs(3))

text \<open>
  Acknowledging a master line in one step, the way the tick courier does without the
  device lock, has the effect of an acknowledge followed by an EOI exactly when the line was
  not already in service; if it was, the pair would end that interrupt and the one step
  leaves it in service. For a slave line the two are the same operation.
\<close>

theorem pic_auto_eoi_net:
  "VddPicAcknowledgeAutoEoi s irq = VddPicEndOfInterrupt (VddPicAcknowledge s irq) irq \<longleftrightarrow>
     \<not> (irq < 8 \<and> in_service s irq)"
proof (cases "unat irq < 8")
  case False
  then show ?thesis by (auto simp: VddPicAcknowledgeAutoEoi_def)
next
  case True
  have lp: "of_nat (unat irq) = irq" by simp
  show ?thesis
  proof (cases "IsAutoEoi (Master s)")
    case auto: True
    have "VddPicEndOfInterrupt (VddPicAcknowledge s irq) irq =
          (VddPicAcknowledgeAutoEoi s irq)\<lparr>Master :=
            (Master (VddPicAcknowledgeAutoEoi s irq))\<lparr>Isr :=
               Isr (Master s) AND NOT (line_bit (unat irq))\<rparr>\<rparr>"
      using True auto by (simp add: VddPicAcknowledgeAutoEoi_def VddPicEndOfInterrupt_def
          VddPicAcknowledge_def PicAcknowledgeLine_def PicInterruptAcknowledge_def line_of_irq lp)
    moreover have "Isr (Master (VddPicAcknowledgeAutoEoi s irq)) = Isr (Master s)"
      using True by (simp add: VddPicAcknowledgeAutoEoi_def Let_def)
    moreover have "t\<lparr>Master := c\<rparr> = t \<longleftrightarrow> c = Master t" for t :: pic_state and c
      by (metis pic_state.select_convs(1) pic_state.surjective pic_state.update_convs(1))
    ultimately show ?thesis
      using True and_not_line [of "Isr (Master s)" "unat irq"]
        Isr_update_same [where chip = "Master (VddPicAcknowledgeAutoEoi s irq)"]
      by (auto simp: in_service_def dest: sym)
  next
    case auto: False
    have "VddPicEndOfInterrupt (VddPicAcknowledge s irq) irq =
          (VddPicAcknowledgeAutoEoi s irq)\<lparr>Master :=
            (Master (VddPicAcknowledgeAutoEoi s irq))\<lparr>Isr :=
               (Isr (Master s) OR line_bit (unat irq)) AND NOT (line_bit (unat irq))\<rparr>\<rparr>"
      using True auto by (simp add: VddPicAcknowledgeAutoEoi_def VddPicEndOfInterrupt_def
          VddPicAcknowledge_def PicAcknowledgeLine_def PicInterruptAcknowledge_def line_of_irq lp)
    moreover have "Isr (Master (VddPicAcknowledgeAutoEoi s irq)) = Isr (Master s)"
      using True by (simp add: VddPicAcknowledgeAutoEoi_def Let_def)
    moreover have "t\<lparr>Master := c\<rparr> = t \<longleftrightarrow> c = Master t" for t :: pic_state and c
      by (metis pic_state.select_convs(1) pic_state.surjective pic_state.update_convs(1))
    ultimately show ?thesis
      using True or_and_not_line [of "unat irq" "Isr (Master s)"]
        Isr_update_same [where chip = "Master (VddPicAcknowledgeAutoEoi s irq)"]
      by (auto simp: in_service_def dest: sym)
  qed
qed

subsection \<open>Programming the chip\<close>

fun out_bytes :: "pic_state \<Rightarrow> (u16 \<times> u8) list \<Rightarrow> pic_state" where
  "out_bytes s [] = s"
| "out_bytes s ((port, v) # outs) = out_bytes (PicPortOut s port 1 (ucast v)) outs"

definition icw_sequence :: "u16 \<Rightarrow> u8 \<Rightarrow> u8 \<Rightarrow> u8 \<Rightarrow> u8 \<Rightarrow> (u16 \<times> u8) list" where
  "icw_sequence command icw1 icw2 icw3 icw4 =
     [(command, icw1), (command + 1, icw2), (command + 1, icw3)] @
     (if bit icw1 0 then [(command + 1, icw4)] else [])"

lemma bit_1_iff_and_2: "(v :: u8) AND 2 \<noteq> 0 \<longleftrightarrow> bit v 1"
proof -
  have "(2 :: u8) = line_bit 1" by simp
  then show ?thesis by (metis bit_iff_and_push_bit_not_eq_0 push_bit_of_1 and.commute)
qed

text \<open>
  Programming a chip. An ICW1 with any of its mode bits, the vector base, the cascade byte
  and, when ICW1 asks for it, ICW4, written to a chip's two ports, leave that chip running
  with the programmed base and ICW4 modes, all requests, in-service bits, masks and rotation
  cleared, and the other chip untouched; its lines then vector from the programmed base.
\<close>

theorem pic_initialisation_sequence:
  fixes s :: pic_state and icw1 base cascade icw4 irq :: u8
  assumes "icw1 AND 0x10 \<noteq> 0"
  defines "s' \<equiv> out_bytes s (icw_sequence 0x20 icw1 base cascade icw4)"
  shows "Slave s' = Slave s \<and>
    Master s' = (Master s)\<lparr>Imr := 0, Irr := 0, Isr := 0, VectorBase := base, IcwStep := Running,
      IsIcw4Needed := bit icw1 0, IsIsrSelected := False, LowestPriority := 7,
      IsSpecialMaskMode := False, IsRotateInAutoEoi := False,
      IsAutoEoi := (bit icw1 0 \<and> icw4 AND 0x02 \<noteq> 0),
      IsSpecialFullyNested := (bit icw1 0 \<and> icw4 AND 0x10 \<noteq> 0)\<rparr> \<and>
    (irq < 8 \<longrightarrow> VddPicVector s' irq = base + irq)"
  using assms(1)
  by (cases "bit icw1 0")
    (simp_all add: s'_def icw_sequence_def PicPortOut_def PicCommandWrite_def PicIcw1_def
      PicDataWrite_def VddPicVector_def)

lemma pic_initialisation_sequence_witness:
  "VddPicVector (out_bytes pic_boot (icw_sequence 0x20 0x11 0x50 0x04 0x01)) 3 = 0x53"
  using pic_initialisation_sequence [of "0x11" pic_boot "0x50" 4 1 3] by simp

subsection \<open>Fully nested mode as a stack of handlers\<close>

text \<open>
  The usual life of the pair: the host raises lines and delivers one whenever
  \<open>VddPicCanDeliver\<close> allows it, the guest rewrites the masks, and a handler ends with its
  non-specific EOI (to both chips for a slave line). \<open>pic_nest s st\<close> is a reachable state
  together with the stack of handlers entered and not yet returned from, innermost first.
\<close>

definition handler_eoi :: "pic_state \<Rightarrow> u8 \<Rightarrow> pic_state" where
  "handler_eoi s irq =
     (if irq < 8 then PicPortOut s 0x20 1 0x20
      else PicPortOut (PicPortOut s 0xA0 1 0x20) 0x20 1 0x20)"

inductive pic_nest :: "pic_state \<Rightarrow> u8 list \<Rightarrow> bool" where
  boot: "pic_nest (VddPicReset s) []"
| raise: "pic_nest s st \<Longrightarrow> pic_nest (VddPicRaise s irq) st"
| mask: "pic_nest s st \<Longrightarrow> port = 0x21 \<or> port = 0xA1 \<Longrightarrow> pic_nest (PicPortOut s port width v) st"
| enter: "pic_nest s st \<Longrightarrow> irq \<noteq> 2 \<Longrightarrow> VddPicCanDeliver s irq \<Longrightarrow>
     pic_nest (VddPicAcknowledge s irq) (irq # st)"
| return: "pic_nest s (irq # st) \<Longrightarrow> pic_nest (handler_eoi s irq) st"

definition master_line :: "u8 \<Rightarrow> nat" where
  "master_line irq = (if irq < 8 then unat irq else 2)"

definition plain_chip :: "pic_chip \<Rightarrow> bool" where
  "plain_chip chip \<longleftrightarrow> IcwStep chip = Running \<and> \<not> IsAutoEoi chip \<and> \<not> IsSpecialMaskMode chip \<and>
     \<not> IsSpecialFullyNested chip \<and> LowestPriority chip = 7"

definition nest_inv :: "pic_state \<Rightarrow> u8 list \<Rightarrow> bool" where
  "nest_inv s st \<longleftrightarrow>
     plain_chip (Master s) \<and> plain_chip (Slave s) \<and>
     (\<forall>irq\<in>set st. irq < 16 \<and> irq \<noteq> 2) \<and>
     sorted_wrt (<) (map master_line st) \<and>
     (\<forall>n. bit (Isr (Master s)) n \<longleftrightarrow> n \<in> master_line ` set st) \<and>
     (\<forall>n. bit (Isr (Slave s)) n \<longleftrightarrow> (\<exists>irq\<in>set st. 8 \<le> irq \<and> n = unat irq - 8))"

lemma plain_PicRank: "plain_chip chip \<Longrightarrow> line < 8 \<Longrightarrow> PicRank chip line = line"
  by (simp add: plain_chip_def PicRank_fixed)

lemma plain_chip_update [simp]:
  "plain_chip (chip\<lparr>Imr := v\<rparr>) = plain_chip chip" "plain_chip (chip\<lparr>Irr := v\<rparr>) = plain_chip chip"
  "plain_chip (chip\<lparr>Isr := v\<rparr>) = plain_chip chip"
  by (simp_all add: plain_chip_def)

lemma plain_open_iff:
  assumes "plain_chip chip" "line < 8"
  shows "PicIsLineOpen chip line m \<longleftrightarrow>
     \<not> bit (Imr chip) line \<and> (\<forall>other<8. bit (Isr chip) other \<longrightarrow> line < other)"
  using assms by (auto simp: PicIsLineOpen_iff blocks_def plain_PicRank plain_chip_def not_le)

lemma plain_ack: "plain_chip chip \<Longrightarrow>
    PicInterruptAcknowledge chip line = chip\<lparr>Isr := Isr chip OR line_bit line\<rparr>"
  by (simp add: PicInterruptAcknowledge_def plain_chip_def)

lemma plain_eoi:
  assumes "plain_chip chip" "bit (Isr chip) line" "\<forall>n. bit (Isr chip) n \<longrightarrow> line \<le> n"
  shows "PicCommandWrite chip 0x20 = chip\<lparr>Isr := Isr chip AND NOT (line_bit line)\<rparr>"
proof -
  from assms(2) have "line < 8" using bit_imp_le_length by fastforce
  with assms have "PicTopLine chip (Isr chip) = Some line"
    by (auto simp: PicTopLine_Some_iff plain_PicRank)
  then show ?thesis by (simp add: PicCommandWrite_def PicOcw2_def)
qed

lemma nest_raise: "nest_inv s st \<Longrightarrow> nest_inv (VddPicRaise s irq) st"
  by (auto simp: nest_inv_def VddPicRaise_def)

lemma nest_mask:
  "nest_inv s st \<Longrightarrow> port = 0x21 \<or> port = 0xA1 \<Longrightarrow> nest_inv (PicPortOut s port width v) st"
  by (auto simp: nest_inv_def PicPortOut_def PicDataWrite_def plain_chip_def)

lemma nest_boot: "nest_inv (VddPicReset s) []"
  by (simp add: nest_inv_def VddPicReset_def PicChipReset_def plain_chip_def)

lemma cascade_bits:
  "bit ((x :: u8) OR 4) n \<longleftrightarrow> bit x n \<or> n = 2" "bit ((x :: u8) AND - 5) n \<longleftrightarrow> bit x n \<and> n \<noteq> 2"
  using bit_set_line [of x 2 n] bit_clear_line [of x 2 n] by auto

lemma unat_irq_eq_iff: "unat (i :: u8) = unat j \<longleftrightarrow> i = j"
  by (simp add: word_unat_eq_iff)

lemma master_line_less_8: "irq < 16 \<Longrightarrow> master_line irq < 8"
  by (simp add: master_line_def)

lemma sorted_lines_distinct: "sorted_wrt (<) (map master_line st) \<Longrightarrow> distinct (map master_line st)"
  by (simp add: strict_sorted_iff)

lemma nest_enter:
  assumes inv: "nest_inv s st" and irq: "irq \<noteq> 2" and can: "VddPicCanDeliver s irq"
  shows "nest_inv (VddPicAcknowledge s irq) (irq # st)"
proof -
  from can have lt: "unat irq < 16" by (auto simp: VddPicCanDeliver_iff split: if_splits)
  have plain: "plain_chip (Master s)" "plain_chip (Slave s)" using inv by (auto simp: nest_inv_def)
  have "PicIsLineOpen (Master s) (master_line irq) True"
    using can by (auto simp: VddPicCanDeliver_iff master_line_def split: if_splits)
  then have above: "\<forall>n\<in>master_line ` set st. master_line irq < n"
    using inv plain lt master_line_less_8
    by (auto simp: plain_open_iff nest_inv_def)
  show ?thesis
  proof (cases "unat irq < 8")
    case True
    then have own: "master_line irq = unat irq" by (simp add: master_line_def)
    from True show ?thesis using inv plain lt irq above
      by (auto simp: nest_inv_def VddPicAcknowledge_def PicAcknowledgeLine_def plain_ack
          own line_of_irq bit_facts)
  next
    case False
    then have two: "master_line irq = 2" by (simp add: master_line_def)
    from False show ?thesis using inv plain lt irq above
      by (auto simp: nest_inv_def VddPicAcknowledge_def PicAcknowledgeLine_def plain_ack
          two line_of_irq bit_facts cascade_bits)
  qed
qed

lemma nest_return:
  assumes inv: "nest_inv s (irq # st)"
  shows "nest_inv (handler_eoi s irq) st"
proof -
  from inv have lt: "unat irq < 16" and plain: "plain_chip (Master s)" "plain_chip (Slave s)"
    and above: "\<forall>n\<in>master_line ` set st. master_line irq < n"
    by (auto simp: nest_inv_def)
  have mbit: "bit (Isr (Master s)) n \<longleftrightarrow> n = master_line irq \<or> n \<in> master_line ` set st" for n
    using inv by (simp add: nest_inv_def)
  have master: "PicCommandWrite (Master s) 0x20 =
      (Master s)\<lparr>Isr := Isr (Master s) AND NOT (line_bit (master_line irq))\<rparr>"
    by (rule plain_eoi [OF plain(1)]) (use above in \<open>auto simp: mbit\<close>)
  show ?thesis
  proof (cases "unat irq < 8")
    case True
    have "bit (Isr (Slave s)) n \<longleftrightarrow> (\<exists>j\<in>set st. 8 \<le> j \<and> n = unat j - 8)" for n
      using inv True by (auto simp: nest_inv_def)
    with True inv above plain master show ?thesis
      by (auto simp: nest_inv_def handler_eoi_def PicPortOut_def bit_facts mbit)
  next
    case False
    then have two: "master_line irq = 2" by (simp add: master_line_def)
    have no_slave: "\<not> 8 \<le> unat j" if "j \<in> set st" for j
      using above that two by (force simp: master_line_def)
    have sbit: "bit (Isr (Slave s)) n \<longleftrightarrow> n = unat irq - 8" for n
      using inv False no_slave by (auto simp: nest_inv_def)
    have slave: "PicCommandWrite (Slave s) 0x20 =
        (Slave s)\<lparr>Isr := Isr (Slave s) AND NOT (line_bit (unat irq - 8))\<rparr>"
      by (rule plain_eoi [OF plain(2)]) (auto simp: sbit)
    from False inv above plain master slave two no_slave show ?thesis
      by (auto simp: nest_inv_def handler_eoi_def PicPortOut_def bit_facts cascade_bits mbit sbit)
  qed
qed

lemma pic_nest_inv: "pic_nest s st \<Longrightarrow> nest_inv s st"
  by (induction rule: pic_nest.induct)
    (auto intro: nest_boot nest_raise nest_mask nest_enter nest_return)

lemma nest_in_service_iff:
  assumes "nest_inv s st" "irq < 16" "irq \<noteq> 2"
  shows "in_service s irq \<longleftrightarrow> irq \<in> set st"
proof (cases "unat irq < 8")
  case True
  have "unat irq \<noteq> 2" using assms(3) by (simp add: word_unat_eq_iff)
  then have "unat irq \<in> master_line ` set st \<longleftrightarrow> irq \<in> set st"
    using True by (auto simp: master_line_def unat_irq_eq_iff image_iff Bex_def)
  with True assms show ?thesis by (simp add: nest_inv_def in_service_def)
next
  case False
  have "(\<exists>j\<in>set st. 8 \<le> j \<and> unat irq - 8 = unat j - 8) \<longleftrightarrow> irq \<in> set st"
  proof
    assume "\<exists>j\<in>set st. 8 \<le> j \<and> unat irq - 8 = unat j - 8"
    then obtain j where "j \<in> set st" "8 \<le> unat j" "unat irq - 8 = unat j - 8" by auto
    with False show "irq \<in> set st" by (metis eq_diff_iff linorder_le_less_linear unat_irq_eq_iff)
  qed (use False in \<open>auto intro: bexI [of _ irq]\<close>)
  with False assms show ?thesis by (simp add: nest_inv_def in_service_def)
qed

text \<open>
  C7. Fully nested delivery is a stack. In every state reached by raising, masking, delivering
  when the PIC allows it and returning from handlers, the lines in service are exactly the
  handlers on the stack, each of strictly higher priority than the ones it interrupted, at
  most eight deep; and the innermost handler's non-specific EOI ends its own interrupt and no
  other.
\<close>

theorem pic_nesting_is_a_stack:
  assumes "pic_nest s st"
  shows "(\<forall>irq. irq < 16 \<and> irq \<noteq> 2 \<longrightarrow> (in_service s irq \<longleftrightarrow> irq \<in> set st)) \<and>
    sorted_wrt (<) (map master_line st) \<and> length st \<le> 8 \<and>
    (\<forall>top rest. st = top # rest \<longrightarrow>
       (\<forall>irq. irq < 16 \<and> irq \<noteq> 2 \<longrightarrow> (in_service (handler_eoi s top) irq \<longleftrightarrow> irq \<in> set rest)))"
proof (intro conjI allI impI)
  have inv: "nest_inv s st" using assms by (rule pic_nest_inv)
  show "in_service s irq \<longleftrightarrow> irq \<in> set st" if "irq < 16 \<and> irq \<noteq> 2" for irq
    using nest_in_service_iff [OF inv] that by blast
  show sorted: "sorted_wrt (<) (map master_line st)" using inv by (simp add: nest_inv_def)
  have "card (master_line ` set st) \<le> card {..<8::nat}"
    by (rule card_mono) (use inv master_line_less_8 in \<open>auto simp: nest_inv_def\<close>)
  moreover have "card (master_line ` set st) = length st"
    using sorted_lines_distinct [OF sorted] by (metis distinct_card length_map set_map)
  ultimately show "length st \<le> 8" by simp
  show "in_service (handler_eoi s top) irq \<longleftrightarrow> irq \<in> set rest"
    if "st = top # rest" "irq < 16 \<and> irq \<noteq> 2" for top rest irq
    using nest_in_service_iff [OF nest_return [of s top rest]] inv that by blast
qed

lemma pic_nesting_is_a_stack_witness:
  "pic_nest (VddPicAcknowledge (VddPicReset pic_boot) 1) [1] \<and>
   in_service (VddPicAcknowledge (VddPicReset pic_boot) 1) 1 \<and>
   \<not> in_service (handler_eoi (VddPicAcknowledge (VddPicReset pic_boot) 1) 1) 1"
proof -
  have can: "VddPicCanDeliver (VddPicReset pic_boot) 1" by code_simp
  have n: "pic_nest (VddPicAcknowledge (VddPicReset pic_boot) 1) [1]"
    by (rule pic_nest.enter [OF pic_nest.boot _ can]) simp
  show ?thesis using n pic_nesting_is_a_stack [OF n] by auto
qed

end
