(* ===== verification/Dma_8237.thy ===== *)
theory Dma_8237
  imports Vdd_Bus
begin

text \<open>
  The two 8237A DMA controllers and the AT page registers, \<^verbatim>\<open>src/vdd/vdd_dma.c\<close>: the channels'
  address and count registers behind a byte flip-flop, mask, mode, command and request
  registers, the cascade, transfers a device pulls, and transfers the controller runs by itself.

  The state is \<open>DMA_STATE\<close> with the bus pointer replaced by what is used of it, the base that
  \<^verbatim>\<open>VddMapLinear\<close> adds to a linear address. A channel number is \<open>n mod 8\<close> for the code's
  \<open>n & DMA_CHANNEL_MASK\<close>. The DREQ routines of the other devices are opaque lines \<open>'d\<close>, and the
  argument \<open>asserts\<close> says which channels a line asserts. A device's buffer is a byte list. Byte counts
  are natural numbers; the code's 32-bit comparison in the transfer loop differs only for a
  request within two bytes of 4 GB.
\<close>

subsection \<open>State\<close>

definition DMA_MODE_TRANSFER :: u8 where "DMA_MODE_TRANSFER = 0x0C"
definition DMA_MODE_TRANSFER_WRITE :: u8 where "DMA_MODE_TRANSFER_WRITE = 0x04"
definition DMA_MODE_TRANSFER_READ :: u8 where "DMA_MODE_TRANSFER_READ = 0x08"
definition DMA_MODE_AUTOINIT :: u8 where "DMA_MODE_AUTOINIT = 0x10"
definition DMA_MODE_DECREMENT :: u8 where "DMA_MODE_DECREMENT = 0x20"
definition DMA_MODE_SELECT :: u8 where "DMA_MODE_SELECT = 0xC0"
definition DMA_COMMAND_MEMORY_TO_MEMORY :: u8 where "DMA_COMMAND_MEMORY_TO_MEMORY = 0x01"
definition DMA_COMMAND_ADDRESS_HOLD :: u8 where "DMA_COMMAND_ADDRESS_HOLD = 0x02"
definition DMA_COMMAND_DISABLE :: u8 where "DMA_COMMAND_DISABLE = 0x04"
definition DMA_MAX_TRANSFERS :: nat where "DMA_MAX_TRANSFERS = 0x10001"
definition DMA_PHYSICAL_LIMIT :: u32 where "DMA_PHYSICAL_LIMIT = 0x110000"
definition DMA_DREQ_MAX :: nat where "DMA_DREQ_MAX = 4"

record dma_channel =
  BaseAddress :: u16
  CurrentAddress :: u16
  BaseCount :: u16
  CurrentCount :: u16
  Page :: u8
  Mode :: u8
  IsMasked :: bool
  IsTerminalCount :: bool

record 'd dma_state =
  BusBase :: nat
  Channels :: "nat \<Rightarrow> dma_channel"
  FlipFlop :: "nat \<Rightarrow> bool"
  SparePage :: "nat \<Rightarrow> u8"
  Command :: "nat \<Rightarrow> u8"
  Request :: "nat \<Rightarrow> u8"
  Temporary :: "nat \<Rightarrow> u8"
  SoftwareRuns :: u32
  MemoryToMemoryRuns :: u32
  DreqLines :: "'d list"
  AddressReads :: "nat \<Rightarrow> u32"
  ChannelCountReads :: "nat \<Rightarrow> u32"
  CountReads :: u32
  StatusReads :: "nat \<Rightarrow> u32"
  CountReadsByte :: u32
  CountReadsWord :: u32
  CountReadsDword :: u32

definition update_channel :: "'d dma_state \<Rightarrow> nat \<Rightarrow> (dma_channel \<Rightarrow> dma_channel) \<Rightarrow> 'd dma_state" where
  "update_channel s c f = s\<lparr>Channels := (Channels s)(c := f (Channels s c))\<rparr>"

definition flag :: "u8 \<Rightarrow> u8 \<Rightarrow> bool" where
  "flag byte bits \<longleftrightarrow> byte AND bits \<noteq> 0"

definition DmaPageChannel :: "u16 \<Rightarrow> nat option" where
  "DmaPageChannel port =
     (if port = 0x87 then Some 0 else if port = 0x83 then Some 1 else if port = 0x81 then Some 2
      else if port = 0x82 then Some 3 else if port = 0x8B then Some 5 else if port = 0x89 then Some 6
      else if port = 0x8A then Some 7 else None)"

subsection \<open>Addresses, counts and the grant\<close>

definition VddDmaCurrentPhysical :: "'d dma_state \<Rightarrow> nat \<Rightarrow> u32" where
  "VddDmaCurrentPhysical s channelNumber =
     (let channel = Channels s (channelNumber mod 8)
      in if channelNumber mod 8 < 4
         then push_bit 16 (ucast (Page channel)) OR ucast (CurrentAddress channel)
         else push_bit 16 (ucast (Page channel) AND 0xFE) OR push_bit 1 (ucast (CurrentAddress channel)))"

definition unit_bytes :: "nat \<Rightarrow> nat" where
  "unit_bytes channelNumber = (if channelNumber mod 8 < 4 then 1 else 2)"

definition VddDmaRemaining :: "'d dma_state \<Rightarrow> nat \<Rightarrow> u32" where
  "VddDmaRemaining s channelNumber =
     (let units = ucast (CurrentCount (Channels s (channelNumber mod 8))) + 1
      in if channelNumber mod 8 < 4 then units else units * 2)"

definition clear_request :: "'d dma_state \<Rightarrow> nat \<Rightarrow> 'd dma_state" where
  "clear_request s c = s\<lparr>Request := (Request s)(c div 4 := Request s (c div 4) AND NOT (line_bit (c mod 4)))\<rparr>"

definition step_address :: "dma_channel \<Rightarrow> dma_channel" where
  "step_address channel =
     channel\<lparr>CurrentAddress := (if flag (Mode channel) DMA_MODE_DECREMENT
                                then CurrentAddress channel - 1 else CurrentAddress channel + 1)\<rparr>"

text \<open>One transfer retired: the new state and whether it was the terminal one.\<close>

definition DmaAdvance :: "'d dma_state \<Rightarrow> nat \<Rightarrow> 'd dma_state \<times> bool" where
  "DmaAdvance s channelNumber =
     (let c = channelNumber mod 8; s1 = update_channel s c step_address; channel = Channels s1 c
      in if CurrentCount channel = 0
         then (update_channel (clear_request s1 c) c
                (\<lambda>ch. if flag (Mode ch) DMA_MODE_AUTOINIT
                      then ch\<lparr>IsTerminalCount := True, CurrentAddress := BaseAddress ch, CurrentCount := BaseCount ch\<rparr>
                      else ch\<lparr>IsTerminalCount := True, CurrentCount := 0xFFFF, IsMasked := True\<rparr>), True)
         else (update_channel s1 c (\<lambda>ch. ch\<lparr>CurrentCount := CurrentCount ch - 1\<rparr>), False))"

definition DmaControllerGrants :: "'d dma_state \<Rightarrow> nat \<Rightarrow> bool" where
  "DmaControllerGrants s channelNumber \<longleftrightarrow>
     (let c = channelNumber mod 8
      in \<not> IsMasked (Channels s c) \<and> \<not> flag (Command s (c div 4)) DMA_COMMAND_DISABLE)"

definition DmaIsCascadeUp :: "'d dma_state \<Rightarrow> bool" where
  "DmaIsCascadeUp s \<longleftrightarrow> \<not> IsMasked (Channels s 4) \<and> \<not> flag (Command s 1) DMA_COMMAND_DISABLE"

definition VddDmaGrants :: "'d dma_state \<Rightarrow> nat \<Rightarrow> bool" where
  "VddDmaGrants s channelNumber \<longleftrightarrow>
     DmaControllerGrants s channelNumber \<and> (channelNumber mod 8 < 4 \<longrightarrow> DmaIsCascadeUp s)"

definition VddDmaAddDreq :: "'d dma_state \<Rightarrow> 'd \<Rightarrow> 'd dma_state \<times> bool" where
  \<comment> \<open>a registered line again is harmless; a full table fails\<close>
  "VddDmaAddDreq s line =
     (if line \<in> set (DreqLines s) then (s, True)
      else if length (DreqLines s) \<ge> DMA_DREQ_MAX then (s, False)
      else (s\<lparr>DreqLines := DreqLines s @ [line]\<rparr>, True))"

definition VddDmaDreq :: "('d \<Rightarrow> u8) \<Rightarrow> 'd dma_state \<Rightarrow> u8" where
  "VddDmaDreq asserts s =
     (let requests = fold (\<lambda>line r. r OR asserts line) (DreqLines s) 0 AND NOT 0x10;
          hrq = first_from (\<lambda>line. (bit requests line \<and> DmaControllerGrants s line) \<or>
                                   (bit (Request s 0) line \<and> \<not> flag (Command s 0) DMA_COMMAND_DISABLE)) 0 4 < 4
      in (if hrq then requests OR 0x10 else requests) OR
         (Request s 0 OR push_bit 4 (Request s 1 AND 0x0E)))"

subsection \<open>Transfers a device pulls\<close>

definition dma_pointer :: "'d dma_state \<Rightarrow> u32 \<Rightarrow> nat" where
  \<comment> \<open>\<^verbatim>\<open>VddMapLinear(state->Bus, physical)\<close>\<close>
  "dma_pointer s physical = BusBase s + unat physical"

definition read_unit :: "mem \<Rightarrow> nat \<Rightarrow> nat \<Rightarrow> u8 list" where
  "read_unit m p n = map (\<lambda>i. m (p + i)) [0..<n]"

definition write_unit :: "nat \<Rightarrow> u8 list \<Rightarrow> mem \<Rightarrow> mem" where
  "write_unit p bs m = (\<lambda>a. if p \<le> a \<and> a < p + length bs then bs ! (a - p) else m a)"

text \<open>
  \<open>DmaTransfer\<close> to a device: what the device receives, and whether terminal count was reached; the
  bytes transferred are those received.
\<close>

function dma_read_loop :: "'d dma_state \<Rightarrow> nat \<Rightarrow> mem \<Rightarrow> nat \<Rightarrow> 'd dma_state \<times> u8 list \<times> bool" where
  "dma_read_loop s c m n =
     (if n < unit_bytes c then (s, [], False)
      else let bytes = read_unit m (dma_pointer s (VddDmaCurrentPhysical s c)) (unit_bytes c);
               (s1, terminal) = DmaAdvance s c
           in if terminal \<and> \<not> flag (Mode (Channels s1 (c mod 8))) DMA_MODE_AUTOINIT then (s1, bytes, True)
              else let (s2, rest, tc) = dma_read_loop s1 c m (n - unit_bytes c)
                   in (s2, bytes @ rest, terminal \<or> tc))"
  by pat_completeness auto
termination
  by (relation "measure (\<lambda>(s, c, m, n). n)") (auto simp: unit_bytes_def)

declare dma_read_loop.simps [simp del]

function dma_write_loop :: "'d dma_state \<Rightarrow> nat \<Rightarrow> u8 list \<Rightarrow> mem \<Rightarrow> 'd dma_state \<times> mem \<times> nat \<times> bool" where
  "dma_write_loop s c source m =
     (if length source < unit_bytes c then (s, m, 0, False)
      else let m1 = write_unit (dma_pointer s (VddDmaCurrentPhysical s c)) (take (unit_bytes c) source) m;
               (s1, terminal) = DmaAdvance s c
           in if terminal \<and> \<not> flag (Mode (Channels s1 (c mod 8))) DMA_MODE_AUTOINIT
              then (s1, m1, unit_bytes c, True)
              else let (s2, m2, moved, tc) = dma_write_loop s1 c (drop (unit_bytes c) source) m1
                   in (s2, m2, unit_bytes c + moved, terminal \<or> tc))"
  by pat_completeness auto
termination
  by (relation "measure (\<lambda>(s, c, source, m). length source)") (auto simp: unit_bytes_def)

declare dma_write_loop.simps [simp del]

definition VddDmaRead :: "'d dma_state \<Rightarrow> nat \<Rightarrow> nat \<Rightarrow> mem \<Rightarrow> 'd dma_state \<times> u8 list \<times> bool" where
  "VddDmaRead s c byteCount m =
     (if \<not> VddDmaGrants s c then (s, [], False) else dma_read_loop s c m byteCount)"

definition VddDmaWrite :: "'d dma_state \<Rightarrow> nat \<Rightarrow> u8 list \<Rightarrow> mem \<Rightarrow> 'd dma_state \<times> mem \<times> nat \<times> bool" where
  "VddDmaWrite s c source m =
     (if \<not> VddDmaGrants s c then (s, m, 0, False) else dma_write_loop s c source m)"

subsection \<open>A channel as a device driver sees it\<close>

record dma_vdd_info =
  Address :: u16
  Count :: u16
  InfoPage :: u16
  Status :: u8
  InfoMode :: u8
  Mask :: u8

definition VddDmaQueryInfo :: "'d dma_state \<Rightarrow> nat \<Rightarrow> dma_vdd_info option" where
  "VddDmaQueryInfo s c =
     (if c \<ge> 8 \<or> c = 4 then None
      else let channel = Channels s c; line = c mod 4
           in Some \<lparr>Address = CurrentAddress channel, Count = CurrentCount channel, InfoPage = ucast (Page channel),
                    Status = (if IsTerminalCount channel then line_bit line else 0) OR
                             (if bit (Request s (c div 4)) line then push_bit 4 (line_bit line) else 0),
                    InfoMode = Mode channel, Mask = (if IsMasked channel then 1 else 0)\<rparr>)"

definition VddDmaSetInfo :: "'d dma_state \<Rightarrow> nat \<Rightarrow> u16 \<Rightarrow> dma_vdd_info \<Rightarrow> 'd dma_state option" where
  "VddDmaSetInfo s c flags info =
     (if c \<ge> 8 \<or> c = 4 then None
      else let line = c mod 4;
               s1 = (if bit flags 0 then update_channel s c (\<lambda>ch. ch\<lparr>CurrentAddress := Address info\<rparr>) else s);
               s2 = (if bit flags 1 then update_channel s1 c (\<lambda>ch. ch\<lparr>CurrentCount := Count info\<rparr>) else s1);
               s3 = (if bit flags 2 then update_channel s2 c (\<lambda>ch. ch\<lparr>Page := ucast (InfoPage info)\<rparr>) else s2);
               s4 = (if bit flags 3
                     then let s' = update_channel s3 c (\<lambda>ch. ch\<lparr>IsTerminalCount := bit (Status info) line\<rparr>)
                          in if bit (Status info) (line + 4)
                             then s'\<lparr>Request := (Request s')(c div 4 := Request s' (c div 4) OR line_bit line)\<rparr>
                             else clear_request s' c
                     else s3)
           in Some s4)"

text \<open>The buffer is \<open>None\<close> for a null pointer; the result is the number the call returns.\<close>

definition VddDmaRequest ::
  "'d dma_state \<Rightarrow> nat \<Rightarrow> u8 list option \<Rightarrow> mem \<Rightarrow> 'd dma_state \<times> mem \<times> u8 list option \<times> nat" where
  "VddDmaRequest s c buffer m =
     (if c \<ge> 8 \<or> c = 4 then (s, m, buffer, 0)
      else case buffer of
             None \<Rightarrow> (s, m, None, unat (VddDmaRemaining s c))
           | Some bs \<Rightarrow>
               (if bs = [] then (s, m, buffer, unat (VddDmaRemaining s c))
                else let transfer = Mode (Channels s c) AND DMA_MODE_TRANSFER
                     in if transfer = DMA_MODE_TRANSFER_READ
                        then let (s', got, tc) = VddDmaRead s c (length bs) m
                             in (s', m, Some (got @ drop (length got) bs), length got)
                        else if transfer = DMA_MODE_TRANSFER_WRITE
                        then let (s', m', moved, tc) = VddDmaWrite s c bs m in (s', m', buffer, moved)
                        else (s, m, buffer, 0)))"
subsection \<open>Transfers the controller runs by itself\<close>

definition DmaMemory :: "'d dma_state \<Rightarrow> u32 \<Rightarrow> nat option" where
  "DmaMemory s physical = (if physical \<ge> DMA_PHYSICAL_LIMIT then None else Some (dma_pointer s physical))"

primrec software_block_loop :: "nat \<Rightarrow> nat \<Rightarrow> 'd dma_state \<times> mem \<Rightarrow> ('d dma_state \<times> mem) \<times> bool" where
  \<comment> \<open>at most the given number of turns; \<open>True\<close> when the loop left at terminal count\<close>
  "software_block_loop 0 c sm = (sm, False)"
| "software_block_loop (Suc iterations) c sm =
     (let (s, m) = sm;
          m1 = (if Mode (Channels s c) AND DMA_MODE_TRANSFER = DMA_MODE_TRANSFER_WRITE
                then case DmaMemory s (VddDmaCurrentPhysical s c) of
                       None \<Rightarrow> m
                     | Some p \<Rightarrow> write_unit p (replicate (unit_bytes c) 0xFF) m
                else m);
          (s1, terminal) = DmaAdvance s c
      in if terminal then ((s1, m1), True) else software_block_loop iterations c (s1, m1))"

definition DmaSoftwareBlock :: "nat \<Rightarrow> 'd dma_state \<times> mem \<Rightarrow> 'd dma_state \<times> mem" where
  "DmaSoftwareBlock c sm =
     (let (s, m) = sm
      in fst (software_block_loop DMA_MAX_TRANSFERS c (s\<lparr>SoftwareRuns := SoftwareRuns s + 1\<rparr>, m)))"

definition memory_to_memory_cycle :: "'d dma_state \<times> mem \<Rightarrow> 'd dma_state \<times> mem" where
  \<comment> \<open>one byte through the temporary register, and the two addresses step\<close>
  "memory_to_memory_cycle sm =
     (let (s, m) = sm;
          byte = (case DmaMemory s (VddDmaCurrentPhysical s 0) of None \<Rightarrow> 0xFF | Some p \<Rightarrow> m p);
          s1 = s\<lparr>Temporary := (Temporary s)(0 := byte)\<rparr>;
          m1 = (case DmaMemory s (VddDmaCurrentPhysical s 1) of None \<Rightarrow> m | Some p \<Rightarrow> m(p := byte));
          s2 = (if flag (Command s1 0) DMA_COMMAND_ADDRESS_HOLD then s1 else update_channel s1 0 step_address)
      in (update_channel s2 1 step_address, m1))"

primrec memory_to_memory_loop :: "nat \<Rightarrow> 'd dma_state \<times> mem \<Rightarrow> ('d dma_state \<times> mem) \<times> bool" where
  "memory_to_memory_loop 0 sm = (sm, False)"
| "memory_to_memory_loop (Suc iterations) sm =
     (let (s, m) = memory_to_memory_cycle sm
      in if CurrentCount (Channels s 1) = 0 then ((s, m), True)
         else memory_to_memory_loop iterations
                (update_channel s 1 (\<lambda>ch. ch\<lparr>CurrentCount := CurrentCount ch - 1\<rparr>), m))"

definition DmaMemoryToMemory :: "'d dma_state \<times> mem \<Rightarrow> 'd dma_state \<times> mem" where
  "DmaMemoryToMemory sm =
     (let (s0, m0) = sm;
          ((s, m), _) = memory_to_memory_loop DMA_MAX_TRANSFERS
                          (s0\<lparr>MemoryToMemoryRuns := MemoryToMemoryRuns s0 + 1\<rparr>, m0);
          s1 = update_channel s 1 (\<lambda>ch. ch\<lparr>IsTerminalCount := True\<rparr>);
          s2 = s1\<lparr>Request := (Request s1)(0 := Request s1 0 AND NOT 0x03)\<rparr>;
          s3 = update_channel s2 0 (\<lambda>ch. if flag (Mode ch) DMA_MODE_AUTOINIT
                 then ch\<lparr>CurrentAddress := BaseAddress ch, CurrentCount := BaseCount ch\<rparr>
                 else ch\<lparr>IsMasked := True\<rparr>);
          s4 = update_channel s3 1 (\<lambda>ch. if flag (Mode ch) DMA_MODE_AUTOINIT
                 then ch\<lparr>CurrentAddress := BaseAddress ch, CurrentCount := BaseCount ch\<rparr>
                 else ch\<lparr>CurrentCount := 0xFFFF, IsMasked := True\<rparr>)
      in (s4, m))"

definition service_line :: "nat \<Rightarrow> nat \<Rightarrow> 'd dma_state \<times> mem \<Rightarrow> 'd dma_state \<times> mem" where
  \<comment> \<open>the body of the inner loop\<close>
  "service_line controller line sm =
     (let (s, m) = sm; c = controller * 4 + line
      in if \<not> bit (Request s controller) line then sm
         else if c = 4 then sm
         else if Mode (Channels s c) AND DMA_MODE_SELECT = DMA_MODE_SELECT then sm
         else if controller = 0 \<and> flag (Command s 0) DMA_COMMAND_MEMORY_TO_MEMORY \<and> line \<le> 1
         then (if line = 0 then DmaMemoryToMemory sm else sm)
         else DmaSoftwareBlock c sm)"

definition service_controller :: "nat \<Rightarrow> 'd dma_state \<times> mem \<Rightarrow> 'd dma_state \<times> mem" where
  "service_controller controller sm =
     (let (s, m) = sm
      in if Request s controller = 0 then sm
         else if flag (Command s controller) DMA_COMMAND_DISABLE then sm
         else if controller = 0 \<and> \<not> DmaIsCascadeUp s then sm
         else fold (service_line controller) [0..<4] sm)"

definition DmaSoftwareService :: "'d dma_state \<times> mem \<Rightarrow> 'd dma_state \<times> mem" where
  "DmaSoftwareService sm = fold service_controller [0, 1] sm"

subsection \<open>The register file\<close>

definition DmaWriteHalf :: "u16 \<Rightarrow> bool \<Rightarrow> u8 \<Rightarrow> u16 \<times> bool" where
  "DmaWriteHalf registerValue flipFlop value =
     ((if flipFlop then (registerValue AND 0x00FF) OR push_bit 8 (ucast value)
       else (registerValue AND 0xFF00) OR ucast value), \<not> flipFlop)"

definition DmaReadHalf :: "u16 \<Rightarrow> bool \<Rightarrow> u8 \<times> bool" where
  "DmaReadHalf registerValue flipFlop =
     ((if flipFlop then ucast (drop_bit 8 registerValue) else ucast registerValue), \<not> flipFlop)"

definition update_channels :: "'d dma_state \<Rightarrow> nat \<Rightarrow> (nat \<Rightarrow> dma_channel \<Rightarrow> dma_channel) \<Rightarrow> 'd dma_state" where
  \<comment> \<open>\<^verbatim>\<open>for\<close> over the four channels of a controller\<close>
  "update_channels s controller f =
     s\<lparr>Channels := (\<lambda>c. if controller * 4 \<le> c \<and> c < controller * 4 + 4 then f (c - controller * 4) (Channels s c)
                        else Channels s c)\<rparr>"

definition DmaMasterClear :: "'d dma_state \<Rightarrow> nat \<Rightarrow> 'd dma_state" where
  "DmaMasterClear s controller =
     update_channels (s\<lparr>FlipFlop := (FlipFlop s)(controller := False), Command := (Command s)(controller := 0),
         Request := (Request s)(controller := 0), Temporary := (Temporary s)(controller := 0)\<rparr>)
       controller (\<lambda>_ ch. ch\<lparr>IsMasked := True, IsTerminalCount := False\<rparr>)"

definition dma_controller :: "u16 \<Rightarrow> nat" where
  "dma_controller port = (if port \<ge> 0xC0 then 1 else 0)"

definition dma_register :: "u16 \<Rightarrow> nat" where
  "dma_register port = (if port \<ge> 0xC0 then (unat port - 0xC0) div 2 else unat port)"

definition dma_register_write :: "'d dma_state \<Rightarrow> nat \<Rightarrow> nat \<Rightarrow> u8 \<Rightarrow> 'd dma_state" where
  \<comment> \<open>the \<^verbatim>\<open>switch\<close> on the controller's registers\<close>
  "dma_register_write s controller register byteValue =
     (let line = unat (byteValue AND 3)
      in if register = 0x8 then s\<lparr>Command := (Command s)(controller := byteValue)\<rparr>
         else if register = 0x9
         then s\<lparr>Request := (Request s)(controller :=
                if flag byteValue 4 then Request s controller OR line_bit line
                else Request s controller AND NOT (line_bit line))\<rparr>
         else if register = 0xA
         then update_channel s (controller * 4 + line) (\<lambda>ch. ch\<lparr>IsMasked := flag byteValue 4\<rparr>)
         else if register = 0xB
         then update_channel s (controller * 4 + line) (\<lambda>ch. ch\<lparr>Mode := byteValue\<rparr>)
         else if register = 0xC then s\<lparr>FlipFlop := (FlipFlop s)(controller := False)\<rparr>
         else if register = 0xD then DmaMasterClear s controller
         else if register = 0xE then update_channels s controller (\<lambda>_ ch. ch\<lparr>IsMasked := False\<rparr>)
         else if register = 0xF then update_channels s controller (\<lambda>n ch. ch\<lparr>IsMasked := bit byteValue n\<rparr>)
         else s)"

definition DmaPortOut :: "'d dma_state \<times> mem \<Rightarrow> u16 \<Rightarrow> u8 \<Rightarrow> u32 \<Rightarrow> 'd dma_state \<times> mem" where
  "DmaPortOut sm port width value =
     (let (s, m) = sm; byteValue = ucast value :: u8;
          controller = dma_controller port; register = dma_register port
      in if port \<ge> 0x80 \<and> port \<le> 0x8F
         then (case DmaPageChannel port of
                 Some c \<Rightarrow> (update_channel s c (\<lambda>ch. ch\<lparr>Page := byteValue\<rparr>), m)
               | None \<Rightarrow> (s\<lparr>SparePage := (SparePage s)(unat (port AND 0x0F) := byteValue)\<rparr>, m))
         else if register < 8
         then let c = controller * 4 + register div 2;
                  value' = (if odd register then fst (DmaWriteHalf (BaseCount (Channels s c)) (FlipFlop s controller) byteValue)
                            else fst (DmaWriteHalf (BaseAddress (Channels s c)) (FlipFlop s controller) byteValue));
                  s1 = s\<lparr>FlipFlop := (FlipFlop s)(controller := \<not> FlipFlop s controller)\<rparr>
              in (update_channel s1 c (\<lambda>ch. if odd register then ch\<lparr>BaseCount := value', CurrentCount := value'\<rparr>
                                            else ch\<lparr>BaseAddress := value', CurrentAddress := value'\<rparr>), m)
         else let s1 = dma_register_write s controller register byteValue
              in if Request s1 0 OR Request s1 1 \<noteq> 0 then DmaSoftwareService (s1, m) else (s1, m))"

definition count_read :: "'d dma_state \<Rightarrow> nat \<Rightarrow> u8 \<Rightarrow> 'd dma_state" where
  \<comment> \<open>the counters of a count-register read\<close>
  "count_read s c width =
     (let s1 = s\<lparr>ChannelCountReads := (ChannelCountReads s)(c := ChannelCountReads s c + 1),
                 CountReads := CountReads s + 1\<rparr>
      in if width = 1 then s1\<lparr>CountReadsByte := CountReadsByte s1 + 1\<rparr>
         else if width = 2 then s1\<lparr>CountReadsWord := CountReadsWord s1 + 1\<rparr>
         else s1\<lparr>CountReadsDword := CountReadsDword s1 + 1\<rparr>)"

definition DmaPortIn :: "('d \<Rightarrow> u8) \<Rightarrow> 'd dma_state \<times> mem \<Rightarrow> u16 \<Rightarrow> u8 \<Rightarrow> ('d dma_state \<times> mem) \<times> u32" where
  "DmaPortIn asserts sm port width =
     (let (s, m) = sm; controller = dma_controller port; register = dma_register port
      in if port \<ge> 0x80 \<and> port \<le> 0x8F
         then (sm, case DmaPageChannel port of
                     Some c \<Rightarrow> ucast (Page (Channels s c))
                   | None \<Rightarrow> ucast (SparePage s (unat (port AND 0x0F))))
         else if register < 8
         then let c = controller * 4 + register div 2;
                  s1 = (if odd register then count_read s c width
                        else s\<lparr>AddressReads := (AddressReads s)(c := AddressReads s c + 1)\<rparr>);
                  (value, flipFlop) = DmaReadHalf (if odd register then CurrentCount (Channels s c)
                                                   else CurrentAddress (Channels s c)) (FlipFlop s controller)
              in ((s1\<lparr>FlipFlop := (FlipFlop s1)(controller := flipFlop)\<rparr>, m), ucast value)
         else if register = 0x8
         then let tc = fold (\<lambda>line status. if IsTerminalCount (Channels s (controller * 4 + line))
                                           then status OR line_bit line else status) [0..<4] (0 :: u8);
                  s1 = update_channels (s\<lparr>StatusReads := (StatusReads s)(controller := StatusReads s controller + 1)\<rparr>)
                         controller (\<lambda>_ ch. ch\<lparr>IsTerminalCount := False\<rparr>);
                  status = tc OR push_bit 4 (drop_bit (controller * 4) (VddDmaDreq asserts s1) AND 0x0F)
              in ((s1, m), ucast status)
         else if register = 0xD then (sm, ucast (Temporary s controller))
         else (sm, 0xFF))"

subsection \<open>Power-on\<close>

definition DmaPost :: "'d dma_state \<Rightarrow> 'd dma_state" where
  "DmaPost s = update_channel s 4 (\<lambda>ch. ch\<lparr>Mode := DMA_MODE_SELECT, IsMasked := False\<rparr>)"

definition zero_channel :: dma_channel where
  "zero_channel = \<lparr>BaseAddress = 0, CurrentAddress = 0, BaseCount = 0, CurrentCount = 0, Page = 0, Mode = 0,
     IsMasked = False, IsTerminalCount = False\<rparr>"

definition VddDmaReset :: "'d dma_state \<Rightarrow> 'd dma_state" where
  \<comment> \<open>everything zero but the bus and the DREQ wiring, then the master clears and POST\<close>
  "VddDmaReset s =
     DmaPost (DmaMasterClear (DmaMasterClear
       \<lparr>BusBase = BusBase s, Channels = (\<lambda>_. zero_channel), FlipFlop = (\<lambda>_. False), SparePage = (\<lambda>_. 0),
        Command = (\<lambda>_. 0), Request = (\<lambda>_. 0), Temporary = (\<lambda>_. 0), SoftwareRuns = 0, MemoryToMemoryRuns = 0,
        DreqLines = DreqLines s, AddressReads = (\<lambda>_. 0), ChannelCountReads = (\<lambda>_. 0), CountReads = 0,
        StatusReads = (\<lambda>_. 0), CountReadsByte = 0, CountReadsWord = 0, CountReadsDword = 0\<rparr> 0) 1)"

definition VddDmaInitialize ::
  "('d \<Rightarrow> u8) \<Rightarrow> (('d dma_state \<times> mem) \<Rightarrow> 'm \<Rightarrow> 'm) \<Rightarrow> ('m \<Rightarrow> 'd dma_state \<times> mem) \<Rightarrow>
   ('m, 'r, 'f) vdd_bus \<Rightarrow> 'm \<Rightarrow> ('m, 'r, 'f) vdd_bus \<times> 'm \<times> bool" where
  "VddDmaInitialize asserts put get bus machine =
     (let (s, m) = get machine;
          s1 = DmaPost (DmaMasterClear (DmaMasterClear (s\<lparr>BusBase := MemoryBase bus\<rparr>) 0) 1);
          machine1 = put (s1, m) machine;
          pin = Some (slot_in get put (DmaPortIn asserts)); pout = Some (slot_out get put DmaPortOut);
          (bus1, ok1) = VddClaimPorts bus 0x00 0x0F pin pout
      in if \<not> ok1 then (bus1, machine1, False)
         else let (bus2, ok2) = VddClaimPorts bus1 0x80 0x8F pin pout
              in if \<not> ok2 then (bus2, machine1, False)
                 else let (bus3, ok3) = VddClaimPorts bus2 0xC0 0xDF pin pout
                      in (bus3, machine1, ok3))"

end
