(* ===== verification/Dma_Transfer.thy ===== *)
theory Dma_Transfer
  imports Dma_8237
begin

text \<open>
  What a device gets when it pulls or pushes a block through its DMA channel. The walk of one
  channel, \<open>retire\<close>, is separated from the controller state around it; the two transfer loops
  are then closed forms over the iterated walk, and the properties follow for single-cycle
  blocks and for auto-initialising rings.
\<close>

subsection \<open>The walk of one channel\<close>

definition channel_physical :: "nat \<Rightarrow> dma_channel \<Rightarrow> u32" where
  "channel_physical c channel =
     (if c mod 8 < 4 then push_bit 16 (ucast (Page channel)) OR ucast (CurrentAddress channel)
      else push_bit 16 (ucast (Page channel) AND 0xFE) OR push_bit 1 (ucast (CurrentAddress channel)))"

lemma VddDmaCurrentPhysical_channel: "VddDmaCurrentPhysical s c = channel_physical c (Channels s (c mod 8))"
  by (simp add: VddDmaCurrentPhysical_def channel_physical_def Let_def)

definition retire :: "dma_channel \<Rightarrow> dma_channel" where
  "retire channel =
     (if CurrentCount channel \<noteq> 0 then (step_address channel)\<lparr>CurrentCount := CurrentCount channel - 1\<rparr>
      else if flag (Mode channel) DMA_MODE_AUTOINIT
      then channel\<lparr>IsTerminalCount := True, CurrentAddress := BaseAddress channel, CurrentCount := BaseCount channel\<rparr>
      else (step_address channel)\<lparr>IsTerminalCount := True, CurrentCount := 0xFFFF, IsMasked := True\<rparr>)"

definition channel_walked :: "nat \<Rightarrow> dma_channel \<Rightarrow> dma_channel" where
  "channel_walked k channel = (retire ^^ k) channel"

lemma channel_walked_0 [simp]: "channel_walked 0 channel = channel"
  by (simp add: channel_walked_def)

lemma channel_walked_Suc: "channel_walked (Suc k) channel = channel_walked k (retire channel)"
  by (simp add: channel_walked_def funpow_swap1)

lemma channel_walked_Suc': "channel_walked (Suc k) channel = retire (channel_walked k channel)"
  by (simp add: channel_walked_def)

lemma step_address_simps [simp]:
  "CurrentCount (step_address ch) = CurrentCount ch" "Mode (step_address ch) = Mode ch"
  "BaseAddress (step_address ch) = BaseAddress ch" "BaseCount (step_address ch) = BaseCount ch"
  "Page (step_address ch) = Page ch" "IsMasked (step_address ch) = IsMasked ch"
  "IsTerminalCount (step_address ch) = IsTerminalCount ch"
  by (simp_all add: step_address_def)

lemma retire_simps [simp]:
  "Mode (retire ch) = Mode ch" "BaseAddress (retire ch) = BaseAddress ch" "BaseCount (retire ch) = BaseCount ch"
  "Page (retire ch) = Page ch"
  by (simp_all add: retire_def)

lemma channel_walked_simps [simp]:
  "Mode (channel_walked k ch) = Mode ch" "BaseAddress (channel_walked k ch) = BaseAddress ch"
  "BaseCount (channel_walked k ch) = BaseCount ch" "Page (channel_walked k ch) = Page ch"
  by (induction k arbitrary: ch) (simp_all add: channel_walked_Suc)

definition walk_state :: "'d dma_state \<Rightarrow> nat \<Rightarrow> nat \<Rightarrow> 'd dma_state" where
  \<comment> \<open>the controller after \<open>k\<close> transfers of channel \<open>c\<close>\<close>
  "walk_state s c k =
     (if unat (CurrentCount (Channels s (c mod 8))) < k then clear_request s (c mod 8) else s)
       \<lparr>Channels := (Channels s)(c mod 8 := channel_walked k (Channels s (c mod 8)))\<rparr>"

lemma clear_request_idem [simp]: "clear_request (clear_request s c) c = clear_request s c"
  by (simp add: clear_request_def and.assoc)

lemma clear_request_simps [simp]:
  "Channels (clear_request s c) = Channels s" "BusBase (clear_request s c) = BusBase s"
  "Command (clear_request s c) = Command s"
  "clear_request (s\<lparr>Channels := f\<rparr>) c = (clear_request s c)\<lparr>Channels := f\<rparr>"
  by (simp_all add: clear_request_def)

lemma DmaAdvance_walk:
  "DmaAdvance s c = (walk_state s c 1, CurrentCount (Channels s (c mod 8)) = 0)"
  by (auto simp: DmaAdvance_def walk_state_def Let_def update_channel_def channel_walked_Suc retire_def
      step_address_def unat_eq_zero)

lemma walk_state_simps [simp]:
  "BusBase (walk_state s c k) = BusBase s"
  "Channels (walk_state s c k) (c mod 8) = channel_walked k (Channels s (c mod 8))"
  "Command (walk_state s c k) = Command s"
  by (simp_all add: walk_state_def)

lemma walk_state_0 [simp]: "walk_state s c 0 = s"
  by (simp add: walk_state_def)

definition units_moved :: "dma_channel \<Rightarrow> nat \<Rightarrow> nat" where
  "units_moved channel n =
     (if flag (Mode channel) DMA_MODE_AUTOINIT then n else min n (Suc (unat (CurrentCount channel))))"

lemma unat_pred: "(x :: 'a::len word) \<noteq> 0 \<Longrightarrow> unat (x - 1) = unat x - 1"
  by (metis unat_minus_one)

lemma walk_state_Suc:
  assumes "CurrentCount (Channels s (c mod 8)) \<noteq> 0 \<or> flag (Mode (Channels s (c mod 8))) DMA_MODE_AUTOINIT"
  shows "walk_state (walk_state s c 1) c k = walk_state s c (Suc k)"
proof (cases "CurrentCount (Channels s (c mod 8)) = 0")
  case True
  then show ?thesis by (simp add: walk_state_def channel_walked_Suc)
next
  case False
  then have "unat (CurrentCount (Channels s (c mod 8))) > 0" by (simp add: unat_gt_0)
  moreover have "CurrentCount (retire (Channels s (c mod 8))) = CurrentCount (Channels s (c mod 8)) - 1"
    using False by (simp add: retire_def)
  ultimately show ?thesis using False
    by (auto simp: walk_state_def channel_walked_Suc unat_pred)
qed
subsection \<open>The transfer loops as closed forms\<close>

definition unit_pointer :: "'d dma_state \<Rightarrow> nat \<Rightarrow> nat \<Rightarrow> nat" where
  \<comment> \<open>where unit \<open>i\<close> of a transfer lies\<close>
  "unit_pointer s c i = BusBase s + unat (channel_physical c (channel_walked i (Channels s (c mod 8))))"

definition gathered :: "'d dma_state \<Rightarrow> nat \<Rightarrow> nat \<Rightarrow> mem \<Rightarrow> u8 list" where
  "gathered s c k m = concat (map (\<lambda>i. read_unit m (unit_pointer s c i) (unit_bytes c)) [0..<k])"

primrec scattered :: "'d dma_state \<Rightarrow> nat \<Rightarrow> nat \<Rightarrow> u8 list \<Rightarrow> mem \<Rightarrow> mem" where
  "scattered s c 0 source m = m"
| "scattered s c (Suc k) source m =
     write_unit (unit_pointer s c k) (take (unit_bytes c) (drop (k * unit_bytes c) source)) (scattered s c k source m)"

lemma unit_bytes_pos [simp]: "0 < unit_bytes c" "unit_bytes c \<noteq> 0"
  by (simp_all add: unit_bytes_def)

lemma length_read_unit [simp]: "length (read_unit m p n) = n"
  by (simp add: read_unit_def)

lemma length_gathered [simp]: "length (gathered s c k m) = k * unit_bytes c"
  by (induction k) (simp_all add: gathered_def)

lemma unit_pointer_shift: "unit_pointer (walk_state s c 1) c i = unit_pointer s c (Suc i)"
  by (simp add: unit_pointer_def channel_walked_Suc)

lemma gathered_Suc:
  "gathered s c (Suc k) m =
     read_unit m (unit_pointer s c 0) (unit_bytes c) @ gathered (walk_state s c 1) c k m"
proof -
  have "[0..<Suc k] = 0 # map Suc [0..<k]" by (simp add: upt_conv_Cons map_Suc_upt del: upt_Suc)
  then show ?thesis
    unfolding gathered_def by (simp add: unit_pointer_shift [unfolded One_nat_def] comp_def del: upt_Suc)
qed

lemma scattered_Suc:
  "scattered s c (Suc k) source m =
     scattered (walk_state s c 1) c k (drop (unit_bytes c) source)
       (write_unit (unit_pointer s c 0) (take (unit_bytes c) source) m)"
  by (induction k) (simp_all add: unit_pointer_shift [unfolded One_nat_def] add.commute)

lemma dma_pointer_unit: "dma_pointer s (VddDmaCurrentPhysical s c) = unit_pointer s c 0"
  by (simp add: dma_pointer_def unit_pointer_def VddDmaCurrentPhysical_channel)

lemma units_moved_Suc:
  assumes "CurrentCount ch \<noteq> 0 \<or> flag (Mode ch) DMA_MODE_AUTOINIT"
  shows "units_moved ch (Suc n) = Suc (units_moved (retire ch) n)"
proof (cases "flag (Mode ch) DMA_MODE_AUTOINIT")
  case False
  with assms have "CurrentCount ch \<noteq> 0" by simp
  then have "unat (CurrentCount ch) > 0" by (simp add: unat_gt_0)
  moreover have "CurrentCount (retire ch) = CurrentCount ch - 1"
    using \<open>CurrentCount ch \<noteq> 0\<close> by (simp add: retire_def)
  ultimately show ?thesis using False \<open>CurrentCount ch \<noteq> 0\<close> by (simp add: units_moved_def unat_pred)
qed (simp add: units_moved_def)

lemma units_div_Suc: "unit_bytes c \<le> n \<Longrightarrow> n div unit_bytes c = Suc ((n - unit_bytes c) div unit_bytes c)"
  by (simp add: le_div_geq)

lemma terminal_Suc:
  assumes "CurrentCount ch \<noteq> 0 \<or> flag (Mode ch) DMA_MODE_AUTOINIT"
  shows "(CurrentCount ch = 0 \<or> unat (CurrentCount (retire ch)) < k) \<longleftrightarrow> CurrentCount ch = 0 \<or> unat (CurrentCount ch) < Suc k"
proof (cases "CurrentCount ch = 0")
  case False
  then have "unat (CurrentCount ch) > 0" by (simp add: unat_gt_0)
  then show ?thesis using False by (auto simp: retire_def unat_pred)
qed simp

lemma dma_read_loop_walk:
  fixes s :: "'d dma_state" and c n :: nat
  defines "k \<equiv> units_moved (Channels s (c mod 8)) (n div unit_bytes c)"
  shows "dma_read_loop s c m n = (walk_state s c k, gathered s c k m, unat (CurrentCount (Channels s (c mod 8))) < k)"
  unfolding k_def
proof (induction s c m n rule: dma_read_loop.induct)
  case (1 s c m n)
  let ?ch = "Channels s (c mod 8)"
  show ?case
  proof (cases "n < unit_bytes c")
    case True
    then show ?thesis by (subst dma_read_loop.simps) (simp add: units_moved_def gathered_def)
  next
    case False
    note step = units_div_Suc [of c n]
    show ?thesis
    proof (cases "CurrentCount ?ch \<noteq> 0 \<or> flag (Mode ?ch) DMA_MODE_AUTOINIT")
      case True
      let ?s1 = "walk_state s c 1" and ?k = "units_moved (retire ?ch) ((n - unit_bytes c) div unit_bytes c)"
      have IH: "dma_read_loop ?s1 c m (n - unit_bytes c) =
          (walk_state ?s1 c ?k, gathered ?s1 c ?k m, unat (CurrentCount (retire ?ch)) < ?k)"
        using "1.IH" [OF False refl, of "DmaAdvance s c", unfolded DmaAdvance_walk, OF refl refl] True
        by (auto simp: channel_walked_Suc)
      have k: "units_moved ?ch (n div unit_bytes c) = Suc ?k"
        using step False units_moved_Suc [OF True] by simp
      show ?thesis
        using False True IH k walk_state_Suc [OF True, of ?k] terminal_Suc [OF True, of ?k]
        by (subst dma_read_loop.simps)
          (auto simp: DmaAdvance_walk gathered_Suc dma_pointer_unit channel_walked_Suc split del: if_split)
    next
      case stop: False
      then have "units_moved ?ch (n div unit_bytes c) = 1"
        using step False by (simp add: units_moved_def)
      then show ?thesis
        using False stop
        by (subst dma_read_loop.simps)
          (simp add: DmaAdvance_walk gathered_def dma_pointer_unit channel_walked_Suc)
    qed
  qed
qed
lemma dma_write_loop_walk:
  fixes s :: "'d dma_state" and c :: nat and source :: "u8 list"
  defines "k \<equiv> units_moved (Channels s (c mod 8)) (length source div unit_bytes c)"
  shows "dma_write_loop s c source m =
    (walk_state s c k, scattered s c k source m, k * unit_bytes c, unat (CurrentCount (Channels s (c mod 8))) < k)"
  unfolding k_def
proof (induction s c source m rule: dma_write_loop.induct)
  case (1 s c source m)
  let ?ch = "Channels s (c mod 8)" and ?u = "unit_bytes c"
  show ?case
  proof (cases "length source < ?u")
    case True
    then show ?thesis by (subst dma_write_loop.simps) (simp add: units_moved_def)
  next
    case False
    note step = units_div_Suc [of c "length source"]
    let ?m1 = "write_unit (unit_pointer s c 0) (take ?u source) m"
    show ?thesis
    proof (cases "CurrentCount ?ch \<noteq> 0 \<or> flag (Mode ?ch) DMA_MODE_AUTOINIT")
      case True
      let ?s1 = "walk_state s c 1" and ?rest = "drop ?u source"
      let ?k = "units_moved (retire ?ch) ((length source - ?u) div ?u)"
      have IH: "dma_write_loop ?s1 c ?rest ?m1 =
          (walk_state ?s1 c ?k, scattered ?s1 c ?k ?rest ?m1, ?k * ?u, unat (CurrentCount (retire ?ch)) < ?k)"
        using "1.IH" [OF False refl, of "DmaAdvance s c", unfolded DmaAdvance_walk, OF refl refl] True
        by (auto simp: channel_walked_Suc dma_pointer_unit)
      have k: "units_moved ?ch (length source div ?u) = Suc ?k"
        using step False units_moved_Suc [OF True] by simp
      show ?thesis
        using False True IH k walk_state_Suc [OF True, of ?k] terminal_Suc [OF True, of ?k]
        by (subst dma_write_loop.simps)
          (auto simp: DmaAdvance_walk scattered_Suc dma_pointer_unit channel_walked_Suc
            simp del: scattered.simps split del: if_split)
    next
      case stop: False
      then have "units_moved ?ch (length source div ?u) = 1"
        using step False by (simp add: units_moved_def)
      then show ?thesis
        using False stop
        by (subst dma_write_loop.simps)
          (simp add: DmaAdvance_walk dma_pointer_unit channel_walked_Suc)
    qed
  qed
qed

subsection \<open>Where the walk goes\<close>

definition stepped :: "dma_channel \<Rightarrow> nat \<Rightarrow> u16 \<Rightarrow> u16" where
  "stepped channel k address =
     (if flag (Mode channel) DMA_MODE_DECREMENT then address - of_nat k else address + of_nat k)"

lemma unat_of_nat_le: "k \<le> unat (x :: 'a::len word) \<Longrightarrow> unat (of_nat k :: 'a word) = k"
  by (rule unat_of_nat_small) (erule order_le_less_trans, rule unsigned_less)

lemma walked_within:
  "k \<le> unat (CurrentCount ch) \<Longrightarrow>
   channel_walked k ch =
     ch\<lparr>CurrentAddress := stepped ch k (CurrentAddress ch), CurrentCount := CurrentCount ch - of_nat k\<rparr>"
proof (induction k)
  case (Suc k)
  have "k \<le> unat (CurrentCount ch)" using Suc.prems by simp
  from unat_of_nat_le [OF this] Suc.prems have "CurrentCount ch \<noteq> of_nat k" by auto
  then have "CurrentCount ch - of_nat k \<noteq> 0" by simp
  moreover from Suc.prems have "k \<le> unat (CurrentCount ch)" by simp
  ultimately show ?case
    using Suc.IH by (simp add: channel_walked_Suc' retire_def step_address_def stepped_def algebra_simps)
qed (simp add: stepped_def)

lemma walked_terminal:
  assumes "\<not> flag (Mode ch) DMA_MODE_AUTOINIT"
  shows "channel_walked (Suc (unat (CurrentCount ch))) ch =
    ch\<lparr>CurrentAddress := stepped ch (Suc (unat (CurrentCount ch))) (CurrentAddress ch),
       CurrentCount := 0xFFFF, IsTerminalCount := True, IsMasked := True\<rparr>"
  using assms walked_within [of "unat (CurrentCount ch)" ch]
  by (simp add: channel_walked_Suc' retire_def step_address_def stepped_def algebra_simps)

text \<open>A ring: the channel stands \<open>p\<close> units into its block of \<open>BaseCount + 1\<close> units.\<close>

definition ring_at :: "nat \<Rightarrow> dma_channel \<Rightarrow> bool" where
  "ring_at p channel \<longleftrightarrow>
     flag (Mode channel) DMA_MODE_AUTOINIT \<and> p \<le> unat (BaseCount channel) \<and>
     CurrentAddress channel = stepped channel p (BaseAddress channel) \<and>
     CurrentCount channel = BaseCount channel - of_nat p"

definition ring_length :: "dma_channel \<Rightarrow> nat" where
  "ring_length channel = Suc (unat (BaseCount channel))"

lemma ring_at_count:
  assumes "ring_at p ch"
  shows "unat (CurrentCount ch) = unat (BaseCount ch) - p"
proof -
  have p: "p \<le> unat (BaseCount ch)" using assms by (simp add: ring_at_def)
  from unat_of_nat_le [OF p] have "unat (of_nat p :: u16) = p" .
  with p assms show ?thesis by (simp add: ring_at_def unat_sub_if_size)
qed

lemma ring_at_retire:
  assumes "ring_at p ch"
  shows "ring_at (Suc p mod ring_length ch) (retire ch)"
proof (cases "p = unat (BaseCount ch)")
  case True
  then have "CurrentCount ch = 0" using assms ring_at_count [OF assms] by (simp add: unat_eq_zero)
  then show ?thesis using True assms by (simp add: ring_at_def ring_length_def retire_def stepped_def)
next
  case False
  then have "CurrentCount ch \<noteq> 0" "Suc p mod ring_length ch = Suc p"
    using assms ring_at_count [OF assms] by (auto simp: ring_at_def ring_length_def)
  then show ?thesis using False assms
    by (simp add: ring_at_def retire_def step_address_def stepped_def algebra_simps)
qed

lemma ring_at_walked: "ring_at p ch \<Longrightarrow> ring_at ((p + k) mod ring_length ch) (channel_walked k ch)"
proof (induction k)
  case 0
  then show ?case by (simp add: ring_at_def ring_length_def)
next
  case (Suc k)
  then have "ring_at (Suc ((p + k) mod ring_length ch) mod ring_length ch) (retire (channel_walked k ch))"
    using ring_at_retire [of "(p + k) mod ring_length ch" "channel_walked k ch"] by (simp add: ring_length_def)
  then show ?case by (simp add: channel_walked_Suc' mod_Suc_eq)
qed
subsection \<open>Physical addresses of the units\<close>

lemma unat_or_disjoint:
  "(x :: 'a::len word) AND y = 0 \<Longrightarrow> unat x + unat y < 2 ^ LENGTH('a) \<Longrightarrow> unat (x OR y) = unat x + unat y"
  by (simp add: disjunctive_add_eq_or [symmetric] unat_word_ariths)

lemma unat_ucast_wide:
  "LENGTH('a) \<le> LENGTH('b) \<Longrightarrow> unat (ucast (x :: 'a::len word) :: 'b::len word) = unat x"
  by (simp add: unsigned_ucast_eq take_bit_nat_eq_self_iff)
    (rule order.strict_trans2 [OF unsigned_less], simp)

lemma unat_page_shift: "unat (push_bit 16 (ucast (page :: u8)) :: u32) = unat page * 65536"
proof -
  have "unat page < 256" using unsigned_less [of page] by simp
  then show ?thesis by (simp add: push_bit_eq_mult unat_word_ariths unat_ucast_wide)
qed

definition page_base :: "nat \<Rightarrow> dma_channel \<Rightarrow> nat" where
  \<comment> \<open>where the 64K-unit window of the channel starts\<close>
  "page_base c channel = 65536 * (if c mod 8 < 4 then unat (Page channel) else unat (Page channel AND 0xFE))"

lemma unat_channel_physical:
  "unat (channel_physical c ch) = page_base c ch + unit_bytes c * unat (CurrentAddress ch)"
proof (cases "c mod 8 < 4")
  case True
  have "push_bit 16 (ucast (Page ch)) AND (ucast (CurrentAddress ch) :: u32) = 0"
    by (rule bit_word_eqI) (auto simp: bit_simps dest: bit_imp_le_length)
  moreover have "unat (Page ch) < 256" "unat (CurrentAddress ch) < 65536"
    using unsigned_less [of "Page ch"] unsigned_less [of "CurrentAddress ch"] by simp_all
  ultimately show ?thesis
    using True by (simp add: channel_physical_def page_base_def unit_bytes_def unat_or_disjoint unat_page_shift unat_ucast_wide)
next
  case False
  have eq: "(ucast (Page ch) AND 0xFE :: u32) = ucast (Page ch AND 0xFE)"
    by (rule bit_word_eqI) (auto simp: bit_simps dest: bit_imp_le_length)
  have "\<not> (bit (push_bit 16 (ucast (Page ch AND 0xFE)) :: u32) n \<and> bit (push_bit 1 (ucast (CurrentAddress ch)) :: u32) n)" for n
  proof
    assume both: "bit (push_bit 16 (ucast (Page ch AND 0xFE)) :: u32) n \<and> bit (push_bit 1 (ucast (CurrentAddress ch)) :: u32) n"
    then have "16 \<le> n" "bit (Page ch AND 0xFE) (n - 16)" "bit (CurrentAddress ch) (n - 1)"
      by (simp_all only: bit_push_bit_iff bit_ucast_iff)
    then have "n = 16" using bit_imp_le_length [of "CurrentAddress ch" "n - 1"] by simp
    with \<open>bit (Page ch AND 0xFE) (n - 16)\<close> show False by (simp add: bit_0 even_and_iff)
  qed
  then have "push_bit 16 (ucast (Page ch AND 0xFE)) AND push_bit 1 (ucast (CurrentAddress ch) :: u32) = 0"
    by (intro bit_word_eqI) (simp only: bit_and_iff bit_0_eq bot_apply bot_bool_def)
  moreover have small: "unat (Page ch AND 0xFE) < 256" "unat (CurrentAddress ch) < 65536"
    using unsigned_less [of "Page ch AND 0xFE"] unsigned_less [of "CurrentAddress ch"] by simp_all
  moreover have "unat (push_bit 1 (ucast (CurrentAddress ch)) :: u32) = 2 * unat (CurrentAddress ch)"
    using small(2) by (simp add: push_bit_eq_mult unat_word_ariths unat_ucast_wide)
  ultimately show ?thesis
    using False by (simp add: channel_physical_def page_base_def unit_bytes_def eq unat_or_disjoint unat_page_shift)
qed
definition unit_at :: "'d dma_state \<Rightarrow> nat \<Rightarrow> u16 \<Rightarrow> nat" where
  \<comment> \<open>host address of the unit a channel's address register names\<close>
  "unit_at s c address = BusBase s + page_base c (Channels s (c mod 8)) + unit_bytes c * unat address"

lemma page_base_walked [simp]: "page_base c (channel_walked k ch) = page_base c ch"
  by (simp add: page_base_def)

lemma unit_pointer_at:
  "unit_pointer s c i = unit_at s c (CurrentAddress (channel_walked i (Channels s (c mod 8))))"
  by (simp add: unit_pointer_def unit_at_def unat_channel_physical)

lemma unit_pointer_within:
  "i \<le> unat (CurrentCount (Channels s (c mod 8))) \<Longrightarrow>
   unit_pointer s c i = unit_at s c (stepped (Channels s (c mod 8)) i (CurrentAddress (Channels s (c mod 8))))"
  by (simp add: unit_pointer_at walked_within)

definition units_read :: "'d dma_state \<Rightarrow> nat \<Rightarrow> (nat \<Rightarrow> u16) \<Rightarrow> nat \<Rightarrow> mem \<Rightarrow> u8 list" where
  \<comment> \<open>the bytes of \<open>k\<close> units at the given addresses\<close>
  "units_read s c address k m = concat (map (\<lambda>i. read_unit m (unit_at s c (address i)) (unit_bytes c)) [0..<k])"

lemma gathered_units:
  assumes "\<And>i. i < k \<Longrightarrow> CurrentAddress (channel_walked i (Channels s (c mod 8))) = address i"
  shows "gathered s c k m = units_read s c address k m"
  unfolding gathered_def units_read_def unit_pointer_at
  by (rule arg_cong [of _ _ concat], rule map_cong) (simp_all add: assms)

text \<open>
  A single-cycle block. A granted channel without auto-initialise delivers one unit after
  another from its current address, as many as were asked for or as its count has left; it
  reports terminal count exactly when the count ran out, and then wraps the count to FFFFh,
  masks the channel and withdraws its software request. Nothing else changes.
\<close>

theorem dma_single_cycle_read:
  fixes s :: "'d dma_state" and c n :: nat and m :: mem
  defines "ch \<equiv> Channels s (c mod 8)"
  defines "left \<equiv> Suc (unat (CurrentCount ch))"
  defines "k \<equiv> min (n div unit_bytes c) left"
  assumes granted: "VddDmaGrants s c" and single: "\<not> flag (Mode ch) DMA_MODE_AUTOINIT"
  shows "VddDmaRead s c n m =
    ((if k = left then clear_request s (c mod 8) else s)\<lparr>Channels := (Channels s)(c mod 8 :=
        if k = left
        then ch\<lparr>CurrentAddress := stepped ch k (CurrentAddress ch), CurrentCount := 0xFFFF,
                IsTerminalCount := True, IsMasked := True\<rparr>
        else ch\<lparr>CurrentAddress := stepped ch k (CurrentAddress ch), CurrentCount := CurrentCount ch - of_nat k\<rparr>)\<rparr>,
     units_read s c (\<lambda>i. stepped ch i (CurrentAddress ch)) k m, k = left)"
proof -
  have moved: "units_moved ch (n div unit_bytes c) = k"
    using single by (simp add: units_moved_def k_def left_def)
  have tc: "unat (CurrentCount ch) < k \<longleftrightarrow> k = left" by (auto simp: k_def left_def)
  have bytes: "gathered s c k m = units_read s c (\<lambda>i. stepped ch i (CurrentAddress ch)) k m"
    by (rule gathered_units) (simp add: ch_def [symmetric] walked_within k_def left_def)
  have final: "channel_walked k ch =
      (if k = left
       then ch\<lparr>CurrentAddress := stepped ch k (CurrentAddress ch), CurrentCount := 0xFFFF,
               IsTerminalCount := True, IsMasked := True\<rparr>
       else ch\<lparr>CurrentAddress := stepped ch k (CurrentAddress ch), CurrentCount := CurrentCount ch - of_nat k\<rparr>)"
    using walked_terminal [OF single] walked_within [of k ch] tc by (auto simp: left_def not_less)
  show ?thesis
    using granted final
    by (simp add: VddDmaRead_def dma_read_loop_walk moved bytes tc
        walk_state_def ch_def [symmetric])
qed

primrec dma_pulls :: "'d dma_state \<Rightarrow> nat \<Rightarrow> nat list \<Rightarrow> mem \<Rightarrow> 'd dma_state \<times> u8 list" where
  \<comment> \<open>a device that pulls pieces of the given numbers of units\<close>
  "dma_pulls s c [] m = (s, [])"
| "dma_pulls s c (n # ns) m =
     (let (s1, got, tc) = VddDmaRead s c (n * unit_bytes c) m; (s2, rest) = dma_pulls s1 c ns m
      in (s2, got @ rest))"

lemma walk_state_add:
  "flag (Mode (Channels s (c mod 8))) DMA_MODE_AUTOINIT \<Longrightarrow>
   walk_state (walk_state s c j) c k = walk_state s c (j + k)"
proof (induction j arbitrary: s)
  case (Suc j)
  from Suc.prems have again: "flag (Mode (Channels (walk_state s c 1) (c mod 8))) DMA_MODE_AUTOINIT" by simp
  show ?case
    using Suc.IH [OF again] walk_state_Suc [OF disjI2 [OF Suc.prems], of j]
      walk_state_Suc [OF disjI2 [OF Suc.prems], of "j + k"] by simp
qed simp

lemma gathered_add: "gathered s c (j + k) m = gathered s c j m @ gathered (walk_state s c j) c k m"
proof -
  have walked: "channel_walked (i + j) ch = channel_walked i (channel_walked j ch)" for i ch
    by (simp add: channel_walked_def funpow_add)
  have shift: "[0..<j + k] = [0..<j] @ map (\<lambda>i. i + j) [0..<k]"
    using upt_add_eq_append [of 0 j k] map_add_upt [of j k] by (simp add: add.commute)
  show ?thesis
    unfolding gathered_def shift by (simp add: comp_def unit_pointer_def walked)
qed

lemma ring_stays_granted:
  assumes "VddDmaGrants s c" "flag (Mode (Channels s (c mod 8))) DMA_MODE_AUTOINIT"
  shows "VddDmaGrants (walk_state s c k) c"
proof -
  have retire: "IsMasked (retire ch) = IsMasked ch" if "flag (Mode ch) DMA_MODE_AUTOINIT" for ch
    using that by (simp add: retire_def)
  have "IsMasked (channel_walked k (Channels s (c mod 8))) = IsMasked (Channels s (c mod 8))"
    using assms(2) by (induction k) (simp_all add: channel_walked_Suc' retire)
  then show ?thesis
    using assms(1) by (auto simp: VddDmaGrants_def DmaControllerGrants_def DmaIsCascadeUp_def walk_state_def Let_def)
qed

lemma dma_pulls_ring:
  assumes "VddDmaGrants s c" "flag (Mode (Channels s (c mod 8))) DMA_MODE_AUTOINIT"
  shows "dma_pulls s c ns m = (walk_state s c (sum_list ns), gathered s c (sum_list ns) m)"
  using assms
proof (induction ns arbitrary: s)
  case (Cons n ns)
  have "VddDmaRead s c (n * unit_bytes c) m =
      (walk_state s c n, gathered s c n m, unat (CurrentCount (Channels s (c mod 8))) < n)"
    using Cons.prems by (simp add: VddDmaRead_def dma_read_loop_walk units_moved_def)
  moreover have "dma_pulls (walk_state s c n) c ns m =
      (walk_state (walk_state s c n) c (sum_list ns), gathered (walk_state s c n) c (sum_list ns) m)"
    using Cons.prems by (intro Cons.IH ring_stays_granted) simp_all
  ultimately show ?case using Cons.prems by (simp add: walk_state_add gathered_add)
qed (simp add: gathered_def)

text \<open>
  C25. An auto-initialising ring never stops. Pulled in pieces of any sizes, a granted ring channel
  serves every request in full: the pieces together are the units of the ring in order from where
  it stood, round and round, and it stays granted and in step.
\<close>

theorem dma_ring_stream:
  fixes s :: "'d dma_state" and c :: nat
  defines "ch \<equiv> Channels s (c mod 8)"
  assumes granted: "VddDmaGrants s c" and ring: "ring_at p ch"
  shows "snd (dma_pulls s c ns m) =
      units_read s c (\<lambda>i. stepped ch ((p + i) mod ring_length ch) (BaseAddress ch)) (sum_list ns) m \<and>
    VddDmaGrants (fst (dma_pulls s c ns m)) c \<and>
    ring_at ((p + sum_list ns) mod ring_length ch) (Channels (fst (dma_pulls s c ns m)) (c mod 8))"
proof -
  have auto: "flag (Mode (Channels s (c mod 8))) DMA_MODE_AUTOINIT" using ring by (simp add: ring_at_def ch_def)
  have "CurrentAddress (channel_walked i ch) = stepped ch ((p + i) mod ring_length ch) (BaseAddress ch)" for i
    using ring_at_walked [OF ring, of i] by (simp add: ring_at_def stepped_def)
  then have "gathered s c (sum_list ns) m =
      units_read s c (\<lambda>i. stepped ch ((p + i) mod ring_length ch) (BaseAddress ch)) (sum_list ns) m"
    by (intro gathered_units) (simp add: ch_def)
  then show ?thesis
    using dma_pulls_ring [OF granted auto] ring_stays_granted [OF granted auto] ring_at_walked [OF ring, of "sum_list ns"]
    by (simp add: ch_def)
qed
subsection \<open>What a device pushes and another pulls\<close>

lemma unat_u16_less: "unat (x :: u16) < 65536"
  using unsigned_less [of x, where 'a = nat] by simp

lemma stepped_inj:
  assumes "stepped ch i address = stepped ch j address" "i < 65536" "j < 65536"
  shows "i = j"
proof -
  have "(of_nat i :: u16) = of_nat j" using assms(1) by (simp add: stepped_def split: if_splits)
  then have "unat (of_nat i :: u16) = unat (of_nat j :: u16)" by simp
  then show ?thesis using assms(2,3) by (simp add: unat_of_nat_small)
qed

lemma units_disjoint:
  assumes "j < unit_bytes c" "unit_at s c x \<le> unit_at s c y + j" "unit_at s c y + j < unit_at s c x + unit_bytes c"
  shows "x = y"
proof -
  have "unit_bytes c * unat x \<le> unit_bytes c * unat y + j" "unit_bytes c * unat y + j < unit_bytes c * unat x + unit_bytes c"
    using assms(2,3) by (simp_all add: unit_at_def)
  then have "(unit_bytes c * unat y + j) div unit_bytes c = unat x"
    by (metis add.commute div_nat_eqI mult.commute mult_Suc_right)
  then have "unat x = unat y" using assms(1) by simp
  then show ?thesis by (simp add: word_unat_eq_iff)
qed

lemma scattered_units:
  assumes "k \<le> Suc (unat (CurrentCount (Channels s (c mod 8))))" "k * unit_bytes c \<le> length source" "i < k" "j < unit_bytes c"
  shows "scattered s c k source m (unit_pointer s c i + j) = source ! (i * unit_bytes c + j)"
  using assms
proof (induction k)
  case (Suc k)
  let ?ch = "Channels s (c mod 8)"
  have within: "i \<le> unat (CurrentCount ?ch)" "k \<le> unat (CurrentCount ?ch)" using Suc.prems by simp_all
  then have small: "i < 65536" "k < 65536" using unat_u16_less [of "CurrentCount ?ch"] by simp_all
  have len: "length (take (unit_bytes c) (drop (k * unit_bytes c) source)) = unit_bytes c"
    using Suc.prems by simp
  show ?case
  proof (cases "i = k")
    case True
    then show ?thesis using Suc.prems len by (simp add: write_unit_def)
  next
    case False
    have "\<not> (unit_pointer s c k \<le> unit_pointer s c i + j \<and> unit_pointer s c i + j < unit_pointer s c k + unit_bytes c)"
      using units_disjoint [OF Suc.prems(4)] stepped_inj [OF _ small(2,1)] False
      unfolding unit_pointer_within [OF within(1)] unit_pointer_within [OF within(2)] by metis
    then show ?thesis using Suc False len by (auto simp: write_unit_def)
  qed
qed simp

lemma scattered_elsewhere:
  assumes "k * unit_bytes c \<le> length source" "\<forall>i<k. a < unit_pointer s c i \<or> unit_pointer s c i + unit_bytes c \<le> a"
  shows "scattered s c k source m a = m a"
  using assms
proof (induction k)
  case (Suc k)
  then have "length (take (unit_bytes c) (drop (k * unit_bytes c) source)) = unit_bytes c" by simp
  moreover have "a < unit_pointer s c k \<or> unit_pointer s c k + unit_bytes c \<le> a" using Suc.prems(2) by simp
  ultimately show ?case using Suc by (auto simp: write_unit_def)
qed simp

lemma concat_units:
  assumes "\<And>i j. i < k \<Longrightarrow> j < u \<Longrightarrow> f i j = source ! (i * u + j)" "k * u \<le> length source"
  shows "concat (map (\<lambda>i. map (f i) [0..<u]) [0..<k]) = take (k * u) source"
  using assms
proof (induction k)
  case (Suc k)
  have "map (f k) [0..<u] = take u (drop (k * u) source)"
    using Suc.prems by (intro nth_equalityI) simp_all
  then show ?case using Suc by (simp add: take_add add.commute [of u])
qed simp

lemma gathered_scattered:
  assumes "k \<le> Suc (unat (CurrentCount (Channels s (c mod 8))))" "k * unit_bytes c \<le> length source"
  shows "gathered s c k (scattered s c k source m) = take (k * unit_bytes c) source"
  unfolding gathered_def read_unit_def by (rule concat_units) (simp_all add: assms scattered_units)
text \<open>
  Record and play back. What a device pushes into memory over a granted channel, within what
  the channel's count has left, another pull over the same programming returns byte for byte, the
  incomplete last unit apart; both report terminal count alike, and memory outside the units of
  the block keeps its contents.
\<close>

theorem dma_record_playback:
  assumes "VddDmaGrants s c" "length source \<le> unat (VddDmaRemaining s c)"
    and written: "VddDmaWrite s c source m = (s1, m1, moved, tc)"
    and "VddDmaGrants s2 c" and again: "Channels s2 (c mod 8) = Channels s (c mod 8)" "BusBase s2 = BusBase s"
  shows "snd (VddDmaRead s2 c (length source) m1) = (take moved source, tc) \<and>
    moved = length source div unit_bytes c * unit_bytes c \<and>
    (\<forall>a. (\<forall>i < moved div unit_bytes c.
            a < unit_at s c (stepped (Channels s (c mod 8)) i (CurrentAddress (Channels s (c mod 8)))) \<or>
            unit_at s c (stepped (Channels s (c mod 8)) i (CurrentAddress (Channels s (c mod 8)))) + unit_bytes c \<le> a) \<longrightarrow>
         m1 a = m a)"
proof -
  let ?ch = "Channels s (c mod 8)" and ?u = "unit_bytes c" and ?k = "length source div unit_bytes c"
  have "unat (ucast (CurrentCount ?ch) :: u32) = unat (CurrentCount ?ch)" by (rule unat_ucast_wide) simp
  then have "unat (VddDmaRemaining s c) = Suc (unat (CurrentCount ?ch)) * ?u"
    using unat_u16_less [of "CurrentCount ?ch"]
    by (simp add: VddDmaRemaining_def Let_def unit_bytes_def unat_word_ariths)
  with assms(2) have "length source div ?u \<le> Suc (unat (CurrentCount ?ch)) * ?u div ?u"
    by (intro div_le_mono) simp
  then have fits: "?k \<le> Suc (unat (CurrentCount ?ch))" by simp
  then have moved: "units_moved ?ch ?k = ?k" by (simp add: units_moved_def)
  have len: "?k * ?u \<le> length source" by simp
  have out: "m1 = scattered s c ?k source m" "moved = ?k * ?u" "tc \<longleftrightarrow> unat (CurrentCount ?ch) < ?k"
    using written assms(1) by (auto simp: VddDmaWrite_def dma_write_loop_walk moved)
  have "gathered s2 c ?k m1 = gathered s c ?k m1"
    by (simp add: gathered_def unit_pointer_def again)
  then have "snd (VddDmaRead s2 c (length source) m1) = (take moved source, tc)"
    using assms(4) by (simp add: VddDmaRead_def dma_read_loop_walk again moved out gathered_scattered [OF fits len])
  moreover have "m1 a = m a"
    if "\<forall>i < ?k. a < unit_at s c (stepped ?ch i (CurrentAddress ?ch)) \<or>
            unit_at s c (stepped ?ch i (CurrentAddress ?ch)) + ?u \<le> a" for a
  proof -
    have "\<forall>i < ?k. a < unit_pointer s c i \<or> unit_pointer s c i + ?u \<le> a"
    proof (intro allI impI)
      fix i assume "i < ?k"
      then have "i \<le> unat (CurrentCount ?ch)" using fits by simp
      with that \<open>i < ?k\<close> show "a < unit_pointer s c i \<or> unit_pointer s c i + ?u \<le> a"
        by (simp add: unit_pointer_within)
    qed
    then show ?thesis using scattered_elsewhere [OF len] out by simp
  qed
  ultimately show ?thesis using out by simp
qed

text \<open>
  Disabling a controller stalls its channels and loses nothing. After the command register's
  disable bit is set, no channel of that controller, and for the second controller no channel at
  all, moves a byte or reaches terminal count, whatever devices try; writing the old command byte
  back gives the very state of before, so the transfers go on where they stopped.
\<close>

theorem dma_disable_stalls:
  fixes s :: "'d dma_state" and m :: mem and controller :: nat and width :: u8
  defines "port \<equiv> if controller = 0 then 0x08 else (0xD0 :: u16)"
  defines "stopped \<equiv> DmaPortOut (s, m) port width (ucast (Command s controller OR DMA_COMMAND_DISABLE))"
  assumes which: "controller < 2" "c mod 8 div 4 = controller \<or> controller = 1"
    and quiet: "Request s 0 = 0" "Request s 1 = 0"
  shows "snd stopped = m \<and>
    VddDmaRead (fst stopped) c n m = (fst stopped, [], False) \<and>
    VddDmaWrite (fst stopped) c source m = (fst stopped, m, 0, False) \<and>
    VddDmaRequest (fst stopped) c (Some (b # bs)) m = (fst stopped, m, Some (b # bs), 0) \<and>
    DmaPortOut stopped port width (ucast (Command s controller)) = (s, m)"
proof -
  have port: "dma_controller port = controller" "dma_register port = 8" "\<not> (port \<ge> 0x80 \<and> port \<le> 0x8F)"
    using which(1) by (auto simp: port_def dma_controller_def dma_register_def)
  have stop: "stopped = (s\<lparr>Command := (Command s)(controller := Command s controller OR DMA_COMMAND_DISABLE)\<rparr>, m)"
    using port quiet by (auto simp: stopped_def DmaPortOut_def dma_register_write_def Let_def)
  have "flag (Command s controller OR DMA_COMMAND_DISABLE) DMA_COMMAND_DISABLE"
    by (simp add: flag_def DMA_COMMAND_DISABLE_def)
  then have "\<not> VddDmaGrants (fst stopped) c"
    using which by (auto simp: stop VddDmaGrants_def DmaControllerGrants_def DmaIsCascadeUp_def Let_def)
  moreover have "DmaPortOut stopped port width (ucast (Command s controller)) = (s, m)"
    using port quiet by (auto simp: stop DmaPortOut_def dma_register_write_def Let_def)
  ultimately show ?thesis
    by (simp add: stop VddDmaRead_def VddDmaWrite_def VddDmaRequest_def Let_def)
qed

subsection \<open>Witnesses\<close>

text \<open>A block on channel 2: two units to go at 020100h, in the given mode.\<close>

definition demo_dma :: "u8 \<Rightarrow> unit dma_state" where
  "demo_dma mode =
     \<lparr>BusBase = 0, Channels = (\<lambda>c. if c = 2
        then \<lparr>BaseAddress = 0x100, CurrentAddress = 0x100, BaseCount = 1, CurrentCount = 1, Page = 2, Mode = mode,
              IsMasked = False, IsTerminalCount = False\<rparr>
        else zero_channel),
      FlipFlop = (\<lambda>_. False), SparePage = (\<lambda>_. 0), Command = (\<lambda>_. 0), Request = (\<lambda>_. 0), Temporary = (\<lambda>_. 0),
      SoftwareRuns = 0, MemoryToMemoryRuns = 0, DreqLines = [], AddressReads = (\<lambda>_. 0), ChannelCountReads = (\<lambda>_. 0),
      CountReads = 0, StatusReads = (\<lambda>_. 0), CountReadsByte = 0, CountReadsWord = 0, CountReadsDword = 0\<rparr>"

lemma demo_dma_granted: "VddDmaGrants (demo_dma mode) 2"
  by (simp add: VddDmaGrants_def DmaControllerGrants_def DmaIsCascadeUp_def demo_dma_def zero_channel_def flag_def)

lemma demo_dma_base: "BusBase (demo_dma mode) = 0"
  by (simp add: demo_dma_def)

lemma demo_dma_channel:
  "Channels (demo_dma mode) 2 = \<lparr>BaseAddress = 0x100, CurrentAddress = 0x100, BaseCount = 1, CurrentCount = 1, Page = 2,
     Mode = mode, IsMasked = False, IsTerminalCount = False\<rparr>"
  by (simp add: demo_dma_def)

theorem dma_single_cycle_read_witness:
  "snd (snd (VddDmaRead (demo_dma 0x48) 2 5 (\<lambda>a. if a = 0x20101 then 7 else 1))) = True \<and>
   fst (snd (VddDmaRead (demo_dma 0x48) 2 5 (\<lambda>a. if a = 0x20101 then 7 else 1))) = [1, 7]"
  using dma_single_cycle_read [of "demo_dma 0x48" 2 5 "\<lambda>a. if a = 0x20101 then 7 else 1"]
  by (simp add: demo_dma_granted demo_dma_channel flag_def DMA_MODE_AUTOINIT_def unit_bytes_def units_read_def
      unit_at_def page_base_def stepped_def DMA_MODE_DECREMENT_def read_unit_def demo_dma_base upt_conv_Cons)

theorem dma_ring_stream_witness:
  "snd (dma_pulls (demo_dma 0x58) 2 [1, 2] (\<lambda>a. if a = 0x20101 then 7 else 1)) = [1, 7, 1]"
proof -
  have "ring_at 0 (Channels (demo_dma 0x58) (2 mod 8))"
    by (simp add: demo_dma_channel ring_at_def flag_def DMA_MODE_AUTOINIT_def stepped_def DMA_MODE_DECREMENT_def)
  from dma_ring_stream [OF demo_dma_granted this, of "[1, 2]" "\<lambda>a. if a = 0x20101 then 7 else 1", THEN conjunct1]
  show ?thesis
    by (simp add: demo_dma_channel ring_length_def unit_bytes_def units_read_def flag_def
        unit_at_def page_base_def stepped_def DMA_MODE_DECREMENT_def read_unit_def demo_dma_base upt_conv_Cons del: dma_pulls.simps)
qed

theorem dma_record_playback_witness:
  "fst (snd (VddDmaRead (demo_dma 0x44) 2 (length [8 :: u8, 9]) (fst (snd (VddDmaWrite (demo_dma 0x44) 2 [8, 9] (\<lambda>_. 0)))))) = [8, 9]"
proof -
  obtain s1 m1 moved tc where w: "VddDmaWrite (demo_dma 0x44) 2 [8, 9] (\<lambda>_. 0) = (s1, m1, moved, tc)"
    by (cases "VddDmaWrite (demo_dma 0x44) 2 [8, 9] (\<lambda>_. 0)")
  have "length [8 :: u8, 9] \<le> unat (VddDmaRemaining (demo_dma 0x44) 2)"
    by (simp add: VddDmaRemaining_def demo_dma_channel)
  from dma_record_playback [OF demo_dma_granted this w demo_dma_granted refl refl]
  show ?thesis by (simp add: w unit_bytes_def)
qed

theorem dma_disable_stalls_witness:
  "VddDmaRead (fst (DmaPortOut (demo_dma 0x48, \<lambda>_. 0) 0x08 1 4)) 2 5 (\<lambda>_. 0) =
     (fst (DmaPortOut (demo_dma 0x48, \<lambda>_. 0) 0x08 1 4), [], False)"
  using dma_disable_stalls [of 0 2 "demo_dma 0x48" "\<lambda>_. 0" 1]
  by (simp add: demo_dma_def DMA_COMMAND_DISABLE_def)

end
