(* ===== verification/Dma_Software.thy ===== *)
theory Dma_Software
  imports Dma_Transfer
begin

text \<open>
  The controller as its own bus master, and its register file: the software-requested blocks and
  the memory-to-memory copy always reach terminal count within the turns the code allows, no
  request the controllers could serve is left waiting by any port access, the cycles stay inside
  the memory of the virtual machine, and a channel programmed through the byte flip-flop reads
  back what was written.
\<close>

subsection \<open>One block\<close>

definition confined :: "nat \<Rightarrow> mem \<Rightarrow> mem \<Rightarrow> bool" where
  \<comment> \<open>only the V86 space above the base may differ\<close>
  "confined base m m' \<longleftrightarrow> (\<forall>a. a < base \<or> base + 0x110000 \<le> a \<longrightarrow> m' a = m a)"

lemma confined_refl [simp]: "confined base m m"
  by (simp add: confined_def)

lemma confined_trans: "confined base m m1 \<Longrightarrow> confined base m1 m2 \<Longrightarrow> confined base m m2"
  by (simp add: confined_def)

lemma physical_unit_fits:
  assumes "channel_physical c ch < 0x110000"
  shows "unat (channel_physical c ch) + unit_bytes c \<le> 0x110000"
proof -
  have "unat (channel_physical c ch) < 0x110000" using assms by (simp add: word_less_nat_alt)
  moreover have "unit_bytes c dvd unat (channel_physical c ch)"
    by (simp add: unat_channel_physical page_base_def unit_bytes_def)
  ultimately show ?thesis by (auto simp: unit_bytes_def elim!: dvdE split: if_splits)
qed

lemma confined_float:
  "confined (BusBase s) m
     (case DmaMemory s (VddDmaCurrentPhysical s c) of None \<Rightarrow> m
      | Some p \<Rightarrow> write_unit p (replicate (unit_bytes c) v) m)"
  using physical_unit_fits [of c "Channels s (c mod 8)"]
  by (auto simp: confined_def DmaMemory_def DMA_PHYSICAL_LIMIT_def write_unit_def dma_pointer_def
      VddDmaCurrentPhysical_channel not_le)

lemma confined_byte:
  "confined (BusBase s) m
     (case DmaMemory s physical of None \<Rightarrow> m | Some p \<Rightarrow> m(p := byte))"
  by (auto simp: confined_def DmaMemory_def DMA_PHYSICAL_LIMIT_def dma_pointer_def not_le word_less_nat_alt)

lemma software_block_loop_terminates:
  assumes "c < 8" "unat (CurrentCount (Channels s c)) < n"
  shows "\<exists>m'. software_block_loop n c (s, m) = ((walk_state s c (Suc (unat (CurrentCount (Channels s c)))), m'), True) \<and>
    confined (BusBase s) m m'"
  using assms(2)
proof (induction n arbitrary: s m)
  case (Suc n)
  let ?m1 = "if Mode (Channels s c) AND DMA_MODE_TRANSFER = DMA_MODE_TRANSFER_WRITE
                then case DmaMemory s (VddDmaCurrentPhysical s c) of None \<Rightarrow> m
                     | Some p \<Rightarrow> write_unit p (replicate (unit_bytes c) 0xFF) m else m"
  have small: "c mod 8 = c" using assms(1) by simp
  have c1: "confined (BusBase s) m ?m1" by (simp add: confined_float)
  show ?case
  proof (cases "CurrentCount (Channels s c) = 0")
    case True
    then show ?thesis using c1 by (simp add: DmaAdvance_walk small Let_def)
  next
    case False
    let ?s1 = "walk_state s c 1"
    have ch1: "Channels ?s1 c = retire (Channels s c)"
      using walk_state_simps(2) [of s c 1] by (simp add: small channel_walked_Suc)
    have pos: "unat (CurrentCount (Channels s c)) > 0" using False by (simp add: unat_gt_0)
    have count: "unat (CurrentCount (Channels ?s1 c)) = unat (CurrentCount (Channels s c)) - 1"
      unfolding ch1 using False by (simp add: retire_def unat_pred)
    with Suc.prems pos have "unat (CurrentCount (Channels ?s1 c)) < n" by simp
    from Suc.IH [OF this, of ?m1] obtain m'
      where m': "software_block_loop n c (?s1, ?m1) =
          ((walk_state ?s1 c (Suc (unat (CurrentCount (Channels ?s1 c)))), m'), True)"
        and c2: "confined (BusBase ?s1) ?m1 m'" by blast
    have "walk_state ?s1 c (Suc (unat (CurrentCount (Channels ?s1 c)))) =
        walk_state s c (Suc (unat (CurrentCount (Channels s c))))"
      using walk_state_Suc [of s c "unat (CurrentCount (Channels s c))"] False pos count by (simp add: small)
    moreover have "software_block_loop (Suc n) c (s, m) = software_block_loop n c (?s1, ?m1)"
      using False by (simp add: DmaAdvance_walk small Let_def)
    moreover have "confined (BusBase s) m m'" using confined_trans [OF c1] c2 by simp
    ultimately show ?thesis using m' by auto
  qed
qed simp

subsection \<open>What serving a request leaves alone\<close>

definition served :: "'d dma_state \<Rightarrow> 'd dma_state \<Rightarrow> bool" where
  \<comment> \<open>the second state comes from the first by serving requests only\<close>
  "served s s' \<longleftrightarrow>
     Command s' = Command s \<and> BusBase s' = BusBase s \<and> FlipFlop s' = FlipFlop s \<and> (\<forall>c. Mode (Channels s' c) = Mode (Channels s c)) \<and>
     IsMasked (Channels s' 4) = IsMasked (Channels s 4) \<and>
     (\<forall>controller line. bit (Request s' controller) line \<longrightarrow> bit (Request s controller) line)"

lemma served_refl [simp]: "served s s"
  by (simp add: served_def)

lemma served_trans: "served s s1 \<Longrightarrow> served s1 s2 \<Longrightarrow> served s s2"
  by (simp add: served_def)

definition servable :: "'d dma_state \<Rightarrow> nat \<Rightarrow> nat \<Rightarrow> bool" where
  \<comment> \<open>a pending request the controllers are in a position to serve\<close>
  "servable s controller line \<longleftrightarrow>
     bit (Request s controller) line \<and> \<not> flag (Command s controller) DMA_COMMAND_DISABLE \<and>
     (controller = 0 \<longrightarrow> DmaIsCascadeUp s) \<and> controller * 4 + line \<noteq> 4 \<and>
     Mode (Channels s (controller * 4 + line)) AND DMA_MODE_SELECT \<noteq> DMA_MODE_SELECT \<and>
     \<not> (controller = 0 \<and> flag (Command s 0) DMA_COMMAND_MEMORY_TO_MEMORY \<and> line = 1)"

lemma servable_served: "served s s' \<Longrightarrow> servable s' controller line \<Longrightarrow> servable s controller line"
  by (simp add: served_def servable_def DmaIsCascadeUp_def)

lemma request_after_clear:
  "bit (Request (clear_request s c) controller) line \<longleftrightarrow>
     bit (Request s controller) line \<and> \<not> (controller = c div 4 \<and> line = c mod 4)"
  by (simp add: clear_request_def bit_facts)

lemma DmaSoftwareBlock_served:
  assumes "c < 8" "c \<noteq> 4" "DmaSoftwareBlock c (s, m) = (s', m')"
  shows "served s s' \<and> confined (BusBase s) m m' \<and> \<not> bit (Request s' (c div 4)) (c mod 4)"
proof -
  let ?s = "s\<lparr>SoftwareRuns := SoftwareRuns s + 1\<rparr>" and ?k = "Suc (unat (CurrentCount (Channels s c)))"
  have "unat (CurrentCount (Channels ?s c)) < DMA_MAX_TRANSFERS"
    using unat_u16_less [of "CurrentCount (Channels s c)"] by (simp add: DMA_MAX_TRANSFERS_def)
  from software_block_loop_terminates [OF assms(1) this, of m]
  have res: "s' = walk_state ?s c ?k" "confined (BusBase s) m m'"
    using assms(3) by (auto simp: DmaSoftwareBlock_def)
  have small: "c mod 8 = c" using assms(1) by simp
  have request: "Request s' = Request (clear_request s c)"
    by (simp add: res walk_state_def small clear_request_def)
  moreover have "Channels s' = (Channels s)(c := channel_walked ?k (Channels s c))"
    by (simp add: res walk_state_def small)
  moreover have "Command s' = Command s" "BusBase s' = BusBase s" "FlipFlop s' = FlipFlop s"
    by (simp_all add: res walk_state_def clear_request_def)
  ultimately have "served s s'" using assms(2)
    by (simp add: served_def request_after_clear)
  then show ?thesis using res(2) request by (simp add: request_after_clear)
qed

subsection \<open>The memory-to-memory copy\<close>

definition same_controls :: "'d dma_state \<Rightarrow> 'd dma_state \<Rightarrow> bool" where
  "same_controls s s' \<longleftrightarrow> Command s' = Command s \<and> BusBase s' = BusBase s \<and> FlipFlop s' = FlipFlop s \<and> Request s' = Request s \<and>
     (\<forall>c. Mode (Channels s' c) = Mode (Channels s c) \<and> IsMasked (Channels s' c) = IsMasked (Channels s c))"

lemma same_controls_trans: "same_controls s s1 \<Longrightarrow> same_controls s1 s2 \<Longrightarrow> same_controls s s2"
  by (simp add: same_controls_def)

lemma update_channel_simps [simp]:
  "Channels (update_channel s c f) = (Channels s)(c := f (Channels s c))"
  "Request (update_channel s c f) = Request s" "Command (update_channel s c f) = Command s"
  "BusBase (update_channel s c f) = BusBase s" "FlipFlop (update_channel s c f) = FlipFlop s"
  by (simp_all add: update_channel_def)

lemma memory_to_memory_cycle_effect:
  "memory_to_memory_cycle (s, m) = (s', m') \<Longrightarrow>
   same_controls s s' \<and> CurrentCount (Channels s' 1) = CurrentCount (Channels s 1) \<and> confined (BusBase s) m m'"
  by (cases "flag (Command s 0) DMA_COMMAND_ADDRESS_HOLD")
    (auto simp: memory_to_memory_cycle_def Let_def same_controls_def fun_upd_def intro!: confined_byte split: if_splits)

lemma memory_to_memory_loop_terminates:
  assumes "unat (CurrentCount (Channels s 1)) < n"
  shows "\<exists>s' m'. memory_to_memory_loop n (s, m) = ((s', m'), True) \<and> same_controls s s' \<and> confined (BusBase s) m m'"
  using assms
proof (induction n arbitrary: s m)
  case (Suc n)
  obtain s1 m1 where cycle: "memory_to_memory_cycle (s, m) = (s1, m1)" by (cases "memory_to_memory_cycle (s, m)")
  note e1 = memory_to_memory_cycle_effect [OF cycle]
  show ?case
  proof (cases "CurrentCount (Channels s1 1) = 0")
    case True
    then show ?thesis using cycle e1 by (simp del: One_nat_def)
  next
    case False
    let ?s2 = "update_channel s1 1 (\<lambda>ch. ch\<lparr>CurrentCount := CurrentCount ch - 1\<rparr>)"
    have "same_controls s1 ?s2" by (simp add: same_controls_def)
    with e1 have sc: "same_controls s ?s2" by (blast intro: same_controls_trans)
    have "unat (CurrentCount (Channels s 1)) > 0" using False e1 by (simp add: unat_gt_0 del: One_nat_def)
    moreover have "CurrentCount (Channels ?s2 1) = CurrentCount (Channels s 1) - 1"
      using e1 by simp
    ultimately have "unat (CurrentCount (Channels ?s2 1)) < n"
      using Suc.prems False e1 by (simp add: unat_pred del: One_nat_def)
    from Suc.IH [OF this, of m1] obtain s' m' where
      "memory_to_memory_loop n (?s2, m1) = ((s', m'), True)" "same_controls ?s2 s'" "confined (BusBase ?s2) m1 m'"
      by blast
    moreover have "BusBase ?s2 = BusBase s" using sc by (simp add: same_controls_def)
    ultimately show ?thesis
      using cycle False e1 sc by (auto intro: same_controls_trans confined_trans simp del: One_nat_def)
  qed
qed simp

lemma DmaMemoryToMemory_served:
  assumes "DmaMemoryToMemory (s, m) = (s', m')"
  shows "served s s' \<and> confined (BusBase s) m m' \<and> \<not> bit (Request s' 0) 0"
proof -
  let ?s = "s\<lparr>MemoryToMemoryRuns := MemoryToMemoryRuns s + 1\<rparr>"
  have "unat (CurrentCount (Channels ?s 1)) < DMA_MAX_TRANSFERS"
    using unat_u16_less [of "CurrentCount (Channels s 1)"] by (simp add: DMA_MAX_TRANSFERS_def)
  from memory_to_memory_loop_terminates [OF this, of m] obtain s1 m1
    where run: "memory_to_memory_loop DMA_MAX_TRANSFERS (?s, m) = ((s1, m1), True)"
      and same: "same_controls ?s s1" and m1: "confined (BusBase s) m m1" by auto
  have "m' = m1" using assms run by (simp add: DmaMemoryToMemory_def Let_def)
  moreover have "Request s' = (Request s)(0 := Request s 0 AND NOT 0x03)" "Command s' = Command s" "BusBase s' = BusBase s"
    "FlipFlop s' = FlipFlop s" "\<forall>c. Mode (Channels s' c) = Mode (Channels s c)" "IsMasked (Channels s' 4) = IsMasked (Channels s 4)"
    using assms run same
    by (simp_all add: DmaMemoryToMemory_def Let_def same_controls_def)
      (auto simp: fun_eq_iff)
  ultimately show ?thesis using m1
    by (simp add: served_def bit_and_iff bit_0 even_and_iff)
qed
subsection \<open>The service of every pending request\<close>

definition serves :: "('d dma_state \<times> mem) \<Rightarrow> ('d dma_state \<times> mem) \<Rightarrow> bool" where
  "serves sm sm' \<longleftrightarrow> served (fst sm) (fst sm') \<and> confined (BusBase (fst sm)) (snd sm) (snd sm')"

lemma serves_refl [simp]: "serves sm sm"
  by (simp add: serves_def)

lemma serves_trans: "serves sm sm1 \<Longrightarrow> serves sm1 sm2 \<Longrightarrow> serves sm sm2"
  by (auto simp: serves_def intro: served_trans confined_trans) (auto simp: served_def confined_def)

lemma serves_not_servable: "serves sm sm' \<Longrightarrow> \<not> servable (fst sm) controller line \<Longrightarrow> \<not> servable (fst sm') controller line"
  by (auto simp: serves_def dest: servable_served)

lemma DmaSoftwareBlock_serves:
  assumes "controller < 2" "line < 4" "controller * 4 + line \<noteq> 4"
  shows "serves sm (DmaSoftwareBlock (controller * 4 + line) sm) \<and>
    \<not> servable (fst (DmaSoftwareBlock (controller * 4 + line) sm)) controller line"
proof -
  obtain s m s' m' where sm: "sm = (s, m)" "DmaSoftwareBlock (controller * 4 + line) sm = (s', m')"
    by (metis surj_pair)
  have "controller * 4 + line < 8" "(controller * 4 + line) div 4 = controller" "(controller * 4 + line) mod 4 = line"
    using assms(1,2) by auto
  with DmaSoftwareBlock_served [of "controller * 4 + line" s m s' m'] assms(3) sm
  show ?thesis by (simp add: serves_def servable_def)
qed

lemma DmaMemoryToMemory_serves:
  "serves sm (DmaMemoryToMemory sm) \<and> \<not> servable (fst (DmaMemoryToMemory sm)) 0 0"
proof -
  obtain s m s' m' where sm: "sm = (s, m)" "DmaMemoryToMemory sm = (s', m')" by (metis surj_pair)
  with DmaMemoryToMemory_served [of s m s' m'] show ?thesis by (simp add: serves_def servable_def)
qed

lemma service_line_serves:
  assumes line: "controller < 2" "line < 4"
    and open_: "\<not> flag (Command (fst sm) controller) DMA_COMMAND_DISABLE" "controller = 0 \<longrightarrow> DmaIsCascadeUp (fst sm)"
  shows "serves sm (service_line controller line sm) \<and> \<not> servable (fst (service_line controller line sm)) controller line"
proof -
  obtain s m where sm: "sm = (s, m)" by (cases sm)
  consider (idle) "\<not> bit (Request s controller) line" | (cascade) "controller * 4 + line = 4"
    | (mode) "Mode (Channels s (controller * 4 + line)) AND DMA_MODE_SELECT = DMA_MODE_SELECT"
    | (copy) "bit (Request s controller) line" "controller * 4 + line \<noteq> 4"
        "Mode (Channels s (controller * 4 + line)) AND DMA_MODE_SELECT \<noteq> DMA_MODE_SELECT"
        "controller = 0 \<and> flag (Command s 0) DMA_COMMAND_MEMORY_TO_MEMORY \<and> line \<le> 1"
    | (block) "bit (Request s controller) line" "controller * 4 + line \<noteq> 4"
        "Mode (Channels s (controller * 4 + line)) AND DMA_MODE_SELECT \<noteq> DMA_MODE_SELECT"
        "\<not> (controller = 0 \<and> flag (Command s 0) DMA_COMMAND_MEMORY_TO_MEMORY \<and> line \<le> 1)"
    by blast
  then show ?thesis
  proof cases
    case copy
    show ?thesis
    proof (cases "line = 0")
      case True
      then have "service_line controller line sm = DmaMemoryToMemory sm"
        using copy by (simp add: service_line_def sm)
      then show ?thesis using DmaMemoryToMemory_serves [of sm] copy True by simp
    next
      case False
      with copy have "line = 1" "service_line controller line sm = sm" by (simp_all add: service_line_def sm)
      then show ?thesis using copy by (simp add: servable_def sm)
    qed
  next
    case block
    then have "service_line controller line sm = DmaSoftwareBlock (controller * 4 + line) sm"
      by (auto simp: service_line_def sm Let_def)
    then show ?thesis using DmaSoftwareBlock_serves [OF line block(2), of sm] by simp
  qed (auto simp: service_line_def servable_def sm Let_def)
qed

lemma fold_service_lines:
  assumes "controller < 2" "\<forall>line\<in>set lines. line < 4"
    and "\<not> flag (Command (fst sm) controller) DMA_COMMAND_DISABLE" "controller = 0 \<longrightarrow> DmaIsCascadeUp (fst sm)"
  shows "serves sm (fold (service_line controller) lines sm) \<and>
    (\<forall>line\<in>set lines. \<not> servable (fst (fold (service_line controller) lines sm)) controller line)"
  using assms
proof (induction lines arbitrary: sm)
  case (Cons line lines)
  let ?sm = "service_line controller line sm"
  have first: "serves sm ?sm" "\<not> servable (fst ?sm) controller line"
    using service_line_serves [of controller line sm] Cons.prems by simp_all
  then have "\<not> flag (Command (fst ?sm) controller) DMA_COMMAND_DISABLE" "controller = 0 \<longrightarrow> DmaIsCascadeUp (fst ?sm)"
    using Cons.prems by (auto simp: serves_def served_def DmaIsCascadeUp_def)
  with Cons have rest: "serves ?sm (fold (service_line controller) lines ?sm)"
    "\<forall>line\<in>set lines. \<not> servable (fst (fold (service_line controller) lines ?sm)) controller line" by simp_all
  with serves_trans [OF first(1)] serves_not_servable [OF rest(1) first(2)] show ?case by simp
qed simp

lemma service_controller_serves:
  assumes "controller < 2"
  shows "serves sm (service_controller controller sm) \<and>
    (\<forall>line<4. \<not> servable (fst (service_controller controller sm)) controller line)"
proof -
  obtain s m where sm: "sm = (s, m)" by (cases sm)
  consider "Request s controller = 0 \<or> flag (Command s controller) DMA_COMMAND_DISABLE \<or> controller = 0 \<and> \<not> DmaIsCascadeUp s"
    | "service_controller controller sm = fold (service_line controller) [0..<4] sm"
      "\<not> flag (Command s controller) DMA_COMMAND_DISABLE" "controller = 0 \<longrightarrow> DmaIsCascadeUp s"
    by (cases "Request s controller = 0 \<or> flag (Command s controller) DMA_COMMAND_DISABLE \<or>
          controller = 0 \<and> \<not> DmaIsCascadeUp s") (auto simp: service_controller_def sm)
  then show ?thesis
  proof cases
    case 1
    then have "service_controller controller sm = sm" by (auto simp: service_controller_def sm)
    then show ?thesis using 1 by (auto simp: sm servable_def)
  next
    case 2
    then show ?thesis using fold_service_lines [OF assms, of "[0..<4]" sm] by (simp add: sm)
  qed
qed

lemma DmaSoftwareService_serves:
  "serves sm (DmaSoftwareService sm) \<and>
   (\<forall>controller<2. \<forall>line<4. \<not> servable (fst (DmaSoftwareService sm)) controller line)"
proof -
  let ?sm0 = "service_controller 0 sm"
  have eq: "DmaSoftwareService sm = service_controller 1 ?sm0" by (simp add: DmaSoftwareService_def)
  have zero: "serves sm ?sm0" "\<forall>line<4. \<not> servable (fst ?sm0) 0 line"
    using service_controller_serves [of 0 sm] by simp_all
  have one: "serves ?sm0 (service_controller 1 ?sm0)" "\<forall>line<4. \<not> servable (fst (service_controller 1 ?sm0)) 1 line"
    using service_controller_serves [of 1 ?sm0] by simp_all
  have "controller = 0 \<or> controller = 1" if "controller < 2" for controller :: nat using that by auto
  then show ?thesis
    unfolding eq using zero one serves_not_servable [OF one(1)] serves_trans [OF zero(1) one(1)] by blast
qed
subsection \<open>The ports\<close>

definition dma_settled :: "('d dma_state \<times> mem) \<Rightarrow> bool" where
  "dma_settled sm \<longleftrightarrow> (\<forall>controller<2. \<forall>line<4. \<not> servable (fst sm) controller line)"

lemma dma_settled_frame:
  assumes "dma_settled (s, m)" "Request s' = Request s" "Command s' = Command s"
    "\<And>c. Mode (Channels s' c) = Mode (Channels s c)" "\<And>c. IsMasked (Channels s' c) = IsMasked (Channels s c)"
  shows "dma_settled (s', m')"
  using assms by (simp add: dma_settled_def servable_def DmaIsCascadeUp_def)

lemma update_channels_simps [simp]:
  "Request (update_channels s controller f) = Request s" "Command (update_channels s controller f) = Command s"
  "BusBase (update_channels s controller f) = BusBase s"
  by (simp_all add: update_channels_def)

lemma count_read_simps [simp]:
  "Channels (count_read s c width) = Channels s" "Request (count_read s c width) = Request s"
  "Command (count_read s c width) = Command s" "BusBase (count_read s c width) = BusBase s"
  "FlipFlop (count_read s c width) = FlipFlop s"
  by (simp_all add: count_read_def Let_def)

lemma dma_settled_in: "dma_settled sm \<Longrightarrow> dma_settled (fst (DmaPortIn asserts sm port width))"
proof (cases sm)
  case (Pair s m)
  assume "dma_settled sm"
  then show ?thesis
    unfolding Pair
    by (auto simp: DmaPortIn_def Let_def update_channels_def split: prod.splits option.splits if_splits
        elim!: dma_settled_frame)
qed

lemma dma_register_write_settles:
  "dma_register_write s controller register byteValue = s1 \<Longrightarrow>
   dma_settled (if Request s1 0 OR Request s1 1 \<noteq> 0 then DmaSoftwareService (s1, m) else (s1, m))"
proof (cases "Request s1 0 OR Request s1 1 = 0")
  case True
  then have "Request s1 0 = 0" "Request s1 1 = 0"
    by (metis bit_or_iff word_eq_zero_iff_no_bit)+
  then have "\<not> servable s1 controller line" if "controller < 2" for controller line
    using that by (auto simp: servable_def less_2_cases_iff)
  with True show ?thesis by (simp add: dma_settled_def)
qed (use DmaSoftwareService_serves [of "(s1, m)"] in \<open>simp add: dma_settled_def\<close>)

lemma dma_settled_out: "dma_settled sm \<Longrightarrow> dma_settled (DmaPortOut sm port width value)"
proof (cases sm)
  case (Pair s m)
  assume settled: "dma_settled sm"
  consider (page) "port \<ge> 0x80 \<and> port \<le> 0x8F"
    | (half) "\<not> (port \<ge> 0x80 \<and> port \<le> 0x8F)" "dma_register port < 8"
    | (register) "\<not> (port \<ge> 0x80 \<and> port \<le> 0x8F)" "\<not> dma_register port < 8" by blast
  then show ?thesis
  proof cases
    case page
    then show ?thesis using settled
      by (auto simp: Pair DmaPortOut_def Let_def split: option.splits if_splits elim!: dma_settled_frame)
  next
    case half
    then show ?thesis using settled
      by (auto simp: Pair DmaPortOut_def Let_def split: if_splits elim!: dma_settled_frame)
  next
    case register
    then show ?thesis
      using dma_register_write_settles [OF refl, of s "dma_controller port" "dma_register port" "ucast value" m]
      unfolding Pair DmaPortOut_def by (simp only: Let_def split_conv if_False)
  qed
qed

interpretation dma: port_device "DmaPortIn asserts" DmaPortOut dma_settled for asserts :: "'d \<Rightarrow> u8"
  by unfold_locales (fact dma_settled_in, fact dma_settled_out)

text \<open>
  C26. Software transfers run to terminal count. Whatever the registers hold, the loop over a
  channel's block and the memory-to-memory loop leave by terminal count and never by running out
  of the turns the code allows, so the service of the pending requests ends with none of them
  servable.
\<close>

theorem dma_software_runs_to_terminal_count:
  "snd (software_block_loop DMA_MAX_TRANSFERS (c mod 8) (s, m)) \<and>
   snd (memory_to_memory_loop DMA_MAX_TRANSFERS (s, m)) \<and>
   (let (s', m') = DmaSoftwareService (s, m)
    in (\<not> servable s' 0 0 \<and> \<not> servable s' 0 1 \<and> \<not> servable s' 0 2 \<and> \<not> servable s' 0 3) \<and>
       (\<not> servable s' 1 0 \<and> \<not> servable s' 1 1 \<and> \<not> servable s' 1 2 \<and> \<not> servable s' 1 3))"
proof -
  have bound: "unat (x :: u16) < DMA_MAX_TRANSFERS" for x
    using unat_u16_less [of x] by (simp add: DMA_MAX_TRANSFERS_def)
  have "c mod 8 < 8" by simp
  from software_block_loop_terminates [OF this bound, of s m] memory_to_memory_loop_terminates [OF bound, of s m]
  show ?thesis using DmaSoftwareService_serves [of "(s, m)"] by (auto simp: split_beta)
qed

text \<open>
  No request waits. From power-on, after any sequence of port reads and writes, of any port,
  width and value, no software request is pending that the controllers are in a position to serve:
  what still shows in the request registers is on a disabled controller, behind the closed cascade,
  on a cascade channel or on channel 1 in memory-to-memory mode.
\<close>

theorem dma_no_request_waits:
  "dma_settled (fold (guest_access (DmaPortIn asserts) DmaPortOut) accesses (VddDmaReset s, m))"
proof (rule dma.run_inv)
  show "dma_settled (VddDmaReset s, m)"
    by (simp add: dma_settled_def servable_def VddDmaReset_def DmaPost_def DmaMasterClear_def)
qed

interpretation dma_memory: port_device "DmaPortIn asserts" DmaPortOut
  "\<lambda>sm. BusBase (fst sm) = base \<and> confined base m0 (snd sm)" for asserts :: "'d \<Rightarrow> u8" and base m0
proof
  fix sm :: "'d dma_state \<times> mem" and port width
  assume "BusBase (fst sm) = base \<and> confined base m0 (snd sm)"
  then show "BusBase (fst (fst (DmaPortIn asserts sm port width))) = base \<and>
      confined base m0 (snd (fst (DmaPortIn asserts sm port width)))"
    by (cases sm) (auto simp: DmaPortIn_def Let_def split: prod.splits option.splits)
next
  fix sm :: "'d dma_state \<times> mem" and port width data
  assume inv: "BusBase (fst sm) = base \<and> confined base m0 (snd sm)"
  obtain s m where sm: "sm = (s, m)" by (cases sm)
  have reg_base: "BusBase (dma_register_write s controller register byteValue) = BusBase s"
    for controller register byteValue
    by (simp add: dma_register_write_def DmaMasterClear_def Let_def)
  have service: "BusBase (fst (DmaSoftwareService (s1, m))) = BusBase s \<and> confined (BusBase s) m (snd (DmaSoftwareService (s1, m)))"
    if "BusBase s1 = BusBase s" for s1
    using DmaSoftwareService_serves [of "(s1, m)"] that by (simp add: serves_def served_def)
  then show "BusBase (fst (DmaPortOut sm port width data)) = base \<and> confined base m0 (snd (DmaPortOut sm port width data))"
    using inv service [OF reg_base] confined_trans
    by (auto simp: sm DmaPortOut_def Let_def reg_base split: option.splits)
qed

text \<open>
  The guest cannot make the controllers touch foreign memory. No sequence of port accesses,
  from any state of the controllers, changes a byte below the machine's memory or at 110000h and
  above in it, where the addresses no longer mean guest memory.
\<close>

theorem dma_ports_confined:
  assumes "a < BusBase s \<or> BusBase s + 0x110000 \<le> a"
  shows "snd (fold (guest_access (DmaPortIn asserts) DmaPortOut) accesses (s, m)) a = m a"
  using dma_memory.run_inv [of "(s, m)" "BusBase s" m asserts accesses] assms
  by (auto simp: confined_def)

theorem dma_ports_confined_witness:
  "snd (fold (guest_access (DmaPortIn (\<lambda>_. 0)) DmaPortOut) [GuestOut 0x83 1 0x11, GuestOut 9 1 6] (demo_dma 0x44, \<lambda>_. 0))
     0x110000 = 0"
  by (subst dma_ports_confined) (simp_all add: demo_dma_base)

text \<open>
  A device's own writes are not confined. The limit holds for the controller's software
  cycles only: a device that pushes one byte over a granted 8-bit channel whose page register is
  11h or more stores it above the virtual machine's memory.
\<close>

theorem dma_device_write_unconfined:
  assumes "VddDmaGrants s c" "c mod 8 < 4" "unat (Page (Channels s (c mod 8))) \<ge> 0x11"
  shows "let target = BusBase s + unat (VddDmaCurrentPhysical s c); (s1, m1, moved, tc) = VddDmaWrite s c [b] m
    in BusBase s + 0x110000 \<le> target \<and> m1 target = b \<and> moved = 1"
proof -
  let ?ch = "Channels s (c mod 8)"
  have unit: "unit_bytes c = 1" using assms(2) by (simp add: unit_bytes_def)
  have "units_moved ?ch 1 = 1" by (simp add: units_moved_def)
  then have "VddDmaWrite s c [b] m =
      (walk_state s c 1, write_unit (unit_pointer s c 0) [b] m, 1, unat (CurrentCount ?ch) < 1)"
    using assms(1) by (simp add: VddDmaWrite_def dma_write_loop_walk unit)
  moreover have "unit_pointer s c 0 = BusBase s + unat (VddDmaCurrentPhysical s c)"
    by (simp add: unit_pointer_def VddDmaCurrentPhysical_channel)
  moreover have "0x110000 \<le> unat (VddDmaCurrentPhysical s c)"
    using assms(2,3) by (simp add: VddDmaCurrentPhysical_channel unat_channel_physical page_base_def)
  ultimately show ?thesis by (simp add: write_unit_def)
qed
theorem dma_device_write_unconfined_witness:
  "fst (snd (VddDmaWrite (update_channel (demo_dma 0x44) 2 (\<lambda>ch. ch\<lparr>Page := 0x80\<rparr>)) 2 [7] (\<lambda>_. 0))) 0x800100 = 7"
proof -
  let ?s = "update_channel (demo_dma 0x44) 2 (\<lambda>ch. ch\<lparr>Page := 0x80\<rparr>)"
  have "VddDmaGrants ?s 2"
    using demo_dma_granted [of "0x44"]
    by (simp add: VddDmaGrants_def DmaControllerGrants_def DmaIsCascadeUp_def Let_def)
  moreover have "unat (Page (Channels ?s (2 mod 8))) \<ge> 0x11" by simp
  ultimately show ?thesis
    using dma_device_write_unconfined [of ?s 2 7 "\<lambda>_. 0"]
    by (auto simp: VddDmaCurrentPhysical_def demo_dma_channel demo_dma_base Let_def split: prod.splits)
qed

subsection \<open>Programming a channel through the byte flip-flop\<close>

definition dma_port :: "nat \<Rightarrow> bool \<Rightarrow> u16" where
  \<comment> \<open>the address or count port of a channel\<close>
  "dma_port c isCount =
     (if c < 4 then of_nat (2 * c) + (if isCount then 1 else 0)
      else 0xC0 + 2 * (of_nat (2 * (c - 4)) + (if isCount then 1 else 0)))"

definition dma_clear_port :: "nat \<Rightarrow> u16" where
  "dma_clear_port c = (if c < 4 then 0x0C else 0xD8)"

lemma less_8_cases: "c < (8 :: nat) \<Longrightarrow> c = 0 \<or> c = 1 \<or> c = 2 \<or> c = 3 \<or> c = 4 \<or> c = 5 \<or> c = 6 \<or> c = 7"
  by arith

lemma dma_port_decode:
  assumes "c < 8"
  shows "dma_controller (dma_port c isCount) = c div 4 \<and>
    dma_register (dma_port c isCount) = 2 * (c mod 4) + (if isCount then 1 else 0) \<and>
    \<not> (dma_port c isCount \<ge> 0x80 \<and> dma_port c isCount \<le> 0x8F)"
  using less_8_cases [OF assms]
  by (cases isCount) (auto simp: dma_port_def dma_controller_def dma_register_def word_le_nat_alt)

lemma dma_clear_port_decode:
  assumes "c < 8"
  shows "dma_controller (dma_clear_port c) = c div 4 \<and> dma_register (dma_clear_port c) = 0xC \<and>
    \<not> (dma_clear_port c \<ge> 0x80 \<and> dma_clear_port c \<le> 0x8F)"
  using less_8_cases [OF assms]
  by (auto simp: dma_clear_port_def dma_controller_def dma_register_def)

lemma DmaPortOut_clear:
  assumes "c < 8"
  shows "FlipFlop (fst (DmaPortOut sm (dma_clear_port c) width v)) (c div 4) = False"
proof -
  obtain s m where sm: "sm = (s, m)" by (cases sm)
  let ?s1 = "s\<lparr>FlipFlop := (FlipFlop s)(c div 4 := False)\<rparr>"
  have "DmaPortOut sm (dma_clear_port c) width v =
      (if Request ?s1 0 OR Request ?s1 1 \<noteq> 0 then DmaSoftwareService (?s1, m) else (?s1, m))"
    using dma_clear_port_decode [OF assms] by (auto simp: sm DmaPortOut_def dma_register_write_def Let_def)
  moreover have "FlipFlop (fst (DmaSoftwareService (?s1, m))) = FlipFlop ?s1"
    using DmaSoftwareService_serves [of "(?s1, m)"] by (simp add: serves_def served_def)
  ultimately show ?thesis by simp
qed

definition half_register :: "bool \<Rightarrow> dma_channel \<Rightarrow> u16" where
  "half_register isCount ch = (if isCount then CurrentCount ch else CurrentAddress ch)"

definition half_base :: "bool \<Rightarrow> dma_channel \<Rightarrow> u16" where
  "half_base isCount ch = (if isCount then BaseCount ch else BaseAddress ch)"

lemma DmaPortOut_half:
  fixes v :: u32
  assumes "c < 8" "DmaPortOut (s, m) (dma_port c isCount) width v = (s', m')"
  defines "new \<equiv> fst (DmaWriteHalf (half_base isCount (Channels s c)) (FlipFlop s (c div 4)) (ucast v))"
  shows "m' = m \<and> FlipFlop s' (c div 4) = (\<not> FlipFlop s (c div 4)) \<and>
    half_base isCount (Channels s' c) = new \<and> half_register isCount (Channels s' c) = new"
proof -
  note d = dma_port_decode [OF assms(1), of isCount]
  have c: "c div 4 * 4 + (2 * (c mod 4) + (if isCount then 1 else 0)) div 2 = c"
    by (cases isCount) (simp_all add: div_mult_mod_eq)
  have "DmaPortOut (s, m) (dma_port c isCount) width v =
      (update_channel (s\<lparr>FlipFlop := (FlipFlop s)(c div 4 := \<not> FlipFlop s (c div 4))\<rparr>) c
         (\<lambda>ch. if isCount then ch\<lparr>BaseCount := new, CurrentCount := new\<rparr>
               else ch\<lparr>BaseAddress := new, CurrentAddress := new\<rparr>), m)"
    using d c unfolding new_def half_base_def
    by (cases isCount) (auto simp: DmaPortOut_def Let_def)
  then show ?thesis using assms(2) by (auto simp: half_base_def half_register_def)
qed

lemma DmaPortIn_half:
  assumes "c < 8"
  shows "snd (DmaPortIn asserts (s, m) (dma_port c isCount) width) =
      ucast (fst (DmaReadHalf (half_register isCount (Channels s c)) (FlipFlop s (c div 4)))) \<and>
    FlipFlop (fst (fst (DmaPortIn asserts (s, m) (dma_port c isCount) width))) (c div 4) = (\<not> FlipFlop s (c div 4)) \<and>
    Channels (fst (fst (DmaPortIn asserts (s, m) (dma_port c isCount) width))) = Channels s \<and>
    snd (fst (DmaPortIn asserts (s, m) (dma_port c isCount) width)) = m"
proof -
  note d = dma_port_decode [OF assms(1), of isCount]
  have c: "c div 4 * 4 + (2 * (c mod 4) + (if isCount then 1 else 0)) div 2 = c"
    by (cases isCount) (simp_all add: div_mult_mod_eq)
  show ?thesis
    using d c unfolding half_register_def
    by (cases isCount) (auto simp: DmaPortIn_def Let_def DmaReadHalf_def)
qed

lemma half_masks: "(0x00FF :: u16) = mask 8" "(0xFF00 :: u16) = push_bit 8 (mask 8)"
  by (simp_all add: mask_eq_exp_minus_1 push_bit_eq_mult)

lemma write_halves:
  "fst (DmaWriteHalf (fst (DmaWriteHalf r False low)) True high) = push_bit 8 (ucast high) OR ucast low"
  unfolding DmaWriteHalf_def half_masks
  by (rule bit_word_eqI) (auto simp: bit_simps dest: bit_imp_le_length)

lemma read_halves:
  "fst (DmaReadHalf (push_bit 8 (ucast high) OR ucast low) False) = low"
  "fst (DmaReadHalf (push_bit 8 (ucast high) OR ucast low) True) = high"
  by (rule bit_word_eqI; auto simp: DmaReadHalf_def bit_simps dest: bit_imp_le_length)+

text \<open>
  Programming a channel reads back. On any of the eight channels, in any state of the
  controllers, clearing the byte flip-flop and writing the low and the high half of the address or
  of the count sets both the base and the current register to that value, and two reads of the
  same port return the low half and then the high half.
\<close>

theorem dma_program_readback:
  fixes low high :: u8 and n :: nat and isCount :: bool and asserts :: "'d \<Rightarrow> u8" and sm :: "'d dma_state \<times> mem"
  defines "c \<equiv> n mod 8"
  defines "port \<equiv> dma_port c isCount"
  defines "sm1 \<equiv> fold (guest_access (DmaPortIn asserts) DmaPortOut)
    [GuestOut (dma_clear_port c) 1 0, GuestOut port 1 (ucast low), GuestOut port 1 (ucast high)] sm"
  shows "half_base isCount (Channels (fst sm1) c) = push_bit 8 (ucast high) OR ucast low \<and>
    half_register isCount (Channels (fst sm1) c) = push_bit 8 (ucast high) OR ucast low \<and>
    snd (DmaPortIn asserts sm1 port 1) = ucast low \<and>
    snd (DmaPortIn asserts (fst (DmaPortIn asserts sm1 port 1)) port 1) = ucast high"
proof -
  have c: "c < 8" by (simp add: c_def)
  obtain s0 m0 where s0: "DmaPortOut sm (dma_clear_port c) 1 0 = (s0, m0)" by (metis surj_pair)
  have f0: "FlipFlop s0 (c div 4) = False" using DmaPortOut_clear [OF c, of sm 1 0] s0 by simp
  obtain s1 m1 where s1: "DmaPortOut (s0, m0) port 1 (ucast low) = (s1, m1)" by (metis surj_pair)
  obtain s2 m2 where s2: "DmaPortOut (s1, m1) port 1 (ucast high) = (s2, m2)" by (metis surj_pair)
  note h1 = DmaPortOut_half [OF c s1 [unfolded port_def]] and h2 = DmaPortOut_half [OF c s2 [unfolded port_def]]
  have sm1: "sm1 = (s2, m2)" using s0 s1 s2 by (simp add: sm1_def)
  have f2: "FlipFlop s2 (c div 4) = False" using f0 h1 h2 by simp
  have regs: "half_base isCount (Channels s2 c) = push_bit 8 (ucast high) OR ucast low"
    "half_register isCount (Channels s2 c) = push_bit 8 (ucast high) OR ucast low"
    using f0 h1 h2 by (simp_all add: write_halves)
  note r1 = DmaPortIn_half [OF c, of asserts s2 m2 isCount 1]
  obtain s3 m3 v where s3: "DmaPortIn asserts (s2, m2) port 1 = ((s3, m3), v)" by (metis surj_pair)
  note r2 = DmaPortIn_half [OF c, of asserts s3 m3 isCount 1]
  have "Channels s3 = Channels s2" "FlipFlop s3 (c div 4) = True" "v = ucast low"
    using r1 s3 f2 by (simp_all add: port_def regs read_halves)
  then show ?thesis using r2 regs by (simp add: sm1 s3 [unfolded port_def] port_def read_halves)
qed

end
