(* ===== verification/Ntvdd_Registers.thy ===== *)
theory Ntvdd_Registers
  imports Prelude
begin

text \<open>
  The flat register snapshot an interrupt service of a device sees and its accessors,
  \<^verbatim>\<open>src/vdd/ntvdd.h\<close>, and doublewords of guest memory.
\<close>

record ntvdd_registers =
  Eax :: u32
  Ebx :: u32
  Ecx :: u32
  Edx :: u32
  Esi :: u32
  Edi :: u32
  Ebp :: u32
  Ds :: u16
  Es :: u16
  CarryFlag :: bool
  ZeroFlag :: bool

definition VddGetAh :: "ntvdd_registers \<Rightarrow> u8" where
  "VddGetAh registers = ucast (drop_bit 8 (Eax registers))"

definition VddGetAl :: "ntvdd_registers \<Rightarrow> u8" where
  "VddGetAl registers = ucast (Eax registers)"

definition VddGetCx :: "ntvdd_registers \<Rightarrow> u16" where
  "VddGetCx registers = ucast (Ecx registers)"

definition VddGetDx :: "ntvdd_registers \<Rightarrow> u16" where
  "VddGetDx registers = ucast (Edx registers)"

definition VddSetAl :: "ntvdd_registers \<Rightarrow> u8 \<Rightarrow> ntvdd_registers" where
  "VddSetAl registers v = registers\<lparr>Eax := (Eax registers AND 0xFFFFFF00) OR ucast v\<rparr>"

definition VddSetAh :: "ntvdd_registers \<Rightarrow> u8 \<Rightarrow> ntvdd_registers" where
  "VddSetAh registers v = registers\<lparr>Eax := (Eax registers AND 0xFFFF00FF) OR push_bit 8 (ucast v)\<rparr>"

definition VddSetCx :: "ntvdd_registers \<Rightarrow> u16 \<Rightarrow> ntvdd_registers" where
  "VddSetCx registers v = registers\<lparr>Ecx := (Ecx registers AND 0xFFFF0000) OR ucast v\<rparr>"

definition VddSetDx :: "ntvdd_registers \<Rightarrow> u16 \<Rightarrow> ntvdd_registers" where
  "VddSetDx registers v = registers\<lparr>Edx := (Edx registers AND 0xFFFF0000) OR ucast v\<rparr>"

lemma low_word_mask: "(0xFFFF0000 :: u32) = push_bit 16 (mask 16)"
  by (simp add: mask_eq_exp_minus_1 push_bit_eq_mult)

lemma VddGet_after_Set [simp]:
  "VddGetCx (VddSetCx registers v) = v" "VddGetDx (VddSetDx registers v) = v"
  "VddGetCx (VddSetDx registers v) = VddGetCx registers" "VddGetDx (VddSetCx registers v) = VddGetDx registers"
  "VddGetCx (VddSetAl registers w) = VddGetCx registers" "VddGetDx (VddSetAl registers w) = VddGetDx registers"
  unfolding VddGetCx_def VddGetDx_def VddSetCx_def VddSetDx_def VddSetAl_def low_word_mask
  by (simp_all, (rule bit_word_eqI, auto simp: bit_simps)+)

lemma VddGetAl_SetAl [simp]: "VddGetAl (VddSetAl registers w) = w"
proof -
  have mask: "(0xFFFFFF00 :: u32) = push_bit 8 (mask 24)" by (simp add: mask_eq_exp_minus_1 push_bit_eq_mult)
  show ?thesis unfolding VddGetAl_def VddSetAl_def mask
    by (simp, rule bit_word_eqI, auto simp: bit_simps)
qed

subsection \<open>Doublewords in memory\<close>

definition load_dword :: "mem \<Rightarrow> nat \<Rightarrow> u32" where
  "load_dword m a = ucast (m a) OR push_bit 8 (ucast (m (a + 1))) OR push_bit 16 (ucast (m (a + 2))) OR
     push_bit 24 (ucast (m (a + 3)))"

definition store_dword :: "mem \<Rightarrow> nat \<Rightarrow> u32 \<Rightarrow> mem" where
  "store_dword m a v = m(a := ucast v, a + 1 := ucast (drop_bit 8 v), a + 2 := ucast (drop_bit 16 v),
     a + 3 := ucast (drop_bit 24 v))"

lemma load_store_dword [mem_facts]: "load_dword (store_dword m a v) a = v"
proof (rule bit_word_eqI)
  fix n assume "n < LENGTH(32)"
  then consider "n < 8" | "8 \<le> n \<and> n < 16" | "16 \<le> n \<and> n < 24" | "24 \<le> n \<and> n < 32" by fastforce
  then show "bit (load_dword (store_dword m a v) a) n = bit v n"
    by cases (auto simp: load_dword_def store_dword_def bit_or_iff bit_push_bit_iff bit_ucast_iff bit_drop_bit_eq
        dest: bit_imp_le_length)
qed

lemma store_dword_elsewhere [mem_facts]: "b < a \<or> a + 4 \<le> b \<Longrightarrow> store_dword m a v b = m b"
  by (auto simp: store_dword_def)

end
