(* ===== verification/Pit_8254.thy ===== *)
theory Pit_8254
  imports Vdd_Bus Ntvdd_Registers
begin

text \<open>
  The 8254 timer, \<^verbatim>\<open>src/vdd/vdd_pit.c\<close> and \<^verbatim>\<open>vdd_pit.h\<close>: three counters computed from elapsed
  input clocks, the IRQ0 engine on counter 0, the ports with their latches and read-back command,
  and the BIOS services INT 08h and INT 1Ah.

  The state is \<open>PIT_STATE\<close>. The flat fields of counter 0 carry the suffix 0 here, the four tick
  witness fields are the record \<open>tick_book\<close>, and \<open>Bus\<close> is the base the bus maps guest memory at.
  The host's routines are fields with their context passed through: \<open>'h\<close> is the context of the
  clock routines, \<open>'t\<close> that of the tick hook. \<open>TicksSet\<close> may reach back into the tick book, as the
  host's routine does. \<open>raise\<close> is the effect on the machine of \<^verbatim>\<open>VddRaiseIrq(bus, 0)\<close>. The \<open>Guard\<close>
  routine is a lock the host takes around port accesses and does not appear.
\<close>

subsection \<open>State\<close>

definition PIT_INPUT_HZ :: u64 where "PIT_INPUT_HZ = 1193182"
definition PIT_TICKS_PER_DAY :: u32 where "PIT_TICKS_PER_DAY = 0x1800B0"
definition PIT_BINARY_WRAP :: u32 where "PIT_BINARY_WRAP = 0x10000"
definition PIT_BCD_WRAP :: u32 where "PIT_BCD_WRAP = 10000"
definition PIT_CLOCKS_PER_TICK :: u64 where "PIT_CLOCKS_PER_TICK = 65536"
definition PIT_DEFAULT_FRAME_US :: u32 where "PIT_DEFAULT_FRAME_US = 16667"
definition PIT_CATCH_UP_GUARD :: nat where "PIT_CATCH_UP_GUARD = 100000"
definition PIT_REFRESH_DIVISOR :: u16 where "PIT_REFRESH_DIVISOR = 18"
definition PIT_ACCESS_LATCH :: u8 where "PIT_ACCESS_LATCH = 0"
definition PIT_ACCESS_LOW :: u8 where "PIT_ACCESS_LOW = 1"
definition PIT_ACCESS_HIGH :: u8 where "PIT_ACCESS_HIGH = 2"
definition PIT_ACCESS_LOW_HIGH :: u8 where "PIT_ACCESS_LOW_HIGH = 3"

record pit_rtc_reading =
  Century :: u32
  Year :: u32
  Month :: u32
  Day :: u32
  Hour :: u32
  Minute :: u32
  Second :: u32
  DayOfWeek :: u32

record pit_counter =
  Reload :: u16
  Access :: u8
  Mode :: u8
  ProgrammedMode :: u8
  IsBcd :: bool
  IsWriteHighNext :: bool
  WriteLow :: u8
  IsReadHighNext :: bool
  IsLatched :: bool
  Latch :: u16
  LoadClocks :: u64
  IsNullCount :: bool
  Gate :: bool
  GateElapsed :: u64
  IsTriggered :: bool

record tick_book =
  TickWitness :: u32
  IsTickForeign :: bool
  TickWraps :: u32
  TickSince :: u32

record ('h, 't) pit_state =
  Bus :: "nat option"
  Reload0 :: u16
  Access0 :: u8
  Mode0 :: u8
  ProgrammedMode0 :: u8
  IsWriteHighNext0 :: bool
  WriteLow0 :: u8
  IsReadHighNext0 :: bool
  IsLatched0 :: bool
  Latch0 :: u16
  TotalClocks :: u64
  LoadClocks0 :: u64
  Accumulator :: u64
  IsControlWordArmed :: bool
  IsNextPending :: bool
  NextReload :: u16
  IsIrqArmed :: bool
  OneShotLoads :: u32
  Restarts :: u32
  FrameMicroseconds :: u32
  Counter2Reload :: u16
  Counter2Access :: u8
  Counter2IsWriteHighNext :: bool
  Counter2WriteLow :: u8
  IsBcd0 :: bool
  StatusLatched :: "nat \<Rightarrow> bool"
  StatusLatch :: "nat \<Rightarrow> u8"
  Counter1 :: pit_counter
  Counter2 :: pit_counter
  RtcNow :: "('h \<Rightarrow> pit_rtc_reading \<Rightarrow> pit_rtc_reading) option"
  RtcContext :: 'h
  RtcSet :: "('h \<Rightarrow> pit_rtc_reading \<Rightarrow> bool \<Rightarrow> 'h \<times> bool) option"
  TicksSet :: "('h \<Rightarrow> tick_book \<Rightarrow> u32 \<Rightarrow> 'h \<times> tick_book) option"
  Ticks :: tick_book
  BiosTickHook :: "('t \<Rightarrow> mem \<Rightarrow> nat \<Rightarrow> 't \<times> mem) option"
  BiosTickHookContext :: 't

subsection \<open>Counts\<close>

definition PitFromBcd :: "u16 \<Rightarrow> u32" where
  "PitFromBcd v = ucast (v AND 0xF) + ucast (drop_bit 4 v AND 0xF) * 10 +
     ucast (drop_bit 8 v AND 0xF) * 100 + ucast (drop_bit 12 v AND 0xF) * 1000"

definition PitToBcd :: "u32 \<Rightarrow> u16" where
  "PitToBcd v =
     (let v = v mod PIT_BCD_WRAP
      in ucast (push_bit 12 ((v div 1000) mod 10) OR push_bit 8 ((v div 100) mod 10) OR
                push_bit 4 ((v div 10) mod 10) OR v mod 10))"

definition PitWrap :: "bool \<Rightarrow> u32" where
  "PitWrap isBcd = (if isBcd then PIT_BCD_WRAP else PIT_BINARY_WRAP)"

definition VddPitEffectiveReload :: "('h, 't) pit_state \<Rightarrow> u32" where
  "VddPitEffectiveReload s = (if Reload0 s \<noteq> 0 then ucast (Reload0 s) else PitWrap (IsBcd0 s))"

definition VddPitCounterEffectiveReload :: "pit_counter \<Rightarrow> u32" where
  "VddPitCounterEffectiveReload counter = (if Reload counter \<noteq> 0 then ucast (Reload counter) else PitWrap (IsBcd counter))"

definition VddPitCounter2Hz :: "('h, 't) pit_state \<Rightarrow> u32" where
  "VddPitCounter2Hz s =
     (let reload = (if IsBcd (Counter2 s) then PitFromBcd (Counter2Reload s) else ucast (Counter2Reload s));
          reload' = (if reload = 0 then PitWrap (IsBcd (Counter2 s)) else reload)
      in 1193182 div reload')"

text \<open>The counting element after \<open>elapsed\<close> clocks, in binary.\<close>

definition PitCountLaw :: "u8 \<Rightarrow> u32 \<Rightarrow> u64 \<Rightarrow> u32 \<Rightarrow> u32" where
  "PitCountLaw mode reload elapsed wrap =
     (if mode = 0 \<or> mode = 1 \<or> mode = 4 \<or> mode = 5
      then let remainder = ucast (elapsed mod ucast wrap);
               count = (if reload \<ge> remainder then reload - remainder else reload + wrap - remainder)
           in count mod wrap
      else if mode = 3
      then let half = (reload + 1) div 2; phase = ucast (elapsed mod ucast half)
           in (reload - 2 * phase) mod wrap
      else (reload - ucast (elapsed mod ucast reload)) mod wrap)"

definition elapsed_since :: "u64 \<Rightarrow> u64 \<Rightarrow> u64" where
  "elapsed_since now loaded = (if now \<ge> loaded then now - loaded else 0)"

definition PitCurrentCount :: "('h, 't) pit_state \<Rightarrow> u32" where
  "PitCurrentCount s =
     PitCountLaw (Mode0 s) (VddPitEffectiveReload s) (elapsed_since (TotalClocks s) (LoadClocks0 s)) (PitWrap (IsBcd0 s))"

definition PitCountBytes :: "bool \<Rightarrow> u32 \<Rightarrow> u16" where
  "PitCountBytes isBcd count = (if isBcd then PitToBcd count else ucast count)"

definition PitCountValue :: "bool \<Rightarrow> u16 \<Rightarrow> u16" where
  "PitCountValue isBcd written = (if isBcd then ucast (PitFromBcd written) else written)"

definition PitCounterElapsed :: "('h, 't) pit_state \<Rightarrow> pit_counter \<Rightarrow> u64" where
  "PitCounterElapsed s counter =
     (if \<not> Gate counter \<and> Mode counter \<noteq> 1 \<and> Mode counter \<noteq> 5 then GateElapsed counter
      else elapsed_since (TotalClocks s) (LoadClocks counter))"

definition PitCounterCount :: "('h, 't) pit_state \<Rightarrow> pit_counter \<Rightarrow> u32" where
  "PitCounterCount s counter =
     PitCountLaw (Mode counter) (VddPitCounterEffectiveReload counter) (PitCounterElapsed s counter) (PitWrap (IsBcd counter))"

subsection \<open>Counter 2's gate and the output pins\<close>

definition VddPitCounter2Gate :: "('h, 't) pit_state \<Rightarrow> bool \<Rightarrow> ('h, 't) pit_state" where
  "VddPitCounter2Gate s isHigh =
     (let counter = Counter2 s
      in if isHigh = Gate counter then s
         else if Mode counter = 1 \<or> Mode counter = 5
         then let counter1 = (if isHigh then counter\<lparr>LoadClocks := TotalClocks s, IsTriggered := True\<rparr> else counter)
              in s\<lparr>Counter2 := counter1\<lparr>Gate := isHigh\<rparr>\<rparr>
         else if Mode counter = 2 \<or> Mode counter = 3
         then (if isHigh then s\<lparr>Counter2 := counter\<lparr>LoadClocks := TotalClocks s, Gate := True\<rparr>\<rparr>
               else s\<lparr>Counter2 := counter\<lparr>GateElapsed := PitCounterElapsed s counter, Gate := False\<rparr>\<rparr>)
         else if isHigh
         then s\<lparr>Counter2 := counter\<lparr>LoadClocks := TotalClocks s - GateElapsed counter, Gate := True\<rparr>\<rparr>
         else s\<lparr>Counter2 := counter\<lparr>GateElapsed := PitCounterElapsed s counter, Gate := False\<rparr>\<rparr>)"

definition PitOutPin :: "u8 \<Rightarrow> u32 \<Rightarrow> u64 \<Rightarrow> bool" where
  "PitOutPin mode reload elapsed =
     (if mode = 0 \<or> mode = 1 then elapsed \<ge> ucast reload
      else if mode = 2 then ucast (elapsed mod ucast reload) \<noteq> reload - 1
      else if mode = 3 then ucast (elapsed mod ucast reload) < (reload + 1) div 2
      else if mode = 4 \<or> mode = 5 then elapsed \<noteq> ucast reload
      else True)"

definition PitCounterOut :: "('h, 't) pit_state \<Rightarrow> pit_counter \<Rightarrow> bool" where
  "PitCounterOut s counter =
     (if (Mode counter = 1 \<or> Mode counter = 5) \<and> \<not> IsTriggered counter then True
      else if (Mode counter = 2 \<or> Mode counter = 3) \<and> \<not> Gate counter then True
      else PitOutPin (Mode counter) (VddPitCounterEffectiveReload counter) (PitCounterElapsed s counter))"

definition VddPitCounter2Out :: "('h, 't) pit_state \<Rightarrow> bool" where
  "VddPitCounter2Out s = PitCounterOut s (Counter2 s)"

subsection \<open>Counters 1 and 2 at the ports\<close>

definition load_counter :: "('h, 't) pit_state \<Rightarrow> pit_counter \<Rightarrow> u16 \<Rightarrow> pit_counter" where
  \<comment> \<open>the end of \<open>PitCounterWriteCount\<close>, once the count is complete\<close>
  "load_counter s counter count =
     counter\<lparr>Reload := PitCountValue (IsBcd counter) count,
             IsTriggered := (if Mode counter = 1 \<or> Mode counter = 5 then False else IsTriggered counter),
             IsNullCount := False, LoadClocks := TotalClocks s, GateElapsed := 0\<rparr>"

definition PitCounterWriteCount :: "('h, 't) pit_state \<Rightarrow> pit_counter \<Rightarrow> u8 \<Rightarrow> pit_counter" where
  "PitCounterWriteCount s counter byteValue =
     (if Access counter = PIT_ACCESS_LOW then load_counter s counter (ucast byteValue)
      else if Access counter = PIT_ACCESS_HIGH then load_counter s counter (push_bit 8 (ucast byteValue))
      else if \<not> IsWriteHighNext counter then counter\<lparr>WriteLow := byteValue, IsWriteHighNext := True\<rparr>
      else load_counter s (counter\<lparr>IsWriteHighNext := False\<rparr>) (push_bit 8 (ucast byteValue) OR ucast (WriteLow counter)))"

definition PitCounterReadCount :: "('h, 't) pit_state \<Rightarrow> pit_counter \<Rightarrow> pit_counter \<times> u32" where
  "PitCounterReadCount s counter =
     (let count = PitCountBytes (IsBcd counter) (if IsLatched counter then ucast (Latch counter) else PitCounterCount s counter);
          accessMode = (if Access counter \<noteq> 0 then Access counter else PIT_ACCESS_LOW_HIGH)
      in if accessMode = PIT_ACCESS_LOW then (counter\<lparr>IsLatched := False\<rparr>, ucast (count AND 0xFF))
         else if accessMode = PIT_ACCESS_HIGH then (counter\<lparr>IsLatched := False\<rparr>, ucast (drop_bit 8 count AND 0xFF))
         else if \<not> IsReadHighNext counter then (counter\<lparr>IsReadHighNext := True\<rparr>, ucast (count AND 0xFF))
         else (counter\<lparr>IsReadHighNext := False, IsLatched := False\<rparr>, ucast (drop_bit 8 count AND 0xFF)))"

definition cw_access :: "u8 \<Rightarrow> u8" where
  "cw_access controlWord = drop_bit 4 controlWord AND 3"

definition cw_mode :: "u8 \<Rightarrow> u8" where
  "cw_mode controlWord = drop_bit 1 controlWord AND 7"

definition effective_mode :: "u8 \<Rightarrow> u8" where
  "effective_mode programmed = (if programmed \<ge> 6 then programmed - 4 else programmed)"

definition PitCounterControl :: "('h, 't) pit_state \<Rightarrow> pit_counter \<Rightarrow> u8 \<Rightarrow> pit_counter" where
  "PitCounterControl s counter controlWord =
     (if cw_access controlWord = PIT_ACCESS_LATCH
      then counter\<lparr>Latch := ucast (PitCounterCount s counter), IsLatched := True, IsReadHighNext := False\<rparr>
      else counter\<lparr>Access := cw_access controlWord, IsTriggered := False, ProgrammedMode := cw_mode controlWord,
                   Mode := effective_mode (cw_mode controlWord), IsBcd := bit controlWord 0, IsWriteHighNext := False,
                   IsNullCount := True, LoadClocks := TotalClocks s, GateElapsed := 0\<rparr>)"
subsection \<open>The time engine\<close>

primrec pit_catch_up ::
  "nat \<Rightarrow> ('m \<Rightarrow> 'm) \<Rightarrow> ('h, 't) pit_state \<Rightarrow> u32 \<Rightarrow> 'm \<Rightarrow> ('h, 't) pit_state \<times> 'm" where
  \<comment> \<open>the loop of \<open>VddPitAddClocks\<close>, at most the given number of turns\<close>
  "pit_catch_up 0 raise s reload m = (s, m)"
| "pit_catch_up (Suc iterations) raise s reload m =
     (if Accumulator s < ucast reload then (s, m)
      else let s1 = s\<lparr>Accumulator := Accumulator s - ucast reload\<rparr>; m1 = raise m
           in if IsNextPending s1
              then let s2 = s1\<lparr>Reload0 := NextReload s1, IsNextPending := False, LoadClocks0 := TotalClocks s1 - Accumulator s1\<rparr>
                   in pit_catch_up iterations raise s2 (VddPitEffectiveReload s2) m1
              else pit_catch_up iterations raise s1 reload m1)"

definition VddPitAddClocks ::
  "('m \<Rightarrow> 'm) \<Rightarrow> ('h, 't) pit_state \<Rightarrow> u32 \<Rightarrow> 'm \<Rightarrow> ('h, 't) pit_state \<times> 'm" where
  "VddPitAddClocks raise s clocks m =
     (let reload = VddPitEffectiveReload s; s1 = s\<lparr>TotalClocks := TotalClocks s + ucast clocks\<rparr>
      in if Mode0 s1 \<noteq> 2 \<and> Mode0 s1 \<noteq> 3
         then let s2 = s1\<lparr>Accumulator := 0\<rparr>
              in if IsIrqArmed s2 \<and> TotalClocks s2 - LoadClocks0 s2 \<ge> ucast reload
                 then (s2\<lparr>IsIrqArmed := False\<rparr>, raise m) else (s2, m)
         else pit_catch_up PIT_CATCH_UP_GUARD raise (s1\<lparr>Accumulator := Accumulator s1 + ucast clocks\<rparr>) reload m)"

definition PitLoad :: "('h, 't) pit_state \<Rightarrow> u16 \<Rightarrow> ('h, 't) pit_state" where
  "PitLoad s written =
     (let count = PitCountValue (IsBcd0 s) written; isPeriodic = (Mode0 s = 2 \<or> Mode0 s = 3)
      in if isPeriodic \<and> \<not> IsControlWordArmed s then s\<lparr>NextReload := count, IsNextPending := True\<rparr>
         else s\<lparr>Reload0 := count, LoadClocks0 := TotalClocks s, Accumulator := 0, IsControlWordArmed := False,
                IsNextPending := False, IsIrqArmed := (Mode0 s = 0 \<or> Mode0 s = 4),
                OneShotLoads := (if isPeriodic then OneShotLoads s else OneShotLoads s + 1),
                Restarts := Restarts s + 1\<rparr>)"

definition PitFrame :: "('m \<Rightarrow> 'm) \<Rightarrow> ('h, 't) pit_state \<Rightarrow> 'm \<Rightarrow> ('h, 't) pit_state \<times> 'm" where
  "PitFrame raise s m =
     (if FrameMicroseconds s = 0 then (s, m)
      else VddPitAddClocks raise s (ucast ((PIT_INPUT_HZ * ucast (FrameMicroseconds s)) div 1000000)) m)"

subsection \<open>Status, read-back and the ports\<close>

definition counter_of :: "('h, 't) pit_state \<Rightarrow> nat \<Rightarrow> pit_counter" where
  "counter_of s counterIndex = (if counterIndex = 1 then Counter1 s else Counter2 s)"

definition PitStatusOf :: "('h, 't) pit_state \<Rightarrow> nat \<Rightarrow> u8" where
  "PitStatusOf s counterIndex =
     (let counter = counter_of s counterIndex;
          access = (if counterIndex = 0 then Access0 s else Access counter);
          accessMode = (if access \<noteq> 0 then access else PIT_ACCESS_LOW_HIGH);
          programmedMode = (if counterIndex = 0 then ProgrammedMode0 s else ProgrammedMode counter);
          isBcd = (if counterIndex = 0 then IsBcd0 s else IsBcd counter);
          isNullCount = (if counterIndex = 0 then IsControlWordArmed s \<or> IsNextPending s else IsNullCount counter);
          outPin = (if counterIndex = 0
                    then PitOutPin (Mode0 s) (VddPitEffectiveReload s) (elapsed_since (TotalClocks s) (LoadClocks0 s))
                    else PitCounterOut s counter)
      in (if outPin then 0x80 else 0) OR (if isNullCount then 0x40 else 0) OR push_bit 4 (accessMode AND 3) OR
         push_bit 1 (programmedMode AND 7) OR (if isBcd then 1 else 0))"

definition latch_status :: "('h, 't) pit_state \<Rightarrow> nat \<Rightarrow> ('h, 't) pit_state" where
  "latch_status s counterIndex =
     (if StatusLatched s counterIndex then s
      else s\<lparr>StatusLatch := (StatusLatch s)(counterIndex := PitStatusOf s counterIndex),
             StatusLatched := (StatusLatched s)(counterIndex := True)\<rparr>)"

definition latch_once :: "('h, 't) pit_state \<Rightarrow> pit_counter \<Rightarrow> pit_counter" where
  "latch_once s counter =
     (if IsLatched counter then counter
      else counter\<lparr>Latch := ucast (PitCounterCount s counter), IsLatched := True, IsReadHighNext := False\<rparr>)"

definition latch_count :: "('h, 't) pit_state \<Rightarrow> nat \<Rightarrow> ('h, 't) pit_state" where
  "latch_count s counterIndex =
     (if counterIndex = 0
      then (if IsLatched0 s then s
            else s\<lparr>Latch0 := ucast (PitCurrentCount s), IsLatched0 := True, IsReadHighNext0 := False\<rparr>)
      else if counterIndex = 1 then s\<lparr>Counter1 := latch_once s (Counter1 s)\<rparr>
      else s\<lparr>Counter2 := latch_once s (Counter2 s)\<rparr>)"

definition read_back_one :: "u8 \<Rightarrow> nat \<Rightarrow> ('h, 't) pit_state \<Rightarrow> ('h, 't) pit_state" where
  \<comment> \<open>the body of the loop of \<open>PitReadBack\<close>; both latch bits are active low\<close>
  "read_back_one command counterIndex s =
     (if \<not> bit command (counterIndex + 1) then s
      else let s1 = (if bit command 4 then s else latch_status s counterIndex)
           in if bit command 5 then s1 else latch_count s1 counterIndex)"

definition PitReadBack :: "('h, 't) pit_state \<Rightarrow> u8 \<Rightarrow> ('h, 't) pit_state" where
  "PitReadBack s command = fold (read_back_one command) [0..<3] s"

definition control_counter0 :: "('h, 't) pit_state \<Rightarrow> u8 \<Rightarrow> ('h, 't) pit_state" where
  "control_counter0 s byteValue =
     (if cw_access byteValue = PIT_ACCESS_LATCH
      then s\<lparr>Latch0 := ucast (PitCurrentCount s), IsLatched0 := True, IsReadHighNext0 := False\<rparr>
      else s\<lparr>ProgrammedMode0 := cw_mode byteValue, Mode0 := effective_mode (cw_mode byteValue),
             Access0 := cw_access byteValue, IsBcd0 := bit byteValue 0, IsWriteHighNext0 := False,
             IsControlWordArmed := True, IsNextPending := False, IsIrqArmed := False\<rparr>)"

definition write_counter0 :: "('h, 't) pit_state \<Rightarrow> u8 \<Rightarrow> ('h, 't) pit_state" where
  "write_counter0 s byteValue =
     (let accessMode = (if Access0 s \<noteq> 0 then Access0 s else PIT_ACCESS_LOW_HIGH)
      in if accessMode = PIT_ACCESS_LOW then PitLoad s (ucast byteValue)
         else if accessMode = PIT_ACCESS_HIGH then PitLoad s (push_bit 8 (ucast byteValue))
         else if \<not> IsWriteHighNext0 s then s\<lparr>WriteLow0 := byteValue, IsWriteHighNext0 := True\<rparr>
         else (PitLoad s (push_bit 8 (ucast byteValue) OR ucast (WriteLow0 s)))\<lparr>IsWriteHighNext0 := False\<rparr>)"

definition write_counter2 :: "('h, 't) pit_state \<Rightarrow> u8 \<Rightarrow> ('h, 't) pit_state" where
  \<comment> \<open>the speaker's divisor, and the same byte into the counter\<close>
  "write_counter2 s byteValue =
     (let accessMode = (if Counter2Access s \<noteq> 0 then Counter2Access s else PIT_ACCESS_LOW_HIGH);
          s1 = (if accessMode = PIT_ACCESS_LOW then s\<lparr>Counter2Reload := ucast byteValue\<rparr>
                else if accessMode = PIT_ACCESS_HIGH then s\<lparr>Counter2Reload := push_bit 8 (ucast byteValue)\<rparr>
                else if \<not> Counter2IsWriteHighNext s
                then s\<lparr>Counter2WriteLow := byteValue, Counter2IsWriteHighNext := True\<rparr>
                else s\<lparr>Counter2Reload := push_bit 8 (ucast byteValue) OR ucast (Counter2WriteLow s),
                       Counter2IsWriteHighNext := False\<rparr>)
      in s1\<lparr>Counter2 := PitCounterWriteCount s1 ((Counter2 s1)\<lparr>Access := accessMode\<rparr>) byteValue\<rparr>)"

definition PitPortOutLocked :: "('h, 't) pit_state \<Rightarrow> u16 \<Rightarrow> u8 \<Rightarrow> ('h, 't) pit_state" where
  "PitPortOutLocked s port byteValue =
     (if port = 0x43
      then (let counterIndex = drop_bit 6 byteValue
            in if counterIndex = 2
               then let s1 = (if cw_access byteValue \<noteq> PIT_ACCESS_LATCH
                              then s\<lparr>Counter2Access := cw_access byteValue, Counter2IsWriteHighNext := False\<rparr> else s)
                    in s1\<lparr>Counter2 := PitCounterControl s1 (Counter2 s1) byteValue\<rparr>
               else if counterIndex = 1 then s\<lparr>Counter1 := PitCounterControl s (Counter1 s) byteValue\<rparr>
               else if counterIndex = 3 then PitReadBack s byteValue
               else control_counter0 s byteValue)
      else if port = 0x40 then write_counter0 s byteValue
      else if port = 0x42 then write_counter2 s byteValue
      else if port = 0x41 then s\<lparr>Counter1 := PitCounterWriteCount s (Counter1 s) byteValue\<rparr>
      else s)"

definition PitPortOut :: "('h, 't) pit_state \<Rightarrow> u16 \<Rightarrow> u8 \<Rightarrow> u32 \<Rightarrow> ('h, 't) pit_state" where
  "PitPortOut s port width v = PitPortOutLocked s port (ucast v)"

definition read_counter0 :: "('h, 't) pit_state \<Rightarrow> ('h, 't) pit_state \<times> u32" where
  "read_counter0 s =
     (let count = PitCountBytes (IsBcd0 s) (if IsLatched0 s then ucast (Latch0 s) else PitCurrentCount s);
          accessMode = (if Access0 s \<noteq> 0 then Access0 s else PIT_ACCESS_LOW_HIGH)
      in if accessMode = PIT_ACCESS_LOW then (s\<lparr>IsLatched0 := False\<rparr>, ucast (count AND 0xFF))
         else if accessMode = PIT_ACCESS_HIGH then (s\<lparr>IsLatched0 := False\<rparr>, ucast (drop_bit 8 count AND 0xFF))
         else if \<not> IsReadHighNext0 s then (s\<lparr>IsReadHighNext0 := True\<rparr>, ucast (count AND 0xFF))
         else (s\<lparr>IsReadHighNext0 := False, IsLatched0 := False\<rparr>, ucast (drop_bit 8 count AND 0xFF)))"

definition PitPortInLocked :: "('h, 't) pit_state \<Rightarrow> u16 \<Rightarrow> ('h, 't) pit_state \<times> u32" where
  "PitPortInLocked s port =
     (let counterIndex = (if port = 0x40 then Some 0 else if port = 0x41 then Some 1
                          else if port = 0x42 then Some (2 :: nat) else None)
      in if (case counterIndex of Some i \<Rightarrow> StatusLatched s i | None \<Rightarrow> False)
         then (s\<lparr>StatusLatched := (StatusLatched s)(the counterIndex := False)\<rparr>, ucast (StatusLatch s (the counterIndex)))
         else if port = 0x41 then let (counter, v) = PitCounterReadCount s (Counter1 s) in (s\<lparr>Counter1 := counter\<rparr>, v)
         else if port = 0x42 then let (counter, v) = PitCounterReadCount s (Counter2 s) in (s\<lparr>Counter2 := counter\<rparr>, v)
         else if port \<noteq> 0x40 then (s, 0xFF)
         else read_counter0 s)"

definition PitPortIn :: "('h, 't) pit_state \<Rightarrow> u16 \<Rightarrow> u8 \<Rightarrow> ('h, 't) pit_state \<times> u32" where
  "PitPortIn s port width = PitPortInLocked s port"
subsection \<open>The BIOS services\<close>

text \<open>
  The tick count is the doubleword at 0040:006C, the midnight flag the byte at 0040:0070. The
  tick book tells a count the BIOS left there from one the guest stored.
\<close>

definition BIOS_BDA_TICK_COUNT :: nat where "BIOS_BDA_TICK_COUNT = 0x6C"
definition BIOS_BDA_MIDNIGHT_FLAG :: nat where "BIOS_BDA_MIDNIGHT_FLAG = 0x70"

definition PitBiosDataArea :: "('h, 't) pit_state \<Rightarrow> nat" where
  "PitBiosDataArea s = the (Bus s) + unat (push_bit 4 (0x40 :: u32))"

definition VddPitTickOwned :: "u32 \<Rightarrow> tick_book" where
  "VddPitTickOwned count = \<lparr>TickWitness = count, IsTickForeign = False, TickWraps = 0, TickSince = 0\<rparr>"

definition VddPitTickTake :: "tick_book \<Rightarrow> u32 \<Rightarrow> (tick_book \<times> u32 \<times> u32 \<times> u32) option" where
  "VddPitTickTake book count =
     (if \<not> IsTickForeign book \<and> count = TickWitness book then None
      else let wraps = (if IsTickForeign book then TickWraps book else 0);
               since = (if IsTickForeign book then TickSince book else 0)
           in Some (VddPitTickOwned count, count, wraps, since))"

definition VddPitBiosTick :: "tick_book \<Rightarrow> u32 \<Rightarrow> u8 \<Rightarrow> tick_book \<times> u32 \<times> u8" where
  \<comment> \<open>the count and the midnight flag in memory, before and after\<close>
  "VddPitBiosTick book count midnightFlag =
     (let book1 = (if count \<noteq> TickWitness book \<and> \<not> IsTickForeign book
                   then book\<lparr>IsTickForeign := True, TickWraps := 0, TickSince := 0\<rparr> else book);
          count1 = count + 1; wraps = (count1 \<ge> PIT_TICKS_PER_DAY);
          book2 = (if wraps \<and> IsTickForeign book1 then book1\<lparr>TickWraps := TickWraps book1 + 1\<rparr> else book1);
          book3 = (if IsTickForeign book2 then book2\<lparr>TickSince := TickSince book2 + 1\<rparr> else book2);
          count2 = (if wraps then 0 else count1)
      in (book3\<lparr>TickWitness := count2\<rparr>, count2, if wraps then 1 else midnightFlag))"

definition VddPitBiosTickHook :: "('h, 't) pit_state \<Rightarrow> mem \<Rightarrow> nat \<Rightarrow> ('h, 't) pit_state \<times> mem" where
  "VddPitBiosTickHook s m biosData =
     (case BiosTickHook s of
        None \<Rightarrow> (s, m)
      | Some hook \<Rightarrow> let (t, m1) = hook (BiosTickHookContext s) m biosData in (s\<lparr>BiosTickHookContext := t\<rparr>, m1))"

definition PitInt08 :: "('h, 't) pit_state \<times> mem \<Rightarrow> ('h, 't) pit_state \<times> mem" where
  "PitInt08 sm =
     (let (s, m) = sm; biosData = PitBiosDataArea s;
          (book, count, midnight) = VddPitBiosTick (Ticks s) (load_dword m (biosData + BIOS_BDA_TICK_COUNT))
                                      (m (biosData + BIOS_BDA_MIDNIGHT_FLAG));
          m1 = (store_dword m (biosData + BIOS_BDA_TICK_COUNT) count)(biosData + BIOS_BDA_MIDNIGHT_FLAG := midnight)
      in VddPitBiosTickHook (s\<lparr>Ticks := book\<rparr>) m1 biosData)"

definition PitToBcdByte :: "u32 \<Rightarrow> u32" where
  "PitToBcdByte v = ((v div 10) mod 10) * 16 + v mod 10"

definition PitRtc :: "('h, 't) pit_state \<Rightarrow> pit_rtc_reading option" where
  "PitRtc s =
     (case RtcNow s of
        None \<Rightarrow> None
      | Some now \<Rightarrow> Some (now (RtcContext s)
          \<lparr>Century = 20, Year = 0, Month = 1, Day = 1, Hour = 0, Minute = 0, Second = 0, DayOfWeek = 0\<rparr>))"

definition VddPitTicksSinceMidnight :: "u32 \<Rightarrow> u32 \<Rightarrow> u32 \<Rightarrow> u32" where
  "VddPitTicksSinceMidnight hour minute second =
     (let seconds = ucast hour * 3600 + ucast minute * 60 + ucast second :: u64
      in ucast ((seconds * PIT_INPUT_HZ) div PIT_CLOCKS_PER_TICK))"

definition VddPitSeedTimeOfDay :: "('h, 't) pit_state \<times> mem \<Rightarrow> ('h, 't) pit_state \<times> mem \<times> bool" where
  "VddPitSeedTimeOfDay sm =
     (let (s, m) = sm
      in case (Bus s, PitRtc s) of
           (Some base, Some reading) \<Rightarrow>
             (if Hour reading > 23 \<or> Minute reading > 59 \<or> Second reading > 59 then (s, m, False)
              else let biosData = PitBiosDataArea s;
                       count = VddPitTicksSinceMidnight (Hour reading) (Minute reading) (Second reading);
                       m1 = (store_dword m (biosData + BIOS_BDA_TICK_COUNT) count)(biosData + BIOS_BDA_MIDNIGHT_FLAG := 0)
                   in (s\<lparr>Ticks := VddPitTickOwned (load_dword m1 (biosData + BIOS_BDA_TICK_COUNT))\<rparr>, m1, True))
         | _ \<Rightarrow> (s, m, False))"

definition bcd_field_bad :: "u32 \<Rightarrow> bool" where
  "bcd_field_bad field \<longleftrightarrow> field AND 0x0F > 9 \<or> drop_bit 4 field > 9"

definition bcd_field :: "u32 \<Rightarrow> u32" where
  "bcd_field field = drop_bit 4 field * 10 + (field AND 0x0F)"

definition requested_reading :: "bool \<Rightarrow> u32 list \<Rightarrow> pit_rtc_reading" where
  "requested_reading isDate digits =
     (if isDate
      then \<lparr>Century = digits ! 0, Year = digits ! 1, Month = digits ! 2, Day = digits ! 3,
            Hour = 0, Minute = 0, Second = 0, DayOfWeek = 0\<rparr>
      else \<lparr>Century = 0, Year = 0, Month = 0, Day = 0, Hour = digits ! 0, Minute = digits ! 1, Second = digits ! 2,
            DayOfWeek = 0\<rparr>)"

definition int1a_set_clock :: "('h, 't) pit_state \<Rightarrow> ntvdd_registers \<Rightarrow> bool \<Rightarrow> ('h, 't) pit_state \<times> ntvdd_registers" where
  \<comment> \<open>AH=03h and AH=05h\<close>
  "int1a_set_clock s registers isDate =
     (let cx = ucast (VddGetCx registers) :: u32; dx = ucast (VddGetDx registers) :: u32;
          digits = take (if isDate then 4 else 3) [drop_bit 8 cx, cx AND 0xFF, drop_bit 8 dx, dx AND 0xFF];
          isInvalid = list_ex bcd_field_bad digits
      in case RtcSet s of
           Some setter \<Rightarrow>
             (if isInvalid then (s, registers\<lparr>CarryFlag := True\<rparr>)
              else let (h, taken) = setter (RtcContext s) (requested_reading isDate (map bcd_field digits)) isDate
                   in (s\<lparr>RtcContext := h\<rparr>, registers\<lparr>CarryFlag := \<not> taken\<rparr>))
         | None \<Rightarrow> (s, registers\<lparr>CarryFlag := True\<rparr>))"

definition PitInt1A ::
  "('h, 't) pit_state \<times> mem \<Rightarrow> ntvdd_registers \<Rightarrow> (('h, 't) pit_state \<times> mem) \<times> ntvdd_registers" where
  "PitInt1A sm registers =
     (let (s, m) = sm; biosData = PitBiosDataArea s; tickCount = biosData + BIOS_BDA_TICK_COUNT;
          ah = VddGetAh registers
      in if ah = 0x00
         then let count = load_dword m tickCount;
                  r1 = VddSetCx registers (ucast (drop_bit 16 count)); r2 = VddSetDx r1 (ucast (count AND 0xFFFF));
                  r3 = VddSetAl r2 (m (biosData + BIOS_BDA_MIDNIGHT_FLAG))
              in ((s, m(biosData + BIOS_BDA_MIDNIGHT_FLAG := 0)), r3\<lparr>CarryFlag := False\<rparr>)
         else if ah = 0x01
         then let count = push_bit 16 (ucast (VddGetCx registers)) OR ucast (VddGetDx registers);
                  m1 = (store_dword m tickCount count)(biosData + BIOS_BDA_MIDNIGHT_FLAG := 0);
                  s1 = (case TicksSet s of
                          Some tell \<Rightarrow> let (h, book) = tell (RtcContext s) (Ticks s) (load_dword m1 tickCount)
                                       in s\<lparr>RtcContext := h, Ticks := book\<rparr>
                        | None \<Rightarrow> s\<lparr>Ticks := VddPitTickOwned (load_dword m1 tickCount)\<rparr>)
              in ((s1, m1), registers\<lparr>CarryFlag := False\<rparr>)
         else if ah = 0x02
         then (case PitRtc s of
                 None \<Rightarrow> (sm, registers)
               | Some reading \<Rightarrow>
                   let r1 = VddSetCx registers (ucast (push_bit 8 (PitToBcdByte (Hour reading)) OR PitToBcdByte (Minute reading)));
                       r2 = VddSetDx r1 (ucast (push_bit 8 (PitToBcdByte (Second reading))))
                   in (sm, r2\<lparr>CarryFlag := False\<rparr>))
         else if ah = 0x04
         then (case PitRtc s of
                 None \<Rightarrow> (sm, registers)
               | Some reading \<Rightarrow>
                   let r1 = VddSetCx registers (ucast (push_bit 8 (PitToBcdByte (Century reading)) OR PitToBcdByte (Year reading)));
                       r2 = VddSetDx r1 (ucast (push_bit 8 (PitToBcdByte (Month reading)) OR PitToBcdByte (Day reading)))
                   in (sm, r2\<lparr>CarryFlag := False\<rparr>))
         else if ah = 0x03 \<or> ah = 0x05
         then let (s1, r1) = int1a_set_clock s registers (ah = 0x05) in ((s1, m), r1)
         else (sm, registers))"

subsection \<open>Power-on\<close>

definition zero_counter :: pit_counter where
  "zero_counter = \<lparr>Reload = 0, Access = 0, Mode = 0, ProgrammedMode = 0, IsBcd = False, IsWriteHighNext = False, WriteLow = 0,
     IsReadHighNext = False, IsLatched = False, Latch = 0, LoadClocks = 0, IsNullCount = False, Gate = False,
     GateElapsed = 0, IsTriggered = False\<rparr>"

definition refresh_counter :: "pit_counter \<Rightarrow> pit_counter" where
  "refresh_counter counter =
     counter\<lparr>Reload := PIT_REFRESH_DIVISOR, Access := PIT_ACCESS_LOW_HIGH, Mode := 2, ProgrammedMode := 2, Gate := True\<rparr>"

definition VddPitReset :: "('h, 't) pit_state \<Rightarrow> ('h, 't) pit_state" where
  "VddPitReset s =
     \<lparr>Bus = Bus s, Reload0 = 0, Access0 = PIT_ACCESS_LOW_HIGH, Mode0 = 3, ProgrammedMode0 = 3, IsWriteHighNext0 = False,
      WriteLow0 = 0, IsReadHighNext0 = False, IsLatched0 = False, Latch0 = 0, TotalClocks = 0, LoadClocks0 = 0,
      Accumulator = 0, IsControlWordArmed = False, IsNextPending = False, NextReload = 0, IsIrqArmed = False,
      OneShotLoads = 0, Restarts = 0,
      FrameMicroseconds = (if FrameMicroseconds s \<noteq> 0 then FrameMicroseconds s else PIT_DEFAULT_FRAME_US),
      Counter2Reload = 0, Counter2Access = 0, Counter2IsWriteHighNext = False, Counter2WriteLow = 0, IsBcd0 = False,
      StatusLatched = (\<lambda>_. False), StatusLatch = (\<lambda>_. 0), Counter1 = refresh_counter zero_counter,
      Counter2 = zero_counter\<lparr>Access := PIT_ACCESS_LOW_HIGH\<rparr>,
      RtcNow = RtcNow s, RtcContext = RtcContext s, RtcSet = RtcSet s, TicksSet = TicksSet s,
      Ticks = \<lparr>TickWitness = TickWitness (Ticks s), IsTickForeign = False, TickWraps = 0, TickSince = 0\<rparr>,
      BiosTickHook = BiosTickHook s, BiosTickHookContext = BiosTickHookContext s\<rparr>"

definition pit_post :: "nat \<Rightarrow> ('h, 't) pit_state \<Rightarrow> ('h, 't) pit_state" where
  \<comment> \<open>the defaults \<open>VddPitInitialize\<close> sets before it claims anything\<close>
  "pit_post base s =
     (let s1 = s\<lparr>Bus := Some base\<rparr>;
          s2 = (if FrameMicroseconds s1 = 0 then s1\<lparr>FrameMicroseconds := PIT_DEFAULT_FRAME_US\<rparr> else s1);
          s3 = (if Access0 s2 = 0 then s2\<lparr>Access0 := PIT_ACCESS_LOW_HIGH\<rparr> else s2);
          s4 = (if Mode0 s3 = 0 \<and> ProgrammedMode0 s3 = 0 then s3\<lparr>Mode0 := 3, ProgrammedMode0 := 3\<rparr> else s3);
          s5 = (if Reload (Counter1 s4) = 0 then s4\<lparr>Counter1 := refresh_counter (Counter1 s4)\<rparr> else s4)
      in if Access (Counter2 s5) = 0 then s5\<lparr>Counter2 := (Counter2 s5)\<lparr>Access := PIT_ACCESS_LOW_HIGH\<rparr>\<rparr> else s5)"

text \<open>The device's slot of the machine holds its state beside the memory the BIOS services use.\<close>

definition pit_in :: "('h, 't) pit_state \<times> mem \<Rightarrow> u16 \<Rightarrow> u8 \<Rightarrow> (('h, 't) pit_state \<times> mem) \<times> u32" where
  "pit_in sm port width = (let (s, v) = PitPortIn (fst sm) port width in ((s, snd sm), v))"

definition pit_out :: "('h, 't) pit_state \<times> mem \<Rightarrow> u16 \<Rightarrow> u8 \<Rightarrow> u32 \<Rightarrow> ('h, 't) pit_state \<times> mem" where
  "pit_out sm port width v = (PitPortOut (fst sm) port width v, snd sm)"

definition pit_frame ::
  "('m \<Rightarrow> 'm) \<Rightarrow> ('m \<Rightarrow> ('h, 't) pit_state \<times> mem) \<Rightarrow> (('h, 't) pit_state \<times> mem \<Rightarrow> 'm \<Rightarrow> 'm) \<Rightarrow> 'm \<Rightarrow> 'm" where
  "pit_frame raise get put machine =
     (let (s, machine') = PitFrame raise (fst (get machine)) machine in put (s, snd (get machine')) machine')"

definition VddPitInitialize ::
  "('m \<Rightarrow> 'm) \<Rightarrow> ('m \<Rightarrow> ('h, 't) pit_state \<times> mem) \<Rightarrow> (('h, 't) pit_state \<times> mem \<Rightarrow> 'm \<Rightarrow> 'm) \<Rightarrow>
   ('m, ntvdd_registers, 'f) vdd_bus \<Rightarrow> 'm \<Rightarrow> ('m, ntvdd_registers, 'f) vdd_bus \<times> 'm \<times> bool" where
  "VddPitInitialize raise get put bus machine =
     (let (s, m) = get machine; machine1 = put (pit_post (MemoryBase bus) s, m) machine;
          (bus1, ok1) = VddClaimPorts bus 0x40 0x43 (Some (slot_in get put pit_in)) (Some (slot_out get put pit_out))
      in if \<not> ok1 then (bus1, machine1, False)
         else let (bus2, ok2) = VddClaimInterrupt bus1 0x08 (Some (\<lambda>mc r. (put (PitInt08 (get mc)) mc, r)))
              in if \<not> ok2 then (bus2, machine1, False)
                 else let (bus3, ok3) = VddClaimInterrupt bus2 0x1A
                            (Some (\<lambda>mc r. let (sm, r') = PitInt1A (get mc) r in (put sm mc, r')))
                      in if \<not> ok3 then (bus3, machine1, False)
                         else let (bus4, ok4) = VddOnFrame bus3 (Some (pit_frame raise get put))
                              in (bus4, machine1, ok4))"

end
