(* ===== verification/Pit_Contract.thy ===== *)
theory Pit_Contract
  imports Pit_8254
begin

text \<open>
  What the timer promises: IRQ0 exactly once per reload in the periodic modes and exactly once per
  load in the one-shot modes, however the time is cut into pieces; a count that reads back as it
  was written, in both bases; a gate that works counter 2 as a stopwatch; and a tick book that
  tells the BIOS's own tick count from one the guest stored.
\<close>

subsection \<open>Periodic modes\<close>

primrec add_all :: "('m \<Rightarrow> 'm) \<Rightarrow> u32 list \<Rightarrow> ('h, 't) pit_state \<times> 'm \<Rightarrow> ('h, 't) pit_state \<times> 'm" where
  "add_all raise [] sm = sm"
| "add_all raise (c # cs) sm = add_all raise cs (VddPitAddClocks raise (fst sm) c (snd sm))"

definition total_clocks :: "u32 list \<Rightarrow> nat" where
  "total_clocks cs = (\<Sum>c\<leftarrow>cs. unat c)"

lemma total_clocks_simps [simp]: "total_clocks [] = 0" "total_clocks (c # cs) = unat c + total_clocks cs"
  by (simp_all add: total_clocks_def)

definition pit_period :: "('h, 't) pit_state \<Rightarrow> nat" where
  "pit_period s = unat (VddPitEffectiveReload s)"

lemma pit_period_bounds: "0 < pit_period s \<and> pit_period s \<le> 65536"
proof (cases "Reload0 s = 0")
  case True
  then show ?thesis
    by (simp add: pit_period_def VddPitEffectiveReload_def PitWrap_def PIT_BCD_WRAP_def PIT_BINARY_WRAP_def)
next
  case False
  have "unat (Reload0 s) < 65536" using unsigned_less [of "Reload0 s", where 'a = nat] by simp
  moreover have "unat (Reload0 s) > 0" using False by (simp add: unat_gt_0)
  moreover have "unat (ucast (Reload0 s) :: u32) = unat (Reload0 s)"
    using calculation by (simp add: unsigned_ucast_eq take_bit_nat_eq_self)
  ultimately show ?thesis using False by (simp add: pit_period_def VddPitEffectiveReload_def)
qed

text \<open>The engine between two loads: nothing parked, and the accumulator is the phase in the period.\<close>

definition ticking :: "('h, 't) pit_state \<Rightarrow> bool" where
  "ticking s \<longleftrightarrow> (Mode0 s = 2 \<or> Mode0 s = 3) \<and> \<not> IsNextPending s \<and> unat (Accumulator s) < pit_period s"

lemma unat_ucast_reload: "unat (ucast (VddPitEffectiveReload s) :: u64) = pit_period s"
  using pit_period_bounds [of s] by (simp add: pit_period_def unsigned_ucast_eq take_bit_nat_eq_self)

lemma pit_period_frame [simp]:
  "pit_period (s\<lparr>Accumulator := a\<rparr>) = pit_period s" "pit_period (s\<lparr>TotalClocks := t\<rparr>) = pit_period s"
  "pit_period (s\<lparr>IsIrqArmed := b\<rparr>) = pit_period s"
  by (simp_all add: pit_period_def VddPitEffectiveReload_def)

lemma VddPitEffectiveReload_frame [simp]:
  "VddPitEffectiveReload (s\<lparr>Accumulator := a\<rparr>) = VddPitEffectiveReload s"
  "VddPitEffectiveReload (s\<lparr>TotalClocks := t\<rparr>) = VddPitEffectiveReload s"
  by (simp_all add: VddPitEffectiveReload_def)

lemma pit_catch_up_periodic:
  assumes "\<not> IsNextPending s" "unat (Accumulator s) div pit_period s \<le> n"
  shows "pit_catch_up n raise s (VddPitEffectiveReload s) m =
    (s\<lparr>Accumulator := of_nat (unat (Accumulator s) mod pit_period s)\<rparr>,
     (raise ^^ (unat (Accumulator s) div pit_period s)) m)"
  using assms
proof (induction n arbitrary: s m)
  case 0
  then have "unat (Accumulator s) < pit_period s" using pit_period_bounds [of s] by (simp add: div_eq_0_iff)
  then show ?case by simp
next
  case (Suc n)
  note period = pit_period_bounds [of s]
  show ?case
  proof (cases "unat (Accumulator s) < pit_period s")
    case True
    then have "Accumulator s < ucast (VddPitEffectiveReload s)"
      by (simp add: word_less_nat_alt unat_ucast_reload)
    then show ?thesis using True by simp
  next
    case False
    then have ge: "ucast (VddPitEffectiveReload s) \<le> Accumulator s"
      by (simp add: word_le_nat_alt unat_ucast_reload)
    define a where "a = Accumulator s - ucast (VddPitEffectiveReload s)"
    have a: "unat a = unat (Accumulator s) - pit_period s"
      using ge by (simp add: a_def unat_sub unat_ucast_reload)
    have step: "unat (Accumulator s) div pit_period s = Suc (unat a div pit_period s)"
      "unat (Accumulator s) mod pit_period s = unat a mod pit_period s"
      using False period by (simp_all add: a le_div_geq le_mod_geq)
    let ?s1 = "s\<lparr>Accumulator := a\<rparr>"
    have "pit_catch_up n raise ?s1 (VddPitEffectiveReload ?s1) (raise m) =
        (?s1\<lparr>Accumulator := of_nat (unat a mod pit_period s)\<rparr>, (raise ^^ (unat a div pit_period s)) (raise m))"
      using Suc.IH [of ?s1 "raise m"] Suc.prems step by simp
    then show ?thesis
      using ge Suc.prems(1) step by (simp add: a_def [symmetric] funpow_swap1 not_less [symmetric])
  qed
qed
lemma add_clocks_ticking:
  assumes "ticking s" "unat c div pit_period s < PIT_CATCH_UP_GUARD"
  shows "VddPitAddClocks raise s c m =
    (s\<lparr>TotalClocks := TotalClocks s + ucast c,
       Accumulator := of_nat ((unat (Accumulator s) + unat c) mod pit_period s)\<rparr>,
     (raise ^^ ((unat (Accumulator s) + unat c) div pit_period s)) m)"
proof -
  note period = pit_period_bounds [of s]
  have acc: "unat (Accumulator s) < pit_period s" using assms(1) by (simp add: ticking_def)
  have small: "unat c < 2 ^ 32" using unsigned_less [of c, where 'a = nat] by simp
  let ?a = "Accumulator s + ucast c"
  have a: "unat ?a = unat (Accumulator s) + unat c"
    using acc period small by (simp add: unat_word_ariths unsigned_ucast_eq take_bit_nat_eq_self)
  have "unat c < PIT_CATCH_UP_GUARD * pit_period s"
    using assms(2) period by (simp add: div_less_iff_less_mult)
  then have "unat (Accumulator s) + unat c < Suc PIT_CATCH_UP_GUARD * pit_period s" using acc by simp
  then have "(unat (Accumulator s) + unat c) div pit_period s < Suc PIT_CATCH_UP_GUARD"
    using period by (simp add: div_less_iff_less_mult)
  then have "unat ?a div pit_period s \<le> PIT_CATCH_UP_GUARD" by (simp add: a)
  then have "pit_catch_up PIT_CATCH_UP_GUARD raise (s\<lparr>TotalClocks := TotalClocks s + ucast c, Accumulator := ?a\<rparr>)
      (VddPitEffectiveReload s) m =
    (s\<lparr>TotalClocks := TotalClocks s + ucast c, Accumulator := of_nat (unat ?a mod pit_period s)\<rparr>,
     (raise ^^ (unat ?a div pit_period s)) m)"
    using pit_catch_up_periodic [of "s\<lparr>TotalClocks := TotalClocks s + ucast c, Accumulator := ?a\<rparr>" PIT_CATCH_UP_GUARD raise m]
      assms(1) by (simp add: ticking_def)
  then show ?thesis using assms(1) by (auto simp: VddPitAddClocks_def Let_def a ticking_def)
qed

lemma add_all_ticking:
  assumes "ticking s" "\<forall>c\<in>set cs. unat c div pit_period s < PIT_CATCH_UP_GUARD"
  shows "add_all raise cs (s, m) =
    (s\<lparr>TotalClocks := TotalClocks s + of_nat (total_clocks cs),
       Accumulator := of_nat ((unat (Accumulator s) + total_clocks cs) mod pit_period s)\<rparr>,
     (raise ^^ ((unat (Accumulator s) + total_clocks cs) div pit_period s)) m)"
  using assms
proof (induction cs arbitrary: s m)
  case Nil
  then show ?case by (simp add: ticking_def)
next
  case (Cons c cs)
  let ?p = "pit_period s" and ?a = "unat (Accumulator s) + unat c"
  let ?s1 = "s\<lparr>TotalClocks := TotalClocks s + ucast c, Accumulator := of_nat (?a mod ?p)\<rparr>"
  note period = pit_period_bounds [of s]
  have rem: "unat (of_nat (?a mod ?p) :: u64) = ?a mod ?p"
    using period by (intro unat_of_nat_small) (auto intro: order_less_trans [OF mod_less_divisor])
  have t1: "ticking ?s1" using Cons.prems(1) period rem by (simp add: ticking_def)
  have sum: "?a div ?p + (?a mod ?p + total_clocks cs) div ?p = (?a + total_clocks cs) div ?p"
  proof -
    have "?a + total_clocks cs = ?p * (?a div ?p) + (?a mod ?p + total_clocks cs)"
      using mult_div_mod_eq [of ?p ?a] by linarith
    then have "(?a + total_clocks cs) div ?p = (?p * (?a div ?p) + (?a mod ?p + total_clocks cs)) div ?p" by simp
    also have "\<dots> = ?a div ?p + (?a mod ?p + total_clocks cs) div ?p"
      using period by (intro div_mult_self4) simp
    finally show ?thesis by simp
  qed
  have first: "VddPitAddClocks raise s c m = (?s1, (raise ^^ (?a div ?p)) m)"
    by (rule add_clocks_ticking) (use Cons.prems in simp_all)
  have rest: "add_all raise cs (?s1, (raise ^^ (?a div ?p)) m) =
      (?s1\<lparr>TotalClocks := TotalClocks ?s1 + of_nat (total_clocks cs),
          Accumulator := of_nat ((?a mod ?p + total_clocks cs) mod ?p)\<rparr>,
       (raise ^^ ((?a mod ?p + total_clocks cs) div ?p)) ((raise ^^ (?a div ?p)) m))"
    using Cons.IH [OF t1] Cons.prems(2) rem by simp
  have pow: "(raise ^^ ((?a mod ?p + total_clocks cs) div ?p)) ((raise ^^ (?a div ?p)) m) =
      (raise ^^ ((?a + total_clocks cs) div ?p)) m"
    unfolding sum [symmetric] add.commute [of "?a div ?p"] funpow_add comp_apply ..
  have widen: "(ucast c :: u64) = of_nat (unat c)" by simp
  show ?case
    using first rest pow by (simp add: mod_add_left_eq add.assoc widen del: of_nat_unat)
qed
lemma unat_ucast_wider:
  "LENGTH('a) \<le> LENGTH('b) \<Longrightarrow> unat (ucast (x :: 'a::len word) :: 'b::len word) = unat x"
  by (simp add: unsigned_ucast_eq take_bit_nat_eq_self_iff)
    (rule order.strict_trans2 [OF unsigned_less], simp)

lemma unat_div_word: "unat (x div y :: 'a::len word) = unat x div unat y"
  by (simp add: unat_div)

lemma unat_mod_word: "unat (x mod y :: 'a::len word) = unat x mod unat y"
  by (simp add: unat_mod)

text \<open>The count law of the rate generator and of the square wave, as numbers.\<close>

lemma unat_elapsed_mod:
  fixes elapsed :: u64 and d :: u32
  assumes "d \<noteq> 0"
  shows "unat (ucast (elapsed mod ucast d) :: u32) = unat elapsed mod unat d"
proof -
  have d: "unat (ucast d :: u64) = unat d" by (rule unat_ucast_wider) simp
  have "unat elapsed mod unat d < unat d" using assms by (simp add: unat_gt_0)
  also have "unat d < 2 ^ 32" using unsigned_less [of d, where 'a = nat] by simp
  finally show ?thesis by (subst unsigned_ucast_eq) (simp add: unat_mod_word d take_bit_nat_eq_self)
qed

lemma PitCountLaw_rate:
  assumes "reload \<noteq> 0"
  shows "unat (PitCountLaw 2 reload elapsed wrap) = (unat reload - unat elapsed mod unat reload) mod unat wrap"
proof -
  have "unat elapsed mod unat reload \<le> unat reload" using assms by (simp add: unat_gt_0 less_imp_le)
  then have "ucast (elapsed mod ucast reload) \<le> reload"
    by (simp add: word_le_nat_alt unat_elapsed_mod [OF assms])
  then show ?thesis by (simp add: PitCountLaw_def unat_mod_word unat_sub unat_elapsed_mod [OF assms])
qed

lemma PitWrap_pos: "PitWrap b \<noteq> 0"
  by (simp add: PitWrap_def PIT_BCD_WRAP_def PIT_BINARY_WRAP_def)

lemma VddPitEffectiveReload_pos: "VddPitEffectiveReload s \<noteq> 0"
  using pit_period_bounds [of s] by (auto simp: pit_period_def)

text \<open>
  C27. The tick rate is exact. Counter 0, just loaded in mode 2 or 3, raises IRQ0 exactly once for
  every full period of clocks it is given, however the time is cut into pieces (each piece at most
  100000 periods, the engine's catch-up limit), and carries the rest over; in mode 2 the count a
  guest reads is in step with that, the reload value at every IRQ0 and one less each clock.
\<close>

theorem pit_rate_exact:
  assumes mode: "Mode0 s = 2 \<or> Mode0 s = 3" and loaded: "\<not> IsNextPending s" "Accumulator s = 0" "LoadClocks0 s = TotalClocks s"
    and pieces: "\<forall>c\<in>set cs. unat c div pit_period s < PIT_CATCH_UP_GUARD"
    and range: "unat (TotalClocks s) + total_clocks cs < 2 ^ 64"
    and run: "add_all raise cs (s, m) = (s', m')"
  shows "m' = (raise ^^ (total_clocks cs div pit_period s)) m \<and>
    unat (Accumulator s') = total_clocks cs mod pit_period s \<and>
    (Mode0 s = 2 \<longrightarrow>
      unat (PitCurrentCount s') = (pit_period s - total_clocks cs mod pit_period s) mod unat (PitWrap (IsBcd0 s)))"
proof -
  note period = pit_period_bounds [of s]
  have "ticking s" using mode loaded period by (simp add: ticking_def)
  from add_all_ticking [OF this pieces, of raise m] run loaded have
    s': "s' = s\<lparr>TotalClocks := TotalClocks s + of_nat (total_clocks cs),
          Accumulator := of_nat (total_clocks cs mod pit_period s)\<rparr>"
    and m': "m' = (raise ^^ (total_clocks cs div pit_period s)) m" by auto
  have acc: "unat (of_nat (total_clocks cs mod pit_period s) :: u64) = total_clocks cs mod pit_period s"
    using period by (intro unat_of_nat_small) (auto intro: order_less_trans [OF mod_less_divisor])
  have total: "unat (of_nat (total_clocks cs) :: u64) = total_clocks cs"
    using range by (intro unat_of_nat_small) simp
  have "TotalClocks s \<le> TotalClocks s + of_nat (total_clocks cs)"
    using range by (simp add: word_le_nat_alt unat_word_ariths total)
  then have elapsed: "elapsed_since (TotalClocks s') (LoadClocks0 s') = of_nat (total_clocks cs)"
    by (simp add: s' elapsed_since_def loaded)
  have "unat (PitCurrentCount s') = (pit_period s - total_clocks cs mod pit_period s) mod unat (PitWrap (IsBcd0 s))"
    if "Mode0 s = 2"
    using that PitCountLaw_rate [OF VddPitEffectiveReload_pos [of s], of "of_nat (total_clocks cs)" "PitWrap (IsBcd0 s)"]
    by (simp add: PitCurrentCount_def elapsed) (simp add: s' total pit_period_def)
  then show ?thesis using m' acc s' by simp
qed
subsection \<open>One-shot modes\<close>

lemma add_clocks_one_shot:
  assumes "Mode0 s \<noteq> 2 \<and> Mode0 s \<noteq> 3" "unat (TotalClocks s) + unat c < 2 ^ 64" "LoadClocks0 s \<le> TotalClocks s"
  shows "VddPitAddClocks raise s c m =
    (let due = IsIrqArmed s \<and> pit_period s \<le> unat (TotalClocks s) - unat (LoadClocks0 s) + unat c
     in (s\<lparr>TotalClocks := TotalClocks s + ucast c, Accumulator := 0, IsIrqArmed := (IsIrqArmed s \<and> \<not> due)\<rparr>,
         if due then raise m else m))"
proof -
  have sum: "unat (TotalClocks s + ucast c) = unat (TotalClocks s) + unat c"
    using assms(2) by (simp add: unat_word_ariths unat_ucast_wider)
  have "LoadClocks0 s \<le> TotalClocks s + ucast c"
    using assms(3) by (simp add: word_le_nat_alt sum)
  then have diff: "unat (TotalClocks s + ucast c - LoadClocks0 s) = unat (TotalClocks s) - unat (LoadClocks0 s) + unat c"
    using assms(3) by (simp add: unat_sub sum word_le_nat_alt)
  have "ucast (VddPitEffectiveReload s) \<le> TotalClocks s + ucast c - LoadClocks0 s \<longleftrightarrow>
      pit_period s \<le> unat (TotalClocks s) - unat (LoadClocks0 s) + unat c"
    by (simp only: word_le_nat_alt unat_ucast_reload diff)
  then show ?thesis using assms(1) by (auto simp: VddPitAddClocks_def Let_def)
qed

text \<open>
  A one-shot count interrupts once. After a count is loaded into counter 0 in mode 0 or 4,
  however the time is cut into pieces, IRQ0 is raised not at all while fewer clocks than the count
  have passed and exactly once from then on, until the next load.
\<close>

theorem pit_one_shot_once:
  fixes s :: "('h, 't) pit_state"
  assumes "Mode0 s = 0 \<or> Mode0 s = 4" and load: "PitLoad s written = s0"
    and range: "unat (TotalClocks s) + total_clocks cs < 2 ^ 64"
  shows "snd (add_all raise cs (s0, m)) = (if pit_period s0 \<le> total_clocks cs then raise m else m)"
proof -
  have s0: "Mode0 s0 \<noteq> 2 \<and> Mode0 s0 \<noteq> 3" "IsIrqArmed s0" "LoadClocks0 s0 = TotalClocks s0" "TotalClocks s0 = TotalClocks s"
    using assms(1) load by (auto simp: PitLoad_def Let_def)
  have run: "snd (add_all raise cs (t, m)) =
      (if IsIrqArmed t \<and> pit_period t \<le> unat (TotalClocks t) - unat (LoadClocks0 t) + total_clocks cs then raise m else m)"
    if "Mode0 t \<noteq> 2 \<and> Mode0 t \<noteq> 3" "unat (TotalClocks t) + total_clocks cs < 2 ^ 64" "LoadClocks0 t \<le> TotalClocks t"
      "IsIrqArmed t \<longrightarrow> unat (TotalClocks t) - unat (LoadClocks0 t) < pit_period t" for t :: "('h, 't) pit_state" and m
    using that
  proof (induction cs arbitrary: t m)
    case (Cons c cs)
    let ?due = "IsIrqArmed t \<and> pit_period t \<le> unat (TotalClocks t) - unat (LoadClocks0 t) + unat c"
    let ?t = "t\<lparr>TotalClocks := TotalClocks t + ucast c, Accumulator := 0, IsIrqArmed := (IsIrqArmed t \<and> \<not> ?due)\<rparr>"
    have sum: "unat (TotalClocks ?t) = unat (TotalClocks t) + unat c"
      using Cons.prems(2) by (simp add: unat_word_ariths unat_ucast_wider)
    have frame: "pit_period ?t = pit_period t" by (simp add: pit_period_def VddPitEffectiveReload_def)
    have step: "VddPitAddClocks raise t c m = (?t, if ?due then raise m else m)"
      using add_clocks_one_shot [OF Cons.prems(1) _ Cons.prems(3), of c raise m] Cons.prems(2) by (simp add: Let_def)
    have le: "unat (LoadClocks0 t) \<le> unat (TotalClocks t)" using Cons.prems(3) by (simp add: word_le_nat_alt)
    have "snd (add_all raise cs (?t, if ?due then raise m else m)) =
      (if IsIrqArmed ?t \<and> pit_period ?t \<le> unat (TotalClocks ?t) - unat (LoadClocks0 ?t) + total_clocks cs
       then raise (if ?due then raise m else m) else if ?due then raise m else m)"
      using Cons.prems le by (intro Cons.IH) (auto simp: sum [simplified] frame word_le_nat_alt)
    then show ?case using step le by (auto simp: sum [simplified] frame)
  qed auto
  have "0 < pit_period s0" using pit_period_bounds [of s0] by simp
  then show ?thesis using run [of s0 m] range s0 by simp
qed
subsection \<open>Reading a count back\<close>

definition bcd_digits :: "u16 \<Rightarrow> bool" where
  "bcd_digits w \<longleftrightarrow> (\<forall>i\<in>{0, 4, 8, 12}. unat (drop_bit i w AND 0xF) \<le> 9)"

lemma decimal_digits:
  fixes a b c d :: nat
  assumes "a \<le> 9" "b \<le> 9" "c \<le> 9" "d \<le> 9"
  defines "v \<equiv> d + c * 10 + b * 100 + a * 1000"
  shows "v div 1000 mod 10 = a" "v div 100 mod 10 = b" "v div 10 mod 10 = c" "v mod 10 = d" "v < 10000"
proof -
  have "v div 1000 = a" using assms by (intro div_nat_eqI) simp_all
  with assms show "v div 1000 mod 10 = a" by simp
  have "v div 100 = b + a * 10" using assms by (intro div_nat_eqI) simp_all
  with assms show "v div 100 mod 10 = b" by simp
  have "v div 10 = c + (b + a * 10) * 10" using assms by (intro div_nat_eqI) simp_all
  then have "v div 10 mod 10 = c mod 10" by (simp only: mod_mult_self1)
  with assms show "v div 10 mod 10 = c" by simp
  have "v = d + (c + b * 10 + a * 100) * 10" by (simp add: v_def)
  then have "v mod 10 = d mod 10" by (simp only: mod_mult_self1)
  with assms show "v mod 10 = d" by simp
  show "v < 10000" using assms by simp
qed

lemma PitToBcd_digits:
  fixes a b c d :: u32
  assumes "unat a \<le> 9" "unat b \<le> 9" "unat c \<le> 9" "unat d \<le> 9"
  shows "PitToBcd (d + c * 10 + b * 100 + a * 1000) = ucast (push_bit 12 a OR push_bit 8 b OR push_bit 4 c OR d)"
    "unat (d + c * 10 + b * 100 + a * 1000) = unat d + unat c * 10 + unat b * 100 + unat a * 1000"
proof -
  let ?v = "d + c * 10 + b * 100 + a * 1000" and ?n = "unat d + unat c * 10 + unat b * 100 + unat a * 1000"
  show v: "unat ?v = ?n" using assms by (simp add: unat_word_ariths)
  note dig = decimal_digits [OF assms]
  have small: "?v mod 10000 = ?v"
    using dig(5) by (simp add: word_unat_eq_iff unat_mod v)
  have "?v div 1000 mod 10 = a" "?v div 100 mod 10 = b" "?v div 10 mod 10 = c" "?v mod 10 = d"
    using dig(1-4) by (simp_all add: word_unat_eq_iff unat_mod unat_div v)
  then show "PitToBcd ?v = ucast (push_bit 12 a OR push_bit 8 b OR push_bit 4 c OR d)"
    by (simp add: PitToBcd_def PIT_BCD_WRAP_def Let_def small del: push_bit_of_1)
qed

lemma nibbles:
  "(ucast (push_bit 12 (ucast (drop_bit 12 w AND 0xF)) OR push_bit 8 (ucast (drop_bit 8 w AND 0xF)) OR
      push_bit 4 (ucast (drop_bit 4 w AND 0xF)) OR (ucast (w AND 0xF) :: u32)) :: u16) = w"
proof (rule bit_word_eqI)
  fix n assume "n < LENGTH(16)"
  have F: "(0xF :: u16) = mask 4" by (simp add: mask_eq_exp_minus_1)
  consider "n < 4" | "4 \<le> n \<and> n < 8" | "8 \<le> n \<and> n < 12" | "12 \<le> n \<and> n < 16"
    using \<open>n < LENGTH(16)\<close> by fastforce
  then show "bit (ucast (push_bit 12 (ucast (drop_bit 12 w AND 0xF)) OR push_bit 8 (ucast (drop_bit 8 w AND 0xF)) OR
      push_bit 4 (ucast (drop_bit 4 w AND 0xF)) OR (ucast (w AND 0xF) :: u32)) :: u16) n = bit w n"
    unfolding F by cases (auto simp: bit_or_iff bit_push_bit_iff bit_ucast_iff bit_and_iff bit_mask_iff bit_drop_bit_eq)
qed

lemma PitFromBcd_value:
  assumes "bcd_digits w"
  shows "PitToBcd (PitFromBcd w) = w" "unat (PitFromBcd w) < 10000" "PitFromBcd w = 0 \<longleftrightarrow> w = 0"
proof -
  have wide: "unat (ucast (x :: u16) :: u32) = unat x" for x by (rule unat_ucast_wider) simp
  let ?a = "ucast (drop_bit 12 w AND 0xF) :: u32" and ?b = "ucast (drop_bit 8 w AND 0xF) :: u32"
    and ?c = "ucast (drop_bit 4 w AND 0xF) :: u32" and ?d = "ucast (w AND 0xF) :: u32"
  have dig: "unat ?a \<le> 9" "unat ?b \<le> 9" "unat ?c \<le> 9" "unat ?d \<le> 9"
    using assms by (simp_all add: bcd_digits_def wide del: unsigned_and_eq)
  have eq: "PitFromBcd w = ?d + ?c * 10 + ?b * 100 + ?a * 1000" by (simp only: PitFromBcd_def)
  show again: "PitToBcd (PitFromBcd w) = w" unfolding eq PitToBcd_digits(1) [OF dig] by (rule nibbles)
  show "unat (PitFromBcd w) < 10000"
    unfolding eq PitToBcd_digits(2) [OF dig] using dig by linarith
  show "PitFromBcd w = 0 \<longleftrightarrow> w = 0"
  proof
    assume "PitFromBcd w = 0"
    with again show "w = 0" by (simp add: PitToBcd_def Let_def)
  qed (simp add: PitFromBcd_def)
qed

lemma PitCountLaw_0: "PitCountLaw mode reload 0 wrap = reload mod wrap"
  by (simp add: PitCountLaw_def Let_def)

lemma loaded_count_bytes:
  assumes "IsBcd0 s \<longrightarrow> bcd_digits w" "Reload0 s = PitCountValue (IsBcd0 s) w" "LoadClocks0 s = TotalClocks s"
  shows "PitCountBytes (IsBcd0 s) (PitCurrentCount s) = w"
proof (cases "IsBcd0 s")
  case True
  note bcd = PitFromBcd_value [OF assms(1) [rule_format, OF True]]
  have narrow: "unat (ucast (PitFromBcd w) :: u16) = unat (PitFromBcd w)"
    using bcd(2) by (simp add: unsigned_ucast_eq take_bit_nat_eq_self)
  have same: "(ucast (ucast (PitFromBcd w) :: u16) :: u32) = PitFromBcd w"
    by (simp add: word_unat_eq_iff unat_ucast_wider narrow)
  have "PitCurrentCount s = PitFromBcd w mod 10000"
  proof (cases "PitFromBcd w = 0")
    case zero: True
    then show ?thesis using True assms
      by (simp add: PitCurrentCount_def PitCountLaw_0 elapsed_since_def VddPitEffectiveReload_def PitWrap_def PIT_BCD_WRAP_def
          PitCountValue_def)
  next
    case False
    then have "Reload0 s \<noteq> 0" using assms True narrow by (simp add: PitCountValue_def word_unat_eq_iff)
    then show ?thesis using True assms same
      by (simp add: PitCurrentCount_def PitCountLaw_0 elapsed_since_def VddPitEffectiveReload_def PitWrap_def PIT_BCD_WRAP_def
          PitCountValue_def)
  qed
  moreover have "PitFromBcd w mod 10000 = PitFromBcd w"
    using bcd(2) by (simp add: word_unat_eq_iff unat_mod)
  ultimately show ?thesis using True bcd(1) by (simp add: PitCountBytes_def)
next
  case False
  have "(ucast w :: u32) mod 0x10000 = ucast w"
    using unsigned_less [of w, where 'a = nat] by (simp add: word_unat_eq_iff unat_mod unat_ucast_wider)
  moreover have "ucast (ucast w :: u32) = w" by (rule bit_word_eqI) (simp add: bit_simps)
  ultimately have "ucast ((ucast w :: u32) mod 0x10000) = w" by simp
  then show ?thesis using False assms
    by (cases "w = 0")
      (simp_all add: PitCountBytes_def PitCurrentCount_def PitCountLaw_0 elapsed_since_def VddPitEffectiveReload_def
        PitWrap_def PIT_BINARY_WRAP_def PitCountValue_def)
qed
lemma joined_halves:
  "(push_bit 8 (ucast high) OR ucast low :: u16) AND 0xFF = ucast (low :: u8)"
  "drop_bit 8 (push_bit 8 (ucast high) OR ucast low :: u16) AND 0xFF = ucast (high :: u8)"
proof -
  have F: "(0xFF :: u16) = mask 8" by (simp add: mask_eq_exp_minus_1)
  show "(push_bit 8 (ucast high) OR ucast low :: u16) AND 0xFF = ucast low"
    unfolding F by (rule bit_word_eqI) (auto simp: bit_simps dest: bit_imp_le_length)
  show "drop_bit 8 (push_bit 8 (ucast high) OR ucast low :: u16) AND 0xFF = ucast high"
    unfolding F by (rule bit_word_eqI) (auto simp: bit_simps dest: bit_imp_le_length)
qed

lemma ucast_via_u16: "ucast (ucast (b :: u8) :: u16) = (ucast b :: u32)"
  by (rule bit_word_eqI) (auto simp: bit_simps dest: bit_imp_le_length)

definition pit_program :: "u8 \<Rightarrow> u8 \<Rightarrow> u8 \<Rightarrow> ('h, 't) pit_state \<Rightarrow> ('h, 't) pit_state" where
  \<comment> \<open>\<^verbatim>\<open>out 43h,cw / out 40h,low / out 40h,high\<close>\<close>
  "pit_program cw low high s =
     fold (guest_access PitPortIn PitPortOut)
       [GuestOut 0x43 1 (ucast cw), GuestOut 0x40 1 (ucast low), GuestOut 0x40 1 (ucast high)] s"

lemma pit_program_state:
  fixes s :: "('h, 't) pit_state" and low high cw :: u8
  assumes "drop_bit 6 cw = 0" "cw_access cw = PIT_ACCESS_LOW_HIGH"
  defines "w \<equiv> push_bit 8 (ucast high) OR ucast low"
  shows "let s1 = pit_program cw low high s; mode = effective_mode (cw_mode cw) in
    Reload0 s1 = PitCountValue (bit cw 0) w \<and> LoadClocks0 s1 = TotalClocks s \<and> TotalClocks s1 = TotalClocks s \<and>
    IsBcd0 s1 = bit cw 0 \<and> Access0 s1 = PIT_ACCESS_LOW_HIGH \<and> Mode0 s1 = mode \<and> Accumulator s1 = 0 \<and>
    \<not> IsNextPending s1 \<and> StatusLatched s1 = StatusLatched s \<and> IsLatched0 s1 = IsLatched0 s \<and>
    IsReadHighNext0 s1 = IsReadHighNext0 s \<and> IsIrqArmed s1 = (mode = 0 \<or> mode = 4)"
  using assms(1,2)
  by (simp add: pit_program_def w_def PitPortOut_def PitPortOutLocked_def control_counter0_def write_counter0_def
      PIT_ACCESS_LATCH_def PIT_ACCESS_LOW_def PIT_ACCESS_HIGH_def PIT_ACCESS_LOW_HIGH_def PitLoad_def Let_def)

text \<open>
  A programmed count reads back as written. After a control word for counter 0 in low/high
  access, in any of the eight mode encodings and either base, and the two halves of a count (in
  BCD: of decimal digits), two reads with no time in between return the same two bytes, whatever
  the counter was doing before, provided no latched value or half-read count is still waiting.
\<close>

theorem pit_program_readback:
  fixes s :: "('h, 't) pit_state" and low high cw :: u8
  assumes "drop_bit 6 cw = 0" "cw_access cw = PIT_ACCESS_LOW_HIGH"
    and "bit cw 0 \<longrightarrow> bcd_digits (push_bit 8 (ucast high) OR ucast low)"
    and "\<not> StatusLatched s 0" "\<not> IsLatched0 s" "\<not> IsReadHighNext0 s"
  shows "let (s2, first) = PitPortIn (pit_program cw low high s) 0x40 1; (s3, second) = PitPortIn s2 0x40 1
    in first = ucast low \<and> second = ucast high"
proof -
  let ?w = "push_bit 8 (ucast high) OR ucast low :: u16" and ?s1 = "pit_program cw low high s"
  note st = pit_program_state [OF assms(1,2), of low high s, unfolded Let_def]
  have bytes: "PitCountBytes (IsBcd0 ?s1) (PitCurrentCount ?s1) = ?w"
    by (rule loaded_count_bytes) (use st assms(3) in auto)
  let ?s2 = "?s1\<lparr>IsReadHighNext0 := True\<rparr>"
  have first: "PitPortIn ?s1 0x40 1 = (?s2, ucast low)"
    using st assms(4-6) bytes
    by (simp add: PitPortIn_def PitPortInLocked_def read_counter0_def PIT_ACCESS_LOW_def PIT_ACCESS_HIGH_def
        PIT_ACCESS_LOW_HIGH_def Let_def) (simp add: joined_halves ucast_via_u16)
  have "PitCurrentCount ?s2 = PitCurrentCount ?s1" by (simp add: PitCurrentCount_def VddPitEffectiveReload_def)
  then have "snd (PitPortIn ?s2 0x40 1) = ucast high"
    using st assms(4-6) bytes
    by (simp add: PitPortIn_def PitPortInLocked_def read_counter0_def PIT_ACCESS_LOW_def PIT_ACCESS_HIGH_def
        PIT_ACCESS_LOW_HIGH_def Let_def joined_halves ucast_via_u16 del: drop_bit_or)
  then show ?thesis by (simp add: first split_beta)
qed

end
