(* ===== verification/Pit_Services.thy ===== *)
theory Pit_Services
  imports Pit_Contract
begin

text \<open>
  The registers of the timer stay typed under any events, counter 2's gate works its count as a
  stopwatch, and the BIOS tick book tells the BIOS's own counts from the guest's.
\<close>

subsection \<open>Typed registers\<close>

definition counter_ok :: "pit_counter \<Rightarrow> bool" where
  "counter_ok counter \<longleftrightarrow> ProgrammedMode counter \<le> 7 \<and> Mode counter = effective_mode (ProgrammedMode counter) \<and> Access counter \<le> 3"

definition pit_ok :: "('h, 't) pit_state \<Rightarrow> bool" where
  "pit_ok s \<longleftrightarrow>
     ProgrammedMode0 s \<le> 7 \<and> Mode0 s = effective_mode (ProgrammedMode0 s) \<and> Access0 s \<le> 3 \<and> Counter2Access s \<le> 3 \<and>
     counter_ok (Counter1 s) \<and> counter_ok (Counter2 s)"

lemma effective_mode_range: "m \<le> 7 \<Longrightarrow> effective_mode m \<le> 5"
  by (auto simp: effective_mode_def word_le_nat_alt unat_sub)

lemma cw_ranges [simp]: "cw_access cw \<le> 3" "cw_mode cw \<le> 7"
  by (simp_all add: cw_access_def cw_mode_def word_and_le1)

lemmas pit_access_defs = PIT_ACCESS_LATCH_def PIT_ACCESS_LOW_def PIT_ACCESS_HIGH_def PIT_ACCESS_LOW_HIGH_def

lemma counter_ok_write: "counter_ok counter \<Longrightarrow> counter_ok (PitCounterWriteCount s counter b)"
  by (simp add: counter_ok_def PitCounterWriteCount_def load_counter_def pit_access_defs)

lemma counter_ok_read: "counter_ok counter \<Longrightarrow> counter_ok (fst (PitCounterReadCount s counter))"
  by (simp add: counter_ok_def PitCounterReadCount_def Let_def pit_access_defs)

lemma counter_ok_control: "counter_ok counter \<Longrightarrow> counter_ok (PitCounterControl s counter cw)"
  by (simp add: counter_ok_def PitCounterControl_def)

lemma counter_ok_access: "counter_ok counter \<Longrightarrow> a \<le> 3 \<Longrightarrow> counter_ok (counter\<lparr>Access := a\<rparr>)"
  by (simp add: counter_ok_def)

lemma counter_ok_latch: "counter_ok counter \<Longrightarrow> counter_ok (latch_once s counter)"
  by (simp add: counter_ok_def latch_once_def)

lemma pit_ok_load: "pit_ok s \<Longrightarrow> pit_ok (PitLoad s w)"
  by (simp add: pit_ok_def PitLoad_def Let_def)

lemma pit_ok_read_back_one: "pit_ok s \<Longrightarrow> pit_ok (read_back_one command i s)"
  by (auto simp: pit_ok_def read_back_one_def latch_status_def latch_count_def Let_def counter_ok_latch)

lemma pit_ok_read_back: "pit_ok s \<Longrightarrow> pit_ok (PitReadBack s command)"
  by (simp add: PitReadBack_def upt_conv_Cons pit_ok_read_back_one)

lemma pit_ok_write_counter0: "pit_ok s \<Longrightarrow> pit_ok (write_counter0 s b)"
proof -
  have flip: "pit_ok (t\<lparr>IsWriteHighNext0 := x\<rparr>)" "pit_ok (t\<lparr>WriteLow0 := y, IsWriteHighNext0 := x\<rparr>)" if "pit_ok t" for t :: "('h, 't) pit_state" and x y
    using that by (simp_all add: pit_ok_def)
  assume "pit_ok s"
  then show ?thesis by (auto simp: write_counter0_def Let_def intro!: flip pit_ok_load)
qed

lemma pit_ok_write_counter2:
  assumes "pit_ok s"
  shows "pit_ok (write_counter2 s b)"
proof -
  have "(if Counter2Access s \<noteq> 0 then Counter2Access s else PIT_ACCESS_LOW_HIGH) \<le> 3"
    using assms by (simp add: pit_ok_def PIT_ACCESS_LOW_HIGH_def)
  then show ?thesis using assms
    by (simp add: write_counter2_def Let_def pit_ok_def counter_ok_write counter_ok_access pit_access_defs)
qed

lemma pit_ok_out: "pit_ok s \<Longrightarrow> pit_ok (PitPortOut s port width v)"
proof -
  assume ok: "pit_ok s"
  have c1: "pit_ok (s\<lparr>Counter1 := x\<rparr>)" if "counter_ok x" for x using ok that by (simp add: pit_ok_def)
  have c2: "pit_ok (s\<lparr>Counter2 := x\<rparr>)" "pit_ok (s\<lparr>Counter2Access := a, Counter2IsWriteHighNext := y, Counter2 := x\<rparr>)"
    if "counter_ok x" "a \<le> 3" for x a y using ok that by (simp_all add: pit_ok_def)
  have c0: "pit_ok (control_counter0 s b)" for b using ok by (simp add: pit_ok_def control_counter0_def)
  have "counter_ok (Counter1 s)" "counter_ok (Counter2 s)" using ok by (simp_all add: pit_ok_def)
  then show ?thesis
    by (auto simp: PitPortOut_def PitPortOutLocked_def Let_def
        intro!: c0 c1 c2 pit_ok_write_counter0 pit_ok_write_counter2 pit_ok_read_back ok counter_ok_control counter_ok_write)
qed

lemma pit_ok_in: "pit_ok s \<Longrightarrow> pit_ok (fst (PitPortIn s port width))"
  using counter_ok_read [of "Counter1 s" s] counter_ok_read [of "Counter2 s" s]
  by (auto simp: pit_ok_def PitPortIn_def PitPortInLocked_def read_counter0_def Let_def split: prod.splits option.splits)

interpretation pit: port_device PitPortIn PitPortOut pit_ok
  by unfold_locales (auto intro: pit_ok_in pit_ok_out)
datatype pit_event = PitAccess port_access | PitClocks u32 | PitGate bool

fun pit_step :: "('m \<Rightarrow> 'm) \<Rightarrow> pit_event \<Rightarrow> ('h, 't) pit_state \<times> 'm \<Rightarrow> ('h, 't) pit_state \<times> 'm" where
  "pit_step raise (PitAccess a) sm = (guest_access PitPortIn PitPortOut a (fst sm), snd sm)"
| "pit_step raise (PitClocks c) sm = VddPitAddClocks raise (fst sm) c (snd sm)"
| "pit_step raise (PitGate isHigh) sm = (VddPitCounter2Gate (fst sm) isHigh, snd sm)"

lemma pit_catch_up_ok: "pit_ok s \<Longrightarrow> pit_ok (fst (pit_catch_up n raise s reload m))"
proof (induction n arbitrary: s reload m)
  case (Suc n)
  have "pit_ok (s\<lparr>Accumulator := a\<rparr>)" "pit_ok (s\<lparr>Accumulator := a, Reload0 := r, IsNextPending := b, LoadClocks0 := l\<rparr>)" for a r b l
    using Suc.prems by (simp_all add: pit_ok_def)
  then show ?case using Suc by (simp add: Let_def)
qed simp

lemma pit_ok_step: "pit_ok (fst sm) \<Longrightarrow> pit_ok (fst (pit_step raise e sm))"
proof (cases e)
  case (PitAccess a)
  assume "pit_ok (fst sm)"
  then show ?thesis using PitAccess pit.access_inv by simp
next
  case (PitClocks c)
  assume ok: "pit_ok (fst sm)"
  have frame: "pit_ok ((fst sm)\<lparr>TotalClocks := t, Accumulator := a\<rparr>)"
    "pit_ok ((fst sm)\<lparr>TotalClocks := t, Accumulator := a, IsIrqArmed := b\<rparr>)" for t a b
    using ok by (simp_all add: pit_ok_def)
  then show ?thesis using PitClocks by (simp add: VddPitAddClocks_def Let_def pit_catch_up_ok)
next
  case (PitGate isHigh)
  assume "pit_ok (fst sm)"
  then show ?thesis using PitGate by (simp add: VddPitCounter2Gate_def Let_def pit_ok_def counter_ok_def)
qed

text \<open>
  C28. The timer's registers stay typed. From reset, after any sequence of port accesses, elapsed
  clocks and gate changes, each counter's mode is one of the six the part has and is the normal
  form of the three bits programmed, the access fields have two bits, and so every count and
  output level is computed by the law of a mode that exists and never divides by zero.
\<close>

theorem pit_registers_typed:
  fixes s0 :: "('h, 't) pit_state" and events :: "pit_event list" and raise :: "'m \<Rightarrow> 'm" and m :: 'm
  defines "s \<equiv> fst (fold (pit_step raise) events (VddPitReset s0, m))"
  shows "Mode0 s = effective_mode (ProgrammedMode0 s) \<and> Mode0 s \<le> 5 \<and> Access0 s \<le> 3 \<and>
    Mode (Counter1 s) = effective_mode (ProgrammedMode (Counter1 s)) \<and> Mode (Counter1 s) \<le> 5 \<and> Access (Counter1 s) \<le> 3 \<and>
    Mode (Counter2 s) = effective_mode (ProgrammedMode (Counter2 s)) \<and> Mode (Counter2 s) \<le> 5 \<and> Access (Counter2 s) \<le> 3 \<and>
    VddPitEffectiveReload s \<noteq> 0 \<and> VddPitCounterEffectiveReload (Counter1 s) \<noteq> 0 \<and> VddPitCounterEffectiveReload (Counter2 s) \<noteq> 0"
proof -
  have reset: "pit_ok (VddPitReset s0)"
    by (simp add: pit_ok_def VddPitReset_def counter_ok_def refresh_counter_def zero_counter_def pit_access_defs effective_mode_def)
  have "pit_ok (fst (fold (pit_step raise) events sm))" if "pit_ok (fst sm)" for sm :: "('h, 't) pit_state \<times> 'm"
    using that by (induction events arbitrary: sm) (simp_all add: pit_ok_step)
  from this [of "(VddPitReset s0, m)"] reset have ok: "pit_ok s" by (simp add: s_def)
  have "VddPitCounterEffectiveReload c \<noteq> 0" for c
  proof (cases "Reload c = 0")
    case False
    then have "unat (ucast (Reload c) :: u32) \<noteq> 0" by (simp add: unat_ucast_wider unat_eq_zero)
    then show ?thesis using False by (auto simp: VddPitCounterEffectiveReload_def)
  qed (simp add: VddPitCounterEffectiveReload_def PitWrap_pos)
  then show ?thesis using ok by (simp add: pit_ok_def counter_ok_def effective_mode_range VddPitEffectiveReload_pos)
qed

subsection \<open>Counter 2 as a stopwatch\<close>

datatype gate_event = GateTo bool | Elapse u32

fun gate_step :: "('m \<Rightarrow> 'm) \<Rightarrow> gate_event \<Rightarrow> ('h, 't) pit_state \<times> 'm \<Rightarrow> ('h, 't) pit_state \<times> 'm" where
  "gate_step raise (GateTo isHigh) sm = (VddPitCounter2Gate (fst sm) isHigh, snd sm)"
| "gate_step raise (Elapse c) sm = VddPitAddClocks raise (fst sm) c (snd sm)"

fun gated_clocks :: "bool \<Rightarrow> gate_event list \<Rightarrow> nat" where
  "gated_clocks gate [] = 0"
| "gated_clocks gate (GateTo isHigh # es) = gated_clocks isHigh es"
| "gated_clocks gate (Elapse c # es) = (if gate then unat c else 0) + gated_clocks gate es"

fun all_clocks :: "gate_event list \<Rightarrow> nat" where
  "all_clocks [] = 0"
| "all_clocks (GateTo isHigh # es) = all_clocks es"
| "all_clocks (Elapse c # es) = unat c + all_clocks es"

lemma pit_catch_up_counter2:
  "Counter2 (fst (pit_catch_up n raise s reload m)) = Counter2 s \<and>
   TotalClocks (fst (pit_catch_up n raise s reload m)) = TotalClocks s"
  by (induction n arbitrary: s reload m) (simp_all add: Let_def)

lemma add_clocks_counter2:
  "Counter2 (fst (VddPitAddClocks raise s c m)) = Counter2 s"
  "TotalClocks (fst (VddPitAddClocks raise s c m)) = TotalClocks s + ucast c"
  by (simp_all add: VddPitAddClocks_def Let_def pit_catch_up_counter2)

definition stopwatch :: "('h, 't) pit_state \<Rightarrow> bool" where
  "stopwatch s \<longleftrightarrow> (let c = Counter2 s in (Mode c = 0 \<or> Mode c = 4) \<and>
     (if Gate c then LoadClocks c \<le> TotalClocks s else GateElapsed c \<le> TotalClocks s))"

lemma gate_step_stopwatch:
  assumes "stopwatch s" "unat (TotalClocks s) + all_clocks [e] < 2 ^ 64" "gate_step raise e (s, m) = (s', m')"
  shows "stopwatch s' \<and> Mode (Counter2 s') = Mode (Counter2 s) \<and> Reload (Counter2 s') = Reload (Counter2 s) \<and>
    IsBcd (Counter2 s') = IsBcd (Counter2 s) \<and>
    unat (TotalClocks s') = unat (TotalClocks s) + all_clocks [e] \<and>
    Gate (Counter2 s') = (case e of GateTo isHigh \<Rightarrow> isHigh | Elapse c \<Rightarrow> Gate (Counter2 s)) \<and>
    unat (PitCounterElapsed s' (Counter2 s')) =
      unat (PitCounterElapsed s (Counter2 s)) + gated_clocks (Gate (Counter2 s)) [e]"
proof (cases e)
  case (GateTo isHigh)
  have "TotalClocks s - (TotalClocks s - GateElapsed (Counter2 s)) = GateElapsed (Counter2 s)" by simp
  moreover have "TotalClocks s - LoadClocks (Counter2 s) \<le> TotalClocks s" if "LoadClocks (Counter2 s) \<le> TotalClocks s"
    using that by (simp add: word_le_nat_alt unat_sub)
  moreover have "TotalClocks s - GateElapsed (Counter2 s) \<le> TotalClocks s" if "GateElapsed (Counter2 s) \<le> TotalClocks s"
    using that by (simp add: word_le_nat_alt unat_sub)
  ultimately show ?thesis using assms GateTo
    by (auto simp: stopwatch_def VddPitCounter2Gate_def PitCounterElapsed_def elapsed_since_def Let_def split: if_splits)
next
  case (Elapse c)
  have s': "Counter2 s' = Counter2 s" "TotalClocks s' = TotalClocks s + ucast c"
    using assms(3) Elapse add_clocks_counter2 [of raise s c m] by simp_all
  have sum: "unat (TotalClocks s + ucast c) = unat (TotalClocks s) + unat c"
    using assms(2) Elapse by (simp add: unat_word_ariths unat_ucast_wider)
  show ?thesis using assms(1) Elapse
    by (auto simp: stopwatch_def s' PitCounterElapsed_def elapsed_since_def Let_def word_le_nat_alt sum unat_sub)
qed
text \<open>
  Counter 2 is a stopwatch. Loaded in mode 0 or 4, its elapsed count is exactly the clocks that
  passed while the gate was high, over any sequence of gate writes (repeated ones included) and
  elapsed time; in mode 0 its output, port 61h bit 5, goes high exactly when those reach the count.
\<close>

theorem pit_counter2_stopwatch:
  fixes s :: "('h, 't) pit_state"
  assumes fresh: "Counter2 s = load_counter s counter w" "Mode counter = 0 \<or> Mode counter = 4"
    and range: "unat (TotalClocks s) + all_clocks events < 2 ^ 64"
    and run: "fold (gate_step raise) events (s, m) = (s', m')"
  shows "unat (PitCounterElapsed s' (Counter2 s')) = gated_clocks (Gate counter) events \<and>
    (Mode counter = 0 \<longrightarrow>
      VddPitCounter2Out s' = (unat (VddPitCounterEffectiveReload (Counter2 s)) \<le> gated_clocks (Gate counter) events))"
proof -
  have gen: "unat (PitCounterElapsed t' (Counter2 t')) =
      unat (PitCounterElapsed t (Counter2 t)) + gated_clocks (Gate (Counter2 t)) events \<and>
    Mode (Counter2 t') = Mode (Counter2 t) \<and>
    VddPitCounterEffectiveReload (Counter2 t') = VddPitCounterEffectiveReload (Counter2 t)"
    if "stopwatch t" "unat (TotalClocks t) + all_clocks events < 2 ^ 64" "fold (gate_step raise) events (t, m) = (t', m')"
    for t t' :: "('h, 't) pit_state" and m m'
    using that
  proof (induction events arbitrary: t m)
    case (Cons e es)
    obtain t1 m1 where step: "gate_step raise e (t, m) = (t1, m1)" by (metis surj_pair)
    have split: "all_clocks (e # es) = all_clocks [e] + all_clocks es" by (cases e) simp_all
    then have "unat (TotalClocks t) + all_clocks [e] < 2 ^ 64" using Cons.prems(2) by simp
    note one = gate_step_stopwatch [OF Cons.prems(1) this step]
    have "unat (TotalClocks t1) + all_clocks es < 2 ^ 64" using one Cons.prems(2) split by simp
    moreover have "fold (gate_step raise) es (t1, m1) = (t', m')" using Cons.prems(3) step by simp
    ultimately have rest: "unat (PitCounterElapsed t' (Counter2 t')) =
        unat (PitCounterElapsed t1 (Counter2 t1)) + gated_clocks (Gate (Counter2 t1)) es \<and>
      Mode (Counter2 t') = Mode (Counter2 t1) \<and>
      VddPitCounterEffectiveReload (Counter2 t') = VddPitCounterEffectiveReload (Counter2 t1)"
      using Cons.IH one by blast
    then show ?case using one by (cases e) (auto simp: VddPitCounterEffectiveReload_def)
  qed auto
  have "stopwatch s" using fresh by (simp add: stopwatch_def load_counter_def Let_def)
  note final = gen [OF this range run]
  have start: "unat (PitCounterElapsed s (Counter2 s)) = 0" "Gate (Counter2 s) = Gate counter" "Mode (Counter2 s) = Mode counter"
    using fresh by (auto simp: PitCounterElapsed_def load_counter_def elapsed_since_def)
  have "VddPitCounter2Out s' = (unat (VddPitCounterEffectiveReload (Counter2 s)) \<le> gated_clocks (Gate counter) events)"
    if "Mode counter = 0"
    using final start that
    by (simp add: VddPitCounter2Out_def PitCounterOut_def PitOutPin_def word_le_nat_alt unat_ucast_wider)
  then show ?thesis using final start by simp
qed

subsection \<open>The tick book\<close>

primrec bios_ticks :: "nat \<Rightarrow> tick_book \<times> u32 \<times> u8 \<Rightarrow> tick_book \<times> u32 \<times> u8" where
  \<comment> \<open>\<open>n\<close> timer interrupts on the tick book, the count and the midnight flag\<close>
  "bios_ticks 0 st = st"
| "bios_ticks (Suc n) st = (case bios_ticks n st of (book, count, flag) \<Rightarrow> VddPitBiosTick book count flag)"

definition ticks_per_day :: nat where
  "ticks_per_day = unat PIT_TICKS_PER_DAY"

lemma ticks_per_day_value: "ticks_per_day = 1573040"
  by (simp add: ticks_per_day_def PIT_TICKS_PER_DAY_def)

lemma tick_wrap:
  assumes "unat count < ticks_per_day"
  shows "(count + 1 \<ge> PIT_TICKS_PER_DAY) = (Suc (unat count) = ticks_per_day)"
    "unat (if count + 1 \<ge> PIT_TICKS_PER_DAY then 0 else count + 1) = Suc (unat count) mod ticks_per_day"
proof -
  have succ: "unat (count + 1) = Suc (unat count)"
    using assms by (simp add: ticks_per_day_value unat_word_ariths)
  show wraps: "(count + 1 \<ge> PIT_TICKS_PER_DAY) = (Suc (unat count) = ticks_per_day)"
    using assms by (auto simp: word_le_nat_alt succ ticks_per_day_def)
  show "unat (if count + 1 \<ge> PIT_TICKS_PER_DAY then 0 else count + 1) = Suc (unat count) mod ticks_per_day"
    using assms succ by (auto simp: wraps)
qed

lemma bios_ticks_count:
  assumes "unat count < ticks_per_day" "bios_ticks n (book, count, flag) = (book', count', flag')"
  shows "unat count' = (unat count + n) mod ticks_per_day \<and> unat count' < ticks_per_day \<and>
    (0 < n \<longrightarrow> TickWitness book' = count') \<and>
    flag' = (if unat count + n \<ge> ticks_per_day then 1 else flag)"
  using assms(2)
proof (induction n arbitrary: book' count' flag')
  case 0
  then show ?case using assms(1) by simp
next
  case (Suc n)
  obtain b c f where prev: "bios_ticks n (book, count, flag) = (b, c, f)" by (metis surj_pair)
  note ih = Suc.IH [OF prev]
  have c: "unat c < ticks_per_day" using ih by simp
  note wrap = tick_wrap [OF c]
  have step: "VddPitBiosTick b c f = (book', count', flag')" using Suc.prems prev by simp
  then have count': "count' = (if c + 1 \<ge> PIT_TICKS_PER_DAY then 0 else c + 1)" and
    flag': "flag' = (if c + 1 \<ge> PIT_TICKS_PER_DAY then 1 else f)" and wit: "TickWitness book' = count'"
    by (auto simp: VddPitBiosTick_def Let_def)
  have pos: "0 < ticks_per_day" by (simp add: ticks_per_day_value)
  have "unat count' = (unat count + Suc n) mod ticks_per_day"
    unfolding count' wrap(2) using ih by (simp add: mod_Suc_eq)
  moreover have "flag' = (if unat count + Suc n \<ge> ticks_per_day then 1 else flag)"
  proof (cases "unat count + n \<ge> ticks_per_day")
    case True
    then show ?thesis using ih flag' by simp
  next
    case False
    then have "unat c = unat count + n" using ih by simp
    then show ?thesis using ih flag' wrap(1) False by auto
  qed
  ultimately show ?case using wit pos by simp
qed
lemma bios_ticks_book:
  assumes "\<not> IsTickForeign book" "unat v < ticks_per_day" "n < 2 ^ 32" "bios_ticks n (book, v, flag) = (book', count', flag')"
  shows "if v = TickWitness book then \<not> IsTickForeign book' \<and> TickWitness book' = count'
    else if n = 0 then book' = book \<and> count' = v
    else IsTickForeign book' \<and> unat (TickSince book') = n \<and> unat (TickWraps book') = (unat v + n) div ticks_per_day"
  using assms(3,4)
proof (induction n arbitrary: book' count' flag')
  case 0
  then show ?case using assms(1) by simp
next
  case (Suc n)
  obtain b c f where prev: "bios_ticks n (book, v, flag) = (b, c, f)" by (metis surj_pair)
  note ih = Suc.IH [OF _ prev] and cnt = bios_ticks_count [OF assms(2) prev]
  have step: "VddPitBiosTick b c f = (book', count', flag')" using Suc.prems(2) prev by simp
  note wrap = tick_wrap [of c]
  show ?case
  proof (cases "v = TickWitness book")
    case True
    then have "\<not> IsTickForeign b" "TickWitness b = c" using ih Suc.prems(1) by simp_all
    then show ?thesis using True step by (auto simp: VddPitBiosTick_def Let_def)
  next
    case False
    have pos: "0 < ticks_per_day" by (simp add: ticks_per_day_value)
    have div: "(unat v + Suc n) div ticks_per_day =
        (unat v + n) div ticks_per_day + (if Suc (unat c) = ticks_per_day then 1 else 0)"
      using cnt by (simp add: div_Suc mod_Suc)
    have wraps: "(c + 1 \<ge> PIT_TICKS_PER_DAY) = (Suc (unat c) = ticks_per_day)" using wrap(1) cnt by simp
    have bound: "(unat v + Suc n) div ticks_per_day < 2 ^ 32"
    proof -
      have "(unat v + Suc n) div ticks_per_day \<le> unat v + Suc n" by simp
      moreover have "(unat v + Suc n) div ticks_per_day \<le> (ticks_per_day + Suc n) div ticks_per_day"
        using assms(2) by (intro div_le_mono) simp
      moreover have "(ticks_per_day + Suc n) div ticks_per_day = Suc (Suc n div ticks_per_day)"
        using pos by (simp add: div_add_self1 del: add_Suc_right)
      moreover have "Suc n div ticks_per_day < Suc n"
        by (rule div_less_dividend) (simp_all add: ticks_per_day_value)
      ultimately show ?thesis using Suc.prems(1) by linarith
    qed
    show ?thesis
    proof (cases "n = 0")
      case True
      then have "b = book" "c = v" using ih False Suc.prems(1) by auto
      then show ?thesis using step False assms(1,2) True div wraps
        by (auto simp: VddPitBiosTick_def Let_def split: if_splits)
    next
      case later: False
      have b: "IsTickForeign b" "unat (TickSince b) = n" "unat (TickWraps b) = (unat v + n) div ticks_per_day"
        using ih False later Suc.prems(1) by simp_all
      have since: "unat (TickSince b + 1) = Suc n" using b(2) Suc.prems(1) by (simp add: unat_word_ariths)
      have wraps': "unat (TickWraps b + 1) = Suc (unat (TickWraps b))" if "Suc (unat c) = ticks_per_day"
        using bound div b(3) that by (simp add: unat_word_ariths)
      show ?thesis using step False b since wraps' div wraps
        by (auto simp: VddPitBiosTick_def Let_def split: if_splits)
    qed
  qed
qed

definition tick_view :: "('h, 't) pit_state \<times> mem \<Rightarrow> tick_book \<times> u32 \<times> u8" where
  "tick_view sm = (Ticks (fst sm), load_dword (snd sm) (PitBiosDataArea (fst sm) + BIOS_BDA_TICK_COUNT),
     snd sm (PitBiosDataArea (fst sm) + BIOS_BDA_MIDNIGHT_FLAG))"

lemma load_dword_frame:
  "b < a \<or> a + 4 \<le> b \<Longrightarrow> load_dword (m(b := v)) a = load_dword m a"
  by (auto simp: load_dword_def)

lemma PitInt08_view:
  assumes "BiosTickHook (fst sm) = None"
  shows "tick_view (PitInt08 sm) = (case tick_view sm of (book, count, flag) \<Rightarrow> VddPitBiosTick book count flag) \<and>
    BiosTickHook (fst (PitInt08 sm)) = None \<and> PitBiosDataArea (fst (PitInt08 sm)) = PitBiosDataArea (fst sm) \<and>
    (\<forall>a. a < PitBiosDataArea (fst sm) + 0x6C \<or> PitBiosDataArea (fst sm) + 0x71 \<le> a \<longrightarrow> snd (PitInt08 sm) a = snd sm a)"
proof -
  obtain s m where sm: "sm = (s, m)" by (cases sm)
  obtain book count flag where
    tick: "VddPitBiosTick (Ticks s) (load_dword m (PitBiosDataArea s + BIOS_BDA_TICK_COUNT))
        (m (PitBiosDataArea s + BIOS_BDA_MIDNIGHT_FLAG)) = (book, count, flag)" by (metis surj_pair)
  have area: "PitBiosDataArea (s\<lparr>Ticks := book\<rparr>) = PitBiosDataArea s" by (simp add: PitBiosDataArea_def)
  have res: "PitInt08 (s, m) = (s\<lparr>Ticks := book\<rparr>, (store_dword m (PitBiosDataArea s + BIOS_BDA_TICK_COUNT) count)
      (PitBiosDataArea s + BIOS_BDA_MIDNIGHT_FLAG := flag))"
    using assms tick by (simp add: sm PitInt08_def VddPitBiosTickHook_def Let_def)
  show ?thesis
    using assms tick
    unfolding sm by (simp add: res tick_view_def area)
      (auto simp: load_dword_frame load_store_dword store_dword_elsewhere BIOS_BDA_TICK_COUNT_def BIOS_BDA_MIDNIGHT_FLAG_def)
qed

lemma int08_runs:
  assumes "BiosTickHook (fst sm) = None"
  shows "tick_view ((PitInt08 ^^ n) sm) = bios_ticks n (tick_view sm) \<and> BiosTickHook (fst ((PitInt08 ^^ n) sm)) = None \<and>
    PitBiosDataArea (fst ((PitInt08 ^^ n) sm)) = PitBiosDataArea (fst sm)"
  using assms by (induction n) (auto simp: PitInt08_view)

text \<open>
  The tick book is exact. After \<open>n\<close> timer interrupts from any count of the day in memory, the
  count at 0040:006C has advanced by \<open>n\<close> modulo a day and the midnight flag is set if midnight
  passed; and asking whether the guest stored the count says no when it was the BIOS's own, and
  otherwise yields the count, the midnights and the ticks since, all exact.
\<close>

theorem pit_tick_book_exact:
  fixes s :: "('h, 't) pit_state"
  assumes "BiosTickHook s = None" "\<not> IsTickForeign (Ticks s)" "n < 2 ^ 32"
    and start: "tick_view (s, m) = (book, v, flag)" "unat v < 1573040"
    and finish: "tick_view ((PitInt08 ^^ n) (s, m)) = (book', count', flag')"
  shows "unat count' = (unat v + n) mod 1573040 \<and> flag' = (if unat v + n \<ge> 1573040 then 1 else flag) \<and>
    VddPitTickTake book' count' =
      (if v = TickWitness book then None
       else Some (VddPitTickOwned count', count', of_nat ((unat v + n) div 1573040), of_nat n))"
proof -
  have run: "bios_ticks n (book, v, flag) = (book', count', flag')"
    using int08_runs [of "(s, m)" n] assms(1) start finish by simp
  have book: "book = Ticks s" using start by (simp add: tick_view_def)
  have v: "unat v < ticks_per_day" using start by (simp add: ticks_per_day_value)
  note cnt = bios_ticks_count [OF v run]
  note bk = bios_ticks_book [OF _ v assms(3) run]
  have "TickWraps book' = of_nat ((unat v + n) div 1573040)" "TickSince book' = of_nat n"
    if "v \<noteq> TickWitness book" "n \<noteq> 0"
  proof -
    have "unat (TickWraps book') = (unat v + n) div 1573040" "unat (TickSince book') = n"
      using bk that assms(2) book by (simp_all add: ticks_per_day_value)
    then show "TickWraps book' = of_nat ((unat v + n) div 1573040)" "TickSince book' = of_nat n"
      by (metis of_nat_unat ucast_id)+
  qed
  then show ?thesis using cnt bk assms(2) book start(2)
    by (cases "n = 0") (auto simp: VddPitTickTake_def ticks_per_day_value Let_def)
qed
subsection \<open>Two departures from the part\<close>

text \<open>
  In mode 3 with an odd count the counting element repeats after one clock more than the period:
  at the start of the second period, where the output rises again, it reads 1 and not the count.
\<close>

lemma pit_odd_square_wave_slips:
  assumes "odd (unat reload)" "unat reload \<ge> 3" "unat reload < unat wrap"
  shows "PitOutPin 3 reload (ucast reload) = PitOutPin 3 reload 0 \<and>
    PitCountLaw 3 reload 0 wrap = reload \<and> PitCountLaw 3 reload (ucast reload) wrap = 1"
proof -
  have pos: "reload \<noteq> 0" using assms(2) by auto
  obtain h where h: "unat reload = 2 * h + 1" "h \<ge> 1" using assms(1,2) by (auto elim!: oddE)
  have lt: "unat reload < 2 ^ 32 - 1" using assms(3) unsigned_less [of wrap, where 'a = nat] by simp
  have half: "unat ((reload + 1) div 2) = Suc h" using h lt by (simp add: unat_div unat_word_ariths)
  then have hpos: "(reload + 1) div 2 \<noteq> 0" by auto
  have "(2 * h + 1) mod Suc h = h" using h by (simp add: mod_if)
  then have phase: "unat (ucast ((ucast reload :: u64) mod ucast ((reload + 1) div 2)) :: u32) = h"
    using h by (simp add: unat_elapsed_mod [OF hpos] half unat_ucast_wider)
  have two: "unat (2 * ucast ((ucast reload :: u64) mod ucast ((reload + 1) div 2)) :: u32) = 2 * h"
    using h lt by (simp add: unat_word_ariths phase)
  have "unat (reload - 2 * ucast ((ucast reload :: u64) mod ucast ((reload + 1) div 2))) = 1"
    using h by (subst unat_sub) (simp_all add: word_le_nat_alt two)
  then have "PitCountLaw 3 reload (ucast reload) wrap = 1"
    using assms(2,3) by (simp add: PitCountLaw_def Let_def word_unat_eq_iff unat_mod)
  moreover have "PitCountLaw 3 reload 0 wrap = reload"
    using assms(3) by (simp add: PitCountLaw_0 word_unat_eq_iff unat_mod)
  moreover have "PitOutPin 3 reload (ucast reload) = PitOutPin 3 reload 0"
    by (simp add: PitOutPin_def)
  ultimately show ?thesis by simp
qed

text \<open>
  A counter latch command replaces a count that is latched and not yet read, where the read-back
  command keeps it.
\<close>

lemma pit_latch_replaces:
  assumes "IsLatched0 s" "drop_bit 6 cw = 0" "cw_access cw = PIT_ACCESS_LATCH"
  shows "Latch0 (PitPortOutLocked s 0x43 cw) = ucast (PitCurrentCount s) \<and>
    Latch0 (PitReadBack s rb) = Latch0 s"
proof -
  have "Latch0 (read_back_one rb i t) = Latch0 t \<and> IsLatched0 (read_back_one rb i t)" if "IsLatched0 t" for i and t :: "('a, 'b) pit_state"
    using that by (simp add: read_back_one_def latch_status_def latch_count_def Let_def)
  then show ?thesis using assms
    by (simp add: PitPortOutLocked_def control_counter0_def PitReadBack_def upt_conv_Cons Let_def)
qed

subsection \<open>Witnesses\<close>

definition zero_pit :: "(unit, unit) pit_state" where
  "zero_pit = \<lparr>Bus = Some 0, Reload0 = 0, Access0 = 0, Mode0 = 0, ProgrammedMode0 = 0, IsWriteHighNext0 = False, WriteLow0 = 0,
     IsReadHighNext0 = False, IsLatched0 = False, Latch0 = 0, TotalClocks = 0, LoadClocks0 = 0, Accumulator = 0,
     IsControlWordArmed = False, IsNextPending = False, NextReload = 0, IsIrqArmed = False, OneShotLoads = 0, Restarts = 0,
     FrameMicroseconds = 0, Counter2Reload = 0, Counter2Access = 0, Counter2IsWriteHighNext = False, Counter2WriteLow = 0,
     IsBcd0 = False, StatusLatched = (\<lambda>_. False), StatusLatch = (\<lambda>_. 0), Counter1 = zero_counter, Counter2 = zero_counter,
     RtcNow = None, RtcContext = (), RtcSet = None, TicksSet = None,
     Ticks = \<lparr>TickWitness = 0, IsTickForeign = False, TickWraps = 0, TickSince = 0\<rparr>,
     BiosTickHook = None, BiosTickHookContext = ()\<rparr>"

theorem pit_rate_exact_witness:
  "snd (add_all Suc [65536, 131072] (zero_pit\<lparr>Mode0 := 2\<rparr>, 0)) = 3"
proof -
  let ?s = "zero_pit\<lparr>Mode0 := 2\<rparr>"
  have period: "pit_period ?s = 65536"
    by (simp add: pit_period_def VddPitEffectiveReload_def zero_pit_def PitWrap_def PIT_BINARY_WRAP_def)
  obtain s' m' where run: "add_all Suc [65536, 131072] (?s, 0) = (s', m')" by (metis surj_pair)
  have mode: "Mode0 ?s = 2 \<or> Mode0 ?s = 3" by simp
  have idle: "\<not> IsNextPending ?s" "Accumulator ?s = 0" "LoadClocks0 ?s = TotalClocks ?s" "TotalClocks ?s = 0"
    by (simp_all add: zero_pit_def)
  have pieces: "\<forall>c\<in>set [65536, 131072 :: u32]. unat c div pit_period ?s < PIT_CATCH_UP_GUARD"
    unfolding period by (simp add: PIT_CATCH_UP_GUARD_def)
  have range: "unat (TotalClocks ?s) + total_clocks [65536, 131072] < 2 ^ 64" unfolding idle(4) by simp
  have "m' = (Suc ^^ (total_clocks [65536, 131072] div pit_period ?s)) 0"
    by (rule pit_rate_exact [OF mode idle(1-3) pieces range run, THEN conjunct1])
  then show ?thesis unfolding run by (simp add: period)
qed

theorem pit_one_shot_once_witness:
  "snd (add_all Suc [60, 60, 60] (PitLoad zero_pit 100, 0)) = 1"
proof -
  have period: "pit_period (PitLoad zero_pit 100) = 100"
    by (simp add: pit_period_def VddPitEffectiveReload_def zero_pit_def PitLoad_def PitCountValue_def)
  have "snd (add_all Suc [60, 60, 60] (PitLoad zero_pit 100, 0)) =
      (if pit_period (PitLoad zero_pit 100) \<le> total_clocks [60, 60, 60] then Suc 0 else 0)"
    by (rule pit_one_shot_once [of zero_pit 100]) (simp_all add: zero_pit_def)
  then show ?thesis by (simp add: period)
qed

theorem pit_program_readback_witness:
  "snd (PitPortIn (pit_program 0x31 0x34 0x12 zero_pit) 0x40 1) = 0x34"
proof -
  have "bcd_digits (push_bit 8 (ucast (0x12 :: u8)) OR ucast (0x34 :: u8))" by (simp add: bcd_digits_def)
  then show ?thesis
    using pit_program_readback [of "0x31" "0x12" "0x34" zero_pit]
    by (auto simp: cw_access_def PIT_ACCESS_LOW_HIGH_def zero_pit_def split_beta)
qed

theorem pit_counter2_stopwatch_witness:
  "VddPitCounter2Out (fst (fold (gate_step Suc) [GateTo True, Elapse 60, GateTo False, Elapse 500, GateTo True, Elapse 40]
     (zero_pit\<lparr>Counter2 := load_counter zero_pit zero_counter 100\<rparr>, 0)))"
proof -
  let ?s = "zero_pit\<lparr>Counter2 := load_counter zero_pit zero_counter 100\<rparr>"
  let ?es = "[GateTo True, Elapse 60, GateTo False, Elapse 500, GateTo True, Elapse 40]"
  obtain s' m' where run: "fold (gate_step Suc) ?es (?s, 0) = (s', m')" by (metis surj_pair)
  have fresh: "Counter2 ?s = load_counter ?s zero_counter 100" by (simp add: load_counter_def)
  have mode: "Mode zero_counter = 0 \<or> Mode zero_counter = 4" by (simp add: zero_counter_def)
  have range: "unat (TotalClocks ?s) + all_clocks ?es < 2 ^ 64" by (simp add: zero_pit_def)
  have "VddPitCounterEffectiveReload (Counter2 ?s) = 100"
    by (simp add: VddPitCounterEffectiveReload_def load_counter_def zero_counter_def PitCountValue_def)
  moreover have "VddPitCounter2Out s' = (unat (VddPitCounterEffectiveReload (Counter2 ?s)) \<le> gated_clocks (Gate zero_counter) ?es)"
    by (rule pit_counter2_stopwatch [OF fresh mode range run, THEN conjunct2, rule_format]) (simp add: zero_counter_def)
  ultimately show ?thesis unfolding run by simp
qed

theorem pit_tick_book_exact_witness:
  "case tick_view ((PitInt08 ^^ 2) (zero_pit, \<lambda>_. 0)) of
     (book, count, flag) \<Rightarrow> unat count = 2 \<and> flag = 0 \<and> VddPitTickTake book count = None"
proof -
  obtain book' count' flag' where finish: "tick_view ((PitInt08 ^^ 2) (zero_pit, \<lambda>_. 0)) = (book', count', flag')"
    by (metis surj_pair)
  have start: "tick_view (zero_pit, \<lambda>_. 0) = (Ticks zero_pit, 0, 0)"
    by (simp add: tick_view_def load_dword_def)
  show ?thesis
    using pit_tick_book_exact [OF _ _ _ start _ finish] by (simp add: finish) (simp add: zero_pit_def)
qed

end
