(* ===== verification/Vdm_Machine.thy ===== *)
theory Vdm_Machine
  imports Pic_Priority Dma_Software Pit_Services
begin

text \<open>
  The machine as the host puts it together, \<^verbatim>\<open>src/host/host_startup.c\<close>: the interrupt controllers,
  the timer and the DMA controllers on one bus, in the order the host adds them, over the guest's
  memory, with the latching part of the host's interrupt sink (\<^verbatim>\<open>HostIrqSink\<close> of
  \<^verbatim>\<open>src/host/host_irq.c\<close>) between the timer and the interrupt controllers. Each device meets the
  bus's port contract in its slot of the machine, and the properties that span devices follow.
\<close>

subsection \<open>The machine and its slots\<close>

record ('d, 'h, 't) vdm_machine =
  g_Pic :: pic_state
  g_Pit :: "('h, 't) pit_state"
  g_Dma :: "'d dma_state"
  Ram :: mem

definition put_pic :: "pic_state \<Rightarrow> ('d, 'h, 't) vdm_machine \<Rightarrow> ('d, 'h, 't) vdm_machine" where
  "put_pic s mc = mc\<lparr>g_Pic := s\<rparr>"

definition get_pit :: "('d, 'h, 't) vdm_machine \<Rightarrow> ('h, 't) pit_state \<times> mem" where
  "get_pit mc = (g_Pit mc, Ram mc)"

definition put_pit :: "('h, 't) pit_state \<times> mem \<Rightarrow> ('d, 'h, 't) vdm_machine \<Rightarrow> ('d, 'h, 't) vdm_machine" where
  "put_pit sm mc = mc\<lparr>g_Pit := fst sm, Ram := snd sm\<rparr>"

definition get_dma :: "('d, 'h, 't) vdm_machine \<Rightarrow> 'd dma_state \<times> mem" where
  "get_dma mc = (g_Dma mc, Ram mc)"

definition put_dma :: "'d dma_state \<times> mem \<Rightarrow> ('d, 'h, 't) vdm_machine \<Rightarrow> ('d, 'h, 't) vdm_machine" where
  "put_dma sm mc = mc\<lparr>g_Dma := fst sm, Ram := snd sm\<rparr>"

lemmas slot_defs = put_pic_def get_pit_def put_pit_def get_dma_def put_dma_def slot_in_def slot_out_def

interpretation pic_slot: port_slot PicPortIn PicPortOut pic_ok g_Pic put_pic
  by unfold_locales (simp add: put_pic_def)

lemma pit_device: "port_device pit_in pit_out (\<lambda>sm. pit_ok (fst sm))"
  by unfold_locales (auto simp: pit_in_def pit_out_def split_beta intro: pit_ok_in pit_ok_out)

interpretation pit_slot: port_slot pit_in pit_out "\<lambda>sm. pit_ok (fst sm)" get_pit put_pit
  by (intro port_slot.intro pit_device) (unfold_locales, simp add: get_pit_def put_pit_def)

interpretation dma_slot: port_slot "DmaPortIn asserts" DmaPortOut
    "\<lambda>sm. dma_settled sm \<and> BusBase (fst sm) = base \<and> confined base old (snd sm)" get_dma put_dma
  for asserts :: "'d \<Rightarrow> u8" and base old
proof unfold_locales
  fix sm :: "'d dma_state \<times> mem" and port width
  assume inv: "dma_settled sm \<and> BusBase (fst sm) = base \<and> confined base old (snd sm)"
  then show "dma_settled (fst (DmaPortIn asserts sm port width)) \<and>
      BusBase (fst (fst (DmaPortIn asserts sm port width))) = base \<and>
      confined base old (snd (fst (DmaPortIn asserts sm port width)))"
    using dma.in_inv dma_memory.in_inv by blast
next
  fix sm :: "'d dma_state \<times> mem" and port width v
  assume inv: "dma_settled sm \<and> BusBase (fst sm) = base \<and> confined base old (snd sm)"
  then show "dma_settled (DmaPortOut sm port width v) \<and> BusBase (fst (DmaPortOut sm port width v)) = base \<and>
      confined base old (snd (DmaPortOut sm port width v))"
    using dma.out_inv dma_memory.out_inv by blast
qed (simp add: get_dma_def put_dma_def)

subsection \<open>Putting the devices on the bus\<close>

definition host_irq_sink :: "('d, 'h, 't) vdm_machine \<Rightarrow> u8 \<Rightarrow> ('d, 'h, 't) vdm_machine" where
  \<comment> \<open>the latching half of \<^verbatim>\<open>HostIrqSink\<close>\<close>
  "host_irq_sink mc irq =
     (if irq < 8
      then put_pic ((g_Pic mc)\<lparr>Master := (Master (g_Pic mc))\<lparr>Irr := Irr (Master (g_Pic mc)) OR line_bit (unat irq)\<rparr>\<rparr>) mc
      else put_pic (VddPicRaise (g_Pic mc) irq) mc)"

type_synonym ('d, 'h, 't, 'f) machine_bus = "(('d, 'h, 't) vdm_machine, ntvdd_registers, 'f) vdd_bus"

definition pic_device :: "('d, 'h, 't) vdm_machine device_entry" where
  "pic_device = \<lparr>DeviceReset = Some (\<lambda>mc. put_pic (VddPicReset (g_Pic mc)) mc), DeviceShutdown = None\<rparr>"

definition pit_device_entry :: "('d, 'h, 't) vdm_machine device_entry" where
  "pit_device_entry = \<lparr>DeviceReset = Some (\<lambda>mc. mc\<lparr>g_Pit := VddPitReset (g_Pit mc)\<rparr>), DeviceShutdown = None\<rparr>"

definition dma_device_entry :: "('d, 'h, 't) vdm_machine device_entry" where
  "dma_device_entry = \<lparr>DeviceReset = Some (\<lambda>mc. mc\<lparr>g_Dma := VddDmaReset (g_Dma mc)\<rparr>), DeviceShutdown = None\<rparr>"

definition machine_boot ::
  "('d \<Rightarrow> u8) \<Rightarrow> nat \<Rightarrow> ('d, 'h, 't) vdm_machine \<Rightarrow> ('d, 'h, 't, 'f) machine_bus \<times> ('d, 'h, 't) vdm_machine \<times> bool" where
  "machine_boot asserts base mc0 =
     (let bus0 = VddBusSetSinks (VddBusInitialize base) (Some host_irq_sink) None;
          (bus1, mc1, ok1) = VddBusAdd bus0 pic_device (Some (VddPicInitialize put_pic g_Pic)) mc0;
          (bus2, mc2, ok2) = VddBusAdd bus1 pit_device_entry
                               (Some (VddPitInitialize (\<lambda>mc. host_irq_sink mc 0) get_pit put_pit)) mc1;
          (bus3, mc3, ok3) = VddBusAdd bus2 dma_device_entry (Some (VddDmaInitialize asserts put_dma get_dma)) mc2
      in (bus3, mc3, ok1 \<and> ok2 \<and> ok3))"

definition pic_range :: "u16 \<Rightarrow> u16 \<Rightarrow> ('d, 'h, 't) vdm_machine port_entry" where
  "pic_range a b = \<lparr>First = a, Last = b, PortIn = Some (slot_in g_Pic put_pic PicPortIn),
     PortOut = Some (slot_out g_Pic put_pic PicPortOut)\<rparr>"

definition pit_range :: "u16 \<Rightarrow> u16 \<Rightarrow> ('d, 'h, 't) vdm_machine port_entry" where
  "pit_range a b = \<lparr>First = a, Last = b, PortIn = Some (slot_in get_pit put_pit pit_in),
     PortOut = Some (slot_out get_pit put_pit pit_out)\<rparr>"

definition dma_range :: "('d \<Rightarrow> u8) \<Rightarrow> u16 \<Rightarrow> u16 \<Rightarrow> ('d, 'h, 't) vdm_machine port_entry" where
  "dma_range asserts a b = \<lparr>First = a, Last = b, PortIn = Some (slot_in get_dma put_dma (DmaPortIn asserts)),
     PortOut = Some (slot_out get_dma put_dma DmaPortOut)\<rparr>"

definition machine_ports :: "('d \<Rightarrow> u8) \<Rightarrow> ('d, 'h, 't) vdm_machine port_entry list" where
  "machine_ports asserts =
     [pic_range 0x20 0x21, pic_range 0xA0 0xA1, pit_range 0x40 0x43,
      dma_range asserts 0x00 0x0F, dma_range asserts 0x80 0x8F, dma_range asserts 0xC0 0xDF]"
abbreviation timer_irq :: "('d, 'h, 't) vdm_machine \<Rightarrow> ('d, 'h, 't) vdm_machine" where
  "timer_irq mc \<equiv> host_irq_sink mc 0"

definition booted :: "('d, 'h, 't, 'f) machine_bus \<Rightarrow> ('d \<Rightarrow> u8) \<Rightarrow> bool" where
  "booted bus asserts \<longleftrightarrow> Ports bus = machine_ports asserts \<and> ClaimFailures bus = 0 \<and>
     FrameSubscribers bus = [Some (pit_frame timer_irq get_pit put_pit)] \<and> IrqSink bus = Some host_irq_sink"

lemma machine_boot_bus:
  assumes "machine_boot asserts base mc0 = (bus, mc, ok)"
  shows "ok \<and> booted bus asserts"
  using assms
  by (auto simp: machine_boot_def VddBusSetSinks_def VddBusInitialize_def VddBusAdd_def VDD_MAX_DEVICES_def
      VddPicInitialize_def VddPitInitialize_def VddDmaInitialize_def VddClaimPorts_def VDD_MAX_PORT_RANGES_def
      VddClaimInterrupt_def VddOnFrame_def VDD_MAX_FRAME_SUBSCRIBERS_def Let_def booted_def machine_ports_def
      pic_range_def pit_range_def dma_range_def split_beta)

lemma machine_boot_state:
  assumes "machine_boot asserts base mc0 = ((bus :: ('d, 'h, 't, 'f) machine_bus), mc, ok)"
  shows "mc = mc0\<lparr>g_Pic := VddPicReset (g_Pic mc0), g_Pit := pit_post base (g_Pit mc0),
    g_Dma := DmaPost (DmaMasterClear (DmaMasterClear ((g_Dma mc0)\<lparr>BusBase := base\<rparr>) 0) 1)\<rparr>"
  using assms
  by (auto simp: machine_boot_def VddBusSetSinks_def VddBusInitialize_def VddBusAdd_def VDD_MAX_DEVICES_def
      VddPicInitialize_def VddPitInitialize_def VddDmaInitialize_def VddClaimPorts_def VDD_MAX_PORT_RANGES_def
      VddClaimInterrupt_def VddOnFrame_def VDD_MAX_FRAME_SUBSCRIBERS_def Let_def slot_defs split_beta)

subsection \<open>Port accesses from the guest\<close>

primrec run_io :: "('d, 'h, 't, 'f) machine_bus \<Rightarrow> (u16 \<times> u8 \<times> bool \<times> u32) list \<Rightarrow>
  ('d, 'h, 't) vdm_machine \<Rightarrow> ('d, 'h, 't) vdm_machine" where
  "run_io bus [] mc = mc"
| "run_io bus (a # as) mc =
     (case a of (port, width, isIn, v) \<Rightarrow> run_io bus as (snd (snd (VddBusIo bus port width isIn v mc))))"

definition machine_ok :: "nat \<Rightarrow> mem \<Rightarrow> ('d, 'h, 't) vdm_machine \<Rightarrow> bool" where
  "machine_ok base ram mc \<longleftrightarrow>
     pic_ok (g_Pic mc) \<and> pit_ok (g_Pit mc) \<and> dma_settled (get_dma mc) \<and> BusBase (g_Dma mc) = base \<and> confined base ram (Ram mc)"

lemma pic_slot_keeps:
  assumes "machine_ok base ram mc"
  shows "machine_ok base ram (fst (slot_in g_Pic put_pic PicPortIn mc port width))"
    "machine_ok base ram (slot_out g_Pic put_pic PicPortOut mc port width v)"
  using assms pic_slot.slot_in_inv [of mc port width] pic_slot.slot_out_inv [of mc port width v]
  by (simp_all add: slot_defs split_beta machine_ok_def)

lemma pit_slot_keeps:
  assumes "machine_ok base ram mc"
  shows "machine_ok base ram (fst (slot_in get_pit put_pit pit_in mc port width))"
    "machine_ok base ram (slot_out get_pit put_pit pit_out mc port width v)"
  using assms pit_slot.slot_in_inv [of mc port width] pit_slot.slot_out_inv [of mc port width v]
  by (simp_all add: slot_defs split_beta machine_ok_def pit_in_def pit_out_def)

lemma dma_slot_keeps:
  assumes "machine_ok base ram mc"
  shows "machine_ok base ram (fst (slot_in get_dma put_dma (DmaPortIn asserts) mc port width))"
    "machine_ok base ram (slot_out get_dma put_dma DmaPortOut mc port width v)"
proof -
  have inv: "dma_settled (get_dma mc) \<and> BusBase (fst (get_dma mc)) = base \<and> confined base ram (snd (get_dma mc))"
    using assms by (simp add: machine_ok_def get_dma_def)
  from dma_slot.slot_in_inv [OF inv, of asserts port width] dma_slot.slot_out_inv [OF inv, of port width v]
  show "machine_ok base ram (fst (slot_in get_dma put_dma (DmaPortIn asserts) mc port width))"
    "machine_ok base ram (slot_out get_dma put_dma DmaPortOut mc port width v)"
    using assms by (simp_all add: slot_defs split_beta machine_ok_def)
qed

lemma slots_keep:
  assumes "e \<in> set (machine_ports asserts)" "machine_ok base ram mc"
  shows "PortIn e = Some f \<Longrightarrow> machine_ok base ram (fst (f mc port width))"
    and "PortOut e = Some g \<Longrightarrow> machine_ok base ram (g mc port width v)"
  using assms(1) pic_slot_keeps [OF assms(2)] pit_slot_keeps [OF assms(2)] dma_slot_keeps [OF assms(2)]
  by (auto simp: machine_ports_def pic_range_def pit_range_def dma_range_def)

lemma bus_access_keeps:
  assumes "booted bus asserts" "machine_ok base ram mc"
  shows "machine_ok base ram (snd (snd (VddBusIo bus port width isIn v mc)))"
  unfolding VddBusIo_def
  using assms slots_keep by (intro bus_io_keeps [where P = "machine_ok base ram"]) (auto simp: booted_def)
subsection \<open>What the machine promises\<close>

lemma pit_ok_post: "pit_ok s \<Longrightarrow> pit_ok (pit_post base s)"
  by (auto simp: pit_ok_def pit_post_def Let_def counter_ok_def refresh_counter_def pit_access_defs effective_mode_def)

lemma machine_boot_ok:
  fixes bus :: "('d, 'h, 't, 'f) machine_bus"
  assumes "machine_boot asserts base mc0 = (bus, mc, ok)" "pit_ok (g_Pit mc0)"
  shows "machine_ok base (Ram mc0) mc"
proof -
  have "dma_settled (DmaPost (DmaMasterClear (DmaMasterClear s 0) 1), m)" for s :: "'d dma_state" and m
    by (simp add: dma_settled_def servable_def DmaPost_def DmaMasterClear_def update_channels_def)
  moreover have "pic_ok (VddPicReset s)" for s
    by (simp add: pic_ok_def chip_ok_def VddPicReset_def PicChipReset_def Let_def)
  moreover have "BusBase (DmaPost (DmaMasterClear (DmaMasterClear (s\<lparr>BusBase := base\<rparr>) 0) 1)) = base" for s :: "'d dma_state"
    by (simp add: DmaPost_def DmaMasterClear_def)
  ultimately show ?thesis
    using machine_boot_state [OF assms(1)] pit_ok_post [OF assms(2)] by (simp add: machine_ok_def get_dma_def)
qed

text \<open>
  C8. The devices on one bus keep their promises. The three devices initialise without a failed
  claim, and after any sequence of port accesses through the bus, of any port, width and value,
  the interrupt controllers' priorities and the timer's registers are in range, no servable DMA
  request waits, and memory outside the virtual machine is as it was.
\<close>

theorem machine_ports_sound:
  fixes bus :: "('d, 'h, 't, 'f) machine_bus"
  assumes boot: "machine_boot asserts base mc0 = (bus, mc, ok)" and cold: "pit_ok (g_Pit mc0)"
    and run: "run_io bus accesses mc = mc'"
  shows "ok \<and> ClaimFailures bus = 0 \<and> pic_ok (g_Pic mc') \<and> pit_ok (g_Pit mc') \<and> dma_settled (g_Dma mc', Ram mc') \<and>
    (\<forall>a. a < base \<or> base + 0x110000 \<le> a \<longrightarrow> Ram mc' a = Ram mc0 a)"
proof -
  note bus = machine_boot_bus [OF boot]
  have "machine_ok base (Ram mc0) (run_io bus accesses t)" if "machine_ok base (Ram mc0) t" for t
    using that
  proof (induction accesses arbitrary: t)
    case (Cons a as)
    obtain port width isIn v where a: "a = (port, width, isIn, v)" by (metis surj_pair)
    have "machine_ok base (Ram mc0) (snd (snd (VddBusIo bus port width isIn v t)))"
      using bus Cons.prems by (intro bus_access_keeps [of bus asserts]) simp_all
    from Cons.IH [OF this] show ?case by (simp add: a)
  qed simp
  from this [OF machine_boot_ok [OF boot cold]] run
  have "machine_ok base (Ram mc0) mc'" by simp
  then show ?thesis using bus by (simp add: machine_ok_def booted_def get_dma_def confined_def)
qed

definition pic_ports :: "u16 \<Rightarrow> bool" where
  "pic_ports port \<longleftrightarrow> (0x20 \<le> port \<and> port \<le> 0x21) \<or> (0xA0 \<le> port \<and> port \<le> 0xA1)"

definition pit_ports :: "u16 \<Rightarrow> bool" where
  "pit_ports port \<longleftrightarrow> 0x40 \<le> port \<and> port \<le> 0x43"

definition dma_ports :: "u16 \<Rightarrow> bool" where
  "dma_ports port \<longleftrightarrow> port \<le> 0x0F \<or> (0x80 \<le> port \<and> port \<le> 0x8F) \<or> (0xC0 \<le> port \<and> port \<le> 0xDF)"

text \<open>
  Every port reaches its device and no other. On the booted bus an access to 20h-21h or
  A0h-A1h is served by the interrupt controllers, one to 40h-43h by the timer, one to 00h-0Fh,
  80h-8Fh or C0h-DFh by the DMA controllers over memory, each changing only its own part of the
  machine; any other port is nobody's and changes nothing.
\<close>

theorem machine_port_routing:
  fixes bus :: "('d, 'h, 't, 'f) machine_bus"
  assumes boot: "machine_boot asserts base mc0 = (bus, mc1, ok)"
  shows "VddBusIo bus port width isIn v mc =
    (if pic_ports port
     then if isIn then let (s, r) = PicPortIn (g_Pic mc) port width in (True, r, mc\<lparr>g_Pic := s\<rparr>)
          else (True, v, mc\<lparr>g_Pic := PicPortOut (g_Pic mc) port width v\<rparr>)
     else if pit_ports port
     then if isIn then let (s, r) = PitPortIn (g_Pit mc) port width in (True, r, mc\<lparr>g_Pit := s\<rparr>)
          else (True, v, mc\<lparr>g_Pit := PitPortOut (g_Pit mc) port width v\<rparr>)
     else if dma_ports port
     then if isIn then let ((s, m), r) = DmaPortIn asserts (g_Dma mc, Ram mc) port width in (True, r, mc\<lparr>g_Dma := s, Ram := m\<rparr>)
          else let (s, m) = DmaPortOut (g_Dma mc, Ram mc) port width v in (True, v, mc\<lparr>g_Dma := s, Ram := m\<rparr>)
     else (False, v, mc))"
proof -
  have ports: "Ports bus = machine_ports asserts" using machine_boot_bus [OF boot] by (simp add: booted_def)
  have pic: "bus_io [pic_range a b] port width isIn v mc =
      (if isIn then let (s, r) = PicPortIn (g_Pic mc) port width in (True, r, mc\<lparr>g_Pic := s\<rparr>)
       else (True, v, mc\<lparr>g_Pic := PicPortOut (g_Pic mc) port width v\<rparr>))" if "covers (pic_range a b) port" for a b isIn
    using that by (auto simp: covers_def pic_range_def slot_defs split_beta)
  have pit: "bus_io [pit_range a b] port width isIn v mc =
      (if isIn then let (s, r) = PitPortIn (g_Pit mc) port width in (True, r, mc\<lparr>g_Pit := s\<rparr>)
       else (True, v, mc\<lparr>g_Pit := PitPortOut (g_Pit mc) port width v\<rparr>))" if "covers (pit_range a b) port" for a b isIn
    using that by (auto simp: covers_def pit_range_def slot_defs pit_in_def pit_out_def split_beta)
  have dma: "bus_io [dma_range asserts a b] port width isIn v mc =
      (if isIn then let ((s, m), r) = DmaPortIn asserts (g_Dma mc, Ram mc) port width in (True, r, mc\<lparr>g_Dma := s, Ram := m\<rparr>)
       else let (s, m) = DmaPortOut (g_Dma mc, Ram mc) port width v in (True, v, mc\<lparr>g_Dma := s, Ram := m\<rparr>))"
    if "covers (dma_range asserts a b) port" for a b isIn
    using that by (auto simp: covers_def dma_range_def slot_defs split_beta)
  have which: "pic_ports port = (covers (pic_range 0x20 0x21 :: ('d, 'h, 't) vdm_machine port_entry) port \<or>
      covers (pic_range 0xA0 0xA1 :: ('d, 'h, 't) vdm_machine port_entry) port)"
    "pit_ports port = covers (pit_range 0x40 0x43 :: ('d, 'h, 't) vdm_machine port_entry) port"
    "dma_ports port = (covers (dma_range asserts 0 0x0F :: ('d, 'h, 't) vdm_machine port_entry) port \<or>
      covers (dma_range asserts 0x80 0x8F :: ('d, 'h, 't) vdm_machine port_entry) port \<or>
      covers (dma_range asserts 0xC0 0xDF :: ('d, 'h, 't) vdm_machine port_entry) port)"
    by (simp_all add: pic_ports_def pit_ports_def dma_ports_def covers_def pic_range_def pit_range_def dma_range_def)
  show ?thesis
    unfolding VddBusIo_def ports
    by (subst bus_io_find [of "machine_ports asserts"])
       (simp add: machine_ports_def which pic pit dma del: bus_io.simps)
qed

subsection \<open>A frame of the timer\<close>

definition frame_clocks :: "('h, 't) pit_state \<Rightarrow> u32" where
  \<comment> \<open>the input clocks of one frame, as \<open>PitFrame\<close> computes them\<close>
  "frame_clocks s = ucast ((PIT_INPUT_HZ * ucast (FrameMicroseconds s)) div 1000000)"

definition frame_ticks :: "('h, 't) pit_state \<Rightarrow> nat" where
  \<comment> \<open>the periods of counter 0 completed within one frame\<close>
  "frame_ticks s = (unat (Accumulator s) + unat (frame_clocks s)) div pit_period s"

lemma timer_irq_funpow:
  "(timer_irq ^^ n) mc = (if n = 0 then mc else put_pic (VddPicRaise (g_Pic mc) 0) mc)"
  by (induction n) (simp_all add: host_irq_sink_def put_pic_def VddPicRaise_def)

lemma PitFrame_ticking:
  assumes "ticking s" "unat (frame_clocks s) div pit_period s < PIT_CATCH_UP_GUARD"
  shows "PitFrame raise s m =
    (s\<lparr>TotalClocks := TotalClocks s + ucast (frame_clocks s),
       Accumulator := of_nat ((unat (Accumulator s) + unat (frame_clocks s)) mod pit_period s)\<rparr>,
     (raise ^^ frame_ticks s) m)"
proof (cases "FrameMicroseconds s = 0")
  case True
  then have zero: "frame_clocks s = 0" by (simp add: frame_clocks_def)
  then have "frame_ticks s = 0" using assms(1) by (simp add: frame_ticks_def ticking_def)
  then show ?thesis using True assms(1) by (simp add: PitFrame_def zero ticking_def)
next
  case False
  then show ?thesis
    using add_clocks_ticking [OF assms, of raise m] by (simp add: PitFrame_def frame_clocks_def frame_ticks_def)
qed

lemma VddBusFrame_booted:
  assumes "booted bus asserts" "ticking (g_Pit mc)"
    "unat (frame_clocks (g_Pit mc)) div pit_period (g_Pit mc) < PIT_CATCH_UP_GUARD"
  shows "VddBusFrame bus mc = mc\<lparr>
    g_Pic := (if frame_ticks (g_Pit mc) = 0 then g_Pic mc else VddPicRaise (g_Pic mc) 0),
    g_Pit := (g_Pit mc)\<lparr>TotalClocks := TotalClocks (g_Pit mc) + ucast (frame_clocks (g_Pit mc)),
      Accumulator := of_nat ((unat (Accumulator (g_Pit mc)) + unat (frame_clocks (g_Pit mc))) mod pit_period (g_Pit mc))\<rparr>\<rparr>"
  using assms PitFrame_ticking [OF assms(2,3), of timer_irq mc]
  by (simp add: booted_def VddBusFrame_def pit_frame_def get_pit_def put_pit_def timer_irq_funpow put_pic_def)

text \<open>
  The timer's interrupts reach the interrupt controller and coalesce. When counter 0 runs
  periodically, a frame of the bus moves the timer on by the frame's clocks and touches no other
  device; it leaves IRQ 0 requested exactly if it was requested before or a period completed within
  the frame, and however many periods completed, one acknowledge takes them all.
\<close>

theorem machine_frame_coalesces:
  fixes bus :: "('d, 'h, 't, 'f) machine_bus"
  assumes boot: "machine_boot asserts base mc0 = (bus, mc1, ok)" and periodic: "ticking (g_Pit mc)"
    and bounded: "unat (frame_clocks (g_Pit mc)) div pit_period (g_Pit mc) < PIT_CATCH_UP_GUARD"
    and frame: "VddBusFrame bus mc = mc'"
  shows "unat (Accumulator (g_Pit mc')) =
      (unat (Accumulator (g_Pit mc)) + unat (frame_clocks (g_Pit mc))) mod pit_period (g_Pit mc) \<and>
    g_Dma mc' = g_Dma mc \<and> Ram mc' = Ram mc \<and> Slave (g_Pic mc') = Slave (g_Pic mc) \<and>
    (\<forall>line. bit (Irr (Master (g_Pic mc'))) line =
       (bit (Irr (Master (g_Pic mc))) line \<or> (line = 0 \<and> 1 \<le> frame_ticks (g_Pit mc)))) \<and>
    \<not> bit (Irr (Master (VddPicAcknowledge (g_Pic mc') 0))) 0"
proof -
  note period = pit_period_bounds [of "g_Pit mc"]
  have new: "mc' = mc\<lparr>
      g_Pic := (if frame_ticks (g_Pit mc) = 0 then g_Pic mc else VddPicRaise (g_Pic mc) 0),
      g_Pit := (g_Pit mc)\<lparr>TotalClocks := TotalClocks (g_Pit mc) + ucast (frame_clocks (g_Pit mc)),
        Accumulator := of_nat ((unat (Accumulator (g_Pit mc)) + unat (frame_clocks (g_Pit mc))) mod pit_period (g_Pit mc))\<rparr>\<rparr>"
    using VddBusFrame_booted [OF _ periodic bounded, of bus asserts] machine_boot_bus [OF boot] frame by simp
  have rem: "unat (of_nat (k mod pit_period (g_Pit mc)) :: u64) = k mod pit_period (g_Pit mc)" for k
    using period by (intro unat_of_nat_small) (auto intro: order_less_trans [OF mod_less_divisor])
  have "bit (Irr (Master (g_Pic mc'))) line =
       (bit (Irr (Master (g_Pic mc))) line \<or> (line = 0 \<and> 1 \<le> frame_ticks (g_Pit mc)))" for line
    by (auto simp: new VddPicRaise_def bit_or_iff bit_1_iff)
  moreover have "\<not> bit (Irr (Master (VddPicAcknowledge (g_Pic mc') 0))) 0"
    by (simp add: VddPicAcknowledge_def PicAcknowledgeLine_def PicInterruptAcknowledge_def bit_0 even_and_iff)
  ultimately show ?thesis by (simp add: new rem VddPicRaise_def)
qed

subsection \<open>Instances\<close>

definition zero_chip :: pic_chip where
  "zero_chip = \<lparr>Imr = 0, Irr = 0, Isr = 0, VectorBase = 0, IcwStep = Running, IsIcw4Needed = False,
     IsIsrSelected = False, IsAutoEoi = False, IsPollArmed = False, LowestPriority = 7,
     IsRotateInAutoEoi = False, IsSpecialMaskMode = False, IsSpecialFullyNested = False\<rparr>"

definition zero_machine :: "(unit, unit, unit) vdm_machine" where
  "zero_machine = \<lparr>g_Pic = \<lparr>Master = zero_chip, Slave = zero_chip\<rparr>, g_Pit = zero_pit,
     g_Dma = \<lparr>BusBase = 0, Channels = (\<lambda>_. zero_channel), FlipFlop = (\<lambda>_. False), SparePage = (\<lambda>_. 0),
       Command = (\<lambda>_. 0), Request = (\<lambda>_. 0), Temporary = (\<lambda>_. 0), SoftwareRuns = 0, MemoryToMemoryRuns = 0,
       DreqLines = [], AddressReads = (\<lambda>_. 0), ChannelCountReads = (\<lambda>_. 0), CountReads = 0,
       StatusReads = (\<lambda>_. 0), CountReadsByte = 0, CountReadsWord = 0, CountReadsDword = 0\<rparr>,
     Ram = (\<lambda>_. 0)\<rparr>"

definition zero_boot :: "(unit, unit, unit, unit) machine_bus \<times> (unit, unit, unit) vdm_machine \<times> bool" where
  "zero_boot = machine_boot (\<lambda>_. 0) 0 zero_machine"

theorem machine_ports_sound_witness:
  "pit_ok (g_Pit (run_io (fst zero_boot) [(0x43, 1, False, 0x36), (0x40, 1, False, 0x10)] (fst (snd zero_boot))))"
proof -
  let ?as = "[(0x43, 1, False, 0x36), (0x40, 1, False, 0x10)]"
  obtain bus mc ok where boot: "machine_boot (\<lambda>_. 0) 0 zero_machine = (bus, mc, ok)" and z: "zero_boot = (bus, mc, ok)"
    by (metis surj_pair zero_boot_def)
  have cold: "pit_ok (g_Pit zero_machine)"
    by (simp add: zero_machine_def zero_pit_def zero_counter_def pit_ok_def counter_ok_def effective_mode_def)
  from machine_ports_sound [OF boot cold refl, of ?as] show ?thesis by (simp add: z)
qed

theorem machine_port_routing_witness:
  "fst (snd (VddBusIo (fst zero_boot) 0x21 1 True 7 zero_machine)) = 0 \<and>
   VddBusIo (fst zero_boot) 0x300 1 True 7 zero_machine = (False, 7, zero_machine)"
proof -
  obtain bus mc ok where boot: "machine_boot (\<lambda>_. 0) 0 zero_machine = (bus, mc, ok)" and z: "zero_boot = (bus, mc, ok)"
    by (metis surj_pair zero_boot_def)
  from machine_port_routing [OF boot, of "0x21" 1 True 7 zero_machine]
    machine_port_routing [OF boot, of "0x300" 1 True 7 zero_machine]
  show ?thesis
    by (simp add: z pic_ports_def pit_ports_def dma_ports_def PicPortIn_def zero_machine_def zero_chip_def)
qed

theorem machine_frame_coalesces_witness:
  "bit (Irr (Master (g_Pic (VddBusFrame (fst zero_boot)
     (zero_machine\<lparr>g_Pit := zero_pit\<lparr>Mode0 := 2, FrameMicroseconds := 200000\<rparr>\<rparr>))))) 0"
proof -
  let ?mc = "zero_machine\<lparr>g_Pit := zero_pit\<lparr>Mode0 := 2, FrameMicroseconds := 200000\<rparr>\<rparr>"
  obtain bus mc ok where boot: "machine_boot (\<lambda>_. 0) 0 zero_machine = (bus, mc, ok)" and z: "zero_boot = (bus, mc, ok)"
    by (metis surj_pair zero_boot_def)
  have period: "pit_period (g_Pit ?mc) = 65536"
    by (simp add: pit_period_def VddPitEffectiveReload_def zero_pit_def PitWrap_def PIT_BINARY_WRAP_def)
  have clocks: "frame_clocks (g_Pit ?mc) = 238636"
    by (simp add: frame_clocks_def PIT_INPUT_HZ_def)
  have periodic: "ticking (g_Pit ?mc)" using period by (simp add: ticking_def zero_pit_def)
  have bounded: "unat (frame_clocks (g_Pit ?mc)) div pit_period (g_Pit ?mc) < PIT_CATCH_UP_GUARD"
    unfolding period clocks by (simp add: PIT_CATCH_UP_GUARD_def)
  have ticks: "1 \<le> frame_ticks (g_Pit ?mc)"
    unfolding frame_ticks_def period clocks by (simp add: zero_pit_def)
  from machine_frame_coalesces [OF boot periodic bounded refl] ticks show ?thesis by (simp add: z)
qed

end
