(* ===== verification/Cmos_Rtc.thy ===== *)
theory Cmos_Rtc
  imports Pit_8254
begin

text \<open>
  The MC146818 real-time clock and CMOS memory, \<^verbatim>\<open>src/vdd/vdd_cmos.c\<close>: clock registers derived
  from the host's reading, the alarm, the periodic and once-a-second interrupts, the SET bit's
  frozen copy, battery-backed memory, and what POST leaves. The host's clock hooks are functions
  on a host context, as for the timer; raising IRQ 8 is a function on the machine.
\<close>

subsection \<open>State\<close>

record 'h cmos_state =
  Bus :: bool \<comment> \<open>whether the bus pointer is set\<close>
  Index :: u8
  IsNmiDisabled :: bool
  NmiMaskWrites :: u32
  Ram :: "nat \<Rightarrow> u8"
  StatusA :: u8
  StatusB :: u8
  StatusC :: u8
  PeriodicAccumulator :: u64
  PeriodicRaised :: u32
  SecondAccumulator :: u64
  UpdateEndedRaised :: u32
  AlarmRaised :: u32
  RtcNow :: "('h \<Rightarrow> pit_rtc_reading \<Rightarrow> pit_rtc_reading) option"
  RtcContext :: 'h
  RtcSet :: "('h \<Rightarrow> pit_rtc_reading \<Rightarrow> bool \<Rightarrow> 'h \<times> bool) option" \<comment> \<open>the flag says a date is set\<close>
  IsSetHeld :: bool
  Shadow :: pit_rtc_reading
  BaseKb :: u16

definition CMOS_SECONDS :: u8 where "CMOS_SECONDS = 0x00"
definition CMOS_SECONDS_ALARM :: u8 where "CMOS_SECONDS_ALARM = 0x01"
definition CMOS_MINUTES :: u8 where "CMOS_MINUTES = 0x02"
definition CMOS_MINUTES_ALARM :: u8 where "CMOS_MINUTES_ALARM = 0x03"
definition CMOS_HOURS :: u8 where "CMOS_HOURS = 0x04"
definition CMOS_HOURS_ALARM :: u8 where "CMOS_HOURS_ALARM = 0x05"
definition CMOS_DAY_OF_WEEK :: u8 where "CMOS_DAY_OF_WEEK = 0x06"
definition CMOS_DAY_OF_MONTH :: u8 where "CMOS_DAY_OF_MONTH = 0x07"
definition CMOS_MONTH :: u8 where "CMOS_MONTH = 0x08"
definition CMOS_YEAR :: u8 where "CMOS_YEAR = 0x09"
definition CMOS_STATUS_A :: u8 where "CMOS_STATUS_A = 0x0A"
definition CMOS_STATUS_B :: u8 where "CMOS_STATUS_B = 0x0B"
definition CMOS_STATUS_C :: u8 where "CMOS_STATUS_C = 0x0C"
definition CMOS_STATUS_D :: u8 where "CMOS_STATUS_D = 0x0D"
definition CMOS_CENTURY :: u8 where "CMOS_CENTURY = 0x32"
definition CMOS_EXTENDED_KB :: u16 where "CMOS_EXTENDED_KB = 0x3C00"

definition CMOS_B_SET :: u8 where "CMOS_B_SET = 0x80"
definition CMOS_B_PIE :: u8 where "CMOS_B_PIE = 0x40"
definition CMOS_B_AIE :: u8 where "CMOS_B_AIE = 0x20"
definition CMOS_B_UIE :: u8 where "CMOS_B_UIE = 0x10"
definition CMOS_B_BINARY :: u8 where "CMOS_B_BINARY = 0x04"
definition CMOS_B_24_HOUR :: u8 where "CMOS_B_24_HOUR = 0x02"
definition CMOS_C_IRQF :: u8 where "CMOS_C_IRQF = 0x80"
definition CMOS_C_PF_AND_IRQF :: u8 where "CMOS_C_PF_AND_IRQF = 0xC0"
definition CMOS_C_AF :: u8 where "CMOS_C_AF = 0x20"
definition CMOS_C_UF :: u8 where "CMOS_C_UF = 0x10"
definition CMOS_D_VRT :: u8 where "CMOS_D_VRT = 0x80"
definition CMOS_ALARM_DONT_CARE :: u8 where "CMOS_ALARM_DONT_CARE = 0xC0"
definition CMOS_HOUR_PM_BIT :: u8 where "CMOS_HOUR_PM_BIT = 0x80"
definition CMOS_SECOND_EDGE_GUARD :: nat where "CMOS_SECOND_EDGE_GUARD = 1000"
definition CMOS_PERIODIC_GUARD :: nat where "CMOS_PERIODIC_GUARD = 100000"

lemmas cmos_registers = CMOS_SECONDS_def CMOS_SECONDS_ALARM_def CMOS_MINUTES_def CMOS_MINUTES_ALARM_def CMOS_HOURS_def
  CMOS_HOURS_ALARM_def CMOS_DAY_OF_WEEK_def CMOS_DAY_OF_MONTH_def CMOS_MONTH_def CMOS_YEAR_def CMOS_STATUS_A_def
  CMOS_STATUS_B_def CMOS_STATUS_C_def CMOS_STATUS_D_def CMOS_CENTURY_def
lemmas cmos_bits = CMOS_B_SET_def CMOS_B_PIE_def CMOS_B_AIE_def CMOS_B_UIE_def CMOS_B_BINARY_def CMOS_B_24_HOUR_def
  CMOS_C_IRQF_def CMOS_C_PF_AND_IRQF_def CMOS_C_AF_def CMOS_C_UF_def

definition enabled :: "u8 \<Rightarrow> u8 \<Rightarrow> bool" where
  "enabled status bits \<longleftrightarrow> status AND bits \<noteq> 0"

subsection \<open>The clock registers\<close>

definition CmosToBcd :: "u32 \<Rightarrow> u8" where
  "CmosToBcd v = ucast (((v div 10) mod 10) * 16 + v mod 10)"

definition CmosClockValue :: "'h cmos_state \<Rightarrow> u32 \<Rightarrow> u8" where
  "CmosClockValue s v = (if enabled (StatusB s) CMOS_B_BINARY then ucast v else CmosToBcd v)"

definition CmosClockDecode :: "'h cmos_state \<Rightarrow> u8 \<Rightarrow> u32" where
  "CmosClockDecode s v =
     (if enabled (StatusB s) CMOS_B_BINARY then ucast v else ucast (drop_bit 4 v) * 10 + ucast (v AND 0x0F))"

definition CmosReading :: "'h cmos_state \<Rightarrow> pit_rtc_reading option" where
  "CmosReading s =
     (if IsSetHeld s then Some (Shadow s)
      else case RtcNow s of
             None \<Rightarrow> None
           | Some now \<Rightarrow> Some (now (RtcContext s)
               \<lparr>Century = 20, Year = 0, Month = 1, Day = 1, Hour = 0, Minute = 0, Second = 0, DayOfWeek = 0\<rparr>))"

definition VddCmosPeriodicHz :: "'h cmos_state \<Rightarrow> u32" where
  "VddCmosPeriodicHz s =
     (let rateSelect = ucast (StatusA s AND 0x0F) :: u32
      in if rateSelect = 0 then 0 else if rateSelect = 1 then 256 else if rateSelect = 2 then 128
         else drop_bit (unat (rateSelect - 1)) 32768)"

definition CmosAlarmFieldMatches :: "u8 \<Rightarrow> u8 \<Rightarrow> bool" where
  "CmosAlarmFieldMatches alarm current \<longleftrightarrow> alarm AND CMOS_ALARM_DONT_CARE = CMOS_ALARM_DONT_CARE \<or> alarm = current"

definition hours_register :: "'h cmos_state \<Rightarrow> u32 \<Rightarrow> u8" where
  \<comment> \<open>the case of \<open>CMOS_HOURS\<close>\<close>
  "hours_register s hour =
     (if enabled (StatusB s) CMOS_B_24_HOUR then CmosClockValue s hour
      else CmosClockValue s (if hour mod 12 = 0 then 12 else hour mod 12) OR (if hour \<ge> 12 then CMOS_HOUR_PM_BIT else 0))"

definition CmosClockRegister :: "'h cmos_state \<Rightarrow> u8 \<Rightarrow> u8 option" where
  \<comment> \<open>\<open>None\<close> is the answer "not a clock register"\<close>
  "CmosClockRegister s i =
     (case CmosReading s of None \<Rightarrow> None
      | Some reading \<Rightarrow>
          if i = CMOS_SECONDS then Some (CmosClockValue s (Second reading))
          else if i = CMOS_MINUTES then Some (CmosClockValue s (Minute reading))
          else if i = CMOS_HOURS then Some (hours_register s (Hour reading))
          else if i = CMOS_DAY_OF_MONTH then Some (CmosClockValue s (Day reading))
          else if i = CMOS_MONTH then Some (CmosClockValue s (Month reading))
          else if i = CMOS_YEAR then Some (CmosClockValue s (Year reading))
          else if i = CMOS_CENTURY then Some (CmosClockValue s (Century reading))
          else if i = CMOS_DAY_OF_WEEK
          then if DayOfWeek reading = 0 then None else Some (CmosClockValue s (DayOfWeek reading))
          else None)"

subsection \<open>Time passing\<close>

definition alarm_matches :: "'h cmos_state \<Rightarrow> bool" where
  "alarm_matches s =
     (case (CmosClockRegister s CMOS_SECONDS, CmosClockRegister s CMOS_MINUTES, CmosClockRegister s CMOS_HOURS) of
        (Some seconds, Some minutes, Some hours) \<Rightarrow>
          CmosAlarmFieldMatches (Ram s (unat CMOS_SECONDS_ALARM)) seconds \<and>
          CmosAlarmFieldMatches (Ram s (unat CMOS_MINUTES_ALARM)) minutes \<and>
          CmosAlarmFieldMatches (Ram s (unat CMOS_HOURS_ALARM)) hours
      | _ \<Rightarrow> False)"

definition CmosSecondEdge :: "'h cmos_state \<Rightarrow> 'h cmos_state \<times> bool" where
  "CmosSecondEdge s =
     (if IsSetHeld s then (s, False)
      else let updated = enabled (StatusB s) CMOS_B_UIE;
               s1 = (if updated then s\<lparr>StatusC := StatusC s OR CMOS_C_UF, UpdateEndedRaised := UpdateEndedRaised s + 1\<rparr> else s);
               alarmed = (enabled (StatusB s1) CMOS_B_AIE \<and> alarm_matches s1)
           in (if alarmed then s1\<lparr>StatusC := StatusC s1 OR CMOS_C_AF, AlarmRaised := AlarmRaised s1 + 1\<rparr> else s1,
               updated \<or> alarmed))"

primrec second_edges :: "nat \<Rightarrow> ('m \<Rightarrow> 'm) \<Rightarrow> 'h cmos_state \<Rightarrow> 'm \<Rightarrow> 'h cmos_state \<times> 'm" where
  "second_edges 0 raise s m = (s, m)"
| "second_edges (Suc turns) raise s m =
     (if SecondAccumulator s < PIT_INPUT_HZ then (s, m)
      else let (s1, hasFired) = CmosSecondEdge (s\<lparr>SecondAccumulator := SecondAccumulator s - PIT_INPUT_HZ\<rparr>)
           in if hasFired
              then second_edges turns raise (s1\<lparr>StatusC := StatusC s1 OR CMOS_C_IRQF\<rparr>) (if Bus s1 then raise m else m)
              else second_edges turns raise s1 m)"

primrec periodic_ticks :: "nat \<Rightarrow> ('m \<Rightarrow> 'm) \<Rightarrow> u32 \<Rightarrow> 'h cmos_state \<Rightarrow> 'm \<Rightarrow> 'h cmos_state \<times> 'm" where
  "periodic_ticks 0 raise period s m = (s, m)"
| "periodic_ticks (Suc turns) raise period s m =
     (if PeriodicAccumulator s < ucast period then (s, m)
      else periodic_ticks turns raise period
             (s\<lparr>PeriodicAccumulator := PeriodicAccumulator s - ucast period, StatusC := StatusC s OR CMOS_C_PF_AND_IRQF,
                PeriodicRaised := PeriodicRaised s + 1\<rparr>)
             (if Bus s then raise m else m))"

definition VddCmosAddClocks :: "('m \<Rightarrow> 'm) \<Rightarrow> 'h cmos_state \<Rightarrow> u32 \<Rightarrow> 'm \<Rightarrow> 'h cmos_state \<times> 'm" where
  "VddCmosAddClocks raise s clocks m =
     (let (s1, m1) = (if enabled (StatusB s) (CMOS_B_UIE OR CMOS_B_AIE)
                      then second_edges CMOS_SECOND_EDGE_GUARD raise
                             (s\<lparr>SecondAccumulator := SecondAccumulator s + ucast clocks\<rparr>) m
                      else (s\<lparr>SecondAccumulator := 0\<rparr>, m))
      in if \<not> enabled (StatusB s1) CMOS_B_PIE then (s1\<lparr>PeriodicAccumulator := 0\<rparr>, m1)
         else let rateHz = VddCmosPeriodicHz s1
              in if rateHz = 0 then (s1\<lparr>PeriodicAccumulator := 0\<rparr>, m1)
                 else let period = ucast PIT_INPUT_HZ div rateHz
                      in if period = 0 then (s1, m1)
                         else periodic_ticks CMOS_PERIODIC_GUARD raise period
                                (s1\<lparr>PeriodicAccumulator := PeriodicAccumulator s1 + ucast clocks\<rparr>) m1)"

subsection \<open>The ports\<close>

definition CmosRead :: "'h cmos_state \<Rightarrow> u8 \<Rightarrow> 'h cmos_state \<times> u8" where
  "CmosRead s i =
     (case CmosClockRegister s i of Some v \<Rightarrow> (s, v)
      | None \<Rightarrow>
          if i = CMOS_STATUS_A then (s, StatusA s)
          else if i = CMOS_STATUS_B then (s, StatusB s)
          else if i = CMOS_STATUS_C then (s\<lparr>StatusC := 0\<rparr>, StatusC s)
          else if i = CMOS_STATUS_D then (s, CMOS_D_VRT)
          else (s, Ram s (unat (i AND 0x7F))))"

definition write_status_b :: "'h cmos_state \<Rightarrow> u8 \<Rightarrow> 'h cmos_state" where
  "write_status_b s v =
     (let (s1, v1) =
        (if enabled v CMOS_B_SET \<and> \<not> IsSetHeld s
         then (case CmosReading s of Some reading \<Rightarrow> s\<lparr>Shadow := reading, IsSetHeld := True\<rparr> | None \<Rightarrow> s, v AND NOT CMOS_B_UIE)
         else if \<not> enabled v CMOS_B_SET \<and> IsSetHeld s
         then let s' = s\<lparr>IsSetHeld := False\<rparr>
              in (case RtcSet s' of
                    None \<Rightarrow> s'
                  | Some set_clock \<Rightarrow>
                      let h1 = fst (set_clock (RtcContext s') (Shadow s') True);
                          h2 = fst (set_clock h1 (Shadow s') False)
                      in s'\<lparr>RtcContext := h2\<rparr>, v)
         else (s, v));
        s2 = s1\<lparr>StatusB := v1\<rparr>
      in if \<not> enabled v1 CMOS_B_PIE then s2\<lparr>PeriodicAccumulator := 0\<rparr> else s2)"

definition decode_hours :: "'h cmos_state \<Rightarrow> u8 \<Rightarrow> u32" where
  "decode_hours s v =
     (if enabled (StatusB s) CMOS_B_24_HOUR then CmosClockDecode s v
      else CmosClockDecode s (v AND 0x7F) mod 12 + (if v AND CMOS_HOUR_PM_BIT \<noteq> 0 then 12 else 0))"

definition set_field :: "'h cmos_state \<Rightarrow> u8 \<Rightarrow> pit_rtc_reading \<Rightarrow> pit_rtc_reading" where
  \<comment> \<open>the reading with the field of the selected register replaced\<close>
  "set_field s v reading =
     (if Index s = CMOS_SECONDS then reading\<lparr>Second := CmosClockDecode s v\<rparr>
      else if Index s = CMOS_MINUTES then reading\<lparr>Minute := CmosClockDecode s v\<rparr>
      else if Index s = CMOS_HOURS then reading\<lparr>Hour := decode_hours s v\<rparr>
      else if Index s = CMOS_DAY_OF_MONTH then reading\<lparr>Day := CmosClockDecode s v\<rparr>
      else if Index s = CMOS_MONTH then reading\<lparr>Month := CmosClockDecode s v\<rparr>
      else if Index s = CMOS_YEAR then reading\<lparr>Year := CmosClockDecode s v\<rparr>
      else reading\<lparr>Century := CmosClockDecode s v\<rparr>)"

definition write_clock :: "'h cmos_state \<Rightarrow> u8 \<Rightarrow> 'h cmos_state" where
  "write_clock s v =
     (case (RtcSet s, CmosReading s) of
        (Some set_clock, Some reading) \<Rightarrow>
          let reading' = set_field s v reading
          in if IsSetHeld s then s\<lparr>Shadow := reading'\<rparr>
             else s\<lparr>RtcContext := fst (set_clock (RtcContext s) reading' (Index s \<ge> CMOS_DAY_OF_MONTH))\<rparr>
      | _ \<Rightarrow> s)"

definition CmosPortOut :: "'h cmos_state \<Rightarrow> u16 \<Rightarrow> u8 \<Rightarrow> u32 \<Rightarrow> 'h cmos_state" where
  "CmosPortOut s port width v32 =
     (let v = ucast v32 :: u8
      in if port = 0x70
         then (if v AND 0x80 \<noteq> 0 then s\<lparr>NmiMaskWrites := NmiMaskWrites s + 1\<rparr> else s)
                \<lparr>IsNmiDisabled := v AND 0x80 \<noteq> 0, Index := v AND 0x7F\<rparr>
         else if Index s = CMOS_STATUS_A then s\<lparr>StatusA := v AND 0x7F\<rparr>
         else if Index s = CMOS_STATUS_B then write_status_b s v
         else if Index s = CMOS_SECONDS_ALARM \<or> Index s = CMOS_MINUTES_ALARM \<or> Index s = CMOS_HOURS_ALARM
         then s\<lparr>Ram := (Ram s)(unat (Index s) := v)\<rparr>
         else if Index s = CMOS_SECONDS \<or> Index s = CMOS_MINUTES \<or> Index s = CMOS_HOURS \<or>
                 Index s = CMOS_DAY_OF_MONTH \<or> Index s = CMOS_MONTH \<or> Index s = CMOS_YEAR \<or> Index s = CMOS_CENTURY
         then write_clock s v
         else if Index s \<le> CMOS_STATUS_D then s
         else s\<lparr>Ram := (Ram s)(unat (Index s AND 0x7F) := v)\<rparr>)"

definition CmosPortIn :: "'h cmos_state \<Rightarrow> u16 \<Rightarrow> u8 \<Rightarrow> 'h cmos_state \<times> u32" where
  "CmosPortIn s port width =
     (if port = 0x70 then (s, 0xFF) else let (s1, v) = CmosRead s (Index s) in (s1, ucast v))"

subsection \<open>Power-on\<close>

definition zero_reading :: pit_rtc_reading where
  "zero_reading = \<lparr>Century = 0, Year = 0, Month = 0, Day = 0, Hour = 0, Minute = 0, Second = 0, DayOfWeek = 0\<rparr>"

definition checksum :: "(nat \<Rightarrow> u8) \<Rightarrow> u32" where
  \<comment> \<open>the loop over 10h to 2Dh\<close>
  "checksum ram = fold (\<lambda>i sum. sum + ucast (ram i)) [0x10..<0x2E] 0"

definition post_ram :: "u16 \<Rightarrow> nat \<Rightarrow> u8" where
  \<comment> \<open>what POST leaves in the memory, before the checksum\<close>
  "post_ram baseKb =
     (let base = (if baseKb \<noteq> 0 then baseKb else 640)
      in ((\<lambda>_. 0)(0x06 := 0x01, 0x0E := 0x00, 0x10 := 0x40, 0x14 := 0x25, 0x15 := ucast (base AND 0xFF),
           0x16 := ucast (drop_bit 8 base), 0x17 := ucast (CMOS_EXTENDED_KB AND 0xFF),
           0x18 := ucast (drop_bit 8 CMOS_EXTENDED_KB), 0x30 := ucast (CMOS_EXTENDED_KB AND 0xFF),
           0x31 := ucast (drop_bit 8 CMOS_EXTENDED_KB))))"

definition VddCmosReset :: "'h cmos_state \<Rightarrow> 'h cmos_state" where
  "VddCmosReset s =
     (let ram = post_ram (BaseKb s); sum = checksum ram
      in \<lparr>Bus = Bus s, Index = 0, IsNmiDisabled = False, NmiMaskWrites = 0,
          Ram = ram(0x2E := ucast (drop_bit 8 sum), 0x2F := ucast (sum AND 0xFF)),
          StatusA = 0x26, StatusB = 0x02, StatusC = 0, PeriodicAccumulator = 0, PeriodicRaised = 0, SecondAccumulator = 0,
          UpdateEndedRaised = 0, AlarmRaised = 0, RtcNow = RtcNow s, RtcContext = RtcContext s, RtcSet = RtcSet s,
          IsSetHeld = False, Shadow = zero_reading, BaseKb = BaseKb s\<rparr>)"

definition VddCmosInitialize ::
  "('m \<Rightarrow> 'h cmos_state) \<Rightarrow> ('h cmos_state \<Rightarrow> 'm \<Rightarrow> 'm) \<Rightarrow> ('m, 'r, 'f) vdd_bus \<Rightarrow> 'm \<Rightarrow> ('m, 'r, 'f) vdd_bus \<times> 'm \<times> bool" where
  "VddCmosInitialize get put bus machine =
     (let s = (get machine)\<lparr>Bus := True\<rparr>; s1 = (if Ram s 0x14 = 0 then VddCmosReset s else s);
          (bus1, ok) = VddClaimPorts bus 0x70 0x71 (Some (slot_in get put CmosPortIn)) (Some (slot_out get put CmosPortOut))
      in (bus1, put (s1\<lparr>Bus := True\<rparr>) machine, ok))"

end
