(* ===== verification/Cmos_Contract.thy ===== *)
theory Cmos_Contract
  imports Cmos_Rtc Pit_Services
begin

text \<open>
  What the clock chip promises: the BIOS clock services and its registers show one clock, a time
  written under the SET bit reaches the host in one step, the periodic interrupt keeps its rate,
  software never finds the chip busy, and what is written to its memory is read back.
\<close>

subsection \<open>Accesses through the index port\<close>

definition cmos_in :: "u8 \<Rightarrow> 'h cmos_state \<Rightarrow> u8" where
  "cmos_in i s = ucast (snd (CmosPortIn (CmosPortOut s 0x70 1 (ucast i)) 0x71 1))"

definition cmos_out :: "u8 \<Rightarrow> u8 \<Rightarrow> 'h cmos_state \<Rightarrow> 'h cmos_state" where
  "cmos_out i v s = CmosPortOut (CmosPortOut s 0x70 1 (ucast i)) 0x71 1 (ucast v)"

lemma select_index:
  "CmosPortOut s 0x70 1 (ucast i) =
    s\<lparr>NmiMaskWrites := (if i AND 0x80 \<noteq> 0 then NmiMaskWrites s + 1 else NmiMaskWrites s),
      IsNmiDisabled := i AND 0x80 \<noteq> 0, Index := i AND 0x7F\<rparr>"
  by (simp add: CmosPortOut_def)

lemma index_mask: "i < 0x80 \<Longrightarrow> i AND 0x7F = (i :: u8)"
proof -
  assume "i < 0x80"
  then have "unat (take_bit 7 i) = unat i"
    by (simp add: unsigned_take_bit_eq take_bit_nat_eq_self word_less_nat_alt)
  moreover have "(0x7F :: u8) = mask 7" by (simp add: mask_eq_exp_minus_1)
  then have "i AND 0x7F = take_bit 7 i" by (simp only: take_bit_eq_mask)
  ultimately show ?thesis by (simp only: word_unat_eq_iff)
qed

lemma CmosReading_frame [simp]:
  "CmosReading (s\<lparr>NmiMaskWrites := a\<rparr>) = CmosReading s" "CmosReading (s\<lparr>IsNmiDisabled := b\<rparr>) = CmosReading s"
  "CmosReading (s\<lparr>Index := i\<rparr>) = CmosReading s"
  by (simp_all add: CmosReading_def split: option.split)

lemma CmosClock_frame [simp]:
  "CmosClockValue (s\<lparr>NmiMaskWrites := a\<rparr>) = CmosClockValue s" "CmosClockDecode (s\<lparr>NmiMaskWrites := a\<rparr>) = CmosClockDecode s"
  "CmosClockValue (s\<lparr>IsNmiDisabled := b\<rparr>) = CmosClockValue s" "CmosClockDecode (s\<lparr>IsNmiDisabled := b\<rparr>) = CmosClockDecode s"
  "CmosClockValue (s\<lparr>Index := i\<rparr>) = CmosClockValue s" "CmosClockDecode (s\<lparr>Index := i\<rparr>) = CmosClockDecode s"
  "hours_register (s\<lparr>NmiMaskWrites := a\<rparr>) = hours_register s" "decode_hours (s\<lparr>NmiMaskWrites := a\<rparr>) = decode_hours s"
  "hours_register (s\<lparr>IsNmiDisabled := b\<rparr>) = hours_register s" "decode_hours (s\<lparr>IsNmiDisabled := b\<rparr>) = decode_hours s"
  "hours_register (s\<lparr>Index := i\<rparr>) = hours_register s" "decode_hours (s\<lparr>Index := i\<rparr>) = decode_hours s"
  by (rule ext, simp add: CmosClockValue_def CmosClockDecode_def hours_register_def decode_hours_def)+

lemma CmosClockRegister_frame [simp]:
  "CmosClockRegister (s\<lparr>NmiMaskWrites := a\<rparr>) = CmosClockRegister s"
  "CmosClockRegister (s\<lparr>IsNmiDisabled := b\<rparr>) = CmosClockRegister s"
  "CmosClockRegister (s\<lparr>Index := i\<rparr>) = CmosClockRegister s"
  by (rule ext, simp add: CmosClockRegister_def split: option.split)+

lemma cmos_in_clock:
  assumes "i < 0x80" "CmosClockRegister s i = Some v"
  shows "cmos_in i s = v"
  using assms by (simp add: cmos_in_def select_index CmosPortIn_def CmosRead_def index_mask)

subsection \<open>One clock, two doors\<close>

lemma byte_pair:
  fixes a b :: u32
  assumes "unat b < 256"
  shows "(ucast (push_bit 8 a OR b) :: u16) = push_bit 8 (ucast (ucast a :: u8)) OR ucast (ucast b :: u8)"
proof (rule bit_word_eqI)
  fix n :: nat
  assume n: "n < LENGTH(16)"
  have "bit (take_bit 8 (unat b)) n = bit (unat b) n" using assms by (simp add: take_bit_nat_eq_self)
  then have "bit b n \<longleftrightarrow> bit b n \<and> n < 8" by (auto simp: bit_take_bit_iff bit_unsigned_iff)
  then show "bit (ucast (push_bit 8 a OR b) :: u16) n = bit (push_bit 8 (ucast (ucast a :: u8)) OR ucast (ucast b :: u8) :: u16) n"
    using n by (auto simp: bit_simps)
qed

lemma unat_bcd: "unat (PitToBcdByte v) < 256"
proof -
  have "unat ((v div 10) mod 10) \<le> 9" "unat (v mod 10) \<le> 9"
    using unat_mod [of "v div 10" 10] unat_mod [of v 10] by simp_all
  moreover from this have "unat ((v div 10) mod 10 * 16) = unat ((v div 10) mod 10) * 16"
    by (simp add: unat_word_ariths)
  ultimately show ?thesis by (simp add: PitToBcdByte_def unat_word_ariths)
qed

lemma bcd_pair:
  "(ucast (push_bit 8 (PitToBcdByte a) OR PitToBcdByte b) :: u16) = push_bit 8 (ucast (CmosToBcd a)) OR ucast (CmosToBcd b)"
  using byte_pair [OF unat_bcd, of "PitToBcdByte a" b] by (simp add: CmosToBcd_def PitToBcdByte_def)

lemma bcd_high: "(ucast (push_bit 8 (PitToBcdByte a)) :: u16) = push_bit 8 (ucast (CmosToBcd a))"
  using byte_pair [of 0 "PitToBcdByte a"] by (simp add: CmosToBcd_def PitToBcdByte_def)

lemma VddGet_carry [simp]:
  "VddGetCx (registers\<lparr>CarryFlag := b\<rparr>) = VddGetCx registers" "VddGetDx (registers\<lparr>CarryFlag := b\<rparr>) = VddGetDx registers"
  by (simp_all add: VddGetCx_def VddGetDx_def)

definition same_clock :: "('h, 't) pit_state \<Rightarrow> 'h cmos_state \<Rightarrow> bool" where
  \<comment> \<open>the host gave both devices one clock\<close>
  "same_clock p c \<longleftrightarrow> pit_state.RtcNow p \<noteq> None \<and> cmos_state.RtcNow c = pit_state.RtcNow p \<and>
     cmos_state.RtcContext c = pit_state.RtcContext p"

text \<open>
  C29. The two doors onto the clock agree. With the host's clock behind both devices and the chip
  as POST leaves it (BCD, 24-hour, SET low), INT 1Ah function 02h returns in CX and DX what the
  chip's hours, minutes and seconds registers show, and function 04h what its century, year,
  month and day registers show.
\<close>

theorem cmos_two_doors:
  assumes clock: "same_clock p c" and mode: "\<not> enabled (StatusB c) CMOS_B_BINARY" "enabled (StatusB c) CMOS_B_24_HOUR"
    and free: "\<not> IsSetHeld c" and ah: "VddGetAh registers = (if date then 0x04 else 0x02)"
    and call: "PitInt1A (p, m) registers = (sm, r)"
  shows "\<not> CarryFlag r \<and> sm = (p, m) \<and>
    VddGetCx r = (if date then push_bit 8 (ucast (cmos_in CMOS_CENTURY c)) OR ucast (cmos_in CMOS_YEAR c)
                  else push_bit 8 (ucast (cmos_in CMOS_HOURS c)) OR ucast (cmos_in CMOS_MINUTES c)) \<and>
    VddGetDx r = (if date then push_bit 8 (ucast (cmos_in CMOS_MONTH c)) OR ucast (cmos_in CMOS_DAY_OF_MONTH c)
                  else push_bit 8 (ucast (cmos_in CMOS_SECONDS c)))"
proof -
  obtain now where now: "pit_state.RtcNow p = Some now" using clock by (auto simp: same_clock_def)
  define reading where "reading = now (pit_state.RtcContext p)
    \<lparr>Century = 20, Year = 0, Month = 1, Day = 1, Hour = 0, Minute = 0, Second = 0, DayOfWeek = 0\<rparr>"
  have rtc: "PitRtc p = Some reading" by (simp add: PitRtc_def now reading_def)
  have cr: "CmosReading c = Some reading"
    using clock free now by (simp add: CmosReading_def same_clock_def reading_def)
  have v: "CmosClockValue c x = CmosToBcd x" "hours_register c x = CmosToBcd x" for x
    using mode by (simp_all add: CmosClockValue_def hours_register_def)
  have reg: "cmos_in CMOS_SECONDS c = CmosToBcd (Second reading)" "cmos_in CMOS_MINUTES c = CmosToBcd (Minute reading)"
    "cmos_in CMOS_HOURS c = CmosToBcd (Hour reading)" "cmos_in CMOS_DAY_OF_MONTH c = CmosToBcd (Day reading)"
    "cmos_in CMOS_MONTH c = CmosToBcd (Month reading)" "cmos_in CMOS_YEAR c = CmosToBcd (Year reading)"
    "cmos_in CMOS_CENTURY c = CmosToBcd (Century reading)"
    by (rule cmos_in_clock; simp add: CmosClockRegister_def cr v cmos_registers)+
  show ?thesis
    using call ah unfolding reg
    by (cases date) (auto simp: PitInt1A_def rtc Let_def bcd_pair bcd_high simp del: push_bit_or split: if_splits)
qed

subsection \<open>Setting the clock\<close>

definition clock_writes :: "(u8 \<times> u8) list \<Rightarrow> 'h cmos_state \<Rightarrow> 'h cmos_state" where
  "clock_writes writes s = fold (\<lambda>(i, v). cmos_out i v) writes s"

definition clock_registers :: "u8 set" where
  "clock_registers = {CMOS_SECONDS, CMOS_MINUTES, CMOS_HOURS, CMOS_DAY_OF_MONTH, CMOS_MONTH, CMOS_YEAR, CMOS_CENTURY}"

definition put_field :: "'h cmos_state \<Rightarrow> u8 \<times> u8 \<Rightarrow> pit_rtc_reading \<Rightarrow> pit_rtc_reading" where
  \<comment> \<open>the field a write of a clock register sets, in the modes of the given state\<close>
  "put_field s = (\<lambda>(i, v). set_field (s\<lparr>Index := i\<rparr>) v)"

lemma set_field_frame [simp]:
  "set_field (s\<lparr>NmiMaskWrites := a\<rparr>) = set_field s" "set_field (s\<lparr>IsNmiDisabled := b\<rparr>) = set_field s"
  by (intro ext, simp add: set_field_def)+

lemma cmos_out_clock:
  assumes "i \<in> clock_registers"
  shows "cmos_out i v s = write_clock (s\<lparr>NmiMaskWrites := NmiMaskWrites s, IsNmiDisabled := False, Index := i\<rparr>) v"
  using assms by (auto simp: cmos_out_def select_index clock_registers_def CmosPortOut_def cmos_registers)

lemma write_held:
  assumes "i \<in> clock_registers" "IsSetHeld s" "RtcSet s \<noteq> None"
  shows "cmos_out i v s = s\<lparr>IsNmiDisabled := False, Index := i, Shadow := put_field s (i, v) (Shadow s)\<rparr>"
proof -
  have "set_field (s\<lparr>IsNmiDisabled := False, Index := i\<rparr>) = set_field (s\<lparr>Index := i\<rparr>)"
    by (intro ext) (simp add: set_field_def decode_hours_def CmosClockDecode_def)
  then show ?thesis using assms by (auto simp: cmos_out_clock write_clock_def CmosReading_def put_field_def)
qed

lemma put_field_modes: "StatusB s = StatusB s' \<Longrightarrow> put_field s = put_field s'"
  by (intro ext) (auto simp: put_field_def set_field_def decode_hours_def CmosClockDecode_def)

lemma writes_held:
  assumes "\<forall>(i, v)\<in>set writes. i \<in> clock_registers" "IsSetHeld s" "RtcSet s \<noteq> None"
  shows "\<exists>b i. clock_writes writes s = s\<lparr>IsNmiDisabled := b, Index := i, Shadow := fold (put_field s) writes (Shadow s)\<rparr>"
  using assms
proof (induction writes arbitrary: s)
  case Nil
  then show ?case by (auto simp: clock_writes_def intro!: exI [of _ "IsNmiDisabled s"] exI [of _ "Index s"])
next
  case (Cons w writes)
  obtain i v where w: "w = (i, v)" by (cases w)
  let ?s = "s\<lparr>IsNmiDisabled := False, Index := i, Shadow := put_field s (i, v) (Shadow s)\<rparr>"
  have "clock_writes (w # writes) s = clock_writes writes ?s"
    using Cons.prems w write_held [of i s v] by (simp add: clock_writes_def)
  moreover have "put_field ?s = put_field s" by (rule put_field_modes) simp
  ultimately show ?case using Cons.IH [of ?s] Cons.prems w by auto
qed

text \<open>
  C30. A time written under SET reaches the host in one step. Raising SET freezes the clock; any
  writes of clock registers then change the frozen copy alone, field by field in the modes of the
  chip, with no call to the host; lowering SET hands the host that copy, the date and then the
  time, and nothing else.
\<close>

theorem cmos_set_commits:
  assumes hook: "cmos_state.RtcSet s = Some set_clock" and reading: "CmosReading s = Some reading" and free: "\<not> IsSetHeld s"
    and modes: "enabled b CMOS_B_SET" "\<not> enabled b' CMOS_B_SET"
    and writes: "\<forall>(i, v)\<in>set writes. i \<in> clock_registers"
    and hold: "clock_writes writes (cmos_out CMOS_STATUS_B b s) = held"
    and release: "cmos_out CMOS_STATUS_B b' held = s'"
  shows "cmos_state.RtcContext held = cmos_state.RtcContext s \<and>
    CmosReading held = Some (fold (put_field (s\<lparr>StatusB := b AND NOT CMOS_B_UIE\<rparr>)) writes reading) \<and>
    \<not> IsSetHeld s' \<and> StatusB s' = b' \<and>
    (let target = fold (put_field (s\<lparr>StatusB := b AND NOT CMOS_B_UIE\<rparr>)) writes reading
     in cmos_state.RtcContext s' = fst (set_clock (fst (set_clock (cmos_state.RtcContext s) target True)) target False))"
proof -
  let ?b = "b AND NOT CMOS_B_UIE"
  let ?p = "if enabled ?b CMOS_B_PIE then PeriodicAccumulator s else 0"
  let ?s1 = "s\<lparr>IsNmiDisabled := False, Index := CMOS_STATUS_B, Shadow := reading, IsSetHeld := True, StatusB := ?b,
    PeriodicAccumulator := ?p\<rparr>"
  have s1: "cmos_out CMOS_STATUS_B b s = ?s1"
    using reading free modes(1)
    by (simp add: cmos_out_def select_index CmosPortOut_def cmos_registers write_status_b_def Let_def)
  have "put_field ?s1 = put_field (s\<lparr>StatusB := ?b\<rparr>)" by (rule put_field_modes) simp
  moreover obtain n i where "clock_writes writes ?s1 = ?s1\<lparr>IsNmiDisabled := n, Index := i, Shadow := fold (put_field ?s1) writes reading\<rparr>"
    using writes_held [OF writes, of ?s1] hook by auto
  ultimately have held: "held = ?s1\<lparr>IsNmiDisabled := n, Index := i, Shadow := fold (put_field (s\<lparr>StatusB := ?b\<rparr>)) writes reading\<rparr>"
    using hold s1 by simp
  have "CmosReading held = Some (Shadow held)" "cmos_state.RtcContext held = cmos_state.RtcContext s"
    by (simp_all add: held CmosReading_def)
  moreover have "cmos_state.RtcContext s' =
      fst (set_clock (fst (set_clock (cmos_state.RtcContext s) (Shadow held) True)) (Shadow held) False) \<and>
    \<not> IsSetHeld s' \<and> StatusB s' = b'"
    using release modes(2) hook
    by (cases "enabled b' CMOS_B_PIE") (auto simp: held cmos_out_def select_index CmosPortOut_def cmos_registers write_status_b_def Let_def)
  ultimately show ?thesis by (simp add: held Let_def)
qed

subsection \<open>The periodic interrupt\<close>

lemma periodic_ticks_exact:
  assumes "0 < unat period" "unat (PeriodicAccumulator s) div unat period \<le> turns"
  shows "periodic_ticks turns raise period s m =
    (let n = unat (PeriodicAccumulator s) div unat period
     in (s\<lparr>PeriodicAccumulator := of_nat (unat (PeriodicAccumulator s) mod unat period),
           StatusC := (if n = 0 then StatusC s else StatusC s OR CMOS_C_PF_AND_IRQF),
           PeriodicRaised := PeriodicRaised s + of_nat n\<rparr>,
         (if Bus s then (raise ^^ n) m else m)))"
  using assms
proof (induction turns arbitrary: s m)
  case 0
  then show ?case by (simp add: div_eq_0_iff)
next
  case (Suc turns)
  have p: "unat (ucast period :: u64) = unat period"
    using unsigned_less [of period, where 'a = nat] by (simp add: unsigned_ucast_eq take_bit_nat_eq_self)
  show ?case
  proof (cases "PeriodicAccumulator s < ucast period")
    case True
    then have "unat (PeriodicAccumulator s) < unat period" by (simp add: word_less_nat_alt p)
    then show ?thesis using True by simp
  next
    case False
    let ?a = "unat (PeriodicAccumulator s)" and ?p = "unat period"
    have le: "?p \<le> ?a" using False by (simp add: word_less_nat_alt p)
    have rest: "unat (PeriodicAccumulator s - ucast period) = ?a - ?p"
      using False by (simp add: unat_sub p not_less)
    have n: "?a div ?p = Suc ((?a - ?p) div ?p)" "(?a - ?p) mod ?p = ?a mod ?p"
      using le Suc.prems(1) by (simp_all add: le_div_geq le_mod_geq)
    let ?s = "s\<lparr>PeriodicAccumulator := PeriodicAccumulator s - ucast period, StatusC := StatusC s OR CMOS_C_PF_AND_IRQF,
      PeriodicRaised := PeriodicRaised s + 1\<rparr>"
    have "periodic_ticks (Suc turns) raise period s m = periodic_ticks turns raise period ?s (if Bus s then raise m else m)"
      using False by simp
    also have "\<dots> = (let n = (?a - ?p) div ?p
        in (?s\<lparr>PeriodicAccumulator := of_nat (?a mod ?p),
           StatusC := (if n = 0 then StatusC ?s else StatusC ?s OR CMOS_C_PF_AND_IRQF),
           PeriodicRaised := PeriodicRaised ?s + of_nat n\<rparr>,
         (if Bus s then (raise ^^ n) (raise m) else m)))"
      using Suc.IH [of ?s "if Bus s then raise m else m"] Suc.prems n by (simp add: rest Let_def)
    finally show ?thesis
      unfolding n(1) Let_def by (auto simp: funpow_swap1 or.assoc ac_simps)
  qed
qed

fun elapse :: "('m \<Rightarrow> 'm) \<Rightarrow> u32 list \<Rightarrow> 'h cmos_state \<times> 'm \<Rightarrow> 'h cmos_state \<times> 'm" where
  "elapse raise [] sm = sm"
| "elapse raise (c # cs) sm = elapse raise cs (VddCmosAddClocks raise (fst sm) c (snd sm))"

definition cmos_period :: "'h cmos_state \<Rightarrow> nat" where
  \<comment> \<open>input clocks per periodic tick\<close>
  "cmos_period s = unat (ucast PIT_INPUT_HZ div VddCmosPeriodicHz s :: u32)"

definition periodic_only :: "'h cmos_state \<Rightarrow> bool" where
  \<comment> \<open>the periodic interrupt enabled at some rate, the once-a-second ones off\<close>
  "periodic_only s \<longleftrightarrow> enabled (StatusB s) CMOS_B_PIE \<and> \<not> enabled (StatusB s) (CMOS_B_UIE OR CMOS_B_AIE) \<and>
     StatusA s AND 0x0F \<noteq> 0"
lemma rate_period:
  assumes "StatusA s AND 0x0F \<noteq> 0"
  shows "VddCmosPeriodicHz s \<noteq> 0" "145 \<le> cmos_period s"
proof -
  define r where "r = unat (StatusA s AND 0x0F)"
  have r: "StatusA s AND 0x0F = of_nat r" by (simp add: r_def)
  have "StatusA s AND 0x0F \<le> 0x0F" by (rule word_and_le1)
  then have "r \<le> 15" by (simp add: r_def word_le_nat_alt)
  moreover have "r \<noteq> 0" using assms by (simp add: r_def unat_eq_0)
  ultimately have "r \<in> {1, 2, 3, 4, 5, 6, 7, 8, 9, 10, 11, 12, 13, 14, 15}"
    unfolding insert_iff empty_iff by presburger
  then have "VddCmosPeriodicHz s \<noteq> 0 \<and> 145 \<le> cmos_period s"
    unfolding cmos_period_def VddCmosPeriodicHz_def r
    by (elim insertE emptyE) (simp_all add: Let_def PIT_INPUT_HZ_def)
  then show "VddCmosPeriodicHz s \<noteq> 0" "145 \<le> cmos_period s" by simp_all
qed
lemma add_clocks_periodic:
  assumes only: "periodic_only s" and acc: "unat (PeriodicAccumulator s) < cmos_period s"
    and guard: "unat c div cmos_period s < CMOS_PERIODIC_GUARD"
  shows "VddCmosAddClocks raise s c m =
    (let total = unat (PeriodicAccumulator s) + unat c; n = total div cmos_period s
     in (s\<lparr>SecondAccumulator := 0, PeriodicAccumulator := of_nat (total mod cmos_period s),
           StatusC := (if n = 0 then StatusC s else StatusC s OR CMOS_C_PF_AND_IRQF),
           PeriodicRaised := PeriodicRaised s + of_nat n\<rparr>,
         (if Bus s then (raise ^^ n) m else m)))"
proof -
  let ?period = "ucast PIT_INPUT_HZ div VddCmosPeriodicHz s :: u32" and ?p = "cmos_period s"
  let ?s = "s\<lparr>SecondAccumulator := 0, PeriodicAccumulator := PeriodicAccumulator s + ucast c\<rparr>"
  have period: "unat ?period = ?p" "?period \<noteq> 0" "0 < ?p"
    using rate_period [of s] only by (auto simp: cmos_period_def periodic_only_def)
  have c: "unat c < 2 ^ 32" using unsigned_less [of c, where 'a = nat] by simp
  have "?p < 2 ^ 32" using unsigned_less [of ?period, where 'a = nat] period by simp
  then have total: "unat (PeriodicAccumulator s + ucast c) = unat (PeriodicAccumulator s) + unat c"
    using c acc by (simp add: unat_word_ariths unsigned_ucast_eq take_bit_nat_eq_self)
  have "(unat (PeriodicAccumulator s) + unat c) div ?p \<le> (?p + unat c) div ?p"
    using acc by (intro div_le_mono) simp
  also have "\<dots> = Suc (unat c div ?p)" using div_add_self1 [of ?p "unat c"] period(3) by (simp del: div_add_self1)
  finally have turns: "unat (PeriodicAccumulator ?s) div unat ?period \<le> CMOS_PERIODIC_GUARD"
    using guard by (simp add: total period(1))
  have "VddCmosPeriodicHz (s\<lparr>SecondAccumulator := 0\<rparr>) = VddCmosPeriodicHz s"
    by (simp add: VddCmosPeriodicHz_def)
  then have "VddCmosAddClocks raise s c m = periodic_ticks CMOS_PERIODIC_GUARD raise ?period ?s m"
    using only rate_period [of s] period(2) by (simp add: VddCmosAddClocks_def periodic_only_def Let_def)
  also have "\<dots> = (let total = unat (PeriodicAccumulator s) + unat c; n = total div ?p
     in (?s\<lparr>PeriodicAccumulator := of_nat (total mod ?p),
           StatusC := (if n = 0 then StatusC s else StatusC s OR CMOS_C_PF_AND_IRQF),
           PeriodicRaised := PeriodicRaised s + of_nat n\<rparr>,
         (if Bus s then (raise ^^ n) m else m)))"
    using periodic_ticks_exact [of ?period ?s CMOS_PERIODIC_GUARD raise m] turns period by (simp add: total Let_def)
  finally show ?thesis by (simp add: Let_def)
qed

text \<open>
  The periodic interrupt keeps its rate. With the once-a-second interrupts off and a rate
  selected, time handed over in any pieces raises IRQ 8 exactly once per period: the number of
  interrupts is the total of the clocks over the period, the part of a period left over is kept,
  the counter of interrupts agrees, and the flags show one pending iff one was raised.
\<close>

theorem cmos_periodic_exact:
  assumes only: "periodic_only s" and bus: "Bus s" and acc: "unat (PeriodicAccumulator s) < cmos_period s"
    and guard: "\<forall>c\<in>set cs. unat c div cmos_period s < CMOS_PERIODIC_GUARD"
    and run: "elapse raise cs (s, m) = (s', m')"
  shows "let total = unat (PeriodicAccumulator s) + (\<Sum>c\<leftarrow>cs. unat c); n = total div cmos_period s
    in m' = (raise ^^ n) m \<and> unat (PeriodicAccumulator s') = total mod cmos_period s \<and>
       PeriodicRaised s' = PeriodicRaised s + of_nat n \<and>
       StatusC s' = (if n = 0 then StatusC s else StatusC s OR CMOS_C_PF_AND_IRQF)"
  using assms
proof (induction cs arbitrary: s m)
  case Nil
  then show ?case by auto
next
  case (Cons c cs)
  let ?p = "cmos_period s" and ?t = "unat (PeriodicAccumulator s) + unat c"
  let ?s = "s\<lparr>SecondAccumulator := 0, PeriodicAccumulator := of_nat (?t mod ?p),
    StatusC := (if ?t div ?p = 0 then StatusC s else StatusC s OR CMOS_C_PF_AND_IRQF),
    PeriodicRaised := PeriodicRaised s + of_nat (?t div ?p)\<rparr>"
  have step: "VddCmosAddClocks raise s c m = (?s, (raise ^^ (?t div ?p)) m)"
    using add_clocks_periodic [of s c raise m] Cons.prems by (simp add: Let_def)
  have same: "cmos_period ?s = ?p" "periodic_only ?s"
    using Cons.prems by (simp_all add: cmos_period_def VddCmosPeriodicHz_def periodic_only_def)
  have p: "0 < ?p" using rate_period [of s] Cons.prems by (auto simp: periodic_only_def)
  have "?p < 2 ^ 64"
    using unsigned_less [of "ucast PIT_INPUT_HZ div VddCmosPeriodicHz s :: u32", where 'a = nat] by (simp add: cmos_period_def)
  then have left: "unat (PeriodicAccumulator ?s) = ?t mod ?p"
    using mod_less_divisor [OF p, of ?t] by (simp add: unat_of_nat)
  let ?rest = "\<Sum>c\<leftarrow>cs. unat c"
  have total: "(?t + ?rest) div ?p = ?t div ?p + (?t mod ?p + ?rest) div ?p"
    "(?t mod ?p + ?rest) mod ?p = (?t + ?rest) mod ?p"
    using p div_mult_mod_eq [of ?t ?p] div_mult_self1 [of ?p "?t mod ?p + ?rest" "?t div ?p"]
    by (simp_all add: mod_simps ac_simps)
  have "elapse raise cs (?s, (raise ^^ (?t div ?p)) m) = (s', m')"
    using Cons.prems(5) step by simp
  then have "let n = (?t mod ?p + ?rest) div ?p
    in m' = (raise ^^ n) ((raise ^^ (?t div ?p)) m) \<and> unat (PeriodicAccumulator s') = (?t mod ?p + ?rest) mod ?p \<and>
       PeriodicRaised s' = PeriodicRaised ?s + of_nat n \<and>
       StatusC s' = (if n = 0 then StatusC ?s else StatusC ?s OR CMOS_C_PF_AND_IRQF)"
    using Cons.IH [of ?s "(raise ^^ (?t div ?p)) m"] Cons.prems same left p by (simp add: Let_def)
  then show ?case
    unfolding Let_def total list.map sum_list.Cons add.assoc [symmetric]
    by (auto simp: funpow_add add.commute [of "?t div ?p"] total or.assoc)
qed
subsection \<open>Never busy, and memory that keeps what it is given\<close>

definition cmos_ok :: "'h cmos_state \<Rightarrow> bool" where
  "cmos_ok s \<longleftrightarrow> Index s < 0x80 \<and> StatusA s < 0x80"

lemma low_seven: "v AND 0x7F < (0x80 :: u8)"
  using word_and_le1 [of v "0x7F"] by (simp add: word_le_nat_alt word_less_nat_alt)

lemma write_status_b_parts [simp]:
  "Index (write_status_b s v) = Index s" "StatusA (write_status_b s v) = StatusA s" "Ram (write_status_b s v) = Ram s"
  by (simp_all add: write_status_b_def Let_def split: option.split)

lemma write_clock_parts [simp]:
  "Index (write_clock s v) = Index s" "StatusA (write_clock s v) = StatusA s" "Ram (write_clock s v) = Ram s"
  by (simp_all add: write_clock_def Let_def split: option.split)

lemma cmos_out_ok: "cmos_ok s \<Longrightarrow> cmos_ok (CmosPortOut s port width v)"
  by (auto simp: CmosPortOut_def Let_def cmos_ok_def low_seven)

lemma CmosRead_parts [simp]:
  "Index (fst (CmosRead s i)) = Index s" "StatusA (fst (CmosRead s i)) = StatusA s" "Ram (fst (CmosRead s i)) = Ram s"
  by (simp_all add: CmosRead_def split: option.split)

lemma cmos_in_ok: "cmos_ok s \<Longrightarrow> cmos_ok (fst (CmosPortIn s port width))"
  by (auto simp: CmosPortIn_def cmos_ok_def split_beta)

interpretation cmos: port_device CmosPortIn CmosPortOut cmos_ok
  by unfold_locales (simp_all add: cmos_in_ok cmos_out_ok)

lemma reset_ok: "cmos_ok (VddCmosReset s)"
  by (simp add: VddCmosReset_def Let_def cmos_ok_def)

lemma second_edge_ok: "cmos_ok s \<Longrightarrow> cmos_ok (fst (CmosSecondEdge s))"
  by (simp add: CmosSecondEdge_def Let_def cmos_ok_def)

lemma second_edges_ok: "cmos_ok s \<Longrightarrow> cmos_ok (fst (second_edges turns raise s m))"
proof (induction turns arbitrary: s m)
  case (Suc turns)
  let ?s = "s\<lparr>SecondAccumulator := SecondAccumulator s - PIT_INPUT_HZ\<rparr>"
  have "cmos_ok ?s" using Suc.prems by (simp add: cmos_ok_def)
  then have "cmos_ok (fst (CmosSecondEdge ?s))" by (rule second_edge_ok)
  moreover from this have "cmos_ok ((fst (CmosSecondEdge ?s))\<lparr>StatusC := c\<rparr>)" for c by (simp add: cmos_ok_def)
  ultimately show ?case using Suc by (simp add: split_beta)
qed simp

lemma periodic_ok: "cmos_ok s \<Longrightarrow> cmos_ok (fst (periodic_ticks turns raise period s m))"
  by (induction turns arbitrary: s m) (simp_all add: cmos_ok_def)

lemma add_clocks_ok:
  assumes "cmos_ok s"
  shows "cmos_ok (fst (VddCmosAddClocks raise s clocks m))"
proof -
  define start where "start = (if enabled (StatusB s) (CMOS_B_UIE OR CMOS_B_AIE)
    then second_edges CMOS_SECOND_EDGE_GUARD raise (s\<lparr>SecondAccumulator := SecondAccumulator s + ucast clocks\<rparr>) m
    else (s\<lparr>SecondAccumulator := 0\<rparr>, m))"
  have "cmos_ok (s\<lparr>SecondAccumulator := a\<rparr>)" for a using assms by (simp add: cmos_ok_def)
  then have "cmos_ok (fst start)" by (simp add: start_def second_edges_ok)
  moreover from this have "cmos_ok ((fst start)\<lparr>PeriodicAccumulator := a\<rparr>)" for a by (simp add: cmos_ok_def)
  ultimately show ?thesis
    unfolding VddCmosAddClocks_def start_def [symmetric] by (simp add: split_beta Let_def periodic_ok)
qed

datatype cmos_event = CmosAccess port_access | CmosClocks u32

fun cmos_happens :: "('m \<Rightarrow> 'm) \<Rightarrow> cmos_event \<Rightarrow> 'h cmos_state \<times> 'm \<Rightarrow> 'h cmos_state \<times> 'm" where
  "cmos_happens raise (CmosAccess a) (s, m) = (guest_access CmosPortIn CmosPortOut a s, m)"
| "cmos_happens raise (CmosClocks c) (s, m) = VddCmosAddClocks raise s c m"

lemma happens_ok: "cmos_ok s \<Longrightarrow> cmos_ok (fst (cmos_happens raise e (s, m)))"
  by (cases e) (simp_all add: cmos.access_inv add_clocks_ok)

lemma run_ok: "cmos_ok (fst sm) \<Longrightarrow> cmos_ok (fst (fold (cmos_happens raise) events sm))"
proof (induction events arbitrary: sm)
  case (Cons e events)
  then show ?case using happens_ok [of "fst sm" raise e "snd sm"] by simp
qed simp
definition memory_registers :: "u8 set" where
  "memory_registers = {i. i \<in> {CMOS_SECONDS_ALARM, CMOS_MINUTES_ALARM, CMOS_HOURS_ALARM} \<or>
     CMOS_STATUS_D < i \<and> i < 0x80 \<and> i \<noteq> CMOS_CENTURY}"

fun memory_step :: "cmos_event \<Rightarrow> u8 \<times> (u8 \<Rightarrow> u8) \<Rightarrow> u8 \<times> (u8 \<Rightarrow> u8)" where
  \<comment> \<open>the selected register and a memory, as a guest would keep them in its books\<close>
  "memory_step (CmosAccess (GuestOut port width v)) (i, mem) =
     (if port = 0x70 then (ucast v AND 0x7F, mem)
      else (i, if i \<in> memory_registers then mem(i := ucast v) else mem))"
| "memory_step (CmosAccess (GuestIn port width)) book = book"
| "memory_step (CmosClocks c) book = book"

definition keeps_book :: "u8 \<times> (u8 \<Rightarrow> u8) \<Rightarrow> 'h cmos_state \<Rightarrow> bool" where
  "keeps_book book s \<longleftrightarrow> Index s = fst book \<and> (\<forall>i\<in>memory_registers. Ram s (unat i) = snd book i)"

lemma second_edges_parts [simp]:
  "Index (fst (second_edges turns raise s m)) = Index s" "Ram (fst (second_edges turns raise s m)) = Ram s"
  by (induction turns arbitrary: s m) (simp_all add: CmosSecondEdge_def Let_def split_beta)

lemma periodic_parts [simp]:
  "Index (fst (periodic_ticks turns raise period s m)) = Index s" "Ram (fst (periodic_ticks turns raise period s m)) = Ram s"
  by (induction turns arbitrary: s m) simp_all

lemma add_clocks_parts [simp]:
  "Index (fst (VddCmosAddClocks raise s clocks m)) = Index s" "Ram (fst (VddCmosAddClocks raise s clocks m)) = Ram s"
  by (simp_all add: VddCmosAddClocks_def Let_def split_beta)

lemma ram_kept:
  assumes "cmos_ok s" "port \<noteq> 0x70" "Index s \<notin> memory_registers"
  shows "Ram (CmosPortOut s port width v) = Ram s"
proof -
  have no_alarm: "Index s \<noteq> CMOS_SECONDS_ALARM" "Index s \<noteq> CMOS_MINUTES_ALARM" "Index s \<noteq> CMOS_HOURS_ALARM"
    using assms(3) by (auto simp: memory_registers_def)
  consider "Index s = CMOS_CENTURY" | "Index s \<le> CMOS_STATUS_D"
    using assms by (auto simp: memory_registers_def cmos_ok_def not_less)
  then show ?thesis
  proof cases
    case 1
    then show ?thesis using assms(2) by (simp add: CmosPortOut_def Let_def cmos_registers)
  next
    case 2
    then show ?thesis using assms(2) no_alarm by (simp add: CmosPortOut_def Let_def)
  qed
qed

lemma ram_taken:
  assumes "port \<noteq> 0x70" "Index s \<in> memory_registers"
  shows "CmosPortOut s port width v = s\<lparr>Ram := (Ram s)(unat (Index s) := ucast v)\<rparr>"
proof -
  consider "Index s = CMOS_SECONDS_ALARM" | "Index s = CMOS_MINUTES_ALARM" | "Index s = CMOS_HOURS_ALARM"
    | "CMOS_STATUS_D < Index s" "Index s < 0x80" "Index s \<noteq> CMOS_CENTURY"
    using assms(2) by (auto simp: memory_registers_def)
  then show ?thesis
  proof cases
    case 4
    then have "Index s \<noteq> i" if "i \<le> CMOS_STATUS_D" for i using that by auto
    then show ?thesis using 4 assms(1) by (simp add: CmosPortOut_def Let_def index_mask cmos_registers)
  qed (use assms(1) in \<open>simp_all add: CmosPortOut_def Let_def cmos_registers\<close>)
qed

lemma index_kept: "port \<noteq> 0x70 \<Longrightarrow> Index (CmosPortOut s port width v) = Index s"
  by (simp add: CmosPortOut_def Let_def)

lemma keeps_book_out:
  assumes book: "keeps_book book s" and ok: "cmos_ok s"
  shows "keeps_book (memory_step (CmosAccess (GuestOut port width v)) book) (CmosPortOut s port width v)"
proof (cases "port = 0x70")
  case True
  then show ?thesis using book by (cases book) (simp add: keeps_book_def CmosPortOut_def Let_def)
next
  case False
  then show ?thesis
    using book ok ram_taken [OF False, of s width v] ram_kept [OF ok False, of width v] index_kept [OF False, of s width v]
    by (cases book; cases "Index s \<in> memory_registers") (auto simp: keeps_book_def dest: word_unat_eq_iff [THEN iffD2])
qed

lemma keeps_book_step:
  assumes "keeps_book book s" "cmos_ok s"
  shows "keeps_book (memory_step e book) (fst (cmos_happens raise e (s, m)))"
proof (cases e)
  case (CmosAccess a)
  then show ?thesis using assms keeps_book_out [of book s]
    by (cases a) (auto simp: keeps_book_def CmosPortIn_def split_beta)
next
  case (CmosClocks c)
  then show ?thesis using assms by (simp add: keeps_book_def)
qed

lemma keeps_book_run:
  assumes "keeps_book book (fst sm)" "cmos_ok (fst sm)"
  shows "keeps_book (fold memory_step events book) (fst (fold (cmos_happens raise) events sm))"
  using assms
proof (induction events arbitrary: book sm)
  case (Cons e events)
  then show ?case
    using keeps_book_step [of book "fst sm" e raise "snd sm"] happens_ok [of "fst sm" raise e "snd sm"] by simp
qed simp

lemma memory_not_clock:
  assumes "i \<in> memory_registers"
  shows "CmosClockRegister s i = None"
proof -
  consider "i = CMOS_SECONDS_ALARM" | "i = CMOS_MINUTES_ALARM" | "i = CMOS_HOURS_ALARM"
    | "CMOS_STATUS_D < i" "i \<noteq> CMOS_CENTURY"
    using assms by (auto simp: memory_registers_def)
  then show ?thesis
    by cases (auto simp: CmosClockRegister_def cmos_registers split: option.split)
qed

lemma memory_read:
  assumes "i \<in> memory_registers"
  shows "cmos_in i s = Ram s (unat i)"
proof -
  have "i < 0x80" using assms by (auto simp: memory_registers_def cmos_registers)
  then show ?thesis
    using assms
    by (auto simp: cmos_in_def select_index CmosPortIn_def CmosRead_def index_mask memory_not_clock memory_registers_def
        cmos_registers)
qed

lemma status_read: "cmos_in CMOS_STATUS_A s = StatusA s" "cmos_in CMOS_STATUS_D s = CMOS_D_VRT"
proof -
  have none: "CmosClockRegister s' CMOS_STATUS_A = None" "CmosClockRegister s' CMOS_STATUS_D = None" for s' :: "'h cmos_state"
    by (simp_all add: CmosClockRegister_def cmos_registers split: option.split)
  have "CMOS_STATUS_A < 0x80" "CMOS_STATUS_D < 0x80" by (simp_all add: cmos_registers)
  then show "cmos_in CMOS_STATUS_A s = StatusA s" "cmos_in CMOS_STATUS_D s = CMOS_D_VRT"
    unfolding cmos_in_def select_index
    by (simp_all add: CmosPortIn_def CmosRead_def none index_mask) (simp_all add: cmos_registers)
qed

text \<open>
  The chip behaves as a memory that is always ready. After a reset and any sequence of port
  accesses, of any width and at any register, and clocks, the selected register is the one last
  selected, each memory register reads what was last written to it (or what POST left), and
  software that polls the status registers always finds no update in progress and valid time.
\<close>

theorem cmos_memory_refines:
  assumes "fold (cmos_happens raise) events (VddCmosReset s, m) = (s', m')"
    and "fold memory_step events (0, \<lambda>i. Ram (VddCmosReset s) (unat i)) = (selected, mem)"
  shows "Index s' = selected \<and> (\<forall>i\<in>memory_registers. cmos_in i s' = mem i) \<and>
    cmos_in CMOS_STATUS_A s' < 0x80 \<and> cmos_in CMOS_STATUS_D s' = CMOS_D_VRT"
proof -
  have "keeps_book (0, \<lambda>i. Ram (VddCmosReset s) (unat i)) (VddCmosReset s)"
    by (simp add: keeps_book_def VddCmosReset_def Let_def)
  then have "keeps_book (selected, mem) s'"
    using keeps_book_run [of _ "(VddCmosReset s, m)" events raise] assms reset_ok by fastforce
  moreover have "cmos_ok s'" using run_ok [of "(VddCmosReset s, m)" raise events] assms(1) reset_ok by fastforce
  ultimately show ?thesis by (simp add: keeps_book_def cmos_ok_def status_read memory_read)
qed
subsection \<open>Concrete instances\<close>

definition blank_cmos ::
  "('h \<Rightarrow> pit_rtc_reading \<Rightarrow> pit_rtc_reading) option \<Rightarrow> ('h \<Rightarrow> pit_rtc_reading \<Rightarrow> bool \<Rightarrow> 'h \<times> bool) option \<Rightarrow> 'h \<Rightarrow> 'h cmos_state"
where
  "blank_cmos now set_clock context0 =
     \<lparr>Bus = True, Index = 0, IsNmiDisabled = False, NmiMaskWrites = 0, Ram = \<lambda>_. 0, StatusA = 0, StatusB = 0,
       StatusC = 0, PeriodicAccumulator = 0, PeriodicRaised = 0, SecondAccumulator = 0, UpdateEndedRaised = 0,
       AlarmRaised = 0, RtcNow = now, RtcContext = context0, RtcSet = set_clock, IsSetHeld = False, Shadow = zero_reading,
       BaseKb = 0\<rparr>"

definition demo_cmos ::
  "('h \<Rightarrow> pit_rtc_reading \<Rightarrow> pit_rtc_reading) option \<Rightarrow> ('h \<Rightarrow> pit_rtc_reading \<Rightarrow> bool \<Rightarrow> 'h \<times> bool) option \<Rightarrow> 'h \<Rightarrow> 'h cmos_state"
where
  "demo_cmos now set_clock context0 = VddCmosReset (blank_cmos now set_clock context0)"

definition demo_now :: "'h \<Rightarrow> pit_rtc_reading \<Rightarrow> pit_rtc_reading" where
  "demo_now context0 reading = reading\<lparr>Hour := 23, Minute := 59, Second := 58\<rparr>"

definition demo_set :: "(u32 \<times> u32 \<times> bool) list \<Rightarrow> pit_rtc_reading \<Rightarrow> bool \<Rightarrow> (u32 \<times> u32 \<times> bool) list \<times> bool" where
  \<comment> \<open>a host that keeps a log of the times it was given\<close>
  "demo_set log reading isDate = (log @ [(Hour reading, Minute reading, isDate)], True)"

definition call_registers :: "u32 \<Rightarrow> ntvdd_registers" where
  "call_registers eax = \<lparr>Eax = eax, Ebx = 0, Ecx = 0, Edx = 0, Esi = 0, Edi = 0, Ebp = 0, Ds = 0, Es = 0,
     CarryFlag = True, ZeroFlag = False\<rparr>"

lemma demo_parts [simp]:
  "StatusA (demo_cmos now set_clock h) = 0x26" "StatusB (demo_cmos now set_clock h) = 0x02" "Bus (demo_cmos now set_clock h)"
  "PeriodicAccumulator (demo_cmos now set_clock h) = 0" "cmos_state.RtcNow (demo_cmos now set_clock h) = now"
  "cmos_state.RtcSet (demo_cmos now set_clock h) = set_clock" "cmos_state.RtcContext (demo_cmos now set_clock h) = h"
  "\<not> IsSetHeld (demo_cmos now set_clock h)"
  by (simp_all add: demo_cmos_def blank_cmos_def VddCmosReset_def Let_def)

lemma cmos_periodic_exact_witness:
  "snd (elapse Suc [5000, 1165, 2330] ((demo_cmos None None ())\<lparr>StatusB := 0x42\<rparr>, 0)) = 7"
proof -
  let ?s = "(demo_cmos None None ())\<lparr>StatusB := 0x42\<rparr>"
  have p: "cmos_period ?s = 1165" by (simp add: cmos_period_def VddCmosPeriodicHz_def PIT_INPUT_HZ_def Let_def)
  obtain s' m' where run: "elapse Suc [5000, 1165, 2330] (?s, 0) = (s', m')" by fastforce
  have "periodic_only ?s" by (simp add: periodic_only_def enabled_def cmos_bits)
  then have "m' = (Suc ^^ 7) 0"
    using cmos_periodic_exact [OF _ _ _ _ run] by (simp add: p CMOS_PERIODIC_GUARD_def Let_def)
  then show ?thesis unfolding run by simp
qed

lemma cmos_memory_refines_witness:
  "cmos_in 0x40 (fst (fold (cmos_happens id) [CmosAccess (GuestOut 0x70 1 0x40), CmosAccess (GuestOut 0x71 1 0x5A), CmosClocks 9]
     (demo_cmos None None (), ()))) = 0x5A"
proof -
  let ?e = "[CmosAccess (GuestOut 0x70 1 0x40), CmosAccess (GuestOut 0x71 1 0x5A), CmosClocks 9]"
  let ?s = "blank_cmos None None ()"
  obtain s' m' where run: "fold (cmos_happens id) ?e (VddCmosReset ?s, ()) = (s', m')" by (rule prod.exhaust)
  obtain i mem where book: "fold memory_step ?e (0, \<lambda>i. Ram (VddCmosReset ?s) (unat i)) = (i, mem)" by (rule prod.exhaust)
  have "0x40 \<in> memory_registers" by (simp add: memory_registers_def cmos_registers)
  moreover from this book have "mem 0x40 = 0x5A" by auto
  ultimately have "cmos_in 0x40 s' = 0x5A" using cmos_memory_refines [OF run book] by simp
  then show ?thesis using run by (simp add: demo_cmos_def)
qed

lemma cmos_set_commits_witness:
  "cmos_state.RtcContext (cmos_out CMOS_STATUS_B 0x02 (clock_writes [(CMOS_HOURS, 0x12), (CMOS_MINUTES, 0x34)]
     (cmos_out CMOS_STATUS_B 0x82 (demo_cmos (Some demo_now) (Some demo_set) [])))) = [(12, 34, True), (12, 34, False)]"
proof -
  let ?s = "demo_cmos (Some demo_now) (Some demo_set) []"
  let ?w = "[(CMOS_HOURS, 0x12), (CMOS_MINUTES, 0x34)]"
  obtain reading where r: "CmosReading ?s = Some reading" by (simp add: CmosReading_def)
  have "\<forall>(i, v)\<in>set ?w. i \<in> clock_registers" by (simp add: clock_registers_def)
  then have "cmos_state.RtcContext (cmos_out CMOS_STATUS_B 0x02 (clock_writes ?w (cmos_out CMOS_STATUS_B 0x82 ?s))) =
    (let target = fold (put_field (?s\<lparr>StatusB := 0x82 AND NOT CMOS_B_UIE\<rparr>)) ?w reading
     in fst (demo_set (fst (demo_set (cmos_state.RtcContext ?s) target True)) target False))"
    using cmos_set_commits [where s = ?s and set_clock = demo_set and b = "0x82" and b' = "0x02" and writes = ?w, OF _ r _ _ _ _ refl refl]
    by (simp add: enabled_def cmos_bits Let_def)
  then show ?thesis
    by (simp add: Let_def demo_set_def put_field_def set_field_def decode_hours_def CmosClockDecode_def enabled_def cmos_bits
        cmos_registers)
qed

lemma cmos_two_doors_witness:
  "VddGetCx (snd (PitInt1A (zero_pit\<lparr>pit_state.RtcNow := Some demo_now\<rparr>, \<lambda>_. 0) (call_registers 0x0200))) = 0x2359"
proof -
  let ?p = "zero_pit\<lparr>pit_state.RtcNow := Some demo_now\<rparr>" and ?c = "demo_cmos (Some demo_now) None ()"
  obtain sm r where call: "PitInt1A (?p, \<lambda>_. 0) (call_registers 0x0200) = (sm, r)" by (rule prod.exhaust)
  have clock: "same_clock ?p ?c" by (simp add: same_clock_def zero_pit_def)
  have "\<not> enabled (StatusB ?c) CMOS_B_BINARY" "enabled (StatusB ?c) CMOS_B_24_HOUR" "VddGetAh (call_registers 0x0200) = 0x02"
    by (simp_all add: enabled_def cmos_bits call_registers_def VddGetAh_def)
  then have "VddGetCx r = push_bit 8 (ucast (cmos_in CMOS_HOURS ?c)) OR ucast (cmos_in CMOS_MINUTES ?c)"
    using cmos_two_doors [where p = ?p and c = ?c and registers = "call_registers 0x0200" and date = False, OF clock _ _ _ _ call] by simp
  moreover have "cmos_in CMOS_HOURS ?c = 0x23" "cmos_in CMOS_MINUTES ?c = 0x59"
    by (rule cmos_in_clock; simp add: CmosClockRegister_def CmosReading_def demo_now_def hours_register_def CmosClockValue_def
        CmosToBcd_def enabled_def cmos_bits cmos_registers)+
  ultimately show ?thesis using call by simp
qed

end
