(* ===== verification/X86_Length.thy ===== *)
theory X86_Length
  imports Prelude "HOL-Library.Monad_Syntax"
begin

text \<open>
  The instruction-length decoder of \<^verbatim>\<open>src/host/x86len.c\<close>: which bytes of a code buffer are one
  x86 instruction. The host patches \<^verbatim>\<open>CD nn\<close> byte pairs of a protected-mode client only where
  this decoder says that an instruction starts. The buffer is a list of bytes; a read outside it is
  the value \<open>None\<close>, so that the bounds the code keeps are provable.
\<close>

subsection \<open>The opcode map\<close>

definition X86_PREFIX_ES :: u8 where "X86_PREFIX_ES = 0x26"
definition X86_PREFIX_CS :: u8 where "X86_PREFIX_CS = 0x2E"
definition X86_PREFIX_SS :: u8 where "X86_PREFIX_SS = 0x36"
definition X86_PREFIX_DS :: u8 where "X86_PREFIX_DS = 0x3E"
definition X86_PREFIX_FS :: u8 where "X86_PREFIX_FS = 0x64"
definition X86_PREFIX_GS :: u8 where "X86_PREFIX_GS = 0x65"
definition X86_PREFIX_OPERAND_SIZE :: u8 where "X86_PREFIX_OPERAND_SIZE = 0x66"
definition X86_PREFIX_ADDRESS_SIZE :: u8 where "X86_PREFIX_ADDRESS_SIZE = 0x67"
definition X86_PREFIX_LOCK :: u8 where "X86_PREFIX_LOCK = 0xF0"
definition X86_PREFIX_REPNE :: u8 where "X86_PREFIX_REPNE = 0xF2"
definition X86_PREFIX_REP :: u8 where "X86_PREFIX_REP = 0xF3"
definition X86_ESCAPE :: u8 where "X86_ESCAPE = 0x0F"
definition X86_ESCAPE_38 :: u8 where "X86_ESCAPE_38 = 0x38"
definition X86_ESCAPE_3A :: u8 where "X86_ESCAPE_3A = 0x3A"
definition X86_MAX_PREFIXES :: nat where "X86_MAX_PREFIXES = 8"
definition X86_MAX_INSTRUCTION :: u32 where "X86_MAX_INSTRUCTION = 16"
definition X86_VOTE_FRACTION :: u32 where "X86_VOTE_FRACTION = 4"
definition X86_BOUNDARY_SPAN :: u32 where "X86_BOUNDARY_SPAN = 48"

definition XL_NONE :: u32 where "XL_NONE = 0"
definition XL_IB :: u32 where "XL_IB = 1"
definition XL_IZ :: u32 where "XL_IZ = 2"
definition XL_IW :: u32 where "XL_IW = 3"
definition XL_MOFF :: u32 where "XL_MOFF = 4"
definition XL_ENTER :: u32 where "XL_ENTER = 5"
definition XL_FAR :: u32 where "XL_FAR = 6"
definition XL_G3B :: u32 where "XL_G3B = 7"
definition XL_G3Z :: u32 where "XL_G3Z = 8"
definition XL_MR :: u32 where "XL_MR = 0x10"
definition XL_KIND_MASK :: u32 where "XL_KIND_MASK = 0x0F"

lemmas xl_kinds = XL_NONE_def XL_IB_def XL_IZ_def XL_IW_def XL_MOFF_def XL_ENTER_def XL_FAR_def XL_G3B_def XL_G3Z_def

definition g_X86OneByteTable :: "u8 list" where
  "g_X86OneByteTable =
    [0x10, 0x10, 0x10, 0x10, 1, 2, 0, 0, 0x10, 0x10, 0x10, 0x10, 1, 2, 0, 0,
     0x10, 0x10, 0x10, 0x10, 1, 2, 0, 0, 0x10, 0x10, 0x10, 0x10, 1, 2, 0, 0,
     0x10, 0x10, 0x10, 0x10, 1, 2, 0, 0, 0x10, 0x10, 0x10, 0x10, 1, 2, 0, 0,
     0x10, 0x10, 0x10, 0x10, 1, 2, 0, 0, 0x10, 0x10, 0x10, 0x10, 1, 2, 0, 0,
     0, 0, 0, 0, 0, 0, 0, 0, 0, 0, 0, 0, 0, 0, 0, 0,
     0, 0, 0, 0, 0, 0, 0, 0, 0, 0, 0, 0, 0, 0, 0, 0,
     0, 0, 0x10, 0x10, 0, 0, 0, 0, 2, 0x12, 1, 0x11, 0, 0, 0, 0,
     1, 1, 1, 1, 1, 1, 1, 1, 1, 1, 1, 1, 1, 1, 1, 1,
     0x11, 0x12, 0x11, 0x11, 0x10, 0x10, 0x10, 0x10, 0x10, 0x10, 0x10, 0x10, 0x10, 0x10, 0x10, 0x10,
     0, 0, 0, 0, 0, 0, 0, 0, 0, 0, 6, 0, 0, 0, 0, 0,
     4, 4, 4, 4, 0, 0, 0, 0, 1, 2, 0, 0, 0, 0, 0, 0,
     1, 1, 1, 1, 1, 1, 1, 1, 2, 2, 2, 2, 2, 2, 2, 2,
     0x11, 0x11, 3, 0, 0x10, 0x10, 0x11, 0x12, 5, 0, 3, 0, 0, 1, 0, 0,
     0x10, 0x10, 0x10, 0x10, 1, 1, 0, 0, 0x10, 0x10, 0x10, 0x10, 0x10, 0x10, 0x10, 0x10,
     1, 1, 1, 1, 1, 1, 1, 1, 2, 2, 6, 1, 0, 0, 0, 0,
     0, 0, 0, 0, 0, 0, 0x17, 0x18, 0, 0, 0, 0, 0, 0, 0x10, 0x10]"

definition X86IsPrefix :: "u8 \<Rightarrow> bool" where
  "X86IsPrefix opcode \<longleftrightarrow>
     opcode = X86_PREFIX_ES \<or> opcode = X86_PREFIX_CS \<or> opcode = X86_PREFIX_SS \<or> opcode = X86_PREFIX_DS \<or>
     opcode = X86_PREFIX_FS \<or> opcode = X86_PREFIX_GS \<or> opcode = X86_PREFIX_OPERAND_SIZE \<or>
     opcode = X86_PREFIX_ADDRESS_SIZE \<or> opcode = X86_PREFIX_LOCK \<or> opcode = X86_PREFIX_REPNE \<or> opcode = X86_PREFIX_REP"

definition X86TwoByteEntry :: "u8 \<Rightarrow> u32" where
  "X86TwoByteEntry opcode =
     (if opcode \<in> {0x05, 0x06, 0x07, 0x08, 0x09, 0x0B, 0x0E, 0x30, 0x31, 0x32, 0x33, 0x34, 0x35, 0x77, 0xA0, 0xA1, 0xA2,
                   0xA8, 0xA9, 0xAA} then XL_NONE
      else if opcode \<in> {0xC8, 0xC9, 0xCA, 0xCB, 0xCC, 0xCD, 0xCE, 0xCF} then XL_NONE
      else if opcode \<in> {0x70, 0x71, 0x72, 0x73, 0xA4, 0xAC, 0xBA, 0xC2, 0xC4, 0xC5, 0xC6} then XL_MR OR XL_IB
      else if opcode \<ge> 0x80 \<and> opcode \<le> 0x8F then XL_IZ
      else XL_MR OR XL_NONE)"

subsection \<open>One instruction\<close>

definition code_byte :: "u8 list \<Rightarrow> u32 \<Rightarrow> u8 option" where
  "code_byte bytes i = (if unat i < length bytes then Some (bytes ! unat i) else None)"

definition X86ModrmLength :: "u8 list \<Rightarrow> u32 \<Rightarrow> u32 \<Rightarrow> bool \<Rightarrow> u32 option" where
  \<comment> \<open>\<open>Some 0\<close> is the answer "ran off the end"\<close>
  "X86ModrmLength bytes offset len isAddress32 =
     (if offset \<ge> len then Some 0
      else do {
        modrm \<leftarrow> code_byte bytes offset;
        let mode = drop_bit 6 modrm;
        let registerMemory = modrm AND 7;
        let displacement = (\<lambda>full. if mode = 1 then 1 else if mode = 2 then full else 0);
        if mode = 3 then Some 1
        else if isAddress32 then
          if registerMemory = 4 then
            if offset + 1 \<ge> len then Some 0
            else do {
              isDisp32 \<leftarrow> (if mode = 0 then map_option (\<lambda>sib. sib AND 7 = 5) (code_byte bytes (offset + 1)) else Some False);
              Some (1 + (if isDisp32 then 4 else 0) + 1 + displacement 4) }
          else Some (1 + (if mode = 0 \<and> registerMemory = 5 then 4 else 0) + displacement 4)
        else Some (1 + (if mode = 0 \<and> registerMemory = 6 then 2 else 0) + displacement 2) })"

fun prefix_loop :: "nat \<Rightarrow> u8 list \<Rightarrow> u32 \<Rightarrow> u32 \<Rightarrow> bool \<Rightarrow> bool \<Rightarrow> bool \<Rightarrow> (u32 \<times> bool \<times> bool) option option" where
  \<comment> \<open>the prefixes, with how many more are allowed; \<open>Some None\<close> is prefix soup\<close>
  "prefix_loop left bytes offset len isDefault32 isOperand32 isAddress32 =
     (if offset < len then do {
        b \<leftarrow> code_byte bytes offset;
        if X86IsPrefix b then
          let isOperand32' = (if b = X86_PREFIX_OPERAND_SIZE then \<not> isDefault32 else isOperand32);
              isAddress32' = (if b \<noteq> X86_PREFIX_OPERAND_SIZE \<and> b = X86_PREFIX_ADDRESS_SIZE then \<not> isDefault32 else isAddress32)
          in case left of 0 \<Rightarrow> Some None
             | Suc n \<Rightarrow> prefix_loop n bytes (offset + 1) len isDefault32 isOperand32' isAddress32'
        else Some (Some (offset, isOperand32, isAddress32)) }
      else Some (Some (offset, isOperand32, isAddress32)))"

declare prefix_loop.simps [simp del]

definition immediate_bytes :: "u32 \<Rightarrow> int \<Rightarrow> bool \<Rightarrow> bool \<Rightarrow> u32 option" where
  \<comment> \<open>what follows the operand byte, by the kind of the table's entry; \<open>None\<close> is "return 0"\<close>
  "immediate_bytes kind registerField isOperand32 isAddress32 =
     (let immediateSize = (if isOperand32 then 4 else 2)
      in if kind = XL_NONE then Some 0
         else if kind = XL_IB then Some 1
         else if kind = XL_IZ then Some immediateSize
         else if kind = XL_IW then Some 2
         else if kind = XL_MOFF then Some (if isAddress32 then 4 else 2)
         else if kind = XL_ENTER then Some 3
         else if kind = XL_FAR then Some (immediateSize + 2)
         else if kind = XL_G3B then Some (if registerField \<ge> 0 \<and> registerField < 2 then 1 else 0)
         else if kind = XL_G3Z then Some (if registerField \<ge> 0 \<and> registerField < 2 then immediateSize else 0)
         else None)"

definition finish_length :: "u8 list \<Rightarrow> u32 \<Rightarrow> u32 \<Rightarrow> u32 \<Rightarrow> u32 \<Rightarrow> bool \<Rightarrow> bool \<Rightarrow> u32 option" where
  \<comment> \<open>the operand byte and the immediate, after the opcode\<close>
  "finish_length bytes start offset len entry isOperand32 isAddress32 =
     do {
       operand \<leftarrow> (if entry AND XL_MR \<noteq> 0 then
                     if offset \<ge> len then Some None
                     else do {
                       modrm \<leftarrow> code_byte bytes offset;
                       modrmLength \<leftarrow> X86ModrmLength bytes offset len isAddress32;
                       Some (if modrmLength = 0 then None
                             else Some (offset + modrmLength, int (unat ((drop_bit 3 modrm) AND 7)))) }
                   else Some (Some (offset, - 1)));
       case operand of None \<Rightarrow> Some 0
       | Some (offset', registerField) \<Rightarrow>
           (case immediate_bytes (entry AND XL_KIND_MASK) registerField isOperand32 isAddress32 of
              None \<Rightarrow> Some 0
            | Some n \<Rightarrow> Some (if offset' + n \<le> len then offset' + n - start else 0)) }"

definition escaped_length :: "u8 list \<Rightarrow> u32 \<Rightarrow> u32 \<Rightarrow> u32 \<Rightarrow> u8 \<Rightarrow> bool \<Rightarrow> u32 option" where
  \<comment> \<open>the three-byte escapes; \<open>offset\<close> is after the second byte\<close>
  "escaped_length bytes start offset len opcode2 isAddress32 =
     (if offset \<ge> len then Some 0
      else do {
        modrmLength \<leftarrow> X86ModrmLength bytes (offset + 1) len isAddress32;
        let offset' = offset + 1 + modrmLength + (if opcode2 = X86_ESCAPE_3A then 1 else 0);
        Some (if modrmLength = 0 then 0 else if offset' \<le> len then offset' - start else 0) })"

definition X86InstructionLength :: "u8 list \<Rightarrow> u32 \<Rightarrow> u32 \<Rightarrow> bool \<Rightarrow> u32 option" where
  "X86InstructionLength bytes offset len isDefault32 =
     do {
       prefixes \<leftarrow> prefix_loop X86_MAX_PREFIXES bytes offset len isDefault32 isDefault32 isDefault32;
       case prefixes of None \<Rightarrow> Some 0
       | Some (at_opcode, isOperand32, isAddress32) \<Rightarrow>
           if at_opcode \<ge> len then Some 0
           else do {
             opcode \<leftarrow> code_byte bytes at_opcode;
             if opcode = X86_ESCAPE then
               if at_opcode + 1 \<ge> len then Some 0
               else do {
                 opcode2 \<leftarrow> code_byte bytes (at_opcode + 1);
                 if opcode2 = X86_ESCAPE_38 \<or> opcode2 = X86_ESCAPE_3A
                 then escaped_length bytes offset (at_opcode + 2) len opcode2 isAddress32
                 else finish_length bytes offset (at_opcode + 2) len (X86TwoByteEntry opcode2) isOperand32 isAddress32 }
             else finish_length bytes offset (at_opcode + 1) len (ucast (g_X86OneByteTable ! unat opcode)) isOperand32 isAddress32 } }"

subsection \<open>Instruction boundaries\<close>

partial_function (option) decode_stream :: "u8 list \<Rightarrow> u32 \<Rightarrow> u32 \<Rightarrow> u32 \<Rightarrow> bool \<Rightarrow> u32 option" where
  \<comment> \<open>the position at which decoding from a given one reaches or passes the site, or gets stuck\<close>
  "decode_stream bytes position offset len isDefault32 =
     (if position < offset then
        Option.bind (X86InstructionLength bytes position len isDefault32)
          (\<lambda>instructionLength. if instructionLength = 0 then Some position
             else decode_stream bytes (position + instructionLength) offset len isDefault32)
      else Some position)"

primrec vote_loop :: "nat \<Rightarrow> u8 list \<Rightarrow> u32 \<Rightarrow> u32 \<Rightarrow> u32 \<Rightarrow> bool \<Rightarrow> u32 \<Rightarrow> u32 \<Rightarrow> (u32 \<times> u32) option" where
  \<comment> \<open>tries and votes over the stream starts from \<open>streamStart\<close> on\<close>
  "vote_loop 0 bytes streamStart offset len isDefault32 tries votes = Some (tries, votes)"
| "vote_loop (Suc turns) bytes streamStart offset len isDefault32 tries votes =
     do {
       position \<leftarrow> decode_stream bytes streamStart offset len isDefault32;
       vote_loop turns bytes (streamStart + 1) offset len isDefault32 (tries + 1)
         (if position = offset then votes + 1 else votes) }"

definition X86IsInstructionStart :: "u8 list \<Rightarrow> u32 \<Rightarrow> u32 \<Rightarrow> bool \<Rightarrow> bool option" where
  "X86IsInstructionStart bytes offset len isDefault32 =
     (let span = (if offset < X86_BOUNDARY_SPAN then offset else X86_BOUNDARY_SPAN)
      in if offset \<ge> len then Some False
         else do {
           (tries, votes) \<leftarrow> vote_loop (unat span) bytes (offset - span) offset len isDefault32 0 0;
           Some (if tries = 0 then True else votes * X86_VOTE_FRACTION \<ge> tries) })"

fun owner_loop :: "nat \<Rightarrow> u8 list \<Rightarrow> u32 \<Rightarrow> u32 \<Rightarrow> u32 \<Rightarrow> bool \<Rightarrow> bool option" where
  \<comment> \<open>no earlier instruction owns the site; \<open>turns\<close> bounds the values of \<open>back\<close>\<close>
  "owner_loop 0 bytes back offset len isDefault32 = Some True"
| "owner_loop (Suc turns) bytes back offset len isDefault32 =
     (if back < X86_MAX_INSTRUCTION \<and> back \<le> offset then do {
        instructionLength \<leftarrow> X86InstructionLength bytes (offset - back) len isDefault32;
        owned \<leftarrow> (if instructionLength > back then X86IsInstructionStart bytes (offset - back) len isDefault32 else Some False);
        if owned then Some False else owner_loop turns bytes (back + 1) offset len isDefault32 }
      else Some True)"

definition X86IsIntSiteReal :: "u8 list \<Rightarrow> u32 \<Rightarrow> u32 \<Rightarrow> bool \<Rightarrow> bool option" where
  "X86IsIntSiteReal bytes offset len isDefault32 =
     do {
       start \<leftarrow> X86IsInstructionStart bytes offset len isDefault32;
       if start then Some True else owner_loop (unat X86_MAX_INSTRUCTION) bytes 1 offset len isDefault32 }"

end
