(* ===== verification/X86_Contract.thy ===== *)
theory X86_Contract
  imports X86_Length
begin

text \<open>
  What the length decoder promises: it reads the buffer only, it recognises exactly the instruction
  forms of a grammar (prefixes, opcode, operand byte with its displacement, immediate), wherever
  they stand and whatever follows, and the vote that decides which interrupt sites are patched
  never loses a real one in dense code.
\<close>

subsection \<open>The grammar of instructions\<close>

fun modrm_form :: "bool \<Rightarrow> u8 list \<Rightarrow> bool" where
  \<comment> \<open>the bytes are an operand byte with its SIB byte and displacement\<close>
  "modrm_form isAddress32 [] \<longleftrightarrow> False"
| "modrm_form isAddress32 (modrm # rest) \<longleftrightarrow>
     (let mode = drop_bit 6 modrm; rm = modrm AND 7; full = (if isAddress32 then 4 else 2)
      in if mode = 3 then rest = []
         else if isAddress32 \<and> rm = 4
         then (case rest of [] \<Rightarrow> False
               | sib # displacement \<Rightarrow>
                   length displacement = (if mode = 1 then 1 else if mode = 2 \<or> sib AND 7 = 5 then full else 0))
         else length rest = (if mode = 1 then 1 else if mode = 2 \<or> rm = (if isAddress32 then 5 else 6) then full else 0))"

definition operand_form :: "u32 \<Rightarrow> bool \<Rightarrow> bool \<Rightarrow> u8 list \<Rightarrow> bool" where
  \<comment> \<open>what the opcode map's entry asks for after the opcode\<close>
  "operand_form entry isOperand32 isAddress32 bs \<longleftrightarrow>
     (\<exists>m imm n. bs = m @ imm \<and>
       (if entry AND XL_MR \<noteq> 0 then modrm_form isAddress32 m else m = []) \<and>
       immediate_bytes (entry AND XL_KIND_MASK)
         (if entry AND XL_MR \<noteq> 0 then int (unat (drop_bit 3 (hd m) AND 7)) else - 1) isOperand32 isAddress32 = Some n \<and>
       length imm = unat n)"

fun opcode_form :: "bool \<Rightarrow> bool \<Rightarrow> u8 list \<Rightarrow> bool" where
  \<comment> \<open>an instruction without prefixes, in the given operand and address sizes\<close>
  "opcode_form isOperand32 isAddress32 [] \<longleftrightarrow> False"
| "opcode_form isOperand32 isAddress32 (opcode # rest) \<longleftrightarrow>
     (if opcode \<noteq> X86_ESCAPE then operand_form (ucast (g_X86OneByteTable ! unat opcode)) isOperand32 isAddress32 rest
      else (case rest of [] \<Rightarrow> False
            | opcode2 # rest2 \<Rightarrow>
                if opcode2 = X86_ESCAPE_38 then \<exists>opcode3 m. rest2 = opcode3 # m \<and> modrm_form isAddress32 m
                else if opcode2 = X86_ESCAPE_3A
                then \<exists>opcode3 m imm. rest2 = opcode3 # m @ [imm] \<and> modrm_form isAddress32 m
                else operand_form (X86TwoByteEntry opcode2) isOperand32 isAddress32 rest2))"

definition is_instruction :: "bool \<Rightarrow> u8 list \<Rightarrow> bool" where
  "is_instruction isDefault32 bs \<longleftrightarrow>
     (\<exists>ps rest. bs = ps @ rest \<and> (\<forall>p\<in>set ps. X86IsPrefix p) \<and> length ps \<le> X86_MAX_PREFIXES \<and>
        rest \<noteq> [] \<and> \<not> X86IsPrefix (hd rest) \<and>
        opcode_form (isDefault32 \<noteq> (X86_PREFIX_OPERAND_SIZE \<in> set ps)) (isDefault32 \<noteq> (X86_PREFIX_ADDRESS_SIZE \<in> set ps)) rest)"

subsection \<open>The decoder over the bytes ahead\<close>

fun modrm_size :: "bool \<Rightarrow> u8 list \<Rightarrow> nat" where
  \<comment> \<open>0 when the bytes run out before the size is known\<close>
  "modrm_size isAddress32 [] = 0"
| "modrm_size isAddress32 (modrm # rest) =
     (let mode = drop_bit 6 modrm; rm = modrm AND 7; full = (if isAddress32 then 4 else 2)
      in if mode = 3 then 1
         else if isAddress32 \<and> rm = 4
         then (case rest of [] \<Rightarrow> 0
               | sib # _ \<Rightarrow> 2 + (if mode = 1 then 1 else if mode = 2 \<or> mode = 0 \<and> sib AND 7 = 5 then full else 0))
         else 1 + (if mode = 1 then 1 else if mode = 2 \<or> mode = 0 \<and> rm = (if isAddress32 then 5 else 6) then full else 0))"

definition fit :: "u8 list \<Rightarrow> nat \<Rightarrow> nat" where
  "fit xs n = (if n \<le> length xs then n else 0)"

definition operand_size :: "u32 \<Rightarrow> bool \<Rightarrow> bool \<Rightarrow> u8 list \<Rightarrow> nat option" where
  "operand_size entry isOperand32 isAddress32 xs =
     (if entry AND XL_MR \<noteq> 0 then
        let m = modrm_size isAddress32 xs
        in if m = 0 then None
           else map_option (\<lambda>n. m + unat n)
             (immediate_bytes (entry AND XL_KIND_MASK) (int (unat (drop_bit 3 (hd xs) AND 7))) isOperand32 isAddress32)
      else map_option unat (immediate_bytes (entry AND XL_KIND_MASK) (- 1) isOperand32 isAddress32))"

definition opcode_size :: "bool \<Rightarrow> bool \<Rightarrow> u8 list \<Rightarrow> nat option" where
  \<comment> \<open>the bytes of an instruction from its opcode on, fitting or not\<close>
  "opcode_size isOperand32 isAddress32 xs =
     (case xs of [] \<Rightarrow> None
      | opcode # rest \<Rightarrow>
          if opcode = X86_ESCAPE then
            (case rest of [] \<Rightarrow> None
             | opcode2 # rest2 \<Rightarrow>
                 if opcode2 = X86_ESCAPE_38 \<or> opcode2 = X86_ESCAPE_3A then
                   (case rest2 of [] \<Rightarrow> None
                    | _ # rest3 \<Rightarrow>
                        let m = modrm_size isAddress32 rest3
                        in if m = 0 then None else Some (3 + m + (if opcode2 = X86_ESCAPE_3A then 1 else 0)))
                 else map_option (\<lambda>n. 2 + n) (operand_size (X86TwoByteEntry opcode2) isOperand32 isAddress32 rest2))
          else map_option (\<lambda>n. 1 + n) (operand_size (ucast (g_X86OneByteTable ! unat opcode)) isOperand32 isAddress32 rest))"

definition instruction_size :: "bool \<Rightarrow> u8 list \<Rightarrow> nat" where
  "instruction_size isDefault32 xs =
     (let ps = takeWhile X86IsPrefix xs
      in if length ps > X86_MAX_PREFIXES then 0
         else case opcode_size (isDefault32 \<noteq> (X86_PREFIX_OPERAND_SIZE \<in> set ps))
                     (isDefault32 \<noteq> (X86_PREFIX_ADDRESS_SIZE \<in> set ps)) (dropWhile X86IsPrefix xs) of
                None \<Rightarrow> 0
              | Some n \<Rightarrow> if length ps + n \<le> length xs then length ps + n else 0)"

definition code_buffer :: "u8 list \<Rightarrow> u32 \<Rightarrow> bool" where
  \<comment> \<open>the length passed is not more than the bytes there are, and 32-bit offsets past it do not wrap\<close>
  "code_buffer bytes len \<longleftrightarrow> unat len \<le> length bytes \<and> unat len + 32 < 2 ^ 32"

definition ahead :: "u8 list \<Rightarrow> u32 \<Rightarrow> u32 \<Rightarrow> u8 list" where
  "ahead bytes len offset = drop (unat offset) (take (unat len) bytes)"

lemma unat_offset: "code_buffer bytes len \<Longrightarrow> offset \<le> len \<Longrightarrow> n < 32 \<Longrightarrow> unat (offset + of_nat n) = unat offset + n"
  by (simp add: code_buffer_def word_le_nat_alt unat_word_ariths unat_of_nat)

lemma length_ahead: "code_buffer bytes len \<Longrightarrow> length (ahead bytes len offset) = unat len - unat offset"
  by (simp add: ahead_def code_buffer_def)

lemma ahead_Cons:
  assumes "code_buffer bytes len" "offset < len"
  shows "ahead bytes len offset = bytes ! unat offset # ahead bytes len (offset + 1)"
    "code_byte bytes offset = Some (bytes ! unat offset)"
proof -
  have u: "unat offset < unat len" "unat len \<le> length bytes"
    using assms by (simp_all add: word_less_nat_alt code_buffer_def)
  have "unat (offset + 1) = Suc (unat offset)"
    using unat_offset [OF assms(1), of offset 1] assms(2) by (simp add: less_imp_le)
  then show "ahead bytes len offset = bytes ! unat offset # ahead bytes len (offset + 1)"
    using u by (simp add: ahead_def Cons_nth_drop_Suc [symmetric])
  show "code_byte bytes offset = Some (bytes ! unat offset)" using u by (simp add: code_byte_def)
qed

lemma ahead_Nil: "offset \<ge> len \<Longrightarrow> ahead bytes len offset = []"
  by (simp add: ahead_def word_le_nat_alt)

lemma next_le: "offset < (len :: u32) \<Longrightarrow> offset + 1 \<le> len"
  by (rule inc_le)

lemma modrm_length_code:
  assumes "code_buffer bytes len"
  shows "X86ModrmLength bytes offset len a = Some (of_nat (modrm_size a (ahead bytes len offset)))"
proof (cases "offset < len")
  case False
  then show ?thesis by (simp add: X86ModrmLength_def ahead_Nil not_less)
next
  case True
  note xs = ahead_Cons [OF assms True]
  show ?thesis
  proof (cases "offset + 1 < len")
    case more: True
    show ?thesis
      using True more xs ahead_Cons [OF assms more]
      by (auto simp: X86ModrmLength_def Let_def not_less [symmetric])
  next
    case False
    then show ?thesis
      using True xs ahead_Nil [of len "offset + 1" bytes]
      by (auto simp: X86ModrmLength_def Let_def not_less)
  qed
qed
lemma prefix_loop_code:
  assumes "code_buffer bytes len" "offset \<le> len"
  shows "prefix_loop left bytes offset len d op a =
    (let ps = takeWhile X86IsPrefix (ahead bytes len offset)
     in if length ps > left then Some None
        else Some (Some (offset + of_nat (length ps), if X86_PREFIX_OPERAND_SIZE \<in> set ps then \<not> d else op,
               if X86_PREFIX_ADDRESS_SIZE \<in> set ps then \<not> d else a)))"
  using assms(2)
proof (induction left arbitrary: offset op a)
  case 0
  then show ?case
    using ahead_Cons [OF assms(1), of offset] ahead_Nil [of len offset bytes]
    by (cases "offset < len") (auto simp: prefix_loop.simps Let_def)
next
  case (Suc left)
  have differ: "X86_PREFIX_OPERAND_SIZE \<noteq> X86_PREFIX_ADDRESS_SIZE"
    by (simp add: X86_PREFIX_OPERAND_SIZE_def X86_PREFIX_ADDRESS_SIZE_def)
  show ?case
  proof (cases "offset < len \<and> X86IsPrefix (bytes ! unat offset)")
    case True
    note xs = ahead_Cons [OF assms(1)]
    have "prefix_loop (Suc left) bytes offset len d op a =
      prefix_loop left bytes (offset + 1) len d
        (if bytes ! unat offset = X86_PREFIX_OPERAND_SIZE then \<not> d else op)
        (if bytes ! unat offset \<noteq> X86_PREFIX_OPERAND_SIZE \<and> bytes ! unat offset = X86_PREFIX_ADDRESS_SIZE then \<not> d else a)"
      using True xs by (subst prefix_loop.simps) (simp add: Let_def)
    also note Suc.IH [OF next_le]
    finally show ?thesis
      using True xs differ by (auto simp: Let_def)
  next
    case False
    then show ?thesis
      using ahead_Cons [OF assms(1), of offset] ahead_Nil [of len offset bytes]
      by (cases "offset < len") (auto simp: prefix_loop.simps)
  qed
qed

lemma modrm_size_le: "modrm_size a xs \<le> 6"
  by (cases xs) (auto simp: Let_def split: list.split)

declare modrm_size.simps(2) [simp del]

lemma immediate_le: "immediate_bytes kind r op a = Some n \<Longrightarrow> unat n \<le> 6"
  by (auto simp: immediate_bytes_def Let_def split: if_splits)

lemma fits_code:
  fixes w :: u32
  assumes "code_buffer bytes len" "start \<le> offset" "offset \<le> len" "unat w < 20"
  shows "(if offset + w \<le> len then offset + w - start else 0) =
    of_nat (let k = unat offset - unat start + unat w in if k \<le> length (ahead bytes len start) then k else 0)"
proof -
  have u: "unat (offset + w) = unat offset + unat w" using unat_offset [of bytes len offset "unat w"] assms by simp
  have k: "length (ahead bytes len start) = unat len - unat start" using length_ahead [OF assms(1)] .
  have le: "unat start \<le> unat offset" "unat offset \<le> unat len" using assms by (simp_all add: word_le_nat_alt)
  have c: "offset + w \<le> len \<longleftrightarrow> unat offset - unat start + unat w \<le> length (ahead bytes len start)"
    using le by (auto simp: word_le_nat_alt u k)
  have "offset + w - start = of_nat (unat offset - unat start + unat w)"
    using le by (simp add: of_nat_diff)
  then show ?thesis using c by (simp add: Let_def)
qed

lemma finish_code:
  assumes "code_buffer bytes len" "start \<le> offset" "offset \<le> len"
  shows "finish_length bytes start offset len entry op a =
    Some (of_nat (case operand_size entry op a (ahead bytes len offset) of None \<Rightarrow> 0
      | Some n \<Rightarrow> let k = unat offset - unat start + n in if k \<le> length (ahead bytes len start) then k else 0))"
proof (cases "entry AND XL_MR \<noteq> 0")
  case False
  show ?thesis
  proof (cases "immediate_bytes (entry AND XL_KIND_MASK) (- 1) op a")
    case None
    then show ?thesis using False by (simp add: finish_length_def operand_size_def)
  next
    case (Some n)
    have "unat n < 20" using immediate_le [OF Some] by simp
    then show ?thesis
      using fits_code [OF assms, of n] False Some
      by (simp add: finish_length_def operand_size_def Let_def split del: if_split)
  qed
next
  case True
  define m where "m = modrm_size a (ahead bytes len offset)"
  have m: "m \<le> 6" "X86ModrmLength bytes offset len a = Some (of_nat m)"
    using modrm_size_le modrm_length_code [OF assms(1)] by (simp_all add: m_def)
  have zero: "(of_nat m :: u32) = 0 \<longleftrightarrow> m = 0"
    using m(1) by (simp add: word_unat_eq_iff unat_of_nat)
  show ?thesis
  proof (cases "offset < len")
    case False
    then have "m = 0" by (simp add: m_def ahead_Nil not_less)
    then show ?thesis using False True by (simp add: finish_length_def operand_size_def m_def [symmetric] not_less)
  next
    case inside: True
    note xs = ahead_Cons(2) [OF assms(1) inside]
    have hd: "hd (ahead bytes len offset) = bytes ! unat offset" using ahead_Cons(1) [OF assms(1) inside] by simp
    let ?r = "int (unat (drop_bit 3 (bytes ! unat offset) AND 7))"
    show ?thesis
    proof (cases "immediate_bytes (entry AND XL_KIND_MASK) ?r op a")
      case None
      then show ?thesis
        using True inside m(2) xs zero hd
        by (simp add: finish_length_def operand_size_def m_def [symmetric] Let_def not_le [THEN iffD2])
    next
      case (Some n)
      have sum: "unat (of_nat m + n) = m + unat n" "m + unat n < 20"
        using immediate_le [OF Some] m(1) by (simp_all add: unat_word_ariths unat_of_nat)
      have "finish_length bytes start offset len entry op a =
        Some (if m = 0 then 0 else if offset + (of_nat m + n) \<le> len then offset + (of_nat m + n) - start else 0)"
        using True Some m(2) xs zero inside by (auto simp: finish_length_def add.assoc)
      also have "\<dots> = Some (if m = 0 then 0
          else of_nat (let k = unat offset - unat start + (m + unat n) in if k \<le> length (ahead bytes len start) then k else 0))"
        using fits_code [OF assms, of "of_nat m + n"] sum by simp
      finally show ?thesis
        using True Some hd by (simp add: operand_size_def m_def [symmetric] Let_def)
    qed
  qed
qed
lemma escaped_code:
  assumes "code_buffer bytes len" "start \<le> offset" "offset \<le> len" "unat offset < unat start + 12"
  shows "escaped_length bytes start offset len opcode2 a =
    Some (of_nat (case ahead bytes len offset of [] \<Rightarrow> 0
      | _ # rest \<Rightarrow>
          let m = modrm_size a rest; k = unat offset - unat start + (1 + m + (if opcode2 = X86_ESCAPE_3A then 1 else 0))
          in if m \<noteq> 0 \<and> k \<le> length (ahead bytes len start) then k else 0))"
proof (cases "offset < len")
  case False
  then show ?thesis by (simp add: escaped_length_def ahead_Nil not_less)
next
  case True
  define m where "m = modrm_size a (ahead bytes len (offset + 1))"
  define w where "w = (1 + of_nat m + (if opcode2 = X86_ESCAPE_3A then 1 else 0) :: u32)"
  note xs = ahead_Cons [OF assms(1) True]
  have m: "m \<le> 6" "X86ModrmLength bytes (offset + 1) len a = Some (of_nat m)"
    using modrm_size_le modrm_length_code [OF assms(1)] by (simp_all add: m_def)
  have zero: "(of_nat m :: u32) = 0 \<longleftrightarrow> m = 0"
    using m(1) by (simp add: word_unat_eq_iff unat_of_nat)
  have w: "unat w = 1 + m + (if opcode2 = X86_ESCAPE_3A then 1 else 0)"
    using m(1) by (simp add: w_def unat_word_ariths unat_of_nat)
  have "escaped_length bytes start offset len opcode2 a =
    Some (if m = 0 then 0 else if offset + w \<le> len then offset + w - start else 0)"
    using True m(2) zero xs by (simp add: escaped_length_def w_def not_less [symmetric] ac_simps)
  also have "\<dots> = Some (if m = 0 then 0
      else of_nat (let k = unat offset - unat start + unat w in if k \<le> length (ahead bytes len start) then k else 0))"
    using fits_code [OF assms(1-3), of w] m(1) by (simp add: w)
  finally show ?thesis using xs by (simp add: m_def [symmetric] w Let_def)
qed

lemma ahead_drop:
  assumes "code_buffer bytes len" "offset \<le> len" "n < 32"
  shows "ahead bytes len (offset + of_nat n) = drop n (ahead bytes len offset)"
  using unat_offset [OF assms] by (simp add: ahead_def add.commute)

theorem instruction_length_code:
  assumes buffer: "code_buffer bytes len" and offset: "offset \<le> len"
  shows "X86InstructionLength bytes offset len d = Some (of_nat (instruction_size d (ahead bytes len offset)))"
proof -
  let ?xs = "ahead bytes len offset" and ?ps = "takeWhile X86IsPrefix (ahead bytes len offset)"
  show ?thesis
  proof (cases "length ?ps > X86_MAX_PREFIXES")
    case True
    then show ?thesis
      using prefix_loop_code [OF buffer offset] by (simp add: X86InstructionLength_def instruction_size_def Let_def)
  next
    case False
    define n where "n = length ?ps"
    define at_op where "at_op = offset + of_nat n"
    define op where "op = (d \<noteq> (X86_PREFIX_OPERAND_SIZE \<in> set ?ps))"
    define a where "a = (d \<noteq> (X86_PREFIX_ADDRESS_SIZE \<in> set ?ps))"
    have n: "n \<le> 8" "n \<le> length ?xs"
      using False by (simp_all add: n_def X86_MAX_PREFIXES_def length_takeWhile_le)
    have u: "unat at_op = unat offset + n" using unat_offset [OF buffer offset, of n] n by (simp add: at_op_def)
    have le: "offset \<le> at_op" "at_op \<le> len"
      using n length_ahead [OF buffer, of offset] offset by (simp_all add: word_le_nat_alt u)
    have rest: "dropWhile X86IsPrefix ?xs = ahead bytes len at_op"
      using ahead_drop [OF buffer offset, of n] n by (simp add: at_op_def n_def dropWhile_eq_drop)
    have loop: "prefix_loop X86_MAX_PREFIXES bytes offset len d d d = Some (Some (at_op, op, a))"
      using False prefix_loop_code [OF buffer offset, of X86_MAX_PREFIXES d d d]
      by (auto simp: Let_def at_op_def n_def op_def a_def)
    have size: "instruction_size d ?xs = (case opcode_size op a (ahead bytes len at_op) of None \<Rightarrow> 0
      | Some k \<Rightarrow> if n + k \<le> length ?xs then n + k else 0)"
      using False unfolding instruction_size_def Let_def n_def op_def a_def rest by (simp cong: if_cong)
    show ?thesis
    proof (cases "at_op < len")
      case False
      then show ?thesis
        unfolding X86InstructionLength_def loop size by (simp add: ahead_Nil not_less opcode_size_def)
    next
      case inside: True
      note op1 = ahead_Cons [OF buffer inside]
      have le1: "at_op + 1 \<le> len" "offset \<le> at_op + 1" "unat (at_op + 1) - unat offset = n + 1"
        using next_le [OF inside] unat_offset [OF buffer le(2), of 1] u by (simp_all add: word_le_nat_alt)
      show ?thesis
      proof (cases "bytes ! unat at_op = X86_ESCAPE")
        case False
        then show ?thesis
          using op1 inside finish_code [OF buffer le1(2) le1(1)] le1(3)
          unfolding X86InstructionLength_def loop size
          by (auto simp: opcode_size_def not_less [symmetric] Let_def split: option.split)
      next
        case escape: True
        show ?thesis
        proof (cases "at_op + 1 < len")
          case False
          then show ?thesis
            using op1 inside escape unfolding X86InstructionLength_def loop size
            by (simp add: opcode_size_def ahead_Nil not_less)
        next
          case True
          note op2 = ahead_Cons [OF buffer True]
          have le2: "at_op + 2 \<le> len" "offset \<le> at_op + 2" "unat (at_op + 2) - unat offset = n + 2"
            "unat (at_op + 2) < unat offset + 12"
            using next_le [OF True] unat_offset [OF buffer le(2), of 2] u n(1) by (simp_all add: word_le_nat_alt add.assoc)
          show ?thesis
            using op1 op2 inside True escape le2(3) finish_code [OF buffer le2(2) le2(1)] escaped_code [OF buffer le2(2) le2(1) le2(4)]
            unfolding X86InstructionLength_def loop size
            by (auto simp: opcode_size_def not_less [symmetric] Let_def add.assoc split: option.split list.split)
        qed
      qed
    qed
  qed
qed
subsection \<open>The decoder recognises the grammar\<close>

lemma mode_cases: "drop_bit 6 (m :: u8) = 0 \<or> drop_bit 6 m = 1 \<or> drop_bit 6 m = 2 \<or> drop_bit 6 m = 3"
proof -
  have "unat (drop_bit 6 m) < 4"
    using unsigned_less [of m, where 'a = nat] by (simp add: unsigned_drop_bit_eq drop_bit_eq_div del: drop_bit_eq_div) (simp add: drop_bit_eq_div take_bit_nat_eq_self)
  then have "unat (drop_bit 6 m) \<in> {0, 1, 2, 3}" by auto
  then show ?thesis by (auto simp: word_unat_eq_iff)
qed

lemma modrm_form_size: "modrm_form a m \<Longrightarrow> modrm_size a (m @ ys) = length m"
  using mode_cases [of "hd m"]
  by (cases m) (auto simp: Let_def modrm_size.simps(2) split: list.splits if_splits)

lemma modrm_size_form:
  assumes "modrm_size a xs = n" "n \<noteq> 0" "n \<le> length xs"
  shows "modrm_form a (take n xs)"
proof -
  obtain m rest where xs: "xs = m # rest" using assms by (cases xs) auto
  show ?thesis
    using mode_cases [of m] assms
    by (cases rest; elim disjE) (auto simp: Let_def xs modrm_size.simps(2) min_def split: if_splits)
qed

lemma operand_form_size:
  assumes "operand_form entry op a bs"
  shows "operand_size entry op a (bs @ ys) = Some (length bs)"
proof -
  obtain m imm n where bs: "bs = m @ imm"
    and m: "if entry AND XL_MR \<noteq> 0 then modrm_form a m else m = []"
    and imm: "immediate_bytes (entry AND XL_KIND_MASK)
      (if entry AND XL_MR \<noteq> 0 then int (unat (drop_bit 3 (hd m) AND 7)) else - 1) op a = Some n" "length imm = unat n"
    using assms unfolding operand_form_def by blast
  show ?thesis
  proof (cases "entry AND XL_MR \<noteq> 0")
    case True
    then have "modrm_size a (bs @ ys) = length m" "m \<noteq> []"
      using m modrm_form_size [of a m "imm @ ys"] bs by auto
    then show ?thesis using True imm bs by (simp add: operand_size_def)
  next
    case False
    then show ?thesis using m imm bs by (simp add: operand_size_def)
  qed
qed

lemma operand_size_form:
  assumes size: "operand_size entry op a xs = Some n" and fits: "n \<le> length xs"
  shows "operand_form entry op a (take n xs)"
proof (cases "entry AND XL_MR \<noteq> 0")
  case True
  define m where "m = modrm_size a xs"
  obtain k where k: "m \<noteq> 0" "n = m + unat k"
    "immediate_bytes (entry AND XL_KIND_MASK) (int (unat (drop_bit 3 (hd xs) AND 7))) op a = Some k"
    using size True by (auto simp: operand_size_def Let_def m_def split: if_splits)
  have "modrm_form a (take m xs)" using modrm_size_form [of a xs m] k fits by (simp add: m_def)
  moreover have "take n xs = take m xs @ take (unat k) (drop m xs)" using k(2) by (simp add: take_add)
  moreover have "hd (take m xs) = hd xs" using k(1) by simp
  ultimately show ?thesis
    unfolding operand_form_def
    using True k fits by (intro exI [of _ "take m xs"] exI [of _ "take (unat k) (drop m xs)"] exI [of _ k]) simp
next
  case False
  then show ?thesis
    using size fits by (auto simp: operand_form_def operand_size_def intro!: exI [of _ "[]"] exI [of _ "take n xs"])
qed

lemma opcode_form_size: "opcode_form op a bs \<Longrightarrow> opcode_size op a (bs @ ys) = Some (length bs)"
proof (cases bs)
  case (Cons opcode rest)
  assume form: "opcode_form op a bs"
  show ?thesis
  proof (cases "opcode = X86_ESCAPE")
    case False
    then show ?thesis using form Cons operand_form_size by (simp add: opcode_size_def)
  next
    case True
    then obtain opcode2 rest2 where rest: "rest = opcode2 # rest2" using form Cons by (cases rest) auto
    have differ: "X86_ESCAPE_38 \<noteq> X86_ESCAPE_3A" by (simp add: X86_ESCAPE_38_def X86_ESCAPE_3A_def)
    consider "opcode2 = X86_ESCAPE_38" | "opcode2 = X86_ESCAPE_3A" | "opcode2 \<noteq> X86_ESCAPE_38" "opcode2 \<noteq> X86_ESCAPE_3A"
      by blast
    then show ?thesis
    proof cases
      case 1
      then obtain opcode3 m where "rest2 = opcode3 # m" "modrm_form a m" using form Cons rest True by auto
      moreover from this(2) have "m \<noteq> []" by auto
      ultimately show ?thesis using Cons rest True 1 differ modrm_form_size [of a m ys] by (simp add: opcode_size_def Let_def)
    next
      case 2
      then obtain opcode3 m imm where "rest2 = opcode3 # m @ [imm]" "modrm_form a m"
        using form Cons rest True differ by auto
      moreover from this(2) have "m \<noteq> []" by auto
      ultimately show ?thesis
        using Cons rest True 2 modrm_form_size [of a m "imm # ys"] by (simp add: opcode_size_def Let_def)
    next
      case 3
      then show ?thesis using form Cons rest True operand_form_size [of _ op a rest2 ys] by (simp add: opcode_size_def)
    qed
  qed
qed simp

lemma opcode_size_form:
  assumes size: "opcode_size op a xs = Some n" and fits: "n \<le> length xs"
  shows "opcode_form op a (take n xs)" "n \<noteq> 0"
proof -
  obtain opcode rest where xs: "xs = opcode # rest" using size by (cases xs) (auto simp: opcode_size_def)
  have "opcode_form op a (take n xs) \<and> n \<noteq> 0"
  proof (cases "opcode = X86_ESCAPE")
    case False
    then obtain k where "n = 1 + k" "operand_size (ucast (g_X86OneByteTable ! unat opcode)) op a rest = Some k"
      using size xs by (auto simp: opcode_size_def)
    then show ?thesis using False xs fits operand_size_form by simp
  next
    case True
    then obtain opcode2 rest2 where rest: "rest = opcode2 # rest2"
      using size xs by (cases rest) (auto simp: opcode_size_def)
    show ?thesis
    proof (cases "opcode2 = X86_ESCAPE_38 \<or> opcode2 = X86_ESCAPE_3A")
      case False
      then obtain k where "n = 2 + k" "operand_size (X86TwoByteEntry opcode2) op a rest2 = Some k"
        using size xs rest True by (auto simp: opcode_size_def)
      then show ?thesis using False True xs rest fits operand_size_form by simp
    next
      case three: True
      then obtain opcode3 rest3 where rest2: "rest2 = opcode3 # rest3"
        using size xs rest True by (cases rest2) (auto simp: opcode_size_def)
      define m where "m = modrm_size a rest3"
      have m: "m \<noteq> 0" "n = 3 + m + (if opcode2 = X86_ESCAPE_3A then 1 else 0)"
        using size xs rest rest2 True three by (auto simp: opcode_size_def Let_def m_def split: if_splits)
      then have len: "m + (if opcode2 = X86_ESCAPE_3A then 1 else 0) \<le> length rest3"
        using fits xs rest rest2 by simp
      then have form: "modrm_form a (take m rest3)" using modrm_size_form [of a rest3 m] m(1) by (simp add: m_def)
      show ?thesis
      proof (cases "opcode2 = X86_ESCAPE_3A")
        case False
        then show ?thesis using three m form xs rest rest2 True by (simp add: take_Cons')
      next
        case last: True
        have "take (m + 1) rest3 = take m rest3 @ [rest3 ! m]"
          using len last by (simp add: take_Suc_conv_app_nth)
        moreover have "X86_ESCAPE_38 \<noteq> X86_ESCAPE_3A" by (simp add: X86_ESCAPE_38_def X86_ESCAPE_3A_def)
        ultimately show ?thesis using last m form xs rest rest2 True by (auto simp: take_Cons')
      qed
    qed
  qed
  then show "opcode_form op a (take n xs)" "n \<noteq> 0" by auto
qed
lemma instruction_size_form:
  assumes n: "instruction_size d xs = n" "n \<noteq> 0"
  shows "n \<le> length xs" "is_instruction d (take n xs)"
proof -
  define ps where "ps = takeWhile X86IsPrefix xs"
  define rest where "rest = dropWhile X86IsPrefix xs"
  have xs: "xs = ps @ rest" by (simp add: ps_def rest_def)
  let ?op = "d \<noteq> (X86_PREFIX_OPERAND_SIZE \<in> set ps)" and ?a = "d \<noteq> (X86_PREFIX_ADDRESS_SIZE \<in> set ps)"
  have size: "instruction_size d xs = (if length ps > X86_MAX_PREFIXES then 0
      else case opcode_size ?op ?a rest of None \<Rightarrow> 0 | Some k \<Rightarrow> if length ps + k \<le> length xs then length ps + k else 0)"
    by (simp only: instruction_size_def Let_def ps_def rest_def)
  then obtain k where k: "length ps \<le> X86_MAX_PREFIXES" "opcode_size ?op ?a rest = Some k" "n = length ps + k"
    "length ps + k \<le> length xs"
    using n by (auto split: if_splits option.splits)
  note form = opcode_size_form [OF k(2)]
  have kl: "k \<le> length rest" using k(4) xs by simp
  have "rest \<noteq> []" using form(2) kl by auto
  moreover from this have "\<not> X86IsPrefix (hd rest)" by (simp add: rest_def hd_dropWhile)
  moreover have "\<forall>p\<in>set ps. X86IsPrefix p" by (auto simp: ps_def dest: set_takeWhileD)
  moreover have "take n xs = ps @ take k rest" using xs k(3) by simp
  moreover have "hd (take k rest) = hd rest" "take k rest \<noteq> []" using form(2) kl \<open>rest \<noteq> []\<close> by simp_all
  ultimately show "is_instruction d (take n xs)"
    using form(1) kl k(1) unfolding is_instruction_def by (intro exI [of _ ps] exI [of _ "take k rest"]) simp
  show "n \<le> length xs" using k by simp
qed

lemma form_instruction_size:
  assumes "is_instruction d bs"
  shows "instruction_size d (bs @ ys) = length bs" "bs \<noteq> []"
proof -
  obtain ps rest where bs: "bs = ps @ rest" "\<forall>p\<in>set ps. X86IsPrefix p" "length ps \<le> X86_MAX_PREFIXES"
    "rest \<noteq> []" "\<not> X86IsPrefix (hd rest)"
    "opcode_form (d \<noteq> (X86_PREFIX_OPERAND_SIZE \<in> set ps)) (d \<noteq> (X86_PREFIX_ADDRESS_SIZE \<in> set ps)) rest"
    using assms unfolding is_instruction_def by blast
  have "takeWhile X86IsPrefix (rest @ ys) = []" "dropWhile X86IsPrefix (rest @ ys) = rest @ ys"
    using bs(4,5) by (cases rest; simp)+
  then have "takeWhile X86IsPrefix (bs @ ys) = ps" "dropWhile X86IsPrefix (bs @ ys) = rest @ ys"
    using bs by (simp_all add: takeWhile_append dropWhile_append)
  then show "instruction_size d (bs @ ys) = length bs"
    using bs opcode_form_size [OF bs(6), of ys] by (simp only: instruction_size_def Let_def) simp
  show "bs \<noteq> []" using bs by simp
qed

text \<open>
  C31. The decoder is the grammar. Anywhere in a code buffer it answers without reading outside
  it; a length other than 0 is that of an instruction of the grammar inside the buffer; and
  every instruction of the grammar is recognised wherever it stands, with its exact length,
  whatever bytes follow it.
\<close>

theorem x86_length_grammar:
  assumes buffer: "code_buffer bytes len" and offset: "offset \<le> len"
  shows "\<exists>l. X86InstructionLength bytes offset len d = Some l \<and>
    (l \<noteq> 0 \<longrightarrow> unat offset + unat l \<le> unat len \<and> is_instruction d (take (unat l) (ahead bytes len offset))) \<and>
    (\<forall>bs ys. ahead bytes len offset = bs @ ys \<and> is_instruction d bs \<longrightarrow> unat l = length bs)"
proof -
  let ?n = "instruction_size d (ahead bytes len offset)"
  have n: "?n \<noteq> 0 \<Longrightarrow> ?n \<le> unat len - unat offset \<and> is_instruction d (take ?n (ahead bytes len offset))"
    using instruction_size_form [of d "ahead bytes len offset"] length_ahead [OF buffer, of offset] by auto
  have "unat len < 2 ^ 32" using unsigned_less [of len, where 'a = nat] by simp
  moreover have "?n \<le> unat len" using n by (cases "?n = 0") auto
  ultimately have u: "unat (of_nat ?n :: u32) = ?n" by (simp add: unat_of_nat_small)
  have le: "unat offset \<le> unat len" using offset by (simp add: word_le_nat_alt)
  have "(of_nat ?n :: u32) \<noteq> 0 \<longrightarrow> unat offset + unat (of_nat ?n :: u32) \<le> unat len \<and>
      is_instruction d (take (unat (of_nat ?n :: u32)) (ahead bytes len offset))"
    using n le unfolding u by (cases "?n = 0") auto
  moreover have "unat (of_nat ?n :: u32) = length bs" if "ahead bytes len offset = bs @ ys" "is_instruction d bs" for bs ys
    using form_instruction_size(1) [OF that(2), of ys] that(1) u by simp
  ultimately show ?thesis using instruction_length_code [OF buffer offset, of d] by blast
qed
subsection \<open>The vote\<close>

inductive reaches :: "u8 list \<Rightarrow> u32 \<Rightarrow> bool \<Rightarrow> nat \<Rightarrow> nat \<Rightarrow> bool" for bytes len d where
  \<comment> \<open>decoding from one offset comes to an instruction boundary at another\<close>
  here: "reaches bytes len d s s"
| step: "reaches bytes len d s t" if
    "instruction_size d (drop s (take (unat len) bytes)) = n" "n \<noteq> 0" "reaches bytes len d (s + n) t"

inductive_cases reachesE: "reaches bytes len d s t"

lemma reaches_le: "reaches bytes len d s t \<Longrightarrow> s \<le> t"
  by (induction rule: reaches.induct) simp_all

lemma reaches_iff:
  "reaches bytes len d s t \<longleftrightarrow> s = t \<or>
    (let n = instruction_size d (drop s (take (unat len) bytes)) in n \<noteq> 0 \<and> reaches bytes len d (s + n) t)"
  by (auto simp: Let_def intro: reaches.intros elim: reachesE)

definition voted :: "u8 list \<Rightarrow> u32 \<Rightarrow> bool \<Rightarrow> nat \<Rightarrow> bool" where
  \<comment> \<open>a quarter of the offsets in the span before the site decode to it\<close>
  "voted bytes len d t \<longleftrightarrow> t < unat len \<and>
     min 48 t \<le> 4 * card {s. t - min 48 t \<le> s \<and> s < t \<and> reaches bytes len d s t}"

lemma decode_stream_reaches:
  assumes buffer: "code_buffer bytes len" and offset: "offset \<le> len" and position: "position \<le> len"
  shows "\<exists>p. decode_stream bytes position offset len d = Some p \<and>
    (position \<le> offset \<longrightarrow> (p = offset \<longleftrightarrow> reaches bytes len d (unat position) (unat offset)))"
  using position
proof (induction "unat len - unat position" arbitrary: position rule: less_induct)
  case less
  show ?case
  proof (cases "position < offset")
    case False
    then show ?thesis by (subst decode_stream.simps) (auto intro: here)
  next
    case True
    define n where "n = instruction_size d (ahead bytes len position)"
    obtain l where l: "X86InstructionLength bytes position len d = Some l" "l = of_nat n"
      using instruction_length_code [OF buffer less.prems, of d] by (simp add: n_def)
    have ahead: "instruction_size d (drop (unat position) (take (unat len) bytes)) = n" by (simp add: n_def ahead_def)
    have ne: "unat position \<noteq> unat offset" using True by (simp add: word_less_nat_alt)
    show ?thesis
    proof (cases "n = 0")
      case True
      then show ?thesis
        using l ahead ne \<open>position < offset\<close> reaches_iff [of bytes len d "unat position" "unat offset"]
        by (subst decode_stream.simps) (auto simp: Let_def)
    next
      case False
      have fits: "n \<le> unat len - unat position"
        using instruction_size_form(1) [of d "ahead bytes len position" n] False length_ahead [OF buffer] by (simp add: n_def)
      have len: "unat len < 2 ^ 32" using unsigned_less [of len, where 'a = nat] by simp
      have le: "unat position \<le> unat len" using less.prems by (simp add: word_le_nat_alt)
      have u: "unat l = n" "unat (position + l) = unat position + n"
        using fits le len unfolding l(2) by (simp_all add: unat_of_nat_small unat_word_ariths)
      have next_position: "position + l \<le> len" "unat len - unat (position + l) < unat len - unat position"
        using fits le False by (simp_all add: word_le_nat_alt u)
      have eq: "decode_stream bytes position offset len d = decode_stream bytes (position + l) offset len d"
        using l(1) u(1) False True by (subst decode_stream.simps) auto
      obtain p where p: "decode_stream bytes (position + l) offset len d = Some p"
        "position + l \<le> offset \<longrightarrow> (p = offset \<longleftrightarrow> reaches bytes len d (unat (position + l)) (unat offset))"
        using less.hyps [OF next_position(2,1)] by blast
      have "p = offset \<longleftrightarrow> reaches bytes len d (unat (position + l)) (unat offset)"
      proof (cases "position + l \<le> offset")
        case past: False
        then have "p = position + l" using p(1) by (subst (asm) decode_stream.simps) (simp add: not_le order_less_not_sym)
        then show ?thesis using past reaches_le [of bytes len d "unat (position + l)" "unat offset"] by (auto simp: word_le_nat_alt)
      qed (use p(2) in simp)
      then show ?thesis
        using p(1) eq ahead ne False u reaches_iff [of bytes len d "unat position" "unat offset"] by (simp add: Let_def)
    qed
  qed
qed
lemma vote_loop_counts:
  assumes buffer: "code_buffer bytes len" and offset: "offset \<le> len"
    and range: "unat start + turns = unat offset" and small: "unat tries + turns < 100" "unat votes \<le> unat tries"
  shows "vote_loop turns bytes start offset len d tries votes =
    Some (tries + of_nat turns,
      votes + of_nat (card {s. unat start \<le> s \<and> s < unat offset \<and> reaches bytes len d s (unat offset)}))"
  using range small
proof (induction turns arbitrary: start tries votes)
  case 0
  then have "{s. unat start \<le> s \<and> s < unat offset \<and> reaches bytes len d s (unat offset)} = {}" by auto
  then show ?case by (simp only: vote_loop.simps) simp
next
  case (Suc turns)
  let ?hits = "\<lambda>a. {s. a \<le> s \<and> s < unat offset \<and> reaches bytes len d s (unat offset)}"
  have lt: "unat start < unat offset" using Suc.prems(1) by simp
  then have le: "start \<le> offset" "start \<le> len" using offset by (simp_all add: word_le_nat_alt)
  have u: "unat (start + 1) = unat start + 1" using unat_offset [OF buffer le(2), of 1] by simp
  obtain p where p: "decode_stream bytes start offset len d = Some p"
    "p = offset \<longleftrightarrow> reaches bytes len d (unat start) (unat offset)"
    using decode_stream_reaches [OF buffer offset le(2), of d] le(1) by blast
  have t: "unat (tries + 1) = unat tries + 1" "unat (votes + 1) = unat votes + 1"
    using Suc.prems by (simp_all add: unat_word_ariths)
  have hits: "?hits (unat start) = (if p = offset then insert (unat start) (?hits (unat start + 1)) else ?hits (unat start + 1))"
    using p(2) lt by (auto simp: Suc_le_eq le_less dest: le_neq_implies_less)
  have fin: "finite (?hits a)" for a by (rule finite_subset [of _ "{..<unat offset}"]) auto
  have card: "card (?hits (unat start)) = (if p = offset then 1 else 0) + card (?hits (unat start + 1))"
    using hits fin [of "unat start + 1"] by (simp split: if_splits)
  have "vote_loop (Suc turns) bytes start offset len d tries votes =
    vote_loop turns bytes (start + 1) offset len d (tries + 1) (if p = offset then votes + 1 else votes)"
    by (simp add: p(1))
  also have "\<dots> = Some (tries + 1 + of_nat turns,
      (if p = offset then votes + 1 else votes) + of_nat (card (?hits (unat start + 1))))"
    using Suc.IH [of "start + 1" "tries + 1" "if p = offset then votes + 1 else votes"] Suc.prems u t by simp
  also have "\<dots> = Some (tries + of_nat (Suc turns), votes + of_nat (card (?hits (unat start))))"
    unfolding card by simp
  finally show ?case .
qed

lemma instruction_start_voted:
  assumes buffer: "code_buffer bytes len"
  shows "X86IsInstructionStart bytes offset len d = Some (voted bytes len d (unat offset))"
proof (cases "offset < len")
  case False
  then show ?thesis by (simp add: X86IsInstructionStart_def voted_def word_less_nat_alt word_le_nat_alt not_less)
next
  case True
  define span where "span = (if offset < X86_BOUNDARY_SPAN then offset else X86_BOUNDARY_SPAN)"
  define hits where "hits = {s. unat offset - unat span \<le> s \<and> s < unat offset \<and> reaches bytes len d s (unat offset)}"
  have span: "unat span = min 48 (unat offset)" "span \<le> offset"
    by (auto simp: span_def X86_BOUNDARY_SPAN_def word_less_nat_alt word_le_nat_alt)
  have start: "unat (offset - span) = unat offset - unat span" using span(2) by (rule unat_sub)
  have le: "unat span \<le> 48" "unat span \<le> unat offset" by (simp_all add: span(1))
  have "card hits \<le> card {unat offset - unat span..<unat offset}" by (rule card_mono) (auto simp: hits_def)
  then have card: "card hits \<le> 48" using le by simp
  then have u: "unat (of_nat (card hits) * 4 :: u32) = card hits * 4" "unat (of_nat (unat span) :: u32) = unat span"
    by (simp_all add: unat_word_ariths unat_of_nat)
  have "vote_loop (unat span) bytes (offset - span) offset len d 0 0 = Some (of_nat (unat span), of_nat (card hits))"
    using vote_loop_counts [OF buffer, of offset "offset - span" "unat span" 0 0 d] True start le
    by (simp add: hits_def)
  then have "X86IsInstructionStart bytes offset len d =
    Some (if span = 0 then True else of_nat (card hits) * 4 \<ge> span)"
    using True by (simp add: X86IsInstructionStart_def span_def [symmetric] X86_VOTE_FRACTION_def not_less [symmetric])
  also have "(if span = 0 then True else of_nat (card hits) * 4 \<ge> span) \<longleftrightarrow> unat span \<le> 4 * card hits"
    using u by (auto simp: word_le_nat_alt)
  finally show ?thesis
    using True by (simp add: voted_def hits_def span(1) word_less_nat_alt)
qed

definition owner :: "u8 list \<Rightarrow> u32 \<Rightarrow> bool \<Rightarrow> nat \<Rightarrow> nat \<Rightarrow> bool" where
  \<comment> \<open>an instruction the vote accepts starts at \<open>s\<close> and runs over the byte at \<open>t\<close>\<close>
  "owner bytes len d t s \<longleftrightarrow> s < t \<and> s + instruction_size d (drop s (take (unat len) bytes)) > t \<and> voted bytes len d s"

lemma owner_loop_decides:
  assumes buffer: "code_buffer bytes len" and offset: "offset \<le> len"
    and range: "16 \<le> unat b + turns" "0 < unat b"
  shows "owner_loop turns bytes b offset len d =
    Some (\<nexists>s. owner bytes len d (unat offset) s \<and> s + 16 > unat offset \<and> s + unat b \<le> unat offset)"
  using range
proof (induction turns arbitrary: b)
  case 0
  then show ?case by auto
next
  case (Suc turns)
  let ?t = "unat offset" and ?B = "unat b"
  show ?case
  proof (cases "b < X86_MAX_INSTRUCTION \<and> b \<le> offset")
    case False
    then have "16 \<le> ?B \<or> ?t < ?B" by (auto simp: X86_MAX_INSTRUCTION_def word_less_nat_alt word_le_nat_alt)
    then show ?thesis using False by auto
  next
    case True
    then have le: "?B < 16" "?B \<le> ?t" by (simp_all add: X86_MAX_INSTRUCTION_def word_less_nat_alt word_le_nat_alt)
    have s: "unat (offset - b) = ?t - ?B" using True by (simp add: unat_sub)
    have back_le: "offset - b \<le> len" using offset s by (simp add: word_le_nat_alt)
    have u: "unat (b + 1) = ?B + 1" using le by (simp add: unat_word_ariths)
    define n where "n = instruction_size d (ahead bytes len (offset - b))"
    obtain l where l: "X86InstructionLength bytes (offset - b) len d = Some l" "l = of_nat n"
      using instruction_length_code [OF buffer back_le, of d] by (simp add: n_def)
    have "n \<le> unat len - unat (offset - b)"
      using instruction_size_form(1) [of d "ahead bytes len (offset - b)" n] length_ahead [OF buffer, of "offset - b"]
      by (cases "n = 0") (simp_all add: n_def)
    then have "unat l = n" using unsigned_less [of len, where 'a = nat] unfolding l(2) by (simp add: unat_of_nat_small)
    then have owned: "b < l \<and> voted bytes len d (unat (offset - b)) \<longleftrightarrow> owner bytes len d ?t (?t - ?B)"
      using le Suc.prems by (auto simp: owner_def word_less_nat_alt s n_def ahead_def)
    have "owner_loop (Suc turns) bytes b offset len d =
      (if owner bytes len d ?t (?t - ?B) then Some False else owner_loop turns bytes (b + 1) offset len d)"
      using True l(1) instruction_start_voted [OF buffer, of "offset - b" d] owned by (cases "b < l") auto
    also have "\<dots> = Some (\<not> owner bytes len d ?t (?t - ?B) \<and>
        (\<nexists>s. owner bytes len d ?t s \<and> s + 16 > ?t \<and> s + (?B + 1) \<le> ?t))"
      using Suc.IH [of "b + 1"] Suc.prems u by simp
    also have "(\<not> owner bytes len d ?t (?t - ?B) \<and> (\<nexists>s. owner bytes len d ?t s \<and> s + 16 > ?t \<and> s + (?B + 1) \<le> ?t)) \<longleftrightarrow>
        (\<nexists>s. owner bytes len d ?t s \<and> s + 16 > ?t \<and> s + ?B \<le> ?t)"
    proof -
      let ?Q = "\<lambda>s. owner bytes len d ?t s \<and> s + 16 > ?t"
      have "s + ?B \<le> ?t \<longleftrightarrow> s = ?t - ?B \<or> s + (?B + 1) \<le> ?t" for s using le by arith
      then have "(\<exists>s. ?Q s \<and> s + ?B \<le> ?t) \<longleftrightarrow> ?Q (?t - ?B) \<or> (\<exists>s. ?Q s \<and> s + (?B + 1) \<le> ?t)" by auto
      then show ?thesis using le by auto
    qed
    finally show ?thesis .
  qed
qed

lemma site_decided:
  assumes buffer: "code_buffer bytes len" and offset: "offset \<le> len"
  shows "X86IsIntSiteReal bytes offset len d =
    Some (voted bytes len d (unat offset) \<or> (\<nexists>s. owner bytes len d (unat offset) s \<and> s + 16 > unat offset))"
proof -
  have "owner bytes len d (unat offset) s \<Longrightarrow> s + 1 \<le> unat offset" for s by (simp add: owner_def)
  then have "owner_loop (unat X86_MAX_INSTRUCTION) bytes 1 offset len d =
      Some (\<nexists>s. owner bytes len d (unat offset) s \<and> s + 16 > unat offset)"
    using owner_loop_decides [OF buffer offset, of 1 16 d] by (auto simp: X86_MAX_INSTRUCTION_def)
  then show ?thesis
    using instruction_start_voted [OF buffer, of offset d] by (simp add: X86IsIntSiteReal_def)
qed
text \<open>
  Which sites are patched. For any buffer and offset the decision is reached, reading only
  the buffer: the byte pair is taken for an interrupt instruction iff a quarter of the streams
  that start in the 48 bytes before it come to a boundary there, or no instruction that such a
  vote accepts, starting in the 15 bytes before, runs over it.
\<close>

theorem x86_site_verdict:
  assumes buffer: "code_buffer bytes len" and offset: "offset \<le> len"
  shows "X86IsIntSiteReal bytes offset len d =
    Some (voted bytes len d (unat offset) \<or> (\<nexists>s. owner bytes len d (unat offset) s \<and> s + 16 > unat offset))"
  using assms by (rule site_decided)

lemma reaches_code:
  assumes "\<forall>i\<in>set instructions. is_instruction d i" "drop s (take (unat len) bytes) = concat instructions @ rest"
  shows "reaches bytes len d s (s + length (concat instructions))"
  using assms
proof (induction instructions arbitrary: s)
  case Nil
  then show ?case by (simp add: here)
next
  case (Cons i instructions)
  have "drop (s + length i) (take (unat len) bytes) = drop (length i) (drop s (take (unat len) bytes))"
    by (simp add: add.commute)
  then have "drop (s + length i) (take (unat len) bytes) = concat instructions @ rest"
    unfolding Cons.prems(2) by simp
  then have "reaches bytes len d (s + length i) (s + length i + length (concat instructions))"
    using Cons.IH [of "s + length i"] Cons.prems(1) by simp
  moreover have "instruction_size d (drop s (take (unat len) bytes)) = length i" "length i \<noteq> 0"
    using Cons.prems form_instruction_size [of d i] by simp_all
  ultimately show ?case by (simp add: step add.assoc)
qed

lemma boundaries_count:
  assumes "\<forall>i\<in>set instructions. is_instruction d i" "drop s (take (unat len) bytes) = concat instructions @ rest"
    "t = s + length (concat instructions)"
  shows "length instructions \<le> card {p. s \<le> p \<and> p < t \<and> reaches bytes len d p t}"
  using assms
proof (induction instructions arbitrary: s)
  case (Cons i instructions)
  let ?hits = "\<lambda>s. {p. s \<le> p \<and> p < t \<and> reaches bytes len d p t}"
  have i: "0 < length i" using Cons.prems(1) form_instruction_size(2) [of d i] by simp
  have "drop (s + length i) (take (unat len) bytes) = drop (length i) (drop s (take (unat len) bytes))"
    by (simp add: add.commute)
  then have "length instructions \<le> card (?hits (s + length i))"
    using Cons.IH [of "s + length i"] Cons.prems by simp
  moreover have "insert s (?hits (s + length i)) \<subseteq> ?hits s"
    using reaches_code [OF Cons.prems(1,2)] Cons.prems(3) i by auto
  moreover have fin: "finite (?hits a)" for a by (rule finite_subset [of _ "{..<t}"]) auto
  ultimately show ?case
    using card_mono [of "?hits s" "insert s (?hits (s + length i))"] i by simp
qed simp

text \<open>
  C40. A real site is never lost in dense code. If the bytes before a site are complete
  instructions, at most 48 bytes of them, and they are at least a quarter as many as the bytes
  of the span (12 instructions in 48 bytes), the site is taken for an instruction start and the
  interrupt is patched, whatever the bytes in front of them and after them are.
\<close>

theorem x86_real_site_kept:
  assumes buffer: "code_buffer bytes len" and offset: "offset < len"
    and code: "\<forall>i\<in>set instructions. is_instruction d i"
      "ahead bytes len (offset - of_nat (length (concat instructions))) = concat instructions @ rest"
    and near: "length (concat instructions) \<le> min 48 (unat offset)"
    and dense: "min 48 (unat offset) \<le> 4 * length instructions"
  shows "X86IsInstructionStart bytes offset len d = Some True \<and> X86IsIntSiteReal bytes offset len d = Some True"
proof -
  let ?t = "unat offset" and ?k = "length (concat instructions)"
  have "(of_nat ?k :: u32) \<le> offset" using near by (simp add: word_le_nat_alt unat_of_nat)
  then have s: "unat (offset - of_nat ?k) = ?t - ?k" using near by (simp add: unat_sub unat_of_nat)
  let ?hits = "\<lambda>s. {p. s \<le> p \<and> p < ?t \<and> reaches bytes len d p ?t}"
  have "length instructions \<le> card (?hits (?t - ?k))"
    using boundaries_count [of instructions d "?t - ?k" len bytes rest ?t] code near s by (simp add: ahead_def)
  also have "\<dots> \<le> card (?hits (?t - min 48 ?t))"
  proof (rule card_mono)
    show "finite (?hits (?t - min 48 ?t))" by (rule finite_subset [of _ "{..<?t}"]) auto
  qed (use near in auto)
  finally have "voted bytes len d ?t"
    using dense offset by (simp add: voted_def word_less_nat_alt)
  then show ?thesis
    using instruction_start_voted [OF buffer, of offset d] site_decided [OF buffer less_imp_le [OF offset], of d] by simp
qed

subsection \<open>Concrete instances\<close>

lemma demo_instructions:
  "is_instruction False [0x66, 0xB8, 0x78, 0x56, 0x34, 0x12]" "is_instruction False [0xB4, 0x30]"
proof -
  have "operand_form (ucast (g_X86OneByteTable ! unat (0xB8 :: u8))) True False [0x78, 0x56, 0x34, 0x12]"
    unfolding operand_form_def
    by (intro exI [of _ "[]"] exI [of _ "[0x78, 0x56, 0x34, 0x12]"] exI [of _ 4])
      (simp add: g_X86OneByteTable_def XL_MR_def XL_KIND_MASK_def immediate_bytes_def xl_kinds)
  then show "is_instruction False [0x66, 0xB8, 0x78, 0x56, 0x34, 0x12]"
    unfolding is_instruction_def
    by (intro exI [of _ "[0x66]"] exI [of _ "[0xB8, 0x78, 0x56, 0x34, 0x12]"])
      (simp add: X86IsPrefix_def X86_MAX_PREFIXES_def X86_PREFIX_OPERAND_SIZE_def X86_PREFIX_ADDRESS_SIZE_def
        X86_PREFIX_ES_def X86_PREFIX_CS_def X86_PREFIX_SS_def X86_PREFIX_DS_def X86_PREFIX_FS_def X86_PREFIX_GS_def
        X86_PREFIX_LOCK_def X86_PREFIX_REPNE_def X86_PREFIX_REP_def X86_ESCAPE_def)
  have "operand_form (ucast (g_X86OneByteTable ! unat (0xB4 :: u8))) False False [0x30]"
    unfolding operand_form_def
    by (intro exI [of _ "[]"] exI [of _ "[0x30]"] exI [of _ 1])
      (simp add: g_X86OneByteTable_def XL_MR_def XL_KIND_MASK_def immediate_bytes_def xl_kinds)
  then show "is_instruction False [0xB4, 0x30]"
    unfolding is_instruction_def
    by (intro exI [of _ "[]"] exI [of _ "[0xB4, 0x30]"])
      (simp add: X86IsPrefix_def X86_PREFIX_OPERAND_SIZE_def X86_PREFIX_ADDRESS_SIZE_def
        X86_PREFIX_ES_def X86_PREFIX_CS_def X86_PREFIX_SS_def X86_PREFIX_DS_def X86_PREFIX_FS_def X86_PREFIX_GS_def
        X86_PREFIX_LOCK_def X86_PREFIX_REPNE_def X86_PREFIX_REP_def X86_ESCAPE_def)
qed

lemma x86_length_grammar_witness:
  "X86InstructionLength [0xCD, 0x66, 0xB8, 0x78, 0x56, 0x34, 0x12, 0x90] 1 8 False = Some 6"
proof -
  let ?bytes = "[0xCD, 0x66, 0xB8, 0x78, 0x56, 0x34, 0x12, 0x90] :: u8 list"
  have "code_buffer ?bytes 8" by (simp add: code_buffer_def)
  then obtain l where l: "X86InstructionLength ?bytes 1 8 False = Some l"
    "\<forall>bs ys. ahead ?bytes 8 1 = bs @ ys \<and> is_instruction False bs \<longrightarrow> unat l = length bs"
    using x86_length_grammar [of ?bytes 8 1 False] by auto
  have "ahead ?bytes 8 1 = [0x66, 0xB8, 0x78, 0x56, 0x34, 0x12] @ [0x90]" by (simp add: ahead_def)
  then have "unat l = length [0x66, 0xB8, 0x78, 0x56, 0x34, 0x12 :: u8]"
    using demo_instructions(1) by (intro l(2) [rule_format] conjI)
  then have "l = 6" by (simp add: word_unat_eq_iff)
  then show ?thesis using l(1) by simp
qed

lemma x86_site_verdict_witness:
  "X86IsIntSiteReal [0x39, 0xFA, 0x7E, 0xCD, 0x31, 0xC9] 3 6 True = Some False"
proof -
  let ?bytes = "[0x39, 0xFA, 0x7E, 0xCD, 0x31, 0xC9] :: u8 list"
  have sizes: "instruction_size True [0x39, 0xFA, 0x7E, 0xCD, 0x31, 0xC9] = 2" "instruction_size True [0xFA, 0x7E, 0xCD, 0x31, 0xC9] = 1"
    "instruction_size True [0x7E, 0xCD, 0x31, 0xC9] = 2"
    by code_simp+
  have buffer: "code_buffer ?bytes 6" by (simp add: code_buffer_def)
  have past: "\<not> reaches ?bytes 6 True 4 t" if "t < 4" for t using reaches_le that by fastforce
  have no2: "\<not> reaches ?bytes 6 True 2 3"
    using past [of 3] reaches_iff [of ?bytes 6 True 2 3] by (simp add: sizes)
  have no: "\<not> reaches ?bytes 6 True s 3" if "s \<in> {0, 1, 2}" for s
    using that no2 reaches_iff [of ?bytes 6 True 1 3] reaches_iff [of ?bytes 6 True 0 3]
    by (auto simp: sizes numeral_2_eq_2 [symmetric])
  have yes: "reaches ?bytes 6 True s 2" if "s \<in> {0, 1}" for s
    using that here [of ?bytes 6 True 2] reaches_iff [of ?bytes 6 True 1 2] reaches_iff [of ?bytes 6 True 0 2]
    by (auto simp: sizes numeral_2_eq_2 [symmetric])
  have "{s. s < 3 \<and> reaches ?bytes 6 True s 3} = {}"
  proof -
    have "s \<in> {0, 1, 2}" if "s < 3" for s :: nat using that by auto
    then show ?thesis using no by blast
  qed
  then have site: "\<not> voted ?bytes 6 True 3" by (simp add: voted_def del: Collect_empty_eq)
  have "{s. s < 2 \<and> reaches ?bytes 6 True s 2} = {0, 1}"
  proof -
    have "s \<in> {0, 1} \<longleftrightarrow> s < 2" for s :: nat by auto
    then show ?thesis using yes by blast
  qed
  then have "voted ?bytes 6 True 2" by (simp add: voted_def)
  then have "owner ?bytes 6 True 3 2" by (simp add: owner_def sizes)
  then show ?thesis
    using x86_site_verdict [OF buffer, of 3 True] site by fastforce
qed

lemma x86_real_site_kept_witness:
  "X86IsIntSiteReal [0xB4, 0x30, 0xCD, 0x21] 2 4 False = Some True"
proof -
  let ?bytes = "[0xB4, 0x30, 0xCD, 0x21] :: u8 list"
  have "code_buffer ?bytes 4" by (simp add: code_buffer_def)
  moreover have "ahead ?bytes 4 (2 - of_nat (length (concat [[0xB4 :: u8, 0x30]]))) = concat [[0xB4, 0x30]] @ [0xCD, 0x21]"
    by (simp add: ahead_def)
  ultimately show ?thesis
    using x86_real_site_kept [of ?bytes 4 2 "[[0xB4, 0x30]]" False "[0xCD, 0x21]"] demo_instructions(2) by simp
qed

end
