(* ===== verification/V86_Cpu.thy ===== *)
theory V86_Cpu
  imports Prelude "HOL-Library.State_Monad" "HOL-Library.Signed_Division"
begin

text \<open>
  The processor state and the helpers of the 16-bit interpreter, \<^verbatim>\<open>src/host/v86cpu.h\<close> and the first
  part of \<^verbatim>\<open>src/host/v86interp.h\<close>: operand widths, guest memory, the stack, the register file, the
  flags, the arithmetic and shift units, the condition codes and the operand decoder. What the
  including file provides (guest byte access, port access, the selector tables of protected mode)
  is a record of functions on an abstract machine \<open>'m\<close>; an access may change the machine, as a
  read of the video aperture loads the latches. A routine that touches the machine is a
  computation in the state monad over the processor and the machine. Code bytes are fetched
  through the byte access, as they are without \<^verbatim>\<open>V86I_CODE_PTR\<close>.
\<close>

subsection \<open>The encoding's numbers\<close>

abbreviation X86_REG_AX :: nat where "X86_REG_AX \<equiv> 0"
abbreviation X86_REG_CX :: nat where "X86_REG_CX \<equiv> 1"
abbreviation X86_REG_DX :: nat where "X86_REG_DX \<equiv> 2"
abbreviation X86_REG_BX :: nat where "X86_REG_BX \<equiv> 3"
abbreviation X86_REG_SP :: nat where "X86_REG_SP \<equiv> 4"
abbreviation X86_REG_BP :: nat where "X86_REG_BP \<equiv> 5"
abbreviation X86_REG_SI :: nat where "X86_REG_SI \<equiv> 6"
abbreviation X86_REG_DI :: nat where "X86_REG_DI \<equiv> 7"
abbreviation X86_SREG_ES :: nat where "X86_SREG_ES \<equiv> 0"
abbreviation X86_SREG_CS :: nat where "X86_SREG_CS \<equiv> 1"
abbreviation X86_SREG_SS :: nat where "X86_SREG_SS \<equiv> 2"
abbreviation X86_SREG_DS :: nat where "X86_SREG_DS \<equiv> 3"
abbreviation X86_SREG_FS :: nat where "X86_SREG_FS \<equiv> 4"
abbreviation X86_SREG_GS :: nat where "X86_SREG_GS \<equiv> 5"

abbreviation EFLAGS_CF_U :: u32 where "EFLAGS_CF_U \<equiv> 0x0001"
abbreviation EFLAGS_RESERVED_ONE_U :: u32 where "EFLAGS_RESERVED_ONE_U \<equiv> 0x0002"
abbreviation EFLAGS_PF_U :: u32 where "EFLAGS_PF_U \<equiv> 0x0004"
abbreviation EFLAGS_AF_U :: u32 where "EFLAGS_AF_U \<equiv> 0x0010"
abbreviation EFLAGS_ZF_U :: u32 where "EFLAGS_ZF_U \<equiv> 0x0040"
abbreviation EFLAGS_SF_U :: u32 where "EFLAGS_SF_U \<equiv> 0x0080"
abbreviation EFLAGS_TF_U :: u32 where "EFLAGS_TF_U \<equiv> 0x0100"
abbreviation EFLAGS_IF_U :: u32 where "EFLAGS_IF_U \<equiv> 0x0200"
abbreviation EFLAGS_DF_U :: u32 where "EFLAGS_DF_U \<equiv> 0x0400"
abbreviation EFLAGS_OF_U :: u32 where "EFLAGS_OF_U \<equiv> 0x0800"
abbreviation EFLAGS_RF_U :: u32 where "EFLAGS_RF_U \<equiv> 0x00010000"
abbreviation EFLAGS_VM_U :: u32 where "EFLAGS_VM_U \<equiv> 0x00020000"
abbreviation EFLAGS_VIF_U :: u32 where "EFLAGS_VIF_U \<equiv> 0x00080000"
abbreviation V86I_EFL_HI :: u32 where "V86I_EFL_HI \<equiv> 0x00240000"
abbreviation V86_FLAGS_MODELLED :: u32 where "V86_FLAGS_MODELLED \<equiv> 0x0FD5"
abbreviation V86_ARITHMETIC_FLAGS :: u32 where "V86_ARITHMETIC_FLAGS \<equiv> 0x08D5" \<comment> \<open>CF PF AF ZF SF OF\<close>
abbreviation HIGH_WORD_MASK_U :: u32 where "HIGH_WORD_MASK_U \<equiv> 0xFFFF0000"
abbreviation V86_GUEST_LIMIT :: u32 where "V86_GUEST_LIMIT \<equiv> 0x110000"
abbreviation V86_OFFSET_MAX :: u32 where "V86_OFFSET_MAX \<equiv> 0xFFFF"

subsection \<open>State\<close>

record v86_cpu =
  Registers :: "nat \<Rightarrow> u32"
  Segments :: "nat \<Rightarrow> u16"
  Ip :: u16
  Flags :: u32

record 'm v86_host =
  HostRead8 :: "u32 \<Rightarrow> 'm \<Rightarrow> u8 \<times> 'm"
  HostWrite8 :: "u32 \<Rightarrow> u8 \<Rightarrow> 'm \<Rightarrow> 'm"
  HostIn :: "u16 \<Rightarrow> nat \<Rightarrow> 'm \<Rightarrow> u32 \<times> 'm"
  HostOut :: "u16 \<Rightarrow> nat \<Rightarrow> u32 \<Rightarrow> 'm \<Rightarrow> 'm"
  SegmentToLinear :: "(u16 \<Rightarrow> u32) option" \<comment> \<open>\<open>None\<close> in real and virtual-8086 mode\<close>
  SelectorDescriptor :: "(u16 \<Rightarrow> (u32 \<times> u32) option) option" \<comment> \<open>access rights and limit of a valid selector\<close>

type_synonym ('m, 'a) guest = "(v86_cpu \<times> 'm, 'a) state"

definition get_cpu :: "('m, v86_cpu) guest" where
  "get_cpu = State (\<lambda>(cpu, m). (cpu, (cpu, m)))"

definition update_cpu :: "(v86_cpu \<Rightarrow> v86_cpu) \<Rightarrow> ('m, unit) guest" where
  "update_cpu f = State (\<lambda>(cpu, m). ((), (f cpu, m)))"

definition on_cpu :: "(v86_cpu \<Rightarrow> 'a \<times> v86_cpu) \<Rightarrow> ('m, 'a) guest" where
  "on_cpu f = State (\<lambda>(cpu, m). case f cpu of (v, cpu') \<Rightarrow> (v, (cpu', m)))"

definition host_read8 :: "'m v86_host \<Rightarrow> u32 \<Rightarrow> ('m, u8) guest" where
  "host_read8 h linear = State (\<lambda>(cpu, m). case HostRead8 h linear m of (v, m') \<Rightarrow> (v, (cpu, m')))"

definition host_write8 :: "'m v86_host \<Rightarrow> u32 \<Rightarrow> u8 \<Rightarrow> ('m, unit) guest" where
  "host_write8 h linear v = State (\<lambda>(cpu, m). ((), (cpu, HostWrite8 h linear v m)))"

definition host_in :: "'m v86_host \<Rightarrow> u16 \<Rightarrow> nat \<Rightarrow> ('m, u32) guest" where
  "host_in h port width = State (\<lambda>(cpu, m). case HostIn h port width m of (v, m') \<Rightarrow> (v, (cpu, m')))"

definition host_out :: "'m v86_host \<Rightarrow> u16 \<Rightarrow> nat \<Rightarrow> u32 \<Rightarrow> ('m, unit) guest" where
  "host_out h port width v = State (\<lambda>(cpu, m). ((), (cpu, HostOut h port width v m)))"

subsection \<open>Operand widths, memory and the stack\<close>

definition V86Parity :: "u8 \<Rightarrow> bool" where
  "V86Parity v = (let folded = v XOR drop_bit 4 v in drop_bit (unat (folded AND 0x0F)) (0x6996 :: u32) AND 1 = 0)"

definition V86Mask :: "nat \<Rightarrow> u32" where
  "V86Mask width = (if width = 1 then 0xFF else if width = 2 then 0xFFFF else 0xFFFFFFFF)"

definition V86SignBit :: "nat \<Rightarrow> u32" where
  "V86SignBit width = (if width = 1 then 0x80 else if width = 2 then 0x8000 else 0x80000000)"

definition V86SegmentBase :: "'m v86_host \<Rightarrow> u16 \<Rightarrow> u32" where
  "V86SegmentBase h segment = (case SegmentToLinear h of None \<Rightarrow> push_bit 4 (ucast segment) | Some f \<Rightarrow> f segment)"

definition V86ReadMemory :: "'m v86_host \<Rightarrow> u32 \<Rightarrow> nat \<Rightarrow> ('m, u32) guest" where
  "V86ReadMemory h linear width = do {
     b0 \<leftarrow> host_read8 h linear;
     low \<leftarrow> (if width \<ge> 2 then do {
               b1 \<leftarrow> host_read8 h (linear + 1);
               State_Monad.return (ucast b0 OR push_bit 8 (ucast b1)) }
             else State_Monad.return (ucast b0));
     if width = 4 then do {
       b2 \<leftarrow> host_read8 h (linear + 2);
       b3 \<leftarrow> host_read8 h (linear + 3);
       State_Monad.return (low OR (push_bit 16 (ucast b2) OR push_bit 24 (ucast b3))) }
     else State_Monad.return low }"

definition V86WriteMemory :: "'m v86_host \<Rightarrow> u32 \<Rightarrow> nat \<Rightarrow> u32 \<Rightarrow> ('m, unit) guest" where
  "V86WriteMemory h linear width v = do {
     host_write8 h linear (ucast v);
     (if width \<ge> 2 then host_write8 h (linear + 1) (ucast (drop_bit 8 v)) else State_Monad.return ());
     (if width = 4 then do {
        host_write8 h (linear + 2) (ucast (drop_bit 16 v));
        host_write8 h (linear + 3) (ucast (drop_bit 24 v)) }
      else State_Monad.return ()) }"

definition V86Get16 :: "v86_cpu \<Rightarrow> nat \<Rightarrow> u16" where
  "V86Get16 cpu registerIndex = ucast (Registers cpu (registerIndex mod 8))"

definition V86Set16 :: "nat \<Rightarrow> u16 \<Rightarrow> v86_cpu \<Rightarrow> v86_cpu" where
  "V86Set16 registerIndex v cpu =
     (let r = registerIndex mod 8
      in cpu\<lparr>Registers := (Registers cpu)(r := (Registers cpu r AND HIGH_WORD_MASK_U) OR ucast v)\<rparr>)"

definition V86Push :: "'m v86_host \<Rightarrow> nat \<Rightarrow> u32 \<Rightarrow> ('m, unit) guest" where
  "V86Push h width v = do {
     cpu \<leftarrow> get_cpu;
     let stackPointer = (ucast (Registers cpu X86_REG_SP - of_nat width) :: u16);
     V86WriteMemory h (V86SegmentBase h (Segments cpu X86_SREG_SS) + ucast stackPointer) width v;
     update_cpu (V86Set16 X86_REG_SP stackPointer) }"

definition V86Pop :: "'m v86_host \<Rightarrow> nat \<Rightarrow> ('m, u32) guest" where
  "V86Pop h width = do {
     cpu \<leftarrow> get_cpu;
     let stackPointer = (ucast (Registers cpu X86_REG_SP) :: u16);
     v \<leftarrow> V86ReadMemory h (V86SegmentBase h (Segments cpu X86_SREG_SS) + ucast stackPointer) width;
     update_cpu (V86Set16 X86_REG_SP (stackPointer + of_nat width));
     State_Monad.return v }"

definition V86PushSegment :: "'m v86_host \<Rightarrow> nat \<Rightarrow> u16 \<Rightarrow> ('m, unit) guest" where
  "V86PushSegment h width v = do {
     cpu \<leftarrow> get_cpu;
     let stackPointer = (ucast (Registers cpu X86_REG_SP - of_nat width) :: u16);
     V86WriteMemory h (V86SegmentBase h (Segments cpu X86_SREG_SS) + ucast stackPointer) 2 (ucast v);
     update_cpu (V86Set16 X86_REG_SP stackPointer) }"

definition V86FlagsImage :: "'m v86_host \<Rightarrow> nat \<Rightarrow> v86_cpu \<Rightarrow> u32" where
  "V86FlagsImage h width cpu =
     (let value = (Flags cpu AND V86_FLAGS_MODELLED) OR EFLAGS_RESERVED_ONE_U
      in if width = 4 then
           let value = value OR (Flags cpu AND V86I_EFL_HI)
           in if SegmentToLinear h = None
              then value OR ((EFLAGS_RF_U OR EFLAGS_VM_U) OR (if Flags cpu AND EFLAGS_IF_U \<noteq> 0 then EFLAGS_VIF_U else 0))
              else value
         else value)"

definition V86FlagsLoad :: "u32 \<Rightarrow> nat \<Rightarrow> v86_cpu \<Rightarrow> v86_cpu" where
  "V86FlagsLoad v width cpu =
     (let low = (v AND V86_FLAGS_MODELLED) OR EFLAGS_RESERVED_ONE_U
      in if width = 2 then cpu\<lparr>Flags := (Flags cpu AND NOT 0xFFFF) OR low\<rparr>
         else cpu\<lparr>Flags := (Flags cpu AND NOT (0xFFFF OR V86I_EFL_HI)) OR (v AND V86I_EFL_HI) OR low\<rparr>)"

definition V86IsFarTargetValid :: "'m v86_host \<Rightarrow> v86_cpu \<Rightarrow> u16 \<Rightarrow> u32 \<Rightarrow> bool" where
  "V86IsFarTargetValid h cpu selector offset =
     (case SelectorDescriptor h of None \<Rightarrow> False
      | Some descriptor \<Rightarrow>
          (case descriptor selector of None \<Rightarrow> False
           | Some (accessRights, limit) \<Rightarrow>
               accessRights AND 0x8000 \<noteq> 0 \<and> accessRights AND 0x0800 \<noteq> 0 \<and>
               accessRights AND 0x400000 = 0 \<and>
               selector AND 3 = Segments cpu X86_SREG_CS AND 3 \<and>
               offset \<le> limit))"

subsection \<open>The register file\<close>

definition V86Get8 :: "v86_cpu \<Rightarrow> nat \<Rightarrow> u8" where
  "V86Get8 cpu registerIndex =
     (if registerIndex < 4 then ucast (Registers cpu registerIndex)
      else ucast (drop_bit 8 (Registers cpu (registerIndex - 4))))"

definition V86Set8 :: "nat \<Rightarrow> u8 \<Rightarrow> v86_cpu \<Rightarrow> v86_cpu" where
  "V86Set8 registerIndex v cpu =
     (if registerIndex < 4
      then cpu\<lparr>Registers := (Registers cpu)(registerIndex := (Registers cpu registerIndex AND NOT 0xFF) OR ucast v)\<rparr>
      else let r = registerIndex - 4
           in cpu\<lparr>Registers := (Registers cpu)(r := (Registers cpu r AND NOT 0xFF00) OR push_bit 8 (ucast v))\<rparr>)"

definition V86GetRegister :: "v86_cpu \<Rightarrow> nat \<Rightarrow> nat \<Rightarrow> u32" where
  "V86GetRegister cpu registerIndex width =
     (if width = 1 then ucast (V86Get8 cpu registerIndex)
      else if width = 2 then ucast (ucast (Registers cpu (registerIndex mod 8)) :: u16)
      else Registers cpu (registerIndex mod 8))"

definition V86SetRegister :: "nat \<Rightarrow> nat \<Rightarrow> u32 \<Rightarrow> v86_cpu \<Rightarrow> v86_cpu" where
  "V86SetRegister registerIndex width v cpu =
     (if width = 1 then V86Set8 registerIndex (ucast v) cpu
      else if width = 2 then V86Set16 registerIndex (ucast v) cpu
      else cpu\<lparr>Registers := (Registers cpu)(registerIndex mod 8 := v)\<rparr>)"
subsection \<open>The arithmetic and logic unit\<close>

definition flag_if :: "bool \<Rightarrow> u32 \<Rightarrow> u32 \<Rightarrow> u32" where
  "flag_if b f flags = (if b then flags OR f else flags)"

definition result_flags :: "nat \<Rightarrow> u32 \<Rightarrow> u32 \<Rightarrow> u32" where
  \<comment> \<open>zero, sign and parity of a result\<close>
  "result_flags width result flags =
     flag_if (V86Parity (ucast result)) EFLAGS_PF_U
       (flag_if (result AND V86SignBit width \<noteq> 0) EFLAGS_SF_U (flag_if (result = 0) EFLAGS_ZF_U flags))"

definition V86Add :: "u32 \<Rightarrow> u32 \<Rightarrow> bool \<Rightarrow> nat \<Rightarrow> v86_cpu \<Rightarrow> u32 \<times> v86_cpu" where
  "V86Add first second carryIn width cpu =
     (let widthMask = V86Mask width; signBit = V86SignBit width;
          maskedFirst = first AND widthMask; maskedSecond = second AND widthMask;
          full = maskedFirst + maskedSecond + (if carryIn then 1 else 0);
          result = full AND widthMask;
          carry = (if width = 4 then if carryIn then full \<le> maskedFirst else full < maskedFirst else full > widthMask);
          flags = Flags cpu AND NOT V86_ARITHMETIC_FLAGS;
          flags = flag_if carry EFLAGS_CF_U flags;
          flags = flag_if ((maskedFirst XOR maskedSecond XOR result) AND EFLAGS_AF_U \<noteq> 0) EFLAGS_AF_U flags;
          flags = result_flags width result flags;
          flags = flag_if (NOT (maskedFirst XOR maskedSecond) AND (maskedFirst XOR result) AND signBit \<noteq> 0) EFLAGS_OF_U flags
      in (result, cpu\<lparr>Flags := flags\<rparr>))"

definition V86Subtract :: "u32 \<Rightarrow> u32 \<Rightarrow> bool \<Rightarrow> nat \<Rightarrow> v86_cpu \<Rightarrow> u32 \<times> v86_cpu" where
  "V86Subtract first second borrowIn width cpu =
     (let widthMask = V86Mask width; signBit = V86SignBit width;
          maskedFirst = first AND widthMask; maskedSecond = second AND widthMask;
          result = (maskedFirst - maskedSecond - (if borrowIn then 1 else 0)) AND widthMask;
          borrow = (if borrowIn then maskedFirst \<le> maskedSecond else maskedFirst < maskedSecond);
          flags = Flags cpu AND NOT V86_ARITHMETIC_FLAGS;
          flags = flag_if borrow EFLAGS_CF_U flags;
          flags = flag_if ((maskedFirst XOR maskedSecond XOR result) AND EFLAGS_AF_U \<noteq> 0) EFLAGS_AF_U flags;
          flags = result_flags width result flags;
          flags = flag_if ((maskedFirst XOR maskedSecond) AND (maskedFirst XOR result) AND signBit \<noteq> 0) EFLAGS_OF_U flags
      in (result, cpu\<lparr>Flags := flags\<rparr>))"

definition V86Logic :: "u32 \<Rightarrow> nat \<Rightarrow> v86_cpu \<Rightarrow> v86_cpu" where
  "V86Logic result width cpu =
     cpu\<lparr>Flags := result_flags width (result AND V86Mask width) (Flags cpu AND NOT V86_ARITHMETIC_FLAGS)\<rparr>"

definition V86Alu :: "nat \<Rightarrow> u32 \<Rightarrow> u32 \<Rightarrow> nat \<Rightarrow> v86_cpu \<Rightarrow> u32 \<times> v86_cpu" where
  \<comment> \<open>ADD OR ADC SBB AND SUB XOR CMP\<close>
  "V86Alu operation first second width cpu =
     (if operation = 0 then V86Add first second False width cpu
      else if operation = 1 then (first OR second, V86Logic (first OR second) width cpu)
      else if operation = 2 then V86Add first second (Flags cpu AND EFLAGS_CF_U \<noteq> 0) width cpu
      else if operation = 3 then V86Subtract first second (Flags cpu AND EFLAGS_CF_U \<noteq> 0) width cpu
      else if operation = 4 then (first AND second, V86Logic (first AND second) width cpu)
      else if operation = 5 then V86Subtract first second False width cpu
      else if operation = 6 then (first XOR second, V86Logic (first XOR second) width cpu)
      else (0, snd (V86Subtract first second False width cpu)))"

subsection \<open>Shifts, rotates and conditions\<close>

definition shift_once :: "nat \<Rightarrow> u32 \<Rightarrow> u32 \<Rightarrow> u32 \<times> bool \<Rightarrow> u32 \<times> bool" where
  \<comment> \<open>one turn of the loop: ROL ROR RCL RCR SHL SHR SAL SAR\<close>
  "shift_once operation widthMask signBit = (\<lambda>(v, carry).
     let high = v AND signBit \<noteq> 0; low = v AND 1 \<noteq> 0
     in if operation = 0 then ((push_bit 1 v OR (if high then 1 else 0)) AND widthMask, high)
        else if operation = 1 then ((drop_bit 1 v OR (if low then signBit else 0)) AND widthMask, low)
        else if operation = 2 then ((push_bit 1 v OR (if carry then 1 else 0)) AND widthMask, high)
        else if operation = 3 then ((drop_bit 1 v OR (if carry then signBit else 0)) AND widthMask, low)
        else if operation = 4 \<or> operation = 6 then (push_bit 1 v AND widthMask, high)
        else if operation = 5 then (drop_bit 1 v AND widthMask, low)
        else ((drop_bit 1 v OR (v AND signBit)) AND widthMask, low))"

definition V86ShiftRotate :: "nat \<Rightarrow> u32 \<Rightarrow> u8 \<Rightarrow> nat \<Rightarrow> v86_cpu \<Rightarrow> u32 \<times> v86_cpu" where
  "V86ShiftRotate operation v0 count0 width cpu =
     (let widthMask = V86Mask width; signBit = V86SignBit width; count = unat (count0 AND 0x1F); original = v0 AND widthMask
      in if count = 0 then (original, cpu)
         else let (v, carry) = (shift_once operation widthMask signBit ^^ count) (original, Flags cpu AND EFLAGS_CF_U \<noteq> 0);
                  flags = flag_if carry EFLAGS_CF_U (Flags cpu AND NOT EFLAGS_CF_U);
                  overflow = (if operation = 5 then original AND signBit \<noteq> 0
                              else if operation = 7 then False
                              else if operation = 1 \<or> operation = 3
                              then (v AND signBit \<noteq> 0) \<noteq> (v AND drop_bit 1 signBit \<noteq> 0)
                              else (v AND signBit \<noteq> 0) \<noteq> carry);
                  flags = (if count = 1 then flag_if overflow EFLAGS_OF_U (flags AND NOT EFLAGS_OF_U) else flags);
                  flags = (if operation \<ge> 4
                           then result_flags width v (flags AND NOT (EFLAGS_SF_U OR EFLAGS_ZF_U OR EFLAGS_PF_U)) else flags)
              in (v, cpu\<lparr>Flags := flags\<rparr>))"

definition V86Condition :: "v86_cpu \<Rightarrow> u8 \<Rightarrow> bool" where
  "V86Condition cpu condition =
     (let carry = Flags cpu AND EFLAGS_CF_U \<noteq> 0; zero = Flags cpu AND EFLAGS_ZF_U \<noteq> 0;
          sign = Flags cpu AND EFLAGS_SF_U \<noteq> 0; overflow = Flags cpu AND EFLAGS_OF_U \<noteq> 0;
          parity = Flags cpu AND EFLAGS_PF_U \<noteq> 0; code = condition AND 0x0F
      in if code = 0x0 then overflow
         else if code = 0x1 then \<not> overflow
         else if code = 0x2 then carry
         else if code = 0x3 then \<not> carry
         else if code = 0x4 then zero
         else if code = 0x5 then \<not> zero
         else if code = 0x6 then carry \<or> zero
         else if code = 0x7 then \<not> (carry \<or> zero)
         else if code = 0x8 then sign
         else if code = 0x9 then \<not> sign
         else if code = 0xA then parity
         else if code = 0xB then \<not> parity
         else if code = 0xC then sign \<noteq> overflow
         else if code = 0xD then sign = overflow
         else if code = 0xE then zero \<or> sign \<noteq> overflow
         else \<not> (zero \<or> sign \<noteq> overflow))"

subsection \<open>Operands\<close>

record v86_modrm =
  IsMemory :: bool
  Linear :: u32
  EffectiveAddress :: u32
  Register :: nat
  RegisterMemory :: nat

definition V86_CODE_BYTE :: "'m v86_host \<Rightarrow> u32 \<Rightarrow> nat \<Rightarrow> ('m, u8) guest" where
  "V86_CODE_BYTE h codeLinear position = host_read8 h (codeLinear + of_nat position)"

definition V86_IMMEDIATE :: "'m v86_host \<Rightarrow> u32 \<Rightarrow> nat \<Rightarrow> nat \<Rightarrow> ('m, u32) guest" where
  "V86_IMMEDIATE h codeLinear position width = V86ReadMemory h (codeLinear + of_nat position) width"

definition code_word :: "'m v86_host \<Rightarrow> u32 \<Rightarrow> nat \<Rightarrow> ('m, u16) guest" where
  \<comment> \<open>two code bytes as a little-endian word\<close>
  "code_word h codeLinear position = do {
     b0 \<leftarrow> V86_CODE_BYTE h codeLinear position;
     b1 \<leftarrow> V86_CODE_BYTE h codeLinear (position + 1);
     State_Monad.return (ucast b0 OR push_bit 8 (ucast b1)) }"

definition register_operand :: "u8 \<Rightarrow> v86_modrm" where
  \<comment> \<open>the fields of a memory operand are unset in C\<close>
  "register_operand modrmByte =
     \<lparr>IsMemory = False, Linear = 0, EffectiveAddress = 0, Register = unat (drop_bit 3 modrmByte AND 7),
      RegisterMemory = unat (modrmByte AND 7)\<rparr>"

definition memory_operand :: "'m v86_host \<Rightarrow> v86_cpu \<Rightarrow> u8 \<Rightarrow> nat option \<Rightarrow> bool \<Rightarrow> u32 \<Rightarrow> v86_modrm" where
  "memory_operand h cpu modrmByte segmentOverride isStackBased effectiveAddress =
     (let segment = (case segmentOverride of Some s \<Rightarrow> s | None \<Rightarrow> if isStackBased then X86_SREG_SS else X86_SREG_DS)
      in \<lparr>IsMemory = True, Linear = V86SegmentBase h (Segments cpu segment) + effectiveAddress,
          EffectiveAddress = effectiveAddress, Register = unat (drop_bit 3 modrmByte AND 7), RegisterMemory = 0\<rparr>)"

definition displaced :: "'m v86_host \<Rightarrow> u32 \<Rightarrow> nat \<Rightarrow> u8 \<Rightarrow> nat \<Rightarrow> ('m, nat \<times> u32) guest" where
  \<comment> \<open>the displacement of modes 1 and 2, sign-extended, with the position after it; \<open>wide\<close> is its full size\<close>
  "displaced h codeLinear position mode wide =
     (if mode = 1 then do {
        b \<leftarrow> V86_CODE_BYTE h codeLinear position;
        State_Monad.return (position + 1, scast b) }
      else if mode = 2 then do {
        d \<leftarrow> V86_IMMEDIATE h codeLinear position wide;
        State_Monad.return (position + wide, d) }
      else State_Monad.return (position, 0))"

definition V86DecodeModrm32 :: "'m v86_host \<Rightarrow> u32 \<Rightarrow> nat \<Rightarrow> nat option \<Rightarrow> ('m, nat \<times> v86_modrm) guest" where
  \<comment> \<open>the answer is the position after the operand\<close>
  "V86DecodeModrm32 h codeLinear offset segmentOverride = do {
     cpu \<leftarrow> get_cpu;
     modrmByte \<leftarrow> V86_CODE_BYTE h codeLinear offset;
     let mode = drop_bit 6 modrmByte;
     let registerMemory = unat (modrmByte AND 7);
     if mode = 3 then State_Monad.return (offset + 1, register_operand modrmByte)
     else do {
       (position, base, isStackBased) \<leftarrow>
         (if registerMemory = 4 then do {
            sib \<leftarrow> V86_CODE_BYTE h codeLinear (offset + 1);
            let scale = unat (drop_bit 6 sib);
            let indexRegister = unat (drop_bit 3 sib AND 7);
            let baseRegister = unat (sib AND 7);
            let scaled = (if indexRegister \<noteq> 4 then push_bit scale (Registers cpu indexRegister) else 0);
            if baseRegister = 5 \<and> mode = 0 then do {
              d \<leftarrow> V86_IMMEDIATE h codeLinear (offset + 2) 4;
              State_Monad.return (offset + 6, d + scaled, False) }
            else State_Monad.return (offset + 2, Registers cpu baseRegister + scaled, baseRegister = 4 \<or> baseRegister = 5) }
          else if registerMemory = 5 \<and> mode = 0 then do {
            d \<leftarrow> V86_IMMEDIATE h codeLinear (offset + 1) 4;
            State_Monad.return (offset + 5, d, False) }
          else State_Monad.return (offset + 1, Registers cpu registerMemory, registerMemory = 5));
       (position', displacement) \<leftarrow> displaced h codeLinear position mode 4;
       let effectiveAddress = base + displacement;
       let operand = memory_operand h cpu modrmByte segmentOverride isStackBased effectiveAddress;
       State_Monad.return (position',
         if effectiveAddress > V86_OFFSET_MAX then operand\<lparr>Linear := V86_GUEST_LIMIT\<rparr> else operand) } }"

definition base16 :: "v86_cpu \<Rightarrow> nat \<Rightarrow> u16 \<times> bool" where
  \<comment> \<open>the register part of a 16-bit address, and whether it is based on BP\<close>
  "base16 cpu registerMemory =
     (let bx = ucast (Registers cpu X86_REG_BX); bp = ucast (Registers cpu X86_REG_BP);
          si = ucast (Registers cpu X86_REG_SI); di = ucast (Registers cpu X86_REG_DI)
      in if registerMemory = 0 then (bx + si, False)
         else if registerMemory = 1 then (bx + di, False)
         else if registerMemory = 2 then (bp + si, True)
         else if registerMemory = 3 then (bp + di, True)
         else if registerMemory = 4 then (si, False)
         else if registerMemory = 5 then (di, False)
         else if registerMemory = 6 then (bp, True)
         else (bx, False))"

definition V86DecodeModrm :: "'m v86_host \<Rightarrow> bool \<Rightarrow> u32 \<Rightarrow> nat \<Rightarrow> nat option \<Rightarrow> ('m, nat \<times> v86_modrm) guest" where
  "V86DecodeModrm h isAddress32 codeLinear offset segmentOverride =
     (if isAddress32 then V86DecodeModrm32 h codeLinear offset segmentOverride
      else do {
        cpu \<leftarrow> get_cpu;
        modrmByte \<leftarrow> V86_CODE_BYTE h codeLinear offset;
        let mode = drop_bit 6 modrmByte;
        let registerMemory = unat (modrmByte AND 7);
        if mode = 3 then State_Monad.return (offset + 1, register_operand modrmByte)
        else do {
          (position, base, isStackBased) \<leftarrow>
            (if registerMemory = 6 \<and> mode = 0 then do {
               d \<leftarrow> code_word h codeLinear (offset + 1);
               State_Monad.return (offset + 3, d, False) }
             else State_Monad.return (offset + 1, base16 cpu registerMemory));
          (position', displacement) \<leftarrow> displaced h codeLinear position mode 2;
          let effectiveAddress = (ucast (base + ucast displacement) :: u32);
          State_Monad.return (position', memory_operand h cpu modrmByte segmentOverride isStackBased effectiveAddress) } })"

definition V86IsLockable :: "'m v86_host \<Rightarrow> u32 \<Rightarrow> nat \<Rightarrow> u8 \<Rightarrow> ('m, bool) guest" where
  "V86IsLockable h codeLinear offset opcode =
     (if opcode = 0x0F then do {
        opcode2 \<leftarrow> V86_CODE_BYTE h codeLinear offset;
        modrmByte \<leftarrow> V86_CODE_BYTE h codeLinear (offset + 1);
        let operation = drop_bit 3 modrmByte AND 7;
        State_Monad.return (drop_bit 6 modrmByte \<noteq> 3 \<and>
          (opcode2 = 0xAB \<or> opcode2 = 0xB3 \<or> opcode2 = 0xBB \<or> opcode2 = 0xBA \<and> operation > 4 \<or>
           opcode2 = 0xB0 \<or> opcode2 = 0xB1 \<or> opcode2 = 0xC0 \<or> opcode2 = 0xC1 \<or> opcode2 = 0xC7 \<and> operation = 1)) }
      else do {
        modrmByte \<leftarrow> V86_CODE_BYTE h codeLinear offset;
        let operation = drop_bit 3 modrmByte AND 7;
        State_Monad.return (
          if drop_bit 6 modrmByte = 3 then False
          else if opcode < 0x40 \<and> opcode AND 7 \<le> 1 then drop_bit 3 opcode \<noteq> 7
          else if opcode = 0x80 \<or> opcode = 0x81 \<or> opcode = 0x83 then operation \<noteq> 7
          else if opcode = 0xF6 \<or> opcode = 0xF7 then operation = 2 \<or> operation = 3
          else if opcode = 0xFE \<or> opcode = 0xFF then operation \<le> 1
          else opcode = 0x86 \<or> opcode = 0x87) })"

end
