(* ===== verification/V86_Step.thy ===== *)
theory V86_Step
  imports V86_Cpu
begin

text \<open>
  One instruction of the 16-bit interpreter, \<^verbatim>\<open>V86Step\<close> of \<^verbatim>\<open>src/host/v86interp.h\<close>: the prefixes, the
  two-byte map and the one-byte map, an operation per group of opcodes. An instruction the
  interpreter does not model is declined and left to the real processor. \<open>Undefined\<close> marks a
  division C gives no meaning: the quotient of the most negative dividend by -1 does not fit its
  type, and the host's own divide instruction traps on it.
\<close>

datatype v86_outcome = Declined | Modelled | Undefined

record v86_decode =
  CodeLinear :: u32
  Offset :: nat
  SegmentOverride :: "nat option"
  Repeat :: nat \<comment> \<open>0, 1 for REP, 2 for REPNE\<close>
  IsOperand32 :: bool
  IsAddress32 :: bool
  IsLocked :: bool

definition operandSize :: "v86_decode \<Rightarrow> nat" where
  "operandSize d = (if IsOperand32 d then 4 else 2)"

definition isProtected :: "'m v86_host \<Rightarrow> bool" where
  "isProtected h \<longleftrightarrow> SegmentToLinear h \<noteq> None"

subsection \<open>What the operations share\<close>

definition decline :: "('m, v86_outcome) guest" where
  "decline = State_Monad.return Declined"

definition advance :: "nat \<Rightarrow> ('m, v86_outcome) guest" where
  "advance offset = do {
     update_cpu (\<lambda>cpu. cpu\<lparr>Ip := Ip cpu + of_nat offset\<rparr>);
     State_Monad.return Modelled }"

definition jump :: "u16 \<Rightarrow> ('m, v86_outcome) guest" where
  "jump target = do {
     update_cpu (\<lambda>cpu. cpu\<lparr>Ip := target\<rparr>);
     State_Monad.return Modelled }"

definition set_segment :: "nat \<Rightarrow> u16 \<Rightarrow> v86_cpu \<Rightarrow> v86_cpu" where
  "set_segment segmentRegister v cpu = cpu\<lparr>Segments := (Segments cpu)(segmentRegister := v)\<rparr>"

definition set_register32 :: "nat \<Rightarrow> u32 \<Rightarrow> v86_cpu \<Rightarrow> v86_cpu" where
  "set_register32 registerIndex v cpu = cpu\<lparr>Registers := (Registers cpu)(registerIndex := v)\<rparr>"

definition set_flags :: "(u32 \<Rightarrow> u32) \<Rightarrow> v86_cpu \<Rightarrow> v86_cpu" where
  "set_flags f cpu = cpu\<lparr>Flags := f (Flags cpu)\<rparr>"

definition decode_operand :: "'m v86_host \<Rightarrow> v86_decode \<Rightarrow> ('m, nat \<times> v86_modrm) guest" where
  "decode_operand h d = V86DecodeModrm h (IsAddress32 d) (CodeLinear d) (Offset d) (SegmentOverride d)"

definition outside_guest :: "v86_modrm \<Rightarrow> bool" where
  "outside_guest modrm \<longleftrightarrow> IsMemory modrm \<and> Linear modrm \<ge> V86_GUEST_LIMIT"

definition with_operand ::
  "'m v86_host \<Rightarrow> v86_decode \<Rightarrow> (nat \<Rightarrow> v86_modrm \<Rightarrow> ('m, v86_outcome) guest) \<Rightarrow> ('m, v86_outcome) guest" where
  \<comment> \<open>the opening of every operation with an operand byte\<close>
  "with_operand h d f = do {
     (offset, modrm) \<leftarrow> decode_operand h d;
     if outside_guest modrm then decline else f offset modrm }"

definition read_operand :: "'m v86_host \<Rightarrow> v86_modrm \<Rightarrow> nat \<Rightarrow> ('m, u32) guest" where
  "read_operand h modrm width =
     (if IsMemory modrm then V86ReadMemory h (Linear modrm) width
      else do {
        cpu \<leftarrow> get_cpu;
        State_Monad.return (V86GetRegister cpu (RegisterMemory modrm) width) })"

definition write_operand :: "'m v86_host \<Rightarrow> v86_modrm \<Rightarrow> nat \<Rightarrow> u32 \<Rightarrow> ('m, unit) guest" where
  "write_operand h modrm width v =
     (if IsMemory modrm then V86WriteMemory h (Linear modrm) width v
      else update_cpu (V86SetRegister (RegisterMemory modrm) width v))"

definition get_register :: "nat \<Rightarrow> nat \<Rightarrow> ('m, u32) guest" where
  "get_register registerIndex width = do {
     cpu \<leftarrow> get_cpu;
     State_Monad.return (V86GetRegister cpu registerIndex width) }"

definition stack_address :: "'m v86_host \<Rightarrow> v86_cpu \<Rightarrow> u16 \<Rightarrow> u32" where
  "stack_address h cpu stackPointer = V86SegmentBase h (Segments cpu X86_SREG_SS) + ucast stackPointer"

definition stack_pointer :: "v86_cpu \<Rightarrow> u16" where
  "stack_pointer cpu = ucast (Registers cpu X86_REG_SP)"

definition data_segment :: "v86_decode \<Rightarrow> nat" where
  "data_segment d = (case SegmentOverride d of Some s \<Rightarrow> s | None \<Rightarrow> X86_SREG_DS)"

subsection \<open>The two-byte map\<close>

definition op_extend :: "'m v86_host \<Rightarrow> v86_decode \<Rightarrow> u8 \<Rightarrow> ('m, v86_outcome) guest" where
  \<comment> \<open>MOVZX, MOVSX\<close>
  "op_extend h d opcode2 =
     (let sourceWidth = (if opcode2 AND 1 \<noteq> 0 then 2 else 1); isSignExtend = (opcode2 \<ge> 0xBE)
      in with_operand h d (\<lambda>offset modrm. do {
        v \<leftarrow> read_operand h modrm sourceWidth;
        let v' = (if isSignExtend \<and> v AND V86SignBit sourceWidth \<noteq> 0 then v OR NOT (V86Mask sourceWidth) else v);
        update_cpu (V86SetRegister (Register modrm) (operandSize d) (v' AND V86Mask (operandSize d)));
        advance offset }))"

definition op_lar_lsl :: "'m v86_host \<Rightarrow> v86_decode \<Rightarrow> u8 \<Rightarrow> ('m, v86_outcome) guest" where
  "op_lar_lsl h d opcode2 =
     (case SelectorDescriptor h of None \<Rightarrow> decline
      | Some descriptor \<Rightarrow>
          with_operand h d (\<lambda>offset modrm. do {
            v \<leftarrow> read_operand h modrm 2;
            (case descriptor (ucast v) of
               Some (accessRights, limit) \<Rightarrow> do {
                 update_cpu (V86SetRegister (Register modrm) (operandSize d)
                   ((if opcode2 = 0x02 then accessRights else limit) AND V86Mask (operandSize d)));
                 update_cpu (set_flags (\<lambda>f. f OR EFLAGS_ZF_U)) }
             | None \<Rightarrow> update_cpu (set_flags (\<lambda>f. f AND NOT EFLAGS_ZF_U)));
            advance offset }))"

definition op_push_fs_gs :: "'m v86_host \<Rightarrow> v86_decode \<Rightarrow> u8 \<Rightarrow> ('m, v86_outcome) guest" where
  "op_push_fs_gs h d opcode2 = do {
     cpu \<leftarrow> get_cpu;
     V86PushSegment h (operandSize d) (Segments cpu (if opcode2 = 0xA0 then X86_SREG_FS else X86_SREG_GS));
     advance (Offset d) }"

definition op_pop_fs_gs :: "'m v86_host \<Rightarrow> v86_decode \<Rightarrow> u8 \<Rightarrow> ('m, v86_outcome) guest" where
  "op_pop_fs_gs h d opcode2 = do {
     v \<leftarrow> V86Pop h (operandSize d);
     update_cpu (set_segment (if opcode2 = 0xA1 then X86_SREG_FS else X86_SREG_GS) (ucast v));
     advance (Offset d) }"

definition op_jcc_near :: "'m v86_host \<Rightarrow> v86_decode \<Rightarrow> u8 \<Rightarrow> ('m, v86_outcome) guest" where
  "op_jcc_near h d opcode2 = do {
     cpu \<leftarrow> get_cpu;
     let isTaken = V86Condition cpu (opcode2 AND 0x0F);
     if IsOperand32 d then do {
       let nextIp = (ucast (Ip cpu + of_nat (Offset d) + 4) :: u32);
       relative \<leftarrow> V86ReadMemory h (CodeLinear d + of_nat (Offset d)) 4;
       let target = nextIp + relative;
       if isTaken \<and> target > V86_OFFSET_MAX then decline
       else jump (ucast (if isTaken then target else nextIp)) }
     else do {
       relative \<leftarrow> code_word h (CodeLinear d) (Offset d);
       jump (Ip cpu + of_nat (Offset d + 2) + (if isTaken then relative else 0)) } }"

definition op_setcc :: "'m v86_host \<Rightarrow> v86_decode \<Rightarrow> u8 \<Rightarrow> ('m, v86_outcome) guest" where
  "op_setcc h d opcode2 = do {
     cpu \<leftarrow> get_cpu;
     let v = (if V86Condition cpu (opcode2 AND 0x0F) then 1 else 0 :: u8);
     with_operand h d (\<lambda>offset modrm. do {
       write_operand h modrm 1 (ucast v);
       advance offset }) }"

definition bit_operation :: "nat \<Rightarrow> u32 \<Rightarrow> u32 \<Rightarrow> u32" where
  \<comment> \<open>BT BTS BTR BTC\<close>
  "bit_operation operation v b =
     (if operation = 1 then v OR b else if operation = 2 then v AND NOT b else if operation = 3 then v XOR b else v)"

definition finish_bit ::
  "'m v86_host \<Rightarrow> v86_decode \<Rightarrow> nat \<Rightarrow> v86_modrm \<Rightarrow> nat \<Rightarrow> u32 \<Rightarrow> u32 \<Rightarrow> u32 \<Rightarrow> ('m, v86_outcome) guest" where
  \<comment> \<open>the bit tested and changed in the operand's value \<open>v\<close>\<close>
  "finish_bit h d offset modrm operation linear v bitOffset = do {
     let b = (push_bit (unat (bitOffset AND (of_nat (operandSize d * 8) - 1))) 1 :: u32);
     update_cpu (set_flags (\<lambda>f. flag_if (v AND b \<noteq> 0) EFLAGS_CF_U (f AND NOT EFLAGS_CF_U)));
     (if operation = 0 then State_Monad.return ()
      else if IsMemory modrm then V86WriteMemory h linear (operandSize d) (bit_operation operation v b)
      else update_cpu (V86SetRegister (RegisterMemory modrm) (operandSize d)
             (bit_operation operation v b AND V86Mask (operandSize d))));
     advance offset }"

definition op_bit :: "'m v86_host \<Rightarrow> v86_decode \<Rightarrow> u8 \<Rightarrow> ('m, v86_outcome) guest" where
  "op_bit h d opcode2 = do {
     (offset, modrm) \<leftarrow> decode_operand h d;
     let size = operandSize d;
     let bitCount = (of_nat (size * 8) :: u32);
     if opcode2 = 0xBA \<and> Register modrm < 4 then decline
     else do {
       (offset', operation, bitOffset, displacement) \<leftarrow>
         (if opcode2 = 0xBA then do {
            b \<leftarrow> V86_CODE_BYTE h (CodeLinear d) offset;
            State_Monad.return (offset + 1, Register modrm - 4, ucast b AND (bitCount - 1), 0) }
          else do {
            v \<leftarrow> get_register (Register modrm) size;
            let bitOffset = (if size = 4 then v else scast (ucast v :: u16));
            let operation = unat (drop_bit 3 opcode2 AND 3);
            State_Monad.return
              (if IsMemory modrm
               then (offset, operation, bitOffset AND (bitCount - 1),
                     signed_drop_bit (if size = 4 then 5 else 4) bitOffset * of_nat size)
               else (offset, operation, bitOffset, 0)) });
       if IsMemory modrm then do {
         let effectiveAddress = EffectiveAddress modrm + displacement;
         let linear = Linear modrm + displacement;
         if Linear modrm \<ge> V86_GUEST_LIMIT \<or> effectiveAddress <s 0 \<or> effectiveAddress + of_nat size - 1 > V86_OFFSET_MAX
         then decline
         else if linear \<ge> V86_GUEST_LIMIT then decline
         else do {
           v \<leftarrow> V86ReadMemory h linear size;
           finish_bit h d offset' modrm operation linear v bitOffset } }
       else do {
         v \<leftarrow> get_register (RegisterMemory modrm) size;
         finish_bit h d offset' modrm operation 0 v bitOffset } } }"

definition lowest_bit :: "u32 \<Rightarrow> nat" where
  \<comment> \<open>the counting loop of BSF, for a source that is not zero\<close>
  "lowest_bit source = first_from (bit source) 0 32"

definition highest_bit :: "u32 \<Rightarrow> nat \<Rightarrow> nat" where
  \<comment> \<open>the loop of BSR, down from the top bit of the operand\<close>
  "highest_bit source bits = bits - 1 - first_from (\<lambda>i. bit source (bits - 1 - i)) 0 bits"

definition op_bit_scan :: "'m v86_host \<Rightarrow> v86_decode \<Rightarrow> u8 \<Rightarrow> ('m, v86_outcome) guest" where
  "op_bit_scan h d opcode2 =
     with_operand h d (\<lambda>offset modrm. do {
       v \<leftarrow> read_operand h modrm (operandSize d);
       let source = v AND V86Mask (operandSize d);
       (if source \<noteq> 0
        then update_cpu (V86SetRegister (Register modrm) (operandSize d)
               (of_nat (if opcode2 = 0xBC then lowest_bit source else highest_bit source (operandSize d * 8))))
        else State_Monad.return ());
       update_cpu (set_flags (\<lambda>f. flag_if (source = 0) EFLAGS_ZF_U (f AND NOT EFLAGS_ZF_U)));
       advance offset })"

definition double_shift :: "bool \<Rightarrow> nat \<Rightarrow> u32 \<Rightarrow> u32 \<Rightarrow> nat \<Rightarrow> u32 \<times> bool" where
  \<comment> \<open>the result and the last bit shifted out\<close>
  "double_shift isLeft width destination source count =
     (let bitCount = width * 8
      in if isLeft
         then (ucast (drop_bit (bitCount - count) (push_bit bitCount (ucast destination) OR ucast source :: u64)) AND V86Mask width,
               drop_bit (bitCount - count) destination AND 1 \<noteq> 0)
         else (ucast (drop_bit count (push_bit bitCount (ucast source) OR ucast destination :: u64)) AND V86Mask width,
               drop_bit (count - 1) destination AND 1 \<noteq> 0))"

definition op_double_shift :: "'m v86_host \<Rightarrow> v86_decode \<Rightarrow> u8 \<Rightarrow> ('m, v86_outcome) guest" where
  \<comment> \<open>SHLD, SHRD\<close>
  "op_double_shift h d opcode2 =
     with_operand h d (\<lambda>offset modrm. do {
       let size = operandSize d;
       (offset', countByte) \<leftarrow>
         (if opcode2 = 0xA4 \<or> opcode2 = 0xAC then do {
            b \<leftarrow> V86_CODE_BYTE h (CodeLinear d) offset;
            State_Monad.return (offset + 1, b) }
          else do {
            cpu \<leftarrow> get_cpu;
            State_Monad.return (offset, ucast (Registers cpu X86_REG_CX)) });
       let count = unat (countByte AND 0x1F);
       if count > size * 8 then decline
       else do {
         (if count \<noteq> 0 then do {
            v \<leftarrow> read_operand h modrm size;
            let destination = v AND V86Mask size;
            s \<leftarrow> get_register (Register modrm) size;
            let source = s AND V86Mask size;
            let (result, carry) = double_shift (opcode2 \<le> 0xA5) size destination source count;
            write_operand h modrm size result;
            update_cpu (set_flags (\<lambda>f.
              let f = flag_if carry EFLAGS_CF_U (f AND NOT (EFLAGS_CF_U OR EFLAGS_SF_U OR EFLAGS_ZF_U OR EFLAGS_PF_U));
                  f = result_flags size result f
              in if count = 1
                 then flag_if ((result XOR destination) AND V86SignBit size \<noteq> 0) EFLAGS_OF_U (f AND NOT EFLAGS_OF_U)
                 else f)) }
          else State_Monad.return ());
         advance offset' } })"

definition op_load_far :: "'m v86_host \<Rightarrow> v86_decode \<Rightarrow> u8 \<Rightarrow> ('m, v86_outcome) guest" where
  \<comment> \<open>LSS, LFS, LGS\<close>
  "op_load_far h d opcode2 = do {
     (offset, modrm) \<leftarrow> decode_operand h d;
     if \<not> IsMemory modrm \<or> Linear modrm \<ge> V86_GUEST_LIMIT then decline
     else do {
       v \<leftarrow> V86ReadMemory h (Linear modrm) (operandSize d);
       update_cpu (V86SetRegister (Register modrm) (operandSize d) v);
       s \<leftarrow> V86ReadMemory h (Linear modrm + of_nat (operandSize d)) 2;
       update_cpu (set_segment (if opcode2 = 0xB2 then X86_SREG_SS else if opcode2 = 0xB4 then X86_SREG_FS else X86_SREG_GS)
         (ucast s));
       advance offset } }"

definition v86_escape :: "'m v86_host \<Rightarrow> v86_decode \<Rightarrow> u8 \<Rightarrow> ('m, v86_outcome) guest" where
  "v86_escape h d opcode2 =
     (if opcode2 = 0xB6 \<or> opcode2 = 0xB7 \<or> opcode2 = 0xBE \<or> opcode2 = 0xBF then op_extend h d opcode2
      else if opcode2 = 0x02 \<or> opcode2 = 0x03 then op_lar_lsl h d opcode2
      else if opcode2 = 0xA0 \<or> opcode2 = 0xA8 then op_push_fs_gs h d opcode2
      else if opcode2 = 0xA1 \<or> opcode2 = 0xA9 then op_pop_fs_gs h d opcode2
      else if opcode2 \<ge> 0x80 \<and> opcode2 \<le> 0x8F then op_jcc_near h d opcode2
      else if opcode2 \<ge> 0x90 \<and> opcode2 \<le> 0x9F then op_setcc h d opcode2
      else if opcode2 = 0xA3 \<or> opcode2 = 0xAB \<or> opcode2 = 0xB3 \<or> opcode2 = 0xBB \<or> opcode2 = 0xBA then op_bit h d opcode2
      else if opcode2 = 0xBC \<or> opcode2 = 0xBD then op_bit_scan h d opcode2
      else if opcode2 = 0xA4 \<or> opcode2 = 0xA5 \<or> opcode2 = 0xAC \<or> opcode2 = 0xAD then op_double_shift h d opcode2
      else if opcode2 = 0xB2 \<or> opcode2 = 0xB4 \<or> opcode2 = 0xB5 then op_load_far h d opcode2
      else decline)"
subsection \<open>Arithmetic, logic and moves\<close>

definition op_alu :: "'m v86_host \<Rightarrow> v86_decode \<Rightarrow> u8 \<Rightarrow> ('m, v86_outcome) guest" where
  \<comment> \<open>ADD to CMP, in the six forms of an operation\<close>
  "op_alu h d opcode =
     (let operation = unat (drop_bit 3 opcode AND 7); form = opcode AND 7;
          width = (if form = 0 \<or> form = 2 \<or> form = 4 then 1 else operandSize d)
      in if form \<le> 3 then
           with_operand h d (\<lambda>offset modrm. do {
             rmValue \<leftarrow> read_operand h modrm width;
             registerValue \<leftarrow> get_register (Register modrm) width;
             if form \<le> 1 then do {
               result \<leftarrow> on_cpu (V86Alu operation rmValue registerValue width);
               (if operation \<noteq> 7 then write_operand h modrm width result else State_Monad.return ());
               advance offset }
             else do {
               result \<leftarrow> on_cpu (V86Alu operation registerValue rmValue width);
               (if operation \<noteq> 7 then update_cpu (V86SetRegister (Register modrm) width result) else State_Monad.return ());
               advance offset } })
         else do {
           first \<leftarrow> get_register X86_REG_AX width;
           second \<leftarrow> V86_IMMEDIATE h (CodeLinear d) (Offset d) width;
           result \<leftarrow> on_cpu (V86Alu operation first second width);
           (if operation \<noteq> 7 then update_cpu (V86SetRegister X86_REG_AX width result) else State_Monad.return ());
           advance (Offset d + width) })"

definition op_group1 :: "'m v86_host \<Rightarrow> v86_decode \<Rightarrow> u8 \<Rightarrow> ('m, v86_outcome) guest" where
  "op_group1 h d opcode =
     (let width = (if opcode = 0x80 then 1 else operandSize d)
      in with_operand h d (\<lambda>offset modrm. do {
        first \<leftarrow> read_operand h modrm width;
        (offset', second) \<leftarrow>
          (if opcode = 0x81 then do {
             v \<leftarrow> V86_IMMEDIATE h (CodeLinear d) offset width;
             State_Monad.return (offset + width, v) }
           else do {
             b \<leftarrow> V86_CODE_BYTE h (CodeLinear d) offset;
             State_Monad.return (offset + 1, scast b AND V86Mask width) });
        result \<leftarrow> on_cpu (V86Alu (Register modrm) first second width);
        (if Register modrm \<noteq> 7 then write_operand h modrm width result else State_Monad.return ());
        advance offset' }))"

definition V86IncDec :: "bool \<Rightarrow> u32 \<Rightarrow> nat \<Rightarrow> v86_cpu \<Rightarrow> u32 \<times> v86_cpu" where
  \<comment> \<open>INC and DEC preserve CF\<close>
  "V86IncDec isDec v width cpu =
     (let cf = Flags cpu AND EFLAGS_CF_U;
          (result, cpu1) = (if isDec then V86Subtract v 1 False width cpu else V86Add v 1 False width cpu)
      in (result, cpu1\<lparr>Flags := (Flags cpu1 AND NOT EFLAGS_CF_U) OR cf\<rparr>))"

definition op_inc_dec :: "v86_decode \<Rightarrow> u8 \<Rightarrow> ('m, v86_outcome) guest" where
  "op_inc_dec d opcode =
     (let registerIndex = unat (opcode AND 7)
      in do {
        v \<leftarrow> get_register registerIndex (operandSize d);
        result \<leftarrow> on_cpu (V86IncDec (opcode \<ge> 0x48) v (operandSize d));
        update_cpu (V86SetRegister registerIndex (operandSize d) result);
        advance (Offset d) })"

definition push_clearing :: "'m v86_host \<Rightarrow> u16 \<Rightarrow> ('m, unit) guest" where
  \<comment> \<open>the push of group 5's 16-bit forms, which stores the stack pointer over the whole of ESP\<close>
  "push_clearing h v = do {
     cpu \<leftarrow> get_cpu;
     let stackPointer = stack_pointer cpu - 2;
     V86WriteMemory h (stack_address h cpu stackPointer) 2 (ucast v);
     update_cpu (set_register32 X86_REG_SP (ucast stackPointer)) }"

definition op_group5_32 :: "'m v86_host \<Rightarrow> v86_decode \<Rightarrow> nat \<Rightarrow> v86_modrm \<Rightarrow> ('m, v86_outcome) guest" where
  "op_group5_32 h d offset modrm = do {
     value32 \<leftarrow> read_operand h modrm 4;
     cpu \<leftarrow> get_cpu;
     let nextIp = (ucast (Ip cpu + of_nat offset) :: u32);
     if Register modrm = 2 \<or> Register modrm = 4 then
       if value32 > V86_OFFSET_MAX then decline
       else do {
         (if Register modrm = 2 then V86Push h 4 nextIp else State_Monad.return ());
         jump (ucast value32) }
     else if Register modrm = 6 then do {
       V86Push h 4 value32;
       jump (ucast nextIp) }
     else if (Register modrm = 3 \<or> Register modrm = 5) \<and> IsMemory modrm \<and> \<not> isProtected h then do {
       segment \<leftarrow> V86ReadMemory h (Linear modrm + 4) 2;
       if value32 > V86_OFFSET_MAX then decline
       else do {
         (if Register modrm = 3 then do {
            V86Push h 4 (ucast (Segments cpu X86_SREG_CS));
            V86Push h 4 nextIp }
          else State_Monad.return ());
         update_cpu (set_segment X86_SREG_CS (ucast segment));
         jump (ucast value32) } }
     else decline }"

definition op_group5_16 :: "'m v86_host \<Rightarrow> v86_decode \<Rightarrow> nat \<Rightarrow> v86_modrm \<Rightarrow> ('m, v86_outcome) guest" where
  "op_group5_16 h d offset modrm = do {
     v \<leftarrow> read_operand h modrm 2;
     let value16 = (ucast v :: u16);
     cpu \<leftarrow> get_cpu;
     let nextIp = Ip cpu + of_nat offset;
     if Register modrm = 2 then do {
       push_clearing h nextIp;
       jump value16 }
     else if Register modrm = 4 then jump value16
     else if Register modrm = 6 then do {
       push_clearing h value16;
       jump nextIp }
     else if (Register modrm = 3 \<or> Register modrm = 5) \<and> IsMemory modrm \<and> \<not> isProtected h then do {
       segment \<leftarrow> V86ReadMemory h (Linear modrm + 2) 2;
       (if Register modrm = 3 then do {
          V86Push h 2 (ucast (Segments cpu X86_SREG_CS));
          V86Push h 2 (ucast nextIp) }
        else State_Monad.return ());
       update_cpu (set_segment X86_SREG_CS (ucast segment));
       jump value16 }
     else decline }"

definition op_group45 :: "'m v86_host \<Rightarrow> v86_decode \<Rightarrow> u8 \<Rightarrow> ('m, v86_outcome) guest" where
  "op_group45 h d opcode =
     (let width = (if opcode = 0xFE then 1 else operandSize d)
      in with_operand h d (\<lambda>offset modrm.
        if Register modrm = 0 \<or> Register modrm = 1 then do {
          first \<leftarrow> read_operand h modrm width;
          result \<leftarrow> on_cpu (V86IncDec (Register modrm = 1) first width);
          write_operand h modrm width result;
          advance offset }
        else if opcode \<noteq> 0xFF then decline
        else if IsOperand32 d then op_group5_32 h d offset modrm
        else op_group5_16 h d offset modrm))"

definition op_test :: "'m v86_host \<Rightarrow> v86_decode \<Rightarrow> u8 \<Rightarrow> ('m, v86_outcome) guest" where
  "op_test h d opcode =
     (let width = (if opcode = 0x84 then 1 else operandSize d)
      in with_operand h d (\<lambda>offset modrm. do {
        operand \<leftarrow> read_operand h modrm width;
        registerValue \<leftarrow> get_register (Register modrm) width;
        update_cpu (V86Logic (operand AND registerValue) width);
        advance offset }))"

definition op_test_imm :: "'m v86_host \<Rightarrow> v86_decode \<Rightarrow> u8 \<Rightarrow> ('m, v86_outcome) guest" where
  "op_test_imm h d opcode =
     (let width = (if opcode = 0xA8 then 1 else operandSize d)
      in do {
        second \<leftarrow> V86_IMMEDIATE h (CodeLinear d) (Offset d) width;
        first \<leftarrow> get_register X86_REG_AX width;
        update_cpu (V86Logic (first AND second) width);
        advance (Offset d + width) })"

definition set_low16 :: "nat \<Rightarrow> u32 \<Rightarrow> v86_cpu \<Rightarrow> v86_cpu" where
  "set_low16 registerIndex v cpu =
     set_register32 registerIndex ((Registers cpu registerIndex AND HIGH_WORD_MASK_U) OR (v AND 0xFFFF)) cpu"

definition V86Multiply :: "bool \<Rightarrow> u32 \<Rightarrow> nat \<Rightarrow> v86_cpu \<Rightarrow> v86_cpu" where
  \<comment> \<open>MUL and IMUL of the accumulator; CF and OF say the high half is significant\<close>
  "V86Multiply isSigned operand width cpu =
     (let (cpu1, isOverflow) =
        (if width = 1 then
           let al = (ucast (Registers cpu X86_REG_AX) :: u8); e = (ucast operand :: u8);
               product = (if isSigned then word_of_int (sint al * sint e) AND 0xFFFF else ucast al * ucast e :: u32)
           in (set_low16 X86_REG_AX product cpu,
               if isSigned then sint (ucast product :: u16) \<noteq> sint (ucast product :: u8) else drop_bit 8 product \<noteq> 0)
         else if width = 2 then
           let ax = (ucast (Registers cpu X86_REG_AX) :: u16); e = (ucast operand :: u16);
               product = (if isSigned then word_of_int (sint ax * sint e) else ucast ax * ucast e :: u32)
           in (set_low16 X86_REG_DX (drop_bit 16 product) (set_low16 X86_REG_AX product cpu),
               if isSigned then sint product \<noteq> sint (ucast product :: u16) else drop_bit 16 product \<noteq> 0)
         else
           let eax = Registers cpu X86_REG_AX;
               product = (if isSigned then word_of_int (sint eax * sint operand) else ucast eax * ucast operand :: u64)
           in (set_register32 X86_REG_DX (ucast (drop_bit 32 product)) (set_register32 X86_REG_AX (ucast product) cpu),
               if isSigned then sint product \<noteq> sint (ucast product :: u32) else drop_bit 32 product \<noteq> 0))
      in set_flags (\<lambda>f. flag_if isOverflow (EFLAGS_CF_U OR EFLAGS_OF_U) (f AND NOT (EFLAGS_CF_U OR EFLAGS_OF_U))) cpu1)"

definition dividend_of :: "nat \<Rightarrow> v86_cpu \<Rightarrow> u64" where
  \<comment> \<open>AX, DX:AX or EDX:EAX\<close>
  "dividend_of width cpu =
     (if width = 1 then ucast (Registers cpu X86_REG_AX AND 0xFFFF)
      else if width = 2 then push_bit 16 (ucast (Registers cpu X86_REG_DX AND 0xFFFF)) OR ucast (Registers cpu X86_REG_AX AND 0xFFFF)
      else push_bit 32 (ucast (Registers cpu X86_REG_DX)) OR ucast (Registers cpu X86_REG_AX))"

definition store_division :: "nat \<Rightarrow> int \<Rightarrow> int \<Rightarrow> v86_cpu \<Rightarrow> v86_cpu" where
  "store_division width q r cpu =
     (let lq = (word_of_int q :: u32); lr = (word_of_int r :: u32)
      in if width = 1
         then set_register32 X86_REG_AX
                ((Registers cpu X86_REG_AX AND HIGH_WORD_MASK_U) OR (lq AND 0xFF) OR push_bit 8 (lr AND 0xFF)) cpu
         else if width = 2 then set_low16 X86_REG_DX lr (set_low16 X86_REG_AX lq cpu)
         else set_register32 X86_REG_DX lr (set_register32 X86_REG_AX lq cpu))"

definition signed_dividend :: "nat \<Rightarrow> u64 \<Rightarrow> int" where
  "signed_dividend width dividend =
     (if width = 1 then sint (ucast dividend :: u16) else if width = 2 then sint (ucast dividend :: u32) else sint dividend)"

definition signed_divisor :: "nat \<Rightarrow> u32 \<Rightarrow> int" where
  "signed_divisor width operand =
     (if width = 1 then sint (ucast operand :: u8) else if width = 2 then sint (ucast operand :: u16) else sint operand)"

definition V86Divide :: "bool \<Rightarrow> u32 \<Rightarrow> nat \<Rightarrow> v86_cpu \<Rightarrow> v86_outcome \<times> v86_cpu" where
  \<comment> \<open>DIV and IDIV of the accumulator by an operand that is not zero; in 8 bits the C operands are
      promoted to \<open>int\<close>, where every quotient fits\<close>
  "V86Divide isSigned operand width cpu =
     (let dividend = dividend_of width cpu; bits = width * 8
      in if \<not> isSigned then
           let q = int (unat dividend) div int (unat (operand AND V86Mask width));
               r = int (unat dividend) mod int (unat (operand AND V86Mask width))
           in if q > 2 ^ bits - 1 then (Declined, cpu)
              else (Modelled, store_division width q r cpu)
         else
           let a = signed_dividend width dividend; b = signed_divisor width operand
           in if width \<noteq> 1 \<and> a = - (2 ^ (2 * bits - 1)) \<and> b = - 1 then (Undefined, cpu)
              else let q = a sdiv b; r = a smod b
                   in if q > 2 ^ (bits - 1) - 1 \<or> q < - (2 ^ (bits - 1)) then (Declined, cpu)
                      else (Modelled, store_division width q r cpu))"

definition op_group3 :: "'m v86_host \<Rightarrow> v86_decode \<Rightarrow> u8 \<Rightarrow> ('m, v86_outcome) guest" where
  "op_group3 h d opcode =
     (let width = (if opcode = 0xF6 then 1 else operandSize d)
      in with_operand h d (\<lambda>offset modrm. do {
        operand \<leftarrow> read_operand h modrm width;
        if Register modrm = 0 \<or> Register modrm = 1 then do {
          second \<leftarrow> V86_IMMEDIATE h (CodeLinear d) offset width;
          update_cpu (V86Logic (operand AND second) width);
          advance (offset + width) }
        else if Register modrm = 2 then do {
          write_operand h modrm width (NOT operand AND V86Mask width);
          advance offset }
        else if Register modrm = 3 then do {
          result \<leftarrow> on_cpu (V86Subtract 0 operand False width);
          write_operand h modrm width result;
          advance offset }
        else if Register modrm = 4 \<or> Register modrm = 5 then do {
          update_cpu (V86Multiply (Register modrm = 5) operand width);
          advance offset }
        else if operand = 0 then decline
        else do {
          outcome \<leftarrow> on_cpu (V86Divide (Register modrm = 7) operand width);
          if outcome = Modelled then advance offset else State_Monad.return outcome } }))"

definition op_mov :: "'m v86_host \<Rightarrow> v86_decode \<Rightarrow> u8 \<Rightarrow> ('m, v86_outcome) guest" where
  "op_mov h d opcode =
     (let width = (if opcode AND 1 \<noteq> 0 then operandSize d else 1); isLoad = (opcode = 0x8A \<or> opcode = 0x8B)
      in with_operand h d (\<lambda>offset modrm. do {
        (if isLoad then do {
           v \<leftarrow> read_operand h modrm width;
           update_cpu (V86SetRegister (Register modrm) width v) }
         else do {
           v \<leftarrow> get_register (Register modrm) width;
           write_operand h modrm width v });
        advance offset }))"

definition op_mov_imm_rm :: "'m v86_host \<Rightarrow> v86_decode \<Rightarrow> u8 \<Rightarrow> ('m, v86_outcome) guest" where
  "op_mov_imm_rm h d opcode =
     (let width = (if opcode = 0xC7 then operandSize d else 1)
      in do {
        (offset, modrm) \<leftarrow> decode_operand h d;
        if Register modrm \<noteq> 0 then decline
        else if outside_guest modrm then decline
        else do {
          v \<leftarrow> V86_IMMEDIATE h (CodeLinear d) offset width;
          write_operand h modrm width v;
          advance (offset + width) } })"

definition op_xchg :: "'m v86_host \<Rightarrow> v86_decode \<Rightarrow> u8 \<Rightarrow> ('m, v86_outcome) guest" where
  "op_xchg h d opcode =
     (let width = (if opcode = 0x87 then operandSize d else 1)
      in with_operand h d (\<lambda>offset modrm. do {
        registerValue \<leftarrow> get_register (Register modrm) width;
        rmValue \<leftarrow> read_operand h modrm width;
        write_operand h modrm width registerValue;
        update_cpu (V86SetRegister (Register modrm) width rmValue);
        advance offset }))"
subsection \<open>The stack\<close>

definition op_push_reg :: "'m v86_host \<Rightarrow> v86_decode \<Rightarrow> u8 \<Rightarrow> ('m, v86_outcome) guest" where
  "op_push_reg h d opcode = do {
     v \<leftarrow> get_register (unat (opcode AND 7)) (operandSize d);
     V86Push h (operandSize d) v;
     advance (Offset d) }"

definition op_pop_reg :: "'m v86_host \<Rightarrow> v86_decode \<Rightarrow> u8 \<Rightarrow> ('m, v86_outcome) guest" where
  \<comment> \<open>the register is set before the stack pointer\<close>
  "op_pop_reg h d opcode = do {
     cpu \<leftarrow> get_cpu;
     let stackPointer = stack_pointer cpu;
     v \<leftarrow> V86ReadMemory h (stack_address h cpu stackPointer) (operandSize d);
     update_cpu (V86SetRegister (unat (opcode AND 7)) (operandSize d) v);
     update_cpu (V86Set16 X86_REG_SP (stackPointer + of_nat (operandSize d)));
     advance (Offset d) }"

definition op_push_imm :: "'m v86_host \<Rightarrow> v86_decode \<Rightarrow> u8 \<Rightarrow> ('m, v86_outcome) guest" where
  "op_push_imm h d opcode = do {
     (offset, v) \<leftarrow>
       (if opcode = 0x68 then do {
          v \<leftarrow> V86_IMMEDIATE h (CodeLinear d) (Offset d) (operandSize d);
          State_Monad.return (Offset d + operandSize d, v) }
        else do {
          b \<leftarrow> V86_CODE_BYTE h (CodeLinear d) (Offset d);
          State_Monad.return (Offset d + 1, scast b AND V86Mask (operandSize d)) });
     V86Push h (operandSize d) v;
     advance offset }"

definition op_pushf :: "'m v86_host \<Rightarrow> v86_decode \<Rightarrow> ('m, v86_outcome) guest" where
  "op_pushf h d = do {
     cpu \<leftarrow> get_cpu;
     (if IsOperand32 d then V86Push h 4 (V86FlagsImage h 4 cpu)
      else V86Push h 2 ((Flags cpu AND V86_FLAGS_MODELLED) OR EFLAGS_RESERVED_ONE_U));
     advance (Offset d) }"

definition op_popf :: "'m v86_host \<Rightarrow> v86_decode \<Rightarrow> ('m, v86_outcome) guest" where
  "op_popf h d = do {
     v \<leftarrow> V86Pop h (operandSize d);
     update_cpu (V86FlagsLoad v (operandSize d));
     advance (Offset d) }"

primrec push_all :: "'m v86_host \<Rightarrow> nat \<Rightarrow> u32 \<Rightarrow> nat list \<Rightarrow> u16 \<Rightarrow> ('m, u16) guest" where
  \<comment> \<open>the registers of PUSHA, with the stack pointer before the first push\<close>
  "push_all h width originalSp [] stackPointer = State_Monad.return stackPointer"
| "push_all h width originalSp (r # rs) stackPointer = do {
     cpu \<leftarrow> get_cpu;
     let stackPointer' = stackPointer - of_nat width;
     V86WriteMemory h (stack_address h cpu stackPointer') width
       (if r = X86_REG_SP then originalSp else V86GetRegister cpu r width);
     push_all h width originalSp rs stackPointer' }"

definition op_pusha :: "'m v86_host \<Rightarrow> v86_decode \<Rightarrow> ('m, v86_outcome) guest" where
  "op_pusha h d = do {
     cpu \<leftarrow> get_cpu;
     stackPointer \<leftarrow> push_all h (operandSize d) (V86GetRegister cpu X86_REG_SP (operandSize d)) [0..<8] (stack_pointer cpu);
     update_cpu (V86Set16 X86_REG_SP stackPointer);
     advance (Offset d) }"

primrec pop_all :: "'m v86_host \<Rightarrow> nat \<Rightarrow> nat list \<Rightarrow> u16 \<Rightarrow> ('m, u16) guest" where
  \<comment> \<open>the registers of POPA; the saved stack pointer is skipped\<close>
  "pop_all h width [] stackPointer = State_Monad.return stackPointer"
| "pop_all h width (r # rs) stackPointer =
     (if r = X86_REG_SP then pop_all h width rs (stackPointer + of_nat width)
      else do {
        cpu \<leftarrow> get_cpu;
        v \<leftarrow> V86ReadMemory h (stack_address h cpu stackPointer) width;
        update_cpu (V86SetRegister r width v);
        pop_all h width rs (stackPointer + of_nat width) })"

definition op_popa :: "'m v86_host \<Rightarrow> v86_decode \<Rightarrow> ('m, v86_outcome) guest" where
  "op_popa h d = do {
     cpu \<leftarrow> get_cpu;
     stackPointer \<leftarrow> pop_all h (operandSize d) (rev [0..<8]) (stack_pointer cpu);
     update_cpu (V86Set16 X86_REG_SP stackPointer);
     advance (Offset d) }"

definition op_push_sreg :: "'m v86_host \<Rightarrow> v86_decode \<Rightarrow> u8 \<Rightarrow> ('m, v86_outcome) guest" where
  "op_push_sreg h d opcode =
     (let segmentRegister = (if opcode = 0x06 then X86_SREG_ES else if opcode = 0x0E then X86_SREG_CS
                             else if opcode = 0x16 then X86_SREG_SS else X86_SREG_DS)
      in do {
        cpu \<leftarrow> get_cpu;
        V86PushSegment h (operandSize d) (Segments cpu segmentRegister);
        advance (Offset d) })"

definition op_pop_sreg :: "'m v86_host \<Rightarrow> v86_decode \<Rightarrow> u8 \<Rightarrow> ('m, v86_outcome) guest" where
  "op_pop_sreg h d opcode =
     (let segmentRegister = (if opcode = 0x07 then X86_SREG_ES else if opcode = 0x17 then X86_SREG_SS else X86_SREG_DS)
      in do {
        v \<leftarrow> V86Pop h (operandSize d);
        update_cpu (set_segment segmentRegister (ucast v));
        advance (Offset d) })"

definition op_mov_sreg :: "'m v86_host \<Rightarrow> v86_decode \<Rightarrow> u8 \<Rightarrow> ('m, v86_outcome) guest" where
  "op_mov_sreg h d opcode =
     with_operand h d (\<lambda>offset modrm.
       let segmentRegister = Register modrm mod 8
       in if segmentRegister > X86_SREG_GS then decline
          else if opcode = 0x8C then do {
            cpu \<leftarrow> get_cpu;
            let v = Segments cpu segmentRegister;
            (if IsMemory modrm then V86WriteMemory h (Linear modrm) 2 (ucast v)
             else if IsOperand32 d then update_cpu (set_register32 (RegisterMemory modrm mod 8) (ucast v))
             else update_cpu (V86Set16 (RegisterMemory modrm) v));
            advance offset }
          else if segmentRegister = X86_SREG_CS then decline
          else do {
            v \<leftarrow> read_operand h modrm 2;
            update_cpu (set_segment segmentRegister (ucast v));
            advance offset })"

definition op_lea :: "'m v86_host \<Rightarrow> v86_decode \<Rightarrow> ('m, v86_outcome) guest" where
  "op_lea h d = do {
     (offset, modrm) \<leftarrow> decode_operand h d;
     if \<not> IsMemory modrm then decline
     else do {
       update_cpu (V86SetRegister (Register modrm) (operandSize d) (EffectiveAddress modrm));
       advance offset } }"

definition op_shift :: "'m v86_host \<Rightarrow> v86_decode \<Rightarrow> u8 \<Rightarrow> ('m, v86_outcome) guest" where
  "op_shift h d opcode =
     (let width = (if opcode AND 1 \<noteq> 0 then operandSize d else 1)
      in with_operand h d (\<lambda>offset modrm. do {
        (offset', count) \<leftarrow>
          (if opcode = 0xD0 \<or> opcode = 0xD1 then State_Monad.return (offset, 1)
           else if opcode = 0xD2 \<or> opcode = 0xD3 then do {
             cpu \<leftarrow> get_cpu;
             State_Monad.return (offset, V86Get8 cpu X86_REG_CX) }
           else do {
             b \<leftarrow> V86_CODE_BYTE h (CodeLinear d) offset;
             State_Monad.return (offset + 1, b) });
        v \<leftarrow> read_operand h modrm width;
        result \<leftarrow> on_cpu (V86ShiftRotate (Register modrm) v count width);
        write_operand h modrm width result;
        advance offset' }))"

subsection \<open>Ports and strings\<close>

definition port_operand :: "'m v86_host \<Rightarrow> v86_decode \<Rightarrow> bool \<Rightarrow> ('m, nat \<times> u16) guest" where
  \<comment> \<open>an immediate port number or DX\<close>
  "port_operand h d isImmediate =
     (if isImmediate then do {
        b \<leftarrow> V86_CODE_BYTE h (CodeLinear d) (Offset d);
        State_Monad.return (Offset d + 1, ucast b) }
      else do {
        cpu \<leftarrow> get_cpu;
        State_Monad.return (Offset d, ucast (Registers cpu X86_REG_DX)) })"

definition op_in :: "'m v86_host \<Rightarrow> v86_decode \<Rightarrow> u8 \<Rightarrow> ('m, v86_outcome) guest" where
  "op_in h d opcode =
     (let width = (if opcode AND 1 \<noteq> 0 then operandSize d else 1)
      in do {
        (offset, port) \<leftarrow> port_operand h d (opcode \<le> 0xE5);
        v \<leftarrow> host_in h port width;
        update_cpu (V86SetRegister X86_REG_AX width (v AND V86Mask width));
        advance offset })"

definition op_out :: "'m v86_host \<Rightarrow> v86_decode \<Rightarrow> u8 \<Rightarrow> ('m, v86_outcome) guest" where
  "op_out h d opcode =
     (let width = (if opcode AND 1 \<noteq> 0 then operandSize d else 1)
      in do {
        (offset, port) \<leftarrow> port_operand h d (opcode \<le> 0xE7);
        v \<leftarrow> get_register X86_REG_AX width;
        host_out h port width v;
        advance offset })"

primrec write_element :: "'m v86_host \<Rightarrow> u32 \<Rightarrow> u16 \<Rightarrow> nat list \<Rightarrow> u32 \<Rightarrow> ('m, unit) guest" where
  \<comment> \<open>the bytes of an element, each offset wrapping at 64 KB; the list holds the byte indexes\<close>
  "write_element h base di [] v = State_Monad.return ()"
| "write_element h base di (i # is) v = do {
     host_write8 h (base + ucast (di + of_nat i)) (ucast (drop_bit (8 * i) v));
     write_element h base di is v }"

primrec read_element :: "'m v86_host \<Rightarrow> u32 \<Rightarrow> u16 \<Rightarrow> nat list \<Rightarrow> u32 \<Rightarrow> ('m, u32) guest" where
  "read_element h base si [] v = State_Monad.return v"
| "read_element h base si (i # is) v = do {
     b \<leftarrow> host_read8 h (base + ucast (si + of_nat i));
     read_element h base si is (v OR push_bit (8 * i) (ucast b)) }"

primrec copy_element :: "'m v86_host \<Rightarrow> u32 \<Rightarrow> u16 \<Rightarrow> u32 \<Rightarrow> u16 \<Rightarrow> nat list \<Rightarrow> ('m, unit) guest" where
  "copy_element h sourceBase si destinationBase di [] = State_Monad.return ()"
| "copy_element h sourceBase si destinationBase di (i # is) = do {
     b \<leftarrow> host_read8 h (sourceBase + ucast (si + of_nat i));
     host_write8 h (destinationBase + ucast (di + of_nat i)) b;
     copy_element h sourceBase si destinationBase di is }"

definition string_direction :: "v86_cpu \<Rightarrow> nat \<Rightarrow> u16" where
  "string_direction cpu width = (if Flags cpu AND EFLAGS_DF_U \<noteq> 0 then - of_nat width else of_nat width)"

definition string_count :: "v86_decode \<Rightarrow> v86_cpu \<Rightarrow> nat" where
  "string_count d cpu = (if Repeat d \<noteq> 0 then unat (ucast (Registers cpu X86_REG_CX) :: u16) else 1)"

definition finish_string :: "v86_decode \<Rightarrow> u16 option \<Rightarrow> u16 option \<Rightarrow> nat \<Rightarrow> ('m, v86_outcome) guest" where
  \<comment> \<open>the index registers an operation moves, CX when repeated, IP\<close>
  "finish_string d si di count = do {
     update_cpu (\<lambda>cpu. case si of None \<Rightarrow> cpu | Some v \<Rightarrow> V86Set16 X86_REG_SI v cpu);
     update_cpu (\<lambda>cpu. case di of None \<Rightarrow> cpu | Some v \<Rightarrow> V86Set16 X86_REG_DI v cpu);
     update_cpu (\<lambda>cpu. if Repeat d \<noteq> 0 then V86Set16 X86_REG_CX (of_nat count) cpu else cpu);
     advance (Offset d) }"

definition element_width :: "v86_decode \<Rightarrow> u8 \<Rightarrow> nat" where
  "element_width d opcode = (if opcode AND 1 \<noteq> 0 then operandSize d else 1)"

primrec ins_loop :: "nat \<Rightarrow> 'm v86_host \<Rightarrow> u16 \<Rightarrow> nat \<Rightarrow> u32 \<Rightarrow> u16 \<Rightarrow> u16 \<Rightarrow> ('m, u16) guest" where
  "ins_loop 0 h port width base direction di = State_Monad.return di"
| "ins_loop (Suc count) h port width base direction di = do {
     v \<leftarrow> host_in h port width;
     write_element h base di [0..<width] v;
     ins_loop count h port width base direction (di + direction) }"

definition op_ins :: "'m v86_host \<Rightarrow> v86_decode \<Rightarrow> u8 \<Rightarrow> ('m, v86_outcome) guest" where
  "op_ins h d opcode = do {
     cpu \<leftarrow> get_cpu;
     let width = element_width d opcode;
     di \<leftarrow> ins_loop (string_count d cpu) h (ucast (Registers cpu X86_REG_DX)) width
             (V86SegmentBase h (Segments cpu X86_SREG_ES)) (string_direction cpu width) (ucast (Registers cpu X86_REG_DI));
     finish_string d None (Some di) 0 }"

primrec outs_loop :: "nat \<Rightarrow> 'm v86_host \<Rightarrow> u16 \<Rightarrow> nat \<Rightarrow> u32 \<Rightarrow> u16 \<Rightarrow> u16 \<Rightarrow> ('m, u16) guest" where
  "outs_loop 0 h port width base direction si = State_Monad.return si"
| "outs_loop (Suc count) h port width base direction si = do {
     v \<leftarrow> read_element h base si [0..<width] 0;
     host_out h port width v;
     outs_loop count h port width base direction (si + direction) }"

definition op_outs :: "'m v86_host \<Rightarrow> v86_decode \<Rightarrow> u8 \<Rightarrow> ('m, v86_outcome) guest" where
  "op_outs h d opcode = do {
     cpu \<leftarrow> get_cpu;
     let width = element_width d opcode;
     si \<leftarrow> outs_loop (string_count d cpu) h (ucast (Registers cpu X86_REG_DX)) width
             (V86SegmentBase h (Segments cpu (data_segment d))) (string_direction cpu width) (ucast (Registers cpu X86_REG_SI));
     finish_string d (Some si) None 0 }"

primrec stos_loop :: "nat \<Rightarrow> 'm v86_host \<Rightarrow> u32 \<Rightarrow> nat \<Rightarrow> u32 \<Rightarrow> u16 \<Rightarrow> u16 \<Rightarrow> ('m, u16) guest" where
  "stos_loop 0 h accumulator width base direction di = State_Monad.return di"
| "stos_loop (Suc count) h accumulator width base direction di = do {
     write_element h base di [0..<width] accumulator;
     stos_loop count h accumulator width base direction (di + direction) }"

definition op_stos :: "'m v86_host \<Rightarrow> v86_decode \<Rightarrow> u8 \<Rightarrow> ('m, v86_outcome) guest" where
  "op_stos h d opcode = do {
     cpu \<leftarrow> get_cpu;
     let width = element_width d opcode;
     di \<leftarrow> stos_loop (string_count d cpu) h (Registers cpu X86_REG_AX) width
             (V86SegmentBase h (Segments cpu X86_SREG_ES)) (string_direction cpu width) (ucast (Registers cpu X86_REG_DI));
     finish_string d None (Some di) 0 }"

primrec movs_loop ::
  "nat \<Rightarrow> 'm v86_host \<Rightarrow> nat \<Rightarrow> u32 \<Rightarrow> u32 \<Rightarrow> u16 \<Rightarrow> u16 \<Rightarrow> u16 \<Rightarrow> ('m, u16 \<times> u16) guest" where
  "movs_loop 0 h width sourceBase destinationBase direction si di = State_Monad.return (si, di)"
| "movs_loop (Suc count) h width sourceBase destinationBase direction si di = do {
     copy_element h sourceBase si destinationBase di [0..<width];
     movs_loop count h width sourceBase destinationBase direction (si + direction) (di + direction) }"

definition op_movs :: "'m v86_host \<Rightarrow> v86_decode \<Rightarrow> u8 \<Rightarrow> ('m, v86_outcome) guest" where
  "op_movs h d opcode = do {
     cpu \<leftarrow> get_cpu;
     let width = element_width d opcode;
     (si, di) \<leftarrow> movs_loop (string_count d cpu) h width (V86SegmentBase h (Segments cpu (data_segment d)))
             (V86SegmentBase h (Segments cpu X86_SREG_ES)) (string_direction cpu width)
             (ucast (Registers cpu X86_REG_SI)) (ucast (Registers cpu X86_REG_DI));
     finish_string d (Some si) (Some di) 0 }"

primrec compare_loop ::
  "nat \<Rightarrow> 'm v86_host \<Rightarrow> bool \<Rightarrow> nat \<Rightarrow> nat \<Rightarrow> u32 \<Rightarrow> u32 \<Rightarrow> u16 \<Rightarrow> u16 \<Rightarrow> u16 \<Rightarrow> ('m, nat \<times> u16 \<times> u16) guest" where
  \<comment> \<open>CMPS and SCAS: the elements left, and the indexes\<close>
  "compare_loop 0 h isScas rep width sourceBase extraBase direction si di = State_Monad.return (0, si, di)"
| "compare_loop (Suc count) h isScas rep width sourceBase extraBase direction si di = do {
     second \<leftarrow> read_element h extraBase di [0..<width] 0;
     first \<leftarrow> (if isScas then get_register X86_REG_AX width else read_element h sourceBase si [0..<width] 0);
     let si' = (if isScas then si else si + direction);
     _ \<leftarrow> on_cpu (V86Subtract first second False width);
     cpu \<leftarrow> get_cpu;
     let zero = (Flags cpu AND EFLAGS_ZF_U \<noteq> 0);
     if rep = 1 \<and> \<not> zero \<or> rep = 2 \<and> zero then State_Monad.return (count, si', di + direction)
     else compare_loop count h isScas rep width sourceBase extraBase direction si' (di + direction) }"

definition op_compare :: "'m v86_host \<Rightarrow> v86_decode \<Rightarrow> u8 \<Rightarrow> ('m, v86_outcome) guest" where
  "op_compare h d opcode = do {
     cpu \<leftarrow> get_cpu;
     let width = element_width d opcode;
     let isScas = (opcode \<ge> 0xAE);
     (count, si, di) \<leftarrow> compare_loop (string_count d cpu) h isScas (Repeat d) width
             (V86SegmentBase h (Segments cpu (data_segment d))) (V86SegmentBase h (Segments cpu X86_SREG_ES))
             (string_direction cpu width) (ucast (Registers cpu X86_REG_SI)) (ucast (Registers cpu X86_REG_DI));
     finish_string d (if isScas then None else Some si) (Some di) count }"

primrec lods_loop :: "nat \<Rightarrow> 'm v86_host \<Rightarrow> nat \<Rightarrow> u32 \<Rightarrow> u16 \<Rightarrow> u16 \<Rightarrow> ('m, u16) guest" where
  "lods_loop 0 h width base direction si = State_Monad.return si"
| "lods_loop (Suc count) h width base direction si = do {
     v \<leftarrow> read_element h base si [0..<width] 0;
     update_cpu (V86SetRegister X86_REG_AX width v);
     lods_loop count h width base direction (si + direction) }"

definition op_lods :: "'m v86_host \<Rightarrow> v86_decode \<Rightarrow> u8 \<Rightarrow> ('m, v86_outcome) guest" where
  "op_lods h d opcode = do {
     cpu \<leftarrow> get_cpu;
     let width = element_width d opcode;
     si \<leftarrow> lods_loop (string_count d cpu) h width (V86SegmentBase h (Segments cpu (data_segment d)))
             (string_direction cpu width) (ucast (Registers cpu X86_REG_SI));
     finish_string d (Some si) None 0 }"

definition op_mov_imm8 :: "'m v86_host \<Rightarrow> v86_decode \<Rightarrow> u8 \<Rightarrow> ('m, v86_outcome) guest" where
  "op_mov_imm8 h d opcode = do {
     b \<leftarrow> V86_CODE_BYTE h (CodeLinear d) (Offset d);
     update_cpu (V86Set8 (unat (opcode AND 7)) b);
     advance (Offset d + 1) }"

definition op_mov_imm :: "'m v86_host \<Rightarrow> v86_decode \<Rightarrow> u8 \<Rightarrow> ('m, v86_outcome) guest" where
  "op_mov_imm h d opcode = do {
     v \<leftarrow> V86_IMMEDIATE h (CodeLinear d) (Offset d) (operandSize d);
     update_cpu (V86SetRegister (unat (opcode AND 7)) (operandSize d) v);
     advance (Offset d + operandSize d) }"

definition op_moffs :: "'m v86_host \<Rightarrow> v86_decode \<Rightarrow> u8 \<Rightarrow> ('m, v86_outcome) guest" where
  "op_moffs h d opcode =
     (let width = (if opcode AND 1 \<noteq> 0 then operandSize d else 1)
      in do {
        address \<leftarrow> code_word h (CodeLinear d) (Offset d);
        cpu \<leftarrow> get_cpu;
        let linear = V86SegmentBase h (Segments cpu (data_segment d)) + ucast address;
        if linear \<ge> V86_GUEST_LIMIT then decline
        else do {
          (if opcode \<le> 0xA1 then do {
             v \<leftarrow> V86ReadMemory h linear width;
             update_cpu (V86SetRegister X86_REG_AX width v) }
           else V86WriteMemory h linear width (V86GetRegister cpu X86_REG_AX width));
          advance (Offset d + 2) } })"
subsection \<open>Control flow\<close>

definition op_jcc :: "'m v86_host \<Rightarrow> v86_decode \<Rightarrow> u8 \<Rightarrow> ('m, v86_outcome) guest" where
  "op_jcc h d opcode = do {
     relative \<leftarrow> V86_CODE_BYTE h (CodeLinear d) (Offset d);
     cpu \<leftarrow> get_cpu;
     let isTaken = V86Condition cpu (opcode AND 0x0F);
     jump (Ip cpu + of_nat (Offset d + 1) + (if isTaken then scast relative else 0)) }"

definition op_jmp_short :: "'m v86_host \<Rightarrow> v86_decode \<Rightarrow> ('m, v86_outcome) guest" where
  "op_jmp_short h d = do {
     relative \<leftarrow> V86_CODE_BYTE h (CodeLinear d) (Offset d);
     cpu \<leftarrow> get_cpu;
     jump (Ip cpu + of_nat (Offset d + 1) + scast relative) }"

definition op_near32 :: "'m v86_host \<Rightarrow> v86_decode \<Rightarrow> u8 \<Rightarrow> ('m, v86_outcome) guest" where
  "op_near32 h d opcode = do {
     cpu \<leftarrow> get_cpu;
     let nextIp = (ucast (Ip cpu + of_nat (Offset d) + 4) :: u32);
     relative \<leftarrow> V86ReadMemory h (CodeLinear d + of_nat (Offset d)) 4;
     let target = nextIp + relative;
     if target > V86_OFFSET_MAX then decline
     else do {
       (if opcode = 0xE8 then V86Push h 4 nextIp else State_Monad.return ());
       jump (ucast target) } }"

definition op_jmp :: "'m v86_host \<Rightarrow> v86_decode \<Rightarrow> ('m, v86_outcome) guest" where
  "op_jmp h d = do {
     relative \<leftarrow> code_word h (CodeLinear d) (Offset d);
     cpu \<leftarrow> get_cpu;
     jump (Ip cpu + of_nat (Offset d + 2) + relative) }"

definition op_call :: "'m v86_host \<Rightarrow> v86_decode \<Rightarrow> ('m, v86_outcome) guest" where
  "op_call h d = do {
     relative \<leftarrow> code_word h (CodeLinear d) (Offset d);
     cpu \<leftarrow> get_cpu;
     let nextIp = Ip cpu + of_nat (Offset d + 2);
     V86Push h 2 (ucast nextIp);
     jump (nextIp + relative) }"

definition extra_pop :: "'m v86_host \<Rightarrow> v86_decode \<Rightarrow> bool \<Rightarrow> ('m, u16) guest" where
  \<comment> \<open>the immediate of RET and RETF\<close>
  "extra_pop h d isImmediate = (if isImmediate then code_word h (CodeLinear d) (Offset d) else State_Monad.return 0)"

definition op_ret :: "'m v86_host \<Rightarrow> v86_decode \<Rightarrow> u8 \<Rightarrow> ('m, v86_outcome) guest" where
  "op_ret h d opcode = do {
     cpu \<leftarrow> get_cpu;
     let stackPointer = stack_pointer cpu;
     operand \<leftarrow> V86ReadMemory h (stack_address h cpu stackPointer) (operandSize d);
     if IsOperand32 d \<and> operand > V86_OFFSET_MAX then decline
     else do {
       extra \<leftarrow> extra_pop h d (opcode = 0xC2);
       update_cpu (V86Set16 X86_REG_SP (stackPointer + of_nat (operandSize d) + extra));
       jump (ucast operand) } }"

definition op_retf :: "'m v86_host \<Rightarrow> v86_decode \<Rightarrow> u8 \<Rightarrow> ('m, v86_outcome) guest" where
  "op_retf h d opcode = do {
     cpu \<leftarrow> get_cpu;
     let stackPointer = stack_pointer cpu;
     operand \<leftarrow> V86ReadMemory h (stack_address h cpu stackPointer) (operandSize d);
     selector \<leftarrow> V86ReadMemory h (stack_address h cpu (stackPointer + of_nat (operandSize d))) 2;
     let declined = (if isProtected h then \<not> V86IsFarTargetValid h cpu (ucast selector) operand
                     else IsOperand32 d \<and> operand > V86_OFFSET_MAX);
     if declined then decline
     else do {
       extra \<leftarrow> extra_pop h d (opcode = 0xCA);
       update_cpu (V86Set16 X86_REG_SP (stackPointer + of_nat (2 * operandSize d) + extra));
       update_cpu (set_segment X86_SREG_CS (ucast selector));
       jump (ucast operand) } }"

primrec enter_frames :: "nat \<Rightarrow> 'm v86_host \<Rightarrow> nat \<Rightarrow> u32 \<Rightarrow> ('m, unit) guest" where
  \<comment> \<open>the caller's frame pointers copied for a nesting level\<close>
  "enter_frames 0 h width stackBase = State_Monad.return ()"
| "enter_frames (Suc n) h width stackBase = do {
     cpu \<leftarrow> get_cpu;
     let framePointer = (ucast (Registers cpu X86_REG_BP) :: u16) - of_nat width;
     update_cpu (V86Set16 X86_REG_BP framePointer);
     v \<leftarrow> V86ReadMemory h (stackBase + ucast framePointer) width;
     V86Push h width v;
     enter_frames n h width stackBase }"

definition op_enter :: "'m v86_host \<Rightarrow> v86_decode \<Rightarrow> ('m, v86_outcome) guest" where
  "op_enter h d = do {
     frameSize \<leftarrow> code_word h (CodeLinear d) (Offset d);
     levelByte \<leftarrow> V86_CODE_BYTE h (CodeLinear d) (Offset d + 2);
     let level = unat (levelByte AND 0x1F);
     cpu \<leftarrow> get_cpu;
     let stackBase = V86SegmentBase h (Segments cpu X86_SREG_SS);
     V86Push h (operandSize d) (V86GetRegister cpu X86_REG_BP (operandSize d));
     cpu1 \<leftarrow> get_cpu;
     let frameTemp = stack_pointer cpu1;
     (if level > 0 then do {
        enter_frames (level - 1) h (operandSize d) stackBase;
        V86Push h (operandSize d) (ucast frameTemp) }
      else State_Monad.return ());
     update_cpu (V86Set16 X86_REG_BP frameTemp);
     update_cpu (\<lambda>cpu. V86Set16 X86_REG_SP (stack_pointer cpu - frameSize) cpu);
     advance (Offset d + 3) }"

definition op_leave :: "'m v86_host \<Rightarrow> v86_decode \<Rightarrow> ('m, v86_outcome) guest" where
  "op_leave h d = do {
     cpu \<leftarrow> get_cpu;
     let stackPointer = (ucast (Registers cpu X86_REG_BP) :: u16);
     v \<leftarrow> V86ReadMemory h (stack_address h cpu stackPointer) (operandSize d);
     update_cpu (V86SetRegister X86_REG_BP (operandSize d) v);
     update_cpu (V86Set16 X86_REG_SP (stackPointer + of_nat (operandSize d)));
     advance (Offset d) }"

definition op_pop_rm :: "'m v86_host \<Rightarrow> v86_decode \<Rightarrow> ('m, v86_outcome) guest" where
  "op_pop_rm h d =
     (if isProtected h then decline
      else do {
        (offset, modrm) \<leftarrow> decode_operand h d;
        if Register modrm \<noteq> 0 \<or> IsMemory modrm \<and> Linear modrm + of_nat (operandSize d) > V86_GUEST_LIMIT then decline
        else do {
          v \<leftarrow> V86Pop h (operandSize d);
          write_operand h modrm (operandSize d) v;
          advance offset } })"

definition op_cbw :: "v86_decode \<Rightarrow> ('m, v86_outcome) guest" where
  "op_cbw d = do {
     update_cpu (\<lambda>cpu.
       if IsOperand32 d then set_register32 X86_REG_AX (scast (ucast (Registers cpu X86_REG_AX) :: u16)) cpu
       else V86Set16 X86_REG_AX (scast (ucast (Registers cpu X86_REG_AX) :: u8)) cpu);
     advance (Offset d) }"

definition op_cwd :: "v86_decode \<Rightarrow> ('m, v86_outcome) guest" where
  "op_cwd d = do {
     update_cpu (\<lambda>cpu.
       if IsOperand32 d
       then set_register32 X86_REG_DX (if Registers cpu X86_REG_AX AND 0x80000000 \<noteq> 0 then 0xFFFFFFFF else 0) cpu
       else V86Set16 X86_REG_DX (if Registers cpu X86_REG_AX AND 0x8000 \<noteq> 0 then 0xFFFF else 0) cpu);
     advance (Offset d) }"

definition op_imul_imm :: "'m v86_host \<Rightarrow> v86_decode \<Rightarrow> u8 \<Rightarrow> ('m, v86_outcome) guest" where
  "op_imul_imm h d opcode =
     (let width = operandSize d
      in with_operand h d (\<lambda>offset modrm. do {
        operand \<leftarrow> read_operand h modrm width;
        (offset', second) \<leftarrow>
          (if opcode = 0x6B then do {
             b \<leftarrow> V86_IMMEDIATE h (CodeLinear d) offset 1;
             State_Monad.return (offset + 1, sint (ucast b :: u8)) }
           else do {
             v \<leftarrow> V86_IMMEDIATE h (CodeLinear d) offset width;
             State_Monad.return (offset + width, signed_divisor width v) });
        let product = (word_of_int (signed_divisor width operand * second) :: u64);
        let result = ucast product AND V86Mask width;
        let isOverflow = (sint product \<noteq> signed_divisor width result);
        update_cpu (V86SetRegister (Register modrm) width result);
        update_cpu (set_flags (\<lambda>f. flag_if isOverflow (EFLAGS_CF_U OR EFLAGS_OF_U) (f AND NOT (EFLAGS_CF_U OR EFLAGS_OF_U))));
        advance offset' }))"

definition op_xlat :: "'m v86_host \<Rightarrow> v86_decode \<Rightarrow> ('m, v86_outcome) guest" where
  "op_xlat h d = do {
     cpu \<leftarrow> get_cpu;
     let linear = V86SegmentBase h (Segments cpu (data_segment d)) +
       ucast (ucast ((Registers cpu X86_REG_BX AND 0xFFFF) + (Registers cpu X86_REG_AX AND 0xFF)) :: u16);
     if linear \<ge> V86_GUEST_LIMIT then decline
     else do {
       b \<leftarrow> host_read8 h linear;
       update_cpu (V86Set8 X86_REG_AX b);
       advance (Offset d) } }"

definition op_les_lds :: "'m v86_host \<Rightarrow> v86_decode \<Rightarrow> u8 \<Rightarrow> ('m, v86_outcome) guest" where
  \<comment> \<open>the register form is the VDM's own escape, and is left to fall through\<close>
  "op_les_lds h d opcode = do {
     b \<leftarrow> V86_CODE_BYTE h (CodeLinear d) (Offset d);
     if b = 0xC4 \<or> drop_bit 6 b = 3 then decline
     else if isProtected h then decline
     else do {
       (offset, modrm) \<leftarrow> decode_operand h d;
       if \<not> IsMemory modrm \<or> Linear modrm + of_nat (operandSize d) + 2 > V86_GUEST_LIMIT then decline
       else do {
         v \<leftarrow> V86ReadMemory h (Linear modrm) (operandSize d);
         update_cpu (V86SetRegister (Register modrm) (operandSize d) v);
         s \<leftarrow> V86ReadMemory h (Linear modrm + of_nat (operandSize d)) 2;
         update_cpu (set_segment (if opcode = 0xC4 then X86_SREG_ES else X86_SREG_DS) (ucast s));
         advance offset } } }"

definition op_loop :: "'m v86_host \<Rightarrow> v86_decode \<Rightarrow> u8 \<Rightarrow> ('m, v86_outcome) guest" where
  \<comment> \<open>LOOPNE, LOOPE, LOOP, JCXZ\<close>
  "op_loop h d opcode = do {
     relative \<leftarrow> V86_CODE_BYTE h (CodeLinear d) (Offset d);
     (if opcode = 0xE3 then State_Monad.return ()
      else update_cpu (\<lambda>cpu. V86Set16 X86_REG_CX (ucast (Registers cpu X86_REG_CX - 1)) cpu));
     cpu \<leftarrow> get_cpu;
     let isCountNonZero = ((ucast (Registers cpu X86_REG_CX) :: u16) \<noteq> 0);
     let zero = (Flags cpu AND EFLAGS_ZF_U \<noteq> 0);
     let isTaken = (if opcode = 0xE3 then \<not> isCountNonZero
                    else if opcode = 0xE2 then isCountNonZero
                    else if opcode = 0xE1 then isCountNonZero \<and> zero
                    else isCountNonZero \<and> \<not> zero);
     jump (Ip cpu + of_nat (Offset d + 1) + (if isTaken then scast relative else 0)) }"

definition op_xchg_acc :: "v86_decode \<Rightarrow> u8 \<Rightarrow> ('m, v86_outcome) guest" where
  "op_xchg_acc d opcode =
     (let registerIndex = unat (opcode AND 7)
      in do {
        first \<leftarrow> get_register X86_REG_AX (operandSize d);
        second \<leftarrow> get_register registerIndex (operandSize d);
        update_cpu (V86SetRegister X86_REG_AX (operandSize d) second);
        update_cpu (V86SetRegister registerIndex (operandSize d) first);
        advance (Offset d) })"

definition op_flag :: "v86_decode \<Rightarrow> (u32 \<Rightarrow> u32) \<Rightarrow> ('m, v86_outcome) guest" where
  "op_flag d f = do {
     update_cpu (set_flags f);
     advance (Offset d) }"

definition op_lahf :: "v86_decode \<Rightarrow> ('m, v86_outcome) guest" where
  "op_lahf d = do {
     update_cpu (\<lambda>cpu. V86Set8 4 (ucast ((Flags cpu AND 0xD5) OR EFLAGS_RESERVED_ONE_U)) cpu);
     advance (Offset d) }"

definition op_sahf :: "v86_decode \<Rightarrow> ('m, v86_outcome) guest" where
  "op_sahf d = do {
     update_cpu (\<lambda>cpu. cpu\<lparr>Flags := (Flags cpu AND NOT 0xD5) OR (ucast (V86Get8 cpu 4) AND 0xD5)\<rparr>);
     advance (Offset d) }"

definition op_int :: "'m v86_host \<Rightarrow> v86_decode \<Rightarrow> u8 \<Rightarrow> ('m, v86_outcome) guest" where
  "op_int h d opcode =
     (if isProtected h then decline
      else do {
        (offset, vector) \<leftarrow>
          (if opcode = 0xCC then State_Monad.return (Offset d, 3)
           else do {
             b \<leftarrow> V86_CODE_BYTE h (CodeLinear d) (Offset d);
             State_Monad.return (Offset d + 1, ucast b) });
        cpu \<leftarrow> get_cpu;
        V86Push h 2 ((Flags cpu AND V86_FLAGS_MODELLED) OR EFLAGS_RESERVED_ONE_U);
        V86Push h 2 (ucast (Segments cpu X86_SREG_CS));
        V86Push h 2 (ucast (Ip cpu + of_nat offset));
        update_cpu (set_flags (\<lambda>f. f AND NOT (EFLAGS_IF_U OR EFLAGS_TF_U)));
        handlerIp \<leftarrow> V86ReadMemory h ((vector :: u32) * 4) 2;
        handlerCs \<leftarrow> V86ReadMemory h (vector * 4 + 2) 2;
        update_cpu (set_segment X86_SREG_CS (ucast handlerCs));
        jump (ucast handlerIp) })"

definition op_iret :: "'m v86_host \<Rightarrow> v86_decode \<Rightarrow> ('m, v86_outcome) guest" where
  "op_iret h d =
     (if IsOperand32 d \<and> isProtected h then decline
      else do {
        cpu \<leftarrow> get_cpu;
        let size = operandSize d;
        let stackPointer = stack_pointer cpu;
        operand \<leftarrow> V86ReadMemory h (stack_address h cpu stackPointer) size;
        codeSegment \<leftarrow> V86ReadMemory h (stack_address h cpu (stackPointer + of_nat size)) 2;
        newFlags \<leftarrow> V86ReadMemory h (stack_address h cpu (stackPointer + of_nat (2 * size))) size;
        let declined = (if isProtected h then \<not> V86IsFarTargetValid h cpu (ucast codeSegment) operand
                        else IsOperand32 d \<and> operand > V86_OFFSET_MAX);
        if declined then decline
        else do {
          update_cpu (set_segment X86_SREG_CS (ucast codeSegment));
          update_cpu (V86FlagsLoad newFlags size);
          update_cpu (V86Set16 X86_REG_SP (stackPointer + of_nat (3 * size)));
          jump (ucast operand) } })"

definition op_far :: "'m v86_host \<Rightarrow> v86_decode \<Rightarrow> u8 \<Rightarrow> ('m, v86_outcome) guest" where
  \<comment> \<open>JMP FAR and CALL FAR to an immediate pointer\<close>
  "op_far h d opcode =
     (if isProtected h then decline
      else do {
        farOffset \<leftarrow> V86_IMMEDIATE h (CodeLinear d) (Offset d) (operandSize d);
        segment \<leftarrow> code_word h (CodeLinear d) (Offset d + operandSize d);
        let offset = Offset d + operandSize d + 2;
        if IsOperand32 d \<and> farOffset > V86_OFFSET_MAX then decline
        else do {
          cpu \<leftarrow> get_cpu;
          (if opcode = 0x9A then do {
             V86Push h (operandSize d) (ucast (Segments cpu X86_SREG_CS));
             V86Push h (operandSize d) (ucast (Ip cpu + of_nat offset)) }
           else State_Monad.return ());
          update_cpu (set_segment X86_SREG_CS segment);
          jump (ucast farOffset) } })"

subsection \<open>The step\<close>

definition v86_low_half :: "'m v86_host \<Rightarrow> v86_decode \<Rightarrow> u8 \<Rightarrow> ('m, v86_outcome) guest" where
  \<comment> \<open>opcodes 00h to 8Fh\<close>
  "v86_low_half h d opcode =
     (if opcode < 0x40 \<and> opcode AND 7 < 6 then op_alu h d opcode
      else if opcode = 0x80 \<or> opcode = 0x81 \<or> opcode = 0x83 then op_group1 h d opcode
      else if opcode \<ge> 0x40 \<and> opcode \<le> 0x4F then op_inc_dec d opcode
      else if opcode = 0x84 \<or> opcode = 0x85 then op_test h d opcode
      else if opcode = 0x88 \<or> opcode = 0x89 \<or> opcode = 0x8A \<or> opcode = 0x8B then op_mov h d opcode
      else if opcode = 0x86 \<or> opcode = 0x87 then op_xchg h d opcode
      else if opcode \<ge> 0x50 \<and> opcode \<le> 0x57 then op_push_reg h d opcode
      else if opcode \<ge> 0x58 \<and> opcode \<le> 0x5F then op_pop_reg h d opcode
      else if opcode = 0x68 \<or> opcode = 0x6A then op_push_imm h d opcode
      else if opcode = 0x60 then op_pusha h d
      else if opcode = 0x61 then op_popa h d
      else if opcode = 0x06 \<or> opcode = 0x0E \<or> opcode = 0x16 \<or> opcode = 0x1E then op_push_sreg h d opcode
      else if opcode = 0x07 \<or> opcode = 0x17 \<or> opcode = 0x1F then op_pop_sreg h d opcode
      else if opcode = 0x8C \<or> opcode = 0x8E then op_mov_sreg h d opcode
      else if opcode = 0x8D then op_lea h d
      else if opcode = 0x6C \<or> opcode = 0x6D then op_ins h d opcode
      else if opcode = 0x6E \<or> opcode = 0x6F then op_outs h d opcode
      else if opcode \<ge> 0x70 \<and> opcode \<le> 0x7F then op_jcc h d opcode
      else if opcode = 0x8F then op_pop_rm h d
      else if opcode = 0x69 \<or> opcode = 0x6B then op_imul_imm h d opcode
      else decline)"

definition v86_high_half :: "'m v86_host \<Rightarrow> v86_decode \<Rightarrow> u8 \<Rightarrow> ('m, v86_outcome) guest" where
  \<comment> \<open>opcodes 90h to FFh\<close>
  "v86_high_half h d opcode =
     (if opcode = 0xFE \<or> opcode = 0xFF then op_group45 h d opcode
      else if opcode = 0xA8 \<or> opcode = 0xA9 then op_test_imm h d opcode
      else if opcode = 0xF6 \<or> opcode = 0xF7 then op_group3 h d opcode
      else if opcode = 0xC6 \<or> opcode = 0xC7 then op_mov_imm_rm h d opcode
      else if opcode = 0x9C then op_pushf h d
      else if opcode = 0x9D then op_popf h d
      else if opcode = 0xD0 \<or> opcode = 0xD1 \<or> opcode = 0xD2 \<or> opcode = 0xD3 \<or> opcode = 0xC0 \<or> opcode = 0xC1
      then op_shift h d opcode
      else if opcode = 0xE4 \<or> opcode = 0xE5 \<or> opcode = 0xEC \<or> opcode = 0xED then op_in h d opcode
      else if opcode = 0xE6 \<or> opcode = 0xE7 \<or> opcode = 0xEE \<or> opcode = 0xEF then op_out h d opcode
      else if opcode \<ge> 0xB0 \<and> opcode \<le> 0xB7 then op_mov_imm8 h d opcode
      else if opcode \<ge> 0xB8 \<and> opcode \<le> 0xBF then op_mov_imm h d opcode
      else if opcode \<ge> 0xA0 \<and> opcode \<le> 0xA3 then op_moffs h d opcode
      else if opcode = 0xAA \<or> opcode = 0xAB then op_stos h d opcode
      else if opcode = 0xA4 \<or> opcode = 0xA5 then op_movs h d opcode
      else if opcode = 0xA6 \<or> opcode = 0xA7 \<or> opcode = 0xAE \<or> opcode = 0xAF then op_compare h d opcode
      else if opcode = 0xAC \<or> opcode = 0xAD then op_lods h d opcode
      else if opcode = 0xEB then op_jmp_short h d
      else if (opcode = 0xE9 \<or> opcode = 0xE8) \<and> IsOperand32 d then op_near32 h d opcode
      else if opcode = 0xE9 then op_jmp h d
      else if opcode = 0xE8 then op_call h d
      else if opcode = 0xC3 \<or> opcode = 0xC2 then op_ret h d opcode
      else if opcode = 0xCB \<or> opcode = 0xCA then op_retf h d opcode
      else if opcode = 0xC8 then op_enter h d
      else if opcode = 0xC9 then op_leave h d
      else if opcode = 0x9B then advance (Offset d)
      else if opcode = 0x9F then op_lahf d
      else if opcode = 0x9E then op_sahf d
      else if opcode = 0x98 then op_cbw d
      else if opcode = 0x99 then op_cwd d
      else if opcode = 0xD7 then op_xlat h d
      else if opcode = 0xC4 \<or> opcode = 0xC5 then op_les_lds h d opcode
      else if opcode \<ge> 0xE0 \<and> opcode \<le> 0xE3 then op_loop h d opcode
      else if opcode \<ge> 0x91 \<and> opcode \<le> 0x97 then op_xchg_acc d opcode
      else if opcode = 0x90 then advance (Offset d)
      else if opcode = 0xF8 then op_flag d (\<lambda>f. f AND NOT EFLAGS_CF_U)
      else if opcode = 0xF9 then op_flag d (\<lambda>f. f OR EFLAGS_CF_U)
      else if opcode = 0xF5 then op_flag d (\<lambda>f. f XOR EFLAGS_CF_U)
      else if opcode = 0xFC then op_flag d (\<lambda>f. f AND NOT EFLAGS_DF_U)
      else if opcode = 0xFD then op_flag d (\<lambda>f. f OR EFLAGS_DF_U)
      else if opcode = 0xCD \<or> opcode = 0xCC then op_int h d opcode
      else if opcode = 0xCF then op_iret h d
      else if opcode = 0xEA \<or> opcode = 0x9A then op_far h d opcode
      else if opcode = 0xFA then op_flag d (\<lambda>f. f AND NOT EFLAGS_IF_U)
      else if opcode = 0xFB then op_flag d (\<lambda>f. f OR EFLAGS_IF_U)
      else decline)"

definition apply_prefix :: "'m v86_host \<Rightarrow> u8 \<Rightarrow> v86_decode \<Rightarrow> v86_decode option option" where
  \<comment> \<open>\<open>None\<close> is not a prefix; \<open>Some None\<close> one the interpreter declines\<close>
  "apply_prefix h b d =
     (let d1 = d\<lparr>Offset := Offset d + 1\<rparr>
      in if b = 0x26 then Some (Some (d1\<lparr>SegmentOverride := Some X86_SREG_ES\<rparr>))
         else if b = 0x2E then Some (Some (d1\<lparr>SegmentOverride := Some X86_SREG_CS\<rparr>))
         else if b = 0x36 then Some (Some (d1\<lparr>SegmentOverride := Some X86_SREG_SS\<rparr>))
         else if b = 0x3E then Some (Some (d1\<lparr>SegmentOverride := Some X86_SREG_DS\<rparr>))
         else if b = 0x64 then Some (Some (d1\<lparr>SegmentOverride := Some X86_SREG_FS\<rparr>))
         else if b = 0x65 then Some (Some (d1\<lparr>SegmentOverride := Some X86_SREG_GS\<rparr>))
         else if b = 0xF3 then Some (Some (d1\<lparr>Repeat := 1\<rparr>))
         else if b = 0xF2 then Some (Some (d1\<lparr>Repeat := 2\<rparr>))
         else if b = 0x66 then Some (Some (d1\<lparr>IsOperand32 := True\<rparr>))
         else if b = 0x67 then Some (if isProtected h then None else Some (d1\<lparr>IsAddress32 := True\<rparr>))
         else if b = 0xF0 then Some (Some (d1\<lparr>IsLocked := True\<rparr>))
         else None)"

primrec v86_prefixes :: "nat \<Rightarrow> 'm v86_host \<Rightarrow> v86_decode \<Rightarrow> ('m, v86_decode option) guest" where
  \<comment> \<open>the prefix loop, which gives up after four; \<open>None\<close> declines the instruction\<close>
  "v86_prefixes 0 h d = State_Monad.return None"
| "v86_prefixes (Suc turns) h d = do {
     b \<leftarrow> V86_CODE_BYTE h (CodeLinear d) (Offset d);
     case apply_prefix h b d of
       None \<Rightarrow> State_Monad.return (Some d)
     | Some None \<Rightarrow> State_Monad.return None
     | Some (Some d') \<Rightarrow> if Offset d' > 4 then State_Monad.return None else v86_prefixes turns h d' }"

definition implicit_address :: "u8 \<Rightarrow> bool" where
  \<comment> \<open>the opcodes whose implicit addresses 67h widens\<close>
  "implicit_address opcode \<longleftrightarrow>
     opcode \<ge> 0xA0 \<and> opcode \<le> 0xA7 \<or> opcode \<ge> 0xAA \<and> opcode \<le> 0xAF \<or> opcode \<ge> 0x6C \<and> opcode \<le> 0x6F \<or>
     opcode = 0xD7 \<or> opcode \<ge> 0xE0 \<and> opcode \<le> 0xE3"

definition v86_opcode :: "'m v86_host \<Rightarrow> v86_decode \<Rightarrow> ('m, v86_outcome) guest" where
  \<comment> \<open>from the opcode on\<close>
  "v86_opcode h d0 = do {
     opcode \<leftarrow> V86_CODE_BYTE h (CodeLinear d0) (Offset d0);
     let d = d0\<lparr>Offset := Offset d0 + 1\<rparr>;
     if IsAddress32 d \<and> implicit_address opcode then decline
     else do {
       isLegal \<leftarrow> (if IsLocked d then V86IsLockable h (CodeLinear d) (Offset d) opcode else State_Monad.return True);
       if \<not> isLegal then decline
       else if opcode = 0x0F then do {
         opcode2 \<leftarrow> V86_CODE_BYTE h (CodeLinear d) (Offset d);
         v86_escape h (d\<lparr>Offset := Offset d + 1\<rparr>) opcode2 }
       else if opcode < 0x90 then v86_low_half h d opcode
       else v86_high_half h d opcode } }"

definition V86Step :: "'m v86_host \<Rightarrow> ('m, v86_outcome) guest" where
  "V86Step h = do {
     cpu \<leftarrow> get_cpu;
     let codeLinear = V86SegmentBase h (Segments cpu X86_SREG_CS) + ucast (Ip cpu);
     if Flags cpu AND EFLAGS_TF_U \<noteq> 0 then decline
     else do {
       prefixes \<leftarrow> v86_prefixes 5 h
         \<lparr>CodeLinear = codeLinear, Offset = 0, SegmentOverride = None, Repeat = 0, IsOperand32 = False,
          IsAddress32 = False, IsLocked = False\<rparr>;
       case prefixes of None \<Rightarrow> decline | Some d \<Rightarrow> v86_opcode h d } }"

end
