(* ===== verification/V86_Decline.thy ===== *)
theory V86_Decline
  imports V86_Step
begin

text \<open>
  What the host relies on when the interpreter hands an instruction back: a declined instruction has
  changed nothing, so the real processor can run it from the same state. A logic of three judgements
  carries the proof through the opcode maps: a computation \<open>reads_only\<close>, it \<open>settles\<close> (it has
  changed nothing unless it answers \<open>Modelled\<close>), or it \<open>completes\<close> (it always answers \<open>Modelled\<close>).
  Reads of guest memory may move the machine (a read of the video aperture loads the latches); the
  judgements are relative to a \<open>view\<close> of the machine that reads keep.
\<close>

named_theorems quiet_rules "computations that only read"
named_theorems branch_rules "how a computation that settles branches"
named_theorems complete_rules "computations that always model the instruction"

definition keeps_view :: "('m \<Rightarrow> 'b) \<Rightarrow> 'm v86_host \<Rightarrow> bool" where
  "keeps_view view h \<longleftrightarrow> (\<forall>a m. view (snd (HostRead8 h a m)) = view m)"

definition reads_only :: "('m \<Rightarrow> 'b) \<Rightarrow> ('m, 'a) guest \<Rightarrow> bool" where
  "reads_only view c \<longleftrightarrow> (\<forall>cpu m. case run_state c (cpu, m) of (v, cpu', m') \<Rightarrow> cpu' = cpu \<and> view m' = view m)"

definition settles :: "('m \<Rightarrow> 'b) \<Rightarrow> ('m, v86_outcome) guest \<Rightarrow> bool" where
  "settles view c \<longleftrightarrow> (\<forall>cpu m. case run_state c (cpu, m) of
     (outcome, cpu', m') \<Rightarrow> outcome \<noteq> Modelled \<longrightarrow> cpu' = cpu \<and> view m' = view m)"

definition completes :: "('m, v86_outcome) guest \<Rightarrow> bool" where
  "completes c \<longleftrightarrow> (\<forall>s. fst (run_state c s) = Modelled)"

subsection \<open>The rules\<close>

lemma run_bind [simp]: "run_state (State_Monad.bind c f) s = (case run_state c s of (v, s') \<Rightarrow> run_state (f v) s')"
  by (simp add: State_Monad.bind_def split: prod.split)

lemma run_return [simp]: "run_state (State_Monad.return v) s = (v, s)"
  by (simp add: State_Monad.return_def)

lemma run_get_cpu [simp]: "run_state get_cpu (cpu, m) = (cpu, (cpu, m))"
  by (simp add: get_cpu_def)

lemma run_update_cpu [simp]: "run_state (update_cpu f) (cpu, m) = ((), (f cpu, m))"
  by (simp add: update_cpu_def)

lemma run_on_cpu [simp]: "run_state (on_cpu f) (cpu, m) = (case f cpu of (v, cpu') \<Rightarrow> (v, (cpu', m)))"
  by (simp add: on_cpu_def)

lemma quiet_bind [quiet_rules]:
  assumes "reads_only view c" "\<And>x. reads_only view (f x)"
  shows "reads_only view (State_Monad.bind c f)"
  unfolding reads_only_def
proof (intro allI)
  fix cpu m
  obtain v cpu1 m1 where c: "run_state c (cpu, m) = (v, cpu1, m1)" by (metis prod_cases3)
  with assms(1) have k: "cpu1 = cpu" "view m1 = view m" by (auto simp: reads_only_def dest!: spec [of _ cpu] spec [of _ m])
  show "case run_state (State_Monad.bind c f) (cpu, m) of (v, cpu', m') \<Rightarrow> cpu' = cpu \<and> view m' = view m"
    using assms(2) [of v] c k by (auto simp: reads_only_def dest!: spec [of _ cpu] spec [of _ m1])
qed

lemma quiet_return [quiet_rules]: "reads_only view (State_Monad.return v)"
  by (simp add: reads_only_def)

lemma quiet_get_cpu [quiet_rules]: "reads_only view get_cpu"
  by (simp add: reads_only_def)

lemma quiet_if [quiet_rules]: "reads_only view a \<Longrightarrow> reads_only view b \<Longrightarrow> reads_only view (if p then a else b)"
  by simp

lemma quiet_Let [quiet_rules]: "(\<And>x. reads_only view (f x)) \<Longrightarrow> reads_only view (Let v f)"
  by simp

lemma quiet_prod [quiet_rules]: "(\<And>a b. reads_only view (f a b)) \<Longrightarrow> reads_only view (case_prod f p)"
  by (simp split: prod.split)

lemma quiet_read8 [quiet_rules]: "keeps_view view h \<Longrightarrow> reads_only view (host_read8 h a)"
  by (simp add: reads_only_def host_read8_def keeps_view_def split_beta)

lemma settles_bind:
  assumes "reads_only view c" "\<And>x. settles view (f x)"
  shows "settles view (State_Monad.bind c f)"
  unfolding settles_def
proof (intro allI)
  fix cpu m
  obtain v cpu1 m1 where c: "run_state c (cpu, m) = (v, cpu1, m1)" by (metis prod_cases3)
  with assms(1) have k: "cpu1 = cpu" "view m1 = view m" by (auto simp: reads_only_def dest!: spec [of _ cpu] spec [of _ m])
  show "case run_state (State_Monad.bind c f) (cpu, m) of (outcome, cpu', m') \<Rightarrow>
      outcome \<noteq> Modelled \<longrightarrow> cpu' = cpu \<and> view m' = view m"
    using assms(2) [of v] c k by (auto simp: settles_def dest!: spec [of _ cpu] spec [of _ m1])
qed

lemma settles_return [branch_rules]: "settles view (State_Monad.return outcome)"
  by (simp add: settles_def)

lemma settles_decline [branch_rules]: "settles view decline"
  by (simp add: decline_def settles_return)

lemma settles_if [branch_rules]: "settles view a \<Longrightarrow> settles view b \<Longrightarrow> settles view (if p then a else b)"
  by simp

lemma settles_Let [branch_rules]: "(\<And>x. settles view (f x)) \<Longrightarrow> settles view (Let v f)"
  by simp

lemma settles_prod [branch_rules]: "(\<And>a b. settles view (f a b)) \<Longrightarrow> settles view (case_prod f p)"
  by (simp split: prod.split)

lemma settles_option [branch_rules]:
  "settles view a \<Longrightarrow> (\<And>x. settles view (f x)) \<Longrightarrow> settles view (case_option a f v)"
  by (simp split: option.split)

lemma settles_completes: "completes c \<Longrightarrow> settles view c"
  by (auto simp: settles_def completes_def split_beta)

lemma completes_bind [complete_rules]: "(\<And>x. completes (f x)) \<Longrightarrow> completes (State_Monad.bind c f)"
  by (simp add: completes_def split_beta del: split_paired_All)

lemma completes_if [complete_rules]: "completes a \<Longrightarrow> completes b \<Longrightarrow> completes (if p then a else b)"
  by simp

lemma completes_Let [complete_rules]: "(\<And>x. completes (f x)) \<Longrightarrow> completes (Let v f)"
  by simp

lemma completes_prod [complete_rules]: "(\<And>a b. completes (f a b)) \<Longrightarrow> completes (case_prod f p)"
  by (simp split: prod.split)

lemma completes_advance [complete_rules]: "completes (advance offset)"
  by (simp add: completes_def advance_def split_beta)

lemma completes_jump [complete_rules]: "completes (jump target)"
  by (simp add: completes_def jump_def split_beta)

lemma completes_finish_string [complete_rules]: "completes (finish_string d si di count)"
  unfolding finish_string_def by (intro complete_rules)
subsection \<open>Reads of memory, the operand decoder\<close>

lemma quiet_code_byte [quiet_rules]: "keeps_view view h \<Longrightarrow> reads_only view (V86_CODE_BYTE h a p)"
  unfolding V86_CODE_BYTE_def by (intro quiet_rules)

lemma quiet_read_memory [quiet_rules]: "keeps_view view h \<Longrightarrow> reads_only view (V86ReadMemory h a w)"
  unfolding V86ReadMemory_def by (intro quiet_rules)

lemma quiet_immediate [quiet_rules]: "keeps_view view h \<Longrightarrow> reads_only view (V86_IMMEDIATE h a p w)"
  unfolding V86_IMMEDIATE_def by (intro quiet_rules)

lemma quiet_code_word [quiet_rules]: "keeps_view view h \<Longrightarrow> reads_only view (code_word h a p)"
  unfolding code_word_def by (intro quiet_rules)

lemma quiet_displaced [quiet_rules]: "keeps_view view h \<Longrightarrow> reads_only view (displaced h a p mode wide)"
  unfolding displaced_def by (intro quiet_rules)

lemma quiet_modrm32 [quiet_rules]: "keeps_view view h \<Longrightarrow> reads_only view (V86DecodeModrm32 h a p s)"
  unfolding V86DecodeModrm32_def by (intro quiet_rules)

lemma quiet_modrm [quiet_rules]: "keeps_view view h \<Longrightarrow> reads_only view (V86DecodeModrm h wide a p s)"
  unfolding V86DecodeModrm_def by (intro quiet_rules)

lemma quiet_lockable [quiet_rules]: "keeps_view view h \<Longrightarrow> reads_only view (V86IsLockable h a p opcode)"
  unfolding V86IsLockable_def by (intro quiet_rules)

lemma quiet_decode [quiet_rules]: "keeps_view view h \<Longrightarrow> reads_only view (decode_operand h d)"
  unfolding decode_operand_def by (intro quiet_rules)

lemma quiet_read_operand [quiet_rules]: "keeps_view view h \<Longrightarrow> reads_only view (read_operand h modrm w)"
  unfolding read_operand_def by (intro quiet_rules)

lemma quiet_get_register [quiet_rules]: "reads_only view (get_register r w)"
  unfolding get_register_def by (intro quiet_rules)

lemma quiet_prefixes [quiet_rules]: "keeps_view view h \<Longrightarrow> reads_only view (v86_prefixes n h d)"
proof (induction n arbitrary: d)
  case (Suc n)
  have "reads_only view (case apply_prefix h b d of None \<Rightarrow> State_Monad.return (Some d)
     | Some None \<Rightarrow> State_Monad.return None
     | Some (Some d') \<Rightarrow> if Offset d' > 4 then State_Monad.return None else v86_prefixes n h d')" for b
    using Suc by (auto intro: quiet_rules split: option.split)
  then show ?case using Suc.prems by (auto intro: quiet_rules)
qed (simp add: quiet_return)

lemma settles_operand [branch_rules]:
  "keeps_view view h \<Longrightarrow> (\<And>offset modrm. settles view (f offset modrm)) \<Longrightarrow> settles view (with_operand h d f)"
  unfolding with_operand_def by (fast intro: branch_rules settles_bind quiet_rules)

subsection \<open>The operations\<close>
lemma V86Divide_declines: "fst (V86Divide isSigned operand w cpu) \<noteq> Modelled \<Longrightarrow> snd (V86Divide isSigned operand w cpu) = cpu"
  by (auto simp: V86Divide_def Let_def)

lemma settles_divide [branch_rules]:
  "settles view (State_Monad.bind (on_cpu (V86Divide isSigned operand w))
     (\<lambda>outcome. if outcome = Modelled then advance offset else State_Monad.return outcome))"
  using V86Divide_declines [of isSigned operand w]
  by (auto simp: settles_def advance_def split_beta)

lemma settles_operations:
  assumes "keeps_view view h"
  shows
    "settles view (op_extend h d c)" "settles view (op_lar_lsl h d c)" "settles view (op_push_fs_gs h d c)"
    "settles view (op_pop_fs_gs h d c)" "settles view (op_jcc_near h d c)" "settles view (op_setcc h d c)"
    "settles view (op_bit h d c)" "settles view (op_bit_scan h d c)" "settles view (op_double_shift h d c)"
    "settles view (op_load_far h d c)" "settles view (op_alu h d c)" "settles view (op_group1 h d c)"
    "settles view (op_inc_dec d c)" "settles view (op_test h d c)" "settles view (op_test_imm h d c)"
    "settles view (op_imul_imm h d c)" "settles view (op_shift h d c)" "settles view (op_group3 h d c)"
    "settles view (op_group5_32 h d offset modrm)" "settles view (op_group5_16 h d offset modrm)"
    "settles view (op_group45 h d c)" "settles view (op_mov h d c)" "settles view (op_mov_imm_rm h d c)"
    "settles view (op_xchg h d c)" "settles view (op_mov_sreg h d c)" "settles view (op_lea h d)"
    "settles view (op_mov_imm8 h d c)" "settles view (op_mov_imm h d c)" "settles view (op_moffs h d c)"
    "settles view (op_cbw d)" "settles view (op_cwd d)" "settles view (op_xlat h d)"
    "settles view (op_les_lds h d c)" "settles view (op_xchg_acc d c)" "settles view (op_flag d f)"
    "settles view (op_lahf d)" "settles view (op_sahf d)" "settles view (op_push_reg h d c)"
    "settles view (op_pop_reg h d c)" "settles view (op_push_imm h d c)" "settles view (op_pushf h d)"
    "settles view (op_popf h d)" "settles view (op_pusha h d)" "settles view (op_popa h d)"
    "settles view (op_push_sreg h d c)" "settles view (op_pop_sreg h d c)" "settles view (op_pop_rm h d)"
    "settles view (op_enter h d)" "settles view (op_leave h d)" "settles view (op_in h d c)"
    "settles view (op_out h d c)" "settles view (op_ins h d c)" "settles view (op_outs h d c)"
    "settles view (op_stos h d c)" "settles view (op_movs h d c)" "settles view (op_compare h d c)"
    "settles view (op_lods h d c)" "settles view (op_jcc h d c)" "settles view (op_jmp_short h d)"
    "settles view (op_near32 h d c)" "settles view (op_jmp h d)" "settles view (op_call h d)"
    "settles view (op_ret h d c)" "settles view (op_retf h d c)" "settles view (op_loop h d c)"
    "settles view (op_int h d c)" "settles view (op_iret h d)" "settles view (op_far h d c)"
  unfolding
    op_extend_def op_lar_lsl_def op_push_fs_gs_def op_pop_fs_gs_def op_jcc_near_def op_setcc_def op_bit_def
    op_bit_scan_def op_double_shift_def op_load_far_def op_alu_def op_group1_def op_inc_dec_def op_test_def
    op_test_imm_def op_imul_imm_def op_shift_def op_group3_def op_group5_32_def op_group5_16_def
    op_group45_def op_mov_def op_mov_imm_rm_def op_xchg_def op_mov_sreg_def op_lea_def op_mov_imm8_def
    op_mov_imm_def op_moffs_def op_cbw_def op_cwd_def op_xlat_def op_les_lds_def op_xchg_acc_def
    op_flag_def op_lahf_def op_sahf_def op_push_reg_def op_pop_reg_def op_push_imm_def op_pushf_def
    op_popf_def op_pusha_def op_popa_def op_push_sreg_def op_pop_sreg_def op_pop_rm_def op_enter_def
    op_leave_def op_in_def op_out_def op_ins_def op_outs_def op_stos_def op_movs_def op_compare_def
    op_lods_def op_jcc_def op_jmp_short_def op_near32_def op_jmp_def op_call_def op_ret_def op_retf_def
    op_loop_def op_int_def op_iret_def op_far_def finish_bit_def extra_pop_def
  by (insert assms)
    (rule branch_rules | assumption | rule settles_bind, (fast intro: quiet_rules)
      | rule settles_completes, (fast intro: complete_rules))+

subsection \<open>The step\<close>

lemma settles_maps:
  assumes "keeps_view view h"
  shows "settles view (v86_low_half h d c)" "settles view (v86_high_half h d c)" "settles view (v86_escape h d c)"
  unfolding v86_low_half_def v86_high_half_def v86_escape_def
  by (insert assms) (rule branch_rules settles_operations | assumption | rule settles_completes completes_advance)+

lemma settles_step: "keeps_view view h \<Longrightarrow> settles view (V86Step h)"
  unfolding V86Step_def v86_opcode_def
  by (rule branch_rules settles_maps | assumption | rule settles_bind, (fast intro: quiet_rules))+

text \<open>
  C32. An instruction the interpreter does not model has changed nothing: when \<open>V86Step\<close> answers
  anything but \<open>Modelled\<close>, every register, segment, flag and the instruction pointer are as they were,
  and the machine is as it was in every respect that reading guest memory keeps. So the host can
  hand the same instruction to the real processor, from the same state.
\<close>

theorem v86_decline_untouched:
  assumes "\<And>a m. view (snd (HostRead8 h a m)) = view m"
    and "run_state (V86Step h) (cpu, m) = (outcome, cpu', m')" and "outcome \<noteq> Modelled"
  shows "cpu' = cpu \<and> view m' = view m"
proof -
  have "keeps_view view h" using assms(1) by (simp add: keeps_view_def)
  from settles_step [OF this] show ?thesis
    using assms(2,3) by (simp add: settles_def del: split_paired_All) (drule spec [of _ cpu], drule spec [of _ m], simp)
qed

definition ram_host :: "(u32 \<Rightarrow> u8) v86_host" where
  \<comment> \<open>real-mode memory with nothing on the ports\<close>
  "ram_host =
     \<lparr>HostRead8 = (\<lambda>a m. (m a, m)), HostWrite8 = (\<lambda>a v m. m(a := v)), HostIn = (\<lambda>port width m. (0xFF, m)),
      HostOut = (\<lambda>port width v m. m), SegmentToLinear = None, SelectorDescriptor = None\<rparr>"

definition divide_by_zero :: "v86_cpu \<times> (u32 \<Rightarrow> u8)" where
  \<comment> \<open>\<^verbatim>\<open>DIV CL\<close> with CL zero\<close>
  "divide_by_zero =
     (\<lparr>Registers = (\<lambda>_. 0), Segments = (\<lambda>_. 0), Ip = 0x100, Flags = 2\<rparr>, (\<lambda>_. 0)(0x100 := 0xF6, 0x101 := 0xF1))"

lemma divide_by_zero_declined: "fst (run_state (V86Step ram_host) divide_by_zero) = Declined"
  by code_simp

theorem v86_decline_untouched_witness:
  "snd (run_state (V86Step ram_host) divide_by_zero) = divide_by_zero"
proof -
  obtain cpu m where s: "divide_by_zero = (cpu, m)" by (metis surj_pair)
  obtain outcome cpu' m' where r: "run_state (V86Step ram_host) (cpu, m) = (outcome, cpu', m')" by (metis prod_cases3)
  then have "outcome \<noteq> Modelled" using divide_by_zero_declined s by simp
  with v86_decline_untouched [of "\<lambda>m. m" ram_host, OF _ r] show ?thesis
    using r s by (simp add: ram_host_def)
qed

end
