(* ===== verification/Slot_Table.thy ===== *)
theory Slot_Table
  imports Prelude
begin

text \<open>
  The contract of a fixed table of slots, which the extended-memory handles, the
  expanded-memory handles and the DOS file handles all are: a slot is in use or free, an
  operation takes a free slot and gives one back, and a search takes the lowest free one.
  \<open>sized_slots\<close> adds what a slot accounts for (kilobytes, pages) and proves the accounting once.
\<close>

locale slot_table =
  fixes used :: "'t \<Rightarrow> nat \<Rightarrow> bool"
    and occupy :: "nat \<Rightarrow> 'a \<Rightarrow> 't \<Rightarrow> 't"
    and release :: "nat \<Rightarrow> 't \<Rightarrow> 't"
    and capacity :: nat
  assumes used_occupy: "i < capacity \<Longrightarrow> used (occupy i a t) j \<longleftrightarrow> j = i \<or> used t j"
    and used_release: "i < capacity \<Longrightarrow> used (release i t) j \<longleftrightarrow> j \<noteq> i \<and> used t j"
begin

abbreviation lowest :: "'t \<Rightarrow> nat" where
  "lowest t \<equiv> first_from (\<lambda>i. \<not> used t i) 0 capacity"

lemma lowest_free: "lowest t < capacity \<Longrightarrow> \<not> used t (lowest t)"
  by (rule first_from_holds)

lemma lowest_least: "j < lowest t \<Longrightarrow> used t j"
  using first_from_before [of 0 j "\<lambda>i. \<not> used t i" capacity] by blast

lemma lowest_full: "lowest t = capacity \<longleftrightarrow> (\<forall>j<capacity. used t j)"
  by (simp add: first_from_full)

lemma lowest_some: "lowest t \<noteq> capacity \<longleftrightarrow> lowest t < capacity"
  using first_from_le [of "\<lambda>i. \<not> used t i" 0 capacity] by linarith

lemma lowest_eqI:
  assumes "i < capacity" "\<not> used t i" "\<And>j. j < i \<Longrightarrow> used t j"
  shows "lowest t = i"
proof (rule ccontr)
  assume "lowest t \<noteq> i"
  then consider "lowest t < i" | "i < lowest t" by linarith
  then show False
  proof cases
    case 1
    with assms(1) lowest_free [of t] assms(3) [of "lowest t"] show False by simp
  next
    case 2
    with lowest_least assms(2) show False by blast
  qed
qed

text \<open>Giving a slot back and asking again finds the lowest of the returned slot and the old one.\<close>

lemma lowest_release:
  assumes "i < capacity"
  shows "lowest (release i t) = min i (lowest t)"
proof (rule lowest_eqI)
  show "min i (lowest t) < capacity" using assms by simp
  show "\<not> used (release i t) (min i (lowest t))"
    using assms lowest_free [of t] by (auto simp: used_release min_def)
  show "used (release i t) j" if "j < min i (lowest t)" for j
    using that assms lowest_least [of j t] by (simp add: used_release)
qed

definition used_count :: "'t \<Rightarrow> nat" where
  "used_count t = card {i. i < capacity \<and> used t i}"

lemma used_count_occupy:
  assumes "i < capacity" "\<not> used t i"
  shows "used_count (occupy i a t) = Suc (used_count t)"
proof -
  have "{j. j < capacity \<and> used (occupy i a t) j} = insert i {j. j < capacity \<and> used t j}"
    using assms by (auto simp: used_occupy)
  with assms show ?thesis by (simp add: used_count_def)
qed

lemma used_count_release:
  assumes "i < capacity" "used t i"
  shows "Suc (used_count (release i t)) = used_count t"
proof -
  have "{j. j < capacity \<and> used t j} = insert i {j. j < capacity \<and> used (release i t) j}"
    using assms by (auto simp: used_release)
  moreover have "i \<notin> {j. j < capacity \<and> used (release i t) j}" using assms by (simp add: used_release)
  ultimately show ?thesis by (simp add: used_count_def)
qed

lemma used_count_le: "used_count t \<le> capacity"
proof -
  have "{i. i < capacity \<and> used t i} \<subseteq> {..<capacity}" by auto
  then have "used_count t \<le> card {..<capacity}" unfolding used_count_def by (rule card_mono [rotated]) simp
  then show ?thesis by simp
qed

end

locale sized_slots = slot_table used occupy release capacity
  for used :: "'t \<Rightarrow> nat \<Rightarrow> bool"
    and occupy :: "nat \<Rightarrow> 'a \<Rightarrow> 't \<Rightarrow> 't"
    and release :: "nat \<Rightarrow> 't \<Rightarrow> 't"
    and capacity :: nat +
  fixes weight :: "'t \<Rightarrow> nat \<Rightarrow> nat"
    and asks :: "'a \<Rightarrow> nat"
  assumes weight_occupy: "i < capacity \<Longrightarrow> weight (occupy i a t) j = (if j = i then asks a else weight t j)"
    and weight_release: "i < capacity \<Longrightarrow> weight (release i t) j = (if j = i then 0 else weight t j)"
begin

definition total :: "'t \<Rightarrow> nat" where
  "total t = (\<Sum>i<capacity. weight t i)"

lemma total_split: "i < capacity \<Longrightarrow> total t = weight t i + (\<Sum>j\<in>{..<capacity} - {i}. weight t j)"
  unfolding total_def by (rule sum.remove) auto

lemma weight_le_total: "i < capacity \<Longrightarrow> weight t i \<le> total t"
  by (simp add: total_split [of i])

lemma total_occupy: "i < capacity \<Longrightarrow> total (occupy i a t) + weight t i = total t + asks a"
  by (simp add: total_split [of i] weight_occupy)

lemma total_release: "i < capacity \<Longrightarrow> total (release i t) + weight t i = total t"
  by (simp add: total_split [of i] weight_release)

lemma total_reoccupy:
  "i < capacity \<Longrightarrow> asks a = weight t i \<Longrightarrow> total (occupy i a t) = total t"
  using total_occupy [of i a t] by simp

end

end
