(* ===== verification/Vdd_Svc.thy ===== *)
theory Vdd_Svc
  imports Slot_Table
begin

text \<open>
  The tables behind the VDD service API, \<^verbatim>\<open>src/vdd/vdd_svc.c\<close>: memory hooks, interrupt lines, user
  hooks and the registry's list of drivers, with what each promises its caller. A null pointer is
  \<open>None\<close>; a table is a function from slot numbers.
\<close>

definition VDD_SVC_MEMORY_HOOKS_MAX :: nat where "VDD_SVC_MEMORY_HOOKS_MAX = 16"
definition VDD_SVC_USER_HOOKS_MAX :: nat where "VDD_SVC_USER_HOOKS_MAX = 8"
definition VDD_SVC_IRQ_LINES :: u16 where "VDD_SVC_IRQ_LINES = 16"
definition VDD_SVC_NO_IRQ :: u16 where "VDD_SVC_NO_IRQ = 0xFFFF"
definition VDD_SVC_CASCADE_LINE :: u16 where "VDD_SVC_CASCADE_LINE = 2"
definition g_VddSvcLineOrder :: "nat list" where "g_VddSvcLineOrder = [10, 11, 12, 15, 9, 5, 7, 3, 4, 14, 6, 13, 1]"

subsection \<open>Memory hooks\<close>

record ('o, 'p) vdd_svc_memory_hook =
  Owner :: "'o option"
  Start :: u32
  Count :: u32
  Handler :: "'p option"

type_synonym ('o, 'p) vdd_svc_memory_hooks = "nat \<Rightarrow> ('o, 'p) vdd_svc_memory_hook"

definition VddSvcRangesOverlap :: "u32 \<Rightarrow> u32 \<Rightarrow> u32 \<Rightarrow> u32 \<Rightarrow> bool" where
  "VddSvcRangesOverlap firstStart firstCount secondStart secondCount \<longleftrightarrow>
     firstStart < secondStart + secondCount \<and> secondStart < firstStart + firstCount"

definition VddSvcMemoryHookAdd ::
  "'o option \<Rightarrow> u32 \<Rightarrow> u32 \<Rightarrow> 'p option \<Rightarrow> ('o, 'p) vdd_svc_memory_hooks \<Rightarrow> bool \<times> ('o, 'p) vdd_svc_memory_hooks" where
  "VddSvcMemoryHookAdd owner start count handler hooks =
     (if owner = None \<or> handler = None \<or> count = 0 \<or> start + count < start then (False, hooks)
      else if first_from (\<lambda>i. Owner (hooks i) \<noteq> None \<and> VddSvcRangesOverlap (Start (hooks i)) (Count (hooks i)) start count)
                0 VDD_SVC_MEMORY_HOOKS_MAX < VDD_SVC_MEMORY_HOOKS_MAX then (False, hooks)
      else let freeIndex = first_from (\<lambda>i. Owner (hooks i) = None) 0 VDD_SVC_MEMORY_HOOKS_MAX
           in if freeIndex = VDD_SVC_MEMORY_HOOKS_MAX then (False, hooks)
              else (True, hooks(freeIndex := \<lparr>Owner = owner, Start = start, Count = count, Handler = handler\<rparr>)))"

definition release_hook :: "nat \<Rightarrow> ('o, 'p) vdd_svc_memory_hooks \<Rightarrow> ('o, 'p) vdd_svc_memory_hooks" where
  "release_hook i hooks = hooks(i := (hooks i)\<lparr>Owner := None, Handler := None\<rparr>)"

definition VddSvcMemoryHookRemove ::
  "'o option \<Rightarrow> u32 \<Rightarrow> u32 \<Rightarrow> ('o, 'p) vdd_svc_memory_hooks \<Rightarrow> bool \<times> ('o, 'p) vdd_svc_memory_hooks" where
  "VddSvcMemoryHookRemove owner start count hooks =
     (let i = first_from (\<lambda>i. Owner (hooks i) \<noteq> None \<and> Owner (hooks i) = owner \<and> Start (hooks i) = start \<and>
                            Count (hooks i) = count) 0 VDD_SVC_MEMORY_HOOKS_MAX
      in if i < VDD_SVC_MEMORY_HOOKS_MAX then (True, release_hook i hooks) else (False, hooks))"

definition VddSvcMemoryHookRemoveOwner ::
  "'o option \<Rightarrow> ('o, 'p) vdd_svc_memory_hooks \<Rightarrow> nat \<times> ('o, 'p) vdd_svc_memory_hooks" where
  "VddSvcMemoryHookRemoveOwner owner hooks =
     fold (\<lambda>i (removed, t). if owner \<noteq> None \<and> Owner (t i) = owner then (removed + 1, release_hook i t) else (removed, t))
       [0..<VDD_SVC_MEMORY_HOOKS_MAX] (0, hooks)"

definition hook_covers :: "('o, 'p) vdd_svc_memory_hook \<Rightarrow> u32 \<Rightarrow> bool" where
  "hook_covers e address \<longleftrightarrow> Owner e \<noteq> None \<and> address \<ge> Start e \<and> address - Start e < Count e"

definition VddSvcMemoryHookFind :: "('o, 'p) vdd_svc_memory_hooks \<Rightarrow> u32 \<Rightarrow> nat option" where
  \<comment> \<open>the slot of the hook covering the address\<close>
  "VddSvcMemoryHookFind hooks address =
     (let i = first_from (\<lambda>i. hook_covers (hooks i) address) 0 VDD_SVC_MEMORY_HOOKS_MAX
      in if i < VDD_SVC_MEMORY_HOOKS_MAX then Some i else None)"

subsection \<open>Interrupt lines\<close>

definition VddSvcIrqReserve :: "u16 \<Rightarrow> u16 \<Rightarrow> u16 \<times> u16" where
  \<comment> \<open>the line granted, and the reserved lines\<close>
  "VddSvcIrqReserve line reserved =
     (if line = VDD_SVC_NO_IRQ then
        (case find (\<lambda>n. \<not> bit reserved n) g_VddSvcLineOrder of
           Some n \<Rightarrow> (of_nat n, reserved OR line_bit n)
         | None \<Rightarrow> (VDD_SVC_NO_IRQ, reserved))
      else if line \<ge> VDD_SVC_IRQ_LINES \<or> line = VDD_SVC_CASCADE_LINE \<or> bit reserved (unat line)
      then (VDD_SVC_NO_IRQ, reserved)
      else (line, reserved OR line_bit (unat line)))"

definition VddSvcIrqRelease :: "u16 \<Rightarrow> u16 \<Rightarrow> bool \<times> u16" where
  "VddSvcIrqRelease line reserved =
     (if line \<ge> VDD_SVC_IRQ_LINES \<or> \<not> bit reserved (unat line) then (False, reserved)
      else (True, reserved AND NOT (line_bit (unat line))))"

subsection \<open>User hooks\<close>

record ('o, 'p) vdd_svc_user_hook =
  UserOwner :: "'o option"
  Create :: "'p option"
  Terminate :: "'p option"
  Block :: "'p option"
  Resume :: "'p option"

type_synonym ('o, 'p) vdd_svc_user_hooks = "nat \<Rightarrow> ('o, 'p) vdd_svc_user_hook"

definition VddSvcUserHookAdd ::
  "'o option \<Rightarrow> 'p option \<Rightarrow> 'p option \<Rightarrow> 'p option \<Rightarrow> 'p option \<Rightarrow> ('o, 'p) vdd_svc_user_hooks \<Rightarrow>
   bool \<times> ('o, 'p) vdd_svc_user_hooks" where
  \<comment> \<open>the owner's own slot, else the lowest free one\<close>
  "VddSvcUserHookAdd owner create terminate block resume hooks =
     (if owner = None then (False, hooks)
      else let same = first_from (\<lambda>i. UserOwner (hooks i) = owner) 0 VDD_SVC_USER_HOOKS_MAX;
               free = first_from (\<lambda>i. UserOwner (hooks i) = None) 0 VDD_SVC_USER_HOOKS_MAX;
               slot = (if same < VDD_SVC_USER_HOOKS_MAX then same else free)
           in if slot = VDD_SVC_USER_HOOKS_MAX then (False, hooks)
              else (True, hooks(slot := \<lparr>UserOwner = owner, Create = create, Terminate = terminate, Block = block,
                                          Resume = resume\<rparr>)))"

definition VddSvcUserHookRemove :: "'o option \<Rightarrow> ('o, 'p) vdd_svc_user_hooks \<Rightarrow> bool \<times> ('o, 'p) vdd_svc_user_hooks" where
  "VddSvcUserHookRemove owner hooks =
     (let i = first_from (\<lambda>i. owner \<noteq> None \<and> UserOwner (hooks i) = owner) 0 VDD_SVC_USER_HOOKS_MAX
      in if i < VDD_SVC_USER_HOOKS_MAX
         then (True, hooks(i := \<lparr>UserOwner = None, Create = None, Terminate = None, Block = None, Resume = None\<rparr>))
         else (False, hooks))"

subsection \<open>The registry's list\<close>

function VddSvcMultiStringNext :: "int \<Rightarrow> u8 list \<Rightarrow> (bool \<times> u8 list) \<times> u8 list" where
  \<comment> \<open>the bytes from the cursor to the end; the answer, what is written to the caller's buffer, and the
      bytes from the new cursor on\<close>
  "VddSvcMultiStringNext capacity text =
     (if text = [] \<or> hd text = 0 then ((False, if capacity > 0 then [0] else []), text)
      else let name = takeWhile (\<lambda>c. c \<noteq> 0) text;
               rest = drop 1 (dropWhile (\<lambda>c. c \<noteq> 0) text)
           in if capacity > 0 \<and> int (length name) < capacity then ((True, name @ [0]), rest)
              else VddSvcMultiStringNext capacity rest)"
  by pat_completeness auto
termination
  by (relation "measure (\<lambda>(capacity, text). length text)")
    (auto simp: neq_Nil_conv less_Suc_eq_le intro: order.trans [OF diff_le_self length_dropWhile_le])

declare VddSvcMultiStringNext.simps [simp del]
subsection \<open>One address, one handler\<close>

definition range_end :: "('o, 'p) vdd_svc_memory_hook \<Rightarrow> nat" where
  "range_end e = unat (Start e) + unat (Count e)"

definition hook_ok :: "('o, 'p) vdd_svc_memory_hook \<Rightarrow> bool" where
  "hook_ok e \<longleftrightarrow> Count e \<noteq> 0 \<and> range_end e < 2 ^ 32 \<and> Handler e \<noteq> None"

definition apart :: "('o, 'p) vdd_svc_memory_hook \<Rightarrow> ('o, 'p) vdd_svc_memory_hook \<Rightarrow> bool" where
  "apart a b \<longleftrightarrow> range_end a \<le> unat (Start b) \<or> range_end b \<le> unat (Start a)"

definition hooks_sound :: "('o, 'p) vdd_svc_memory_hooks \<Rightarrow> bool" where
  "hooks_sound hooks \<longleftrightarrow>
     (\<forall>i<VDD_SVC_MEMORY_HOOKS_MAX. Owner (hooks i) \<noteq> None \<longrightarrow> hook_ok (hooks i) \<and>
        (\<forall>j<VDD_SVC_MEMORY_HOOKS_MAX. Owner (hooks j) \<noteq> None \<longrightarrow> j \<noteq> i \<longrightarrow> apart (hooks i) (hooks j)))"

interpretation memory_slots: slot_table "\<lambda>t i. Owner (t i) \<noteq> None"
    "\<lambda>i (owner, start, count, handler) t. t(i := \<lparr>Owner = Some owner, Start = start, Count = count, Handler = handler\<rparr>)"
    release_hook VDD_SVC_MEMORY_HOOKS_MAX
  by unfold_locales (auto simp: release_hook_def)

lemma no_wrap_iff: "start + count \<ge> (start :: u32) \<longleftrightarrow> unat start + unat count < 2 ^ 32"
proof
  assume "start + count \<ge> start"
  then show "unat start + unat count < 2 ^ 32"
    using no_olen_add_nat [of start count] by simp
next
  assume "unat start + unat count < 2 ^ 32"
  then show "start + count \<ge> start"
    using no_olen_add_nat [of start count] by simp
qed

lemma overlap_iff:
  assumes "unat a + unat n < 2 ^ 32" "unat b + unat k < 2 ^ 32"
  shows "VddSvcRangesOverlap a n b k \<longleftrightarrow> \<not> (unat a + unat n \<le> unat b \<or> unat b + unat k \<le> unat a)"
  using assms by (auto simp: VddSvcRangesOverlap_def word_less_nat_alt unat_word_ariths)

lemma hook_covers_iff:
  assumes "hook_ok e"
  shows "hook_covers e a \<longleftrightarrow> Owner e \<noteq> None \<and> unat (Start e) \<le> unat a \<and> unat a < range_end e"
  using assms by (auto simp: hook_covers_def hook_ok_def range_end_def word_le_nat_alt word_less_nat_alt unat_sub)

lemma hooks_sound_release: "hooks_sound hooks \<Longrightarrow> hooks_sound (release_hook i hooks)"
  by (auto simp: hooks_sound_def release_hook_def)

lemma remove_owner_sound:
  assumes "hooks_sound hooks"
  shows "hooks_sound (snd (VddSvcMemoryHookRemoveOwner owner hooks))"
proof -
  have "hooks_sound (snd (fold (\<lambda>i (removed, t). if owner \<noteq> None \<and> Owner (t i) = owner then (removed + 1, release_hook i t)
      else (removed, t)) xs (k, hooks)))" for xs and k :: nat
    using assms by (induction xs arbitrary: k hooks) (auto simp: hooks_sound_release)
  then show ?thesis by (simp add: VddSvcMemoryHookRemoveOwner_def)
qed

lemma hook_add_cases:
  assumes "hooks_sound hooks"
  defines "new \<equiv> \<lambda>owner start count handler. \<lparr>Owner = owner, Start = start, Count = count, Handler = handler\<rparr>"
  shows "VddSvcMemoryHookAdd owner start count handler hooks =
    (if owner \<noteq> None \<and> hook_ok (new owner start count handler) \<and> 
        (\<forall>i<VDD_SVC_MEMORY_HOOKS_MAX. Owner (hooks i) \<noteq> None \<longrightarrow> apart (hooks i) (new owner start count handler)) \<and>
        memory_slots.lowest hooks < VDD_SVC_MEMORY_HOOKS_MAX
     then (True, hooks(memory_slots.lowest hooks := new owner start count handler)) else (False, hooks))"
proof (cases "owner = None \<or> handler = None \<or> count = 0 \<or> start + count < start")
  case True
  then show ?thesis
    using no_wrap_iff [of start count] by (auto simp: VddSvcMemoryHookAdd_def hook_ok_def new_def range_end_def not_le)
next
  case False
  let ?p = "\<lambda>i. Owner (hooks i) \<noteq> None \<and> VddSvcRangesOverlap (Start (hooks i)) (Count (hooks i)) start count"
  have ok: "hook_ok (new owner start count handler)"
    using False no_wrap_iff [of start count] by (simp add: hook_ok_def new_def range_end_def not_less)
  have clash: "?p i \<longleftrightarrow> Owner (hooks i) \<noteq> None \<and> \<not> apart (hooks i) (new owner start count handler)"
    if "i < VDD_SVC_MEMORY_HOOKS_MAX" for i
    using that assms(1) ok
    by (auto simp: hooks_sound_def hook_ok_def range_end_def apart_def new_def overlap_iff)
  have "first_from ?p 0 VDD_SVC_MEMORY_HOOKS_MAX < VDD_SVC_MEMORY_HOOKS_MAX \<longleftrightarrow>
      \<not> first_from ?p 0 VDD_SVC_MEMORY_HOOKS_MAX = VDD_SVC_MEMORY_HOOKS_MAX"
    using first_from_le [of ?p 0 VDD_SVC_MEMORY_HOOKS_MAX] by linarith
  also have "\<dots> \<longleftrightarrow> \<not> (\<forall>i<VDD_SVC_MEMORY_HOOKS_MAX. \<not> ?p i)"
    by (simp only: first_from_full)
  also have "\<dots> \<longleftrightarrow>
      \<not> (\<forall>i<VDD_SVC_MEMORY_HOOKS_MAX. Owner (hooks i) \<noteq> None \<longrightarrow> apart (hooks i) (new owner start count handler))"
    using clash by blast
  finally have full: "first_from ?p 0 VDD_SVC_MEMORY_HOOKS_MAX < VDD_SVC_MEMORY_HOOKS_MAX \<longleftrightarrow>
      \<not> (\<forall>i<VDD_SVC_MEMORY_HOOKS_MAX. Owner (hooks i) \<noteq> None \<longrightarrow> apart (hooks i) (new owner start count handler))" .
  have lowest: "first_from (\<lambda>i. Owner (hooks i) = None) 0 VDD_SVC_MEMORY_HOOKS_MAX = memory_slots.lowest hooks" by simp
  show ?thesis
    unfolding VddSvcMemoryHookAdd_def full Let_def lowest
    using False ok memory_slots.lowest_some [of hooks] by (simp add: new_def del: not_None_eq)
qed
lemma sound_unique:
  assumes "hooks_sound hooks" "i < VDD_SVC_MEMORY_HOOKS_MAX" "j < VDD_SVC_MEMORY_HOOKS_MAX"
    "hook_covers (hooks i) a" "hook_covers (hooks j) a"
  shows "i = j"
proof (rule ccontr)
  assume "i \<noteq> j"
  have owners: "Owner (hooks i) \<noteq> None" "Owner (hooks j) \<noteq> None" using assms(4,5) by (simp_all add: hook_covers_def)
  with assms(1-3) \<open>i \<noteq> j\<close> have ok: "hook_ok (hooks i)" "hook_ok (hooks j)" "apart (hooks i) (hooks j)"
    by (simp_all add: hooks_sound_def)
  then show False using assms(4,5) by (auto simp: hook_covers_iff apart_def)
qed

lemma find_iff:
  assumes "hooks_sound hooks"
  shows "VddSvcMemoryHookFind hooks a = Some i \<longleftrightarrow> i < VDD_SVC_MEMORY_HOOKS_MAX \<and> hook_covers (hooks i) a"
    and "VddSvcMemoryHookFind hooks a = None \<longleftrightarrow> (\<forall>i<VDD_SVC_MEMORY_HOOKS_MAX. \<not> hook_covers (hooks i) a)"
proof -
  let ?n = "first_from (\<lambda>i. hook_covers (hooks i) a) 0 VDD_SVC_MEMORY_HOOKS_MAX"
  have le: "?n \<le> VDD_SVC_MEMORY_HOOKS_MAX" by (rule first_from_le)
  have full: "?n = VDD_SVC_MEMORY_HOOKS_MAX \<longleftrightarrow> (\<forall>i<VDD_SVC_MEMORY_HOOKS_MAX. \<not> hook_covers (hooks i) a)"
    by (rule first_from_full)
  have found: "VddSvcMemoryHookFind hooks a = (if ?n < VDD_SVC_MEMORY_HOOKS_MAX then Some ?n else None)"
    by (simp add: VddSvcMemoryHookFind_def Let_def)
  show "VddSvcMemoryHookFind hooks a = None \<longleftrightarrow> (\<forall>i<VDD_SVC_MEMORY_HOOKS_MAX. \<not> hook_covers (hooks i) a)"
    unfolding found full [symmetric] using le by auto
  have hit: "?n < VDD_SVC_MEMORY_HOOKS_MAX \<Longrightarrow> hook_covers (hooks ?n) a" by (rule first_from_holds)
  show "VddSvcMemoryHookFind hooks a = Some i \<longleftrightarrow> i < VDD_SVC_MEMORY_HOOKS_MAX \<and> hook_covers (hooks i) a"
  proof
    assume "VddSvcMemoryHookFind hooks a = Some i"
    then show "i < VDD_SVC_MEMORY_HOOKS_MAX \<and> hook_covers (hooks i) a"
      unfolding found using hit by (auto split: if_splits)
  next
    assume i: "i < VDD_SVC_MEMORY_HOOKS_MAX \<and> hook_covers (hooks i) a"
    then have n: "?n < VDD_SVC_MEMORY_HOOKS_MAX" using le full by (metis nat_less_le)
    with i hit sound_unique [OF assms, of ?n i a] show "VddSvcMemoryHookFind hooks a = Some i"
      unfolding found by simp
  qed
qed

lemma hook_add_sound:
  assumes "hooks_sound hooks"
  shows "hooks_sound (snd (VddSvcMemoryHookAdd owner start count handler hooks))"
proof -
  have upd: "hooks_sound (hooks(k := e))"
    if "hook_ok e" "\<forall>i<VDD_SVC_MEMORY_HOOKS_MAX. Owner (hooks i) \<noteq> None \<longrightarrow> apart (hooks i) e" for k e
    using assms that by (auto simp: hooks_sound_def apart_def)
  show ?thesis unfolding hook_add_cases [OF assms] using upd assms by (simp del: not_None_eq)
qed

text \<open>
  Each guest address has one memory hook at most, whatever VDDs install and remove: adding a hook,
  removing one and dropping a departing VDD's hooks keep the ranges non-empty, unwrapped and disjoint,
  and the search answers exactly the slot whose hook covers the address.
\<close>

theorem svc_hooks_one_handler:
  assumes "hooks_sound hooks"
  shows "hooks_sound (snd (VddSvcMemoryHookAdd owner start count handler hooks)) \<and>
         hooks_sound (snd (VddSvcMemoryHookRemove owner start count hooks)) \<and>
         hooks_sound (snd (VddSvcMemoryHookRemoveOwner owner hooks)) \<and>
         (VddSvcMemoryHookFind hooks a = Some i \<longleftrightarrow> i < VDD_SVC_MEMORY_HOOKS_MAX \<and> hook_covers (hooks i) a) \<and>
         (VddSvcMemoryHookFind hooks a = None \<longleftrightarrow> (\<forall>i<VDD_SVC_MEMORY_HOOKS_MAX. \<not> hook_covers (hooks i) a))"
  using hook_add_sound [OF assms] remove_owner_sound [OF assms] hooks_sound_release [OF assms] find_iff [OF assms]
  by (simp add: VddSvcMemoryHookRemove_def Let_def assms)

definition no_hooks :: "(nat, nat) vdd_svc_memory_hooks" where
  "no_hooks = (\<lambda>_. \<lparr>Owner = None, Start = 0, Count = 0, Handler = None\<rparr>)"

theorem svc_hooks_one_handler_witness:
  "hooks_sound (snd (VddSvcMemoryHookAdd (Some 1) 0xD0000 0x4000 (Some 7) no_hooks))"
  using svc_hooks_one_handler [of no_hooks "Some 1" "0xD0000" "0x4000" "Some 7"]
  by (simp add: hooks_sound_def no_hooks_def)

text \<open>
  Installing a memory hook succeeds exactly when the VDD and its handler are given, the range is not
  empty, does not wrap and meets no installed hook, and a slot is free; then exactly its addresses change
  their answer, to the new hook in the lowest free slot, and a refusal changes nothing.
\<close>

theorem svc_hook_add_contract:
  assumes sound: "hooks_sound hooks"
    and run: "VddSvcMemoryHookAdd owner start count handler hooks = (added, hooks')"
  shows "(added \<longleftrightarrow> owner \<noteq> None \<and> handler \<noteq> None \<and> count \<noteq> 0 \<and> unat start + unat count < 2 ^ 32 \<and>
            (\<forall>i<VDD_SVC_MEMORY_HOOKS_MAX. Owner (hooks i) \<noteq> None \<longrightarrow>
               unat (Start (hooks i)) + unat (Count (hooks i)) \<le> unat start \<or> unat start + unat count \<le> unat (Start (hooks i))) \<and>
            (\<exists>i<VDD_SVC_MEMORY_HOOKS_MAX. Owner (hooks i) = None)) \<and>
         (\<not> added \<longrightarrow> hooks' = hooks) \<and>
         (added \<longrightarrow> VddSvcMemoryHookFind hooks' a =
            (if start \<le> a \<and> a - start < count then Some (memory_slots.lowest hooks) else VddSvcMemoryHookFind hooks a))"
proof -
  let ?e = "\<lparr>Owner = owner, Start = start, Count = count, Handler = handler\<rparr>" and ?k = "memory_slots.lowest hooks"
  have space: "?k < VDD_SVC_MEMORY_HOOKS_MAX \<longleftrightarrow> (\<exists>i<VDD_SVC_MEMORY_HOOKS_MAX. Owner (hooks i) = None)"
    using memory_slots.lowest_full [of hooks] memory_slots.lowest_some [of hooks] by (auto simp: nat_less_le)
  have cases: "added \<longleftrightarrow> owner \<noteq> None \<and> hook_ok ?e \<and>
      (\<forall>i<VDD_SVC_MEMORY_HOOKS_MAX. Owner (hooks i) \<noteq> None \<longrightarrow> apart (hooks i) ?e) \<and> ?k < VDD_SVC_MEMORY_HOOKS_MAX"
    "\<not> added \<Longrightarrow> hooks' = hooks" "added \<Longrightarrow> hooks' = hooks(?k := ?e)"
    using hook_add_cases [OF sound, of owner start count handler] run by (simp_all split: if_splits)
  have sound': "hooks_sound hooks'"
    using hook_add_sound [OF sound, of owner start count handler] run by simp
  have "VddSvcMemoryHookFind hooks' a = (if start \<le> a \<and> a - start < count then Some ?k else VddSvcMemoryHookFind hooks a)"
    if added
  proof -
    have k: "?k < VDD_SVC_MEMORY_HOOKS_MAX" "Owner (hooks ?k) = None" "owner \<noteq> None"
      using that cases(1) memory_slots.lowest_free [of hooks] by auto
    show ?thesis
    proof (cases "start \<le> a \<and> a - start < count")
      case True
      then show ?thesis using find_iff(1) [OF sound', of a ?k] k cases(3) [OF that] by (simp add: hook_covers_def)
    next
      case False
      then have "hook_covers (hooks' i) a \<longleftrightarrow> hook_covers (hooks i) a" for i
        using k cases(3) [OF that] by (auto simp: hook_covers_def)
      then have "VddSvcMemoryHookFind hooks' a = VddSvcMemoryHookFind hooks a"
        by (simp add: VddSvcMemoryHookFind_def)
      with False show ?thesis by auto
    qed
  qed
  moreover have "added \<longleftrightarrow> owner \<noteq> None \<and> handler \<noteq> None \<and> count \<noteq> 0 \<and> unat start + unat count < 2 ^ 32 \<and>
      (\<forall>i<VDD_SVC_MEMORY_HOOKS_MAX. Owner (hooks i) \<noteq> None \<longrightarrow>
         unat (Start (hooks i)) + unat (Count (hooks i)) \<le> unat start \<or> unat start + unat count \<le> unat (Start (hooks i))) \<and>
      (\<exists>i<VDD_SVC_MEMORY_HOOKS_MAX. Owner (hooks i) = None)"
    unfolding cases(1) space by (auto simp: hook_ok_def range_end_def apart_def)
  ultimately show ?thesis using cases(2) by blast
qed

theorem svc_hook_add_contract_witness:
  "VddSvcMemoryHookFind (snd (VddSvcMemoryHookAdd (Some 1) 0xD0000 0x4000 (Some 7) no_hooks)) 0xD3FFF =
     Some (memory_slots.lowest no_hooks)"
proof -
  have none: "Owner (no_hooks i) = None" for i by (simp add: no_hooks_def)
  then have sound: "hooks_sound no_hooks" by (simp add: hooks_sound_def)
  have free: "\<exists>i<VDD_SVC_MEMORY_HOOKS_MAX. Owner (no_hooks i) = None"
    using none by (intro exI [of _ 0]) (simp add: VDD_SVC_MEMORY_HOOKS_MAX_def)
  obtain added hooks' where run: "VddSvcMemoryHookAdd (Some 1) 0xD0000 0x4000 (Some 7) no_hooks = (added, hooks')"
    by (metis surj_pair)
  show ?thesis
    using svc_hook_add_contract [OF sound run, of "0xD3FFF"] free run by (simp add: none del: split_paired_Ex)
qed
subsection \<open>Interrupt lines\<close>

text \<open>
  An interrupt line is granted to one VDD at a time: a grant is a line below 16, never the cascade,
  that was free, is the line asked for (or the first free one of the fixed order when none was named),
  and is reserved from then on until its release gives back the lines as they were; a refusal reserves
  nothing, and happens only when the line asked for is out of range, the cascade or taken, or every line
  of the order is.
\<close>

theorem svc_irq_contract:
  assumes run: "VddSvcIrqReserve line reserved = (granted, reserved')"
  shows "(granted \<noteq> VDD_SVC_NO_IRQ \<longrightarrow>
            unat granted < 16 \<and> granted \<noteq> VDD_SVC_CASCADE_LINE \<and> \<not> bit reserved (unat granted) \<and>
            reserved' = reserved OR line_bit (unat granted) \<and>
            (if line = VDD_SVC_NO_IRQ then find (\<lambda>n. \<not> bit reserved n) g_VddSvcLineOrder = Some (unat granted)
             else granted = line) \<and>
            VddSvcIrqRelease granted reserved' = (True, reserved)) \<and>
         (granted = VDD_SVC_NO_IRQ \<longrightarrow> reserved' = reserved \<and>
            (if line = VDD_SVC_NO_IRQ then \<forall>n\<in>set g_VddSvcLineOrder. bit reserved n
             else line \<ge> VDD_SVC_IRQ_LINES \<or> line = VDD_SVC_CASCADE_LINE \<or> bit reserved (unat line)))"
proof -
  have order: "n < 16 \<and> n \<noteq> 2 \<and> unat (of_nat n :: u16) = n \<and> (of_nat n :: u16) \<noteq> VDD_SVC_NO_IRQ \<and>
      (of_nat n :: u16) \<noteq> VDD_SVC_CASCADE_LINE" if "n \<in> set g_VddSvcLineOrder" for n
    using that by (auto simp: g_VddSvcLineOrder_def VDD_SVC_NO_IRQ_def VDD_SVC_CASCADE_LINE_def)
  have release: "VddSvcIrqRelease l (reserved OR line_bit (unat l)) = (True, reserved)"
    if "unat l < 16" "\<not> bit reserved (unat l)" for l
  proof -
    have "(reserved OR line_bit (unat l)) AND NOT (line_bit (unat l)) = reserved"
      using that by (auto simp: word_eq_bits bit_clear_line bit_set_line)
    then show ?thesis
      using that by (simp add: VddSvcIrqRelease_def VDD_SVC_IRQ_LINES_def bit_set_line word_le_nat_alt)
  qed
  show ?thesis
  proof (cases "line = VDD_SVC_NO_IRQ")
    case True
    show ?thesis
    proof (cases "find (\<lambda>n. \<not> bit reserved n) g_VddSvcLineOrder")
      case None
      then have "granted = VDD_SVC_NO_IRQ" "reserved' = reserved" using run True by (simp_all add: VddSvcIrqReserve_def)
      then show ?thesis using None True by (auto simp: find_None_iff)
    next
      case (Some n)
      then have n: "n \<in> set g_VddSvcLineOrder" "\<not> bit reserved n" by (auto simp: find_Some_iff)
      have "granted = of_nat n" "reserved' = reserved OR line_bit n"
        using run True Some by (simp_all add: VddSvcIrqReserve_def)
      then show ?thesis
        using True Some n(2) order [OF n(1)] release [of "of_nat n"] by simp
    qed
  next
    case False
    show ?thesis
    proof (cases "line \<ge> VDD_SVC_IRQ_LINES \<or> line = VDD_SVC_CASCADE_LINE \<or> bit reserved (unat line)")
      case True
      then have "granted = VDD_SVC_NO_IRQ" "reserved' = reserved" using run False by (simp_all add: VddSvcIrqReserve_def)
      then show ?thesis using False True by simp
    next
      case refused: False
      then have "unat line < 16" by (simp add: VDD_SVC_IRQ_LINES_def word_le_nat_alt)
      moreover have "line = granted" "reserved' = reserved OR line_bit (unat granted)"
        using run False refused by (auto simp: VddSvcIrqReserve_def)
      ultimately show ?thesis using refused release [of granted] False by simp
    qed
  qed
qed

definition VDDSVC_HOST_IRQ_LINES :: u16 where
  "VDDSVC_HOST_IRQ_LINES = 0xFDFF"

definition HostVddReleaseIrq :: "u16 \<Rightarrow> u16 \<Rightarrow> bool \<times> u16" where
  \<comment> \<open>never the host's own lines\<close>
  "HostVddReleaseIrq line reserved =
     (if line < VDD_SVC_IRQ_LINES \<and> bit VDDSVC_HOST_IRQ_LINES (unat line) then (False, reserved)
      else VddSvcIrqRelease line reserved)"

theorem svc_irq_contract_witness:
  "VddSvcIrqReserve VDD_SVC_NO_IRQ VDDSVC_HOST_IRQ_LINES = (9, 0xFFFF) \<and> VddSvcIrqRelease 9 0xFFFF = (True, VDDSVC_HOST_IRQ_LINES)"
proof -
  have run: "VddSvcIrqReserve VDD_SVC_NO_IRQ VDDSVC_HOST_IRQ_LINES = (9, 0xFFFF)" by code_simp
  show ?thesis using svc_irq_contract [OF run] run by (simp add: VDD_SVC_NO_IRQ_def)
qed

subsection \<open>The registry's list\<close>

lemma next_shorter: "VddSvcMultiStringNext capacity bytes = ((True, name), rest) \<Longrightarrow> length rest < length bytes"
proof (induction capacity bytes rule: VddSvcMultiStringNext.induct)
  case (1 capacity bytes)
  let ?name = "takeWhile (\<lambda>c. c \<noteq> 0) bytes" and ?rest = "drop 1 (dropWhile (\<lambda>c. c \<noteq> 0) bytes)"
  have open_text: "bytes \<noteq> []" "hd bytes \<noteq> 0"
    using "1.prems" by (auto simp: VddSvcMultiStringNext.simps [of capacity bytes] split: if_splits)
  have less: "length ?rest < length bytes"
    using open_text by (cases bytes) (auto simp: less_Suc_eq_le intro: order.trans [OF diff_le_self length_dropWhile_le])
  show ?case
  proof (cases "capacity > 0 \<and> int (length ?name) < capacity")
    case True
    then show ?thesis using "1.prems" open_text less by (simp add: VddSvcMultiStringNext.simps [of capacity bytes] Let_def)
  next
    case False
    then have "VddSvcMultiStringNext capacity ?rest = ((True, name), rest)"
      using "1.prems" open_text by (simp add: VddSvcMultiStringNext.simps [of capacity bytes] Let_def split: if_splits)
    with "1.IH" False open_text less show ?thesis by fastforce
  qed
qed

function svc_list :: "int \<Rightarrow> u8 list \<Rightarrow> u8 list list" where
  \<comment> \<open>the loop of \<^verbatim>\<open>HostVddRegistryLoad\<close>: the names, as written to its buffer\<close>
  "svc_list capacity bytes =
     (case VddSvcMultiStringNext capacity bytes of
        ((found, name), rest) \<Rightarrow> if found then name # svc_list capacity rest else [])"
  by pat_completeness auto
termination
  by (relation "measure (\<lambda>(capacity, bytes). length bytes)") (auto dest: next_shorter [OF sym])

declare svc_list.simps [simp del]

definition multi_string :: "u8 list list \<Rightarrow> u8 list" where
  "multi_string names = concat (map (\<lambda>name. name @ [0]) names)"

lemma next_name:
  assumes "name \<noteq> []" "0 \<notin> set name"
  shows "VddSvcMultiStringNext capacity (name @ 0 # after) =
    (if capacity > 0 \<and> int (length name) < capacity then ((True, name @ [0]), after) else VddSvcMultiStringNext capacity after)"
proof -
  have inside: "c \<noteq> 0" if "c \<in> set name" for c using that assms(2) by metis
  then have "takeWhile (\<lambda>c. c \<noteq> 0) (name @ 0 # after) = name" "dropWhile (\<lambda>c. c \<noteq> 0) (name @ 0 # after) = 0 # after"
    by (induction name) auto
  moreover have "hd (name @ 0 # after) \<noteq> 0" using assms inside by (cases name) auto
  ultimately show ?thesis using assms(1) by (subst VddSvcMultiStringNext.simps) (simp add: Let_def)
qed

text \<open>
  The walk over a multi-string value ends and returns every name of the list, in order, each with
  its terminator, except the names that do not fit the caller's buffer, which it skips whole: for a
  value that ends in an empty name, that just stops, or that carries anything after its empty name.
\<close>

theorem svc_list_decodes:
  assumes "\<forall>name\<in>set names. name \<noteq> [] \<and> 0 \<notin> set name" and "capacity > 0" and "tail = [] \<or> hd tail = 0"
  shows "svc_list capacity (multi_string names @ tail) =
    map (\<lambda>name. name @ [0]) (filter (\<lambda>name. int (length name) < capacity) names)"
proof -
  have last: "VddSvcMultiStringNext capacity tail = ((False, [0]), tail)"
    using assms(2,3) by (subst VddSvcMultiStringNext.simps) auto
  show ?thesis
    using assms(1)
  proof (induction names)
    case Nil
    then show ?case using last by (subst svc_list.simps) (simp add: multi_string_def)
  next
    case (Cons name names)
    let ?more = "multi_string names @ tail"
    have "multi_string (name # names) @ tail = name @ 0 # ?more" by (simp add: multi_string_def)
    moreover have "svc_list capacity (name @ 0 # ?more) =
        (if int (length name) < capacity then (name @ [0]) # svc_list capacity ?more else svc_list capacity ?more)"
      using Cons.prems assms(2) by (simp add: svc_list.simps [of capacity "name @ 0 # ?more"] svc_list.simps [of capacity ?more] next_name)
    ultimately show ?case using Cons by simp
  qed
qed

theorem svc_list_decodes_witness:
  "svc_list 4 (multi_string [[97, 98], [97, 98, 99, 100], [99]] @ [0]) = [[97, 98, 0], [99, 0]]"
  using svc_list_decodes [of "[[97, 98], [97, 98, 99, 100], [99]]" 4 "[0]"] by simp

end
