(* ===== verification/V86_Host.thy ===== *)
theory V86_Host
  imports V86_Decline Vdd_Bus Vdd_Svc
begin

text \<open>
  The host's side of the 16-bit interpreter, \<^verbatim>\<open>src/host/host_video.c\<close>: the page map of the low
  megabyte and the memory and port hooks the interpreter runs on, with the memory half of the VDD
  service API of \<^verbatim>\<open>src/host/host_vddsvc.c\<close>, whose hooked pages the same map marks. The video engine,
  the handlers of loaded VDDs, the host timing module and the answers of \<^verbatim>\<open>VirtualQuery\<close> are parameters.
\<close>

abbreviation PAGE_SHIFT :: nat where "PAGE_SHIFT \<equiv> 12"
abbreviation VIDEO_APERTURE_BASE :: u32 where "VIDEO_APERTURE_BASE \<equiv> 0xA0000"
abbreviation VIDEO_MONO_BASE :: u32 where "VIDEO_MONO_BASE \<equiv> 0xB0000"
abbreviation X86_REAL_MODE_SIZE_U :: u32 where "X86_REAL_MODE_SIZE_U \<equiv> 0x100000"
abbreviation VDD_UNCLAIMED_READ_BYTE :: u8 where "VDD_UNCLAIMED_READ_BYTE \<equiv> 0xFF"
abbreviation VDDSVC_VDM_TOP :: u32 where "VDDSVC_VDM_TOP \<equiv> 0x110000"
abbreviation VDDSVC_PAGE_BYTES :: u32 where "VDDSVC_PAGE_BYTES \<equiv> 0x1000"

datatype page_state = PAGE_MAP_UNKNOWN | PAGE_MAP_OK | PAGE_MAP_BAD | PAGE_MAP_HOOKED

record ('v, 'o, 'p) host_memory =
  GuestByte :: "u32 \<Rightarrow> u8"
  g_PageMap :: "nat \<Rightarrow> page_state"
  g_Video :: 'v \<comment> \<open>the video engine and whatever else the handlers keep\<close>
  g_VddMemoryHooks :: "('o, 'p) vdd_svc_memory_hooks"
  g_VddPagesCommitted :: "nat \<Rightarrow> bool"
  g_VddMemoryHookCalls :: u32
  g_InterpreterMemoryBadReads :: u32
  g_InterpreterMemoryBadWrites :: u32
  g_InterpreterMemoryBadLogged :: u32

record ('v, 'o, 'p) host_environment =
  VideoPlanarRead :: "'v \<Rightarrow> u32 \<Rightarrow> u8 \<times> 'v"
  VideoPlanarWrite :: "'v \<Rightarrow> u32 \<Rightarrow> u8 \<Rightarrow> 'v"
  QueryCommitted :: "('v, 'o, 'p) host_memory \<Rightarrow> nat \<Rightarrow> bool" \<comment> \<open>a page \<^verbatim>\<open>VirtualQuery\<close> calls committed and accessible\<close>
  HostReadable :: "('v, 'o, 'p) host_memory \<Rightarrow> u32 \<Rightarrow> bool"
  HostWritable :: "('v, 'o, 'p) host_memory \<Rightarrow> u32 \<Rightarrow> bool"
  CallHandler :: "'p \<Rightarrow> u32 \<Rightarrow> bool \<Rightarrow> ('v, 'o, 'p) host_memory \<Rightarrow> ('v, 'o, 'p) host_memory"
  HostPitGenerate :: "('v, 'o, 'p) host_memory \<Rightarrow> ('v, 'o, 'p) host_memory"
  HostPitWritten :: "u16 \<Rightarrow> u8 \<Rightarrow> ('v, 'o, 'p) host_memory \<Rightarrow> ('v, 'o, 'p) host_memory"
    \<comment> \<open>\<^verbatim>\<open>PitLatchNote\<close> and \<^verbatim>\<open>HostPitResyncCheck\<close> after a write to the control port and counter 0\<close>

type_synonym ('v, 'o, 'p, 'r, 'f) host_bus = "(('v, 'o, 'p) host_memory, 'r, 'f) vdd_bus"

definition page_of :: "u32 \<Rightarrow> nat" where
  "page_of linear = unat (drop_bit PAGE_SHIFT linear)"

definition in_aperture :: "u32 \<Rightarrow> bool" where
  "in_aperture linear \<longleftrightarrow> VIDEO_APERTURE_BASE \<le> linear \<and> linear < VIDEO_MONO_BASE"

subsection \<open>The page map\<close>

definition InterpreterMemoryPageOk ::
  "('v, 'o, 'p) host_environment \<Rightarrow> u32 \<Rightarrow> ('v, 'o, 'p) host_memory \<Rightarrow> bool \<times> ('v, 'o, 'p) host_memory" where
  "InterpreterMemoryPageOk env linear m =
     (if linear \<ge> X86_REAL_MODE_SIZE_U then (True, m)
      else let m' = (if g_PageMap m (page_of linear) = PAGE_MAP_UNKNOWN
                     then m\<lparr>g_PageMap := (g_PageMap m)(page_of linear :=
                            (if QueryCommitted env m (page_of linear) then PAGE_MAP_OK else PAGE_MAP_BAD))\<rparr>
                     else m)
           in (g_PageMap m' (page_of linear) = PAGE_MAP_OK, m'))"

primrec mark_pages :: "page_state \<Rightarrow> nat list \<Rightarrow> ('v, 'o, 'p) host_memory \<Rightarrow> ('v, 'o, 'p) host_memory" where
  "mark_pages s [] m = m"
| "mark_pages s (page # pages) m = mark_pages s pages (m\<lparr>g_PageMap := (g_PageMap m)(page := s)\<rparr>)"

definition mapped_pages :: "u32 \<Rightarrow> u32 \<Rightarrow> nat list" where
  \<comment> \<open>the pages of a range, below the megabyte\<close>
  "mapped_pages linear byteCount = [page_of linear..<min 256 (Suc (page_of (linear + byteCount - 1)))]"

definition HostPageMapHook :: "u32 \<Rightarrow> u32 \<Rightarrow> ('v, 'o, 'p) host_memory \<Rightarrow> ('v, 'o, 'p) host_memory" where
  "HostPageMapHook linear byteCount = mark_pages PAGE_MAP_HOOKED (mapped_pages linear byteCount)"

definition HostPageMapReset :: "u32 \<Rightarrow> u32 \<Rightarrow> ('v, 'o, 'p) host_memory \<Rightarrow> ('v, 'o, 'p) host_memory" where
  "HostPageMapReset linear byteCount = mark_pages PAGE_MAP_UNKNOWN (mapped_pages linear byteCount)"

subsection \<open>Hooked memory\<close>

definition VddSvcInVdm :: "u32 \<Rightarrow> u32 \<Rightarrow> bool" where
  "VddSvcInVdm start bytes \<longleftrightarrow> bytes \<noteq> 0 \<and> start < VDDSVC_VDM_TOP \<and> bytes \<le> VDDSVC_VDM_TOP - start"

definition HostVddInstallMemoryHook ::
  "'o option \<Rightarrow> u32 \<Rightarrow> u32 \<Rightarrow> 'p option \<Rightarrow> ('v, 'o, 'p) host_memory \<Rightarrow> bool \<times> ('v, 'o, 'p) host_memory" where
  "HostVddInstallMemoryHook vddHandle linear count handler m =
     (if \<not> VddSvcInVdm linear count then (False, m)
      else let (added, hooks) = VddSvcMemoryHookAdd vddHandle linear count handler (g_VddMemoryHooks m)
           in if added then (True, HostPageMapHook linear count (m\<lparr>g_VddMemoryHooks := hooks\<rparr>)) else (False, m))"

definition HostVddRemoveMemoryHook ::
  "'o option \<Rightarrow> u32 \<Rightarrow> u32 \<Rightarrow> ('v, 'o, 'p) host_memory \<Rightarrow> bool \<times> ('v, 'o, 'p) host_memory" where
  "HostVddRemoveMemoryHook vddHandle linear count m =
     (let (removed, hooks) = VddSvcMemoryHookRemove vddHandle linear count (g_VddMemoryHooks m)
      in if removed then (True, HostPageMapReset linear count (m\<lparr>g_VddMemoryHooks := hooks\<rparr>)) else (False, m))"

definition HostVddClaimMemory ::
  "('v, 'o, 'p, 'r, 'f) host_bus \<Rightarrow> u32 \<Rightarrow> u32 \<Rightarrow> (('v, 'o, 'p) host_memory \<Rightarrow> u32 \<Rightarrow> ('v, 'o, 'p) host_memory \<times> u8) option \<Rightarrow>
   (('v, 'o, 'p) host_memory \<Rightarrow> u32 \<Rightarrow> u8 \<Rightarrow> ('v, 'o, 'p) host_memory) option \<Rightarrow> ('v, 'o, 'p) host_memory \<Rightarrow>
   (bool \<times> ('v, 'o, 'p, 'r, 'f) host_bus) \<times> ('v, 'o, 'p) host_memory" where
  "HostVddClaimMemory bus base bytes readRoutine writeRoutine m =
     (let (bus', ok) = VddClaimMemory bus base bytes readRoutine writeRoutine
      in ((ok, bus'), if ok \<and> VddSvcInVdm base bytes then HostPageMapHook base bytes m else m))"

definition HostVddModuleGone :: "'o option \<Rightarrow> ('v, 'o, 'p) host_memory \<Rightarrow> ('v, 'o, 'p) host_memory" where
  \<comment> \<open>the memory hooks of a VDD whose module goes away\<close>
  "HostVddModuleGone vddHandle m =
     (let m' = fold (\<lambda>i m. if Owner (g_VddMemoryHooks m i) = vddHandle
                           then HostPageMapReset (Start (g_VddMemoryHooks m i)) (Count (g_VddMemoryHooks m i)) m else m)
                 [0..<VDD_SVC_MEMORY_HOOKS_MAX] m
      in m'\<lparr>g_VddMemoryHooks := snd (VddSvcMemoryHookRemoveOwner vddHandle (g_VddMemoryHooks m'))\<rparr>)"

definition call_hook ::
  "('v, 'o, 'p) host_environment \<Rightarrow> u32 \<Rightarrow> bool \<Rightarrow> ('v, 'o, 'p) host_memory \<Rightarrow> ('v, 'o, 'p) host_memory option" where
  \<comment> \<open>the handler of a Microsoft-ABI hook told of an access; \<open>None\<close> when no hook covers it\<close>
  "call_hook env linear isWrite m =
     (case VddSvcMemoryHookFind (g_VddMemoryHooks m) linear of None \<Rightarrow> None
      | Some i \<Rightarrow>
          (case Handler (g_VddMemoryHooks m i) of None \<Rightarrow> None
           | Some handler \<Rightarrow>
               Some (CallHandler env handler linear isWrite (m\<lparr>g_VddMemoryHookCalls := g_VddMemoryHookCalls m + 1\<rparr>))))"

definition page_present :: "('v, 'o, 'p) host_environment \<Rightarrow> u32 \<Rightarrow> ('v, 'o, 'p) host_memory \<Rightarrow> bool" where
  "page_present env linear m \<longleftrightarrow> g_VddPagesCommitted m (page_of linear) \<and> HostWritable env m linear"

definition HostVddMemoryRead ::
  "('v, 'o, 'p) host_environment \<Rightarrow> ('v, 'o, 'p, 'r, 'f) host_bus \<Rightarrow> u32 \<Rightarrow> u8 \<Rightarrow> ('v, 'o, 'p) host_memory \<Rightarrow>
   (bool \<times> u8) \<times> ('v, 'o, 'p) host_memory" where
  "HostVddMemoryRead env bus linear v m =
     (case VddBusMemoryRead bus linear v m of (claimed, v', m1) \<Rightarrow>
        if claimed then ((True, v'), m1)
        else case call_hook env linear False m1 of None \<Rightarrow> ((False, v'), m1)
             | Some m2 \<Rightarrow> ((True, if page_present env linear m2 then GuestByte m2 linear else VDD_UNCLAIMED_READ_BYTE), m2))"

definition HostVddMemoryWrite ::
  "('v, 'o, 'p) host_environment \<Rightarrow> ('v, 'o, 'p, 'r, 'f) host_bus \<Rightarrow> u32 \<Rightarrow> u8 \<Rightarrow> ('v, 'o, 'p) host_memory \<Rightarrow>
   bool \<times> ('v, 'o, 'p) host_memory" where
  "HostVddMemoryWrite env bus linear v m =
     (case VddBusMemoryWrite bus linear v m of (claimed, m1) \<Rightarrow>
        if claimed then (True, m1)
        else case call_hook env linear True m1 of None \<Rightarrow> (False, m1)
             | Some m2 \<Rightarrow> (True, if page_present env linear m2 then m2\<lparr>GuestByte := (GuestByte m2)(linear := v)\<rparr> else m2))"

subsection \<open>The interpreter's accesses\<close>

definition InterpreterMemoryBadNote :: "('v, 'o, 'p) host_memory \<Rightarrow> ('v, 'o, 'p) host_memory" where
  \<comment> \<open>the log keeps the first twelve\<close>
  "InterpreterMemoryBadNote m =
     (if g_InterpreterMemoryBadLogged m \<ge> 12 then m
      else m\<lparr>g_InterpreterMemoryBadLogged := g_InterpreterMemoryBadLogged m + 1\<rparr>)"

definition store_byte :: "u32 \<Rightarrow> u8 \<Rightarrow> ('v, 'o, 'p) host_memory \<Rightarrow> ('v, 'o, 'p) host_memory" where
  "store_byte linear v m = m\<lparr>GuestByte := (GuestByte m)(linear := v)\<rparr>"

definition InterpreterMemoryRead8Slow ::
  "('v, 'o, 'p) host_environment \<Rightarrow> ('v, 'o, 'p, 'r, 'f) host_bus \<Rightarrow> u32 \<Rightarrow> ('v, 'o, 'p) host_memory \<Rightarrow>
   u8 \<times> ('v, 'o, 'p) host_memory" where
  "InterpreterMemoryRead8Slow env bus linear m =
     (if in_aperture linear then
        (case VideoPlanarRead env (g_Video m) (linear - VIDEO_APERTURE_BASE) of (v, video) \<Rightarrow> (v, m\<lparr>g_Video := video\<rparr>))
      else if linear < X86_REAL_MODE_SIZE_U \<and> g_PageMap m (page_of linear) = PAGE_MAP_HOOKED then
        (case HostVddMemoryRead env bus linear VDD_UNCLAIMED_READ_BYTE m of ((answered, v), m1) \<Rightarrow>
           if answered then (v, m1)
           else (if HostReadable env m1 linear then GuestByte m1 linear else VDD_UNCLAIMED_READ_BYTE, m1))
      else case InterpreterMemoryPageOk env linear m of (ok, m1) \<Rightarrow>
             if ok then (GuestByte m1 linear, m1)
             else (VDD_UNCLAIMED_READ_BYTE,
                   InterpreterMemoryBadNote (m1\<lparr>g_InterpreterMemoryBadReads := g_InterpreterMemoryBadReads m1 + 1\<rparr>)))"

definition InterpreterMemoryWrite8Slow ::
  "('v, 'o, 'p) host_environment \<Rightarrow> ('v, 'o, 'p, 'r, 'f) host_bus \<Rightarrow> u32 \<Rightarrow> u8 \<Rightarrow> ('v, 'o, 'p) host_memory \<Rightarrow>
   ('v, 'o, 'p) host_memory" where
  "InterpreterMemoryWrite8Slow env bus linear v m =
     (if in_aperture linear
      then m\<lparr>g_Video := VideoPlanarWrite env (g_Video m) (linear - VIDEO_APERTURE_BASE) v\<rparr>
      else if linear < X86_REAL_MODE_SIZE_U \<and> g_PageMap m (page_of linear) = PAGE_MAP_HOOKED then
        (case HostVddMemoryWrite env bus linear v m of (answered, m1) \<Rightarrow>
           if \<not> answered \<and> HostWritable env m1 linear then store_byte linear v m1 else m1)
      else case InterpreterMemoryPageOk env linear m of (ok, m1) \<Rightarrow>
             if ok then store_byte linear v m1
             else InterpreterMemoryBadNote (m1\<lparr>g_InterpreterMemoryBadWrites := g_InterpreterMemoryBadWrites m1 + 1\<rparr>))"

definition plain_page :: "u32 \<Rightarrow> ('v, 'o, 'p) host_memory \<Rightarrow> bool" where
  \<comment> \<open>the fast path: a page known to be plain memory\<close>
  "plain_page linear m \<longleftrightarrow>
     linear < X86_REAL_MODE_SIZE_U \<and> g_PageMap m (page_of linear) = PAGE_MAP_OK \<and> \<not> in_aperture linear"

definition V86HostRead8 ::
  "('v, 'o, 'p) host_environment \<Rightarrow> ('v, 'o, 'p, 'r, 'f) host_bus \<Rightarrow> u32 \<Rightarrow> ('v, 'o, 'p) host_memory \<Rightarrow>
   u8 \<times> ('v, 'o, 'p) host_memory" where
  "V86HostRead8 env bus linear m =
     (if plain_page linear m then (GuestByte m linear, m) else InterpreterMemoryRead8Slow env bus linear m)"

definition V86HostWrite8 ::
  "('v, 'o, 'p) host_environment \<Rightarrow> ('v, 'o, 'p, 'r, 'f) host_bus \<Rightarrow> u32 \<Rightarrow> u8 \<Rightarrow> ('v, 'o, 'p) host_memory \<Rightarrow>
   ('v, 'o, 'p) host_memory" where
  "V86HostWrite8 env bus linear v m =
     (if plain_page linear m then store_byte linear v m else InterpreterMemoryWrite8Slow env bus linear v m)"

definition V86HostIn ::
  "('v, 'o, 'p) host_environment \<Rightarrow> ('v, 'o, 'p, 'r, 'f) host_bus \<Rightarrow> u16 \<Rightarrow> nat \<Rightarrow> ('v, 'o, 'p) host_memory \<Rightarrow>
   u32 \<times> ('v, 'o, 'p) host_memory" where
  \<comment> \<open>the PIT reads real time; an unclaimed port leaves the zero it started with\<close>
  "V86HostIn env bus port width m =
     (let m1 = (if 0x40 \<le> port \<and> port \<le> 0x43 then HostPitGenerate env m else m)
      in case VddBusIo bus port (of_nat width) True 0 m1 of (claimed, v, m2) \<Rightarrow> (v, m2))"

definition V86HostOut ::
  "('v, 'o, 'p) host_environment \<Rightarrow> ('v, 'o, 'p, 'r, 'f) host_bus \<Rightarrow> u16 \<Rightarrow> nat \<Rightarrow> u32 \<Rightarrow> ('v, 'o, 'p) host_memory \<Rightarrow>
   ('v, 'o, 'p) host_memory" where
  "V86HostOut env bus port width v m =
     (let m1 = (if 0x40 \<le> port \<and> port \<le> 0x43 then HostPitGenerate env m else m)
      in case VddBusIo bus port (of_nat width) False v m1 of (claimed, _, m2) \<Rightarrow>
           if port = 0x43 \<or> port = 0x40 then HostPitWritten env port (ucast v) m2 else m2)"

definition interp_host ::
  "('v, 'o, 'p) host_environment \<Rightarrow> ('v, 'o, 'p, 'r, 'f) host_bus \<Rightarrow> ('v, 'o, 'p) host_memory v86_host" where
  \<comment> \<open>the interpreter as the host runs it in real mode\<close>
  "interp_host env bus =
     \<lparr>HostRead8 = V86HostRead8 env bus, HostWrite8 = V86HostWrite8 env bus, HostIn = V86HostIn env bus,
      HostOut = V86HostOut env bus, SegmentToLinear = None, SelectorDescriptor = None\<rparr>"

end
