(* ===== verification/V86_Alu.thy ===== *)
theory V86_Alu
  imports V86_Decline
begin

text \<open>
  What addition and subtraction of the interpreter compute, for operands of one, two and four bytes: the
  carry and overflow flags against exact sums and differences, the orders that the condition codes read
  after a comparison, and sums of numbers of any length by a chain of ADC or SBB.
\<close>

definition operand_width :: "nat \<Rightarrow> bool" where
  "operand_width w \<longleftrightarrow> w = 1 \<or> w = 2 \<or> w = 4"

definition modulus :: "nat \<Rightarrow> int" where
  "modulus w = 2 ^ (8 * w)"

definition unsigned_value :: "nat \<Rightarrow> u32 \<Rightarrow> int" where
  "unsigned_value w x = uint x mod modulus w"

definition signed_value :: "nat \<Rightarrow> u32 \<Rightarrow> int" where
  "signed_value w x =
     (if unsigned_value w x < modulus w div 2 then unsigned_value w x else unsigned_value w x - modulus w)"

definition sign_position :: "nat \<Rightarrow> nat" where
  "sign_position w = 8 * w - 1"

definition has_flag :: "u32 \<Rightarrow> v86_cpu \<Rightarrow> bool" where
  "has_flag f cpu \<longleftrightarrow> Flags cpu AND f \<noteq> 0"

lemma operand_width_cases [consumes 1, case_names byte word dword]:
  "operand_width w \<Longrightarrow> (w = 1 \<Longrightarrow> P) \<Longrightarrow> (w = 2 \<Longrightarrow> P) \<Longrightarrow> (w = 4 \<Longrightarrow> P) \<Longrightarrow> P"
  by (auto simp: operand_width_def)

subsection \<open>Masks and flag bits\<close>

lemma V86Mask_mask: "operand_width w \<Longrightarrow> V86Mask w = mask (8 * w)"
  by (erule operand_width_cases) (simp_all add: V86Mask_def mask_eq_exp_minus_1)

lemma V86SignBit_exp: "operand_width w \<Longrightarrow> V86SignBit w = 2 ^ sign_position w"
  by (erule operand_width_cases) (simp_all add: V86SignBit_def sign_position_def)

lemma sign_bit_iff: "operand_width w \<Longrightarrow> x AND V86SignBit w \<noteq> 0 \<longleftrightarrow> bit x (sign_position w)"
  by (simp add: V86SignBit_exp and_exp_eq_0_iff_not_bit)

lemma uint_masked: "operand_width w \<Longrightarrow> uint (x AND V86Mask w) = unsigned_value w x"
  by (simp add: V86Mask_mask unsigned_value_def modulus_def unsigned_take_bit_eq
      flip: take_bit_eq_mask take_bit_eq_mod)

lemma unsigned_range: "0 \<le> unsigned_value w x" "unsigned_value w x < modulus w"
  by (simp_all add: unsigned_value_def modulus_def)

lemma flag_bits:
  "x AND EFLAGS_CF_U \<noteq> 0 \<longleftrightarrow> bit (x :: u32) 0" "x AND EFLAGS_PF_U \<noteq> 0 \<longleftrightarrow> bit x 2" "x AND EFLAGS_AF_U \<noteq> 0 \<longleftrightarrow> bit x 4"
  "x AND EFLAGS_ZF_U \<noteq> 0 \<longleftrightarrow> bit x 6" "x AND EFLAGS_SF_U \<noteq> 0 \<longleftrightarrow> bit x 7" "x AND EFLAGS_OF_U \<noteq> 0 \<longleftrightarrow> bit x 11"
  using and_exp_eq_0_iff_not_bit [of x 0] and_exp_eq_0_iff_not_bit [of x 2] and_exp_eq_0_iff_not_bit [of x 4]
    and_exp_eq_0_iff_not_bit [of x 6] and_exp_eq_0_iff_not_bit [of x 7] and_exp_eq_0_iff_not_bit [of x 11]
  by simp_all

lemma bit_flag_if [bit_facts]: "bit (flag_if b f x) n \<longleftrightarrow> bit x n \<or> b \<and> bit f n"
  by (simp add: flag_if_def bit_or_iff)

lemma top_bit_iff:
  assumes "uint (x :: u32) < 2 ^ Suc k" and "k < 32"
  shows "bit x k \<longleftrightarrow> 2 ^ k \<le> uint x"
proof -
  have "bit x k \<longleftrightarrow> bit (uint x) k" using assms(2) by (simp add: bit_uint_iff)
  also have "\<dots> \<longleftrightarrow> odd (uint x div 2 ^ k)" by (simp add: bit_iff_odd)
  also have "uint x div 2 ^ k = (if 2 ^ k \<le> uint x then 1 else 0)"
    using assms by (auto simp: div_pos_pos_trivial intro: int_div_pos_eq [of _ _ _ "uint x - 2 ^ k"])
  finally show ?thesis by simp
qed

lemma masked_sign_iff:
  assumes "operand_width w" "uint (x :: u32) < modulus w"
  shows "bit x (sign_position w) \<longleftrightarrow> modulus w div 2 \<le> uint x"
  using assms top_bit_iff [of x "sign_position w"] by (auto simp: operand_width_def modulus_def sign_position_def)

subsection \<open>Subtraction and addition\<close>

lemma mod_wrap_down: "x < 0 \<Longrightarrow> 0 \<le> x + m \<Longrightarrow> x mod m = x + (m :: int)"
  using mod_pos_pos_trivial [of "x + m" m] by simp

lemma mod_wrap_up: "m \<le> x \<Longrightarrow> x < 2 * m \<Longrightarrow> x mod m = x - (m :: int)"
  using mod_pos_pos_trivial [of "x - m" m] by simp

definition carry_in :: "bool \<Rightarrow> int" where
  "carry_in c = (if c then 1 else 0)"

definition alu_flags :: "nat \<Rightarrow> u32 \<Rightarrow> bool \<Rightarrow> bool \<Rightarrow> bool \<Rightarrow> u32 \<Rightarrow> u32" where
  \<comment> \<open>the flags after an addition or a subtraction\<close>
  "alu_flags w result carry adjust overflow f =
     flag_if overflow EFLAGS_OF_U (result_flags w result
       (flag_if adjust EFLAGS_AF_U (flag_if carry EFLAGS_CF_U (f AND NOT V86_ARITHMETIC_FLAGS))))"

lemma alu_flag_bits:
  "bit (alu_flags w result c h v f) 0 \<longleftrightarrow> c" "bit (alu_flags w result c h v f) 6 \<longleftrightarrow> result = 0"
  "bit (alu_flags w result c h v f) 7 \<longleftrightarrow> result AND V86SignBit w \<noteq> 0" "bit (alu_flags w result c h v f) 11 \<longleftrightarrow> v"
  unfolding alu_flags_def result_flags_def bit_flag_if bit_mask_out by auto

lemma V86Subtract_exact:
  fixes first second :: u32
  assumes w: "operand_width w" and run: "V86Subtract first second c w cpu = (result, cpu')"
  defines "a \<equiv> unsigned_value w first" and "b \<equiv> unsigned_value w second"
  shows "uint result = (a - b - carry_in c) mod modulus w"
    and "bit (Flags cpu') 0 \<longleftrightarrow> a < b + carry_in c"
    and "bit (Flags cpu') 6 \<longleftrightarrow> result = 0"
    and "bit (Flags cpu') 7 \<longleftrightarrow> bit result (sign_position w)"
    and "bit (Flags cpu') 11 \<longleftrightarrow> bit (first AND V86Mask w) (sign_position w) \<noteq> bit (second AND V86Mask w) (sign_position w) \<and>
           bit (first AND V86Mask w) (sign_position w) \<noteq> bit result (sign_position w)"
proof -
  let ?a = "first AND V86Mask w" and ?b = "second AND V86Mask w"
  have ab: "uint ?a = a" "uint ?b = b" using w by (simp_all add: uint_masked a_def b_def)
  have r: "result = (?a - ?b - (if c then 1 else 0)) AND V86Mask w"
    using run by (simp add: V86Subtract_def Let_def)
  have "uint result = uint (?a - ?b - (if c then 1 else 0)) mod modulus w"
    by (simp add: r uint_masked [OF w] unsigned_value_def)
  also have "uint (?a - ?b - (if c then 1 else 0)) = (a - b - carry_in c) mod 2 ^ 32"
    by (simp add: carry_in_def ab uint_word_ariths mod_simps)
  also have "(a - b - carry_in c) mod 2 ^ 32 mod modulus w = (a - b - carry_in c) mod modulus w"
    using w by (auto simp: operand_width_def modulus_def mod_mod_cancel)
  finally show "uint result = (a - b - carry_in c) mod modulus w" .
  have flags: "Flags cpu' = alu_flags w result (if c then ?a \<le> ?b else ?a < ?b)
      ((?a XOR ?b XOR result) AND EFLAGS_AF_U \<noteq> 0) (((?a XOR ?b) AND (?a XOR result)) AND V86SignBit w \<noteq> 0) (Flags cpu)"
    using run by (auto simp: V86Subtract_def Let_def alu_flags_def and.assoc)
  show "bit (Flags cpu') 0 \<longleftrightarrow> a < b + carry_in c"
    unfolding flags alu_flag_bits by (simp add: ab carry_in_def word_less_def word_le_def)
  show "bit (Flags cpu') 6 \<longleftrightarrow> result = 0" "bit (Flags cpu') 7 \<longleftrightarrow> bit result (sign_position w)"
    unfolding flags alu_flag_bits using sign_bit_iff [OF w] by simp_all
  show "bit (Flags cpu') 11 \<longleftrightarrow> bit ?a (sign_position w) \<noteq> bit ?b (sign_position w) \<and> bit ?a (sign_position w) \<noteq> bit result (sign_position w)"
    unfolding flags alu_flag_bits sign_bit_iff [OF w] by (auto simp: bit_and_iff bit_xor_iff)
qed
lemma V86Add_exact:
  fixes first second :: u32
  assumes w: "operand_width w" and run: "V86Add first second c w cpu = (result, cpu')"
  defines "a \<equiv> unsigned_value w first" and "b \<equiv> unsigned_value w second"
  shows "uint result = (a + b + carry_in c) mod modulus w"
    and "bit (Flags cpu') 0 \<longleftrightarrow> modulus w \<le> a + b + carry_in c"
    and "bit (Flags cpu') 6 \<longleftrightarrow> result = 0"
    and "bit (Flags cpu') 7 \<longleftrightarrow> bit result (sign_position w)"
    and "bit (Flags cpu') 11 \<longleftrightarrow> bit (first AND V86Mask w) (sign_position w) = bit (second AND V86Mask w) (sign_position w) \<and>
           bit (first AND V86Mask w) (sign_position w) \<noteq> bit result (sign_position w)"
proof -
  let ?a = "first AND V86Mask w" and ?b = "second AND V86Mask w"
  let ?full = "?a + ?b + (if c then 1 else 0)"
  have ab: "uint ?a = a" "uint ?b = b" using w by (simp_all add: uint_masked a_def b_def)
  have r: "result = ?full AND V86Mask w"
    using run by (simp add: V86Add_def Let_def)
  have full: "uint ?full = (a + b + carry_in c) mod 2 ^ 32"
    by (simp add: carry_in_def ab uint_word_ariths mod_simps)
  have range: "0 \<le> a" "a < modulus w" "0 \<le> b" "b < modulus w"
    by (simp_all add: a_def b_def unsigned_range)
  have "uint result = uint ?full mod modulus w"
    by (simp add: r uint_masked [OF w] unsigned_value_def)
  also have "\<dots> = (a + b + carry_in c) mod modulus w"
    unfolding full using w by (auto simp: operand_width_def modulus_def mod_mod_cancel)
  finally show "uint result = (a + b + carry_in c) mod modulus w" .
  have flags: "Flags cpu' = alu_flags w result
      (if w = 4 then if c then ?full \<le> ?a else ?full < ?a else ?full > V86Mask w)
      ((?a XOR ?b XOR result) AND EFLAGS_AF_U \<noteq> 0) ((NOT (?a XOR ?b) AND (?a XOR result)) AND V86SignBit w \<noteq> 0) (Flags cpu)"
    using run by (auto simp: V86Add_def Let_def alu_flags_def and.assoc)
  have mask: "uint (V86Mask w) = modulus w - 1"
    using w by (auto simp: operand_width_def V86Mask_def modulus_def)
  show "bit (Flags cpu') 0 \<longleftrightarrow> modulus w \<le> a + b + carry_in c"
  proof (cases "w = 4")
    case True
    then have m: "modulus w = 2 ^ 32" by (simp add: modulus_def)
    show ?thesis
      unfolding flags alu_flag_bits word_less_def word_le_def full ab m
      using range [unfolded m] True by (cases c; cases "a + b + carry_in c < 2 ^ 32") (auto simp: m carry_in_def mod_pos_pos_trivial mod_wrap_up)
  next
    case False
    then have "modulus w \<le> 2 ^ 16" using w by (auto simp: operand_width_def modulus_def)
    then have "uint ?full = a + b + carry_in c"
      unfolding full using range by (intro mod_pos_pos_trivial) (auto simp: carry_in_def)
    then show ?thesis
      unfolding flags alu_flag_bits word_less_def using False by (auto simp: mask)
  qed
  show "bit (Flags cpu') 6 \<longleftrightarrow> result = 0" "bit (Flags cpu') 7 \<longleftrightarrow> bit result (sign_position w)"
    unfolding flags alu_flag_bits using sign_bit_iff [OF w] by simp_all
  have k: "sign_position w < 32" using w by (auto simp: operand_width_def sign_position_def)
  then show "bit (Flags cpu') 11 \<longleftrightarrow> bit ?a (sign_position w) = bit ?b (sign_position w) \<and> bit ?a (sign_position w) \<noteq> bit result (sign_position w)"
    unfolding flags alu_flag_bits sign_bit_iff [OF w] by (auto simp: bit_and_iff bit_xor_iff bit_not_iff)
qed

subsection \<open>Comparison\<close>

lemma masked_value_sign:
  "operand_width w \<Longrightarrow> bit (x AND V86Mask w) (sign_position w) \<longleftrightarrow> modulus w div 2 \<le> unsigned_value w x"
  using masked_sign_iff [of w "x AND V86Mask w"] by (simp add: uint_masked unsigned_range)

lemma modulus_halves: "operand_width w \<Longrightarrow> \<exists>h. modulus w = 2 * h \<and> modulus w div 2 = h \<and> 0 < h"
  by (erule operand_width_cases) (simp_all add: modulus_def)

lemma compare_flags:
  fixes first second :: u32 and cpu :: v86_cpu
  assumes w: "operand_width w"
  defines "cpu' \<equiv> snd (V86Alu 7 first second w cpu)"
  shows "bit (Flags cpu') 0 \<longleftrightarrow> unsigned_value w first < unsigned_value w second"
    and "bit (Flags cpu') 6 \<longleftrightarrow> unsigned_value w first = unsigned_value w second"
    and "bit (Flags cpu') 7 \<noteq> bit (Flags cpu') 11 \<longleftrightarrow> signed_value w first < signed_value w second"
    and "bit (Flags cpu') 11 \<longleftrightarrow>
           signed_value w first - signed_value w second \<notin> {- (modulus w div 2)..<modulus w div 2}"
proof -
  obtain result where run: "V86Subtract first second False w cpu = (result, cpu')"
    by (cases "V86Subtract first second False w cpu") (simp add: cpu'_def V86Alu_def)
  note exact = V86Subtract_exact [OF w run, unfolded carry_in_def, simplified]
  obtain h where h: "modulus w = 2 * h" "modulus w div 2 = h" "0 < h" using modulus_halves [OF w] by blast
  let ?a = "unsigned_value w first" and ?b = "unsigned_value w second"
  have range: "0 \<le> ?a" "?a < 2 * h" "0 \<le> ?b" "?b < 2 * h" using unsigned_range [of w] h(1) by metis+
  have r: "uint result = (if ?b \<le> ?a then ?a - ?b else ?a - ?b + 2 * h)"
    using range unfolding exact(1) h(1) by (auto simp: mod_pos_pos_trivial mod_wrap_down)
  have top: "bit result (sign_position w) \<longleftrightarrow> h \<le> uint result"
    using masked_sign_iff [OF w, of result] r range h by (auto split: if_splits)
  show "bit (Flags cpu') 0 \<longleftrightarrow> ?a < ?b" by (rule exact(2))
  show "bit (Flags cpu') 6 \<longleftrightarrow> ?a = ?b"
    using exact(3) r range by (auto simp: word_uint_eq_iff split: if_splits)
  show "bit (Flags cpu') 7 \<noteq> bit (Flags cpu') 11 \<longleftrightarrow> signed_value w first < signed_value w second"
    using range by (auto simp: exact(4,5) top masked_value_sign [OF w] r signed_value_def h)
  show "bit (Flags cpu') 11 \<longleftrightarrow> signed_value w first - signed_value w second \<notin> {- (modulus w div 2)..<modulus w div 2}"
    using range by (auto simp: exact(5) top masked_value_sign [OF w] r signed_value_def h)
qed
text \<open>
  C33. After a comparison (CMP of two operands of one, two or four bytes) every conditional jump reads
  the order it is named after: below, equal, below-or-equal and their negations the order of the
  unsigned values; less, less-or-equal and their negations the order of the two's complement values,
  also when the difference overflows; overflow says exactly that the signed difference does not fit.
\<close>

theorem v86_compare_orders:
  fixes first second :: u32 and cpu :: v86_cpu
  assumes w: "operand_width w"
  defines "after \<equiv> snd (V86Alu 7 first second w cpu)"
  shows "(V86Condition after 0x2 \<longleftrightarrow> unsigned_value w first < unsigned_value w second) \<and>
         (V86Condition after 0x3 \<longleftrightarrow> unsigned_value w second \<le> unsigned_value w first) \<and>
         (V86Condition after 0x4 \<longleftrightarrow> unsigned_value w first = unsigned_value w second) \<and>
         (V86Condition after 0x5 \<longleftrightarrow> unsigned_value w first \<noteq> unsigned_value w second) \<and>
         (V86Condition after 0x6 \<longleftrightarrow> unsigned_value w first \<le> unsigned_value w second) \<and>
         (V86Condition after 0x7 \<longleftrightarrow> unsigned_value w second < unsigned_value w first) \<and>
         (V86Condition after 0xC \<longleftrightarrow> signed_value w first < signed_value w second) \<and>
         (V86Condition after 0xD \<longleftrightarrow> signed_value w second \<le> signed_value w first) \<and>
         (V86Condition after 0xE \<longleftrightarrow> signed_value w first \<le> signed_value w second) \<and>
         (V86Condition after 0xF \<longleftrightarrow> signed_value w second < signed_value w first) \<and>
         (V86Condition after 0x0 \<longleftrightarrow>
            signed_value w first - signed_value w second \<notin> {- (modulus w div 2)..<modulus w div 2})"
proof -
  note flags = compare_flags [OF w, of first second cpu, folded after_def]
  have same: "unsigned_value w first = unsigned_value w second \<longleftrightarrow> signed_value w first = signed_value w second"
    using unsigned_range [of w first] unsigned_range [of w second] by (auto simp: signed_value_def split: if_splits)
  show ?thesis
    unfolding V86Condition_def Let_def flag_bits flags(1,2) using flags(3,4) same by auto
qed

theorem v86_compare_orders_witness:
  "V86Condition (snd (V86Alu 7 0x80 0x01 1 \<lparr>Registers = (\<lambda>_. 0), Segments = (\<lambda>_. 0), Ip = 0, Flags = 2\<rparr>)) 0xC"
  using v86_compare_orders [of 1 "0x80" "0x01"]
  by (simp add: operand_width_def signed_value_def unsigned_value_def modulus_def)

subsection \<open>Chains of additions\<close>

primrec alu_chain :: "nat \<Rightarrow> nat \<Rightarrow> (u32 \<times> u32) list \<Rightarrow> v86_cpu \<Rightarrow> u32 list \<times> v86_cpu" where
  \<comment> \<open>one operation over the digits of two numbers, the least first\<close>
  "alu_chain operation w [] cpu = ([], cpu)"
| "alu_chain operation w (p # ps) cpu =
     (let (r, cpu1) = V86Alu operation (fst p) (snd p) w cpu; (rs, cpu2) = alu_chain operation w ps cpu1 in (r # rs, cpu2))"

definition digits_value :: "nat \<Rightarrow> u32 list \<Rightarrow> int" where
  "digits_value w xs = foldr (\<lambda>x v. unsigned_value w x + modulus w * v) xs 0"

definition carry_of :: "v86_cpu \<Rightarrow> int" where
  "carry_of cpu = carry_in (has_flag EFLAGS_CF_U cpu)"

lemma digits_value_simps [simp]:
  "digits_value w [] = 0" "digits_value w (x # xs) = unsigned_value w x + modulus w * digits_value w xs"
  by (simp_all add: digits_value_def)

lemma adc_digit:
  assumes "operand_width w" "V86Alu 2 a b w cpu = (r, cpu')"
  shows "unsigned_value w r + modulus w * carry_of cpu' = unsigned_value w a + unsigned_value w b + carry_of cpu"
proof -
  have run: "V86Add a b (has_flag EFLAGS_CF_U cpu) w cpu = (r, cpu')"
    using assms(2) by (simp add: V86Alu_def has_flag_def)
  note exact = V86Add_exact [OF assms(1) run]
  let ?v = "unsigned_value w a + unsigned_value w b + carry_of cpu"
  have range: "0 \<le> ?v" "?v < 2 * modulus w"
    using unsigned_range [of w a] unsigned_range [of w b] by (auto simp: carry_of_def carry_in_def)
  have "carry_of cpu' = (if modulus w \<le> ?v then 1 else 0)"
    using exact(2) by (simp add: carry_of_def carry_in_def has_flag_def flag_bits)
  moreover have "unsigned_value w r = ?v mod modulus w"
    using exact(1) by (simp add: unsigned_value_def carry_of_def)
  ultimately show ?thesis using range by (simp add: mod_wrap_up mod_pos_pos_trivial)
qed

lemma sbb_digit:
  assumes "operand_width w" "V86Alu 3 a b w cpu = (r, cpu')"
  shows "unsigned_value w r - modulus w * carry_of cpu' = unsigned_value w a - unsigned_value w b - carry_of cpu"
proof -
  have run: "V86Subtract a b (has_flag EFLAGS_CF_U cpu) w cpu = (r, cpu')"
    using assms(2) by (simp add: V86Alu_def has_flag_def)
  note exact = V86Subtract_exact [OF assms(1) run]
  let ?v = "unsigned_value w a - unsigned_value w b - carry_of cpu"
  have range: "0 \<le> ?v + modulus w" "?v < modulus w"
    using unsigned_range [of w a] unsigned_range [of w b] by (auto simp: carry_of_def carry_in_def)
  have "carry_of cpu' = (if ?v < 0 then 1 else 0)"
    using exact(2) by (auto simp: carry_of_def carry_in_def has_flag_def flag_bits)
  moreover have "unsigned_value w r = ?v mod modulus w"
    using exact(1) by (simp add: unsigned_value_def carry_of_def)
  ultimately show ?thesis using range by (simp add: mod_wrap_down mod_pos_pos_trivial)
qed

lemma carry_step:
  fixes m :: int
  assumes "r + m * c1 = x" "v + p * c = s + c1"
  shows "(r + m * v) + m * p * c = x + m * s"
proof -
  have "m * (v + p * c) = m * (s + c1)" by (simp only: assms(2))
  with assms(1) show ?thesis by (simp add: algebra_simps)
qed

text \<open>
  Numbers of any length are added and subtracted exactly by a chain of ADC or SBB over their digits
  of one, two or four bytes, least first, from any carry: the digits stored and the carry left are the
  exact sum, and the exact difference with its borrow.
\<close>

theorem v86_chain_exact:
  assumes "operand_width w"
  shows "(alu_chain 2 w ps cpu = (rs, cpu') \<longrightarrow>
           digits_value w rs + modulus w ^ length ps * carry_of cpu' =
           digits_value w (map fst ps) + digits_value w (map snd ps) + carry_of cpu) \<and>
         (alu_chain 3 w ps cpu = (rs, cpu') \<longrightarrow>
           digits_value w rs - modulus w ^ length ps * carry_of cpu' =
           digits_value w (map fst ps) - digits_value w (map snd ps) - carry_of cpu)"
proof (induction ps arbitrary: cpu rs)
  case (Cons p ps)
  show ?case
  proof (intro conjI impI)
    assume "alu_chain 2 w (p # ps) cpu = (rs, cpu')"
    then obtain r rs' cpu1 where run: "V86Alu 2 (fst p) (snd p) w cpu = (r, cpu1)"
        "alu_chain 2 w ps cpu1 = (rs', cpu')" "rs = r # rs'"
      by (auto simp: Let_def split: prod.splits)
    have rest: "digits_value w rs' + modulus w ^ length ps * carry_of cpu' =
        digits_value w (map fst ps) + digits_value w (map snd ps) + carry_of cpu1"
      using Cons.IH run(2) by blast
    show "digits_value w rs + modulus w ^ length (p # ps) * carry_of cpu' =
        digits_value w (map fst (p # ps)) + digits_value w (map snd (p # ps)) + carry_of cpu"
      using carry_step [OF adc_digit [OF assms run(1)] rest] by (simp add: run(3) distrib_left)
  next
    assume "alu_chain 3 w (p # ps) cpu = (rs, cpu')"
    then obtain r rs' cpu1 where run: "V86Alu 3 (fst p) (snd p) w cpu = (r, cpu1)"
        "alu_chain 3 w ps cpu1 = (rs', cpu')" "rs = r # rs'"
      by (auto simp: Let_def split: prod.splits)
    have rest: "digits_value w rs' + modulus w ^ length ps * - carry_of cpu' =
        digits_value w (map fst ps) - digits_value w (map snd ps) + - carry_of cpu1"
      using Cons.IH run(2) by fastforce
    have digit: "unsigned_value w r + modulus w * - carry_of cpu1 =
        unsigned_value w (fst p) - unsigned_value w (snd p) - carry_of cpu"
      using sbb_digit [OF assms run(1)] by simp
    show "digits_value w rs - modulus w ^ length (p # ps) * carry_of cpu' =
        digits_value w (map fst (p # ps)) - digits_value w (map snd (p # ps)) - carry_of cpu"
      using carry_step [OF digit rest] by (simp add: run(3) right_diff_distrib)
  qed
qed simp


theorem v86_chain_exact_witness:
  "\<exists>cpu'. alu_chain 2 2 [(0xFFFF, 1), (0x1234, 0)] \<lparr>Registers = (\<lambda>_. 0), Segments = (\<lambda>_. 0), Ip = 0, Flags = 2\<rparr> =
      ([0, 0x1235], cpu') \<and> digits_value 2 [0, 0x1235] + modulus 2 ^ 2 * carry_of cpu' = 0x1234FFFF + 1"
proof -
  let ?cpu = "\<lparr>Registers = (\<lambda>_. 0), Segments = (\<lambda>_. 0), Ip = 0, Flags = 2\<rparr> :: v86_cpu"
  let ?ps = "[(0xFFFF, 1), (0x1234, 0)] :: (u32 \<times> u32) list"
  have "fst (alu_chain 2 2 ?ps ?cpu) = [0, 0x1235]" by code_simp
  then obtain cpu' where run: "alu_chain 2 2 ?ps ?cpu = ([0, 0x1235], cpu')" by (metis prod.collapse)
  have "digits_value 2 [0, 0x1235] + modulus 2 ^ length ?ps * carry_of cpu' =
      digits_value 2 (map fst ?ps) + digits_value 2 (map snd ?ps) + carry_of ?cpu"
    using v86_chain_exact [of 2 ?ps ?cpu "[0, 0x1235]" cpu'] run by (simp only: operand_width_def simp_thms)
  then show ?thesis
    using run by (simp add: unsigned_value_def modulus_def carry_of_def carry_in_def has_flag_def del: alu_chain.simps)
qed

end
