(* ===== verification/V86_Shift.thy ===== *)
theory V86_Shift
  imports V86_Alu
begin

text \<open>
  The shift unit of the interpreter: what the bit-by-bit loop of \<^verbatim>\<open>V86ShiftRotate\<close> computes in
  closed form, and the rotates as inverses of each other.
\<close>

subsection \<open>The loop of the shift unit\<close>

lemma bit_shifted_by_one:
  "bit ((v :: u32) * 2) n \<longleftrightarrow> 0 < n \<and> n < 32 \<and> bit v (n - 1)" "bit ((v :: u32) div 2) n \<longleftrightarrow> bit v (Suc n)"
  using bit_push_bit_iff [of 1 v n] by (auto simp: bit_Suc push_bit_eq_mult Suc_le_eq)

lemma bit_shift_once:
  assumes "operand_width w"
  defines "step \<equiv> \<lambda>operation. shift_once operation (V86Mask w) (V86SignBit w)"
  shows "bit (fst (step 0 (v, c))) n \<longleftrightarrow> n < 8 * w \<and> (if n = 0 then bit v (sign_position w) else bit v (n - 1))"
    and "bit (fst (step 1 (v, c))) n \<longleftrightarrow> n < 8 * w \<and> (if n = sign_position w \<and> bit v 0 then True else bit v (Suc n))"
    and "bit (fst (step 2 (v, c))) n \<longleftrightarrow> n < 8 * w \<and> (if n = 0 then c else bit v (n - 1))"
    and "bit (fst (step 3 (v, c))) n \<longleftrightarrow> n < 8 * w \<and> (if n = sign_position w \<and> c then True else bit v (Suc n))"
    and "bit (fst (step 4 (v, c))) n \<longleftrightarrow> n < 8 * w \<and> 0 < n \<and> bit v (n - 1)"
    and "bit (fst (step 5 (v, c))) n \<longleftrightarrow> n < 8 * w \<and> bit v (Suc n)"
    and "bit (fst (step 7 (v, c))) n \<longleftrightarrow> n < 8 * w \<and> (bit v (Suc n) \<or> n = sign_position w \<and> bit v n)"
    and "snd (step 0 (v, c)) = bit v (sign_position w)" "snd (step 1 (v, c)) = bit v 0"
    "snd (step 2 (v, c)) = bit v (sign_position w)" "snd (step 3 (v, c)) = bit v 0"
    "snd (step 4 (v, c)) = bit v (sign_position w)" "snd (step 5 (v, c)) = bit v 0" "snd (step 7 (v, c)) = bit v 0"
proof -
  have w: "8 * w \<le> 32" "0 < w" "sign_position w < 8 * w" using assms(1) by (auto simp: operand_width_def sign_position_def)
  note s = step_def shift_once_def Let_def V86Mask_mask [OF assms(1)] V86SignBit_exp [OF assms(1)]
  note b = bit_and_iff bit_or_iff bit_push_bit_iff bit_drop_bit_eq bit_mask_iff bit_exp_iff bit_1_iff
    and_exp_eq_0_iff_not_bit and_one_eq
  show "snd (step 0 (v, c)) = bit v (sign_position w)" "snd (step 1 (v, c)) = bit v 0"
    "snd (step 2 (v, c)) = bit v (sign_position w)" "snd (step 3 (v, c)) = bit v 0"
    "snd (step 4 (v, c)) = bit v (sign_position w)" "snd (step 5 (v, c)) = bit v 0" "snd (step 7 (v, c)) = bit v 0"
    by (simp_all add: s b bit_0 mod_2_eq_odd)
  show "bit (fst (step 0 (v, c))) n \<longleftrightarrow> n < 8 * w \<and> (if n = 0 then bit v (sign_position w) else bit v (n - 1))"
    "bit (fst (step 2 (v, c))) n \<longleftrightarrow> n < 8 * w \<and> (if n = 0 then c else bit v (n - 1))"
    "bit (fst (step 4 (v, c))) n \<longleftrightarrow> n < 8 * w \<and> 0 < n \<and> bit v (n - 1)"
    using w by (auto simp: s b bit_shifted_by_one Suc_le_eq)
  show "bit (fst (step 1 (v, c))) n \<longleftrightarrow> n < 8 * w \<and> (if n = sign_position w \<and> bit v 0 then True else bit v (Suc n))"
    "bit (fst (step 3 (v, c))) n \<longleftrightarrow> n < 8 * w \<and> (if n = sign_position w \<and> c then True else bit v (Suc n))"
    "bit (fst (step 5 (v, c))) n \<longleftrightarrow> n < 8 * w \<and> bit v (Suc n)"
    "bit (fst (step 7 (v, c))) n \<longleftrightarrow> n < 8 * w \<and> (bit v (Suc n) \<or> n = sign_position w \<and> bit v n)"
    using w by (auto simp: s b bit_shifted_by_one bit_0 mod_2_eq_odd)
qed
abbreviation shift_step :: "nat \<Rightarrow> nat \<Rightarrow> u32 \<times> bool \<Rightarrow> u32 \<times> bool" where
  "shift_step w operation \<equiv> shift_once operation (V86Mask w) (V86SignBit w)"

definition shift_count :: "u8 \<Rightarrow> nat" where
  "shift_count count = unat (count AND 0x1F)"

lemma V86ShiftRotate_loop:
  assumes "V86ShiftRotate operation v count w cpu = (r, cpu')"
  shows "(shift_step w operation ^^ shift_count count) (v AND V86Mask w, has_flag EFLAGS_CF_U cpu) =
      (r, has_flag EFLAGS_CF_U cpu')"
proof (cases "shift_count count = 0")
  case True
  then show ?thesis using assms by (auto simp: V86ShiftRotate_def shift_count_def Let_def)
next
  case False
  obtain u c where uc: "(shift_step w operation ^^ shift_count count) (v AND V86Mask w, has_flag EFLAGS_CF_U cpu) = (u, c)"
    by (metis surj_pair)
  have "bit (flag_if c EFLAGS_CF_U (Flags cpu AND NOT EFLAGS_CF_U)) 0 \<longleftrightarrow> c"
    unfolding bit_flag_if bit_mask_out by simp
  then show ?thesis
    using assms False uc
    unfolding V86ShiftRotate_def Let_def shift_count_def [symmetric] has_flag_def [symmetric] result_flags_def
    by (auto simp: has_flag_def flag_bits(1) bit_flag_if bit_and_iff split: if_splits)
qed

lemma masked_bit: "operand_width w \<Longrightarrow> bit (v AND V86Mask w) n \<longleftrightarrow> n < 8 * w \<and> bit v n"
  by (auto simp: V86Mask_mask bit_and_iff bit_mask_iff dest: bit_imp_le_length)

definition is_masked :: "nat \<Rightarrow> u32 \<Rightarrow> bool" where
  "is_masked w v \<longleftrightarrow> (\<forall>n. bit v n \<longrightarrow> n < 8 * w)"

lemma is_maskedI: "operand_width w \<Longrightarrow> is_masked w (v AND V86Mask w)"
  by (simp add: is_masked_def masked_bit)

lemma shift_step_masked:
  "operand_width w \<Longrightarrow> operation \<in> {0, 1, 2, 3, 4, 5, 7} \<Longrightarrow> is_masked w (fst (shift_step w operation x))"
  by (cases x) (auto simp: is_masked_def bit_shift_once simp del: One_nat_def)

lemma shift_loop_masked:
  "operand_width w \<Longrightarrow> operation \<in> {0, 1, 2, 3, 4, 5, 7} \<Longrightarrow> is_masked w v \<Longrightarrow>
   is_masked w (fst ((shift_step w operation ^^ n) (v, c)))"
  by (cases n) (auto simp: shift_step_masked simp del: One_nat_def)

lemma rotate_back:
  assumes w: "operand_width w" and "is_masked w v"
  shows "fst (shift_step w 1 (shift_step w 0 (v, c))) = v" "shift_step w 3 (shift_step w 2 (v, c)) = (v, c)"
proof -
  note b = bit_shift_once [OF w]
  have s: "sign_position w = 8 * w - 1" "0 < w" using w by (auto simp: sign_position_def operand_width_def)
  have shape: "(n < 8 * w \<and> (if n = sign_position w \<and> b0 then True else b1)) = bit v n"
    if "b1 \<longleftrightarrow> Suc n < 8 * w \<and> bit v n" "b0 \<longleftrightarrow> bit v (sign_position w)" for n b0 b1
  proof (cases "n = sign_position w")
    case True
    then have "Suc n = 8 * w" using s by simp
    then show ?thesis using that True by simp
  next
    case False
    then have "n < 8 * w \<Longrightarrow> Suc n < 8 * w" using s(1) by linarith
    moreover have "bit v n \<Longrightarrow> n < 8 * w" using assms(2) by (simp add: is_masked_def)
    ultimately show ?thesis using that(1) False by auto
  qed
  obtain u d where rol: "shift_step w 0 (v, c) = (u, d)" by (metis surj_pair)
  have "bit u 0 \<longleftrightarrow> bit v (sign_position w)" "bit u (Suc n) \<longleftrightarrow> Suc n < 8 * w \<and> bit v n" for n
    using b(1) [of v c 0] b(1) [of v c "Suc n"] s(2) unfolding rol by simp_all
  then have "(n < 8 * w \<and> (if n = sign_position w \<and> bit u 0 then True else bit u (Suc n))) = bit v n" for n
    by (intro shape) blast+
  then show "fst (shift_step w 1 (shift_step w 0 (v, c))) = v"
    unfolding rol word_eq_bits b(2) by blast
  obtain u d where rcl: "shift_step w 2 (v, c) = (u, d)" by (metis surj_pair)
  have d: "d = bit v (sign_position w)" using b(10) [of v c] rcl by simp
  have u: "bit u 0 \<longleftrightarrow> c" "bit u (Suc n) \<longleftrightarrow> Suc n < 8 * w \<and> bit v n" for n
    using b(3) [of v c 0] b(3) [of v c "Suc n"] s(2) unfolding rcl by simp_all
  have "(n < 8 * w \<and> (if n = sign_position w \<and> d then True else bit u (Suc n))) = bit v n" for n
    using u d by (intro shape) blast+
  then have "fst (shift_step w 3 (u, d)) = v"
    unfolding word_eq_bits b(4) by blast
  moreover have "snd (shift_step w 3 (u, d)) = c" by (simp only: b(11) u)
  ultimately show "shift_step w 3 (shift_step w 2 (v, c)) = (v, c)" unfolding rcl by (simp add: prod_eq_iff)
qed

lemma ror_ignores_carry: "fst ((shift_step w 1 ^^ n) (v, c)) = fst ((shift_step w 1 ^^ n) (v, c'))"
  by (induction n arbitrary: v c c') (auto simp: funpow_Suc_right shift_once_def Let_def simp del: funpow.simps)

lemma rotate_loop_back:
  assumes "operand_width w" "is_masked w v"
  shows "fst ((shift_step w 1 ^^ n) ((shift_step w 0 ^^ n) (v, c))) = v"
    and "(shift_step w 3 ^^ n) ((shift_step w 2 ^^ n) (v, c)) = (v, c)"
proof (induction n)
  case (Suc n)
  { case 1
    obtain u d where ud: "(shift_step w 0 ^^ n) (v, c) = (u, d)" by (metis surj_pair)
    with shift_loop_masked [OF assms(1) _ assms(2), of 0 n c] have "is_masked w u" by simp
    then have "fst (shift_step w 1 (shift_step w 0 (u, d))) = u" by (rule rotate_back(1) [OF assms(1)])
    then obtain e where "shift_step w 1 (shift_step w 0 (u, d)) = (u, e)" by (metis prod.collapse)
    then show ?case using Suc(1) ud ror_ignores_carry [of n w u e d] by (simp add: funpow_Suc_right [of n "shift_step w 1"] funpow_swap1 del: One_nat_def)
  next
    case 2
    obtain u d where ud: "(shift_step w 2 ^^ n) (v, c) = (u, d)" by (metis surj_pair)
    with shift_loop_masked [OF assms(1) _ assms(2), of 2 n c] have "is_masked w u" by simp
    then have "shift_step w 3 (shift_step w 2 (u, d)) = (u, d)" by (rule rotate_back(2) [OF assms(1)])
    then show ?case using Suc(2) ud by (simp add: funpow_Suc_right [of n "shift_step w 3"] funpow_swap1) }
qed simp_all
subsection \<open>Closed forms\<close>

lemma shift_loop_bits:
  assumes w: "operand_width w" and v: "is_masked w v"
  shows "bit (fst ((shift_step w 4 ^^ n) (v, c))) i \<longleftrightarrow> i < 8 * w \<and> n \<le> i \<and> bit v (i - n)"
    and "bit (fst ((shift_step w 5 ^^ n) (v, c))) i \<longleftrightarrow> bit v (i + n)"
    and "bit (fst ((shift_step w 7 ^^ n) (v, c))) i \<longleftrightarrow> i < 8 * w \<and> bit v (min (i + n) (sign_position w))"
proof (induction n arbitrary: i)
  case 0
  have s: "Suc (sign_position w) = 8 * w" using w by (auto simp: sign_position_def operand_width_def)
  have below: "bit v i \<Longrightarrow> i < 8 * w" for i using v by (simp add: is_masked_def)
  { case 1 show ?case using below [of i] by auto next
    case 2 show ?case by simp next
    case 3 show ?case using below [of i] s by (cases "i \<le> sign_position w") (auto simp: min_def) }
next
  case (Suc n)
  have s: "Suc (sign_position w) = 8 * w" using w by (auto simp: sign_position_def operand_width_def)
  have step: "(shift_step w k ^^ Suc n) (v, c) =
      shift_step w k (fst ((shift_step w k ^^ n) (v, c)), snd ((shift_step w k ^^ n) (v, c)))" for k by simp
  { case 1 show ?case unfolding step bit_shift_once [OF w] Suc(1) by (auto simp: Suc_le_eq) next
    case 2
    have "bit v (Suc i + n) \<Longrightarrow> i < 8 * w" using v by (auto simp: is_masked_def)
    then show ?case unfolding step bit_shift_once [OF w] Suc(2) by auto next
    case 3
    show ?case unfolding step bit_shift_once [OF w] Suc(3) using s
      by (cases "i < sign_position w"; cases "n = 0") (auto simp: min_def not_less Suc_le_eq le_Suc_eq) }
qed

lemma shift_loop_carry:
  assumes w: "operand_width w" and v: "is_masked w v"
  shows "snd ((shift_step w 4 ^^ Suc n) (v, c)) \<longleftrightarrow> n < 8 * w \<and> bit v (sign_position w - n)"
    and "snd ((shift_step w 5 ^^ Suc n) (v, c)) \<longleftrightarrow> bit v n"
    and "snd ((shift_step w 7 ^^ Suc n) (v, c)) \<longleftrightarrow> bit v (min n (sign_position w))"
proof -
  have step: "(shift_step w k ^^ Suc n) (v, c) =
      shift_step w k (fst ((shift_step w k ^^ n) (v, c)), snd ((shift_step w k ^^ n) (v, c)))" for k by simp
  have s: "Suc (sign_position w) = 8 * w" using w by (auto simp: sign_position_def operand_width_def)
  show "snd ((shift_step w 4 ^^ Suc n) (v, c)) \<longleftrightarrow> n < 8 * w \<and> bit v (sign_position w - n)"
    "snd ((shift_step w 5 ^^ Suc n) (v, c)) \<longleftrightarrow> bit v n"
    "snd ((shift_step w 7 ^^ Suc n) (v, c)) \<longleftrightarrow> bit v (min n (sign_position w))"
    unfolding step bit_shift_once [OF w] shift_loop_bits [OF w v] using s by auto
qed

lemma unsigned_value_bits: "operand_width w \<Longrightarrow> bit (unsigned_value w v) i \<longleftrightarrow> i < 8 * w \<and> bit v i"
  by (auto simp: unsigned_value_def modulus_def bit_take_bit_iff bit_uint_iff simp flip: take_bit_eq_mod
      dest: bit_imp_le_length)

lemma signed_value_take_bit:
  assumes "operand_width w"
  shows "signed_value w v = signed_take_bit (sign_position w) (unsigned_value w v)"
proof -
  let ?u = "unsigned_value w v" and ?h = "2 ^ sign_position w :: int"
  have m: "modulus w = 2 * ?h" "modulus w div 2 = ?h" "modulus w = 2 ^ Suc (sign_position w)"
    using assms by (auto simp: modulus_def sign_position_def operand_width_def)
  have "signed_take_bit (sign_position w) ?u = (?u + ?h) mod modulus w - ?h"
    by (simp only: signed_take_bit_eq_take_bit_shift take_bit_eq_mod m(3))
  moreover have "(?u + ?h) mod modulus w = (if ?u < ?h then ?u + ?h else ?u - ?h)"
    using unsigned_range [of w v] by (auto simp: m(1) mod_pos_pos_trivial mod_wrap_up)
  ultimately show ?thesis by (auto simp: signed_value_def m(1,2))
qed

lemma signed_value_bits:
  "operand_width w \<Longrightarrow> bit (signed_value w v) i \<longleftrightarrow> bit v (min (sign_position w) i)"
  by (auto simp: signed_value_take_bit bit_signed_take_bit_iff unsigned_value_bits sign_position_def operand_width_def min_def)

text \<open>
  C35. The shift unit's loop computes shifts: for a count below 32 (the count is taken modulo 32) SHL
  multiplies the unsigned value by a power of two modulo the width, SHR divides it, SAR divides the
  two's complement value rounding down, also for counts past the width, and the carry flag is the last
  bit shifted out; a zero count changes neither operand nor flags.
\<close>

theorem v86_shift_closed_forms:
  assumes w: "operand_width w" and run: "V86ShiftRotate operation v count w cpu = (r, cpu')"
  defines "n \<equiv> shift_count count"
  shows "(operation = 4 \<longrightarrow> unsigned_value w r = unsigned_value w v * 2 ^ n mod modulus w) \<and>
         (operation = 5 \<longrightarrow> unsigned_value w r = unsigned_value w v div 2 ^ n) \<and>
         (operation = 7 \<longrightarrow> signed_value w r = signed_value w v div 2 ^ n) \<and>
         (n = 0 \<longrightarrow> cpu' = cpu) \<and>
         (0 < n \<longrightarrow> operation = 4 \<longrightarrow> has_flag EFLAGS_CF_U cpu' = (n \<le> 8 * w \<and> bit (unsigned_value w v) (8 * w - n))) \<and>
         (0 < n \<longrightarrow> operation = 5 \<longrightarrow> has_flag EFLAGS_CF_U cpu' = bit (unsigned_value w v) (n - 1)) \<and>
         (0 < n \<longrightarrow> operation = 7 \<longrightarrow> has_flag EFLAGS_CF_U cpu' = bit (signed_value w v) (n - 1))"
proof -
  let ?v = "v AND V86Mask w" and ?cf = "has_flag EFLAGS_CF_U cpu"
  have masked: "is_masked w ?v" by (rule is_maskedI [OF w])
  have s: "Suc (sign_position w) = 8 * w" using w by (auto simp: sign_position_def operand_width_def)
  have loop: "(shift_step w operation ^^ n) (?v, ?cf) = (r, has_flag EFLAGS_CF_U cpu')"
    unfolding n_def by (rule V86ShiftRotate_loop [OF run])
  note bits = shift_loop_bits [OF w masked, of n ?cf]
  have results: "operation = 4 \<Longrightarrow> unsigned_value w r = unsigned_value w v * 2 ^ n mod modulus w"
      "operation = 5 \<Longrightarrow> unsigned_value w r = unsigned_value w v div 2 ^ n"
      "operation = 7 \<Longrightarrow> signed_value w r = signed_value w v div 2 ^ n"
  proof -
    assume operation: "operation = 4"
    have r: "bit r i \<longleftrightarrow> i < 8 * w \<and> n \<le> i \<and> bit ?v (i - n)" for i
      using bits(1) [of i] loop unfolding operation by simp
    have "unsigned_value w r = take_bit (8 * w) (push_bit n (unsigned_value w v))"
      by (rule bit_eqI) (auto simp: unsigned_value_bits [OF w] masked_bit [OF w] bit_take_bit_iff bit_push_bit_iff r)
    then show "unsigned_value w r = unsigned_value w v * 2 ^ n mod modulus w"
      by (simp add: take_bit_eq_mod push_bit_eq_mult modulus_def)
  next
    assume operation: "operation = 5"
    have r: "bit r i \<longleftrightarrow> bit ?v (i + n)" for i
      using bits(2) [of i] loop unfolding operation by simp
    have "unsigned_value w r = drop_bit n (unsigned_value w v)"
      by (rule bit_eqI) (auto simp: unsigned_value_bits [OF w] masked_bit [OF w] bit_drop_bit_eq r add.commute)
    then show "unsigned_value w r = unsigned_value w v div 2 ^ n"
      by (simp add: drop_bit_eq_div)
  next
    assume operation: "operation = 7"
    have r: "bit r i \<longleftrightarrow> i < 8 * w \<and> bit ?v (min (i + n) (sign_position w))" for i
      using bits(3) [of i] loop unfolding operation by simp
    have "signed_value w r = drop_bit n (signed_value w v)"
      by (rule bit_eqI) (use s in \<open>auto simp: signed_value_bits [OF w] masked_bit [OF w] bit_drop_bit_eq r add.commute min_def\<close>)
    then show "signed_value w r = signed_value w v div 2 ^ n"
      by (simp add: drop_bit_eq_div)
  qed
  have carries: "0 < n \<Longrightarrow> operation = 4 \<Longrightarrow> has_flag EFLAGS_CF_U cpu' = (n \<le> 8 * w \<and> bit (unsigned_value w v) (8 * w - n))"
      "0 < n \<Longrightarrow> operation = 5 \<Longrightarrow> has_flag EFLAGS_CF_U cpu' = bit (unsigned_value w v) (n - 1)"
      "0 < n \<Longrightarrow> operation = 7 \<Longrightarrow> has_flag EFLAGS_CF_U cpu' = bit (signed_value w v) (n - 1)"
    using shift_loop_carry [OF w masked, of "n - 1" ?cf] loop s
    by (auto simp: unsigned_value_bits [OF w] signed_value_bits [OF w] masked_bit [OF w] Suc_le_eq min_def)
  have "n = 0 \<Longrightarrow> cpu' = cpu" using run by (simp add: V86ShiftRotate_def n_def shift_count_def)
  with results carries show ?thesis by blast
qed
definition idle_cpu :: v86_cpu where
  "idle_cpu = \<lparr>Registers = (\<lambda>_. 0), Segments = (\<lambda>_. 0), Ip = 0, Flags = 2\<rparr>"

theorem v86_shift_closed_forms_witness:
  "\<exists>cpu'. V86ShiftRotate 7 0x84 3 1 idle_cpu = (0xF0, cpu') \<and> signed_value 1 0xF0 = -124 div 8 \<and> has_flag EFLAGS_CF_U cpu'"
proof -
  have "fst (V86ShiftRotate 7 0x84 3 1 idle_cpu) = 0xF0" by code_simp
  then obtain cpu' where run: "V86ShiftRotate 7 0x84 3 1 idle_cpu = (0xF0, cpu')" by (metis prod.collapse)
  from v86_shift_closed_forms [OF _ run] run show ?thesis
    by (simp add: operand_width_def shift_count_def signed_value_def unsigned_value_def modulus_def)
qed

text \<open>
  Rotating right undoes rotating left by the same count: ROR after ROL gives back the operand at its
  width, and RCR after RCL gives back the operand and the carry flag, for every count.
\<close>

theorem v86_rotate_round_trip:
  assumes "operand_width w"
  shows "(V86ShiftRotate 0 v count w cpu = (r, cpu1) \<and> V86ShiftRotate 1 r count w cpu1 = (r', cpu2)
            \<longrightarrow> r' = v AND V86Mask w) \<and>
         (V86ShiftRotate 2 v count w cpu = (r, cpu1) \<and> V86ShiftRotate 3 r count w cpu1 = (r', cpu2)
            \<longrightarrow> r' = v AND V86Mask w \<and> has_flag EFLAGS_CF_U cpu2 = has_flag EFLAGS_CF_U cpu)"
proof -
  let ?v = "v AND V86Mask w" and ?cf = "has_flag EFLAGS_CF_U cpu"
  have masked: "is_masked w ?v" by (rule is_maskedI [OF assms])
  have keep: "x AND V86Mask w = x" if "is_masked w x" for x
    using that by (auto simp: word_eq_bits masked_bit [OF assms] is_masked_def)
  have left: "is_masked w r" if "(shift_step w k ^^ shift_count count) (?v, ?cf) = (r, d)" "k \<in> {0, 2}" for k d
    using shift_loop_masked [OF assms _ masked, of k "shift_count count" ?cf] that by auto
  show ?thesis
    using V86ShiftRotate_loop [of _ v count w cpu r cpu1] V86ShiftRotate_loop [of _ r count w cpu1 r' cpu2]
      left keep rotate_loop_back [OF assms masked, of "shift_count count" ?cf] by (metis fst_conv insertCI prod.inject)
qed

theorem v86_rotate_round_trip_witness:
  "V86ShiftRotate 3 (fst (V86ShiftRotate 2 0x81 5 1 idle_cpu)) 5 1 (snd (V86ShiftRotate 2 0x81 5 1 idle_cpu)) =
     (0x81, snd (V86ShiftRotate 3 (fst (V86ShiftRotate 2 0x81 5 1 idle_cpu)) 5 1 (snd (V86ShiftRotate 2 0x81 5 1 idle_cpu))))"
  using v86_rotate_round_trip [of 1 "0x81" 5 idle_cpu "fst (V86ShiftRotate 2 0x81 5 1 idle_cpu)"
      "snd (V86ShiftRotate 2 0x81 5 1 idle_cpu)"]
  by (auto simp: operand_width_def V86Mask_def prod_eq_iff)

end
