(* ===== verification/V86_Multiply.thy ===== *)
theory V86_Multiply
  imports V86_Shift
begin

text \<open>
  The accumulator's multiplication and division over exact integers: the double-width value of AX, DX:AX
  or EDX:EAX, what division stores and when it refuses, and division as the inverse of multiplication.
\<close>

definition double_value :: "nat \<Rightarrow> v86_cpu \<Rightarrow> int" where
  \<comment> \<open>AX, DX:AX or EDX:EAX\<close>
  "double_value w cpu =
     (if w = 1 then uint (Registers cpu X86_REG_AX) mod 2 ^ 16
      else unsigned_value w (Registers cpu X86_REG_AX) + modulus w * unsigned_value w (Registers cpu X86_REG_DX))"

definition signed_double :: "nat \<Rightarrow> v86_cpu \<Rightarrow> int" where
  "signed_double w cpu =
     (if double_value w cpu < modulus w ^ 2 div 2 then double_value w cpu else double_value w cpu - modulus w ^ 2)"

definition signed_half :: "nat \<Rightarrow> int \<Rightarrow> int" where
  "signed_half w v = (if v < modulus w div 2 then v else v - modulus w)"

definition low_half :: "nat \<Rightarrow> v86_cpu \<Rightarrow> int" where
  \<comment> \<open>AL, AX or EAX: the quotient of a division\<close>
  "low_half w cpu = double_value w cpu mod modulus w"

definition high_half :: "nat \<Rightarrow> v86_cpu \<Rightarrow> int" where
  \<comment> \<open>AH, DX or EDX: the remainder of a division\<close>
  "high_half w cpu = double_value w cpu div modulus w"

lemma uint_and_mask:
  "uint ((x :: u32) AND 0xFF) = uint x mod 2 ^ 8" "uint (x AND 0xFFFF) = uint x mod 2 ^ 16"
  using uint_masked [of 1 x] uint_masked [of 2 x]
  by (simp_all add: operand_width_def V86Mask_def unsigned_value_def modulus_def)

lemma double_value_range:
  "operand_width w \<Longrightarrow> 0 \<le> double_value w cpu \<and> double_value w cpu < modulus w ^ 2"
  using unsigned_range [of w "Registers cpu X86_REG_AX"] unsigned_range [of w "Registers cpu X86_REG_DX"]
  by (auto simp: double_value_def operand_width_def modulus_def power2_eq_square)

lemma uint_join:
  fixes a d :: u64
  assumes "uint a < 2 ^ n" "uint d < 2 ^ (64 - n)" "n \<le> 64"
  shows "uint (push_bit n d OR a) = uint a + 2 ^ n * uint d"
proof -
  have "uint d * 2 ^ n < 2 ^ (64 - n) * 2 ^ n" using assms(2) by simp
  also have "\<dots> = (2 :: int) ^ 64" using assms(3) by (simp flip: power_add)
  finally have "take_bit 64 (push_bit n (uint d)) = push_bit n (uint d)"
    by (intro take_bit_int_eq_self) (auto simp: push_bit_eq_mult)
  moreover have "take_bit n (uint a) = uint a" using assms(1) by (simp add: take_bit_int_eq_self)
  ultimately have "uint (push_bit n d OR a) = concat_bit n (uint a) (uint d)"
    by (simp add: unsigned_or_eq unsigned_push_bit_eq concat_bit_def or.commute)
  then show ?thesis
    using assms(1) by (simp add: concat_bit_eq take_bit_int_eq_self push_bit_eq_mult)
qed

lemma uint_dividend:
  assumes "operand_width w"
  shows "uint (dividend_of w cpu) = double_value w cpu"
  using assms
proof (cases rule: operand_width_cases)
  case byte
  then show ?thesis by (simp add: dividend_of_def double_value_def uint_and_mask unsigned_ucast_eq take_bit_eq_mod)
next
  case word
  let ?a = "ucast (Registers cpu X86_REG_AX AND 0xFFFF) :: u64" and ?d = "ucast (Registers cpu X86_REG_DX AND 0xFFFF) :: u64"
  have "uint ?a = uint (Registers cpu X86_REG_AX) mod 2 ^ 16" "uint ?d = uint (Registers cpu X86_REG_DX) mod 2 ^ 16"
    by (simp_all add: unsigned_ucast_eq take_bit_eq_mod uint_and_mask)
  then show ?thesis
    using word uint_join [of ?a 16 ?d]
    by (simp add: dividend_of_def double_value_def unsigned_value_def modulus_def order.strict_trans [OF pos_mod_bound])
next
  case dword
  let ?a = "ucast (Registers cpu X86_REG_AX) :: u64" and ?d = "ucast (Registers cpu X86_REG_DX) :: u64"
  have "uint ?a = uint (Registers cpu X86_REG_AX)" "uint ?d = uint (Registers cpu X86_REG_DX)"
    "uint (Registers cpu X86_REG_AX) < 2 ^ 32" "uint (Registers cpu X86_REG_DX) < 2 ^ 32"
    using uint_bounded [of "Registers cpu X86_REG_AX"] uint_bounded [of "Registers cpu X86_REG_DX"]
    by (simp_all add: unsigned_ucast_eq take_bit_int_eq_self)
  then show ?thesis
    using dword uint_join [of ?a 32 ?d]
    by (simp add: dividend_of_def double_value_def unsigned_value_def modulus_def)
qed

lemma uint_set_low16:
  "uint (Registers (set_low16 r v cpu) r) mod 2 ^ 16 = uint v mod 2 ^ 16"
  "r \<noteq> q \<Longrightarrow> Registers (set_low16 r v cpu) q = Registers cpu q"
proof -
  have low: "((x AND HIGH_WORD_MASK_U) OR (v AND 0xFFFF)) AND 0xFFFF = v AND 0xFFFF" for x
    by (simp add: bit.conj_disj_distrib2 and.assoc)
  have "Registers (set_low16 r v cpu) r = (Registers cpu r AND HIGH_WORD_MASK_U) OR (v AND 0xFFFF)"
    by (simp add: set_low16_def set_register32_def)
  then show "uint (Registers (set_low16 r v cpu) r) mod 2 ^ 16 = uint v mod 2 ^ 16"
    unfolding uint_and_mask(2) [symmetric] by (simp only: low)
qed (simp add: set_low16_def set_register32_def)

lemma unsigned_value_take_bit: "unsigned_value w x = take_bit (8 * w) (uint x)"
  by (simp add: unsigned_value_def modulus_def take_bit_eq_mod)

lemma sint_ucast_value:
  "sint (ucast x :: u8) = signed_value 1 x" "sint (ucast x :: u16) = signed_value 2 x" "sint x = signed_value 4 x"
  by (simp_all add: signed_value_take_bit operand_width_def sign_position_def unsigned_value_take_bit sint_uint
      unsigned_ucast_eq signed_take_bit_take_bit)

lemma uint_ucast_value:
  "uint (ucast (ucast x :: u8) :: u32) = unsigned_value 1 x" "uint (ucast (ucast x :: u16) :: u32) = unsigned_value 2 x"
  "uint (ucast x :: u64) = unsigned_value 4 x"
proof -
  have "take_bit 64 (uint x) = uint x" "take_bit 32 (uint x) = uint x"
    using uint_bounded [of x] by (simp_all add: take_bit_int_eq_self)
  then show "uint (ucast x :: u64) = unsigned_value 4 x"
    by (simp add: unsigned_value_take_bit unsigned_ucast_eq)
qed (simp_all add: unsigned_value_take_bit unsigned_ucast_eq unsigned_take_bit_eq)

lemma uint_product:
  "uint (word_of_int k :: 'a::len word) = k mod 2 ^ LENGTH('a)"
  "uint (a * b :: 'a word) = uint a * uint b mod 2 ^ LENGTH('a)"
  by (simp_all add: uint_word_of_int uint_word_ariths)

lemma uint_halves:
  "uint (p :: u32) mod 2 ^ 16 + 2 ^ 16 * (uint (drop_bit 16 p) mod 2 ^ 16) = uint p"
  "uint (q :: u64) mod 2 ^ 32 + 2 ^ 32 * (uint (drop_bit 32 q) mod 2 ^ 32) = uint q"
proof -
  have "uint p div 2 ^ 16 mod 2 ^ 16 = uint p div 2 ^ 16" "uint q div 2 ^ 32 mod 2 ^ 32 = uint q div 2 ^ 32"
    using uint_bounded [of p] uint_bounded [of q] by (intro mod_pos_pos_trivial; simp add: div_int_pos_iff)+
  then show "uint p mod 2 ^ 16 + 2 ^ 16 * (uint (drop_bit 16 p) mod 2 ^ 16) = uint p"
    "uint q mod 2 ^ 32 + 2 ^ 32 * (uint (drop_bit 32 q) mod 2 ^ 32) = uint q"
    unfolding unsigned_drop_bit_eq by (simp_all add: drop_bit_eq_div take_bit_int_eq_self)
qed

lemma uint_ucast_low: "uint (ucast (q :: u64) :: u32) mod 2 ^ 32 = uint q mod 2 ^ 32"
  by (simp add: unsigned_ucast_eq take_bit_eq_mod)

definition factor :: "bool \<Rightarrow> nat \<Rightarrow> u32 \<Rightarrow> int" where
  "factor isSigned w x = (if isSigned then signed_value w x else unsigned_value w x)"

lemma double_value_multiply:
  assumes "operand_width w"
  shows "double_value w (V86Multiply isSigned operand w cpu) =
    factor isSigned w (Registers cpu X86_REG_AX) * factor isSigned w operand mod modulus w ^ 2"
  using assms
proof (cases rule: operand_width_cases)
  case byte
  let ?al = "ucast (Registers cpu X86_REG_AX) :: u8" and ?e = "ucast operand :: u8"
  let ?p = "if isSigned then word_of_int (sint ?al * sint ?e) AND 0xFFFF else ucast ?al * ucast ?e :: u32"
  have reg: "Registers (V86Multiply isSigned operand 1 cpu) X86_REG_AX = Registers (set_low16 X86_REG_AX ?p cpu) X86_REG_AX"
    by (simp add: V86Multiply_def Let_def set_flags_def)
  have "double_value 1 (V86Multiply isSigned operand 1 cpu) = uint ?p mod 2 ^ 16"
    unfolding double_value_def reg by (simp only: refl if_True uint_set_low16)
  also have "\<dots> = factor isSigned 1 (Registers cpu X86_REG_AX) * factor isSigned 1 operand mod 2 ^ 16"
    unfolding factor_def sint_ucast_value(1) [symmetric] uint_ucast_value(1) [symmetric] if_distrib [of uint] uint_and_mask uint_product
    by (auto simp: mod_mod_cancel)
  finally show ?thesis by (simp add: byte modulus_def)
next
  case word
  let ?ax = "ucast (Registers cpu X86_REG_AX) :: u16" and ?e = "ucast operand :: u16"
  let ?p = "if isSigned then word_of_int (sint ?ax * sint ?e) else ucast ?ax * ucast ?e :: u32"
  have "Registers (V86Multiply isSigned operand 2 cpu) X86_REG_AX = Registers (set_low16 X86_REG_AX ?p cpu) X86_REG_AX"
    "Registers (V86Multiply isSigned operand 2 cpu) X86_REG_DX =
      Registers (set_low16 X86_REG_DX (drop_bit 16 ?p) (set_low16 X86_REG_AX ?p cpu)) X86_REG_DX"
    by (simp_all add: V86Multiply_def Let_def set_flags_def uint_set_low16)
  note reg = this
  have m: "modulus 2 = 2 ^ 16" by (simp add: modulus_def)
  have "double_value 2 (V86Multiply isSigned operand 2 cpu) = uint ?p mod 2 ^ 16 + 2 ^ 16 * (uint (drop_bit 16 ?p) mod 2 ^ 16)"
    unfolding double_value_def unsigned_value_def reg m uint_set_low16 by simp
  also have "\<dots> = uint ?p" by (rule uint_halves)
  also have "\<dots> = factor isSigned 2 (Registers cpu X86_REG_AX) * factor isSigned 2 operand mod 2 ^ 32"
    unfolding factor_def sint_ucast_value(2) [symmetric] uint_ucast_value(2) [symmetric] if_distrib [of uint] uint_product by simp
  finally show ?thesis by (simp add: word modulus_def)
next
  case dword
  let ?eax = "Registers cpu X86_REG_AX"
  let ?p = "if isSigned then word_of_int (sint ?eax * sint operand) else ucast ?eax * ucast operand :: u64"
  have reg: "Registers (V86Multiply isSigned operand 4 cpu) X86_REG_AX = ucast ?p"
    "Registers (V86Multiply isSigned operand 4 cpu) X86_REG_DX = ucast (drop_bit 32 ?p)"
    by (simp_all add: V86Multiply_def Let_def set_flags_def set_register32_def)
  have m: "modulus 4 = 2 ^ 32" by (simp add: modulus_def)
  have "double_value 4 (V86Multiply isSigned operand 4 cpu) = uint ?p mod 2 ^ 32 + 2 ^ 32 * (uint (drop_bit 32 ?p) mod 2 ^ 32)"
    unfolding double_value_def unsigned_value_def reg m uint_ucast_low by simp
  also have "\<dots> = uint ?p" by (rule uint_halves)
  also have "\<dots> = factor isSigned 4 ?eax * factor isSigned 4 operand mod 2 ^ 64"
    unfolding factor_def sint_ucast_value(3) [symmetric] uint_ucast_value(3) [symmetric] if_distrib [of uint] uint_product by simp
  finally show ?thesis by (simp add: dword modulus_def)
qed
subsection \<open>Division\<close>

lemma uint_masked_byte:
  "uint ((x AND HIGH_WORD_MASK_U) OR (q AND 0xFF) OR push_bit 8 (r AND 0xFF)) mod 2 ^ 16 =
   uint (q :: u32) mod 2 ^ 8 + 2 ^ 8 * (uint (r :: u32) mod 2 ^ 8)"
proof -
  let ?j = "(q AND 0xFF) OR push_bit 8 (r AND 0xFF)"
  have j: "?j = take_bit 8 q OR push_bit 8 (take_bit 8 r)"
    by (simp add: take_bit_eq_mask mask_eq_exp_minus_1)
  have "take_bit 16 ?j = ?j"
    unfolding j by (rule bit_word_eqI) (auto simp: bit_simps)
  then have "?j AND 0xFFFF = ?j" by (simp add: take_bit_eq_mask mask_eq_exp_minus_1)
  moreover have "((x AND HIGH_WORD_MASK_U) OR ?j) AND 0xFFFF = ?j AND 0xFFFF"
    by (simp add: bit.conj_disj_distrib2 and.assoc)
  ultimately have "uint ((x AND HIGH_WORD_MASK_U) OR ?j) mod 2 ^ 16 = uint ?j"
    unfolding uint_and_mask(2) [symmetric] by simp
  also have "uint ?j = concat_bit 8 (uint q) (take_bit 8 (uint r))"
    unfolding j by (rule bit_eqI) (auto simp: bit_simps concat_bit_def)
  finally show ?thesis by (simp add: concat_bit_eq take_bit_eq_mod push_bit_eq_mult)
qed

lemma double_value_store:
  assumes "operand_width w"
  shows "double_value w (store_division w q r cpu) = q mod modulus w + modulus w * (r mod modulus w)"
  using assms
proof (cases rule: operand_width_cases)
  case byte
  let ?x = "Registers cpu X86_REG_AX"
  have "Registers (store_division 1 q r cpu) X86_REG_AX =
      (?x AND HIGH_WORD_MASK_U) OR (word_of_int q AND 0xFF) OR push_bit 8 (word_of_int r AND 0xFF)"
    by (simp add: store_division_def Let_def set_register32_def)
  then have "double_value 1 (store_division 1 q r cpu) =
      uint (word_of_int q :: u32) mod 2 ^ 8 + 2 ^ 8 * (uint (word_of_int r :: u32) mod 2 ^ 8)"
    unfolding double_value_def by (simp only: refl if_True uint_masked_byte)
  then show ?thesis by (simp add: byte modulus_def uint_word_of_int mod_mod_cancel)
next
  case word
  have m: "modulus 2 = 2 ^ 16" by (simp add: modulus_def)
  have reg: "Registers (store_division 2 q r cpu) X86_REG_AX = Registers (set_low16 X86_REG_AX (word_of_int q) cpu) X86_REG_AX"
    "Registers (store_division 2 q r cpu) X86_REG_DX =
      Registers (set_low16 X86_REG_DX (word_of_int r) (set_low16 X86_REG_AX (word_of_int q) cpu)) X86_REG_DX"
    by (simp_all add: store_division_def Let_def uint_set_low16)
  have "double_value 2 (store_division 2 q r cpu) =
      uint (word_of_int q :: u32) mod 2 ^ 16 + 2 ^ 16 * (uint (word_of_int r :: u32) mod 2 ^ 16)"
    unfolding double_value_def unsigned_value_def reg m uint_set_low16 by simp
  then show ?thesis by (simp add: word modulus_def uint_word_of_int mod_mod_cancel)
next
  case dword
  then show ?thesis
    by (simp add: double_value_def store_division_def Let_def set_register32_def unsigned_value_def modulus_def uint_word_of_int)
qed

lemma halves_store:
  assumes "operand_width w"
  shows "low_half w (store_division w q r cpu) = q mod modulus w" "high_half w (store_division w q r cpu) = r mod modulus w"
proof -
  have "0 < modulus w" using unsigned_range [of w 0] by linarith
  then show "low_half w (store_division w q r cpu) = q mod modulus w"
    "high_half w (store_division w q r cpu) = r mod modulus w"
    by (simp_all add: low_half_def high_half_def double_value_store [OF assms])
qed
lemma signed_take_bit_wrap:
  fixes u :: int
  assumes "0 \<le> u" "u < 2 ^ Suc k"
  shows "signed_take_bit k u = (if u < 2 ^ k then u else u - 2 ^ Suc k)"
proof -
  have "(u + 2 ^ k) mod 2 ^ Suc k = (if u < 2 ^ k then u + 2 ^ k else u - 2 ^ k)"
    using assms by (auto simp: mod_pos_pos_trivial mod_wrap_up)
  then show ?thesis by (simp only: signed_take_bit_eq_take_bit_shift take_bit_eq_mod) auto
qed

lemma division_operands:
  assumes "operand_width w"
  shows "signed_dividend w (dividend_of w cpu) = signed_double w cpu" "signed_divisor w operand = signed_value w operand"
    "int (unat (dividend_of w cpu)) = double_value w cpu" "int (unat (operand AND V86Mask w)) = unsigned_value w operand"
proof -
  have range: "0 \<le> double_value w cpu" "double_value w cpu < modulus w ^ 2" using double_value_range [OF assms] by simp_all
  show "int (unat (dividend_of w cpu)) = double_value w cpu" "int (unat (operand AND V86Mask w)) = unsigned_value w operand"
    using uint_dividend [OF assms, of cpu] uint_masked [OF assms] by (simp_all add: unsigned_of_nat)
  show "signed_divisor w operand = signed_value w operand"
    using assms by (auto simp: operand_width_def signed_divisor_def sint_ucast_value)
  show "signed_dividend w (dividend_of w cpu) = signed_double w cpu"
    using assms
  proof (cases rule: operand_width_cases)
    case byte
    then show ?thesis
      using signed_take_bit_wrap [of "double_value 1 cpu" 15] range uint_dividend [OF assms, of cpu]
      by (simp add: signed_dividend_def sint_uint unsigned_ucast_eq signed_take_bit_take_bit signed_double_def modulus_def)
  next
    case word
    then show ?thesis
      using signed_take_bit_wrap [of "double_value 2 cpu" 31] range uint_dividend [OF assms, of cpu]
      by (simp add: signed_dividend_def sint_uint unsigned_ucast_eq signed_take_bit_take_bit signed_double_def modulus_def)
  next
    case dword
    then show ?thesis
      using signed_take_bit_wrap [of "double_value 4 cpu" 63] range uint_dividend [OF assms, of cpu]
      by (simp add: signed_dividend_def sint_uint signed_double_def modulus_def)
  qed
qed

lemma modulus_bits:
  assumes "operand_width w"
  shows "2 ^ (w * 8) = modulus w" "2 ^ (w * 8 - 1) = modulus w div 2" "2 ^ (2 * (w * 8) - 1) = modulus w ^ 2 div 2"
  using assms by (auto simp: operand_width_def modulus_def)

lemma signed_half_mod:
  assumes "operand_width w" "- (modulus w div 2) \<le> v" "v < modulus w div 2"
  shows "signed_half w (v mod modulus w) = v"
proof -
  obtain h where h: "modulus w = 2 * h" "modulus w div 2 = h" "0 < h" using modulus_halves [OF assms(1)] by blast
  have "v mod modulus w = (if 0 \<le> v then v else v + modulus w)"
    using assms h by (auto simp: mod_pos_pos_trivial mod_wrap_down)
  then show ?thesis using assms(2,3) h by (auto simp: signed_half_def)
qed

text \<open>
  C36. Division of AX, DX:AX or EDX:EAX by an operand that is not zero: DIV stores quotient and remainder
  of the exact values when the quotient fits, and otherwise is declined with nothing changed (the
  processor's divide error); IDIV does so for two's complement values, truncating towards zero, except
  for the most negative double-width dividend and the divisor -1, where the C division is undefined.
\<close>

theorem v86_divide_contract:
  fixes operand :: u32 and cpu :: v86_cpu
  assumes w: "operand_width w" and nonzero: "unsigned_value w operand \<noteq> 0"
  defines "n \<equiv> double_value w cpu" and "d \<equiv> unsigned_value w operand"
    and "n' \<equiv> signed_double w cpu" and "d' \<equiv> signed_value w operand"
  shows "(case V86Divide False operand w cpu of (outcome, cpu') \<Rightarrow>
            if n div d < modulus w
            then outcome = Modelled \<and> low_half w cpu' = n div d \<and> high_half w cpu' = n mod d
            else outcome = Declined \<and> cpu' = cpu) \<and>
         (case V86Divide True operand w cpu of (outcome, cpu') \<Rightarrow>
            if w \<noteq> 1 \<and> n' = - (modulus w ^ 2 div 2) \<and> d' = - 1 then outcome = Undefined \<and> cpu' = cpu
            else if - (modulus w div 2) \<le> n' sdiv d' \<and> n' sdiv d' < modulus w div 2
            then outcome = Modelled \<and> signed_half w (low_half w cpu') = n' sdiv d' \<and>
                 signed_half w (high_half w cpu') = n' smod d'
            else outcome = Declined \<and> cpu' = cpu)"
proof -
  have m: "0 < modulus w" "d < modulus w" "0 < d"
    using unsigned_range [of w operand] nonzero by (auto simp: d_def)
  have n: "0 \<le> n" using double_value_range [OF w] by (simp add: n_def)
  have "n mod d < modulus w" using m by (meson pos_mod_bound order.strict_trans)
  then have unsigned: "n div d < modulus w \<Longrightarrow> n div d mod modulus w = n div d" "n mod d mod modulus w = n mod d"
    using m n by (simp_all add: mod_pos_pos_trivial pos_imp_zdiv_nonneg_iff)
  have d': "d' \<noteq> 0" "\<bar>d'\<bar> \<le> modulus w div 2"
    using m modulus_halves [OF w] by (auto simp: d'_def signed_value_def d_def)
  have "n' smod d' \<in> {- \<bar>d'\<bar> + 1..\<bar>d'\<bar> - 1}" using d'(1) by (rule smod_int_range)
  then have r: "- (modulus w div 2) \<le> n' smod d'" "n' smod d' < modulus w div 2" using d'(2) by auto
  have unsigned_case: "case V86Divide False operand w cpu of (outcome, cpu') \<Rightarrow>
      if n div d < modulus w
      then outcome = Modelled \<and> low_half w cpu' = n div d \<and> high_half w cpu' = n mod d
      else outcome = Declined \<and> cpu' = cpu"
    using unsigned by (auto simp: V86Divide_def Let_def uint_dividend [OF w] uint_masked [OF w] modulus_bits [OF w] halves_store [OF w]
        simp flip: n_def d_def)
  have idiv: "V86Divide True operand w cpu =
      (if w \<noteq> 1 \<and> n' = - (modulus w ^ 2 div 2) \<and> d' = - 1 then (Undefined, cpu)
       else if n' sdiv d' > modulus w div 2 - 1 \<or> n' sdiv d' < - (modulus w div 2) then (Declined, cpu)
       else (Modelled, store_division w (n' sdiv d') (n' smod d') cpu))"
    unfolding V86Divide_def Let_def division_operands(1,2) [OF w] modulus_bits [OF w] n'_def d'_def by simp
  have "signed_half w (n' smod d' mod modulus w) = n' smod d'" by (rule signed_half_mod [OF w r])
  with idiv have "case V86Divide True operand w cpu of (outcome, cpu') \<Rightarrow>
      if w \<noteq> 1 \<and> n' = - (modulus w ^ 2 div 2) \<and> d' = - 1 then outcome = Undefined \<and> cpu' = cpu
      else if - (modulus w div 2) \<le> n' sdiv d' \<and> n' sdiv d' < modulus w div 2
      then outcome = Modelled \<and> signed_half w (low_half w cpu') = n' sdiv d' \<and>
           signed_half w (high_half w cpu') = n' smod d'
      else outcome = Declined \<and> cpu' = cpu"
    using signed_half_mod [OF w, of "n' sdiv d'"] by (simp add: halves_store [OF w])
  with unsigned_case show ?thesis by blast
qed
theorem v86_divide_contract_witness:
  "let cpu = idle_cpu\<lparr>Registers := (\<lambda>_. 0)(X86_REG_AX := 0xFF9C)\<rparr>; cpu' = snd (V86Divide True 7 1 cpu)
   in signed_double 1 cpu = -100 \<and> signed_half 1 (low_half 1 cpu') = -14 \<and> signed_half 1 (high_half 1 cpu') = -2"
proof -
  let ?cpu = "idle_cpu\<lparr>Registers := (\<lambda>_. 0)(X86_REG_AX := 0xFF9C)\<rparr>"
  have "(-100 :: int) sdiv 7 = -14" "(-100 :: int) smod 7 = -2" by (simp_all add: signed_divide_int_def signed_modulo_int_def)
  moreover have "signed_double 1 ?cpu = -100" "signed_value 1 7 = 7" "unsigned_value 1 7 = 7"
    by (simp_all add: signed_double_def double_value_def modulus_def signed_value_def unsigned_value_def)
  ultimately show ?thesis
    using v86_divide_contract [of 1 7 ?cpu] by (simp add: operand_width_def modulus_def Let_def split_beta)
qed

subsection \<open>Division undoes multiplication\<close>

lemma signed_value_range:
  assumes "operand_width w"
  shows "- (modulus w div 2) \<le> signed_value w x" "signed_value w x < modulus w div 2"
  using unsigned_range [of w x] modulus_halves [OF assms] by (auto simp: signed_value_def)

lemma signed_value_mod: "signed_value w x mod modulus w = unsigned_value w x"
  using unsigned_range [of w x] by (simp add: signed_value_def mod_pos_pos_trivial)

lemma product_range:
  fixes a b h :: int
  assumes "- h \<le> a" "a < h" "- h \<le> b" "b < h"
  shows "\<bar>a * b\<bar> \<le> h ^ 2"
proof -
  have "\<bar>a\<bar> \<le> h" "\<bar>b\<bar> \<le> h" using assms by auto
  then have "\<bar>a\<bar> * \<bar>b\<bar> \<le> h * h" by (intro mult_mono) auto
  then show ?thesis by (simp add: abs_mult power2_eq_square)
qed

lemma signed_double_multiply:
  assumes "operand_width w"
  shows "signed_double w (V86Multiply True operand w cpu) = signed_value w (Registers cpu X86_REG_AX) * signed_value w operand"
proof -
  let ?p = "signed_value w (Registers cpu X86_REG_AX) * signed_value w operand"
  obtain h where h: "modulus w = 2 * h" "modulus w div 2 = h" "0 < h" using modulus_halves [OF assms] by blast
  have "\<bar>?p\<bar> \<le> h ^ 2"
    using signed_value_range [OF assms] by (intro product_range) (simp_all add: h)
  moreover have half: "modulus w ^ 2 = 2 * (modulus w ^ 2 div 2)" "modulus w ^ 2 div 2 = 2 * h ^ 2"
    by (simp_all add: h(1) power_mult_distrib)
  moreover have "0 < h ^ 2" using h(3) by simp
  ultimately have bounds: "?p < modulus w ^ 2 div 2" "0 < ?p + modulus w ^ 2 div 2" "0 < modulus w ^ 2 div 2"
    by linarith+
  have "double_value w (V86Multiply True operand w cpu) = ?p mod modulus w ^ 2"
    using double_value_multiply [OF assms, of True] by (simp add: factor_def)
  also have "?p mod modulus w ^ 2 = (if 0 \<le> ?p then ?p else ?p + modulus w ^ 2)"
    using bounds half(1) by (auto intro: mod_pos_pos_trivial mod_wrap_down)
  finally show ?thesis using bounds half(1) by (simp add: signed_double_def)
qed

lemma low_half_accumulator: "operand_width w \<Longrightarrow> low_half w cpu = unsigned_value w (Registers cpu X86_REG_AX)"
  by (auto simp: operand_width_def low_half_def double_value_def unsigned_value_def modulus_def mod_mod_cancel)

lemma signed_half_back: "0 \<le> v \<Longrightarrow> v < modulus w \<Longrightarrow> signed_half w v mod modulus w = v"
  by (simp add: signed_half_def mod_pos_pos_trivial)

lemma div_below:
  fixes m x :: int
  assumes "0 < m" "x < m * m"
  shows "x div m < m"
proof (rule ccontr)
  assume "\<not> x div m < m"
  then have "m * m \<le> x div m * m" using assms(1) by (intro mult_right_mono) auto
  also have "\<dots> \<le> x" using div_mult_mod_eq [of x m] pos_mod_sign [OF assms(1), of x] by linarith
  finally show False using assms(2) by simp
qed

lemma halves_range:
  assumes "operand_width w"
  shows "0 \<le> low_half w cpu" "low_half w cpu < modulus w" "0 \<le> high_half w cpu" "high_half w cpu < modulus w"
proof -
  have m: "0 < modulus w" using unsigned_range [of w 0] by linarith
  then show "0 \<le> low_half w cpu" "low_half w cpu < modulus w" by (simp_all add: low_half_def)
  show "0 \<le> high_half w cpu" "high_half w cpu < modulus w"
    using double_value_range [OF assms, of cpu] m
    by (simp_all add: high_half_def pos_imp_zdiv_nonneg_iff power2_eq_square div_below)
qed

lemma signed_product_division:
  fixes a b :: int
  assumes "b \<noteq> 0"
  shows "(a * b) sdiv b = a" "(a * b) smod b = 0"
proof -
  have "sgn b * sgn b = 1" using assms by (simp add: sgn_if)
  then have "sgn (a * b) * sgn b = sgn a" by (simp add: sgn_mult mult.assoc)
  then show "(a * b) sdiv b = a"
    using assms by (simp add: signed_divide_int_def abs_mult) (simp add: sgn_mult_abs)
  show "(a * b) smod b = 0" by (simp add: signed_modulo_int_def abs_mult)
qed

text \<open>
  Multiplying the accumulator by an operand and dividing the double-width product by the same operand
  is never refused and gives the accumulator back with no remainder, for MUL with DIV and for IMUL with
  IDIV, at every width and for every operand that is not zero.
\<close>

theorem v86_multiply_divide_back:
  fixes operand :: u32 and cpu :: v86_cpu
  assumes w: "operand_width w" and nonzero: "unsigned_value w operand \<noteq> 0"
    and run: "V86Divide isSigned operand w (V86Multiply isSigned operand w cpu) = (outcome, cpu')"
  shows "outcome = Modelled \<and> low_half w cpu' = unsigned_value w (Registers cpu X86_REG_AX) \<and> high_half w cpu' = 0"
proof (cases isSigned)
  case False
  let ?a = "unsigned_value w (Registers cpu X86_REG_AX)" and ?b = "unsigned_value w operand"
  let ?mid = "V86Multiply False operand w cpu"
  have range: "0 \<le> ?a" "?a < modulus w" "0 \<le> ?b" "?b < modulus w" "0 < modulus w"
    using unsigned_range [of w] by (auto intro: order.strict_trans1)
  then have "?a * ?b < modulus w * modulus w" by (intro mult_strict_mono) auto
  then have "double_value w ?mid = ?a * ?b"
    using double_value_multiply [OF w, of False operand cpu] range
    by (simp add: factor_def mod_pos_pos_trivial power2_eq_square)
  then show ?thesis
    using v86_divide_contract [OF w nonzero, of ?mid] run False range nonzero by auto
next
  case True
  let ?a = "signed_value w (Registers cpu X86_REG_AX)" and ?b = "signed_value w operand"
  let ?mid = "V86Multiply True operand w cpu"
  obtain h where h: "modulus w = 2 * h" "modulus w div 2 = h" "0 < h" using modulus_halves [OF w] by blast
  have n: "signed_double w ?mid = ?a * ?b" by (rule signed_double_multiply [OF w])
  have "\<bar>?a * ?b\<bar> \<le> h ^ 2"
    using signed_value_range [OF w] by (intro product_range) (simp_all add: h)
  moreover have "modulus w ^ 2 div 2 = 2 * h ^ 2" "0 < h ^ 2" using h(3) by (simp_all add: h(1) power_mult_distrib)
  ultimately have special: "?a * ?b \<noteq> - (modulus w ^ 2 div 2)" by linarith
  have b: "?b \<noteq> 0" using nonzero signed_value_mod [of w operand] by auto
  have "outcome = Modelled \<and> signed_half w (low_half w cpu') = ?a \<and> signed_half w (high_half w cpu') = 0"
    using v86_divide_contract [OF w nonzero, of ?mid] run True special signed_value_range [OF w, of "Registers cpu X86_REG_AX"]
    by (simp add: n signed_product_division [OF b])
  moreover note signed_half_back [OF halves_range(1,2) [OF w], of cpu'] signed_half_back [OF halves_range(3,4) [OF w], of cpu']
  ultimately show ?thesis using signed_value_mod [of w "Registers cpu X86_REG_AX"] by auto
qed

theorem v86_multiply_divide_back_witness:
  "let cpu = idle_cpu\<lparr>Registers := (\<lambda>_. 0)(X86_REG_AX := 0x12348001)\<rparr>;
       cpu' = snd (V86Divide True 0xFFFD 2 (V86Multiply True 0xFFFD 2 cpu))
   in low_half 2 cpu' = 0x8001 \<and> high_half 2 cpu' = 0"
  using v86_multiply_divide_back [of 2 "0xFFFD" True "idle_cpu\<lparr>Registers := (\<lambda>_. 0)(X86_REG_AX := 0x12348001)\<rparr>"]
  by (simp add: operand_width_def unsigned_value_def modulus_def Let_def prod_eq_iff)

text \<open>The division C leaves undefined is reached by guest code: \<^verbatim>\<open>IDIV CX\<close> of 8000h:0000h by -1.\<close>

definition overflowing_idiv :: "v86_cpu \<times> (u32 \<Rightarrow> u8)" where
  "overflowing_idiv =
     (\<lparr>Registers = (\<lambda>_. 0)(X86_REG_DX := 0x8000, X86_REG_CX := 0xFFFF), Segments = (\<lambda>_. 0), Ip = 0x100, Flags = 2\<rparr>,
      (\<lambda>_. 0)(0x100 := 0xF7, 0x101 := 0xF9))"

lemma idiv_overflow_undefined: "fst (run_state (V86Step ram_host) overflowing_idiv) = Undefined"
  by code_simp

end
