(* ===== verification/V86_Memory.thy ===== *)
theory V86_Memory
  imports V86_Host V86_Multiply
begin

text \<open>
  Instructions that work on memory. The locale \<open>guest_ram\<close> is what the interpreter relies on from its
  host: some addresses are plain memory, where a read gives the byte last written and nothing else
  moves. The reads, the stack and the string moves are proved once inside it, and it is interpreted
  on the host's own hooks, whose plain addresses are the pages the page map knows to be memory.
\<close>

definition peek_word :: "('m \<Rightarrow> u32 \<Rightarrow> u8) \<Rightarrow> 'm \<Rightarrow> u32 \<Rightarrow> u16" where
  "peek_word peek m a = ucast (peek m a) OR push_bit 8 (ucast (peek m (a + 1)))"

definition both_bytes :: "('m \<Rightarrow> u32 \<Rightarrow> bool) \<Rightarrow> 'm \<Rightarrow> u32 \<Rightarrow> bool" where
  "both_bytes plain m a \<longleftrightarrow> plain m a \<and> plain m (a + 1)"

lemma ucast_minus: "(ucast (a - b :: u32) :: u16) = ucast a - ucast b"
  by (simp add: word_uint_eq_iff uint_word_ariths unsigned_ucast_eq take_bit_eq_mod mod_mod_cancel mod_diff_eq)

definition is_prefix :: "u8 \<Rightarrow> bool" where
  "is_prefix b \<longleftrightarrow> b \<in> {0x26, 0x2E, 0x36, 0x3E, 0x64, 0x65, 0xF3, 0xF2, 0x66, 0x67, 0xF0}"

lemma apply_prefix_None: "apply_prefix h b d = None \<longleftrightarrow> \<not> is_prefix b"
  by (simp add: apply_prefix_def is_prefix_def Let_def)

definition put_word :: "'m v86_host \<Rightarrow> u32 \<Rightarrow> u16 \<Rightarrow> 'm \<Rightarrow> 'm" where
  "put_word h a v m = HostWrite8 h (a + 1) (ucast (drop_bit 8 v)) (HostWrite8 h a (ucast v) m)"

abbreviation code_address :: "v86_cpu \<Rightarrow> u32" where
  "code_address cpu \<equiv> push_bit 4 (ucast (Segments cpu X86_SREG_CS)) + ucast (Ip cpu)"

locale guest_ram =
  fixes h :: "'m v86_host"
    and plain :: "'m \<Rightarrow> u32 \<Rightarrow> bool"
    and peek :: "'m \<Rightarrow> u32 \<Rightarrow> u8"
  assumes read_plain: "plain m a \<Longrightarrow> HostRead8 h a m = (peek m a, m)"
    and write_plain: "plain m a \<Longrightarrow> plain (HostWrite8 h a v m) b \<longleftrightarrow> plain m b"
    and peek_write: "plain m a \<Longrightarrow> plain m b \<Longrightarrow> peek (HostWrite8 h a v m) b = (if b = a then v else peek m b)"
begin

lemma run_read8: "plain m a \<Longrightarrow> run_state (host_read8 h a) (cpu, m) = (peek m a, (cpu, m))"
  by (simp add: host_read8_def read_plain)

lemma run_code_byte: "plain m (a + of_nat p) \<Longrightarrow> run_state (V86_CODE_BYTE h a p) (cpu, m) = (peek m (a + of_nat p), (cpu, m))"
  by (simp add: V86_CODE_BYTE_def run_read8)

lemma run_read_word:
  "both_bytes plain m a \<Longrightarrow> run_state (V86ReadMemory h a 2) (cpu, m) = (ucast (peek_word peek m a), (cpu, m))"
proof -
  have "(ucast (ucast x OR push_bit 8 (ucast y) :: u16) :: u32) = ucast x OR push_bit 8 (ucast y)" for x y :: u8
    by (rule bit_word_eqI) (auto simp: bit_simps dest: bit_imp_le_length)
  then show "both_bytes plain m a \<Longrightarrow> run_state (V86ReadMemory h a 2) (cpu, m) = (ucast (peek_word peek m a), (cpu, m))"
    by (simp add: V86ReadMemory_def both_bytes_def run_read8 peek_word_def)
qed

lemma run_write_word:
  "run_state (V86WriteMemory h a 2 v) (cpu, m) = ((), (cpu, put_word h a (ucast v) m))"
proof -
  have "(ucast (ucast v :: u16) :: u8) = ucast v" "(ucast (drop_bit 8 (ucast v :: u16)) :: u8) = ucast (drop_bit 8 v)"
    by (rule bit_word_eqI, auto simp: bit_simps dest: bit_imp_le_length)+
  then show ?thesis by (simp add: V86WriteMemory_def host_write8_def put_word_def)
qed

lemma plain_put_word: "both_bytes plain m a \<Longrightarrow> plain (put_word h a v m) b \<longleftrightarrow> plain m b"
  by (simp add: put_word_def both_bytes_def write_plain)

lemma peek_put_word:
  "both_bytes plain m a \<Longrightarrow> plain m b \<Longrightarrow> b \<noteq> a \<Longrightarrow> b \<noteq> a + 1 \<Longrightarrow> peek (put_word h a v m) b = peek m b"
  by (simp add: put_word_def both_bytes_def write_plain peek_write)

lemma peek_word_put_same: "both_bytes plain m a \<Longrightarrow> peek_word peek (put_word h a v m) a = v"
proof -
  have "ucast (ucast v :: u8) OR push_bit 8 (ucast (ucast (drop_bit 8 v) :: u8)) = v"
    by (rule bit_word_eqI) (auto simp: bit_simps)
  then show "both_bytes plain m a \<Longrightarrow> peek_word peek (put_word h a v m) a = v"
    by (simp add: peek_word_def put_word_def both_bytes_def write_plain peek_write)
qed

lemma peek_word_put_other:
  "both_bytes plain m a \<Longrightarrow> both_bytes plain m b \<Longrightarrow> b \<noteq> a \<Longrightarrow> b \<noteq> a + 1 \<Longrightarrow> b + 1 \<noteq> a \<Longrightarrow> peek_word peek (put_word h a v m) b = peek_word peek m b"
  by (simp add: peek_word_def peek_put_word both_bytes_def [of plain m b])

lemma both_bytes_put: "both_bytes plain m a \<Longrightarrow> both_bytes plain (put_word h a v m) b \<longleftrightarrow> both_bytes plain m b"
  using plain_put_word [of m a v b] plain_put_word [of m a v "b + 1"] by (simp add: both_bytes_def [of plain _ b])

subsection \<open>Single instructions\<close>

lemma run_push:
  assumes "SegmentToLinear h = None"
  shows "run_state (V86Push h 2 v) (cpu, m) =
    ((), (V86Set16 X86_REG_SP (stack_pointer cpu - 2) cpu, put_word h (stack_address h cpu (stack_pointer cpu - 2)) (ucast v) m))"
proof -
  have "(ucast (r - 2 :: u32) :: u16) = ucast r - 2" for r
    using ucast_minus [of r 2] by simp
  then show ?thesis
    by (simp add: V86Push_def run_write_word stack_pointer_def stack_address_def Let_def)
qed

lemma run_step:
  assumes "SegmentToLinear h = None" "\<not> has_flag EFLAGS_TF_U cpu"
    and "plain m (code_address cpu)" "peek m (code_address cpu) = opcode" "\<not> is_prefix opcode" "opcode \<noteq> 0x0F"
  defines "d \<equiv> \<lparr>CodeLinear = code_address cpu, Offset = 1, SegmentOverride = None, Repeat = 0, IsOperand32 = False,
    IsAddress32 = False, IsLocked = False\<rparr>"
  shows "run_state (V86Step h) (cpu, m) =
    run_state (if opcode < 0x90 then v86_low_half h d opcode else v86_high_half h d opcode) (cpu, m)"
proof -
  let ?d = "\<lparr>CodeLinear = code_address cpu, Offset = 0, SegmentOverride = None, Repeat = 0, IsOperand32 = False,
    IsAddress32 = False, IsLocked = False\<rparr>"
  have byte: "run_state (V86_CODE_BYTE h (code_address cpu) 0) (cpu, m) = (opcode, (cpu, m))"
    using assms run_code_byte [of m "code_address cpu" 0 cpu] by simp
  have "apply_prefix h opcode ?d = None" using assms by (simp add: apply_prefix_None)
  then have "run_state (v86_prefixes 5 h ?d) (cpu, m) = (Some ?d, (cpu, m))"
    using byte v86_prefixes.simps(2) [of 4 h ?d] by simp
  then have "run_state (V86Step h) (cpu, m) = run_state (v86_opcode h ?d) (cpu, m)"
    using assms by (simp add: V86Step_def V86SegmentBase_def has_flag_def Let_def)
  also have "\<dots> = run_state (if opcode < 0x90 then v86_low_half h d opcode else v86_high_half h d opcode) (cpu, m)"
    using byte assms by (simp add: v86_opcode_def d_def)
  finally show ?thesis .
qed

lemma high_word: "HIGH_WORD_MASK_U = push_bit 16 (mask 16)"
  by (simp add: mask_eq_exp_minus_1)

lemma set16_simps:
  "Segments (V86Set16 r v cpu) = Segments cpu" "Ip (V86Set16 r v cpu) = Ip cpu" "Flags (V86Set16 r v cpu) = Flags cpu"
  "stack_pointer (V86Set16 X86_REG_SP v cpu) = v" "V86Set16 r v (V86Set16 r u cpu) = V86Set16 r v cpu"
proof -
  have low: "(ucast ((x AND HIGH_WORD_MASK_U) OR ucast v :: u32) :: u16) = v" for x
    unfolding high_word by (rule bit_word_eqI) (auto simp: bit_simps)
  show "stack_pointer (V86Set16 X86_REG_SP v cpu) = v"
    by (simp add: stack_pointer_def V86Set16_def Let_def low)
  have "((((x AND HIGH_WORD_MASK_U) OR ucast u) AND HIGH_WORD_MASK_U) OR ucast v) = (x AND HIGH_WORD_MASK_U) OR (ucast v :: u32)" for x
    unfolding high_word by (rule bit_word_eqI) (auto simp: bit_simps dest: bit_imp_le_length)
  then show "V86Set16 r v (V86Set16 r u cpu) = V86Set16 r v cpu"
    by (simp add: V86Set16_def Let_def)
qed (simp_all add: V86Set16_def Let_def)

end


section \<open>The host's plain memory\<close>

definition plain_byte :: "('v, 'o, 'p) host_memory \<Rightarrow> u32 \<Rightarrow> bool" where
  \<comment> \<open>a page known to be memory, or the part above the megabyte, which the page map leaves alone\<close>
  "plain_byte m a \<longleftrightarrow> plain_page a m \<or> X86_REAL_MODE_SIZE_U \<le> a"

lemma above_aperture: "X86_REAL_MODE_SIZE_U \<le> a \<Longrightarrow> \<not> in_aperture a \<and> \<not> a < X86_REAL_MODE_SIZE_U"
  using le_less_trans [of X86_REAL_MODE_SIZE_U a VIDEO_MONO_BASE] by (auto simp: in_aperture_def)

lemma plain_read: "plain_byte m a \<Longrightarrow> V86HostRead8 env bus a m = (GuestByte m a, m)"
  using above_aperture [of a]
  by (auto simp: V86HostRead8_def plain_byte_def InterpreterMemoryRead8Slow_def InterpreterMemoryPageOk_def)

lemma plain_write: "plain_byte m a \<Longrightarrow> V86HostWrite8 env bus a v m = store_byte a v m"
  using above_aperture [of a]
  by (auto simp: V86HostWrite8_def plain_byte_def InterpreterMemoryWrite8Slow_def InterpreterMemoryPageOk_def)

lemma plain_byte_store: "plain_byte (store_byte a v m) b \<longleftrightarrow> plain_byte m b"
  by (simp add: plain_byte_def plain_page_def store_byte_def)

interpretation memory: guest_ram "interp_host env bus" plain_byte GuestByte for env bus
proof
  fix m :: "('a, 'b, 'c) host_memory" and a b :: u32 and v :: u8
  assume a: "plain_byte m a"
  show "HostRead8 (interp_host env bus) a m = (GuestByte m a, m)"
    using a by (simp add: interp_host_def plain_read)
  show "plain_byte (HostWrite8 (interp_host env bus) a v m) b \<longleftrightarrow> plain_byte m b"
    using a by (simp add: interp_host_def plain_write plain_byte_store)
  show "GuestByte (HostWrite8 (interp_host env bus) a v m) b = (if b = a then v else GuestByte m b)"
    using a by (simp add: interp_host_def plain_write store_byte_def)
qed

end
