(* ===== verification/V86_Interrupt.thy ===== *)
theory V86_Interrupt
  imports V86_Memory
begin

text \<open>
  The software interrupt and its return, over the host's memory: what \<^verbatim>\<open>INT n\<close> leaves on the stack and
  in the processor, and that \<^verbatim>\<open>IRET\<close> takes it back wherever the handler ends, as long as the frame is
  still there.
\<close>

definition image16 :: "v86_cpu \<Rightarrow> u16" where
  \<comment> \<open>the flags as an interrupt pushes them\<close>
  "image16 cpu = ucast ((Flags cpu AND V86_FLAGS_MODELLED) OR EFLAGS_RESERVED_ONE_U)"

definition frame_word :: "v86_cpu \<Rightarrow> u16 \<Rightarrow> u32" where
  \<comment> \<open>where the stack holds the word at an offset\<close>
  "frame_word cpu offset = push_bit 4 (ucast (Segments cpu X86_SREG_SS)) + ucast offset"

definition vector_word :: "u8 \<Rightarrow> u32" where
  "vector_word n = ucast n * 4"

definition entered :: "v86_cpu \<Rightarrow> u16 \<Rightarrow> u16 \<Rightarrow> v86_cpu" where
  \<comment> \<open>the processor at the first instruction of a handler\<close>
  "entered cpu ip cs = (V86Set16 X86_REG_SP (stack_pointer cpu - 6) cpu)
     \<lparr>Segments := (Segments cpu)(X86_SREG_CS := cs), Ip := ip, Flags := Flags cpu AND NOT (EFLAGS_IF_U OR EFLAGS_TF_U)\<rparr>"

definition words_apart :: "u32 \<Rightarrow> u32 \<Rightarrow> bool" where
  \<comment> \<open>two words that share no byte\<close>
  "words_apart a b \<longleftrightarrow> b \<noteq> a \<and> b \<noteq> a + 1 \<and> b + 1 \<noteq> a"

lemma wrapped_below: "0 \<le> x \<Longrightarrow> x < 65536 \<Longrightarrow> 0 \<le> k \<Longrightarrow> k \<le> 65536 \<Longrightarrow> (x - k) mod 65536 = (if k \<le> x then x - k else x - k + 65536)" for x k :: int
  using mod_pos_pos_trivial [of "x - k + 65536" 65536] by auto

lemma word_there_back [simp]: "(ucast (ucast x :: u32) :: u16) = x" for x :: u16
  by (rule bit_word_eqI) (simp add: bit_simps)

lemma frame_words_apart:
  assumes "k \<in> {2, 4}"
  shows "words_apart (frame_word cpu s) (frame_word cpu (s - k))" "words_apart (frame_word cpu (s - k)) (frame_word cpu s)"
proof -
  have small: "uint (ucast x :: u32) = uint x" for x :: u16
    by (simp add: uint_up_ucast is_up)
  have x: "0 \<le> uint s" "uint s < 65536" using uint_lt2p [of s] by simp_all
  have k: "uint k = 2 \<or> uint k = 4" using assms by auto
  then have y: "uint (s - k) = (if uint k \<le> uint s then uint s - uint k else uint s - uint k + 65536)"
    using wrapped_below [OF x, of "uint k"] by (auto simp: uint_word_ariths)
  have word: "uint (ucast v + 1 :: u32) = uint v + 1" for v :: u16
    using uint_lt2p [of v] by (simp add: uint_word_ariths small)
  have "uint (ucast (s - k) :: u32) \<noteq> uint (ucast s :: u32)" "uint (ucast (s - k) :: u32) \<noteq> uint (ucast s + 1 :: u32)"
    "uint (ucast (s - k) + 1 :: u32) \<noteq> uint (ucast s :: u32)"
    unfolding word small y using k x by auto
  then have "(ucast (s - k) :: u32) \<noteq> ucast s" "(ucast (s - k) :: u32) \<noteq> ucast s + 1" "(ucast (s - k) :: u32) + 1 \<noteq> ucast s"
    by metis+
  then show "words_apart (frame_word cpu s) (frame_word cpu (s - k))" "words_apart (frame_word cpu (s - k)) (frame_word cpu s)"
    by (auto simp: words_apart_def frame_word_def add.assoc)
qed
abbreviation interrupt_frame :: "'m v86_host \<Rightarrow> v86_cpu \<Rightarrow> u16 \<Rightarrow> 'm \<Rightarrow> 'm" where
  "interrupt_frame h cpu ip m \<equiv>
     put_word h (frame_word cpu (stack_pointer cpu - 6)) ip
       (put_word h (frame_word cpu (stack_pointer cpu - 4)) (Segments cpu X86_SREG_CS)
         (put_word h (frame_word cpu (stack_pointer cpu - 2)) (image16 cpu) m))"

context guest_ram
begin

lemma run_pushes:
  assumes "SegmentToLinear h = None"
  shows "run_state (do { V86Push h 2 a; V86Push h 2 b; V86Push h 2 c }) (cpu, m) =
    ((), (V86Set16 X86_REG_SP (stack_pointer cpu - 6) cpu,
      put_word h (frame_word cpu (stack_pointer cpu - 6)) (ucast c)
       (put_word h (frame_word cpu (stack_pointer cpu - 4)) (ucast b)
         (put_word h (frame_word cpu (stack_pointer cpu - 2)) (ucast a) m))))"
  by (simp add: run_push assms set16_simps stack_address_def V86SegmentBase_def frame_word_def)

lemma run_op_int:
  assumes "SegmentToLinear h = None" "Offset d = 1"
    and "plain m (CodeLinear d + 1)" "peek m (CodeLinear d + 1) = n"
    and frame: "both_bytes plain m (frame_word cpu (stack_pointer cpu - 2))"
      "both_bytes plain m (frame_word cpu (stack_pointer cpu - 4))" "both_bytes plain m (frame_word cpu (stack_pointer cpu - 6))"
    and vector: "both_bytes plain m (vector_word n)" "both_bytes plain m (vector_word n + 2)"
    and words_apart: "\<And>k. k \<in> {2, 4, 6} \<Longrightarrow> words_apart (frame_word cpu (stack_pointer cpu - k)) (vector_word n) \<and>
      words_apart (frame_word cpu (stack_pointer cpu - k)) (vector_word n + 2)"
  shows "run_state (op_int h d 0xCD) (cpu, m) =
    (Modelled, (entered cpu (peek_word peek m (vector_word n)) (peek_word peek m (vector_word n + 2)),
      interrupt_frame h cpu (Ip cpu + 2) m))"
proof -
  define m1 where "m1 = put_word h (frame_word cpu (stack_pointer cpu - 2)) (image16 cpu) m"
  define m2 where "m2 = put_word h (frame_word cpu (stack_pointer cpu - 4)) (Segments cpu X86_SREG_CS) m1"
  define m3 where "m3 = put_word h (frame_word cpu (stack_pointer cpu - 6)) (Ip cpu + 2) m2"
  have code: "run_state (V86_CODE_BYTE h (CodeLinear d) 1) (cpu, m) = (n, (cpu, m))"
    using assms(3,4) run_code_byte [of m "CodeLinear d" 1 cpu] by simp
  have p1: "both_bytes plain m1 b \<longleftrightarrow> both_bytes plain m b" for b
    unfolding m1_def by (rule both_bytes_put [OF frame(1)])
  have p2: "both_bytes plain m2 b \<longleftrightarrow> both_bytes plain m b" for b
    unfolding m2_def using both_bytes_put [of m1] p1 frame(2) by simp
  have p3: "both_bytes plain m3 b \<longleftrightarrow> both_bytes plain m b" for b
    unfolding m3_def using both_bytes_put [of m2] p2 frame(3) by simp
  have same: "peek_word peek m3 a = peek_word peek m a"
    if "both_bytes plain m a" "\<And>k. k \<in> {2, 4, 6} \<Longrightarrow> words_apart (frame_word cpu (stack_pointer cpu - k)) a" for a
  proof -
    note other = peek_word_put_other [of _ _ a]
    have "peek_word peek m3 a = peek_word peek m2 a"
      unfolding m3_def using that that(2) [of 6] p2 frame(3) by (intro other) (simp_all add: words_apart_def)
    also have "\<dots> = peek_word peek m1 a"
      unfolding m2_def using that that(2) [of 4] p1 frame(2) by (intro other) (simp_all add: words_apart_def)
    also have "\<dots> = peek_word peek m a"
      unfolding m1_def using that that(2) [of 2] frame(1) by (intro other) (simp_all add: words_apart_def)
    finally show ?thesis .
  qed
  have read: "run_state (V86ReadMemory h a 2) (c, m3) = (ucast (peek_word peek m a), (c, m3))"
    if "both_bytes plain m a" "\<And>k. k \<in> {2, 4, 6} \<Longrightarrow> words_apart (frame_word cpu (stack_pointer cpu - k)) a" for a c
    using run_read_word [of m3 a c] that(1) p3 same [OF that] by simp
  have vector_reads: "run_state (V86ReadMemory h (ucast n * 4) 2) (c, m3) = (ucast (peek_word peek m (vector_word n)), (c, m3))"
    "run_state (V86ReadMemory h (ucast n * 4 + 2) 2) (c, m3) = (ucast (peek_word peek m (vector_word n + 2)), (c, m3))" for c
    using read [OF vector(1)] read [OF vector(2)] words_apart by (simp_all add: vector_word_def)
  have "image16 cpu = ucast ((Flags cpu AND V86_FLAGS_MODELLED) OR EFLAGS_RESERVED_ONE_U)" by (simp add: image16_def)
  then have pushes: "run_state (do { V86Push h 2 ((Flags cpu AND V86_FLAGS_MODELLED) OR EFLAGS_RESERVED_ONE_U);
      V86Push h 2 (ucast (Segments cpu X86_SREG_CS)); V86Push h 2 (ucast (Ip cpu + 2)); f }) (cpu, m) =
    run_state f (V86Set16 X86_REG_SP (stack_pointer cpu - 6) cpu, m3)" for f :: "('m, v86_outcome) guest"
    unfolding m3_def m2_def m1_def
    by (simp add: run_push assms(1) set16_simps stack_address_def V86SegmentBase_def frame_word_def ucast_id)
  let ?vector = "do {
      update_cpu (set_flags (\<lambda>f. f AND NOT (EFLAGS_IF_U OR EFLAGS_TF_U)));
      handlerIp \<leftarrow> V86ReadMemory h (ucast n * 4) 2;
      handlerCs \<leftarrow> V86ReadMemory h (ucast n * 4 + 2) 2;
      update_cpu (set_segment X86_SREG_CS (ucast handlerCs));
      jump (ucast handlerIp) }"
  have "run_state (op_int h d 0xCD) (cpu, m) = run_state (do {
      V86Push h 2 ((Flags cpu AND V86_FLAGS_MODELLED) OR EFLAGS_RESERVED_ONE_U);
      V86Push h 2 (ucast (Segments cpu X86_SREG_CS)); V86Push h 2 (ucast (Ip cpu + 2)); ?vector }) (cpu, m)"
    using code assms(1,2) by (simp add: op_int_def isProtected_def)
  also have "\<dots> = run_state ?vector (V86Set16 X86_REG_SP (stack_pointer cpu - 6) cpu, m3)"
    by (rule pushes)
  also have "\<dots> = (Modelled, (entered cpu (peek_word peek m (vector_word n)) (peek_word peek m (vector_word n + 2)), m3))"
    by (simp add: vector_reads jump_def set_flags_def set_segment_def entered_def set16_simps ucast_id)
  finally show ?thesis unfolding m3_def m2_def m1_def .
qed

end
definition interrupt_room :: "('m \<Rightarrow> u32 \<Rightarrow> bool) \<Rightarrow> 'm \<Rightarrow> v86_cpu \<Rightarrow> u8 \<Rightarrow> bool" where
  \<comment> \<open>the three words below the stack pointer and the vector are plain memory, and share no byte\<close>
  "interrupt_room plain m cpu n \<longleftrightarrow>
     both_bytes plain m (vector_word n) \<and> both_bytes plain m (vector_word n + 2) \<and>
     (\<forall>k \<in> {2, 4, 6}. both_bytes plain m (frame_word cpu (stack_pointer cpu - k)) \<and>
        words_apart (frame_word cpu (stack_pointer cpu - k)) (vector_word n) \<and>
        words_apart (frame_word cpu (stack_pointer cpu - k)) (vector_word n + 2))"

definition returned :: "v86_cpu \<Rightarrow> u16 \<Rightarrow> u16 \<Rightarrow> u16 \<Rightarrow> v86_cpu" where
  \<comment> \<open>the processor after \<^verbatim>\<open>IRET\<close> took back an address, a code segment and flags\<close>
  "returned cpu ip cs flags = (V86Set16 X86_REG_SP (stack_pointer cpu + 6) cpu)
     \<lparr>Segments := (Segments cpu)(X86_SREG_CS := cs), Ip := ip,
      Flags := (Flags cpu AND NOT 0xFFFF) OR ((ucast flags AND V86_FLAGS_MODELLED) OR EFLAGS_RESERVED_ONE_U)\<rparr>"

lemma set16_frame:
  "V86Set16 r v (cpu\<lparr>Flags := f\<rparr>) = (V86Set16 r v cpu)\<lparr>Flags := f\<rparr>" "V86Set16 r v (cpu\<lparr>Segments := s\<rparr>) = (V86Set16 r v cpu)\<lparr>Segments := s\<rparr>"
  by (simp_all add: V86Set16_def Let_def)

context guest_ram
begin

lemma run_op_iret:
  assumes "SegmentToLinear h = None" "\<not> IsOperand32 d"
    and frame: "both_bytes plain m (frame_word cpu (stack_pointer cpu))" "both_bytes plain m (frame_word cpu (stack_pointer cpu + 2))"
      "both_bytes plain m (frame_word cpu (stack_pointer cpu + 4))"
  shows "run_state (op_iret h d) (cpu, m) =
    (Modelled, (returned cpu (peek_word peek m (frame_word cpu (stack_pointer cpu)))
      (peek_word peek m (frame_word cpu (stack_pointer cpu + 2))) (peek_word peek m (frame_word cpu (stack_pointer cpu + 4))), m))"
proof -
  have read: "run_state (V86ReadMemory h (stack_address h cpu v) 2) (cpu, m) = (ucast (peek_word peek m (frame_word cpu v)), (cpu, m))"
    if "both_bytes plain m (frame_word cpu v)" for v
    using that run_read_word [of m "frame_word cpu v" cpu] assms(1) by (simp add: stack_address_def V86SegmentBase_def frame_word_def)
  show ?thesis
    using assms(1,2)
    by (simp add: op_iret_def isProtected_def operandSize_def read frame returned_def jump_def set_segment_def V86FlagsLoad_def
      set16_frame Let_def)
qed

lemma step_int:
  assumes "SegmentToLinear h = None" "\<not> has_flag EFLAGS_TF_U cpu"
    and "plain m (code_address cpu)" "peek m (code_address cpu) = 0xCD"
    and "plain m (code_address cpu + 1)" "peek m (code_address cpu + 1) = n"
    and room: "interrupt_room plain m cpu n"
  shows "run_state (V86Step h) (cpu, m) =
    (Modelled, (entered cpu (peek_word peek m (vector_word n)) (peek_word peek m (vector_word n + 2)),
      interrupt_frame h cpu (Ip cpu + 2) m))"
proof -
  let ?d = "\<lparr>CodeLinear = code_address cpu, Offset = 1, SegmentOverride = None, Repeat = 0, IsOperand32 = False,
    IsAddress32 = False, IsLocked = False\<rparr>"
  have "run_state (V86Step h) (cpu, m) = run_state (op_int h ?d 0xCD) (cpu, m)"
    using run_step [OF assms(1-4)] by (simp add: is_prefix_def v86_high_half_def)
  also have "\<dots> = (Modelled, (entered cpu (peek_word peek m (vector_word n)) (peek_word peek m (vector_word n + 2)),
      interrupt_frame h cpu (Ip cpu + 2) m))"
    using assms(5,6) room by (intro run_op_int [OF assms(1)]) (auto simp: interrupt_room_def)
  finally show ?thesis .
qed

lemma step_iret:
  assumes "SegmentToLinear h = None" "\<not> has_flag EFLAGS_TF_U cpu"
    and "plain m (code_address cpu)" "peek m (code_address cpu) = 0xCF"
    and "both_bytes plain m (frame_word cpu (stack_pointer cpu))" "both_bytes plain m (frame_word cpu (stack_pointer cpu + 2))"
      "both_bytes plain m (frame_word cpu (stack_pointer cpu + 4))"
  shows "run_state (V86Step h) (cpu, m) =
    (Modelled, (returned cpu (peek_word peek m (frame_word cpu (stack_pointer cpu)))
      (peek_word peek m (frame_word cpu (stack_pointer cpu + 2))) (peek_word peek m (frame_word cpu (stack_pointer cpu + 4))), m))"
  using run_step [OF assms(1-4)] assms run_op_iret [OF assms(1)]
  by (simp add: is_prefix_def v86_high_half_def)

end


subsection \<open>There and back\<close>

lemma entered_simps:
  "Segments (entered cpu ip cs) = (Segments cpu)(X86_SREG_CS := cs)" "Ip (entered cpu ip cs) = ip"
  "stack_pointer (entered cpu ip cs) = stack_pointer cpu - 6"
  "Flags (entered cpu ip cs) = Flags cpu AND NOT (EFLAGS_IF_U OR EFLAGS_TF_U)"
proof -
  have "stack_pointer (c\<lparr>Segments := s, Ip := i, Flags := f\<rparr>) = stack_pointer c" for c s i f
    by (simp add: stack_pointer_def)
  then show "stack_pointer (entered cpu ip cs) = stack_pointer cpu - 6"
    by (simp add: entered_def memory.set16_simps del: v86_cpu.update_convs)
qed (simp_all add: entered_def)

definition frame_bytes :: "v86_cpu \<Rightarrow> u32 set" where
  "frame_bytes cpu = (\<Union>k \<in> {2, 4, 6}. {frame_word cpu (stack_pointer cpu - k), frame_word cpu (stack_pointer cpu - k) + 1})"

definition frame_kept :: "v86_cpu \<Rightarrow> ('v, 'o, 'p) host_memory \<Rightarrow> ('v, 'o, 'p) host_memory \<Rightarrow> bool" where
  \<comment> \<open>the handler leaves the frame in plain memory, with the bytes the interrupt put there\<close>
  "frame_kept cpu m m' \<longleftrightarrow> (\<forall>a \<in> frame_bytes cpu. plain_byte m' a \<and> GuestByte m' a = GuestByte m a)"
context guest_ram
begin

lemma frame_contents:
  assumes "\<And>k. k \<in> {2, 4, 6} \<Longrightarrow> both_bytes plain m (frame_word cpu (stack_pointer cpu - k))"
  shows "peek_word peek (interrupt_frame h cpu ip m) (frame_word cpu (stack_pointer cpu - 6)) = ip"
    "peek_word peek (interrupt_frame h cpu ip m) (frame_word cpu (stack_pointer cpu - 4)) = Segments cpu X86_SREG_CS"
    "peek_word peek (interrupt_frame h cpu ip m) (frame_word cpu (stack_pointer cpu - 2)) = image16 cpu"
    "plain (interrupt_frame h cpu ip m) b \<longleftrightarrow> plain m b"
    "b \<notin> frame_bytes cpu \<Longrightarrow> plain m b \<Longrightarrow> peek (interrupt_frame h cpu ip m) b = peek m b"
proof -
  define s2 where "s2 = frame_word cpu (stack_pointer cpu - 2)"
  define s4 where "s4 = frame_word cpu (stack_pointer cpu - 4)"
  define s6 where "s6 = frame_word cpu (stack_pointer cpu - 6)"
  have d: "words_apart s4 s2" "words_apart s6 s4" "words_apart s6 s2"
    using frame_words_apart(2) [of 2 cpu "stack_pointer cpu - 2"] frame_words_apart(2) [of 2 cpu "stack_pointer cpu - 4"]
      frame_words_apart(2) [of 4 cpu "stack_pointer cpu - 2"] by (simp_all add: s2_def s4_def s6_def)
  have p: "both_bytes plain m s2" "both_bytes plain m s4" "both_bytes plain m s6"
    using assms by (simp_all add: s2_def s4_def s6_def)
  note put = both_bytes_put plain_put_word peek_word_put_same peek_word_put_other
  show "peek_word peek (interrupt_frame h cpu ip m) (frame_word cpu (stack_pointer cpu - 6)) = ip"
    "peek_word peek (interrupt_frame h cpu ip m) (frame_word cpu (stack_pointer cpu - 4)) = Segments cpu X86_SREG_CS"
    "peek_word peek (interrupt_frame h cpu ip m) (frame_word cpu (stack_pointer cpu - 2)) = image16 cpu"
    "plain (interrupt_frame h cpu ip m) b \<longleftrightarrow> plain m b"
    unfolding s2_def [symmetric] s4_def [symmetric] s6_def [symmetric] using p d by (simp_all add: put words_apart_def)
  show "peek (interrupt_frame h cpu ip m) b = peek m b" if "b \<notin> frame_bytes cpu" "plain m b"
    using that p unfolding frame_bytes_def s2_def [symmetric] s4_def [symmetric] s6_def [symmetric]
    by (simp add: put peek_put_word s2_def s4_def s6_def)
qed

end

lemma returned_entered:
  assumes "Segments cpu' X86_SREG_SS = Segments cpu X86_SREG_SS" "stack_pointer cpu' = stack_pointer cpu - 6"
  shows "frame_word cpu' (stack_pointer cpu') = frame_word cpu (stack_pointer cpu - 6)"
    "frame_word cpu' (stack_pointer cpu' + 2) = frame_word cpu (stack_pointer cpu - 4)"
    "frame_word cpu' (stack_pointer cpu' + 4) = frame_word cpu (stack_pointer cpu - 2)"
  using assms by (simp_all add: frame_word_def)

lemma frame_kept_words:
  assumes "frame_kept cpu m m'" "k \<in> {2, 4, 6}"
  shows "both_bytes plain_byte m' (frame_word cpu (stack_pointer cpu - k))"
    "peek_word GuestByte m' (frame_word cpu (stack_pointer cpu - k)) = peek_word GuestByte m (frame_word cpu (stack_pointer cpu - k))"
  using assms by (auto simp: frame_kept_def frame_bytes_def both_bytes_def peek_word_def)

definition back_from_interrupt :: "v86_cpu \<Rightarrow> v86_cpu \<Rightarrow> v86_cpu" where
  \<comment> \<open>a handler's processor on its way back: the interrupted address, stack pointer and flags, the rest its own\<close>
  "back_from_interrupt cpu cpu' = (V86Set16 X86_REG_SP (stack_pointer cpu) cpu')
     \<lparr>Segments := (Segments cpu')(X86_SREG_CS := Segments cpu X86_SREG_CS), Ip := Ip cpu + 2,
      Flags := (Flags cpu' AND NOT 0xFFFF) OR ((Flags cpu AND V86_FLAGS_MODELLED) OR EFLAGS_RESERVED_ONE_U)\<rparr>"

lemma returned_back:
  assumes "stack_pointer cpu' = stack_pointer cpu - 6"
  shows "returned cpu' (Ip cpu + 2) (Segments cpu X86_SREG_CS) (image16 cpu) = back_from_interrupt cpu cpu'"
proof -
  have two: "EFLAGS_RESERVED_ONE_U = push_bit 1 (mask 1)" and low: "V86_FLAGS_MODELLED = mask 12 AND V86_FLAGS_MODELLED"
    by (simp_all add: mask_eq_exp_minus_1)
  have "((ucast (ucast ((f AND V86_FLAGS_MODELLED) OR EFLAGS_RESERVED_ONE_U) :: u16) AND V86_FLAGS_MODELLED) OR EFLAGS_RESERVED_ONE_U)
      = (f AND V86_FLAGS_MODELLED) OR EFLAGS_RESERVED_ONE_U" for f :: u32
    by (subst (1 2 3) low, rule bit_word_eqI) (auto simp: bit_simps)
  then show ?thesis
    using assms by (simp add: returned_def back_from_interrupt_def image16_def)
qed
definition at_iret :: "v86_cpu \<Rightarrow> v86_cpu \<Rightarrow> ('v, 'o, 'p) host_memory \<Rightarrow> bool" where
  \<comment> \<open>a handler with its stack back where it began, about to run \<^verbatim>\<open>IRET\<close>\<close>
  "at_iret cpu cpu' m' \<longleftrightarrow> Segments cpu' X86_SREG_SS = Segments cpu X86_SREG_SS \<and> stack_pointer cpu' = stack_pointer cpu - 6 \<and>
     \<not> has_flag EFLAGS_TF_U cpu' \<and> plain_byte m' (code_address cpu') \<and> GuestByte m' (code_address cpu') = 0xCF"

lemma real_mode: "SegmentToLinear (interp_host env bus) = None"
  by (simp add: interp_host_def)

lemma room_frame: "interrupt_room plain m cpu n \<Longrightarrow> k \<in> {2, 4, 6} \<Longrightarrow> both_bytes plain m (frame_word cpu (stack_pointer cpu - k))"
  by (auto simp: interrupt_room_def)

lemma iret_comes_back:
  assumes room: "interrupt_room plain_byte m cpu n"
    and "frame_kept cpu (interrupt_frame (interp_host env bus) cpu (Ip cpu + 2) m) m'" and iret: "at_iret cpu cpu' m'"
  shows "run_state (V86Step (interp_host env bus)) (cpu', m') = (Modelled, (back_from_interrupt cpu cpu', m'))"
proof -
  have stack: "Segments cpu' X86_SREG_SS = Segments cpu X86_SREG_SS" "stack_pointer cpu' = stack_pointer cpu - 6"
    using iret by (simp_all add: at_iret_def)
  note words = returned_entered [OF stack]
  note kept = frame_kept_words [OF assms(2)]
  note contents = memory.frame_contents [OF room_frame [OF room]]
  have frame: "both_bytes plain_byte m' (frame_word cpu' (stack_pointer cpu'))" "both_bytes plain_byte m' (frame_word cpu' (stack_pointer cpu' + 2))"
    "both_bytes plain_byte m' (frame_word cpu' (stack_pointer cpu' + 4))"
    unfolding words using kept(1) by simp_all
  have "run_state (V86Step (interp_host env bus)) (cpu', m') =
      (Modelled, (returned cpu' (peek_word GuestByte m' (frame_word cpu' (stack_pointer cpu')))
        (peek_word GuestByte m' (frame_word cpu' (stack_pointer cpu' + 2)))
        (peek_word GuestByte m' (frame_word cpu' (stack_pointer cpu' + 4))), m'))"
    using iret by (intro memory.step_iret [OF real_mode _ _ _ frame]) (simp_all add: at_iret_def)
  then show ?thesis
    using kept(2) contents(1-3) [of env bus] returned_back [OF stack(2)] unfolding words by simp
qed

text \<open>
  C34. Software interrupts come back. In virtual-8086 or real mode (no selectors) and with single steps off, with plain memory under the instruction, the vector and the three
  words below the stack pointer, and the vector apart from them, \<^verbatim>\<open>INT n\<close> enters the handler the
  vector names with interrupts and single steps off, changes no other byte of plain memory, and
  whatever the handler then does, if it comes to an \<^verbatim>\<open>IRET\<close> with the stack pointer where it began and
  the frame untouched, that instruction goes back to the one after the \<^verbatim>\<open>INT\<close>, in its code segment,
  with its stack pointer and all modelled flags, and keeps the handler's other registers.
\<close>

theorem v86_interrupt_round_trip:
  assumes "\<not> has_flag EFLAGS_TF_U cpu"
    and "plain_byte m (code_address cpu)" "GuestByte m (code_address cpu) = 0xCD"
    and "plain_byte m (code_address cpu + 1)" "GuestByte m (code_address cpu + 1) = n"
    and "interrupt_room plain_byte m cpu n"
  shows "\<exists>m1. run_state (V86Step (interp_host env bus)) (cpu, m) =
      (Modelled, (entered cpu (peek_word GuestByte m (vector_word n)) (peek_word GuestByte m (vector_word n + 2)), m1)) \<and>
    (\<forall>b. plain_byte m1 b \<longleftrightarrow> plain_byte m b) \<and>
    (\<forall>b. b \<notin> frame_bytes cpu \<longrightarrow> plain_byte m b \<longrightarrow> GuestByte m1 b = GuestByte m b) \<and>
    (\<forall>cpu' m'. frame_kept cpu m1 m' \<longrightarrow> at_iret cpu cpu' m' \<longrightarrow>
      run_state (V86Step (interp_host env bus)) (cpu', m') = (Modelled, (back_from_interrupt cpu cpu', m')))"
  using memory.step_int [OF real_mode assms] memory.frame_contents(4,5) [OF room_frame [OF assms(6)]]
    iret_comes_back [OF assms(6)]
  by blast
definition quiet_environment :: "(unit, unit, unit) host_environment" where
  \<comment> \<open>a host whose video engine, hook handlers and timer do nothing\<close>
  "quiet_environment =
     \<lparr>VideoPlanarRead = (\<lambda>v a. (0xFF, v)), VideoPlanarWrite = (\<lambda>v a b. v), QueryCommitted = (\<lambda>m page. True),
      HostReadable = (\<lambda>m a. True), HostWritable = (\<lambda>m a. True), CallHandler = (\<lambda>p a w m. m),
      HostPitGenerate = (\<lambda>m. m), HostPitWritten = (\<lambda>port v m. m)\<rparr>"

definition flat_memory :: "(u32 \<Rightarrow> u8) \<Rightarrow> (unit, unit, unit) host_memory" where
  "flat_memory bytes =
     \<lparr>GuestByte = bytes, g_PageMap = (\<lambda>_. PAGE_MAP_OK), g_Video = (),
      g_VddMemoryHooks = (\<lambda>_. \<lparr>Owner = None, Start = 0, Count = 0, Handler = None\<rparr>),
      g_VddPagesCommitted = (\<lambda>_. False), g_VddMemoryHookCalls = 0, g_InterpreterMemoryBadReads = 0,
      g_InterpreterMemoryBadWrites = 0, g_InterpreterMemoryBadLogged = 0\<rparr>"

definition int_program :: "u32 \<Rightarrow> u8" where
  \<comment> \<open>\<^verbatim>\<open>INT 10h\<close> at 0000:7C00 and an \<^verbatim>\<open>IRET\<close> at 0000:0600, where vector 10h points\<close>
  "int_program = (\<lambda>_. 0)(0x7C00 := 0xCD, 0x7C01 := 0x10, 0x40 := 0x00, 0x41 := 0x06, 0x600 := 0xCF)"

definition int_cpu :: v86_cpu where
  "int_cpu = \<lparr>Registers = (\<lambda>_. 0)(X86_REG_SP := 0x2000), Segments = (\<lambda>_. 0), Ip = 0x7C00, Flags = 0x202\<rparr>"

lemma plain_flat: "\<not> in_aperture a \<Longrightarrow> plain_byte (flat_memory bytes) a"
  by (auto simp: plain_byte_def plain_page_def flat_memory_def)

lemma int_room: "interrupt_room plain_byte (flat_memory int_program) int_cpu 0x10"
  by (simp add: interrupt_room_def both_bytes_def plain_flat in_aperture_def words_apart_def vector_word_def frame_word_def int_cpu_def
    stack_pointer_def)

abbreviation quiet_host :: "(unit, unit, unit) host_memory v86_host" where
  "quiet_host \<equiv> interp_host quiet_environment (VddBusInitialize 0 :: (unit, unit, unit, unit, unit) host_bus)"

theorem v86_interrupt_round_trip_witness:
  "\<exists>m1. run_state (V86Step quiet_host) (int_cpu, flat_memory int_program) = (Modelled, (entered int_cpu 0x600 0, m1)) \<and>
    run_state (V86Step quiet_host) (entered int_cpu 0x600 0, m1) =
      (Modelled, (back_from_interrupt int_cpu (entered int_cpu 0x600 0), m1))"
proof -
  have code: "code_address int_cpu = 0x7C00" "vector_word 0x10 = 0x40" by (simp_all add: int_cpu_def vector_word_def)
  have bytes: "GuestByte (flat_memory f) = f" for f by (simp add: flat_memory_def)
  have target: "peek_word GuestByte (flat_memory int_program) 0x40 = 0x600" "peek_word GuestByte (flat_memory int_program) 0x42 = 0"
    by (simp_all add: peek_word_def bytes int_program_def)
  have frame: "frame_bytes int_cpu \<subseteq> {0x1FFA..0x1FFF}"
    by (auto simp: frame_bytes_def frame_word_def int_cpu_def stack_pointer_def)
  have plain: "plain_byte (flat_memory int_program) b" if "b \<in> {0x600, 0x7C00, 0x7C01} \<or> b \<in> {0x1FFA..0x1FFF}" for b
  proof -
    have "b \<le> 0x7C01" using that by (auto intro: order_trans)
    then show ?thesis using le_less_trans [of b "0x7C01" VIDEO_APERTURE_BASE] by (intro plain_flat) (auto simp: in_aperture_def)
  qed
  obtain m1 where m1: "run_state (V86Step quiet_host) (int_cpu, flat_memory int_program) = (Modelled, (entered int_cpu 0x600 0, m1))"
    "\<And>b. plain_byte m1 b \<longleftrightarrow> plain_byte (flat_memory int_program) b"
    "\<And>b. b \<notin> frame_bytes int_cpu \<Longrightarrow> plain_byte (flat_memory int_program) b \<Longrightarrow> GuestByte m1 b = int_program b"
    "\<And>cpu' m'. frame_kept int_cpu m1 m' \<Longrightarrow> at_iret int_cpu cpu' m' \<Longrightarrow>
      run_state (V86Step quiet_host) (cpu', m') = (Modelled, (back_from_interrupt int_cpu cpu', m'))"
    using v86_interrupt_round_trip [of int_cpu "flat_memory int_program" "0x10" quiet_environment "VddBusInitialize 0"]
    unfolding code by (simp add: target bytes int_room plain) (auto simp: int_program_def has_flag_def int_cpu_def)
  have kept: "frame_kept int_cpu m1 m1" using frame plain by (auto simp: frame_kept_def m1(2))
  have "0x600 \<notin> frame_bytes int_cpu" using frame by auto
  then have iret: "plain_byte m1 0x600" "GuestByte m1 0x600 = 0xCF"
    using m1(3) [of "0x600"] plain [of "0x600"] by (simp_all add: m1(2) int_program_def)
  have "at_iret int_cpu (entered int_cpu 0x600 0) m1"
    using iret by (simp add: at_iret_def entered_simps has_flag_def) (simp add: int_cpu_def)
  with m1(1) m1(4) [OF kept] show ?thesis by blast
qed

end
