(* ===== verification/Vdd_Comm.thy ===== *)
theory Vdd_Comm
  imports Vdd_Bus Ntvdd_Registers
begin

text \<open>
  The serial and parallel ports, \<^verbatim>\<open>src/vdd/vdd_comm.c\<close>: four 8250/16550A UARTs with their register
  models, receive ring, interrupt priority encoder and loopback wiring, INT 14h over the same parts,
  and three parallel ports whose byte leaves on the strobe edge. The transmit sinks are functions on
  a host context. A routine that may raise an interrupt line answers the line it raises last, as
  every path of the code calls \<^verbatim>\<open>VddRaiseIrq\<close> at most once and as its last step.
\<close>

subsection \<open>Registers and bits\<close>

abbreviation COMM_MAX_PORTS :: nat where "COMM_MAX_PORTS \<equiv> 4"
abbreviation LPT_MAX_PORTS :: nat where "LPT_MAX_PORTS \<equiv> 3"
abbreviation COMM_RECEIVE_RING_SIZE :: nat where "COMM_RECEIVE_RING_SIZE \<equiv> 256"
abbreviation COMM_REGISTERS :: u16 where "COMM_REGISTERS \<equiv> 8"
abbreviation LPT_REGISTERS :: u16 where "LPT_REGISTERS \<equiv> 3"
abbreviation COMM_FIFO_DEPTH :: u16 where "COMM_FIFO_DEPTH \<equiv> 16"

abbreviation COMM_LSR_DATA_READY :: u8 where "COMM_LSR_DATA_READY \<equiv> 0x01"
abbreviation COMM_LSR_OVERRUN :: u8 where "COMM_LSR_OVERRUN \<equiv> 0x02"
abbreviation COMM_LSR_ERRORS :: u8 where "COMM_LSR_ERRORS \<equiv> 0x1E" \<comment> \<open>overrun, parity, framing, break\<close>
abbreviation COMM_LSR_BREAK :: u8 where "COMM_LSR_BREAK \<equiv> 0x10"
abbreviation COMM_LSR_THR_EMPTY :: u8 where "COMM_LSR_THR_EMPTY \<equiv> 0x20"
abbreviation COMM_LSR_TRANSMITTER_EMPTY :: u8 where "COMM_LSR_TRANSMITTER_EMPTY \<equiv> 0x40"
abbreviation COMM_LSR_FIFO_ERROR :: u8 where "COMM_LSR_FIFO_ERROR \<equiv> 0x80"
abbreviation COMM_FCR_ENABLE :: u8 where "COMM_FCR_ENABLE \<equiv> 0x01"
abbreviation COMM_FCR_RX_RESET :: u8 where "COMM_FCR_RX_RESET \<equiv> 0x02"
abbreviation COMM_LCR_DLAB :: u8 where "COMM_LCR_DLAB \<equiv> 0x80"
abbreviation COMM_LCR_BREAK :: u8 where "COMM_LCR_BREAK \<equiv> 0x40"
abbreviation COMM_MCR_DTR :: u8 where "COMM_MCR_DTR \<equiv> 0x01"
abbreviation COMM_MCR_RTS :: u8 where "COMM_MCR_RTS \<equiv> 0x02"
abbreviation COMM_MCR_OUT1 :: u8 where "COMM_MCR_OUT1 \<equiv> 0x04"
abbreviation COMM_MCR_OUT2 :: u8 where "COMM_MCR_OUT2 \<equiv> 0x08"
abbreviation COMM_MCR_LOOP :: u8 where "COMM_MCR_LOOP \<equiv> 0x10"
abbreviation COMM_MCR_VALID_BITS :: u8 where "COMM_MCR_VALID_BITS \<equiv> 0x1F"
abbreviation COMM_MSR_TRAILING_RI :: u8 where "COMM_MSR_TRAILING_RI \<equiv> 0x04"
abbreviation COMM_MSR_CTS :: u8 where "COMM_MSR_CTS \<equiv> 0x10"
abbreviation COMM_MSR_DSR :: u8 where "COMM_MSR_DSR \<equiv> 0x20"
abbreviation COMM_MSR_RI :: u8 where "COMM_MSR_RI \<equiv> 0x40"
abbreviation COMM_MSR_DCD :: u8 where "COMM_MSR_DCD \<equiv> 0x80"
abbreviation COMM_MSR_LINES :: u8 where "COMM_MSR_LINES \<equiv> 0xF0"
abbreviation COMM_MSR_DELTAS :: u8 where "COMM_MSR_DELTAS \<equiv> 0x0F"
abbreviation COMM_IER_RECEIVED_DATA :: u8 where "COMM_IER_RECEIVED_DATA \<equiv> 0x01"
abbreviation COMM_IER_THR_EMPTY :: u8 where "COMM_IER_THR_EMPTY \<equiv> 0x02"
abbreviation COMM_IER_LINE_STATUS :: u8 where "COMM_IER_LINE_STATUS \<equiv> 0x04"
abbreviation COMM_IER_MODEM_STATUS :: u8 where "COMM_IER_MODEM_STATUS \<equiv> 0x08"
abbreviation COMM_IER_VALID_BITS :: u8 where "COMM_IER_VALID_BITS \<equiv> 0x0F"
abbreviation COMM_IIR_LINE_STATUS :: u8 where "COMM_IIR_LINE_STATUS \<equiv> 0x06"
abbreviation COMM_IIR_RECEIVED_DATA :: u8 where "COMM_IIR_RECEIVED_DATA \<equiv> 0x04"
abbreviation COMM_IIR_CHARACTER_TIMEOUT :: u8 where "COMM_IIR_CHARACTER_TIMEOUT \<equiv> 0x0C"
abbreviation COMM_IIR_THR_EMPTY :: u8 where "COMM_IIR_THR_EMPTY \<equiv> 0x02"
abbreviation COMM_IIR_MODEM_STATUS :: u8 where "COMM_IIR_MODEM_STATUS \<equiv> 0x00"
abbreviation COMM_IIR_NO_INTERRUPT :: u8 where "COMM_IIR_NO_INTERRUPT \<equiv> 0x01"
abbreviation COMM_IIR_FIFOS_ENABLED :: u8 where "COMM_IIR_FIFOS_ENABLED \<equiv> 0xC0"
abbreviation COMM_UNDRIVEN_BUS :: u32 where "COMM_UNDRIVEN_BUS \<equiv> 0xFF"
abbreviation COMM_INT14_TIMEOUT :: u16 where "COMM_INT14_TIMEOUT \<equiv> 0x8000"
abbreviation LPT_STATUS_READY :: u8 where "LPT_STATUS_READY \<equiv> 0xD8" \<comment> \<open>not busy, ACK idle, selected, no error\<close>
abbreviation LPT_CONTROL_STROBE :: u8 where "LPT_CONTROL_STROBE \<equiv> 0x01"

definition lit :: "u8 \<Rightarrow> u8 \<Rightarrow> bool" where
  "lit register bits \<longleftrightarrow> register AND bits \<noteq> 0"

subsection \<open>State\<close>

record comm_port =
  BasePort :: u16
  Irq :: u8
  IsFitted :: bool
  Ier :: u8
  Lcr :: u8
  Mcr :: u8
  Scr :: u8
  Fcr :: u8
  Lsr :: u8
  Msr :: u8
  DivisorLow :: u8
  DivisorHigh :: u8
  Rbr :: u8
  IsThrePending :: bool
  Receive :: "nat \<Rightarrow> u8"
  ReceiveHead :: u16
  ReceiveLength :: u16
  TransmitCount :: u32
  ReceiveCount :: u32
  Overruns :: u32
  Breaks :: u32

record lpt_port =
  LptBasePort :: u16
  IsLptFitted :: bool
  Data :: u8
  Control :: u8
  BytesPrinted :: u32

record 'x comm_state =
  IsOnBus :: bool \<comment> \<open>whether the bus pointer is set\<close>
  CommPorts :: "nat \<Rightarrow> comm_port"
  Printers :: "nat \<Rightarrow> lpt_port"
  Sink :: "(nat \<Rightarrow> u8 \<Rightarrow> 'x \<Rightarrow> 'x) option"
  SinkContext :: 'x
  PrinterSink :: "(nat \<Rightarrow> u8 \<Rightarrow> 'x \<Rightarrow> 'x) option"
  PrinterSinkContext :: 'x

definition put_uart :: "nat \<Rightarrow> comm_port \<Rightarrow> 'x comm_state \<Rightarrow> 'x comm_state" where
  "put_uart i uart s = s\<lparr>CommPorts := (CommPorts s)(i := uart)\<rparr>"

subsection \<open>Interrupts\<close>

definition CommReceiveTrigger :: "comm_port \<Rightarrow> u16" where
  "CommReceiveTrigger uart =
     (if lit (Fcr uart) COMM_FCR_ENABLE then [1, 4, 8, 14] ! unat (drop_bit 6 (Fcr uart) AND 3) else 1)"

definition CommInterruptIdentification :: "comm_port \<Rightarrow> u8" where
  "CommInterruptIdentification uart =
     (if lit (Ier uart) COMM_IER_LINE_STATUS \<and> lit (Lsr uart) COMM_LSR_ERRORS then COMM_IIR_LINE_STATUS
      else if lit (Ier uart) COMM_IER_RECEIVED_DATA \<and> lit (Lsr uart) COMM_LSR_DATA_READY then
        let fifoCount = (if ReceiveLength uart < COMM_FIFO_DEPTH then ReceiveLength uart else COMM_FIFO_DEPTH)
        in if \<not> lit (Fcr uart) COMM_FCR_ENABLE \<or> fifoCount \<ge> CommReceiveTrigger uart then COMM_IIR_RECEIVED_DATA
           else COMM_IIR_CHARACTER_TIMEOUT
      else if lit (Ier uart) COMM_IER_THR_EMPTY \<and> IsThrePending uart then COMM_IIR_THR_EMPTY
      else if lit (Ier uart) COMM_IER_MODEM_STATUS \<and> lit (Msr uart) COMM_MSR_DELTAS then COMM_IIR_MODEM_STATUS
      else COMM_IIR_NO_INTERRUPT)"

definition CommUpdateIrq :: "'x comm_state \<Rightarrow> comm_port \<Rightarrow> u8 option" where
  \<comment> \<open>the line raised, if the gate is open and something is owed\<close>
  "CommUpdateIrq s uart =
     (if \<not> IsOnBus s \<or> \<not> IsFitted uart then None
      else if \<not> lit (Mcr uart) COMM_MCR_OUT2 \<or> lit (Mcr uart) COMM_MCR_LOOP then None
      else if lit (CommInterruptIdentification uart) COMM_IIR_NO_INTERRUPT then None
      else Some (Irq uart))"

subsection \<open>Modem lines and the receive ring\<close>

definition CommLoopbackModemStatus :: "u8 \<Rightarrow> u8" where
  "CommLoopbackModemStatus modemControl =
     (if lit modemControl COMM_MCR_DTR then COMM_MSR_DSR else 0) OR
     (if lit modemControl COMM_MCR_RTS then COMM_MSR_CTS else 0) OR
     (if lit modemControl COMM_MCR_OUT1 then COMM_MSR_RI else 0) OR
     (if lit modemControl COMM_MCR_OUT2 then COMM_MSR_DCD else 0)"

definition CommSetModemStatus :: "u8 \<Rightarrow> comm_port \<Rightarrow> comm_port" where
  "CommSetModemStatus lines uart =
     (let oldLines = Msr uart AND COMM_MSR_LINES;
          changed = drop_bit 4 (oldLines XOR (lines AND COMM_MSR_LINES));
          deltas = (if lit changed COMM_MSR_TRAILING_RI
                    then (changed AND NOT COMM_MSR_TRAILING_RI) OR (if lit oldLines COMM_MSR_RI then COMM_MSR_TRAILING_RI else 0)
                    else changed)
      in uart\<lparr>Msr := (lines AND COMM_MSR_LINES) OR ((Msr uart AND COMM_MSR_DELTAS) OR deltas)\<rparr>)"

definition ring_index :: "u16 \<Rightarrow> u16 \<Rightarrow> nat" where
  "ring_index head offset = (unat head + unat offset) mod COMM_RECEIVE_RING_SIZE"

definition CommPushReceive :: "u8 \<Rightarrow> comm_port \<Rightarrow> comm_port" where
  "CommPushReceive v uart =
     (if unat (ReceiveLength uart) \<ge> COMM_RECEIVE_RING_SIZE then uart\<lparr>Lsr := Lsr uart OR COMM_LSR_OVERRUN\<rparr>
      else uart\<lparr>Receive := (Receive uart)(ring_index (ReceiveHead uart) (ReceiveLength uart) := v),
             ReceiveLength := ReceiveLength uart + 1, Lsr := Lsr uart OR COMM_LSR_DATA_READY,
             ReceiveCount := ReceiveCount uart + 1\<rparr>)"

definition CommPopReceive :: "comm_port \<Rightarrow> u8 \<times> comm_port" where
  "CommPopReceive uart =
     (if ReceiveLength uart = 0 then (Rbr uart, uart)
      else let v = Receive uart (unat (ReceiveHead uart));
               uart1 = uart\<lparr>ReceiveHead := of_nat (ring_index (ReceiveHead uart) 1), ReceiveLength := ReceiveLength uart - 1\<rparr>;
               uart2 = (if ReceiveLength uart1 = 0 then uart1\<lparr>Lsr := Lsr uart1 AND NOT COMM_LSR_DATA_READY\<rparr> else uart1)
           in (v, uart2\<lparr>Rbr := v\<rparr>))"

definition CommFind :: "'x comm_state \<Rightarrow> u16 \<Rightarrow> nat option" where
  "CommFind s port =
     (let i = first_from (\<lambda>i. IsFitted (CommPorts s i) \<and> BasePort (CommPorts s i) \<le> port \<and>
                port < BasePort (CommPorts s i) + COMM_REGISTERS) 0 COMM_MAX_PORTS
      in if i < COMM_MAX_PORTS then Some i else None)"

subsection \<open>The registers\<close>

definition read_register :: "comm_port \<Rightarrow> u16 \<Rightarrow> u8 \<times> comm_port" where
  \<comment> \<open>the switch of \<^verbatim>\<open>CommPortIn\<close>, by the offset from the base\<close>
  "read_register uart registerIndex =
     (if registerIndex = 0 then if lit (Lcr uart) COMM_LCR_DLAB then (DivisorLow uart, uart) else CommPopReceive uart
      else if registerIndex = 1 then (if lit (Lcr uart) COMM_LCR_DLAB then DivisorHigh uart else Ier uart, uart)
      else if registerIndex = 2 then
        let identification = CommInterruptIdentification uart
        in (if lit (Fcr uart) COMM_FCR_ENABLE then identification OR COMM_IIR_FIFOS_ENABLED else identification,
            if identification = COMM_IIR_THR_EMPTY then uart\<lparr>IsThrePending := False\<rparr> else uart)
      else if registerIndex = 3 then (Lcr uart, uart)
      else if registerIndex = 4 then (Mcr uart, uart)
      else if registerIndex = 5
      then (Lsr uart, uart\<lparr>Lsr := Lsr uart AND NOT (COMM_LSR_ERRORS OR COMM_LSR_FIFO_ERROR)\<rparr>)
      else if registerIndex = 6 then (Msr uart, uart\<lparr>Msr := Msr uart AND COMM_MSR_LINES\<rparr>)
      else (Scr uart, uart))"

definition CommPortIn :: "'x comm_state \<Rightarrow> u16 \<Rightarrow> u8 \<Rightarrow> 'x comm_state \<times> u32" where
  "CommPortIn s port width =
     (case CommFind s port of None \<Rightarrow> (s, COMM_UNDRIVEN_BUS)
      | Some i \<Rightarrow> let (v, uart) = read_register (CommPorts s i) (port - BasePort (CommPorts s i))
                  in (put_uart i uart s, ucast v))"

definition transmit :: "nat \<Rightarrow> u8 \<Rightarrow> 'x comm_state \<Rightarrow> 'x comm_state \<times> u8 option" where
  \<comment> \<open>a byte written to the transmit holding register, by a port or by INT 14h\<close>
  "transmit i v s =
     (let uart = (CommPorts s i)\<lparr>TransmitCount := TransmitCount (CommPorts s i) + 1\<rparr>;
          looped = lit (Mcr uart) COMM_MCR_LOOP;
          uart1 = (if looped then CommPushReceive v uart else uart);
          s1 = (case Sink s of Some sink \<Rightarrow> if looped then s else s\<lparr>SinkContext := sink i v (SinkContext s)\<rparr>
                | None \<Rightarrow> s);
          uart2 = uart1\<lparr>IsThrePending := True\<rparr>
      in (put_uart i uart2 s1, CommUpdateIrq s1 uart2))"

definition write_ier :: "u8 \<Rightarrow> comm_port \<Rightarrow> comm_port" where
  "write_ier v uart =
     (let uart1 = (if \<not> lit (Ier uart) COMM_IER_THR_EMPTY \<and> lit v COMM_IER_THR_EMPTY \<and> lit (Lsr uart) COMM_LSR_THR_EMPTY
                   then uart\<lparr>IsThrePending := True\<rparr> else uart)
      in uart1\<lparr>Ier := v AND COMM_IER_VALID_BITS\<rparr>)"

definition write_fcr :: "u8 \<Rightarrow> comm_port \<Rightarrow> comm_port" where
  "write_fcr v uart =
     (let uart1 = uart\<lparr>Fcr := v\<rparr>
      in if lit v COMM_FCR_RX_RESET
         then uart1\<lparr>ReceiveHead := 0, ReceiveLength := 0, Lsr := Lsr uart1 AND NOT COMM_LSR_DATA_READY\<rparr> else uart1)"

definition loop_break :: "comm_port \<Rightarrow> comm_port" where
  \<comment> \<open>the break the receiver sees in loopback\<close>
  "loop_break uart =
     (let uart1 = CommPushReceive 0 uart; uart2 = uart1\<lparr>Lsr := Lsr uart1 OR COMM_LSR_BREAK\<rparr>
      in if lit (Fcr uart2) COMM_FCR_ENABLE then uart2\<lparr>Lsr := Lsr uart2 OR COMM_LSR_FIFO_ERROR\<rparr> else uart2)"

definition write_lcr :: "nat \<Rightarrow> u8 \<Rightarrow> 'x comm_state \<Rightarrow> 'x comm_state \<times> u8 option" where
  "write_lcr i v s =
     (let uart = CommPorts s i; uart1 = uart\<lparr>Lcr := v\<rparr>
      in if \<not> lit (Lcr uart) COMM_LCR_BREAK \<and> lit v COMM_LCR_BREAK then
           let uart2 = uart1\<lparr>Breaks := Breaks uart1 + 1\<rparr>
           in if lit (Mcr uart2) COMM_MCR_LOOP
              then (put_uart i (loop_break uart2) s, CommUpdateIrq s (loop_break uart2))
              else (put_uart i uart2 s, None)
         else (put_uart i uart1 s, None))"

definition write_mcr :: "u8 \<Rightarrow> comm_port \<Rightarrow> comm_port" where
  "write_mcr v uart =
     (let uart1 = uart\<lparr>Mcr := v AND COMM_MCR_VALID_BITS\<rparr>
      in CommSetModemStatus (if lit (Mcr uart1) COMM_MCR_LOOP then CommLoopbackModemStatus (Mcr uart1) else 0) uart1)"

definition with_irq :: "nat \<Rightarrow> comm_port \<Rightarrow> 'x comm_state \<Rightarrow> 'x comm_state \<times> u8 option" where
  "with_irq i uart s = (put_uart i uart s, CommUpdateIrq s uart)"

definition write_register :: "nat \<Rightarrow> u16 \<Rightarrow> u8 \<Rightarrow> 'x comm_state \<Rightarrow> 'x comm_state \<times> u8 option" where
  \<comment> \<open>the switch of \<^verbatim>\<open>CommPortOut\<close>\<close>
  "write_register i registerIndex v s =
     (let uart = CommPorts s i; dlab = lit (Lcr uart) COMM_LCR_DLAB
      in if registerIndex = 0
         then if dlab then (put_uart i (uart\<lparr>DivisorLow := v\<rparr>) s, None) else transmit i v s
         else if registerIndex = 1
         then if dlab then (put_uart i (uart\<lparr>DivisorHigh := v\<rparr>) s, None) else with_irq i (write_ier v uart) s
         else if registerIndex = 2 then (put_uart i (write_fcr v uart) s, None)
         else if registerIndex = 3 then write_lcr i v s
         else if registerIndex = 4 then with_irq i (write_mcr v uart) s
         else if registerIndex = 7 then (put_uart i (uart\<lparr>Scr := v\<rparr>) s, None)
         else (s, None))"

definition CommPortOut :: "'x comm_state \<Rightarrow> u16 \<Rightarrow> u8 \<Rightarrow> u32 \<Rightarrow> 'x comm_state \<times> u8 option" where
  "CommPortOut s port width v =
     (case CommFind s port of None \<Rightarrow> (s, None)
      | Some i \<Rightarrow> write_register i (port - BasePort (CommPorts s i)) (ucast v) s)"
subsection \<open>INT 14h\<close>

definition VddSetAx :: "ntvdd_registers \<Rightarrow> u16 \<Rightarrow> ntvdd_registers" where
  "VddSetAx registers v = registers\<lparr>Eax := (Eax registers AND 0xFFFF0000) OR ucast v\<rparr>"

definition CommLineStatus :: "comm_port \<Rightarrow> u8" where
  "CommLineStatus uart = Lsr uart AND 0x7F"

definition status_word :: "comm_port \<Rightarrow> u8 \<Rightarrow> u16" where
  "status_word uart low = push_bit 8 (ucast (CommLineStatus uart)) OR ucast low"

definition baud_divisors :: "u16 list" where
  "baud_divisors = [1047, 768, 384, 192, 96, 48, 24, 12]"

definition int14_initialize :: "u8 \<Rightarrow> comm_port \<Rightarrow> comm_port" where
  "int14_initialize parameters uart =
     (let divisor = baud_divisors ! unat (drop_bit 5 parameters AND 7)
      in uart\<lparr>DivisorLow := ucast divisor, DivisorHigh := ucast (drop_bit 8 divisor), Lcr := parameters AND 0x1F\<rparr>)"

definition CommInt14 ::
  "'x comm_state \<Rightarrow> ntvdd_registers \<Rightarrow> ('x comm_state \<times> u8 option) \<times> ntvdd_registers" where
  "CommInt14 s registers =
     (let functionCode = VddGetAh registers; argument = VddGetAl registers; i = unat (VddGetDx registers)
      in if i \<ge> COMM_MAX_PORTS \<or> \<not> IsFitted (CommPorts s i) then ((s, None), VddSetAx registers COMM_INT14_TIMEOUT)
         else let uart = CommPorts s i
              in if functionCode = 0 then
                   let uart1 = int14_initialize argument uart
                   in ((put_uart i uart1 s, None), VddSetAx registers (status_word uart1 (Msr uart1)))
                 else if functionCode = 1 then
                   let (s1, irq) = transmit i argument s
                   in ((s1, irq), VddSetAx registers (status_word (CommPorts s1 i) argument))
                 else if functionCode = 2 then
                   if ReceiveLength uart \<noteq> 0 then
                     let (received, uart1) = CommPopReceive uart
                     in ((put_uart i uart1 s, None), VddSetAx registers (status_word uart1 received))
                   else ((s, None), VddSetAx registers COMM_INT14_TIMEOUT)
                 else if functionCode = 3 then ((s, None), VddSetAx registers (status_word uart (Msr uart)))
                 else ((s, None), VddSetAx registers COMM_INT14_TIMEOUT))"

subsection \<open>The parallel ports\<close>

definition LptFind :: "'x comm_state \<Rightarrow> u16 \<Rightarrow> nat option" where
  "LptFind s port =
     (let i = first_from (\<lambda>i. IsLptFitted (Printers s i) \<and> LptBasePort (Printers s i) \<le> port \<and>
                port < LptBasePort (Printers s i) + LPT_REGISTERS) 0 LPT_MAX_PORTS
      in if i < LPT_MAX_PORTS then Some i else None)"

definition put_printer :: "nat \<Rightarrow> lpt_port \<Rightarrow> 'x comm_state \<Rightarrow> 'x comm_state" where
  "put_printer i printer s = s\<lparr>Printers := (Printers s)(i := printer)\<rparr>"

definition LptPortIn :: "'x comm_state \<Rightarrow> u16 \<Rightarrow> u8 \<Rightarrow> 'x comm_state \<times> u32" where
  "LptPortIn s port width =
     (s, case LptFind s port of None \<Rightarrow> COMM_UNDRIVEN_BUS
         | Some i \<Rightarrow> let registerIndex = port - LptBasePort (Printers s i)
                     in if registerIndex = 0 then ucast (Data (Printers s i))
                        else if registerIndex = 1 then ucast LPT_STATUS_READY
                        else ucast (Control (Printers s i)))"

definition strobe :: "nat \<Rightarrow> 'x comm_state \<Rightarrow> 'x comm_state" where
  \<comment> \<open>the printer takes the latched byte\<close>
  "strobe i s =
     (let printer = Printers s i;
          s1 = put_printer i (printer\<lparr>BytesPrinted := BytesPrinted printer + 1\<rparr>) s
      in case PrinterSink s1 of None \<Rightarrow> s1
         | Some sink \<Rightarrow> s1\<lparr>PrinterSinkContext := sink i (Data printer) (PrinterSinkContext s1)\<rparr>)"

definition LptPortOut :: "'x comm_state \<Rightarrow> u16 \<Rightarrow> u8 \<Rightarrow> u32 \<Rightarrow> 'x comm_state" where
  "LptPortOut s port width v =
     (case LptFind s port of None \<Rightarrow> s
      | Some i \<Rightarrow>
          let printer = Printers s i; registerIndex = port - LptBasePort printer
          in if registerIndex = 0 then put_printer i (printer\<lparr>Data := ucast v\<rparr>) s
             else if registerIndex = 2 then
               let s1 = put_printer i (printer\<lparr>Control := ucast v\<rparr>) s
               in if \<not> lit (Control printer) LPT_CONTROL_STROBE \<and> lit (ucast v) LPT_CONTROL_STROBE then strobe i s1 else s1
             else s)"

subsection \<open>The host's side and the device's life\<close>

definition VddLptIsFitted :: "'x comm_state \<Rightarrow> int \<Rightarrow> bool" where
  "VddLptIsFitted s port = (if port < 0 \<or> port \<ge> int LPT_MAX_PORTS then False else IsLptFitted (Printers s (nat port)))"

definition VddLptIndexOfBase :: "'x comm_state \<Rightarrow> u16 \<Rightarrow> int" where
  "VddLptIndexOfBase s basePort =
     (let i = first_from (\<lambda>i. IsLptFitted (Printers s i) \<and> LptBasePort (Printers s i) = basePort \<and> basePort \<noteq> 0) 0 LPT_MAX_PORTS
      in if i < LPT_MAX_PORTS then int i else - 1)"

definition VddCommIsFitted :: "'x comm_state \<Rightarrow> int \<Rightarrow> bool" where
  "VddCommIsFitted s port = (if port < 0 \<or> port \<ge> int COMM_MAX_PORTS then False else IsFitted (CommPorts s (nat port)))"

definition VddCommReceive :: "'x comm_state \<Rightarrow> int \<Rightarrow> u8 \<Rightarrow> ('x comm_state \<times> u8 option) \<times> int" where
  "VddCommReceive s port v =
     (if port < 0 \<or> port \<ge> int COMM_MAX_PORTS \<or> \<not> IsFitted (CommPorts s (nat port)) then ((s, None), - 1)
      else let uart = CommPorts s (nat port)
           in if unat (ReceiveLength uart) \<ge> COMM_RECEIVE_RING_SIZE
              then ((put_uart (nat port) (uart\<lparr>Lsr := Lsr uart OR COMM_LSR_OVERRUN, Overruns := Overruns uart + 1\<rparr>) s, None), - 1)
              else (with_irq (nat port) (CommPushReceive v uart) s, 0))"

definition reset_uart :: "comm_port \<Rightarrow> comm_port" where
  "reset_uart uart = uart\<lparr>Ier := 0, Lcr := 0, Mcr := 0, Scr := 0, Fcr := 0, DivisorLow := 12, DivisorHigh := 0, Rbr := 0,
     IsThrePending := False, ReceiveHead := 0, ReceiveLength := 0, TransmitCount := 0, ReceiveCount := 0, Overruns := 0,
     Breaks := 0, Lsr := COMM_LSR_THR_EMPTY OR COMM_LSR_TRANSMITTER_EMPTY, Msr := 0\<rparr>"

definition VddCommReset :: "'x comm_state \<Rightarrow> 'x comm_state" where
  "VddCommReset s = s\<lparr>CommPorts := (\<lambda>i. if i < COMM_MAX_PORTS then reset_uart (CommPorts s i) else CommPorts s i),
     Printers := (\<lambda>i. if i < LPT_MAX_PORTS then (Printers s i)\<lparr>Control := 0, BytesPrinted := 0\<rparr> else Printers s i)\<rparr>"

definition comm_out ::
  "('m \<Rightarrow> u8 \<Rightarrow> 'm) \<Rightarrow> ('m \<Rightarrow> 'x comm_state) \<Rightarrow> ('x comm_state \<Rightarrow> 'm \<Rightarrow> 'm) \<Rightarrow> 'm \<Rightarrow> u16 \<Rightarrow> u8 \<Rightarrow> u32 \<Rightarrow> 'm" where
  \<comment> \<open>\<^verbatim>\<open>CommPortOut\<close> in the device's slot of a machine, with the bus's interrupt sink\<close>
  "comm_out raise get put machine port width v =
     (case CommPortOut (get machine) port width v of
        (s, irq) \<Rightarrow> (case irq of None \<Rightarrow> put s machine | Some line \<Rightarrow> raise (put s machine) line))"

definition comm_int14 ::
  "('m \<Rightarrow> u8 \<Rightarrow> 'm) \<Rightarrow> ('m \<Rightarrow> 'x comm_state) \<Rightarrow> ('x comm_state \<Rightarrow> 'm \<Rightarrow> 'm) \<Rightarrow> 'm \<Rightarrow> ntvdd_registers \<Rightarrow> 'm \<times> ntvdd_registers" where
  "comm_int14 raise get put machine registers =
     (case CommInt14 (get machine) registers of
        ((s, irq), registers') \<Rightarrow> (case irq of None \<Rightarrow> put s machine | Some line \<Rightarrow> raise (put s machine) line, registers'))"

primrec claim_uarts ::
  "nat list \<Rightarrow> ('m \<Rightarrow> u8 \<Rightarrow> 'm) \<Rightarrow> ('m \<Rightarrow> 'x comm_state) \<Rightarrow> ('x comm_state \<Rightarrow> 'm \<Rightarrow> 'm) \<Rightarrow>
   ('m, ntvdd_registers, 'f) vdd_bus \<times> 'x comm_state \<Rightarrow> ('m, ntvdd_registers, 'f) vdd_bus \<times> 'x comm_state" where
  "claim_uarts [] raise get put bs = bs"
| "claim_uarts (i # is) raise get put bs =
     (let (bus, s) = bs; uart = CommPorts s i
      in claim_uarts is raise get put
           (if \<not> IsFitted uart then bs
            else let (bus1, ok) = VddClaimPorts bus (BasePort uart) (BasePort uart + 7)
                       (Some (slot_in get put CommPortIn)) (Some (comm_out raise get put))
                 in (bus1, if ok then s else put_uart i (uart\<lparr>IsFitted := False\<rparr>) s)))"

primrec claim_printers ::
  "nat list \<Rightarrow> ('m \<Rightarrow> 'x comm_state) \<Rightarrow> ('x comm_state \<Rightarrow> 'm \<Rightarrow> 'm) \<Rightarrow>
   ('m, ntvdd_registers, 'f) vdd_bus \<times> 'x comm_state \<Rightarrow> ('m, ntvdd_registers, 'f) vdd_bus \<times> 'x comm_state" where
  "claim_printers [] get put bs = bs"
| "claim_printers (i # is) get put bs =
     (let (bus, s) = bs; printer = Printers s i
      in claim_printers is get put
           (if \<not> IsLptFitted printer then bs
            else let (bus1, ok) = VddClaimPorts bus (LptBasePort printer) (LptBasePort printer + 2)
                       (Some (slot_in get put LptPortIn)) (Some (slot_out get put LptPortOut))
                 in (bus1, if ok then s else put_printer i (printer\<lparr>IsLptFitted := False\<rparr>) s)))"

definition VddCommInitialize ::
  "('m \<Rightarrow> u8 \<Rightarrow> 'm) \<Rightarrow> ('m \<Rightarrow> 'x comm_state) \<Rightarrow> ('x comm_state \<Rightarrow> 'm \<Rightarrow> 'm) \<Rightarrow>
   ('m, ntvdd_registers, 'f) vdd_bus \<Rightarrow> 'm \<Rightarrow> ('m, ntvdd_registers, 'f) vdd_bus \<times> 'm \<times> bool" where
  "VddCommInitialize raise get put bus machine =
     (let (bus1, s1) = claim_uarts [0..<COMM_MAX_PORTS] raise get put (bus, (get machine)\<lparr>IsOnBus := True\<rparr>);
          (bus2, s2) = claim_printers [0..<LPT_MAX_PORTS] get put (bus1, s1);
          (bus3, ok) = VddClaimInterrupt bus2 0x14 (Some (comm_int14 raise get put))
      in if ok then (bus3, put (VddCommReset s2) machine, True) else (bus3, put s2 machine, False))"

end
