(* ===== verification/Comm_Contract.thy ===== *)
theory Comm_Contract
  imports Vdd_Comm
begin

text \<open>
  What the serial and parallel ports promise: the receive ring is a queue, whichever way bytes come in
  and go out; loopback is the self-test drivers run; the interrupt a driver takes names its reason;
  INT 14h and the registers are two doors to one part; and a printed byte leaves on the strobe edge.
\<close>

named_theorems uart_facts "the parts of a UART after an operation"

lemma lit_bit [simp]:
  "lit v 0x01 \<longleftrightarrow> bit v 0" "lit v 0x02 \<longleftrightarrow> bit v 1" "lit v 0x04 \<longleftrightarrow> bit v 2" "lit v 0x08 \<longleftrightarrow> bit v 3"
  "lit v 0x10 \<longleftrightarrow> bit v 4" "lit v 0x20 \<longleftrightarrow> bit v 5" "lit v 0x40 \<longleftrightarrow> bit v 6" "lit v 0x80 \<longleftrightarrow> bit v 7"
proof -
  have lit: "lit v (push_bit n 1) \<longleftrightarrow> bit v n" for n
    by (simp add: lit_def bit_iff_and_push_bit_not_eq_0)
  show "lit v 0x01 \<longleftrightarrow> bit v 0" "lit v 0x02 \<longleftrightarrow> bit v 1" "lit v 0x04 \<longleftrightarrow> bit v 2" "lit v 0x08 \<longleftrightarrow> bit v 3"
    "lit v 0x10 \<longleftrightarrow> bit v 4" "lit v 0x20 \<longleftrightarrow> bit v 5" "lit v 0x40 \<longleftrightarrow> bit v 6" "lit v 0x80 \<longleftrightarrow> bit v 7"
    using lit [of 0] lit [of 1] lit [of 2] lit [of 3] lit [of 4] lit [of 5] lit [of 6] lit [of 7]
    by (simp_all del: push_bit_of_1 add: push_bit_eq_mult)
qed

section \<open>The receive ring is a queue\<close>

definition waiting :: "comm_port \<Rightarrow> u8 list" where
  "waiting uart = map (\<lambda>k. Receive uart ((unat (ReceiveHead uart) + k) mod 256)) [0..<unat (ReceiveLength uart)]"

definition uart_ok :: "comm_port \<Rightarrow> bool" where
  "uart_ok uart \<longleftrightarrow> unat (ReceiveHead uart) < 256 \<and> unat (ReceiveLength uart) \<le> 256 \<and>
     (bit (Lsr uart) 0 \<longleftrightarrow> ReceiveLength uart \<noteq> 0) \<and> bit (Lsr uart) 5 \<and> bit (Lsr uart) 6 \<and>
     Ier uart AND 0xF0 = 0 \<and> Mcr uart AND 0xE0 = 0"

lemma length_waiting [simp]: "length (waiting uart) = unat (ReceiveLength uart)"
  by (simp add: waiting_def)

lemma waiting_nil: "waiting uart = [] \<longleftrightarrow> ReceiveLength uart = 0"
  by (simp add: waiting_def unat_eq_0)

lemma word_next: "unat (w + 1 :: u16) = unat w + 1" if "unat w \<le> 256"
  using that by (simp add: unat_word_ariths)

lemma CommPushReceive_waiting:
  assumes "uart_ok uart"
  shows "waiting (CommPushReceive v uart) = (if length (waiting uart) < 256 then waiting uart @ [v] else waiting uart)"
proof (cases "unat (ReceiveLength uart) < 256")
  case True
  have "(unat (ReceiveHead uart) + k) mod 256 \<noteq> (unat (ReceiveHead uart) + unat (ReceiveLength uart)) mod 256"
    if "k < unat (ReceiveLength uart)" for k
  proof
    assume "(unat (ReceiveHead uart) + k) mod 256 = (unat (ReceiveHead uart) + unat (ReceiveLength uart)) mod 256"
    then have "k mod 256 = unat (ReceiveLength uart) mod 256" by (simp add: mod_add_left_eq nat_mod_eq_iff)
    then show False using that True by simp
  qed
  then show ?thesis
    using True by (simp add: CommPushReceive_def waiting_def ring_index_def word_next)
next
  case False
  then show ?thesis by (simp add: CommPushReceive_def waiting_def)
qed


lemma ring_next: "uart_ok uart \<Longrightarrow> unat (of_nat (ring_index (ReceiveHead uart) 1) :: u16) = (unat (ReceiveHead uart) + 1) mod 256"
  by (simp add: ring_index_def unat_of_nat_small)

lemma word_less: "w \<noteq> 0 \<Longrightarrow> unat (w - 1 :: u16) = unat w - 1"
  by (simp add: unat_minus_one)

lemma CommPopReceive_waiting:
  assumes ok: "uart_ok uart"
  shows "case waiting uart of [] \<Rightarrow> CommPopReceive uart = (Rbr uart, uart)
    | v # rest \<Rightarrow> fst (CommPopReceive uart) = v \<and> waiting (snd (CommPopReceive uart)) = rest"
proof (cases "ReceiveLength uart = 0")
  case True
  then show ?thesis using waiting_nil [of uart] by (simp add: CommPopReceive_def)
next
  case False
  define n where "n = unat (ReceiveLength uart) - 1"
  have len: "unat (ReceiveLength uart) = Suc n" using False by (simp add: n_def unat_eq_0 [symmetric])
  have shift: "((unat (ReceiveHead uart) + 1) mod 256 + k) mod 256 = (unat (ReceiveHead uart) + Suc k) mod 256" for k
    by (simp add: mod_simps)
  have "waiting uart = Receive uart (unat (ReceiveHead uart) mod 256) #
      map (\<lambda>k. Receive uart ((unat (ReceiveHead uart) + Suc k) mod 256)) [0..<n]"
    by (simp add: waiting_def len upt_conv_Cons map_Suc_upt [symmetric] del: upt_Suc)
  then have w: "waiting uart = Receive uart (unat (ReceiveHead uart)) #
      map (\<lambda>k. Receive uart ((unat (ReceiveHead uart) + Suc k) mod 256)) [0..<n]"
    using ok by (simp add: uart_ok_def)
  have "waiting (snd (CommPopReceive uart)) =
      map (\<lambda>k. Receive uart (((unat (ReceiveHead uart) + 1) mod 256 + k) mod 256)) [0..<n]"
    using False ring_next [OF ok] word_less [OF False] by (auto simp: CommPopReceive_def waiting_def Let_def len)
  moreover have "fst (CommPopReceive uart) = Receive uart (unat (ReceiveHead uart))"
    using False by (simp add: CommPopReceive_def Let_def)
  ultimately show ?thesis unfolding w shift by simp
qed

lemma ok_push [uart_facts]: "uart_ok uart \<Longrightarrow> uart_ok (CommPushReceive v uart)"
  using word_next [of "ReceiveLength uart"]
  by (auto simp: uart_ok_def CommPushReceive_def bit_simps unat_eq_0 [symmetric])

lemma ok_pop [uart_facts]: "uart_ok uart \<Longrightarrow> uart_ok (snd (CommPopReceive uart))"
  using ring_next [of uart] word_less [of "ReceiveLength uart"]
  by (auto simp: uart_ok_def CommPopReceive_def Let_def bit_simps ring_index_def)
section \<open>Every access keeps the invariant and the queue\<close>

lemma CommPorts_put [simp]: "CommPorts (put_uart j uart s) i = (if i = j then uart else CommPorts s i)"
  by (simp add: put_uart_def)

lemma CommSetModemStatus_parts [simp]:
  "Receive (CommSetModemStatus l u) = Receive u" "ReceiveHead (CommSetModemStatus l u) = ReceiveHead u"
  "ReceiveLength (CommSetModemStatus l u) = ReceiveLength u" "Lsr (CommSetModemStatus l u) = Lsr u"
  "Ier (CommSetModemStatus l u) = Ier u" "Mcr (CommSetModemStatus l u) = Mcr u" "IsFitted (CommSetModemStatus l u) = IsFitted u"
  "BasePort (CommSetModemStatus l u) = BasePort u" "Irq (CommSetModemStatus l u) = Irq u" "Lcr (CommSetModemStatus l u) = Lcr u"
  by (simp_all add: CommSetModemStatus_def Let_def)

lemma waiting_kept [uart_facts]:
  "waiting (u\<lparr>TransmitCount := c\<rparr>) = waiting u" "waiting (u\<lparr>IsThrePending := b\<rparr>) = waiting u" "waiting (u\<lparr>Lsr := v\<rparr>) = waiting u"
  "waiting (u\<lparr>Msr := v\<rparr>) = waiting u" "waiting (u\<lparr>Lcr := v\<rparr>) = waiting u" "waiting (u\<lparr>Breaks := c\<rparr>) = waiting u"
  "waiting (u\<lparr>DivisorLow := v\<rparr>) = waiting u" "waiting (u\<lparr>DivisorHigh := v\<rparr>) = waiting u" "waiting (u\<lparr>Scr := v\<rparr>) = waiting u"
  "waiting (u\<lparr>Overruns := c\<rparr>) = waiting u" "waiting (u\<lparr>Fcr := v\<rparr>) = waiting u"
  "waiting (write_ier v u) = waiting u" "waiting (write_mcr v u) = waiting u" "waiting (int14_initialize v u) = waiting u"
  by (simp_all add: waiting_def write_ier_def write_mcr_def int14_initialize_def Let_def)

lemma ok_kept [uart_facts]:
  "uart_ok (u\<lparr>TransmitCount := c\<rparr>) \<longleftrightarrow> uart_ok u" "uart_ok (u\<lparr>IsThrePending := b\<rparr>) \<longleftrightarrow> uart_ok u"
  "uart_ok (u\<lparr>Msr := v\<rparr>) \<longleftrightarrow> uart_ok u" "uart_ok (u\<lparr>Lcr := v\<rparr>) \<longleftrightarrow> uart_ok u" "uart_ok (u\<lparr>Breaks := c\<rparr>) \<longleftrightarrow> uart_ok u"
  "uart_ok (u\<lparr>DivisorLow := v\<rparr>) \<longleftrightarrow> uart_ok u" "uart_ok (u\<lparr>DivisorHigh := v\<rparr>) \<longleftrightarrow> uart_ok u"
  "uart_ok (u\<lparr>Scr := v\<rparr>) \<longleftrightarrow> uart_ok u" "uart_ok (u\<lparr>Overruns := c\<rparr>) \<longleftrightarrow> uart_ok u" "uart_ok (u\<lparr>Fcr := v\<rparr>) \<longleftrightarrow> uart_ok u"
  "uart_ok (int14_initialize v u) \<longleftrightarrow> uart_ok u"
  by (simp_all add: uart_ok_def int14_initialize_def Let_def)

lemma ok_lsr [uart_facts]:
  "uart_ok u \<Longrightarrow> uart_ok (u\<lparr>Lsr := Lsr u OR 0x02\<rparr>)" "uart_ok u \<Longrightarrow> uart_ok (u\<lparr>Lsr := Lsr u OR 0x10\<rparr>)"
  "uart_ok u \<Longrightarrow> uart_ok (u\<lparr>Lsr := Lsr u OR 0x80\<rparr>)"
  "uart_ok u \<Longrightarrow> uart_ok (u\<lparr>Lsr := Lsr u AND NOT (COMM_LSR_ERRORS OR COMM_LSR_FIFO_ERROR)\<rparr>)"
  by (simp_all add: uart_ok_def bit_simps)

lemma masked_out: "(v AND 0x0F :: u8) AND 0xF0 = 0" "(v AND 0x1F :: u8) AND 0xE0 = 0"
  by (simp_all add: and.assoc)

lemma ok_write [uart_facts]:
  "uart_ok u \<Longrightarrow> uart_ok (write_ier v u)" "uart_ok u \<Longrightarrow> uart_ok (write_fcr v u)" "uart_ok u \<Longrightarrow> uart_ok (write_mcr v u)"
  "uart_ok u \<Longrightarrow> uart_ok (loop_break u)"
proof -
  show "uart_ok u \<Longrightarrow> uart_ok (write_ier v u)" "uart_ok u \<Longrightarrow> uart_ok (write_mcr v u)"
    by (auto simp: uart_ok_def write_ier_def write_mcr_def Let_def masked_out)
  show "uart_ok u \<Longrightarrow> uart_ok (write_fcr v u)"
    by (auto simp: uart_ok_def write_fcr_def Let_def bit_simps)
  show "uart_ok u \<Longrightarrow> uart_ok (loop_break u)"
    using ok_lsr(2) [OF ok_push [of u 0]] ok_lsr(3) [OF ok_lsr(2) [OF ok_push [of u 0]]] by (simp add: loop_break_def Let_def)
qed

lemma ok_read [uart_facts]: "uart_ok u \<Longrightarrow> uart_ok (snd (read_register u r))"
  using ok_pop [of u] ok_lsr(4) [of u] by (simp add: read_register_def Let_def ok_kept)

definition comm_ok :: "'x comm_state \<Rightarrow> bool" where
  "comm_ok s \<longleftrightarrow> (\<forall>i<COMM_MAX_PORTS. uart_ok (CommPorts s i))"

lemma ok_put: "comm_ok s \<Longrightarrow> uart_ok uart \<Longrightarrow> comm_ok (put_uart i uart s)"
  by (simp add: comm_ok_def)

lemma CommFind_bound: "CommFind s port = Some i \<Longrightarrow> i < COMM_MAX_PORTS"
  by (auto simp: CommFind_def Let_def split: if_splits)

lemma ok_context [simp]: "comm_ok (s\<lparr>SinkContext := x\<rparr>) \<longleftrightarrow> comm_ok s"
  by (simp add: comm_ok_def)

lemma ok_transmit:
  assumes "comm_ok s" "i < COMM_MAX_PORTS"
  shows "comm_ok (fst (transmit i v s))"
proof -
  have "uart_ok (CommPorts s i)" using assms by (simp add: comm_ok_def)
  then show ?thesis
    using assms by (simp add: transmit_def Let_def ok_put ok_kept ok_push split: option.split)
qed

lemma comm_in_ok: "comm_ok s \<Longrightarrow> comm_ok (fst (CommPortIn s port width))"
  by (auto simp: CommPortIn_def Let_def split_beta comm_ok_def ok_read dest: CommFind_bound split: option.split)

lemma ok_write_register:
  assumes "comm_ok s" "i < COMM_MAX_PORTS"
  shows "comm_ok (fst (write_register i r v s))"
proof -
  have u: "uart_ok (CommPorts s i)" using assms by (simp add: comm_ok_def)
  show ?thesis
    using assms(1) u ok_transmit [OF assms]
    by (simp add: write_register_def write_lcr_def with_irq_def Let_def ok_put ok_kept ok_write)
qed

lemma comm_out_ok: "comm_ok s \<Longrightarrow> comm_ok (fst (CommPortOut s port width v))"
  by (auto simp: CommPortOut_def ok_write_register dest: CommFind_bound split: option.split)

abbreviation comm_port_out :: "'x comm_state \<Rightarrow> u16 \<Rightarrow> u8 \<Rightarrow> u32 \<Rightarrow> 'x comm_state" where
  "comm_port_out s port width v \<equiv> fst (CommPortOut s port width v)"

interpretation comm: port_device CommPortIn comm_port_out comm_ok
  by unfold_locales (simp_all add: comm_in_ok comm_out_ok)

lemma ok_int14: "comm_ok s \<Longrightarrow> comm_ok (fst (fst (CommInt14 s r)))"
  by (auto simp: CommInt14_def Let_def split_beta ok_put ok_kept ok_transmit ok_pop comm_ok_def [of s])

lemma ok_receive: "comm_ok s \<Longrightarrow> comm_ok (fst (fst (VddCommReceive s port v)))"
  by (auto simp: VddCommReceive_def with_irq_def Let_def ok_push ok_kept ok_lsr comm_ok_def)

lemma ok_reset: "comm_ok (VddCommReset s)"
  by (simp add: comm_ok_def VddCommReset_def reset_uart_def uart_ok_def bit_simps)
subsection \<open>In order, once, from every source to every reader\<close>

datatype comm_event = Arrives int u8 | Access port_access | Bios ntvdd_registers

fun comm_happens :: "comm_event \<Rightarrow> 'x comm_state \<Rightarrow> 'x comm_state" where
  "comm_happens (Arrives port v) s = fst (fst (VddCommReceive s port v))"
| "comm_happens (Access a) s = guest_access CommPortIn comm_port_out a s"
| "comm_happens (Bios registers) s = fst (fst (CommInt14 s registers))"

definition has_room :: "comm_port \<Rightarrow> bool" where
  "has_room uart \<longleftrightarrow> length (waiting uart) < 256"

definition looped :: "comm_port \<Rightarrow> bool" where
  "looped uart \<longleftrightarrow> bit (Mcr uart) 4"

definition at_register :: "'x comm_state \<Rightarrow> nat \<Rightarrow> u16 \<Rightarrow> u16 \<Rightarrow> bool" where
  "at_register s i port r \<longleftrightarrow> CommFind s port = Some i \<and> port - BasePort (CommPorts s i) = r"

fun added :: "nat \<Rightarrow> comm_event \<Rightarrow> 'x comm_state \<Rightarrow> u8 list" where
  \<comment> \<open>what an event puts on port \<open>i\<close>'s line: a byte the host queued, one looped back, or a break\<close>
  "added i (Arrives port v) s = (if port = int i \<and> snd (VddCommReceive s port v) = 0 then [v] else [])"
| "added i (Access (GuestOut port width v)) s =
     (let uart = CommPorts s i
      in if \<not> looped uart \<or> \<not> has_room uart then []
         else if at_register s i port 0 \<and> \<not> bit (Lcr uart) 7 then [ucast v]
         else if at_register s i port 3 \<and> \<not> bit (Lcr uart) 6 \<and> bit v 6 then [0] else [])"
| "added i (Bios r) s =
     (let uart = CommPorts s i
      in if VddGetAh r = 1 \<and> unat (VddGetDx r) = i \<and> IsFitted uart \<and> looped uart \<and> has_room uart then [VddGetAl r] else [])"
| "added i (Access (GuestIn port width)) s = []"

fun taken :: "nat \<Rightarrow> comm_event \<Rightarrow> 'x comm_state \<Rightarrow> u8 list" where
  \<comment> \<open>what an event gives the guest from port \<open>i\<close>\<close>
  "taken i (Access (GuestIn port width)) s =
     (let uart = CommPorts s i
      in if at_register s i port 0 \<and> \<not> bit (Lcr uart) 7 \<and> waiting uart \<noteq> [] then [ucast (snd (CommPortIn s port width))] else [])"
| "taken i (Bios r) s =
     (let uart = CommPorts s i
      in if VddGetAh r = 2 \<and> unat (VddGetDx r) = i \<and> IsFitted uart \<and> waiting uart \<noteq> [] then [VddGetAl (snd (CommInt14 s r))] else [])"
| "taken i (Access (GuestOut port width v)) s = []"
| "taken i (Arrives port v) s = []"

fun flushes :: "nat \<Rightarrow> comm_event \<Rightarrow> 'x comm_state \<Rightarrow> bool" where
  \<comment> \<open>the receiver reset of the FIFO control register\<close>
  "flushes i (Access (GuestOut port width v)) s \<longleftrightarrow> at_register s i port 2 \<and> bit v 1"
| "flushes i e s \<longleftrightarrow> False"

lemma ucast_low_bit: "n < 8 \<Longrightarrow> bit (ucast (v :: u32) :: u8) n \<longleftrightarrow> bit v n"
  by (simp add: bit_simps)

lemma waiting_push: "uart_ok u \<Longrightarrow> waiting (CommPushReceive v u) = waiting u @ (if has_room u then [v] else [])"
  by (simp add: CommPushReceive_waiting has_room_def)

lemma waiting_break: "uart_ok u \<Longrightarrow> waiting (loop_break u) = waiting u @ (if has_room u then [0] else [])"
  by (simp add: loop_break_def Let_def waiting_kept waiting_push)

lemma has_room_kept [simp]: "has_room (u\<lparr>TransmitCount := c\<rparr>) = has_room u" "has_room (u\<lparr>Lcr := l\<rparr>) = has_room u"
  "has_room (u\<lparr>Lcr := l, Breaks := c\<rparr>) = has_room u"
  by (simp_all add: has_room_def)

lemma waiting_transmit:
  assumes "comm_ok s" "i < COMM_MAX_PORTS" "j < COMM_MAX_PORTS"
  shows "waiting (CommPorts (fst (transmit j v s)) i) =
    waiting (CommPorts s i) @ (if i = j \<and> looped (CommPorts s i) \<and> has_room (CommPorts s i) then [v] else [])"
proof -
  have "uart_ok (CommPorts s j)" using assms by (simp add: comm_ok_def)
  then show ?thesis
    by (auto simp: transmit_def Let_def waiting_kept waiting_push ok_kept looped_def split: option.split)
qed

lemma waiting_pop:
  assumes "uart_ok u"
  shows "waiting u \<noteq> [] \<Longrightarrow> fst (CommPopReceive u) # waiting (snd (CommPopReceive u)) = waiting u"
    "waiting u = [] \<Longrightarrow> waiting (snd (CommPopReceive u)) = []"
  using CommPopReceive_waiting [OF assms] by (auto split: list.splits)
lemma step_receive:
  assumes "comm_ok s" "i < COMM_MAX_PORTS"
  shows "waiting (CommPorts (fst (fst (VddCommReceive s port v))) i) = waiting (CommPorts s i) @ added i (Arrives port v) s"
proof (cases "port < 0 \<or> port \<ge> 4 \<or> \<not> IsFitted (CommPorts s (nat port))")
  case False
  then have "uart_ok (CommPorts s (nat port))" using assms by (simp add: comm_ok_def nat_less_iff)
  then show ?thesis using False
    by (auto simp: VddCommReceive_def with_irq_def Let_def waiting_kept waiting_push has_room_def)
qed (simp add: VddCommReceive_def)

lemma step_in:
  assumes "comm_ok s" "i < COMM_MAX_PORTS"
  shows "taken i (Access (GuestIn port width)) s @ waiting (CommPorts (fst (CommPortIn s port width)) i) = waiting (CommPorts s i)"
proof (cases "CommFind s port = Some i")
  case True
  have "uart_ok (CommPorts s i)" using assms by (simp add: comm_ok_def)
  note pop = waiting_pop [OF this]
  show ?thesis
  proof (cases "port - BasePort (CommPorts s i) = 0 \<and> \<not> bit (Lcr (CommPorts s i)) 7")
    case True
    with \<open>CommFind s port = Some i\<close> show ?thesis
      using pop by (simp add: CommPortIn_def at_register_def read_register_def Let_def split_beta)
  next
    case False
    with \<open>CommFind s port = Some i\<close> show ?thesis
      by (auto simp: CommPortIn_def at_register_def read_register_def Let_def split_beta waiting_kept)
  qed
next
  case False
  then show ?thesis by (auto simp: CommPortIn_def at_register_def Let_def split_beta split: option.split)
qed

lemma step_out:
  assumes "comm_ok s" "i < COMM_MAX_PORTS" "\<not> flushes i (Access (GuestOut port width v)) s"
  shows "waiting (CommPorts (comm_port_out s port width v) i) = waiting (CommPorts s i) @ added i (Access (GuestOut port width v)) s"
proof (cases "CommFind s port")
  case (Some j)
  have j: "j < COMM_MAX_PORTS" using CommFind_bound [OF Some] .
  have ok: "uart_ok (CommPorts s j)" using assms j by (simp add: comm_ok_def)
  show ?thesis
  proof (cases "j = i")
    case True
    define r where "r = port - BasePort (CommPorts s i)"
    have at: "at_register s i port n \<longleftrightarrow> r = n" for n using Some True by (simp add: at_register_def r_def)
    have noflush: "r \<noteq> 2 \<or> \<not> bit v 1" using assms(3) by (auto simp: at)
    have out: "comm_port_out s port width v = fst (write_register i r (ucast v) s)"
      using Some True by (simp add: CommPortOut_def r_def)
    consider (thr) "r = 0" | (lcr) "r = 3" | (fcr) "r = 2" | (other) "r \<noteq> 0" "r \<noteq> 3" "r \<noteq> 2" by blast
    then show ?thesis
    proof cases
      case thr
      then show ?thesis
        unfolding out using waiting_transmit [OF assms(1,2,2)] ok True
        by (auto simp: at write_register_def Let_def waiting_kept looped_def)
    next
      case lcr
      then show ?thesis
        unfolding out using ok True
        by (auto simp: at write_register_def write_lcr_def Let_def waiting_kept waiting_break ok_kept looped_def ucast_low_bit)
    next
      case fcr
      then show ?thesis
        unfolding out using noflush by (simp add: at write_register_def Let_def write_fcr_def waiting_kept ucast_low_bit)
    next
      case other
      then show ?thesis
        unfolding out by (simp add: at write_register_def Let_def with_irq_def waiting_kept)
    qed
  next
    case False
    then have "CommPorts (fst (write_register j r b s)) i = CommPorts s i" for r b
      by (simp add: write_register_def Let_def transmit_def write_lcr_def with_irq_def split: option.split)
    then show ?thesis using Some False by (simp add: CommPortOut_def at_register_def Let_def)
  qed
qed (simp add: CommPortOut_def at_register_def Let_def)

lemma VddGetAl_SetAx [simp]: "VddGetAl (VddSetAx registers w) = ucast w"
  unfolding VddGetAl_def VddSetAx_def low_word_mask by (rule bit_word_eqI) (auto simp: bit_simps)

lemma status_word_low [simp]: "ucast (status_word uart v) = v"
  unfolding status_word_def by (rule bit_word_eqI) (auto simp: bit_simps)

lemma step_bios:
  assumes "comm_ok s" "i < COMM_MAX_PORTS"
  shows "taken i (Bios r) s @ waiting (CommPorts (comm_happens (Bios r) s) i) = waiting (CommPorts s i) @ added i (Bios r) s"
proof -
  define j where "j = unat (VddGetDx r)"
  show ?thesis
  proof (cases "j \<ge> 4 \<or> \<not> IsFitted (CommPorts s j)")
    case False
    then have "uart_ok (CommPorts s j)" using assms by (simp add: comm_ok_def)
    note pop = waiting_pop [OF this]
    show ?thesis
      using False pop waiting_transmit [OF assms(1,2), of j "VddGetAl r"] waiting_nil [of "CommPorts s j"]
      by (auto simp: CommInt14_def j_def [symmetric] Let_def split_beta waiting_kept)
  qed (use assms in \<open>auto simp: CommInt14_def j_def Let_def\<close>)
qed

lemma comm_step:
  assumes "comm_ok s" "i < COMM_MAX_PORTS" "\<not> flushes i e s"
  shows "taken i e s @ waiting (CommPorts (comm_happens e s) i) = waiting (CommPorts s i) @ added i e s" "comm_ok (comm_happens e s)"
proof -
  show "comm_ok (comm_happens e s)"
    using assms(1) by (cases e) (simp_all add: ok_receive ok_int14 comm.access_inv)
  show "taken i e s @ waiting (CommPorts (comm_happens e s) i) = waiting (CommPorts s i) @ added i e s"
  proof (cases e)
    case (Access a)
    show ?thesis
    proof (cases a)
      case (GuestIn port width)
      then show ?thesis using step_in [OF assms(1,2)] Access by simp
    next
      case (GuestOut port width v)
      then show ?thesis using step_out [of s i port width v] assms Access by simp
    qed
  qed (use step_receive [OF assms(1,2)] step_bios [OF assms(1,2)] in simp_all)
qed
primrec all_added :: "nat \<Rightarrow> comm_event list \<Rightarrow> 'x comm_state \<Rightarrow> u8 list" where
  "all_added i [] s = []"
| "all_added i (e # es) s = added i e s @ all_added i es (comm_happens e s)"

primrec all_taken :: "nat \<Rightarrow> comm_event list \<Rightarrow> 'x comm_state \<Rightarrow> u8 list" where
  "all_taken i [] s = []"
| "all_taken i (e # es) s = taken i e s @ all_taken i es (comm_happens e s)"

primrec never_flushed :: "nat \<Rightarrow> comm_event list \<Rightarrow> 'x comm_state \<Rightarrow> bool" where
  "never_flushed i [] s \<longleftrightarrow> True"
| "never_flushed i (e # es) s \<longleftrightarrow> \<not> flushes i e s \<and> never_flushed i es (comm_happens e s)"

text \<open>
  C37. Received bytes form a queue. From a reset, through any sequence of host bytes, register accesses at
  every width and INT 14h calls on all ports, the bytes a port gives its readers, by the receive register
  or by INT 14h, are the bytes that came in on it, from the host or looped back, in their order, each
  once: those read, then those still waiting, are those that came in, as long as the guest does not
  reset the receiver. A byte for which there is no room does not come in, and a read of the empty register is not counted. At most 256 wait, and the data-ready bit says whether any does.
\<close>

theorem comm_receive_queue:
  assumes "i < COMM_MAX_PORTS" and "never_flushed i events (VddCommReset s)"
  defines "uart \<equiv> CommPorts (fold comm_happens events (VddCommReset s)) i"
  shows "all_taken i events (VddCommReset s) @ waiting uart = all_added i events (VddCommReset s) \<and>
    length (waiting uart) \<le> 256 \<and> (bit (Lsr uart) 0 \<longleftrightarrow> waiting uart \<noteq> [])"
proof -
  have run: "all_taken i events s @ waiting (CommPorts (fold comm_happens events s) i) = waiting (CommPorts s i) @ all_added i events s \<and>
      comm_ok (fold comm_happens events s)" if "comm_ok s" "never_flushed i events s" for s :: "'a comm_state"
    using that
  proof (induction events arbitrary: s)
    case (Cons e es)
    then have step: "taken i e s @ waiting (CommPorts (comm_happens e s) i) = waiting (CommPorts s i) @ added i e s"
      and rest: "all_taken i es (comm_happens e s) @ waiting (CommPorts (fold comm_happens es (comm_happens e s)) i) =
        waiting (CommPorts (comm_happens e s) i) @ all_added i es (comm_happens e s)"
      and ok: "comm_ok (fold comm_happens es (comm_happens e s))"
      using comm_step [OF Cons.prems(1) assms(1), of e] Cons.IH [of "comm_happens e s"] by simp_all
    have "taken i e s @ waiting (CommPorts (comm_happens e s) i) @ all_added i es (comm_happens e s) =
        waiting (CommPorts s i) @ added i e s @ all_added i es (comm_happens e s)"
      using step by (metis append_assoc)
    with rest ok show ?case by simp
  qed simp
  have "waiting (CommPorts (VddCommReset s) i) = []"
    using assms(1) by (simp add: VddCommReset_def reset_uart_def waiting_def)
  with run [OF ok_reset assms(2)] show ?thesis
    using assms(1) waiting_nil [of uart] by (auto simp: uart_def comm_ok_def uart_ok_def)
qed

definition blank_uart :: "u16 \<Rightarrow> u8 \<Rightarrow> comm_port" where
  "blank_uart base irq = \<lparr>BasePort = base, Irq = irq, IsFitted = True, Ier = 0, Lcr = 0, Mcr = 0, Scr = 0, Fcr = 0, Lsr = 0,
     Msr = 0, DivisorLow = 0, DivisorHigh = 0, Rbr = 0, IsThrePending = False, Receive = (\<lambda>_. 0), ReceiveHead = 0,
     ReceiveLength = 0, TransmitCount = 0, ReceiveCount = 0, Overruns = 0, Breaks = 0\<rparr>"

definition two_ports :: "u8 list comm_state" where
  \<comment> \<open>COM1 and COM2 of a host that keeps what they send\<close>
  "two_ports = \<lparr>IsOnBus = True, CommPorts = (\<lambda>i. if i = 0 then blank_uart 0x3F8 4 else blank_uart 0x2F8 3),
     Printers = (\<lambda>i. \<lparr>LptBasePort = 0x378, IsLptFitted = i = 0, Data = 0, Control = 0, BytesPrinted = 0\<rparr>),
     Sink = Some (\<lambda>i v sent. sent @ [v]), SinkContext = [],
     PrinterSink = Some (\<lambda>i v sent. sent @ [v]), PrinterSinkContext = []\<rparr>"

definition queue_events :: "comm_event list" where
  \<comment> \<open>two bytes from the host, one looped back between them, and two reads\<close>
  "queue_events = [Arrives 0 0x41, Access (GuestOut 0x3FC 1 0x10), Access (GuestOut 0x3F8 1 0x42), Access (GuestIn 0x3F8 1),
     Arrives 0 0x43, Access (GuestIn 0x3F8 1)]"

lemma queue_events_run:
  "never_flushed 0 queue_events (VddCommReset two_ports)" "all_added 0 queue_events (VddCommReset two_ports) = [0x41, 0x42, 0x43]"
  "all_taken 0 queue_events (VddCommReset two_ports) = [0x41, 0x42]"
  by code_simp+

theorem comm_receive_queue_witness:
  "waiting (CommPorts (fold comm_happens queue_events (VddCommReset two_ports)) 0) = [0x43]"
  using comm_receive_queue [of 0 queue_events two_ports] queue_events_run by simp

end
