(* ===== verification/Comm_Drivers.thy ===== *)
theory Comm_Drivers
  imports Comm_Contract
begin

text \<open>
  The serial and parallel ports as drivers use them: the loopback self-test, the interrupt-driven
  transmit queue, INT 14h against the registers, and printing by the strobe.
\<close>

section \<open>Where a port sits\<close>

definition owns :: "'x comm_state \<Rightarrow> nat \<Rightarrow> bool" where
  \<comment> \<open>port \<open>i\<close> is fitted and answers at the eight addresses from its base\<close>
  "owns s i \<longleftrightarrow> i < COMM_MAX_PORTS \<and> IsFitted (CommPorts s i) \<and> (\<forall>r<COMM_REGISTERS. CommFind s (BasePort (CommPorts s i) + r) = Some i)"

abbreviation base :: "'x comm_state \<Rightarrow> nat \<Rightarrow> u16" where
  "base s i \<equiv> BasePort (CommPorts s i)"

definition same_wiring :: "'x comm_state \<Rightarrow> 'x comm_state \<Rightarrow> bool" where
  "same_wiring s s' \<longleftrightarrow> (\<forall>i. IsFitted (CommPorts s' i) = IsFitted (CommPorts s i) \<and> BasePort (CommPorts s' i) = BasePort (CommPorts s i) \<and>
     Irq (CommPorts s' i) = Irq (CommPorts s i))"

lemma wiring_find: "same_wiring s s' \<Longrightarrow> CommFind s' port = CommFind s port"
  by (simp add: same_wiring_def CommFind_def)

lemma wiring_owns: "same_wiring s s' \<Longrightarrow> owns s' i \<longleftrightarrow> owns s i"
  using wiring_find [of s s'] by (simp add: owns_def) (simp add: same_wiring_def)

lemma wiring_trans: "same_wiring s s' \<Longrightarrow> same_wiring s' s'' \<Longrightarrow> same_wiring s s''"
  by (simp add: same_wiring_def)

lemma wiring_put:
  "IsFitted uart = IsFitted (CommPorts s i) \<Longrightarrow> BasePort uart = BasePort (CommPorts s i) \<Longrightarrow> Irq uart = Irq (CommPorts s i) \<Longrightarrow>
   same_wiring s (put_uart i uart s)"
  by (simp add: same_wiring_def)

lemma register_out: "owns s i \<Longrightarrow> r < COMM_REGISTERS \<Longrightarrow> CommPortOut s (base s i + r) width v = write_register i r (ucast v) s"
  by (simp add: CommPortOut_def owns_def)

lemma register_in:
  "owns s i \<Longrightarrow> r < COMM_REGISTERS \<Longrightarrow>
   CommPortIn s (base s i + r) width = (put_uart i (snd (read_register (CommPorts s i) r)) s, ucast (fst (read_register (CommPorts s i) r)))"
  by (simp add: CommPortIn_def owns_def split_beta Let_def)

lemma push_parts [simp]:
  "IsFitted (CommPushReceive v u) = IsFitted u" "BasePort (CommPushReceive v u) = BasePort u" "Irq (CommPushReceive v u) = Irq u"
  "Lcr (CommPushReceive v u) = Lcr u" "Mcr (CommPushReceive v u) = Mcr u" "Ier (CommPushReceive v u) = Ier u"
  by (simp_all add: CommPushReceive_def)

lemma pop_parts [simp]:
  "IsFitted (snd (CommPopReceive u)) = IsFitted u" "BasePort (snd (CommPopReceive u)) = BasePort u"
  "Irq (snd (CommPopReceive u)) = Irq u" "Lcr (snd (CommPopReceive u)) = Lcr u" "Mcr (snd (CommPopReceive u)) = Mcr u"
  by (simp_all add: CommPopReceive_def Let_def)

lemma SinkContext_put [simp]: "SinkContext (put_uart i u s) = SinkContext s" "Sink (put_uart i u s) = Sink s" "IsOnBus (put_uart i u s) = IsOnBus s"
  by (simp_all add: put_uart_def)

lemma wiring_transmit: "same_wiring s (fst (transmit i v s))"
  by (auto simp: same_wiring_def transmit_def Let_def split: option.split)

section \<open>The loopback self-test\<close>

primrec send_bytes :: "u16 \<Rightarrow> u8 list \<Rightarrow> 'x comm_state \<Rightarrow> 'x comm_state \<times> u8 option list" where
  \<comment> \<open>a driver writing bytes to the transmit register, and the interrupts it hears\<close>
  "send_bytes port [] s = (s, [])"
| "send_bytes port (v # vs) s =
     (let (s1, irq) = CommPortOut s port 1 (ucast v); (s2, irqs) = send_bytes port vs s1 in (s2, irq # irqs))"

primrec read_bytes :: "u16 \<Rightarrow> nat \<Rightarrow> 'x comm_state \<Rightarrow> 'x comm_state \<times> u8 list" where
  "read_bytes port 0 s = (s, [])"
| "read_bytes port (Suc n) s =
     (let (s1, v) = CommPortIn s port 1; (s2, vs) = read_bytes port n s1 in (s2, ucast v # vs))"

definition in_loopback :: "'x comm_state \<Rightarrow> nat \<Rightarrow> bool" where
  "in_loopback s i \<longleftrightarrow> comm_ok s \<and> owns s i \<and> \<not> bit (Lcr (CommPorts s i)) 7 \<and> looped (CommPorts s i)"

lemma in_loopback_ok: "in_loopback s i \<Longrightarrow> uart_ok (CommPorts s i)"
  by (auto simp: in_loopback_def comm_ok_def owns_def)

lemma send_looped:
  assumes "in_loopback s i"
  shows "snd (CommPortOut s (base s i) 1 (ucast v)) = None"
    "in_loopback (fst (CommPortOut s (base s i) 1 (ucast v))) i"
    "base (fst (CommPortOut s (base s i) 1 (ucast v))) i = base s i"
    "SinkContext (fst (CommPortOut s (base s i) 1 (ucast v))) = SinkContext s"
    "waiting (CommPorts (fst (CommPortOut s (base s i) 1 (ucast v))) i) =
      waiting (CommPorts s i) @ (if has_room (CommPorts s i) then [v] else [])"
proof -
  have own: "owns s i" "i < COMM_MAX_PORTS" "comm_ok s" and loop: "\<not> bit (Lcr (CommPorts s i)) 7" "looped (CommPorts s i)"
    using assms by (auto simp: in_loopback_def owns_def)
  have out: "CommPortOut s (base s i) 1 (ucast v) = transmit i v s"
    using register_out [OF own(1), of 0 1 "ucast v"] loop by (simp add: write_register_def Let_def)
  have wire: "same_wiring s (fst (transmit i v s))"
    by (rule wiring_transmit)
  show "snd (CommPortOut s (base s i) 1 (ucast v)) = None"
    unfolding out using loop by (simp add: transmit_def Let_def CommUpdateIrq_def looped_def)
  show "in_loopback (fst (CommPortOut s (base s i) 1 (ucast v))) i"
    unfolding out using loop ok_transmit [OF own(3,2)] wiring_owns [OF wire, of i] own
    by (simp add: in_loopback_def) (auto simp: transmit_def Let_def looped_def split: option.split)
  show "base (fst (CommPortOut s (base s i) 1 (ucast v))) i = base s i"
    unfolding out using wire by (simp add: same_wiring_def)
  show "SinkContext (fst (CommPortOut s (base s i) 1 (ucast v))) = SinkContext s"
    unfolding out using loop by (simp add: transmit_def Let_def looped_def split: option.split)
  show "waiting (CommPorts (fst (CommPortOut s (base s i) 1 (ucast v))) i) =
      waiting (CommPorts s i) @ (if has_room (CommPorts s i) then [v] else [])"
    unfolding out using waiting_transmit [OF own(3,2,2)] loop by simp
qed

lemma send_bytes_looped:
  assumes "in_loopback s i" "length (waiting (CommPorts s i)) + length vs \<le> 256"
  shows "in_loopback (fst (send_bytes (base s i) vs s)) i \<and> base (fst (send_bytes (base s i) vs s)) i = base s i \<and>
    SinkContext (fst (send_bytes (base s i) vs s)) = SinkContext s \<and> set (snd (send_bytes (base s i) vs s)) \<subseteq> {None} \<and>
    waiting (CommPorts (fst (send_bytes (base s i) vs s)) i) = waiting (CommPorts s i) @ vs"
  using assms
proof (induction vs arbitrary: s)
  case (Cons v vs)
  obtain s1 irq where out: "CommPortOut s (base s i) 1 (ucast v) = (s1, irq)" by (metis surj_pair)
  have one: "irq = None" "in_loopback s1 i" "base s1 i = base s i" "SinkContext s1 = SinkContext s"
    "waiting (CommPorts s1 i) = waiting (CommPorts s i) @ [v]"
    using send_looped [OF Cons.prems(1), of v] Cons.prems(2) by (simp_all add: out has_room_def)
  have "length (waiting (CommPorts s1 i)) + length vs \<le> 256" unfolding one(5) using Cons.prems(2) by simp
  from Cons.IH [OF one(2) this] show ?case by (auto simp: out one split_beta)
qed simp

lemma read_looped:
  assumes "in_loopback s i" "waiting (CommPorts s i) = v # vs"
  shows "snd (CommPortIn s (base s i) 1) = ucast v" "in_loopback (fst (CommPortIn s (base s i) 1)) i"
    "base (fst (CommPortIn s (base s i) 1)) i = base s i"
    "SinkContext (fst (CommPortIn s (base s i) 1)) = SinkContext s"
    "waiting (CommPorts (fst (CommPortIn s (base s i) 1)) i) = vs"
proof -
  have own: "owns s i" "i < COMM_MAX_PORTS" "comm_ok s" and loop: "\<not> bit (Lcr (CommPorts s i)) 7" "looped (CommPorts s i)"
    using assms by (auto simp: in_loopback_def owns_def)
  have ok: "uart_ok (CommPorts s i)" using own by (simp add: comm_ok_def)
  have pin: "CommPortIn s (base s i) 1 = (put_uart i (snd (CommPopReceive (CommPorts s i))) s, ucast (fst (CommPopReceive (CommPorts s i))))"
    using register_in [OF own(1), of 0 1] loop by (simp add: read_register_def)
  have wire: "same_wiring s (put_uart i (snd (CommPopReceive (CommPorts s i))) s)" by (rule wiring_put) simp_all
  show "snd (CommPortIn s (base s i) 1) = ucast v" "SinkContext (fst (CommPortIn s (base s i) 1)) = SinkContext s"
    "waiting (CommPorts (fst (CommPortIn s (base s i) 1)) i) = vs"
    using waiting_pop(1) [OF ok] assms(2) by (simp_all add: pin)
  show "base (fst (CommPortIn s (base s i) 1)) i = base s i" by (simp add: pin)
  show "in_loopback (fst (CommPortIn s (base s i) 1)) i"
    using own loop wiring_owns [OF wire, of i] ok_put [OF own(3) ok_pop [OF ok]] by (simp add: in_loopback_def pin looped_def)
qed

lemma read_bytes_looped:
  assumes "in_loopback s i"
  shows "snd (read_bytes (base s i) (length (waiting (CommPorts s i))) s) = waiting (CommPorts s i) \<and>
    waiting (CommPorts (fst (read_bytes (base s i) (length (waiting (CommPorts s i))) s)) i) = [] \<and>
    SinkContext (fst (read_bytes (base s i) (length (waiting (CommPorts s i))) s)) = SinkContext s"
proof -
  have "snd (read_bytes (base s i) (length vs) s) = vs \<and> waiting (CommPorts (fst (read_bytes (base s i) (length vs) s)) i) = [] \<and>
      SinkContext (fst (read_bytes (base s i) (length vs) s)) = SinkContext s"
    if "in_loopback s i" "waiting (CommPorts s i) = vs" for vs and s :: "'a comm_state"
    using that
  proof (induction vs arbitrary: s)
    case (Cons v vs)
    obtain s1 w where pin: "CommPortIn s (base s i) 1 = (s1, w)" by (metis surj_pair)
    with read_looped [OF Cons.prems] Cons.IH [of s1] show ?case by (simp add: split_beta)
  qed simp
  from this [OF assms refl] show ?thesis .
qed


lemma write_mcr_loop:
  assumes "bit v 4"
  shows "Mcr (write_mcr v u) = v AND 0x1F" "Lcr (write_mcr v u) = Lcr u"
    "IsFitted (write_mcr v u) = IsFitted u" "BasePort (write_mcr v u) = BasePort u" "Irq (write_mcr v u) = Irq u"
    "bit (Msr (write_mcr v u)) 4 = bit v 1" "bit (Msr (write_mcr v u)) 5 = bit v 0" "bit (Msr (write_mcr v u)) 6 = bit v 2"
    "bit (Msr (write_mcr v u)) 7 = bit v 3"
proof -
  show "Mcr (write_mcr v u) = v AND 0x1F" "Lcr (write_mcr v u) = Lcr u"
    "IsFitted (write_mcr v u) = IsFitted u" "BasePort (write_mcr v u) = BasePort u" "Irq (write_mcr v u) = Irq u"
    by (simp_all add: write_mcr_def Let_def)
  have low: "bit (drop_bit 4 x AND NOT 0x04 OR (if b then 0x04 else 0) :: u8) n = False" "bit (drop_bit 4 x :: u8) n = False"
    if "n \<in> {4, 5, 6, 7}" for x b n
    using that bit_imp_le_length [of x "4 + n"] by (auto simp: bit_simps)
  have high: "bit (Msr (CommSetModemStatus l w)) n = bit l n" if "n \<in> {4, 5, 6, 7}" for l w n
    using that low [OF that] by (auto simp: CommSetModemStatus_def Let_def bit_simps)
  show "bit (Msr (write_mcr v u)) 4 = bit v 1" "bit (Msr (write_mcr v u)) 5 = bit v 0" "bit (Msr (write_mcr v u)) 6 = bit v 2"
    "bit (Msr (write_mcr v u)) 7 = bit v 3"
    using assms by (simp_all add: write_mcr_def Let_def high CommLoopbackModemStatus_def bit_simps)
qed
text \<open>
  C38. A port passes its loopback self-test. With the modem control register's LOOP bit written, and up to
  256 bytes sent, the guest reads the same bytes back in order and the receiver is then empty; nothing
  reaches the host and no interrupt line is raised, whatever is enabled; and the modem status shows
  DTR as DSR, RTS as CTS, OUT1 as RI and OUT2 as DCD.
\<close>

theorem comm_loopback_self_test:
  fixes v :: u8
  assumes "comm_ok s" and "owns s i" and "\<not> bit (Lcr (CommPorts s i)) 7" and "waiting (CommPorts s i) = []"
    and "length bs \<le> 256" and "bit v 4"
  defines "s1 \<equiv> comm_port_out s (base s i + 4) 1 (ucast v)"
  defines "s2 \<equiv> fst (send_bytes (base s i) bs s1)" and "msr \<equiv> snd (CommPortIn s1 (base s i + 6) 1)"
  defines "s3 \<equiv> fst (read_bytes (base s i) (length bs) s2)"
  shows "snd (read_bytes (base s i) (length bs) s2) = bs \<and> waiting (CommPorts s3 i) = [] \<and> SinkContext s3 = SinkContext s \<and>
    set (snd (CommPortOut s (base s i + 4) 1 (ucast v)) # snd (send_bytes (base s i) bs s1)) = {None} \<and>
    (bit msr 5 \<longleftrightarrow> bit v 0) \<and> (bit msr 4 \<longleftrightarrow> bit v 1) \<and> (bit msr 6 \<longleftrightarrow> bit v 2) \<and> (bit msr 7 \<longleftrightarrow> bit v 3)"
proof -
  define uart where "uart = write_mcr v (CommPorts s i)"
  have i: "i < COMM_MAX_PORTS" using assms(2) by (simp add: owns_def)
  then have "uart_ok uart" using assms(1) by (simp add: uart_def ok_write comm_ok_def)
  have out: "CommPortOut s (base s i + 4) 1 (ucast v) = with_irq i uart s"
    using register_out [OF assms(2), of 4 1 "ucast v"] by (simp add: write_register_def Let_def uart_def)
  have s1: "s1 = put_uart i uart s" by (simp add: s1_def out with_irq_def)
  have wire: "same_wiring s s1" unfolding s1 uart_def using assms(6) by (intro wiring_put) (simp_all add: write_mcr_loop)
  have loop: "in_loopback s1 i"
    using wiring_owns [OF wire, of i] assms(1-3,6) ok_put [OF assms(1) \<open>uart_ok uart\<close>]
    by (simp add: in_loopback_def s1 looped_def uart_def write_mcr_loop bit_simps)
  have base: "base s1 i = base s i" using wire by (simp add: same_wiring_def)
  have empty: "waiting (CommPorts s1 i) = []" using assms(4) by (simp add: s1 uart_def waiting_kept)
  have sent: "in_loopback s2 i" "base s2 i = base s i" "SinkContext s2 = SinkContext s" "set (snd (send_bytes (base s i) bs s1)) \<subseteq> {None}"
    "waiting (CommPorts s2 i) = bs"
    using send_bytes_looped [OF loop, of bs] assms(5) by (simp_all add: base empty s2_def) (simp add: s1)
  have got: "snd (read_bytes (base s i) (length bs) s2) = bs" "waiting (CommPorts s3 i) = []" "SinkContext s3 = SinkContext s"
    using read_bytes_looped [OF sent(1)] sent unfolding s3_def sent(5) by (simp_all add: sent)
  have quiet: "snd (CommPortOut s (base s i + 4) 1 (ucast v)) = None"
    using assms(6) by (simp add: out with_irq_def CommUpdateIrq_def uart_def write_mcr_loop bit_simps)
  have own: "owns s1 i" using wiring_owns [OF wire, of i] assms(2) by simp
  have "msr = ucast (Msr uart)"
    using register_in [OF own, of 6 1] by (simp add: msr_def base read_register_def Let_def) (simp add: s1)
  then have "bit msr n = bit (Msr uart) n" if "n < 8" for n using that by (simp add: bit_simps)
  with got quiet sent(4) show ?thesis
    using write_mcr_loop(6-9) [OF assms(6)] by (auto simp: uart_def)
qed

lemma two_ports_owned: "owns (VddCommReset two_ports) 0"
proof -
  have "CommFind (VddCommReset two_ports) (0x3F8 + r) = Some 0" if "r < 8" for r :: u16
  proof -
    have "unat r < 8" using that by (simp add: word_less_nat_alt)
    then have "r \<in> {0, 1, 2, 3, 4, 5, 6, 7}" by (auto simp: word_unat_eq_iff)
    then show ?thesis by (auto simp: CommFind_def first_from.simps VddCommReset_def reset_uart_def two_ports_def blank_uart_def)
  qed
  then show ?thesis by (simp add: owns_def VddCommReset_def reset_uart_def two_ports_def blank_uart_def)
qed

theorem comm_loopback_self_test_witness:
  "snd (read_bytes 0x3F8 3 (fst (send_bytes 0x3F8 [0x55, 0xAA, 0x00] (comm_port_out (VddCommReset two_ports) 0x3FC 1 0x1B)))) = [0x55, 0xAA, 0x00]"
proof -
  have base: "base (VddCommReset two_ports) 0 = 0x3F8" by (simp add: VddCommReset_def reset_uart_def two_ports_def blank_uart_def)
  have start: "\<not> bit (Lcr (CommPorts (VddCommReset two_ports) 0)) 7" "waiting (CommPorts (VddCommReset two_ports) 0) = []"
    by (simp_all add: VddCommReset_def reset_uart_def waiting_def)
  show ?thesis
    using comm_loopback_self_test [OF ok_reset two_ports_owned start, of "[0x55, 0xAA, 0x00]" "0x1B"] unfolding base
    by (simp add: numeral_3_eq_3 del: send_bytes.simps read_bytes.simps)
qed
section \<open>Interrupt-driven transmission\<close>

primrec transmit_driver :: "nat \<Rightarrow> u16 \<Rightarrow> u8 option \<Rightarrow> u8 list \<Rightarrow> 'x comm_state \<Rightarrow> 'x comm_state \<times> u8 list \<times> nat" where
  \<comment> \<open>the interrupt routine of a driver, run for every interrupt it hears: it reads the identification and,
      when the holding register is empty, writes the next byte of its queue. The answer counts interrupts\<close>
  "transmit_driver 0 port irq queue s = (s, queue, 0)"
| "transmit_driver (Suc n) port irq queue s =
     (case irq of None \<Rightarrow> (s, queue, 0)
      | Some line \<Rightarrow>
          let (s1, identification) = CommPortIn s (port + 2) 1
          in if (ucast identification :: u8) AND 0x0F = COMM_IIR_THR_EMPTY \<and> queue \<noteq> []
             then let (s2, irq2) = CommPortOut s1 port 1 (ucast (hd queue));
                      (s3, rest, interrupts) = transmit_driver n port irq2 (tl queue) s2
                  in (s3, rest, Suc interrupts)
             else (s1, queue, 1))"

definition ready_to_send :: "'x comm_state \<Rightarrow> nat \<Rightarrow> bool" where
  \<comment> \<open>on the bus, gate open, transmit interrupt alone enabled and owed\<close>
  "ready_to_send s i \<longleftrightarrow> owns s i \<and> IsOnBus s \<and> bit (Mcr (CommPorts s i)) 3 \<and> \<not> bit (Mcr (CommPorts s i)) 4 \<and>
     \<not> bit (Lcr (CommPorts s i)) 7 \<and> Ier (CommPorts s i) = COMM_IER_THR_EMPTY \<and> IsThrePending (CommPorts s i)"

lemma thr_identification:
  "Ier u = COMM_IER_THR_EMPTY \<Longrightarrow> CommInterruptIdentification u = (if IsThrePending u then COMM_IIR_THR_EMPTY else COMM_IIR_NO_INTERRUPT)"
  by (simp add: CommInterruptIdentification_def bit_simps)

lemma low_nibble: "((x OR 0xC0) AND 0x0F :: u8) = x AND 0x0F"
  by (simp add: bit.conj_disj_distrib2)

lemma driver_identifies:
  assumes "ready_to_send s i"
  defines "s1 \<equiv> put_uart i ((CommPorts s i)\<lparr>IsThrePending := False\<rparr>) s"
  shows "\<exists>v. CommPortIn s (base s i + 2) 1 = (s1, v) \<and> (ucast v :: u8) AND 0x0F = COMM_IIR_THR_EMPTY"
  using assms register_in [of s i 2 1]
  by (auto simp: ready_to_send_def read_register_def thr_identification Let_def low_nibble)

lemma driver_sends:
  assumes ready: "ready_to_send s i" and sink: "Sink s = Some sink"
  defines "s1 \<equiv> put_uart i ((CommPorts s i)\<lparr>IsThrePending := False\<rparr>) s"
  shows "\<exists>s2. CommPortOut s1 (base s i) 1 (ucast v) = (s2, Some (Irq (CommPorts s i))) \<and> ready_to_send s2 i \<and> base s2 i = base s i \<and>
    Irq (CommPorts s2 i) = Irq (CommPorts s i) \<and> Sink s2 = Sink s \<and> SinkContext s2 = sink i v (SinkContext s)"
proof -
  have wire: "same_wiring s s1" by (simp add: s1_def wiring_put)
  have own: "owns s1 i" "base s1 i = base s i"
    using wiring_owns [OF wire, of i] ready by (auto simp: ready_to_send_def s1_def)
  have out: "CommPortOut s1 (base s i) 1 (ucast v) = transmit i v s1"
    using register_out [OF own(1), of 0 1 "ucast v"] ready own(2) by (simp add: write_register_def Let_def ready_to_send_def s1_def)
  obtain s2 irq where t: "transmit i v s1 = (s2, irq)" by (metis surj_pair)
  have wire2: "same_wiring s1 s2"
    using wiring_transmit [of s1 i v] t by simp
  have fitted: "IsFitted (CommPorts s i)" using ready by (simp add: ready_to_send_def owns_def)
  have parts: "irq = Some (Irq (CommPorts s i))" "IsOnBus s2" "bit (Mcr (CommPorts s2 i)) 3" "\<not> bit (Mcr (CommPorts s2 i)) 4"
    "\<not> bit (Lcr (CommPorts s2 i)) 7" "Ier (CommPorts s2 i) = COMM_IER_THR_EMPTY" "IsThrePending (CommPorts s2 i)"
    "Sink s2 = Sink s" "SinkContext s2 = sink i v (SinkContext s)"
    using t ready sink fitted
    by (auto simp: transmit_def ready_to_send_def s1_def Let_def CommUpdateIrq_def thr_identification bit_simps)
  have "owns s2 i" "base s2 i = base s i" "Irq (CommPorts s2 i) = Irq (CommPorts s i)"
    using wiring_owns [OF wire2, of i] own wire wire2 by (auto simp: same_wiring_def)
  with parts t out show ?thesis by (simp add: ready_to_send_def)
qed

lemma driver_drains:
  assumes "ready_to_send s i" "Sink s = Some sink"
  shows "\<exists>s'. transmit_driver (Suc (length queue)) (base s i) (Some (Irq (CommPorts s i))) queue s = (s', [], Suc (length queue)) \<and>
    SinkContext s' = fold (sink i) queue (SinkContext s) \<and> \<not> IsThrePending (CommPorts s' i) \<and> Ier (CommPorts s' i) = COMM_IER_THR_EMPTY"
  using assms
proof (induction queue arbitrary: s)
  case Nil
  then show ?case using driver_identifies [OF Nil(1)] by (auto simp: ready_to_send_def)
next
  case (Cons v queue)
  from driver_sends [OF Cons.prems, of v] obtain s2
    where s2: "CommPortOut (put_uart i ((CommPorts s i)\<lparr>IsThrePending := False\<rparr>) s) (base s i) 1 (ucast v) = (s2, Some (Irq (CommPorts s i)))"
      "ready_to_send s2 i" "base s2 i = base s i" "Irq (CommPorts s2 i) = Irq (CommPorts s i)" "Sink s2 = Sink s"
      "SinkContext s2 = sink i v (SinkContext s)"
    by blast
  from Cons.IH [OF s2(2)] obtain s' where
    "transmit_driver (Suc (length queue)) (base s2 i) (Some (Irq (CommPorts s2 i))) queue s2 = (s', [], Suc (length queue))"
    "SinkContext s' = fold (sink i) queue (SinkContext s2)" "\<not> IsThrePending (CommPorts s' i)" "Ier (CommPorts s' i) = COMM_IER_THR_EMPTY"
    using Cons.prems(2) s2(5) by auto
  then show ?case
    using driver_identifies [OF Cons.prems(1)] s2 by (auto simp del: transmit_driver.simps simp: transmit_driver.simps(2) [of "Suc (length queue)"])
qed

text \<open>
  C39. Interrupt-driven transmission drains its queue. When a driver opens OUT2 and enables the transmit
  interrupt alone, with an empty holding register, the port raises its line at once; a routine that
  answers each interrupt by reading the identification and writing its next byte then sends every byte
  to the host, in order, and hears exactly one interrupt more than there are bytes: after the last the
  reason is cleared and none is owed.
\<close>

theorem comm_transmit_driver:
  assumes "comm_ok s" and "owns s i" and "IsOnBus s" and "Sink s = Some sink"
    and "bit (Mcr (CommPorts s i)) 3" and "\<not> bit (Mcr (CommPorts s i)) 4" and "\<not> bit (Lcr (CommPorts s i)) 7"
    and "\<not> bit (Ier (CommPorts s i)) 1"
  shows "\<exists>s1 s2. CommPortOut s (base s i + 1) 1 2 = (s1, Some (Irq (CommPorts s i))) \<and>
    transmit_driver (Suc (length queue)) (base s i) (Some (Irq (CommPorts s i))) queue s1 = (s2, [], Suc (length queue)) \<and>
    SinkContext s2 = fold (sink i) queue (SinkContext s) \<and> CommUpdateIrq s2 (CommPorts s2 i) = None"
proof -
  define uart where "uart = write_ier 2 (CommPorts s i)"
  have i: "i < COMM_MAX_PORTS" using assms(2) by (simp add: owns_def)
  then have thr: "bit (Lsr (CommPorts s i)) 5" using assms(1) by (simp add: comm_ok_def uart_ok_def)
  have parts: "Ier uart = COMM_IER_THR_EMPTY" "IsThrePending uart" "Mcr uart = Mcr (CommPorts s i)" "Lcr uart = Lcr (CommPorts s i)"
    "IsFitted uart = IsFitted (CommPorts s i)" "BasePort uart = BasePort (CommPorts s i)" "Irq uart = Irq (CommPorts s i)"
    using assms(8) thr by (simp_all add: uart_def write_ier_def Let_def bit_simps)
  have wire: "same_wiring s (put_uart i uart s)" by (rule wiring_put) (simp_all add: parts)
  have out: "CommPortOut s (base s i + 1) 1 2 = (put_uart i uart s, Some (Irq (CommPorts s i)))"
    using register_out [OF assms(2), of 1 1 2] assms
    by (simp add: write_register_def Let_def with_irq_def uart_def [symmetric] CommUpdateIrq_def parts thr_identification owns_def bit_simps)
  have "ready_to_send (put_uart i uart s) i"
    using wiring_owns [OF wire, of i] assms by (simp add: ready_to_send_def parts)
  from driver_drains [OF this, of sink queue] obtain s2 where
    "transmit_driver (Suc (length queue)) (base s i) (Some (Irq (CommPorts s i))) queue (put_uart i uart s) = (s2, [], Suc (length queue))"
    "SinkContext s2 = fold (sink i) queue (SinkContext s)" "\<not> IsThrePending (CommPorts s2 i)" "Ier (CommPorts s2 i) = COMM_IER_THR_EMPTY"
    using assms(4) by (auto simp: parts simp del: transmit_driver.simps)
  moreover from this have "CommUpdateIrq s2 (CommPorts s2 i) = None" by (simp add: CommUpdateIrq_def thr_identification)
  ultimately show ?thesis using out by blast
qed
definition gate_open :: "u8 list comm_state" where
  \<comment> \<open>COM1 after the driver set OUT2\<close>
  "gate_open = put_uart 0 (write_mcr 8 (CommPorts (VddCommReset two_ports) 0)) (VddCommReset two_ports)"

lemma gate_open_facts:
  "comm_ok gate_open" "owns gate_open 0" "base gate_open 0 = 0x3F8" "IsOnBus gate_open" "Sink gate_open = Some (\<lambda>i v sent. sent @ [v])"
  "SinkContext gate_open = []" "Irq (CommPorts gate_open 0) = 4" "bit (Mcr (CommPorts gate_open 0)) 3" "\<not> bit (Mcr (CommPorts gate_open 0)) 4"
  "\<not> bit (Lcr (CommPorts gate_open 0)) 7" "\<not> bit (Ier (CommPorts gate_open 0)) 1"
proof -
  have wire: "same_wiring (VddCommReset two_ports) gate_open"
    unfolding gate_open_def by (rule wiring_put) (simp_all add: write_mcr_def Let_def)
  show "owns gate_open 0" using wiring_owns [OF wire, of 0] two_ports_owned by simp
  have "uart_ok (CommPorts (VddCommReset two_ports) 0)" using ok_reset [of two_ports] by (simp add: comm_ok_def)
  then show "comm_ok gate_open" unfolding gate_open_def by (intro ok_put ok_reset ok_write)
  show "base gate_open 0 = 0x3F8" "IsOnBus gate_open" "Sink gate_open = Some (\<lambda>i v sent. sent @ [v])"
    "SinkContext gate_open = []" "Irq (CommPorts gate_open 0) = 4" "bit (Mcr (CommPorts gate_open 0)) 3" "\<not> bit (Mcr (CommPorts gate_open 0)) 4"
    "\<not> bit (Lcr (CommPorts gate_open 0)) 7" "\<not> bit (Ier (CommPorts gate_open 0)) 1"
    by (simp_all add: gate_open_def write_mcr_def Let_def VddCommReset_def reset_uart_def two_ports_def blank_uart_def bit_simps)
qed

theorem comm_transmit_driver_witness:
  "\<exists>s1 s2. CommPortOut gate_open 0x3F9 1 2 = (s1, Some 4) \<and>
    transmit_driver 4 0x3F8 (Some 4) [0x41, 0x54, 0x5A] s1 = (s2, [], 4) \<and> SinkContext s2 = [0x41, 0x54, 0x5A]"
proof -
  have "length [0x41, 0x54, 0x5A :: u8] + 1 = 4" by simp
  then show ?thesis
    using comm_transmit_driver [OF gate_open_facts(1,2,4,5,8-11), of "[0x41, 0x54, 0x5A]"]
    unfolding gate_open_facts(3,6,7) by (simp del: transmit_driver.simps add: eval_nat_numeral) blast
qed

section \<open>INT 14h and the registers\<close>

lemma put_put [simp]: "put_uart i u (put_uart i w s) = put_uart i u s"
  by (simp add: put_uart_def)

lemma owns_put:
  assumes "owns s i" "IsFitted u" "BasePort u = base s i" "Irq u = Irq (CommPorts s i)"
  shows "owns (put_uart i u s) i"
proof -
  have "same_wiring s (put_uart i u s)" using assms by (intro wiring_put) (simp_all add: owns_def)
  from wiring_owns [OF this, of i] assms(1) show ?thesis by simp
qed

definition port_initialize :: "u16 \<Rightarrow> u8 \<Rightarrow> 'x comm_state \<Rightarrow> 'x comm_state" where
  \<comment> \<open>a program that sets the line up itself: divisor latch access, the divisor, the line parameters\<close>
  "port_initialize port parameters s =
     (let divisor = baud_divisors ! unat (drop_bit 5 parameters AND 7);
          s1 = comm_port_out s (port + 3) 1 0x80;
          s2 = comm_port_out s1 port 1 (ucast divisor);
          s3 = comm_port_out s2 (port + 1) 1 (ucast (drop_bit 8 divisor))
      in comm_port_out s3 (port + 3) 1 (ucast (parameters AND 0x1F)))"

lemma port_initialize_same:
  assumes "owns s i"
  shows "port_initialize (base s i) parameters s = put_uart i (int14_initialize parameters (CommPorts s i)) s"
proof -
  let ?u = "CommPorts s i" and ?d = "baud_divisors ! unat (drop_bit 5 parameters AND 7)"
  have narrow: "(ucast (ucast w :: u32) :: u8) = ucast w" for w :: u16
    by (rule bit_word_eqI) (auto simp: bit_simps)
  have fitted: "IsFitted ?u" using assms by (simp add: owns_def)
  have s1: "comm_port_out s (base s i + 3) 1 0x80 = put_uart i (?u\<lparr>Lcr := 0x80\<rparr>) s"
    using register_out [OF assms, of 3 1 "0x80"] by (simp add: write_register_def write_lcr_def Let_def bit_simps)
  have own1: "owns (put_uart i (?u\<lparr>Lcr := 0x80\<rparr>) s) i" using assms fitted by (intro owns_put) simp_all
  have s2: "comm_port_out (put_uart i (?u\<lparr>Lcr := 0x80\<rparr>) s) (base s i) 1 (ucast ?d) = put_uart i (?u\<lparr>Lcr := 0x80, DivisorLow := ucast ?d\<rparr>) s"
    using register_out [OF own1, of 0 1 "ucast ?d"] by (simp add: write_register_def Let_def bit_simps narrow)
  have own2: "owns (put_uart i (?u\<lparr>Lcr := 0x80, DivisorLow := ucast ?d\<rparr>) s) i" using assms fitted by (intro owns_put) simp_all
  have s3: "comm_port_out (put_uart i (?u\<lparr>Lcr := 0x80, DivisorLow := ucast ?d\<rparr>) s) (base s i + 1) 1 (ucast (drop_bit 8 ?d)) =
      put_uart i (?u\<lparr>Lcr := 0x80, DivisorLow := ucast ?d, DivisorHigh := ucast (drop_bit 8 ?d)\<rparr>) s"
    using register_out [OF own2, of 1 1 "ucast (drop_bit 8 ?d)"] by (simp add: write_register_def Let_def bit_simps narrow)
  have own3: "owns (put_uart i (?u\<lparr>Lcr := 0x80, DivisorLow := ucast ?d, DivisorHigh := ucast (drop_bit 8 ?d)\<rparr>) s) i"
    using assms fitted by (intro owns_put) simp_all
  have s4: "comm_port_out (put_uart i (?u\<lparr>Lcr := 0x80, DivisorLow := ucast ?d, DivisorHigh := ucast (drop_bit 8 ?d)\<rparr>) s) (base s i + 3) 1
      (ucast (parameters AND 0x1F)) = put_uart i (int14_initialize parameters ?u) s"
    using register_out [OF own3, of 3 1 "ucast (parameters AND 0x1F)"]
    by (simp add: write_register_def write_lcr_def int14_initialize_def Let_def bit_simps)
  show ?thesis unfolding port_initialize_def Let_def s1 s2 s3 s4 ..
qed
lemma VddGetAh_SetAx [simp]: "VddGetAh (VddSetAx registers w) = ucast (drop_bit 8 w)"
  unfolding VddGetAh_def VddSetAx_def low_word_mask by (rule bit_word_eqI) (auto simp: bit_simps)

lemma status_word_high [simp]: "ucast (drop_bit 8 (status_word uart v)) = CommLineStatus uart"
  unfolding status_word_def by (rule bit_word_eqI) (auto simp: bit_simps dest: bit_imp_le_length)

text \<open>
  INT 14h and the registers are two doors to one serial port. Initialising by INT 14h leaves the port
  as setting the divisor latch and the line control by hand does; sending is a write of the transmit
  register, interrupt included; receiving is a read of the receive register, answered with the line
  status as it then reads, and a timeout that changes nothing when no byte waits; and the status
  service answers the line and modem status as they read, changing neither.
\<close>

theorem comm_two_doors:
  assumes "owns s i" and "unat (VddGetDx r) = i" and "\<not> bit (Lcr (CommPorts s i)) 7"
  defines "s' \<equiv> fst (fst (CommInt14 s r))" and "r' \<equiv> snd (CommInt14 s r)"
  shows "(VddGetAh r = 0 \<longrightarrow> s' = port_initialize (base s i) (VddGetAl r) s) \<and>
    (VddGetAh r = 1 \<longrightarrow> fst (CommInt14 s r) = CommPortOut s (base s i) 1 (ucast (VddGetAl r))) \<and>
    (VddGetAh r = 2 \<longrightarrow> waiting (CommPorts s i) \<noteq> [] \<longrightarrow>
       (s', ucast (VddGetAl r')) = CommPortIn s (base s i) 1 \<and>
       ucast (VddGetAh r') = snd (CommPortIn s' (base s i + 5) 1) AND 0x7F) \<and>
    (VddGetAh r = 2 \<longrightarrow> waiting (CommPorts s i) = [] \<longrightarrow> s' = s \<and> VddGetAh r' = 0x80 \<and> VddGetAl r' = 0) \<and>
    (VddGetAh r = 3 \<longrightarrow> s' = s \<and> ucast (VddGetAl r') = snd (CommPortIn s (base s i + 6) 1) \<and>
       ucast (VddGetAh r') = snd (CommPortIn s (base s i + 5) 1) AND 0x7F)"
proof -
  have bound: "i < COMM_MAX_PORTS" "IsFitted (CommPorts s i)" using assms(1) by (simp_all add: owns_def)
  have mask: "ucast (v AND 0x7F :: u8) = (ucast v AND 0x7F :: u32)" for v
    by (rule bit_word_eqI) (auto simp: bit_simps dest: bit_imp_le_length)
  have lsr: "snd (CommPortIn t (base t i + 5) 1) = ucast (Lsr (CommPorts t i))"
    and msr: "snd (CommPortIn t (base t i + 6) 1) = ucast (Msr (CommPorts t i))" if "owns t i" for t :: "'a comm_state"
    using register_in [OF that, of 5 1] register_in [OF that, of 6 1] by (simp_all add: read_register_def)
  have pin: "CommPortIn s (base s i) 1 = (put_uart i (snd (CommPopReceive (CommPorts s i))) s, ucast (fst (CommPopReceive (CommPorts s i))))"
    using register_in [OF assms(1), of 0 1] assms(3) by (simp add: read_register_def)
  have popped: "owns (put_uart i (snd (CommPopReceive (CommPorts s i))) s) i"
    using assms(1) by (intro owns_put) (simp_all add: owns_def)
  have init: "VddGetAh r = 0 \<longrightarrow> s' = port_initialize (base s i) (VddGetAl r) s"
    using bound by (simp add: s'_def CommInt14_def assms(2) Let_def port_initialize_same [OF assms(1)])
  have send: "VddGetAh r = 1 \<longrightarrow> fst (CommInt14 s r) = CommPortOut s (base s i) 1 (ucast (VddGetAl r))"
    using bound register_out [OF assms(1), of 0 1 "ucast (VddGetAl r)"] assms(3)
    by (simp add: CommInt14_def assms(2) Let_def write_register_def split_beta)
  have empty: "VddGetAh r = 2 \<longrightarrow> waiting (CommPorts s i) = [] \<longrightarrow> s' = s \<and> VddGetAh r' = 0x80 \<and> VddGetAl r' = 0"
    using bound waiting_nil [of "CommPorts s i"] by (simp add: s'_def r'_def CommInt14_def assms(2) Let_def)
  have status: "VddGetAh r = 3 \<longrightarrow> s' = s \<and> ucast (VddGetAl r') = snd (CommPortIn s (base s i + 6) 1) \<and>
       ucast (VddGetAh r') = snd (CommPortIn s (base s i + 5) 1) AND 0x7F"
    using bound by (simp add: s'_def r'_def CommInt14_def assms(2) Let_def lsr [OF assms(1)] msr [OF assms(1)] CommLineStatus_def mask)
  have receive: "(s', ucast (VddGetAl r')) = CommPortIn s (base s i) 1 \<and>
       ucast (VddGetAh r') = snd (CommPortIn s' (base s i + 5) 1) AND 0x7F"
    if "VddGetAh r = 2" "waiting (CommPorts s i) \<noteq> []"
    using bound that waiting_nil [of "CommPorts s i"] lsr [OF popped]
    by (simp add: s'_def r'_def CommInt14_def assms(2) Let_def split_beta pin CommLineStatus_def mask)
  show ?thesis using init send empty status receive by blast
qed

definition int14_call :: "u32 \<Rightarrow> ntvdd_registers" where
  "int14_call ax = \<lparr>Eax = ax, Ebx = 0, Ecx = 0, Edx = 0, Esi = 0, Edi = 0, Ebp = 0, Ds = 0, Es = 0, CarryFlag = False, ZeroFlag = False\<rparr>"

theorem comm_two_doors_witness:
  "fst (CommInt14 gate_open (int14_call 0x0141)) = CommPortOut gate_open 0x3F8 1 0x41 \<and>
   fst (fst (CommInt14 gate_open (int14_call 0x00E3))) = port_initialize 0x3F8 0xE3 gate_open"
proof -
  have "unat (VddGetDx (int14_call ax)) = 0" for ax by (simp add: int14_call_def VddGetDx_def)
  note doors = comm_two_doors [OF gate_open_facts(2) this gate_open_facts(10)]
  show ?thesis
    using doors [of "0x0141"] doors [of "0x00E3"] unfolding gate_open_facts(3)
    by (simp add: int14_call_def VddGetAh_def VddGetAl_def)
qed

section \<open>Printing\<close>

datatype print_step = PrintData u8 | PrintControl u8

definition print_access :: "nat \<Rightarrow> print_step \<Rightarrow> 'x comm_state \<Rightarrow> 'x comm_state" where
  "print_access i step s =
     (case step of PrintData v \<Rightarrow> LptPortOut s (LptBasePort (Printers s i)) 1 (ucast v)
      | PrintControl v \<Rightarrow> LptPortOut s (LptBasePort (Printers s i) + 2) 1 (ucast v))"

definition handshake :: "u8 \<times> u8 list \<times> u8 list \<times> u8 list \<Rightarrow> print_step list" where
  \<comment> \<open>a byte as a program prints it: any writes of the latch, the byte last; the strobe high, held for any
      number of writes; the strobe low\<close>
  "handshake = (\<lambda>(v, before, high, low). map PrintData (before @ [v]) @ map (\<lambda>c. PrintControl (c OR 1)) high @
     map (\<lambda>c. PrintControl (c AND 0xFE)) low)"

definition owns_printer :: "'x comm_state \<Rightarrow> nat \<Rightarrow> bool" where
  "owns_printer s i \<longleftrightarrow> (\<forall>r<LPT_REGISTERS. LptFind s (LptBasePort (Printers s i) + r) = Some i)"
lemma printer_parts [simp]:
  "Printers (put_printer i p s) j = (if j = i then p else Printers s j)" "PrinterSink (put_printer i p s) = PrinterSink s"
  "PrinterSinkContext (put_printer i p s) = PrinterSinkContext s" "CommPorts (put_printer i p s) = CommPorts s"
  by (simp_all add: put_printer_def)

lemma owns_printer_same:
  "(\<And>j. LptBasePort (Printers s' j) = LptBasePort (Printers s j) \<and> IsLptFitted (Printers s' j) = IsLptFitted (Printers s j)) \<Longrightarrow>
   owns_printer s' i = owns_printer s i"
  by (simp add: owns_printer_def LptFind_def)

definition printing :: "nat \<Rightarrow> (nat \<Rightarrow> u8 \<Rightarrow> 'x \<Rightarrow> 'x) \<Rightarrow> 'x comm_state \<Rightarrow> bool" where
  "printing i sink s \<longleftrightarrow> owns_printer s i \<and> PrinterSink s = Some sink"

definition printed :: "nat \<Rightarrow> 'x comm_state \<Rightarrow> u8 \<times> bool \<times> u32 \<times> 'x \<times> (nat \<Rightarrow> comm_port)" where
  \<comment> \<open>the latch, the strobe, what has been printed and the serial ports\<close>
  "printed i s = (Data (Printers s i), bit (Control (Printers s i)) 0, BytesPrinted (Printers s i), PrinterSinkContext s, CommPorts s)"

lemma print_data:
  assumes "printing i sink s"
  shows "printing i sink (print_access i (PrintData v) s) \<and>
    printed i (print_access i (PrintData v) s) = (v, snd (printed i s))"
proof -
  have "print_access i (PrintData v) s = put_printer i ((Printers s i)\<lparr>Data := v\<rparr>) s"
    using assms by (auto simp: print_access_def LptPortOut_def printing_def owns_printer_def dest: spec [of _ 0])
  then show ?thesis
    using assms owns_printer_same [of "put_printer i ((Printers s i)\<lparr>Data := v\<rparr>) s" s i] by (simp add: printing_def printed_def)
qed

lemma print_control:
  assumes "printing i sink s" "printed i s = (v, high, n, x, uarts)"
  shows "printing i sink (print_access i (PrintControl c) s) \<and>
    printed i (print_access i (PrintControl c) s) =
      (if bit c 0 \<and> \<not> high then (v, True, n + 1, sink i v x, uarts) else (v, bit c 0, n, x, uarts))"
proof -
  let ?s = "put_printer i ((Printers s i)\<lparr>Control := c\<rparr>) s"
  have "LptFind s (LptBasePort (Printers s i) + 2) = Some i" using assms(1) by (simp add: printing_def owns_printer_def)
  then have eq: "print_access i (PrintControl c) s = (if \<not> bit (Control (Printers s i)) 0 \<and> bit c 0 then strobe i ?s else ?s)"
    by (simp add: print_access_def LptPortOut_def Let_def)
  have "owns_printer ?s i = owns_printer s i" "owns_printer (strobe i ?s) i = owns_printer s i"
    by (intro owns_printer_same; auto simp: strobe_def Let_def split: option.split)+
  then show ?thesis
    using assms by (auto simp: eq printing_def printed_def strobe_def Let_def)
qed

lemma print_before: "printing i sink s \<Longrightarrow> printing i sink (fold (print_access i) (map PrintData vs) s) \<and>
    printed i (fold (print_access i) (map PrintData vs) s) = (last (Data (Printers s i) # vs), snd (printed i s))"
proof (induction vs arbitrary: s)
  case (Cons v vs)
  with print_data [OF Cons.prems, of v] Cons.IH [of "print_access i (PrintData v) s"] show ?case by (simp add: printed_def)
qed (simp add: printed_def)

lemma print_held:
  assumes "printing i sink s" "printed i s = (v, high, n, x, uarts)" "\<forall>c \<in> set cs. bit c 0 = high"
  shows "printing i sink (fold (print_access i) (map PrintControl cs) s) \<and> printed i (fold (print_access i) (map PrintControl cs) s) = (v, high, n, x, uarts)"
  using assms
proof (induction cs arbitrary: s)
  case (Cons c cs)
  then show ?case using print_control [OF Cons.prems(1,2), of c] by simp
qed simp

lemma print_handshake:
  assumes "printing i sink s" "printed i s = (v0, False, n, x, uarts)" "high \<noteq> []" "low \<noteq> []"
  shows "printing i sink (fold (print_access i) (handshake (v, before, high, low)) s) \<and>
    printed i (fold (print_access i) (handshake (v, before, high, low)) s) = (v, False, n + 1, sink i v x, uarts)"
proof -
  obtain h hs l ls where split: "high = h # hs" "low = l # ls" using assms(3,4) by (cases high; cases low) auto
  define s1 where "s1 = fold (print_access i) (map PrintData (before @ [v])) s"
  have s1: "printing i sink s1" "printed i s1 = (v, False, n, x, uarts)"
    using print_before [OF assms(1), of "before @ [v]"] assms(2) unfolding s1_def by (simp_all del: map_append)
  define s2 where "s2 = fold (print_access i) (map PrintControl (map (\<lambda>c. c OR 1) hs)) (print_access i (PrintControl (h OR 1)) s1)"
  have up: "bit (h OR 1) 0" "\<forall>c \<in> set (map (\<lambda>c. c OR 1) hs). bit c 0 = True" for h :: u8 and hs by (auto simp: bit_simps)
  have s2: "printing i sink s2" "printed i s2 = (v, True, n + 1, sink i v x, uarts)"
    using print_control [OF s1, of "h OR 1"] up print_held [of i sink "print_access i (PrintControl (h OR 1)) s1" v True "n + 1" "sink i v x" uarts "map (\<lambda>c. c OR 1) hs"]
    unfolding s2_def by simp_all
  have down: "\<not> bit (c AND 0xFE) 0" for c :: u8 by (simp add: bit_simps)
  have "printing i sink (print_access i (PrintControl (l AND 0xFE)) s2)"
    "printed i (print_access i (PrintControl (l AND 0xFE)) s2) = (v, False, n + 1, sink i v x, uarts)"
    using print_control [OF s2, of "l AND 0xFE"] down by simp_all
  from print_held [OF this, of "map (\<lambda>c. c AND 0xFE) ls"] down show ?thesis
    by (simp add: handshake_def split s1_def s2_def comp_def)
qed

text \<open>
  A printed byte leaves once, on the strobe's rising edge. For any number of bytes printed by the
  Centronics handshake, with any other writes of the data latch before each byte, and the strobe held
  high and then low by any number of control writes, the printer gets exactly those bytes in order,
  the count grows by their number, and the serial ports are untouched.
\<close>

theorem lpt_strobe_once:
  assumes "owns_printer s i" and "PrinterSink s = Some sink" and "\<not> bit (Control (Printers s i)) 0"
    and "\<forall>(v, before, high, low) \<in> set jobs. high \<noteq> [] \<and> low \<noteq> []"
  defines "s' \<equiv> fold (print_access i) (concat (map handshake jobs)) s"
  shows "PrinterSinkContext s' = fold (sink i) (map fst jobs) (PrinterSinkContext s) \<and>
    BytesPrinted (Printers s' i) = BytesPrinted (Printers s i) + of_nat (length jobs) \<and>
    \<not> bit (Control (Printers s' i)) 0 \<and> CommPorts s' = CommPorts s"
proof -
  have "\<exists>v. printed i (fold (print_access i) (concat (map handshake jobs)) s) =
      (v, False, n + of_nat (length jobs), fold (sink i) (map fst jobs) x, uarts)"
    if "printing i sink s" "printed i s = (v0, False, n, x, uarts)" for s v0 n x uarts
    using that assms(4)
  proof (induction jobs arbitrary: s v0 n x)
    case (Cons job jobs)
    obtain v before high low where job: "job = (v, before, high, low)" by (metis prod_cases4)
    then have "high \<noteq> []" "low \<noteq> []" using Cons.prems(3) by auto
    from print_handshake [OF Cons.prems(1,2) this, of v before] show ?case
      using Cons.IH [of "fold (print_access i) (handshake job) s" v "n + 1" "sink i v x"] Cons.prems(3) by (simp add: job add.assoc)
  qed simp
  from this [of s "Data (Printers s i)" "BytesPrinted (Printers s i)" "PrinterSinkContext s" "CommPorts s"] show ?thesis
    using assms(1-3) by (auto simp: printing_def printed_def s'_def)
qed

lemma printer_owned: "owns_printer two_ports 0"
proof -
  have "LptFind two_ports (0x378 + r) = Some 0" if "r < 3" for r :: u16
  proof -
    have "unat r < 3" using that by (simp add: word_less_nat_alt)
    then have "r \<in> {0, 1, 2}" by (auto simp: word_unat_eq_iff)
    then show ?thesis by (auto simp: LptFind_def first_from.simps two_ports_def)
  qed
  then show ?thesis by (simp add: owns_printer_def two_ports_def)
qed

theorem lpt_strobe_once_witness:
  "PrinterSinkContext (fold (print_access 0) (concat (map handshake [(0x48, [], [0x0C], [0x0C]), (0x49, [0x00], [0x0D, 0x0C], [0x0C])])) two_ports) =
    [0x48, 0x49]"
proof -
  have parts: "PrinterSink two_ports = Some (\<lambda>i v sent. sent @ [v])" "\<not> bit (Control (Printers two_ports 0)) 0" "PrinterSinkContext two_ports = []"
    by (simp_all add: two_ports_def)
  show ?thesis
    using lpt_strobe_once [OF printer_owned parts(1,2), of "[(0x48, [], [0x0C], [0x0C]), (0x49, [0x00], [0x0D, 0x0C], [0x0C])]"]
    by (simp only: parts) simp
qed

end
