(* ===== verification/Dos_Fatimg.thy ===== *)
theory Dos_Fatimg
  imports Prelude "HOL-Library.Monad_Syntax"
begin

text \<open>
  The reader of FAT12/FAT16 disk images, \<^verbatim>\<open>src/dos/dos_fatimg.c\<close>: mounting (the BIOS parameter
  block), the allocation table, directory walks with their visitors, path lookup, file reads, the
  volume label and the resolution of DOS paths. A routine that reads the img answers in the
  option type: \<open>None\<close> is a read outside the img's bytes, which C does not define. Byte offsets
  are computed in 32 bits, as the code computes them. Path strings are the characters before
  their NUL.
\<close>

subsection \<open>Data\<close>

record fat_image =
  Data :: "u8 list"
  Size :: u32
  BytesPerSector :: u16
  SectorsPerCluster :: u8
  FatCount :: u8
  Media :: u8
  IsFat16 :: bool
  ReservedSectors :: u16
  RootEntries :: u16
  SectorsPerFat :: u16
  TotalSectors :: u32
  FatOffset :: u32
  RootOffset :: u32
  DataOffset :: u32
  ClusterSize :: u32
  ClusterCount :: u32

record fat_entry =
  Name :: "u8 list" \<comment> \<open>as written, without the terminating NUL\<close>
  RawName :: "u8 list"
  Attributes :: u8
  Time :: u16
  Date :: u16
  FirstCluster :: u16
  FileSize :: u32 \<comment> \<open>\<^verbatim>\<open>Size\<close> of \<^verbatim>\<open>FAT_ENTRY\<close>\<close>

definition FAT_IMAGE_SECTOR_SIZE :: u32 where "FAT_IMAGE_SECTOR_SIZE = 512"
definition FAT_IMAGE_ENTRY_SIZE :: u32 where "FAT_IMAGE_ENTRY_SIZE = 32"
definition FAT_IMAGE_RAW_NAME_SIZE :: nat where "FAT_IMAGE_RAW_NAME_SIZE = 11"
definition FAT_ATTRIBUTE_VOLUME :: u8 where "FAT_ATTRIBUTE_VOLUME = 0x08"
definition FAT_ATTRIBUTE_DIRECTORY :: u8 where "FAT_ATTRIBUTE_DIRECTORY = 0x10"
definition FAT_ATTRIBUTE_LONG_NAME :: u8 where "FAT_ATTRIBUTE_LONG_NAME = 0x0F"
definition FAT_ENTRY_BASE_NAME_SIZE :: nat where "FAT_ENTRY_BASE_NAME_SIZE = 8"
definition FAT_ENTRY_END :: u8 where "FAT_ENTRY_END = 0x00"
definition FAT_ENTRY_DELETED :: u8 where "FAT_ENTRY_DELETED = 0xE5"
definition FAT_ENTRY_KANJI_E5 :: u8 where "FAT_ENTRY_KANJI_E5 = 0x05"
definition FAT_ENTRY_DOT :: u8 where "FAT_ENTRY_DOT = 0x2E"
definition FAT_FIRST_DATA_CLUSTER :: u32 where "FAT_FIRST_DATA_CLUSTER = 2"
definition FAT12_MAX_CLUSTERS :: u32 where "FAT12_MAX_CLUSTERS = 4084"
definition FAT16_MAX_CLUSTERS :: u32 where "FAT16_MAX_CLUSTERS = 65524"
definition FAT12_END_OF_CHAIN :: u32 where "FAT12_END_OF_CHAIN = 0xFF8"
definition FAT16_END_OF_CHAIN :: u32 where "FAT16_END_OF_CHAIN = 0xFFF8"
definition FAT_PATH_SEPARATOR :: u8 where "FAT_PATH_SEPARATOR = 0x5C"
definition FAT_PATH_SEPARATOR_ALT :: u8 where "FAT_PATH_SEPARATOR_ALT = 0x2F"
definition FAT_NAME_PAD :: u8 where "FAT_NAME_PAD = 0x20"
definition FAT_CASE_BIT :: u8 where "FAT_CASE_BIT = 0x20"

subsection \<open>Reading the img's bytes\<close>

definition byte_at :: "u8 list \<Rightarrow> nat \<Rightarrow> u8 option" where
  "byte_at data i = (if i < length data then Some (data ! i) else None)"

definition FatWord :: "u8 list \<Rightarrow> nat \<Rightarrow> u16 option" where
  "FatWord data i = do { b0 \<leftarrow> byte_at data i; b1 \<leftarrow> byte_at data (i + 1);
     Some (ucast b0 OR push_bit 8 (ucast b1)) }"

definition FatDword :: "u8 list \<Rightarrow> nat \<Rightarrow> u32 option" where
  "FatDword data i = do { b0 \<leftarrow> byte_at data i; b1 \<leftarrow> byte_at data (i + 1);
     b2 \<leftarrow> byte_at data (i + 2); b3 \<leftarrow> byte_at data (i + 3);
     Some (ucast b0 OR push_bit 8 (ucast b1) OR push_bit 16 (ucast b2) OR push_bit 24 (ucast b3)) }"

primrec read_bytes :: "u8 list \<Rightarrow> u32 \<Rightarrow> nat \<Rightarrow> u8 list option" where
  \<comment> \<open>the given number of bytes from a 32-bit offset on\<close>
  "read_bytes data start 0 = Some []"
| "read_bytes data start (Suc n) =
     do { b \<leftarrow> byte_at data (unat start); bs \<leftarrow> read_bytes data (start + 1) n; Some (b # bs) }"

primrec read_run :: "u8 list \<Rightarrow> nat \<Rightarrow> nat \<Rightarrow> u8 list option" where
  \<comment> \<open>the given number of bytes from a pointer on\<close>
  "read_run data i 0 = Some []"
| "read_run data i (Suc n) = do { b \<leftarrow> byte_at data i; bs \<leftarrow> read_run data (i + 1) n; Some (b # bs) }"

subsection \<open>Mounting\<close>

definition zero_image :: fat_image where
  "zero_image = \<lparr>Data = [], Size = 0, BytesPerSector = 0, SectorsPerCluster = 0, FatCount = 0, Media = 0,
     IsFat16 = False, ReservedSectors = 0, RootEntries = 0, SectorsPerFat = 0, TotalSectors = 0,
     FatOffset = 0, RootOffset = 0, DataOffset = 0, ClusterSize = 0, ClusterCount = 0\<rparr>"

definition read_bpb :: "u8 list \<Rightarrow> u32 \<Rightarrow> fat_image option" where
  "read_bpb data imageSize = do {
     bytes \<leftarrow> FatWord data 11; perCluster \<leftarrow> byte_at data 13; reserved \<leftarrow> FatWord data 14;
     fats \<leftarrow> byte_at data 16; root \<leftarrow> FatWord data 17; total16 \<leftarrow> FatWord data 19;
     media \<leftarrow> byte_at data 21; perFat \<leftarrow> FatWord data 22;
     total \<leftarrow> (if total16 = 0 then FatDword data 32 else Some (ucast total16));
     Some (zero_image\<lparr>Data := data, Size := imageSize, BytesPerSector := bytes, SectorsPerCluster := perCluster,
       ReservedSectors := reserved, FatCount := fats, RootEntries := root, TotalSectors := total,
       Media := media, SectorsPerFat := perFat\<rparr>) }"

definition bpb_ok :: "fat_image \<Rightarrow> bool" where
  \<comment> \<open>what the parameter block must say\<close>
  "bpb_ok img \<longleftrightarrow> BytesPerSector img = 512 \<and> SectorsPerCluster img \<noteq> 0 \<and>
     SectorsPerCluster img AND (SectorsPerCluster img - 1) = 0 \<and> FatCount img \<noteq> 0 \<and>
     RootEntries img \<noteq> 0 \<and> SectorsPerFat img \<noteq> 0 \<and> ReservedSectors img \<noteq> 0 \<and> TotalSectors img \<noteq> 0"

definition root_bytes :: "fat_image \<Rightarrow> u32" where
  "root_bytes img = ucast (RootEntries img) * FAT_IMAGE_ENTRY_SIZE"

definition first_data_sector :: "fat_image \<Rightarrow> u32" where
  "first_data_sector img = RootOffset img div FAT_IMAGE_SECTOR_SIZE +
     (root_bytes img + FAT_IMAGE_SECTOR_SIZE - 1) div FAT_IMAGE_SECTOR_SIZE"

definition fat_bytes_needed :: "fat_image \<Rightarrow> u32" where
  "fat_bytes_needed img =
     (if IsFat16 img then (ClusterCount img + FAT_FIRST_DATA_CLUSTER) * 2
      else ((ClusterCount img + FAT_FIRST_DATA_CLUSTER) * 3 + 1) div 2)"

definition lay_out :: "fat_image \<Rightarrow> fat_image" where
  "lay_out img =
     (let i1 = img\<lparr>FatOffset := ucast (ReservedSectors img) * FAT_IMAGE_SECTOR_SIZE\<rparr>;
          i2 = i1\<lparr>RootOffset := FatOffset i1 + ucast (FatCount img) * ucast (SectorsPerFat img) * FAT_IMAGE_SECTOR_SIZE\<rparr>
      in i2\<lparr>DataOffset := first_data_sector i2 * FAT_IMAGE_SECTOR_SIZE,
            ClusterSize := ucast (SectorsPerCluster img) * FAT_IMAGE_SECTOR_SIZE\<rparr>)"

definition FatImageMount :: "u8 list option \<Rightarrow> u32 \<Rightarrow> (fat_image \<times> bool) option" where
  "FatImageMount data imageSize =
     (case data of None \<Rightarrow> Some (zero_image, False)
      | Some bytes \<Rightarrow>
          if imageSize < FAT_IMAGE_SECTOR_SIZE then Some (zero_image, False)
          else do {
            img \<leftarrow> read_bpb bytes imageSize;
            Some (if \<not> bpb_ok img then (img, False)
                  else let image1 = lay_out img
                       in if TotalSectors image1 \<le> first_data_sector image1 \<or> DataOffset image1 > imageSize
                          then (image1, False)
                          else let dataSectors = TotalSectors image1 - first_data_sector image1;
                                   image2 = image1\<lparr>ClusterCount := dataSectors div ucast (SectorsPerCluster image1)\<rparr>
                               in if ClusterCount image2 = 0 \<or> ClusterCount image2 > FAT16_MAX_CLUSTERS then (image2, False)
                                  else let image3 = image2\<lparr>IsFat16 := ClusterCount image2 > FAT12_MAX_CLUSTERS\<rparr>
                                       in if fat_bytes_needed image3 > ucast (SectorsPerFat image3) * FAT_IMAGE_SECTOR_SIZE \<or>
                                             RootOffset image3 + root_bytes image3 > imageSize
                                          then (image3, False) else (image3, True)) })"

subsection \<open>The allocation table\<close>

definition FatImageIsDataCluster :: "fat_image \<Rightarrow> u32 \<Rightarrow> bool" where
  "FatImageIsDataCluster img cluster \<longleftrightarrow>
     cluster \<ge> FAT_FIRST_DATA_CLUSTER \<and> cluster < ClusterCount img + FAT_FIRST_DATA_CLUSTER"

definition FatImageNextCluster :: "fat_image \<Rightarrow> u32 \<Rightarrow> u32 option" where
  "FatImageNextCluster img cluster =
     (if IsFat16 img
      then do { entry \<leftarrow> FatWord (Data img) (unat (FatOffset img) + unat (cluster * 2)); Some (ucast entry) }
      else do { packed \<leftarrow> FatWord (Data img) (unat (FatOffset img) + unat (cluster + cluster div 2));
                Some (if cluster AND 1 \<noteq> 0 then ucast (drop_bit 4 packed) else ucast (packed AND 0xFFF)) })"

definition FatIsEndOfChain :: "fat_image \<Rightarrow> u32 \<Rightarrow> bool" where
  "FatIsEndOfChain img cluster \<longleftrightarrow>
     cluster \<ge> (if IsFat16 img then FAT16_END_OF_CHAIN else FAT12_END_OF_CHAIN)"

definition cluster_offset :: "fat_image \<Rightarrow> u32 \<Rightarrow> u32" where
  "cluster_offset img cluster = DataOffset img + (cluster - FAT_FIRST_DATA_CLUSTER) * ClusterSize img"

primrec count_free :: "fat_image \<Rightarrow> u32 \<Rightarrow> nat \<Rightarrow> u32 option" where
  "count_free img cluster 0 = Some 0"
| "count_free img cluster (Suc n) = do { next' \<leftarrow> FatImageNextCluster img cluster;
     rest \<leftarrow> count_free img (cluster + 1) n; Some (if next' = 0 then 1 + rest else rest) }"

definition FatImageFreeClusters :: "fat_image \<Rightarrow> u32 option" where
  "FatImageFreeClusters img = count_free img FAT_FIRST_DATA_CLUSTER
     (unat (ClusterCount img + FAT_FIRST_DATA_CLUSTER) - unat FAT_FIRST_DATA_CLUSTER)"

subsection \<open>Directory entries\<close>

definition trim_pad :: "u8 list \<Rightarrow> u8 list" where
  \<comment> \<open>without the padding at the end\<close>
  "trim_pad bytes = rev (dropWhile (\<lambda>b. b = FAT_NAME_PAD) (rev bytes))"

definition FatEntryName :: "u8 list \<Rightarrow> u8 list" where
  \<comment> \<open>on the eleven name bytes of the raw entry\<close>
  "FatEntryName raw =
     (let base = trim_pad (take FAT_ENTRY_BASE_NAME_SIZE raw);
          base' = (case base of [] \<Rightarrow> [] | b # bs \<Rightarrow> (if b = FAT_ENTRY_KANJI_E5 then FAT_ENTRY_DELETED else b) # bs);
          extension = trim_pad (drop FAT_ENTRY_BASE_NAME_SIZE raw)
      in if extension = [] then base' else base' @ FAT_ENTRY_DOT # extension)"

definition FatEntryRead :: "u8 list \<Rightarrow> nat \<Rightarrow> fat_entry option" where
  "FatEntryRead data raw = do {
     name \<leftarrow> read_run data raw FAT_IMAGE_RAW_NAME_SIZE;
     attributes \<leftarrow> byte_at data (raw + 11);
     time \<leftarrow> FatWord data (raw + 22); date \<leftarrow> FatWord data (raw + 24);
     first \<leftarrow> FatWord data (raw + 26); bytes \<leftarrow> FatDword data (raw + 28);
     Some \<lparr>Name = FatEntryName name, RawName = name, Attributes = attributes, Time = time, Date = date,
           FirstCluster = first, FileSize = bytes\<rparr> }"

subsection \<open>Walking a directory\<close>

text \<open>A visitor gets the offset of a raw entry and says whether to go on.\<close>

type_synonym 'c fat_visit = "nat \<Rightarrow> 'c \<Rightarrow> ('c \<times> bool) option"

primrec visit_entries :: "'c fat_visit \<Rightarrow> nat \<Rightarrow> nat \<Rightarrow> 'c \<Rightarrow> ('c \<times> bool) option" where
  "visit_entries visit raw 0 s = Some (s, True)"
| "visit_entries visit raw (Suc n) s = do { (s', more) \<leftarrow> visit raw s;
     if more then visit_entries visit (raw + unat FAT_IMAGE_ENTRY_SIZE) n s' else Some (s', False) }"

primrec walk_chain :: "nat \<Rightarrow> fat_image \<Rightarrow> u32 \<Rightarrow> 'c fat_visit \<Rightarrow> 'c \<Rightarrow> 'c option" where
  \<comment> \<open>the given number of turns left in the guard on \<^verbatim>\<open>steps\<close>\<close>
  "walk_chain 0 img cluster visit s = Some s"
| "walk_chain (Suc turns) img cluster visit s =
     (if \<not> FatImageIsDataCluster img cluster then Some s
      else if cluster_offset img cluster + ClusterSize img > Size img then Some s
      else do { (s', more) \<leftarrow> visit_entries visit (unat (cluster_offset img cluster))
                                (unat (ClusterSize img div FAT_IMAGE_ENTRY_SIZE)) s;
                if more then do { next' \<leftarrow> FatImageNextCluster img cluster; walk_chain turns img next' visit s' }
                else Some s' })"

definition FatWalkDirectory :: "fat_image \<Rightarrow> u16 \<Rightarrow> 'c fat_visit \<Rightarrow> 'c \<Rightarrow> 'c option" where
  "FatWalkDirectory img firstCluster visit s =
     (if firstCluster = 0
      then map_option fst (visit_entries visit (unat (RootOffset img)) (unat (RootEntries img)) s)
      else walk_chain (unat (ClusterCount img) + 1) img (ucast firstCluster) visit s)"

definition skip_entry :: "u8 \<Rightarrow> u8 \<Rightarrow> bool" where
  \<comment> \<open>a deleted, dot, long-name or volume-label entry, by its first byte and its attributes\<close>
  "skip_entry b attributes \<longleftrightarrow> b = FAT_ENTRY_DELETED \<or> b = FAT_ENTRY_DOT \<or>
     attributes AND FAT_ATTRIBUTE_LONG_NAME = FAT_ATTRIBUTE_LONG_NAME \<or> attributes AND FAT_ATTRIBUTE_VOLUME \<noteq> 0"

record list_context =
  Entries :: "fat_entry list option" \<comment> \<open>\<open>None\<close> is the null pointer\<close>
  Capacity :: int
  Count :: int

definition FatListVisit :: "u8 list \<Rightarrow> list_context fat_visit" where
  "FatListVisit data raw s = do {
     attributes \<leftarrow> byte_at data (raw + 11); b \<leftarrow> byte_at data raw;
     if b = FAT_ENTRY_END then Some (s, False)
     else if skip_entry b attributes then Some (s, True)
     else do {
       s' \<leftarrow> (case Entries s of Some entries \<Rightarrow>
                if Count s < Capacity s
                then do { entry \<leftarrow> FatEntryRead data raw; Some (s\<lparr>Entries := Some (entries @ [entry])\<rparr>) }
                else Some s
              | None \<Rightarrow> Some s);
       Some (s'\<lparr>Count := Count s' + 1\<rparr>, True) } }"

definition FatImageListDirectory ::
  "fat_image \<Rightarrow> u16 \<Rightarrow> bool \<Rightarrow> int \<Rightarrow> (fat_entry list option \<times> int) option" where
  \<comment> \<open>the third argument says whether the caller gave a buffer\<close>
  "FatImageListDirectory img firstCluster hasBuffer capacity = do {
     s \<leftarrow> FatWalkDirectory img firstCluster (FatListVisit (Data img))
            \<lparr>Entries = (if hasBuffer then Some [] else None), Capacity = capacity, Count = 0\<rparr>;
     Some (Entries s, Count s) }"

subsection \<open>Looking a path up\<close>

definition fat_upper :: "u8 \<Rightarrow> u8" where
  "fat_upper c = (if c \<ge> 0x61 \<and> c \<le> 0x7A then c AND NOT FAT_CASE_BIT else c)"

fun FatNameMatches :: "u8 list \<Rightarrow> u8 list \<Rightarrow> bool" where
  "FatNameMatches [] [] = True"
| "FatNameMatches [] (n # ns) = (n = 0)"
| "FatNameMatches (c # cs) [] = False"
| "FatNameMatches (c # cs) (n # ns) = (n \<noteq> 0 \<and> fat_upper c = fat_upper n \<and> FatNameMatches cs ns)"

definition FatFindVisit :: "u8 list \<Rightarrow> u8 list \<Rightarrow> fat_entry option fat_visit" where
  \<comment> \<open>the context is the entry found, if any\<close>
  "FatFindVisit data component raw s = do {
     attributes \<leftarrow> byte_at data (raw + 11); b \<leftarrow> byte_at data raw;
     if b = FAT_ENTRY_END then Some (s, False)
     else if skip_entry b attributes then Some (s, True)
     else do {
       entry \<leftarrow> FatEntryRead data raw;
       Some (if \<not> FatNameMatches component (Name entry) then (s, True) else (Some entry, False)) } }"

definition is_separator :: "u8 \<Rightarrow> bool" where
  "is_separator c \<longleftrightarrow> c = FAT_PATH_SEPARATOR \<or> c = FAT_PATH_SEPARATOR_ALT"

function lookup_path :: "fat_image \<Rightarrow> fat_entry \<Rightarrow> u8 list \<Rightarrow> fat_entry option option" where
  "lookup_path img current path =
     (if path = [] then Some (Some current)
      else let component = takeWhile (Not \<circ> is_separator) path
           in if component = [] then lookup_path img current (tl path)
              else if Attributes current AND FAT_ATTRIBUTE_DIRECTORY = 0 then Some None
              else do {
                found \<leftarrow> FatWalkDirectory img (FirstCluster current) (FatFindVisit (Data img) component) None;
                case found of None \<Rightarrow> Some None
                | Some entry \<Rightarrow> lookup_path img entry (drop (length component) path) })"
  by pat_completeness auto
termination by (relation "measure (\<lambda>(_, _, path). length path)") auto

declare lookup_path.simps [simp del]

definition root_entry :: fat_entry where
  "root_entry = \<lparr>Name = [], RawName = replicate 11 0, Attributes = FAT_ATTRIBUTE_DIRECTORY, Time = 0, Date = 0,
     FirstCluster = 0, FileSize = 0\<rparr>"

definition FatImageLookup :: "fat_image \<Rightarrow> u8 list \<Rightarrow> fat_entry option option" where
  "FatImageLookup img path = lookup_path img root_entry path"

subsection \<open>Reading a file\<close>

primrec skip_clusters :: "nat \<Rightarrow> nat \<Rightarrow> fat_image \<Rightarrow> u32 \<Rightarrow> (u32 \<times> nat) option option" where
  \<comment> \<open>turns left in the guard on \<^verbatim>\<open>steps\<close>, as before; the answer is the cluster and the turns left\<close>
  "skip_clusters 0 turns img cluster = Some (Some (cluster, turns))"
| "skip_clusters (Suc skip) turns img cluster =
     (if \<not> FatImageIsDataCluster img cluster \<or> turns = 0 then Some None
      else do { next' \<leftarrow> FatImageNextCluster img cluster; skip_clusters skip (turns - 1) img next' })"

primrec copy_chain :: "nat \<Rightarrow> fat_image \<Rightarrow> u32 \<Rightarrow> u32 \<Rightarrow> u32 \<Rightarrow> u32 \<Rightarrow> u8 list option" where
  \<comment> \<open>the bytes put in the buffer from \<^verbatim>\<open>copied\<close> on\<close>
  "copy_chain 0 img cluster offset copied count = Some []"
| "copy_chain (Suc turns) img cluster offset copied count =
     (if copied \<ge> count then Some []
      else if \<not> FatImageIsDataCluster img cluster then Some []
      else if cluster_offset img cluster + ClusterSize img > Size img then Some []
      else let chunk = (if ClusterSize img - offset > count - copied then count - copied else ClusterSize img - offset)
           in do { bytes \<leftarrow> read_bytes (Data img) (cluster_offset img cluster + offset) (unat chunk);
                   next' \<leftarrow> FatImageNextCluster img cluster;
                   rest \<leftarrow> (if FatIsEndOfChain img next' \<and> copied + chunk < count then Some []
                           else copy_chain turns img next' 0 (copied + chunk) count);
                   Some (bytes @ rest) })"

definition FatImageReadFile :: "fat_image \<Rightarrow> fat_entry \<Rightarrow> u32 \<Rightarrow> u32 \<Rightarrow> u8 list option" where
  \<comment> \<open>the bytes copied to the buffer; the routine returns their number. A zero cluster size traps.\<close>
  "FatImageReadFile img entry offset count =
     (if offset \<ge> FileSize entry \<or> count = 0 then Some []
      else if ClusterSize img = 0 then None
      else let count' = (if count > FileSize entry - offset then FileSize entry - offset else count)
           in do {
             skipped \<leftarrow> skip_clusters (unat (offset div ClusterSize img)) (unat (ClusterCount img) + 1) img
                         (ucast (FirstCluster entry));
             case skipped of None \<Rightarrow> Some []
             | Some (cluster, turns) \<Rightarrow> copy_chain turns img cluster (offset mod ClusterSize img) 0 count' })"

subsection \<open>The volume label\<close>

definition FatLabelVisit :: "u8 list \<Rightarrow> u8 list option fat_visit" where
  \<comment> \<open>the context is the label found, if any\<close>
  "FatLabelVisit data raw s = do {
     attributes \<leftarrow> byte_at data (raw + 11); b \<leftarrow> byte_at data raw;
     if b = FAT_ENTRY_END then Some (s, False)
     else if b = FAT_ENTRY_DELETED \<or> attributes AND FAT_ATTRIBUTE_LONG_NAME = FAT_ATTRIBUTE_LONG_NAME \<or>
             attributes AND FAT_ATTRIBUTE_VOLUME = 0 then Some (s, True)
     else do { name \<leftarrow> read_run data raw FAT_IMAGE_RAW_NAME_SIZE; Some (Some (trim_pad name), False) } }"

definition FatImageVolumeLabel :: "fat_image \<Rightarrow> u8 list option option" where
  \<comment> \<open>inside, the label, or \<open>None\<close> for the answer 0\<close>
  "FatImageVolumeLabel img = FatWalkDirectory img 0 (FatLabelVisit (Data img)) None"

subsection \<open>Resolving a DOS path\<close>

definition FatResolveComponent :: "u8 list \<Rightarrow> u8 list \<Rightarrow> int \<Rightarrow> u8 list option" where
  "FatResolveComponent component resolved capacity =
     (if component = [FAT_ENTRY_DOT] then Some resolved
      else if component = [FAT_ENTRY_DOT, FAT_ENTRY_DOT]
      then Some (butlast (rev (dropWhile (\<lambda>c. c \<noteq> FAT_PATH_SEPARATOR) (rev resolved))))
      else if int (length resolved) + (if resolved = [] then 0 else 1) + int (length component) \<ge> capacity then None
      else Some ((if resolved = [] then [] else resolved @ [FAT_PATH_SEPARATOR]) @ map fat_upper component))"

function FatResolveAppend :: "u8 list \<Rightarrow> u8 list \<Rightarrow> int \<Rightarrow> u8 list option" where
  "FatResolveAppend path resolved capacity =
     (if path = [] then Some resolved
      else let component = takeWhile (Not \<circ> is_separator) path
           in do {
             resolved' \<leftarrow> (if component = [] then Some resolved else FatResolveComponent component resolved capacity);
             FatResolveAppend (drop (length component + 1) path) resolved' capacity })"
  by pat_completeness auto
termination by (relation "measure (\<lambda>(path, _, _). length path)") auto

declare FatResolveAppend.simps [simp del]

definition FatImageResolvePath :: "u8 list \<Rightarrow> u8 list \<Rightarrow> int \<Rightarrow> u8 list option" where
  "FatImageResolvePath current path capacity =
     (if capacity < 1 then None
      else do {
        resolved \<leftarrow> (if path \<noteq> [] \<and> is_separator (hd path) then Some []
                     else FatResolveAppend current [] capacity);
        FatResolveAppend path resolved capacity })"

end
