(* ===== verification/Fat_Layout.thy ===== *)
theory Fat_Layout
  imports Dos_Fatimg
begin

text \<open>
  The layout a mounted image has. What \<open>FatImageMount\<close> checks is in 32-bit arithmetic; when the
  parameter block describes a volume below 4 GB nothing wraps, and the layout invariant
  \<open>layout_ok\<close> holds, under which no routine reads outside the image.
\<close>

subsection \<open>Arithmetic without wrap-around\<close>

lemma unat_add_small: "unat (a :: u32) + unat b < 2 ^ 32 \<Longrightarrow> unat (a + b) = unat a + unat b"
  by (simp add: unat_word_ariths)

lemma unat_mult_small: "unat (a :: u32) * unat b < 2 ^ 32 \<Longrightarrow> unat (a * b) = unat a * unat b"
  by (simp add: unat_word_ariths)

lemma unat_ucast_u8 [simp]: "unat (ucast (b :: u8) :: u32) = unat b"
  using unsigned_less [of b, where 'a = nat] by (simp add: unsigned_ucast_eq take_bit_nat_eq_self)

lemma unat_ucast_u16 [simp]: "unat (ucast (w :: u16) :: u32) = unat w"
  using unsigned_less [of w, where 'a = nat] by (simp add: unsigned_ucast_eq take_bit_nat_eq_self)

lemmas fat_constants = FAT_IMAGE_SECTOR_SIZE_def FAT_IMAGE_ENTRY_SIZE_def FAT_FIRST_DATA_CLUSTER_def
  FAT16_MAX_CLUSTERS_def FAT12_MAX_CLUSTERS_def

subsection \<open>What the mount checks\<close>

lemma mount_facts:
  assumes "FatImageMount (Some data) n = Some (img, True)"
  shows "Data img = data" "Size img = n" "bpb_ok img"
    "FatOffset img = ucast (ReservedSectors img) * 512"
    "RootOffset img = FatOffset img + ucast (FatCount img) * ucast (SectorsPerFat img) * 512"
    "DataOffset img = first_data_sector img * 512"
    "ClusterSize img = ucast (SectorsPerCluster img) * 512"
    "first_data_sector img < TotalSectors img" "DataOffset img \<le> n"
    "ClusterCount img = (TotalSectors img - first_data_sector img) div ucast (SectorsPerCluster img)"
    "ClusterCount img \<noteq> 0" "ClusterCount img \<le> 65524" "IsFat16 img = (ClusterCount img > 4084)"
    "fat_bytes_needed img \<le> ucast (SectorsPerFat img) * 512"
    "RootOffset img + root_bytes img \<le> n"
proof -
  have eqs: "first_data_sector (i\<lparr>DataOffset := d, ClusterSize := c\<rparr>) = first_data_sector i"
    "first_data_sector (i\<lparr>ClusterCount := k\<rparr>) = first_data_sector i"
    "first_data_sector (i\<lparr>IsFat16 := b\<rparr>) = first_data_sector i"
    "bpb_ok (i\<lparr>IsFat16 := b\<rparr>) = bpb_ok i" "bpb_ok (i\<lparr>ClusterCount := k\<rparr>) = bpb_ok i"
    "bpb_ok (lay_out i) = bpb_ok i" for i d c k b
    by (simp_all add: first_data_sector_def root_bytes_def bpb_ok_def lay_out_def Let_def)
  obtain bpb where bpb: "read_bpb data n = Some bpb" and
    rest: "bpb_ok bpb" "first_data_sector (lay_out bpb) < TotalSectors (lay_out bpb)" "DataOffset (lay_out bpb) \<le> n"
    "let i = (lay_out bpb)\<lparr>ClusterCount := (TotalSectors (lay_out bpb) - first_data_sector (lay_out bpb)) div
            ucast (SectorsPerCluster (lay_out bpb))\<rparr>
     in ClusterCount i \<noteq> 0 \<and> ClusterCount i \<le> 65524 \<and> img = i\<lparr>IsFat16 := ClusterCount i > 4084\<rparr> \<and>
        fat_bytes_needed img \<le> ucast (SectorsPerFat img) * 512 \<and> RootOffset img + root_bytes img \<le> n"
    using assms
    by (auto simp: FatImageMount_def Let_def fat_constants not_le not_less split: if_splits bind_splits)
  have "Data bpb = data" "Size bpb = n"
    using bpb by (auto simp: read_bpb_def split: if_splits bind_splits)
  then show "Data img = data" "Size img = n" "bpb_ok img"
    "FatOffset img = ucast (ReservedSectors img) * 512"
    "RootOffset img = FatOffset img + ucast (FatCount img) * ucast (SectorsPerFat img) * 512"
    "DataOffset img = first_data_sector img * 512"
    "ClusterSize img = ucast (SectorsPerCluster img) * 512"
    "first_data_sector img < TotalSectors img" "DataOffset img \<le> n"
    "ClusterCount img = (TotalSectors img - first_data_sector img) div ucast (SectorsPerCluster img)"
    "ClusterCount img \<noteq> 0" "ClusterCount img \<le> 65524" "IsFat16 img = (ClusterCount img > 4084)"
    "fat_bytes_needed img \<le> ucast (SectorsPerFat img) * 512"
    "RootOffset img + root_bytes img \<le> n"
    using rest by (auto simp: Let_def eqs) (simp_all add: lay_out_def Let_def fat_constants eqs)
qed
subsection \<open>A volume below 4 GB\<close>

definition first_sector :: "fat_image \<Rightarrow> nat" where
  \<comment> \<open>the first data sector the parameter block describes\<close>
  "first_sector img = unat (ReservedSectors img) + unat (FatCount img) * unat (SectorsPerFat img) +
     (unat (RootEntries img) * 32 + 511) div 512"

definition small_volume :: "fat_image \<Rightarrow> bool" where
  "small_volume img \<longleftrightarrow> first_sector img < 2 ^ 23 \<and> unat (TotalSectors img) < 2 ^ 23"

definition fat_need :: "fat_image \<Rightarrow> nat" where
  "fat_need img = (if IsFat16 img then (unat (ClusterCount img) + 2) * 2 else ((unat (ClusterCount img) + 2) * 3 + 1) div 2)"

definition layout_ok :: "fat_image \<Rightarrow> bool" where
  "layout_ok img \<longleftrightarrow> unat (Size img) = length (Data img) \<and>
     0 < unat (ClusterCount img) \<and> unat (ClusterCount img) \<le> 65524 \<and>
     (IsFat16 img \<longleftrightarrow> 4084 < unat (ClusterCount img)) \<and>
     512 \<le> unat (ClusterSize img) \<and> 32 dvd unat (ClusterSize img) \<and>
     unat (DataOffset img) + unat (ClusterCount img) * unat (ClusterSize img) < 2 ^ 32 \<and>
     unat (FatOffset img) + fat_need img \<le> length (Data img) \<and>
     unat (RootOffset img) + unat (RootEntries img) * 32 \<le> length (Data img)"

lemma mount_head:
  assumes mount: "FatImageMount (Some data) n = Some (img, True)" and small: "first_sector img < 2 ^ 23"
  shows "unat (FatOffset img) = unat (ReservedSectors img) * 512"
    "unat (RootOffset img) = (unat (ReservedSectors img) + unat (FatCount img) * unat (SectorsPerFat img)) * 512"
    "unat (first_data_sector img) = first_sector img"
    "unat (RootOffset img) + unat (RootEntries img) * 32 \<le> unat n"
proof -
  note f = mount_facts [OF mount]
  let ?res = "unat (ReservedSectors img)" and ?fats = "unat (FatCount img) * unat (SectorsPerFat img)"
  let ?re = "unat (RootEntries img)"
  have bounds: "?res < 65536" "?re < 65536"
    using unsigned_less [of "ReservedSectors img", where 'a = nat] unsigned_less [of "RootEntries img", where 'a = nat] by simp_all
  have sect: "?res + ?fats + (?re * 32 + 511) div 512 < 2 ^ 23" using small by (simp add: first_sector_def)
  show fat: "unat (FatOffset img) = ?res * 512"
    using bounds by (simp add: f(4) unat_mult_small)
  have fats: "unat (ucast (FatCount img) * ucast (SectorsPerFat img) * 512 :: u32) = ?fats * 512"
  proof -
    have "?fats < 2 ^ 23" using sect by linarith
    then have "unat (ucast (FatCount img) * ucast (SectorsPerFat img) :: u32) = ?fats"
      by (subst unat_mult_small) simp_all
    then show ?thesis using \<open>?fats < 2 ^ 23\<close> by (subst unat_mult_small) (simp_all add: mult.commute)
  qed
  show root: "unat (RootOffset img) = (?res + ?fats) * 512"
  proof -
    have "?res * 512 + ?fats * 512 < 2 ^ 32" using sect by simp
    then show ?thesis unfolding f(5) by (subst unat_add_small) (simp_all only: fat fats add_mult_distrib)
  qed
  have rb: "unat (root_bytes img) = ?re * 32"
    using bounds by (simp add: root_bytes_def fat_constants unat_mult_small)
  have "unat (root_bytes img + 512 - 1 :: u32) = ?re * 32 + 511"
  proof -
    have "unat (root_bytes img + 511) = ?re * 32 + 511"
      using bounds by (subst unat_add_small) (simp_all add: rb)
    moreover have "root_bytes img + 512 - 1 = root_bytes img + 511" by simp
    ultimately show ?thesis by (simp only:)
  qed
  then show "unat (first_data_sector img) = first_sector img"
    unfolding first_data_sector_def fat_constants using sect
    by (subst unat_add_small) (simp_all add: unat_div root first_sector_def)
  have "unat (RootOffset img + root_bytes img) = unat (RootOffset img) + ?re * 32"
    using sect by (subst unat_add_small) (simp_all add: root rb)
  then show "unat (RootOffset img) + ?re * 32 \<le> unat n"
    using f(15) by (simp add: word_le_nat_alt)
qed

lemma mount_layout:
  assumes mount: "FatImageMount (Some data) n = Some (img, True)" and len: "unat n = length data"
    and small: "small_volume img"
  shows "layout_ok img"
proof -
  note f = mount_facts [OF mount]
  have "first_sector img < 2 ^ 23" using small by (simp add: small_volume_def)
  note h = mount_head [OF mount this]
  let ?res = "unat (ReservedSectors img)" and ?fats = "unat (FatCount img) * unat (SectorsPerFat img)"
  let ?spf = "unat (SectorsPerFat img)" and ?re = "unat (RootEntries img)" and ?spc = "unat (SectorsPerCluster img)"
  have bounds: "?res < 65536" "?spf < 65536" "?re < 65536" "?spc < 256"
    using unsigned_less [of "ReservedSectors img", where 'a = nat] unsigned_less [of "SectorsPerFat img", where 'a = nat]
      unsigned_less [of "RootEntries img", where 'a = nat] unsigned_less [of "SectorsPerCluster img", where 'a = nat] by simp_all
  have bpb: "SectorsPerCluster img \<noteq> 0" "FatCount img \<noteq> 0" using f(3) by (simp_all add: bpb_ok_def)
  then have pos: "0 < ?spc" "1 \<le> unat (FatCount img)" by (simp_all add: unat_gt_0 Suc_le_eq)
  have sect: "?res + ?fats + (?re * 32 + 511) div 512 < 2 ^ 23" "unat (TotalSectors img) < 2 ^ 23"
    using small by (simp_all add: small_volume_def first_sector_def)
  note first = h(3)
  have d: "unat (DataOffset img) = first_sector img * 512"
    unfolding f(6) using small by (subst unat_mult_small) (simp_all add: first small_volume_def)
  have cs: "unat (ClusterSize img) = ?spc * 512"
    unfolding f(7) using bounds by (subst unat_mult_small) simp_all
  have fs: "first_sector img < unat (TotalSectors img)" using f(8) by (simp add: word_less_nat_alt first)
  have cc: "unat (ClusterCount img) = (unat (TotalSectors img) - first_sector img) div ?spc"
    using f(8) by (simp add: f(10) unat_div unat_sub first less_imp_le)
  have ccb: "0 < unat (ClusterCount img)" "unat (ClusterCount img) \<le> 65524"
    using f(11,12) by (simp_all add: unat_gt_0 word_le_nat_alt)
  have "unat (ClusterCount img) * ?spc \<le> unat (TotalSectors img) - first_sector img" by (simp add: cc)
  then have "first_sector img + unat (ClusterCount img) * ?spc < 2 ^ 23" using fs sect(2) by simp
  then have data: "unat (DataOffset img) + unat (ClusterCount img) * unat (ClusterSize img) < 2 ^ 32"
    unfolding d cs by simp
  have rootfit: "unat (RootOffset img) + ?re * 32 \<le> length (Data img)" using h(4) by (simp add: len f(1))
  have cc2: "unat (ClusterCount img + 2) = unat (ClusterCount img) + 2" using ccb by (subst unat_add_small) simp_all
  have "unat (fat_bytes_needed img) = fat_need img"
  proof (cases "IsFat16 img")
    case True
    have "unat ((ClusterCount img + 2) * 2) = (unat (ClusterCount img) + 2) * 2"
      using ccb by (subst unat_mult_small) (simp_all add: cc2)
    then show ?thesis using True by (simp only: fat_bytes_needed_def fat_need_def fat_constants if_True)
  next
    case False
    have "unat ((ClusterCount img + 2) * 3) = (unat (ClusterCount img) + 2) * 3"
      using ccb by (subst unat_mult_small) (simp_all add: cc2)
    moreover from this have "unat ((ClusterCount img + 2) * 3 + 1) = (unat (ClusterCount img) + 2) * 3 + 1"
      using ccb by (subst unat_add_small) simp_all
    ultimately show ?thesis
      using False by (simp only: fat_bytes_needed_def fat_need_def fat_constants if_False unat_div) simp
  qed
  moreover have "unat (ucast (SectorsPerFat img) * 512 :: u32) = ?spf * 512"
    using bounds by (subst unat_mult_small) simp_all
  ultimately have need: "fat_need img \<le> ?spf * 512" using f(14) by (simp add: word_le_nat_alt)
  have "?spf \<le> ?fats" using pos(2) by simp
  then have "unat (FatOffset img) + fat_need img \<le> length (Data img)"
    using need rootfit unfolding h(1,2) add_mult_distrib by linarith
  moreover have "32 dvd ?spc * (512 :: nat)" by simp
  ultimately show ?thesis
    unfolding layout_ok_def using ccb data rootfit pos(1) by (simp add: f(1,2,13) len cs word_less_nat_alt)
qed

subsection \<open>Reads that stay inside the image\<close>

lemma byte_at_defined: "i < length data \<Longrightarrow> byte_at data i = Some (data ! i)"
  by (simp add: byte_at_def)

lemma FatWord_defined: "i + 1 < length data \<Longrightarrow> \<exists>w. FatWord data i = Some w"
  by (simp add: FatWord_def byte_at_defined)

lemma FatDword_defined: "i + 3 < length data \<Longrightarrow> \<exists>w. FatDword data i = Some w"
  by (simp add: FatDword_def byte_at_defined)

lemma read_run_inside: "i + n \<le> length data \<Longrightarrow> read_run data i n = Some (take n (drop i data))"
proof (induction n arbitrary: i)
  case (Suc n)
  then show ?case by (simp add: byte_at_defined take_Suc_conv_app_nth Cons_nth_drop_Suc [symmetric] flip: take_Suc_Cons)
qed simp

lemma read_bytes_inside:
  assumes "unat start + n \<le> length data" "length data < 2 ^ 32"
  shows "read_bytes data start n = Some (take n (drop (unat start) data))"
  using assms
proof (induction n arbitrary: start)
  case (Suc n)
  have less: "unat start < length data" using Suc.prems(1) by simp
  have "unat (start + 1) = unat start + 1" using Suc.prems by (subst unat_add_small) simp_all
  with Suc.IH [of "start + 1"] Suc.prems
  have "read_bytes data (start + 1) n = Some (take n (drop (unat start + 1) data))" by simp
  then show ?case using less by (simp add: byte_at_defined Cons_nth_drop_Suc [OF less, symmetric])
qed simp

lemma FatEntryRead_defined:
  assumes "raw + 32 \<le> length data"
  shows "\<exists>e. FatEntryRead data raw = Some e"
proof -
  have "\<exists>w. FatWord data (raw + 22) = Some w" "\<exists>w. FatWord data (raw + 24) = Some w"
    "\<exists>w. FatWord data (raw + 26) = Some w" "\<exists>w. FatDword data (raw + 28) = Some w"
    using assms by (auto intro!: FatWord_defined FatDword_defined)
  then show ?thesis
    using assms by (auto simp: FatEntryRead_def read_run_inside byte_at_defined FAT_IMAGE_RAW_NAME_SIZE_def)
qed

lemma data_cluster_bounds:
  assumes "layout_ok img" "FatImageIsDataCluster img c"
  shows "2 \<le> unat c" "unat c < unat (ClusterCount img) + 2"
proof -
  have "unat (ClusterCount img + 2) = unat (ClusterCount img) + 2"
    using assms(1) by (subst unat_add_small) (simp_all add: layout_ok_def)
  then show "2 \<le> unat c" "unat c < unat (ClusterCount img) + 2"
    using assms(2) by (simp_all add: FatImageIsDataCluster_def fat_constants word_le_nat_alt word_less_nat_alt)
qed

lemma next_cluster_defined:
  assumes ok: "layout_ok img" and c: "FatImageIsDataCluster img c"
  shows "\<exists>c'. FatImageNextCluster img c = Some c'"
proof -
  note b = data_cluster_bounds [OF ok c]
  have cc: "unat (ClusterCount img) \<le> 65524" and fit: "unat (FatOffset img) + fat_need img \<le> length (Data img)"
    using ok by (simp_all add: layout_ok_def)
  show ?thesis
  proof (cases "IsFat16 img")
    case True
    have "unat (c * 2) = unat c * 2" using b cc by (subst unat_mult_small) simp_all
    then have "\<exists>w. FatWord (Data img) (unat (FatOffset img) + unat (c * 2)) = Some w"
      using b fit True by (intro FatWord_defined) (simp add: fat_need_def)
    then show ?thesis using True by (auto simp: FatImageNextCluster_def)
  next
    case False
    have "unat (c + c div 2) = unat c + unat c div 2"
      using b cc by (subst unat_add_small) (simp_all add: unat_div)
    then have "\<exists>w. FatWord (Data img) (unat (FatOffset img) + unat (c + c div 2)) = Some w"
      using b fit False by (intro FatWord_defined) (simp add: fat_need_def)
    then show ?thesis using False by (auto simp: FatImageNextCluster_def)
  qed
qed

lemma cluster_offset_exact:
  assumes ok: "layout_ok img" and c: "FatImageIsDataCluster img c"
  shows "unat (cluster_offset img c) = unat (DataOffset img) + (unat c - 2) * unat (ClusterSize img)"
    "unat (cluster_offset img c + ClusterSize img) = unat (cluster_offset img c) + unat (ClusterSize img)"
proof -
  note b = data_cluster_bounds [OF ok c]
  have data: "unat (DataOffset img) + unat (ClusterCount img) * unat (ClusterSize img) < 2 ^ 32"
    using ok by (simp add: layout_ok_def)
  have idx: "unat (c - 2) = unat c - 2" using b by (subst unat_sub) (simp_all add: word_le_nat_alt)
  have "(unat c - 1) * unat (ClusterSize img) \<le> unat (ClusterCount img) * unat (ClusterSize img)"
    using b by (intro mult_right_mono) simp_all
  moreover have "(unat c - 1) * unat (ClusterSize img) = (unat c - 2) * unat (ClusterSize img) + unat (ClusterSize img)"
  proof -
    have "unat c - 1 = Suc (unat c - 2)" using b(1) by simp
    then show ?thesis by simp
  qed
  ultimately have fit: "unat (DataOffset img) + (unat c - 2) * unat (ClusterSize img) + unat (ClusterSize img) < 2 ^ 32"
    using data by linarith
  have prod: "unat ((c - 2) * ClusterSize img) = (unat c - 2) * unat (ClusterSize img)"
    using fit by (subst unat_mult_small) (simp_all add: idx)
  show off: "unat (cluster_offset img c) = unat (DataOffset img) + (unat c - 2) * unat (ClusterSize img)"
    unfolding cluster_offset_def fat_constants using fit by (subst unat_add_small) (simp_all add: prod)
  show "unat (cluster_offset img c + ClusterSize img) = unat (cluster_offset img c) + unat (ClusterSize img)"
    using fit by (subst unat_add_small) (simp_all add: off)
qed

end
