(* ===== verification/Fat_Contract.thy ===== *)
theory Fat_Contract
  imports Fat_Layout
begin

text \<open>
  What the image reader promises. A directory walk is the visitor run along the list of the
  directory's raw entries, so listing a directory and looking a name up answer from the same list;
  a file read delivers the bytes of the file's cluster chain; and on a mounted image of a volume
  below 4 GB no routine reads outside the image, whatever the directory, chain or path. The last
  section shows how a parameter block beyond 4 GB passes the mount's 32-bit checks.
\<close>

subsection \<open>A directory as a list of raw entries\<close>

definition entry_offsets :: "nat \<Rightarrow> nat \<Rightarrow> nat list" where
  "entry_offsets start n = map (\<lambda>i. start + 32 * i) [0..<n]"

primrec chain_clusters :: "nat \<Rightarrow> fat_image \<Rightarrow> u32 \<Rightarrow> u32 list" where
  \<comment> \<open>the clusters of a chain that lie in the image, at most the given number\<close>
  "chain_clusters 0 img c = []"
| "chain_clusters (Suc turns) img c =
     (if \<not> FatImageIsDataCluster img c \<or> cluster_offset img c + ClusterSize img > Size img then []
      else c # (case FatImageNextCluster img c of None \<Rightarrow> [] | Some c' \<Rightarrow> chain_clusters turns img c'))"

definition cluster_entries :: "fat_image \<Rightarrow> u32 \<Rightarrow> nat list" where
  "cluster_entries img c = entry_offsets (unat (cluster_offset img c)) (unat (ClusterSize img) div 32)"

definition directory_entries :: "fat_image \<Rightarrow> u16 \<Rightarrow> nat list" where
  "directory_entries img firstCluster =
     (if firstCluster = 0 then entry_offsets (unat (RootOffset img)) (unat (RootEntries img))
      else concat (map (cluster_entries img) (chain_clusters (unat (ClusterCount img) + 1) img (ucast firstCluster))))"

primrec visit_all :: "'c fat_visit \<Rightarrow> nat list \<Rightarrow> 'c \<Rightarrow> ('c \<times> bool) option" where
  "visit_all visit [] s = Some (s, True)"
| "visit_all visit (raw # raws) s = do { (s', more) \<leftarrow> visit raw s;
     if more then visit_all visit raws s' else Some (s', False) }"

lemma entry_offsets_Suc: "entry_offsets start (Suc n) = start # entry_offsets (start + 32) n"
  by (simp add: entry_offsets_def map_upt_Suc algebra_simps del: upt_Suc)

lemma visit_entries_all: "visit_entries visit raw n s = visit_all visit (entry_offsets raw n) s"
proof (induction n arbitrary: raw s)
  case 0
  then show ?case by (simp add: entry_offsets_def)
next
  case (Suc n)
  then show ?case by (cases "visit raw s") (auto simp: entry_offsets_Suc fat_constants)
qed

lemma visit_all_append:
  "visit_all visit (xs @ ys) s =
     Option.bind (visit_all visit xs s) (\<lambda>(s', more). if more then visit_all visit ys s' else Some (s', False))"
  by (induction xs arbitrary: s) (auto intro!: bind_option_cong split: option.split)

lemma walk_chain_all:
  assumes "layout_ok img"
  shows "walk_chain turns img c visit s =
    map_option fst (visit_all visit (concat (map (cluster_entries img) (chain_clusters turns img c))) s)"
proof (induction turns arbitrary: c s)
  case (Suc turns)
  show ?case
  proof (cases "FatImageIsDataCluster img c")
    case True
    then obtain c' where c': "FatImageNextCluster img c = Some c'" using next_cluster_defined [OF assms] by blast
    show ?thesis
      using True c' Suc.IH [of c']
      by (auto simp: visit_entries_all visit_all_append cluster_entries_def fat_constants unat_div
          split: option.split bind_splits)
  qed simp
qed simp

lemma FatWalkDirectory_all:
  assumes "layout_ok img"
  shows "FatWalkDirectory img firstCluster visit s = map_option fst (visit_all visit (directory_entries img firstCluster) s)"
  by (simp add: FatWalkDirectory_def directory_entries_def visit_entries_all walk_chain_all [OF assms]
      del: chain_clusters.simps walk_chain.simps)

subsection \<open>Every raw entry lies in the image\<close>

lemma layout_length: "layout_ok img \<Longrightarrow> length (Data img) < 2 ^ 32"
  using unsigned_less [of "Size img", where 'a = nat] by (simp add: layout_ok_def)

lemma chain_cluster_inside:
  assumes ok: "layout_ok img" and c: "c \<in> set (chain_clusters turns img c0)"
  shows "FatImageIsDataCluster img c \<and> unat (cluster_offset img c) + unat (ClusterSize img) \<le> length (Data img)"
  using c
proof (induction turns arbitrary: c0)
  case (Suc turns)
  then show ?case
    using cluster_offset_exact(2) [OF ok] ok
    by (auto simp: word_less_nat_alt not_less layout_ok_def split: if_splits option.splits)
qed simp

lemma directory_entry_inside:
  assumes ok: "layout_ok img" and raw: "raw \<in> set (directory_entries img firstCluster)"
  shows "raw + 32 \<le> length (Data img)"
proof (cases "firstCluster = 0")
  case True
  have "unat (RootOffset img) + unat (RootEntries img) * 32 \<le> length (Data img)" using ok by (simp add: layout_ok_def)
  then show ?thesis using raw True by (auto simp: directory_entries_def entry_offsets_def)
next
  case False
  then obtain c where c: "c \<in> set (chain_clusters (unat (ClusterCount img) + 1) img (ucast firstCluster))"
    and raw: "raw \<in> set (cluster_entries img c)"
    using raw by (auto simp: directory_entries_def)
  from raw obtain i where i: "i < unat (ClusterSize img) div 32" "raw = unat (cluster_offset img c) + 32 * i"
    by (auto simp: cluster_entries_def entry_offsets_def)
  then have "32 * i + 32 \<le> unat (ClusterSize img)" by simp
  with i chain_cluster_inside [OF ok c] show ?thesis by simp
qed

subsection \<open>Listing and lookup\<close>

fun live_entries :: "u8 list \<Rightarrow> nat list \<Rightarrow> fat_entry list" where
  "live_entries data [] = []"
| "live_entries data (raw # raws) =
     (if data ! raw = FAT_ENTRY_END then []
      else if skip_entry (data ! raw) (data ! (raw + 11)) then live_entries data raws
      else the (FatEntryRead data raw) # live_entries data raws)"

definition listing :: "fat_image \<Rightarrow> u16 \<Rightarrow> fat_entry list" where
  "listing img firstCluster = live_entries (Data img) (directory_entries img firstCluster)"

lemma FatListVisit_step:
  assumes "raw + 32 \<le> length data"
  shows "FatListVisit data raw s = Some
    (if data ! raw = FAT_ENTRY_END then (s, False)
     else if skip_entry (data ! raw) (data ! (raw + 11)) then (s, True)
     else (s\<lparr>Entries := map_option (\<lambda>es. if Count s < Capacity s then es @ [the (FatEntryRead data raw)] else es) (Entries s),
             Count := Count s + 1\<rparr>, True))"
proof -
  obtain e where e: "FatEntryRead data raw = Some e" using FatEntryRead_defined [OF assms] by blast
  have "byte_at data raw = Some (data ! raw)" "byte_at data (raw + 11) = Some (data ! (raw + 11))"
    using assms by (simp_all add: byte_at_defined)
  then show ?thesis by (cases "Entries s") (simp_all add: FatListVisit_def e)
qed

lemma list_visit_all:
  assumes "\<forall>raw\<in>set raws. raw + 32 \<le> length data"
  shows "map_option fst (visit_all (FatListVisit data) raws s) =
    Some (s\<lparr>Entries := map_option (\<lambda>es. es @ take (nat (Capacity s - Count s)) (live_entries data raws)) (Entries s),
            Count := Count s + int (length (live_entries data raws))\<rparr>)"
  using assms
proof (induction raws arbitrary: s)
  case Nil
  then show ?case by (cases "Entries s") simp_all
next
  case (Cons raw raws)
  then have inside: "raw + 32 \<le> length data" by simp
  let ?n = "s\<lparr>Entries := map_option (\<lambda>es. if Count s < Capacity s then es @ [the (FatEntryRead data raw)] else es) (Entries s),
    Count := Count s + 1\<rparr>"
  have rest: "\<forall>raw\<in>set raws. raw + 32 \<le> length data" using Cons.prems by simp
  consider "data ! raw = FAT_ENTRY_END" | "data ! raw \<noteq> FAT_ENTRY_END" "skip_entry (data ! raw) (data ! (raw + 11))"
    | "data ! raw \<noteq> FAT_ENTRY_END" "\<not> skip_entry (data ! raw) (data ! (raw + 11))" by blast
  then show ?case
  proof cases
    case 1
    then show ?thesis by (simp add: FatListVisit_step [OF inside] option.map_ident)
  next
    case 2
    then show ?thesis using Cons.IH [OF rest, of s] by (simp add: FatListVisit_step [OF inside])
  next
    case 3
    have "map_option fst (visit_all (FatListVisit data) (raw # raws) s) = map_option fst (visit_all (FatListVisit data) raws ?n)"
      using 3 by (simp add: FatListVisit_step [OF inside])
    also have "\<dots> = Some (s\<lparr>Entries := map_option (\<lambda>es. es @ take (nat (Capacity s - Count s)) (live_entries data (raw # raws))) (Entries s),
            Count := Count s + int (length (live_entries data (raw # raws)))\<rparr>)"
    proof -
      have "take (nat (Capacity s - Count s)) (e # es) =
          (if Count s < Capacity s then e # take (nat (Capacity s - (Count s + 1))) es else [])" for e and es :: "fat_entry list"
      proof (cases "Count s < Capacity s")
        case True
        then have "nat (Capacity s - Count s) = Suc (nat (Capacity s - (Count s + 1)))" by simp
        then show ?thesis using True by simp
      qed simp
      moreover have "nat (Capacity s - (Count s + 1)) = 0" if "\<not> Count s < Capacity s" using that by simp
      ultimately show ?thesis unfolding Cons.IH [OF rest, of ?n]
        using 3 by (cases "Entries s") simp_all
    qed
    finally show ?thesis .
  qed
qed

lemma find_visit_all:
  assumes "\<forall>raw\<in>set raws. raw + 32 \<le> length data"
  shows "map_option fst (visit_all (FatFindVisit data component) raws s) =
    Some (case find (\<lambda>e. FatNameMatches component (Name e)) (live_entries data raws) of None \<Rightarrow> s | Some e \<Rightarrow> Some e)"
  using assms
proof (induction raws arbitrary: s)
  case (Cons raw raws)
  then have inside: "raw + 32 \<le> length data" by simp
  then obtain e where e: "FatEntryRead data raw = Some e" using FatEntryRead_defined by blast
  have at_: "byte_at data raw = Some (data ! raw)" "byte_at data (raw + 11) = Some (data ! (raw + 11))"
    using inside by (simp_all add: byte_at_defined)
  show ?case using Cons.IH Cons.prems by (auto simp: FatFindVisit_def at_ e)
qed simp

lemma list_directory_exact:
  assumes ok: "layout_ok img"
  shows "FatImageListDirectory img firstCluster hasBuffer capacity =
    Some (if hasBuffer then Some (take (nat capacity) (listing img firstCluster)) else None,
          int (length (listing img firstCluster)))"
proof -
  have inside: "\<forall>raw\<in>set (directory_entries img firstCluster). raw + 32 \<le> length (Data img)"
    using directory_entry_inside [OF ok] by blast
  show ?thesis
    unfolding FatImageListDirectory_def FatWalkDirectory_all [OF ok] list_visit_all [OF inside]
    by (simp add: listing_def)
qed

lemma find_in_directory:
  assumes ok: "layout_ok img"
  shows "FatWalkDirectory img firstCluster (FatFindVisit (Data img) component) None =
    Some (find (\<lambda>e. FatNameMatches component (Name e)) (listing img firstCluster))"
proof -
  have inside: "\<forall>raw\<in>set (directory_entries img firstCluster). raw + 32 \<le> length (Data img)"
    using directory_entry_inside [OF ok] by blast
  show ?thesis
    unfolding FatWalkDirectory_all [OF ok] find_visit_all [OF inside] by (simp add: listing_def split: option.split)
qed

function path_components :: "u8 list \<Rightarrow> u8 list list" where
  \<comment> \<open>the parts between separators, without the empty ones\<close>
  "path_components path =
     (if path = [] then []
      else let component = takeWhile (Not \<circ> is_separator) path
           in (if component = [] then [] else [component]) @ path_components (drop (length component + 1) path))"
  by pat_completeness auto
termination by (relation "measure length") auto

declare path_components.simps [simp del]

primrec follow_names :: "fat_image \<Rightarrow> fat_entry \<Rightarrow> u8 list list \<Rightarrow> fat_entry option" where
  "follow_names img current [] = Some current"
| "follow_names img current (name # names) =
     (if Attributes current AND FAT_ATTRIBUTE_DIRECTORY = 0 then None
      else case find (\<lambda>e. FatNameMatches name (Name e)) (listing img (FirstCluster current)) of
             None \<Rightarrow> None | Some e \<Rightarrow> follow_names img e names)"

lemma path_components_sep: "is_separator c \<Longrightarrow> path_components (c # path) = path_components path"
  by (subst path_components.simps) (simp add: Let_def)

lemma path_components_drop:
  assumes "takeWhile (Not \<circ> is_separator) path \<noteq> []"
  shows "path_components path = takeWhile (Not \<circ> is_separator) path #
    path_components (drop (length (takeWhile (Not \<circ> is_separator) path)) path)"
proof -
  let ?c = "takeWhile (Not \<circ> is_separator) path" and ?r = "dropWhile (Not \<circ> is_separator) path"
  have drop: "drop (length ?c) path = ?r" by (simp add: dropWhile_eq_drop)
  have "drop (length ?c + 1) path = tl ?r" by (simp add: drop [symmetric] drop_Suc [symmetric] tl_drop)
  moreover have "path_components ?r = path_components (tl ?r)"
  proof (cases ?r)
    case (Cons x xs)
    then have "is_separator x" using hd_dropWhile [of "Not \<circ> is_separator" path] by simp
    then show ?thesis by (simp add: Cons path_components_sep)
  next
    case Nil
    then show ?thesis by (simp only: list.sel)
  qed
  moreover have "path \<noteq> []" using assms by auto
  ultimately show ?thesis
    unfolding drop by (subst path_components.simps) (use assms in \<open>simp add: Let_def\<close>)
qed

lemma lookup_path_follows:
  assumes ok: "layout_ok img"
  shows "lookup_path img current path = Some (follow_names img current (path_components path))"
proof (induction "length path" arbitrary: current path rule: less_induct)
  case less
  let ?c = "takeWhile (Not \<circ> is_separator) path"
  show ?case
  proof (cases path)
    case Nil
    then show ?thesis by (simp add: lookup_path.simps [of img current "[]"] path_components.simps [of "[]"])
  next
    case (Cons x xs)
    show ?thesis
    proof (cases "?c = []")
      case True
      then have "is_separator x" using Cons by (simp split: if_splits)
      then show ?thesis
        using less [of xs current] Cons
        by (simp add: lookup_path.simps [of img current "x # xs"] path_components_sep)
    next
      case False
      then have shorter: "length (drop (length ?c) path) < length path" by (simp add: Cons)
      show ?thesis
        unfolding path_components_drop [OF False]
        by (subst lookup_path.simps)
           (use False less [OF shorter] in \<open>auto simp: Let_def find_in_directory [OF ok] Cons split: option.split\<close>)
    qed
  qed
qed
subsection \<open>The bytes of a cluster chain\<close>

definition cluster_bytes :: "fat_image \<Rightarrow> u32 \<Rightarrow> u8 list" where
  "cluster_bytes img c = take (unat (ClusterSize img)) (drop (unat (cluster_offset img c)) (Data img))"

definition chain_data :: "fat_image \<Rightarrow> nat \<Rightarrow> u32 \<Rightarrow> u8 list" where
  "chain_data img turns c = concat (map (cluster_bytes img) (chain_clusters turns img c))"

definition file_chain :: "fat_image \<Rightarrow> fat_entry \<Rightarrow> u8 list" where
  \<comment> \<open>the bytes of the file's clusters, the slack of the last one included\<close>
  "file_chain img entry = chain_data img (unat (ClusterCount img) + 1) (ucast (FirstCluster entry))"

definition file_content :: "fat_image \<Rightarrow> fat_entry \<Rightarrow> u8 list" where
  "file_content img entry = take (unat (FileSize entry)) (file_chain img entry)"

lemma end_of_chain_no_cluster:
  assumes "layout_ok img" "FatIsEndOfChain img c"
  shows "\<not> FatImageIsDataCluster img c"
  using data_cluster_bounds [OF assms(1), of c] assms
  by (auto simp: FatIsEndOfChain_def FAT16_END_OF_CHAIN_def FAT12_END_OF_CHAIN_def layout_ok_def word_le_nat_alt
      split: if_splits)

lemma length_cluster_bytes:
  assumes "layout_ok img" "c \<in> set (chain_clusters turns img c0)"
  shows "length (cluster_bytes img c) = unat (ClusterSize img)"
proof -
  have "unat (ClusterSize img) \<le> length (Data img) - unat (cluster_offset img c)"
    using chain_cluster_inside [OF assms, THEN conjunct2] by linarith
  then show ?thesis by (simp add: cluster_bytes_def)
qed

lemma length_concat_clusters:
  assumes "\<forall>c\<in>set cs. length (cluster_bytes img c) = n"
  shows "length (concat (map (cluster_bytes img) cs)) = length cs * n"
  using assms by (induction cs) auto

lemma drop_concat_clusters:
  assumes "\<forall>c\<in>set cs. length (cluster_bytes img c) = n"
  shows "drop (k * n) (concat (map (cluster_bytes img) cs)) = concat (map (cluster_bytes img) (drop k cs))"
  using assms
proof (induction cs arbitrary: k)
  case (Cons c cs)
  then show ?case by (cases k) simp_all
qed simp

lemma chain_data_Suc:
  assumes ok: "layout_ok img" and c: "FatImageIsDataCluster img c"
    and fit: "\<not> cluster_offset img c + ClusterSize img > Size img" and c': "FatImageNextCluster img c = Some c'"
  shows "chain_data img (Suc turns) c = cluster_bytes img c @ chain_data img turns c'"
    "length (cluster_bytes img c) = unat (ClusterSize img)"
  using length_cluster_bytes [OF ok, of c "Suc turns" c] c fit c' by (simp_all add: chain_data_def)

lemma copy_chain_exact:
  assumes ok: "layout_ok img" and "unat offset < unat (ClusterSize img)" "copied \<le> count"
  shows "copy_chain turns img c offset copied count =
    Some (take (unat count - unat copied) (drop (unat offset) (chain_data img turns c)))"
  using assms(2,3)
proof (induction turns arbitrary: c offset copied)
  case 0
  then show ?case by (simp add: chain_data_def)
next
  case (Suc turns)
  have cs: "0 < unat (ClusterSize img)" using Suc.prems by simp
  show ?case
  proof (cases "copied \<ge> count \<or> \<not> FatImageIsDataCluster img c \<or> cluster_offset img c + ClusterSize img > Size img")
    case True
    then show ?thesis by (auto simp: chain_data_def word_le_nat_alt)
  next
    case False
    then have live: "copied < count" "FatImageIsDataCluster img c" "\<not> cluster_offset img c + ClusterSize img > Size img"
      by auto
    obtain c' where c': "FatImageNextCluster img c = Some c'" using next_cluster_defined [OF ok live(2)] by blast
    note chain = chain_data_Suc [OF ok live(2,3) c']
    let ?left = "unat (ClusterSize img) - unat offset" and ?want = "unat count - unat copied"
    define piece where "piece = (if ClusterSize img - offset > count - copied then count - copied else ClusterSize img - offset)"
    have left: "unat (ClusterSize img - offset) = ?left" using Suc.prems(1) by (simp add: unat_sub word_le_nat_alt)
    have want: "unat (count - copied) = ?want" using live(1) by (simp add: unat_sub less_imp_le)
    have chunk: "unat piece = min ?left ?want" by (simp add: piece_def word_less_nat_alt left want)
    have less: "unat copied < unat count" using live(1) by (simp add: word_less_nat_alt)
    have "unat copied + unat piece < 2 ^ 32"
      unfolding chunk using less unsigned_less [of count, where 'a = nat] by simp
    then have sum: "unat (copied + piece) = unat copied + unat piece" by (rule unat_add_small)
    have inside: "unat (cluster_offset img c) + unat (ClusterSize img) \<le> length (Data img)"
      using chain_cluster_inside [OF ok, of c "Suc turns" c] live c' by simp
    note small = layout_length [OF ok]
    have at: "unat (cluster_offset img c + offset) = unat (cluster_offset img c) + unat offset"
      using inside small Suc.prems(1) by (intro unat_add_small) simp
    have bytes: "read_bytes (Data img) (cluster_offset img c + offset) (unat piece) =
        Some (take (unat piece) (drop (unat offset) (cluster_bytes img c)))"
    proof -
      have "unat offset + unat piece \<le> unat (ClusterSize img)" unfolding chunk using Suc.prems(1) by simp
      then show ?thesis
        using inside small by (subst read_bytes_inside) (simp_all add: at cluster_bytes_def drop_take add.commute [of "unat offset"] min_def)
    qed
    have rest: "(if FatIsEndOfChain img c' \<and> copied + piece < count then Some []
         else copy_chain turns img c' 0 (copied + piece) count) =
       Some (take (?want - unat piece) (chain_data img turns c'))"
    proof (cases "FatIsEndOfChain img c' \<and> copied + piece < count")
      case True
      then have "\<not> FatImageIsDataCluster img c'" using end_of_chain_no_cluster [OF ok] by blast
      then have "chain_data img turns c' = []" by (cases turns) (simp_all add: chain_data_def)
      then show ?thesis using True by simp
    next
      case False
      have "copied + piece \<le> count" unfolding word_le_nat_alt sum chunk using less by simp
      then show ?thesis
        unfolding if_not_P [OF False] using Suc.IH [of 0 "copied + piece" c'] cs by (simp add: sum diff_diff_add)
    qed
    have "take (unat piece) (drop (unat offset) (cluster_bytes img c)) @
        take (?want - unat piece) (chain_data img turns c') =
        take ?want (drop (unat offset) (cluster_bytes img c) @ chain_data img turns c')"
      unfolding chunk by (simp add: chain(2) min_def)
    moreover have "drop (unat offset) (chain_data img (Suc turns) c) = drop (unat offset) (cluster_bytes img c) @ chain_data img turns c'"
      using Suc.prems(1) by (simp add: chain)
    ultimately show ?thesis
      using live by (simp add: piece_def [symmetric] Let_def bytes c' rest not_le del: if_split)
  qed
qed

lemma skip_clusters_exact:
  assumes ok: "layout_ok img" and "k \<le> length (chain_clusters turns img c)"
  shows "\<exists>c'. skip_clusters k turns img c = Some (Some (c', turns - k)) \<and>
    chain_clusters (turns - k) img c' = drop k (chain_clusters turns img c)"
  using assms(2)
proof (induction k arbitrary: turns c)
  case (Suc k)
  then obtain t where t: "turns = Suc t" by (cases turns) auto
  then have live: "FatImageIsDataCluster img c" using Suc.prems by (auto split: if_splits)
  obtain c' where c': "FatImageNextCluster img c = Some c'" using next_cluster_defined [OF ok live] by blast
  then have "k \<le> length (chain_clusters t img c')" using Suc.prems t by (auto split: if_splits)
  from Suc.IH [OF this] show ?case using live c' Suc.prems by (auto simp: t split: if_splits)
qed simp

lemma skip_clusters_defined:
  assumes ok: "layout_ok img"
  shows "\<exists>r. skip_clusters k turns img c = Some r"
proof (induction k arbitrary: turns c)
  case (Suc k)
  then show ?case using next_cluster_defined [OF ok, of c] by auto
qed simp

lemma read_file_exact:
  assumes ok: "layout_ok img" and inside: "unat offset \<le> length (file_chain img entry) \<or> FileSize entry \<le> offset"
  shows "FatImageReadFile img entry offset count = Some (take (unat count) (drop (unat offset) (file_content img entry)))"
proof (cases "FileSize entry \<le> offset \<or> count = 0")
  case True
  then show ?thesis by (auto simp: FatImageReadFile_def file_content_def word_le_nat_alt)
next
  case False
  let ?turns = "Suc (unat (ClusterCount img))" and ?first = "ucast (FirstCluster entry) :: u32"
  let ?cs = "unat (ClusterSize img)" and ?k = "unat (offset div ClusterSize img)"
  define want where "want = (if count > FileSize entry - offset then FileSize entry - offset else count)"
  have cs: "512 \<le> ?cs" using ok by (simp add: layout_ok_def)
  then have nz: "ClusterSize img \<noteq> 0" by auto
  have all: "\<forall>c\<in>set (chain_clusters ?turns img ?first). length (cluster_bytes img c) = ?cs"
    using length_cluster_bytes [OF ok] by blast
  have "unat offset \<le> length (chain_clusters ?turns img ?first) * ?cs"
    using inside False length_concat_clusters [OF all] by (simp add: file_chain_def chain_data_def del: chain_clusters.simps)
  then have "unat offset div ?cs \<le> length (chain_clusters ?turns img ?first) * ?cs div ?cs" by (rule div_le_mono)
  then have "?k \<le> length (chain_clusters ?turns img ?first)"
    using cs by (simp add: unat_div del: chain_clusters.simps)
  from skip_clusters_exact [OF ok this] obtain c' where
    skip: "skip_clusters ?k ?turns img ?first = Some (Some (c', ?turns - ?k))" and
    rest: "chain_clusters (?turns - ?k) img c' = drop ?k (chain_clusters ?turns img ?first)" by blast
  have "chain_data img (?turns - ?k) c' = drop (?k * ?cs) (file_chain img entry)"
    using drop_concat_clusters [OF all, of ?k] rest by (simp add: chain_data_def file_chain_def del: chain_clusters.simps)
  moreover have off: "unat (offset mod ClusterSize img) + ?k * ?cs = unat offset"
    by (simp add: unat_div unat_mod)
  ultimately have from_: "drop (unat (offset mod ClusterSize img)) (chain_data img (?turns - ?k) c') = drop (unat offset) (file_chain img entry)"
    by (simp add: add.commute)
  have modless: "unat (offset mod ClusterSize img) < ?cs" using cs by (simp add: unat_mod)
  have "unat want = min (unat count) (unat (FileSize entry) - unat offset)"
    using False by (auto simp: want_def unat_sub word_less_nat_alt word_le_nat_alt not_le)
  then show ?thesis
    using False skip copy_chain_exact [OF ok modless, of 0 want "?turns - ?k" c']
    by (simp add: FatImageReadFile_def nz want_def [symmetric] Let_def from_ file_content_def drop_take min.commute del: if_split)
qed
subsection \<open>Extracting a file\<close>

lemma length_read_bytes: "read_bytes data start n = Some bs \<Longrightarrow> length bs = n"
  by (induction n arbitrary: start bs) (auto split: bind_splits)

lemma length_copy_chain:
  "copy_chain turns img c offset copied count = Some bs \<Longrightarrow> length bs \<le> unat count - unat copied"
proof (induction turns arbitrary: c offset copied bs)
  case (Suc turns)
  show ?case
  proof (cases "copied \<ge> count \<or> \<not> FatImageIsDataCluster img c \<or> cluster_offset img c + ClusterSize img > Size img")
    case True
    then show ?thesis using Suc.prems by (auto split: if_splits)
  next
    case False
    define piece where "piece = (if ClusterSize img - offset > count - copied then count - copied else ClusterSize img - offset)"
    have "unat (count - copied) = unat count - unat copied" using False by (simp add: unat_sub not_le less_imp_le)
    moreover have "unat piece \<le> unat (count - copied)" by (simp add: piece_def word_less_nat_alt)
    ultimately have le: "unat piece \<le> unat count - unat copied" by simp
    have less: "unat copied < unat count" using False by (simp add: word_less_nat_alt not_le)
    with le have sum: "unat (copied + piece) = unat copied + unat piece"
      using unsigned_less [of count, where 'a = nat] by (intro unat_add_small) simp
    from Suc.prems False obtain b1 c' b2 where b:
      "read_bytes (Data img) (cluster_offset img c + offset) (unat piece) = Some b1"
      "(if FatIsEndOfChain img c' \<and> copied + piece < count then Some []
        else copy_chain turns img c' 0 (copied + piece) count) = Some b2" "bs = b1 @ b2"
      by (auto simp: Let_def piece_def [symmetric] split: bind_splits simp del: if_split_asm)
    have "length b2 \<le> unat count - unat (copied + piece)"
      using b(2) Suc.IH [of c' 0 "copied + piece" b2] by (auto split: if_splits)
    then show ?thesis using length_read_bytes [OF b(1)] le by (simp add: b(3) sum)
  qed
qed simp

lemma length_read_file:
  assumes "FatImageReadFile img entry offset count = Some bs"
  shows "length bs \<le> unat count" "length bs \<le> unat (FileSize entry) - unat offset"
proof -
  define want where "want = (if count > FileSize entry - offset then FileSize entry - offset else count)"
  have "bs = [] \<or> offset < FileSize entry \<and> length bs \<le> unat want"
    using assms length_copy_chain [where copied = 0]
    by (fastforce simp: FatImageReadFile_def want_def [symmetric] Let_def not_le split: if_splits bind_splits option.splits)
  moreover have "unat (FileSize entry - offset) = unat (FileSize entry) - unat offset" if "offset < FileSize entry"
    using that by (simp add: unat_sub less_imp_le)
  moreover have "unat want \<le> unat count" "unat want \<le> unat (FileSize entry - offset)"
    by (simp_all add: want_def word_less_nat_alt)
  ultimately show "length bs \<le> unat count" "length bs \<le> unat (FileSize entry) - unat offset" by auto
qed

lemma next_offset:
  assumes got: "FatImageReadFile img entry offset count = Some got" "got \<noteq> []"
  shows "unat (offset + of_nat (length got)) = unat offset + length got" "0 < length got"
proof -
  show pos: "0 < length got" using got(2) by simp
  with length_read_file(2) [OF got(1)] have le: "unat offset + length got \<le> unat (FileSize entry)" by linarith
  have small: "unat (FileSize entry) < 2 ^ 32" using unsigned_less [of "FileSize entry", where 'a = nat] by simp
  then have "unat (of_nat (length got) :: u32) = length got" using le by (intro unat_of_nat_small) simp
  then show "unat (offset + of_nat (length got)) = unat offset + length got"
    using le small by (subst unat_add_small) simp_all
qed

definition DOS_IMAGE_COPY_CHUNK :: u32 where "DOS_IMAGE_COPY_CHUNK = 0x10000"

function extract_file :: "fat_image \<Rightarrow> fat_entry \<Rightarrow> u32 \<Rightarrow> u8 list option" where
  \<comment> \<open>the copy loop of \<^verbatim>\<open>DosImageExtractDirectory\<close>: the bytes it writes to the host's file\<close>
  "extract_file img entry offset =
     (case FatImageReadFile img entry offset DOS_IMAGE_COPY_CHUNK of
        None \<Rightarrow> None
      | Some got \<Rightarrow>
          if got = [] then Some []
          else do { rest \<leftarrow> extract_file img entry (offset + of_nat (length got)); Some (got @ rest) })"
  by pat_completeness auto
termination
proof (relation "measure (\<lambda>(_, entry, offset). unat (FileSize entry) - unat offset)")
  fix img entry offset and got :: "u8 list"
  assume got: "FatImageReadFile img entry offset DOS_IMAGE_COPY_CHUNK = Some got" "got \<noteq> []"
  have "unat (FileSize entry) - unat (offset + of_nat (length got)) < unat (FileSize entry) - unat offset"
    unfolding next_offset(1) [OF got] using length_read_file(2) [OF got(1)] next_offset(2) [OF got] by linarith
  then show "((img, entry, offset + of_nat (length got)), (img, entry, offset))
      \<in> measure (\<lambda>(_, entry, offset). unat (FileSize entry) - unat offset)" by simp
qed simp

declare extract_file.simps [simp del]

lemma extract_file_from:
  assumes ok: "layout_ok img" and "unat offset \<le> length (file_chain img entry)"
  shows "extract_file img entry offset = Some (drop (unat offset) (file_content img entry))"
  using assms(2)
proof (induction "unat (FileSize entry) - unat offset" arbitrary: offset rule: less_induct)
  case less
  let ?content = "file_content img entry"
  have got: "FatImageReadFile img entry offset DOS_IMAGE_COPY_CHUNK = Some (take 65536 (drop (unat offset) ?content))"
    using read_file_exact [OF ok, of offset entry DOS_IMAGE_COPY_CHUNK] less.prems by (simp add: DOS_IMAGE_COPY_CHUNK_def)
  show ?case
  proof (cases "drop (unat offset) ?content = []")
    case True
    then show ?thesis using got by (simp add: extract_file.simps [of img entry offset])
  next
    case False
    let ?got = "take 65536 (drop (unat offset) ?content)" and ?next = "offset + of_nat (length (take 65536 (drop (unat offset) ?content)))"
    have ne: "?got \<noteq> []" using False by simp
    note step = next_offset [OF got ne] and size = length_read_file(2) [OF got]
    have "unat ?next \<le> length (file_chain img entry)"
      unfolding step(1) using False by (auto simp: file_content_def)
    moreover have "unat (FileSize entry) - unat ?next < unat (FileSize entry) - unat offset"
      unfolding step(1) using step(2) size by linarith
    ultimately have "extract_file img entry ?next = Some (drop (unat ?next) ?content)" using less.hyps by blast
    moreover have "?got @ drop (unat ?next) ?content = drop (unat offset) ?content"
    proof -
      have "take n xs @ drop (length (take n xs)) xs = xs" for n and xs :: "u8 list" by (cases "n \<le> length xs") simp_all
      from this [of 65536 "drop (unat offset) ?content"] show ?thesis
        unfolding step(1) by (simp only: drop_drop add.commute)
    qed
    ultimately have "Option.bind (extract_file img entry ?next) (\<lambda>rest. Some (?got @ rest)) = Some (drop (unat offset) ?content)"
      by (simp only: bind.bind_lunit)
    then show ?thesis
      unfolding extract_file.simps [of img entry offset] got option.case using ne by (simp only: if_False)
  qed
qed

end
