(* ===== verification/Fat_Services.thy ===== *)
theory Fat_Services
  imports Fat_Contract
begin

text \<open>
  The properties of the disk-image reader: reads stay inside a mounted image, listing and lookup
  answer from one list, extraction of a file ends with its content whatever its chain, packed
  table entries read back, and the mount's 32-bit checks accept a table outside the image.
\<close>

subsection \<open>Every routine is defined\<close>

lemma count_free_defined:
  assumes ok: "layout_ok img" and "2 \<le> unat c" "unat c + n \<le> unat (ClusterCount img) + 2"
  shows "count_free img c n \<noteq> None"
  using assms(2,3)
proof (induction n arbitrary: c)
  case (Suc n)
  have cc: "unat (ClusterCount img) \<le> 65524" using ok by (simp add: layout_ok_def)
  then have two: "unat (ClusterCount img + 2) = unat (ClusterCount img) + 2" by (subst unat_add_small) simp_all
  have "FatImageIsDataCluster img c"
    using Suc.prems by (simp add: FatImageIsDataCluster_def fat_constants word_le_nat_alt word_less_nat_alt two)
  then obtain c' where c': "FatImageNextCluster img c = Some c'" using next_cluster_defined [OF ok] by blast
  have "unat (c + 1) = unat c + 1" using Suc.prems cc by (subst unat_add_small) simp_all
  then have "count_free img (c + 1) n \<noteq> None" using Suc by simp
  then show ?case using c' by auto
qed simp

lemma free_clusters_defined:
  assumes ok: "layout_ok img"
  shows "FatImageFreeClusters img \<noteq> None"
proof -
  have "unat (ClusterCount img + 2) = unat (ClusterCount img) + 2"
    using ok by (subst unat_add_small) (simp_all add: layout_ok_def)
  then show ?thesis
    unfolding FatImageFreeClusters_def using count_free_defined [OF ok, of 2] by (simp add: fat_constants)
qed

lemma visit_all_defined:
  assumes "\<forall>raw\<in>set raws. \<forall>s. visit raw s \<noteq> None"
  shows "visit_all visit raws s \<noteq> None"
  using assms
proof (induction raws arbitrary: s)
  case (Cons raw raws)
  then obtain s' more where step: "visit raw s = Some (s', more)" by fastforce
  then show ?case using Cons by auto
qed simp

lemma volume_label_defined:
  assumes ok: "layout_ok img"
  shows "FatImageVolumeLabel img \<noteq> None"
proof -
  have "FatLabelVisit (Data img) raw s \<noteq> None" if "raw \<in> set (directory_entries img 0)" for raw s
    using directory_entry_inside [OF ok that]
    by (auto simp: FatLabelVisit_def byte_at_defined read_run_inside FAT_IMAGE_RAW_NAME_SIZE_def split: if_splits)
  then have "visit_all (FatLabelVisit (Data img)) (directory_entries img 0) None \<noteq> None"
    by (intro visit_all_defined) blast
  then show ?thesis by (simp add: FatImageVolumeLabel_def FatWalkDirectory_all [OF ok])
qed

lemma read_file_defined:
  assumes ok: "layout_ok img"
  shows "FatImageReadFile img entry offset count \<noteq> None"
proof -
  have cs: "0 < unat (ClusterSize img)" using ok by (simp add: layout_ok_def)
  then have nz: "ClusterSize img \<noteq> 0" by auto
  have modless: "unat (offset mod ClusterSize img) < unat (ClusterSize img)" using cs by (simp add: unat_mod)
  obtain r where "skip_clusters (unat (offset div ClusterSize img)) (unat (ClusterCount img) + 1) img
      (ucast (FirstCluster entry)) = Some r"
    using skip_clusters_defined [OF ok] by blast
  then show ?thesis
    using copy_chain_exact [OF ok modless, of 0] nz
    by (auto simp: FatImageReadFile_def Let_def split: option.splits)
qed

text \<open>
  C10. A mounted image is never read outside its bytes. For an image whose parameter block mounts
  and describes a volume below 4 GB, with a buffer as long as the size given, every listing,
  lookup, file read, free-cluster count and label read is defined, for any directory cluster,
  path, file entry, offset and count, and however the tables and directories are damaged.
\<close>

theorem fat_reads_in_bounds:
  assumes mount: "FatImageMount (Some data) bytes = Some (img, True)" and len: "unat bytes = length data"
    and small: "small_volume img"
  shows "FatImageListDirectory img firstCluster hasBuffer capacity \<noteq> None \<and> FatImageLookup img path \<noteq> None \<and>
    FatImageReadFile img entry offset count \<noteq> None \<and> FatImageFreeClusters img \<noteq> None \<and>
    FatImageVolumeLabel img \<noteq> None \<and> (FatImageIsDataCluster img c \<longrightarrow> FatImageNextCluster img c \<noteq> None)"
proof -
  note ok = mount_layout [OF mount len small]
  show ?thesis
    using list_directory_exact [OF ok] lookup_path_follows [OF ok] read_file_defined [OF ok] free_clusters_defined [OF ok]
      volume_label_defined [OF ok] next_cluster_defined [OF ok, of c]
    by (auto simp: FatImageLookup_def)
qed

text \<open>
  Listing and lookup agree. A listing stores the first entries of the directory's list that
  fit the caller's buffer and counts all of them; a lookup follows the path's components, each
  one to the first entry of the same list whose name matches it, and fails where there is none
  or where a component's parent is a file.
\<close>

theorem fat_lookup_follows_listing:
  assumes mount: "FatImageMount (Some data) bytes = Some (img, True)" and len: "unat bytes = length data"
    and small: "small_volume img"
  shows "FatImageListDirectory img firstCluster hasBuffer capacity =
      Some (if hasBuffer then Some (take (nat capacity) (listing img firstCluster)) else None,
            int (length (listing img firstCluster))) \<and>
    FatImageLookup img path = Some (follow_names img root_entry (path_components path))"
  using list_directory_exact lookup_path_follows mount_layout [OF mount len small] by (simp add: FatImageLookup_def)

text \<open>
  C11. Extracting a file ends, with its content. The copy loop that reads a file chunk by chunk
  until a read returns nothing writes exactly the first \<open>FileSize\<close> bytes of the file's cluster
  chain, as far as the chain goes in the image; a single read from within the chain gives the
  asked-for piece of that content. A chain that loops or leaves the image still ends.
\<close>

theorem fat_extract_writes_content:
  assumes mount: "FatImageMount (Some data) bytes = Some (img, True)" and len: "unat bytes = length data"
    and small: "small_volume img"
  shows "extract_file img entry 0 = Some (file_content img entry) \<and>
    (unat offset \<le> length (file_content img entry) \<longrightarrow>
      FatImageReadFile img entry offset count = Some (take (unat count) (drop (unat offset) (file_content img entry))))"
proof -
  note ok = mount_layout [OF mount len small]
  have "extract_file img entry 0 = Some (file_content img entry)" using extract_file_from [OF ok, of 0 entry] by simp
  moreover have "length (file_content img entry) \<le> length (file_chain img entry)" by (simp add: file_content_def)
  ultimately show ?thesis using read_file_exact [OF ok, of offset entry count] by auto
qed

subsection \<open>The packed table\<close>

fun pack12 :: "u16 list \<Rightarrow> u8 list" where
  \<comment> \<open>twelve-bit entries, two in three bytes\<close>
  "pack12 [] = []"
| "pack12 [a] = [ucast a, ucast (drop_bit 8 a AND 0x0F)]"
| "pack12 (a # b # es) =
     ucast a # (ucast (drop_bit 8 a AND 0x0F) OR push_bit 4 (ucast b)) # ucast (drop_bit 4 b) # pack12 es"

primrec pack16 :: "u16 list \<Rightarrow> u8 list" where
  "pack16 [] = []"
| "pack16 (a # es) = ucast a # ucast (drop_bit 8 a) # pack16 es"

definition table_at :: "fat_image \<Rightarrow> u8 list \<Rightarrow> bool" where
  "table_at img table \<longleftrightarrow> (\<exists>rest. drop (unat (FatOffset img)) (Data img) = table @ rest)"

lemma twelve_bits: "(0xFFF :: u16) = mask 12" "(0x0F :: u16) = mask 4"
  by (simp_all add: mask_eq_exp_minus_1)

lemma unpack_low:
  fixes a :: u16 and x :: u8
  assumes "a AND 0xFFF = a" "\<And>n. n < 4 \<Longrightarrow> bit x n = bit a (n + 8)"
  shows "(ucast (ucast a :: u8) OR push_bit 8 (ucast x)) AND 0xFFF = a"
proof (rule bit_word_eqI)
  fix n :: nat
  assume n: "n < LENGTH(16)"
  have "bit a n \<longleftrightarrow> bit a n \<and> n < 12"
    using assms(1) by (metis bit_and_iff bit_mask_iff twelve_bits(1))
  moreover have "n - 8 < 4" if "n < 12" using that by linarith
  ultimately show "bit ((ucast (ucast a :: u8) OR push_bit 8 (ucast x)) AND 0xFFF :: u16) n = bit a n"
    using n assms(2) [of "n - 8"] bit_imp_le_length [of x "n - 8"]
    by (auto simp: twelve_bits bit_simps)
qed

lemma unpack_high:
  fixes b :: u16 and x :: u8
  assumes "b AND 0xFFF = b" "\<And>n. 4 \<le> n \<Longrightarrow> n < 8 \<Longrightarrow> bit x n = bit b (n - 4)"
  shows "drop_bit 4 (ucast x OR push_bit 8 (ucast (ucast (drop_bit 4 b) :: u8))) = b"
proof (rule bit_word_eqI)
  fix n :: nat
  assume n: "n < LENGTH(16)"
  have "bit b n \<longleftrightarrow> bit b n \<and> n < 12"
    using assms(1) by (metis bit_and_iff bit_mask_iff twelve_bits(1))
  moreover have "4 + (n - 4) = n" if "\<not> n < 4" using that by simp
  ultimately show "bit (drop_bit 4 (ucast x OR push_bit 8 (ucast (ucast (drop_bit 4 b) :: u8))) :: u16) n = bit b n"
    using n assms(2) [of "n + 4"] bit_imp_le_length [of x "n + 4"]
    by (cases "n < 4") (auto simp: bit_simps add.commute not_less)
qed
lemma FatWord_Cons: "FatWord (x # xs) (Suc i) = FatWord xs i"
  by (simp add: FatWord_def byte_at_def)

lemma FatWord_0: "FatWord (x # y # xs) 0 = Some (ucast x OR push_bit 8 (ucast y))"
  by (simp add: FatWord_def byte_at_def)

lemma unpack12:
  assumes "i < length es" "\<forall>e\<in>set es. e AND 0xFFF = e"
  shows "map_option (\<lambda>w. if odd i then drop_bit 4 w else w AND 0xFFF) (FatWord (pack12 es @ rest) (i + i div 2)) = Some (es ! i)"
  using assms
proof (induction es arbitrary: i rule: pack12.induct)
  case (2 a)
  then show ?case using unpack_low [of a "ucast (drop_bit 8 a AND 0x0F)"]
    by (simp add: FatWord_0 twelve_bits bit_simps add.commute)
next
  case (3 a b es)
  let ?x = "ucast (drop_bit 8 a AND 0x0F) OR push_bit 4 (ucast b) :: u8"
  consider "i = 0" | "i = 1" | j where "i = j + 2" by (cases i; cases "i - 1") auto
  then show ?case
  proof cases
    case 1
    then show ?thesis using 3 unpack_low [of a ?x] by (simp add: FatWord_0 twelve_bits bit_simps add.commute)
  next
    case 2
    have "bit ?x n = bit b (n - 4)" if "4 \<le> n" "n < 8" for n
      using that by (simp add: bit_simps twelve_bits less_imp_diff_less)
    then show ?thesis using 2 3 unpack_high [of b ?x] by (simp add: FatWord_0 FatWord_Cons twelve_bits del: drop_bit_or)
  next
    case 3
    then have "i + i div 2 = Suc (Suc (Suc (j + j div 2)))" "odd i = odd j" by simp_all
    then show ?thesis using "3.IH" [of j] "3.prems" 3 by (simp add: FatWord_Cons)
  qed
qed simp

lemma unpack16:
  assumes "i < length es"
  shows "FatWord (pack16 es @ rest) (i * 2) = Some (es ! i)"
  using assms
proof (induction es arbitrary: i)
  case (Cons a es)
  have "(ucast (ucast a :: u8) OR push_bit 8 (ucast (ucast (drop_bit 8 a) :: u8)) :: u16) = a"
    by (rule bit_word_eqI) (auto simp: bit_simps)
  then show ?case using Cons by (cases i) (simp_all add: FatWord_0 FatWord_Cons)
qed simp

lemma byte_at_drop: "byte_at data (k + i) = byte_at (drop k data) i"
  by (auto simp: byte_at_def)

lemma FatWord_drop: "FatWord data (k + i) = FatWord (drop k data) i"
  using byte_at_drop [of data k i] byte_at_drop [of data k "Suc i"] by (simp add: FatWord_def)

text \<open>
  A packed allocation table reads back. Where the table of a FAT12 image holds a list of
  twelve-bit entries packed two in three bytes, or that of a FAT16 image one of sixteen-bit
  entries, the entry read for a cluster is the one packed at its place.
\<close>

theorem fat_table_readback:
  assumes table: "drop (unat (FatOffset img)) (Data img) = (if IsFat16 img then pack16 es else pack12 es) @ rest"
    and range: "unat c < length es" "length es \<le> 0x10000"
    and entries: "\<not> IsFat16 img \<longrightarrow> (\<forall>e\<in>set es. e AND 0xFFF = e)"
  shows "FatImageNextCluster img c = Some (ucast (es ! unat c))"
proof (cases "IsFat16 img")
  case True
  have "unat (c * 2) = unat c * 2" using range by (subst unat_mult_small) simp_all
  then show ?thesis
    using True table unpack16 [OF range(1), of rest] by (simp add: FatImageNextCluster_def FatWord_drop)
next
  case False
  have index: "unat (c + c div 2) = unat c + unat c div 2"
    using range by (subst unat_add_small) (simp_all add: unat_div)
  from unpack12 [OF range(1), of rest] False entries obtain w where
    w: "FatWord (pack12 es @ rest) (unat c + unat c div 2) = Some w"
    "(if odd (unat c) then drop_bit 4 w else w AND 0xFFF) = es ! unat c" by auto
  have "FatWord (Data img) (unat (FatOffset img) + (unat c + unat c div 2)) = Some w"
    using table False w(1) by (simp add: FatWord_drop)
  then show ?thesis
    using False w(2) by (simp add: FatImageNextCluster_def index word_odd_iff split: if_splits)
qed
subsection \<open>A table the 32-bit layout loses\<close>

text \<open>
  C12. The mount accepts an image whose table lies outside it. The layout is computed in 32 bits:
  a parameter block whose reserved sectors and tables add up past 4 GB wraps to a small root
  offset that passes every check, while the table's own offset stays beyond the end of the image.
  Every table read of such a mounted image is then outside its bytes, as is the free-cluster
  count the host asks for as soon as the image is mounted.
\<close>

theorem fat_mount_misses_wrap:
  assumes mount: "FatImageMount (Some data) bytes = Some (img, True)" and len: "unat bytes = length data"
    and outside: "length data \<le> unat (FatOffset img)"
  shows "FatImageNextCluster img c = None \<and> FatImageFreeClusters img = None \<and> 2 ^ 32 \<le> first_sector img * 512"
proof -
  note f = mount_facts [OF mount]
  have none: "FatImageNextCluster img c = None" for c
    using outside by (simp add: FatImageNextCluster_def FatWord_def byte_at_def f(1))
  have cc: "0 < unat (ClusterCount img)" "unat (ClusterCount img) \<le> 65524"
    using f(11,12) by (simp_all add: unat_gt_0 word_le_nat_alt)
  then have "unat (ClusterCount img + 2) - 2 = Suc (unat (ClusterCount img) - 1)"
    by (subst unat_add_small) simp_all
  then have "FatImageFreeClusters img = None" by (simp add: FatImageFreeClusters_def fat_constants none)
  moreover have "\<not> first_sector img < 2 ^ 23"
  proof
    assume "first_sector img < 2 ^ 23"
    note h = mount_head [OF mount this]
    have "RootEntries img \<noteq> 0" using f(3) by (simp add: bpb_ok_def)
    then have "0 < unat (RootEntries img)" by (simp add: unat_gt_0)
    then show False using h outside len by (simp add: add_mult_distrib)
  qed
  ultimately show ?thesis using none by simp
qed

subsection \<open>Instances\<close>

definition boot_sector :: "u8 \<Rightarrow> u8 \<Rightarrow> u8 \<Rightarrow> u8 \<Rightarrow> u8 \<Rightarrow> u8 list" where
  \<comment> \<open>512-byte sectors, one sector per cluster, sixteen root entries\<close>
  "boot_sector reserved fats sectors perFatLow perFatHigh =
     [0, 0, 0, 0, 0, 0, 0, 0, 0, 0, 0, 0x00, 0x02, 1, reserved, 0, fats, 16, 0, sectors, 0, 0xF0, perFatLow, perFatHigh] @
     replicate 488 0"

definition demo_disk :: "u8 list" where
  \<comment> \<open>two clusters; the file \<^verbatim>\<open>A.TXT\<close> of three bytes in the first\<close>
  "demo_disk = boot_sector 1 1 5 1 0 @ (pack12 [0xFF0, 0xFFF, 0xFFF, 0] @ replicate 506 0) @
     ([0x41, 0x20, 0x20, 0x20, 0x20, 0x20, 0x20, 0x20, 0x54, 0x58, 0x54, 0x20] @ replicate 14 0 @ [2, 0, 3, 0, 0, 0] @ replicate 480 0) @
     ([0x61, 0x62, 0x63] @ replicate 1021 0)"

definition demo_image :: fat_image where
  "demo_image = \<lparr>Data = demo_disk, Size = 2560, BytesPerSector = 512, SectorsPerCluster = 1, FatCount = 1, Media = 0xF0,
     IsFat16 = False, ReservedSectors = 1, RootEntries = 16, SectorsPerFat = 1, TotalSectors = 5, FatOffset = 512,
     RootOffset = 1024, DataOffset = 1536, ClusterSize = 512, ClusterCount = 2\<rparr>"

definition wrap_disk :: "u8 list" where
  \<comment> \<open>200 reserved sectors and 128 tables of 65535 sectors: 4 GB and 36 KB before the root directory\<close>
  "wrap_disk = boot_sector 200 128 100 0xFF 0xFF @ replicate 37888 0"

definition wrap_image :: fat_image where
  "wrap_image = \<lparr>Data = wrap_disk, Size = 38400, BytesPerSector = 512, SectorsPerCluster = 1, FatCount = 128, Media = 0xF0,
     IsFat16 = False, ReservedSectors = 200, RootEntries = 16, SectorsPerFat = 65535, TotalSectors = 100, FatOffset = 102400,
     RootOffset = 36864, DataOffset = 37376, ClusterSize = 512, ClusterCount = 27\<rparr>"

lemma byte_at_boot:
  "byte_at (boot_sector reserved fats sectors perFatLow perFatHigh @ rest) i =
     (if i < 24 then Some ([0, 0, 0, 0, 0, 0, 0, 0, 0, 0, 0, 0x00, 0x02, 1, reserved, 0, fats, 16, 0, sectors, 0, 0xF0, perFatLow, perFatHigh] ! i)
      else byte_at (replicate 488 0 @ rest) (i - 24))"
  by (auto simp: byte_at_def boot_sector_def nth_append simp del: append.simps)

lemmas mount_eval = FatImageMount_def read_bpb_def byte_at_boot FatWord_def bpb_ok_def lay_out_def first_data_sector_def
  root_bytes_def fat_bytes_needed_def fat_constants zero_image_def Let_def

lemma demo_mount: "FatImageMount (Some demo_disk) 2560 = Some (demo_image, True)"
  by (simp add: mount_eval demo_disk_def demo_image_def)

lemma wrap_mount: "FatImageMount (Some wrap_disk) 38400 = Some (wrap_image, True)"
  by (simp add: mount_eval wrap_disk_def wrap_image_def)
lemma length_boot: "length (boot_sector reserved fats sectors perFatLow perFatHigh) = 512"
  by (simp add: boot_sector_def)

lemma demo_facts:
  "unat (2560 :: u32) = length demo_disk" "small_volume demo_image" "unat (38400 :: u32) = length wrap_disk"
  by (simp_all add: demo_disk_def wrap_disk_def length_boot small_volume_def first_sector_def demo_image_def)

theorem fat_reads_in_bounds_witness:
  "FatImageLookup demo_image [0x61, 0x2E, 0x74, 0x78, 0x74] \<noteq> None \<and> FatImageFreeClusters demo_image \<noteq> None"
  using fat_reads_in_bounds [OF demo_mount demo_facts(1,2), where path = "[0x61, 0x2E, 0x74, 0x78, 0x74]"] by blast

theorem fat_lookup_follows_listing_witness:
  "FatImageListDirectory demo_image 0 True 1 = Some (Some (take 1 (listing demo_image 0)), int (length (listing demo_image 0)))"
  using fat_lookup_follows_listing [OF demo_mount demo_facts(1,2), of 0 True 1] by simp

lemma demo_chain: "file_content demo_image (root_entry\<lparr>FirstCluster := 2, FileSize := 3\<rparr>) = [0x61, 0x62, 0x63]"
proof -
  have "FatImageNextCluster demo_image 2 = Some 0xFFF"
    using fat_table_readback [of demo_image "[0xFF0, 0xFFF, 0xFFF, 0]" "drop 518 demo_disk" 2]
    by (simp add: demo_image_def demo_disk_def length_boot)
  then have "file_chain demo_image (root_entry\<lparr>FirstCluster := 2, FileSize := 3\<rparr>) = [0x61, 0x62, 0x63] @ replicate 509 0"
    by (simp add: file_chain_def chain_data_def cluster_bytes_def cluster_offset_def FatImageIsDataCluster_def
        fat_constants demo_image_def demo_disk_def length_boot numeral_3_eq_3)
  then show ?thesis by (simp add: file_content_def)
qed

theorem fat_extract_writes_content_witness:
  "extract_file demo_image (root_entry\<lparr>FirstCluster := 2, FileSize := 3\<rparr>) 0 = Some [0x61, 0x62, 0x63]"
  using fat_extract_writes_content [OF demo_mount demo_facts(1,2), of "root_entry\<lparr>FirstCluster := 2, FileSize := 3\<rparr>" 0 0]
  by (simp add: demo_chain)

theorem fat_mount_misses_wrap_witness: "FatImageFreeClusters wrap_image = None"
proof -
  have "length wrap_disk \<le> unat (FatOffset wrap_image)"
    by (simp add: wrap_disk_def length_boot wrap_image_def)
  from fat_mount_misses_wrap [OF wrap_mount demo_facts(3) this] show ?thesis by blast
qed

theorem fat_table_readback_witness: "FatImageNextCluster demo_image 1 = Some 0xFFF"
  using fat_table_readback [of demo_image "[0xFF0, 0xFFF, 0xFFF, 0]" "drop 518 demo_disk" 1]
  by (simp add: demo_image_def demo_disk_def length_boot)

end
