(* ===== verification/Fat_Paths.thy ===== *)
theory Fat_Paths
  imports Fat_Contract
begin

text \<open>
  Resolving a DOS path on the image drive. A resolved path is a list of components joined by
  separators; the loops over characters implement a fold over the components of what the guest
  passed, and the result is again such a path, so it can be a current directory and a lookup of it
  follows exactly those components.
\<close>

subsection \<open>Paths as lists of components\<close>

definition plain_component :: "u8 list \<Rightarrow> bool" where
  \<comment> \<open>a name as a resolved path holds it\<close>
  "plain_component c \<longleftrightarrow> c \<noteq> [] \<and> (\<forall>x\<in>set c. \<not> is_separator x) \<and> c \<noteq> [FAT_ENTRY_DOT] \<and>
     c \<noteq> [FAT_ENTRY_DOT, FAT_ENTRY_DOT] \<and> map fat_upper c = c"

definition join_path :: "u8 list list \<Rightarrow> u8 list" where
  "join_path cs = concat (map (\<lambda>c. c @ [FAT_PATH_SEPARATOR]) (butlast cs)) @ (if cs = [] then [] else last cs)"

definition path_step :: "u8 list list \<Rightarrow> u8 list \<Rightarrow> u8 list list" where
  "path_step cs c =
     (if c = [FAT_ENTRY_DOT] then cs
      else if c = [FAT_ENTRY_DOT, FAT_ENTRY_DOT] then butlast cs
      else cs @ [map fat_upper c])"

lemma join_path_Nil [simp]: "join_path [] = []"
  by (simp add: join_path_def)

lemma join_path_snoc: "join_path (cs @ [c]) = (if cs = [] then [] else join_path cs @ [FAT_PATH_SEPARATOR]) @ c"
  by (cases cs rule: rev_cases) (simp_all add: join_path_def butlast_append)

lemma join_path_empty_iff: "\<forall>c\<in>set cs. plain_component c \<Longrightarrow> join_path cs = [] \<longleftrightarrow> cs = []"
  by (cases cs rule: rev_cases) (auto simp: join_path_snoc plain_component_def)

subsection \<open>Upper case\<close>

lemma fat_upper_cases: "fat_upper c = (if 0x61 \<le> unat c \<and> unat c \<le> 0x7A then c - 0x20 else c)"
proof -
  have all: "\<forall>n\<in>set [0x61..<0x7B]. (of_nat n :: u8) AND NOT 0x20 = of_nat n - 0x20" by code_simp
  have "c AND NOT 0x20 = c - 0x20" if "0x61 \<le> unat c" "unat c \<le> 0x7A"
    using bspec [OF all, of "unat c"] that unfolding set_upt by simp
  then show ?thesis by (simp add: fat_upper_def FAT_CASE_BIT_def word_le_nat_alt)
qed

lemma unat_fat_upper: "unat (fat_upper c) = (if 0x61 \<le> unat c \<and> unat c \<le> 0x7A then unat c - 0x20 else unat c)"
  by (simp add: fat_upper_cases unat_sub word_le_nat_alt)

lemma fat_upper_idem [simp]: "fat_upper (fat_upper c) = fat_upper c"
  unfolding fat_upper_cases [of "fat_upper c"] unfolding unat_fat_upper by auto

lemma is_separator_unat: "is_separator c \<longleftrightarrow> unat c = 0x5C \<or> unat c = 0x2F"
  by (auto simp: is_separator_def FAT_PATH_SEPARATOR_def FAT_PATH_SEPARATOR_ALT_def word_unat_eq_iff)

lemma is_separator_upper [simp]: "is_separator (fat_upper c) = is_separator c"
  by (auto simp: is_separator_unat unat_fat_upper)

lemma fat_upper_dot [simp]: "fat_upper c = FAT_ENTRY_DOT \<longleftrightarrow> c = FAT_ENTRY_DOT"
  by (auto simp: word_unat_eq_iff unat_fat_upper FAT_ENTRY_DOT_def)

subsection \<open>One component\<close>

lemma plain_step:
  assumes "\<forall>c\<in>set cs. plain_component c" "component \<noteq> []" "\<forall>x\<in>set component. \<not> is_separator x"
  shows "\<forall>c\<in>set (path_step cs component). plain_component c"
proof -
  have "plain_component (map fat_upper component)" if "component \<noteq> [FAT_ENTRY_DOT]" "component \<noteq> [FAT_ENTRY_DOT, FAT_ENTRY_DOT]"
    using assms that by (auto simp: plain_component_def map_eq_Cons_conv)
  then show ?thesis using assms(1) by (auto simp: path_step_def dest: in_set_butlastD)
qed

lemma up_one_level:
  assumes "\<forall>c\<in>set cs. plain_component c"
  shows "butlast (rev (dropWhile (\<lambda>c. c \<noteq> FAT_PATH_SEPARATOR) (rev (join_path cs)))) = join_path (butlast cs)"
proof (cases cs rule: rev_cases)
  case (snoc ds d)
  have "\<forall>x\<in>set d. x \<noteq> FAT_PATH_SEPARATOR" using assms snoc by (auto simp: plain_component_def is_separator_def)
  then have "dropWhile (\<lambda>c. c \<noteq> FAT_PATH_SEPARATOR) (rev d @ ys) = dropWhile (\<lambda>c. c \<noteq> FAT_PATH_SEPARATOR) ys" for ys
    by (intro dropWhile_append2) simp
  from this [of "[]"] this show ?thesis by (simp add: snoc join_path_snoc)
qed simp

lemma FatResolveComponent_step:
  assumes plain: "\<forall>c\<in>set cs. plain_component c" and "component \<noteq> []"
    and "FatResolveComponent component (join_path cs) capacity = Some r"
  shows "r = join_path (path_step cs component)"
  using assms(2,3) join_path_empty_iff [OF plain] up_one_level [OF plain]
  by (auto simp: FatResolveComponent_def path_step_def join_path_snoc split: if_splits)

lemma FatResolveComponent_length:
  assumes "FatResolveComponent component r capacity = Some r'"
  shows "int (length r) < capacity \<Longrightarrow> int (length r') < capacity"
    and "length r' \<le> length r + 1 + length component"
proof -
  have "length (butlast (rev (dropWhile (\<lambda>c. c \<noteq> FAT_PATH_SEPARATOR) (rev r)))) \<le> length r"
    using length_dropWhile_le [of "\<lambda>c. c \<noteq> FAT_PATH_SEPARATOR" "rev r"] by simp
  then show "int (length r) < capacity \<Longrightarrow> int (length r') < capacity" "length r' \<le> length r + 1 + length component"
    using assms by (auto simp: FatResolveComponent_def split: if_splits)
qed
subsection \<open>Whole paths\<close>

lemma component_no_separator: "\<forall>x\<in>set (takeWhile (Not \<circ> is_separator) path). \<not> is_separator x"
  by (auto dest: set_takeWhileD)

lemma FatResolveAppend_fold:
  assumes "\<forall>c\<in>set cs. plain_component c" "FatResolveAppend path (join_path cs) capacity = Some r"
  shows "r = join_path (foldl path_step cs (path_components path)) \<and>
    (\<forall>c\<in>set (foldl path_step cs (path_components path)). plain_component c)"
  using assms
proof (induction "length path" arbitrary: path cs rule: less_induct)
  case less
  let ?c = "takeWhile (Not \<circ> is_separator) path" and ?rest = "drop (length (takeWhile (Not \<circ> is_separator) path) + 1) path"
  show ?case
  proof (cases "path = []")
    case True
    then show ?thesis using less.prems by (simp add: FatResolveAppend.simps [of "[]"] path_components.simps [of "[]"])
  next
    case False
    then have shorter: "length ?rest < length path" by simp
    show ?thesis
    proof (cases "?c = []")
      case True
      then show ?thesis
        using less.hyps [OF shorter less.prems(1)] less.prems(2) False
        by (simp add: FatResolveAppend.simps [of path] path_components.simps [of path] Let_def)
    next
      case comp: False
      from less.prems(2) False comp obtain r1 where
        r1: "FatResolveComponent ?c (join_path cs) capacity = Some r1" and rest: "FatResolveAppend ?rest r1 capacity = Some r"
        by (auto simp: FatResolveAppend.simps [of path] Let_def split: bind_splits)
      have "r1 = join_path (path_step cs ?c)" by (rule FatResolveComponent_step [OF less.prems(1) comp r1])
      moreover have "\<forall>c\<in>set (path_step cs ?c). plain_component c"
        by (rule plain_step [OF less.prems(1) comp component_no_separator])
      ultimately show ?thesis
        using less.hyps [OF shorter, of "path_step cs ?c"] rest False comp
        by (simp add: path_components.simps [of path] Let_def)
    qed
  qed
qed

lemma FatResolveAppend_fits:
  assumes "FatResolveAppend path r capacity = Some r'" "int (length r) < capacity"
  shows "int (length r') < capacity"
  using assms
proof (induction "length path" arbitrary: path r rule: less_induct)
  case less
  let ?c = "takeWhile (Not \<circ> is_separator) path" and ?rest = "drop (length (takeWhile (Not \<circ> is_separator) path) + 1) path"
  show ?case
  proof (cases "path = []")
    case True
    then show ?thesis using less.prems by (simp add: FatResolveAppend.simps [of "[]"])
  next
    case False
    then obtain r1 where r1: "(if ?c = [] then Some r else FatResolveComponent ?c r capacity) = Some r1"
      and rest: "FatResolveAppend ?rest r1 capacity = Some r'"
      using less.prems(1) by (auto simp: FatResolveAppend.simps [of path] Let_def simp del: if_split split: bind_splits)
    have "int (length r1) < capacity"
      using r1 less.prems(2) FatResolveComponent_length(1) by (auto split: if_splits)
    moreover have "length ?rest < length path" using False by simp
    ultimately show ?thesis using less.hyps rest by blast
  qed
qed

lemma FatResolveAppend_succeeds:
  assumes "int (length r + 1 + length path) < capacity"
  shows "FatResolveAppend path r capacity \<noteq> None"
  using assms
proof (induction "length path" arbitrary: path r rule: less_induct)
  case less
  let ?c = "takeWhile (Not \<circ> is_separator) path" and ?rest = "drop (length (takeWhile (Not \<circ> is_separator) path) + 1) path"
  show ?case
  proof (cases "path = []")
    case True
    then show ?thesis by (simp add: FatResolveAppend.simps [of "[]"])
  next
    case False
    have le: "length ?c \<le> length path" by (rule length_takeWhile_le)
    have "\<exists>r1. (if ?c = [] then Some r else FatResolveComponent ?c r capacity) = Some r1 \<and>
        (?rest = [] \<or> int (length r1 + 1 + length ?rest) < capacity)"
    proof (cases "?c = []")
      case True
      have "length r + 1 + length ?rest \<le> length r + 1 + length path" by simp
      then have "int (length r + 1 + length ?rest) < capacity" using less.prems by linarith
      then show ?thesis using True by simp
    next
      case comp: False
      have "FatResolveComponent ?c r capacity \<noteq> None" using less.prems le by (auto simp: FatResolveComponent_def)
      then obtain r1 where r1: "FatResolveComponent ?c r capacity = Some r1" by blast
      from FatResolveComponent_length(2) [OF r1] le less.prems r1 comp show ?thesis by auto
    qed
    then obtain r1 where r1: "(if ?c = [] then Some r else FatResolveComponent ?c r capacity) = Some r1"
      and fit: "?rest = [] \<or> int (length r1 + 1 + length ?rest) < capacity" by blast
    have "FatResolveAppend ?rest r1 capacity \<noteq> None"
    proof (cases "?rest = []")
      case True
      then show ?thesis by (simp only: FatResolveAppend.simps [of "[]"]) simp
    next
      case rest: False
      have "length ?rest < length path" using False by simp
      then show ?thesis using less.hyps fit rest by blast
    qed
    then show ?thesis
      using False r1 by (simp add: FatResolveAppend.simps [of path] Let_def del: if_split)
  qed
qed

lemma path_components_whole:
  assumes "\<forall>x\<in>set c. \<not> is_separator x"
  shows "path_components c = (if c = [] then [] else [c])"
proof -
  have tw: "takeWhile (Not \<circ> is_separator) c = c" using assms by simp
  show ?thesis
    unfolding path_components.simps [of c] Let_def tw by (simp add: path_components.simps [of "[]"])
qed

lemma path_components_plain: "plain_component c \<Longrightarrow> path_components c = [c]"
  by (simp add: plain_component_def path_components_whole)

lemma path_components_append:
  assumes "is_separator s"
  shows "path_components (xs @ s # ys) = path_components xs @ path_components ys"
proof (induction "length xs" arbitrary: xs rule: less_induct)
  case less
  let ?c = "takeWhile (Not \<circ> is_separator) xs"
  show ?case
  proof (cases "\<exists>x\<in>set xs. is_separator x")
    case True
    then obtain x where x: "x \<in> set xs" "is_separator x" by blast
    have tw: "takeWhile (Not \<circ> is_separator) (xs @ s # ys) = ?c"
      using x by (intro takeWhile_append1 [of x]) simp_all
    have "length ?c < length xs"
      using x by (metis comp_apply length_takeWhile_le nless_le set_takeWhileD takeWhile_eq_all_conv takeWhile_eq_take take_all_iff)
    then have "drop (length ?c + 1) (xs @ s # ys) = drop (length ?c + 1) xs @ s # ys"
      "length (drop (length ?c + 1) xs) < length xs" by simp_all
    with less [of "drop (length ?c + 1) xs"] show ?thesis
      using x by (subst (1 2) path_components.simps) (auto simp: tw Let_def)
  next
    case False
    have tw: "takeWhile (Not \<circ> is_separator) (xs @ s # ys) = xs" using False assms by simp
    show ?thesis
      unfolding path_components.simps [of "xs @ s # ys"] Let_def tw using False
      by (simp add: path_components_whole)
  qed
qed

lemma path_components_join: "\<forall>c\<in>set cs. plain_component c \<Longrightarrow> path_components (join_path cs) = cs"
proof (induction cs rule: rev_induct)
  case (snoc c cs)
  have "is_separator FAT_PATH_SEPARATOR" by (simp add: is_separator_def)
  then show ?case
    using snoc path_components_append [of FAT_PATH_SEPARATOR "join_path cs" c]
    by (auto simp: join_path_snoc path_components_plain)
qed (simp add: path_components.simps [of "[]"])

lemma foldl_step_plain: "\<forall>c\<in>set ds. plain_component c \<Longrightarrow> foldl path_step cs ds = cs @ ds"
  by (induction ds arbitrary: cs) (auto simp: path_step_def plain_component_def)

definition resolved_names :: "u8 list list \<Rightarrow> u8 list \<Rightarrow> u8 list list" where
  \<comment> \<open>where a path leads from a current directory, component by component\<close>
  "resolved_names cs path =
     foldl path_step (if path \<noteq> [] \<and> is_separator (hd path) then [] else cs) (path_components path)"

text \<open>
  C13. A resolved path is in normal form and says where the guest's path leads. From a current
  directory in normal form, the resolver answers the components of the path folded over it,
  a dot dropped, two dots going up and stopping at the root, letters in upper case; the answer
  fits the buffer with its NUL, is in normal form again, and its components are what a lookup
  of it follows. It refuses only when the two paths together reach the buffer's size.
\<close>

theorem fat_resolve_normal_form:
  assumes current: "\<forall>c\<in>set cs. plain_component c"
  shows "case FatImageResolvePath (join_path cs) path capacity of
      Some r \<Rightarrow> r = join_path (resolved_names cs path) \<and> (\<forall>c\<in>set (resolved_names cs path). plain_component c) \<and>
        path_components r = resolved_names cs path \<and> int (length r) < capacity
    | None \<Rightarrow> capacity \<le> int (length (join_path cs) + 1 + length path)"
proof -
  define rooted where "rooted \<longleftrightarrow> path \<noteq> [] \<and> is_separator (hd path)"
  define start where "start = (if rooted then [] else cs)"
  have plain: "\<forall>c\<in>set start. plain_component c" using current by (simp add: start_def)
  have first: "(if rooted then Some [] else FatResolveAppend (join_path cs) [] capacity) = Some r0 \<Longrightarrow> r0 = join_path start" for r0
    using FatResolveAppend_fold [of "[]" "join_path cs" capacity r0] current
    by (auto simp: start_def path_components_join foldl_step_plain)
  have eq: "FatImageResolvePath (join_path cs) path capacity =
      (if capacity < 1 then None
       else Option.bind (if rooted then Some [] else FatResolveAppend (join_path cs) [] capacity)
              (\<lambda>r0. FatResolveAppend path r0 capacity))"
    by (simp add: FatImageResolvePath_def rooted_def)
  show ?thesis
  proof (cases "FatImageResolvePath (join_path cs) path capacity")
    case None
    have "capacity \<le> int (length (join_path cs) + 1 + length path)"
    proof (rule ccontr)
      assume "\<not> ?thesis"
      then have fits: "int (length (join_path cs) + 1 + length path) < capacity" by simp
      then have "(if rooted then Some [] else FatResolveAppend (join_path cs) [] capacity) \<noteq> None"
        using FatResolveAppend_succeeds [of "[]" "join_path cs" capacity] by simp
      then obtain r0 where r0: "(if rooted then Some [] else FatResolveAppend (join_path cs) [] capacity) = Some r0" by blast
      have "length r0 \<le> length (join_path cs)" using first [OF r0] by (simp add: start_def)
      then have "FatResolveAppend path r0 capacity \<noteq> None" using fits by (intro FatResolveAppend_succeeds) simp
      with None r0 fits show False unfolding eq by (simp del: if_split)
    qed
    then show ?thesis by (simp add: None)
  next
    case (Some r)
    then obtain r0 where r0: "1 \<le> capacity" "(if rooted then Some [] else FatResolveAppend (join_path cs) [] capacity) = Some r0"
      "FatResolveAppend path r0 capacity = Some r"
      unfolding eq by (auto simp del: if_split split: if_splits bind_splits)
    have "int (length r0) < capacity"
      using r0(1,2) FatResolveAppend_fits [of "join_path cs" "[]" capacity r0] by (auto split: if_splits)
    then have "int (length r) < capacity" by (rule FatResolveAppend_fits [OF r0(3)])
    moreover have "r = join_path (resolved_names cs path) \<and> (\<forall>c\<in>set (resolved_names cs path). plain_component c)"
      using FatResolveAppend_fold [OF plain] r0(3) first [OF r0(2)]
      by (simp add: resolved_names_def start_def rooted_def)
    ultimately show ?thesis by (simp add: Some path_components_join)
  qed
qed

theorem fat_resolve_normal_form_witness:
  "FatImageResolvePath [0x53, 0x55, 0x42] [0x2E, 0x2E, 0x5C, 0x61] 260 = Some [0x41]"
proof -
  let ?cs = "[[0x53, 0x55, 0x42]] :: u8 list list" and ?path = "[0x2E, 0x2E, 0x5C, 0x61] :: u8 list"
  have sep: "\<not> is_separator 0x53" "\<not> is_separator 0x55" "\<not> is_separator 0x42" "\<not> is_separator 0x2E" "is_separator 0x5C" "\<not> is_separator 0x61"
    by (simp_all add: is_separator_def FAT_PATH_SEPARATOR_def FAT_PATH_SEPARATOR_ALT_def)
  have current: "\<forall>c\<in>set ?cs. plain_component c"
    by (simp add: plain_component_def sep FAT_ENTRY_DOT_def fat_upper_def)
  have join: "join_path ?cs = [0x53, 0x55, 0x42]" by (simp add: join_path_def)
  have "path_components ?path = [[0x2E, 0x2E], [0x61]]"
    by (simp add: path_components.simps [of "0x2E # _"] path_components.simps [of "[0x61]"] path_components.simps [of "[]"] sep Let_def)
  then have names: "resolved_names ?cs ?path = [[0x41]]"
    by (simp add: resolved_names_def sep path_step_def FAT_ENTRY_DOT_def fat_upper_def FAT_CASE_BIT_def)
  show ?thesis
    using fat_resolve_normal_form [OF current, where path = ?path and capacity = 260] unfolding join names
    by (auto simp: join_path_def split: option.splits)
qed

end
