(* ===== verification/Dos_Mcb.thy ===== *)
theory Dos_Mcb
  imports Prelude
begin

text \<open>
  The DOS conventional-memory allocator, \<^verbatim>\<open>src/dos/dos_mcb.h\<close>: the chain of 16-byte memory
  control blocks in guest memory, and the INT 21h AH=48h/49h/4Ah operations on it. Segments
  and sizes are 16-bit words and wrap as the C \<^verbatim>\<open>WORD\<close> arithmetic does; an access is
  through \<open>DosMcbSegmentAddress\<close>. The two loops the code does not bound itself (the walk of
  \<^verbatim>\<open>DosMcbAllocate\<close> and the coalescing loops) are partial functions: \<open>None\<close> is a loop that
  does not end, which a corrupt chain can cause.
\<close>

definition DOS_PSP_SEG :: u16 where "DOS_PSP_SEG = 0x0100"
definition DOS_MEM_TOP :: u16 where "DOS_MEM_TOP = 0x9FC0"
definition DOS_FIRST_MCB :: u16 where "DOS_FIRST_MCB = 0x007E"
definition DOS_ENV_PARAS :: u16 where "DOS_ENV_PARAS = 0x0010"
definition DOS_RESBLK_MCB :: u16 where "DOS_RESBLK_MCB = 0x008F"
definition DOS_RESBLK_PARAS :: u16 where
  "DOS_RESBLK_PARAS = DOS_PSP_SEG - 1 - DOS_RESBLK_MCB - 1"
definition DOS_MCB_MEMBER :: u8 where "DOS_MCB_MEMBER = 0x4D"
definition DOS_MCB_LAST :: u8 where "DOS_MCB_LAST = 0x5A"
definition DOS_MCB_OWNER_FREE :: u16 where "DOS_MCB_OWNER_FREE = 0"
definition DOS_MCB_OWNER_DOS :: u16 where "DOS_MCB_OWNER_DOS = 8"
definition DOS_MCB_WALK_LIMIT :: nat where "DOS_MCB_WALK_LIMIT = 0x1000"

subsection \<open>Field access\<close>

definition DosMcbSegmentAddress :: "nat \<Rightarrow> u16 \<Rightarrow> nat" where
  "DosMcbSegmentAddress base segment = base + unat (push_bit 4 (ucast segment :: u32))"

definition DosMcbReadWord :: "mem \<Rightarrow> nat \<Rightarrow> u16" where
  "DosMcbReadWord m field = ucast (m field) OR push_bit 8 (ucast (m (field + 1)))"

definition DosMcbWriteWord :: "mem \<Rightarrow> nat \<Rightarrow> u16 \<Rightarrow> mem" where
  "DosMcbWriteWord m field value =
     m(field := ucast (value AND 0xFF), field + 1 := ucast (drop_bit 8 value))"

definition DosMcbWriteHeader :: "nat \<Rightarrow> mem \<Rightarrow> u16 \<Rightarrow> u8 \<Rightarrow> u16 \<Rightarrow> u16 \<Rightarrow> mem" where
  "DosMcbWriteHeader base m mcbSegment signature owner paragraphs =
     (let mcb = DosMcbSegmentAddress base mcbSegment;
          m1 = m(mcb := signature);
          m2 = DosMcbWriteWord m1 (mcb + 1) owner;
          m3 = DosMcbWriteWord m2 (mcb + 3) paragraphs
      in m3(mcb + 8 := 0))"

text \<open>
  The owner name: the last component of the path up to a dot or a blank, upper-cased and
  padded with zeros to eight bytes. The path is the bytes before its terminating zero.
\<close>

fun owner_base_name :: "u8 list \<Rightarrow> u8 list \<Rightarrow> u8 list" where
  "owner_base_name baseName [] = baseName"
| "owner_base_name baseName (c # cursor) =
     owner_base_name (if c = 0x5C \<or> c = 0x2F \<or> c = 0x3A then cursor else baseName) cursor"

function write_owner_name :: "nat \<Rightarrow> u8 list \<Rightarrow> nat \<Rightarrow> mem \<Rightarrow> mem" where
  "write_owner_name field baseName index m =
     (if index \<ge> 8 then m
      else case baseName of
             c # rest \<Rightarrow>
               if c = 0 \<or> c = 0x2E \<or> c = 0x20
               then write_owner_name field [] (Suc index) (m(field + index := 0))
               else write_owner_name field rest (Suc index)
                      (m(field + index := (if 0x61 \<le> c \<and> c \<le> 0x7A then c - 0x20 else c)))
           | [] \<Rightarrow> write_owner_name field [] (Suc index) (m(field + index := 0)))"
  by pat_completeness auto
termination
  by (relation "measure (\<lambda>(f, b, i, m). 8 - i)") auto

declare write_owner_name.simps [simp del]

definition DosMcbSetOwnerName :: "nat \<Rightarrow> mem \<Rightarrow> u16 \<Rightarrow> u8 list \<Rightarrow> mem" where
  "DosMcbSetOwnerName base m pspSegment path =
     write_owner_name (DosMcbSegmentAddress base (pspSegment - 1) + 8) (owner_base_name path path) 0 m"

subsection \<open>Chain bring-up\<close>

definition DosMcbInitializeWithTop :: "nat \<Rightarrow> mem \<Rightarrow> u16 \<Rightarrow> mem \<times> u16" where
  "DosMcbInitializeWithTop base m topParagraph =
     (let m1 = DosMcbWriteHeader base m DOS_FIRST_MCB DOS_MCB_MEMBER DOS_PSP_SEG DOS_ENV_PARAS;
          m2 = DosMcbWriteHeader base m1 DOS_RESBLK_MCB DOS_MCB_MEMBER DOS_MCB_OWNER_DOS DOS_RESBLK_PARAS;
          m3 = DosMcbWriteHeader base m2 (DOS_PSP_SEG - 1) DOS_MCB_LAST DOS_PSP_SEG
                 (topParagraph - DOS_PSP_SEG)
      in (m3, DOS_FIRST_MCB))"

definition DosMcbInitialize :: "nat \<Rightarrow> mem \<Rightarrow> mem \<times> u16" where
  "DosMcbInitialize base m = DosMcbInitializeWithTop base m DOS_MEM_TOP"

subsection \<open>Reserving at the top\<close>

text \<open>
  The walk of \<^verbatim>\<open>DosMcbReserveTop\<close>. \<open>previous\<close> is \<open>None\<close> while \<^verbatim>\<open>hasPrevious\<close> is false; the
  result \<open>0\<close> is \<^verbatim>\<open>DOS_MCB_NO_SEGMENT\<close>.
\<close>

function reserve_walk :: "nat \<Rightarrow> mem \<Rightarrow> u16 \<Rightarrow> u16 \<Rightarrow> u16 option \<Rightarrow> nat \<Rightarrow> mem \<times> u16" where
  "reserve_walk base m paragraphs mcbSegment previous walkCount =
     (let mcb = DosMcbSegmentAddress base mcbSegment;
          blockSize = DosMcbReadWord m (mcb + 3)
      in if m mcb = DOS_MCB_LAST \<and> DosMcbReadWord m (mcb + 1) = DOS_MCB_OWNER_DOS \<and> previous \<noteq> None
         then (let previousSegment = the previous;
                   previousMcb = DosMcbSegmentAddress base previousSegment;
                   previousSize = DosMcbReadWord m (previousMcb + 3)
               in if previousSize < paragraphs + 2 then (m, 0)
                  else let m1 = DosMcbWriteWord m (previousMcb + 3) (previousSize - paragraphs - 1);
                           newSegment = previousSegment + 1 + (previousSize - paragraphs - 1)
                       in (DosMcbWriteHeader base m1 newSegment DOS_MCB_MEMBER DOS_MCB_OWNER_DOS
                             paragraphs, newSegment + 1))
         else if m mcb = DOS_MCB_LAST
         then (if blockSize < paragraphs + 2 then (m, 0)
               else let m1 = DosMcbWriteWord m (mcb + 3) (blockSize - paragraphs - 1);
                        m2 = m1(mcb := DOS_MCB_MEMBER);
                        newTop = mcbSegment + 1 + (blockSize - paragraphs - 1)
                    in (DosMcbWriteHeader base m2 newTop DOS_MCB_LAST DOS_MCB_OWNER_DOS paragraphs,
                        newTop + 1))
         else if m mcb \<noteq> DOS_MCB_MEMBER \<or> Suc walkCount > DOS_MCB_WALK_LIMIT then (m, 0)
         else reserve_walk base m paragraphs (mcbSegment + 1 + blockSize) (Some mcbSegment)
                (Suc walkCount))"
  by pat_completeness auto
termination
  by (relation "measure (\<lambda>(base, m, p, s, pr, w). Suc DOS_MCB_WALK_LIMIT - w)") auto

declare reserve_walk.simps [simp del]

definition DosMcbReserveTop :: "nat \<Rightarrow> mem \<Rightarrow> u16 \<Rightarrow> u16 \<Rightarrow> mem \<times> u16" where
  "DosMcbReserveTop base m firstMcb paragraphs = reserve_walk base m paragraphs firstMcb None 0"

subsection \<open>AH=48h: allocate\<close>

datatype mcb_error = InsufficientMemory u16 | InvalidBlock

text \<open>The merge-on-allocate loop; it carries the block's size and signature as locals.\<close>

partial_function (option) mcb_coalesce ::
  "nat \<Rightarrow> u16 \<Rightarrow> mem \<Rightarrow> u16 \<Rightarrow> u8 \<Rightarrow> (mem \<times> u16 \<times> u8) option" where
  "mcb_coalesce base mcbSegment m blockSize signature =
     (if signature \<noteq> DOS_MCB_MEMBER then Some (m, blockSize, signature)
      else let mcb = DosMcbSegmentAddress base mcbSegment;
               nextMcb = DosMcbSegmentAddress base (mcbSegment + 1 + blockSize)
           in if DosMcbReadWord m (nextMcb + 1) \<noteq> DOS_MCB_OWNER_FREE
              then Some (m, blockSize, signature)
              else if m nextMcb \<noteq> DOS_MCB_MEMBER \<and> m nextMcb \<noteq> DOS_MCB_LAST
              then Some (m, blockSize, signature)
              else let size' = blockSize + 1 + DosMcbReadWord m (nextMcb + 3);
                       m1 = DosMcbWriteWord m (mcb + 3) size';
                       signature' = m1 nextMcb
                   in mcb_coalesce base mcbSegment (m1(mcb := signature')) size' signature')"

definition mcb_take :: "nat \<Rightarrow> mem \<Rightarrow> u16 \<Rightarrow> u16 \<Rightarrow> u16 \<Rightarrow> u8 \<Rightarrow> mem" where
  \<comment> \<open>take \<open>requested\<close> paragraphs of the free block, splitting off a free tail\<close>
  "mcb_take base m mcbSegment requested blockSize signature =
     (let mcb = DosMcbSegmentAddress base mcbSegment;
          m1 = (if blockSize \<ge> requested + 1
                then let nextMcb = DosMcbSegmentAddress base (mcbSegment + 1 + requested);
                         t1 = m(nextMcb := signature);
                         t2 = DosMcbWriteWord t1 (nextMcb + 1) DOS_MCB_OWNER_FREE;
                         t3 = DosMcbWriteWord t2 (nextMcb + 3) (blockSize - requested - 1);
                         t4 = t3(nextMcb + 8 := 0);
                         t5 = t4(mcb := DOS_MCB_MEMBER)
                     in DosMcbWriteWord t5 (mcb + 3) requested
                else m)
      in DosMcbWriteWord m1 (mcb + 1) DOS_PSP_SEG)"

partial_function (option) allocate_walk ::
  "nat \<Rightarrow> u16 \<Rightarrow> mem \<Rightarrow> u16 \<Rightarrow> u16 \<Rightarrow> (mem \<times> (mcb_error + u16)) option" where
  "allocate_walk base requested m mcbSegment biggest =
     (let mcb = DosMcbSegmentAddress base mcbSegment;
          signature = m mcb;
          owner = DosMcbReadWord m (mcb + 1);
          blockSize = DosMcbReadWord m (mcb + 3)
      in if owner = DOS_MCB_OWNER_FREE
         then Option.bind (mcb_coalesce base mcbSegment m blockSize signature)
           (\<lambda>(m1, size1, signature1).
              let biggest1 = (if size1 > biggest then size1 else biggest)
              in if size1 \<ge> requested
                 then Some (mcb_take base m1 mcbSegment requested size1 signature1,
                            Inr (mcbSegment + 1))
                 else if signature1 = DOS_MCB_LAST
                 then Some (m1, Inl (InsufficientMemory biggest1))
                 else allocate_walk base requested m1 (mcbSegment + 1 + size1) biggest1)
         else if signature = DOS_MCB_LAST then Some (m, Inl (InsufficientMemory biggest))
         else allocate_walk base requested m (mcbSegment + 1 + blockSize) biggest)"

definition DosMcbAllocate ::
  "nat \<Rightarrow> mem \<Rightarrow> u16 \<Rightarrow> u16 \<Rightarrow> (mem \<times> (mcb_error + u16)) option" where
  "DosMcbAllocate base m firstMcb requested = allocate_walk base requested m firstMcb 0"

subsection \<open>AH=49h: free\<close>

partial_function (option) free_coalesce :: "nat \<Rightarrow> u16 \<Rightarrow> mem \<Rightarrow> mem option" where
  "free_coalesce base mcbSegment m =
     (let mcb = DosMcbSegmentAddress base mcbSegment
      in if m mcb \<noteq> DOS_MCB_MEMBER then Some m
         else let blockSize = DosMcbReadWord m (mcb + 3);
                  nextMcb = DosMcbSegmentAddress base (mcbSegment + 1 + blockSize)
              in if DosMcbReadWord m (nextMcb + 1) \<noteq> DOS_MCB_OWNER_FREE then Some m
                 else if m nextMcb \<noteq> DOS_MCB_MEMBER \<and> m nextMcb \<noteq> DOS_MCB_LAST then Some m
                 else let m1 = DosMcbWriteWord m (mcb + 3)
                                 (blockSize + 1 + DosMcbReadWord m (nextMcb + 3))
                      in free_coalesce base mcbSegment (m1(mcb := m1 nextMcb)))"

definition DosMcbFree :: "nat \<Rightarrow> mem \<Rightarrow> u16 \<Rightarrow> (mem \<times> mcb_error option) option" where
  "DosMcbFree base m blockSegment =
     (let mcbSegment = blockSegment - 1;
          mcb = DosMcbSegmentAddress base mcbSegment
      in if m mcb \<noteq> DOS_MCB_MEMBER \<and> m mcb \<noteq> DOS_MCB_LAST then Some (m, Some InvalidBlock)
         else Option.bind (free_coalesce base mcbSegment (DosMcbWriteWord m (mcb + 1) DOS_MCB_OWNER_FREE))
                (\<lambda>m'. Some (m', None)))"

subsection \<open>AH=4Ah: resize\<close>

definition write_free_tail :: "nat \<Rightarrow> mem \<Rightarrow> u16 \<Rightarrow> u8 \<Rightarrow> u16 \<Rightarrow> mem" where
  \<comment> \<open>a free block's header at \<open>tailSegment\<close>, as both branches of the resize write it\<close>
  "write_free_tail base m tailSegment signature paragraphs =
     (let tailMcb = DosMcbSegmentAddress base tailSegment;
          t1 = m(tailMcb := signature);
          t2 = DosMcbWriteWord t1 (tailMcb + 1) DOS_MCB_OWNER_FREE;
          t3 = DosMcbWriteWord t2 (tailMcb + 3) paragraphs
      in t3(tailMcb + 8 := 0))"

definition DosMcbResize ::
  "nat \<Rightarrow> mem \<Rightarrow> u16 \<Rightarrow> u16 \<Rightarrow> mem \<times> mcb_error option" where
  "DosMcbResize base m blockSegment requested =
     (let mcbSegment = blockSegment - 1;
          mcb = DosMcbSegmentAddress base mcbSegment
      in if m mcb \<noteq> DOS_MCB_MEMBER \<and> m mcb \<noteq> DOS_MCB_LAST then (m, Some InvalidBlock)
         else
           let currentSize = DosMcbReadWord m (mcb + 3);
               signature = m mcb;
               nextMcb = DosMcbSegmentAddress base (mcbSegment + 1 + currentSize);
               isNextFree = (signature = DOS_MCB_MEMBER \<and>
                             DosMcbReadWord m (nextMcb + 1) = DOS_MCB_OWNER_FREE);
               available = currentSize + 1 + DosMcbReadWord m (nextMcb + 3)
           in if requested \<le> currentSize
              then (if currentSize - requested \<ge> 1
                    then let t = write_free_tail base m (mcbSegment + 1 + requested) signature
                                   (currentSize - requested - 1);
                             t1 = t(mcb := DOS_MCB_MEMBER)
                         in (DosMcbWriteWord t1 (mcb + 3) requested, None)
                    else (m, None))
              else if isNextFree \<and> available \<ge> requested
              then (if available - requested \<ge> 1
                    then let t = write_free_tail base m (mcbSegment + 1 + requested) (m nextMcb)
                                   (available - requested - 1);
                             t1 = DosMcbWriteWord t (mcb + 3) requested
                         in (t1(mcb := DOS_MCB_MEMBER), None)
                    else let t = DosMcbWriteWord m (mcb + 3) available
                         in (t(mcb := t nextMcb), None))
              else (m, Some (InsufficientMemory (if isNextFree then available else currentSize))))"

subsection \<open>The chain validator\<close>

datatype chain_status =
    ChainOk
  | ChainRunaway
  | ChainCorruptSignature
  | ChainOverrunsTop
  | ChainLastMisplaced

function check_walk :: "nat \<Rightarrow> mem \<Rightarrow> u16 \<Rightarrow> u16 \<Rightarrow> nat \<Rightarrow> chain_status" where
  "check_walk base m topParagraph mcbSegment walkCount =
     (let mcb = DosMcbSegmentAddress base mcbSegment;
          signature = m mcb;
          blockSize = DosMcbReadWord m (mcb + 3);
          nextSegment = ucast mcbSegment + 1 + ucast blockSize :: u32
      in if Suc walkCount > DOS_MCB_WALK_LIMIT then ChainRunaway
         else if signature \<noteq> DOS_MCB_MEMBER \<and> signature \<noteq> DOS_MCB_LAST then ChainCorruptSignature
         else if nextSegment > ucast topParagraph then ChainOverrunsTop
         else if signature = DOS_MCB_LAST
         then (if nextSegment = ucast topParagraph then ChainOk else ChainLastMisplaced)
         else check_walk base m topParagraph (ucast nextSegment) (Suc walkCount))"
  by pat_completeness auto
termination
  by (relation "measure (\<lambda>(base, m, t, s, w). Suc DOS_MCB_WALK_LIMIT - w)") auto

declare check_walk.simps [simp del]

definition DosMcbCheckChain :: "nat \<Rightarrow> mem \<Rightarrow> u16 \<Rightarrow> u16 \<Rightarrow> chain_status" where
  "DosMcbCheckChain base m firstMcb topParagraph = check_walk base m topParagraph firstMcb 0"

end
