(* ===== verification/Dos_Mcb_Refine.thy ===== *)
theory Dos_Mcb_Refine
  imports Dos_Mcb_Chain
begin

text \<open>
  The abstract arena operations on a list of blocks and the refinement of \<^verbatim>\<open>DosMcbAllocate\<close>,
  \<^verbatim>\<open>DosMcbFree\<close>, \<^verbatim>\<open>DosMcbResize\<close>, \<^verbatim>\<open>DosMcbReserveTop\<close> and \<^verbatim>\<open>DosMcbCheckChain\<close> to them.
\<close>

subsection \<open>The abstract operations\<close>

fun absorb :: "nat \<Rightarrow> block list \<Rightarrow> nat \<times> block list" where
  "absorb n [] = (n, [])"
| "absorb n (b # bs) = (if fst b = DOS_MCB_OWNER_FREE then absorb (n + 1 + snd b) bs else (n, b # bs))"

lemma absorb_span: "absorb n bs = (n', bs') \<Longrightarrow> n' + span bs' = n + span bs \<and> n \<le> n'"
  by (induction n bs rule: absorb.induct) (auto split: if_splits)

lemma absorb_length: "absorb n bs = (n', bs') \<Longrightarrow> length bs' \<le> length bs"
  by (induction n bs rule: absorb.induct) (auto split: if_splits)

definition take_block :: "nat \<Rightarrow> nat \<Rightarrow> block list" where
  "take_block req n =
     (if req < n then [(DOS_PSP_SEG, req), (DOS_MCB_OWNER_FREE, n - req - 1)] else [(DOS_PSP_SEG, n)])"

function alloc_blocks :: "nat \<Rightarrow> nat \<Rightarrow> nat \<Rightarrow> block list \<Rightarrow> block list \<times> (nat + nat)" where
  "alloc_blocks req big s [] = ([], Inl big)"
| "alloc_blocks req big s (b # bs) =
     (if fst b = DOS_MCB_OWNER_FREE
      then let n' = fst (absorb (snd b) bs); bs' = snd (absorb (snd b) bs)
           in if req \<le> n' then (take_block req n' @ bs', Inr (s + 1))
              else let r = alloc_blocks req (max big n') (s + 1 + n') bs'
                   in ((DOS_MCB_OWNER_FREE, n') # fst r, snd r)
      else let r = alloc_blocks req big (s + 1 + snd b) bs in (b # fst r, snd r))"
  by pat_completeness auto
termination
  by (relation "measure (\<lambda>(req, big, s, bs). length bs)")
    (auto simp: less_Suc_eq_le intro: absorb_length surjective_pairing)

primrec free_paras :: "nat \<Rightarrow> block list \<Rightarrow> nat set" where
  \<comment> \<open>the paragraphs of the free blocks, their headers included\<close>
  "free_paras s [] = {}"
| "free_paras s (b # bs) =
     (if fst b = DOS_MCB_OWNER_FREE then {s..s + snd b} else {}) \<union> free_paras (s + 1 + snd b) bs"

lemma absorb_free_paras:
  "absorb n bs = (n', bs') \<Longrightarrow>
   {s..s + n} \<union> free_paras (s + 1 + n) bs = {s..s + n'} \<union> free_paras (s + 1 + n') bs'"
proof (induction n bs rule: absorb.induct)
  case (2 n b bs)
  show ?case
  proof (cases "fst b = DOS_MCB_OWNER_FREE")
    case True
    have "{s..s + n} \<union> {s + 1 + n..s + 1 + n + snd b} = {s..s + (n + 1 + snd b)}" by auto
    with 2 True show ?thesis by (simp add: Un_assoc [symmetric] add.assoc add.left_commute)
  qed (use 2 in simp)
qed simp

lemma free_paras_bounds: "free_paras s bs \<subseteq> {s..<s + span bs}"
proof (induction bs arbitrary: s)
  case (Cons b bs)
  have "free_paras (s + 1 + snd b) bs \<subseteq> {s + 1 + snd b..<s + 1 + snd b + span bs}" by (rule Cons)
  then have "free_paras (s + 1 + snd b) bs \<subseteq> {s..<s + span (b # bs)}" by fastforce
  moreover have "{s..s + snd b} \<subseteq> {s..<s + span (b # bs)}" by auto
  ultimately show ?case by (simp only: free_paras.simps split: if_split) blast
qed simp

subsection \<open>Header writes\<close>

lemma only_paras_head:
  "only_paras base S m m' \<Longrightarrow> s \<in> S \<Longrightarrow> only_paras base S m (m'(base + 16 * s := v))"
  using only_paras_byte [of base S m m' s 0 v] by simp

lemma only_paras_owner:
  "only_paras base S m m' \<Longrightarrow> s \<in> S \<Longrightarrow>
   only_paras base S m (DosMcbWriteWord m' (Suc (base + 16 * s)) v)"
  using only_paras_word [of base S m m' s 1 v] by simp

lemmas only_paras_writes = only_paras_head only_paras_byte only_paras_word only_paras_owner

lemma mcb_at_set_size_sig:
  "DosMcbReadWord m (base + 16 * s + 1) = owner \<Longrightarrow>
   mcb_at base ((DosMcbWriteWord m (base + 16 * s + 3) (of_nat n))(base + 16 * s := sig)) s sig owner n"
  by (simp add: mcb_at_def mem_facts)

lemma mcb_at_set_sig_size:
  "DosMcbReadWord m (base + 16 * s + 1) = owner \<Longrightarrow>
   mcb_at base (DosMcbWriteWord (m(base + 16 * s := sig)) (base + 16 * s + 3) (of_nat n)) s sig owner n"
  by (simp add: mcb_at_def mem_facts)

lemma mcb_at_set_owner:
  "mcb_at base m s sig owner n \<Longrightarrow>
   mcb_at base (DosMcbWriteWord m (base + 16 * s + 1) owner') s sig owner' n"
  by (simp add: mcb_at_def mem_facts)

lemma write_free_tail_at:
  assumes "s \<le> 65535"
  shows "mcb_at base (write_free_tail base m (of_nat s) sig (of_nat n)) s sig DOS_MCB_OWNER_FREE n"
    and "only_paras base {s} m (write_free_tail base m (of_nat s) sig v)"
  using assms
  by (auto simp: write_free_tail_def seg_facts Let_def mcb_at_def mem_facts
      intro!: only_paras_writes)

lemma DosMcbWriteHeader_at:
  assumes "s \<le> 65535"
  shows "mcb_at base (DosMcbWriteHeader base m (of_nat s) sig owner (of_nat n)) s sig owner n"
    and "only_paras base {s} m (DosMcbWriteHeader base m (of_nat s) sig owner v)"
  using assms
  by (auto simp: DosMcbWriteHeader_def seg_facts Let_def mcb_at_def mem_facts
      intro!: only_paras_writes)

lemma mcb_take_split:
  "mcb_take base m seg requested blockSize sig =
     (let mcb = DosMcbSegmentAddress base seg;
          m1 = (if blockSize \<ge> requested + 1
                then DosMcbWriteWord
                       ((write_free_tail base m (seg + 1 + requested) sig (blockSize - requested - 1))
                          (mcb := DOS_MCB_MEMBER)) (mcb + 3) requested
                else m)
      in DosMcbWriteWord m1 (mcb + 1) DOS_PSP_SEG)"
  by (simp add: mcb_take_def write_free_tail_def Let_def)

subsection \<open>Coalescing\<close>

lemma absorb_step:
  assumes chain: "mcb_chain base m s ((owner, n) # (w, k) # bs) top_seg"
  defines "a \<equiv> base + 16 * s"
  defines "m1 \<equiv> DosMcbWriteWord m (a + 3) (of_nat (n + 1 + k))"
  defines "m2 \<equiv> m1(a := m1 (base + 16 * (s + 1 + n)))"
  shows "m1 (base + 16 * (s + 1 + n)) = sig_before bs"
    and "mcb_chain base m2 s ((owner, n + 1 + k) # bs) top_seg"
    and "only_paras base {s} m m2"
proof -
  have hd: "mcb_at base m s DOS_MCB_MEMBER owner n"
    and nx: "mcb_at base m (s + 1 + n) (sig_before bs) w k"
    using chain by (auto simp: sig_before_def)
  have o1: "only_paras base {s} m m1"
    unfolding m1_def a_def by (rule only_paras_word) auto
  then have "mcb_at base m1 (s + 1 + n) (sig_before bs) w k"
    using nx mcb_at_elsewhere by fastforce
  then show sg: "m1 (base + 16 * (s + 1 + n)) = sig_before bs" by (simp add: mcb_at_def)
  show o2: "only_paras base {s} m m2"
    unfolding m2_def a_def by (rule only_paras_head [OF o1]) auto
  have "mcb_at base m2 s (sig_before bs) owner (n + 1 + k)"
    unfolding m2_def sg unfolding m1_def a_def
    by (rule mcb_at_set_size_sig) (use hd in \<open>simp add: mcb_at_def\<close>)
  moreover have "mcb_chain base m2 (s + 1 + n + 1 + k) bs top_seg" if "bs \<noteq> []"
    using chain that mcb_chain_elsewhere [OF o2, of "s + 1 + n + 1 + k" bs top_seg] by simp
  ultimately show "mcb_chain base m2 s ((owner, n + 1 + k) # bs) top_seg"
    using chain by (auto simp: add.assoc)
qed

lemma sig_before_simps [simp]:
  "sig_before (b # bs) = DOS_MCB_MEMBER" "sig_before [] = DOS_MCB_LAST"
  "DOS_MCB_LAST \<noteq> DOS_MCB_MEMBER" "DOS_MCB_MEMBER \<noteq> DOS_MCB_LAST"
  by (simp_all add: sig_before_def DOS_MCB_LAST_def DOS_MCB_MEMBER_def)

lemma sig_before_valid:
  "(sig_before bs \<noteq> DOS_MCB_MEMBER \<and> sig_before bs \<noteq> DOS_MCB_LAST) = False"
  by (simp add: sig_before_def DOS_MCB_LAST_def DOS_MCB_MEMBER_def)

lemma chain_head:
  assumes "mcb_chain base m s ((owner, n) # bs) top_seg"
  shows "m (base + 16 * s) = sig_before bs" "DosMcbReadWord m (base + 16 * s + 1) = owner"
    "DosMcbReadWord m (base + 16 * s + 3) = of_nat n" "s + 1 + n + span bs = top_seg"
    "top_seg \<le> 65535" "n \<le> 65535" "s \<le> 65535"
  using assms mcb_chain_top [OF assms] by (auto simp: mcb_at_def)

lemma chain_next:
  assumes "mcb_chain base m s ((owner, n) # (w, k) # bs) top_seg"
  shows "m (base + 16 * (s + 1 + n)) = sig_before bs"
    "DosMcbReadWord m (base + 16 * (s + 1 + n) + 1) = w"
    "DosMcbReadWord m (base + 16 * (s + 1 + n) + 3) = of_nat k" "s + 1 + n \<le> 65535"
  using chain_head [of base m "s + 1 + n" w k bs top_seg] assms by auto

lemma mcb_coalesce_chain:
  assumes "mcb_chain base m s ((owner, n) # bs) top_seg" "absorb n bs = (n', bs')"
  shows "\<exists>m'. mcb_coalesce base (of_nat s) m (of_nat n) (sig_before bs) =
      Some (m', of_nat n', sig_before bs') \<and>
    mcb_chain base m' s ((owner, n') # bs') top_seg \<and> only_paras base {s} m m'"
  using assms
proof (induction bs arbitrary: n m)
  case Nil
  then show ?case by (subst mcb_coalesce.simps) auto
next
  case (Cons b bs)
  obtain w k where b: "b = (w, k)" by (cases b)
  note ch = Cons.prems(1)[unfolded b]
  note hd = chain_head [OF ch] and nx = chain_next [OF ch] and st = absorb_step [OF ch]
  have addr: "DosMcbSegmentAddress base (of_nat s) = base + 16 * s"
    "DosMcbSegmentAddress base (of_nat s + 1 + of_nat n) = base + 16 * (s + 1 + n)"
    using hd(7) nx(4) by (simp_all only: seg_address seg_address_next)
  show ?case
  proof (cases "w = DOS_MCB_OWNER_FREE")
    case False
    with Cons.prems(2) b have e: "n' = n" "bs' = (w, k) # bs" by auto
    have "mcb_coalesce base (of_nat s) m (of_nat n) (sig_before (b # bs)) =
        Some (m, of_nat n, sig_before bs')"
      using False nx(2) by (subst mcb_coalesce.simps) (simp add: e addr Let_def)
    with ch show ?thesis unfolding e by auto
  next
    case True
    define m2 where "m2 = (DosMcbWriteWord m (base + 16 * s + 3) (of_nat (n + 1 + k)))
        (base + 16 * s := sig_before bs)"
    have m2: "mcb_chain base m2 s ((owner, n + 1 + k) # bs) top_seg" "only_paras base {s} m m2"
      using st(2,3) [unfolded st(1)] by (simp_all only: m2_def)
    have "absorb (n + 1 + k) bs = (n', bs')" using Cons.prems(2) True b by simp
    from Cons.IH [OF m2(1) this] obtain m' where
      m': "mcb_coalesce base (of_nat s) m2 (of_nat (n + 1 + k)) (sig_before bs) =
        Some (m', of_nat n', sig_before bs')"
      "mcb_chain base m' s ((owner, n') # bs') top_seg" "only_paras base {s} m2 m'" by auto
    define x v where "x = base + 16 * (s + 1 + n)" and "v = (of_nat (n + 1 + k) :: u16)"
    have xv: "DosMcbSegmentAddress base (of_nat s + 1 + of_nat n) = x" "of_nat n + 1 + of_nat k = v"
      "m x = sig_before bs" "DosMcbReadWord m (x + 1) = w" "DosMcbReadWord m (x + 3) = of_nat k"
      "DosMcbWriteWord m (base + 16 * s + 3) v x = sig_before bs"
      using addr(2) nx(1-3) st(1) unfolding x_def v_def by (simp_all only: of_nat_add of_nat_1)
    have "mcb_coalesce base (of_nat s) m (of_nat n) (sig_before (b # bs)) =
        mcb_coalesce base (of_nat s) m2 (of_nat (n + 1 + k)) (sig_before bs)"
      using True
      unfolding m2_def v_def [symmetric]
      by (subst mcb_coalesce.simps) (simp only: addr(1) xv Let_def sig_before_valid sig_before_simps if_False if_True simp_thms del: fun_upd_apply One_nat_def)
    with m' m2(2) show ?thesis by (auto intro: only_paras_trans)
  qed
qed

lemma free_coalesce_chain:
  assumes "mcb_chain base m s ((owner, n) # bs) top_seg" "absorb n bs = (n', bs')"
  shows "\<exists>m'. free_coalesce base (of_nat s) m = Some m' \<and>
    mcb_chain base m' s ((owner, n') # bs') top_seg \<and> only_paras base {s} m m'"
  using assms
proof (induction bs arbitrary: n m)
  case Nil
  then show ?case
    using chain_head [OF Nil.prems(1)] by (subst free_coalesce.simps) (auto simp: seg_address)
next
  case (Cons b bs)
  obtain w k where b: "b = (w, k)" by (cases b)
  note ch = Cons.prems(1)[unfolded b]
  note hd = chain_head [OF ch] and nx = chain_next [OF ch] and st = absorb_step [OF ch]
  have addr: "DosMcbSegmentAddress base (of_nat s) = base + 16 * s"
    "DosMcbSegmentAddress base (of_nat s + 1 + of_nat n) = base + 16 * (s + 1 + n)"
    using hd(7) nx(4) by (simp_all only: seg_address seg_address_next)
  show ?case
  proof (cases "w = DOS_MCB_OWNER_FREE")
    case False
    with Cons.prems(2) b have e: "n' = n" "bs' = (w, k) # bs" by auto
    have "free_coalesce base (of_nat s) m = Some m"
      using False nx(2) hd by (subst free_coalesce.simps) (simp add: addr Let_def)
    with ch show ?thesis unfolding e by auto
  next
    case True
    define m2 where "m2 = (DosMcbWriteWord m (base + 16 * s + 3) (of_nat (n + 1 + k)))
        (base + 16 * s := sig_before bs)"
    have m2: "mcb_chain base m2 s ((owner, n + 1 + k) # bs) top_seg" "only_paras base {s} m m2"
      using st(2,3) [unfolded st(1)] by (simp_all only: m2_def)
    have "absorb (n + 1 + k) bs = (n', bs')" using Cons.prems(2) True b by simp
    from Cons.IH [OF m2(1) this] obtain m' where
      m': "free_coalesce base (of_nat s) m2 = Some m'"
      "mcb_chain base m' s ((owner, n') # bs') top_seg" "only_paras base {s} m2 m'" by auto
    define x v where "x = base + 16 * (s + 1 + n)" and "v = (of_nat (n + 1 + k) :: u16)"
    have xv: "DosMcbSegmentAddress base (of_nat s + 1 + of_nat n) = x" "of_nat n + 1 + of_nat k = v"
      "m x = sig_before bs" "DosMcbReadWord m (x + 1) = w" "DosMcbReadWord m (x + 3) = of_nat k"
      "DosMcbWriteWord m (base + 16 * s + 3) v x = sig_before bs"
      using addr(2) nx(1-3) st(1) unfolding x_def v_def by (simp_all only: of_nat_add of_nat_1)
    have "free_coalesce base (of_nat s) m = free_coalesce base (of_nat s) m2"
      using True hd(1,3)
      unfolding m2_def v_def [symmetric]
      by (subst free_coalesce.simps) (simp only: addr(1) xv Let_def sig_before_valid sig_before_simps if_False if_True simp_thms del: fun_upd_apply One_nat_def)
    with m' m2(2) show ?thesis by (auto intro: only_paras_trans)
  qed
qed

subsection \<open>Allocation\<close>

lemma mcb_take_chain:
  assumes chain: "mcb_chain base m s ((w, n) # bs) top_seg" and fit: "req \<le> n"
  defines "m' \<equiv> mcb_take base m (of_nat s) (of_nat req) (of_nat n) (sig_before bs)"
  shows "mcb_chain base m' s (take_block req n @ bs) top_seg \<and> only_paras base {s..s + n} m m'"
proof (cases "req < n")
  case False
  with fit have [simp]: "req = n" by simp
  note hd = chain_head [OF chain]
  have "\<not> of_nat n \<ge> (of_nat n + 1 :: u16)"
    using hd(4,5) seg_le [of "n + 1" n] by (simp only: of_nat_add of_nat_1)
  then have m': "m' = DosMcbWriteWord m (base + 16 * s + 1) DOS_PSP_SEG"
    using hd(7) by (simp add: m'_def mcb_take_def Let_def seg_address)
  have o: "only_paras base {s} m m'" unfolding m' by (rule only_paras_word) auto
  have "mcb_at base m' s (sig_before bs) DOS_PSP_SEG n"
    unfolding m' by (rule mcb_at_set_owner [of _ _ _ _ w]) (use chain in simp)
  moreover have "mcb_chain base m' (s + 1 + n) bs top_seg" if "bs \<noteq> []"
    using chain that mcb_chain_elsewhere [OF o, of "s + 1 + n" bs top_seg] by simp
  ultimately show ?thesis
    using chain only_paras_mono [OF o, of "{s..s + n}"] by (auto simp: take_block_def)
next
  case True
  note hd = chain_head [OF chain]
  have r: "s + 1 + req \<le> 65535" using hd(4,5) True by simp
  define t where "t = write_free_tail base m (of_nat (s + 1 + req)) (sig_before bs) (of_nat (n - req - 1))"
  define t1 where "t1 = DosMcbWriteWord (t(base + 16 * s := DOS_MCB_MEMBER)) (base + 16 * s + 3) (of_nat req)"
  have "of_nat n \<ge> (of_nat req + 1 :: u16)"
    using hd(6) True seg_le [of "req + 1" n] by (simp only: of_nat_add of_nat_1)
  moreover have "of_nat n - of_nat req - 1 = (of_nat (n - req - 1) :: u16)"
    using True by simp
  ultimately have m': "m' = DosMcbWriteWord t1 (base + 16 * s + 1) DOS_PSP_SEG"
    unfolding m'_def mcb_take_split t1_def t_def Let_def seg_address [OF hd(7)] seg_next
    by simp
  have ot: "only_paras base {s, s + 1 + req} m t"
    unfolding t_def by (rule only_paras_mono [OF write_free_tail_at(2)]) (use r in auto)
  have ot1: "only_paras base {s} t t1"
    unfolding t1_def by (auto intro!: only_paras_writes)
  have o1: "only_paras base {s} t1 m'"
    unfolding m' by (rule only_paras_word) auto
  have o': "only_paras base {s} t m'" using ot1 o1 by (rule only_paras_trans)
  have o: "only_paras base {s, s + 1 + req} m m'"
    using ot only_paras_mono [OF o'] by (auto intro: only_paras_trans)
  have tail: "mcb_at base m' (s + 1 + req) (sig_before bs) DOS_MCB_OWNER_FREE (n - req - 1)"
    using write_free_tail_at(1) [OF r] mcb_at_elsewhere [OF o', of "s + 1 + req"]
    by (simp add: t_def)
  have "mcb_at base t1 s DOS_MCB_MEMBER (DosMcbReadWord t (base + 16 * s + 1)) req"
    unfolding t1_def by (rule mcb_at_set_sig_size) simp
  then have head: "mcb_at base m' s DOS_MCB_MEMBER DOS_PSP_SEG req"
    unfolding m' by (rule mcb_at_set_owner)
  have "mcb_chain base m' (s + 1 + n) bs top_seg" if "bs \<noteq> []"
    using chain that True mcb_chain_elsewhere [OF o, of "s + 1 + n" bs top_seg] by simp
  with tail head True chain have "mcb_chain base m' s (take_block req n @ bs) top_seg"
    by (auto simp: take_block_def sig_before_def)
  moreover have "only_paras base {s..s + n} m m'"
    by (rule only_paras_mono [OF o]) (use True in auto)
  ultimately show ?thesis by blast
qed

lemma take_block_span: "req \<le> n \<Longrightarrow> span (take_block req n) = n + 1"
  by (auto simp: take_block_def)

lemma alloc_blocks_nonempty: "bs \<noteq> [] \<Longrightarrow> fst (alloc_blocks req big s bs) \<noteq> []"
  by (cases bs) (auto simp: Let_def take_block_def)

definition alloc_result :: "nat + nat \<Rightarrow> mcb_error + u16" where
  "alloc_result r = (case r of Inl big \<Rightarrow> Inl (InsufficientMemory (of_nat big)) | Inr seg \<Rightarrow> Inr (of_nat seg))"

lemma alloc_result_simps [simp]:
  "alloc_result (Inl big) = Inl (InsufficientMemory (of_nat big))"
  "alloc_result (Inr seg) = Inr (of_nat seg)"
  by (simp_all add: alloc_result_def)

lemma chain_extend:
  assumes "mcb_at base m s DOS_MCB_MEMBER owner n" "mcb_chain base m' (s + 1 + n) bs' top_seg"
    "only_paras base S m m'" "s \<notin> S"
  shows "mcb_chain base m' s ((owner, n) # bs') top_seg"
proof -
  have "bs' \<noteq> []" using assms(2) by auto
  then show ?thesis using assms mcb_at_elsewhere [OF assms(3,4)] by (auto simp: sig_before_def)
qed

lemma allocate_walk_chain:
  assumes "mcb_chain base m s bs top_seg" "big \<le> 65535" "req \<le> 65535"
  shows "\<exists>m'. allocate_walk base (of_nat req) m (of_nat s) (of_nat big) =
      Some (m', alloc_result (snd (alloc_blocks req big s bs))) \<and>
    mcb_chain base m' s (fst (alloc_blocks req big s bs)) top_seg \<and>
    only_paras base (free_paras s bs) m m'"
  using assms(1,2)
proof (induction "length bs" arbitrary: m s bs big rule: less_induct)
  case less
  from less.prems(1) obtain w n bs0 where bs: "bs = (w, n) # bs0" by (cases bs) auto
  note ch = less.prems(1)[unfolded bs] and req = assms(3)
  note hd = chain_head [OF ch]
  have addr: "DosMcbSegmentAddress base (of_nat s) = base + 16 * s" by (rule seg_address [OF hd(7)])
  show ?case
  proof (cases "w = DOS_MCB_OWNER_FREE")
    case False
    show ?thesis
    proof (cases "bs0 = []")
      case True
      with False ch hd show ?thesis
        by (subst allocate_walk.simps) (simp add: bs addr Let_def)
    next
      case rest: False
      have "mcb_chain base m (s + 1 + n) bs0 top_seg" using ch rest by simp
      from less.hyps [OF _ this less.prems(2)] obtain m' where
        m': "allocate_walk base (of_nat req) m (of_nat (s + 1 + n)) (of_nat big) =
          Some (m', alloc_result (snd (alloc_blocks req big (s + 1 + n) bs0)))"
        "mcb_chain base m' (s + 1 + n) (fst (alloc_blocks req big (s + 1 + n) bs0)) top_seg"
        "only_paras base (free_paras (s + 1 + n) bs0) m m'" by (auto simp: bs)
      have "sig_before bs0 = DOS_MCB_MEMBER" using rest by (simp add: sig_before_def)
      then have "allocate_walk base (of_nat req) m (of_nat s) (of_nat big) =
          allocate_walk base (of_nat req) m (of_nat (s + 1 + n)) (of_nat big)"
        using False hd(1-3) by (subst allocate_walk.simps) (simp add: addr Let_def add.commute add.left_commute)
      moreover have "mcb_chain base m' s ((w, n) # fst (alloc_blocks req big (s + 1 + n) bs0)) top_seg"
        by (rule chain_extend [OF _ m'(2,3)])
          (use ch rest free_paras_bounds [of "s + 1 + n" bs0] in \<open>auto simp: sig_before_def\<close>)
      ultimately show ?thesis using False m' by (auto simp: bs Let_def)
    qed
  next
    case True
    obtain n' bs' where ab: "absorb n bs0 = (n', bs')" by fastforce
    obtain m1 where m1: "mcb_coalesce base (of_nat s) m (of_nat n) (sig_before bs0) =
        Some (m1, of_nat n', sig_before bs')"
      "mcb_chain base m1 s ((w, n') # bs') top_seg" "only_paras base {s} m m1"
      using mcb_coalesce_chain [OF ch ab] by auto
    note hd1 = chain_head [OF m1(2)]
    have fp: "free_paras s bs = {s..s + n'} \<union> free_paras (s + 1 + n') bs'"
      using absorb_free_paras [OF ab, of s] True by (simp add: bs)
    have o1: "only_paras base (free_paras s bs) m m1"
      by (rule only_paras_mono [OF m1(3)]) (simp add: fp)
    have ord: "(of_nat n' :: u16) \<ge> of_nat req \<longleftrightarrow> req \<le> n'"
      "(if (of_nat n' :: u16) > of_nat big then of_nat n' else of_nat big) = (of_nat (max big n') :: u16)"
      using hd1(6) req less.prems(2) by (auto simp: seg_facts max_def)
    have step: "allocate_walk base (of_nat req) m (of_nat s) (of_nat big) =
        (if req \<le> n' then Some (mcb_take base m1 (of_nat s) (of_nat req) (of_nat n') (sig_before bs'),
            Inr (of_nat (s + 1)))
         else if bs' = [] then Some (m1, Inl (InsufficientMemory (of_nat (max big n'))))
         else allocate_walk base (of_nat req) m1 (of_nat (s + 1 + n')) (of_nat (max big n')))"
      using hd(1-3) True m1(1)
      by (subst allocate_walk.simps)
        (simp add: addr Let_def ord sig_before_def add.commute add.left_commute)
    show ?thesis
    proof (cases "req \<le> n'")
      case fit: True
      have "only_paras base (free_paras s bs) m1 (mcb_take base m1 (of_nat s) (of_nat req) (of_nat n') (sig_before bs'))"
        by (rule only_paras_mono [OF conjunct2 [OF mcb_take_chain [OF m1(2) fit]]]) (simp add: fp)
      with step fit True ab mcb_take_chain [OF m1(2) fit] o1 show ?thesis
        by (auto simp: bs Let_def intro: only_paras_trans)
    next
      case no_fit: False
      show ?thesis
      proof (cases "bs' = []")
        case last: True
        with step no_fit True ab m1(2) o1 show ?thesis by (auto simp: bs Let_def)
      next
        case more: False
        have ch1: "mcb_chain base m1 (s + 1 + n') bs' top_seg" using m1(2) more by simp
        have "length bs' < length bs" using absorb_length [OF ab] by (simp add: bs)
        from less.hyps [OF this ch1, of "max big n'"] hd1(6) less.prems(2) obtain m' where
          m': "allocate_walk base (of_nat req) m1 (of_nat (s + 1 + n')) (of_nat (max big n')) =
            Some (m', alloc_result (snd (alloc_blocks req (max big n') (s + 1 + n') bs')))"
          "mcb_chain base m' (s + 1 + n') (fst (alloc_blocks req (max big n') (s + 1 + n') bs')) top_seg"
          "only_paras base (free_paras (s + 1 + n') bs') m1 m'" by auto
        have "mcb_chain base m' s ((w, n') # fst (alloc_blocks req (max big n') (s + 1 + n') bs')) top_seg"
          by (rule chain_extend [OF _ m'(2,3)])
            (use m1(2) more free_paras_bounds [of "s + 1 + n'" bs'] in \<open>auto simp: sig_before_def\<close>)
        moreover have "only_paras base (free_paras s bs) m m'"
          using o1 only_paras_mono [OF m'(3), of "free_paras s bs"] fp by (auto intro: only_paras_trans)
        ultimately show ?thesis using step no_fit more True ab m'(1) by (auto simp: bs Let_def)
      qed
    qed
  qed
qed

end
