(* ===== verification/Dos_Mcb_Contract.thy ===== *)
theory Dos_Mcb_Contract
  imports Dos_Mcb_Refine
begin

text \<open>
  The properties of the DOS arena: what an allocation, a free, a resize and a reservation do
  to the blocks the chain holds, what the chain validator decides, and the invariant of every
  sequence of INT 21h memory calls.
\<close>

subsection \<open>What the abstract operations keep\<close>

primrec owned :: "nat \<Rightarrow> block list \<Rightarrow> (nat \<times> u16 \<times> nat) set" where
  \<comment> \<open>the blocks in use: data segment, owner, size\<close>
  "owned s [] = {}"
| "owned s (b # bs) =
     (if fst b = DOS_MCB_OWNER_FREE then {} else {(s + 1, fst b, snd b)}) \<union> owned (s + 1 + snd b) bs"

lemma owned_append [simp]: "owned s (xs @ ys) = owned s xs \<union> owned (s + span xs) ys"
  by (induction xs arbitrary: s) (auto simp: add.assoc)

lemma absorb_owned:
  "absorb n bs = (n', bs') \<Longrightarrow> owned (s + 1 + n') bs' = owned (s + 1 + n) bs"
  by (induction n bs rule: absorb.induct) (auto split: if_splits simp: add.assoc)

function merge_free :: "block list \<Rightarrow> block list" where
  "merge_free [] = []"
| "merge_free (b # bs) =
     (if fst b = DOS_MCB_OWNER_FREE
      then (fst b, fst (absorb (snd b) bs)) # merge_free (snd (absorb (snd b) bs))
      else b # merge_free bs)"
  by pat_completeness auto
termination
  by (relation "measure length") (auto simp: less_Suc_eq_le intro: absorb_length surjective_pairing)

definition free_sizes :: "block list \<Rightarrow> nat list" where
  "free_sizes bs = map snd (filter (\<lambda>b. fst b = DOS_MCB_OWNER_FREE) (merge_free bs))"

definition largest_free :: "block list \<Rightarrow> nat" where
  "largest_free bs = foldr max (free_sizes bs) 0"

lemma free_sizes_simps [simp]:
  "free_sizes [] = []"
  "fst b = DOS_MCB_OWNER_FREE \<Longrightarrow>
     free_sizes (b # bs) = fst (absorb (snd b) bs) # free_sizes (snd (absorb (snd b) bs))"
  "fst b \<noteq> DOS_MCB_OWNER_FREE \<Longrightarrow> free_sizes (b # bs) = free_sizes bs"
  by (simp_all add: free_sizes_def)

lemma foldr_max_in: "ns \<noteq> [] \<Longrightarrow> foldr max ns (0 :: nat) \<in> set ns"
proof (induction ns)
  case (Cons n ns)
  then show ?case by (cases ns) (auto simp: max_def)
qed simp

lemma foldr_max_ge: "n \<in> set ns \<Longrightarrow> n \<le> foldr max ns (0 :: nat)"
  by (induction ns) auto

lemma alloc_blocks_fails:
  "(\<forall>n\<in>set (free_sizes bs). n < req) \<Longrightarrow>
   snd (alloc_blocks req big s bs) = Inl (max big (largest_free bs))"
  by (induction req big s bs rule: alloc_blocks.induct)
    (auto simp: Let_def largest_free_def max.assoc split: if_splits)

lemma alloc_blocks_succeeds:
  "n \<in> set (free_sizes bs) \<Longrightarrow> req \<le> n \<Longrightarrow> \<exists>seg. snd (alloc_blocks req big s bs) = Inr seg"
  by (induction req big s bs rule: alloc_blocks.induct) (auto simp: Let_def split: if_splits)

lemma alloc_blocks_free_sizes:
  "snd (alloc_blocks req big s bs) = Inl g \<Longrightarrow> free_sizes (fst (alloc_blocks req big s bs)) = free_sizes bs"
proof (induction req big s bs rule: alloc_blocks.induct)
  case (2 req big s b bs)
  show ?case
  proof (cases "fst b = DOS_MCB_OWNER_FREE")
    case True
    let ?n = "fst (absorb (snd b) bs)" and ?bs = "snd (absorb (snd b) bs)"
    have "absorb ?n (fst (alloc_blocks req (max big ?n) (s + 1 + ?n) ?bs)) =
        (?n, fst (alloc_blocks req (max big ?n) (s + 1 + ?n) ?bs))"
    proof (cases ?bs)
      case (Cons c cs)
      have "fst c \<noteq> DOS_MCB_OWNER_FREE"
        using Cons by (induction "snd b" bs arbitrary: b rule: absorb.induct) (auto split: if_splits)
      then show ?thesis using Cons by (simp add: Let_def)
    qed simp
    with 2 True show ?thesis by (auto simp: Let_def split: if_splits)
  next
    case False
    with 2 show ?thesis by (auto simp: Let_def)
  qed
qed simp

lemma take_block_owned: "req \<le> n \<Longrightarrow> owned s (take_block req n) = {(s + 1, DOS_PSP_SEG, req)}"
  by (auto simp: take_block_def DOS_PSP_SEG_def DOS_MCB_OWNER_FREE_def)

lemma alloc_blocks_owned:
  "owned s (fst (alloc_blocks req big s bs)) =
     (case snd (alloc_blocks req big s bs) of
        Inl g \<Rightarrow> owned s bs | Inr seg \<Rightarrow> insert (seg, DOS_PSP_SEG, req) (owned s bs))"
proof (induction req big s bs rule: alloc_blocks.induct)
  case (2 req big s b bs)
  let ?n = "fst (absorb (snd b) bs)" and ?bs = "snd (absorb (snd b) bs)"
  have ab: "owned (s + 1 + ?n) ?bs = owned (s + 1 + snd b) bs"
    by (rule absorb_owned) simp
  show ?case
  proof (cases "fst b = DOS_MCB_OWNER_FREE")
    case True
    show ?thesis
    proof (cases "req \<le> ?n")
      case fits: True
      then have sp: "s + span (take_block req ?n) = s + 1 + ?n" by (simp add: take_block_span)
      have "owned s (take_block req ?n @ ?bs) = insert (s + 1, DOS_PSP_SEG, req) (owned (s + 1 + ?n) ?bs)"
        by (simp only: owned_append take_block_owned [OF fits] sp) simp
      with True fits ab show ?thesis by (simp add: Let_def)
    next
      case no: False
      from 2(1) [OF True refl refl no] True no ab show ?thesis
        by (simp add: Let_def split: sum.splits)
    qed
  next
    case False
    with 2(2) show ?thesis by (simp add: Let_def split: sum.splits) blast
  qed
qed simp

lemma alloc_blocks_free_before:
  "snd (alloc_blocks req big s bs) = Inr seg \<Longrightarrow>
   seg \<ge> 1 \<and> {seg - 1..<seg + req} \<subseteq> free_paras s bs"
proof (induction req big s bs rule: alloc_blocks.induct)
  case (2 req big s b bs)
  let ?n = "fst (absorb (snd b) bs)" and ?bs = "snd (absorb (snd b) bs)"
  have fp: "fst b = DOS_MCB_OWNER_FREE \<Longrightarrow> free_paras s (b # bs) = {s..s + ?n} \<union> free_paras (s + 1 + ?n) ?bs"
    using absorb_free_paras [of "snd b" bs ?n ?bs s] by simp
  show ?case
  proof (cases "fst b = DOS_MCB_OWNER_FREE")
    case True
    show ?thesis
    proof (cases "req \<le> ?n")
      case fits: True
      with 2(3) True have "seg = s + 1" by (simp add: Let_def)
      moreover have "{s..<s + 1 + req} \<subseteq> {s..s + ?n}" using fits by auto
      ultimately show ?thesis unfolding fp [OF True] by auto
    next
      case no: False
      with 2 True have "seg \<ge> 1 \<and> {seg - 1..<seg + req} \<subseteq> free_paras (s + 1 + ?n) ?bs"
        by (simp add: Let_def)
      then show ?thesis unfolding fp [OF True] by blast
    qed
  next
    case False
    with 2 show ?thesis by (auto simp: Let_def)
  qed
qed simp

lemma free_sizes_le: "n \<in> set (free_sizes bs) \<Longrightarrow> n \<le> span bs"
proof (induction bs rule: merge_free.induct)
  case (2 b bs)
  have ab: "fst (absorb (snd b) bs) + span (snd (absorb (snd b) bs)) = snd b + span bs"
    using absorb_span [of "snd b" bs "fst (absorb (snd b) bs)" "snd (absorb (snd b) bs)"] by simp
  show ?case
  proof (cases "fst b = DOS_MCB_OWNER_FREE")
    case True
    with 2 ab show ?thesis by auto
  next
    case False
    with 2 show ?thesis by fastforce
  qed
qed simp

lemma largest_free_le: "mcb_chain base m s bs top_seg \<Longrightarrow> largest_free bs \<le> 65535"
proof -
  assume ch: "mcb_chain base m s bs top_seg"
  have "foldr max (free_sizes bs) 0 \<le> span bs"
    using foldr_max_in [of "free_sizes bs"] free_sizes_le by (cases "free_sizes bs = []") auto
  with mcb_chain_top [OF ch] show ?thesis by (simp add: largest_free_def)
qed

lemma owned_free_disjoint:
  "(seg, w, n) \<in> owned s bs \<Longrightarrow> s + 1 \<le> seg \<and> seg + n \<le> s + span bs \<and> {seg - 1..<seg + n} \<inter> free_paras s bs = {}"
proof (induction bs arbitrary: s)
  case (Cons b bs)
  show ?case
  proof (cases "(seg, w, n) \<in> owned (s + 1 + snd b) bs")
    case True
    from Cons.IH [OF this] have ih: "s + 1 + snd b + 1 \<le> seg" "seg + n \<le> s + 1 + snd b + span bs"
      "{seg - 1..<seg + n} \<inter> free_paras (s + 1 + snd b) bs = {}" by auto
    moreover have "{seg - 1..<seg + n} \<inter> {s..s + snd b} = {}" using ih(1) by auto
    ultimately show ?thesis by auto
  next
    case False
    with Cons.prems have b: "fst b \<noteq> DOS_MCB_OWNER_FREE" "seg = s + 1" "n = snd b"
      by (auto split: if_splits)
    then have "{seg - 1..<seg + n} \<inter> free_paras (s + 1 + snd b) bs = {}"
      using free_paras_bounds [of "s + 1 + snd b" bs] by fastforce
    with b show ?thesis by simp
  qed
qed simp

lemma only_paras_bytes:
  assumes "only_paras base S m m'" "{seg..<seg + n} \<inter> S = {}" "base + 16 * seg \<le> a" "a < base + 16 * (seg + n)"
  shows "m' a = m a"
proof -
  have *: "base + 16 * ((a - base) div 16) + (a - base) mod 16 = a" using assms(3) by simp
  have "(a - base) div 16 \<in> {seg..<seg + n}" using assms(3,4) by auto
  then have "(a - base) div 16 \<notin> S" using assms(2) by blast
  from only_paras_elsewhere [OF assms(1) this, of "(a - base) mod 16"] show ?thesis
    by (simp only: *)
qed

subsection \<open>Allocation\<close>

lemma alloc_refines:
  assumes "mcb_chain base m (unat firstMcb) blocks top_seg"
  shows "\<exists>m'. DosMcbAllocate base m firstMcb requested =
      Some (m', alloc_result (snd (alloc_blocks (unat requested) 0 (unat firstMcb) blocks))) \<and>
    mcb_chain base m' (unat firstMcb) (fst (alloc_blocks (unat requested) 0 (unat firstMcb) blocks)) top_seg \<and>
    only_paras base (free_paras (unat firstMcb) blocks) m m'"
  using allocate_walk_chain [OF assms, of 0 "unat requested"] unsigned_less [of requested, where ?'a = nat]
  by (simp add: DosMcbAllocate_def)

lemma alloc_seg_fits:
  assumes "mcb_chain base m' s (fst (alloc_blocks req 0 s bs)) top_seg" "snd (alloc_blocks req 0 s bs) = Inr seg"
  shows "unat (of_nat seg :: u16) = seg"
proof -
  have "(seg, DOS_PSP_SEG, req) \<in> owned s (fst (alloc_blocks req 0 s bs))"
    by (simp add: alloc_blocks_owned assms(2))
  from owned_free_disjoint [OF this] mcb_chain_top [OF assms(1)] show ?thesis
    by (intro seg_unat) linarith
qed

lemma alloc_owned:
  assumes "mcb_chain base m (unat firstMcb) bs top_seg" "DosMcbAllocate base m firstMcb requested = Some (m', r)"
  shows "\<exists>bs'. mcb_chain base m' (unat firstMcb) bs' top_seg \<and> owned (unat firstMcb) bs' =
    (case r of Inl e \<Rightarrow> owned (unat firstMcb) bs
     | Inr seg \<Rightarrow> insert (unat seg, DOS_PSP_SEG, unat requested) (owned (unat firstMcb) bs))"
proof -
  let ?r = "alloc_blocks (unat requested) 0 (unat firstMcb) bs"
  have m': "mcb_chain base m' (unat firstMcb) (fst ?r) top_seg" "r = alloc_result (snd ?r)"
    using alloc_refines [OF assms(1), of requested] assms(2) by auto
  then show ?thesis
    using alloc_seg_fits [OF m'(1)] alloc_blocks_owned [of "unat firstMcb" "unat requested" 0 bs]
    by (intro exI [of _ "fst ?r"]) (auto split: sum.splits)
qed

text \<open>
  C2. Allocation. On a well-formed chain \<^verbatim>\<open>DosMcbAllocate\<close> returns, leaves a well-formed chain
  and writes only inside free paragraphs. When it succeeds, the blocks in use are the old ones
  and one new block of exactly the requested size that lies in formerly free paragraphs; when
  it fails, no run of adjacent free blocks is long enough, the reported size is the longest
  such run, and the blocks in use are unchanged.
\<close>

theorem mcb_allocate_contract:
  assumes "mcb_chain base m (unat firstMcb) blocks top_seg"
  shows "\<exists>m' blocks' r. DosMcbAllocate base m firstMcb requested = Some (m', r) \<and>
    mcb_chain base m' (unat firstMcb) blocks' top_seg \<and>
    only_paras base (free_paras (unat firstMcb) blocks) m m' \<and>
    (case r of
       Inr seg \<Rightarrow>
         owned (unat firstMcb) blocks' =
           insert (unat seg, DOS_PSP_SEG, unat requested) (owned (unat firstMcb) blocks) \<and>
         {unat seg - 1..<unat seg + unat requested} \<subseteq> free_paras (unat firstMcb) blocks
     | Inl e \<Rightarrow>
         e = InsufficientMemory (of_nat (largest_free blocks)) \<and>
         (\<forall>n\<in>set (free_sizes blocks). n < unat requested) \<and>
         owned (unat firstMcb) blocks' = owned (unat firstMcb) blocks)"
proof -
  let ?s = "unat firstMcb" and ?q = "unat requested"
  let ?r = "alloc_blocks ?q 0 ?s blocks"
  obtain m' where m': "DosMcbAllocate base m firstMcb requested = Some (m', alloc_result (snd ?r))"
    "mcb_chain base m' ?s (fst ?r) top_seg" "only_paras base (free_paras ?s blocks) m m'"
    using alloc_refines [OF assms] by blast
  show ?thesis
  proof (cases "\<forall>n\<in>set (free_sizes blocks). n < ?q")
    case True
    with m' alloc_blocks_fails [OF True, of 0 ?s] alloc_blocks_owned [of ?s ?q 0 blocks]
    show ?thesis by auto
  next
    case False
    then obtain seg where seg: "snd ?r = Inr seg"
      using alloc_blocks_succeeds by (meson linorder_not_le)
    have "{seg - 1..<seg + ?q} \<subseteq> free_paras ?s blocks" "seg \<ge> 1"
      using alloc_blocks_free_before [OF seg] by auto
    then show ?thesis
      using m' seg alloc_blocks_owned [of ?s ?q 0 blocks] alloc_seg_fits [OF m'(2) seg] by auto
  qed
qed

text \<open>The chain \<^verbatim>\<open>DosMcbInitialize\<close> lays down, and a machine with two free blocks in front of it.\<close>

definition boot_blocks :: "nat \<Rightarrow> block list" where
  "boot_blocks top_seg =
     [(DOS_PSP_SEG, 0x10), (DOS_MCB_OWNER_DOS, 0x6F), (DOS_PSP_SEG, top_seg - 0x100)]"

lemma owner_constants [simp]:
  "DOS_PSP_SEG \<noteq> DOS_MCB_OWNER_FREE" "DOS_MCB_OWNER_DOS \<noteq> DOS_MCB_OWNER_FREE"
  by (simp_all add: DOS_PSP_SEG_def DOS_MCB_OWNER_DOS_def DOS_MCB_OWNER_FREE_def)

lemma boot_words:
  "DOS_FIRST_MCB = of_nat 0x7E" "DOS_RESBLK_MCB = of_nat 0x8F" "DOS_PSP_SEG - 1 = of_nat 0xFF"
  "DOS_ENV_PARAS = of_nat 0x10" "DOS_RESBLK_PARAS = of_nat 0x6F"
  by (simp_all add: DOS_FIRST_MCB_def DOS_RESBLK_MCB_def DOS_PSP_SEG_def DOS_ENV_PARAS_def
      DOS_RESBLK_PARAS_def)

lemma boot_chain:
  assumes "0x100 \<le> unat top_paragraph"
  shows "mcb_chain base (fst (DosMcbInitializeWithTop base m top_paragraph)) 0x7E
    (boot_blocks (unat top_paragraph)) (unat top_paragraph)"
proof -
  let ?m1 = "DosMcbWriteHeader base m (of_nat 0x7E) DOS_MCB_MEMBER DOS_PSP_SEG (of_nat 0x10)"
  let ?m2 = "DosMcbWriteHeader base ?m1 (of_nat 0x8F) DOS_MCB_MEMBER DOS_MCB_OWNER_DOS (of_nat 0x6F)"
  let ?m3 = "DosMcbWriteHeader base ?m2 (of_nat 0xFF) DOS_MCB_LAST DOS_PSP_SEG (of_nat (unat top_paragraph - 0x100))"
  have size: "(top_paragraph - DOS_PSP_SEG :: u16) = of_nat (unat top_paragraph - 0x100)"
    using assms by (simp add: of_nat_diff DOS_PSP_SEG_def)
  have at1: "mcb_at base ?m1 0x7E DOS_MCB_MEMBER DOS_PSP_SEG 0x10"
    and at2: "mcb_at base ?m2 0x8F DOS_MCB_MEMBER DOS_MCB_OWNER_DOS 0x6F"
    and at3: "mcb_at base ?m3 0xFF DOS_MCB_LAST DOS_PSP_SEG (unat top_paragraph - 0x100)"
    and o2: "only_paras base {0x8F} ?m1 ?m2" and o3: "only_paras base {0xFF} ?m2 ?m3"
    by (rule DosMcbWriteHeader_at; simp)+
  have "mcb_at base ?m3 0x7E DOS_MCB_MEMBER DOS_PSP_SEG 0x10"
    "mcb_at base ?m3 0x8F DOS_MCB_MEMBER DOS_MCB_OWNER_DOS 0x6F"
    using at1 at2 mcb_at_elsewhere [OF o2, of "0x7E"] mcb_at_elsewhere [OF o3, of "0x7E"]
      mcb_at_elsewhere [OF o3, of "0x8F"] by simp_all
  moreover have "fst (DosMcbInitializeWithTop base m top_paragraph) = ?m3"
    by (simp only: DosMcbInitializeWithTop_def Let_def fst_conv boot_words size)
  moreover have "unat top_paragraph \<le> 65535" using unsigned_less [of top_paragraph, where ?'a = nat] by simp
  ultimately show ?thesis using at3 assms by (simp add: boot_blocks_def)
qed

lemma DOS_MEM_TOP_unat [simp]: "unat DOS_MEM_TOP = 0x9FC0"
  by (simp add: DOS_MEM_TOP_def)

lemma DOS_FIRST_MCB_unat [simp]: "unat DOS_FIRST_MCB = 0x7E"
  by (simp add: DOS_FIRST_MCB_def)

text \<open>A small arena with one free block, for the witnesses.\<close>

definition one_free :: mem where
  "one_free = DosMcbWriteHeader 0 (\<lambda>_. 0) 0x7E DOS_MCB_LAST DOS_MCB_OWNER_FREE 0x20"

lemma one_free_chain: "mcb_chain 0 one_free (unat (0x7E :: u16)) [(DOS_MCB_OWNER_FREE, 0x20)] 0x9F"
  using DosMcbWriteHeader_at(1) [of "0x7E" 0 "\<lambda>_. 0" DOS_MCB_LAST DOS_MCB_OWNER_FREE "0x20"]
  by (simp add: one_free_def)

lemma mcb_allocate_contract_witness:
  "\<exists>m' blocks' seg. DosMcbAllocate 0 one_free 0x7E 0x10 = Some (m', Inr seg) \<and>
     mcb_chain 0 m' 0x7E blocks' 0x9F \<and> owned 0x7E blocks' = {(unat seg, DOS_PSP_SEG, 0x10)}"
proof -
  from mcb_allocate_contract [OF one_free_chain, of "0x10"] obtain m' blocks' r where
    "DosMcbAllocate 0 one_free 0x7E 0x10 = Some (m', r)" "mcb_chain 0 m' 0x7E blocks' 0x9F"
    "case r of Inr seg \<Rightarrow> owned 0x7E blocks' = {(unat seg, DOS_PSP_SEG, 0x10)} | Inl e \<Rightarrow> False"
    by (fastforce split: sum.splits)
  then show ?thesis by (cases r) auto
qed

text \<open>
  A failed allocation tells the truth. After a failure with a non-zero reported size, asking
  the resulting arena for exactly that size succeeds.
\<close>

theorem mcb_failed_allocate_retry:
  assumes "mcb_chain base m (unat firstMcb) blocks top_seg"
    and "DosMcbAllocate base m firstMcb requested = Some (m', Inl (InsufficientMemory largest))"
    and "largest \<noteq> 0"
  shows "\<exists>m'' seg. DosMcbAllocate base m' firstMcb largest = Some (m'', Inr seg)"
proof -
  let ?s = "unat firstMcb" and ?r = "alloc_blocks (unat requested) 0 (unat firstMcb) blocks"
  from alloc_refines [OF assms(1), of requested] assms(2)
  have res: "alloc_result (snd ?r) = Inl (InsufficientMemory largest)"
    and ch: "mcb_chain base m' ?s (fst ?r) top_seg" by auto
  from res obtain g where g: "snd ?r = Inl g" and lg: "largest = of_nat g"
    by (cases "snd ?r") auto
  have all: "\<forall>n\<in>set (free_sizes blocks). n < unat requested"
    using alloc_blocks_succeeds g by (metis linorder_not_le sum.distinct(1))
  have gl: "g = largest_free blocks" using alloc_blocks_fails [OF all, of 0 ?s] g by simp
  then have ul: "unat largest = largest_free blocks"
    using largest_free_le [OF assms(1)] lg by (simp add: seg_unat)
  have "largest_free blocks \<noteq> 0" using ul assms(3) by (metis unat_eq_zero)
  then have "largest_free blocks \<in> set (free_sizes blocks)"
    using foldr_max_in [of "free_sizes blocks"] by (cases "free_sizes blocks = []") (auto simp: largest_free_def)
  then have "largest_free blocks \<in> set (free_sizes (fst ?r))"
    using alloc_blocks_free_sizes [OF g] by simp
  from alloc_blocks_succeeds [OF this, of "unat largest" 0 ?s] obtain seg where
    "snd (alloc_blocks (unat largest) 0 ?s (fst ?r)) = Inr seg" using ul by auto
  then show ?thesis using alloc_refines [OF ch, of largest] by auto
qed

lemma mcb_failed_allocate_retry_witness:
  "\<exists>m' m'' seg. DosMcbAllocate 0 one_free 0x7E 0x30 = Some (m', Inl (InsufficientMemory 0x20)) \<and>
     DosMcbAllocate 0 m' 0x7E 0x20 = Some (m'', Inr seg)"
proof -
  obtain m' where m': "DosMcbAllocate 0 one_free 0x7E 0x30 = Some (m', Inl (InsufficientMemory 0x20))"
    using alloc_refines [OF one_free_chain, of "0x30"] by (auto simp: Let_def)
  from mcb_failed_allocate_retry [OF one_free_chain this] m' show ?thesis by auto
qed

subsection \<open>Free\<close>

lemma chain_split:
  "mcb_chain base m s (xs @ (w, n) # ys) top_seg \<longleftrightarrow>
     mcb_members base m s xs \<and> mcb_chain base m (s + span xs) ((w, n) # ys) top_seg"
  by (rule mcb_chain_append) simp

lemma chain_replace_tail:
  assumes "mcb_chain base m s (xs @ (w, n) # ys) top_seg" "only_paras base S m m'"
    "\<forall>t\<in>S. s + span xs \<le> t" "mcb_chain base m' (s + span xs) zs top_seg"
  shows "mcb_chain base m' s (xs @ zs) top_seg"
proof -
  have "zs \<noteq> []" using assms(4) by auto
  then show ?thesis
    using assms mcb_members_elsewhere [OF assms(2), of s xs]
    by (auto simp: mcb_chain_append chain_split)
qed

lemma free_refines:
  assumes "mcb_chain base m s (xs @ (w, n) # ys) top_seg"
  shows "\<exists>m'. DosMcbFree base m (of_nat (s + span xs + 1)) = Some (m', None) \<and>
    mcb_chain base m' s (xs @ (DOS_MCB_OWNER_FREE, fst (absorb n ys)) # snd (absorb n ys)) top_seg \<and>
    only_paras base {s + span xs} m m'"
proof -
  let ?h = "s + span xs"
  obtain n' ys' where ab: "absorb n ys = (n', ys')" by fastforce
  have ch: "mcb_chain base m ?h ((w, n) # ys) top_seg" using assms unfolding chain_split by blast
  note hd = chain_head [OF ch]
  define m1 where "m1 = DosMcbWriteWord m (base + 16 * ?h + 1) DOS_MCB_OWNER_FREE"
  have o1: "only_paras base {?h} m m1" unfolding m1_def by (rule only_paras_word) auto
  have "mcb_at base m1 ?h (sig_before ys) DOS_MCB_OWNER_FREE n"
    unfolding m1_def by (rule mcb_at_set_owner [of _ _ _ _ w]) (use ch in simp)
  moreover have "mcb_chain base m1 (?h + 1 + n) ys top_seg" if "ys \<noteq> []"
    using ch that mcb_chain_elsewhere [OF o1, of "?h + 1 + n" ys top_seg] by simp
  ultimately have ch1: "mcb_chain base m1 ?h ((DOS_MCB_OWNER_FREE, n) # ys) top_seg"
    using ch by auto
  obtain m' where m': "free_coalesce base (of_nat ?h) m1 = Some m'"
    "mcb_chain base m' ?h ((DOS_MCB_OWNER_FREE, n') # ys') top_seg" "only_paras base {?h} m1 m'"
    using free_coalesce_chain [OF ch1 ab] by auto
  have addr: "of_nat (?h + 1) - 1 = (of_nat ?h :: u16)" by simp
  have "DosMcbFree base m (of_nat (?h + 1)) = Some (m', None)"
    using sig_before_valid [of ys] m'(1) hd(1)
    unfolding DosMcbFree_def Let_def addr seg_address [OF hd(7)] by (auto simp: m1_def)
  moreover have o: "only_paras base {?h} m m'" using o1 m'(3) by (rule only_paras_trans)
  moreover have "mcb_chain base m' s (xs @ (DOS_MCB_OWNER_FREE, n') # ys') top_seg"
    by (rule chain_replace_tail [OF assms o _ m'(2)]) simp
  ultimately show ?thesis using ab by auto
qed

lemma free_owned:
  "owned s (xs @ (DOS_MCB_OWNER_FREE, fst (absorb n ys)) # snd (absorb n ys)) =
     owned s xs \<union> owned (s + span xs + 1 + n) ys"
  using absorb_owned [of n ys "fst (absorb n ys)" "snd (absorb n ys)" "s + span xs"] by simp

text \<open>
  Freeing a block. \<^verbatim>\<open>DosMcbFree\<close> on the data segment of any block of a well-formed chain
  returns success, writes to that block's header only, turns the block and every free block
  right behind it into one free block, and takes exactly that block out of use.
\<close>

theorem mcb_free_contract:
  assumes "mcb_chain base m s (xs @ (w, n) # ys) top_seg"
  shows "\<exists>m' n' ys'. DosMcbFree base m (of_nat (s + span xs + 1)) = Some (m', None) \<and>
    (n', ys') = absorb n ys \<and>
    mcb_chain base m' s (xs @ (DOS_MCB_OWNER_FREE, n') # ys') top_seg \<and>
    only_paras base {s + span xs} m m' \<and>
    owned s (xs @ (DOS_MCB_OWNER_FREE, n') # ys') =
      owned s xs \<union> owned (s + span xs + 1 + n) ys"
  using free_refines [OF assms] free_owned [of s xs n ys] by (metis prod.collapse)

lemma mcb_free_contract_witness:
  "\<exists>m'. DosMcbFree 0 (fst (DosMcbInitializeWithTop 0 (\<lambda>_. 0) DOS_MEM_TOP)) 0x7F = Some (m', None) \<and>
     owned 0x7E [(DOS_MCB_OWNER_FREE, 0x10), (DOS_MCB_OWNER_DOS, 0x6F), (DOS_PSP_SEG, 0x9EC0)] =
       {(0x90, DOS_MCB_OWNER_DOS, 0x6F), (0x100, DOS_PSP_SEG, 0x9EC0)}"
  using mcb_free_contract [of 0 "fst (DosMcbInitializeWithTop 0 (\<lambda>_. 0) DOS_MEM_TOP)" "0x7E" "[]"
      DOS_PSP_SEG "0x10" "tl (boot_blocks 0x9FC0)" "0x9FC0"] boot_chain [of DOS_MEM_TOP 0 "\<lambda>_. 0"]
  by (auto simp: boot_blocks_def)

subsection \<open>Resize\<close>

definition resize_block :: "nat \<Rightarrow> u16 \<Rightarrow> nat \<Rightarrow> block list \<Rightarrow> block list option" where
  "resize_block req w n ys =
     (if req < n then Some ((w, req) # (DOS_MCB_OWNER_FREE, n - req - 1) # ys)
      else if req = n then Some ((w, n) # ys)
      else case ys of
             [] \<Rightarrow> None
           | (v, k) # zs \<Rightarrow>
               if v = DOS_MCB_OWNER_FREE \<and> req < n + 1 + k
               then Some ((w, req) # (DOS_MCB_OWNER_FREE, n + k - req) # zs)
               else if v = DOS_MCB_OWNER_FREE \<and> req = n + 1 + k then Some ((w, req) # zs)
               else None)"

definition growth_limit :: "nat \<Rightarrow> block list \<Rightarrow> nat" where
  "growth_limit n ys = (case ys of [] \<Rightarrow> n | (v, k) # zs \<Rightarrow> if v = DOS_MCB_OWNER_FREE then n + 1 + k else n)"

text \<open>Writing a shorter head and a free tail behind it.\<close>

lemma split_head_chain:
  assumes rest: "bs \<noteq> [] \<Longrightarrow> mcb_chain base m (h + 1 + n) bs top_seg" and n: "req < n"
    and last: "bs = [] \<Longrightarrow> h + 1 + n = top_seg" and lim: "h + 1 + n \<le> top_seg" "top_seg \<le> 65535"
    and t: "t = write_free_tail base m (of_nat (h + 1 + req)) (sig_before bs) (of_nat (n - req - 1))"
    and w: "DosMcbReadWord m (base + 16 * h + 1) = w"
    and m': "mcb_at base m' h DOS_MCB_MEMBER (DosMcbReadWord t (base + 16 * h + 1)) req"
      "only_paras base {h} t m'"
  shows "mcb_chain base m' h ((w, req) # (DOS_MCB_OWNER_FREE, n - req - 1) # bs) top_seg \<and>
    only_paras base {h, h + 1 + req} m m'"
proof -
  have r: "h + 1 + req \<le> 65535" using n lim by simp
  have ot: "only_paras base {h + 1 + req} m t"
    unfolding t by (rule write_free_tail_at(2) [OF r])
  have tail: "mcb_at base m' (h + 1 + req) (sig_before bs) DOS_MCB_OWNER_FREE (n - req - 1)"
    using write_free_tail_at(1) [OF r] mcb_at_elsewhere [OF m'(2), of "h + 1 + req"] by (simp add: t)
  have "mcb_at base t h (m (base + 16 * h)) w (unat (DosMcbReadWord m (base + 16 * h + 3)))"
    using mcb_at_elsewhere [OF ot, of h "m (base + 16 * h)" w
        "unat (DosMcbReadWord m (base + 16 * h + 3))"] w by (simp add: mcb_at_def)
  then have "DosMcbReadWord t (base + 16 * h + 1) = w" by (simp add: mcb_at_def)
  with m'(1) have head: "mcb_at base m' h DOS_MCB_MEMBER w req" by simp
  have o: "only_paras base {h, h + 1 + req} m m'"
    by (rule only_paras_trans [OF only_paras_mono [OF ot] only_paras_mono [OF m'(2)]]) auto
  have "mcb_chain base m' (h + 1 + n) bs top_seg" if "bs \<noteq> []"
    using rest [OF that] n mcb_chain_elsewhere [OF o, of "h + 1 + n" bs top_seg] by simp
  with tail head n last lim o show ?thesis by auto
qed

lemma resize_shrinks:
  assumes "mcb_chain base m h ((w, n) # ys) top_seg" "req < n"
  shows "\<exists>m'. DosMcbResize base m (of_nat (h + 1)) (of_nat req) = (m', None) \<and>
    mcb_chain base m' h ((w, req) # (DOS_MCB_OWNER_FREE, n - req - 1) # ys) top_seg \<and>
    only_paras base {h, h + 1 + req} m m'"
proof -
  note hd = chain_head [OF assms(1)]
  define t where "t = write_free_tail base m (of_nat (h + 1 + req)) (sig_before ys) (of_nat (n - req - 1))"
  define m' where "m' = DosMcbWriteWord (t(base + 16 * h := DOS_MCB_MEMBER)) (base + 16 * h + 3) (of_nat req)"
  have seg: "of_nat (h + 1) - 1 = (of_nat h :: u16)" by simp
  have q: "(of_nat req :: u16) \<le> of_nat n" using hd(6) assms(2) by (simp add: seg_facts)
  have sig: "(sig_before ys \<noteq> DOS_MCB_MEMBER \<and> sig_before ys \<noteq> DOS_MCB_LAST) = False"
    by (rule sig_before_valid)
  have diff: "of_nat n - of_nat req = (of_nat (n - req) :: u16)"
    "of_nat (n - req) - 1 = (of_nat (n - req - 1) :: u16)"
    using assms(2) by (simp_all add: of_nat_diff)
  have one: "(1 :: u16) \<le> of_nat (n - req)"
    using assms(2) hd(6) seg_le [of 1 "n - req"] by simp
  have "DosMcbResize base m (of_nat (h + 1)) (of_nat req) = (m', None)"
    using q one
    unfolding DosMcbResize_def Let_def seg seg_address [OF hd(7)] hd(1) hd(3) sig diff
      seg_next [of h req] m'_def t_def
    by (simp del: of_nat_add)
  moreover have "mcb_chain base m' h ((w, req) # (DOS_MCB_OWNER_FREE, n - req - 1) # ys) top_seg \<and>
      only_paras base {h, h + 1 + req} m m'"
  proof (rule split_head_chain [OF _ assms(2) _ _ hd(5) t_def hd(2)])
    show "mcb_at base m' h DOS_MCB_MEMBER (DosMcbReadWord t (base + 16 * h + 1)) req"
      unfolding m'_def by (rule mcb_at_set_sig_size) simp
    show "only_paras base {h} t m'" unfolding m'_def by (auto intro!: only_paras_writes)
  qed (use assms(1) hd in auto)
  ultimately show ?thesis by blast
qed

text \<open>
  Past its own size a block can only take its free right neighbour; the code's view of such a
  request, with the neighbour's header named.
\<close>

lemma resize_past:
  assumes ch: "mcb_chain base m h ((w, n) # (v, k) # zs) top_seg" and big: "n < req" "req \<le> 65535"
  defines "a \<equiv> base + 16 * h" and "x \<equiv> base + 16 * (h + 1 + n)"
  shows "DosMcbResize base m (of_nat (h + 1)) (of_nat req) =
    (if v = DOS_MCB_OWNER_FREE \<and> req \<le> n + 1 + k
     then if req < n + 1 + k
          then let t = write_free_tail base m (of_nat (h + 1 + req)) (sig_before zs) (of_nat (n + 1 + k - req - 1))
               in ((DosMcbWriteWord t (a + 3) (of_nat req))(a := DOS_MCB_MEMBER), None)
          else let t = DosMcbWriteWord m (a + 3) (of_nat (n + 1 + k)) in (t(a := t x), None)
     else (m, Some (InsufficientMemory (of_nat (growth_limit n ((v, k) # zs))))))"
proof -
  note hd = chain_head [OF ch] and nx = chain_next [OF ch]
  define n1 where "n1 = n + 1 + k"
  have seg: "of_nat (h + 1) - 1 = (of_nat h :: u16)" by simp
  have q: "(of_nat req :: u16) \<le> of_nat n \<longleftrightarrow> False" using hd(6) big by (simp add: seg_facts)
  have avl: "n1 \<le> 65535" using mcb_chain_top [OF ch] by (simp add: n1_def)
  have av: "of_nat n + 1 + of_nat k = (of_nat n1 :: u16)" by (simp add: n1_def)
  have sig: "(sig_before ((v, k) # zs) \<noteq> DOS_MCB_MEMBER \<and> sig_before ((v, k) # zs) \<noteq> DOS_MCB_LAST) = False"
    by (rule sig_before_valid)
  define Q N D where "Q = (of_nat req :: u16)" and "N = (of_nat n1 :: u16)"
    and "D = (of_nat (n1 - req - 1) :: u16)"
  have av_le: "Q \<le> N \<longleftrightarrow> req \<le> n1" unfolding Q_def N_def by (rule seg_le [OF big(2) avl])
  have q': "Q \<le> of_nat n \<longleftrightarrow> False" and hq: "of_nat h + 1 + Q = of_nat (h + 1 + req)"
    using q by (simp_all add: Q_def)
  have diff: "N - Q = of_nat (n1 - req)" if "req \<le> n1"
    using that by (simp add: of_nat_diff Q_def N_def)
  have D: "N - Q - 1 = D" if "req < n1"
    using that by (simp add: of_nat_diff Q_def N_def D_def)
  have one: "1 \<le> N - Q \<longleftrightarrow> req < n1" if "req \<le> n1"
    unfolding diff [OF that] using that avl seg_le [of 1 "n1 - req"] by auto
  have gl: "growth_limit n ((v, k) # zs) = (if v = DOS_MCB_OWNER_FREE then n1 else n)"
    by (simp add: growth_limit_def n1_def)
  show ?thesis
    unfolding DosMcbResize_def Let_def seg seg_address [OF hd(7)] seg_address_next [OF nx(4)] gl
      hd(1) hd(3) nx(1-3) sig av if_False a_def x_def n1_def [symmetric]
      Q_def [symmetric] N_def [symmetric] D_def [symmetric] q' hq
    using D one by (auto simp: N_def [symmetric] av_le simp del: of_nat_add of_nat_Suc)
qed

lemma resize_refines:
  assumes "mcb_chain base m h ((w, n) # ys) top_seg" "req \<le> 65535"
  shows "case resize_block req w n ys of
     None \<Rightarrow> DosMcbResize base m (of_nat (h + 1)) (of_nat req) =
       (m, Some (InsufficientMemory (of_nat (growth_limit n ys))))
   | Some bs \<Rightarrow> \<exists>m'. DosMcbResize base m (of_nat (h + 1)) (of_nat req) = (m', None) \<and>
       mcb_chain base m' h bs top_seg \<and> only_paras base {h, h + 1 + req} m m'"
proof -
  note hd = chain_head [OF assms(1)]
  have seg: "of_nat (h + 1) - 1 = (of_nat h :: u16)" by simp
  note unf = DosMcbResize_def Let_def seg seg_address [OF hd(7)] hd(1) hd(3) sig_before_valid
  consider (shrink) "req < n" | (same) "req = n" | (grow) "n < req" by linarith
  then show ?thesis
  proof cases
    case shrink
    with resize_shrinks [OF assms(1) shrink] show ?thesis by (simp add: resize_block_def)
  next
    case same
    have "DosMcbResize base m (of_nat (h + 1)) (of_nat req) = (m, None)"
      unfolding unf by (simp add: same)
    moreover have rb: "resize_block req w n ys = Some ((w, n) # ys)"
      using same by (simp add: resize_block_def)
    ultimately show ?thesis using assms(1) unfolding rb option.case by blast
  next
    case grow
    show ?thesis
    proof (cases ys)
      case Nil
      have "(of_nat req :: u16) \<le> of_nat n \<longleftrightarrow> False" using hd(6) assms(2) grow by (simp add: seg_facts)
      with grow Nil show ?thesis unfolding unf by (simp add: resize_block_def growth_limit_def)
    next
      case (Cons b zs)
      obtain v k where b: "b = (v, k)" by (cases b)
      note ch = assms(1)[unfolded Cons b]
      note past = resize_past [OF ch grow assms(2)] and st = absorb_step [OF ch]
      consider (no) "\<not> (v = DOS_MCB_OWNER_FREE \<and> req \<le> n + 1 + k)"
        | (all) "v = DOS_MCB_OWNER_FREE" "req = n + 1 + k"
        | (part) "v = DOS_MCB_OWNER_FREE" "req < n + 1 + k" by linarith
      then show ?thesis
      proof cases
        case no
        then have "resize_block req w n ys = None" using grow by (auto simp: resize_block_def Cons b)
        with past no show ?thesis by (simp only: Cons b option.case if_False)
      next
        case all
        have rb: "resize_block req w n ys = Some ((w, n + 1 + k) # zs)"
          using grow all by (simp add: resize_block_def Cons b)
        define m2 where "m2 = (DosMcbWriteWord m (base + 16 * h + 3) (of_nat (n + 1 + k)))
          (base + 16 * h := DosMcbWriteWord m (base + 16 * h + 3) (of_nat (n + 1 + k)) (base + 16 * (h + 1 + n)))"
        have "DosMcbResize base m (of_nat (h + 1)) (of_nat req) = (m2, None)"
          using past all unfolding m2_def Let_def
          by (simp only: simp_thms if_True if_False less_irrefl order_refl)
        moreover have "only_paras base {h, h + 1 + req} m m2"
          by (rule only_paras_mono [OF st(3) [folded m2_def]]) simp
        ultimately show ?thesis unfolding rb option.case using st(2) [folded m2_def] by blast
      next
        case part
        have rb: "resize_block req w n ys = Some ((w, req) # (DOS_MCB_OWNER_FREE, n + 1 + k - req - 1) # zs)"
          using grow part by (simp add: resize_block_def Cons b)
        define t where "t = write_free_tail base m (of_nat (h + 1 + req)) (sig_before zs) (of_nat (n + 1 + k - req - 1))"
        define m' where "m' = (DosMcbWriteWord t (base + 16 * h + 3) (of_nat req))(base + 16 * h := DOS_MCB_MEMBER)"
        have "DosMcbResize base m (of_nat (h + 1)) (of_nat req) = (m', None)"
          using past part unfolding t_def m'_def Let_def by simp
        moreover have "mcb_chain base m' h ((w, req) # (DOS_MCB_OWNER_FREE, n + 1 + k - req - 1) # zs) top_seg \<and>
            only_paras base {h, h + 1 + req} m m'"
        proof (rule split_head_chain [OF _ part(2) _ _ hd(5) t_def hd(2)])
          show "mcb_at base m' h DOS_MCB_MEMBER (DosMcbReadWord t (base + 16 * h + 1)) req"
            unfolding m'_def by (rule mcb_at_set_size_sig) simp
          show "only_paras base {h} t m'" unfolding m'_def by (auto intro!: only_paras_writes)
        qed (use ch mcb_chain_top [OF ch] in \<open>auto simp: add.assoc\<close>)
        ultimately show ?thesis unfolding rb option.case by blast
      qed
    qed
  qed
qed

lemma resize_owned:
  "resize_block q w n ys = Some bs \<Longrightarrow>
   owned h bs = owned h [(w, q)] \<union> owned (h + 1 + n) ys"
  by (auto simp: resize_block_def add.assoc split: if_splits list.splits)

lemma resize_limit: "resize_block q w n ys = None \<Longrightarrow> growth_limit n ys < q"
  by (auto simp: resize_block_def growth_limit_def split: if_splits list.splits)

lemma resize_chain:
  assumes "mcb_chain base m s (xs @ (w, n) # ys) top_seg"
  defines "h \<equiv> s + span xs"
  shows "\<exists>m' e. DosMcbResize base m (of_nat (h + 1)) requested = (m', e) \<and>
    (case resize_block (unat requested) w n ys of
       Some bs \<Rightarrow> e = None \<and> mcb_chain base m' s (xs @ bs) top_seg \<and>
         only_paras base {h, h + 1 + unat requested} m m'
     | None \<Rightarrow> e = Some (InsufficientMemory (of_nat (growth_limit n ys))) \<and> m' = m)"
proof -
  let ?q = "unat requested"
  have q: "?q \<le> 65535" "of_nat ?q = requested" using unsigned_less [of requested, where ?'a = nat] by simp_all
  have ch: "mcb_chain base m h ((w, n) # ys) top_seg"
    using assms(1) unfolding chain_split h_def by blast
  show ?thesis
  proof (cases "resize_block ?q w n ys")
    case None
    with resize_refines [OF ch q(1)] q(2) show ?thesis by simp
  next
    case (Some bs)
    then obtain m' where m': "DosMcbResize base m (of_nat (h + 1)) requested = (m', None)"
      "mcb_chain base m' h bs top_seg" "only_paras base {h, h + 1 + ?q} m m'"
      using resize_refines [OF ch q(1)] q(2) by auto
    have "mcb_chain base m' s (xs @ bs) top_seg"
      by (rule chain_replace_tail [OF assms(1) m'(3) _ m'(2) [unfolded h_def]]) (auto simp: h_def)
    then show ?thesis using Some m' by auto
  qed
qed

text \<open>
  C3. Resizing a block. \<^verbatim>\<open>DosMcbResize\<close> on the data segment of any block of a well-formed chain
  shrinks it in place and frees the tail, grows it into the free block behind it when that is
  long enough, and otherwise changes nothing and reports the size that block could reach.
  Either way the chain stays well formed, only the two headers involved are written, and every
  other block in use stays in use unchanged.
\<close>

theorem mcb_resize_contract:
  assumes "mcb_chain base m s (xs @ (w, n) # ys) top_seg"
  defines "h \<equiv> s + span xs"
  shows "\<exists>m' e. DosMcbResize base m (of_nat (h + 1)) requested = (m', e) \<and>
    (case resize_block (unat requested) w n ys of
       Some bs \<Rightarrow> e = None \<and> mcb_chain base m' s (xs @ bs) top_seg \<and>
         only_paras base {h, h + 1 + unat requested} m m' \<and>
         owned s (xs @ bs) = owned s xs \<union> owned h [(w, unat requested)] \<union> owned (h + 1 + n) ys
     | None \<Rightarrow> e = Some (InsufficientMemory (of_nat (growth_limit n ys))) \<and> m' = m \<and>
         growth_limit n ys < unat requested)"
  using resize_chain [OF assms(1), of requested] resize_owned [of "unat requested" w n ys _ h]
    resize_limit [of "unat requested" w n ys]
  by (auto simp: h_def split: option.splits)

lemma mcb_resize_contract_witness:
  "\<exists>m'. DosMcbResize 0 (fst (DosMcbInitializeWithTop 0 (\<lambda>_. 0) DOS_MEM_TOP)) 0x100 0x1000 = (m', None) \<and>
     mcb_chain 0 m' 0x7E [(DOS_PSP_SEG, 0x10), (DOS_MCB_OWNER_DOS, 0x6F), (DOS_PSP_SEG, 0x1000),
       (DOS_MCB_OWNER_FREE, 0x8EBF)] 0x9FC0"
  using mcb_resize_contract [of 0 "fst (DosMcbInitializeWithTop 0 (\<lambda>_. 0) DOS_MEM_TOP)" "0x7E"
      "[(DOS_PSP_SEG, 0x10), (DOS_MCB_OWNER_DOS, 0x6F)]" DOS_PSP_SEG "0x9EC0" "[]" "0x9FC0" "0x1000"]
    boot_chain [of DOS_MEM_TOP 0 "\<lambda>_. 0"]
  by (auto simp: boot_blocks_def resize_block_def)

subsection \<open>The validator\<close>

lemma check_walk_ok:
  "check_walk base m top_paragraph seg walkCount = ChainOk \<longleftrightarrow>
     (\<exists>bs. mcb_chain base m (unat seg) bs (unat top_paragraph) \<and> walkCount + length bs \<le> DOS_MCB_WALK_LIMIT)"
  (is "?ok \<longleftrightarrow> ?chain")
proof (induction base m top_paragraph seg walkCount rule: check_walk.induct)
  case (1 base m top_paragraph seg walkCount)
  define mcb n where "mcb = DosMcbSegmentAddress base seg" and "n = unat (DosMcbReadWord m (mcb + 3))"
  define w where "w = DosMcbReadWord m (mcb + 1)"
  have mcb: "mcb = base + 16 * unat seg"
    using seg_address [of "unat seg" base] unsigned_less [of seg, where ?'a = nat] by (simp add: mcb_def)
  have nw: "DosMcbReadWord m (mcb + 3) = of_nat n" by (simp add: n_def)
  have lt: "unat seg \<le> 65535" "n \<le> 65535" "unat top_paragraph \<le> 65535"
    using unsigned_less [of seg, where ?'a = nat] unsigned_less [of top_paragraph, where ?'a = nat]
      unsigned_less [of "DosMcbReadWord m (mcb + 3)", where ?'a = nat] by (simp_all add: n_def)
  define nx where "nx = unat seg + 1 + n"
  have nxt: "ucast seg + 1 + ucast (DosMcbReadWord m (mcb + 3)) = (of_nat nx :: u32)"
    by (simp add: nx_def n_def unsigned_ucast_eq)
  have "unat (of_nat nx :: u32) = nx"
    using lt by (simp add: nx_def unat_of_nat del: of_nat_add of_nat_Suc)
  moreover have "unat (ucast top_paragraph :: u32) = unat top_paragraph"
    using lt by (simp add: unsigned_ucast_eq take_bit_nat_eq_self)
  ultimately have cmp: "(of_nat nx :: u32) > ucast top_paragraph \<longleftrightarrow> unat top_paragraph < nx"
    "(of_nat nx :: u32) = ucast top_paragraph \<longleftrightarrow> nx = unat top_paragraph"
    by (simp_all only: word_less_nat_alt word_unat_eq_iff)
  have narrow: "unat (ucast (of_nat nx :: u32) :: u16) = nx" if "nx \<le> unat top_paragraph"
    using that lt by (simp add: unsigned_ucast_eq unat_of_nat take_bit_nat_eq_self del: of_nat_add of_nat_Suc)
  have step: "check_walk base m top_paragraph seg walkCount = ChainOk \<longleftrightarrow>
      Suc walkCount \<le> DOS_MCB_WALK_LIMIT \<and> nx \<le> unat top_paragraph \<and>
      (m mcb = DOS_MCB_LAST \<and> nx = unat top_paragraph \<or>
       m mcb = DOS_MCB_MEMBER \<and>
       check_walk base m top_paragraph (ucast (of_nat nx :: u32)) (Suc walkCount) = ChainOk)"
    by (subst check_walk.simps) (auto simp: Let_def mcb_def [symmetric] nxt cmp not_less simp del: of_nat_add of_nat_Suc)
  have hdr: "mcb_at base m (unat seg) sig w' n' \<longleftrightarrow> m mcb = sig \<and> w' = w \<and> of_nat n' = (of_nat n :: u16)" for sig w' n'
    by (auto simp: mcb_at_def mcb [symmetric] w_def n_def)
  show ?case
  proof
    assume "check_walk base m top_paragraph seg walkCount = ChainOk"
    with step consider (last) "m mcb = DOS_MCB_LAST" "nx = unat top_paragraph" "Suc walkCount \<le> DOS_MCB_WALK_LIMIT"
      | (more) "m mcb = DOS_MCB_MEMBER" "nx \<le> unat top_paragraph" "Suc walkCount \<le> DOS_MCB_WALK_LIMIT"
        "check_walk base m top_paragraph (ucast (of_nat nx :: u32)) (Suc walkCount) = ChainOk" by blast
    then show "\<exists>bs. mcb_chain base m (unat seg) bs (unat top_paragraph) \<and> walkCount + length bs \<le> DOS_MCB_WALK_LIMIT"
    proof cases
      case last
      then show ?thesis using hdr lt by (intro exI [of _ "[(w, n)]"]) (simp add: nx_def)
    next
      case more
      have "\<not> Suc walkCount > DOS_MCB_WALK_LIMIT" "\<not> (m mcb \<noteq> DOS_MCB_MEMBER \<and> m mcb \<noteq> DOS_MCB_LAST)"
        "\<not> (of_nat nx :: u32) > ucast top_paragraph" "m mcb \<noteq> DOS_MCB_LAST"
        using more cmp by auto
      from "1.IH" [OF mcb_def refl refl, unfolded nxt, OF refl this] more(4) obtain bs
        where bs: "mcb_chain base m nx bs (unat top_paragraph)" "Suc walkCount + length bs \<le> DOS_MCB_WALK_LIMIT"
        using narrow [OF more(2)] by auto
      have "bs \<noteq> []" using bs(1) by auto
      with bs hdr more(1) have "mcb_chain base m (unat seg) ((w, n) # bs) (unat top_paragraph)"
        by (simp add: nx_def sig_before_def)
      with bs(2) show ?thesis by - (rule exI [of _ "(w, n) # bs"], rule conjI, assumption, simp)
    qed
  next
    assume "\<exists>bs. mcb_chain base m (unat seg) bs (unat top_paragraph) \<and> walkCount + length bs \<le> DOS_MCB_WALK_LIMIT"
    then obtain bs where bs: "mcb_chain base m (unat seg) bs (unat top_paragraph)"
      "walkCount + length bs \<le> DOS_MCB_WALK_LIMIT" by blast
    then obtain w' n' bs0 where b: "bs = (w', n') # bs0" by (cases bs) auto
    note hd = chain_head [OF bs(1) [unfolded b]]
    have "of_nat n' = (of_nat n :: u16)" using hd(3) by (simp add: mcb n_def)
    then have n': "n' = n" using hd(6) lt(2) by (simp add: seg_eq)
    have le: "nx \<le> unat top_paragraph" using hd(4) by (simp add: nx_def n')
    show "check_walk base m top_paragraph seg walkCount = ChainOk"
    proof (cases bs0)
      case Nil
      then show ?thesis using step hd(1,4) bs(2) b le by (simp add: mcb nx_def n')
    next
      case (Cons c cs)
      have rest: "mcb_chain base m nx bs0 (unat top_paragraph)"
        using bs(1) by (auto simp: b Cons nx_def n')
      have M: "m mcb = DOS_MCB_MEMBER" using hd(1) by (simp add: mcb Cons)
      have "\<not> Suc walkCount > DOS_MCB_WALK_LIMIT" "\<not> (m mcb \<noteq> DOS_MCB_MEMBER \<and> m mcb \<noteq> DOS_MCB_LAST)"
        "\<not> (of_nat nx :: u32) > ucast top_paragraph" "m mcb \<noteq> DOS_MCB_LAST"
        using bs(2) b cmp le M by auto
      from "1.IH" [OF mcb_def refl refl, unfolded nxt, OF refl this] rest bs(2) b
      have "check_walk base m top_paragraph (ucast (of_nat nx :: u32)) (Suc walkCount) = ChainOk"
        using narrow [OF le] by auto
      with step M le bs(2) b show ?thesis by simp
    qed
  qed
qed

text \<open>
  C9. The validator decides well-formedness. \<^verbatim>\<open>DosMcbCheckChain\<close> answers OK exactly when the
  memory holds a chain of at most 1000h blocks, packed from the first header to the top with
  one last block.
\<close>

theorem mcb_check_decides:
  "DosMcbCheckChain base m firstMcb topParagraph = ChainOk \<longleftrightarrow>
     (\<exists>blocks. mcb_chain base m (unat firstMcb) blocks (unat topParagraph) \<and>
        length blocks \<le> DOS_MCB_WALK_LIMIT)"
  by (simp add: DosMcbCheckChain_def check_walk_ok)

subsection \<open>Reserving at the top\<close>

lemma reserve_walk_members:
  "mcb_chain base m s (xs @ b # ys) top_seg \<Longrightarrow> walkCount + length xs \<le> DOS_MCB_WALK_LIMIT \<Longrightarrow>
   reserve_walk base m p (of_nat s) prev walkCount =
   reserve_walk base m p (of_nat (s + span xs))
     (if xs = [] then prev else Some (of_nat (s + span (butlast xs)))) (walkCount + length xs)"
proof (induction xs arbitrary: s prev walkCount)
  case (Cons c xs)
  obtain w n where c: "c = (w, n)" by (cases c)
  have ch: "mcb_chain base m s ((w, n) # xs @ b # ys) top_seg" using Cons.prems(1) by (simp add: c)
  note hd = chain_head [OF ch]
  have nx: "of_nat s + 1 + of_nat n = (of_nat (s + 1 + n) :: u16)" by simp
  have rest: "mcb_chain base m (s + 1 + n) (xs @ b # ys) top_seg" using ch by auto
  have M: "m (base + 16 * s) = DOS_MCB_MEMBER" using hd(1) by (cases xs) auto
  have lim: "\<not> Suc walkCount > DOS_MCB_WALK_LIMIT" using Cons.prems(2) by simp
  have "reserve_walk base m p (of_nat s) prev walkCount =
      reserve_walk base m p (of_nat (s + 1 + n)) (Some (of_nat s)) (Suc walkCount)"
    by (subst reserve_walk.simps) (simp only: Let_def seg_address [OF hd(7)] M hd(3) nx lim sig_before_simps simp_thms if_False)
  also have "\<dots> = reserve_walk base m p (of_nat (s + 1 + n + span xs))
      (if xs = [] then Some (of_nat s) else Some (of_nat (s + 1 + n + span (butlast xs)))) (Suc walkCount + length xs)"
    by (rule Cons.IH [OF rest]) (use Cons.prems(2) in simp)
  finally show ?case by (simp add: c add.assoc del: of_nat_add of_nat_Suc)
qed simp

lemma reserve_split:
  assumes chain: "mcb_chain base m h ((v, k) # ds) top_seg" and fits: "p + 2 \<le> k"
    and sig: "m' (base + 16 * h) = DOS_MCB_MEMBER"
    and m': "m' = m1(base + 16 * h := sg)" "m1 = DosMcbWriteWord m (base + 16 * h + 3) (of_nat (k - p - 1))"
    and m2: "m2 = DosMcbWriteHeader base m' (of_nat (h + k - p)) (sig_before ds) DOS_MCB_OWNER_DOS (of_nat p)"
  shows "mcb_chain base m2 h ((v, k - p - 1) # (DOS_MCB_OWNER_DOS, p) # ds) top_seg \<and>
    only_paras base {h, h + k - p} m m2"
proof -
  note hd = chain_head [OF chain]
  have r: "h + k - p \<le> 65535" using hd(4,5) by simp
  have o1: "only_paras base {h} m m'" unfolding m' by (auto intro!: only_paras_writes)
  have o2: "only_paras base {h + k - p} m' m2" unfolding m2 by (rule DosMcbWriteHeader_at(2) [OF r])
  have "mcb_at base m' h DOS_MCB_MEMBER v (k - p - 1)"
    using sig mcb_at_set_size_sig [OF hd(2), where n = "k - p - 1" and sig = sg] unfolding m' by (simp add: mcb_at_def)
  then have head: "mcb_at base m2 h DOS_MCB_MEMBER v (k - p - 1)"
    using mcb_at_elsewhere [OF o2, of h] fits by simp
  have eq: "h + 1 + (k - p - 1) = h + k - p" "h + k - p + 1 + p = h + 1 + k" using fits by simp_all
  have new: "mcb_at base m2 (h + k - p) (sig_before ds) DOS_MCB_OWNER_DOS p"
    unfolding m2 by (rule DosMcbWriteHeader_at(1) [OF r])
  have o: "only_paras base {h, h + k - p} m m2"
    by (rule only_paras_trans [OF only_paras_mono [OF o1] only_paras_mono [OF o2]]) auto
  have "mcb_chain base m2 (h + 1 + k) ds top_seg" if "ds \<noteq> []"
  proof -
    have "mcb_chain base m (h + 1 + k) ds top_seg" using chain that by simp
    moreover have "\<forall>t\<in>{h, h + k - p}. t < h + 1 + k \<or> h + 1 + k + span ds \<le> t" by auto
    ultimately show ?thesis using mcb_chain_elsewhere [OF o, of "h + 1 + k" ds top_seg] by simp
  qed
  then have "if ds = [] then h + k - p + 1 + p = top_seg \<and> top_seg \<le> 65535
      else mcb_chain base m2 (h + k - p + 1 + p) ds top_seg"
    unfolding eq(2) using chain by auto
  with head new o show ?thesis
    by (simp only: mcb_chain.simps fst_conv snd_conv eq(1) sig_before_simps list.distinct if_False simp_thms)
qed

text \<open>
  Reserving for DOS at the top. With fewer than FFFEh paragraphs asked for, and the chain within the walk limit,
  \<^verbatim>\<open>DosMcbReserveTop\<close> takes the reservation from the end of the last block, or, when a
  reservation is already there, from the end of the block in front of it; the reserved block is
  owned by DOS, all earlier reservations keep their place and size, and a block too small to
  give the paragraphs and a header leaves the arena as it was and answers 0.
\<close>

theorem mcb_reserve_top_contract:
  assumes "mcb_chain base m s (xs @ (v, k) # ds) top_seg"
    and "ds = [] \<and> (v \<noteq> DOS_MCB_OWNER_DOS \<or> xs = []) \<or> (\<exists>n. ds = [(DOS_MCB_OWNER_DOS, n)])"
    and "length xs < DOS_MCB_WALK_LIMIT" and "p < 0xFFFE"
  defines "h \<equiv> s + span xs"
  shows "if k < p + 2 then DosMcbReserveTop base m (of_nat s) (of_nat p) = (m, 0)
    else \<exists>m'. DosMcbReserveTop base m (of_nat s) (of_nat p) = (m', of_nat (h + k - p + 1)) \<and>
      mcb_chain base m' s (xs @ (v, k - p - 1) # (DOS_MCB_OWNER_DOS, p) # ds) top_seg \<and>
      only_paras base {h, h + k - p} m m'"
proof -
  have ch: "mcb_chain base m h ((v, k) # ds) top_seg" using assms(1) unfolding chain_split h_def by blast
  note hd = chain_head [OF ch]
  have size0: "(of_nat k :: u16) < of_nat p + 2 \<longleftrightarrow> k < p + 2"
    using seg_less [of k "p + 2"] hd(6) assms(4) by (simp add: add.commute)
  define m1 where "m1 = DosMcbWriteWord m (base + 16 * h + 3) (of_nat (k - p - 1))"
  define P K H where "P = (of_nat p :: u16)" and "K = (of_nat (k - p - 1) :: u16)"
    and "H = (of_nat (h + k - p) :: u16)"
  have words: "of_nat k - P - 1 = K" "of_nat h + 1 + K = H" "of_nat (h + k - p + 1) = H + 1" if "p + 2 \<le> k"
    using that by (simp_all add: of_nat_diff P_def K_def H_def)
  have size: "of_nat k < P + 2 \<longleftrightarrow> k < p + 2" using size0 by (simp add: P_def)
  have w0: "DosMcbReserveTop base m (of_nat s) (of_nat p) =
      reserve_walk base m (of_nat p) (of_nat h) (if xs = [] then None else Some (of_nat (s + span (butlast xs)))) (length xs)"
    using reserve_walk_members [OF assms(1), of 0 "of_nat p" None] assms(3)
    by (simp add: DosMcbReserveTop_def h_def)
  consider (free_top) "ds = []" "v \<noteq> DOS_MCB_OWNER_DOS \<or> xs = []" | (second) n where "ds = [(DOS_MCB_OWNER_DOS, n)]"
    using assms(2) by blast
  then have "DosMcbReserveTop base m (of_nat s) (of_nat p) =
      (if k < p + 2 then (m, 0)
       else (DosMcbWriteHeader base (m1(base + 16 * h := DOS_MCB_MEMBER)) (of_nat (h + k - p)) (sig_before ds)
               DOS_MCB_OWNER_DOS (of_nat p), of_nat (h + k - p + 1)))"
  proof cases
    case free_top
    have L: "m (base + 16 * h) = DOS_MCB_LAST" using hd(1) by (simp add: free_top)
    define prev where "prev = (if xs = [] then None else Some (of_nat (s + span (butlast xs)) :: u16))"
    have none: "v = DOS_MCB_OWNER_DOS \<Longrightarrow> prev = None" using free_top(2) by (auto simp: prev_def)
    show ?thesis
      unfolding w0 prev_def [symmetric] unfolding P_def [symmetric] H_def [symmetric] m1_def K_def [symmetric]
      using words size hd(2,3) none
      by (subst reserve_walk.simps)
        (auto simp: Let_def seg_address [OF hd(7)] L free_top(1) not_less simp del: of_nat_add of_nat_Suc)
  next
    case second
    note nx = chain_next [OF ch [unfolded second]]
    have M: "m (base + 16 * h) = DOS_MCB_MEMBER" using hd(1) by (simp add: second)
    have m1: "m1 (base + 16 * h) = DOS_MCB_MEMBER" using M by (simp add: m1_def mem_facts)
    have lim: "\<not> Suc (length xs) > DOS_MCB_WALK_LIMIT" using assms(3) by simp
    have "DosMcbReserveTop base m (of_nat s) (of_nat p) =
        reserve_walk base m P (of_nat h + 1 + of_nat k) (Some (of_nat h)) (Suc (length xs))"
      unfolding w0 P_def
      by (subst reserve_walk.simps) (simp only: Let_def seg_address [OF hd(7)] M hd(3) lim sig_before_simps simp_thms if_False)
    also have "\<dots> = (if k < p + 2 then (m, 0)
       else (DosMcbWriteHeader base m1 H DOS_MCB_MEMBER DOS_MCB_OWNER_DOS P, of_nat (h + k - p + 1)))"
      unfolding m1_def K_def [symmetric]
      using nx(1-3) words size
      by (subst reserve_walk.simps)
        (auto simp: Let_def seg_address [OF hd(7)] seg_address_next [OF nx(4)] hd(3) not_less
          simp del: of_nat_add of_nat_Suc)
    finally show ?thesis using m1 by (simp add: second fun_upd_idem H_def P_def)
  qed
  moreover have "mcb_chain base m2 s (xs @ (v, k - p - 1) # (DOS_MCB_OWNER_DOS, p) # ds) top_seg \<and>
      only_paras base {h, h + k - p} m m2"
    if "p + 2 \<le> k" "m2 = DosMcbWriteHeader base (m1(base + 16 * h := DOS_MCB_MEMBER)) (of_nat (h + k - p))
        (sig_before ds) DOS_MCB_OWNER_DOS (of_nat p)" for m2
  proof -
    have "mcb_chain base m2 h ((v, k - p - 1) # (DOS_MCB_OWNER_DOS, p) # ds) top_seg \<and>
        only_paras base {h, h + k - p} m m2"
      by (rule reserve_split [OF ch that(1) _ refl m1_def that(2)]) simp
    moreover have "\<forall>t\<in>{h, h + k - p}. s + span xs \<le> t" using that(1) by (auto simp: h_def)
    ultimately show ?thesis using chain_replace_tail [OF assms(1)] unfolding h_def by blast
  qed
  ultimately show ?thesis by (auto simp: not_less)
qed

lemma mcb_reserve_top_contract_witness:
  "\<exists>m'. DosMcbReserveTop 0 (fst (DosMcbInitializeWithTop 0 (\<lambda>_. 0) DOS_MEM_TOP)) 0x7E 0x8F = (m', 0x9F31) \<and>
     mcb_chain 0 m' 0x7E [(DOS_PSP_SEG, 0x10), (DOS_MCB_OWNER_DOS, 0x6F), (DOS_PSP_SEG, 0x9E30),
       (DOS_MCB_OWNER_DOS, 0x8F)] 0x9FC0"
  using mcb_reserve_top_contract [of 0 "fst (DosMcbInitializeWithTop 0 (\<lambda>_. 0) DOS_MEM_TOP)" "0x7E"
      "[(DOS_PSP_SEG, 0x10), (DOS_MCB_OWNER_DOS, 0x6F)]" DOS_PSP_SEG "0x9EC0" "[]" "0x9FC0" "0x8F"]
    boot_chain [of DOS_MEM_TOP 0 "\<lambda>_. 0"]
  by (auto simp: boot_blocks_def DOS_MCB_WALK_LIMIT_def DOS_PSP_SEG_def DOS_MCB_OWNER_DOS_def)

subsection \<open>Every sequence of memory calls\<close>

lemma owned_split:
  "(seg, w, n) \<in> owned s bs \<Longrightarrow>
   \<exists>xs ys. bs = xs @ (w, n) # ys \<and> seg = s + span xs + 1 \<and> w \<noteq> DOS_MCB_OWNER_FREE"
proof (induction bs arbitrary: s)
  case (Cons b bs)
  show ?case
  proof (cases "(seg, w, n) \<in> owned (s + 1 + snd b) bs")
    case True
    from Cons.IH [OF this] obtain xs ys where
      "bs = xs @ (w, n) # ys" "seg = s + 1 + snd b + span xs + 1" "w \<noteq> DOS_MCB_OWNER_FREE" by blast
    then show ?thesis by (intro exI [of _ "b # xs"] exI [of _ ys]) simp
  next
    case False
    with Cons.prems have "b = (w, n)" "seg = s + 1" "w \<noteq> DOS_MCB_OWNER_FREE"
      by (auto split: if_splits)
    then show ?thesis by (intro exI [of _ "[]"] exI [of _ bs]) simp
  qed
qed simp

lemma owned_bounds: "b \<in> owned s bs \<Longrightarrow> s + 1 \<le> fst b \<and> fst b + snd (snd b) \<le> s + span bs"
  using owned_free_disjoint [of "fst b" "fst (snd b)" "snd (snd b)" s bs] by simp

lemma owned_without:
  assumes "w \<noteq> DOS_MCB_OWNER_FREE"
  shows "owned s (xs @ (w, n) # ys) - {(s + span xs + 1, w, n)} =
    owned s xs \<union> owned (s + span xs + 1 + n) ys"
proof -
  have "(s + span xs + 1, w, n) \<notin> owned s xs"
    using owned_bounds [of "(s + span xs + 1, w, n)" s xs] by auto
  moreover have "(s + span xs + 1, w, n) \<notin> owned (s + span xs + 1 + n) ys"
    using owned_bounds [of "(s + span xs + 1, w, n)" "s + span xs + 1 + n" ys] by auto
  ultimately show ?thesis using assms by auto
qed

lemma owned_disjoint:
  assumes "b \<in> owned s bs" "c \<in> owned s bs" "b \<noteq> c"
  shows "fst b + snd (snd b) < fst c \<or> fst c + snd (snd c) < fst b"
  using assms
proof (induction bs arbitrary: s)
  case (Cons d bs)
  let ?t = "s + 1 + snd d"
  have later: "s + 1 + snd d < fst x" if "x \<in> owned ?t bs" for x
    using owned_bounds [OF that] by simp
  have hd_or_tl: "x = (s + 1, fst d, snd d) \<or> x \<in> owned ?t bs" if "x \<in> owned s (d # bs)" for x
    using that by (auto split: if_splits)
  from hd_or_tl [OF Cons.prems(1)] hd_or_tl [OF Cons.prems(2)] Cons.prems(3) show ?case
    using Cons.IH [of ?t] later [of b] later [of c] by auto
qed simp

text \<open>
  The life of an arena after bring-up: a program allocates whatever it likes, writes into the
  blocks it holds, and frees or resizes them. \<open>arena base top m held\<close> holds of the memories
  that come about with the blocks handed out and not yet given back.
\<close>

inductive arena :: "nat \<Rightarrow> u16 \<Rightarrow> mem \<Rightarrow> (nat \<times> u16 \<times> nat) set \<Rightarrow> bool" for base top_paragraph where
  start: "0x100 \<le> unat top_paragraph \<Longrightarrow>
    arena base top_paragraph (fst (DosMcbInitializeWithTop base m top_paragraph))
      (owned 0x7E (boot_blocks (unat top_paragraph)))"
| allocates: "arena base top_paragraph m held \<Longrightarrow>
    DosMcbAllocate base m DOS_FIRST_MCB requested = Some (m', Inr seg) \<Longrightarrow>
    arena base top_paragraph m' (insert (unat seg, DOS_PSP_SEG, unat requested) held)"
| alloc_fails: "arena base top_paragraph m held \<Longrightarrow>
    DosMcbAllocate base m DOS_FIRST_MCB requested = Some (m', Inl e) \<Longrightarrow>
    arena base top_paragraph m' held"
| frees: "arena base top_paragraph m held \<Longrightarrow> (seg, w, n) \<in> held \<Longrightarrow>
    DosMcbFree base m (of_nat seg) = Some (m', None) \<Longrightarrow>
    arena base top_paragraph m' (held - {(seg, w, n)})"
| resizes: "arena base top_paragraph m held \<Longrightarrow> (seg, w, n) \<in> held \<Longrightarrow>
    DosMcbResize base m (of_nat seg) requested = (m', None) \<Longrightarrow>
    arena base top_paragraph m' (insert (seg, w, unat requested) (held - {(seg, w, n)}))"
| resize_fails: "arena base top_paragraph m held \<Longrightarrow> (seg, w, n) \<in> held \<Longrightarrow>
    DosMcbResize base m (of_nat seg) requested = (m', Some e) \<Longrightarrow>
    arena base top_paragraph m' held"
| writes: "arena base top_paragraph m held \<Longrightarrow> (seg, w, n) \<in> held \<Longrightarrow>
    base + 16 * seg \<le> a \<Longrightarrow> a < base + 16 * (seg + n) \<Longrightarrow>
    arena base top_paragraph (m(a := v)) held"

lemma write_keeps_chain:
  assumes ch: "mcb_chain base m s (xs @ (w, n) # ys) top_seg"
    and a: "base + 16 * (s + span xs + 1) \<le> a" "a < base + 16 * (s + span xs + 1 + n)"
  shows "mcb_chain base (m(a := v)) s (xs @ (w, n) # ys) top_seg"
proof -
  define p where "p = (a - base) div 16"
  have pa: "base + 16 * p \<le> a" "a < base + 16 * p + 16" using a(1) by (simp_all add: p_def)
  have pr: "s + span xs + 1 \<le> p" "p < s + span xs + 1 + n" using pa a by simp_all
  have o: "only_paras base {p} m (m(a := v))" using pa by (auto simp: only_paras_def)
  have "mcb_members base (m(a := v)) s xs"
    using ch mcb_members_elsewhere [OF o, of s xs] pr unfolding chain_split by simp
  moreover have "mcb_chain base (m(a := v)) (s + span xs) ((w, n) # ys) top_seg"
  proof -
    have "p \<noteq> s + span xs" using pr by simp
    then have "mcb_at base (m(a := v)) (s + span xs) sig w n = mcb_at base m (s + span xs) sig w n" for sig
      by (intro mcb_at_elsewhere [OF o]) simp
    moreover have "mcb_chain base (m(a := v)) (s + span xs + 1 + n) ys top_seg =
        mcb_chain base m (s + span xs + 1 + n) ys top_seg"
      by (rule mcb_chain_elsewhere [OF o]) (use pr in auto)
    ultimately show ?thesis using ch unfolding chain_split mcb_chain.simps fst_conv snd_conv by metis
  qed
  ultimately show ?thesis unfolding chain_split by blast
qed

lemma arena_chain:
  "arena base top_paragraph m held \<Longrightarrow>
   \<exists>bs. mcb_chain base m (unat DOS_FIRST_MCB) bs (unat top_paragraph) \<and> owned (unat DOS_FIRST_MCB) bs = held"
proof (induction rule: arena.induct)
  case (start m)
  then show ?case using boot_chain by auto
next
  case (allocates m held requested m' seg)
  then obtain bs where bs: "mcb_chain base m (unat DOS_FIRST_MCB) bs (unat top_paragraph)"
    "owned (unat DOS_FIRST_MCB) bs = held" by blast
  from alloc_owned [OF bs(1) allocates.hyps(2)] bs(2) show ?case by auto
next
  case (alloc_fails m held requested m' e)
  then obtain bs where bs: "mcb_chain base m (unat DOS_FIRST_MCB) bs (unat top_paragraph)"
    "owned (unat DOS_FIRST_MCB) bs = held" by blast
  from alloc_owned [OF bs(1) alloc_fails.hyps(2)] bs(2) show ?case by auto
next
  case (frees m held seg w n m')
  then obtain bs where bs: "mcb_chain base m (unat DOS_FIRST_MCB) bs (unat top_paragraph)"
    "owned (unat DOS_FIRST_MCB) bs = held" by blast
  obtain xs ys where xs: "bs = xs @ (w, n) # ys" "seg = unat DOS_FIRST_MCB + span xs + 1"
    "w \<noteq> DOS_MCB_OWNER_FREE" using owned_split frees.hyps(2) bs(2) by blast
  have "held - {(seg, w, n)} = owned (unat DOS_FIRST_MCB) xs \<union> owned (unat DOS_FIRST_MCB + span xs + 1 + n) ys"
    unfolding bs(2) [symmetric] xs(1,2) by (rule owned_without [OF xs(3)])
  with free_refines [OF bs(1) [unfolded xs(1)]] frees.hyps(3) free_owned [of "unat DOS_FIRST_MCB" xs n ys]
  show ?case unfolding xs(2) by (metis option.inject prod.inject)
next
  case (resizes m held seg w n requested m')
  then obtain bs where bs: "mcb_chain base m (unat DOS_FIRST_MCB) bs (unat top_paragraph)"
    "owned (unat DOS_FIRST_MCB) bs = held" by blast
  obtain xs ys where xs: "bs = xs @ (w, n) # ys" "seg = unat DOS_FIRST_MCB + span xs + 1"
    "w \<noteq> DOS_MCB_OWNER_FREE" using owned_split resizes.hyps(2) bs(2) by blast
  have rest: "held - {(seg, w, n)} = owned (unat DOS_FIRST_MCB) xs \<union> owned (unat DOS_FIRST_MCB + span xs + 1 + n) ys"
    unfolding bs(2) [symmetric] xs(1,2) by (rule owned_without [OF xs(3)])
  obtain bs' where bs': "resize_block (unat requested) w n ys = Some bs'"
    "mcb_chain base m' (unat DOS_FIRST_MCB) (xs @ bs') (unat top_paragraph)"
    using resize_chain [OF bs(1) [unfolded xs(1)], of requested] resizes.hyps(3) xs(2)
    by (auto split: option.splits)
  have "owned (unat DOS_FIRST_MCB) (xs @ bs') = insert (seg, w, unat requested) (held - {(seg, w, n)})"
    unfolding rest owned_append resize_owned [OF bs'(1)] using xs(2,3) by simp
  with bs'(2) show ?case by blast
next
  case (resize_fails m held seg w n requested m' e)
  then obtain bs where bs: "mcb_chain base m (unat DOS_FIRST_MCB) bs (unat top_paragraph)"
    "owned (unat DOS_FIRST_MCB) bs = held" by blast
  obtain xs ys where xs: "bs = xs @ (w, n) # ys" "seg = unat DOS_FIRST_MCB + span xs + 1"
    "w \<noteq> DOS_MCB_OWNER_FREE" using owned_split resize_fails.hyps(2) bs(2) by blast
  have "m' = m" using resize_chain [OF bs(1) [unfolded xs(1)], of requested] resize_fails.hyps(3) xs(2)
    by (auto split: option.splits)
  with bs show ?case by blast
next
  case (writes m held seg w n a v)
  then obtain bs where bs: "mcb_chain base m (unat DOS_FIRST_MCB) bs (unat top_paragraph)"
    "owned (unat DOS_FIRST_MCB) bs = held" by blast
  obtain xs ys where xs: "bs = xs @ (w, n) # ys" "seg = unat DOS_FIRST_MCB + span xs + 1"
    using owned_split writes.hyps(2) bs(2) by blast
  from write_keeps_chain [OF bs(1) [unfolded xs(1)]] writes.hyps(3,4) xs bs(2) show ?case by blast
qed

text \<open>
  C1. The arena is sound for ever. After any sequence of allocations, frees, resizes and writes
  into held blocks the memory holds a well-formed chain whose blocks in use are exactly the
  blocks handed out and not given back; any two of them are disjoint, with room for a header
  between them, all lie between the first header and the top; and every further allocation,
  and every free of a held block, returns.
\<close>

theorem arena_sound:
  assumes "arena base top_paragraph m held"
  shows "(\<exists>bs. mcb_chain base m (unat DOS_FIRST_MCB) bs (unat top_paragraph) \<and>
      owned (unat DOS_FIRST_MCB) bs = held) \<and>
    (\<forall>b\<in>held. \<forall>c\<in>held. b \<noteq> c \<longrightarrow> fst b + snd (snd b) < fst c \<or> fst c + snd (snd c) < fst b) \<and>
    (\<forall>b\<in>held. unat DOS_FIRST_MCB < fst b \<and> fst b + snd (snd b) \<le> unat top_paragraph) \<and>
    (\<forall>requested. DosMcbAllocate base m DOS_FIRST_MCB requested \<noteq> None) \<and>
    (\<forall>b\<in>held. \<exists>m'. DosMcbFree base m (of_nat (fst b)) = Some (m', None))"
proof -
  obtain bs where bs: "mcb_chain base m (unat DOS_FIRST_MCB) bs (unat top_paragraph)"
    "owned (unat DOS_FIRST_MCB) bs = held" using arena_chain [OF assms] by blast
  have "\<exists>m'. DosMcbFree base m (of_nat (fst b)) = Some (m', None)" if held: "b \<in> held" for b
  proof -
    obtain seg w n where b: "b = (seg, w, n)" by (cases b)
    obtain xs ys where xs: "bs = xs @ (w, n) # ys" "seg = unat DOS_FIRST_MCB + span xs + 1"
      using owned_split [of seg w n "unat DOS_FIRST_MCB" bs] held bs(2) b by blast
    from free_refines [OF bs(1) [unfolded xs(1)]] show ?thesis unfolding b xs(2) by auto
  qed
  moreover have "DosMcbAllocate base m DOS_FIRST_MCB requested \<noteq> None" for requested
    using alloc_refines [OF bs(1), of requested] by auto
  ultimately show ?thesis
    using bs owned_disjoint [of _ "unat DOS_FIRST_MCB" bs] owned_bounds [of _ "unat DOS_FIRST_MCB" bs]
      mcb_chain_top [OF bs(1)] by (fastforce simp del: DOS_FIRST_MCB_unat)
qed

lemma arena_sound_witness:
  "\<exists>m'. DosMcbFree 0 (fst (DosMcbInitializeWithTop 0 (\<lambda>_. 0) DOS_MEM_TOP)) 0x100 = Some (m', None)"
proof -
  have a: "arena 0 DOS_MEM_TOP (fst (DosMcbInitializeWithTop 0 (\<lambda>_. 0) DOS_MEM_TOP))
      (owned 0x7E (boot_blocks (unat DOS_MEM_TOP)))"
    by (rule arena.start) simp
  have "(0x100, DOS_PSP_SEG, 0x9EC0) \<in> owned 0x7E (boot_blocks (unat DOS_MEM_TOP))"
    by (simp add: boot_blocks_def)
  then show ?thesis using arena_sound [OF a] by fastforce
qed

end
