(* ===== verification/Dos_Xms.thy ===== *)
theory Dos_Xms
  imports Prelude
begin

text \<open>
  The extended memory manager, \<^verbatim>\<open>src/dos/dos_xms.h\<close>: the handle table, the pool accounting,
  the lock counts and the block move. Extended memory blocks are buffers of host memory, so
  one byte memory holds them and the guest's conventional memory. The backing store (the host
  passes wrappers of \<^verbatim>\<open>VirtualAlloc\<close> and \<^verbatim>\<open>VirtualFree\<close>) is not code of this repository: it
  is the two routines of the state, functions of the store's own state \<open>'h\<close> (the context) and
  the memory. A result is \<open>Inl\<close> the XMS error code or \<open>Inr\<close> what the call returns.
\<close>

definition DOS_XMS_MAX_HANDLES :: nat where "DOS_XMS_MAX_HANDLES = 64"
definition DOS_XMS_ERROR_OUT_OF_MEMORY :: u8 where "DOS_XMS_ERROR_OUT_OF_MEMORY = 0xA0"
definition DOS_XMS_ERROR_NO_HANDLES :: u8 where "DOS_XMS_ERROR_NO_HANDLES = 0xA1"
definition DOS_XMS_ERROR_INVALID_HANDLE :: u8 where "DOS_XMS_ERROR_INVALID_HANDLE = 0xA2"
definition DOS_XMS_ERROR_INVALID_SOURCE_HANDLE :: u8 where "DOS_XMS_ERROR_INVALID_SOURCE_HANDLE = 0xA3"
definition DOS_XMS_ERROR_INVALID_SOURCE_OFFSET :: u8 where "DOS_XMS_ERROR_INVALID_SOURCE_OFFSET = 0xA4"
definition DOS_XMS_ERROR_INVALID_DESTINATION_HANDLE :: u8 where
  "DOS_XMS_ERROR_INVALID_DESTINATION_HANDLE = 0xA5"
definition DOS_XMS_ERROR_INVALID_DESTINATION_OFFSET :: u8 where
  "DOS_XMS_ERROR_INVALID_DESTINATION_OFFSET = 0xA6"
definition DOS_XMS_ERROR_INVALID_LENGTH :: u8 where "DOS_XMS_ERROR_INVALID_LENGTH = 0xA7"
definition DOS_XMS_ERROR_NOT_LOCKED :: u8 where "DOS_XMS_ERROR_NOT_LOCKED = 0xAA"
definition DOS_XMS_ERROR_LOCKED :: u8 where "DOS_XMS_ERROR_LOCKED = 0xAB"
definition DOS_XMS_ERROR_LOCK_OVERFLOW :: u8 where "DOS_XMS_ERROR_LOCK_OVERFLOW = 0xAC"
definition DOS_XMS_MAX_LOCK_COUNT :: u8 where "DOS_XMS_MAX_LOCK_COUNT = 0xFF"
definition DOS_XMS_MAX_FREE_HANDLES :: nat where "DOS_XMS_MAX_FREE_HANDLES = 255"
definition DOS_XMS_CONVENTIONAL_LIMIT :: u32 where "DOS_XMS_CONVENTIONAL_LIMIT = 0x10FFF0"

subsection \<open>State\<close>

record dos_xms_handle =
  InUse :: bool
  LockCount :: u8
  SizeKb :: u32
  Memory :: nat

record 'h dos_xms_state =
  IsA20Enabled :: bool
  IsHmaAllocated :: bool
  TotalKb :: u32
  UsedKb :: u32
  Handles :: "nat \<Rightarrow> dos_xms_handle"
  Allocate :: "('h \<Rightarrow> mem \<Rightarrow> u32 \<Rightarrow> 'h \<times> mem \<times> nat) option"
  Free :: "('h \<Rightarrow> mem \<Rightarrow> nat \<Rightarrow> u32 \<Rightarrow> 'h \<times> mem) option"
  Context :: 'h

record dos_xms_move =
  Length :: u32
  SourceHandle :: u16
  SourceOffset :: u32
  DestinationHandle :: u16
  DestinationOffset :: u32

definition free_handle :: dos_xms_handle where
  "free_handle = \<lparr>InUse = False, LockCount = 0, SizeKb = 0, Memory = 0\<rparr>"

definition DosXmsInitialize ::
  "u32 \<Rightarrow> ('h \<Rightarrow> mem \<Rightarrow> u32 \<Rightarrow> 'h \<times> mem \<times> nat) option \<Rightarrow>
   ('h \<Rightarrow> mem \<Rightarrow> nat \<Rightarrow> u32 \<Rightarrow> 'h \<times> mem) option \<Rightarrow> 'h \<Rightarrow> 'h dos_xms_state" where
  "DosXmsInitialize totalKb allocate free context =
     \<lparr>IsA20Enabled = True, IsHmaAllocated = False, TotalKb = totalKb, UsedKb = 0,
      Handles = (\<lambda>_. free_handle), Allocate = allocate, Free = free, Context = context\<rparr>"

text \<open>The slot of a handle number, or \<open>None\<close> when it names no block.\<close>

definition DosXmsGetHandle :: "'h dos_xms_state \<Rightarrow> u16 \<Rightarrow> nat option" where
  "DosXmsGetHandle state handle =
     (if handle = 0 \<or> unat handle > DOS_XMS_MAX_HANDLES then None
      else if \<not> InUse (Handles state (unat handle - 1)) then None
      else Some (unat handle - 1))"

definition DosXmsQueryFreeMemory :: "'h dos_xms_state \<Rightarrow> u32 \<times> u32" where
  "DosXmsQueryFreeMemory state =
     (let freeKb = (if TotalKb state > UsedKb state then TotalKb state - UsedKb state else 0)
      in (freeKb, freeKb))"

subsection \<open>Blocks\<close>

definition call_allocate :: "'h dos_xms_state \<Rightarrow> mem \<Rightarrow> u32 \<Rightarrow> 'h dos_xms_state \<times> mem \<times> nat" where
  \<comment> \<open>\<^verbatim>\<open>state->Allocate ? state->Allocate(state->Context, kilobytes) : 0\<close>\<close>
  "call_allocate state m kilobytes =
     (case Allocate state of
        None \<Rightarrow> (state, m, 0)
      | Some f \<Rightarrow> (let (h, m', p) = f (Context state) m kilobytes in (state\<lparr>Context := h\<rparr>, m', p)))"

definition call_free :: "'h dos_xms_state \<Rightarrow> mem \<Rightarrow> nat \<Rightarrow> u32 \<Rightarrow> 'h dos_xms_state \<times> mem" where
  \<comment> \<open>\<^verbatim>\<open>if (handleEntry->Memory && state->Free) state->Free(...)\<close>\<close>
  "call_free state m memory kilobytes =
     (case Free state of
        Some f \<Rightarrow> (if memory \<noteq> 0 then (let (h, m') = f (Context state) m memory kilobytes
                                       in (state\<lparr>Context := h\<rparr>, m'))
                   else (state, m))
      | None \<Rightarrow> (state, m))"

definition DosXmsAllocate ::
  "'h dos_xms_state \<Rightarrow> mem \<Rightarrow> u32 \<Rightarrow> 'h dos_xms_state \<times> mem \<times> (u8 + u16)" where
  "DosXmsAllocate state m kilobytes =
     (if kilobytes > 0 \<and> UsedKb state + kilobytes > TotalKb state
      then (state, m, Inl DOS_XMS_ERROR_OUT_OF_MEMORY)
      else let handleIndex = first_from (\<lambda>i. \<not> InUse (Handles state i)) 0 DOS_XMS_MAX_HANDLES
           in if handleIndex = DOS_XMS_MAX_HANDLES then (state, m, Inl DOS_XMS_ERROR_NO_HANDLES)
              else let (state1, m1, buffer) =
                         (if kilobytes > 0 then call_allocate state m kilobytes else (state, m, 0))
                   in if kilobytes > 0 \<and> buffer = 0
                      then (state1, m1, Inl DOS_XMS_ERROR_OUT_OF_MEMORY)
                      else (state1\<lparr>Handles := (Handles state1)(handleIndex :=
                                \<lparr>InUse = True, LockCount = 0, SizeKb = kilobytes, Memory = buffer\<rparr>),
                              UsedKb := UsedKb state1 + kilobytes\<rparr>,
                            m1, Inr (of_nat (handleIndex + 1))))"

definition DosXmsFree ::
  "'h dos_xms_state \<Rightarrow> mem \<Rightarrow> u16 \<Rightarrow> 'h dos_xms_state \<times> mem \<times> (u8 + unit)" where
  "DosXmsFree state m handle =
     (case DosXmsGetHandle state handle of
        None \<Rightarrow> (state, m, Inl DOS_XMS_ERROR_INVALID_HANDLE)
      | Some i \<Rightarrow>
          (let handleEntry = Handles state i
           in if LockCount handleEntry \<noteq> 0 then (state, m, Inl DOS_XMS_ERROR_LOCKED)
              else let (state1, m1) = call_free state m (Memory handleEntry) (SizeKb handleEntry)
                   in (state1\<lparr>UsedKb := UsedKb state1 - SizeKb handleEntry,
                         Handles := (Handles state1)(i := free_handle)\<rparr>, m1, Inr ())))"

definition DosXmsReallocate ::
  "'h dos_xms_state \<Rightarrow> mem \<Rightarrow> u16 \<Rightarrow> u32 \<Rightarrow> 'h dos_xms_state \<times> mem \<times> (u8 + unit)" where
  "DosXmsReallocate state m handle newKb =
     (case DosXmsGetHandle state handle of
        None \<Rightarrow> (state, m, Inl DOS_XMS_ERROR_INVALID_HANDLE)
      | Some i \<Rightarrow>
          (let handleEntry = Handles state i
           in if LockCount handleEntry \<noteq> 0 then (state, m, Inl DOS_XMS_ERROR_LOCKED)
              else if newKb = SizeKb handleEntry then (state, m, Inr ())
              else if newKb > SizeKb handleEntry \<and>
                      UsedKb state - SizeKb handleEntry + newKb > TotalKb state
              then (state, m, Inl DOS_XMS_ERROR_OUT_OF_MEMORY)
              else let (state1, m1, newBuffer) =
                         (if newKb > 0 then call_allocate state m newKb else (state, m, 0))
                   in if newKb > 0 \<and> newBuffer = 0
                      then (state1, m1, Inl DOS_XMS_ERROR_OUT_OF_MEMORY)
                      else let bytesToKeep = (if newKb < SizeKb handleEntry then newKb
                                              else SizeKb handleEntry) * 1024;
                               m2 = (if newKb > 0
                                     then copy_up newBuffer (Memory handleEntry) (unat bytesToKeep) m1
                                     else m1);
                               (state2, m3) = call_free state1 m2 (Memory handleEntry) (SizeKb handleEntry)
                           in (state2\<lparr>UsedKb := UsedKb state2 - SizeKb handleEntry + newKb,
                                 Handles := (Handles state2)(i :=
                                   (Handles state2 i)\<lparr>Memory := newBuffer, SizeKb := newKb\<rparr>)\<rparr>,
                               m3, Inr ())))"

text \<open>The result of function 0Eh: lock count, free handles and size.\<close>

definition DosXmsGetHandleInformation ::
  "'h dos_xms_state \<Rightarrow> u16 \<Rightarrow> u8 + (u8 \<times> u8 \<times> u32)" where
  "DosXmsGetHandleInformation state handle =
     (if handle = 0 \<or> unat handle > DOS_XMS_MAX_HANDLES \<or> \<not> InUse (Handles state (unat handle - 1))
      then Inl DOS_XMS_ERROR_INVALID_HANDLE
      else let handleEntry = Handles state (unat handle - 1);
               freeHandleCount =
                 length (filter (\<lambda>i. \<not> InUse (Handles state i)) [0..<DOS_XMS_MAX_HANDLES])
           in Inr (LockCount handleEntry,
                   of_nat (if freeHandleCount > DOS_XMS_MAX_FREE_HANDLES
                           then DOS_XMS_MAX_FREE_HANDLES else freeHandleCount),
                   SizeKb handleEntry))"

definition DosXmsLock :: "'h dos_xms_state \<Rightarrow> u16 \<Rightarrow> 'h dos_xms_state \<times> (u8 + u32)" where
  "DosXmsLock state handle =
     (case DosXmsGetHandle state handle of
        None \<Rightarrow> (state, Inl DOS_XMS_ERROR_INVALID_HANDLE)
      | Some i \<Rightarrow>
          (let handleEntry = Handles state i
           in if LockCount handleEntry = DOS_XMS_MAX_LOCK_COUNT
              then (state, Inl DOS_XMS_ERROR_LOCK_OVERFLOW)
              else (state\<lparr>Handles := (Handles state)(i :=
                       handleEntry\<lparr>LockCount := LockCount handleEntry + 1\<rparr>)\<rparr>,
                    Inr (of_nat (Memory handleEntry)))))"

definition DosXmsUnlock :: "'h dos_xms_state \<Rightarrow> u16 \<Rightarrow> 'h dos_xms_state \<times> (u8 + unit)" where
  "DosXmsUnlock state handle =
     (case DosXmsGetHandle state handle of
        None \<Rightarrow> (state, Inl DOS_XMS_ERROR_INVALID_HANDLE)
      | Some i \<Rightarrow>
          (let handleEntry = Handles state i
           in if LockCount handleEntry = 0 then (state, Inl DOS_XMS_ERROR_NOT_LOCKED)
              else (state\<lparr>Handles := (Handles state)(i :=
                       handleEntry\<lparr>LockCount := LockCount handleEntry - 1\<rparr>)\<rparr>, Inr ())))"

subsection \<open>The move\<close>

text \<open>
  Both endpoints are resolved by the same code with different error codes: conventional memory
  through a far pointer below the one-megabyte-and-HMA limit, or an offset into a block.
\<close>

definition move_endpoint ::
  "'h dos_xms_state \<Rightarrow> nat \<Rightarrow> u16 \<Rightarrow> u32 \<Rightarrow> u32 \<Rightarrow> u8 \<Rightarrow> u8 \<Rightarrow> u8 + nat" where
  "move_endpoint state conventionalBase handle address len badHandle badOffset =
     (if handle = 0
      then let segment = drop_bit 16 address AND 0xFFFF;
               offset = address AND 0xFFFF
           in if push_bit 4 segment + offset + len > DOS_XMS_CONVENTIONAL_LIMIT then Inl badOffset
              else Inr (conventionalBase + unat (push_bit 4 segment) + unat offset)
      else case DosXmsGetHandle state handle of
             None \<Rightarrow> Inl badHandle
           | Some i \<Rightarrow>
               (let bytes = SizeKb (Handles state i) * 1024
                in if address > bytes \<or> len > bytes - address then Inl badOffset
                   else Inr (Memory (Handles state i) + unat address)))"

definition copy_overlap_safe :: "nat \<Rightarrow> nat \<Rightarrow> nat \<Rightarrow> mem \<Rightarrow> mem" where
  "copy_overlap_safe destination source len m =
     (if destination \<le> source then copy_up destination source len m
      else copy_down destination source len m)"

definition DosXmsMove ::
  "'h dos_xms_state \<Rightarrow> nat \<Rightarrow> dos_xms_move \<Rightarrow> mem \<Rightarrow> mem \<times> (u8 + unit)" where
  "DosXmsMove state conventionalBase move m =
     (if Length move = 0 then (m, Inr ())
      else if Length move AND 1 \<noteq> 0 then (m, Inl DOS_XMS_ERROR_INVALID_LENGTH)
      else case move_endpoint state conventionalBase (SourceHandle move) (SourceOffset move)
                  (Length move) DOS_XMS_ERROR_INVALID_SOURCE_HANDLE DOS_XMS_ERROR_INVALID_SOURCE_OFFSET of
             Inl e \<Rightarrow> (m, Inl e)
           | Inr source \<Rightarrow>
               (case move_endpoint state conventionalBase (DestinationHandle move)
                       (DestinationOffset move) (Length move)
                       DOS_XMS_ERROR_INVALID_DESTINATION_HANDLE
                       DOS_XMS_ERROR_INVALID_DESTINATION_OFFSET of
                  Inl e \<Rightarrow> (m, Inl e)
                | Inr destination \<Rightarrow>
                    (copy_overlap_safe destination source (unat (Length move)) m, Inr ())))"

end
