(* ===== verification/Host_Store.thy ===== *)
theory Host_Store
  imports Prelude
begin

text \<open>
  The backing store of the extended- and expanded-memory managers. The host passes wrappers of
  \<^verbatim>\<open>VirtualAlloc\<close> and \<^verbatim>\<open>VirtualFree\<close> (\<^verbatim>\<open>XmsHostAllocate\<close>, \<^verbatim>\<open>EmsHostAllocate\<close>, ...), which
  are not code of this repository: they are parameters, functions of the store's own state and
  the memory, and \<open>unit_store\<close> is what their documentation promises. \<open>blocks_ok\<close> says that the
  buffers a table holds are live and pairwise apart.
\<close>

text \<open>
  An allocation of \<open>k\<close> units is a fresh zeroed range apart from every live one, or a null pointer
  and nothing changed; a release ends one live range and touches no other byte. \<open>live\<close> is the
  set of live ranges of the process in the store's state.
\<close>

definition unit_store ::
  "nat \<Rightarrow> ('h \<Rightarrow> mem \<Rightarrow> u32 \<Rightarrow> 'h \<times> mem \<times> nat) \<Rightarrow> ('h \<Rightarrow> mem \<Rightarrow> nat \<Rightarrow> u32 \<Rightarrow> 'h \<times> mem) \<Rightarrow>
   ('h \<Rightarrow> (nat \<times> nat) set) \<Rightarrow> bool" where
  "unit_store u A F live \<longleftrightarrow>
     (\<forall>h m k h' m' p. 0 < k \<longrightarrow> A h m k = (h', m', p) \<longrightarrow>
        (if p = 0 then live h' = live h \<and> m' = m
         else live h' = insert (p, unat k * u) (live h) \<and>
              (\<forall>(q, n)\<in>live h. range_free p (unat k * u) q n) \<and>
              (\<forall>a. m' a = (if p \<le> a \<and> a < p + unat k * u then 0 else m a)))) \<and>
     (\<forall>h m k h' m' p. (p, unat k * u) \<in> live h \<longrightarrow> F h m p k = (h', m') \<longrightarrow>
        live h' = live h - {(p, unat k * u)} \<and>
        (\<forall>a. a < p \<or> p + unat k * u \<le> a \<longrightarrow> m' a = m a))"

abbreviation backing_store where "backing_store \<equiv> unit_store 1024"

lemma unit_store_allocate:
  assumes "unit_store u A F live" "A h m k = (h', m', p)" "k > 0" "p \<noteq> 0"
  shows "live h' = insert (p, unat k * u) (live h)"
    and "\<And>q n. (q, n) \<in> live h \<Longrightarrow> range_free p (unat k * u) q n"
    and "\<And>a. m' a = (if p \<le> a \<and> a < p + unat k * u then 0 else m a)"
proof -
  from assms have "live h' = insert (p, unat k * u) (live h) \<and>
      (\<forall>(q, n)\<in>live h. range_free p (unat k * u) q n) \<and>
      (\<forall>a. m' a = (if p \<le> a \<and> a < p + unat k * u then 0 else m a))"
    unfolding unit_store_def by (metis (no_types, lifting))
  then show "live h' = insert (p, unat k * u) (live h)"
    "\<And>q n. (q, n) \<in> live h \<Longrightarrow> range_free p (unat k * u) q n"
    "\<And>a. m' a = (if p \<le> a \<and> a < p + unat k * u then 0 else m a)"
    by auto
qed

lemma unit_store_refuses:
  assumes "unit_store u A F live" "A h m k = (h', m', 0)" "k > 0"
  shows "live h' = live h \<and> m' = m"
  using assms unfolding unit_store_def by (metis (no_types, lifting))

lemma unit_store_free:
  assumes "unit_store u A F live" "F h m p k = (h', m')" "(p, unat k * u) \<in> live h"
  shows "live h' = live h - {(p, unat k * u)}"
    and "\<And>a. a < p \<or> p + unat k * u \<le> a \<Longrightarrow> m' a = m a"
  using assms unfolding unit_store_def by blast+

subsection \<open>A table's buffers\<close>

definition apart :: "nat \<times> nat \<Rightarrow> nat \<times> nat \<Rightarrow> bool" where
  "apart b c \<longleftrightarrow> range_free (fst b) (snd b) (fst c) (snd c)"

lemma apart_sym: "apart b c = apart c b"
  by (simp add: apart_def range_free_sym)

definition inside :: "nat \<Rightarrow> nat \<times> nat \<Rightarrow> bool" where
  "inside a b \<longleftrightarrow> fst b \<le> a \<and> a < fst b + snd b"

lemma apart_inside: "apart b c \<Longrightarrow> inside a b \<Longrightarrow> \<not> inside a c"
  by (auto simp: apart_def range_free_def inside_def)

definition blocks_ok :: "(nat \<times> nat) set \<Rightarrow> ('i \<Rightarrow> (nat \<times> nat) option) \<Rightarrow> bool" where
  "blocks_ok L blk \<longleftrightarrow>
     (\<forall>i b. blk i = Some b \<longrightarrow> b \<in> L \<and> 0 < snd b) \<and>
     (\<forall>i j b c. i \<noteq> j \<longrightarrow> blk i = Some b \<longrightarrow> blk j = Some c \<longrightarrow> apart b c)"

lemma blocks_live: "blocks_ok L blk \<Longrightarrow> blk i = Some b \<Longrightarrow> b \<in> L \<and> 0 < snd b"
  unfolding blocks_ok_def by blast

lemma blocks_apart: "blocks_ok L blk \<Longrightarrow> i \<noteq> j \<Longrightarrow> blk i = Some b \<Longrightarrow> blk j = Some c \<Longrightarrow> apart b c"
  unfolding blocks_ok_def by blast

lemma blocks_put:
  assumes "blocks_ok L blk" "0 < snd b" "\<And>c. c \<in> L \<Longrightarrow> apart b c"
  shows "blocks_ok (insert b L) (blk(i := Some b))"
proof -
  have "apart c b" if "c \<in> L" for c using assms(3) [OF that] by (simp add: apart_sym)
  with assms show ?thesis unfolding blocks_ok_def by auto
qed

lemma blocks_unput: "blocks_ok L blk \<Longrightarrow> blocks_ok L (blk(i := None))"
  unfolding blocks_ok_def by auto

lemma blocks_forget:
  assumes "blocks_ok L blk" "\<And>i. blk i \<noteq> Some b"
  shows "blocks_ok (L - {b}) blk"
  using assms unfolding blocks_ok_def by (metis DiffI singletonD)

lemma blocks_differ_slot:
  assumes "blocks_ok L blk" "blk i = Some b" "j \<noteq> i"
  shows "blk j \<noteq> Some b"
  using assms unfolding blocks_ok_def apart_def range_free_def
  by (metis add_less_cancel_left add.right_neutral leD)

lemma blocks_drop:
  assumes "blocks_ok L blk" "blk i = Some b"
  shows "blocks_ok (L - {b}) (blk(i := None))"
  by (rule blocks_forget [OF blocks_unput [OF assms(1)]]) (use blocks_differ_slot [OF assms] in auto)

text \<open>A buffer replaced by a fresh one: put the new, then release the old.\<close>

lemma blocks_replace:
  assumes "blocks_ok L blk" "blk i = Some b" "0 < snd c" "\<And>d. d \<in> L \<Longrightarrow> apart c d"
  shows "blocks_ok (insert c L - {b}) (blk(i := Some c))"
proof (rule blocks_forget [OF blocks_put [OF assms(1,3,4)]])
  fix j
  have "b \<in> L" "0 < snd b" using blocks_live [OF assms(1,2)] by simp_all
  with assms(4) [of b] have "c \<noteq> b" by (auto simp: apart_def range_free_def)
  with blocks_differ_slot [OF assms(1,2)] show "(blk(i := Some c)) j \<noteq> Some b" by auto
qed

subsection \<open>A store that keeps the promise\<close>

text \<open>
  A bump allocator: the next free address and the ranges handed out. Its next address 0 is a
  store that has run dry.
\<close>

definition bump_allocate ::
  "nat \<Rightarrow> nat \<times> (nat \<times> nat) set \<Rightarrow> mem \<Rightarrow> u32 \<Rightarrow> (nat \<times> (nat \<times> nat) set) \<times> mem \<times> nat" where
  "bump_allocate u h m k =
     (if fst h = 0 then (h, m, 0)
      else ((fst h + unat k * u, insert (fst h, unat k * u) {r \<in> snd h. fst r + snd r \<le> fst h}),
            (\<lambda>a. if fst h \<le> a \<and> a < fst h + unat k * u then 0 else m a), fst h))"

definition bump_free ::
  "nat \<Rightarrow> nat \<times> (nat \<times> nat) set \<Rightarrow> mem \<Rightarrow> nat \<Rightarrow> u32 \<Rightarrow> (nat \<times> (nat \<times> nat) set) \<times> mem" where
  "bump_free u h m p k = ((fst h, snd h - {(p, unat k * u)}), m)"

definition bump_live :: "nat \<times> (nat \<times> nat) set \<Rightarrow> (nat \<times> nat) set" where
  "bump_live h = {r \<in> snd h. fst r + snd r \<le> fst h}"

lemma bump_store: "unit_store u (bump_allocate u) (bump_free u) bump_live"
  by (auto simp: unit_store_def bump_allocate_def bump_free_def bump_live_def range_free_def split: if_splits)

text \<open>Some bytes to move: every address holds its own low byte.\<close>

definition demo_bytes :: mem where
  "demo_bytes a = of_nat a"

end
