(* ===== verification/Dos_Xms_Contract.thy ===== *)
theory Dos_Xms_Contract
  imports Dos_Xms Slot_Table Host_Store
begin

text \<open>
  The extended memory manager keeps its books: the pool accounting, the handle table as a
  \<open>sized_slots\<close> table, the buffers as pairwise disjoint live allocations of the backing store,
  and the lock counts; and its block move stays inside what it names.
\<close>

subsection \<open>The handle table\<close>

definition xms_used :: "(nat \<Rightarrow> dos_xms_handle) \<Rightarrow> nat \<Rightarrow> bool" where
  "xms_used hs i = InUse (hs i)"

definition xms_occupy :: "nat \<Rightarrow> u8 \<times> u32 \<times> nat \<Rightarrow> (nat \<Rightarrow> dos_xms_handle) \<Rightarrow> nat \<Rightarrow> dos_xms_handle" where
  "xms_occupy i a hs =
     hs(i := \<lparr>InUse = True, LockCount = fst a, SizeKb = fst (snd a), Memory = snd (snd a)\<rparr>)"

definition xms_release :: "nat \<Rightarrow> (nat \<Rightarrow> dos_xms_handle) \<Rightarrow> nat \<Rightarrow> dos_xms_handle" where
  "xms_release i hs = hs(i := free_handle)"

definition xms_kb :: "(nat \<Rightarrow> dos_xms_handle) \<Rightarrow> nat \<Rightarrow> nat" where
  "xms_kb hs i = unat (SizeKb (hs i))"

interpretation xms: sized_slots xms_used xms_occupy xms_release DOS_XMS_MAX_HANDLES xms_kb
    "\<lambda>a. unat (fst (snd a))"
  by unfold_locales (auto simp: xms_used_def xms_occupy_def xms_release_def xms_kb_def free_handle_def)

text \<open>The table and its books: a free slot is blank, and the sizes add up to the pool in use.\<close>

definition xms_books :: "'h dos_xms_state \<Rightarrow> bool" where
  "xms_books st \<longleftrightarrow>
     (\<forall>i. \<not> InUse (Handles st i) \<longrightarrow> Handles st i = free_handle) \<and>
     (\<forall>i. (Memory (Handles st i) = 0) = (SizeKb (Handles st i) = 0)) \<and>
     xms.total (Handles st) = unat (UsedKb st) \<and> unat (UsedKb st) \<le> unat (TotalKb st)"

lemma call_allocate_keeps:
  assumes "call_allocate st m kb = (st', m', p)"
  shows "Handles st' = Handles st" "UsedKb st' = UsedKb st" "TotalKb st' = TotalKb st"
    "Allocate st' = Allocate st" "Free st' = Free st"
  using assms by (auto simp: call_allocate_def split: option.splits prod.splits)

lemma call_free_keeps:
  assumes "call_free st m p kb = (st', m')"
  shows "Handles st' = Handles st" "UsedKb st' = UsedKb st" "TotalKb st' = TotalKb st"
    "Allocate st' = Allocate st" "Free st' = Free st"
  using assms by (auto simp: call_free_def split: option.splits prod.splits if_splits)

lemma DosXmsGetHandle_Some:
  "DosXmsGetHandle st h = Some i \<longleftrightarrow> h \<noteq> 0 \<and> i = unat h - 1 \<and> i < DOS_XMS_MAX_HANDLES \<and> InUse (Handles st i)"
proof -
  have "h \<noteq> 0 \<longleftrightarrow> 0 < unat h" by (metis unat_eq_zero gr0I less_irrefl)
  then show ?thesis by (auto simp: DosXmsGetHandle_def)
qed

text \<open>What the four calls that change the table do, error cases included.\<close>

lemma DosXmsAllocate_cases:
  assumes "DosXmsAllocate st m kb = (st', m', r)"
  obtains (pool) "kb > 0" "UsedKb st + kb > TotalKb st" "st' = st" "m' = m"
      "r = Inl DOS_XMS_ERROR_OUT_OF_MEMORY"
    | (handles) "xms.lowest (Handles st) = DOS_XMS_MAX_HANDLES" "st' = st" "m' = m"
      "r = Inl DOS_XMS_ERROR_NO_HANDLES" "\<not> (kb > 0 \<and> UsedKb st + kb > TotalKb st)"
    | (store) "kb > 0" "call_allocate st m kb = (st', m', 0)" "r = Inl DOS_XMS_ERROR_OUT_OF_MEMORY"
      "\<not> (kb > 0 \<and> UsedKb st + kb > TotalKb st)" "xms.lowest (Handles st) < DOS_XMS_MAX_HANDLES"
    | (granted) st1 p where "\<not> (kb > 0 \<and> UsedKb st + kb > TotalKb st)"
      "xms.lowest (Handles st) < DOS_XMS_MAX_HANDLES"
      "if kb > 0 then call_allocate st m kb = (st1, m', p) \<and> p \<noteq> 0 else st1 = st \<and> m' = m \<and> p = 0"
      "st' = st1\<lparr>Handles := xms_occupy (xms.lowest (Handles st)) (0, kb, p) (Handles st),
         UsedKb := UsedKb st + kb\<rparr>"
      "r = Inr (of_nat (xms.lowest (Handles st) + 1))"
proof -
  have low: "first_from (\<lambda>i. \<not> InUse (Handles st i)) 0 DOS_XMS_MAX_HANDLES = xms.lowest (Handles st)"
    by (simp add: xms_used_def)
  have lt: "xms.lowest (Handles st) \<noteq> DOS_XMS_MAX_HANDLES \<longleftrightarrow> xms.lowest (Handles st) < DOS_XMS_MAX_HANDLES"
    by (rule xms.lowest_some)
  show thesis
  proof (cases "kb > 0 \<and> UsedKb st + kb > TotalKb st")
    case True
    show thesis by (rule pool) (use True assms in \<open>simp_all add: DosXmsAllocate_def\<close>)
  next
    case a: False
    show thesis
    proof (cases "xms.lowest (Handles st) = DOS_XMS_MAX_HANDLES")
      case True
      have "DosXmsAllocate st m kb = (st, m, Inl DOS_XMS_ERROR_NO_HANDLES)"
        unfolding DosXmsAllocate_def low using a True by auto
      with assms a True show thesis by (intro handles) simp_all
    next
      case b: False
      obtain st1 m1 p where c: "call_allocate st m kb = (st1, m1, p)" by (cases "call_allocate st m kb") auto
      show thesis
      proof (cases "kb > 0")
        case True
        show thesis
        proof (cases "p = 0")
          case p: True
          with a b c True assms have "st' = st1" "m' = m1" "r = Inl DOS_XMS_ERROR_OUT_OF_MEMORY"
            unfolding DosXmsAllocate_def low by (simp_all add: Let_def)
          with True a b c lt p show thesis by (intro store) simp_all
        next
          case p: False
          have "DosXmsAllocate st m kb =
              (st1\<lparr>Handles := xms_occupy (xms.lowest (Handles st)) (0, kb, p) (Handles st),
                UsedKb := UsedKb st + kb\<rparr>, m1, Inr (of_nat (xms.lowest (Handles st) + 1)))"
            unfolding DosXmsAllocate_def low using a b c True p call_allocate_keeps [OF c]
            by (simp add: Let_def xms_occupy_def)
          with a b c True p assms lt show thesis by (intro granted [of st1 p]) simp_all
        qed
      next
        case zero: False
        have "DosXmsAllocate st m kb =
            (st\<lparr>Handles := xms_occupy (xms.lowest (Handles st)) (0, kb, 0) (Handles st),
              UsedKb := UsedKb st + kb\<rparr>, m, Inr (of_nat (xms.lowest (Handles st) + 1)))"
          unfolding DosXmsAllocate_def low using a b zero by (simp add: Let_def xms_occupy_def)
        with a b zero assms lt show thesis by (intro granted [of st 0]) simp_all
      qed
    qed
  qed
qed

lemma DosXmsFree_cases:
  assumes "DosXmsFree st m h = (st', m', r)"
  obtains (bad) "DosXmsGetHandle st h = None" "st' = st" "m' = m" "r = Inl DOS_XMS_ERROR_INVALID_HANDLE"
    | (locked) i where "DosXmsGetHandle st h = Some i" "LockCount (Handles st i) \<noteq> 0" "st' = st" "m' = m"
      "r = Inl DOS_XMS_ERROR_LOCKED"
    | (freed) i st1 where "DosXmsGetHandle st h = Some i" "LockCount (Handles st i) = 0"
      "call_free st m (Memory (Handles st i)) (SizeKb (Handles st i)) = (st1, m')"
      "st' = st1\<lparr>UsedKb := UsedKb st - SizeKb (Handles st i), Handles := xms_release i (Handles st)\<rparr>"
      "r = Inr ()"
proof (cases "DosXmsGetHandle st h")
  case None
  with assms show thesis by (intro bad) (simp_all add: DosXmsFree_def)
next
  case (Some i)
  show thesis
  proof (cases "LockCount (Handles st i) = 0")
    case False
    with Some assms show thesis by (intro locked [of i]) (simp_all add: DosXmsFree_def Let_def)
  next
    case True
    obtain st1 m1 where c: "call_free st m (Memory (Handles st i)) (SizeKb (Handles st i)) = (st1, m1)"
      by (cases "call_free st m (Memory (Handles st i)) (SizeKb (Handles st i))")
    have "DosXmsFree st m h = (st1\<lparr>UsedKb := UsedKb st - SizeKb (Handles st i),
        Handles := xms_release i (Handles st)\<rparr>, m1, Inr ())"
      unfolding DosXmsFree_def using Some True c call_free_keeps [OF c]
      by (simp add: Let_def xms_release_def)
    with Some True c assms show thesis by (intro freed [of i st1]) simp_all
  qed
qed

lemma DosXmsReallocate_cases:
  assumes "DosXmsReallocate st m h kb = (st', m', r)"
  obtains (bad) "DosXmsGetHandle st h = None" "st' = st" "m' = m" "r = Inl DOS_XMS_ERROR_INVALID_HANDLE"
    | (locked) i where "DosXmsGetHandle st h = Some i" "LockCount (Handles st i) \<noteq> 0" "st' = st" "m' = m"
      "r = Inl DOS_XMS_ERROR_LOCKED"
    | (same) i where "DosXmsGetHandle st h = Some i" "SizeKb (Handles st i) = kb" "st' = st" "m' = m" "r = Inr ()"
    | (pool) i where "DosXmsGetHandle st h = Some i" "kb > SizeKb (Handles st i)"
      "UsedKb st - SizeKb (Handles st i) + kb > TotalKb st" "st' = st" "m' = m"
      "r = Inl DOS_XMS_ERROR_OUT_OF_MEMORY"
    | (store) i where "DosXmsGetHandle st h = Some i" "kb > 0" "call_allocate st m kb = (st', m', 0)"
      "r = Inl DOS_XMS_ERROR_OUT_OF_MEMORY"
    | (resized) i st1 m1 p st2 where "DosXmsGetHandle st h = Some i" "LockCount (Handles st i) = 0"
      "kb \<noteq> SizeKb (Handles st i)"
      "kb > SizeKb (Handles st i) \<longrightarrow> UsedKb st - SizeKb (Handles st i) + kb \<le> TotalKb st"
      "if kb > 0 then call_allocate st m kb = (st1, m1, p) \<and> p \<noteq> 0 else st1 = st \<and> m1 = m \<and> p = 0"
      "call_free st1 (if kb > 0 then copy_up p (Memory (Handles st i))
          (unat ((if kb < SizeKb (Handles st i) then kb else SizeKb (Handles st i)) * 1024)) m1 else m1)
        (Memory (Handles st i)) (SizeKb (Handles st i)) = (st2, m')"
      "st' = st2\<lparr>UsedKb := UsedKb st - SizeKb (Handles st i) + kb,
         Handles := xms_occupy i (0, kb, p) (Handles st)\<rparr>" "r = Inr ()"
proof (cases "DosXmsGetHandle st h")
  case None
  with assms show thesis by (intro bad) (simp_all add: DosXmsReallocate_def)
next
  case (Some i)
  let ?old = "Handles st i"
  let ?k = "unat ((if kb < SizeKb ?old then kb else SizeKb ?old) * 1024)"
  have iu: "InUse ?old" using Some unfolding DosXmsGetHandle_Some by blast
  show thesis
  proof (cases "LockCount ?old \<noteq> 0 \<or> kb = SizeKb ?old")
    case True
    show thesis
    proof (cases "LockCount ?old = 0")
      case False
      with Some assms show thesis by (intro locked [of i]) (simp_all add: DosXmsReallocate_def Let_def)
    next
      case z: True
      with Some assms True show thesis by (intro same [of i]) (simp_all add: DosXmsReallocate_def Let_def)
    qed
  next
    case live: False
    show thesis
    proof (cases "kb > SizeKb ?old \<and> UsedKb st - SizeKb ?old + kb > TotalKb st")
      case True
      with Some assms live show thesis by (intro pool [of i]) (simp_all add: DosXmsReallocate_def Let_def)
    next
      case roomy: False
      obtain st1 m1 p where a: "(if kb > 0 then call_allocate st m kb else (st, m, 0)) = (st1, m1, p)"
        by (cases "if kb > 0 then call_allocate st m kb else (st, m, 0)") auto
      show thesis
      proof (cases "kb > 0 \<and> p = 0")
        case True
        with Some assms live roomy a show thesis
          by (intro store [of i]) (auto simp: DosXmsReallocate_def Let_def)
      next
        case ok: False
        let ?m2 = "if kb > 0 then copy_up p (Memory ?old) ?k m1 else m1"
        obtain st2 m3 where c: "call_free st1 ?m2 (Memory ?old) (SizeKb ?old) = (st2, m3)"
          by (cases "call_free st1 ?m2 (Memory ?old) (SizeKb ?old)")
        have keep: "Handles st2 = Handles st" "UsedKb st2 = UsedKb st"
          using a call_allocate_keeps [of st m kb st1 m1 p] call_free_keeps [OF c] by (auto split: if_splits)
        have old: "?old\<lparr>Memory := p, SizeKb := kb\<rparr> = \<lparr>InUse = True, LockCount = 0, SizeKb = kb, Memory = p\<rparr>"
          using iu live by simp
        have "DosXmsReallocate st m h kb = (st2\<lparr>UsedKb := UsedKb st - SizeKb ?old + kb,
            Handles := xms_occupy i (0, kb, p) (Handles st)\<rparr>, m3, Inr ())"
          unfolding DosXmsReallocate_def xms_occupy_def
          by (simp only: Some option.case Let_def a c keep old prod.case live simp_thms roomy ok if_True if_False fst_conv snd_conv
              split: if_split) (use live roomy ok in auto)
        with Some assms live roomy ok a c show thesis
          by (intro resized [of i st1 m1 p st2]) (auto simp: not_less split: if_splits)
      qed
    qed
  qed
qed

subsection \<open>The books balance\<close>

lemma books_used_le: "xms_books st \<Longrightarrow> i < DOS_XMS_MAX_HANDLES \<Longrightarrow> SizeKb (Handles st i) \<le> UsedKb st"
  using xms.weight_le_total [of i "Handles st"] by (simp add: xms_books_def xms_kb_def word_le_nat_alt)

lemma books_initial: "xms_books (DosXmsInitialize pool a f c)"
  by (simp add: xms_books_def DosXmsInitialize_def free_handle_def xms.total_def xms_kb_def)

lemma xms_books_cong:
  "Handles st' = Handles st \<Longrightarrow> UsedKb st' = UsedKb st \<Longrightarrow> TotalKb st' = TotalKb st \<Longrightarrow>
   xms_books st' = xms_books st"
  by (simp add: xms_books_def)

lemma books_allocate:
  assumes b: "xms_books st" and wrap: "unat (TotalKb st) + unat kb < 2 ^ 32"
    and call: "DosXmsAllocate st m kb = (st', m', r)"
  shows "xms_books st' \<and> TotalKb st' = TotalKb st"
  using call
proof (cases rule: DosXmsAllocate_cases)
  case store
  from call_allocate_keeps [OF store(2)] b show ?thesis using xms_books_cong by metis
next
  case (granted st1 p)
  let ?i = "xms.lowest (Handles st)"
  have keep: "TotalKb st1 = TotalKb st" using granted(3) call_allocate_keeps(3) by (auto split: if_splits)
  have used: "unat (UsedKb st + kb) = unat (UsedKb st) + unat kb" (is ?sum)
    and fits: "unat (UsedKb st) + unat kb \<le> unat (TotalKb st)"
  proof -
    have "unat (UsedKb st) + unat kb < 2 ^ 32" using b wrap by (simp add: xms_books_def)
    then show s: ?sum by (simp add: unat_word_ariths)
    show "unat (UsedKb st) + unat kb \<le> unat (TotalKb st)"
    proof (cases "kb = 0")
      case False
      then have "UsedKb st + kb \<le> TotalKb st" using granted(1) by (simp add: word_gt_0 not_less)
      then show ?thesis by (simp add: word_le_nat_alt s)
    qed (use b in \<open>simp add: xms_books_def\<close>)
  qed
  have free: "\<not> InUse (Handles st ?i)" using xms.lowest_free [OF granted(2)] by (simp add: xms_used_def)
  then have "Handles st ?i = free_handle" using b unfolding xms_books_def by blast
  then have "xms_kb (Handles st) ?i = 0" by (simp add: xms_kb_def free_handle_def)
  then have "xms.total (xms_occupy ?i (0, kb, p) (Handles st)) = unat (UsedKb st) + unat kb"
    using xms.total_occupy [OF granted(2), of "(0, kb, p)" "Handles st"] b by (simp add: xms_books_def)
  moreover have "p = 0 \<longleftrightarrow> kb = 0" using granted(3) by (auto simp: word_gt_0 split: if_splits)
  ultimately show ?thesis
    using b used fits keep granted(4) by (auto simp: xms_books_def xms_occupy_def)
qed (use b in simp_all)

lemma books_free:
  assumes b: "xms_books st" and call: "DosXmsFree st m h = (st', m', r)"
  shows "xms_books st' \<and> TotalKb st' = TotalKb st"
  using call
proof (cases rule: DosXmsFree_cases)
  case (freed i st1)
  from freed(1) have i: "i < DOS_XMS_MAX_HANDLES" unfolding DosXmsGetHandle_Some by blast
  have "unat (UsedKb st - SizeKb (Handles st i)) = unat (UsedKb st) - unat (SizeKb (Handles st i))"
    by (rule unat_sub) (rule books_used_le [OF b i])
  moreover have "xms.total (xms_release i (Handles st)) + unat (SizeKb (Handles st i)) = unat (UsedKb st)"
    using xms.total_release [OF i, of "Handles st"] b by (simp add: xms_books_def xms_kb_def)
  ultimately show ?thesis
    using b freed(4) call_free_keeps [OF freed(3)]
    by (auto simp: xms_books_def xms_release_def free_handle_def)
qed (use b in simp_all)

lemma books_reallocate:
  assumes b: "xms_books st" and wrap: "unat (TotalKb st) + unat kb < 2 ^ 32"
    and call: "DosXmsReallocate st m h kb = (st', m', r)"
  shows "xms_books st' \<and> TotalKb st' = TotalKb st"
  using call
proof (cases rule: DosXmsReallocate_cases)
  case (store i)
  from call_allocate_keeps [OF store(3)] b show ?thesis using xms_books_cong by metis
next
  case (resized i st1 m1 p st2)
  let ?old = "SizeKb (Handles st i)"
  from resized(1) have i: "i < DOS_XMS_MAX_HANDLES" and iu: "InUse (Handles st i)"
    unfolding DosXmsGetHandle_Some by blast+
  have keep: "TotalKb st2 = TotalKb st"
    using resized(5) call_allocate_keeps(3) call_free_keeps(3) [OF resized(6)] by (auto split: if_splits)
  have le: "?old \<le> UsedKb st" by (rule books_used_le [OF b i])
  then have sub: "unat (UsedKb st - ?old) = unat (UsedKb st) - unat ?old" by (rule unat_sub)
  have used_le: "unat (UsedKb st) \<le> unat (TotalKb st)" using b by (simp add: xms_books_def)
  then have "unat (UsedKb st - ?old) + unat kb < 2 ^ 32" using wrap sub by simp
  then have sum: "unat (UsedKb st - ?old + kb) = unat (UsedKb st) - unat ?old + unat kb"
    by (simp add: unat_word_ariths sub)
  have fits: "unat (UsedKb st - ?old + kb) \<le> unat (TotalKb st)"
  proof (cases "kb > ?old")
    case True
    with resized(4) show ?thesis by (simp add: word_le_nat_alt)
  next
    case False
    then have "unat kb \<le> unat ?old" by (simp add: word_le_nat_alt not_less)
    with sum used_le le show ?thesis by (simp add: word_le_nat_alt)
  qed
  have "xms.total (xms_occupy i (0, kb, p) (Handles st)) + unat ?old = unat (UsedKb st) + unat kb"
    using xms.total_occupy [OF i, of "(0, kb, p)" "Handles st"] b by (simp add: xms_books_def xms_kb_def)
  then have "xms.total (xms_occupy i (0, kb, p) (Handles st)) = unat (UsedKb st - ?old + kb)"
    using sum le by (simp add: word_le_nat_alt)
  moreover have "p = 0 \<longleftrightarrow> kb = 0" using resized(5) by (auto simp: word_gt_0 split: if_splits)
  ultimately show ?thesis
    using b fits keep resized(7) iu by (auto simp: xms_books_def xms_occupy_def)
qed (use b in simp_all)

lemma lock_table_cong:
  assumes "Handles st' = (Handles st)(i := (Handles st i)\<lparr>LockCount := c\<rparr>)" "InUse (Handles st i)"
    "UsedKb st' = UsedKb st" "TotalKb st' = TotalKb st"
  shows "xms_books st' = xms_books st"
proof -
  have "xms.total (Handles st') = xms.total (Handles st)"
    unfolding xms.total_def by (rule sum.cong) (auto simp: assms(1) xms_kb_def)
  with assms show ?thesis by (auto simp: xms_books_def)
qed

lemma books_lock:
  assumes "xms_books st"
  shows "xms_books (fst (DosXmsLock st h)) \<and> TotalKb (fst (DosXmsLock st h)) = TotalKb st"
proof (cases "DosXmsGetHandle st h")
  case (Some i)
  then have "InUse (Handles st i)" unfolding DosXmsGetHandle_Some by blast
  with assms Some show ?thesis
    by (simp add: DosXmsLock_def Let_def lock_table_cong [where st = st and i = i])
qed (use assms in \<open>simp add: DosXmsLock_def\<close>)

lemma books_unlock:
  assumes "xms_books st"
  shows "xms_books (fst (DosXmsUnlock st h)) \<and> TotalKb (fst (DosXmsUnlock st h)) = TotalKb st"
proof (cases "DosXmsGetHandle st h")
  case (Some i)
  then have "InUse (Handles st i)" unfolding DosXmsGetHandle_Some by blast
  with assms Some show ?thesis
    by (simp add: DosXmsUnlock_def Let_def lock_table_cong [where st = st and i = i])
qed (use assms in \<open>simp add: DosXmsUnlock_def\<close>)

subsection \<open>The buffers\<close>

definition block_of :: "'h dos_xms_state \<Rightarrow> nat \<Rightarrow> nat \<times> nat" where
  "block_of st i = (Memory (Handles st i), unat (SizeKb (Handles st i)) * 1024)"

definition xms_buffers :: "('h \<Rightarrow> (nat \<times> nat) set) \<Rightarrow> 'h dos_xms_state \<Rightarrow> bool" where
  "xms_buffers live st \<longleftrightarrow>
     (\<forall>i. Memory (Handles st i) \<noteq> 0 \<longrightarrow> block_of st i \<in> live (Context st)) \<and>
     (\<forall>i j. i \<noteq> j \<longrightarrow> Memory (Handles st i) \<noteq> 0 \<longrightarrow> Memory (Handles st j) \<noteq> 0 \<longrightarrow>
        range_free (Memory (Handles st i)) (unat (SizeKb (Handles st i)) * 1024)
          (Memory (Handles st j)) (unat (SizeKb (Handles st j)) * 1024))"

text \<open>The bytes of a block are what the client put there: \<open>same_block\<close> says they survived.\<close>

definition same_block :: "'h dos_xms_state \<Rightarrow> nat \<Rightarrow> mem \<Rightarrow> mem \<Rightarrow> bool" where
  "same_block st j m m' \<longleftrightarrow>
     (\<forall>a. Memory (Handles st j) \<le> a \<and> a < Memory (Handles st j) + unat (SizeKb (Handles st j)) * 1024 \<longrightarrow>
        m' a = m a)"

lemma store_allocate:
  assumes s: "backing_store A F live" "Allocate st = Some A"
    and c: "call_allocate st m kb = (st1, m1, p)" and kb: "kb > 0" and p: "p \<noteq> 0"
  shows "live (Context st1) = insert (p, unat kb * 1024) (live (Context st))"
    and "\<And>q n. (q, n) \<in> live (Context st) \<Longrightarrow> range_free p (unat kb * 1024) q n"
    and "\<And>a. m1 a = (if p \<le> a \<and> a < p + unat kb * 1024 then 0 else m a)"
proof -
  obtain h where a: "A (Context st) m kb = (h, m1, p)" and st1: "st1 = st\<lparr>Context := h\<rparr>"
    using s(2) c by (cases "A (Context st) m kb") (auto simp: call_allocate_def)
  show "live (Context st1) = insert (p, unat kb * 1024) (live (Context st))"
    "\<And>q n. (q, n) \<in> live (Context st) \<Longrightarrow> range_free p (unat kb * 1024) q n"
    "\<And>a. m1 a = (if p \<le> a \<and> a < p + unat kb * 1024 then 0 else m a)"
    using unit_store_allocate [OF s(1) a kb p] by (simp_all add: st1)
qed

lemma store_refuses:
  assumes s: "backing_store A F live" "Allocate st = Some A"
    and c: "call_allocate st m kb = (st1, m1, 0)" and kb: "kb > 0"
  shows "live (Context st1) = live (Context st) \<and> m1 = m"
proof -
  obtain h where a: "A (Context st) m kb = (h, m1, 0)" and st1: "st1 = st\<lparr>Context := h\<rparr>"
    using s(2) c by (cases "A (Context st) m kb") (auto simp: call_allocate_def)
  from unit_store_refuses [OF s(1) a kb] show ?thesis by (simp add: st1)
qed

lemma store_free:
  assumes s: "backing_store A F live" "Free st = Some F" and c: "call_free st m p kb = (st1, m1)"
    and live: "p \<noteq> 0 \<Longrightarrow> (p, unat kb * 1024) \<in> live (Context st)"
  shows "live (Context st1) = (if p = 0 then live (Context st) else live (Context st) - {(p, unat kb * 1024)})"
    and "p = 0 \<Longrightarrow> m1 = m"
    and "\<And>a. a < p \<or> p + unat kb * 1024 \<le> a \<Longrightarrow> p \<noteq> 0 \<Longrightarrow> m1 a = m a"
proof -
  have "p \<noteq> 0 \<Longrightarrow> \<exists>h. F (Context st) m p kb = (h, m1) \<and> st1 = st\<lparr>Context := h\<rparr>"
    using s(2) c by (cases "F (Context st) m p kb") (auto simp: call_free_def)
  moreover have "live h = live (Context st) - {(p, unat kb * 1024)} \<and>
      (\<forall>a. a < p \<or> p + unat kb * 1024 \<le> a \<longrightarrow> m1 a = m a)"
    if "F (Context st) m p kb = (h, m1)" "p \<noteq> 0" for h
    using s(1) that live unfolding unit_store_def by blast
  moreover have "p = 0 \<Longrightarrow> st1 = st \<and> m1 = m" using s(2) c by (simp add: call_free_def)
  ultimately show "live (Context st1) = (if p = 0 then live (Context st) else live (Context st) - {(p, unat kb * 1024)})"
    "p = 0 \<Longrightarrow> m1 = m"
    "\<And>a. a < p \<or> p + unat kb * 1024 \<le> a \<Longrightarrow> p \<noteq> 0 \<Longrightarrow> m1 a = m a"
    by (auto split: if_splits)
qed

lemma size_nonzero: "xms_books st \<Longrightarrow> Memory (Handles st i) \<noteq> 0 \<Longrightarrow> 0 < unat (SizeKb (Handles st i))"
  by (metis gr0I unat_eq_zero xms_books_def)

lemma other_block_apart:
  assumes "xms_buffers live st" "i \<noteq> j" "Memory (Handles st i) \<noteq> 0" "Memory (Handles st j) \<noteq> 0"
    "Memory (Handles st j) \<le> a" "a < Memory (Handles st j) + unat (SizeKb (Handles st j)) * 1024"
  shows "a < Memory (Handles st i) \<or> Memory (Handles st i) + unat (SizeKb (Handles st i)) * 1024 \<le> a"
proof -
  have "range_free (Memory (Handles st i)) (unat (SizeKb (Handles st i)) * 1024)
      (Memory (Handles st j)) (unat (SizeKb (Handles st j)) * 1024)"
    using assms(1-4) unfolding xms_buffers_def by blast
  with assms(5,6) show ?thesis by (auto simp: range_free_def)
qed

lemma blocks_differ:
  assumes "xms_books st" "xms_buffers live st" "i \<noteq> j" "Memory (Handles st i) \<noteq> 0" "Memory (Handles st j) \<noteq> 0"
  shows "block_of st i \<noteq> block_of st j"
proof -
  have "range_free (Memory (Handles st i)) (unat (SizeKb (Handles st i)) * 1024)
      (Memory (Handles st j)) (unat (SizeKb (Handles st j)) * 1024)"
    using assms unfolding xms_buffers_def by blast
  with size_nonzero [OF assms(1,4)] size_nonzero [OF assms(1,5)] show ?thesis
    by (auto simp: range_free_def block_of_def)
qed

lemma xms_buffersI:
  assumes "\<And>i. Memory (Handles st i) \<noteq> 0 \<Longrightarrow> block_of st i \<in> live (Context st)"
    and "\<And>i j. i < j \<Longrightarrow> Memory (Handles st i) \<noteq> 0 \<Longrightarrow> Memory (Handles st j) \<noteq> 0 \<Longrightarrow>
        range_free (Memory (Handles st i)) (unat (SizeKb (Handles st i)) * 1024)
          (Memory (Handles st j)) (unat (SizeKb (Handles st j)) * 1024)"
  shows "xms_buffers live st"
  unfolding xms_buffers_def using assms range_free_sym by (metis linorder_neqE_nat)

text \<open>Giving slot \<open>k\<close> a new buffer \<open>p\<close> apart from every live range.\<close>

lemma buffers_occupy:
  assumes b: "xms_buffers live st" and h: "Handles st' = xms_occupy k (c, kb, p) (Handles st)"
    and fresh: "p \<noteq> 0 \<Longrightarrow> (p, unat kb * 1024) \<in> live (Context st')"
    and others: "\<And>i. i \<noteq> k \<Longrightarrow> Memory (Handles st i) \<noteq> 0 \<Longrightarrow> block_of st i \<in> live (Context st')"
    and apart: "\<And>i. i \<noteq> k \<Longrightarrow> Memory (Handles st i) \<noteq> 0 \<Longrightarrow> p \<noteq> 0 \<Longrightarrow>
      range_free p (unat kb * 1024) (Memory (Handles st i)) (unat (SizeKb (Handles st i)) * 1024)"
  shows "xms_buffers live st'"
proof (rule xms_buffersI)
  have old: "Handles st' i = Handles st i" if "i \<noteq> k" for i using that h by (simp add: xms_occupy_def)
  have new: "Memory (Handles st' k) = p" "SizeKb (Handles st' k) = kb" using h by (simp_all add: xms_occupy_def)
  show "block_of st' i \<in> live (Context st')" if "Memory (Handles st' i) \<noteq> 0" for i
    using that fresh others [of i] by (cases "i = k") (auto simp: block_of_def new old)
  show "range_free (Memory (Handles st' i)) (unat (SizeKb (Handles st' i)) * 1024)
      (Memory (Handles st' j)) (unat (SizeKb (Handles st' j)) * 1024)"
    if "i < j" "Memory (Handles st' i) \<noteq> 0" "Memory (Handles st' j) \<noteq> 0" for i j
  proof (cases "i = k")
    case True
    with that apart [of j] show ?thesis by (simp add: new old)
  next
    case i: False
    show ?thesis
    proof (cases "j = k")
      case True
      with that i apart [of i] show ?thesis by (simp add: new old range_free_sym)
    next
      case False
      with that i b show ?thesis by (simp add: old xms_buffers_def)
    qed
  qed
qed

definition xms_ready ::
  "('h \<Rightarrow> (nat \<times> nat) set) \<Rightarrow> 'h dos_xms_state \<Rightarrow> bool" where
  \<comment> \<open>a manager whose books balance, on a store that keeps its promises\<close>
  "xms_ready live st \<longleftrightarrow> xms_books st \<and> xms_buffers live st \<and>
     (\<exists>A F. Allocate st = Some A \<and> Free st = Some F \<and> backing_store A F live)"

lemma allocate_grants:
  assumes r: "xms_ready live st" and wrap: "unat (TotalKb st) + unat kb < 2 ^ 32"
    and call: "DosXmsAllocate st m kb = (st', m', Inr h)"
  defines "i \<equiv> unat h - 1"
  shows "xms_ready live st'" and "h \<noteq> 0 \<and> i < DOS_XMS_MAX_HANDLES" and "\<not> InUse (Handles st i)"
    and "\<And>j. j < i \<Longrightarrow> InUse (Handles st j)" and "\<And>j. j \<noteq> i \<Longrightarrow> Handles st' j = Handles st j"
    and "InUse (Handles st' i) \<and> LockCount (Handles st' i) = 0 \<and> SizeKb (Handles st' i) = kb"
    and "\<And>j. j \<noteq> i \<Longrightarrow> same_block st j m m'"
    and "\<And>a. Memory (Handles st' i) \<le> a \<Longrightarrow> a < Memory (Handles st' i) + unat kb * 1024 \<Longrightarrow> m' a = 0"
proof -
  obtain A F where A: "Allocate st = Some A" "Free st = Some F" "backing_store A F live"
    and b: "xms_books st" "xms_buffers live st"
    using r unfolding xms_ready_def by blast
  let ?k = "xms.lowest (Handles st)"
  from call obtain st1 p where g: "\<not> (kb > 0 \<and> UsedKb st + kb > TotalKb st)" "?k < DOS_XMS_MAX_HANDLES"
    "if kb > 0 then call_allocate st m kb = (st1, m', p) \<and> p \<noteq> 0 else st1 = st \<and> m' = m \<and> p = 0"
    "st' = st1\<lparr>Handles := xms_occupy ?k (0, kb, p) (Handles st), UsedKb := UsedKb st + kb\<rparr>"
    "h = of_nat (?k + 1)"
    by (cases rule: DosXmsAllocate_cases) auto
  have "unat h = ?k + 1"
    unfolding g(5) by (rule unat_of_nat_small) (use g(2) in \<open>simp add: DOS_XMS_MAX_HANDLES_def\<close>)
  then have ik: "i = ?k" and h0: "h \<noteq> 0" by (auto simp: i_def)
  have hooks: "Allocate st1 = Allocate st" "Free st1 = Free st"
    using g(3) call_allocate_keeps(4,5) by (auto split: if_splits)
  have free: "Handles st i = free_handle"
    using xms.lowest_free [OF g(2)] b(1) ik by (simp add: xms_used_def xms_books_def)
  have mem: "Memory (Handles st j) \<noteq> 0 \<Longrightarrow> j \<noteq> i" for j using free by (auto simp: free_handle_def)
  have sa: "kb > 0 \<Longrightarrow> live (Context st1) = insert (p, unat kb * 1024) (live (Context st))"
    "\<And>q n. kb > 0 \<Longrightarrow> (q, n) \<in> live (Context st) \<Longrightarrow> range_free p (unat kb * 1024) q n"
    "\<And>a. kb > 0 \<Longrightarrow> m' a = (if p \<le> a \<and> a < p + unat kb * 1024 then 0 else m a)"
    using g(3) store_allocate [OF A(3,1), of m kb st1 m' p] by (auto split: if_splits)
  have apart: "range_free p (unat kb * 1024) (Memory (Handles st j)) (unat (SizeKb (Handles st j)) * 1024)"
    if "Memory (Handles st j) \<noteq> 0" "kb > 0" for j
    using sa(2) [OF that(2)] b(2) that(1) by (auto simp: xms_buffers_def block_of_def)
  have pz: "p \<noteq> 0 \<longleftrightarrow> kb > 0" using g(3) by (auto split: if_splits)
  have H: "Handles st' = xms_occupy i (0, kb, p) (Handles st)" and C: "Context st' = Context st1"
    using g(4) ik by simp_all
  have "block_of st j \<in> live (Context st1)" if "Memory (Handles st j) \<noteq> 0" for j
    using that b(2) g(3) sa(1) by (cases "kb > 0") (auto simp: xms_buffers_def)
  then have "xms_buffers live st'"
    by (intro buffers_occupy [OF b(2) H]) (use pz sa(1) apart C in auto)
  moreover have "xms_books st'" using books_allocate [OF b(1) wrap call] by blast
  ultimately show "xms_ready live st'" using A hooks g(4) unfolding xms_ready_def by simp
  show "h \<noteq> 0 \<and> i < DOS_XMS_MAX_HANDLES" using h0 ik g(2) by simp
  show "\<not> InUse (Handles st i)" using free by (simp add: free_handle_def)
  show "InUse (Handles st j)" if "j < i" for j
    using xms.lowest_least [of j "Handles st"] that ik by (simp add: xms_used_def)
  show "Handles st' j = Handles st j" if "j \<noteq> i" for j using that H by (simp add: xms_occupy_def)
  show "InUse (Handles st' i) \<and> LockCount (Handles st' i) = 0 \<and> SizeKb (Handles st' i) = kb"
    using H by (simp add: xms_occupy_def)
  show "same_block st j m m'" if "j \<noteq> i" for j
  proof (cases "Memory (Handles st j) = 0")
    case True
    with b(1) have "SizeKb (Handles st j) = 0" by (simp add: xms_books_def)
    then show ?thesis by (auto simp: same_block_def)
  next
    case False
    show ?thesis
    proof (cases "kb > 0")
      case True
      with apart [OF False True] sa(3) [OF True] show ?thesis by (auto simp: same_block_def range_free_def)
    qed (use g(3) in \<open>simp add: same_block_def\<close>)
  qed
  show "m' a = 0" if "Memory (Handles st' i) \<le> a" "a < Memory (Handles st' i) + unat kb * 1024" for a
  proof -
    have "kb > 0" using that by (auto simp: word_gt_0)
    with sa(3) [OF this] that H show ?thesis by (simp add: xms_occupy_def)
  qed
qed

lemma free_releases:
  assumes r: "xms_ready live st" and call: "DosXmsFree st m h = (st', m', Inr u)"
  defines "i \<equiv> unat h - 1"
  shows "xms_ready live st'" and "Handles st' = (Handles st)(i := free_handle)"
    and "\<And>j. j \<noteq> i \<Longrightarrow> same_block st j m m'"
    and "LockCount (Handles st i) = 0 \<and> InUse (Handles st i) \<and> i < DOS_XMS_MAX_HANDLES \<and> h \<noteq> 0"
proof -
  obtain A F where A: "Allocate st = Some A" "Free st = Some F" "backing_store A F live"
    and b: "xms_books st" "xms_buffers live st"
    using r unfolding xms_ready_def by blast
  from call obtain st1 where g: "DosXmsGetHandle st h = Some i" "LockCount (Handles st i) = 0"
    "call_free st m (Memory (Handles st i)) (SizeKb (Handles st i)) = (st1, m')"
    "st' = st1\<lparr>UsedKb := UsedKb st - SizeKb (Handles st i), Handles := xms_release i (Handles st)\<rparr>"
    by (cases rule: DosXmsFree_cases) (auto simp: DosXmsGetHandle_Some i_def)
  note sf = store_free [OF A(3,2) g(3)]
  have live_i: "Memory (Handles st i) \<noteq> 0 \<Longrightarrow>
      (Memory (Handles st i), unat (SizeKb (Handles st i)) * 1024) \<in> live (Context st)"
    using b(2) by (auto simp: xms_buffers_def block_of_def)
  show H: "Handles st' = (Handles st)(i := free_handle)" using g(4) by (simp add: xms_release_def)
  have old: "Handles st' j = Handles st j" if "Memory (Handles st' j) \<noteq> 0" for j
    using that H by (cases "j = i") (auto simp: free_handle_def)
  have ne: "j \<noteq> i" if "Memory (Handles st' j) \<noteq> 0" for j using that H by (auto simp: free_handle_def)
  have "block_of st' j \<in> live (Context st')" if nz: "Memory (Handles st' j) \<noteq> 0" for j
  proof -
    have "block_of st j \<in> live (Context st)" using b(2) nz old [OF nz] by (simp add: xms_buffers_def)
    moreover have "Memory (Handles st i) \<noteq> 0 \<Longrightarrow> block_of st j \<noteq> block_of st i"
      using blocks_differ [OF b ne [OF nz]] nz old [OF nz] by simp
    ultimately show ?thesis using sf(1) live_i g(4) old [OF nz] by (auto simp: block_of_def)
  qed
  moreover have "range_free (Memory (Handles st' k)) (unat (SizeKb (Handles st' k)) * 1024)
      (Memory (Handles st' j)) (unat (SizeKb (Handles st' j)) * 1024)"
    if "k < j" "Memory (Handles st' k) \<noteq> 0" "Memory (Handles st' j) \<noteq> 0" for k j
    using that b(2) old [OF that(2)] old [OF that(3)] by (simp add: xms_buffers_def)
  ultimately have "xms_buffers live st'" by (intro xms_buffersI) auto
  moreover have "xms_books st'" using books_free [OF b(1) call] by blast
  moreover have "Allocate st' = Allocate st" "Free st' = Free st"
    using call_free_keeps(4,5) [OF g(3)] g(4) by simp_all
  ultimately show "xms_ready live st'" using A unfolding xms_ready_def by simp
  show "same_block st j m m'" if "j \<noteq> i" for j
  proof (cases "Memory (Handles st j) = 0 \<or> Memory (Handles st i) = 0")
    case True
    with b(1) sf(2) [OF live_i] show ?thesis by (auto simp: xms_books_def same_block_def)
  next
    case False
    with sf(3) [OF live_i] other_block_apart [OF b(2), of i j] that show ?thesis
      unfolding same_block_def by auto
  qed
  show "LockCount (Handles st i) = 0 \<and> InUse (Handles st i) \<and> i < DOS_XMS_MAX_HANDLES \<and> h \<noteq> 0"
    using g(1,2) unfolding DosXmsGetHandle_Some by blast
qed

lemma kb_bytes:
  fixes k :: u32
  assumes "unat k < 2 ^ 22"
  shows "unat (k * 1024) = unat k * 1024"
  using assms by (simp add: unat_word_ariths)

text \<open>The data path of a reallocation: allocate, copy, release.\<close>

lemma reallocate_data:
  assumes r: "xms_books st" "xms_buffers live st" and A: "Allocate st = Some A" "Free st = Some F" "backing_store A F live"
    and i: "InUse (Handles st i)" and big: "unat (SizeKb (Handles st i)) < 2 ^ 22"
    and alloc: "if kb > 0 then call_allocate st m kb = (st1, m1, p) \<and> p \<noteq> 0 else st1 = st \<and> m1 = m \<and> p = 0"
    and rel: "call_free st1 (if kb > 0 then copy_up p (Memory (Handles st i))
          (unat ((if kb < SizeKb (Handles st i) then kb else SizeKb (Handles st i)) * 1024)) m1 else m1)
        (Memory (Handles st i)) (SizeKb (Handles st i)) = (st2, m')"
  shows "p \<noteq> 0 \<Longrightarrow> (p, unat kb * 1024) \<in> live (Context st2)"
    and "\<And>j. j \<noteq> i \<Longrightarrow> Memory (Handles st j) \<noteq> 0 \<Longrightarrow> block_of st j \<in> live (Context st2)"
    and "\<And>j. Memory (Handles st j) \<noteq> 0 \<Longrightarrow> p \<noteq> 0 \<Longrightarrow>
      range_free p (unat kb * 1024) (Memory (Handles st j)) (unat (SizeKb (Handles st j)) * 1024)"
    and "\<And>j. j \<noteq> i \<Longrightarrow> same_block st j m m'"
    and "\<And>a. a < 1024 * min (unat kb) (unat (SizeKb (Handles st i))) \<Longrightarrow>
      m' (p + a) = m (Memory (Handles st i) + a)"
proof -
  let ?old = "Memory (Handles st i)" and ?size = "unat (SizeKb (Handles st i))"
  define k where "k = 1024 * min (unat kb) ?size"
  define m2 where "m2 = (if kb > 0 then copy_up p ?old k m1 else m1)"
  have pz: "p \<noteq> 0 \<longleftrightarrow> kb > 0" using alloc by (auto split: if_splits)
  have k: "unat ((if kb < SizeKb (Handles st i) then kb else SizeKb (Handles st i)) * 1024) = k"
    using big by (auto simp: k_def kb_bytes word_less_nat_alt min_def)
  have rel': "call_free st1 m2 ?old (SizeKb (Handles st i)) = (st2, m')"
    using rel unfolding m2_def k .
  have hooks: "Free st1 = Some F" using alloc A(2) call_allocate_keeps(5) [of st m kb st1 m1 p] by (auto split: if_splits)
  have sa: "kb > 0 \<Longrightarrow> live (Context st1) = insert (p, unat kb * 1024) (live (Context st))"
    "\<And>q n. kb > 0 \<Longrightarrow> (q, n) \<in> live (Context st) \<Longrightarrow> range_free p (unat kb * 1024) q n"
    "\<And>a. kb > 0 \<Longrightarrow> m1 a = (if p \<le> a \<and> a < p + unat kb * 1024 then 0 else m a)"
    using alloc store_allocate [OF A(3,1), of m kb st1 m1 p] by (auto split: if_splits)
  have live1: "live (Context st) \<subseteq> live (Context st1)"
    using sa(1) alloc by (cases "kb > 0") auto
  have blk: "(Memory (Handles st j), unat (SizeKb (Handles st j)) * 1024) \<in> live (Context st)"
    if "Memory (Handles st j) \<noteq> 0" for j
    using that r(2) by (auto simp: xms_buffers_def block_of_def)
  show apart: "range_free p (unat kb * 1024) (Memory (Handles st j)) (unat (SizeKb (Handles st j)) * 1024)"
    if "Memory (Handles st j) \<noteq> 0" "p \<noteq> 0" for j
    using sa(2) [OF _ blk [OF that(1)]] that(2) pz by simp
  have old0: "?old = 0 \<Longrightarrow> ?size = 0" using r(1) by (auto simp: xms_books_def)
  have size: "?old \<noteq> 0 \<Longrightarrow> 0 < ?size" by (rule size_nonzero [OF r(1)])
  note sf = store_free [OF A(3) hooks rel']
  have lv: "?old \<noteq> 0 \<Longrightarrow> (?old, ?size * 1024) \<in> live (Context st1)" using blk [of i] live1 by blast
  show "(p, unat kb * 1024) \<in> live (Context st2)" if p: "p \<noteq> 0"
  proof -
    have "?old \<noteq> 0 \<Longrightarrow> (p, unat kb * 1024) \<noteq> (?old, ?size * 1024)"
      using apart [of i] p size by (auto simp: range_free_def)
    then show ?thesis using sf(1) lv sa(1) p pz by auto
  qed
  show "block_of st j \<in> live (Context st2)" if "j \<noteq> i" "Memory (Handles st j) \<noteq> 0" for j
    using blocks_differ [OF r, of j i] that sf(1) lv blk [of j] live1 by (auto simp: block_of_def)
  have copy: "m2 = mem_copied p ?old k m1" if "kb > 0"
  proof (cases "?old = 0")
    case True
    then have "k = 0" using old0 by (simp add: k_def)
    then show ?thesis using that by (auto simp: m2_def mem_copied_def fun_eq_iff)
  next
    case False
    have "p \<le> ?old \<or> ?old + k \<le> p" using apart [OF False] that pz by (auto simp: range_free_def k_def)
    then show ?thesis using that by (simp add: m2_def copy_up_correct)
  qed
  show "same_block st j m m'" if j: "j \<noteq> i" for j
    unfolding same_block_def
  proof (intro allI impI, elim conjE)
    fix a assume a: "Memory (Handles st j) \<le> a" "a < Memory (Handles st j) + unat (SizeKb (Handles st j)) * 1024"
    then have nz: "Memory (Handles st j) \<noteq> 0" using r(1) by (auto simp: xms_books_def)
    have out: "p \<noteq> 0 \<Longrightarrow> a < p \<or> p + unat kb * 1024 \<le> a" using apart [OF nz] a by (auto simp: range_free_def)
    have "m2 a = m a"
    proof (cases "kb > 0")
      case True
      then have "m2 a = m1 a" using out pz copy by (auto simp: mem_copied_def k_def)
      with True out pz sa(3) show ?thesis by auto
    qed (use alloc in \<open>simp add: m2_def\<close>)
    moreover have "m' a = m2 a"
      using sf(2) [OF lv] sf(3) [OF lv] other_block_apart [OF r(2), of i j a] j nz a by (cases "?old = 0") auto
    ultimately show "m' a = m a" by simp
  qed
  show "m' (p + a) = m (?old + a)" if a: "a < 1024 * min (unat kb) ?size" for a
  proof -
    have "unat kb \<noteq> 0" "?size \<noteq> 0" using a by auto
    then have kb: "kb > 0" and nz: "?old \<noteq> 0" using old0 by (auto simp: word_gt_0)
    have lt: "a < unat kb * 1024" "a < ?size * 1024" using a by (auto simp: min_def split: if_splits)
    have rf: "range_free p (unat kb * 1024) ?old (?size * 1024)" using apart [OF nz] kb pz by blast
    have "m2 (p + a) = m1 (?old + a)" using copy [OF kb] a by (simp add: k_def mem_facts)
    also have "\<dots> = m (?old + a)" using sa(3) [OF kb] rf a by (auto simp: range_free_def)
    finally show ?thesis using sf(3) [OF lv, of "p + a"] nz rf lt by (auto simp: range_free_def)
  qed
qed

lemma reallocate_resizes:
  assumes r: "xms_ready live st" and pool: "unat (TotalKb st) < 2 ^ 22" "unat kb < 2 ^ 31"
    and call: "DosXmsReallocate st m h kb = (st', m', Inr u)"
  defines "i \<equiv> unat h - 1"
  shows "xms_ready live st'" and "\<And>j. j \<noteq> i \<Longrightarrow> Handles st' j = Handles st j"
    and "SizeKb (Handles st' i) = kb"
    and "\<And>j. j \<noteq> i \<Longrightarrow> same_block st j m m'"
    and "\<And>a. a < 1024 * min (unat kb) (unat (SizeKb (Handles st i))) \<Longrightarrow>
      m' (Memory (Handles st' i) + a) = m (Memory (Handles st i) + a)"
proof -
  obtain A F where A: "Allocate st = Some A" "Free st = Some F" "backing_store A F live"
    and b: "xms_books st" "xms_buffers live st"
    using r unfolding xms_ready_def by blast
  have "xms_ready live st' \<and> (\<forall>j. j \<noteq> i \<longrightarrow> Handles st' j = Handles st j \<and> same_block st j m m') \<and>
    SizeKb (Handles st' i) = kb \<and>
    (\<forall>a. a < 1024 * min (unat kb) (unat (SizeKb (Handles st i))) \<longrightarrow>
      m' (Memory (Handles st' i) + a) = m (Memory (Handles st i) + a))"
    using call
  proof (cases rule: DosXmsReallocate_cases)
    case (same i')
    then have "i' = i" unfolding DosXmsGetHandle_Some i_def by blast
    with same r show ?thesis by (simp add: same_block_def)
  next
    case (resized i' st1 m1 p st2)
    then have ii: "i' = i" and iu: "InUse (Handles st i)" and lt: "i < DOS_XMS_MAX_HANDLES"
      unfolding DosXmsGetHandle_Some i_def by blast+
    have "unat (SizeKb (Handles st i)) \<le> unat (TotalKb st)"
      using xms.weight_le_total [OF lt, of "Handles st"] b(1) by (simp add: xms_books_def xms_kb_def)
    then have big: "unat (SizeKb (Handles st i)) < 2 ^ 22" using pool(1) by simp
    note d = reallocate_data [OF b A iu big resized(5) resized(6) [unfolded ii]]
    have H: "Handles st' = xms_occupy i (0, kb, p) (Handles st)" and C: "Context st' = Context st2"
      using resized(7) ii by simp_all
    have hooks: "Allocate st2 = Allocate st" "Free st2 = Free st"
      using resized(5) call_allocate_keeps(4,5) [of st m kb st1 m1 p] call_free_keeps(4,5) [OF resized(6)] by (auto split: if_splits)
    have "xms_buffers live st'"
      by (rule buffers_occupy [OF b(2) H]) (use d(1-3) C in auto)
    moreover have "xms_books st'"
    proof -
      have "unat (TotalKb st) + unat kb < 2 ^ 32" using pool by simp
      from books_reallocate [OF b(1) this call] show ?thesis by blast
    qed
    ultimately have "xms_ready live st'" using A hooks resized(7) unfolding xms_ready_def by simp
    with d(4,5) H show ?thesis by (simp add: xms_occupy_def)
  qed simp_all
  then show "xms_ready live st'" "\<And>j. j \<noteq> i \<Longrightarrow> Handles st' j = Handles st j"
    "SizeKb (Handles st' i) = kb" "\<And>j. j \<noteq> i \<Longrightarrow> same_block st j m m'"
    "\<And>a. a < 1024 * min (unat kb) (unat (SizeKb (Handles st i))) \<Longrightarrow>
      m' (Memory (Handles st' i) + a) = m (Memory (Handles st i) + a)"
    by blast+
qed

subsection \<open>Allocation, reallocation and release\<close>

text \<open>
  Allocating extended memory. On a manager whose books balance, a granted allocation takes
  the lowest free handle, gives it a zeroed block of the asked size unlocked, leaves every
  other handle and every byte of every other block as they were, and the books balance again;
  a refused one leaves the table as it was, with the no-handles code only when all 64 handles
  are in use.
\<close>

theorem xms_allocate_contract:
  assumes "xms_ready live st" "unat (TotalKb st) + unat kb < 2 ^ 32"
    and "DosXmsAllocate st m kb = (st', m', r)"
  shows "case r of
     Inr h \<Rightarrow> xms_ready live st' \<and> DosXmsGetHandle st h = None \<and> DosXmsGetHandle st' h = Some (unat h - 1) \<and>
       (\<forall>j<unat h - 1. InUse (Handles st j)) \<and>
       SizeKb (Handles st' (unat h - 1)) = kb \<and> LockCount (Handles st' (unat h - 1)) = 0 \<and>
       (\<forall>j. j \<noteq> unat h - 1 \<longrightarrow> Handles st' j = Handles st j \<and> same_block st j m m') \<and>
       (\<forall>a < unat kb * 1024. m' (Memory (Handles st' (unat h - 1)) + a) = 0)
   | Inl e \<Rightarrow> Handles st' = Handles st \<and> UsedKb st' = UsedKb st \<and>
       (e = DOS_XMS_ERROR_NO_HANDLES \<or> e = DOS_XMS_ERROR_OUT_OF_MEMORY) \<and>
       (e = DOS_XMS_ERROR_NO_HANDLES \<longrightarrow> (\<forall>j<DOS_XMS_MAX_HANDLES. InUse (Handles st j)))"
proof (cases r)
  case (Inr h)
  note g = allocate_grants [OF assms(1,2) assms(3) [unfolded Inr]]
  have "DosXmsGetHandle st h = None"
    using g(3) by (cases "DosXmsGetHandle st h") (auto simp: DosXmsGetHandle_Some)
  moreover have "DosXmsGetHandle st' h = Some (unat h - 1)"
    unfolding DosXmsGetHandle_Some using g(2,6) by blast
  ultimately show ?thesis using Inr g by simp
next
  case (Inl e)
  have err: "DOS_XMS_ERROR_OUT_OF_MEMORY \<noteq> DOS_XMS_ERROR_NO_HANDLES"
    by (simp add: DOS_XMS_ERROR_OUT_OF_MEMORY_def DOS_XMS_ERROR_NO_HANDLES_def)
  from assms(3) show ?thesis
  proof (cases rule: DosXmsAllocate_cases)
    case handles
    then have "\<forall>j<DOS_XMS_MAX_HANDLES. xms_used (Handles st) j" using xms.lowest_full by blast
    with handles Inl show ?thesis by (simp add: xms_used_def)
  next
    case store
    with Inl err call_allocate_keeps [OF store(2)] show ?thesis by simp
  qed (use Inl err in simp_all)
qed

text \<open>
  Reallocating extended memory. A reallocation that succeeds keeps the first bytes of the
  block, as many as the smaller of the old and the new size, under the same handle number with
  the new size, and leaves every other handle and every byte of every other block as they
  were; afterwards the books balance and the buffers are again disjoint live ranges.
\<close>

theorem xms_reallocate_preserves:
  assumes "xms_ready live st" "unat (TotalKb st) < 2 ^ 22" "unat kb < 2 ^ 31"
    and "DosXmsReallocate st m h kb = (st', m', Inr ())"
  defines "i \<equiv> unat h - 1"
  shows "xms_ready live st' \<and> SizeKb (Handles st' i) = kb \<and>
    (\<forall>a < 1024 * min (unat kb) (unat (SizeKb (Handles st i))).
       m' (Memory (Handles st' i) + a) = m (Memory (Handles st i) + a)) \<and>
    (\<forall>j. j \<noteq> i \<longrightarrow> Handles st' j = Handles st j \<and> same_block st j m m')"
  using reallocate_resizes [OF assms(1-4)] by (simp add: i_def)

text \<open>
  Releasing extended memory. A release that succeeds needs an unlocked block, blanks its
  handle and no other, touches no byte of another block, gives its kilobytes back to the pool
  and keeps the books.
\<close>

theorem xms_free_contract:
  assumes "xms_ready live st" "DosXmsFree st m h = (st', m', Inr ())"
  defines "i \<equiv> unat h - 1"
  shows "xms_ready live st' \<and> LockCount (Handles st i) = 0 \<and> DosXmsGetHandle st h = Some i \<and>
    DosXmsGetHandle st' h = None \<and> Handles st' = (Handles st)(i := free_handle) \<and>
    unat (UsedKb st') + unat (SizeKb (Handles st i)) = unat (UsedKb st) \<and>
    (\<forall>j. j \<noteq> i \<longrightarrow> same_block st j m m')"
proof -
  note f = free_releases [OF assms(1,2), folded i_def]
  have b: "xms_books st" "xms_books st'" using assms(1) f(1) unfolding xms_ready_def by blast+
  have g: "DosXmsGetHandle st h = Some i" unfolding DosXmsGetHandle_Some using f(4) by (simp add: i_def)
  have n: "DosXmsGetHandle st' h = None" using f(2) by (auto simp: DosXmsGetHandle_def i_def free_handle_def)
  have "xms.total (xms_release i (Handles st)) + xms_kb (Handles st) i = xms.total (Handles st)"
    using f(4) by (intro xms.total_release) blast
  then have "unat (UsedKb st') + unat (SizeKb (Handles st i)) = unat (UsedKb st)"
    using b f(2) by (simp add: xms_books_def xms_release_def xms_kb_def)
  with f g n show ?thesis by blast
qed

text \<open>A concrete store for the witnesses: addresses handed out upwards, with the live ranges noted.\<close>

definition demo_xms :: "(nat \<times> (nat \<times> nat) set) dos_xms_state" where
  "demo_xms = DosXmsInitialize 15296 (Some (bump_allocate 1024)) (Some (bump_free 1024)) (0x200000, {})"

lemma demo_ready: "xms_ready bump_live demo_xms"
  using books_initial [of 15296 "Some (bump_allocate 1024)" "Some (bump_free 1024)" "(0x200000, {})"] bump_store [of 1024]
  by (auto simp: xms_ready_def demo_xms_def xms_buffers_def DosXmsInitialize_def free_handle_def)

lemma lowest_first: "\<not> xms_used hs 0 \<Longrightarrow> xms.lowest hs = 0"
  by (rule xms.lowest_eqI) (simp_all add: DOS_XMS_MAX_HANDLES_def)

definition demo_xms1 :: "(nat \<times> (nat \<times> nat) set) dos_xms_state" where
  "demo_xms1 = demo_xms\<lparr>Handles := (Handles demo_xms)(0 :=
       \<lparr>InUse = True, LockCount = 0, SizeKb = 64, Memory = 0x200000\<rparr>),
     UsedKb := 64, Context := (0x210000, {(0x200000, 0x10000)})\<rparr>"

lemma demo_allocate: "\<exists>m'. DosXmsAllocate demo_xms m 64 = (demo_xms1, m', Inr 1)"
proof -
  have low: "first_from (\<lambda>i. \<not> InUse (Handles demo_xms i)) 0 DOS_XMS_MAX_HANDLES = 0"
    using lowest_first [of "Handles demo_xms"]
    by (simp add: xms_used_def demo_xms_def DosXmsInitialize_def free_handle_def)
  show ?thesis
    unfolding DosXmsAllocate_def low
    by (simp add: demo_xms1_def demo_xms_def DosXmsInitialize_def call_allocate_def bump_allocate_def
        Let_def DOS_XMS_MAX_HANDLES_def)
qed

lemma demo_pool: "unat (TotalKb demo_xms) + unat (64 :: u32) < 2 ^ 32" "unat (TotalKb demo_xms1) < 2 ^ 22"
  by (simp_all add: demo_xms1_def demo_xms_def DosXmsInitialize_def)

lemma demo_ready1: "xms_ready bump_live demo_xms1"
  using demo_allocate [of "\<lambda>_. 0"] allocate_grants(1) [OF demo_ready demo_pool(1)] by blast

lemma demo_handle1: "DosXmsGetHandle demo_xms1 1 = Some 0"
  "Handles demo_xms1 0 = \<lparr>InUse = True, LockCount = 0, SizeKb = 64, Memory = 0x200000\<rparr>"
  by (simp_all add: DosXmsGetHandle_def demo_xms1_def DOS_XMS_MAX_HANDLES_def)

lemma xms_allocate_contract_witness:
  "\<exists>m'. DosXmsAllocate demo_xms (\<lambda>_. 7) 64 = (demo_xms1, m', Inr 1) \<and>
     m' (Memory (Handles demo_xms1 0) + 5) = 0"
proof -
  obtain m' where r: "DosXmsAllocate demo_xms (\<lambda>_. 7) 64 = (demo_xms1, m', Inr 1)"
    using demo_allocate by blast
  from xms_allocate_contract [OF demo_ready demo_pool(1) this] r show ?thesis by simp
qed

lemma xms_free_contract_witness:
  "\<exists>st' m'. DosXmsFree demo_xms1 (\<lambda>_. 7) 1 = (st', m', Inr ()) \<and> xms_ready bump_live st' \<and>
     DosXmsGetHandle st' 1 = None"
proof -
  obtain st' m' where f: "DosXmsFree demo_xms1 (\<lambda>_. 7) 1 = (st', m', Inr ())"
    by (cases "call_free demo_xms1 (\<lambda>_. 7) 0x200000 64") (simp add: DosXmsFree_def demo_handle1 Let_def)
  from xms_free_contract [OF demo_ready1 f] f show ?thesis by blast
qed

lemma xms_reallocate_preserves_witness:
  "\<exists>st' m'. DosXmsReallocate demo_xms1 (\<lambda>_. 7) 1 128 = (st', m', Inr ()) \<and>
     SizeKb (Handles st' 0) = 128 \<and> m' (Memory (Handles st' 0) + 9) = 7"
proof -
  obtain st' m' where f: "DosXmsReallocate demo_xms1 (\<lambda>_. 7) 1 128 = (st', m', Inr ())"
    unfolding DosXmsReallocate_def demo_handle1 option.case
    by (simp add: demo_xms1_def demo_xms_def DosXmsInitialize_def call_allocate_def call_free_def
        bump_allocate_def bump_free_def Let_def)
  from xms_reallocate_preserves [OF demo_ready1 demo_pool(2) _ f] f show ?thesis
    by (auto simp: demo_handle1)
qed

subsection \<open>The block move\<close>

definition far_linear :: "u32 \<Rightarrow> nat" where
  \<comment> \<open>where a real-mode far pointer points\<close>
  "far_linear address = 16 * unat (drop_bit 16 address) + unat (address AND 0xFFFF)"

text \<open>The range an endpoint of a move names, when it names one at all.\<close>

definition names :: "'h dos_xms_state \<Rightarrow> nat \<Rightarrow> u16 \<Rightarrow> u32 \<Rightarrow> nat \<Rightarrow> nat \<Rightarrow> bool" where
  "names st base handle address len p \<longleftrightarrow>
     (if handle = 0 then p = base + far_linear address \<and> far_linear address + len \<le> unat DOS_XMS_CONVENTIONAL_LIMIT
      else \<exists>i. DosXmsGetHandle st handle = Some i \<and> p = Memory (Handles st i) + unat address \<and>
             unat address + len \<le> unat (SizeKb (Handles st i)) * 1024)"

lemma far_parts:
  "drop_bit 16 (address :: u32) AND 0xFFFF = drop_bit 16 address"
  "unat (push_bit 4 (drop_bit 16 address)) = 16 * unat (drop_bit 16 address)"
  "far_linear address \<le> 0x10FFEF"
proof -
  have "unat (drop_bit 16 address) = drop_bit 16 (unat address)" by (rule unat_drop_bit_eq)
  also have "\<dots> = unat address div 2 ^ 16" by (rule drop_bit_eq_div)
  finally have "unat (drop_bit 16 address) = unat address div 2 ^ 16" .
  then have seg: "unat (drop_bit 16 address) < 2 ^ 16"
    using unsigned_less [of address, where ?'a = nat] by simp
  have mask: "(0xFFFF :: u32) = mask 16" by (simp add: mask_eq_exp_minus_1)
  show "drop_bit 16 address AND 0xFFFF = drop_bit 16 address"
    unfolding mask by (intro bit_word_eqI) (auto simp: bit_simps dest: bit_imp_le_length)
  have "unat (16 * drop_bit 16 address) = 16 * unat (drop_bit 16 address)"
    using seg by (simp add: unat_word_ariths)
  then show "unat (push_bit 4 (drop_bit 16 address)) = 16 * unat (drop_bit 16 address)"
    by (simp add: push_bit_eq_mult mult.commute)
  have "address AND 0xFFFF \<le> 0xFFFF" by (rule word_and_le1)
  then have "unat (address AND 0xFFFF) < 2 ^ 16" by (simp add: word_le_nat_alt)
  with seg show "far_linear address \<le> 0x10FFEF" by (simp add: far_linear_def)
qed

lemma conventional_limit: "unat DOS_XMS_CONVENTIONAL_LIMIT = 0x10FFF0"
  by (simp add: DOS_XMS_CONVENTIONAL_LIMIT_def)

lemma far_sum:
  "unat (push_bit 4 (drop_bit 16 (address :: u32)) + (address AND 0xFFFF)) = far_linear address"
proof -
  have "far_linear address < 2 ^ 32" using far_parts(3) [of address] by simp
  then show ?thesis by (simp add: unat_word_ariths far_parts(2) far_linear_def)
qed

lemma endpoint_conventional:
  assumes "far_linear address + unat len < 2 ^ 32"
  shows "move_endpoint st base 0 address len bh bo =
    (if far_linear address + unat len \<le> unat DOS_XMS_CONVENTIONAL_LIMIT
     then Inr (base + far_linear address) else Inl bo)"
proof -
  have "unat (x + len) = (unat x + unat len) mod 2 ^ 32" for x by (simp add: unat_word_ariths)
  then have "unat (push_bit 4 (drop_bit 16 address) + (address AND 0xFFFF) + len) = far_linear address + unat len"
    unfolding far_sum using assms by (simp only: far_sum mod_less)
  then show ?thesis
    by (simp add: move_endpoint_def Let_def far_parts(1,2) word_less_nat_alt far_linear_def not_less)
qed

lemma endpoint_block:
  assumes "xms_books st" "unat (TotalKb st) < 2 ^ 22" "handle \<noteq> 0"
  shows "move_endpoint st base handle address len bh bo =
    (case DosXmsGetHandle st handle of None \<Rightarrow> Inl bh
     | Some i \<Rightarrow> if unat address + unat len \<le> unat (SizeKb (Handles st i)) * 1024
                 then Inr (Memory (Handles st i) + unat address) else Inl bo)"
proof (cases "DosXmsGetHandle st handle")
  case (Some i)
  then have i: "i < DOS_XMS_MAX_HANDLES" unfolding DosXmsGetHandle_Some by blast
  have "unat (SizeKb (Handles st i)) \<le> unat (TotalKb st)"
    using xms.weight_le_total [OF i, of "Handles st"] assms(1) by (simp add: xms_books_def xms_kb_def)
  then have bytes: "unat (SizeKb (Handles st i) * 1024) = unat (SizeKb (Handles st i)) * 1024"
    using assms(2) by (intro kb_bytes) simp
  have "(address > SizeKb (Handles st i) * 1024 \<or> len > SizeKb (Handles st i) * 1024 - address) \<longleftrightarrow>
      \<not> unat address + unat len \<le> unat (SizeKb (Handles st i)) * 1024"
  proof (cases "unat address \<le> unat (SizeKb (Handles st i)) * 1024")
    case True
    then have "unat (SizeKb (Handles st i) * 1024 - address) = unat (SizeKb (Handles st i)) * 1024 - unat address"
      using unat_sub [of address "SizeKb (Handles st i) * 1024"] bytes by (simp add: word_le_nat_alt)
    with True show ?thesis unfolding word_less_nat_alt bytes by auto
  qed (simp add: word_less_nat_alt bytes)
  with Some assms(3) show ?thesis by (simp add: move_endpoint_def Let_def)
qed (use assms(3) in \<open>simp add: move_endpoint_def\<close>)

lemma endpoint_names:
  assumes "xms_books st" "unat (TotalKb st) < 2 ^ 22"
    and "handle = 0 \<longrightarrow> far_linear address + unat len < 2 ^ 32"
  shows "move_endpoint st base handle address len bh bo = Inr p \<longleftrightarrow> names st base handle address (unat len) p"
proof (cases "handle = 0")
  case True
  with assms(3) show ?thesis using endpoint_conventional [of address len st base bh bo] by (auto simp: names_def)
next
  case False
  with endpoint_block [OF assms(1,2) False, of base address len bh bo] show ?thesis
    by (auto simp: names_def split: option.splits)
qed

lemma copy_overlap_safe_copies: "copy_overlap_safe d s n m = mem_copied d s n m"
  by (simp add: copy_overlap_safe_def copy_up_correct copy_down_correct)

text \<open>
  C14. The move stays inside what it names. When no conventional endpoint's sum of address and
  length reaches four gigabytes, a move of a non-zero length succeeds exactly when the length
  is even and both endpoints name a range, below the top of the high memory area or inside
  the block; it then copies the source bytes to the destination as if through a buffer,
  overlapping or not, and a move that fails changes no byte.
\<close>

theorem xms_move_contract:
  assumes "xms_books st" "unat (TotalKb st) < 2 ^ 22" "Length mv \<noteq> 0"
    and "SourceHandle mv = 0 \<longrightarrow> far_linear (SourceOffset mv) + unat (Length mv) < 2 ^ 32"
    and "DestinationHandle mv = 0 \<longrightarrow> far_linear (DestinationOffset mv) + unat (Length mv) < 2 ^ 32"
  shows "case DosXmsMove st base mv m of
     (m', Inr _) \<Rightarrow> even (unat (Length mv)) \<and>
       (\<exists>s d. names st base (SourceHandle mv) (SourceOffset mv) (unat (Length mv)) s \<and>
          names st base (DestinationHandle mv) (DestinationOffset mv) (unat (Length mv)) d \<and>
          m' = mem_copied d s (unat (Length mv)) m)
   | (m', Inl _) \<Rightarrow> m' = m \<and>
       (odd (unat (Length mv)) \<or>
        (\<forall>s. \<not> names st base (SourceHandle mv) (SourceOffset mv) (unat (Length mv)) s) \<or>
        (\<forall>d. \<not> names st base (DestinationHandle mv) (DestinationOffset mv) (unat (Length mv)) d))"
proof -
  define S where "S = move_endpoint st base (SourceHandle mv) (SourceOffset mv) (Length mv)
    DOS_XMS_ERROR_INVALID_SOURCE_HANDLE DOS_XMS_ERROR_INVALID_SOURCE_OFFSET"
  define D where "D = move_endpoint st base (DestinationHandle mv) (DestinationOffset mv) (Length mv)
    DOS_XMS_ERROR_INVALID_DESTINATION_HANDLE DOS_XMS_ERROR_INVALID_DESTINATION_OFFSET"
  have nS: "S = Inr p \<longleftrightarrow> names st base (SourceHandle mv) (SourceOffset mv) (unat (Length mv)) p" for p
    unfolding S_def by (rule endpoint_names [OF assms(1,2,4)])
  have nD: "D = Inr p \<longleftrightarrow> names st base (DestinationHandle mv) (DestinationOffset mv) (unat (Length mv)) p" for p
    unfolding D_def by (rule endpoint_names [OF assms(1,2,5)])
  have "DosXmsMove st base mv m =
      (if odd (unat (Length mv)) then (m, Inl DOS_XMS_ERROR_INVALID_LENGTH)
       else case S of Inl e \<Rightarrow> (m, Inl e) | Inr s \<Rightarrow>
         (case D of Inl e \<Rightarrow> (m, Inl e) | Inr d \<Rightarrow> (mem_copied d s (unat (Length mv)) m, Inr ())))"
    unfolding DosXmsMove_def word_odd_iff copy_overlap_safe_copies S_def D_def using assms(3) by simp
  then show ?thesis
    unfolding nS [symmetric] nD [symmetric] by (cases S; cases D) auto
qed

text \<open>
  A buffer address fits the 32 bits the lock call returns only when the store hands out low
  addresses. The sum a conventional endpoint is checked by is a 32-bit one, too, and it does
  wrap: a length just below four gigabytes passes.
\<close>

definition wrapping_move :: dos_xms_move where
  "wrapping_move = \<lparr>Length = 0xFFFFF000, SourceHandle = 0, SourceOffset = 0x01000000,
     DestinationHandle = 0, DestinationOffset = 0x02000000\<rparr>"

text \<open>
  The limit on conventional endpoints can be passed. A move of FFFFF000h bytes from 0100:0000
  to 0200:0000, neither range anywhere near inside the first megabyte and the high memory
  area, is not refused: on every manager it reports success after copying the four
  gigabytes less four kilobytes.
\<close>

theorem xms_move_check_wraps:
  "snd (DosXmsMove st base wrapping_move m) = Inr () \<and>
   \<not> names st base (SourceHandle wrapping_move) (SourceOffset wrapping_move) (unat (Length wrapping_move)) s \<and>
   \<not> names st base (DestinationHandle wrapping_move) (DestinationOffset wrapping_move)
       (unat (Length wrapping_move)) d"
  by (simp add: wrapping_move_def DosXmsMove_def move_endpoint_def DOS_XMS_CONVENTIONAL_LIMIT_def
      names_def Let_def)

subsection \<open>Locks\<close>

definition locks :: "'h dos_xms_state \<Rightarrow> u16 \<Rightarrow> nat \<Rightarrow> 'h dos_xms_state" where
  "locks st h n = ((\<lambda>s. fst (DosXmsLock s h)) ^^ n) st"

definition unlocks :: "'h dos_xms_state \<Rightarrow> u16 \<Rightarrow> nat \<Rightarrow> 'h dos_xms_state" where
  "unlocks st h n = ((\<lambda>s. fst (DosXmsUnlock s h)) ^^ n) st"

lemma GetHandle_cong:
  "DosXmsGetHandle st h = Some i \<Longrightarrow> InUse (Handles st' i) \<Longrightarrow> DosXmsGetHandle st' h = Some i"
  unfolding DosXmsGetHandle_Some by blast

lemma GetHandle_in_use: "DosXmsGetHandle st h = Some i \<Longrightarrow> InUse (Handles st i)"
  unfolding DosXmsGetHandle_Some by blast

lemma locks_count:
  assumes "DosXmsGetHandle st h = Some i" "unat (LockCount (Handles st i)) + n \<le> 255"
  shows "Handles (locks st h n) =
      (Handles st)(i := (Handles st i)\<lparr>LockCount := LockCount (Handles st i) + of_nat n\<rparr>) \<and>
    DosXmsGetHandle (locks st h n) h = Some i"
  using assms(2)
proof (induction n)
  case 0
  then show ?case using assms(1) by (simp add: locks_def)
next
  case (Suc n)
  let ?s = "locks st h n" and ?c = "LockCount (Handles st i) + of_nat n"
  have "unat (LockCount (Handles st i)) + n \<le> 255" using Suc.prems by simp
  from Suc.IH [OF this] have IH: "Handles ?s = (Handles st)(i := (Handles st i)\<lparr>LockCount := ?c\<rparr>)"
    "DosXmsGetHandle ?s h = Some i" by blast+
  have "unat ?c = unat (LockCount (Handles st i)) + n"
    using Suc.prems by (simp add: unat_word_ariths unat_of_nat take_bit_nat_eq_self)
  then have "unat ?c \<noteq> unat DOS_XMS_MAX_LOCK_COUNT" using Suc.prems by (simp add: DOS_XMS_MAX_LOCK_COUNT_def)
  then have lt: "?c \<noteq> DOS_XMS_MAX_LOCK_COUNT" by metis
  have step: "locks st h (Suc n) = fst (DosXmsLock ?s h)" by (simp add: locks_def)
  have "Handles (locks st h (Suc n)) = (Handles st)(i := (Handles st i)\<lparr>LockCount := ?c + 1\<rparr>)"
    unfolding step DosXmsLock_def IH option.case Let_def using lt by simp
  moreover have "DosXmsGetHandle (locks st h (Suc n)) h = Some i"
    by (rule GetHandle_cong [OF assms(1)]) (simp add: calculation GetHandle_in_use [OF assms(1)])
  moreover have "LockCount (Handles st i) + of_nat (Suc n) = ?c + 1" by simp
  ultimately show ?case by (simp only: simp_thms)
qed

lemma unlocks_count:
  assumes "DosXmsGetHandle st h = Some i" "n \<le> unat (LockCount (Handles st i))"
  shows "Handles (unlocks st h n) =
      (Handles st)(i := (Handles st i)\<lparr>LockCount := LockCount (Handles st i) - of_nat n\<rparr>)"
  using assms(2)
proof (induction n)
  case (Suc n)
  let ?s = "unlocks st h n" and ?c = "LockCount (Handles st i) - of_nat n"
  have IH: "Handles ?s = (Handles st)(i := (Handles st i)\<lparr>LockCount := ?c\<rparr>)"
    using Suc.IH Suc.prems by (meson Suc_leD)
  have get: "DosXmsGetHandle ?s h = Some i" 
    by (rule GetHandle_cong [OF assms(1)]) (simp add: IH GetHandle_in_use [OF assms(1)])
  have "of_nat n < LockCount (Handles st i)"
    using Suc.prems by (simp add: word_less_nat_alt unat_of_nat take_bit_nat_eq_self order_le_less_trans [OF _ unsigned_less])
  then have "?c \<noteq> 0" by auto
  then have "Handles (fst (DosXmsUnlock ?s h)) = (Handles st)(i := (Handles st i)\<lparr>LockCount := ?c - 1\<rparr>)"
    unfolding DosXmsUnlock_def get option.case Let_def IH by simp
  moreover have "unlocks st h (Suc n) = fst (DosXmsUnlock ?s h)" by (simp add: unlocks_def)
  moreover have "LockCount (Handles st i) - of_nat (Suc n) = ?c - 1" by simp
  ultimately show ?case by (simp only:)
qed (simp add: unlocks_def)

text \<open>
  Locks pin a block. After \<open>n\<close> locks of an unlocked block (\<open>n\<close> from 1 to 255) the block can
  be neither freed nor reallocated, both calls answering that it is locked and changing
  nothing; and after \<open>n\<close> unlocks the handle table is the one before, so that the block can be
  freed again.
\<close>

theorem xms_locks_pin:
  assumes "DosXmsGetHandle st h = Some i" "LockCount (Handles st i) = 0" "0 < n" "n \<le> 255"
  defines "st1 \<equiv> locks st h n"
  shows "DosXmsFree st1 m h = (st1, m, Inl DOS_XMS_ERROR_LOCKED) \<and>
    DosXmsReallocate st1 m h kb = (st1, m, Inl DOS_XMS_ERROR_LOCKED) \<and>
    Handles (unlocks st1 h n) = Handles st"
proof -
  have un: "unat (of_nat n :: u8) = n" by (rule unat_of_nat_small) (use assms(4) in simp)
  then have one: "of_nat n \<noteq> (0 :: u8)" using assms(3) by (metis unat_0 less_irrefl)
  have L: "Handles st1 = (Handles st)(i := (Handles st i)\<lparr>LockCount := of_nat n\<rparr>)" "DosXmsGetHandle st1 h = Some i"
    using locks_count [OF assms(1), of n] assms(2,4) by (simp_all add: st1_def)
  have "Handles (unlocks st1 h n) = Handles st"
    using unlocks_count [OF L(2), of n] assms(2) by (simp add: L(1) un fun_upd_idem_iff)
  then show ?thesis
    using L one by (simp add: DosXmsFree_def DosXmsReallocate_def Let_def)
qed

lemma xms_locks_pin_witness:
  "DosXmsFree (locks demo_xms1 1 255) (\<lambda>_. 0) 1 = (locks demo_xms1 1 255, (\<lambda>_. 0), Inl DOS_XMS_ERROR_LOCKED)"
  using xms_locks_pin [where st = demo_xms1 and h = 1 and i = 0 and n = 255] demo_handle1 by simp

lemma xms_move_contract_witness:
  "\<exists>m'. DosXmsMove demo_xms1 0 \<lparr>Length = 4, SourceHandle = 0, SourceOffset = 0x00400010,
      DestinationHandle = 1, DestinationOffset = 8\<rparr> demo_bytes = (m', Inr ()) \<and>
     m' = mem_copied 0x200008 0x410 4 demo_bytes"
  using xms_move_contract [where st = demo_xms1 and base = 0 and m = demo_bytes and
      mv = "\<lparr>Length = 4, SourceHandle = 0, SourceOffset = 0x00400010,
        DestinationHandle = 1, DestinationOffset = 8\<rparr>"] demo_ready1 demo_pool(2) demo_handle1
  by (auto simp: xms_ready_def names_def far_linear_def conventional_limit split: prod.splits sum.splits)

end
