(* ===== verification/Vdm_Registers.thy ===== *)
theory Vdm_Registers
  imports Prelude
begin

text \<open>
  The client registers a service reads and answers in: the 32-bit fields of the VDM's thread
  information block (\<^verbatim>\<open>VTIB_EAX\<close> ...) and the accessors of \<^verbatim>\<open>src/vdm/ntvdm.h\<close>.
\<close>

record vdm_registers =
  Eax :: u32
  Ebx :: u32
  Ecx :: u32
  Edx :: u32
  Esi :: u32
  Edi :: u32
  Ds :: u32
  Es :: u32

definition VDM_REG16 :: "u32 \<Rightarrow> u32" where
  "VDM_REG16 reg = reg AND 0xFFFF"

definition VDM_SET16 :: "u32 \<Rightarrow> u32 \<Rightarrow> u32" where
  "VDM_SET16 reg v = (reg AND 0xFFFF0000) OR (v AND 0xFFFF)"

definition set_low :: "u32 \<Rightarrow> u32 \<Rightarrow> u32" where
  \<comment> \<open>\<^verbatim>\<open>(reg & ~BYTE_MASK_U) | (v & BYTE_MASK)\<close>\<close>
  "set_low reg v = (reg AND NOT 0xFF) OR (v AND 0xFF)"

definition set_high :: "u32 \<Rightarrow> u32 \<Rightarrow> u32" where
  \<comment> \<open>\<^verbatim>\<open>(reg & ~HIGH_BYTE_MASK_U) | ((v & BYTE_MASK) << BYTE_SHIFT)\<close>\<close>
  "set_high reg v = (reg AND NOT 0xFF00) OR push_bit 8 (v AND 0xFF)"

definition reg_high :: "u32 \<Rightarrow> u32" where
  \<comment> \<open>\<^verbatim>\<open>(reg >> BYTE_SHIFT) & BYTE_MASK\<close>\<close>
  "reg_high reg = drop_bit 8 reg AND 0xFF"

definition far_pointer :: "u32 \<Rightarrow> u32 \<Rightarrow> nat" where
  \<comment> \<open>\<^verbatim>\<open>(segment << PARAGRAPH_SHIFT) + offset\<close> of two 16-bit registers\<close>
  "far_pointer segment offset = unat (push_bit 4 (VDM_REG16 segment) + VDM_REG16 offset)"

lemma reg16_bound: "unat (VDM_REG16 reg) < 2 ^ 16"
proof -
  have "reg AND 0xFFFF \<le> 0xFFFF" by (rule word_and_le1)
  then show ?thesis by (simp add: VDM_REG16_def word_le_nat_alt)
qed

text \<open>
  The library reads the bits of a word literal from the integer literal, so the masks are
  stated over the integers.
\<close>

lemma bit_word_mask: "bit (0xFFFF :: int) n \<longleftrightarrow> n < 16"
proof -
  have "(0xFFFF :: int) = mask 16" by (simp add: mask_eq_exp_minus_1 push_bit_eq_mult)
  then show ?thesis by (simp only: bit_push_bit_iff bit_mask_iff) auto
qed

lemma bit_byte_mask: "bit (0xFF :: int) n \<longleftrightarrow> n < 8"
proof -
  have "(0xFF :: int) = mask 8" by (simp add: mask_eq_exp_minus_1 push_bit_eq_mult)
  then show ?thesis by (simp only: bit_push_bit_iff bit_mask_iff) auto
qed

lemma bit_high_word_mask: "bit (0xFFFF0000 :: int) n \<longleftrightarrow> 16 \<le> n \<and> n < 32"
proof -
  have "(0xFFFF0000 :: int) = push_bit 16 (mask 16)" by (simp add: mask_eq_exp_minus_1 push_bit_eq_mult)
  then show ?thesis by (simp only: bit_push_bit_iff bit_mask_iff) auto
qed

lemma bit_high_byte_mask: "bit (0xFF00 :: int) n \<longleftrightarrow> 8 \<le> n \<and> n < 16"
proof -
  have "(0xFF00 :: int) = push_bit 8 (mask 8)" by (simp add: mask_eq_exp_minus_1 push_bit_eq_mult)
  then show ?thesis by (simp only: bit_push_bit_iff bit_mask_iff) auto
qed

lemma bit_middle_mask: "bit (0xFFFF00 :: int) n \<longleftrightarrow> 8 \<le> n \<and> n < 24"
proof -
  have "(0xFFFF00 :: int) = push_bit 8 (mask 16)" by (simp add: mask_eq_exp_minus_1 push_bit_eq_mult)
  then show ?thesis by (simp only: bit_push_bit_iff bit_mask_iff) auto
qed

lemmas register_bits = bit_middle_mask bit_word_mask bit_byte_mask bit_high_word_mask bit_high_byte_mask

lemma reg16_set16: "VDM_REG16 (VDM_SET16 reg v) = VDM_REG16 v"
  by (rule bit_word_eqI) (auto simp: VDM_REG16_def VDM_SET16_def bit_simps register_bits)

lemma high_set_high: "reg_high (set_high reg v) = v AND 0xFF"
  by (rule bit_word_eqI) (auto simp: reg_high_def set_high_def bit_simps register_bits)

lemma low_set_high: "set_high reg v AND 0xFF = reg AND 0xFF"
  by (rule bit_word_eqI) (auto simp: set_high_def bit_simps register_bits)

end
