(* ===== verification/Dos_Xms_Api.thy ===== *)
theory Dos_Xms_Api
  imports Dos_Xms_Contract Vdm_Registers
begin

text \<open>
  The XMS entry point, \<^verbatim>\<open>HostXms\<close> of \<^verbatim>\<open>src/host/host_dos.c\<close>: the function number in AH, the
  arguments in the 16-bit registers, AX = 1 or AX = 0 with the error code in BL. The A20 gate is bit 1 of the keyboard
  controller's output port (\<^verbatim>\<open>VddInputSetA20\<close>, \<^verbatim>\<open>VddInputGetA20\<close> of \<^verbatim>\<open>src/vdd/vdd_input.c\<close>).
\<close>

record 'h xms_host =
  Xms :: "'h dos_xms_state"
  Hma :: bool
  BehaveDos622 :: bool
  ControllerOutputPort :: u8
  HostMemory :: mem

definition X_SETAX :: "u32 \<Rightarrow> vdm_registers \<Rightarrow> vdm_registers" where
  "X_SETAX v r = r\<lparr>Eax := VDM_SET16 (Eax r) v\<rparr>"

definition X_SETBX :: "u32 \<Rightarrow> vdm_registers \<Rightarrow> vdm_registers" where
  "X_SETBX v r = r\<lparr>Ebx := VDM_SET16 (Ebx r) v\<rparr>"

definition X_SETDX :: "u32 \<Rightarrow> vdm_registers \<Rightarrow> vdm_registers" where
  "X_SETDX v r = r\<lparr>Edx := VDM_SET16 (Edx r) v\<rparr>"

definition X_SETBL :: "u32 \<Rightarrow> vdm_registers \<Rightarrow> vdm_registers" where
  "X_SETBL v r = r\<lparr>Ebx := set_low (Ebx r) v\<rparr>"

definition X_SETBH :: "u32 \<Rightarrow> vdm_registers \<Rightarrow> vdm_registers" where
  "X_SETBH v r = r\<lparr>Ebx := set_high (Ebx r) v\<rparr>"

definition X_FAIL :: "u8 \<Rightarrow> vdm_registers \<Rightarrow> vdm_registers" where
  "X_FAIL e r = X_SETBL (ucast e) (X_SETAX 0 r)"

definition VddInputSetA20 :: "u8 \<Rightarrow> bool \<Rightarrow> u8" where
  "VddInputSetA20 outputPort isOn = (if isOn then outputPort OR 0x02 else outputPort AND NOT 0x02)"

definition VddInputGetA20 :: "u8 \<Rightarrow> bool" where
  "VddInputGetA20 outputPort \<longleftrightarrow> outputPort AND 0x02 \<noteq> 0"

text \<open>The move structure at DS:SI.\<close>

definition guest_dword :: "mem \<Rightarrow> nat \<Rightarrow> u32" where
  "guest_dword m p = ucast (m p) OR push_bit 8 (ucast (m (p + 1))) OR
     push_bit 16 (ucast (m (p + 2))) OR push_bit 24 (ucast (m (p + 3)))"

definition guest_word :: "mem \<Rightarrow> nat \<Rightarrow> u16" where
  "guest_word m p = ucast (m p) OR push_bit 8 (ucast (m (p + 1)))"

definition read_move :: "mem \<Rightarrow> vdm_registers \<Rightarrow> dos_xms_move" where
  "read_move m r =
     (let source = far_pointer (Ds r) (Esi r)
      in \<lparr>Length = guest_dword m source, SourceHandle = guest_word m (source + 4),
          SourceOffset = guest_dword m (source + 6), DestinationHandle = guest_word m (source + 10),
          DestinationOffset = guest_dword m (source + 12)\<rparr>)"

definition answer :: "u8 + 'a \<Rightarrow> ('a \<Rightarrow> vdm_registers \<Rightarrow> vdm_registers) \<Rightarrow> vdm_registers \<Rightarrow> vdm_registers" where
  \<comment> \<open>\<^verbatim>\<open>if (DosXms...(..., &error)) { X_SETAX(1); ... } else X_FAIL(error);\<close>\<close>
  "answer result extra r = (case result of Inl e \<Rightarrow> X_FAIL e r | Inr v \<Rightarrow> extra v (X_SETAX 1 r))"

definition HostXms :: "'h xms_host \<Rightarrow> vdm_registers \<Rightarrow> 'h xms_host \<times> vdm_registers" where
  "HostXms host r =
     (let ah = reg_high (Eax r);
          xms = Xms host;
          dx = VDM_REG16 (Edx r);
          m = HostMemory host
      in if ah = 0x00
         then (host, X_SETDX (if Hma host then 1 else 0) (X_SETBX 0x0300 (X_SETAX 0x0300 r)))
         else if ah = 0x01
         then (if \<not> Hma host then (host, X_FAIL 0x90 r)
               else if IsHmaAllocated xms then (host, X_FAIL 0x91 r)
               else (host\<lparr>Xms := xms\<lparr>IsHmaAllocated := True\<rparr>\<rparr>, X_SETBL 0 (X_SETAX 1 r)))
         else if ah = 0x02
         then (if \<not> Hma host then (host, X_FAIL 0x90 r)
               else if \<not> IsHmaAllocated xms then (host, X_FAIL 0x93 r)
               else (host\<lparr>Xms := xms\<lparr>IsHmaAllocated := False\<rparr>\<rparr>, X_SETBL 0 (X_SETAX 1 r)))
         else if ah = 0x03 \<or> ah = 0x05
         then (host\<lparr>ControllerOutputPort := VddInputSetA20 (ControllerOutputPort host) True,
                    Xms := xms\<lparr>IsA20Enabled := True\<rparr>\<rparr>, X_SETAX 1 r)
         else if ah = 0x04 \<or> ah = 0x06
         then (host\<lparr>ControllerOutputPort := VddInputSetA20 (ControllerOutputPort host) False,
                    Xms := xms\<lparr>IsA20Enabled := False\<rparr>\<rparr>, X_SETAX 1 r)
         else if ah = 0x07
         then (let a20 = VddInputGetA20 (ControllerOutputPort host)
               in (host\<lparr>Xms := xms\<lparr>IsA20Enabled := a20\<rparr>\<rparr>, X_SETBL 0 (X_SETAX (if a20 then 1 else 0) r)))
         else if ah = 0x08
         then (let (largest, totalFree) = DosXmsQueryFreeMemory xms;
                   r1 = X_SETAX (if largest > 0xFFFF then 0xFFFF else largest) r;
                   r2 = X_SETDX (if totalFree > 0xFFFF then 0xFFFF else totalFree) r1;
                   r3 = X_SETBL (if largest \<noteq> 0 then 0 else ucast DOS_XMS_ERROR_OUT_OF_MEMORY) r2
               in (host, if BehaveDos622 host then X_SETBH 0xAA r3 else r3))
         else if ah = 0x09
         then (let (xms', m', result) = DosXmsAllocate xms m dx
               in (host\<lparr>Xms := xms', HostMemory := m'\<rparr>,
                   answer result (\<lambda>newHandle. X_SETDX (ucast newHandle)) r))
         else if ah = 0x0A
         then (let (xms', m', result) = DosXmsFree xms m (ucast dx)
               in (host\<lparr>Xms := xms', HostMemory := m'\<rparr>, answer result (\<lambda>_ r. r) r))
         else if ah = 0x0B
         then (let (m', result) = DosXmsMove xms 0 (read_move m r) m
               in (host\<lparr>HostMemory := m'\<rparr>, answer result (\<lambda>_ r. r) r))
         else if ah = 0x0C
         then (let (xms', result) = DosXmsLock xms (ucast dx)
               in (host\<lparr>Xms := xms'\<rparr>,
                   answer result (\<lambda>linear r. X_SETBX (linear AND 0xFFFF) (X_SETDX (drop_bit 16 linear) r)) r))
         else if ah = 0x0D
         then (let (xms', result) = DosXmsUnlock xms (ucast dx)
               in (host\<lparr>Xms := xms'\<rparr>, answer result (\<lambda>_ r. r) r))
         else if ah = 0x0E
         then (host, answer (DosXmsGetHandleInformation xms (ucast dx))
                 (\<lambda>(lock, freeHandles, sizeKb) r.
                    X_SETDX (if sizeKb > 0xFFFF then 0xFFFF else sizeKb)
                      (X_SETBL (ucast freeHandles) (X_SETBH (ucast lock) r))) r)
         else if ah = 0x0F
         then (let (xms', m', result) = DosXmsReallocate xms m (ucast dx) (VDM_REG16 (Ebx r))
               in (host\<lparr>Xms := xms', HostMemory := m'\<rparr>, answer result (\<lambda>_ r. r) r))
         else if ah = 0x10
         then (host, X_SETDX 0 (X_SETBL 0xB1 (X_SETAX 0 r)))
         else if ah = 0x11 then (host, X_FAIL 0xB2 r)
         else (host, X_FAIL 0x80 r))"

subsection \<open>Every sequence of calls keeps the books\<close>

lemma ready_cong:
  assumes "xms_ready live st" "Handles st' = Handles st" "UsedKb st' = UsedKb st" "TotalKb st' = TotalKb st"
    "Allocate st' = Allocate st" "Free st' = Free st" "live (Context st') = live (Context st)"
  shows "xms_ready live st'"
proof -
  have "xms_buffers live st' = xms_buffers live st"
    unfolding xms_buffers_def block_of_def assms(2,7) ..
  with assms xms_books_cong [OF assms(2-4)] show ?thesis unfolding xms_ready_def by simp
qed

lemma ready_refused:
  assumes r: "xms_ready live st" and c: "call_allocate st m kb = (st', m', 0)" "kb > 0"
  shows "xms_ready live st'"
proof -
  obtain A F where A: "Allocate st = Some A" "backing_store A F live"
    using r unfolding xms_ready_def by blast
  show ?thesis
    by (rule ready_cong [OF r]) (use call_allocate_keeps [OF c(1)] store_refuses [OF A(2,1) c] in simp_all)
qed

definition small_pool :: "'h dos_xms_state \<Rightarrow> bool" where
  "small_pool st \<longleftrightarrow> unat (TotalKb st) < 2 ^ 22"

lemma ready_allocate:
  assumes r: "xms_ready live st" "small_pool st" "unat kb < 2 ^ 16"
    and call: "DosXmsAllocate st m kb = (st', m', res)"
  shows "xms_ready live st' \<and> TotalKb st' = TotalKb st"
proof -
  have b: "xms_books st" using r(1) unfolding xms_ready_def by blast
  have wrap: "unat (TotalKb st) + unat kb < 2 ^ 32" using r(2,3) by (simp add: small_pool_def)
  have "xms_ready live st'"
  proof (cases res)
    case (Inr h)
    from allocate_grants(1) [OF r(1) wrap call [unfolded Inr]] show ?thesis .
  next
    case (Inl e)
    from call show ?thesis
      by (cases rule: DosXmsAllocate_cases) (use Inl r(1) ready_refused [OF r(1)] in auto)
  qed
  with books_allocate [OF b wrap call] show ?thesis by blast
qed

lemma ready_free:
  assumes r: "xms_ready live st" and call: "DosXmsFree st m h = (st', m', res)"
  shows "xms_ready live st' \<and> TotalKb st' = TotalKb st"
proof -
  have b: "xms_books st" using r unfolding xms_ready_def by blast
  have "xms_ready live st'"
  proof (cases res)
    case (Inr u)
    from free_releases(1) [OF r call [unfolded Inr]] show ?thesis .
  next
    case (Inl e)
    from call show ?thesis by (cases rule: DosXmsFree_cases) (use Inl r in auto)
  qed
  with books_free [OF b call] show ?thesis by blast
qed

lemma ready_reallocate:
  assumes r: "xms_ready live st" "small_pool st" "unat kb < 2 ^ 16"
    and call: "DosXmsReallocate st m h kb = (st', m', res)"
  shows "xms_ready live st' \<and> TotalKb st' = TotalKb st"
proof -
  have b: "xms_books st" using r(1) unfolding xms_ready_def by blast
  have wrap: "unat (TotalKb st) + unat kb < 2 ^ 32" and k: "unat kb < 2 ^ 31" "unat (TotalKb st) < 2 ^ 22"
    using r(2,3) by (simp_all add: small_pool_def)
  have "xms_ready live st'"
  proof (cases res)
    case (Inr u)
    from reallocate_resizes(1) [OF r(1) k(2,1) call [unfolded Inr]] show ?thesis .
  next
    case (Inl e)
    from call show ?thesis
      by (cases rule: DosXmsReallocate_cases) (use Inl r(1) ready_refused [OF r(1)] in auto)
  qed
  with books_reallocate [OF b wrap call] show ?thesis by blast
qed

lemma ready_lock_count:
  assumes r: "xms_ready live st"
    and h: "Handles st' = (Handles st)(i := (Handles st i)\<lparr>LockCount := c\<rparr>)" "InUse (Handles st i)"
    and rest: "UsedKb st' = UsedKb st" "TotalKb st' = TotalKb st" "Allocate st' = Allocate st"
      "Free st' = Free st" "Context st' = Context st"
  shows "xms_ready live st'"
proof -
  have "Memory (Handles st' j) = Memory (Handles st j)" "SizeKb (Handles st' j) = SizeKb (Handles st j)" for j
    using h(1) by simp_all
  then have "xms_buffers live st' = xms_buffers live st"
    unfolding xms_buffers_def block_of_def rest(5) by simp
  with r lock_table_cong [OF h rest(1,2)] rest show ?thesis by (simp add: xms_ready_def)
qed

lemma ready_lock:
  assumes "xms_ready live st"
  shows "xms_ready live (fst (DosXmsLock st h)) \<and> TotalKb (fst (DosXmsLock st h)) = TotalKb st"
proof (cases "DosXmsGetHandle st h")
  case (Some i)
  with assms GetHandle_in_use [OF Some] show ?thesis
    by (auto simp: DosXmsLock_def Let_def intro: ready_lock_count [of live st _ i])
qed (use assms in \<open>simp add: DosXmsLock_def\<close>)

lemma ready_unlock:
  assumes "xms_ready live st"
  shows "xms_ready live (fst (DosXmsUnlock st h)) \<and> TotalKb (fst (DosXmsUnlock st h)) = TotalKb st"
proof (cases "DosXmsGetHandle st h")
  case (Some i)
  with assms GetHandle_in_use [OF Some] show ?thesis
    by (auto simp: DosXmsUnlock_def Let_def intro: ready_lock_count [of live st _ i])
qed (use assms in \<open>simp add: DosXmsUnlock_def\<close>)

lemma HostXms_keeps:
  assumes r: "xms_ready live (Xms host)" "small_pool (Xms host)"
  shows "xms_ready live (Xms (fst (HostXms host regs))) \<and> TotalKb (Xms (fst (HostXms host regs))) = TotalKb (Xms host)"
proof -
  let ?x = "Xms host" and ?m = "HostMemory host"
  let ?keeps = "\<lambda>x. xms_ready live x \<and> TotalKb x = TotalKb ?x"
  have flags: "?keeps (?x\<lparr>IsHmaAllocated := f\<rparr>)" "?keeps (?x\<lparr>IsA20Enabled := f\<rparr>)" "?keeps ?x" for f
    using r(1) by (auto intro: ready_cong)
  have alloc: "?keeps (fst (DosXmsAllocate ?x ?m (VDM_REG16 v)))" for v
    using ready_allocate [OF r reg16_bound] by (cases "DosXmsAllocate ?x ?m (VDM_REG16 v)") fastforce
  have realloc: "?keeps (fst (DosXmsReallocate ?x ?m h (VDM_REG16 v)))" for h v
    using ready_reallocate [OF r reg16_bound] by (cases "DosXmsReallocate ?x ?m h (VDM_REG16 v)") fastforce
  have free: "?keeps (fst (DosXmsFree ?x ?m h))" for h
    using ready_free [OF r(1)] by (cases "DosXmsFree ?x ?m h") fastforce
  have locks: "?keeps (fst (DosXmsLock ?x h))" "?keeps (fst (DosXmsUnlock ?x h))" for h
    using ready_lock [OF r(1)] ready_unlock [OF r(1)] by blast+
  define K where "K p \<longleftrightarrow> ?keeps (Xms (fst p))" for p :: "'a xms_host \<times> vdm_registers"
  have K_if: "K a \<Longrightarrow> K b \<Longrightarrow> K (if c then a else b)" for a b c by simp
  have K_pair: "K (host, r)" for r using flags(3) by (simp add: K_def)
  have K_hma: "K (host\<lparr>Xms := ?x\<lparr>IsHmaAllocated := f\<rparr>\<rparr>, r)" for f r using flags(1) by (simp add: K_def)
  have K_a20: "K (host\<lparr>ControllerOutputPort := p, Xms := ?x\<lparr>IsA20Enabled := f\<rparr>\<rparr>, r)"
    "K (host\<lparr>Xms := ?x\<lparr>IsA20Enabled := f\<rparr>\<rparr>, r)" for p f r using flags(2) by (simp_all add: K_def)
  have K_query: "K (case q of (l, t) \<Rightarrow> (host, g l t))" for q g
    using flags(3) by (cases q) (simp add: K_def)
  have K_memory: "?keeps (fst q) \<Longrightarrow>
    K (case q of (x, m, res) \<Rightarrow> (host\<lparr>Xms := x, HostMemory := m\<rparr>, g res))" for q g
    by (cases q) (simp add: K_def)
  have K_move: "K (case q of (m, res) \<Rightarrow> (host\<lparr>HostMemory := m\<rparr>, g res))" for q g
    using flags(3) by (cases q) (simp add: K_def)
  have K_lock: "?keeps (fst q) \<Longrightarrow> K (case q of (x, res) \<Rightarrow> (host\<lparr>Xms := x\<rparr>, g res))" for q g
    by (cases q) (simp add: K_def)
  have "K (HostXms host regs)"
    unfolding HostXms_def Let_def
    by (intro K_if K_pair K_hma K_a20 K_query K_move K_memory [OF alloc] K_memory [OF free]
        K_memory [OF realloc] K_lock [OF locks(1)] K_lock [OF locks(2)])
  then show ?thesis by (simp add: K_def)
qed

text \<open>
  A guest's run: between calls it changes the bytes of memory and loads the registers as it
  pleases, then makes the far call.
\<close>

definition xms_far_call :: "(mem \<Rightarrow> mem) \<times> vdm_registers \<Rightarrow> 'h xms_host \<Rightarrow> 'h xms_host" where
  "xms_far_call c host = fst (HostXms (host\<lparr>HostMemory := fst c (HostMemory host)\<rparr>) (snd c))"

text \<open>
  C15. The XMS driver is sound for ever. From the initialised manager, whatever far calls a guest
  makes with whatever registers and whatever it writes in between, the pool in use is the sum
  of the sizes of the handles and at most the pool, free handles are blank, a handle has a
  buffer exactly when it has a size, and the buffers are live ranges of the host's store,
  pairwise disjoint.
\<close>

theorem xms_driver_sound:
  fixes calls :: "((mem \<Rightarrow> mem) \<times> vdm_registers) list"
  assumes "backing_store A F live" "unat pool < 2 ^ 22" "live context = {}"
    and "Xms host = DosXmsInitialize pool (Some A) (Some F) context"
  defines "st \<equiv> Xms (fold xms_far_call calls host)"
  shows "xms.total (Handles st) = unat (UsedKb st) \<and> unat (UsedKb st) \<le> unat pool \<and>
    (\<forall>i. \<not> InUse (Handles st i) \<longrightarrow> Handles st i = free_handle) \<and>
    (\<forall>i. (Memory (Handles st i) = 0) = (SizeKb (Handles st i) = 0)) \<and>
    xms_buffers live st"
proof -
  have "xms_ready live (DosXmsInitialize pool (Some A) (Some F) context)"
    using books_initial [of pool "Some A" "Some F" "context"] assms(1)
    by (auto simp: xms_ready_def xms_buffers_def DosXmsInitialize_def free_handle_def)
  then have start: "xms_ready live (Xms host) \<and> TotalKb (Xms host) = pool"
    by (simp add: assms(4) DosXmsInitialize_def)
  have "xms_ready live (Xms (fold xms_far_call calls h)) \<and> TotalKb (Xms (fold xms_far_call calls h)) = pool"
    if "xms_ready live (Xms h) \<and> TotalKb (Xms h) = pool" for h
    using that
  proof (induction calls arbitrary: h)
    case (Cons c calls)
    have "xms_ready live (Xms (xms_far_call c h)) \<and> TotalKb (Xms (xms_far_call c h)) = pool"
      using HostXms_keeps [of live "h\<lparr>HostMemory := fst c (HostMemory h)\<rparr>" "snd c"] Cons.prems assms(2)
      by (simp add: xms_far_call_def small_pool_def)
    from Cons.IH [OF this] show ?case by simp
  qed simp
  from this [OF start] have "xms_ready live st" "TotalKb st = pool" by (simp_all add: st_def)
  then show ?thesis unfolding xms_ready_def xms_books_def by auto
qed
definition demo_xms_host :: "(nat \<times> (nat \<times> nat) set) xms_host" where
  "demo_xms_host = \<lparr>Xms = demo_xms, Hma = True, BehaveDos622 = False, ControllerOutputPort = 0xDD,
     HostMemory = (\<lambda>_. 0)\<rparr>"

lemma xms_driver_sound_witness:
  "let calls = [(id, \<lparr>Eax = 0x0900, Ebx = 0, Ecx = 0, Edx = 64, Esi = 0, Edi = 0, Ds = 0, Es = 0\<rparr>),
                (id, \<lparr>Eax = 0x0F00, Ebx = 128, Ecx = 0, Edx = 1, Esi = 0, Edi = 0, Ds = 0, Es = 0\<rparr>)];
       st = Xms (fold xms_far_call calls demo_xms_host)
   in xms.total (Handles st) = unat (UsedKb st) \<and> unat (UsedKb st) \<le> 15296 \<and> xms_buffers bump_live st"
proof -
  have s: "unat (15296 :: u32) < 2 ^ 22" "bump_live (0x200000, {}) = {}"
    "Xms demo_xms_host = DosXmsInitialize 15296 (Some (bump_allocate 1024)) (Some (bump_free 1024)) (0x200000, {})"
    by (simp_all add: bump_live_def demo_xms_host_def demo_xms_def)
  show ?thesis
    using xms_driver_sound [OF bump_store [of 1024] s, where calls = "[(id, \<lparr>Eax = 0x0900, Ebx = 0, Ecx = 0, Edx = 64, Esi = 0, Edi = 0, Ds = 0, Es = 0\<rparr>),
      (id, \<lparr>Eax = 0x0F00, Ebx = 128, Ecx = 0, Edx = 1, Esi = 0, Edi = 0, Ds = 0, Es = 0\<rparr>)]"]
    unfolding Let_def unat_numeral by auto
qed

end
