(* ===== verification/Dos_Extmem.thy ===== *)
theory Dos_Extmem
  imports Dos_Xms_Api
begin

text \<open>
  INT 15h AH=87h, the BIOS's move between linear addresses: \<^verbatim>\<open>src/dos/dos_extmem.h\<close>, which
  decides what memory a linear range is, and \<^verbatim>\<open>Int15MoveBlockAt\<close> of \<^verbatim>\<open>src/host/host_bios.c\<close>.
  The guest's descriptors name 32-bit addresses in the host process's own address space, so
  this resolver is all that keeps a DOS program's move inside the memory it owns. The private
  buffer for raw extended memory comes from \<^verbatim>\<open>VirtualAlloc\<close>, a parameter. A null pointer is 0.
\<close>

definition DOS_EXTMEM_DIRECT_END :: u32 where "DOS_EXTMEM_DIRECT_END = 0x0010FFF0"
definition DOS_EXTMEM_RAW_BASE :: u32 where "DOS_EXTMEM_RAW_BASE = 0x00100000"
definition DOS_EXTMEM_RAW_END :: u32 where "DOS_EXTMEM_RAW_END = 0x01000000"
definition DOS_EXTMEM_RAW_LENGTH :: u32 where "DOS_EXTMEM_RAW_LENGTH = DOS_EXTMEM_RAW_END - DOS_EXTMEM_RAW_BASE"
definition BIOS_MOVE_BLOCK_WORDS_MAX :: u32 where "BIOS_MOVE_BLOCK_WORDS_MAX = 0x8000"
definition BIOS_MOVE_BLOCK_EXCEPTION :: nat where "BIOS_MOVE_BLOCK_EXCEPTION = 2"
definition BIOS_MOVE_BLOCK_SOURCE :: nat where "BIOS_MOVE_BLOCK_SOURCE = 0x10"
definition BIOS_MOVE_BLOCK_DESTINATION :: nat where "BIOS_MOVE_BLOCK_DESTINATION = 0x18"

lemmas extmem_limits = DOS_EXTMEM_DIRECT_END_def DOS_EXTMEM_RAW_BASE_def DOS_EXTMEM_RAW_END_def
  DOS_EXTMEM_RAW_LENGTH_def

datatype extmem_region = REGION_NONE | REGION_DIRECT | REGION_EMB | REGION_RAW

definition emb_covers :: "'h dos_xms_state \<Rightarrow> u32 \<Rightarrow> u32 \<Rightarrow> nat \<Rightarrow> bool" where
  "emb_covers xms linear finish i \<longleftrightarrow>
     (let entry = Handles xms i
      in InUse entry \<and> Memory entry \<noteq> 0 \<and> SizeKb entry \<noteq> 0 \<and>
         (let blockBase = of_nat (Memory entry); blockEnd = blockBase + SizeKb entry * 1024
          in linear \<ge> blockBase \<and> finish \<le> blockEnd \<and> blockEnd > blockBase))"

definition DosExtMemClassify :: "'h dos_xms_state option \<Rightarrow> u32 \<Rightarrow> u32 \<Rightarrow> extmem_region" where
  "DosExtMemClassify xmsState linearAddress len =
     (let finish = linearAddress + len
      in if len = 0 \<or> finish < linearAddress then REGION_NONE
         else if finish \<le> DOS_EXTMEM_DIRECT_END then REGION_DIRECT
         else if (case xmsState of None \<Rightarrow> False
                  | Some xms \<Rightarrow> first_from (emb_covers xms linearAddress finish) 0 DOS_XMS_MAX_HANDLES
                                 < DOS_XMS_MAX_HANDLES)
         then REGION_EMB
         else if linearAddress \<ge> DOS_EXTMEM_DIRECT_END \<and> finish \<le> DOS_EXTMEM_RAW_END then REGION_RAW
         else REGION_NONE)"

definition DosExtMemResolve :: "'h dos_xms_state option \<Rightarrow> nat \<Rightarrow> nat \<Rightarrow> u32 \<Rightarrow> u32 \<Rightarrow> nat" where
  "DosExtMemResolve xmsState conventionalBase rawBuffer linearAddress len =
     (case DosExtMemClassify xmsState linearAddress len of
        REGION_DIRECT \<Rightarrow> conventionalBase + unat linearAddress
      | REGION_EMB \<Rightarrow> unat linearAddress
      | REGION_RAW \<Rightarrow> (if rawBuffer \<noteq> 0 then rawBuffer + unat (linearAddress - DOS_EXTMEM_RAW_BASE) else 0)
      | REGION_NONE \<Rightarrow> 0)"

definition DosExtMemDescriptorBase :: "mem \<Rightarrow> nat \<Rightarrow> u32" where
  "DosExtMemDescriptorBase m descriptor =
     ucast (m (descriptor + 2)) OR push_bit 8 (ucast (m (descriptor + 3))) OR
     push_bit 16 (ucast (m (descriptor + 4))) OR push_bit 24 (ucast (m (descriptor + 7)))"

record int15_state =
  ExtendedMemoryRaw :: nat
  Function87Count :: u32
  Function87Refused :: u32

definition move_out :: "int15_state \<Rightarrow> nat \<Rightarrow> int15_state" where
  \<comment> \<open>the counters at the label \<^verbatim>\<open>out\<close>\<close>
  "move_out s status =
     s\<lparr>Function87Count := Function87Count s + 1,
       Function87Refused := (if status \<noteq> 0 then Function87Refused s + 1 else Function87Refused s)\<rparr>"

definition commit_raw ::
  "(mem \<Rightarrow> nat \<Rightarrow> mem \<times> nat) \<Rightarrow> 'h dos_xms_state \<Rightarrow> int15_state \<Rightarrow> u32 \<Rightarrow> u32 \<Rightarrow> u32 \<Rightarrow> mem \<Rightarrow> int15_state \<times> mem" where
  \<comment> \<open>the raw buffer is committed the first time a move touches raw extended memory\<close>
  "commit_raw VirtualAlloc xms s source destination len m =
     (if ExtendedMemoryRaw s = 0 \<and> (DosExtMemClassify (Some xms) source len = REGION_RAW \<or>
                                    DosExtMemClassify (Some xms) destination len = REGION_RAW)
      then let (m', p) = VirtualAlloc m (unat DOS_EXTMEM_RAW_LENGTH) in (s\<lparr>ExtendedMemoryRaw := p\<rparr>, m')
      else (s, m))"

definition Int15MoveBlockAt ::
  "(mem \<Rightarrow> nat \<Rightarrow> mem \<times> nat) \<Rightarrow> 'h dos_xms_state \<Rightarrow> u32 \<Rightarrow> nat \<Rightarrow> int15_state \<Rightarrow> mem \<Rightarrow> int15_state \<times> mem \<times> nat" where
  "Int15MoveBlockAt VirtualAlloc xms ecx gdt s m =
     (let cx = VDM_REG16 ecx; len = cx * 2
      in if cx = 0 then (s, m, 0)
         else if cx > BIOS_MOVE_BLOCK_WORDS_MAX
         then (move_out s BIOS_MOVE_BLOCK_EXCEPTION, m, BIOS_MOVE_BLOCK_EXCEPTION)
         else if gdt = 0 then (move_out s BIOS_MOVE_BLOCK_EXCEPTION, m, BIOS_MOVE_BLOCK_EXCEPTION)
         else let source = DosExtMemDescriptorBase m (gdt + BIOS_MOVE_BLOCK_SOURCE);
                  destination = DosExtMemDescriptorBase m (gdt + BIOS_MOVE_BLOCK_DESTINATION);
                  (s1, m1) = commit_raw VirtualAlloc xms s source destination len m;
                  sourcePointer = DosExtMemResolve (Some xms) 0 (ExtendedMemoryRaw s1) source len;
                  destinationPointer = DosExtMemResolve (Some xms) 0 (ExtendedMemoryRaw s1) destination len
              in if sourcePointer = 0 \<or> destinationPointer = 0
                 then (move_out s1 BIOS_MOVE_BLOCK_EXCEPTION, m1, BIOS_MOVE_BLOCK_EXCEPTION)
                 else (move_out s1 0, mem_copied destinationPointer sourcePointer (unat len) m1, 0))"

subsection \<open>What a resolved range is\<close>

definition guest_owned :: "'h dos_xms_state \<Rightarrow> nat \<Rightarrow> nat \<Rightarrow> bool" where
  \<comment> \<open>the bytes a DOS program owns: conventional memory and the HMA, the blocks the XMS manager
    handed out, the raw buffer\<close>
  "guest_owned xms raw a \<longleftrightarrow>
     a < 0x10FFF0 \<or>
     (\<exists>i<DOS_XMS_MAX_HANDLES. InUse (Handles xms i) \<and> Memory (Handles xms i) \<le> a \<and>
        a < Memory (Handles xms i) + unat (SizeKb (Handles xms i)) * 1024) \<or>
     (raw \<noteq> 0 \<and> raw \<le> a \<and> a < raw + 0xF00000)"

definition emb_pointers_32 :: "'h dos_xms_state \<Rightarrow> bool" where
  \<comment> \<open>the host is a 32-bit process: its buffers lie below 4 GB\<close>
  "emb_pointers_32 xms \<longleftrightarrow>
     (\<forall>i<DOS_XMS_MAX_HANDLES. Memory (Handles xms i) + unat (SizeKb (Handles xms i)) * 1024 < 2 ^ 32)"

lemma emb_covers_block:
  assumes "emb_covers xms linear finish i" "i < DOS_XMS_MAX_HANDLES" "emb_pointers_32 xms"
  shows "InUse (Handles xms i) \<and> Memory (Handles xms i) \<le> unat linear \<and>
    unat finish \<le> Memory (Handles xms i) + unat (SizeKb (Handles xms i)) * 1024"
proof -
  let ?p = "Memory (Handles xms i)" and ?k = "SizeKb (Handles xms i)"
  have fits: "?p + unat ?k * 1024 < 2 ^ 32" using assms(2,3) unfolding emb_pointers_32_def by blast
  have p: "unat (of_nat ?p :: u32) = ?p" by (rule unat_of_nat_small) (use fits in simp)
  have k: "unat (?k * 1024) = unat ?k * 1024" using fits by (simp add: unat_mult_lem [THEN iffD1])
  have e: "unat (of_nat ?p + ?k * 1024) = ?p + unat ?k * 1024"
    using fits p k by (simp add: unat_add_lem [THEN iffD1])
  show ?thesis using assms(1) p e
    by (simp add: emb_covers_def Let_def word_le_nat_alt)
qed

lemma range_end:
  fixes linear len :: u32
  assumes "\<not> linear + len < linear"
  shows "unat (linear + len) = unat linear + unat len"
  using assms by (simp add: not_less unat_plus_simple)

lemma resolved_owned:
  assumes emb: "emb_pointers_32 xms"
    and p: "DosExtMemResolve (Some xms) 0 raw linear len = p" "p \<noteq> 0"
    and a: "p \<le> a" "a < p + unat len"
  shows "guest_owned xms raw a"
proof (cases "DosExtMemClassify (Some xms) linear len")
  case REGION_NONE
  with p show ?thesis by (simp add: DosExtMemResolve_def)
next
  case REGION_DIRECT
  then have "\<not> linear + len < linear" "linear + len \<le> DOS_EXTMEM_DIRECT_END"
    by (auto simp: DosExtMemClassify_def Let_def split: if_splits)
  with range_end [of linear len] have "unat linear + unat len \<le> 0x10FFF0"
    by (simp add: word_le_nat_alt extmem_limits)
  with REGION_DIRECT p(1) a show ?thesis by (simp add: DosExtMemResolve_def guest_owned_def)
next
  case REGION_EMB
  then have r: "\<not> linear + len < linear"
    "first_from (emb_covers xms linear (linear + len)) 0 DOS_XMS_MAX_HANDLES < DOS_XMS_MAX_HANDLES"
    by (auto simp: DosExtMemClassify_def Let_def split: if_splits)
  from emb_covers_block [OF first_from_holds [OF r(2)] r(2) emb] range_end [OF r(1)] r(2) REGION_EMB p(1) a
  show ?thesis unfolding guest_owned_def by (fastforce simp: DosExtMemResolve_def)
next
  case REGION_RAW
  then have r: "\<not> linear + len < linear" "DOS_EXTMEM_DIRECT_END \<le> linear" "linear + len \<le> DOS_EXTMEM_RAW_END"
    by (auto simp: DosExtMemClassify_def Let_def split: if_splits)
  have lo: "0x10FFF0 \<le> unat linear" "unat linear + unat len \<le> 0x1000000"
    using r(2,3) range_end [OF r(1)] by (simp_all add: word_le_nat_alt extmem_limits)
  then have "unat (linear - DOS_EXTMEM_RAW_BASE) = unat linear - 0x100000"
    by (simp add: extmem_limits unat_sub word_le_nat_alt)
  with REGION_RAW p a lo show ?thesis
    by (auto simp: DosExtMemResolve_def guest_owned_def split: if_splits)
qed

text \<open>What \<^verbatim>\<open>VirtualAlloc\<close> documents: null, or a region, whose bytes are all it touches.\<close>

definition virtual_alloc_law :: "(mem \<Rightarrow> nat \<Rightarrow> mem \<times> nat) \<Rightarrow> bool" where
  "virtual_alloc_law VirtualAlloc \<longleftrightarrow>
     (\<forall>m n m' p. VirtualAlloc m n = (m', p) \<longrightarrow>
        (\<forall>a. m' a \<noteq> m a \<longrightarrow> p \<noteq> 0 \<and> p \<le> a \<and> a < p + n))"

lemma commit_raw_effect:
  assumes "virtual_alloc_law va" "commit_raw va xms s source destination len m = (s1, m1)" "m1 a \<noteq> m a"
  shows "guest_owned xms (ExtendedMemoryRaw s1) a"
proof -
  obtain m' p where v: "va m (unat DOS_EXTMEM_RAW_LENGTH) = (m', p)" by fastforce
  have "m1 = m'" "ExtendedMemoryRaw s1 = p"
    using assms(2,3) v by (auto simp: commit_raw_def split: if_splits)
  with assms(1,3) v show ?thesis
    unfolding virtual_alloc_law_def guest_owned_def by (fastforce simp: extmem_limits)
qed

lemma move_out_raw [simp]: "ExtendedMemoryRaw (move_out s status) = ExtendedMemoryRaw s"
  by (simp add: move_out_def)

text \<open>
  C18. A block move cannot reach the host. Whatever descriptors the guest names, every byte
  that INT 15h AH=87h changes is conventional memory or the HMA, a block the XMS manager
  handed out, or the raw buffer; the status is 0 or 2, and a status of 0 for a non-empty count
  means that the bytes of the resolved source stand at the resolved destination (overlapping
  ranges included) and nothing else differs from the memory after the raw buffer's commit.
\<close>

theorem int15_move_confined:
  assumes "virtual_alloc_law va" "emb_pointers_32 xms"
    and run: "Int15MoveBlockAt va xms ecx gdt s m = (s', m', status)"
  shows "(\<forall>a. m' a \<noteq> m a \<longrightarrow> guest_owned xms (ExtendedMemoryRaw s') a) \<and>
    (status = 0 \<or> status = BIOS_MOVE_BLOCK_EXCEPTION) \<and>
    (status = 0 \<and> VDM_REG16 ecx \<noteq> 0 \<longrightarrow>
      (let len = VDM_REG16 ecx * 2;
           source = DosExtMemDescriptorBase m (gdt + BIOS_MOVE_BLOCK_SOURCE);
           destination = DosExtMemDescriptorBase m (gdt + BIOS_MOVE_BLOCK_DESTINATION);
           m1 = snd (commit_raw va xms s source destination len m);
           d = DosExtMemResolve (Some xms) 0 (ExtendedMemoryRaw s') destination len;
           p = DosExtMemResolve (Some xms) 0 (ExtendedMemoryRaw s') source len
       in d \<noteq> 0 \<and> p \<noteq> 0 \<and> (\<forall>i<unat len. m' (d + i) = m1 (p + i)) \<and>
          (\<forall>a. a < d \<or> d + unat len \<le> a \<longrightarrow> m' a = m1 a)))"
proof -
  define len where "len = VDM_REG16 ecx * 2"
  define source where "source = DosExtMemDescriptorBase m (gdt + BIOS_MOVE_BLOCK_SOURCE)"
  define destination where "destination = DosExtMemDescriptorBase m (gdt + BIOS_MOVE_BLOCK_DESTINATION)"
  obtain s1 m1 where c: "commit_raw va xms s source destination len m = (s1, m1)" by fastforce
  define d where "d = DosExtMemResolve (Some xms) 0 (ExtendedMemoryRaw s1) destination len"
  define p where "p = DosExtMemResolve (Some xms) 0 (ExtendedMemoryRaw s1) source len"
  note commit = commit_raw_effect [OF assms(1) c]
  consider (idle) "m' = m" "status = 0" "VDM_REG16 ecx = 0"
    | (early) "m' = m" "status = BIOS_MOVE_BLOCK_EXCEPTION"
    | (refused) "m' = m1" "s' = move_out s1 BIOS_MOVE_BLOCK_EXCEPTION" "status = BIOS_MOVE_BLOCK_EXCEPTION"
    | (moved) "m' = mem_copied d p (unat len) m1" "s' = move_out s1 0" "status = 0" "d \<noteq> 0" "p \<noteq> 0"
    using run c unfolding Int15MoveBlockAt_def Let_def len_def [symmetric] source_def [symmetric]
      destination_def [symmetric]
    by (auto simp: d_def p_def split: if_splits)
  then show ?thesis
  proof cases
    case moved
    have "guest_owned xms (ExtendedMemoryRaw s1) a" if "m' a \<noteq> m a" for a
    proof (cases "d \<le> a \<and> a < d + unat len")
      case True
      with resolved_owned [OF assms(2) d_def [symmetric] moved(4)] show ?thesis by blast
    next
      case False
      with that commit moved(1) show ?thesis by (auto simp: mem_copied_def)
    qed
    moreover have "\<forall>i<unat len. m' (d + i) = m1 (p + i)" "\<forall>a. a < d \<or> d + unat len \<le> a \<longrightarrow> m' a = m1 a"
      by (simp_all add: moved(1) mem_facts)
    ultimately show ?thesis
      using moved(2-) c unfolding Let_def len_def [symmetric] source_def [symmetric] destination_def [symmetric]
      by (simp add: d_def p_def)
  qed (use commit in \<open>auto simp: BIOS_MOVE_BLOCK_EXCEPTION_def\<close>)
qed

lemma int15_move_confined_witness:
  "let va = (\<lambda>m n. (m, 0x2000000)); m = (\<lambda>_ :: nat. 0 :: u8)(0x612 := 0x00, 0x613 := 0x70, 0x61A := 0x00, 0x61B := 0x80, 0x7000 := 42);
       (s', m', status) = Int15MoveBlockAt va demo_xms 4 0x600 \<lparr>ExtendedMemoryRaw = 0, Function87Count = 0, Function87Refused = 0\<rparr> m
   in \<forall>a. m' a \<noteq> m a \<longrightarrow> guest_owned demo_xms (ExtendedMemoryRaw s') a"
proof -
  have "virtual_alloc_law (\<lambda>m n. (m, 0x2000000))" by (simp add: virtual_alloc_law_def)
  moreover have "emb_pointers_32 demo_xms"
    by (simp add: emb_pointers_32_def demo_xms_def DosXmsInitialize_def free_handle_def)
  ultimately show ?thesis unfolding Let_def
    by (auto split: prod.splits dest: int15_move_confined)
qed

text \<open>
  Linear address 0 is lost to the null pointer. The interrupt vector table is guest memory
  that the classifier puts in the direct region, but the host maps it at address 0, so a
  move that starts at it is refused with status 2, as source or as destination.
\<close>

theorem int15_move_at_zero_refused:
  assumes "VDM_REG16 ecx \<noteq> 0" "VDM_REG16 ecx \<le> BIOS_MOVE_BLOCK_WORDS_MAX"
    and "DosExtMemDescriptorBase m (gdt + BIOS_MOVE_BLOCK_SOURCE) = 0 \<or>
      DosExtMemDescriptorBase m (gdt + BIOS_MOVE_BLOCK_DESTINATION) = 0"
  shows "DosExtMemClassify (Some xms) 0 (VDM_REG16 ecx * 2) = REGION_DIRECT \<and>
    snd (snd (Int15MoveBlockAt va xms ecx gdt s m)) = BIOS_MOVE_BLOCK_EXCEPTION"
proof -
  define cx where "cx = VDM_REG16 ecx"
  have cx: "cx \<noteq> 0" "unat cx \<le> 0x8000"
    using assms(1,2) by (simp_all add: cx_def BIOS_MOVE_BLOCK_WORDS_MAX_def word_le_nat_alt)
  then have "unat (cx * 2) = unat cx * 2" by (simp add: unat_mult_lem [THEN iffD1])
  with cx have len: "cx * 2 \<noteq> 0" "cx * 2 \<le> DOS_EXTMEM_DIRECT_END"
    by (auto simp: word_le_nat_alt extmem_limits unat_eq_0 [symmetric])
  then have direct: "DosExtMemClassify (Some xms) 0 (cx * 2) = REGION_DIRECT"
    by (simp add: DosExtMemClassify_def)
  then have "DosExtMemResolve (Some xms) 0 raw 0 (cx * 2) = 0" for raw
    by (simp add: DosExtMemResolve_def)
  then show ?thesis
    using assms direct unfolding Int15MoveBlockAt_def Let_def cx_def [symmetric]
    by (auto split: prod.splits)
qed

lemma int15_move_at_zero_refused_witness:
  "snd (snd (Int15MoveBlockAt (\<lambda>m n. (m, 0)) demo_xms 512 0x600
     \<lparr>ExtendedMemoryRaw = 0, Function87Count = 0, Function87Refused = 0\<rparr> ((\<lambda>_. 0)(0x61B := 0x80))))
   = BIOS_MOVE_BLOCK_EXCEPTION"
  using int15_move_at_zero_refused [of 512 "(\<lambda>_. 0)(0x61B := 0x80)" "0x600" demo_xms]
  by (simp add: VDM_REG16_def BIOS_MOVE_BLOCK_WORDS_MAX_def DosExtMemDescriptorBase_def BIOS_MOVE_BLOCK_SOURCE_def)

end
