(* ===== verification/Dos_Ems.thy ===== *)
theory Dos_Ems
  imports Host_Store
begin

text \<open>
  The expanded memory manager, \<^verbatim>\<open>src/dos/dos_ems.h\<close>: handles that own logical 16 KB pages in
  host buffers, the four windows of the page frame, and page-frame shadowing, where mapping a
  page writes the outgoing window back to its buffer and copies the new page in. The frame and the
  buffers are ranges of one byte memory. A result is \<open>Inl\<close> the EMM status or \<open>Inr\<close> what the
  call returns; the backing store is the state's two routines (\<open>Host_Store\<close>).
\<close>

definition DOS_EMS_PAGE_SIZE :: nat where "DOS_EMS_PAGE_SIZE = 0x4000"
definition DOS_EMS_PHYSICAL_PAGES :: nat where "DOS_EMS_PHYSICAL_PAGES = 4"
definition DOS_EMS_FRAME_SIZE :: nat where "DOS_EMS_FRAME_SIZE = DOS_EMS_PHYSICAL_PAGES * DOS_EMS_PAGE_SIZE"
definition DOS_EMS_MAX_HANDLES :: nat where "DOS_EMS_MAX_HANDLES = 64"
definition DOS_EMS_UNMAP_LOGICAL_PAGE :: u16 where "DOS_EMS_UNMAP_LOGICAL_PAGE = 0xFFFF"
definition DOS_EMS_HANDLE_NAME_SIZE :: nat where "DOS_EMS_HANDLE_NAME_SIZE = 8"
definition DOS_EMS_HANDLE_PAGES_ENTRY_SIZE :: nat where "DOS_EMS_HANDLE_PAGES_ENTRY_SIZE = 4"

definition DOS_EMS_STATUS_OK :: u8 where "DOS_EMS_STATUS_OK = 0x00"
definition DOS_EMS_ERROR_INVALID_HANDLE :: u8 where "DOS_EMS_ERROR_INVALID_HANDLE = 0x83"
definition DOS_EMS_ERROR_UNDEFINED_FUNCTION :: u8 where "DOS_EMS_ERROR_UNDEFINED_FUNCTION = 0x84"
definition DOS_EMS_ERROR_NO_HANDLES :: u8 where "DOS_EMS_ERROR_NO_HANDLES = 0x85"
definition DOS_EMS_ERROR_TOO_MANY_PAGES :: u8 where "DOS_EMS_ERROR_TOO_MANY_PAGES = 0x87"
definition DOS_EMS_ERROR_NOT_ENOUGH_PAGES :: u8 where "DOS_EMS_ERROR_NOT_ENOUGH_PAGES = 0x88"
definition DOS_EMS_ERROR_ZERO_PAGES :: u8 where "DOS_EMS_ERROR_ZERO_PAGES = 0x89"
definition DOS_EMS_ERROR_INVALID_LOGICAL_PAGE :: u8 where "DOS_EMS_ERROR_INVALID_LOGICAL_PAGE = 0x8A"
definition DOS_EMS_ERROR_INVALID_PHYSICAL_PAGE :: u8 where "DOS_EMS_ERROR_INVALID_PHYSICAL_PAGE = 0x8B"
definition DOS_EMS_ERROR_MAP_ALREADY_SAVED :: u8 where "DOS_EMS_ERROR_MAP_ALREADY_SAVED = 0x8D"
definition DOS_EMS_ERROR_MAP_NOT_SAVED :: u8 where "DOS_EMS_ERROR_MAP_NOT_SAVED = 0x8E"
definition DOS_EMS_ERROR_INVALID_SUBFUNCTION :: u8 where "DOS_EMS_ERROR_INVALID_SUBFUNCTION = 0x8F"

lemmas ems_sizes = DOS_EMS_PAGE_SIZE_def DOS_EMS_PHYSICAL_PAGES_def DOS_EMS_FRAME_SIZE_def

subsection \<open>State\<close>

record window_mapping =
  MapHandle :: u16
  LogicalPage :: u16
  IsMapped :: bool

record dos_ems_handle =
  InUse :: bool
  Pages :: u16
  Memory :: nat
  IsMapSaved :: bool
  SavedMap :: "nat \<Rightarrow> window_mapping"
  Name :: "nat \<Rightarrow> u8"

record 'h dos_ems_state =
  FrameSegment :: u16
  TotalPages :: u16
  UsedPages :: u16
  PhysicalPages :: "nat \<Rightarrow> window_mapping"
  Frame :: nat
  Handles :: "nat \<Rightarrow> dos_ems_handle"
  Allocate :: "('h \<Rightarrow> mem \<Rightarrow> u32 \<Rightarrow> 'h \<times> mem \<times> nat) option"
  Free :: "('h \<Rightarrow> mem \<Rightarrow> nat \<Rightarrow> u32 \<Rightarrow> 'h \<times> mem) option"
  Context :: 'h

definition DosEmsClearHandleName :: "dos_ems_handle \<Rightarrow> dos_ems_handle" where
  "DosEmsClearHandleName entry = entry\<lparr>Name := (\<lambda>_. 0)\<rparr>"

text \<open>The saved maps are not cleared: they are read only where \<open>IsMapSaved\<close> is set.\<close>

definition DosEmsInitialize ::
  "'h dos_ems_state \<Rightarrow> u16 \<Rightarrow> u16 \<Rightarrow> nat \<Rightarrow> ('h \<Rightarrow> mem \<Rightarrow> u32 \<Rightarrow> 'h \<times> mem \<times> nat) option \<Rightarrow>
   ('h \<Rightarrow> mem \<Rightarrow> nat \<Rightarrow> u32 \<Rightarrow> 'h \<times> mem) option \<Rightarrow> 'h \<Rightarrow> 'h dos_ems_state" where
  "DosEmsInitialize state frameSegment totalPages frame allocate free context =
     \<lparr>FrameSegment = frameSegment, TotalPages = totalPages, UsedPages = 0,
      PhysicalPages = (\<lambda>_. \<lparr>MapHandle = 0, LogicalPage = 0, IsMapped = False\<rparr>),
      Frame = frame,
      Handles = (\<lambda>i. DosEmsClearHandleName ((Handles state i)\<lparr>InUse := False, Pages := 0, Memory := 0,
                   IsMapSaved := False\<rparr>)),
      Allocate = allocate, Free = free, Context = context\<rparr>"

definition DosEmsGetHandle :: "'h dos_ems_state \<Rightarrow> u16 \<Rightarrow> nat option" where
  "DosEmsGetHandle state handle =
     (if unat handle \<ge> DOS_EMS_MAX_HANDLES then None
      else if \<not> InUse (Handles state (unat handle)) then None
      else Some (unat handle))"

definition DosEmsCopyPage :: "nat \<Rightarrow> nat \<Rightarrow> mem \<Rightarrow> mem" where
  "DosEmsCopyPage destination source m = copy_up destination source DOS_EMS_PAGE_SIZE m"

definition window_address :: "'h dos_ems_state \<Rightarrow> nat \<Rightarrow> nat" where
  "window_address state w = Frame state + w * DOS_EMS_PAGE_SIZE"

definition page_address :: "dos_ems_handle \<Rightarrow> u16 \<Rightarrow> nat" where
  "page_address entry l = Memory entry + unat l * DOS_EMS_PAGE_SIZE"

definition DosEmsWriteBackWindow :: "'h dos_ems_state \<Rightarrow> nat \<Rightarrow> mem \<Rightarrow> mem" where
  "DosEmsWriteBackWindow state w m =
     (let mapping = PhysicalPages state w
      in if \<not> IsMapped mapping then m
         else case DosEmsGetHandle state (MapHandle mapping) of
                None \<Rightarrow> m
              | Some i \<Rightarrow>
                  (let entry = Handles state i
                   in if Memory entry \<noteq> 0 \<and> LogicalPage mapping < Pages entry
                      then DosEmsCopyPage (page_address entry (LogicalPage mapping)) (window_address state w) m
                      else m))"

definition DosEmsGetPageCounts :: "'h dos_ems_state \<Rightarrow> u16 \<times> u16" where
  "DosEmsGetPageCounts state = (TotalPages state - UsedPages state, TotalPages state)"

subsection \<open>Allocation\<close>

definition call_allocate :: "'h dos_ems_state \<Rightarrow> mem \<Rightarrow> u16 \<Rightarrow> 'h dos_ems_state \<times> mem \<times> nat" where
  \<comment> \<open>\<^verbatim>\<open>state->Allocate ? state->Allocate(state->Context, pages) : 0\<close>\<close>
  "call_allocate state m pages =
     (case Allocate state of
        None \<Rightarrow> (state, m, 0)
      | Some f \<Rightarrow> (let (h, m', p) = f (Context state) m (ucast pages) in (state\<lparr>Context := h\<rparr>, m', p)))"

definition call_free :: "'h dos_ems_state \<Rightarrow> mem \<Rightarrow> nat \<Rightarrow> u16 \<Rightarrow> 'h dos_ems_state \<times> mem" where
  \<comment> \<open>\<^verbatim>\<open>if (handleEntry->Memory && state->Free) state->Free(...)\<close>\<close>
  "call_free state m memory pages =
     (case Free state of
        Some f \<Rightarrow> (if memory \<noteq> 0 then (let (h, m') = f (Context state) m memory (ucast pages)
                                       in (state\<lparr>Context := h\<rparr>, m'))
                   else (state, m))
      | None \<Rightarrow> (state, m))"

text \<open>The page sums are C \<open>int\<close> arithmetic on promoted 16-bit values, which cannot wrap.\<close>

definition DosEmsAllocatePages ::
  "'h dos_ems_state \<Rightarrow> mem \<Rightarrow> u16 \<Rightarrow> 'h dos_ems_state \<times> mem \<times> (u8 + u16)" where
  "DosEmsAllocatePages state m pages =
     (if pages = 0 then (state, m, Inl DOS_EMS_ERROR_ZERO_PAGES)
      else if pages > TotalPages state then (state, m, Inl DOS_EMS_ERROR_TOO_MANY_PAGES)
      else if unat (UsedPages state) + unat pages > unat (TotalPages state)
      then (state, m, Inl DOS_EMS_ERROR_NOT_ENOUGH_PAGES)
      else let handleIndex = first_from (\<lambda>i. \<not> InUse (Handles state i)) 0 DOS_EMS_MAX_HANDLES
           in if handleIndex = DOS_EMS_MAX_HANDLES then (state, m, Inl DOS_EMS_ERROR_NO_HANDLES)
              else let (state1, m1, buffer) = call_allocate state m pages
                   in if buffer = 0 then (state1, m1, Inl DOS_EMS_ERROR_NOT_ENOUGH_PAGES)
                      else (state1\<lparr>Handles := (Handles state1)(handleIndex :=
                                DosEmsClearHandleName ((Handles state1 handleIndex)\<lparr>InUse := True,
                                  Pages := pages, Memory := buffer, IsMapSaved := False\<rparr>)),
                              UsedPages := UsedPages state1 + pages\<rparr>,
                            m1, Inr (of_nat handleIndex)))"

subsection \<open>Mapping\<close>

definition set_window :: "'h dos_ems_state \<Rightarrow> nat \<Rightarrow> window_mapping \<Rightarrow> 'h dos_ems_state" where
  "set_window state w mapping = state\<lparr>PhysicalPages := (PhysicalPages state)(w := mapping)\<rparr>"

definition unmap_window :: "'h dos_ems_state \<Rightarrow> nat \<Rightarrow> 'h dos_ems_state" where
  "unmap_window state w = set_window state w ((PhysicalPages state w)\<lparr>IsMapped := False\<rparr>)"

definition DosEmsMapPage ::
  "'h dos_ems_state \<Rightarrow> mem \<Rightarrow> u8 \<Rightarrow> u16 \<Rightarrow> u16 \<Rightarrow> 'h dos_ems_state \<times> mem \<times> (u8 + unit)" where
  "DosEmsMapPage state m physicalPage logicalPage handle =
     (let w = unat physicalPage
      in if w \<ge> DOS_EMS_PHYSICAL_PAGES then (state, m, Inl DOS_EMS_ERROR_INVALID_PHYSICAL_PAGE)
         else case DosEmsGetHandle state handle of
                None \<Rightarrow> (state, m, Inl DOS_EMS_ERROR_INVALID_HANDLE)
              | Some i \<Rightarrow>
                  (if logicalPage = DOS_EMS_UNMAP_LOGICAL_PAGE
                   then (unmap_window state w, DosEmsWriteBackWindow state w m, Inr ())
                   else if logicalPage \<ge> Pages (Handles state i)
                   then (state, m, Inl DOS_EMS_ERROR_INVALID_LOGICAL_PAGE)
                   else let m1 = DosEmsWriteBackWindow state w m;
                            m2 = DosEmsCopyPage (window_address state w)
                                   (page_address (Handles state i) logicalPage) m1
                        in (set_window state w
                              \<lparr>MapHandle = handle, LogicalPage = logicalPage, IsMapped = True\<rparr>,
                            m2, Inr ())))"

text \<open>The loops over the four windows.\<close>

definition drop_windows :: "'h dos_ems_state \<Rightarrow> (window_mapping \<Rightarrow> bool) \<Rightarrow> 'h dos_ems_state" where
  \<comment> \<open>\<^verbatim>\<open>for (...) if (IsMapped && ...) IsMapped = 0;\<close>\<close>
  "drop_windows state p =
     state\<lparr>PhysicalPages := (\<lambda>w. if w < DOS_EMS_PHYSICAL_PAGES \<and> IsMapped (PhysicalPages state w) \<and>
                                     p (PhysicalPages state w)
                                  then (PhysicalPages state w)\<lparr>IsMapped := False\<rparr>
                                  else PhysicalPages state w)\<rparr>"

definition flush_windows :: "'h dos_ems_state \<Rightarrow> u16 \<Rightarrow> mem \<Rightarrow> mem" where
  \<comment> \<open>\<^verbatim>\<open>for (...) if (IsMapped && Handle == handle) DosEmsWriteBackWindow(state, windowIndex);\<close>\<close>
  "flush_windows state handle m =
     fold (\<lambda>w m. if IsMapped (PhysicalPages state w) \<and> MapHandle (PhysicalPages state w) = handle
                 then DosEmsWriteBackWindow state w m else m)
       [0..<DOS_EMS_PHYSICAL_PAGES] m"

definition DosEmsDeallocatePages ::
  "'h dos_ems_state \<Rightarrow> mem \<Rightarrow> u16 \<Rightarrow> 'h dos_ems_state \<times> mem \<times> (u8 + unit)" where
  "DosEmsDeallocatePages state m handle =
     (case DosEmsGetHandle state handle of
        None \<Rightarrow> (state, m, Inl DOS_EMS_ERROR_INVALID_HANDLE)
      | Some i \<Rightarrow>
          (let state1 = drop_windows state (\<lambda>mapping. MapHandle mapping = handle);
               entry = Handles state i;
               (state2, m1) = call_free state1 m (Memory entry) (Pages entry)
           in (state2\<lparr>UsedPages := UsedPages state2 - Pages entry,
                 Handles := (Handles state2)(i :=
                   DosEmsClearHandleName ((Handles state2 i)\<lparr>InUse := False, Pages := 0, Memory := 0,
                     IsMapSaved := False\<rparr>))\<rparr>, m1, Inr ())))"

definition DosEmsReallocatePages ::
  "'h dos_ems_state \<Rightarrow> mem \<Rightarrow> u16 \<Rightarrow> u16 \<Rightarrow> 'h dos_ems_state \<times> mem \<times> (u8 + unit)" where
  "DosEmsReallocatePages state m handle newPages =
     (case DosEmsGetHandle state handle of
        None \<Rightarrow> (state, m, Inl DOS_EMS_ERROR_INVALID_HANDLE)
      | Some i \<Rightarrow>
          (let entry = Handles state i
           in if newPages = Pages entry then (state, m, Inr ())
              else if newPages > Pages entry \<and>
                      int (unat (UsedPages state)) - int (unat (Pages entry)) + int (unat newPages) > int (unat (TotalPages state))
              then (state, m, Inl DOS_EMS_ERROR_NOT_ENOUGH_PAGES)
              else let m1 = flush_windows state handle m;
                       (state1, m2, newBuffer) =
                         (if newPages > 0 then call_allocate state m1 newPages else (state, m1, 0))
                   in if newPages > 0 \<and> newBuffer = 0
                      then (state1, m2, Inl DOS_EMS_ERROR_NOT_ENOUGH_PAGES)
                      else let bytesToKeep = unat (if newPages < Pages entry then newPages else Pages entry)
                                               * DOS_EMS_PAGE_SIZE;
                               m3 = (if newPages > 0 then copy_up newBuffer (Memory entry) bytesToKeep m2 else m2);
                               state2 = drop_windows state1 (\<lambda>mapping. MapHandle mapping = handle \<and>
                                          LogicalPage mapping \<ge> newPages);
                               (state3, m4) = call_free state2 m3 (Memory entry) (Pages entry)
                           in (state3\<lparr>UsedPages := UsedPages state3 - Pages entry + newPages,
                                 Handles := (Handles state3)(i :=
                                   (Handles state3 i)\<lparr>Memory := newBuffer, Pages := newPages\<rparr>)\<rparr>,
                               m4, Inr ())))"

subsection \<open>Enquiries and names\<close>

definition DosEmsGetHandlePages :: "'h dos_ems_state \<Rightarrow> u16 \<Rightarrow> u8 + u16" where
  "DosEmsGetHandlePages state handle =
     (case DosEmsGetHandle state handle of
        None \<Rightarrow> Inl DOS_EMS_ERROR_INVALID_HANDLE
      | Some i \<Rightarrow> Inr (Pages (Handles state i)))"

definition DosEmsGetHandleCount :: "'h dos_ems_state \<Rightarrow> nat" where
  "DosEmsGetHandleCount state = length (filter (\<lambda>i. InUse (Handles state i)) [0..<DOS_EMS_MAX_HANDLES])"

text \<open>The {handle, pages} word pairs of the active handles, low bytes first.\<close>

definition DosEmsGetAllHandlePages :: "'h dos_ems_state \<Rightarrow> u8 list" where
  "DosEmsGetAllHandlePages state =
     concat (map (\<lambda>i. [of_nat i, of_nat (i div 256), ucast (Pages (Handles state i)),
                       ucast (drop_bit 8 (Pages (Handles state i)))])
               (filter (\<lambda>i. InUse (Handles state i)) [0..<DOS_EMS_MAX_HANDLES]))"

definition DosEmsGetSetHandleName ::
  "'h dos_ems_state \<Rightarrow> mem \<Rightarrow> u16 \<Rightarrow> bool \<Rightarrow> nat \<Rightarrow> 'h dos_ems_state \<times> mem \<times> (u8 + unit)" where
  "DosEmsGetSetHandleName state m handle isSetRequest name =
     (case DosEmsGetHandle state handle of
        None \<Rightarrow> (state, m, Inl DOS_EMS_ERROR_INVALID_HANDLE)
      | Some i \<Rightarrow>
          (if isSetRequest
           then (state\<lparr>Handles := (Handles state)(i := (Handles state i)\<lparr>Name :=
                    (\<lambda>j. if j < DOS_EMS_HANDLE_NAME_SIZE then m (name + j) else Name (Handles state i) j)\<rparr>)\<rparr>,
                 m, Inr ())
           else (state, (\<lambda>a. if name \<le> a \<and> a < name + DOS_EMS_HANDLE_NAME_SIZE
                             then Name (Handles state i) (a - name) else m a), Inr ())))"

subsection \<open>Saved page maps\<close>

definition DosEmsSavePageMap :: "'h dos_ems_state \<Rightarrow> u16 \<Rightarrow> 'h dos_ems_state \<times> (u8 + unit)" where
  "DosEmsSavePageMap state handle =
     (case DosEmsGetHandle state handle of
        None \<Rightarrow> (state, Inl DOS_EMS_ERROR_INVALID_HANDLE)
      | Some i \<Rightarrow>
          (if IsMapSaved (Handles state i) then (state, Inl DOS_EMS_ERROR_MAP_ALREADY_SAVED)
           else (state\<lparr>Handles := (Handles state)(i := (Handles state i)\<lparr>
                    SavedMap := (\<lambda>w. if w < DOS_EMS_PHYSICAL_PAGES then PhysicalPages state w
                                     else SavedMap (Handles state i) w),
                    IsMapSaved := True\<rparr>)\<rparr>, Inr ())))"

definition restore_window :: "nat \<Rightarrow> nat \<Rightarrow> 'h dos_ems_state \<times> mem \<Rightarrow> 'h dos_ems_state \<times> mem" where
  \<comment> \<open>one turn of the loop; the status of the inner map is not looked at\<close>
  "restore_window i w sm =
     (let (state, m) = sm; saved = SavedMap (Handles state i) w
      in if IsMapped saved
         then let (state', m', _) = DosEmsMapPage state m (of_nat w) (LogicalPage saved) (MapHandle saved)
              in (state', m')
         else (unmap_window state w, DosEmsWriteBackWindow state w m))"

definition DosEmsRestorePageMap ::
  "'h dos_ems_state \<Rightarrow> mem \<Rightarrow> u16 \<Rightarrow> 'h dos_ems_state \<times> mem \<times> (u8 + unit)" where
  "DosEmsRestorePageMap state m handle =
     (case DosEmsGetHandle state handle of
        None \<Rightarrow> (state, m, Inl DOS_EMS_ERROR_INVALID_HANDLE)
      | Some i \<Rightarrow>
          (if \<not> IsMapSaved (Handles state i) then (state, m, Inl DOS_EMS_ERROR_MAP_NOT_SAVED)
           else let (state1, m1) = fold (restore_window i) [0..<DOS_EMS_PHYSICAL_PAGES] (state, m)
                in (state1\<lparr>Handles := (Handles state1)(i := (Handles state1 i)\<lparr>IsMapSaved := False\<rparr>)\<rparr>,
                    m1, Inr ())))"

end
