(* ===== verification/Dos_Ems_Contract.thy ===== *)
theory Dos_Ems_Contract
  imports Dos_Ems Slot_Table
begin

text \<open>
  The expanded memory manager keeps its books and its pages. The handle table is a
  \<open>sized_slots\<close> table whose weights are pages; the buffers and the page frame are pairwise
  disjoint live ranges; a mapped window names a page its handle owns; and, as long as no page
  is mapped into two windows at once, what a client sees is an ideal page store.
\<close>

subsection \<open>The handle table\<close>

definition ems_used :: "(nat \<Rightarrow> dos_ems_handle) \<Rightarrow> nat \<Rightarrow> bool" where
  "ems_used hs i = InUse (hs i)"

definition ems_occupy :: "nat \<Rightarrow> dos_ems_handle \<Rightarrow> (nat \<Rightarrow> dos_ems_handle) \<Rightarrow> nat \<Rightarrow> dos_ems_handle" where
  "ems_occupy i a hs = hs(i := a\<lparr>InUse := True\<rparr>)"

definition ems_release :: "nat \<Rightarrow> (nat \<Rightarrow> dos_ems_handle) \<Rightarrow> nat \<Rightarrow> dos_ems_handle" where
  "ems_release i hs = hs(i := DosEmsClearHandleName ((hs i)\<lparr>InUse := False, Pages := 0, Memory := 0,
     IsMapSaved := False\<rparr>))"

definition ems_pages :: "(nat \<Rightarrow> dos_ems_handle) \<Rightarrow> nat \<Rightarrow> nat" where
  "ems_pages hs i = unat (Pages (hs i))"

interpretation ems: sized_slots ems_used ems_occupy ems_release DOS_EMS_MAX_HANDLES ems_pages
    "\<lambda>a. unat (Pages a)"
  by unfold_locales
    (auto simp: ems_used_def ems_occupy_def ems_release_def ems_pages_def DosEmsClearHandleName_def)

definition ems_books :: "'h dos_ems_state \<Rightarrow> bool" where
  "ems_books st \<longleftrightarrow>
     (\<forall>i. \<not> InUse (Handles st i) \<longrightarrow> Pages (Handles st i) = 0 \<and> \<not> IsMapSaved (Handles st i)) \<and>
     (\<forall>i. (Memory (Handles st i) = 0) = (Pages (Handles st i) = 0)) \<and>
     ems.total (Handles st) = unat (UsedPages st) \<and> unat (UsedPages st) \<le> unat (TotalPages st)"

subsection \<open>Pages, windows and where they lie\<close>

definition valid_page :: "'h dos_ems_state \<Rightarrow> u16 \<Rightarrow> u16 \<Rightarrow> bool" where
  "valid_page st h l \<longleftrightarrow> DosEmsGetHandle st h \<noteq> None \<and> l < Pages (Handles st (unat h))"

definition window_page :: "'h dos_ems_state \<Rightarrow> nat \<Rightarrow> (u16 \<times> u16) option" where
  \<comment> \<open>the page a window shows\<close>
  "window_page st w =
     (if w < DOS_EMS_PHYSICAL_PAGES \<and> IsMapped (PhysicalPages st w)
      then Some (MapHandle (PhysicalPages st w), LogicalPage (PhysicalPages st w)) else None)"

definition ems_windows :: "'h dos_ems_state \<Rightarrow> bool" where
  "ems_windows st \<longleftrightarrow> (\<forall>w h l. window_page st w = Some (h, l) \<longrightarrow> valid_page st h l)"

definition ems_blocks :: "'h dos_ems_state \<Rightarrow> nat option \<Rightarrow> (nat \<times> nat) option" where
  \<comment> \<open>the page frame and the handles' buffers\<close>
  "ems_blocks st k =
     (case k of
        None \<Rightarrow> Some (Frame st, DOS_EMS_FRAME_SIZE)
      | Some i \<Rightarrow> (if Memory (Handles st i) = 0 then None
                    else Some (Memory (Handles st i), unat (Pages (Handles st i)) * DOS_EMS_PAGE_SIZE)))"

definition ems_ready :: "('h \<Rightarrow> (nat \<times> nat) set) \<Rightarrow> 'h dos_ems_state \<Rightarrow> bool" where
  "ems_ready live st \<longleftrightarrow> ems_books st \<and> ems_windows st \<and> blocks_ok (live (Context st)) (ems_blocks st) \<and>
     (\<exists>A F. Allocate st = Some A \<and> Free st = Some F \<and> unit_store DOS_EMS_PAGE_SIZE A F live)"

abbreviation window_block :: "'h dos_ems_state \<Rightarrow> nat \<Rightarrow> nat \<times> nat" where
  "window_block st w \<equiv> (window_address st w, DOS_EMS_PAGE_SIZE)"

abbreviation page_block :: "'h dos_ems_state \<Rightarrow> u16 \<Rightarrow> u16 \<Rightarrow> nat \<times> nat" where
  "page_block st h l \<equiv> (page_address (Handles st (unat h)) l, DOS_EMS_PAGE_SIZE)"

lemma get_handle_Some:
  "DosEmsGetHandle st h = Some i \<longleftrightarrow> i = unat h \<and> i < DOS_EMS_MAX_HANDLES \<and> InUse (Handles st i)"
  by (auto simp: DosEmsGetHandle_def)

lemma unit_in_block:
  assumes "(l :: nat) < n" "a + n * DOS_EMS_PAGE_SIZE \<le> b \<or> b + k \<le> (a :: nat)"
  shows "a + l * DOS_EMS_PAGE_SIZE + DOS_EMS_PAGE_SIZE \<le> b \<or> b + k \<le> a + l * DOS_EMS_PAGE_SIZE"
proof -
  have "Suc l * DOS_EMS_PAGE_SIZE \<le> n * DOS_EMS_PAGE_SIZE" using assms(1) by (intro mult_le_mono1) simp
  with assms(2) show ?thesis by (auto simp: algebra_simps)
qed

lemma units_apart:
  assumes "(l :: nat) \<noteq> l'"
  shows "apart (a + l * DOS_EMS_PAGE_SIZE, DOS_EMS_PAGE_SIZE) (a + l' * DOS_EMS_PAGE_SIZE, DOS_EMS_PAGE_SIZE)"
proof -
  have "Suc l * DOS_EMS_PAGE_SIZE \<le> l' * DOS_EMS_PAGE_SIZE \<or> Suc l' * DOS_EMS_PAGE_SIZE \<le> l * DOS_EMS_PAGE_SIZE"
    using assms by (metis linorder_neqE_nat mult_le_mono1 Suc_leI)
  then show ?thesis by (auto simp: apart_def range_free_def algebra_simps)
qed

lemma windows_apart: "w \<noteq> w' \<Longrightarrow> apart (window_block st w) (window_block st w')"
  unfolding window_address_def by (rule units_apart)

lemma valid_block:
  assumes "ems_books st" "valid_page st h l"
  shows "ems_blocks st (Some (unat h)) =
      Some (Memory (Handles st (unat h)), unat (Pages (Handles st (unat h))) * DOS_EMS_PAGE_SIZE)"
    and "unat l < unat (Pages (Handles st (unat h)))"
proof -
  have "l < Pages (Handles st (unat h))" using assms(2) by (simp add: valid_page_def)
  then show lt: "unat l < unat (Pages (Handles st (unat h)))" by (simp add: word_less_nat_alt)
  then have "Pages (Handles st (unat h)) \<noteq> 0" by auto
  with assms(1) show "ems_blocks st (Some (unat h)) =
      Some (Memory (Handles st (unat h)), unat (Pages (Handles st (unat h))) * DOS_EMS_PAGE_SIZE)"
    by (simp add: ems_blocks_def ems_books_def)
qed

lemma page_window_apart:
  assumes r: "ems_ready live st" and v: "valid_page st h l" and w: "w < DOS_EMS_PHYSICAL_PAGES"
  shows "apart (page_block st h l) (window_block st w)"
proof -
  have b: "ems_books st" "blocks_ok (live (Context st)) (ems_blocks st)"
    using r unfolding ems_ready_def by blast+
  let ?m = "Memory (Handles st (unat h))" and ?n = "unat (Pages (Handles st (unat h)))"
  have "apart (?m, ?n * DOS_EMS_PAGE_SIZE) (Frame st, DOS_EMS_FRAME_SIZE)"
    using blocks_apart [OF b(2) _ valid_block(1) [OF b(1) v], of None] by (simp add: ems_blocks_def)
  then have "?m + ?n * DOS_EMS_PAGE_SIZE \<le> Frame st \<or> Frame st + DOS_EMS_FRAME_SIZE \<le> ?m"
    by (simp add: apart_def range_free_def)
  from unit_in_block [OF valid_block(2) [OF b(1) v] this]
  have p: "page_address (Handles st (unat h)) l + DOS_EMS_PAGE_SIZE \<le> Frame st \<or>
      Frame st + DOS_EMS_FRAME_SIZE \<le> page_address (Handles st (unat h)) l"
    by (simp add: page_address_def)
  have "Frame st \<le> window_address st w" "window_address st w + DOS_EMS_PAGE_SIZE \<le> Frame st + DOS_EMS_FRAME_SIZE"
    using w by (simp_all add: window_address_def ems_sizes)
  with p show ?thesis by (auto simp: apart_def range_free_def)
qed

lemma pages_apart:
  assumes r: "ems_ready live st" and v: "valid_page st h l" "valid_page st h' l'"
    and ne: "(h, l) \<noteq> (h', l')"
  shows "apart (page_block st h l) (page_block st h' l')"
proof (cases "h = h'")
  case True
  with ne have "unat l \<noteq> unat l'" by (auto simp: word_unat_eq_iff)
  with True show ?thesis unfolding page_address_def by (auto intro: units_apart)
next
  case False
  have b: "ems_books st" "blocks_ok (live (Context st)) (ems_blocks st)"
    using r unfolding ems_ready_def by blast+
  let ?a = "Memory (Handles st (unat h))" and ?n = "unat (Pages (Handles st (unat h)))"
  let ?a' = "Memory (Handles st (unat h'))" and ?n' = "unat (Pages (Handles st (unat h')))"
  have "apart (?a, ?n * DOS_EMS_PAGE_SIZE) (?a', ?n' * DOS_EMS_PAGE_SIZE)"
    by (rule blocks_apart [OF b(2) _ valid_block(1) [OF b(1) v(1)] valid_block(1) [OF b(1) v(2)]])
      (use False in \<open>simp add: word_unat_eq_iff\<close>)
  then have x: "?a + ?n * DOS_EMS_PAGE_SIZE \<le> ?a' \<or> ?a' + ?n' * DOS_EMS_PAGE_SIZE \<le> ?a"
    by (simp add: apart_def range_free_def)
  let ?p = "page_address (Handles st (unat h)) l" and ?p' = "page_address (Handles st (unat h')) l'"
  from unit_in_block [OF valid_block(2) [OF b(1) v(1)] x]
  have y: "?p + DOS_EMS_PAGE_SIZE \<le> ?a' \<or> ?a' + ?n' * DOS_EMS_PAGE_SIZE \<le> ?p"
    by (simp add: page_address_def)
  then have "?a' + ?n' * DOS_EMS_PAGE_SIZE \<le> ?p \<or> ?p + DOS_EMS_PAGE_SIZE \<le> ?a'" by blast
  from unit_in_block [OF valid_block(2) [OF b(1) v(2)] this]
  show ?thesis by (auto simp: apart_def range_free_def page_address_def)
qed
subsection \<open>What a copy does to the pages\<close>

lemma copy_page_apart:
  "apart (d, DOS_EMS_PAGE_SIZE) (s, DOS_EMS_PAGE_SIZE) \<Longrightarrow>
   DosEmsCopyPage d s m = mem_copied d s DOS_EMS_PAGE_SIZE m"
  unfolding DosEmsCopyPage_def by (rule copy_up_correct) (auto simp: apart_def range_free_def)

lemma copied_apart:
  assumes "apart (d, DOS_EMS_PAGE_SIZE) (e, DOS_EMS_PAGE_SIZE)" "b < DOS_EMS_PAGE_SIZE"
  shows "mem_copied d s DOS_EMS_PAGE_SIZE m (e + b) = m (e + b)"
  using assms by (auto simp: mem_copied_def apart_def range_free_def)

lemma window_page_valid:
  "ems_ready live st \<Longrightarrow> window_page st w = Some (h, l) \<Longrightarrow> valid_page st h l \<and> w < DOS_EMS_PHYSICAL_PAGES"
  by (auto simp: ems_ready_def ems_windows_def window_page_def split: if_splits)

lemma write_back_eq:
  assumes r: "ems_ready live st" and w: "w < DOS_EMS_PHYSICAL_PAGES"
  shows "DosEmsWriteBackWindow st w m =
    (case window_page st w of
       None \<Rightarrow> m
     | Some (h, l) \<Rightarrow> mem_copied (page_address (Handles st (unat h)) l) (window_address st w) DOS_EMS_PAGE_SIZE m)"
proof (cases "IsMapped (PhysicalPages st w)")
  case False
  then show ?thesis by (simp add: DosEmsWriteBackWindow_def window_page_def)
next
  case True
  let ?h = "MapHandle (PhysicalPages st w)" and ?l = "LogicalPage (PhysicalPages st w)"
  have p: "window_page st w = Some (?h, ?l)" using True w by (simp add: window_page_def)
  with window_page_valid [OF r] have v: "valid_page st ?h ?l" by blast
  have books: "ems_books st" using r unfolding ems_ready_def by blast
  have "Pages (Handles st (unat ?h)) \<noteq> 0" using valid_block(2) [OF books v] by auto
  then have "Memory (Handles st (unat ?h)) \<noteq> 0" using books by (simp add: ems_books_def)
  moreover obtain i where "DosEmsGetHandle st ?h = Some i" "?l < Pages (Handles st (unat ?h))"
    using v by (auto simp: valid_page_def)
  moreover from this have "i = unat ?h" by (simp add: get_handle_Some)
  ultimately show ?thesis
    using True p page_window_apart [OF r v w, THEN copy_page_apart, of m]
    by (simp add: DosEmsWriteBackWindow_def Let_def)
qed

text \<open>What a write-back does: the page of the window gets its bytes, every other place keeps its own.\<close>

lemma write_back_page:
  assumes "ems_ready live st" "window_page st w = Some (h, l)" "b < DOS_EMS_PAGE_SIZE"
  shows "DosEmsWriteBackWindow st w m (page_address (Handles st (unat h)) l + b) = m (window_address st w + b)"
  using assms window_page_valid [OF assms(1,2)] write_back_eq [OF assms(1), of w m] by (simp add: mem_facts)

lemma write_back_window:
  assumes "ems_ready live st" "w < DOS_EMS_PHYSICAL_PAGES" "w' < DOS_EMS_PHYSICAL_PAGES" "b < DOS_EMS_PAGE_SIZE"
  shows "DosEmsWriteBackWindow st w m (window_address st w' + b) = m (window_address st w' + b)"
proof (cases "window_page st w")
  case (Some p)
  obtain h l where p: "p = (h, l)" by fastforce
  with window_page_valid [OF assms(1)] Some have "valid_page st h l" by blast
  from copied_apart [OF page_window_apart [OF assms(1) this assms(3)] assms(4)]
  show ?thesis by (simp add: write_back_eq [OF assms(1,2)] Some p)
qed (simp add: write_back_eq [OF assms(1,2)])

lemma write_back_other_page:
  assumes "ems_ready live st" "w < DOS_EMS_PHYSICAL_PAGES" "valid_page st h l"
    "window_page st w \<noteq> Some (h, l)" "b < DOS_EMS_PAGE_SIZE"
  shows "DosEmsWriteBackWindow st w m (page_address (Handles st (unat h)) l + b) =
    m (page_address (Handles st (unat h)) l + b)"
proof (cases "window_page st w")
  case (Some p)
  obtain h' l' where p: "p = (h', l')" by fastforce
  with window_page_valid [OF assms(1)] Some have "valid_page st h' l'" by blast
  from copied_apart [OF pages_apart [OF assms(1) this assms(3)] assms(5)] Some p assms(4)
  show ?thesis by (simp add: write_back_eq [OF assms(1,2)])
qed (simp add: write_back_eq [OF assms(1,2)])

subsection \<open>The page a client sees\<close>

definition no_alias :: "'h dos_ems_state \<Rightarrow> bool" where
  "no_alias st \<longleftrightarrow>
     (\<forall>w w' p. window_page st w = Some p \<longrightarrow> window_page st w' = Some p \<longrightarrow> w = w')"

definition page_view :: "'h dos_ems_state \<Rightarrow> mem \<Rightarrow> u16 \<Rightarrow> u16 \<Rightarrow> nat \<Rightarrow> u8" where
  \<comment> \<open>byte \<open>b\<close> of a page: in the window that shows it, or in its handle's buffer\<close>
  "page_view st m h l b =
     (let w = first_from (\<lambda>w. window_page st w = Some (h, l)) 0 DOS_EMS_PHYSICAL_PAGES
      in if \<not> (valid_page st h l \<and> b < DOS_EMS_PAGE_SIZE) then 0
         else if w < DOS_EMS_PHYSICAL_PAGES then m (window_address st w + b)
         else m (page_address (Handles st (unat h)) l + b))"

lemma view_resident:
  assumes "ems_ready live st" "no_alias st" "window_page st w = Some (h, l)" "b < DOS_EMS_PAGE_SIZE"
  shows "page_view st m h l b = m (window_address st w + b)"
proof -
  let ?w = "first_from (\<lambda>w. window_page st w = Some (h, l)) 0 DOS_EMS_PHYSICAL_PAGES"
  have v: "valid_page st h l" "w < DOS_EMS_PHYSICAL_PAGES" using window_page_valid [OF assms(1,3)] by simp_all
  with assms(3) have "?w \<noteq> DOS_EMS_PHYSICAL_PAGES" by (auto simp: first_from_full)
  then have lt: "?w < DOS_EMS_PHYSICAL_PAGES" using first_from_le le_neq_implies_less by blast
  from first_from_holds [OF lt] assms(2,3) have "?w = w" unfolding no_alias_def by blast
  with lt v(1) assms(4) show ?thesis by (simp add: page_view_def Let_def)
qed

lemma view_away:
  assumes "\<And>w. window_page st w \<noteq> Some (h, l)" "valid_page st h l" "b < DOS_EMS_PAGE_SIZE"
  shows "page_view st m h l b = m (page_address (Handles st (unat h)) l + b)"
proof -
  have "first_from (\<lambda>w. window_page st w = Some (h, l)) 0 DOS_EMS_PHYSICAL_PAGES = DOS_EMS_PHYSICAL_PAGES"
    using assms(1) by (simp add: first_from_full)
  with assms(2,3) show ?thesis by (simp add: page_view_def)
qed

lemma view_outside: "\<not> (valid_page st h l \<and> b < DOS_EMS_PAGE_SIZE) \<Longrightarrow> page_view st m h l b = 0"
  by (simp add: page_view_def)

text \<open>Changing a window's mapping leaves handles, buffers and books alone.\<close>

lemma set_window_keeps:
  "Handles (set_window st w x) = Handles st" "UsedPages (set_window st w x) = UsedPages st"
  "TotalPages (set_window st w x) = TotalPages st" "Context (set_window st w x) = Context st"
  "Allocate (set_window st w x) = Allocate st" "Free (set_window st w x) = Free st"
  "Frame (set_window st w x) = Frame st" "PhysicalPages (set_window st w x) = (PhysicalPages st)(w := x)"
  by (simp_all add: set_window_def)

lemma valid_page_cong:
  "Handles st' = Handles st \<Longrightarrow> valid_page st' h l = valid_page st h l"
  by (simp add: valid_page_def DosEmsGetHandle_def)

lemma window_page_set:
  "w < DOS_EMS_PHYSICAL_PAGES \<Longrightarrow> window_page (set_window st w x) =
     (window_page st)(w := if IsMapped x then Some (MapHandle x, LogicalPage x) else None)"
  by (auto simp: window_page_def set_window_keeps fun_eq_iff)

lemma ems_blocks_cong: "Handles st' = Handles st \<Longrightarrow> Frame st' = Frame st \<Longrightarrow> ems_blocks st' = ems_blocks st"
  by (rule ext) (simp add: ems_blocks_def split: option.split)

lemma ready_set_window:
  assumes r: "ems_ready live st" and w: "w < DOS_EMS_PHYSICAL_PAGES"
    and x: "IsMapped x \<Longrightarrow> valid_page st (MapHandle x) (LogicalPage x)"
  shows "ems_ready live (set_window st w x)"
proof -
  have "ems_windows (set_window st w x)"
    using r x unfolding ems_ready_def ems_windows_def
    by (auto simp: window_page_set [OF w] valid_page_cong [OF set_window_keeps(1)] split: if_splits)
  moreover have "ems_blocks (set_window st w x) = ems_blocks st"
    by (rule ems_blocks_cong) (simp_all add: set_window_keeps)
  ultimately show ?thesis using r by (simp add: ems_ready_def ems_books_def set_window_keeps)
qed

lemma DosEmsMapPage_Inr:
  assumes "DosEmsMapPage st m p l h = (st', m', Inr ())"
  obtains (unmapped) "l = DOS_EMS_UNMAP_LOGICAL_PAGE" "st' = unmap_window st (unat p)"
      "m' = DosEmsWriteBackWindow st (unat p) m" "unat p < DOS_EMS_PHYSICAL_PAGES" "DosEmsGetHandle st h \<noteq> None"
    | (mapped) "l \<noteq> DOS_EMS_UNMAP_LOGICAL_PAGE" "valid_page st h l" "unat p < DOS_EMS_PHYSICAL_PAGES"
      "st' = set_window st (unat p) \<lparr>MapHandle = h, LogicalPage = l, IsMapped = True\<rparr>"
      "m' = DosEmsCopyPage (window_address st (unat p)) (page_address (Handles st (unat h)) l)
        (DosEmsWriteBackWindow st (unat p) m)"
proof -
  obtain i where i: "DosEmsGetHandle st h = Some i" "unat p < DOS_EMS_PHYSICAL_PAGES"
    using assms by (auto simp: DosEmsMapPage_def Let_def split: if_splits option.splits)
  then have "i = unat h" by (simp add: get_handle_Some)
  with i assms show thesis
    by (cases "l = DOS_EMS_UNMAP_LOGICAL_PAGE")
      (auto simp: DosEmsMapPage_def Let_def valid_page_def split: if_splits intro: unmapped mapped)
qed

lemma DosEmsMapPage_Inl:
  "DosEmsMapPage st m p l h = (st', m', Inl e) \<Longrightarrow> st' = st \<and> m' = m"
  by (auto simp: DosEmsMapPage_def Let_def split: if_splits option.splits)

lemma ready_map:
  assumes r: "ems_ready live st" and call: "DosEmsMapPage st m p l h = (st', m', res)"
  shows "ems_ready live st' \<and> Handles st' = Handles st"
proof (cases res)
  case (Inr u)
  then have "DosEmsMapPage st m p l h = (st', m', Inr ())" using call by simp
  then show ?thesis
    by (cases rule: DosEmsMapPage_Inr)
      (auto simp: unmap_window_def set_window_keeps intro!: ready_set_window [OF r])
qed (use r call in \<open>auto dest: DosEmsMapPage_Inl\<close>)
subsection \<open>Mapping refines an ideal page store\<close>

lemma write_back_view:
  assumes r: "ems_ready live st" "no_alias st" and w: "w < DOS_EMS_PHYSICAL_PAGES"
    and v: "valid_page st h l" and b: "b < DOS_EMS_PAGE_SIZE"
    and elsewhere: "\<And>w'. w' \<noteq> w \<Longrightarrow> window_page st w' \<noteq> Some (h, l)"
  shows "DosEmsWriteBackWindow st w m (page_address (Handles st (unat h)) l + b) = page_view st m h l b"
proof (cases "window_page st w = Some (h, l)")
  case True
  with write_back_page [OF r(1) True b] view_resident [OF r True b] show ?thesis by simp
next
  case False
  have away: "window_page st w' \<noteq> Some (h, l)" for w' using False elsewhere by (cases "w' = w") auto
  from write_back_other_page [OF r(1) w v False b] view_away [OF away v b] show ?thesis by simp
qed

lemma map_window_page:
  assumes "DosEmsMapPage st m p l h = (st', m', Inr ())"
  shows "window_page st' = (window_page st)(unat p := if l = DOS_EMS_UNMAP_LOGICAL_PAGE then None else Some (h, l))"
    and "window_address st' = window_address st" and "unat p < DOS_EMS_PHYSICAL_PAGES"
proof -
  show w: "unat p < DOS_EMS_PHYSICAL_PAGES" using assms by (cases rule: DosEmsMapPage_Inr) auto
  show "window_page st' = (window_page st)(unat p := if l = DOS_EMS_UNMAP_LOGICAL_PAGE then None else Some (h, l))"
    using assms by (cases rule: DosEmsMapPage_Inr) (simp_all add: unmap_window_def window_page_set)
  show "window_address st' = window_address st"
    using assms by (cases rule: DosEmsMapPage_Inr)
      (simp_all add: unmap_window_def window_address_def set_window_keeps fun_eq_iff)
qed

lemma map_no_alias:
  assumes "no_alias st" "DosEmsMapPage st m p l h = (st', m', Inr ())"
    and "\<And>w. w \<noteq> unat p \<Longrightarrow> l \<noteq> DOS_EMS_UNMAP_LOGICAL_PAGE \<Longrightarrow> window_page st w \<noteq> Some (h, l)"
  shows "no_alias st'"
  using assms(1,3) unfolding no_alias_def map_window_page(1) [OF assms(2)] by (auto split: if_splits)

text \<open>What a map does to memory: the other windows and the buffers that are not written back.\<close>

lemma map_other_window:
  assumes r: "ems_ready live st" and call: "DosEmsMapPage st m p l h = (st', m', Inr ())"
    and w: "w \<noteq> unat p" "w < DOS_EMS_PHYSICAL_PAGES" and b: "b < DOS_EMS_PAGE_SIZE"
  shows "m' (window_address st w + b) = m (window_address st w + b)"
  using call
proof (cases rule: DosEmsMapPage_Inr)
  case unmapped
  with write_back_window [OF r _ w(2) b] show ?thesis by simp
next
  case mapped
  have "apart (window_block st (unat p)) (page_block st h l)"
    using page_window_apart [OF r mapped(2,3)] by (simp add: apart_sym)
  from copy_page_apart [OF this] copied_apart [OF windows_apart [OF w(1) [symmetric], of st] b] mapped(5)
    write_back_window [OF r mapped(3) w(2) b] show ?thesis by simp
qed

lemma map_page_bytes:
  assumes r: "ems_ready live st" and call: "DosEmsMapPage st m p l h = (st', m', Inr ())"
    and v: "valid_page st h' l'" and b: "b < DOS_EMS_PAGE_SIZE"
  shows "m' (page_address (Handles st (unat h')) l' + b) =
    DosEmsWriteBackWindow st (unat p) m (page_address (Handles st (unat h')) l' + b)"
  using call
proof (cases rule: DosEmsMapPage_Inr)
  case mapped
  have "apart (window_block st (unat p)) (page_block st h l)" "apart (window_block st (unat p)) (page_block st h' l')"
    using page_window_apart [OF r mapped(2,3)] page_window_apart [OF r v mapped(3)]
    by (simp_all add: apart_sym)
  with copy_page_apart copied_apart b mapped(5) show ?thesis by simp
qed simp

lemma map_this_window:
  assumes r: "ems_ready live st" and call: "DosEmsMapPage st m p l h = (st', m', Inr ())"
    and l: "l \<noteq> DOS_EMS_UNMAP_LOGICAL_PAGE" and b: "b < DOS_EMS_PAGE_SIZE"
  shows "m' (window_address st (unat p) + b) =
    DosEmsWriteBackWindow st (unat p) m (page_address (Handles st (unat h)) l + b)"
    and "valid_page st h l"
proof -
  from call l have c: "valid_page st h l" "unat p < DOS_EMS_PHYSICAL_PAGES"
    "m' = DosEmsCopyPage (window_address st (unat p)) (page_address (Handles st (unat h)) l)
        (DosEmsWriteBackWindow st (unat p) m)"
    by (auto elim: DosEmsMapPage_Inr)
  have "apart (window_block st (unat p)) (page_block st h l)"
    using page_window_apart [OF r c(1,2)] by (simp add: apart_sym)
  from copy_page_apart [OF this] b c show "m' (window_address st (unat p) + b) =
    DosEmsWriteBackWindow st (unat p) m (page_address (Handles st (unat h)) l + b)"
    and "valid_page st h l" by (simp_all add: mem_facts)
qed

lemma map_view:
  assumes r: "ems_ready live st" "no_alias st" and call: "DosEmsMapPage st m p l h = (st', m', Inr ())"
    and fresh: "\<And>w. w \<noteq> unat p \<Longrightarrow> l \<noteq> DOS_EMS_UNMAP_LOGICAL_PAGE \<Longrightarrow> window_page st w \<noteq> Some (h, l)"
  shows "page_view st' m' = page_view st m"
proof (intro ext)
  fix h' l' b
  have r': "ems_ready live st'" "Handles st' = Handles st" using ready_map [OF r(1) call] by simp_all
  have a': "no_alias st'" by (rule map_no_alias [OF r(2) call fresh])
  note vp = valid_page_cong [OF r'(2)] and wp = map_window_page [OF call]
  show "page_view st' m' h' l' b = page_view st m h' l' b"
  proof (cases "valid_page st h' l' \<and> b < DOS_EMS_PAGE_SIZE")
    case False
    with vp show ?thesis by (simp add: page_view_def)
  next
    case True
    then have v: "valid_page st h' l'" and b: "b < DOS_EMS_PAGE_SIZE" by simp_all
    consider (mapped) "l \<noteq> DOS_EMS_UNMAP_LOGICAL_PAGE" "(h', l') = (h, l)"
      | (stays) w where "w \<noteq> unat p" "window_page st w = Some (h', l')"
      | (away) "\<And>w. w \<noteq> unat p \<Longrightarrow> window_page st w \<noteq> Some (h', l')"
        "l = DOS_EMS_UNMAP_LOGICAL_PAGE \<or> (h', l') \<noteq> (h, l)"
      by blast
    then show ?thesis
    proof cases
      case mapped
      have "window_page st' (unat p) = Some (h', l')" using mapped by (simp add: wp)
      from view_resident [OF r'(1) a' this b] map_this_window(1) [OF r(1) call mapped(1) b]
        write_back_view [OF r wp(3) v b] fresh mapped show ?thesis by (auto simp: wp(2))
    next
      case stays
      have "window_page st' w = Some (h', l')" using stays by (simp add: wp)
      from view_resident [OF r'(1) a' this b] view_resident [OF r stays(2) b]
        map_other_window [OF r(1) call stays(1) _ b] window_page_valid [OF r(1) stays(2)]
      show ?thesis by (simp add: wp(2))
    next
      case away
      have "window_page st' w \<noteq> Some (h', l')" for w using away by (auto simp: wp)
      from view_away [OF this v [folded vp] b] map_page_bytes [OF r(1) call v b]
        write_back_view [OF r wp(3) v b away(1)] show ?thesis by (simp add: r'(2))
    qed
  qed
qed

text \<open>The ideal page store and its steps; \<open>None\<close> is a map that would show a page twice.\<close>

record page_store =
  Store :: "u16 \<Rightarrow> u16 \<Rightarrow> nat \<Rightarrow> u8"
  Shown :: "nat \<Rightarrow> (u16 \<times> u16) option"

datatype ems_op = EMap u8 u16 u16 | EWrite nat nat u8

definition store_step :: "(u16 \<Rightarrow> u16 \<Rightarrow> bool) \<Rightarrow> (u16 \<Rightarrow> bool) \<Rightarrow> ems_op \<Rightarrow> page_store \<Rightarrow> page_store option" where
  "store_step owns is_open op s =
     (case op of
        EMap p l h \<Rightarrow>
          (if unat p < DOS_EMS_PHYSICAL_PAGES \<and> is_open h \<and> (l = DOS_EMS_UNMAP_LOGICAL_PAGE \<or> owns h l)
           then if l \<noteq> DOS_EMS_UNMAP_LOGICAL_PAGE \<and>
                   (\<exists>w<DOS_EMS_PHYSICAL_PAGES. w \<noteq> unat p \<and> Shown s w = Some (h, l)) then None
                else Some (s\<lparr>Shown := (Shown s)(unat p :=
                       if l = DOS_EMS_UNMAP_LOGICAL_PAGE then None else Some (h, l))\<rparr>)
           else Some s)
      | EWrite w b v \<Rightarrow>
          (case Shown s w of
             Some (h, l) \<Rightarrow>
               Some (s\<lparr>Store := (Store s)(h := (Store s h)(l := (Store s h l)(b := v)))\<rparr>)
           | None \<Rightarrow> Some s))"

definition ems_step :: "ems_op \<Rightarrow> 'h dos_ems_state \<times> mem \<Rightarrow> 'h dos_ems_state \<times> mem" where
  \<comment> \<open>a map call, or a store by the guest to byte \<open>b\<close> of window \<open>w\<close>\<close>
  "ems_step op sm =
     (let (st, m) = sm in case op of
        EMap p l h \<Rightarrow> (let (st', m', _) = DosEmsMapPage st m p l h in (st', m'))
      | EWrite w b v \<Rightarrow> (st, m(window_address st w + b := v)))"

definition abs_store :: "'h dos_ems_state \<Rightarrow> mem \<Rightarrow> page_store" where
  "abs_store st m = \<lparr>Store = page_view st m, Shown = window_page st\<rparr>"

lemma window_bytes_differ:
  assumes "w \<noteq> w'" "b < DOS_EMS_PAGE_SIZE" "b' < DOS_EMS_PAGE_SIZE"
  shows "window_address st w + b \<noteq> window_address st w' + b'"
  using windows_apart [OF assms(1), of st] assms(2,3) by (auto simp: apart_def range_free_def)

lemma write_view:
  assumes r: "ems_ready live st" "no_alias st" and w: "w < DOS_EMS_PHYSICAL_PAGES" "b < DOS_EMS_PAGE_SIZE"
  shows "page_view st (m(window_address st w + b := v)) h' l' b' =
    (if window_page st w = Some (h', l') \<and> b' = b then v else page_view st m h' l' b')"
proof (cases "valid_page st h' l' \<and> b' < DOS_EMS_PAGE_SIZE")
  case False
  then show ?thesis using w window_page_valid [OF r(1)] by (auto simp: page_view_def)
next
  case True
  show ?thesis
  proof (cases "\<exists>w'. window_page st w' = Some (h', l')")
    case shown: True
    then obtain w' where w': "window_page st w' = Some (h', l')" by blast
    show ?thesis
    proof (cases "w' = w")
      case True
      with w' w(2) view_resident [OF r w'] \<open>valid_page st h' l' \<and> b' < DOS_EMS_PAGE_SIZE\<close> show ?thesis by simp
    next
      case False
      with r(2) w' have "window_page st w \<noteq> Some (h', l')" unfolding no_alias_def by blast
      moreover have "window_address st w' + b' \<noteq> window_address st w + b"
        by (rule window_bytes_differ [OF False]) (use True w(2) in simp_all)
      ultimately show ?thesis using view_resident [OF r w'] True by simp
    qed
  next
    case False
    then have away: "window_page st w' \<noteq> Some (h', l')" for w' by blast
    have "page_address (Handles st (unat h')) l' + b' \<noteq> window_address st w + b"
      using page_window_apart [OF r(1) conjunct1 [OF True] w(1)] True w(2)
      by (auto simp: apart_def range_free_def)
    with away view_away [OF away] True show ?thesis by simp
  qed
qed
definition ems_open :: "'h dos_ems_state \<Rightarrow> u16 \<Rightarrow> bool" where
  "ems_open st h \<longleftrightarrow> DosEmsGetHandle st h \<noteq> None"

lemma map_succeeds:
  "(\<exists>st' m'. DosEmsMapPage st m p l h = (st', m', Inr ())) \<longleftrightarrow>
   unat p < DOS_EMS_PHYSICAL_PAGES \<and> ems_open st h \<and> (l = DOS_EMS_UNMAP_LOGICAL_PAGE \<or> valid_page st h l)"
proof (cases "DosEmsGetHandle st h")
  case (Some i)
  then have "i = unat h" by (simp add: get_handle_Some)
  with Some show ?thesis by (auto simp: DosEmsMapPage_def Let_def valid_page_def ems_open_def)
qed (simp add: DosEmsMapPage_def Let_def valid_page_def ems_open_def)

lemma map_fails:
  assumes "\<not> (unat p < DOS_EMS_PHYSICAL_PAGES \<and> ems_open st h \<and>
    (l = DOS_EMS_UNMAP_LOGICAL_PAGE \<or> valid_page st h l))"
  shows "fst (DosEmsMapPage st m p l h) = st \<and> fst (snd (DosEmsMapPage st m p l h)) = m"
proof -
  obtain st' m' res where c: "DosEmsMapPage st m p l h = (st', m', res)" by (cases "DosEmsMapPage st m p l h")
  with assms map_succeeds [of st m p l h] obtain e where "res = Inl e" by (cases res) auto
  with c DosEmsMapPage_Inl show ?thesis by fastforce
qed

definition op_in_frame :: "ems_op \<Rightarrow> bool" where
  \<comment> \<open>a store by the guest goes to a byte of one of the four windows\<close>
  "op_in_frame op \<longleftrightarrow>
     (case op of EMap p l h \<Rightarrow> True | EWrite w b v \<Rightarrow> w < DOS_EMS_PHYSICAL_PAGES \<and> b < DOS_EMS_PAGE_SIZE)"

lemma step_refines:
  assumes r: "ems_ready live st" "no_alias st" and op: "op_in_frame op"
    and s: "store_step (valid_page st) (ems_open st) op (abs_store st m) = Some a"
    and c: "ems_step op (st, m) = (st', m')"
  shows "abs_store st' m' = a \<and> ems_ready live st' \<and> no_alias st' \<and> Handles st' = Handles st"
proof (cases op)
  case (EWrite w b v)
  then have w: "w < DOS_EMS_PHYSICAL_PAGES" "b < DOS_EMS_PAGE_SIZE" using op by (simp_all add: op_in_frame_def)
  have new: "st' = st" "m' = m(window_address st w + b := v)" using c EWrite by (auto simp: ems_step_def)
  have "page_view st m' = (case window_page st w of None \<Rightarrow> page_view st m
      | Some (h, l) \<Rightarrow> (page_view st m)(h := (page_view st m h)(l := (page_view st m h l)(b := v))))"
    unfolding new(2) by (intro ext) (auto simp: write_view [OF r w] split: option.splits)
  with s r EWrite new(1) show ?thesis
    by (auto simp: store_step_def abs_store_def split: option.splits)
next
  case (EMap p l h)
  show ?thesis
  proof (cases "unat p < DOS_EMS_PHYSICAL_PAGES \<and> ems_open st h \<and> (l = DOS_EMS_UNMAP_LOGICAL_PAGE \<or> valid_page st h l)")
    case False
    with map_fails [OF False, of m] c EMap have "st' = st" "m' = m"
      by (auto simp: ems_step_def split: prod.splits)
    with s r EMap False show ?thesis by (auto simp: store_step_def)
  next
    case True
    with map_succeeds [of st m p l h] c EMap have call: "DosEmsMapPage st m p l h = (st', m', Inr ())"
      by (auto simp: ems_step_def)
    have shown: "window_page st w \<noteq> None \<Longrightarrow> w < DOS_EMS_PHYSICAL_PAGES" for w by (simp add: window_page_def split: if_splits)
    have fresh: "window_page st w \<noteq> Some (h, l)" if "w \<noteq> unat p" "l \<noteq> DOS_EMS_UNMAP_LOGICAL_PAGE" for w
      using s EMap True that shown [of w] by (auto simp: store_step_def abs_store_def split: if_splits)
    have "a = abs_store st m\<lparr>Shown := (window_page st)(unat p :=
        if l = DOS_EMS_UNMAP_LOGICAL_PAGE then None else Some (h, l))\<rparr>"
      using s EMap True by (auto simp: store_step_def abs_store_def split: if_splits)
    with ready_map [OF r(1) call] map_view [OF r call fresh] map_window_page(1) [OF call]
      map_no_alias [OF r(2) call fresh] show ?thesis by (simp add: abs_store_def)
  qed
qed

primrec run_store :: "(u16 \<Rightarrow> u16 \<Rightarrow> bool) \<Rightarrow> (u16 \<Rightarrow> bool) \<Rightarrow> ems_op list \<Rightarrow> page_store \<Rightarrow> page_store option" where
  "run_store owns is_open [] s = Some s"
| "run_store owns is_open (op # ops) s =
     (case store_step owns is_open op s of None \<Rightarrow> None | Some s' \<Rightarrow> run_store owns is_open ops s')"

text \<open>
  C16. Page-frame shadowing is an ideal paged memory. For any sequence of map and unmap calls,
  failing ones included, mixed with the guest's stores into the frame, as long as no page is
  shown in two windows at once: the manager's state and memory always represent the page store
  that the abstract machine has, where a map only changes what a window shows, no page's
  bytes are ever lost, and a store into a window changes that byte of the page it shows.
\<close>

theorem ems_page_store_refines:
  assumes "ems_ready live st" "no_alias st" "\<forall>op\<in>set ops. op_in_frame op"
    and "run_store (valid_page st) (ems_open st) ops (abs_store st m) = Some a"
    and "fold ems_step ops (st, m) = (st', m')"
  shows "abs_store st' m' = a \<and> ems_ready live st' \<and> no_alias st' \<and>
    (\<forall>w h l b. Shown a w = Some (h, l) \<longrightarrow> b < DOS_EMS_PAGE_SIZE \<longrightarrow>
       m' (window_address st' w + b) = Store a h l b)"
  using assms
proof (induction ops arbitrary: st m)
  case Nil
  then have e: "st' = st" "m' = m" "a = abs_store st m" by simp_all
  with Nil view_resident [OF Nil(1,2)] show ?case by (auto simp: abs_store_def)
next
  case (Cons op ops)
  obtain st1 m1 where c: "ems_step op (st, m) = (st1, m1)" by fastforce
  obtain a1 where a1: "store_step (valid_page st) (ems_open st) op (abs_store st m) = Some a1"
    "run_store (valid_page st) (ems_open st) ops a1 = Some a"
    using Cons.prems(4) by (auto split: option.splits)
  have s: "abs_store st1 m1 = a1" "ems_ready live st1" "no_alias st1" "Handles st1 = Handles st"
    using step_refines [OF Cons.prems(1,2) _ a1(1) c] Cons.prems(3) by simp_all
  have "valid_page st1 = valid_page st" "ems_open st1 = ems_open st"
    using s(4) by (auto simp: valid_page_def ems_open_def DosEmsGetHandle_def fun_eq_iff)
  with Cons.IH [of st1 m1] Cons.prems(3,5) s a1(2) c show ?case by simp
qed

text \<open>
  A page shown twice is read stale. Mapping a page that another window already shows fills
  the new window from the handle's buffer, not from the window the guest has been writing:
  every store made through the first window since it was mapped is missing from the second.
\<close>

theorem ems_alias_reads_buffer:
  assumes r: "ems_ready live st" and call: "DosEmsMapPage st m p l h = (st', m', Inr ())"
    and l: "l \<noteq> DOS_EMS_UNMAP_LOGICAL_PAGE" and other: "window_page st w = Some (h, l)" "w \<noteq> unat p"
    and not_this: "window_page st (unat p) \<noteq> Some (h, l)" and b: "b < DOS_EMS_PAGE_SIZE"
  shows "m' (window_address st (unat p) + b) = m (page_address (Handles st (unat h)) l + b) \<and>
    m' (window_address st w + b) = m (window_address st w + b) \<and>
    window_page st' w = Some (h, l) \<and> window_page st' (unat p) = Some (h, l)"
proof -
  have v: "valid_page st h l" "w < DOS_EMS_PHYSICAL_PAGES" using window_page_valid [OF r other(1)] by simp_all
  from map_this_window(1) [OF r call l b] write_back_other_page [OF r map_window_page(3) [OF call] v(1) not_this b]
    map_other_window [OF r call other(2) v(2) b] map_window_page(1) [OF call] other l
  show ?thesis by simp
qed
subsection \<open>The store's calls\<close>

lemma window_inside:
  "w < DOS_EMS_PHYSICAL_PAGES \<Longrightarrow> b < DOS_EMS_PAGE_SIZE \<Longrightarrow>
   inside (window_address st w + b) (Frame st, DOS_EMS_FRAME_SIZE)"
  by (simp add: inside_def window_address_def ems_sizes)

lemma page_inside:
  assumes "ems_books st" "valid_page st h l" "b < DOS_EMS_PAGE_SIZE"
  shows "inside (page_address (Handles st (unat h)) l + b)
    (Memory (Handles st (unat h)), unat (Pages (Handles st (unat h))) * DOS_EMS_PAGE_SIZE)"
proof -
  have "Suc (unat l) * DOS_EMS_PAGE_SIZE \<le> unat (Pages (Handles st (unat h))) * DOS_EMS_PAGE_SIZE"
    using valid_block(2) [OF assms(1,2)] by (intro mult_le_mono1) simp
  with assms(3) show ?thesis by (simp add: inside_def page_address_def)
qed

lemma ucast_pages: "unat (ucast (n :: u16) :: u32) = unat n"
  by (simp add: unsigned_ucast_eq take_bit_nat_eq_self order.strict_trans2 [OF unsigned_less])

lemma ems_call_allocate_keeps:
  assumes "call_allocate st m n = (st1, m1, p)"
  shows "Handles st1 = Handles st" "UsedPages st1 = UsedPages st" "TotalPages st1 = TotalPages st"
    "Allocate st1 = Allocate st" "Free st1 = Free st" "Frame st1 = Frame st" "PhysicalPages st1 = PhysicalPages st"
  using assms by (auto simp: call_allocate_def split: option.splits prod.splits)

lemma ems_call_free_keeps:
  assumes "call_free st m p n = (st1, m1)"
  shows "Handles st1 = Handles st" "UsedPages st1 = UsedPages st" "TotalPages st1 = TotalPages st"
    "Allocate st1 = Allocate st" "Free st1 = Free st" "Frame st1 = Frame st" "PhysicalPages st1 = PhysicalPages st"
  using assms by (auto simp: call_free_def split: option.splits prod.splits if_splits)

definition store_ok :: "('h \<Rightarrow> (nat \<times> nat) set) \<Rightarrow> 'h dos_ems_state \<Rightarrow> bool" where
  "store_ok live st \<longleftrightarrow>
     (\<exists>A F. Allocate st = Some A \<and> Free st = Some F \<and> unit_store DOS_EMS_PAGE_SIZE A F live)"

lemma ems_ready_parts:
  "ems_ready live st \<longleftrightarrow> ems_books st \<and> ems_windows st \<and> blocks_ok (live (Context st)) (ems_blocks st) \<and> store_ok live st"
  by (simp add: ems_ready_def store_ok_def)

lemma store_allocates:
  assumes "store_ok live st" "call_allocate st m n = (st1, m1, p)" "n \<noteq> 0" "p \<noteq> 0"
  shows "live (Context st1) = insert (p, unat n * DOS_EMS_PAGE_SIZE) (live (Context st))"
    and "c \<in> live (Context st) \<Longrightarrow> apart (p, unat n * DOS_EMS_PAGE_SIZE) c"
    and "m1 a = (if inside a (p, unat n * DOS_EMS_PAGE_SIZE) then 0 else m a)"
proof -
  obtain A F where A: "Allocate st = Some A" "unit_store DOS_EMS_PAGE_SIZE A F live"
    using assms(1) unfolding store_ok_def by blast
  obtain h where h: "A (Context st) m (ucast n) = (h, m1, p)" "st1 = st\<lparr>Context := h\<rparr>"
    using A(1) assms(2) by (cases "A (Context st) m (ucast n)") (auto simp: call_allocate_def)
  have "0 < unat n" using assms(3) by (simp add: unat_gt_0)
  then have "(ucast n :: u32) > 0" by (simp add: word_less_nat_alt ucast_pages)
  note s = unit_store_allocate [OF A(2) h(1) this assms(4), unfolded ucast_pages]
  show "live (Context st1) = insert (p, unat n * DOS_EMS_PAGE_SIZE) (live (Context st))"
    using s(1) h(2) by simp
  show "apart (p, unat n * DOS_EMS_PAGE_SIZE) c" if "c \<in> live (Context st)"
    using s(2) [of "fst c" "snd c"] that by (simp add: apart_def)
  show "m1 a = (if inside a (p, unat n * DOS_EMS_PAGE_SIZE) then 0 else m a)"
    using s(3) [of a] by (simp add: inside_def)
qed

lemma ems_store_refuses:
  assumes "store_ok live st" "call_allocate st m n = (st1, m1, 0)" "n \<noteq> 0"
  shows "live (Context st1) = live (Context st) \<and> m1 = m"
proof -
  obtain A F where A: "Allocate st = Some A" "unit_store DOS_EMS_PAGE_SIZE A F live"
    using assms(1) unfolding store_ok_def by blast
  obtain h where h: "A (Context st) m (ucast n) = (h, m1, 0)" "st1 = st\<lparr>Context := h\<rparr>"
    using A(1) assms(2) by (cases "A (Context st) m (ucast n)") (auto simp: call_allocate_def)
  have "0 < unat n" using assms(3) by (simp add: unat_gt_0)
  then have "(ucast n :: u32) > 0" by (simp add: word_less_nat_alt ucast_pages)
  from unit_store_refuses [OF A(2) h(1) this] h(2) show ?thesis by simp
qed

lemma store_frees:
  assumes "store_ok live st" "call_free st m p n = (st1, m1)"
    and "p \<noteq> 0 \<Longrightarrow> (p, unat n * DOS_EMS_PAGE_SIZE) \<in> live (Context st)"
  shows "live (Context st1) =
      (if p = 0 then live (Context st) else live (Context st) - {(p, unat n * DOS_EMS_PAGE_SIZE)})"
    and "m1 a \<noteq> m a \<Longrightarrow> p \<noteq> 0 \<and> inside a (p, unat n * DOS_EMS_PAGE_SIZE)"
proof -
  obtain A F where A: "Free st = Some F" "unit_store DOS_EMS_PAGE_SIZE A F live"
    using assms(1) unfolding store_ok_def by blast
  have z: "p = 0 \<Longrightarrow> st1 = st \<and> m1 = m" using A(1) assms(2) by (simp add: call_free_def)
  have s: "live (Context st1) = live (Context st) - {(p, unat n * DOS_EMS_PAGE_SIZE)} \<and>
      (\<forall>a. a < p \<or> p + unat n * DOS_EMS_PAGE_SIZE \<le> a \<longrightarrow> m1 a = m a)" if p: "p \<noteq> 0"
  proof -
    obtain h where h: "F (Context st) m p (ucast n) = (h, m1)" "st1 = st\<lparr>Context := h\<rparr>"
      using A(1) assms(2) p by (cases "F (Context st) m p (ucast n)") (auto simp: call_free_def)
    have "(p, unat (ucast n :: u32) * DOS_EMS_PAGE_SIZE) \<in> live (Context st)"
      using assms(3) [OF p] by (simp add: ucast_pages)
    from unit_store_free [OF A(2) h(1) this] h(2) show ?thesis by (simp add: ucast_pages)
  qed
  show "live (Context st1) =
      (if p = 0 then live (Context st) else live (Context st) - {(p, unat n * DOS_EMS_PAGE_SIZE)})"
    using z s by auto
  show "p \<noteq> 0 \<and> inside a (p, unat n * DOS_EMS_PAGE_SIZE)" if "m1 a \<noteq> m a"
  proof (cases "p = 0")
    case False
    from s [OF False] that show ?thesis by (auto simp: inside_def False not_less)
  qed (use z that in simp)
qed

subsection \<open>Replacing one slot of the table\<close>

lemma books_slot:
  assumes b: "ems_books st" and i: "i < DOS_EMS_MAX_HANDLES" and H: "Handles st' = (Handles st)(i := e)"
    and e: "InUse e" "(Memory e = 0) = (Pages e = 0)"
    and u: "unat (UsedPages st') + unat (Pages (Handles st i)) = unat (UsedPages st) + unat (Pages e)"
    and t: "unat (UsedPages st') \<le> unat (TotalPages st')"
  shows "ems_books st'"
proof -
  have occ: "ems_occupy i e (Handles st) = Handles st'"
  proof -
    have "e\<lparr>InUse := True\<rparr> = e" using e(1) by (cases e) simp
    then show ?thesis by (simp add: ems_occupy_def H)
  qed
  have "ems.total (Handles st') + unat (Pages (Handles st i)) = ems.total (Handles st) + unat (Pages e)"
    using ems.total_occupy [OF i, of e "Handles st"] by (simp add: occ ems_pages_def)
  with b u have "ems.total (Handles st') = unat (UsedPages st')" by (simp add: ems_books_def)
  with b e t show ?thesis by (auto simp: ems_books_def H)
qed

lemma books_release:
  assumes b: "ems_books st" and i: "i < DOS_EMS_MAX_HANDLES" and H: "Handles st' = ems_release i (Handles st)"
    and u: "unat (UsedPages st') + unat (Pages (Handles st i)) = unat (UsedPages st)"
    and t: "TotalPages st' = TotalPages st"
  shows "ems_books st'"
proof -
  have "ems.total (Handles st') + unat (Pages (Handles st i)) = ems.total (Handles st)"
    using ems.total_release [OF i, of "Handles st"] by (simp add: H ems_pages_def)
  with b u have "ems.total (Handles st') = unat (UsedPages st')" "unat (UsedPages st') \<le> unat (TotalPages st')"
    using t by (auto simp: ems_books_def)
  with b show ?thesis by (auto simp: ems_books_def H ems_release_def DosEmsClearHandleName_def)
qed

lemma books_pages_le:
  "ems_books st \<Longrightarrow> i < DOS_EMS_MAX_HANDLES \<Longrightarrow> Pages (Handles st i) \<le> UsedPages st"
  using ems.weight_le_total [of i "Handles st"] by (simp add: ems_books_def ems_pages_def word_le_nat_alt)

lemma blocks_slot:
  assumes "Handles st' = (Handles st)(i := e)" "Frame st' = Frame st"
  shows "ems_blocks st' = (ems_blocks st)(Some i :=
    (if Memory e = 0 then None else Some (Memory e, unat (Pages e) * DOS_EMS_PAGE_SIZE)))"
  by (rule ext) (auto simp: ems_blocks_def assms split: option.split)

lemma ready_same_store:
  assumes "ems_ready live st" "Handles st' = Handles st" "UsedPages st' = UsedPages st"
    "TotalPages st' = TotalPages st" "Allocate st' = Allocate st" "Free st' = Free st" "Frame st' = Frame st"
    "PhysicalPages st' = PhysicalPages st" "live (Context st') = live (Context st)"
  shows "ems_ready live st'"
proof -
  have "window_page st' = window_page st" "valid_page st' = valid_page st"
    using assms by (auto simp: window_page_def valid_page_def DosEmsGetHandle_def fun_eq_iff)
  with assms ems_blocks_cong [OF assms(2,7)] show ?thesis
    by (simp add: ems_ready_parts ems_books_def ems_windows_def store_ok_def)
qed

end
