(* ===== verification/Dos_Ems_Alloc.thy ===== *)
theory Dos_Ems_Alloc
  imports Dos_Ems_Contract
begin

text \<open>
  The calls of the expanded memory manager that change the handle table: allocate, release,
  reallocate, and the saved page maps. Each keeps the manager ready, and says what it does to
  the pages a client sees.
\<close>

subsection \<open>Allocation\<close>

lemma DosEmsAllocatePages_cases:
  assumes "DosEmsAllocatePages st m n = (st', m', r)"
  obtains (refused) e where "st' = st" "m' = m" "r = Inl e"
    | (store) "n \<noteq> 0" "call_allocate st m n = (st', m', 0)" "r = Inl DOS_EMS_ERROR_NOT_ENOUGH_PAGES"
    | (granted) st1 p where "n \<noteq> 0" "unat (UsedPages st) + unat n \<le> unat (TotalPages st)"
      "ems.lowest (Handles st) < DOS_EMS_MAX_HANDLES" "call_allocate st m n = (st1, m', p)" "p \<noteq> 0"
      "st' = st1\<lparr>Handles := (Handles st)(ems.lowest (Handles st) :=
          DosEmsClearHandleName ((Handles st (ems.lowest (Handles st)))\<lparr>InUse := True,
            Pages := n, Memory := p, IsMapSaved := False\<rparr>)),
         UsedPages := UsedPages st + n\<rparr>"
      "r = Inr (of_nat (ems.lowest (Handles st)))"
proof -
  have low: "first_from (\<lambda>i. \<not> InUse (Handles st i)) 0 DOS_EMS_MAX_HANDLES = ems.lowest (Handles st)"
    by (simp add: ems_used_def)
  obtain st1 m1 p where c: "call_allocate st m n = (st1, m1, p)" by (cases "call_allocate st m n")
  note keep = ems_call_allocate_keeps [OF c]
  show thesis
  proof (cases "n \<noteq> 0 \<and> \<not> n > TotalPages st \<and> unat (UsedPages st) + unat n \<le> unat (TotalPages st) \<and>
      ems.lowest (Handles st) \<noteq> DOS_EMS_MAX_HANDLES")
    case False
    then have "\<exists>e. DosEmsAllocatePages st m n = (st, m, Inl e)"
      unfolding DosEmsAllocatePages_def low by (auto simp: Let_def not_le)
    with assms refused show thesis by auto
  next
    case ok: True
    show thesis
    proof (cases "p = 0")
      case True
      have "DosEmsAllocatePages st m n = (st1, m1, Inl DOS_EMS_ERROR_NOT_ENOUGH_PAGES)"
        unfolding DosEmsAllocatePages_def low using ok c True by (simp add: Let_def)
      with assms c ok True show thesis by (intro store) simp_all
    next
      case False
      have "DosEmsAllocatePages st m n =
         (st1\<lparr>Handles := (Handles st)(ems.lowest (Handles st) :=
            DosEmsClearHandleName ((Handles st (ems.lowest (Handles st)))\<lparr>InUse := True,
              Pages := n, Memory := p, IsMapSaved := False\<rparr>)),
           UsedPages := UsedPages st + n\<rparr>, m1, Inr (of_nat (ems.lowest (Handles st))))"
        unfolding DosEmsAllocatePages_def low using ok c False by (simp add: Let_def keep)
      with assms c ok False ems.lowest_some show thesis by (intro granted [of st1 p]) simp_all
    qed
  qed
qed

lemma ems_allocate_grants:
  assumes r: "ems_ready live st" and call: "DosEmsAllocatePages st m n = (st', m', Inr h)"
  shows "ems_ready live st'" and "DosEmsGetHandle st h = None" and "Pages (Handles st' (unat h)) = n"
    and "InUse (Handles st' (unat h))" and "unat h < DOS_EMS_MAX_HANDLES" and "n \<noteq> 0"
    and "\<And>i. i \<noteq> unat h \<Longrightarrow> Handles st' i = Handles st i" and "window_page st' = window_page st"
    and "window_address st' = window_address st"
    and "\<And>k c a. ems_blocks st k = Some c \<Longrightarrow> inside a c \<Longrightarrow> m' a = m a"
    and "\<And>l b. l < n \<Longrightarrow> b < DOS_EMS_PAGE_SIZE \<Longrightarrow> m' (page_address (Handles st' (unat h)) l + b) = 0"
    and "TotalPages st' = TotalPages st"
proof -
  let ?i = "ems.lowest (Handles st)"
  from call obtain st1 p where g: "n \<noteq> 0" "unat (UsedPages st) + unat n \<le> unat (TotalPages st)"
    "?i < DOS_EMS_MAX_HANDLES" "call_allocate st m n = (st1, m', p)" "p \<noteq> 0"
    "st' = st1\<lparr>Handles := (Handles st)(?i := DosEmsClearHandleName ((Handles st ?i)\<lparr>InUse := True,
            Pages := n, Memory := p, IsMapSaved := False\<rparr>)), UsedPages := UsedPages st + n\<rparr>"
    "h = of_nat ?i"
    by (cases rule: DosEmsAllocatePages_cases) auto
  define e where "e = DosEmsClearHandleName ((Handles st ?i)\<lparr>InUse := True, Pages := n, Memory := p, IsMapSaved := False\<rparr>)"
  have e: "InUse e" "Pages e = n" "Memory e = p" by (simp_all add: e_def DosEmsClearHandleName_def)
  have hi: "unat h = ?i"
    unfolding g(7) by (rule unat_of_nat_small) (use g(3) in \<open>simp add: DOS_EMS_MAX_HANDLES_def\<close>)
  have books: "ems_books st" and win: "ems_windows st" and blk: "blocks_ok (live (Context st)) (ems_blocks st)"
    and so: "store_ok live st" using r by (simp_all add: ems_ready_parts)
  note keep = ems_call_allocate_keeps [OF g(4)]
  have H: "Handles st' = (Handles st)(?i := e)" using g(6) by (simp add: e_def)
  have C: "Context st' = Context st1" "Frame st' = Frame st" "PhysicalPages st' = PhysicalPages st"
    "Allocate st' = Allocate st" "Free st' = Free st"
    using g(6) keep by simp_all
  have free: "\<not> InUse (Handles st ?i)" using ems.lowest_free [OF g(3)] by (simp add: ems_used_def)
  then show none: "DosEmsGetHandle st h = None" by (simp add: DosEmsGetHandle_def hi)
  have old: "Pages (Handles st ?i) = 0" "Memory (Handles st ?i) = 0"
    using books free by (simp_all add: ems_books_def)
  have "unat (TotalPages st) < 2 ^ 16" using unsigned_less [of "TotalPages st"] by simp
  then have "unat (UsedPages st + n) = unat (UsedPages st) + unat n"
    using g(2) by (simp add: unat_word_ariths)
  then have books': "ems_books st'"
    using g(1,2,5) by (intro books_slot [OF books g(3) H e(1)]) (simp_all add: e old g(6) keep)
  show wp: "window_page st' = window_page st" by (simp add: window_page_def C fun_eq_iff)
  have vp: "valid_page st h' l \<Longrightarrow> valid_page st' h' l" for h' l
    using free by (auto simp: valid_page_def DosEmsGetHandle_def H split: if_splits)
  then have win': "ems_windows st'" using win by (simp add: ems_windows_def wp)
  have n: "0 < unat n" using g(1) by (simp add: unat_gt_0)
  have blk': "blocks_ok (live (Context st')) (ems_blocks st')"
    unfolding blocks_slot [OF H C(2)] C(1) e store_allocates(1) [OF so g(4,1,5)]
    using blocks_put [OF blk _ store_allocates(2) [OF so g(4,1,5)], of "Some ?i"] n g(5) by (simp add: DOS_EMS_PAGE_SIZE_def)
  show "ems_ready live st'"
    unfolding ems_ready_parts using books' win' blk' so by (simp add: store_ok_def C)
  show "Pages (Handles st' (unat h)) = n" "InUse (Handles st' (unat h))" "unat h < DOS_EMS_MAX_HANDLES" "n \<noteq> 0"
    using e g(1,3) by (simp_all add: H hi)
  show "Handles st' i = Handles st i" if "i \<noteq> unat h" for i using that by (simp add: H hi)
  show "window_address st' = window_address st" by (simp add: window_address_def C fun_eq_iff)
  show "m' a = m a" if "ems_blocks st k = Some c" "inside a c" for k c a
  proof -
    have "c \<in> live (Context st)" using blocks_live [OF blk that(1)] by blast
    from apart_inside [OF store_allocates(2) [OF so g(4,1,5) this], of a] that(2)
      store_allocates(3) [OF so g(4,1,5), of a] show ?thesis by auto
  qed
  show "m' (page_address (Handles st' (unat h)) l + b) = 0" if "l < n" "b < DOS_EMS_PAGE_SIZE" for l b
  proof -
    have "DosEmsGetHandle st' h = Some ?i" using g(3) e(1) by (simp add: DosEmsGetHandle_def H hi)
    then have "valid_page st' h l" using that(1) e(2) by (simp add: valid_page_def H hi)
    from page_inside [OF books' this that(2)] store_allocates(3) [OF so g(4,1,5)]
    show ?thesis by (simp add: H hi e)
  qed
  show "TotalPages st' = TotalPages st" using g(6) keep by simp
qed

lemma ems_ready_allocate:
  assumes r: "ems_ready live st" and call: "DosEmsAllocatePages st m n = (st', m', res)"
  shows "ems_ready live st' \<and> TotalPages st' = TotalPages st"
proof (cases res)
  case (Inr h)
  from ems_allocate_grants(1,12) [OF r call [unfolded Inr]] show ?thesis by blast
next
  case (Inl e)
  from call show ?thesis
  proof (cases rule: DosEmsAllocatePages_cases)
    case store
    from ems_store_refuses [OF _ store(2,1)] r have "live (Context st') = live (Context st)"
      by (auto simp: ems_ready_parts)
    with ready_same_store [OF r ems_call_allocate_keeps(1-7) [OF store(2)]] ems_call_allocate_keeps(3) [OF store(2)]
    show ?thesis by simp
  qed (use r Inl in auto)
qed
lemma valid_page_iff:
  "valid_page st h l \<longleftrightarrow> unat h < DOS_EMS_MAX_HANDLES \<and> InUse (Handles st (unat h)) \<and> l < Pages (Handles st (unat h))"
  by (auto simp: valid_page_def DosEmsGetHandle_def)

lemma valid_page_slot:
  "Handles st' (unat h) = Handles st (unat h) \<Longrightarrow> valid_page st' h l = valid_page st h l"
  by (simp add: valid_page_iff)

lemma view_transfer:
  assumes r: "ems_ready live st" "ems_ready live st'" and a: "no_alias st" "no_alias st'"
    and v: "valid_page st h l" "valid_page st' h l" and b: "b < DOS_EMS_PAGE_SIZE"
    and w: "\<And>w. window_page st' w = Some (h, l) \<longleftrightarrow> window_page st w = Some (h, l)"
      "window_address st' = window_address st"
    and m: "\<And>w. w < DOS_EMS_PHYSICAL_PAGES \<Longrightarrow> m' (window_address st w + b) = m (window_address st w + b)"
      "m' (page_address (Handles st' (unat h)) l + b) = m (page_address (Handles st (unat h)) l + b)"
  shows "page_view st' m' h l b = page_view st m h l b"
proof (cases "\<exists>w. window_page st w = Some (h, l)")
  case True
  then obtain x where x: "window_page st x = Some (h, l)" by blast
  with w(1) have x': "window_page st' x = Some (h, l)" by blast
  from view_resident [OF r(1) a(1) x b] view_resident [OF r(2) a(2) x' b] w(2) m(1)
    window_page_valid [OF r(1) x] show ?thesis by simp
next
  case False
  then have "window_page st x \<noteq> Some (h, l)" "window_page st' x \<noteq> Some (h, l)" for x using w(1) by auto
  from view_away [OF this(1) v(1) b] view_away [OF this(2) v(2) b] m(2) show ?thesis by simp
qed

lemma allocate_views:
  assumes r: "ems_ready live st" "no_alias st" and call: "DosEmsAllocatePages st m n = (st', m', Inr h)"
  shows "no_alias st'" and "valid_page st h' l \<Longrightarrow> page_view st' m' h' l = page_view st m h' l"
    and "l < n \<Longrightarrow> page_view st' m' h l b = 0"
proof -
  note g = ems_allocate_grants [OF r(1) call]
  have books: "ems_books st" using r(1) by (simp add: ems_ready_parts)
  show a': "no_alias st'" using r(2) by (simp add: no_alias_def g(8))
  have win: "m' (window_address st w + b) = m (window_address st w + b)"
    if "w < DOS_EMS_PHYSICAL_PAGES" "b < DOS_EMS_PAGE_SIZE" for w b
    by (rule g(10) [of None, OF _ window_inside [OF that]]) (simp add: ems_blocks_def)
  show "page_view st' m' h' l = page_view st m h' l" if v: "valid_page st h' l"
  proof
    fix b
    have ne: "unat h' \<noteq> unat h" using v g(2) by (auto simp: valid_page_iff DosEmsGetHandle_def)
    have v': "valid_page st' h' l" using v valid_page_slot [OF g(7) [OF ne]] by simp
    show "page_view st' m' h' l b = page_view st m h' l b"
    proof (cases "b < DOS_EMS_PAGE_SIZE")
      case b: True
      have "m' (page_address (Handles st' (unat h')) l + b) = m (page_address (Handles st (unat h')) l + b)"
        unfolding g(7) [OF ne] by (rule g(10) [OF valid_block(1) [OF books v] page_inside [OF books v b]])
      with win [OF _ b] show ?thesis
        by (intro view_transfer [OF r(1) g(1) r(2) a' v v' b]) (simp_all add: g(8,9))
    qed (simp add: view_outside)
  qed
  show "page_view st' m' h l b = 0" if "l < n"
  proof (cases "b < DOS_EMS_PAGE_SIZE")
    case b: True
    have v': "valid_page st' h l" using that g(3-5) by (simp add: valid_page_def DosEmsGetHandle_def)
    have "window_page st' w \<noteq> Some (h, l)" for w
      using window_page_valid [OF r(1), of w h l] g(2,8) by (auto simp: valid_page_def)
    from view_away [OF this v' b] g(11) [OF that b] show ?thesis by simp
  qed (simp add: view_outside)
qed

subsection \<open>Release\<close>

lemma window_page_drop:
  assumes "\<And>x. p x = q (MapHandle x) (LogicalPage x)"
  shows "window_page (drop_windows st p) w =
    (case window_page st w of None \<Rightarrow> None | Some (h, l) \<Rightarrow> if q h l then None else Some (h, l))"
  by (auto simp: window_page_def drop_windows_def assms)

lemma drop_windows_keeps:
  "Handles (drop_windows st p) = Handles st" "UsedPages (drop_windows st p) = UsedPages st"
  "TotalPages (drop_windows st p) = TotalPages st" "Allocate (drop_windows st p) = Allocate st"
  "Free (drop_windows st p) = Free st" "Frame (drop_windows st p) = Frame st"
  "Context (drop_windows st p) = Context st"
  by (simp_all add: drop_windows_def)

lemma DosEmsDeallocatePages_cases:
  assumes "DosEmsDeallocatePages st m h = (st', m', r)"
  obtains (bad) "DosEmsGetHandle st h = None" "st' = st" "m' = m" "r = Inl DOS_EMS_ERROR_INVALID_HANDLE"
    | (freed) st2 where "DosEmsGetHandle st h = Some (unat h)"
      "call_free (drop_windows st (\<lambda>x. MapHandle x = h)) m (Memory (Handles st (unat h)))
         (Pages (Handles st (unat h))) = (st2, m')"
      "st' = st2\<lparr>UsedPages := UsedPages st - Pages (Handles st (unat h)),
         Handles := ems_release (unat h) (Handles st)\<rparr>" "r = Inr ()"
proof (cases "DosEmsGetHandle st h")
  case None
  with assms show thesis by (intro bad) (simp_all add: DosEmsDeallocatePages_def)
next
  case (Some i)
  then have i: "i = unat h" by (simp add: get_handle_Some)
  obtain st2 m2 where c: "call_free (drop_windows st (\<lambda>x. MapHandle x = h)) m (Memory (Handles st (unat h)))
         (Pages (Handles st (unat h))) = (st2, m2)" by fastforce
  with Some i assms ems_call_free_keeps [OF c] show thesis
    by (intro freed [of st2]) (simp_all add: DosEmsDeallocatePages_def Let_def ems_release_def drop_windows_keeps)
qed

lemma deallocate_releases:
  assumes r: "ems_ready live st" and call: "DosEmsDeallocatePages st m h = (st', m', Inr ())"
  shows "ems_ready live st'" and "DosEmsGetHandle st' h = None"
    and "\<And>i. i \<noteq> unat h \<Longrightarrow> Handles st' i = Handles st i"
    and "window_page st' w = (case window_page st w of None \<Rightarrow> None
       | Some (h', l) \<Rightarrow> if h' = h then None else Some (h', l))"
    and "window_address st' = window_address st"
    and "\<And>k c a. ems_blocks st k = Some c \<Longrightarrow> k \<noteq> Some (unat h) \<Longrightarrow> inside a c \<Longrightarrow> m' a = m a"
    and "unat (UsedPages st') + unat (Pages (Handles st (unat h))) = unat (UsedPages st)"
    and "TotalPages st' = TotalPages st"
proof -
  let ?e = "Handles st (unat h)" and ?d = "drop_windows st (\<lambda>x. MapHandle x = h)"
  from call obtain st2 where g: "DosEmsGetHandle st h = Some (unat h)"
    "call_free ?d m (Memory ?e) (Pages ?e) = (st2, m')"
    "st' = st2\<lparr>UsedPages := UsedPages st - Pages ?e, Handles := ems_release (unat h) (Handles st)\<rparr>"
    by (cases rule: DosEmsDeallocatePages_cases) auto
  have i: "unat h < DOS_EMS_MAX_HANDLES" using g(1) by (simp add: get_handle_Some)
  have books: "ems_books st" and win: "ems_windows st" and blk: "blocks_ok (live (Context st)) (ems_blocks st)"
    and so: "store_ok live st" using r by (simp_all add: ems_ready_parts)
  have so_d: "store_ok live ?d" using so by (simp add: store_ok_def drop_windows_keeps)
  note keep = ems_call_free_keeps [OF g(2), unfolded drop_windows_keeps]
  have H: "Handles st' = ems_release (unat h) (Handles st)" using g(3) by simp
  have C: "Context st' = Context st2" "Frame st' = Frame st" "PhysicalPages st' = PhysicalPages ?d"
    "Allocate st' = Allocate st" "Free st' = Free st" "TotalPages st' = TotalPages st"
    using g(3) keep by simp_all
  show "TotalPages st' = TotalPages st" by (rule C)
  show used: "unat (UsedPages st') + unat (Pages ?e) = unat (UsedPages st)"
    using unat_sub [OF books_pages_le [OF books i]] books_pages_le [OF books i] g(3)
    by (simp add: word_le_nat_alt)
  have books': "ems_books st'" by (rule books_release [OF books i H used C(6)])
  show old: "Handles st' j = Handles st j" if "j \<noteq> unat h" for j using that by (simp add: H ems_release_def)
  have "window_page st' = window_page ?d" by (simp add: window_page_def C fun_eq_iff)
  then show wp: "window_page st' w = (case window_page st w of None \<Rightarrow> None
       | Some (h', l) \<Rightarrow> if h' = h then None else Some (h', l))" for w
    by (simp add: window_page_drop [where q = "\<lambda>h' l. h' = h"])
  show none: "DosEmsGetHandle st' h = None"
    by (simp add: DosEmsGetHandle_def H ems_release_def DosEmsClearHandleName_def)
  have "valid_page st h' l \<Longrightarrow> h' \<noteq> h \<Longrightarrow> valid_page st' h' l" for h' l
    using valid_page_slot [OF old] by (metis word_unat_eq_iff)
  then have win': "ems_windows st'" using win by (auto simp: ems_windows_def wp split: option.splits if_splits)
  have in_live: "Memory ?e \<noteq> 0 \<Longrightarrow> (Memory ?e, unat (Pages ?e) * DOS_EMS_PAGE_SIZE) \<in> live (Context ?d)"
    using blocks_live [OF blk, of "Some (unat h)"] by (simp add: ems_blocks_def drop_windows_keeps)
  have f1: "live (Context st2) = (if Memory ?e = 0 then live (Context ?d)
      else live (Context ?d) - {(Memory ?e, unat (Pages ?e) * DOS_EMS_PAGE_SIZE)})"
    by (rule store_frees(1) [OF so_d g(2) in_live])
  have f2: "Memory ?e \<noteq> 0 \<and> inside a (Memory ?e, unat (Pages ?e) * DOS_EMS_PAGE_SIZE)" if "m' a \<noteq> m a" for a
    by (rule store_frees(2) [OF so_d g(2) in_live that])
  have eb: "ems_blocks st' = (ems_blocks st)(Some (unat h) := None)"
    by (rule ext) (auto simp: ems_blocks_def H C ems_release_def DosEmsClearHandleName_def split: option.split)
  have blk': "blocks_ok (live (Context st')) (ems_blocks st')"
    unfolding C(1) eb f1 using blocks_unput [OF blk, of "Some (unat h)"] blocks_drop [OF blk, of "Some (unat h)"]
    by (simp add: drop_windows_keeps ems_blocks_def split: if_splits)
  show "ems_ready live st'"
    unfolding ems_ready_parts using books' win' blk' so by (simp add: store_ok_def C)
  show "window_address st' = window_address st" by (simp add: window_address_def C fun_eq_iff)
  show "m' a = m a" if c: "ems_blocks st k = Some c" "k \<noteq> Some (unat h)" "inside a c" for k c a
  proof (rule ccontr)
    assume "m' a \<noteq> m a"
    from f2 [OF this] have p: "Memory ?e \<noteq> 0" "inside a (Memory ?e, unat (Pages ?e) * DOS_EMS_PAGE_SIZE)"
      by blast+
    then have "ems_blocks st (Some (unat h)) = Some (Memory ?e, unat (Pages ?e) * DOS_EMS_PAGE_SIZE)"
      by (simp add: ems_blocks_def)
    from apart_inside [OF blocks_apart [OF blk _ this c(1)] p(2)] c(2,3) show False by auto
  qed
qed

lemma deallocate_views:
  assumes r: "ems_ready live st" "no_alias st" and call: "DosEmsDeallocatePages st m h = (st', m', Inr ())"
  shows "no_alias st'" and "valid_page st h' l \<Longrightarrow> h' \<noteq> h \<Longrightarrow> page_view st' m' h' l = page_view st m h' l"
proof -
  note g = deallocate_releases [OF r(1) call]
  have books: "ems_books st" using r(1) by (simp add: ems_ready_parts)
  show a': "no_alias st'" using r(2) unfolding no_alias_def g(4) by (auto split: option.splits if_splits)
  show "page_view st' m' h' l = page_view st m h' l" if v: "valid_page st h' l" "h' \<noteq> h"
  proof
    fix b
    have ne: "unat h' \<noteq> unat h" using v(2) by (simp add: word_unat_eq_iff)
    have v': "valid_page st' h' l" using v(1) valid_page_slot [OF g(3) [OF ne]] by simp
    show "page_view st' m' h' l b = page_view st m h' l b"
    proof (cases "b < DOS_EMS_PAGE_SIZE")
      case b: True
      have "m' (window_address st w + b) = m (window_address st w + b)" if "w < DOS_EMS_PHYSICAL_PAGES" for w
        by (rule g(6) [of None, OF _ _ window_inside [OF that b]]) (simp_all add: ems_blocks_def)
      moreover have "m' (page_address (Handles st' (unat h')) l + b) = m (page_address (Handles st (unat h')) l + b)"
        unfolding g(3) [OF ne]
        by (rule g(6) [OF valid_block(1) [OF books v(1)] _ page_inside [OF books v(1) b]]) (use ne in simp)
      ultimately show ?thesis
        using v(2) by (intro view_transfer [OF r(1) g(1) r(2) a' v(1) v' b]) (auto simp: g(4,5) split: option.splits if_splits)
    qed (simp add: view_outside)
  qed
qed
subsection \<open>Flushing the windows of a handle\<close>

definition synced :: "'h dos_ems_state \<Rightarrow> mem \<Rightarrow> u16 \<Rightarrow> u16 \<Rightarrow> bool" where
  \<comment> \<open>the buffer of a page holds what the client sees\<close>
  "synced st m h l \<longleftrightarrow>
     (\<forall>b<DOS_EMS_PAGE_SIZE. m (page_address (Handles st (unat h)) l + b) = page_view st m h l b)"

lemma write_back_keeps_view:
  assumes r: "ems_ready live st" "no_alias st" and w: "w < DOS_EMS_PHYSICAL_PAGES"
  shows "page_view st (DosEmsWriteBackWindow st w m) = page_view st m"
proof (intro ext)
  fix h l b
  let ?m = "DosEmsWriteBackWindow st w m"
  show "page_view st ?m h l b = page_view st m h l b"
  proof (cases "valid_page st h l \<and> b < DOS_EMS_PAGE_SIZE")
    case True
    then have v: "valid_page st h l" and b: "b < DOS_EMS_PAGE_SIZE" by simp_all
    show ?thesis
    proof (cases "\<exists>x. window_page st x = Some (h, l)")
      case True
      then obtain x where x: "window_page st x = Some (h, l)" by blast
      from view_resident [OF r x b] write_back_window [OF r(1) w _ b] window_page_valid [OF r(1) x]
      show ?thesis by simp
    next
      case False
      then have away: "window_page st x \<noteq> Some (h, l)" for x by blast
      from view_away [OF away v b] write_back_other_page [OF r(1) w v away b] show ?thesis by simp
    qed
  qed (simp add: page_view_def)
qed

lemma synced_away:
  "(\<And>w. window_page st w \<noteq> Some (h, l)) \<Longrightarrow> valid_page st h l \<Longrightarrow> synced st m h l"
  by (simp add: synced_def view_away)

lemma write_back_syncs:
  assumes r: "ems_ready live st" "no_alias st" and x: "window_page st w = Some (h, l)"
  shows "synced st (DosEmsWriteBackWindow st w m) h l"
proof -
  have w: "w < DOS_EMS_PHYSICAL_PAGES" using window_page_valid [OF r(1) x] by simp
  show ?thesis
    using write_back_page [OF r(1) x] view_resident [OF r x]
    unfolding synced_def write_back_keeps_view [OF r w] by simp
qed

lemma write_back_keeps_synced:
  assumes r: "ems_ready live st" "no_alias st" and w: "w < DOS_EMS_PHYSICAL_PAGES"
    and v: "valid_page st h l" and s: "synced st m h l"
  shows "synced st (DosEmsWriteBackWindow st w m) h l"
proof (cases "window_page st w = Some (h, l)")
  case True
  then show ?thesis by (rule write_back_syncs [OF r])
next
  case False
  with s write_back_other_page [OF r(1) w v False] show ?thesis
    unfolding synced_def write_back_keeps_view [OF r w] by simp
qed

text \<open>The loop, over any list of windows.\<close>

definition flush_list :: "'h dos_ems_state \<Rightarrow> u16 \<Rightarrow> nat list \<Rightarrow> mem \<Rightarrow> mem" where
  "flush_list st h ws m =
     fold (\<lambda>w m. if IsMapped (PhysicalPages st w) \<and> MapHandle (PhysicalPages st w) = h
                 then DosEmsWriteBackWindow st w m else m) ws m"

lemma flush_list_effect:
  assumes r: "ems_ready live st" "no_alias st" and ws: "\<forall>w\<in>set ws. w < DOS_EMS_PHYSICAL_PAGES"
  shows "page_view st (flush_list st h ws m) = page_view st m"
    and "valid_page st h' l \<Longrightarrow> synced st m h' l \<Longrightarrow> synced st (flush_list st h ws m) h' l"
    and "\<And>w l. w \<in> set ws \<Longrightarrow> window_page st w = Some (h, l) \<Longrightarrow> synced st (flush_list st h ws m) h l"
    and "\<And>w b. w < DOS_EMS_PHYSICAL_PAGES \<Longrightarrow> b < DOS_EMS_PAGE_SIZE \<Longrightarrow>
      flush_list st h ws m (window_address st w + b) = m (window_address st w + b)"
proof -
  have v: "page_view st (flush_list st h ws m) = page_view st m"
    if "\<forall>w\<in>set ws. w < DOS_EMS_PHYSICAL_PAGES" for m ws
    using that by (induction ws arbitrary: m) (auto simp: flush_list_def write_back_keeps_view [OF r])
  have s: "synced st (flush_list st h ws m) h' l"
    if "\<forall>w\<in>set ws. w < DOS_EMS_PHYSICAL_PAGES" "valid_page st h' l" "synced st m h' l" for m ws h' l
    using that by (induction ws arbitrary: m) (auto simp: flush_list_def write_back_keeps_synced [OF r])
  show "page_view st (flush_list st h ws m) = page_view st m"
    "valid_page st h' l \<Longrightarrow> synced st m h' l \<Longrightarrow> synced st (flush_list st h ws m) h' l"
    using v s ws by blast+
  show "synced st (flush_list st h ws m) h l" if "w \<in> set ws" "window_page st w = Some (h, l)" for w l
    using ws that(1)
  proof (induction ws arbitrary: m)
    case (Cons x ws)
    show ?case
    proof (cases "x = w")
      case True
      have vp: "valid_page st h l" using window_page_valid [OF r(1) that(2)] by blast
      have "IsMapped (PhysicalPages st w) \<and> MapHandle (PhysicalPages st w) = h"
        using that(2) by (simp add: window_page_def split: if_splits)
      then have "flush_list st h (x # ws) m = flush_list st h ws (DosEmsWriteBackWindow st w m)"
        by (simp add: flush_list_def True)
      with s [OF _ vp write_back_syncs [OF r that(2)]] Cons.prems(1) show ?thesis by simp
    next
      case False
      with Cons show ?thesis by (auto simp: flush_list_def)
    qed
  qed simp
  show "flush_list st h ws m (window_address st w + b) = m (window_address st w + b)"
    if "w < DOS_EMS_PHYSICAL_PAGES" "b < DOS_EMS_PAGE_SIZE" for w b
    using ws by (induction ws arbitrary: m)
      (auto simp: flush_list_def write_back_window [OF r(1) _ that])
qed

lemma flush_windows_effect:
  assumes r: "ems_ready live st" "no_alias st"
  shows "page_view st (flush_windows st h m) = page_view st m"
    and "\<And>l. valid_page st h l \<Longrightarrow> synced st (flush_windows st h m) h l"
    and "\<And>w b. w < DOS_EMS_PHYSICAL_PAGES \<Longrightarrow> b < DOS_EMS_PAGE_SIZE \<Longrightarrow>
      flush_windows st h m (window_address st w + b) = m (window_address st w + b)"
proof -
  have f: "flush_windows st h m = flush_list st h [0..<DOS_EMS_PHYSICAL_PAGES] m"
    by (simp add: flush_windows_def flush_list_def)
  have ws: "\<forall>w\<in>set [0..<DOS_EMS_PHYSICAL_PAGES]. w < DOS_EMS_PHYSICAL_PAGES" by simp
  note e = flush_list_effect [OF r ws]
  show "page_view st (flush_windows st h m) = page_view st m" unfolding f by (rule e(1))
  show "synced st (flush_windows st h m) h l" if v: "valid_page st h l" for l
  proof (cases "\<exists>w. window_page st w = Some (h, l)")
    case True
    then obtain w where w: "window_page st w = Some (h, l)" by blast
    with window_page_valid [OF r(1) w] show ?thesis unfolding f by (intro e(3) [OF _ w]) simp
  next
    case False
    with v show ?thesis by (intro synced_away) auto
  qed
  show "flush_windows st h m (window_address st w + b) = m (window_address st w + b)"
    if "w < DOS_EMS_PHYSICAL_PAGES" "b < DOS_EMS_PAGE_SIZE" for w b
    unfolding f by (rule e(4) [OF that])
qed
subsection \<open>Reallocation\<close>

definition drop_pages :: "'h dos_ems_state \<Rightarrow> u16 \<Rightarrow> u16 \<Rightarrow> 'h dos_ems_state" where
  "drop_pages st h n = drop_windows st (\<lambda>x. MapHandle x = h \<and> LogicalPage x \<ge> n)"

lemma DosEmsReallocatePages_cases:
  assumes "DosEmsReallocatePages st m h n = (st', m', r)"
  obtains (refused) e where "st' = st" "m' = m" "r = Inl e"
    | (same) "DosEmsGetHandle st h = Some (unat h)" "n = Pages (Handles st (unat h))" "st' = st" "m' = m" "r = Inr ()"
    | (store) "n \<noteq> 0" "call_allocate st (flush_windows st h m) n = (st', m', 0)"
      "r = Inl DOS_EMS_ERROR_NOT_ENOUGH_PAGES"
    | (resized) st1 m2 p st3 where "DosEmsGetHandle st h = Some (unat h)" "n \<noteq> Pages (Handles st (unat h))"
      "n > Pages (Handles st (unat h)) \<longrightarrow>
         unat (UsedPages st) + unat n \<le> unat (TotalPages st) + unat (Pages (Handles st (unat h)))"
      "if n \<noteq> 0 then call_allocate st (flush_windows st h m) n = (st1, m2, p) \<and> p \<noteq> 0
       else st1 = st \<and> m2 = flush_windows st h m \<and> p = 0"
      "call_free (drop_pages st1 h n)
         (if n \<noteq> 0 then copy_up p (Memory (Handles st (unat h)))
            (unat (if n < Pages (Handles st (unat h)) then n else Pages (Handles st (unat h))) * DOS_EMS_PAGE_SIZE) m2
          else m2)
         (Memory (Handles st (unat h))) (Pages (Handles st (unat h))) = (st3, m')"
      "st' = st3\<lparr>UsedPages := UsedPages st - Pages (Handles st (unat h)) + n,
         Handles := (Handles st)(unat h := (Handles st (unat h))\<lparr>Memory := p, Pages := n\<rparr>)\<rparr>"
      "r = Inr ()"
proof (cases "DosEmsGetHandle st h")
  case None
  with assms show thesis by (intro refused [of DOS_EMS_ERROR_INVALID_HANDLE]) (simp_all add: DosEmsReallocatePages_def)
next
  case (Some i)
  then have i: "i = unat h" by (simp add: get_handle_Some)
  note S = Some [unfolded i]
  let ?e = "Handles st (unat h)"
  let ?pool = "n > Pages ?e \<and>
    int (unat (UsedPages st)) - int (unat (Pages ?e)) + int (unat n) > int (unat (TotalPages st))"
  consider (eq) "n = Pages ?e" | (pool) "n \<noteq> Pages ?e" ?pool | (go) "n \<noteq> Pages ?e" "\<not> ?pool" by blast
  then show thesis
  proof cases
    case eq
    with S assms show thesis by (intro same) (simp_all add: DosEmsReallocatePages_def)
  next
    case pool
    with S assms show thesis by (intro refused [of DOS_EMS_ERROR_NOT_ENOUGH_PAGES]) (simp_all add: DosEmsReallocatePages_def Let_def)
  next
    case go
    obtain st1 m2 p where a: "(if n > 0 then call_allocate st (flush_windows st h m) n else (st, flush_windows st h m, 0))
        = (st1, m2, p)"
      by (cases "if n > 0 then call_allocate st (flush_windows st h m) n else (st, flush_windows st h m, 0)") auto
    have nz: "n > 0 \<longleftrightarrow> n \<noteq> 0" by (simp add: word_gt_0)
    show thesis
    proof (cases "n \<noteq> 0 \<and> p = 0")
      case True
      have "DosEmsReallocatePages st m h n = (st1, m2, Inl DOS_EMS_ERROR_NOT_ENOUGH_PAGES)"
        unfolding DosEmsReallocatePages_def S option.case Let_def a prod.case if_not_P [OF go(1)] if_not_P [OF go(2)]
        using True by (simp add: nz)
      with True a assms show thesis by (intro store) (auto simp: nz)
    next
      case False
      let ?m3 = "if n \<noteq> 0 then copy_up p (Memory ?e) (unat (if n < Pages ?e then n else Pages ?e) * DOS_EMS_PAGE_SIZE) m2
          else m2"
      obtain st3 m4 where c: "call_free (drop_pages st1 h n) ?m3 (Memory ?e) (Pages ?e) = (st3, m4)" by fastforce
      have keep: "Handles st3 = Handles st" "UsedPages st3 = UsedPages st"
        using a ems_call_allocate_keeps [of st "flush_windows st h m" n st1 m2 p] ems_call_free_keeps [OF c]
        by (auto simp: drop_pages_def drop_windows_keeps split: if_splits)
      have "DosEmsReallocatePages st m h n =
          (st3\<lparr>UsedPages := UsedPages st - Pages ?e + n,
             Handles := (Handles st)(unat h := ?e\<lparr>Memory := p, Pages := n\<rparr>)\<rparr>, m4, Inr ())"
        unfolding DosEmsReallocatePages_def S option.case Let_def a prod.case if_not_P [OF go(1)] if_not_P [OF go(2)]
        using False c by (simp add: nz keep drop_pages_def)
      with assms have res: "st' = st3\<lparr>UsedPages := UsedPages st - Pages ?e + n,
             Handles := (Handles st)(unat h := ?e\<lparr>Memory := p, Pages := n\<rparr>)\<rparr>" "m' = m4" "r = Inr ()"
        by simp_all
      have roomy: "n > Pages ?e \<longrightarrow> unat (UsedPages st) + unat n \<le> unat (TotalPages st) + unat (Pages ?e)"
      proof -
        have "\<not> int u - int q + int k > int t \<Longrightarrow> u + k \<le> t + q" for u q k t :: nat by linarith
        with go(2) show ?thesis by blast
      qed
      have alloc: "if n \<noteq> 0 then call_allocate st (flush_windows st h m) n = (st1, m2, p) \<and> p \<noteq> 0
          else st1 = st \<and> m2 = flush_windows st h m \<and> p = 0"
        using a False by (auto simp: nz split: if_splits)
      show thesis by (rule resized [OF S go(1) roomy alloc _ res(1,3)]) (simp only: c res(2))
    qed
  qed
qed
text \<open>
  A successful resize, as facts about its result: the new slot, the windows that stay, and the
  bytes, with \<open>m1\<close> the memory after the handle's windows were flushed.
\<close>

lemma ems_reallocate_resizes:
  assumes r: "ems_ready live st" and call: "DosEmsReallocatePages st m h n = (st', m', Inr ())"
    and ne: "n \<noteq> Pages (Handles st (unat h))"
  defines "m1 \<equiv> flush_windows st h m"
  shows "ems_ready live st'" and "DosEmsGetHandle st h = Some (unat h)" and "InUse (Handles st' (unat h))"
    and "Pages (Handles st' (unat h)) = n"
    and "\<And>i. i \<noteq> unat h \<Longrightarrow> Handles st' i = Handles st i"
    and "\<And>w. window_page st' w = (case window_page st w of None \<Rightarrow> None
       | Some (h', l) \<Rightarrow> if h' = h \<and> n \<le> l then None else Some (h', l))"
    and "window_address st' = window_address st"
    and "\<And>k c a. ems_blocks st k = Some c \<Longrightarrow> k \<noteq> Some (unat h) \<Longrightarrow> inside a c \<Longrightarrow> m' a = m1 a"
    and "\<And>l b. l < n \<Longrightarrow> b < DOS_EMS_PAGE_SIZE \<Longrightarrow> m' (page_address (Handles st' (unat h)) l + b) =
       (if l < Pages (Handles st (unat h)) then m1 (page_address (Handles st (unat h)) l + b) else 0)"
    and "TotalPages st' = TotalPages st"
proof -
  let ?e = "Handles st (unat h)" and ?i = "unat h"
  let ?keep = "unat (if n < Pages ?e then n else Pages ?e) * DOS_EMS_PAGE_SIZE"
  from call ne obtain st1 m2 p st3 where g: "DosEmsGetHandle st h = Some ?i"
      "n > Pages ?e \<longrightarrow> unat (UsedPages st) + unat n \<le> unat (TotalPages st) + unat (Pages ?e)"
      "if n \<noteq> 0 then call_allocate st m1 n = (st1, m2, p) \<and> p \<noteq> 0 else st1 = st \<and> m2 = m1 \<and> p = 0"
      "call_free (drop_pages st1 h n) (if n \<noteq> 0 then copy_up p (Memory ?e) ?keep m2 else m2)
         (Memory ?e) (Pages ?e) = (st3, m')"
      "st' = st3\<lparr>UsedPages := UsedPages st - Pages ?e + n,
         Handles := (Handles st)(?i := ?e\<lparr>Memory := p, Pages := n\<rparr>)\<rparr>"
    unfolding m1_def by (cases rule: DosEmsReallocatePages_cases) auto
  define m3 where "m3 = (if n \<noteq> 0 then copy_up p (Memory ?e) ?keep m2 else m2)"
  have i: "?i < DOS_EMS_MAX_HANDLES" "InUse ?e" using g(1) by (simp_all add: get_handle_Some)
  have books: "ems_books st" and win: "ems_windows st" and blk: "blocks_ok (live (Context st)) (ems_blocks st)"
    and so: "store_ok live st" using r by (simp_all add: ems_ready_parts)
  have keep1: "Handles st1 = Handles st" "TotalPages st1 = TotalPages st" "Allocate st1 = Allocate st"
    "Free st1 = Free st" "Frame st1 = Frame st" "PhysicalPages st1 = PhysicalPages st"
    using g(3) ems_call_allocate_keeps [of st m1 n st1 m2 p] by (auto split: if_splits)
  note keep3 = ems_call_free_keeps [OF g(4), unfolded drop_pages_def drop_windows_keeps]
  have H: "Handles st' = (Handles st)(?i := ?e\<lparr>Memory := p, Pages := n\<rparr>)" using g(5) by simp
  have C: "Context st' = Context st3" "Frame st' = Frame st" "Allocate st' = Allocate st" "Free st' = Free st"
    "TotalPages st' = TotalPages st" "PhysicalPages st' = PhysicalPages (drop_pages st1 h n)"
    using g(5) keep1 keep3 by (simp_all add: drop_pages_def)
  show "TotalPages st' = TotalPages st" by (rule C)
  show "DosEmsGetHandle st h = Some ?i" by (rule g)
  show "InUse (Handles st' ?i)" "Pages (Handles st' ?i) = n" using i by (simp_all add: H)
  show old: "Handles st' j = Handles st j" if "j \<noteq> ?i" for j using that by (simp add: H)
  show "window_address st' = window_address st" by (simp add: window_address_def C fun_eq_iff)
  have "window_page st' = window_page (drop_pages st1 h n)" "window_page st1 = window_page st"
    by (simp_all add: window_page_def C keep1 fun_eq_iff)
  then show wp: "window_page st' w = (case window_page st w of None \<Rightarrow> None
       | Some (h', l) \<Rightarrow> if h' = h \<and> n \<le> l then None else Some (h', l))" for w
    by (simp add: drop_pages_def window_page_drop [where q = "\<lambda>h' l. h' = h \<and> n \<le> l"])
  \<comment> \<open>the books\<close>
  have le: "Pages ?e \<le> UsedPages st" by (rule books_pages_le [OF books i(1)])
  have used: "unat (UsedPages st) \<le> unat (TotalPages st)" using books by (simp add: ems_books_def)
  have T: "unat (TotalPages st) < 2 ^ 16" using unsigned_less [of "TotalPages st"] by simp
  have sub: "unat (UsedPages st - Pages ?e) = unat (UsedPages st) - unat (Pages ?e)" by (rule unat_sub [OF le])
  have fits: "unat (UsedPages st) - unat (Pages ?e) + unat n \<le> unat (TotalPages st)"
  proof (cases "n > Pages ?e")
    case True
    with g(2) le show ?thesis by (simp add: word_le_nat_alt)
  next
    case False
    then have "unat n \<le> unat (Pages ?e)" by (simp add: word_le_nat_alt not_less)
    with used le show ?thesis by (simp add: word_le_nat_alt)
  qed
  then have sum: "unat (UsedPages st - Pages ?e + n) = unat (UsedPages st) - unat (Pages ?e) + unat n"
    using T by (simp add: unat_word_ariths sub)
  have pz: "p = 0 \<longleftrightarrow> n = 0" using g(3) by (auto split: if_splits)
  have books': "ems_books st'"
    by (rule books_slot [OF books i(1) H]) (use i sum fits le C(5) g(5) pz in \<open>simp_all add: word_le_nat_alt\<close>)
  \<comment> \<open>the store\<close>
  let ?new = "(p, unat n * DOS_EMS_PAGE_SIZE)" and ?old = "(Memory ?e, unat (Pages ?e) * DOS_EMS_PAGE_SIZE)"
  have al: "live (Context st1) = insert ?new (live (Context st))"
    "\<And>c. c \<in> live (Context st) \<Longrightarrow> apart ?new c"
    "\<And>a. m2 a = (if inside a ?new then 0 else m1 a)" if "n \<noteq> 0"
    using g(3) that store_allocates [OF so, of m1 n st1 m2 p] by (simp_all split: if_splits)
  have al0: "n = 0 \<Longrightarrow> st1 = st \<and> m2 = m1" using g(3) by simp
  have sub_live: "live (Context st) \<subseteq> live (Context st1)" using al(1) al0 by (cases "n = 0") auto
  have old_block: "Memory ?e \<noteq> 0 \<Longrightarrow> ems_blocks st (Some ?i) = Some ?old" by (simp add: ems_blocks_def)
  have old_live: "Memory ?e \<noteq> 0 \<Longrightarrow> ?old \<in> live (Context st)" using blocks_live [OF blk old_block] by blast
  have so1: "store_ok live (drop_pages st1 h n)"
    using so by (simp add: store_ok_def drop_pages_def drop_windows_keeps keep1)
  have in1: "Memory ?e \<noteq> 0 \<Longrightarrow> ?old \<in> live (Context (drop_pages st1 h n))"
    using old_live sub_live by (auto simp: drop_pages_def drop_windows_keeps)
  have f1: "live (Context st3) = (if Memory ?e = 0 then live (Context st1) else live (Context st1) - {?old})"
    using store_frees(1) [OF so1 g(4) in1] by (simp add: drop_pages_def drop_windows_keeps)
  have f2: "Memory ?e \<noteq> 0 \<and> inside a ?old" if "m' a \<noteq> m3 a" for a
    by (rule store_frees(2) [OF so1 g(4) in1 that [unfolded m3_def]])
  have eb: "ems_blocks st' = (ems_blocks st)(Some ?i := if p = 0 then None else Some ?new)"
    using blocks_slot [OF H C(2)] by simp
  have npos: "n \<noteq> 0 \<Longrightarrow> 0 < snd ?new" by (simp add: unat_gt_0 DOS_EMS_PAGE_SIZE_def)
  have "blocks_ok (live (Context st3)) (ems_blocks st')"
  proof (cases "n = 0")
    case True
    then show ?thesis
      using blocks_unput [OF blk, of "Some ?i"] blocks_drop [OF blk old_block] al0 f1 pz eb by auto
  next
    case False
    then show ?thesis
      using blocks_put [OF blk npos [OF False] al(2) [OF False], of "Some ?i"]
        blocks_replace [OF blk old_block npos [OF False] al(2) [OF False]] al(1) [OF False] f1 pz eb by auto
  qed
  then have blk': "blocks_ok (live (Context st')) (ems_blocks st')" by (simp add: C)
  have vp: "valid_page st h' l \<Longrightarrow> \<not> (h' = h \<and> n \<le> l) \<Longrightarrow> valid_page st' h' l" for h' l
    using i valid_page_slot [OF old, of h'] by (cases "h' = h") (auto simp: valid_page_iff H word_unat_eq_iff not_le)
  have "ems_windows st'" using win vp by (auto simp: ems_windows_def wp split: option.splits if_splits)
  with books' blk' so show ready': "ems_ready live st'"
    unfolding ems_ready_parts by (simp add: store_ok_def C)
  \<comment> \<open>the bytes\<close>
  have copied: "m3 = mem_copied p (Memory ?e) ?keep m2" if "n \<noteq> 0"
  proof -
    define kk where "kk = ?keep"
    have k: "kk \<le> unat n * DOS_EMS_PAGE_SIZE" "kk \<le> unat (Pages ?e) * DOS_EMS_PAGE_SIZE"
      by (auto simp: kk_def word_less_nat_alt)
    have "kk = 0 \<or> apart ?new ?old"
    proof (cases "Memory ?e = 0")
      case True
      then have "Pages ?e = 0" using books by (simp add: ems_books_def)
      then show ?thesis by (simp add: kk_def)
    qed (use al(2) [OF that old_live] in simp)
    then have "p \<le> Memory ?e \<or> Memory ?e + kk \<le> p"
      using k by (auto simp: apart_def range_free_def)
    from copy_up_correct [OF this] that show ?thesis unfolding m3_def kk_def [symmetric] by simp
  qed
  show "m' a = m1 a" if c: "ems_blocks st k = Some c" "k \<noteq> Some ?i" "inside a c" for k c a
  proof -
    have live: "c \<in> live (Context st)" using blocks_live [OF blk c(1)] by blast
    have not_old: "\<not> (Memory ?e \<noteq> 0 \<and> inside a ?old)"
      using apart_inside [OF blocks_apart [OF blk c(2,1) old_block] c(3)] by blast
    have "m3 a = m1 a"
    proof (cases "n = 0")
      case True
      with al0 show ?thesis by (simp add: m3_def)
    next
      case False
      have "\<not> inside a ?new" using apart_inside [OF al(2) [OF False live], of a] c(3) by blast
      then have x: "a < p \<or> p + unat n * DOS_EMS_PAGE_SIZE \<le> a" and "m2 a = m1 a"
        using al(3) [OF False, of a] by (auto simp: inside_def)
      have "?keep \<le> unat n * DOS_EMS_PAGE_SIZE" by (auto simp: word_less_nat_alt)
      with x have "a < p \<or> p + ?keep \<le> a" by (meson add_left_mono order_trans)
      with \<open>m2 a = m1 a\<close> show ?thesis by (simp only: copied [OF False] mem_copied_outside)
    qed
    moreover have "m' a = m3 a" using f2 [of a] not_old by blast
    ultimately show ?thesis by simp
  qed
  show "m' (page_address (Handles st' ?i) l + b) = (if l < Pages ?e then m1 (page_address ?e l + b) else 0)"
    if l: "l < n" and b: "b < DOS_EMS_PAGE_SIZE" for l b
  proof -
    have n0: "n \<noteq> 0" using l by auto
    let ?o = "unat l * DOS_EMS_PAGE_SIZE + b"
    have addr: "page_address (Handles st' ?i) l + b = p + ?o" "page_address ?e l + b = Memory ?e + ?o"
      by (simp_all add: page_address_def H)
    have mono: "?o < unat k * DOS_EMS_PAGE_SIZE \<longleftrightarrow> l < k" for k :: u16
      using b by (auto simp: word_less_nat_alt DOS_EMS_PAGE_SIZE_def)
    have in_new: "inside (p + ?o) ?new" using mono [of n] l by (simp add: inside_def)
    have new_old: "\<not> (Memory ?e \<noteq> 0 \<and> inside (p + ?o) ?old)"
      using apart_inside [OF al(2) [OF n0 old_live] in_new] by blast
    then have "m' (p + ?o) = m3 (p + ?o)" using f2 by blast
    also have "\<dots> = (if l < Pages ?e then m1 (Memory ?e + ?o) else 0)"
    proof (cases "l < Pages ?e")
      case True
      then have "?o < ?keep" using mono [of n] mono [of "Pages ?e"] l by simp
      then have "m3 (p + ?o) = m2 (Memory ?e + ?o)" by (simp only: copied [OF n0] mem_facts)
      moreover have mem: "Memory ?e \<noteq> 0" "inside (Memory ?e + ?o) ?old"
      proof -
        have "Pages ?e \<noteq> 0" using True by auto
        then show "Memory ?e \<noteq> 0" using books by (simp add: ems_books_def)
        show "inside (Memory ?e + ?o) ?old" using mono [of "Pages ?e"] True by (simp add: inside_def)
      qed
      moreover have "\<not> inside (Memory ?e + ?o) ?new"
        using apart_inside [OF al(2) [OF n0 old_live [OF mem(1)]], of "Memory ?e + ?o"] mem(2) by blast
      ultimately show ?thesis using True al(3) [OF n0, of "Memory ?e + ?o"] by simp
    next
      case False
      then have "?keep \<le> ?o" using mono [of "Pages ?e"] l by (auto simp: not_less)
      then have "m3 (p + ?o) = m2 (p + ?o)" by (simp only: copied [OF n0]) (simp add: mem_copied_def)
      with False al(3) [OF n0, of "p + ?o"] in_new show ?thesis by simp
    qed
    finally show ?thesis by (simp only: addr)
  qed
qed
text \<open>
  Reallocation keeps every page it can. When pages are not shown twice and function 51h
  succeeds, the handle has the new number of pages, each page that remains has the bytes the
  client saw, those the guest had only in a window included; each page that is added is zero;
  no page of another handle changes; windows that showed a dropped page show nothing and all
  others stay; and the pool still accounts for every page.
\<close>

theorem ems_reallocate_preserves:
  assumes r: "ems_ready live st" "no_alias st" and call: "DosEmsReallocatePages st m h n = (st', m', Inr ())"
  shows "ems_ready live st' \<and> no_alias st' \<and> DosEmsGetHandlePages st' h = Inr n \<and>
    (\<forall>l<n. \<forall>b. page_view st' m' h l b = (if valid_page st h l then page_view st m h l b else 0)) \<and>
    (\<forall>h' l. h' \<noteq> h \<longrightarrow> page_view st' m' h' l = page_view st m h' l) \<and>
    (\<forall>w. window_page st' w = (case window_page st w of None \<Rightarrow> None
       | Some (h', l) \<Rightarrow> if h' = h \<and> n \<le> l then None else Some (h', l)))"
proof (cases "n = Pages (Handles st (unat h))")
  case True
  have "DosEmsGetHandle st h \<noteq> None" using call by (auto simp: DosEmsReallocatePages_def split: option.splits)
  then have S: "DosEmsGetHandle st h = Some (unat h)" by (auto simp: DosEmsGetHandle_def split: if_splits)
  with call True have e: "st' = st" "m' = m" by (simp_all add: DosEmsReallocatePages_def)
  have "window_page st w = Some (h, l) \<Longrightarrow> l < n" for w l
    using window_page_valid [OF r(1), of w h l] True by (auto simp: valid_page_iff)
  moreover have "\<forall>l<n. valid_page st h l" using S True by (simp add: valid_page_def)
  ultimately show ?thesis using r True S
    by (force simp: e DosEmsGetHandlePages_def split: option.split)
next
  case False
  note g = ems_reallocate_resizes [OF r(1) call False]
  let ?m1 = "flush_windows st h m"
  have books: "ems_books st" using r(1) by (simp add: ems_ready_parts)
  have a': "no_alias st'" using r(2) unfolding no_alias_def g(6) by (auto split: option.splits if_splits)
  have win: "m' (window_address st w + b) = ?m1 (window_address st w + b)"
    if "w < DOS_EMS_PHYSICAL_PAGES" "b < DOS_EMS_PAGE_SIZE" for w b
    by (rule g(8) [of None, OF _ _ window_inside [OF that]]) (simp_all add: ems_blocks_def)
  have open_: "unat h < DOS_EMS_MAX_HANDLES" "InUse (Handles st (unat h))"
    using g(2) by (simp_all add: get_handle_Some)
  have new: "valid_page st' h l \<longleftrightarrow> l < n" for l using g(3,4) open_ by (simp add: valid_page_iff)
  have this_: "page_view st' m' h l b = (if valid_page st h l then page_view st m h l b else 0)" if l: "l < n" for l b
  proof (cases "b < DOS_EMS_PAGE_SIZE")
    case b: True
    note v' = new [THEN iffD2, OF l]
    show ?thesis
    proof (cases "valid_page st h l")
      case True
      have "m' (page_address (Handles st' (unat h)) l + b) = ?m1 (page_address (Handles st (unat h)) l + b)"
        using g(9) [OF l b] True by (simp add: valid_page_iff)
      with win [OF _ b] have "page_view st' m' h l b = page_view st ?m1 h l b"
        using l by (intro view_transfer [OF r(1) g(1) r(2) a' True v' b]) (auto simp: g(6,7) split: option.splits if_splits)
      with True flush_windows_effect(1) [OF r] show ?thesis by simp
    next
      case no: False
      then have "window_page st' w \<noteq> Some (h, l)" for w
        using window_page_valid [OF r(1), of w h l] by (auto simp: g(6) split: option.splits if_splits)
      from view_away [OF this v' b] g(9) [OF l b] no open_ show ?thesis by (simp add: valid_page_iff)
    qed
  qed (simp add: view_outside)
  have others: "page_view st' m' h' l = page_view st m h' l" if ne: "h' \<noteq> h" for h' l
  proof
    fix b
    have u: "unat h' \<noteq> unat h" using ne by (simp add: word_unat_eq_iff)
    note vs = valid_page_slot [OF g(5) [OF u]]
    show "page_view st' m' h' l b = page_view st m h' l b"
    proof (cases "valid_page st h' l \<and> b < DOS_EMS_PAGE_SIZE")
      case True
      then have v: "valid_page st h' l" "valid_page st' h' l" and b: "b < DOS_EMS_PAGE_SIZE" using vs by simp_all
      have "m' (page_address (Handles st' (unat h')) l + b) = ?m1 (page_address (Handles st (unat h')) l + b)"
        unfolding g(5) [OF u]
        by (rule g(8) [OF valid_block(1) [OF books v(1)] _ page_inside [OF books v(1) b]]) (use u in simp)
      with win [OF _ b] have "page_view st' m' h' l b = page_view st ?m1 h' l b"
        using ne by (intro view_transfer [OF r(1) g(1) r(2) a' v b]) (auto simp: g(6,7) split: option.splits if_splits)
      with flush_windows_effect(1) [OF r] show ?thesis by simp
    qed (use vs in \<open>simp add: page_view_def\<close>)
  qed
  have "DosEmsGetHandlePages st' h = Inr n"
    using g(3,4) open_ by (simp add: DosEmsGetHandlePages_def DosEmsGetHandle_def)
  with g(1,6) a' this_ others show ?thesis by simp
qed

lemma ems_ready_reallocate:
  assumes r: "ems_ready live st" and call: "DosEmsReallocatePages st m h n = (st', m', res)"
  shows "ems_ready live st' \<and> TotalPages st' = TotalPages st"
proof (cases res)
  case (Inr u)
  then have c: "DosEmsReallocatePages st m h n = (st', m', Inr ())" using call by simp
  show ?thesis
  proof (cases "n = Pages (Handles st (unat h))")
    case True
    with c r show ?thesis by (auto simp: DosEmsReallocatePages_def get_handle_Some split: option.splits)
  next
    case False
    from ems_reallocate_resizes(1,10) [OF r c False] show ?thesis by blast
  qed
next
  case (Inl e)
  from call show ?thesis
  proof (cases rule: DosEmsReallocatePages_cases)
    case store
    from ems_store_refuses [OF _ store(2,1)] r have "live (Context st') = live (Context st)"
      by (auto simp: ems_ready_parts)
    with ready_same_store [OF r ems_call_allocate_keeps(1-7) [OF store(2)]] ems_call_allocate_keeps(3) [OF store(2)]
    show ?thesis by simp
  qed (use r Inl in auto)
qed

lemma ready_deallocate:
  assumes r: "ems_ready live st" and call: "DosEmsDeallocatePages st m h = (st', m', res)"
  shows "ems_ready live st' \<and> TotalPages st' = TotalPages st"
  using call
proof (cases rule: DosEmsDeallocatePages_cases)
  case freed
  then have "DosEmsDeallocatePages st m h = (st', m', Inr ())" using call by simp
  from deallocate_releases(1,8) [OF r this] show ?thesis by blast
qed (use r in simp)
subsection \<open>Names and saved maps\<close>

lemma ready_slot_meta:
  assumes r: "ems_ready live st" and H: "Handles st' = (Handles st)(i := e)"
    and e: "InUse e" "InUse (Handles st i)" "Pages e = Pages (Handles st i)" "Memory e = Memory (Handles st i)"
    and i: "i < DOS_EMS_MAX_HANDLES"
    and rest: "UsedPages st' = UsedPages st" "TotalPages st' = TotalPages st" "Allocate st' = Allocate st"
      "Free st' = Free st" "Frame st' = Frame st" "PhysicalPages st' = PhysicalPages st" "Context st' = Context st"
  shows "ems_ready live st'" and "window_page st' = window_page st" and "valid_page st' = valid_page st"
proof -
  have books: "ems_books st" using r by (simp add: ems_ready_parts)
  have b': "ems_books st'"
    using books e rest by (intro books_slot [OF books i H]) (auto simp: ems_books_def)
  show wp: "window_page st' = window_page st" by (simp add: window_page_def rest fun_eq_iff)
  show vp: "valid_page st' = valid_page st"
    using e by (auto simp: valid_page_iff H fun_eq_iff)
  have "ems_blocks st' = ems_blocks st"
    by (rule ext) (auto simp: ems_blocks_def H e rest split: option.split)
  with r b' show "ems_ready live st'"
    by (simp add: ems_ready_parts ems_windows_def wp vp store_ok_def rest)
qed

lemma save_effect:
  assumes r: "ems_ready live st" and call: "DosEmsSavePageMap st h = (st', res)"
  shows "ems_ready live st' \<and> TotalPages st' = TotalPages st \<and> window_page st' = window_page st"
proof (cases "DosEmsGetHandle st h")
  case (Some i)
  then have i: "i < DOS_EMS_MAX_HANDLES" "InUse (Handles st i)" by (auto simp: get_handle_Some)
  show ?thesis
  proof (cases "IsMapSaved (Handles st i)")
    case False
    with Some call have "st' = st\<lparr>Handles := (Handles st)(i := (Handles st i)\<lparr>
        SavedMap := (\<lambda>w. if w < DOS_EMS_PHYSICAL_PAGES then PhysicalPages st w else SavedMap (Handles st i) w),
        IsMapSaved := True\<rparr>)\<rparr>"
      by (simp add: DosEmsSavePageMap_def)
    with ready_slot_meta(1,2) [OF r _ _ i(2) _ _ i(1), of st'] i show ?thesis by simp
  qed (use Some call r in \<open>simp add: DosEmsSavePageMap_def\<close>)
qed (use call r in \<open>simp add: DosEmsSavePageMap_def\<close>)

definition saved_page :: "dos_ems_handle \<Rightarrow> nat \<Rightarrow> (u16 \<times> u16) option" where
  "saved_page e w = (if IsMapped (SavedMap e w) then Some (MapHandle (SavedMap e w), LogicalPage (SavedMap e w)) else None)"

lemma restore_window_effect:
  assumes r: "ems_ready live st" and w: "w < DOS_EMS_PHYSICAL_PAGES"
    and c: "restore_window i w (st, m) = (st', m')"
    and real: "\<And>h l. saved_page (Handles st i) w = Some (h, l) \<Longrightarrow> l \<noteq> DOS_EMS_UNMAP_LOGICAL_PAGE"
  shows "ems_ready live st' \<and> Handles st' = Handles st \<and> TotalPages st' = TotalPages st \<and>
    window_page st' = (window_page st)(w :=
      case saved_page (Handles st i) w of None \<Rightarrow> None
      | Some (h, l) \<Rightarrow> if valid_page st h l then Some (h, l) else window_page st w)"
proof -
  let ?s = "SavedMap (Handles st i) w"
  have small: "unat (of_nat w :: u8) = w"
    by (rule unat_of_nat_small) (use w in \<open>simp add: DOS_EMS_PHYSICAL_PAGES_def\<close>)
  show ?thesis
  proof (cases "IsMapped ?s")
    case False
    with c have "st' = unmap_window st w" by (simp add: restore_window_def)
    with False ready_set_window [OF r w, of "(PhysicalPages st w)\<lparr>IsMapped := False\<rparr>"] show ?thesis
      by (simp add: unmap_window_def window_page_set [OF w] saved_page_def set_window_keeps)
  next
    case True
    obtain x y res where call: "DosEmsMapPage st m (of_nat w) (LogicalPage ?s) (MapHandle ?s) = (x, y, res)"
      by (cases "DosEmsMapPage st m (of_nat w) (LogicalPage ?s) (MapHandle ?s)") auto
    with c True have e: "st' = x" by (simp add: restore_window_def)
    have s: "saved_page (Handles st i) w = Some (MapHandle ?s, LogicalPage ?s)" using True by (simp add: saved_page_def)
    have l: "LogicalPage ?s \<noteq> DOS_EMS_UNMAP_LOGICAL_PAGE" by (rule real [OF s])
    have total: "TotalPages x = TotalPages st"
      using call by (auto simp: DosEmsMapPage_def Let_def unmap_window_def set_window_keeps split: if_splits option.splits)
    show ?thesis
    proof (cases res)
      case (Inl z)
      with map_succeeds [of st m "of_nat w" "LogicalPage ?s" "MapHandle ?s"] call small w
      have "\<not> valid_page st (MapHandle ?s) (LogicalPage ?s)" by (auto simp: ems_open_def valid_page_def)
      with DosEmsMapPage_Inl [OF call [unfolded Inl]] r e s show ?thesis by simp
    next
      case (Inr z)
      then have ok: "DosEmsMapPage st m (of_nat w) (LogicalPage ?s) (MapHandle ?s) = (x, y, Inr ())" using call by simp
      with map_succeeds [of st m "of_nat w" "LogicalPage ?s" "MapHandle ?s"] l
      have "valid_page st (MapHandle ?s) (LogicalPage ?s)" by auto
      with ready_map [OF r ok] map_window_page(1) [OF ok] l e s small total show ?thesis by simp
    qed
  qed
qed

lemma restore_list_effect:
  assumes "ems_ready live st" "\<forall>w\<in>set ws. w < DOS_EMS_PHYSICAL_PAGES" "distinct ws"
    and "fold (restore_window i) ws (st, m) = (st', m')"
    and "\<And>w h l. w \<in> set ws \<Longrightarrow> saved_page (Handles st i) w = Some (h, l) \<Longrightarrow> l \<noteq> DOS_EMS_UNMAP_LOGICAL_PAGE"
  shows "ems_ready live st' \<and> Handles st' = Handles st \<and> TotalPages st' = TotalPages st \<and>
    (\<forall>w. window_page st' w =
      (if w \<in> set ws then
         (case saved_page (Handles st i) w of None \<Rightarrow> None
          | Some (h, l) \<Rightarrow> if valid_page st h l then Some (h, l) else window_page st w)
       else window_page st w))"
  using assms
proof (induction ws arbitrary: st m)
  case (Cons x ws)
  obtain st1 m1 where c: "restore_window i x (st, m) = (st1, m1)" by fastforce
  have e: "ems_ready live st1" "Handles st1 = Handles st" "TotalPages st1 = TotalPages st"
    "window_page st1 = (window_page st)(x := case saved_page (Handles st i) x of None \<Rightarrow> None
      | Some (h, l) \<Rightarrow> if valid_page st h l then Some (h, l) else window_page st x)"
    using restore_window_effect [OF Cons.prems(1) _ c] Cons.prems(2,5) by auto
  have "fold (restore_window i) ws (st1, m1) = (st', m')" using Cons.prems(4) c by simp
  moreover have "l \<noteq> DOS_EMS_UNMAP_LOGICAL_PAGE"
    if "w \<in> set ws" "saved_page (Handles st1 i) w = Some (h, l)" for w h l
    using Cons.prems(5) that e(2) by auto
  ultimately have IH: "ems_ready live st' \<and> Handles st' = Handles st1 \<and> TotalPages st' = TotalPages st1 \<and>
    (\<forall>w. window_page st' w = (if w \<in> set ws then
         (case saved_page (Handles st1 i) w of None \<Rightarrow> None
          | Some (h, l) \<Rightarrow> if valid_page st1 h l then Some (h, l) else window_page st1 w)
       else window_page st1 w))"
    using Cons.IH [OF e(1)] Cons.prems(2,3) by simp
  have x: "x \<notin> set ws" and vp: "valid_page st1 = valid_page st"
    using Cons.prems(3) valid_page_cong [OF e(2)] by (auto simp: fun_eq_iff)
  have "window_page st' w = (if w \<in> set (x # ws) then
         (case saved_page (Handles st i) w of None \<Rightarrow> None
          | Some (h, l) \<Rightarrow> if valid_page st h l then Some (h, l) else window_page st w)
       else window_page st w)" for w
    using conjunct2 [OF conjunct2 [OF conjunct2 [OF IH]], THEN spec [of _ w]] x
    by (cases "w = x") (auto simp: e vp split: option.splits if_splits)
  with IH e show ?case by simp
qed simp

lemma restore_effect:
  assumes r: "ems_ready live st" and call: "DosEmsRestorePageMap st m h = (st', m', Inr ())"
    and real: "\<And>w k l. w < DOS_EMS_PHYSICAL_PAGES \<Longrightarrow> saved_page (Handles st (unat h)) w = Some (k, l) \<Longrightarrow>
      l \<noteq> DOS_EMS_UNMAP_LOGICAL_PAGE"
  shows "ems_ready live st' \<and> TotalPages st' = TotalPages st \<and>
    Handles st' = (Handles st)(unat h := (Handles st (unat h))\<lparr>IsMapSaved := False\<rparr>) \<and>
    (\<forall>w<DOS_EMS_PHYSICAL_PAGES. window_page st' w =
      (case saved_page (Handles st (unat h)) w of None \<Rightarrow> None
       | Some (k, l) \<Rightarrow> if valid_page st k l then Some (k, l) else window_page st w))"
proof -
  obtain i where i: "DosEmsGetHandle st h = Some i" using call by (auto simp: DosEmsRestorePageMap_def split: option.splits)
  then have S: "i = unat h" "i < DOS_EMS_MAX_HANDLES" "InUse (Handles st i)" by (auto simp: get_handle_Some)
  obtain st1 m1 where f: "fold (restore_window i) [0..<DOS_EMS_PHYSICAL_PAGES] (st, m) = (st1, m1)" by fastforce
  with call i have e: "st' = st1\<lparr>Handles := (Handles st1)(i := (Handles st1 i)\<lparr>IsMapSaved := False\<rparr>)\<rparr>"
    by (auto simp: DosEmsRestorePageMap_def split: if_splits)
  from restore_list_effect [OF r _ _ f] real S(1)
  have s1: "ems_ready live st1" "Handles st1 = Handles st" "TotalPages st1 = TotalPages st"
    "\<forall>w<DOS_EMS_PHYSICAL_PAGES. window_page st1 w =
      (case saved_page (Handles st (unat h)) w of None \<Rightarrow> None
       | Some (k, l) \<Rightarrow> if valid_page st k l then Some (k, l) else window_page st w)" by auto
  have "ems_ready live st'" "window_page st' = window_page st1"
    using ready_slot_meta(1,2) [OF s1(1), of st' i "(Handles st1 i)\<lparr>IsMapSaved := False\<rparr>"] S s1(2)
    by (simp_all add: e)
  with s1 S(1) show ?thesis by (simp add: e)
qed

text \<open>
  A restored page map is the saved one, where it still can be. Function 47h, then anything
  that leaves the saved record alone, then 48h: the restore succeeds, every window shows what
  it showed at the save if that page still exists, nothing if it showed nothing, the record is
  spent and the manager stays sound. A window whose saved page has gone keeps what it shows at
  that moment, and the call reports success all the same.
\<close>

theorem ems_restore_contract:
  assumes r: "ems_ready live st" "ems_ready live st2"
    and save: "DosEmsSavePageMap st h = (st1, Inr ())"
    and kept: "Handles st2 (unat h) = Handles st1 (unat h)"
    and restore: "DosEmsRestorePageMap st2 m h = (st3, m3, res)"
  shows "res = Inr () \<and> ems_ready live st3 \<and> \<not> IsMapSaved (Handles st3 (unat h)) \<and>
    (\<forall>w<DOS_EMS_PHYSICAL_PAGES. window_page st3 w =
      (case window_page st w of None \<Rightarrow> None
       | Some (k, l) \<Rightarrow> if valid_page st2 k l then Some (k, l) else window_page st2 w))"
proof -
  obtain i where i: "DosEmsGetHandle st h = Some i" using save by (auto simp: DosEmsSavePageMap_def split: option.splits)
  then have S: "i = unat h" "i < DOS_EMS_MAX_HANDLES" "InUse (Handles st i)" by (auto simp: get_handle_Some)
  have s1: "Handles st1 (unat h) = (Handles st (unat h))\<lparr>SavedMap :=
      (\<lambda>w. if w < DOS_EMS_PHYSICAL_PAGES then PhysicalPages st w else SavedMap (Handles st (unat h)) w),
      IsMapSaved := True\<rparr>"
    using save i S(1) by (auto simp: DosEmsSavePageMap_def split: if_splits)
  have saved: "w < DOS_EMS_PHYSICAL_PAGES \<Longrightarrow> saved_page (Handles st2 (unat h)) w = window_page st w" for w
    by (simp add: saved_page_def window_page_def kept s1)
  have real: "l \<noteq> DOS_EMS_UNMAP_LOGICAL_PAGE"
    if "w < DOS_EMS_PHYSICAL_PAGES" "saved_page (Handles st2 (unat h)) w = Some (k, l)" for w k l
  proof -
    have "valid_page st k l" using that saved window_page_valid [OF r(1)] by simp
    then have "l < Pages (Handles st (unat k))" by (simp add: valid_page_iff)
    moreover have "unat (Pages (Handles st (unat k))) < 2 ^ 16"
      using unsigned_less [of "Pages (Handles st (unat k))"] by simp
    ultimately show ?thesis by (auto simp: DOS_EMS_UNMAP_LOGICAL_PAGE_def word_less_nat_alt)
  qed
  have "DosEmsGetHandle st2 h = Some (unat h)" "IsMapSaved (Handles st2 (unat h))"
    using S by (simp_all add: get_handle_Some kept s1)
  with restore have ok: "res = Inr ()" by (auto simp: DosEmsRestorePageMap_def split: prod.splits)
  have "ems_ready live st3 \<and> TotalPages st3 = TotalPages st2 \<and>
    Handles st3 = (Handles st2)(unat h := (Handles st2 (unat h))\<lparr>IsMapSaved := False\<rparr>) \<and>
    (\<forall>w<DOS_EMS_PHYSICAL_PAGES. window_page st3 w =
      (case saved_page (Handles st2 (unat h)) w of None \<Rightarrow> None
       | Some (k, l) \<Rightarrow> if valid_page st2 k l then Some (k, l) else window_page st2 w))"
    by (rule restore_effect [OF r(2) restore [unfolded ok]]) (rule real)
  with saved ok show ?thesis by simp
qed

end
