(* ===== verification/Dos_Ems_Api.thy ===== *)
theory Dos_Ems_Api
  imports Dos_Ems_Alloc Vdm_Registers
begin

text \<open>
  INT 67h, \<^verbatim>\<open>HostEms\<close> of \<^verbatim>\<open>src/host/host_dos.c\<close>: the function in AH, the status back in AH. The
  host's own memory and the guest's are one byte memory.
\<close>

record 'h ems_host =
  Ems :: "'h dos_ems_state"
  HostMemory :: mem

definition E_SETAH :: "u32 \<Rightarrow> vdm_registers \<Rightarrow> vdm_registers" where
  "E_SETAH v r = r\<lparr>Eax := set_high (Eax r) v\<rparr>"

definition E_SETAL :: "u32 \<Rightarrow> vdm_registers \<Rightarrow> vdm_registers" where
  "E_SETAL v r = r\<lparr>Eax := set_low (Eax r) v\<rparr>"

definition E_SETBX :: "u32 \<Rightarrow> vdm_registers \<Rightarrow> vdm_registers" where
  "E_SETBX v r = r\<lparr>Ebx := VDM_SET16 (Ebx r) v\<rparr>"

definition E_SETDX :: "u32 \<Rightarrow> vdm_registers \<Rightarrow> vdm_registers" where
  "E_SETDX v r = r\<lparr>Edx := VDM_SET16 (Edx r) v\<rparr>"

definition e_answer :: "u8 + 'a \<Rightarrow> ('a \<Rightarrow> vdm_registers \<Rightarrow> vdm_registers) \<Rightarrow> vdm_registers \<Rightarrow> vdm_registers" where
  \<comment> \<open>\<^verbatim>\<open>if (DosEms...(..., &error)) { ...; E_SETAH(DOS_EMS_STATUS_OK); } else E_SETAH(error);\<close>\<close>
  "e_answer result extra r =
     (case result of Inl e \<Rightarrow> E_SETAH (ucast e) r | Inr v \<Rightarrow> E_SETAH 0 (extra v r))"

definition store_bytes :: "nat \<Rightarrow> u8 list \<Rightarrow> mem \<Rightarrow> mem" where
  "store_bytes p bs m = (\<lambda>a. if p \<le> a \<and> a < p + length bs then bs ! (a - p) else m a)"

definition HostEms :: "'h ems_host \<Rightarrow> vdm_registers \<Rightarrow> 'h ems_host \<times> vdm_registers" where
  "HostEms host r =
     (let ah = reg_high (Eax r);
          ems = Ems host;
          m = HostMemory host;
          bx = ucast (VDM_REG16 (Ebx r)) :: u16;
          dx = ucast (VDM_REG16 (Edx r)) :: u16
      in if ah = 0x40 then (host, E_SETAH 0 r)
         else if ah = 0x41 then (host, E_SETAH 0 (E_SETBX (ucast (FrameSegment ems)) r))
         else if ah = 0x42
         then (let (unallocated, totalPages) = DosEmsGetPageCounts ems
               in (host, E_SETAH 0 (E_SETDX (ucast totalPages) (E_SETBX (ucast unallocated) r))))
         else if ah = 0x43
         then (let (ems', m', result) = DosEmsAllocatePages ems m bx
               in (host\<lparr>Ems := ems', HostMemory := m'\<rparr>, e_answer result (\<lambda>h. E_SETDX (ucast h)) r))
         else if ah = 0x44
         then (let (ems', m', result) = DosEmsMapPage ems m (ucast (Eax r AND 0xFF)) bx dx
               in (host\<lparr>Ems := ems', HostMemory := m'\<rparr>, e_answer result (\<lambda>_ r. r) r))
         else if ah = 0x45
         then (let (ems', m', result) = DosEmsDeallocatePages ems m dx
               in (host\<lparr>Ems := ems', HostMemory := m'\<rparr>, e_answer result (\<lambda>_ r. r) r))
         else if ah = 0x46 then (host, E_SETAH 0 (E_SETAL 0x40 r))
         else if ah = 0x47
         then (let (ems', result) = DosEmsSavePageMap ems dx
               in (host\<lparr>Ems := ems'\<rparr>, e_answer result (\<lambda>_ r. r) r))
         else if ah = 0x48
         then (let (ems', m', result) = DosEmsRestorePageMap ems m dx
               in (host\<lparr>Ems := ems', HostMemory := m'\<rparr>, e_answer result (\<lambda>_ r. r) r))
         else if ah = 0x4B then (host, E_SETAH 0 (E_SETBX (of_nat (DosEmsGetHandleCount ems)) r))
         else if ah = 0x4C
         then (host, e_answer (DosEmsGetHandlePages ems dx) (\<lambda>n. E_SETBX (ucast n)) r)
         else if ah = 0x4D
         then (let pairs = DosEmsGetAllHandlePages ems
               in (host\<lparr>HostMemory := store_bytes (far_pointer (Es r) (Edi r)) pairs m\<rparr>,
                   E_SETAH 0 (E_SETBX (of_nat (length pairs div DOS_EMS_HANDLE_PAGES_ENTRY_SIZE)) r)))
         else if ah = 0x53
         then (let al = Eax r AND 0xFF;
                   nameBuffer = (if al = 0 then far_pointer (Es r) (Edi r) else far_pointer (Ds r) (Esi r))
               in if al > 1 then (host, E_SETAH (ucast DOS_EMS_ERROR_INVALID_SUBFUNCTION) r)
                  else let (ems', m', result) = DosEmsGetSetHandleName ems m dx (al \<noteq> 0) nameBuffer
                       in (host\<lparr>Ems := ems', HostMemory := m'\<rparr>, e_answer result (\<lambda>_ r. r) r))
         else if ah = 0x51
         then (let (ems', m', result) = DosEmsReallocatePages ems m dx bx
               in (host\<lparr>Ems := ems', HostMemory := m'\<rparr>,
                   e_answer result (\<lambda>_. E_SETBX (case DosEmsGetHandlePages ems' dx of Inl _ \<Rightarrow> 0 | Inr n \<Rightarrow> ucast n)) r))
         else (host, E_SETAH (ucast DOS_EMS_ERROR_UNDEFINED_FUNCTION) r))"

subsection \<open>Every sequence of calls keeps the books\<close>

lemma map_keeps_total:
  "DosEmsMapPage st m p l h = (st', m', res) \<Longrightarrow> TotalPages st' = TotalPages st"
  by (auto simp: DosEmsMapPage_def Let_def unmap_window_def set_window_keeps split: if_splits option.splits)

lemma ready_restore_list:
  assumes "ems_ready live st" "\<forall>w\<in>set ws. w < DOS_EMS_PHYSICAL_PAGES"
    and "fold (restore_window i) ws (st, m) = (st', m')"
  shows "ems_ready live st' \<and> Handles st' = Handles st \<and> TotalPages st' = TotalPages st"
  using assms
proof (induction ws arbitrary: st m)
  case (Cons w ws)
  obtain st1 m1 where c: "restore_window i w (st, m) = (st1, m1)" by fastforce
  let ?s = "SavedMap (Handles st i) w"
  have "ems_ready live st1 \<and> Handles st1 = Handles st \<and> TotalPages st1 = TotalPages st"
  proof (cases "IsMapped ?s")
    case True
    obtain x y res where call: "DosEmsMapPage st m (of_nat w) (LogicalPage ?s) (MapHandle ?s) = (x, y, res)"
      by (cases "DosEmsMapPage st m (of_nat w) (LogicalPage ?s) (MapHandle ?s)") auto
    with c True have "st1 = x" by (simp add: restore_window_def)
    with ready_map [OF Cons.prems(1) call] map_keeps_total [OF call] show ?thesis by simp
  next
    case False
    with c have "st1 = unmap_window st w" by (simp add: restore_window_def)
    with ready_set_window [OF Cons.prems(1), of w "(PhysicalPages st w)\<lparr>IsMapped := False\<rparr>"] Cons.prems(2)
    show ?thesis by (simp add: unmap_window_def set_window_keeps)
  qed
  moreover have "fold (restore_window i) ws (st1, m1) = (st', m')" using Cons.prems(3) c by simp
  ultimately show ?case using Cons.IH [of st1 m1] Cons.prems(2) by simp
qed simp

lemma ready_restore:
  assumes r: "ems_ready live st" and call: "DosEmsRestorePageMap st m h = (st', m', res)"
  shows "ems_ready live st' \<and> TotalPages st' = TotalPages st"
proof (cases "DosEmsGetHandle st h")
  case (Some i)
  then have S: "i < DOS_EMS_MAX_HANDLES" "InUse (Handles st i)" by (auto simp: get_handle_Some)
  obtain st1 m1 where f: "fold (restore_window i) [0..<DOS_EMS_PHYSICAL_PAGES] (st, m) = (st1, m1)" by fastforce
  have s1: "ems_ready live st1" "Handles st1 = Handles st" "TotalPages st1 = TotalPages st"
    using ready_restore_list [OF r _ f] by simp_all
  show ?thesis
  proof (cases "IsMapSaved (Handles st i)")
    case True
    with call Some f have e: "st' = st1\<lparr>Handles := (Handles st1)(i := (Handles st1 i)\<lparr>IsMapSaved := False\<rparr>)\<rparr>"
      by (simp add: DosEmsRestorePageMap_def)
    with ready_slot_meta(1) [OF s1(1), of st' i "(Handles st1 i)\<lparr>IsMapSaved := False\<rparr>"] S s1
    show ?thesis by simp
  qed (use call Some r in \<open>simp add: DosEmsRestorePageMap_def\<close>)
qed (use call r in \<open>simp add: DosEmsRestorePageMap_def\<close>)

lemma ready_name:
  assumes r: "ems_ready live st" and call: "DosEmsGetSetHandleName st m h isSet p = (st', m', res)"
  shows "ems_ready live st' \<and> TotalPages st' = TotalPages st"
proof (cases "DosEmsGetHandle st h")
  case (Some i)
  then have S: "i < DOS_EMS_MAX_HANDLES" "InUse (Handles st i)" by (auto simp: get_handle_Some)
  show ?thesis
  proof (cases isSet)
    case True
    with call Some have e: "st' = st\<lparr>Handles := (Handles st)(i := (Handles st i)\<lparr>Name :=
        (\<lambda>j. if j < DOS_EMS_HANDLE_NAME_SIZE then m (p + j) else Name (Handles st i) j)\<rparr>)\<rparr>"
      by (simp add: DosEmsGetSetHandleName_def)
    with ready_slot_meta(1) [OF r, of st' i] S show ?thesis by simp
  qed (use call Some r in \<open>simp add: DosEmsGetSetHandleName_def\<close>)
qed (use call r in \<open>simp add: DosEmsGetSetHandleName_def\<close>)

lemma HostEms_keeps:
  assumes r: "ems_ready live (Ems host)"
  shows "ems_ready live (Ems (fst (HostEms host regs))) \<and>
    TotalPages (Ems (fst (HostEms host regs))) = TotalPages (Ems host)"
proof -
  let ?e = "Ems host" and ?m = "HostMemory host"
  define K where "K p \<longleftrightarrow> ems_ready live (Ems (fst p)) \<and> TotalPages (Ems (fst p)) = TotalPages ?e"
    for p :: "'a ems_host \<times> vdm_registers"
  have K_if: "K a \<Longrightarrow> K b \<Longrightarrow> K (if c then a else b)" for a b c by simp
  have K_pair: "K (host, r)" for r using r by (simp add: K_def)
  have K_mem: "K (host\<lparr>HostMemory := f\<rparr>, r)" for f r using r by (simp add: K_def)
  have K_query: "K (case q of (l, t) \<Rightarrow> (host, g l t))" for q g
    using r by (cases q) (simp add: K_def)
  have K_call: "K (case q of (x, m, res) \<Rightarrow> (host\<lparr>Ems := x, HostMemory := m\<rparr>, g x m res))"
    if "\<And>x m res. q = (x, m, res) \<Longrightarrow> ems_ready live x \<and> TotalPages x = TotalPages ?e" for q g
    using that by (cases q) (simp add: K_def)
  have K_save: "K (case q of (x, res) \<Rightarrow> (host\<lparr>Ems := x\<rparr>, g x res))"
    if "\<And>x res. q = (x, res) \<Longrightarrow> ems_ready live x \<and> TotalPages x = TotalPages ?e" for q g
    using that by (cases q) (simp add: K_def)
  have map: "ems_ready live x \<and> TotalPages x = TotalPages ?e"
    if "DosEmsMapPage ?e ?m p l h = (x, m', res)" for p l h x m' res
    using ready_map [OF r that] map_keeps_total [OF that] by blast
  have save: "ems_ready live x \<and> TotalPages x = TotalPages ?e" if "DosEmsSavePageMap ?e h = (x, res)" for h x res
    using save_effect [OF r that] by blast
  have "K (HostEms host regs)"
    unfolding HostEms_def Let_def
    by (intro K_if K_pair K_mem K_query K_call K_save;
        rule ems_ready_allocate [OF r] ready_deallocate [OF r] ems_ready_reallocate [OF r] ready_restore [OF r]
          ready_name [OF r] map save; assumption)
  then show ?thesis by (simp add: K_def)
qed

definition ems_interrupt :: "(mem \<Rightarrow> mem) \<times> vdm_registers \<Rightarrow> 'h ems_host \<Rightarrow> 'h ems_host" where
  \<comment> \<open>the guest changes memory as it pleases, loads the registers and issues INT 67h\<close>
  "ems_interrupt c host = fst (HostEms (host\<lparr>HostMemory := fst c (HostMemory host)\<rparr>) (snd c))"

lemma ready_initialize:
  assumes "unit_store DOS_EMS_PAGE_SIZE A F live" "live context = {(frame, DOS_EMS_FRAME_SIZE)}"
  shows "ems_ready live (DosEmsInitialize st0 segment pool frame (Some A) (Some F) context)"
proof -
  let ?s = "DosEmsInitialize st0 segment pool frame (Some A) (Some F) context"
  have h: "\<not> InUse (Handles ?s i) \<and> Pages (Handles ?s i) = 0 \<and> Memory (Handles ?s i) = 0 \<and> \<not> IsMapSaved (Handles ?s i)" for i
    by (simp add: DosEmsInitialize_def DosEmsClearHandleName_def)
  then have "ems_books ?s"
    by (simp add: ems_books_def ems.total_def ems_pages_def) (simp add: DosEmsInitialize_def)
  moreover have "window_page ?s w = None" for w by (simp add: window_page_def DosEmsInitialize_def)
  moreover have "ems_blocks ?s k = (case k of None \<Rightarrow> Some (frame, DOS_EMS_FRAME_SIZE) | Some i \<Rightarrow> None)" for k
    using h by (auto simp: ems_blocks_def DosEmsInitialize_def split: option.split)
  ultimately show ?thesis
    using assms by (auto simp: ems_ready_def ems_windows_def blocks_ok_def DosEmsInitialize_def ems_sizes split: option.splits)
qed

text \<open>
  C17. The expanded memory driver is sound for ever. From the initialised manager, whatever INT
  67h calls a guest makes with whatever registers and whatever it writes in between, the pages
  in use are the sum of the handles' pages and at most the pool; a handle has a buffer exactly
  when it has pages; every mapped window names a page that an open handle owns; and the page
  frame and the buffers are live ranges of the process, pairwise disjoint.
\<close>

theorem ems_driver_sound:
  fixes calls :: "((mem \<Rightarrow> mem) \<times> vdm_registers) list"
  assumes "unit_store DOS_EMS_PAGE_SIZE A F live" "live context = {(frame, DOS_EMS_FRAME_SIZE)}"
    and "Ems host = DosEmsInitialize st0 segment pool frame (Some A) (Some F) context"
  defines "st \<equiv> Ems (fold ems_interrupt calls host)"
  shows "ems.total (Handles st) = unat (UsedPages st) \<and> unat (UsedPages st) \<le> unat pool \<and>
    (\<forall>i. (Memory (Handles st i) = 0) = (Pages (Handles st i) = 0)) \<and>
    (\<forall>w h l. window_page st w = Some (h, l) \<longrightarrow> valid_page st h l) \<and>
    blocks_ok (live (Context st)) (ems_blocks st)"
proof -
  have "ems_ready live (Ems host) \<and> TotalPages (Ems host) = pool"
    using ready_initialize [OF assms(1,2)] by (simp add: assms(3)) (simp add: DosEmsInitialize_def)
  moreover have "ems_ready live (Ems (fold ems_interrupt calls h)) \<and> TotalPages (Ems (fold ems_interrupt calls h)) = pool"
    if "ems_ready live (Ems h) \<and> TotalPages (Ems h) = pool" for h
    using that
  proof (induction calls arbitrary: h)
    case (Cons c calls)
    have "ems_ready live (Ems (ems_interrupt c h)) \<and> TotalPages (Ems (ems_interrupt c h)) = pool"
      using HostEms_keeps [of live "h\<lparr>HostMemory := fst c (HostMemory h)\<rparr>" "snd c"] Cons.prems
      by (simp add: ems_interrupt_def)
    from Cons.IH [OF this] show ?case by simp
  qed simp
  ultimately have "ems_ready live st" "TotalPages st = pool" by (simp_all add: st_def)
  then show ?thesis unfolding ems_ready_def ems_books_def ems_windows_def by auto
qed
subsection \<open>A manager at work\<close>

definition demo_ems :: "(nat \<times> (nat \<times> nat) set) dos_ems_state" where
  "demo_ems = \<lparr>FrameSegment = 0xE000, TotalPages = 512, UsedPages = 0,
      PhysicalPages = (\<lambda>_. \<lparr>MapHandle = 0, LogicalPage = 0, IsMapped = False\<rparr>), Frame = 0xE0000,
      Handles = (\<lambda>_. \<lparr>InUse = False, Pages = 0, Memory = 0, IsMapSaved = False,
        SavedMap = (\<lambda>_. \<lparr>MapHandle = 0, LogicalPage = 0, IsMapped = False\<rparr>), Name = (\<lambda>_. 0)\<rparr>),
      Allocate = Some (bump_allocate DOS_EMS_PAGE_SIZE), Free = Some (bump_free DOS_EMS_PAGE_SIZE),
      Context = (0x200000, {(0xE0000, DOS_EMS_FRAME_SIZE)})\<rparr>"

lemma demo_start: "ems_ready bump_live demo_ems"
proof -
  have "demo_ems = DosEmsInitialize demo_ems 0xE000 512 0xE0000 (Some (bump_allocate DOS_EMS_PAGE_SIZE))
      (Some (bump_free DOS_EMS_PAGE_SIZE)) (0x200000, {(0xE0000, DOS_EMS_FRAME_SIZE)})"
    by (simp add: demo_ems_def DosEmsInitialize_def DosEmsClearHandleName_def)
  moreover have "bump_live (0x200000, {(0xE0000, DOS_EMS_FRAME_SIZE)}) = {(0xE0000, DOS_EMS_FRAME_SIZE)}"
    by (auto simp: bump_live_def ems_sizes)
  ultimately show ?thesis using ready_initialize [OF bump_store] by metis
qed

definition demo_ems1 :: "(nat \<times> (nat \<times> nat) set) dos_ems_state" where
  "demo_ems1 = fst (DosEmsAllocatePages demo_ems (\<lambda>_. 0) 4)"

lemma demo_first: "first_from (\<lambda>i. \<not> InUse (Handles demo_ems i)) 0 DOS_EMS_MAX_HANDLES = 0"
  by (subst first_from.simps) (simp add: demo_ems_def DOS_EMS_MAX_HANDLES_def)

lemmas demo_call = DosEmsAllocatePages_def demo_first call_allocate_def bump_allocate_def

lemma demo_grant: "\<exists>m'. DosEmsAllocatePages demo_ems (\<lambda>_. 0) 4 = (demo_ems1, m', Inr 0)"
proof -
  have "snd (snd (DosEmsAllocatePages demo_ems (\<lambda>_. 0) 4)) = Inr 0"
    by (simp add: demo_call Let_def) (simp add: demo_ems_def bump_allocate_def DOS_EMS_MAX_HANDLES_def)
  then show ?thesis unfolding demo_ems1_def by (metis prod.collapse)
qed

lemma demo_fields1: "\<not> IsMapSaved (Handles demo_ems1 0)" "UsedPages demo_ems1 = 4"
  "Allocate demo_ems1 = Some (bump_allocate DOS_EMS_PAGE_SIZE)" "fst (Context demo_ems1) \<noteq> 0"
  by (simp_all add: demo_ems1_def demo_call Let_def)
    (simp_all add: demo_ems_def bump_allocate_def DOS_EMS_MAX_HANDLES_def DosEmsClearHandleName_def)

lemma ems_demo_ready1: "ems_ready bump_live demo_ems1"
  and demo_windows1: "window_page demo_ems1 w = None" and demo_valid1: "valid_page demo_ems1 0 l \<longleftrightarrow> l < 4"
  and demo_total1: "TotalPages demo_ems1 = 512"
proof -
  obtain m' where "DosEmsAllocatePages demo_ems (\<lambda>_. 0) 4 = (demo_ems1, m', Inr 0)" using demo_grant by blast
  note g = ems_allocate_grants [OF demo_start this]
  show "ems_ready bump_live demo_ems1" by (rule g)
  have "window_page demo_ems w = None" by (simp add: window_page_def demo_ems_def)
  then show "window_page demo_ems1 w = None" by (simp add: g(8))
  show "valid_page demo_ems1 0 l \<longleftrightarrow> l < 4" using g(3-5) by (simp add: valid_page_iff)
  show "TotalPages demo_ems1 = 512" using g(12) by (simp add: demo_ems_def)
qed

lemma demo_alias1: "no_alias demo_ems1"
  by (simp add: no_alias_def demo_windows1)

lemma demo_open1: "ems_open demo_ems1 0"
  using demo_valid1 [of 0] by (simp add: valid_page_def ems_open_def)

lemma demo_map:
  assumes "unat p < 4" "l < 4"
  obtains st m' where "DosEmsMapPage demo_ems1 m p l 0 = (st, m', Inr ())"
proof -
  have "unat p < DOS_EMS_PHYSICAL_PAGES \<and> ems_open demo_ems1 0 \<and> (l = DOS_EMS_UNMAP_LOGICAL_PAGE \<or> valid_page demo_ems1 0 l)"
    using assms demo_open1 demo_valid1 by (simp add: DOS_EMS_PHYSICAL_PAGES_def)
  with map_succeeds [of demo_ems1 m p l 0] that show thesis by blast
qed

lemma ems_driver_sound_witness:
  "let calls = [(id, \<lparr>Eax = 0x4300, Ebx = 4, Ecx = 0, Edx = 0, Esi = 0, Edi = 0, Ds = 0, Es = 0\<rparr>),
                (id, \<lparr>Eax = 0x4402, Ebx = 3, Ecx = 0, Edx = 0, Esi = 0, Edi = 0, Ds = 0, Es = 0\<rparr>)];
       st = Ems (fold ems_interrupt calls \<lparr>Ems = demo_ems, HostMemory = (\<lambda>_. 0)\<rparr>)
   in ems.total (Handles st) = unat (UsedPages st) \<and> unat (UsedPages st) \<le> 512"
proof -
  have s: "bump_live (0x200000, {(0xE0000, DOS_EMS_FRAME_SIZE)}) = {(0xE0000, DOS_EMS_FRAME_SIZE)}"
    by (auto simp: bump_live_def ems_sizes)
  have i: "Ems \<lparr>Ems = demo_ems, HostMemory = (\<lambda>_. 0)\<rparr> = DosEmsInitialize demo_ems 0xE000 512 0xE0000
      (Some (bump_allocate DOS_EMS_PAGE_SIZE)) (Some (bump_free DOS_EMS_PAGE_SIZE))
      (0x200000, {(0xE0000, DOS_EMS_FRAME_SIZE)})"
    by (simp add: demo_ems_def DosEmsInitialize_def DosEmsClearHandleName_def)
  show ?thesis
    using ems_driver_sound [OF bump_store s i, where calls = "[(id, \<lparr>Eax = 0x4300, Ebx = 4, Ecx = 0, Edx = 0, Esi = 0, Edi = 0, Ds = 0, Es = 0\<rparr>),
      (id, \<lparr>Eax = 0x4402, Ebx = 3, Ecx = 0, Edx = 0, Esi = 0, Edi = 0, Ds = 0, Es = 0\<rparr>)]"]
    unfolding Let_def unat_numeral by auto
qed

lemma ems_page_store_refines_witness:
  "\<exists>a st' m'. run_store (valid_page demo_ems1) (ems_open demo_ems1) [EMap 0 0 0, EWrite 0 5 7, EMap 0 1 0, EMap 2 0 0]
       (abs_store demo_ems1 demo_bytes) = Some a \<and>
     fold ems_step [EMap 0 0 0, EWrite 0 5 7, EMap 0 1 0, EMap 2 0 0] (demo_ems1, demo_bytes) = (st', m') \<and>
     abs_store st' m' = a \<and> Store a 0 0 5 = 7 \<and> m' (window_address st' 2 + 5) = 7"
proof -
  let ?ops = "[EMap 0 0 0, EWrite 0 5 7, EMap 0 1 0, EMap 2 0 0]"
  obtain a where a: "run_store (valid_page demo_ems1) (ems_open demo_ems1) ?ops (abs_store demo_ems1 demo_bytes) = Some a"
    "Store a 0 0 5 = 7" "Shown a 2 = Some (0, 0)"
    by (simp add: store_step_def abs_store_def demo_windows1 demo_valid1 demo_open1 DOS_EMS_PHYSICAL_PAGES_def
        DOS_EMS_UNMAP_LOGICAL_PAGE_def)
  obtain st' m' where f: "fold ems_step ?ops (demo_ems1, demo_bytes) = (st', m')" by fastforce
  have "\<forall>op\<in>set ?ops. op_in_frame op" by (simp add: op_in_frame_def ems_sizes)
  from ems_page_store_refines [OF ems_demo_ready1 demo_alias1 this a(1) f] a f show ?thesis
    by (force simp: DOS_EMS_PAGE_SIZE_def)
qed

lemma ems_alias_reads_buffer_witness:
  "\<exists>st1 m1 st2 m2. DosEmsMapPage demo_ems1 demo_bytes 0 0 0 = (st1, m1, Inr ()) \<and>
     DosEmsMapPage st1 (m1(window_address st1 0 := 99)) 1 0 0 = (st2, m2, Inr ()) \<and>
     m2 (window_address st1 1) = (m1(window_address st1 0 := 99)) (page_address (Handles st1 0) 0)"
proof -
  obtain st1 m1 where c1: "DosEmsMapPage demo_ems1 demo_bytes 0 0 0 = (st1, m1, Inr ())" by (rule demo_map [of 0 0 demo_bytes]) simp_all
  note w1 = map_window_page [OF c1] and r1 = ready_map [OF ems_demo_ready1 c1]
  have v: "valid_page st1 0 0" using demo_valid1 valid_page_cong [of st1 demo_ems1] r1 by simp
  then have "ems_open st1 0" by (simp add: valid_page_def ems_open_def)
  with v map_succeeds [of st1 "m1(window_address st1 0 := 99)" 1 0 0]
  obtain st2 m2 where c2: "DosEmsMapPage st1 (m1(window_address st1 0 := 99)) 1 0 0 = (st2, m2, Inr ())"
    by (auto simp: DOS_EMS_PHYSICAL_PAGES_def)
  have h: "window_page st1 0 = Some (0, 0)" "window_page st1 (unat 1) \<noteq> Some (0, 0)"
    by (simp_all add: w1 demo_windows1 DOS_EMS_UNMAP_LOGICAL_PAGE_def)
  from ems_alias_reads_buffer [OF conjunct1 [OF r1] c2 _ h(1) _ h(2), of 0] c1 c2 show ?thesis
    by (auto simp: DOS_EMS_UNMAP_LOGICAL_PAGE_def DOS_EMS_PAGE_SIZE_def)
qed

lemma ems_restore_contract_witness:
  "\<exists>st1 st3 m3. DosEmsSavePageMap demo_ems1 0 = (st1, Inr ()) \<and> DosEmsRestorePageMap st1 demo_bytes 0 = (st3, m3, Inr ()) \<and>
     \<not> IsMapSaved (Handles st3 0) \<and> window_page st3 0 = None"
proof -
  obtain st1 where s: "DosEmsSavePageMap demo_ems1 0 = (st1, Inr ())"
    using demo_open1 demo_fields1(1) by (auto simp: DosEmsSavePageMap_def ems_open_def get_handle_Some split: option.splits)
  obtain st3 m3 res where c: "DosEmsRestorePageMap st1 demo_bytes 0 = (st3, m3, res)" by (cases "DosEmsRestorePageMap st1 demo_bytes 0") auto
  have r1: "ems_ready bump_live st1" using save_effect [OF ems_demo_ready1 s] by blast
  from ems_restore_contract [OF ems_demo_ready1 r1 s refl c] s c show ?thesis
    by (auto simp: demo_windows1 DOS_EMS_PHYSICAL_PAGES_def)
qed

lemma ems_reallocate_preserves_witness:
  "\<exists>st' m'. DosEmsReallocatePages demo_ems1 demo_bytes 0 8 = (st', m', Inr ()) \<and>
     DosEmsGetHandlePages st' 0 = Inr 8 \<and> (\<forall>b. page_view st' m' 0 3 b = page_view demo_ems1 demo_bytes 0 3 b) \<and>
     (\<forall>b. page_view st' m' 0 5 b = 0)"
proof -
  have p: "Pages (Handles demo_ems1 0) = 4" "DosEmsGetHandle demo_ems1 0 = Some 0"
  proof -
    obtain m0 where c: "DosEmsAllocatePages demo_ems (\<lambda>_. 0) 4 = (demo_ems1, m0, Inr 0)" using demo_grant by blast
    note g = ems_allocate_grants [OF demo_start c]
    show "Pages (Handles demo_ems1 0) = 4" using g(3) by simp
    show "DosEmsGetHandle demo_ems1 0 = Some 0" using g(4,5) by (simp add: DosEmsGetHandle_def)
  qed
  obtain st1 m1 q where a: "call_allocate demo_ems1 (flush_windows demo_ems1 0 demo_bytes) 8 = (st1, m1, q)"
    by (cases "call_allocate demo_ems1 (flush_windows demo_ems1 0 demo_bytes) 8") auto
  then have q: "q \<noteq> 0" using demo_fields1 by (auto simp: call_allocate_def bump_allocate_def)
  have "snd (snd (DosEmsReallocatePages demo_ems1 demo_bytes 0 8)) = Inr ()"
    using q by (simp add: DosEmsReallocatePages_def p demo_total1 demo_fields1(2) a Let_def split: prod.split)
  then obtain st' m' where ok: "DosEmsReallocatePages demo_ems1 demo_bytes 0 8 = (st', m', Inr ())"
    by (metis prod.collapse)
  from ems_reallocate_preserves [OF ems_demo_ready1 demo_alias1 ok] ok demo_valid1 show ?thesis by auto
qed

end
