(* ===== verification/Dos_Psp.thy ===== *)
theory Dos_Psp
  imports Dos_Mcb_Chain
begin

text \<open>
  The program segment prefix, \<^verbatim>\<open>src/dos/dos_psp.h\<close>: building it, the command tail, and the copies of the
  INT 22h, 23h and 24h vectors that a program's exit puts back.
\<close>

subsection \<open>Building\<close>

primrec fill_bytes :: "nat \<Rightarrow> u8 \<Rightarrow> nat \<Rightarrow> mem \<Rightarrow> mem" where
  \<comment> \<open>\<^verbatim>\<open>for (i = 0; i < n; ++i) p[i] = v;\<close>\<close>
  "fill_bytes p v 0 m = m"
| "fill_bytes p v (Suc n) m = (fill_bytes p v n m)(p + n := v)"

definition DosPspBuild :: "nat \<Rightarrow> mem \<Rightarrow> u16 \<Rightarrow> u16 \<Rightarrow> u16 \<Rightarrow> mem" where
  "DosPspBuild base m pspSegment environmentSegment topSegment =
     (let psp = DosMcbSegmentAddress base pspSegment;
          m1 = fill_bytes psp 0 0x100 m;
          m2 = m1(psp := 0xCD, psp + 1 := 0x20);
          m3 = DosMcbWriteWord m2 (psp + 0x02) topSegment;
          m4 = m3(psp + 0x18 := 1, psp + 0x19 := 1, psp + 0x1A := 1, psp + 0x1B := 0, psp + 0x1C := 2);
          m5 = fill_bytes (psp + 0x1D) 0xFF (0x2C - 0x1D) m4;
          m6 = DosMcbWriteWord m5 (psp + 0x2C) environmentSegment;
          m7 = DosMcbWriteWord m6 (psp + 0x32) 0x14;
          m8 = DosMcbWriteWord m7 (psp + 0x34) 0x18;
          m9 = DosMcbWriteWord m8 (psp + 0x36) pspSegment;
          m10 = m9(psp + 0x38 := 0xFF, psp + 0x39 := 0xFF, psp + 0x3A := 0xFF, psp + 0x3B := 0xFF);
          m11 = m10(psp + 0x50 := 0xCD, psp + 0x51 := 0x21, psp + 0x52 := 0xCB)
      in m11(psp + 0x80 := 0, psp + 0x81 := 0x0D))"

fun put_arguments :: "nat \<Rightarrow> u8 list \<Rightarrow> nat \<Rightarrow> mem \<Rightarrow> nat \<times> mem" where
  "put_arguments psp [] len m = (len, m)"
| "put_arguments psp (c # arguments) len m =
     (if len < 126 then put_arguments psp arguments (len + 1) (m(psp + 0x81 + len := c)) else (len, m))"

definition DosPspBuildCommandTail :: "nat \<Rightarrow> mem \<Rightarrow> u16 \<Rightarrow> u8 list option \<Rightarrow> mem" where
  "DosPspBuildCommandTail base m pspSegment arguments =
     (let psp = DosMcbSegmentAddress base pspSegment;
          (len, m1) = (case arguments of
              Some (c # cs) \<Rightarrow> put_arguments psp (c # cs) 1 (m(psp + 0x81 := 0x20))
            | _ \<Rightarrow> (0, m))
      in m1(psp + 0x80 := of_nat len, psp + 0x81 + len := 0x0D))"

subsection \<open>The saved vectors\<close>

definition saved_vectors :: "(nat \<times> nat) list" where
  \<comment> \<open>the vectors' numbers and the offsets of their copies\<close>
  "saved_vectors = [(0x22, 0x0A), (0x23, 0x0E), (0x24, 0x12)]"

definition DosPspSaveVectors :: "nat \<Rightarrow> mem \<Rightarrow> u16 \<Rightarrow> u16 \<Rightarrow> mem" where
  "DosPspSaveVectors base m pspSegment parentPsp =
     (let psp = DosMcbSegmentAddress base pspSegment; ivt = DosMcbSegmentAddress base 0;
          m1 = fold (\<lambda>(vector, offset) m. copy_up (psp + offset) (ivt + vector * 4) 4 m) saved_vectors m
      in DosMcbWriteWord m1 (psp + 0x16) parentPsp)"

definition DosPspRestoreVectors :: "nat \<Rightarrow> mem \<Rightarrow> u16 \<Rightarrow> mem" where
  "DosPspRestoreVectors base m pspSegment =
     (let psp = DosMcbSegmentAddress base pspSegment; ivt = DosMcbSegmentAddress base 0
      in fold (\<lambda>(vector, offset) m. copy_up (ivt + vector * 4) (psp + offset) 4 m) saved_vectors m)"

definition DosPspSelfTerminateAddress :: "nat \<Rightarrow> mem \<Rightarrow> u16 \<Rightarrow> u32" where
  "DosPspSelfTerminateAddress base m pspSegment =
     (let psp = DosMcbSegmentAddress base pspSegment;
          offset = DosMcbReadWord m (psp + 0x0A); segment = DosMcbReadWord m (psp + 0x0A + 2)
      in if DosMcbReadWord m (psp + 0x16) \<noteq> pspSegment then 0
         else push_bit 16 (ucast segment) OR ucast offset)"

subsection \<open>What the routines touch\<close>

definition changes_within :: "nat \<Rightarrow> nat \<Rightarrow> mem \<Rightarrow> mem \<Rightarrow> bool" where
  \<comment> \<open>at most the \<open>n\<close> bytes from \<open>a\<close> on differ\<close>
  "changes_within a n m m' \<longleftrightarrow> (\<forall>x. x < a \<or> a + n \<le> x \<longrightarrow> m' x = m x)"

lemma changes_within_refl [simp, intro]: "changes_within a n m m"
  by (simp add: changes_within_def)

lemma changes_within_trans: "changes_within a n m m' \<Longrightarrow> changes_within a n m' m'' \<Longrightarrow> changes_within a n m m''"
  by (simp add: changes_within_def)

lemma changes_within_byte:
  "changes_within a n m m' \<Longrightarrow> a \<le> x \<Longrightarrow> x < a + n \<Longrightarrow> changes_within a n m (m'(x := v))"
  by (auto simp: changes_within_def)

lemma changes_within_word:
  "changes_within a n m m' \<Longrightarrow> a \<le> x \<Longrightarrow> x + 1 < a + n \<Longrightarrow> changes_within a n m (DosMcbWriteWord m' x v)"
  by (auto simp: changes_within_def DosMcbWriteWord_def)

lemma fill_bytes_at: "fill_bytes p v n m x = (if p \<le> x \<and> x < p + n then v else m x)"
  by (induction n) auto

lemma changes_within_fill:
  "changes_within a n m m' \<Longrightarrow> a \<le> p \<Longrightarrow> p + k \<le> a + n \<Longrightarrow> changes_within a n m (fill_bytes p v k m')"
  by (auto simp: changes_within_def fill_bytes_at)

lemma copy_up_elsewhere: "x < d \<or> d + n \<le> x \<Longrightarrow> copy_up d s n m x = m x"
  by (induction n) (auto simp: Let_def)

lemma changes_within_copy:
  "changes_within a n m m' \<Longrightarrow> a \<le> d \<Longrightarrow> d + k \<le> a + n \<Longrightarrow> changes_within a n m (copy_up d s k m')"
  by (auto simp: changes_within_def copy_up_elsewhere)

lemmas changes_within_writes = changes_within_byte changes_within_word changes_within_fill changes_within_copy

lemma psp_build_within:
  "changes_within (DosMcbSegmentAddress base seg) 0x100 m (DosPspBuild base m seg environment topSegment)"
  unfolding DosPspBuild_def Let_def
  by (intro changes_within_writes changes_within_refl) simp_all

lemma psp_save_within:
  "changes_within (DosMcbSegmentAddress base seg) 0x100 m (DosPspSaveVectors base m seg parent)"
  unfolding DosPspSaveVectors_def Let_def saved_vectors_def
  by (simp del: copy_up.simps) (intro changes_within_writes changes_within_refl, simp_all)

subsection \<open>The vectors come back\<close>

lemma copy_up_split: "copy_up d s (n + k) m = copy_up (d + n) (s + n) k (copy_up d s n m)"
  by (induction k) (simp_all add: add.assoc)

lemma saved_vectors_copied:
  "fold (\<lambda>(vector, offset) m. copy_up (psp + offset) (ivt + vector * 4) 4 m) saved_vectors m =
     copy_up (psp + 0x0A) (ivt + 0x88) 12 m"
  "fold (\<lambda>(vector, offset) m. copy_up (ivt + vector * 4) (psp + offset) 4 m) saved_vectors m =
     copy_up (ivt + 0x88) (psp + 0x0A) 12 m"
  using copy_up_split [of _ _ 4 4 m] copy_up_split [of _ _ 8 4 m]
  by (simp_all add: saved_vectors_def add.assoc del: copy_up.simps)

lemma restored_vectors:
  assumes "base + 0x94 \<le> DosMcbSegmentAddress base seg"
  shows "DosPspRestoreVectors base m seg = mem_copied (base + 0x88) (DosMcbSegmentAddress base seg + 0x0A) 12 m"
proof -
  have "DosMcbSegmentAddress base 0 = base" using seg_address [of 0 base] by simp
  then show ?thesis using assms unfolding DosPspRestoreVectors_def Let_def saved_vectors_copied
    by (simp add: copy_up_correct)
qed

lemma saved_copies:
  assumes "base + 0x94 \<le> DosMcbSegmentAddress base seg" "i < 12"
  shows "DosPspSaveVectors base m seg parent (DosMcbSegmentAddress base seg + 0x0A + i) = m (base + 0x88 + i)"
proof -
  have "DosMcbSegmentAddress base 0 = base" using seg_address [of 0 base] by simp
  moreover have "copy_up (DosMcbSegmentAddress base seg + 0x0A) (base + 0x88) 12 m =
      mem_copied (DosMcbSegmentAddress base seg + 0x0A) (base + 0x88) 12 m"
    by (rule copy_up_correct) (use assms(1) in simp)
  ultimately show ?thesis using assms(2) unfolding DosPspSaveVectors_def Let_def saved_vectors_copied
    by (simp add: byte_write_word mem_copied_inside)
qed

end
