(* ===== verification/Dos_Loader.thy ===== *)
theory Dos_Loader
  imports Dos_Psp
begin

text \<open>
  Loading a program, \<^verbatim>\<open>src/dos/dos_loader.h\<close>: an MZ image with its relocations, a flat image, an
  overlay, how much memory EXEC gives a program, and whether a file is a DOS program at all. The file
  is the caller's static buffer, a function from offsets to bytes, with the number of bytes read into
  it; the sizes are \<^verbatim>\<open>DWORD\<close>s none of whose sums reaches 2 to the 32nd, taken as naturals.
\<close>

type_synonym file_buffer = "nat \<Rightarrow> u8"

definition DosLoaderReadWord :: "file_buffer \<Rightarrow> nat \<Rightarrow> u16" where
  "DosLoaderReadWord exe field = ucast (exe field) OR push_bit 8 (ucast (exe (field + 1)))"

definition is_mz :: "file_buffer \<Rightarrow> u32 \<Rightarrow> bool" where
  "is_mz exe bytesRead \<longleftrightarrow> bytesRead \<ge> 0x1C \<and> exe 0 = 0x4D \<and> exe 1 = 0x5A"

subsection \<open>Placing an image\<close>

record dos_image =
  CodeSegment :: u16
  InstructionPointer :: u16
  StackSegment :: u16
  StackPointer :: u16
  IsExe :: bool
  ImageSize :: nat

definition mz_header_size :: "file_buffer \<Rightarrow> nat" where
  "mz_header_size exe = unat (DosLoaderReadWord exe 8) * 16"

definition mz_image_size :: "file_buffer \<Rightarrow> u32 \<Rightarrow> nat" where
  "mz_image_size exe bytesRead =
     (let lastPageBytes = unat (DosLoaderReadWord exe 2);
          pageCount = unat (DosLoaderReadWord exe 4);
          totalUsed = (if pageCount \<noteq> 0 then (pageCount - 1) * 512 + (if lastPageBytes \<noteq> 0 then lastPageBytes else 512)
                       else unat bytesRead)
      in (if totalUsed > unat bytesRead then unat bytesRead else totalUsed) - mz_header_size exe)"

primrec load_bytes :: "file_buffer \<Rightarrow> nat \<Rightarrow> nat \<Rightarrow> nat \<Rightarrow> mem \<Rightarrow> mem" where
  \<comment> \<open>\<^verbatim>\<open>for (i = 0; i < n; ++i) d[i] = file[s + i];\<close>\<close>
  "load_bytes exe d s 0 m = m"
| "load_bytes exe d s (Suc n) m = (load_bytes exe d s n m)(d + n := exe (s + n))"

definition fixup_address :: "nat \<Rightarrow> file_buffer \<Rightarrow> u16 \<Rightarrow> nat \<Rightarrow> nat" where
  \<comment> \<open>where the relocation entry at \<open>entry\<close> of the file points\<close>
  "fixup_address base exe loadSegment entry =
     base + 16 * (unat loadSegment + unat (DosLoaderReadWord exe (entry + 2))) + unat (DosLoaderReadWord exe entry)"

primrec apply_fixups :: "nat \<Rightarrow> file_buffer \<Rightarrow> u16 \<Rightarrow> u16 \<Rightarrow> nat \<Rightarrow> mem \<Rightarrow> mem" where
  "apply_fixups base exe loadSegment factor 0 m = m"
| "apply_fixups base exe loadSegment factor (Suc n) m =
     (let m1 = apply_fixups base exe loadSegment factor n m;
          fixup = fixup_address base exe loadSegment (unat (DosLoaderReadWord exe 24) + n * 4)
      in DosMcbWriteWord m1 fixup (DosMcbReadWord m1 fixup + factor))"

definition load_mz :: "nat \<Rightarrow> mem \<Rightarrow> file_buffer \<Rightarrow> u32 \<Rightarrow> u16 \<Rightarrow> u16 \<Rightarrow> mem" where
  \<comment> \<open>the image and its relocations, common to programs and overlays\<close>
  "load_mz base m exe bytesRead loadSegment factor =
     (let m1 = load_bytes exe (DosMcbSegmentAddress base loadSegment) (mz_header_size exe) (mz_image_size exe bytesRead) m
      in apply_fixups base exe loadSegment factor (unat (DosLoaderReadWord exe 6)) m1)"

definition DosLoadImageAt :: "nat \<Rightarrow> mem \<Rightarrow> file_buffer \<Rightarrow> u32 \<Rightarrow> u16 \<Rightarrow> u16 \<Rightarrow> mem \<times> dos_image" where
  "DosLoadImageAt base m exe bytesRead pspSegment requestedSegment =
     (if is_mz exe bytesRead then
        let loadSegment = (if requestedSegment \<noteq> 0 then requestedSegment else pspSegment + 0x10)
        in (load_mz base m exe bytesRead loadSegment loadSegment,
            \<lparr>CodeSegment = loadSegment + DosLoaderReadWord exe 22, InstructionPointer = DosLoaderReadWord exe 20,
             StackSegment = loadSegment + DosLoaderReadWord exe 14, StackPointer = DosLoaderReadWord exe 16,
             IsExe = True, ImageSize = mz_image_size exe bytesRead\<rparr>)
      else
        let comSize = (if bytesRead > 0xFE00 then 0xFE00 else unat bytesRead)
        in (load_bytes exe (DosMcbSegmentAddress base pspSegment + 0x100) 0 comSize m,
            \<lparr>CodeSegment = pspSegment, InstructionPointer = 0x100, StackSegment = pspSegment, StackPointer = 0xFFFE,
             IsExe = False, ImageSize = comSize\<rparr>))"

definition DosLoadImage :: "nat \<Rightarrow> mem \<Rightarrow> file_buffer \<Rightarrow> u32 \<Rightarrow> u16 \<Rightarrow> mem \<times> dos_image" where
  "DosLoadImage base m exe bytesRead pspSegment = DosLoadImageAt base m exe bytesRead pspSegment 0"

definition DosLoadOverlay :: "nat \<Rightarrow> mem \<Rightarrow> file_buffer \<Rightarrow> u32 \<Rightarrow> u16 \<Rightarrow> u16 \<Rightarrow> mem \<times> nat" where
  "DosLoadOverlay base m exe bytesRead loadSegment relocationFactor =
     (if \<not> is_mz exe bytesRead
      then (load_bytes exe (DosMcbSegmentAddress base loadSegment) 0 (unat bytesRead) m, unat bytesRead)
      else (load_mz base m exe bytesRead loadSegment relocationFactor, mz_image_size exe bytesRead))"

subsection \<open>How much memory a program gets\<close>

definition DosImageParagraphs :: "file_buffer \<Rightarrow> u32 \<Rightarrow> u16" where
  "DosImageParagraphs exe bytesRead =
     (if \<not> is_mz exe bytesRead then 0
      else of_nat (unat (DosLoaderReadWord exe 4) * 32 - unat (DosLoaderReadWord exe 8)))"

definition DosExecSize :: "file_buffer \<Rightarrow> u32 \<Rightarrow> u16 \<Rightarrow> (u16 \<times> bool) option" where
  \<comment> \<open>the paragraphs to allocate and whether to load high; \<open>None\<close> is error 8\<close>
  "DosExecSize exe bytesRead largest =
     (if \<not> is_mz exe bytesRead then Some (largest, False)
      else
        let imageParagraphs = unat (DosImageParagraphs exe bytesRead);
            minimumAlloc = DosLoaderReadWord exe 10;
            maximumAlloc = DosLoaderReadWord exe 12;
            needed = 0x10 + imageParagraphs + unat minimumAlloc;
            wanted = 0x10 + imageParagraphs + unat maximumAlloc;
            wanted' = (if wanted < needed then needed else wanted)
        in if needed > unat largest then None
           else if minimumAlloc = 0 \<and> maximumAlloc = 0 then Some (largest, True)
           else Some (of_nat (if wanted' < unat largest then wanted' else unat largest), False))"

subsection \<open>What kind of program a file is\<close>

datatype exe_kind = ExeDos | ExeNe | ExePe

definition DosExeKind :: "file_buffer \<Rightarrow> u32 \<Rightarrow> exe_kind \<times> u16" where
  "DosExeKind exe bytesRead =
     (if bytesRead < 0x40 \<or> exe 0 \<noteq> 0x4D \<or> exe 1 \<noteq> 0x5A then (ExeDos, 0)
      else
        let newHeader = ucast (DosLoaderReadWord exe 0x3C) OR push_bit 16 (ucast (DosLoaderReadWord exe 0x3E)) :: u32;
            h = unat newHeader
        in if newHeader < 0x40 \<or> newHeader > bytesRead - 4 then (ExeDos, 0)
           else if exe h = 0x50 \<and> exe (h + 1) = 0x45 \<and> exe (h + 2) = 0 \<and> exe (h + 3) = 0
           then (ExePe, if newHeader + 0x5E \<le> bytesRead then DosLoaderReadWord exe (h + 0x5C) else 0)
           else if exe h = 0x4E \<and> exe (h + 1) = 0x45 \<and> newHeader + 0x37 \<le> bytesRead \<and>
             (exe (h + 0x36) = 2 \<or> exe (h + 0x36) = 0) then (ExeNe, 0)
           else (ExeDos, 0))"

subsection \<open>What a load writes\<close>

lemma load_bytes_at: "load_bytes exe d s n m x = (if d \<le> x \<and> x < d + n then exe (s + (x - d)) else m x)"
  by (induction n) auto

lemma changes_within_load:
  "changes_within a n m m' \<Longrightarrow> a \<le> d \<Longrightarrow> d + k \<le> a + n \<Longrightarrow> changes_within a n m (load_bytes exe d s k m')"
  by (auto simp: changes_within_def load_bytes_at)

definition fixup_offset :: "file_buffer \<Rightarrow> nat \<Rightarrow> nat" where
  \<comment> \<open>the n-th relocation, from the start of the image\<close>
  "fixup_offset exe n =
     (let entry = unat (DosLoaderReadWord exe 24) + n * 4
      in 16 * unat (DosLoaderReadWord exe (entry + 2)) + unat (DosLoaderReadWord exe entry))"

definition fixups_inside :: "file_buffer \<Rightarrow> u32 \<Rightarrow> bool" where
  "fixups_inside exe bytesRead \<longleftrightarrow>
     (\<forall>n<unat (DosLoaderReadWord exe 6). fixup_offset exe n + 2 \<le> mz_image_size exe bytesRead)"

lemma segment_address: "DosMcbSegmentAddress base seg = base + 16 * unat seg"
  using seg_address [of "unat seg" base] unsigned_less [of seg, where ?'a = nat] by simp

lemma fixup_address_image:
  "fixup_address base exe loadSegment (unat (DosLoaderReadWord exe 24) + n * 4) =
     DosMcbSegmentAddress base loadSegment + fixup_offset exe n"
  by (simp add: fixup_address_def fixup_offset_def segment_address Let_def)

lemma changes_within_fixups:
  assumes "\<forall>k<n. fixup_offset exe k + 2 \<le> len2"
    and "changes_within a len m m'" and "a \<le> DosMcbSegmentAddress base seg" and "DosMcbSegmentAddress base seg + len2 \<le> a + len"
  shows "changes_within a len m (apply_fixups base exe seg factor n m')"
  using assms(1)
proof (induction n)
  case (Suc n)
  then have "fixup_offset exe n + 2 \<le> len2" by simp
  with Suc assms(3,4) show ?case
    by (auto simp: Let_def fixup_address_image intro!: changes_within_word)
qed (simp add: assms(2))

lemma load_mz_within:
  assumes "fixups_inside exe bytesRead" "a \<le> DosMcbSegmentAddress base seg"
    "DosMcbSegmentAddress base seg + mz_image_size exe bytesRead \<le> a + len"
  shows "changes_within a len m (load_mz base m exe bytesRead seg factor)"
  unfolding load_mz_def Let_def
  by (rule changes_within_fixups [OF assms(1) [unfolded fixups_inside_def] changes_within_load [OF changes_within_refl assms(2,3)] assms(2,3)])

subsection \<open>Relocation\<close>

lemma fixups_elsewhere:
  "(\<And>i. i < n \<Longrightarrow> x \<noteq> DosMcbSegmentAddress base seg + fixup_offset exe i \<and>
             x \<noteq> DosMcbSegmentAddress base seg + fixup_offset exe i + 1) \<Longrightarrow>
   apply_fixups base exe seg factor n m x = m x"
proof (induction n)
  case (Suc n)
  then have "apply_fixups base exe seg factor n m x = m x" by simp
  with Suc.prems [of n] show ?case by (simp add: Let_def fixup_address_image DosMcbWriteWord_def)
qed simp

lemma fixups_read:
  assumes "i < n" and "\<forall>i<n. \<forall>j<n. i \<noteq> j \<longrightarrow> range_free (fixup_offset exe i) 2 (fixup_offset exe j) 2"
  shows "DosMcbReadWord (apply_fixups base exe seg factor n m) (DosMcbSegmentAddress base seg + fixup_offset exe i) =
    DosMcbReadWord m (DosMcbSegmentAddress base seg + fixup_offset exe i) + factor"
  using assms
proof (induction n)
  case (Suc n)
  let ?f = "\<lambda>k. DosMcbSegmentAddress base seg + fixup_offset exe k"
  show ?case
  proof (cases "i = n")
    case True
    have "apply_fixups base exe seg factor n m x = m x" if "x = ?f n \<or> x = ?f n + 1" for x
    proof (rule fixups_elsewhere)
      fix k assume "k < n"
      then have "range_free (fixup_offset exe k) 2 (fixup_offset exe n) 2" using Suc.prems by simp
      then show "x \<noteq> ?f k \<and> x \<noteq> ?f k + 1" using that by (auto simp: range_free_def)
    qed
    then have "DosMcbReadWord (apply_fixups base exe seg factor n m) (?f n) = DosMcbReadWord m (?f n)"
      by (simp add: DosMcbReadWord_def)
    with True show ?thesis by (simp add: Let_def fixup_address_image mem_facts)
  next
    case False
    with Suc.prems have "range_free (fixup_offset exe i) 2 (fixup_offset exe n) 2" by simp
    then have "?f i + 1 < ?f n \<or> ?f n + 1 < ?f i" by (auto simp: range_free_def)
    with Suc False show ?thesis by (simp add: Let_def fixup_address_image mem_facts)
  qed
qed simp

abbreviation relocation_count :: "file_buffer \<Rightarrow> nat" where
  "relocation_count exe \<equiv> unat (DosLoaderReadWord exe 6)"

lemma load_mz_relocates:
  fixes base :: nat and exe :: file_buffer and seg :: u16
  defines "a \<equiv> DosMcbSegmentAddress base seg"
  assumes "fixups_inside exe bytesRead"
    and "\<forall>i<relocation_count exe. \<forall>j<relocation_count exe. i \<noteq> j \<longrightarrow> range_free (fixup_offset exe i) 2 (fixup_offset exe j) 2"
  shows "i < relocation_count exe \<Longrightarrow> DosMcbReadWord (load_mz base m exe bytesRead seg factor) (a + fixup_offset exe i) =
      DosLoaderReadWord exe (mz_header_size exe + fixup_offset exe i) + factor"
    and "k < mz_image_size exe bytesRead \<Longrightarrow>
      (\<forall>i<relocation_count exe. k \<noteq> fixup_offset exe i \<and> k \<noteq> fixup_offset exe i + 1) \<Longrightarrow>
      load_mz base m exe bytesRead seg factor (a + k) = exe (mz_header_size exe + k)"
    and "x < a \<or> a + mz_image_size exe bytesRead \<le> x \<Longrightarrow> load_mz base m exe bytesRead seg factor x = m x"
proof -
  let ?m = "load_bytes exe a (mz_header_size exe) (mz_image_size exe bytesRead) m"
  { assume i: "i < relocation_count exe"
    have "DosMcbReadWord ?m (a + fixup_offset exe i) = DosLoaderReadWord exe (mz_header_size exe + fixup_offset exe i)"
      using assms(2) i by (auto simp: fixups_inside_def DosMcbReadWord_def DosLoaderReadWord_def load_bytes_at add.assoc)
    then show "DosMcbReadWord (load_mz base m exe bytesRead seg factor) (a + fixup_offset exe i) =
        DosLoaderReadWord exe (mz_header_size exe + fixup_offset exe i) + factor"
      unfolding load_mz_def Let_def a_def [symmetric] using fixups_read [OF i assms(3)] by (simp add: a_def) }
  { assume k: "k < mz_image_size exe bytesRead"
      "\<forall>i<relocation_count exe. k \<noteq> fixup_offset exe i \<and> k \<noteq> fixup_offset exe i + 1"
    then have "apply_fixups base exe seg factor (relocation_count exe) ?m (a + k) = ?m (a + k)"
      by (intro fixups_elsewhere) (auto simp: a_def)
    with k(1) show "load_mz base m exe bytesRead seg factor (a + k) = exe (mz_header_size exe + k)"
      unfolding load_mz_def Let_def by (simp add: a_def load_bytes_at) }
  { assume x: "x < a \<or> a + mz_image_size exe bytesRead \<le> x"
    have "changes_within a (mz_image_size exe bytesRead) m (load_mz base m exe bytesRead seg factor)"
      by (rule load_mz_within [OF assms(2)]) (simp_all add: a_def)
    with x show "load_mz base m exe bytesRead seg factor x = m x" unfolding changes_within_def by blast }
qed

text \<open>
  C19. An MZ program is in memory as its file says, wherever it is loaded. When its relocations lie inside
  its image and do not overlap, then at the segment the loader chooses every relocated word is the file's
  word plus that segment, every other byte of the image is the file's, and no byte outside the image
  changes; the entry and stack segments are the header's plus the same segment.
\<close>

theorem loader_relocates:
  assumes "is_mz exe bytesRead" and "fixups_inside exe bytesRead"
    and "\<forall>i<relocation_count exe. \<forall>j<relocation_count exe. i \<noteq> j \<longrightarrow> range_free (fixup_offset exe i) 2 (fixup_offset exe j) 2"
    and "seg = (if requested \<noteq> 0 then requested else psp + 0x10)" and "a = DosMcbSegmentAddress base seg"
    and "DosLoadImageAt base m exe bytesRead psp requested = (m', program)"
  shows "(\<forall>i<relocation_count exe. DosMcbReadWord m' (a + fixup_offset exe i) =
        DosLoaderReadWord exe (mz_header_size exe + fixup_offset exe i) + seg) \<and>
    (\<forall>k<mz_image_size exe bytesRead. (\<forall>i<relocation_count exe. k \<noteq> fixup_offset exe i \<and> k \<noteq> fixup_offset exe i + 1) \<longrightarrow>
        m' (a + k) = exe (mz_header_size exe + k)) \<and>
    (\<forall>x. x < a \<or> a + mz_image_size exe bytesRead \<le> x \<longrightarrow> m' x = m x) \<and>
    CodeSegment program - seg = DosLoaderReadWord exe 22 \<and> StackSegment program - seg = DosLoaderReadWord exe 14"
  using assms(1,6) load_mz_relocates [OF assms(2,3), where base = base and seg = seg and m = m and factor = seg] unfolding assms(5)
  by (auto simp: DosLoadImageAt_def Let_def assms(4) split: if_splits)

definition tiny_exe :: file_buffer where
  \<comment> \<open>a 24h-byte file: a header of two paragraphs with one relocation, and four bytes of image\<close>
  "tiny_exe = (\<lambda>_. 0)(0 := 0x4D, 1 := 0x5A, 2 := 0x24, 4 := 1, 6 := 1, 8 := 2, 24 := 0x1C, 0x1C := 1, 0x21 := 5)"

lemma tiny_exe_facts [simp]:
  "is_mz tiny_exe 0x24" "mz_header_size tiny_exe = 0x20" "mz_image_size tiny_exe 0x24 = 4"
  "relocation_count tiny_exe = 1" "fixup_offset tiny_exe 0 = 1" "DosLoaderReadWord tiny_exe 0x21 = 5"
  by (simp_all add: is_mz_def mz_header_size_def mz_image_size_def fixup_offset_def tiny_exe_def DosLoaderReadWord_def Let_def)

lemma loader_relocates_witness:
  "DosMcbReadWord (fst (DosLoadImageAt 0 (\<lambda>_. 0) tiny_exe 0x24 0x1000 0)) 0x10101 = 0x1015"
  using loader_relocates [of tiny_exe "0x24" "0x1010" 0 "0x1000" "0x10100" 0 "\<lambda>_. 0"
      "fst (DosLoadImageAt 0 (\<lambda>_. 0) tiny_exe 0x24 0x1000 0)" "snd (DosLoadImageAt 0 (\<lambda>_. 0) tiny_exe 0x24 0x1000 0)"]
  by (simp add: fixups_inside_def segment_address)

subsection \<open>A header that tells the truth\<close>

definition honest_header :: "file_buffer \<Rightarrow> bool" where
  \<comment> \<open>the page count covers the image: at least one page, the last no longer than a page, a size that fits\<close>
  "honest_header exe \<longleftrightarrow> DosLoaderReadWord exe 4 \<noteq> 0 \<and> DosLoaderReadWord exe 2 \<le> 512 \<and>
     unat (DosLoaderReadWord exe 4) * 32 - unat (DosLoaderReadWord exe 8) < 65536"

lemma capped: "t \<le> c \<Longrightarrow> (if t > b then b else t) \<le> (c :: nat)"
  and capped_ge: "k \<le> t \<Longrightarrow> k \<le> b \<Longrightarrow> k \<le> (if t < b then t else b :: nat)"
  and capped_le: "(if t < b then t else b :: nat) \<le> b"
  and larger_ge: "k \<le> (if t < k then k else t :: nat)"
  by auto

lemma honest_image:
  assumes "is_mz exe bytesRead" "honest_header exe"
  shows "mz_image_size exe bytesRead \<le> 16 * unat (DosImageParagraphs exe bytesRead)"
proof -
  let ?p = "unat (DosLoaderReadWord exe 4)" and ?l = "unat (DosLoaderReadWord exe 2)" and ?h = "unat (DosLoaderReadWord exe 8)"
  have p: "0 < ?p" and l: "?l \<le> 512" and fits: "?p * 32 - ?h < 65536"
    using assms(2) by (auto simp: honest_header_def word_le_nat_alt unat_gt_0)
  have "unat (DosImageParagraphs exe bytesRead) = ?p * 32 - ?h"
    using assms(1) fits by (simp add: DosImageParagraphs_def unat_of_nat_small)
  moreover have "mz_image_size exe bytesRead \<le> ?p * 512 - ?h * 16"
  proof -
    let ?t = "(?p - 1) * 512 + (if ?l \<noteq> 0 then ?l else 512)"
    have "?t \<le> ?p * 512" using p l by (cases ?p) auto
    then have "(if ?t > unat bytesRead then unat bytesRead else ?t) \<le> ?p * 512" by (rule capped)
    then have "(if ?t > unat bytesRead then unat bytesRead else ?t) - ?h * 16 \<le> ?p * 512 - ?h * 16" by (rule diff_le_mono)
    moreover have nz: "?p \<noteq> 0" using p by simp
    ultimately show ?thesis by (simp only: mz_image_size_def mz_header_size_def Let_def nz if_True simp_thms)
  qed
  ultimately show ?thesis by simp
qed

lemma exec_size_covers:
  assumes "is_mz exe bytesRead" "DosExecSize exe bytesRead largest = Some (want, loadHigh)"
  shows "want \<le> largest" and "0x10 + unat (DosImageParagraphs exe bytesRead) \<le> unat want"
proof -
  let ?i = "unat (DosImageParagraphs exe bytesRead)" and ?min = "unat (DosLoaderReadWord exe 10)"
  have big: "unat (of_nat n :: u16) = n" if "n \<le> unat largest" for n
    using that unsigned_less [of largest, where ?'a = nat] by (intro unat_of_nat_small) simp
  let ?max = "unat (DosLoaderReadWord exe 12)"
  let ?wanted = "if 0x10 + ?i + ?max < 0x10 + ?i + ?min then 0x10 + ?i + ?min else 0x10 + ?i + ?max"
  let ?n = "if ?wanted < unat largest then ?wanted else unat largest"
  have size: "0x10 + ?i + ?min \<le> unat largest \<and> (want = largest \<or> want = of_nat ?n)"
    using assms unfolding DosExecSize_def Let_def by (simp only: if_True simp_thms split: if_splits) auto
  have "?n \<le> unat largest" by (rule capped_le)
  moreover have "0x10 + ?i + ?min \<le> ?n" using size by (intro capped_ge larger_ge) blast
  ultimately have "want = largest \<or> (\<exists>n. want = of_nat n \<and> 0x10 + ?i + ?min \<le> n \<and> n \<le> unat largest)"
    using size by blast
  with size have needed: "0x10 + ?i + ?min \<le> unat largest"
    and "want = largest \<or> (\<exists>n. want = of_nat n \<and> 0x10 + ?i + ?min \<le> n \<and> n \<le> unat largest)" by blast+
  then show "want \<le> largest" "0x10 + ?i \<le> unat want" using needed big by (auto simp: word_le_nat_alt)
qed

text \<open>
  Where the size EXEC asks for and the bytes the loader writes part: a flat file gets the largest block,
  however small, and is written in full; an MZ file with a page count of zero counts as no paragraphs at
  all, and is written up to the end of the file.
\<close>

lemma flat_program_overruns:
  assumes "\<not> is_mz exe bytesRead" "bytesRead \<le> 0xFE00" "16 * unat largest < 0x100 + unat bytesRead"
  shows "DosExecSize exe bytesRead largest = Some (largest, False)"
    and "fst (DosLoadImageAt base m exe bytesRead psp 0) (DosMcbSegmentAddress base psp + 16 * unat largest) =
      (if 0x100 \<le> 16 * unat largest then exe (16 * unat largest - 0x100) else m (DosMcbSegmentAddress base psp + 16 * unat largest))"
  using assms by (auto simp: DosExecSize_def DosLoadImageAt_def Let_def load_bytes_at word_less_nat_alt word_le_nat_alt)

lemma pageless_program_overruns:
  assumes "is_mz exe bytesRead" "DosLoaderReadWord exe 4 = 0"
  shows "DosImageParagraphs exe bytesRead = 0" and "mz_image_size exe bytesRead = unat bytesRead - mz_header_size exe"
  using assms by (auto simp: DosImageParagraphs_def mz_image_size_def Let_def)

end
