(* ===== verification/Dos_Jft.thy ===== *)
theory Dos_Jft
  imports Dos_Psp
begin

text \<open>
  The handle tables of nested programs, \<^verbatim>\<open>src/dos/dos_int21.c\<close>: EXEC puts the parent's table on a stack, applies to
  the child's what the parent edited in its own job file table, and copies that table into the child's
  PSP; the exit closes what the child alone has open and takes the parent's table back. A Win32 handle is a
  number, 0 for none; which handles are closed is part of the answer.
\<close>

subsection \<open>The tables\<close>

definition DOS_MAX_FILES :: nat where "DOS_MAX_FILES = 128"
definition DOS_HANDLE_STACK_DEPTH :: nat where "DOS_HANDLE_STACK_DEPTH = 8"
definition DOS_PSP_JFT_HANDLES :: nat where "DOS_PSP_JFT_HANDLES = 20"

lemmas handle_sizes = DOS_MAX_FILES_def DOS_HANDLE_STACK_DEPTH_def DOS_PSP_JFT_HANDLES_def

record dos_handle_frame =
  FileHandles :: "nat list"
  StdOpen :: u32
  DeviceKind :: "u8 list"
  JftKnown :: "u8 list"

record dos_handles = dos_handle_frame +
  SftHost :: "u8 \<Rightarrow> nat"
  HandleStack :: "dos_handle_frame list"
  HandleDepth :: nat

subsection \<open>The stack\<close>

definition DosHandlesPush :: "dos_handles \<Rightarrow> dos_handles" where
  \<comment> \<open>a table too deep is counted, not saved\<close>
  "DosHandlesPush h =
     (if HandleDepth h \<ge> DOS_HANDLE_STACK_DEPTH then h\<lparr>HandleDepth := HandleDepth h + 1\<rparr>
      else h\<lparr>HandleStack := (HandleStack h)[HandleDepth h := dos_handle_frame.truncate h], HandleDepth := HandleDepth h + 1\<rparr>)"

definition DosHandleIsHeldByParent :: "dos_handles \<Rightarrow> nat \<Rightarrow> bool" where
  "DosHandleIsHeldByParent h handle \<longleftrightarrow>
     handle \<noteq> 0 \<and> (\<exists>frame\<in>set (take (min (HandleDepth h) DOS_HANDLE_STACK_DEPTH) (HandleStack h)). handle \<in> set (FileHandles frame))"

definition handles_to_close :: "dos_handles \<Rightarrow> dos_handle_frame \<Rightarrow> nat list" where
  \<comment> \<open>what the table has and no parent has, each once\<close>
  "handles_to_close h parent =
     map (\<lambda>i. FileHandles h ! i)
       (filter (\<lambda>i. FileHandles h ! i \<noteq> 0 \<and> \<not> DosHandleIsHeldByParent h (FileHandles h ! i) \<and>
           FileHandles h ! i \<notin> set (FileHandles parent) \<and> FileHandles h ! i \<notin> set (take i (FileHandles h)))
         [0..<DOS_MAX_FILES])"

definition DosHandlesPop :: "dos_handles \<Rightarrow> bool \<Rightarrow> dos_handles \<times> nat list" where
  "DosHandlesPop h isTsr =
     (if HandleDepth h = 0 then (h, [])
      else let depth = HandleDepth h - 1; h1 = h\<lparr>HandleDepth := depth\<rparr>
           in if depth \<ge> DOS_HANDLE_STACK_DEPTH then (h1, [])
              else let parent = HandleStack h ! depth
                   in (h1\<lparr>FileHandles := FileHandles parent, StdOpen := StdOpen parent, DeviceKind := DeviceKind parent,
                          JftKnown := JftKnown parent\<rparr>,
                       if isTsr then [] else handles_to_close h1 parent))"

subsection \<open>The job file table\<close>

definition DosJftOf :: "nat \<Rightarrow> mem \<Rightarrow> u16 \<Rightarrow> (nat \<times> nat) option" where
  \<comment> \<open>where a program's table is, and its length, at most 20\<close>
  "DosJftOf base m psp =
     (let pspBytes = DosMcbSegmentAddress base psp;
          jftSize = unat (DosMcbReadWord m (pspBytes + 0x32));
          jftOffset = unat (DosMcbReadWord m (pspBytes + 0x34));
          jftSegment = DosMcbReadWord m (pspBytes + 0x36)
      in if psp = 0 \<or> jftSegment = 0 \<or> jftSize = 0 then None
         else Some (base + 16 * unat jftSegment + jftOffset, if jftSize > DOS_PSP_JFT_HANDLES then DOS_PSP_JFT_HANDLES else jftSize))"

definition jft_edit :: "mem \<Rightarrow> nat \<Rightarrow> nat \<Rightarrow> dos_handles \<Rightarrow> dos_handles" where
  \<comment> \<open>a standard handle the parent bound in its table by itself\<close>
  "jft_edit m jft handle h =
     (let v = m (jft + handle)
      in if v = JftKnown h ! handle then h
         else if v = 0xFF then
           h\<lparr>FileHandles := (FileHandles h)[handle := 0], StdOpen := StdOpen h AND NOT (push_bit handle 1)\<rparr>
         else if v \<le> 2 then
           h\<lparr>FileHandles := (FileHandles h)[handle := 0], StdOpen := StdOpen h OR push_bit handle 1,
             DeviceKind := (DeviceKind h)[handle := v]\<rparr>
         else if SftHost h v \<noteq> 0 then h\<lparr>FileHandles := (FileHandles h)[handle := SftHost h v]\<rparr> else h)"

definition DosJftExec :: "nat \<Rightarrow> u16 \<Rightarrow> u16 \<Rightarrow> mem \<Rightarrow> dos_handles \<Rightarrow> mem \<times> dos_handles" where
  "DosJftExec base psp childPsp m h =
     (case DosJftOf base m psp of
        None \<Rightarrow> (m, h)
      | Some (jft, count) \<Rightarrow>
          let h1 = fold (jft_edit m jft) [0..<min count 5] h;
              child = DosJftOf base m childPsp;
              m1 = (case child of None \<Rightarrow> m | Some (childJft, childCount) \<Rightarrow> copy_up childJft jft (min count childCount) m);
              known = map (\<lambda>handle. case child of
                  None \<Rightarrow> 0xFF | Some (childJft, childCount) \<Rightarrow> if handle < childCount then m1 (childJft + handle) else 0xFF)
                [0..<DOS_PSP_JFT_HANDLES]
          in (m1, h1\<lparr>JftKnown := known\<rparr>))"

subsection \<open>What the routines keep\<close>

lemma jft_exec_stack:
  "HandleStack (snd (DosJftExec base psp child m h)) = HandleStack h \<and> HandleDepth (snd (DosJftExec base psp child m h)) = HandleDepth h"
proof -
  have "HandleStack (fold (jft_edit m jft) xs h) = HandleStack h \<and> HandleDepth (fold (jft_edit m jft) xs h) = HandleDepth h"
    for jft xs and h :: dos_handles
    by (induction xs arbitrary: h) (simp_all add: jft_edit_def Let_def)
  then show ?thesis by (simp add: DosJftExec_def Let_def split: option.splits)
qed

lemma jft_exec_within:
  assumes "DosJftOf base m child = Some (childJft, childCount)"
  shows "changes_within childJft childCount m (fst (DosJftExec base psp child m h))"
  using changes_within_copy [OF changes_within_refl, of childJft childJft _ childCount]
  by (auto simp: DosJftExec_def Let_def assms split: option.splits)

text \<open>
  The parent's table comes back: whatever a child did to its own table, and to the stack above its parent's, the exit restores every entry the parent had, and closes no handle the parent holds.
\<close>

lemma handles_come_back:
  assumes "HandleDepth h < DOS_HANDLE_STACK_DEPTH" "length (HandleStack h) = DOS_HANDLE_STACK_DEPTH"
    and depth: "HandleDepth h' = HandleDepth (DosHandlesPush h)"
    and below: "take (HandleDepth h') (HandleStack h') = take (HandleDepth h') (HandleStack (DosHandlesPush h))"
  shows "dos_handle_frame.truncate (fst (DosHandlesPop h' isTsr)) = dos_handle_frame.truncate h"
    and "HandleDepth (fst (DosHandlesPop h' isTsr)) = HandleDepth h"
    and "set (snd (DosHandlesPop h' isTsr)) \<inter> set (FileHandles h) = {}"
proof -
  have "HandleDepth h' = Suc (HandleDepth h)" using assms(1) depth by (simp add: DosHandlesPush_def)
  moreover from this have "HandleStack h' ! HandleDepth h = HandleStack (DosHandlesPush h) ! HandleDepth h"
    using below nth_take [of "HandleDepth h" "HandleDepth h'" "HandleStack h'"]
      nth_take [of "HandleDepth h" "HandleDepth h'" "HandleStack (DosHandlesPush h)"] by simp
  then have "HandleStack h' ! HandleDepth h = dos_handle_frame.truncate h" using assms(1,2) by (simp add: DosHandlesPush_def)
  ultimately show "dos_handle_frame.truncate (fst (DosHandlesPop h' isTsr)) = dos_handle_frame.truncate h"
    "HandleDepth (fst (DosHandlesPop h' isTsr)) = HandleDepth h"
    "set (snd (DosHandlesPop h' isTsr)) \<inter> set (FileHandles h) = {}"
    using assms(1) by (auto simp: DosHandlesPop_def Let_def dos_handle_frame.truncate_def handles_to_close_def)
qed

end
