(* ===== verification/Dos_Exec.thy ===== *)
theory Dos_Exec
  imports Dos_Loader Dos_Mcb_Contract Dos_Jft Vdm_Registers
begin

text \<open>
  INT 21h AH=4Bh, \<^verbatim>\<open>ExecBegin\<close> of \<^verbatim>\<open>src/host/host_dos.c\<close>, and a program's exit, \<^verbatim>\<open>DosTerminate\<close>. \<open>exec_prepare\<close> is
  EXEC's work on memory up to the loaded image: the copy of the environment, the block the header asks for, the PSP, the
  saved vectors, the command tail and the image; \<open>exec_release\<close> is what an exit gives back. Around them are
  the three modes of the call, the answers in the caller's registers, in the flags its IRET will restore and in its parameter block,
  the frame of the parent and its handle table. The arena, the PSP, the handle tables and the loader are the
  definitions of their own theories. What the host file system and
  Windows answer (the bytes of the file, whether Windows took the program, whether it stands in the current directory) is
  input. Left out are bookkeeping in host variables alone (the log, the title, the version a program is
  told, the photograph a forced close restores), device resets, and the user hooks of loaded device drivers.
\<close>

subsection \<open>Loading a child\<close>

record exec_request =
  ParentPsp :: u16
  ExecEnvironment :: u16
  ExecName :: "u8 list" \<comment> \<open>as the caller spelled it, before its zero\<close>
  ExecPath :: "u8 list"
  ExecTailSegment :: u16
  ExecTailOffset :: u16
  IsInCurrentDirectory :: bool \<comment> \<open>the host's comparison of the two directories\<close>

definition executable_name :: "exec_request \<Rightarrow> u8 list" where
  "executable_name req =
     (let name = take 127 (ExecName req); base_name = rev (takeWhile (\<lambda>c. c \<noteq> 0x5C) (rev name))
      in if length name \<ge> 64 \<and> base_name \<noteq> name \<and> IsInCurrentDirectory req then base_name else name)"

definition environment_length :: "mem \<Rightarrow> nat \<Rightarrow> nat" where
  \<comment> \<open>the bytes of the variables with the zero that ends them\<close>
  "environment_length m p =
     (if m p = 0 then 1 else first_from (\<lambda>i. m (p + i) = 0 \<and> m (p + i + 1) = 0) 0 0x7FFE + 2)"

primrec store_bytes :: "nat \<Rightarrow> u8 list \<Rightarrow> mem \<Rightarrow> mem" where
  "store_bytes a [] m = m"
| "store_bytes a (b # bs) m = store_bytes (a + 1) bs (m(a := b))"

definition copy_environment :: "nat \<Rightarrow> nat \<Rightarrow> nat \<Rightarrow> u8 list \<Rightarrow> mem \<Rightarrow> mem" where
  "copy_environment child parent len name m = store_bytes (child + len) ([1, 0] @ name @ [0]) (copy_up child parent len m)"

definition parent_environment :: "nat \<Rightarrow> mem \<Rightarrow> exec_request \<Rightarrow> nat" where
  "parent_environment base m req =
     DosMcbSegmentAddress base
       (if ExecEnvironment req \<noteq> 0 then ExecEnvironment req
        else DosMcbReadWord m (DosMcbSegmentAddress base (ParentPsp req) + 0x2C))"

definition environment_paragraphs :: "nat \<Rightarrow> u8 list \<Rightarrow> u16" where
  "environment_paragraphs len name = of_nat ((len + 2 + length name + 1 + 15) div 16)"

definition copy_tail :: "nat \<Rightarrow> nat \<Rightarrow> u16 \<Rightarrow> mem \<Rightarrow> mem" where
  "copy_tail psp tail parent m =
     (let count = (if m tail > 126 then 126 else unat (m tail));
          m1 = copy_up (psp + 0x80) tail (count + 1) m
      in m1(psp + 0x81 + count := 0x0D, psp + 0x16 := ucast (parent AND 0xFF), psp + 0x17 := ucast (drop_bit 8 parent)))"

definition exec_load ::
  "nat \<Rightarrow> exec_request \<Rightarrow> file_buffer \<Rightarrow> u32 \<Rightarrow> u16 \<Rightarrow> u16 \<Rightarrow> u16 \<Rightarrow> bool \<Rightarrow> mem \<Rightarrow> mem \<times> dos_image" where
  \<comment> \<open>with both blocks allocated: their owners, the child's PSP and its image\<close>
  "exec_load base req exe bytesRead env child want loadHigh m =
     (let m1 = (if env \<noteq> 0 then DosMcbWriteWord m (DosMcbSegmentAddress base (env - 1) + 1) child else m);
          m2 = DosMcbWriteWord m1 (DosMcbSegmentAddress base (child - 1) + 1) child;
          m3 = DosPspBuild base m2 child env (child + want);
          m4 = DosMcbSetOwnerName base m3 child (ExecPath req);
          m5 = DosPspSaveVectors base m4 child (ParentPsp req);
          m6 = copy_tail (DosMcbSegmentAddress base child)
                 (base + 16 * unat (ExecTailSegment req) + unat (ExecTailOffset req)) (ParentPsp req) m5
      in DosLoadImageAt base m6 exe bytesRead child
           (if loadHigh then child + want - DosImageParagraphs exe bytesRead else 0))"

record exec_child =
  ChildSegment :: u16
  EnvironmentSegment :: u16
  ChildSize :: u16
  ChildImage :: dos_image

definition exec_refused :: "nat \<Rightarrow> u16 \<Rightarrow> mem \<Rightarrow> (mem \<times> exec_child option) option" where
  \<comment> \<open>error 8: the environment's block goes back\<close>
  "exec_refused base env m =
     (if env \<noteq> 0 then Option.bind (DosMcbFree base m env) (\<lambda>(m', _). Some (m', None)) else Some (m, None))"

definition exec_prepare ::
  "nat \<Rightarrow> u16 \<Rightarrow> exec_request \<Rightarrow> file_buffer \<Rightarrow> u32 \<Rightarrow> mem \<Rightarrow> (mem \<times> exec_child option) option" where
  "exec_prepare base firstMcb req exe bytesRead m =
     (let parent = parent_environment base m req; len = environment_length m parent; name = executable_name req
      in Option.bind (DosMcbAllocate base m firstMcb (environment_paragraphs len name)) (\<lambda>(m1, r).
           case r of
             Inl _ \<Rightarrow> Some (m1, None)
           | Inr env \<Rightarrow>
               let m2 = copy_environment (DosMcbSegmentAddress base env) parent len name m1
               in Option.bind (DosMcbAllocate base m2 firstMcb 0xFFFF) (\<lambda>(m3, probe).
                    let largest = (case probe of Inl (InsufficientMemory n) \<Rightarrow> n | _ \<Rightarrow> 0);
                        (want, loadHigh) = (if largest = 0 then (0, False)
                          else case DosExecSize exe bytesRead largest of Some wh \<Rightarrow> wh | None \<Rightarrow> (0, False))
                    in if want = 0 then exec_refused base env m3
                       else Option.bind (DosMcbAllocate base m3 firstMcb want) (\<lambda>(m4, r).
                         case r of
                           Inl _ \<Rightarrow> exec_refused base env m4
                         | Inr child \<Rightarrow>
                             let (m5, program) = exec_load base req exe bytesRead env child want loadHigh m4
                             in Some (m5, Some \<lparr>ChildSegment = child, EnvironmentSegment = env, ChildSize = want,
                                   ChildImage = program\<rparr>)))))"

subsection \<open>The caller's machine\<close>

definition EXEC_MAX_DEPTH :: nat where "EXEC_MAX_DEPTH = 8"

record exec_registers = vdm_registers +
  Ebp :: u32
  Esp :: u32
  Eip :: u32
  Eflags :: u32
  Cs :: u32
  Ss :: u32

record exec_frame =
  FrameRegisters :: exec_registers
  FramePsp :: u16
  FrameDta :: "u16 \<times> u16"
  FrameChild :: u16
  FrameEnvironment :: u16

record exec_machine =
  Tib :: exec_registers
  Guest :: mem
  PspSegment :: u16
  Dta :: "u16 \<times> u16" \<comment> \<open>segment and offset\<close>
  Handles :: dos_handles
  Frames :: "exec_frame list" \<comment> \<open>\<^verbatim>\<open>g_Exec[0 .. g_ExecDepth - 1]\<close>, the innermost first\<close>
  ChildReturnCode :: u16
  ExitCode :: u32
  TermType :: u8
  IsTsrPending :: bool
  TsrKeep :: u16

datatype exec_mode = LoadAndGo | LoadOnly | Overlay

record exec_call =
  ExecMode :: exec_mode
  ExecBlock :: "u16 \<times> u16" \<comment> \<open>segment and offset of the parameter block\<close>
  ExecOverlaySegment :: u16
  ExecOverlayRelocation :: u16
  ExecRequest :: exec_request

definition flags_address :: "nat \<Rightarrow> exec_registers \<Rightarrow> nat" where
  \<comment> \<open>the flags of the caller's interrupt frame, on its stack\<close>
  "flags_address base r =
     base + unat (push_bit 4 (VDM_REG16 (Ss r)) + (VDM_REG16 (Esp r) + 4 AND 0xFFFF))"

definition set_carry :: "nat \<Rightarrow> mem \<Rightarrow> mem" where
  "set_carry a m = DosMcbWriteWord m a (DosMcbReadWord m a OR 1)"

definition clear_carry :: "nat \<Rightarrow> mem \<Rightarrow> mem" where
  "clear_carry a m = DosMcbWriteWord m a (DosMcbReadWord m a AND NOT 1)"

definition VDM_BOP_LENGTH :: u32 where "VDM_BOP_LENGTH = 3"

definition exec_fail :: "nat \<Rightarrow> u32 \<Rightarrow> exec_machine \<Rightarrow> exec_machine" where
  \<comment> \<open>the error in AX and the carry, past the BOP\<close>
  "exec_fail base code st =
     st\<lparr>Guest := set_carry (flags_address base (Tib st)) (Guest st),
        Tib := (Tib st)\<lparr>Eax := (Eax (Tib st) AND 0xFFFF0000) OR code, Eip := Eip (Tib st) + VDM_BOP_LENGTH\<rparr>\<rparr>"

definition exec_done :: "nat \<Rightarrow> exec_machine \<Rightarrow> exec_machine" where
  "exec_done base st =
     st\<lparr>Guest := clear_carry (flags_address base (Tib st)) (Guest st),
        Tib := (Tib st)\<lparr>Eax := Eax (Tib st) AND 0xFFFF0000, Eip := Eip (Tib st) + VDM_BOP_LENGTH\<rparr>\<rparr>"

definition exec_answer :: "nat \<Rightarrow> u16 \<times> u16 \<Rightarrow> dos_image \<Rightarrow> mem \<Rightarrow> mem" where
  \<comment> \<open>the entry of a program loaded and not run, in the caller's parameter block; SP is the header's less two\<close>
  "exec_answer base block program m =
     (let parameterBlock = base + 16 * unat (fst block) + unat (snd block);
          m1 = DosMcbWriteWord m (parameterBlock + 0x0E) (StackPointer program - 2);
          m2 = DosMcbWriteWord m1 (parameterBlock + 0x10) (StackSegment program);
          m3 = DosMcbWriteWord m2 (parameterBlock + 0x12) (InstructionPointer program)
      in DosMcbWriteWord m3 (parameterBlock + 0x14) (CodeSegment program))"

definition exec_frame_of :: "exec_machine \<Rightarrow> exec_child \<Rightarrow> exec_frame" where
  \<comment> \<open>the segment registers are kept as words\<close>
  "exec_frame_of st c =
     \<lparr>FrameRegisters = (Tib st)\<lparr>Cs := Cs (Tib st) AND 0xFFFF, Ss := Ss (Tib st) AND 0xFFFF, Ds := Ds (Tib st) AND 0xFFFF,
        Es := Es (Tib st) AND 0xFFFF\<rparr>,
      FramePsp = PspSegment st, FrameDta = Dta st, FrameChild = ChildSegment c, FrameEnvironment = EnvironmentSegment c\<rparr>"

definition exec_enter :: "nat \<Rightarrow> exec_child \<Rightarrow> exec_machine \<Rightarrow> exec_machine" where
  \<comment> \<open>the child takes the processor: its own handle table, PSP, DTA and registers, interrupts on and no trace\<close>
  "exec_enter base c st =
     (let child = ChildSegment c; program = ChildImage c;
          (m, h) = DosJftExec base (PspSegment st) child (Guest st) (DosHandlesPush (Handles st))
      in st\<lparr>Guest := m, Handles := h, Frames := exec_frame_of st c # Frames st, PspSegment := child, Dta := (child, 0x80),
            Tib := (Tib st)\<lparr>Cs := ucast (CodeSegment program), Eip := ucast (InstructionPointer program),
              Ss := ucast (StackSegment program), Esp := ucast (StackPointer program), Ds := ucast child, Es := ucast child,
              Eax := 0, Eflags := (Eflags (Tib st) AND NOT 0x100) OR 0x200\<rparr>\<rparr>)"

definition ExecBegin ::
  "nat \<Rightarrow> u16 \<Rightarrow> exec_call \<Rightarrow> (file_buffer \<times> u32) option \<Rightarrow> u16 option \<Rightarrow> exec_machine \<Rightarrow> exec_machine option" where
  \<comment> \<open>the file as read, if it opens, and the return code of a program Windows ran, if it took it\<close>
  "ExecBegin base firstMcb call exe_file windows st =
     (if length (Frames st) \<ge> EXEC_MAX_DEPTH then Some (exec_fail base 8 st)
      else case exe_file of
             None \<Rightarrow> Some (exec_fail base 2 st)
           | Some (exe, bytesRead) \<Rightarrow>
               if ExecMode call = LoadAndGo \<and> fst (DosExeKind exe bytesRead) \<noteq> ExeDos \<and> windows \<noteq> None
               then Some (exec_done base (st\<lparr>ChildReturnCode := the windows\<rparr>))
               else if ExecMode call = Overlay
               then Some (exec_done base (st\<lparr>Guest := fst (DosLoadOverlay base (Guest st) exe bytesRead
                            (ExecOverlaySegment call) (ExecOverlayRelocation call))\<rparr>))
               else Option.bind
                 (exec_prepare base firstMcb ((ExecRequest call)\<lparr>ParentPsp := PspSegment st\<rparr>) exe bytesRead (Guest st))
                 (\<lambda>(m, r). Some (case r of
                    None \<Rightarrow> exec_fail base 8 (st\<lparr>Guest := m\<rparr>)
                  | Some c \<Rightarrow>
                      if ExecMode call = LoadOnly
                      then exec_done base (st\<lparr>Guest := exec_answer base (ExecBlock call) (ChildImage c) m,
                             PspSegment := ChildSegment c\<rparr>)
                      else exec_enter base c (st\<lparr>Guest := m\<rparr>))))"

subsection \<open>A program's exit\<close>

function find_owned :: "nat \<Rightarrow> mem \<Rightarrow> u16 \<Rightarrow> u16 \<Rightarrow> nat \<Rightarrow> u16" where
  \<comment> \<open>the first block of the chain with this owner, or 0; the guard counts to 1024\<close>
  "find_owned base m owner mcbSegment guard =
     (let mcb = DosMcbSegmentAddress base mcbSegment
      in if (m mcb \<noteq> DOS_MCB_MEMBER \<and> m mcb \<noteq> DOS_MCB_LAST) \<or> Suc guard > 1024 then 0
         else if DosMcbReadWord m (mcb + 1) = owner then mcbSegment + 1
         else if m mcb = DOS_MCB_LAST then 0
         else find_owned base m owner (mcbSegment + 1 + DosMcbReadWord m (mcb + 3)) (Suc guard))"
  by pat_completeness auto
termination
  by (relation "measure (\<lambda>(base, m, w, s, g). 1024 - g)") auto

declare find_owned.simps [simp del]

primrec free_owned_blocks :: "nat \<Rightarrow> nat \<Rightarrow> u16 \<Rightarrow> u16 \<Rightarrow> mem \<Rightarrow> mem option" where
  \<comment> \<open>the passes of the exit: free the first block of the owner until there is none\<close>
  "free_owned_blocks 0 base firstMcb owner m = Some m"
| "free_owned_blocks (Suc passes) base firstMcb owner m =
     (let hit = find_owned base m owner firstMcb 0
      in if hit = 0 then Some m
         else Option.bind (DosMcbFree base m hit) (\<lambda>(m', e).
           case e of Some _ \<Rightarrow> Some m' | None \<Rightarrow> free_owned_blocks passes base firstMcb owner m'))"

definition exec_release :: "nat \<Rightarrow> u16 \<Rightarrow> u16 \<Rightarrow> u16 \<Rightarrow> mem \<Rightarrow> mem option" where
  \<comment> \<open>a child that does not stay resident: vectors back, its block, every other block it owns, its environment\<close>
  "exec_release base firstMcb child env m =
     (if child = 0 then (if env = 0 then Some m else map_option fst (DosMcbFree base m env))
      else Option.bind (DosMcbFree base (DosPspRestoreVectors base m child) child) (\<lambda>(m1, _).
             Option.bind (free_owned_blocks DOS_MCB_WALK_LIMIT base firstMcb child m1) (\<lambda>m2.
               if env = 0 then Some m2 else map_option fst (DosMcbFree base m2 env))))"

definition exec_resume :: "nat \<Rightarrow> exec_frame \<Rightarrow> exec_machine \<Rightarrow> exec_machine" where
  \<comment> \<open>the parent goes on behind its EXEC, with AX = 0 and the carry clear\<close>
  "exec_resume base frame st =
     exec_done base (st\<lparr>Tib := FrameRegisters frame, PspSegment := FramePsp frame, Dta := FrameDta frame\<rparr>)\<lparr>ExitCode := 0\<rparr>"

definition DosTerminate :: "nat \<Rightarrow> u16 \<Rightarrow> exec_machine \<Rightarrow> (exec_machine \<times> bool \<times> nat list) option" where
  \<comment> \<open>whether a parent goes on, and the Win32 handles closed\<close>
  "DosTerminate base firstMcb st =
     (case Frames st of
        [] \<Rightarrow> Some (st\<lparr>Tib := (Tib st)\<lparr>Eip := Eip (Tib st) + VDM_BOP_LENGTH\<rparr>\<rparr>, False, [])
      | frame # frames \<Rightarrow>
          let (h, closed) = DosHandlesPop (Handles st) (IsTsrPending st);
              st1 = st\<lparr>Frames := frames, Handles := h, TermType := 0,
                ChildReturnCode := push_bit 8 (ucast (TermType st)) OR ucast (ExitCode st AND 0xFF)\<rparr>
          in if IsTsrPending st
             then let m = fst (DosMcbResize base (Guest st) (FrameChild frame) (if TsrKeep st < 0x10 then 0x10 else TsrKeep st))
                  in Some (exec_resume base frame (st1\<lparr>Guest := m, IsTsrPending := False, TsrKeep := 0\<rparr>), True, closed)
             else Option.bind (exec_release base firstMcb (FrameChild frame) (FrameEnvironment frame) (Guest st))
               (\<lambda>m. Some (exec_resume base frame (st1\<lparr>Guest := m\<rparr>), True, closed)))"

end
