(* ===== verification/Dos_Env.thy ===== *)
theory Dos_Env
  imports Dos_Mcb
begin

text \<open>
  The DOS environment block, \<^verbatim>\<open>src/dos/dos_env.h\<close>: the variables a program finds at the segment its
  PSP names, the \<^verbatim>\<open>BLASTER\<close> string built from the sound card's settings, the extra lines of
  \<^verbatim>\<open>dosenv.txt\<close>, and the tail with the program's path. The cursor the code threads through its writers
  is paired with the memory; a C string is the bytes before its zero. What
  a DOS program reads back out of the block is in \<open>Env_Contract\<close>.
\<close>

subsection \<open>Writers\<close>

definition bytes_of :: "string \<Rightarrow> u8 list" where
  "bytes_of = map of_char"

type_synonym cursor = "nat \<times> mem"

fun DosEnvPutString :: "u8 list \<Rightarrow> cursor \<Rightarrow> cursor" where
  "DosEnvPutString [] (cursor, m) = (cursor, m)"
| "DosEnvPutString (c # text) (cursor, m) = DosEnvPutString text (cursor + 1, m(cursor := c))"

fun DosEnvPutBounded :: "nat \<Rightarrow> u8 list \<Rightarrow> cursor \<Rightarrow> cursor" where
  "DosEnvPutBounded stop [] (cursor, m) = (cursor, m)"
| "DosEnvPutBounded stop (c # text) (cursor, m) =
     (if cursor < stop then DosEnvPutBounded stop text (cursor + 1, m(cursor := c)) else (cursor, m))"

fun put_byte :: "u8 \<Rightarrow> cursor \<Rightarrow> cursor" where
  \<comment> \<open>\<^verbatim>\<open>*cursor++ = value\<close>\<close>
  "put_byte v (cursor, m) = (cursor + 1, m(cursor := v))"

primrec decimal_digits :: "nat \<Rightarrow> u32 \<Rightarrow> u8 list" where
  \<comment> \<open>the digits of a value, lowest first, while there is room for them\<close>
  "decimal_digits 0 v = []"
| "decimal_digits (Suc room) v = (if v = 0 then [] else (0x30 + ucast (v mod 10)) # decimal_digits room (v div 10))"

definition DosEnvPutDecimal :: "nat \<Rightarrow> u32 \<Rightarrow> cursor \<Rightarrow> cursor" where
  "DosEnvPutDecimal stop v = DosEnvPutBounded stop (if v = 0 then [0x30] else rev (decimal_digits 12 v))"

definition hex_digits :: "u8 list" where
  "hex_digits = bytes_of ''0123456789ABCDEF''"

definition DosEnvPutThreeHexDigits :: "nat \<Rightarrow> u32 \<Rightarrow> cursor \<Rightarrow> cursor" where
  "DosEnvPutThreeHexDigits stop v =
     DosEnvPutBounded stop (map (\<lambda>shift. hex_digits ! unat (drop_bit shift v AND 0xF)) [8, 4, 0])"

subsection \<open>The sound card's variable\<close>

record dos_sb_config =
  IoBase :: u16
  SbIrq :: u8
  Dma8Channel :: u8
  Dma16Channel :: u8
  SbType :: u8
  MpuBase :: u16
  Emu8kBase :: u16

definition default_card :: dos_sb_config where
  "default_card = \<lparr>IoBase = 0x220, SbIrq = 5, Dma8Channel = 1, Dma16Channel = 0, SbType = 3, MpuBase = 0, Emu8kBase = 0\<rparr>"

definition DosEnvPutBlaster :: "nat \<Rightarrow> dos_sb_config option \<Rightarrow> cursor \<Rightarrow> cursor" where
  "DosEnvPutBlaster stop sb c0 =
     (let sb = (case sb of None \<Rightarrow> default_card | Some sb \<Rightarrow> sb);
          put = DosEnvPutBounded stop;
          c1 = DosEnvPutThreeHexDigits stop (ucast (IoBase sb)) (put (bytes_of ''BLASTER=A'') c0);
          c2 = DosEnvPutDecimal stop (ucast (SbIrq sb)) (put (bytes_of '' I'') c1);
          c3 = DosEnvPutDecimal stop (ucast (Dma8Channel sb)) (put (bytes_of '' D'') c2);
          c4 = (if Dma16Channel sb = 0 then c3
                else DosEnvPutDecimal stop (ucast (Dma16Channel sb)) (put (bytes_of '' H'') c3));
          c5 = (if MpuBase sb = 0 then c4
                else DosEnvPutThreeHexDigits stop (ucast (MpuBase sb)) (put (bytes_of '' P'') c4));
          c6 = (if Emu8kBase sb = 0 then c5
                else DosEnvPutThreeHexDigits stop (ucast (Emu8kBase sb)) (put (bytes_of '' E'') c5))
      in DosEnvPutDecimal stop (ucast (SbType sb)) (put (bytes_of '' T'') c6))"

subsection \<open>The extra lines\<close>

definition ends_line :: "u8 \<Rightarrow> bool" where
  "ends_line c \<longleftrightarrow> c = 0x0A \<or> c = 0x0D \<or> c = 0x3B"

definition put_line :: "nat \<Rightarrow> u8 list \<Rightarrow> cursor \<Rightarrow> cursor" where
  \<comment> \<open>a line goes in whole or not at all; comments and blank lines do not go in\<close>
  "put_line stop line c =
     (if line \<noteq> [] \<and> hd line \<noteq> 0x23 \<and> fst c + length line + 1 \<le> stop
      then put_byte 0 (DosEnvPutString line c) else c)"

function put_extra :: "nat \<Rightarrow> u8 list \<Rightarrow> cursor \<Rightarrow> cursor" where
  "put_extra stop remaining c =
     (if remaining = [] then c
      else put_extra stop (dropWhile ends_line (dropWhile (\<lambda>c. \<not> ends_line c) remaining))
             (put_line stop (takeWhile (\<lambda>c. \<not> ends_line c) remaining) c))"
  by pat_completeness auto
termination
proof (relation "measure (\<lambda>(stop, remaining, c). length remaining)", goal_cases)
  case (2 stop remaining c)
  then obtain a rest where r: "remaining = a # rest" by (cases remaining) auto
  have "length (dropWhile ends_line (dropWhile (\<lambda>c. \<not> ends_line c) remaining)) \<le> length rest"
    using length_dropWhile_le [of ends_line] length_dropWhile_le [of "\<lambda>c. \<not> ends_line c" rest] le_trans
    unfolding r by (cases "ends_line a") (simp, fastforce)
  then show ?case unfolding r by simp
qed simp

declare put_extra.simps [simp del]

subsection \<open>The block\<close>

definition DOS_ENV_COMSPEC :: "u8 list" where
  "DOS_ENV_COMSPEC = bytes_of ''COMSPEC=C:'' @ 0x5C # bytes_of ''COMMAND.COM''"

definition DOS_ENV_DEFAULT_PATH :: "u8 list" where
  "DOS_ENV_DEFAULT_PATH = bytes_of ''C:'' @ [0x5C]"

definition DOS_ENV_DEFAULT_PROGRAM :: "u8 list" where
  "DOS_ENV_DEFAULT_PROGRAM = bytes_of ''C:'' @ 0x5C # bytes_of ''PROGRAM.COM''"

definition given :: "u8 list option \<Rightarrow> u8 list \<Rightarrow> u8 list" where
  \<comment> \<open>\<^verbatim>\<open>(text && text[0]) ? text : fallback\<close>\<close>
  "given text fallback = (case text of Some (c # cs) \<Rightarrow> c # cs | _ \<Rightarrow> fallback)"

definition DosEnvBuildWithCard ::
  "nat \<Rightarrow> mem \<Rightarrow> u16 \<Rightarrow> u8 list option \<Rightarrow> u8 list option \<Rightarrow> dos_sb_config option \<Rightarrow> u8 list option \<Rightarrow> mem \<times> u32" where
  "DosEnvBuildWithCard base m environmentSegment programPath pathVariable sb extra =
     (let environment = DosMcbSegmentAddress base environmentSegment;
          variablesEnd = environment + 0x100 - 8;
          put = DosEnvPutBounded variablesEnd;
          c1 = put_byte 0 (put DOS_ENV_COMSPEC (environment, m));
          c2 = put_byte 0 (put (given pathVariable DOS_ENV_DEFAULT_PATH) (put (bytes_of ''PATH='') c1));
          c3 = put_byte 0 (put (bytes_of ''PROMPT=$p$g'') c2);
          c4 = put_byte 0 (DosEnvPutBlaster variablesEnd sb c3);
          c5 = (case extra of None \<Rightarrow> c4 | Some text \<Rightarrow> put_extra variablesEnd text c4);
          c6 = put_byte 0 (put_byte 1 (put_byte 0 c5));
          c7 = DosEnvPutBounded (environment + 0x100 - 1) (given programPath DOS_ENV_DEFAULT_PROGRAM) c6;
          (cursor, m') = put_byte 0 c7
      in (m', of_nat (cursor - environment)))"

definition DosEnvBuildWithPath :: "nat \<Rightarrow> mem \<Rightarrow> u16 \<Rightarrow> u8 list option \<Rightarrow> u8 list option \<Rightarrow> mem \<times> u32" where
  "DosEnvBuildWithPath base m environmentSegment programPath pathVariable =
     DosEnvBuildWithCard base m environmentSegment programPath pathVariable None None"

definition DosEnvBuild :: "nat \<Rightarrow> mem \<Rightarrow> u16 \<Rightarrow> u8 list option \<Rightarrow> mem \<times> u32" where
  "DosEnvBuild base m environmentSegment programPath =
     DosEnvBuildWithCard base m environmentSegment programPath (Some DOS_ENV_DEFAULT_PATH) None None"

end
