(* ===== verification/Env_Contract.thy ===== *)
theory Env_Contract
  imports Dos_Env
begin

text \<open>
  What a DOS program reads back out of the environment block. Every writer of \<^verbatim>\<open>dos_env.h\<close> appends bytes
  behind the ones already there, so the block is one list of bytes laid at the segment
  (\<open>env_block\<close>); \<open>environment_at\<close> is the reader: strings up to an empty one, the count word, and the
  program's path.
\<close>

subsection \<open>Bytes laid in memory\<close>

definition laid :: "nat \<Rightarrow> u8 list \<Rightarrow> mem \<Rightarrow> mem" where
  "laid a bs m = (\<lambda>x. if a \<le> x \<and> x < a + length bs then bs ! (x - a) else m x)"

definition wrote :: "nat \<Rightarrow> mem \<Rightarrow> u8 list \<Rightarrow> cursor" where
  "wrote a m bs = (a + length bs, laid a bs m)"

lemma wrote_Nil: "wrote a m [] = (a, m)"
  by (auto simp: wrote_def laid_def fun_eq_iff)

lemma laid_snoc: "(laid a bs m)(a + length bs := v) = laid a (bs @ [v]) m"
  by (auto simp: laid_def fun_eq_iff nth_append)

lemma put_byte_wrote [simp]: "put_byte v (wrote a m bs) = wrote a m (bs @ [v])"
  by (simp add: wrote_def laid_snoc)

lemma put_string_wrote [simp]: "DosEnvPutString str (wrote a m bs) = wrote a m (bs @ str)"
proof (induction str arbitrary: bs)
  case (Cons c str)
  from Cons [of "bs @ [c]"] show ?case by (simp add: wrote_def laid_snoc)
qed (simp add: wrote_def)

lemma put_bounded_wrote [simp]:
  "DosEnvPutBounded (a + k) str (wrote a m bs) = wrote a m (bs @ take (k - length bs) str)"
proof (induction str arbitrary: bs)
  case (Cons c str)
  from Cons [of "bs @ [c]"] show ?case
    by (cases "length bs < k") (auto simp: wrote_def laid_snoc take_Cons')
qed (simp add: wrote_def)

lemma put_bounded_stuck: "stop \<le> fst c \<Longrightarrow> DosEnvPutBounded stop str c = c"
  by (cases c, cases str) auto

lemma put_bounded_append:
  "DosEnvPutBounded stop ys (DosEnvPutBounded stop xs c) = DosEnvPutBounded stop (xs @ ys) c"
  by (induction stop xs c rule: DosEnvPutBounded.induct) (auto simp: put_bounded_stuck)

subsection \<open>The text of the sound card's variable\<close>

definition decimal :: "u32 \<Rightarrow> u8 list" where
  "decimal v = (if v = 0 then [0x30] else rev (decimal_digits 12 v))"

definition three_hex :: "u32 \<Rightarrow> u8 list" where
  "three_hex v = map (\<lambda>shift. hex_digits ! unat (drop_bit shift v AND 0xF)) [8, 4, 0]"

definition blaster_text :: "dos_sb_config option \<Rightarrow> u8 list" where
  "blaster_text sb =
     (let sb = (case sb of None \<Rightarrow> default_card | Some sb \<Rightarrow> sb)
      in bytes_of ''BLASTER=A'' @ three_hex (ucast (IoBase sb)) @ bytes_of '' I'' @ decimal (ucast (SbIrq sb)) @
         bytes_of '' D'' @ decimal (ucast (Dma8Channel sb)) @
         (if Dma16Channel sb = 0 then [] else bytes_of '' H'' @ decimal (ucast (Dma16Channel sb))) @
         (if MpuBase sb = 0 then [] else bytes_of '' P'' @ three_hex (ucast (MpuBase sb))) @
         (if Emu8kBase sb = 0 then [] else bytes_of '' E'' @ three_hex (ucast (Emu8kBase sb))) @
         bytes_of '' T'' @ decimal (ucast (SbType sb)))"

lemma put_digits:
  "DosEnvPutThreeHexDigits stop v c = DosEnvPutBounded stop (three_hex v) c"
  "DosEnvPutDecimal stop v c = DosEnvPutBounded stop (decimal v) c"
  by (simp_all add: DosEnvPutThreeHexDigits_def DosEnvPutDecimal_def three_hex_def decimal_def)

lemma put_optional:
  "(if b then c else DosEnvPutBounded stop ys (DosEnvPutBounded stop xs c)) =
     DosEnvPutBounded stop (if b then [] else xs @ ys) c"
  by (cases c) (simp add: put_bounded_append)

lemma put_blaster: "DosEnvPutBlaster stop sb c = DosEnvPutBounded stop (blaster_text sb) c"
  unfolding DosEnvPutBlaster_def blaster_text_def put_digits Let_def put_optional
  unfolding put_bounded_append by simp

lemma length_bytes_of [simp]: "length (bytes_of s) = length s"
  by (simp add: bytes_of_def)

lemma length_three_hex [simp]: "length (three_hex v) = 3"
  by (simp add: three_hex_def)

subsection \<open>The extra lines\<close>

function extra_lines :: "u8 list \<Rightarrow> u8 list list" where
  \<comment> \<open>the text cut at line ends and semicolons; what stands before a separator may be empty\<close>
  "extra_lines str =
     (if str = [] then []
      else takeWhile (\<lambda>c. \<not> ends_line c) str #
           extra_lines (dropWhile ends_line (dropWhile (\<lambda>c. \<not> ends_line c) str)))"
  by pat_completeness auto
termination
proof (relation "measure length", goal_cases)
  case (2 str)
  then obtain a rest where r: "str = a # rest" by (cases str) auto
  have "length (dropWhile ends_line (dropWhile (\<lambda>c. \<not> ends_line c) str)) \<le> length rest"
    using length_dropWhile_le [of ends_line] length_dropWhile_le [of "\<lambda>c. \<not> ends_line c" rest] le_trans
    unfolding r by (cases "ends_line a") (simp, fastforce)
  then show ?case unfolding r by simp
qed simp

declare extra_lines.simps [simp del]

primrec kept_lines :: "nat \<Rightarrow> u8 list list \<Rightarrow> u8 list list" where
  \<comment> \<open>the variables among the lines that fit, in order, each whole with its zero\<close>
  "kept_lines used [] = []"
| "kept_lines used (line # rest) =
     (if line \<noteq> [] \<and> hd line \<noteq> 0x23 \<and> used + length line + 1 \<le> 248
      then line # kept_lines (used + length line + 1) rest else kept_lines used rest)"

abbreviation zero_ended :: "u8 list list \<Rightarrow> u8 list" where
  "zero_ended ss \<equiv> concat (map (\<lambda>s. s @ [0]) ss)"

lemma put_extra_wrote:
  "put_extra (a + 248) str (wrote a m bs) = wrote a m (bs @ zero_ended (kept_lines (length bs) (extra_lines str)))"
proof (induction str arbitrary: bs rule: extra_lines.induct)
  case (1 str)
  show ?case
  proof (cases "str = []")
    case False
    let ?line = "takeWhile (\<lambda>c. \<not> ends_line c) str"
    let ?rest = "dropWhile ends_line (dropWhile (\<lambda>c. \<not> ends_line c) str)"
    have "put_line (a + 248) ?line (wrote a m bs) =
        wrote a m (bs @ (if ?line \<noteq> [] \<and> hd ?line \<noteq> 0x23 \<and> length bs + length ?line + 1 \<le> 248 then ?line @ [0] else []))"
      by (simp add: put_line_def del: takeWhile_eq_Nil_iff) (simp add: wrote_def)
    with 1 [OF False] show ?thesis
      unfolding put_extra.simps [of _ str] extra_lines.simps [of str] using False by auto
  qed (simp add: put_extra.simps extra_lines.simps)
qed

subsection \<open>The block as one list\<close>

definition clipped :: "u8 list \<Rightarrow> u8 list \<Rightarrow> u8 list" where
  \<comment> \<open>a variable appended within the room for variables, then its zero\<close>
  "clipped bs str = bs @ take (248 - length bs) str @ [0]"

definition fixed_variables :: "u8 list option \<Rightarrow> dos_sb_config option \<Rightarrow> u8 list" where
  "fixed_variables pathVariable sb =
     clipped (clipped (clipped (clipped [] DOS_ENV_COMSPEC) (bytes_of ''PATH='' @ given pathVariable DOS_ENV_DEFAULT_PATH))
       (bytes_of ''PROMPT=$p$g'')) (blaster_text sb)"

definition extra_variables :: "nat \<Rightarrow> u8 list option \<Rightarrow> u8 list list" where
  "extra_variables used extra = (case extra of None \<Rightarrow> [] | Some str \<Rightarrow> kept_lines used (extra_lines str))"

definition env_block :: "u8 list option \<Rightarrow> u8 list option \<Rightarrow> dos_sb_config option \<Rightarrow> u8 list option \<Rightarrow> u8 list" where
  "env_block programPath pathVariable sb extra =
     (let fixed = fixed_variables pathVariable sb;
          variables = fixed @ zero_ended (extra_variables (length fixed) extra) @ [0, 1, 0]
      in variables @ take (255 - length variables) (given programPath DOS_ENV_DEFAULT_PROGRAM) @ [0])"

lemma env_builds_block:
  "DosEnvBuildWithCard base m seg programPath pathVariable sb extra =
     (laid (DosMcbSegmentAddress base seg) (env_block programPath pathVariable sb extra) m,
      of_nat (length (env_block programPath pathVariable sb extra)))"
proof -
  let ?a = "DosMcbSegmentAddress base seg"
  have stops: "?a + 0x100 - 8 = ?a + 248" "?a + 0x100 - 1 = ?a + 255" by simp_all
  have clip: "put_byte 0 (DosEnvPutBounded (?a + 248) str (wrote ?a m bs)) = wrote ?a m (clipped bs str)" for str bs
    by (simp add: clipped_def)
  have extras: "(case extra of None \<Rightarrow> wrote ?a m bs | Some str \<Rightarrow> put_extra (?a + 248) str (wrote ?a m bs)) =
      wrote ?a m (bs @ zero_ended (extra_variables (length bs) extra))" for bs
    by (cases extra) (simp_all add: extra_variables_def put_extra_wrote)
  show ?thesis
    unfolding DosEnvBuildWithCard_def Let_def stops wrote_Nil [of ?a m, symmetric] put_bounded_append put_blaster clip
      fixed_variables_def [symmetric] extras
    by (simp add: env_block_def Let_def) (simp add: wrote_def)
qed

lemma clipped_length: "length bs \<le> 248 + n \<Longrightarrow> length (clipped bs str) \<le> 248 + Suc n"
  by (simp add: clipped_def)

lemma fixed_length: "length (fixed_variables pathVariable sb) \<le> 251"
proof -
  have 1: "length (clipped [] DOS_ENV_COMSPEC) \<le> 248 + 0" by (simp add: clipped_def DOS_ENV_COMSPEC_def)
  have "length (fixed_variables pathVariable sb) \<le> 248 + Suc (Suc (Suc 0))"
    unfolding fixed_variables_def by (intro clipped_length 1)
  then show ?thesis by simp
qed

lemma kept_length: "used \<le> 251 \<Longrightarrow> used + length (zero_ended (kept_lines used lines)) \<le> 251"
proof (induction lines arbitrary: used)
  case (Cons line lines)
  from Cons.IH [of "used + length line + 1"] Cons.IH [OF Cons.prems] show ?case by auto
qed simp

lemma variables_length:
  "length (fixed_variables pathVariable sb) +
     length (zero_ended (extra_variables (length (fixed_variables pathVariable sb)) extra)) \<le> 251"
  using fixed_length [of pathVariable sb] kept_length [OF fixed_length [of pathVariable sb]]
  by (cases extra) (simp_all add: extra_variables_def)

lemma env_block_length: "length (env_block programPath pathVariable sb extra) \<le> 256"
  using variables_length [of pathVariable sb extra] unfolding env_block_def Let_def length_append by simp

text \<open>
  C21. The environment block stays in its paragraphs. Whatever the path, the sound card, the extra
  lines and the program's name, \<^verbatim>\<open>DosEnvBuildWithCard\<close> writes at most the 256 bytes of the block, answers
  how many it wrote, changes nothing else in memory, and ends the block with a zero.
\<close>

theorem env_build_bounded:
  "let a = DosMcbSegmentAddress base seg;
       (m', n) = DosEnvBuildWithCard base m seg programPath pathVariable sb extra
   in 0 < unat n \<and> unat n \<le> 256 \<and> m' (a + unat n - 1) = 0 \<and> (\<forall>x. x < a \<or> a + unat n \<le> x \<longrightarrow> m' x = m x)"
proof -
  let ?b = "env_block programPath pathVariable sb extra"
  have n: "unat (of_nat (length ?b) :: u32) = length ?b"
    using env_block_length [of programPath pathVariable sb extra] by (intro unat_of_nat_small) simp
  have last: "\<exists>xs. ?b = xs @ [0]" by (simp add: env_block_def Let_def)
  show ?thesis unfolding env_builds_block Let_def case_prod_conv n
    using env_block_length [of programPath pathVariable sb extra] last
    by (auto simp: laid_def nth_append)
qed
lemma env_build_bounded_witness:
  "fst (DosEnvBuildWithCard 0 (\<lambda>_. 0x5A) 0x7F None None None None) 0x8F0 = 0x5A"
  using env_build_bounded [of 0 "0x7F" "\<lambda>_. 0x5A" None None None None]
  by (simp add: DosMcbSegmentAddress_def Let_def split: prod.splits)

subsection \<open>What the guest reads\<close>

definition string_at :: "mem \<Rightarrow> nat \<Rightarrow> u8 list \<Rightarrow> bool" where
  "string_at m a s \<longleftrightarrow> (\<forall>i<length s. m (a + i) = s ! i) \<and> m (a + length s) = 0 \<and> 0 \<notin> set s"

primrec strings_at :: "mem \<Rightarrow> nat \<Rightarrow> u8 list list \<Rightarrow> nat \<Rightarrow> bool" where
  \<comment> \<open>strings up to an empty one; what follows it starts at \<open>rest\<close>\<close>
  "strings_at m a [] rest \<longleftrightarrow> m a = 0 \<and> rest = a + 1"
| "strings_at m a (s # ss) rest \<longleftrightarrow> s \<noteq> [] \<and> string_at m a s \<and> strings_at m (a + length s + 1) ss rest"

definition environment_at :: "mem \<Rightarrow> nat \<Rightarrow> u8 list list \<Rightarrow> u8 list \<Rightarrow> bool" where
  "environment_at m a variables program \<longleftrightarrow>
     (\<exists>rest. strings_at m a variables rest \<and> DosMcbReadWord m rest = 1 \<and> string_at m (rest + 2) program)"

lemma string_at_unique:
  assumes "string_at m a s" "string_at m a t"
  shows "s = t"
proof -
  have shorter: "length s \<ge> length t" if "string_at m a s" "string_at m a t" for s t
  proof (rule ccontr)
    assume "\<not> length s \<ge> length t"
    then have "t ! length s = 0" using that by (auto simp: string_at_def)
    moreover have "t ! length s \<in> set t" using \<open>\<not> length s \<ge> length t\<close> by (auto intro: nth_mem)
    ultimately show False using that(2) by (simp add: string_at_def)
  qed
  from shorter [OF assms] shorter [OF assms(2,1)] have "length s = length t" by simp
  with assms show ?thesis by (auto simp: string_at_def intro: nth_equalityI)
qed

lemma strings_at_unique: "strings_at m a ss r \<Longrightarrow> strings_at m a ts q \<Longrightarrow> ss = ts \<and> r = q"
proof (induction ss arbitrary: a ts)
  case Nil
  then show ?case by (cases ts) (auto simp: string_at_def, (metis length_greater_0_conv nth_mem add_0_right)+)
next
  case (Cons s ss)
  then obtain t us where t: "ts = t # us"
    by (cases ts) (auto simp: string_at_def, (metis length_greater_0_conv nth_mem add_0_right)+)
  with Cons.prems string_at_unique [of m a s t] Cons.IH [of "a + length s + 1" us] show ?case by simp
qed

lemma laid_nth: "i < length bs \<Longrightarrow> laid a bs m (a + i) = bs ! i"
  by (simp add: laid_def)

lemma string_at_laid:
  "0 \<notin> set s \<Longrightarrow> string_at (laid a (xs @ s @ 0 # ys) m) (a + length xs) s"
  using laid_nth [of "length xs + _" "xs @ s @ 0 # ys" a m]
  by (auto simp: string_at_def add.assoc nth_append)

lemma strings_at_laid:
  "\<forall>s\<in>set ss. s \<noteq> [] \<and> 0 \<notin> set s \<Longrightarrow>
   strings_at (laid a (xs @ zero_ended ss @ 0 # ys) m) (a + length xs) ss (a + length xs + length (zero_ended ss) + 1)"
proof (induction ss arbitrary: xs)
  case Nil
  show ?case using laid_nth [of "length xs" "xs @ 0 # ys" a m] by simp
next
  case (Cons s ss)
  from Cons.IH [of "xs @ s @ [0]"] string_at_laid [of s a xs "zero_ended ss @ 0 # ys" m] Cons.prems
  show ?case by (simp add: add.assoc)
qed

lemma laid_word:
  "DosMcbReadWord (laid a (xs @ [v, w] @ ys) m) (a + length xs) = ucast v OR push_bit 8 (ucast w)"
  using laid_nth [of "length xs" "xs @ [v, w] @ ys" a m] laid_nth [of "length xs + 1" "xs @ [v, w] @ ys" a m]
  by (simp add: DosMcbReadWord_def nth_append add.assoc)

lemma environment_laid:
  assumes "\<forall>s\<in>set variables. s \<noteq> [] \<and> 0 \<notin> set s" "0 \<notin> set program"
  shows "environment_at (laid a (zero_ended variables @ [0, 1, 0] @ program @ [0]) m) a variables program"
proof -
  let ?b = "zero_ended variables @ [0, 1, 0] @ program @ [0]" and ?r = "a + length (zero_ended variables) + 1"
  have "strings_at (laid a ?b m) a variables ?r"
    using strings_at_laid [OF assms(1), of a "[]" "[1, 0] @ program @ [0]" m] by simp
  moreover have "DosMcbReadWord (laid a ?b m) ?r = 1"
    using laid_word [of a "zero_ended variables @ [0]" 1 0 "program @ [0]" m] by (simp add: add.assoc)
  moreover have "string_at (laid a ?b m) (?r + 2) program"
    using string_at_laid [OF assms(2), of a "zero_ended variables @ [0, 1, 0]" "[]" m] by (simp add: add.assoc)
  ultimately show ?thesis unfolding environment_at_def by blast
qed

subsection \<open>What fits is read back\<close>

lemma clipped_fits: "length bs + length str \<le> 248 \<Longrightarrow> clipped bs str = bs @ str @ [0]"
  by (simp add: clipped_def)

lemma fixed_fits:
  assumes "length path + length (blaster_text sb) \<le> 207" "path \<noteq> []"
  shows "fixed_variables (Some path) sb =
    zero_ended [DOS_ENV_COMSPEC, bytes_of ''PATH='' @ path, bytes_of ''PROMPT=$p$g'', blaster_text sb]"
proof -
  have "given (Some path) DOS_ENV_DEFAULT_PATH = path" using assms(2) by (cases path) (simp_all add: given_def)
  then show ?thesis using assms(1) by (simp add: fixed_variables_def clipped_fits DOS_ENV_COMSPEC_def)
qed

lemma zero_free_texts [simp]:
  "0 \<notin> set (bytes_of ''PATH='')" "0 \<notin> set (bytes_of ''PROMPT=$p$g'')" "0 \<notin> set DOS_ENV_COMSPEC"
  by (simp_all add: bytes_of_def DOS_ENV_COMSPEC_def of_char_Char)

lemma hex_digits_zero_free: "i < 16 \<Longrightarrow> hex_digits ! i \<noteq> 0"
proof -
  have "0 \<notin> set hex_digits" by (simp add: hex_digits_def bytes_of_def of_char_Char)
  moreover have "length hex_digits = 16" by (simp add: hex_digits_def)
  ultimately show "i < 16 \<Longrightarrow> hex_digits ! i \<noteq> 0" by (metis nth_mem)
qed

lemma nibble_small: "unat ((v :: u32) AND 0xF) < 16"
proof -
  have "v AND 0xF = take_bit 4 v" by (simp add: take_bit_eq_mask mask_eq_exp_minus_1)
  then show ?thesis by (simp only: unsigned_take_bit_eq) (simp add: take_bit_eq_mod)
qed

lemma three_hex_zero_free: "0 \<notin> set (three_hex v)"
  using hex_digits_zero_free [OF nibble_small] by (auto simp: three_hex_def)

lemma digit_nonzero: "(0x30 :: u8) + ucast ((v :: u32) mod 10) \<noteq> 0"
proof
  assume zero: "(0x30 :: u8) + ucast (v mod 10) = 0"
  have small: "unat (v mod 10) < 10" by (simp add: unat_mod)
  then have "unat (ucast (v mod 10) :: u8) = unat (v mod 10)"
    by (simp add: unsigned_ucast_eq take_bit_eq_mod)
  then have "unat ((0x30 :: u8) + ucast (v mod 10)) = 0x30 + unat (v mod 10)"
    using small by (subst unat_add_lem [THEN iffD1]) simp_all
  with zero show False by simp
qed

lemma decimal_digits_zero_free: "0 \<notin> set (decimal_digits n v)"
  by (induction n arbitrary: v) (auto simp: digit_nonzero dest: sym)

lemma decimal_zero_free: "0 \<notin> set (decimal v)"
  by (simp add: decimal_def decimal_digits_zero_free)

lemma blaster_zero_free: "0 \<notin> set (blaster_text sb)" and blaster_nonempty: "blaster_text sb \<noteq> []"
proof -
  have tags: "0 \<notin> set (bytes_of ''BLASTER=A'')" "0 \<notin> set (bytes_of '' I'')" "0 \<notin> set (bytes_of '' D'')"
    "0 \<notin> set (bytes_of '' H'')" "0 \<notin> set (bytes_of '' P'')" "0 \<notin> set (bytes_of '' E'')" "0 \<notin> set (bytes_of '' T'')"
    by (simp_all add: bytes_of_def of_char_Char)
  then show "0 \<notin> set (blaster_text sb)"
    by (simp add: blaster_text_def Let_def three_hex_zero_free decimal_zero_free)
  have "bytes_of ''BLASTER=A'' \<noteq> []" by (simp add: bytes_of_def)
  then show "blaster_text sb \<noteq> []" by (simp add: blaster_text_def Let_def)
qed

lemma kept_lines_in: "s \<in> set (kept_lines used lines) \<Longrightarrow> s \<in> set lines \<and> s \<noteq> []"
  by (induction lines arbitrary: used) (auto split: if_splits)

lemma extra_lines_in: "s \<in> set (extra_lines str) \<Longrightarrow> set s \<subseteq> set str"
proof (induction str rule: extra_lines.induct)
  case (1 str)
  show ?case
  proof (cases "str = []")
    case False
    let ?rest = "dropWhile ends_line (dropWhile (\<lambda>c. \<not> ends_line c) str)"
    have rest: "set ?rest \<subseteq> set str" by (meson set_dropWhileD subsetI)
    from "1.prems" False have "s = takeWhile (\<lambda>c. \<not> ends_line c) str \<or> s \<in> set (extra_lines ?rest)"
      by (simp add: extra_lines.simps [of str])
    then show ?thesis using "1.IH" [OF False] rest by (auto dest: set_takeWhileD)
  qed (use "1.prems" in \<open>simp add: extra_lines.simps\<close>)
qed

lemma kept_room: "used + length (zero_ended (kept_lines used lines)) \<le> max used 248"
proof (induction lines arbitrary: used)
  case (Cons line lines)
  from Cons.IH [of "used + length line + 1"] Cons.IH [of used] show ?case by (auto simp: max_def split: if_splits)
qed simp

text \<open>
  C20. The guest reads back what the host put in, as far as it fits. When the path and the sound card's variable leave room
  for the fixed variables (together at most 207 bytes), a guest that walks the block finds exactly \<^verbatim>\<open>COMSPEC\<close>, \<^verbatim>\<open>PATH\<close>,
  \<^verbatim>\<open>PROMPT\<close> and \<^verbatim>\<open>BLASTER\<close> with their values, then the extra lines that fit in 248 bytes, whole and in order, comments left
  out; after the empty string a count of one; and then the program's path, whole when the variables, the empty string, the count and the
  path take at most 255 bytes. When they take more, the guest reads only as much of the path as there is
  room for, which is at least its first three bytes: the extra lines take their room first, and what the block
  keeps back for its tail does not hold a path.
\<close>

theorem env_round_trip:
  fixes path extra program :: "u8 list" and sb :: "dos_sb_config option"
  defines "fixed \<equiv> [DOS_ENV_COMSPEC, bytes_of ''PATH='' @ path, bytes_of ''PROMPT=$p$g'', blaster_text sb]"
  defines "variables \<equiv> fixed @ kept_lines (length (zero_ended fixed)) (extra_lines extra)"
  defines "room \<equiv> 255 - (length (zero_ended variables) + 3)"
  assumes "path \<noteq> []" and "program \<noteq> []" and "0 \<notin> set path \<union> set extra \<union> set program"
    and "length path + length (blaster_text sb) \<le> 207"
  shows "environment_at (fst (DosEnvBuildWithCard base m seg (Some program) (Some path) sb (Some extra)))
      (DosMcbSegmentAddress base seg) variables (take room program) \<and>
    3 \<le> room \<and> (length (zero_ended variables) + 3 + length program \<le> 255 \<longrightarrow> take room program = program)"
proof -
  have fixed: "fixed_variables (Some path) sb = zero_ended fixed"
    unfolding fixed_def by (rule fixed_fits [OF assms(7,4)])
  have program: "given (Some program) DOS_ENV_DEFAULT_PROGRAM = program"
    using assms(5) by (cases program) (simp_all add: given_def)
  have "length (zero_ended fixed) \<le> 249" using assms(7) by (simp add: fixed_def DOS_ENV_COMSPEC_def)
  then have "length (zero_ended variables) \<le> 249"
    using kept_room [of "length (zero_ended fixed)" "extra_lines extra"] by (simp add: variables_def)
  then have room: "3 \<le> room" "length (zero_ended variables) + 3 + length program \<le> 255 \<Longrightarrow> take room program = program"
    by (simp_all add: room_def)
  have "env_block (Some program) (Some path) sb (Some extra) = zero_ended variables @ [0, 1, 0] @ take room program @ [0]"
    unfolding env_block_def Let_def fixed program extra_variables_def option.case by (simp add: variables_def room_def)
  moreover have good: "s \<noteq> [] \<and> 0 \<notin> set s" if "s \<in> set variables" for s
  proof (cases "s \<in> set fixed")
    case True
    then show ?thesis using assms(6) blaster_zero_free [of sb] blaster_nonempty [of sb]
      by (auto simp: fixed_def bytes_of_def DOS_ENV_COMSPEC_def of_char_Char)
  next
    case False
    with that kept_lines_in [of s] extra_lines_in [of s extra] assms(6) show ?thesis
      unfolding variables_def by fastforce
  qed
  moreover from good have "\<forall>s\<in>set variables. s \<noteq> [] \<and> 0 \<notin> set s" by blast
  from environment_laid [OF this, of "take room program"] assms(6)
  have "environment_at (laid a (zero_ended variables @ [0, 1, 0] @ take room program @ [0]) m) a variables (take room program)" for a
    by (auto dest: in_set_takeD)
  ultimately have "environment_at (fst (DosEnvBuildWithCard base m seg (Some program) (Some path) sb (Some extra)))
      (DosMcbSegmentAddress base seg) variables (take room program)"
    by (simp only: env_builds_block fst_conv)
  with room show ?thesis by blast
qed

lemma env_round_trip_witness:
  "environment_at (fst (DosEnvBuildWithCard 0 (\<lambda>_. 0xFF) 0x7F (Some [0x50]) (Some [0x44]) None (Some [0x58, 0x3D, 0x31])))
    (DosMcbSegmentAddress 0 0x7F)
    [DOS_ENV_COMSPEC, bytes_of ''PATH=D'', bytes_of ''PROMPT=$p$g'', bytes_of ''BLASTER=A220 I5 D1 T3'', [0x58, 0x3D, 0x31]] [0x50]"
proof -
  have digits: "decimal 5 = [0x35]" "decimal 1 = [0x31]" "decimal 3 = [0x33]" "three_hex 0x220 = [0x32, 0x32, 0x30]"
    by code_simp+
  have blaster: "blaster_text None = bytes_of ''BLASTER=A220 I5 D1 T3''"
    by (simp add: blaster_text_def default_card_def Let_def digits) (simp add: bytes_of_def of_char_Char)
  have lines: "extra_lines [0x58, 0x3D, 0x31] = [[0x58, 0x3D, 0x31]]"
    by (simp add: extra_lines.simps [of "_ # _"] extra_lines.simps [of "[]"] ends_line_def)
  have path: "bytes_of ''PATH='' @ [0x44] = bytes_of ''PATH=D''" by (simp add: bytes_of_def of_char_Char)
  show ?thesis
    using env_round_trip [of "[0x44]" "[0x50]" "[0x58, 0x3D, 0x31]" None 0 "\<lambda>_. 0xFF" "0x7F"]
    by (simp add: blaster lines path) (simp add: DOS_ENV_COMSPEC_def)
qed

text \<open>
  C22. A path of 220 bytes or more takes the room of every variable behind it. The zeros of the empty
  \<^verbatim>\<open>PROMPT\<close> and \<^verbatim>\<open>BLASTER\<close> then end the list early, and where the count word belongs the guest reads
  zero: the program's path, which the room kept for the tail was to protect, is lost to it.
\<close>

theorem env_long_path_loses_tail:
  assumes "220 \<le> length path" and "0 \<notin> set path"
  shows "\<exists>rest. strings_at (fst (DosEnvBuildWithCard base m seg program (Some path) sb extra))
      (DosMcbSegmentAddress base seg) [DOS_ENV_COMSPEC, bytes_of ''PATH='' @ take 220 path] rest \<and>
    DosMcbReadWord (fst (DosEnvBuildWithCard base m seg program (Some path) sb extra)) rest = 0"
proof -
  let ?a = "DosMcbSegmentAddress base seg" and ?vs = "[DOS_ENV_COMSPEC, bytes_of ''PATH='' @ take 220 path]"
  obtain c cs where path: "path = c # cs" using assms(1) by (cases path) auto
  have given: "given (Some path) DOS_ENV_DEFAULT_PATH = path" by (simp add: path given_def)
  have lens: "length DOS_ENV_COMSPEC = 22" "length (zero_ended ?vs) = 249"
    using assms(1) by (simp_all add: DOS_ENV_COMSPEC_def)
  have fixed: "fixed_variables (Some path) sb = zero_ended ?vs @ [0, 0]"
    unfolding fixed_variables_def given using assms(1) by (simp add: clipped_def lens(1))
  have "kept_lines used lines = []" if "248 \<le> used" for used lines
    using that by (induction lines) auto
  then have "extra_variables (length (zero_ended ?vs @ [0, 0])) extra = []"
    using lens(2) by (cases extra) (simp_all add: extra_variables_def)
  then obtain more where block: "env_block program (Some path) sb extra = zero_ended ?vs @ 0 # [0, 0] @ more"
    by (simp add: env_block_def fixed Let_def)
  have good: "\<forall>s\<in>set ?vs. s \<noteq> [] \<and> 0 \<notin> set s"
    using assms(2) by (auto simp: bytes_of_def of_char_Char DOS_ENV_COMSPEC_def dest: in_set_takeD)
  have "strings_at (laid ?a (zero_ended ?vs @ 0 # [0, 0] @ more) m) ?a ?vs (?a + length (zero_ended ?vs) + 1)"
    using strings_at_laid [OF good, of ?a "[]" "[0, 0] @ more" m] by simp
  moreover have "DosMcbReadWord (laid ?a (zero_ended ?vs @ 0 # [0, 0] @ more) m) (?a + length (zero_ended ?vs) + 1) = 0"
    using laid_word [of ?a "zero_ended ?vs @ [0]" 0 0 more m] by (simp add: add.assoc)
  ultimately show ?thesis unfolding env_builds_block block fst_conv by blast
qed

lemma env_long_path_loses_tail_witness:
  "\<exists>rest. DosMcbReadWord (fst (DosEnvBuildWithCard 0 (\<lambda>_. 0) 0x7F None (Some (replicate 220 0x41)) None None)) rest = 0"
  using env_long_path_loses_tail [of "replicate 220 0x41" 0 "\<lambda>_. 0" "0x7F" None None None] by auto

end
