(* ===== verification/Exec_Contract.thy ===== *)
theory Exec_Contract
  imports Dos_Exec Env_Contract
begin

text \<open>
  What EXEC does to the arena. A chain depends on the first five bytes of its headers only
  (\<open>chain_cong\<close>), so a write into a block's data, into a header's name, or of a header's owner has its
  effect on the list of blocks at once; \<open>kept\<close> says that no byte of a set of blocks, nor any outside the
  arena, has changed.
\<close>

subsection \<open>The headers of a chain\<close>

primrec headers :: "nat \<Rightarrow> block list \<Rightarrow> nat set" where
  "headers s [] = {}"
| "headers s (b # bs) = insert s (headers (s + 1 + snd b) bs)"

lemma headers_bounds: "t \<in> headers s bs \<Longrightarrow> s \<le> t \<and> t < s + span bs"
  by (induction bs arbitrary: s) fastforce+

lemma chain_cong:
  "mcb_chain base m s bs top_seg \<Longrightarrow>
   (\<And>t k. t \<in> headers s bs \<Longrightarrow> k < 5 \<Longrightarrow> m' (base + 16 * t + k) = m (base + 16 * t + k)) \<Longrightarrow>
   mcb_chain base m' s bs top_seg"
proof (induction bs arbitrary: s)
  case (Cons b bs)
  have same: "m' (base + 16 * s + k) = m (base + 16 * s + k)" if "k < 5" for k using Cons.prems(2) [of s] that by simp
  have "mcb_at base m' s sig owner n = mcb_at base m s sig owner n" for sig owner n
    using same [of 0] same [of 1] same [of 2] same [of 3] same [of 4]
    by (simp add: mcb_at_def DosMcbReadWord_def add.commute [of 4])
  moreover have "mcb_chain base m' (s + 1 + snd b) bs top_seg" if "mcb_chain base m (s + 1 + snd b) bs top_seg"
    by (rule Cons.IH [OF that]) (use Cons.prems(2) in simp)
  ultimately show ?case using Cons.prems(1) by auto
qed simp

lemma data_apart:
  "(seg, w, n) \<in> owned s bs \<Longrightarrow> t \<in> headers s bs \<Longrightarrow> t < seg \<or> seg + n \<le> t"
proof (induction bs arbitrary: s)
  case (Cons b bs)
  let ?r = "s + 1 + snd b"
  from Cons.prems(2) consider "t = s" | "t \<in> headers ?r bs" by auto
  then show ?case
  proof cases
    case 1
    with owned_bounds [OF Cons.prems(1)] show ?thesis by simp
  next
    case 2
    from Cons.prems(1) have "(seg = s + 1 \<and> n = snd b) \<or> (seg, w, n) \<in> owned ?r bs" by (auto split: if_splits)
    then show ?thesis using Cons.IH [OF _ 2] headers_bounds [OF 2] by auto
  qed
qed simp

lemma data_write_keeps_chain:
  assumes ch: "mcb_chain base m s bs top_seg" and own: "(seg, w, n) \<in> owned s bs"
    and within: "changes_within (base + 16 * seg) (16 * n) m m'"
  shows "mcb_chain base m' s bs top_seg"
proof (rule chain_cong [OF ch])
  fix t k assume t: "t \<in> headers s bs" and k: "(k :: nat) < 5"
  have "base + 16 * t + k < base + 16 * seg \<or> base + 16 * seg + 16 * n \<le> base + 16 * t + k"
    using data_apart [OF own t] k by auto
  then show "m' (base + 16 * t + k) = m (base + 16 * t + k)"
    using within by (auto simp: changes_within_def)
qed

lemma name_write_keeps_chain:
  assumes ch: "mcb_chain base m s bs top_seg" and "1 \<le> seg"
    and within: "changes_within (base + 16 * (seg - 1) + 8) 8 m m'"
  shows "mcb_chain base m' s bs top_seg"
proof (rule chain_cong [OF ch])
  fix t k assume k: "(k :: nat) < 5"
  have "base + 16 * t + k < base + 16 * (seg - 1) + 8 \<or> base + 16 * (seg - 1) + 8 + 8 \<le> base + 16 * t + k"
    using k by (cases "t \<le> seg - 1") auto
  then show "m' (base + 16 * t + k) = m (base + 16 * t + k)"
    using within by (auto simp: changes_within_def)
qed

subsection \<open>The owner of a block\<close>

lemma set_owner_chain:
  assumes ch: "mcb_chain base m s (xs @ (w, n) # ys) top_seg"
  shows "mcb_chain base (DosMcbWriteWord m (base + 16 * (s + span xs) + 1) w') s (xs @ (w', n) # ys) top_seg"
proof -
  let ?h = "s + span xs" and ?m = "DosMcbWriteWord m (base + 16 * (s + span xs) + 1) w'"
  have o: "only_paras base {?h} m ?m" by (rule only_paras_word) auto
  have mid: "mcb_chain base m ?h ((w, n) # ys) top_seg" and members: "mcb_members base m s xs"
    using ch unfolding chain_split by blast+
  have "mcb_chain base ?m (?h + 1 + n) ys top_seg = mcb_chain base m (?h + 1 + n) ys top_seg"
    by (rule mcb_chain_elsewhere [OF o]) simp
  moreover have "mcb_at base ?m ?h (sig_before ys) w' n"
    by (rule mcb_at_set_owner [of _ _ _ _ w]) (use mid in simp)
  moreover have "mcb_members base ?m s xs = mcb_members base m s xs"
    by (rule mcb_members_elsewhere [OF o]) simp
  ultimately show ?thesis using mid members unfolding chain_split by auto
qed

lemma owned_one: "(seg, w, n) \<in> owned s bs \<Longrightarrow> (seg, w', n') \<in> owned s bs \<Longrightarrow> w' = w \<and> n' = n"
  using owned_disjoint [of "(seg, w, n)" s bs "(seg, w', n')"] by force

lemma set_owner:
  assumes "mcb_chain base m s bs top_seg" "(seg, w, n) \<in> owned s bs" "w' \<noteq> DOS_MCB_OWNER_FREE"
  shows "\<exists>bs'. mcb_chain base (DosMcbWriteWord m (base + 16 * (seg - 1) + 1) w') s bs' top_seg \<and>
    owned s bs' = insert (seg, w', n) (owned s bs - {(seg, w, n)})"
proof -
  obtain xs ys where xs: "bs = xs @ (w, n) # ys" "seg = s + span xs + 1" "w \<noteq> DOS_MCB_OWNER_FREE"
    using owned_split [OF assms(2)] by blast
  have "owned s (xs @ (w', n) # ys) = insert (seg, w', n) (owned s bs - {(seg, w, n)})"
    unfolding xs(1,2) owned_without [OF xs(3)] using assms(3) by auto
  with set_owner_chain [OF assms(1) [unfolded xs(1)], of w'] show ?thesis unfolding xs(2) by auto
qed

subsection \<open>What stays\<close>

definition kept :: "nat \<Rightarrow> nat \<Rightarrow> nat \<Rightarrow> (nat \<times> u16 \<times> nat) set \<Rightarrow> mem \<Rightarrow> mem \<Rightarrow> bool" where
  "kept base s top_seg held m m' \<longleftrightarrow>
     (\<forall>(seg, w, n)\<in>held. \<forall>x. base + 16 * seg \<le> x \<and> x < base + 16 * (seg + n) \<longrightarrow> m' x = m x) \<and>
     (\<forall>x. x < base + 16 * s \<or> base + 16 * top_seg \<le> x \<longrightarrow> m' x = m x)"

lemma kept_refl [simp, intro]: "kept base s top_seg held m m"
  by (auto simp: kept_def)

lemma kept_trans: "kept base s top_seg held m m' \<Longrightarrow> kept base s top_seg held m' m'' \<Longrightarrow> kept base s top_seg held m m''"
  unfolding kept_def by fastforce

lemma kept_subset: "kept base s top_seg held m m' \<Longrightarrow> held' \<subseteq> held \<Longrightarrow> kept base s top_seg held' m m'"
  unfolding kept_def by blast

lemma kept_alloc:
  assumes ch: "mcb_chain base m s bs top_seg" and o: "only_paras base (free_paras s bs) m m'"
  shows "kept base s top_seg (owned s bs) m m'"
  unfolding kept_def
proof (intro conjI ballI allI impI, clarify)
  fix seg w n x assume own: "(seg, w, n) \<in> owned s bs" and x: "base + 16 * seg \<le> x" "x < base + 16 * (seg + n)"
  have "{seg..<seg + n} \<subseteq> {seg - 1..<seg + n}" by auto
  with owned_free_disjoint [OF own] have "{seg..<seg + n} \<inter> free_paras s bs = {}" by blast
  from only_paras_bytes [OF o this x] show "m' x = m x" .
next
  fix x assume x: "x < base + 16 * s \<or> base + 16 * top_seg \<le> x"
  have "x < base + 16 * t \<or> base + 16 * t + 16 \<le> x" if "t \<in> free_paras s bs" for t
    using free_paras_bounds [of s bs] mcb_chain_top [OF ch] that x by fastforce
  then show "m' x = m x" using o by (auto simp: only_paras_def)
qed

lemma kept_within:
  assumes "\<And>seg w n. (seg, w, n) \<in> held \<Longrightarrow> a + len \<le> base + 16 * seg \<or> base + 16 * (seg + n) \<le> a"
    and "base + 16 * s \<le> a" "a + len \<le> base + 16 * top_seg" and "changes_within a len m m'"
  shows "kept base s top_seg held m m'"
  unfolding kept_def
proof (intro conjI ballI allI impI, clarify)
  fix seg w n x assume "(seg, w, n) \<in> held" and x: "base + 16 * seg \<le> x" "x < base + 16 * (seg + n)"
  from assms(1) [OF this(1)] x have "x < a \<or> a + len \<le> x" by linarith
  then show "m' x = m x" using assms(4) by (auto simp: changes_within_def)
next
  fix x assume "x < base + 16 * s \<or> base + 16 * top_seg \<le> x"
  then have "x < a \<or> a + len \<le> x" using assms(2,3) by linarith
  then show "m' x = m x" using assms(4) by (auto simp: changes_within_def)
qed

lemma header_apart:
  assumes "(seg, w, n) \<in> owned s bs" "(seg', w', n') \<in> owned s bs"
  shows "base + 16 * (seg - 1) + 16 \<le> base + 16 * seg' \<or> base + 16 * (seg' + n') \<le> base + 16 * (seg - 1)"
proof -
  have "seg \<le> seg' \<or> seg' + n' < seg"
    using owned_disjoint [OF assms] owned_one [of seg w n s bs w' n'] assms by (cases "seg = seg'") force+
  moreover have "1 \<le> seg" using owned_bounds [OF assms(1)] by simp
  ultimately show ?thesis by auto
qed

lemma write_block:
  assumes ch: "mcb_chain base m s bs top_seg" and own: "(seg, w, n) \<in> owned s bs"
    and within: "changes_within (base + 16 * seg) (16 * n) m m'"
  shows "mcb_chain base m' s bs top_seg" and "kept base s top_seg (owned s bs - {(seg, w, n)}) m m'"
proof -
  show "mcb_chain base m' s bs top_seg" by (rule data_write_keeps_chain [OF assms])
  have "base + 16 * seg + 16 * n \<le> base + 16 * seg' \<or> base + 16 * (seg' + n') \<le> base + 16 * seg"
    if "(seg', w', n') \<in> owned s bs - {(seg, w, n)}" for seg' w' n'
    using owned_disjoint [OF own, of "(seg', w', n')"] that by auto
  moreover have "s + 1 \<le> seg \<and> seg + n \<le> top_seg" using owned_bounds [OF own] mcb_chain_top [OF ch] by auto
  ultimately show "kept base s top_seg (owned s bs - {(seg, w, n)}) m m'"
    by (intro kept_within [OF _ _ _ within]) auto
qed

lemma write_header:
  assumes ch: "mcb_chain base m s bs top_seg" and own: "(seg, w, n) \<in> owned s bs"
    and within: "changes_within (base + 16 * (seg - 1)) 16 m m'"
  shows "kept base s top_seg (owned s bs) m m'"
proof -
  have "s + 1 \<le> seg \<and> seg \<le> top_seg" using owned_bounds [OF own] mcb_chain_top [OF ch] by auto
  then show ?thesis using header_apart [OF own] by (intro kept_within [OF _ _ _ within]) auto
qed

lemma write_owner:
  assumes ch: "mcb_chain base m s bs top_seg" and own: "(seg, w, n) \<in> owned s bs" and "w' \<noteq> DOS_MCB_OWNER_FREE"
  shows "\<exists>bs'. mcb_chain base (DosMcbWriteWord m (base + 16 * (seg - 1) + 1) w') s bs' top_seg \<and>
    owned s bs' = insert (seg, w', n) (owned s bs - {(seg, w, n)}) \<and>
    kept base s top_seg (owned s bs) m (DosMcbWriteWord m (base + 16 * (seg - 1) + 1) w')"
  using set_owner [OF assms] write_header [OF ch own changes_within_word [OF changes_within_refl]] by simp

lemma write_name:
  assumes ch: "mcb_chain base m s bs top_seg" and own: "(seg, w, n) \<in> owned s bs"
    and within: "changes_within (base + 16 * (seg - 1) + 8) 8 m m'"
  shows "mcb_chain base m' s bs top_seg" and "kept base s top_seg (owned s bs) m m'"
proof -
  have "1 \<le> seg" using owned_bounds [OF own] by simp
  from name_write_keeps_chain [OF ch this within] show "mcb_chain base m' s bs top_seg" .
  have "changes_within (base + 16 * (seg - 1)) 16 m m'" using within by (auto simp: changes_within_def)
  from write_header [OF ch own this] show "kept base s top_seg (owned s bs) m m'" .
qed

lemma owner_name_within:
  "changes_within (a + 8) 8 m (write_owner_name (a + 8) nm i m)"
proof -
  have "write_owner_name (a + 8) nm i m x = m x" if "x < a + 8 \<or> a + 16 \<le> x" for x
    using that
  proof (induction "a + 8" nm i m rule: write_owner_name.induct)
    case (1 nm i m)
    then show ?case by (subst write_owner_name.simps) (auto split: list.splits)
  qed
  then show ?thesis by (simp add: changes_within_def)
qed

subsection \<open>Allocation\<close>

lemma alloc_step:
  assumes ch: "mcb_chain base m (unat firstMcb) bs top_seg"
  shows "\<exists>m' r bs'. DosMcbAllocate base m firstMcb requested = Some (m', r) \<and>
    mcb_chain base m' (unat firstMcb) bs' top_seg \<and> kept base (unat firstMcb) top_seg (owned (unat firstMcb) bs) m m' \<and>
    (case r of
       Inl e \<Rightarrow> owned (unat firstMcb) bs' = owned (unat firstMcb) bs
     | Inr seg \<Rightarrow> owned (unat firstMcb) bs' = insert (unat seg, DOS_PSP_SEG, unat requested) (owned (unat firstMcb) bs) \<and>
         (\<forall>b\<in>owned (unat firstMcb) bs. fst b \<noteq> unat seg))"
proof -
  let ?s = "unat firstMcb"
  let ?r = "alloc_blocks (unat requested) 0 ?s bs"
  obtain m' where m': "DosMcbAllocate base m firstMcb requested = Some (m', alloc_result (snd ?r))"
    "mcb_chain base m' ?s (fst ?r) top_seg" "only_paras base (free_paras ?s bs) m m'"
    using alloc_refines [OF ch] by blast
  have kept: "kept base ?s top_seg (owned ?s bs) m m'" by (rule kept_alloc [OF ch m'(3)])
  have fresh: "fst b \<noteq> seg" if "snd ?r = Inr seg" "b \<in> owned ?s bs" for seg b
  proof
    assume "fst b = seg"
    then have "(seg, snd b) \<in> owned ?s bs" using that(2) by auto
    from owned_free_disjoint [of seg "fst (snd b)" "snd (snd b)"] this
    have "1 \<le> seg" "seg - 1 \<notin> free_paras ?s bs" by fastforce+
    moreover have "{seg - 1..<seg + unat requested} \<subseteq> free_paras ?s bs" using alloc_blocks_free_before [OF that(1)] by simp
    ultimately show False by fastforce
  qed
  show ?thesis
    using m' kept fresh alloc_blocks_owned [of ?s "unat requested" 0 bs] alloc_seg_fits [OF m'(2)]
    by (intro exI [of _ m'] exI [of _ "alloc_result (snd ?r)"] exI [of _ "fst ?r"]) (cases "snd ?r", auto)
qed

lemma free_step:
  assumes ch: "mcb_chain base m s bs top_seg" and own: "(seg, w, n) \<in> owned s bs"
  shows "\<exists>m' bs'. DosMcbFree base m (of_nat seg) = Some (m', None) \<and> mcb_chain base m' s bs' top_seg \<and>
    owned s bs' = owned s bs - {(seg, w, n)} \<and> kept base s top_seg (owned s bs) m m'"
proof -
  obtain xs ys where xs: "bs = xs @ (w, n) # ys" "seg = s + span xs + 1" "w \<noteq> DOS_MCB_OWNER_FREE"
    using owned_split [OF own] by blast
  obtain m' where m': "DosMcbFree base m (of_nat (s + span xs + 1)) = Some (m', None)"
    "mcb_chain base m' s (xs @ (DOS_MCB_OWNER_FREE, fst (absorb n ys)) # snd (absorb n ys)) top_seg"
    "only_paras base {s + span xs} m m'"
    using free_refines [OF ch [unfolded xs(1)]] by blast
  have "changes_within (base + 16 * (seg - 1)) 16 m m'"
    using m'(3) unfolding xs(2) changes_within_def only_paras_def by (simp add: add.assoc) 
  from write_header [OF ch own this] have "kept base s top_seg (owned s bs) m m'" .
  moreover have "owned s bs - {(seg, w, n)} = owned s (xs @ (DOS_MCB_OWNER_FREE, fst (absorb n ys)) # snd (absorb n ys))"
    unfolding xs(1,2) owned_without [OF xs(3)] free_owned by simp
  ultimately show ?thesis using m' unfolding xs(2) by metis
qed

subsection \<open>The image in its block\<close>

definition program_fits :: "file_buffer \<Rightarrow> u32 \<Rightarrow> u16 \<Rightarrow> bool" where
  \<comment> \<open>an MZ file whose header tells the truth and whose relocations stay inside its image, or a flat file with room for it\<close>
  "program_fits exe bytesRead want \<longleftrightarrow>
     (if is_mz exe bytesRead then honest_header exe \<and> fixups_inside exe bytesRead
      else 0x100 + unat bytesRead \<le> 16 * unat want)"

lemma unat_add_below: "unat (a :: u16) + unat b \<le> 65535 \<Longrightarrow> unat (a + b) = unat a + unat b"
  by (subst unat_add_lem [THEN iffD1]) simp_all

lemma load_within:
  assumes fits: "program_fits exe bytesRead want"
    and sized: "is_mz exe bytesRead \<Longrightarrow> 0x10 + unat (DosImageParagraphs exe bytesRead) \<le> unat want"
    and room: "unat child + unat want \<le> 65535" and high: "loadHigh \<Longrightarrow> is_mz exe bytesRead"
  shows "changes_within (DosMcbSegmentAddress base child + 0x100) (16 * unat want - 0x100) m
    (fst (DosLoadImageAt base m exe bytesRead child
       (if loadHigh then child + want - DosImageParagraphs exe bytesRead else 0)))"
proof (cases "is_mz exe bytesRead")
  case True
  let ?i = "DosImageParagraphs exe bytesRead"
  define seg where "seg = (if (if loadHigh then child + want - ?i else 0) \<noteq> 0 then child + want - ?i else child + 0x10)"
  have honest: "mz_image_size exe bytesRead \<le> 16 * unat ?i" and inside: "fixups_inside exe bytesRead"
    using fits True honest_image by (auto simp: program_fits_def)
  have top: "unat (child + want - ?i) = unat child + unat want - unat ?i"
    using sized [OF True] room by (subst unat_sub) (auto simp: word_le_nat_alt unat_add_below)
  have low: "unat (child + 0x10) = unat child + 16" using sized [OF True] room by (subst unat_add_below) auto
  have at: "unat child + 16 \<le> unat seg" "unat seg + unat ?i \<le> unat child + unat want"
    using sized [OF True] top low by (auto simp: seg_def)
  have "changes_within (DosMcbSegmentAddress base child + 0x100) (16 * unat want - 0x100) m (load_mz base m exe bytesRead seg seg)"
    by (rule load_mz_within [OF inside]) (use at honest in \<open>simp_all add: segment_address\<close>)
  then show ?thesis using True by (simp add: DosLoadImageAt_def Let_def seg_def split: if_splits)
next
  case False
  then have "0x100 + (if bytesRead > 0xFE00 then 0xFE00 else unat bytesRead) \<le> 16 * unat want"
    using fits by (auto simp: program_fits_def word_less_nat_alt)
  then have "changes_within (DosMcbSegmentAddress base child + 0x100) (16 * unat want - 0x100) m
      (load_bytes exe (DosMcbSegmentAddress base child + 0x100) 0 (if bytesRead > 0xFE00 then 0xFE00 else unat bytesRead) m)"
    by (intro changes_within_load changes_within_refl) simp_all
  with False show ?thesis by (simp add: DosLoadImageAt_def Let_def)
qed

lemma copy_tail_within: "changes_within psp 0x100 m (copy_tail psp tail parent m)"
proof -
  have "unat (m tail) \<le> 126 \<or> m tail > 126" by (auto simp: word_less_nat_alt)
  then show ?thesis unfolding copy_tail_def Let_def
    by (intro changes_within_byte changes_within_copy changes_within_refl) auto
qed

lemma changes_within_widen: "changes_within a n m m' \<Longrightarrow> n \<le> k \<Longrightarrow> changes_within a k m m'"
  by (auto simp: changes_within_def)

lemma changes_within_inner:
  "changes_within (a + k) (n - k) m m' \<Longrightarrow> a \<le> a + k \<Longrightarrow> k \<le> n \<Longrightarrow> changes_within a n m m'"
  by (auto simp: changes_within_def)

lemma copy_tail_keeps_copies: "x < psp + 0x16 \<Longrightarrow> copy_tail psp tail parent m x = m x"
  by (auto simp: copy_tail_def Let_def copy_up_elsewhere)

lemma kept_outside: "kept base s top_seg held m m' \<Longrightarrow> x < base + 16 * s \<Longrightarrow> m' x = m x"
  unfolding kept_def by blast

lemma segment_below: "seg \<noteq> 0 \<Longrightarrow> DosMcbSegmentAddress base (seg - 1) = base + 16 * (unat seg - 1)"
proof -
  assume "seg \<noteq> 0"
  then have "unat (seg - 1) = unat seg - 1" by (subst unat_sub) (auto simp: word_le_nat_alt unat_gt_0 Suc_le_eq)
  then show ?thesis by (simp add: segment_address)
qed

text \<open>With two blocks of its own, EXEC leaves the chain as it is but for their owners, and every other byte.\<close>

lemma exec_load_sound:
  assumes ch: "mcb_chain base m s bs top_seg"
    and env: "(unat env, w1, n) \<in> owned s bs" and child: "(unat child, w2, unat want) \<in> owned s bs"
    and apart: "env \<noteq> child" and fits: "program_fits exe bytesRead want" and psp: "0x10 \<le> unat want"
    and sized: "is_mz exe bytesRead \<Longrightarrow> 0x10 + unat (DosImageParagraphs exe bytesRead) \<le> unat want"
    and high: "loadHigh \<Longrightarrow> is_mz exe bytesRead"
  shows "\<exists>bs'. mcb_chain base (fst (exec_load base req exe bytesRead env child want loadHigh m)) s bs' top_seg \<and>
    owned s bs' = {(unat child, child, unat want), (unat env, child, n)} \<union>
      (owned s bs - {(unat env, w1, n), (unat child, w2, unat want)}) \<and>
    kept base s top_seg (owned s bs - {(unat child, w2, unat want)}) m
      (fst (exec_load base req exe bytesRead env child want loadHigh m)) \<and>
    (0x94 \<le> 16 * s \<longrightarrow> (\<forall>i<12. fst (exec_load base req exe bytesRead env child want loadHigh m)
        (DosMcbSegmentAddress base child + 0x0A + i) = m (base + 0x88 + i)))"
proof -
  let ?c = "unat child" and ?e = "unat env" and ?w = "unat want"
  have nz: "env \<noteq> 0" "child \<noteq> 0" using owned_bounds [OF env] owned_bounds [OF child] by (auto simp: unat_eq_zero [symmetric])
  then have owner: "child \<noteq> DOS_MCB_OWNER_FREE" by (simp add: DOS_MCB_OWNER_FREE_def)
  have diff: "?e \<noteq> ?c" using apart by (simp add: word_unat_eq_iff)
  define m1 where "m1 = DosMcbWriteWord m (base + 16 * (?e - 1) + 1) child"
  define m2 where "m2 = DosMcbWriteWord m1 (base + 16 * (?c - 1) + 1) child"
  define m3 where "m3 = DosPspBuild base m2 child env (child + want)"
  define m4 where "m4 = DosMcbSetOwnerName base m3 child (ExecPath req)"
  define m5 where "m5 = DosPspSaveVectors base m4 child (ParentPsp req)"
  define m6 where "m6 = copy_tail (DosMcbSegmentAddress base child)
      (base + 16 * unat (ExecTailSegment req) + unat (ExecTailOffset req)) (ParentPsp req) m5"
  define m7 where "m7 = fst (DosLoadImageAt base m6 exe bytesRead child
      (if loadHigh then child + want - DosImageParagraphs exe bytesRead else 0))"
  have result: "fst (exec_load base req exe bytesRead env child want loadHigh m) = m7"
    by (simp add: exec_load_def Let_def nz segment_below m1_def m2_def m3_def m4_def m5_def m6_def m7_def)
  obtain bs1 where 1: "mcb_chain base m1 s bs1 top_seg" "owned s bs1 = insert (?e, child, n) (owned s bs - {(?e, w1, n)})"
      "kept base s top_seg (owned s bs) m m1"
    using write_owner [OF ch env owner] unfolding m1_def by blast
  have c1: "(?c, w2, ?w) \<in> owned s bs1" using child diff unfolding 1(2) by auto
  obtain bs2 where 2: "mcb_chain base m2 s bs2 top_seg" "owned s bs2 = insert (?c, child, ?w) (owned s bs1 - {(?c, w2, ?w)})"
      "kept base s top_seg (owned s bs1) m1 m2"
    using write_owner [OF 1(1) c1 owner] unfolding m2_def by blast
  let ?b = "(?c, child, ?w)"
  have c2: "?b \<in> owned s bs2" unfolding 2(2) by simp
  have room: "?c + ?w \<le> 65535" using owned_bounds [OF child] mcb_chain_top [OF ch] by auto
  have data: "mcb_chain base m'' s bs2 top_seg \<and> kept base s top_seg (owned s bs2 - {?b}) m' m''"
    if "mcb_chain base m' s bs2 top_seg" "changes_within (DosMcbSegmentAddress base child) (16 * ?w) m' m''" for m' m''
    using write_block [OF that(1) c2, of m''] that(2) by (simp add: segment_address)
  have wide: "0x100 \<le> 16 * ?w" using psp by simp
  have 3: "mcb_chain base m3 s bs2 top_seg" "kept base s top_seg (owned s bs2 - {?b}) m2 m3"
    using data [OF 2(1) changes_within_widen [OF psp_build_within wide]] unfolding m3_def by blast+
  have "changes_within (base + 16 * (?c - 1) + 8) 8 m3 m4"
    unfolding m4_def DosMcbSetOwnerName_def segment_below [OF nz(2)] by (rule owner_name_within)
  from write_name [OF 3(1) c2 this] have 4: "mcb_chain base m4 s bs2 top_seg" "kept base s top_seg (owned s bs2) m3 m4"
    by blast+
  have 5: "mcb_chain base m5 s bs2 top_seg" "kept base s top_seg (owned s bs2 - {?b}) m4 m5"
    using data [OF 4(1) changes_within_widen [OF psp_save_within wide]] unfolding m5_def by blast+
  have 6: "mcb_chain base m6 s bs2 top_seg" "kept base s top_seg (owned s bs2 - {?b}) m5 m6"
    using data [OF 5(1) changes_within_widen [OF copy_tail_within wide]] unfolding m6_def by blast+
  have 7: "mcb_chain base m7 s bs2 top_seg" "kept base s top_seg (owned s bs2 - {?b}) m6 m7"
    using data [OF 6(1)] changes_within_inner [OF load_within [OF fits sized room high] _ wide] unfolding m7_def by simp_all
  have later: "kept base s top_seg (owned s bs2 - {?b}) m2 m7"
    using 3(2) kept_subset [OF 4(2), of "owned s bs2 - {?b}"] 5(2) 6(2) 7(2) by (meson Diff_subset kept_trans)
  let ?rest = "owned s bs - {(?e, w1, n), (?c, w2, ?w)}"
  have owned: "owned s bs2 = {?b, (?e, child, n)} \<union> ?rest" unfolding 2(2) 1(2) using diff by auto
  have same: "kept base s top_seg (insert (?e, w1, n) ?rest) x y"
    if "kept base s top_seg (insert (?e, child, n) ?rest) x y" for x y
    using that unfolding kept_def by auto
  have "(?c, child, ?w) \<notin> ?rest" using owned_one [OF child, of child ?w] by auto
  then have sub: "insert (?e, child, n) ?rest \<subseteq> owned s bs2 - {?b}" using diff unfolding owned by auto
  have all: "owned s bs - {(?c, w2, ?w)} = insert (?e, w1, n) ?rest" using env diff by auto
  have "kept base s top_seg (owned s bs - {(?c, w2, ?w)}) m1 m2"
    unfolding all using kept_subset [OF 2(3), of "insert (?e, child, n) ?rest"] 1(2) by (intro same) auto
  moreover have "kept base s top_seg (owned s bs - {(?c, w2, ?w)}) m2 m7"
    unfolding all using kept_subset [OF later sub] by (rule same)
  moreover have "kept base s top_seg (owned s bs - {(?c, w2, ?w)}) m m1" using kept_subset [OF 1(3)] by blast
  ultimately have "kept base s top_seg (owned s bs - {(?c, w2, ?w)}) m m7" by (meson kept_trans)
  moreover have "m7 (DosMcbSegmentAddress base child + 0x0A + i) = m (base + 0x88 + i)" if low: "0x94 \<le> 16 * s" and i: "i < 12" for i
  proof -
    let ?x = "DosMcbSegmentAddress base child + 0x0A + i"
    have "m7 ?x = m6 ?x"
      using load_within [OF fits sized room high, where base = base and m = m6] i unfolding m7_def changes_within_def by simp
    also have "\<dots> = m5 ?x" unfolding m6_def by (rule copy_tail_keeps_copies) (use i in simp)
    also have "\<dots> = m4 (base + 0x88 + i)" unfolding m5_def
      by (rule saved_copies [OF _ i]) (use low owned_bounds [OF child] in \<open>simp add: segment_address\<close>)
    also have "\<dots> = m (base + 0x88 + i)"
    proof -
      have "base + 0x88 + i < base + 16 * s" using low i by simp
      from kept_outside [OF 1(3) this] kept_outside [OF 2(3) this] kept_outside [OF 3(2) this] kept_outside [OF 4(2) this]
      show ?thesis by simp
    qed
    finally show ?thesis .
  qed
  ultimately show ?thesis unfolding result using 7(1) owned by blast
qed

subsection \<open>The child's job file table\<close>

lemma psp_build_jft:
  "DosMcbReadWord (DosPspBuild base m child env topSegment) (DosMcbSegmentAddress base child + 0x32) = 0x14"
  "DosMcbReadWord (DosPspBuild base m child env topSegment) (DosMcbSegmentAddress base child + 0x34) = 0x18"
  "DosMcbReadWord (DosPspBuild base m child env topSegment) (DosMcbSegmentAddress base child + 0x36) = child"
proof -
  let ?p = "DosMcbSegmentAddress base child"
  have far_byte: "DosMcbReadWord (m'(b := v)) a' = DosMcbReadWord m' a'" if "b < a' \<or> a' + 1 < b" for m' b v a'
    using that by (auto simp: DosMcbReadWord_def)
  show "DosMcbReadWord (DosPspBuild base m child env topSegment) (?p + 0x32) = 0x14"
    "DosMcbReadWord (DosPspBuild base m child env topSegment) (?p + 0x34) = 0x18"
    "DosMcbReadWord (DosPspBuild base m child env topSegment) (?p + 0x36) = child"
    unfolding DosPspBuild_def Let_def by (simp_all add: read_write_word read_write_word_apart far_byte)
qed

lemma save_vectors_high: "DosMcbSegmentAddress base seg + 0x18 \<le> x \<Longrightarrow> DosPspSaveVectors base m seg parent x = m x"
  unfolding DosPspSaveVectors_def Let_def saved_vectors_copied
  by (simp add: DosMcbWriteWord_def copy_up_elsewhere)

lemma copy_tail_keeps_jft: "psp + 0x18 \<le> x \<Longrightarrow> x < psp + 0x80 \<Longrightarrow> copy_tail psp tail parent m x = m x"
  by (auto simp: copy_tail_def Let_def copy_up_elsewhere)

lemma exec_load_jft:
  assumes "child \<noteq> 0" and fits: "program_fits exe bytesRead want"
    and sized: "is_mz exe bytesRead \<Longrightarrow> 0x10 + unat (DosImageParagraphs exe bytesRead) \<le> unat want"
    and room: "unat child + unat want \<le> 65535" and high: "loadHigh \<Longrightarrow> is_mz exe bytesRead"
  shows "DosJftOf base (fst (exec_load base req exe bytesRead env child want loadHigh m)) child =
    Some (DosMcbSegmentAddress base child + 0x18, 20)"
proof -
  let ?p = "DosMcbSegmentAddress base child"
  define m2 where "m2 = DosMcbWriteWord (if env \<noteq> 0 then DosMcbWriteWord m (DosMcbSegmentAddress base (env - 1) + 1) child else m)
      (DosMcbSegmentAddress base (child - 1) + 1) child"
  define m3 where "m3 = DosPspBuild base m2 child env (child + want)"
  define m4 where "m4 = DosMcbSetOwnerName base m3 child (ExecPath req)"
  define m5 where "m5 = DosPspSaveVectors base m4 child (ParentPsp req)"
  define m6 where "m6 = copy_tail ?p (base + 16 * unat (ExecTailSegment req) + unat (ExecTailOffset req)) (ParentPsp req) m5"
  define m7 where "m7 = fst (DosLoadImageAt base m6 exe bytesRead child
      (if loadHigh then child + want - DosImageParagraphs exe bytesRead else 0))"
  have result: "fst (exec_load base req exe bytesRead env child want loadHigh m) = m7"
    by (simp add: exec_load_def Let_def m2_def m3_def m4_def m5_def m6_def m7_def)
  have "m7 x = m3 x" if x: "?p + 0x18 \<le> x" "x < ?p + 0x80" for x
  proof -
    have "m7 x = m6 x"
      using load_within [OF fits sized room high, where base = base and m = m6] x unfolding m7_def changes_within_def by simp
    also have "\<dots> = m5 x" unfolding m6_def by (rule copy_tail_keeps_jft [OF x])
    also have "\<dots> = m4 x" unfolding m5_def by (rule save_vectors_high [OF x(1)])
    also have "\<dots> = m3 x"
    proof -
      have "1 \<le> unat child" using assms(1) by (simp add: Suc_le_eq unat_gt_0)
      then have "base + 16 * (unat child - 1) + 16 \<le> x" using x(1) by (simp add: segment_address)
      then show ?thesis using owner_name_within [of "base + 16 * (unat child - 1)" m3 "owner_base_name (ExecPath req) (ExecPath req)" 0]
        unfolding m4_def DosMcbSetOwnerName_def segment_below [OF assms(1)] changes_within_def by (simp add: add.assoc)
    qed
    finally show ?thesis .
  qed
  then have "DosMcbReadWord m7 (?p + k) = DosMcbReadWord m3 (?p + k)" if "0x18 \<le> k" "k < 0x7F" for k
    using that by (simp add: DosMcbReadWord_def)
  then have "DosMcbReadWord m7 (?p + 0x32) = 0x14" "DosMcbReadWord m7 (?p + 0x34) = 0x18" "DosMcbReadWord m7 (?p + 0x36) = child"
    by (simp_all add: m3_def psp_build_jft)
  then show ?thesis unfolding result DosJftOf_def Let_def
    using assms(1) by (simp add: handle_sizes) (simp add: segment_address)
qed

subsection \<open>The child's environment\<close>

lemma store_bytes_laid: "store_bytes a bs m = laid a bs m"
proof (induction bs arbitrary: a m)
  case (Cons b bs)
  show ?case unfolding store_bytes.simps Cons.IH by (auto simp: laid_def fun_eq_iff nth_Cons')
qed (auto simp: laid_def fun_eq_iff)

lemma laid_within: "length bs \<le> n \<Longrightarrow> changes_within a n m (laid a bs m)"
  by (auto simp: changes_within_def laid_def)

lemma first_from_eq: "(\<And>j. j < k \<Longrightarrow> \<not> p j) \<Longrightarrow> k \<le> n \<Longrightarrow> (k < n \<Longrightarrow> p k) \<Longrightarrow> first_from p 0 n = k"
  using first_from_holds [of p 0 n] first_from_before [of 0 k p n] first_from_le [of p 0 n]
  by (metis le_less_trans linorder_neqE_nat not_less_iff_gr_or_eq order.order_iff_strict zero_le)

lemma string_inside:
  assumes "string_at m a s" "a \<le> x" "x < a + length s"
  shows "m x \<noteq> 0"
proof -
  have "x - a < length s" using assms by linarith
  then have "m (a + (x - a)) = s ! (x - a)" using assms(1) unfolding string_at_def by blast
  moreover have "s ! (x - a) \<in> set s" using assms by (intro nth_mem) simp
  ultimately show ?thesis using assms(1,2) by (auto simp: string_at_def)
qed

lemma strings_end:
  "strings_at m a (s # ss) rest \<Longrightarrow>
   a + 2 < rest \<and> m (rest - 2) = 0 \<and> m (rest - 1) = 0 \<and> (\<forall>x. a \<le> x \<and> x < rest - 2 \<longrightarrow> m x \<noteq> 0 \<or> m (x + 1) \<noteq> 0)"
proof (induction ss arbitrary: a s)
  case Nil
  then have s: "s \<noteq> []" "string_at m a s" "m (a + length s + 1) = 0" "rest = a + length s + 2" by simp_all
  with string_inside [OF s(2)] show ?case by (cases s) (auto simp: string_at_def)
next
  case (Cons t ss)
  let ?b = "a + length s + 1"
  from Cons.prems have s: "s \<noteq> []" "string_at m a s" and later: "strings_at m ?b (t # ss) rest" by simp_all
  from Cons.IH [OF later] have ih: "?b + 2 < rest" "m (rest - 2) = 0" "m (rest - 1) = 0"
    "\<forall>x. ?b \<le> x \<and> x < rest - 2 \<longrightarrow> m x \<noteq> 0 \<or> m (x + 1) \<noteq> 0" by blast+
  note in_s = string_inside [OF s(2)]
  have "t \<noteq> []" "string_at m ?b t" using later by simp_all
  then have "m ?b \<noteq> 0" by (intro string_inside [of m ?b t]) auto
  then have "m x \<noteq> 0 \<or> m (x + 1) \<noteq> 0" if "a \<le> x" "x < rest - 2" for x
    using in_s [of x] ih(4) that by (cases "x < a + length s"; cases "x = a + length s") auto
  with ih s(1) show ?case by auto
qed

lemma environment_length_of:
  assumes "strings_at m p variables rest" "rest \<le> p + 0x8000"
  shows "environment_length m p = rest - p"
proof (cases variables)
  case Nil
  with assms show ?thesis by (simp add: environment_length_def)
next
  case (Cons s ss)
  note e = strings_end [OF assms(1) [unfolded Cons]]
  have "m p \<noteq> 0" using assms(1) unfolding Cons by (intro string_inside [of m p s]) auto
  moreover have "first_from (\<lambda>i. m (p + i) = 0 \<and> m (p + i + 1) = 0) 0 0x7FFE = rest - 2 - p"
  proof (rule first_from_eq)
    show "\<not> (m (p + j) = 0 \<and> m (p + j + 1) = 0)" if "j < rest - 2 - p" for j
      using e that by (auto simp: less_diff_conv)
    show "m (p + (rest - 2 - p)) = 0 \<and> m (p + (rest - 2 - p) + 1) = 0" using e by (simp add: Suc_diff_Suc numeral_2_eq_2)
  qed (use assms(2) in simp)
  moreover have "rest - 2 - p + 2 = rest - p" using e by linarith
  ultimately show ?thesis by (simp add: environment_length_def)
qed

lemma environment_length_bounds: "1 \<le> environment_length m p \<and> environment_length m p \<le> 0x8000"
  using first_from_le [of "\<lambda>i. m (p + i) = 0 \<and> m (p + i + 1) = 0" 0 "0x7FFE"] by (simp add: environment_length_def)

lemma executable_name_bounds: "length (executable_name req) \<le> 127" "set (executable_name req) \<subseteq> set (ExecName req)"
proof -
  have "length (takeWhile P xs) \<le> 127" if "length xs \<le> 127" for P and xs :: "u8 list"
    using length_takeWhile_le [of P xs] that by linarith
  then show "length (executable_name req) \<le> 127" by (simp add: executable_name_def Let_def)
  show "set (executable_name req) \<subseteq> set (ExecName req)"
    by (auto simp: executable_name_def Let_def dest!: set_takeWhileD in_set_takeD)
qed

lemma environment_block_size:
  "environment_length m p + 2 + length (executable_name req) + 1 \<le>
     16 * unat (environment_paragraphs (environment_length m p) (executable_name req))"
proof -
  let ?t = "environment_length m p + 2 + length (executable_name req) + 1"
  have "?t \<le> 0x9000" using environment_length_bounds [of m p] executable_name_bounds(1) [of req] by simp
  then have "unat (environment_paragraphs (environment_length m p) (executable_name req)) = (?t + 15) div 16"
    unfolding environment_paragraphs_def by (subst unat_of_nat_small) auto
  then show ?thesis by simp
qed

lemma copy_environment_within:
  assumes "len + 2 + length nm + 1 \<le> k"
  shows "changes_within child k m (copy_environment child parent len nm m)"
proof -
  let ?l = len
  have "changes_within child k m (copy_up child parent ?l m)"
    using assms by (intro changes_within_copy changes_within_refl) simp_all
  moreover have "changes_within (child + ?l) (2 + length nm + 1) m' (laid (child + ?l) ([1, 0] @ nm @ [0]) m')" for m'
    by (rule laid_within) simp
  ultimately show ?thesis using assms unfolding copy_environment_def store_bytes_laid changes_within_def by auto
qed

lemma strings_at_moved:
  "strings_at m a ss rest \<Longrightarrow> (\<And>x. a \<le> x \<Longrightarrow> x < rest \<Longrightarrow> m' (b + (x - a)) = m x) \<Longrightarrow>
   strings_at m' b ss (b + (rest - a)) \<and> a < rest"
proof (induction ss arbitrary: a b)
  case Nil
  then show ?case using Nil.prems(2) [of a] by simp
next
  case (Cons s ss)
  let ?n = "length s + 1"
  have ih: "strings_at m' (b + ?n) ss (b + ?n + (rest - (a + ?n))) \<and> a + ?n < rest"
  proof (rule Cons.IH)
    show "strings_at m (a + ?n) ss rest" using Cons.prems(1) by (simp add: add.assoc)
    show "m' (b + ?n + (x - (a + ?n))) = m x" if "a + ?n \<le> x" "x < rest" for x
    proof -
      have "b + ?n + (x - (a + ?n)) = b + (x - a)" "a \<le> x" using that(1) by linarith+
      with Cons.prems(2) [of x] that(2) show ?thesis by (simp only:)
    qed
  qed
  have "m' (b + i) = m (a + i)" if "i \<le> length s" for i
    using Cons.prems(2) [of "a + i"] ih that by simp
  then have "string_at m' b s" using Cons.prems(1) by (simp add: string_at_def)
  moreover have "b + ?n + (rest - (a + ?n)) = b + (rest - a)" using ih by linarith
  with ih have "strings_at m' (b + length s + 1) ss (b + (rest - a)) \<and> a < rest" by (simp only: add.assoc) simp
  ultimately show ?case using Cons.prems(1) unfolding strings_at.simps by blast
qed

definition environment_in :: "mem \<Rightarrow> nat \<Rightarrow> nat \<Rightarrow> u8 list list \<Rightarrow> u8 list \<Rightarrow> bool" where
  \<comment> \<open>an environment that ends within the \<open>k\<close> bytes from \<open>a\<close>\<close>
  "environment_in m a k vs nm \<longleftrightarrow>
     (\<exists>rest. strings_at m a vs rest \<and> DosMcbReadWord m rest = 1 \<and> string_at m (rest + 2) nm \<and>
        rest + 2 + length nm + 1 \<le> a + k)"

lemma environment_in_at: "environment_in m a k vs nm \<Longrightarrow> environment_at m a vs nm"
  unfolding environment_in_def environment_at_def by blast

lemma environment_in_same:
  assumes "environment_in m a k vs nm" and same: "\<And>x. a \<le> x \<Longrightarrow> x < a + k \<Longrightarrow> m' x = m x"
  shows "environment_in m' a k vs nm"
proof -
  obtain rest where r: "strings_at m a vs rest" "DosMcbReadWord m rest = 1" "string_at m (rest + 2) nm"
    "rest + 2 + length nm + 1 \<le> a + k" using assms(1) unfolding environment_in_def by blast
  have "strings_at m' a vs (a + (rest - a)) \<and> a < rest"
    by (rule strings_at_moved [OF r(1)]) (use same r(4) in auto)
  moreover from this have "a + (rest - a) = rest" by linarith
  ultimately have s: "strings_at m' a vs rest" "a < rest" by metis+
  moreover have "DosMcbReadWord m' rest = 1"
    using r(2) same [of rest] same [of "rest + 1"] r(4) s(2) by (simp add: DosMcbReadWord_def)
  moreover have "string_at m' (rest + 2) nm"
    using r(3,4) s(2) unfolding string_at_def by (simp add: same)
  ultimately show ?thesis using r(4) unfolding environment_in_def by blast
qed

lemma environment_copied:
  assumes env: "strings_at m parent vs rest" and nm: "0 \<notin> set nm"
    and apart: "child + (rest - parent) \<le> parent \<or> rest \<le> child" and room: "rest - parent + 2 + length nm + 1 \<le> k"
  shows "environment_in (copy_environment child parent (rest - parent) nm m) child k vs nm"
proof -
  let ?l = "rest - parent" and ?m = "copy_environment child parent (rest - parent) nm m"
  have pr: "parent < rest" using strings_at_moved [OF env(1), of m parent] by simp
  have copied: "?m = laid (child + ?l) ([1, 0] @ nm @ [0]) (mem_copied child parent ?l m)"
    unfolding copy_environment_def store_bytes_laid
    by (subst copy_up_correct) (use apart pr in auto)
  have strings: "strings_at ?m child vs (child + ?l)"
  proof -
    have "?m (child + (x - parent)) = m x" if "parent \<le> x" "x < rest" for x
      unfolding copied using that by (auto simp: laid_def mem_copied_def)
    from strings_at_moved [OF env(1) this] show ?thesis by blast
  qed
  moreover have "DosMcbReadWord ?m (child + ?l) = 1"
    unfolding copied using laid_word [of "child + ?l" "[]" 1 0 "nm @ [0]"] by simp
  moreover have "string_at ?m (child + ?l + 2) nm"
    unfolding copied using string_at_laid [OF nm, of "child + ?l" "[1, 0]" "[]"] by simp
  ultimately show ?thesis using room unfolding environment_in_def by (intro exI [of _ "child + ?l"]) simp
qed

subsection \<open>EXEC\<close>

abbreviation env_paras :: "nat \<Rightarrow> exec_request \<Rightarrow> mem \<Rightarrow> u16" where
  "env_paras base req m \<equiv>
     environment_paragraphs (environment_length m (parent_environment base m req)) (executable_name req)"

definition readable_environment :: "mem \<Rightarrow> nat \<Rightarrow> (nat \<times> u16 \<times> nat) set \<Rightarrow> nat \<Rightarrow> u8 list list \<Rightarrow> bool" where
  \<comment> \<open>the variables at \<open>p\<close>, all inside one block in use, in at most 32 KB\<close>
  "readable_environment m base held p vs \<longleftrightarrow>
     (\<exists>rest seg w n. strings_at m p vs rest \<and> rest \<le> p + 0x8000 \<and> (seg, w, n) \<in> held \<and>
        base + 16 * seg \<le> p \<and> rest \<le> base + 16 * (seg + n))"

lemma environment_step:
  assumes ch: "mcb_chain base m1 s bs top_seg" and own: "owned s bs = insert (unat env, w, unat (env_paras base req m)) held"
    and fresh: "\<forall>b\<in>held. fst b \<noteq> unat env" and kept: "kept base s top_seg held m m1"
  defines "p \<equiv> parent_environment base m req"
  defines "m2 \<equiv> copy_environment (DosMcbSegmentAddress base env) p (environment_length m p) (executable_name req) m1"
  shows "mcb_chain base m2 s bs top_seg" and "kept base s top_seg held m m2"
    and "readable_environment m base held p vs \<Longrightarrow> 0 \<notin> set (ExecName req) \<Longrightarrow>
      environment_in m2 (DosMcbSegmentAddress base env) (16 * unat (env_paras base req m)) vs (executable_name req)"
proof -
  let ?n = "unat (env_paras base req m)" and ?a = "DosMcbSegmentAddress base env"
  have b: "(unat env, w, ?n) \<in> owned s bs" unfolding own by simp
  have size: "environment_length m p + 2 + length (executable_name req) + 1 \<le> 16 * ?n"
    using environment_block_size [of m p req] unfolding p_def by simp
  have within: "changes_within ?a (16 * ?n) m1 m2"
    unfolding m2_def by (rule copy_environment_within [OF size])
  note wr = write_block [OF ch b, of m2, folded segment_address, OF within]
  show "mcb_chain base m2 s bs top_seg" by (rule wr(1))
  have "held \<subseteq> owned s bs - {(unat env, w, ?n)}" using fresh own by fastforce
  from kept_trans [OF kept kept_subset [OF wr(2) this]] show "kept base s top_seg held m m2" .
  show "environment_in m2 ?a (16 * ?n) vs (executable_name req)"
    if readable: "readable_environment m base held p vs" and nm: "0 \<notin> set (ExecName req)"
  proof -
    obtain rest seg w' n where r: "strings_at m p vs rest" "rest \<le> p + 0x8000" "(seg, w', n) \<in> held"
      "base + 16 * seg \<le> p" "rest \<le> base + 16 * (seg + n)" using readable unfolding readable_environment_def by blast
    have "m1 x = m x" if "p \<le> x" "x < rest" for x using kept r that unfolding kept_def by fastforce
    then have "strings_at m1 p vs (p + (rest - p)) \<and> p < rest"
      by (intro strings_at_moved [OF r(1)]) simp
    moreover from this have "p + (rest - p) = rest" by linarith
    ultimately have r1: "strings_at m1 p vs rest" by simp
    have "(unat env, w, ?n) \<noteq> (seg, w', n)" using fresh r(3) by auto
    moreover have "(seg, w', n) \<in> owned s bs" using r(3) own by simp
    ultimately have "unat env + ?n < seg \<or> seg + n < unat env"
      using owned_disjoint [OF b, of "(seg, w', n)"] by simp
    moreover have "rest - p \<le> 16 * ?n" using size environment_length_of [OF r(1,2)] by simp
    ultimately have apart: "?a + (rest - p) \<le> p \<or> rest \<le> ?a"
      using r(4,5) unfolding segment_address by auto
    have nm': "0 \<notin> set (executable_name req)" using nm executable_name_bounds(2) [of req] by blast
    show ?thesis using environment_copied [OF r1 nm' apart] size environment_length_of [OF r(1,2)]
      unfolding m2_def by simp
  qed
qed

lemma refused_step:
  assumes ch: "mcb_chain base m s bs top_seg" and own: "owned s bs = insert (unat env, w, n) held"
    and fresh: "\<forall>b\<in>held. fst b \<noteq> unat env" and kept: "kept base s top_seg held m0 m"
  shows "\<exists>m' bs'. exec_refused base env m = Some (m', None) \<and> mcb_chain base m' s bs' top_seg \<and> owned s bs' = held \<and>
    kept base s top_seg held m0 m'"
proof -
  have b: "(unat env, w, n) \<in> owned s bs" unfolding own by simp
  obtain m' bs' where f: "DosMcbFree base m env = Some (m', None)" "mcb_chain base m' s bs' top_seg"
    "owned s bs' = owned s bs - {(unat env, w, n)}" "kept base s top_seg (owned s bs) m m'"
    using free_step [OF ch b] by auto
  have "env \<noteq> 0" using owned_bounds [OF b] by auto
  moreover have "owned s bs' = held" using f(3) fresh own by fastforce
  moreover have "kept base s top_seg held m m'" using kept_subset [OF f(4)] own by blast
  ultimately show ?thesis using f(1,2) kept_trans [OF kept] by (auto simp: exec_refused_def)
qed

lemma program_psp:
  assumes "program_fits exe bytesRead want" "is_mz exe bytesRead \<Longrightarrow> 0x10 + unat (DosImageParagraphs exe bytesRead) \<le> unat want"
  shows "0x10 \<le> unat want"
  using assms by (cases "is_mz exe bytesRead") (auto simp: program_fits_def)

lemma exec_size_high: "DosExecSize exe bytesRead largest = Some (want, loadHigh) \<Longrightarrow> loadHigh \<Longrightarrow> is_mz exe bytesRead"
  by (auto simp: DosExecSize_def split: if_splits)

lemma whole_arena_refused:
  assumes "mcb_chain base m s bs top_seg" shows "(seg, w, unat (0xFFFF :: u16)) \<notin> owned s bs"
  using owned_bounds [of "(seg, w, unat (0xFFFF :: u16))" s bs] mcb_chain_top [OF assms] by auto

definition kept_but :: "nat set \<Rightarrow> nat \<Rightarrow> nat \<Rightarrow> nat \<Rightarrow> (nat \<times> u16 \<times> nat) set \<Rightarrow> mem \<Rightarrow> mem \<Rightarrow> bool" where
  \<comment> \<open>\<open>kept\<close>, the bytes of a set left aside\<close>
  "kept_but A base s top_seg held m m' \<longleftrightarrow> kept base s top_seg held m (\<lambda>x. if x \<in> A then m x else m' x)"

lemma kept_but_empty [simp]: "kept_but {} base s top_seg held m m' = kept base s top_seg held m m'"
  by (simp add: kept_but_def)

definition exec_outcome ::
  "nat set \<Rightarrow> nat \<Rightarrow> nat \<Rightarrow> nat \<Rightarrow> (nat \<times> u16 \<times> nat) set \<Rightarrow> exec_request \<Rightarrow> file_buffer \<Rightarrow> u32 \<Rightarrow> mem \<Rightarrow> mem \<Rightarrow> exec_child option \<Rightarrow> bool" where
  "exec_outcome A base s top_seg held req exe bytesRead m m' r \<longleftrightarrow>
     (case r of
        None \<Rightarrow> (\<exists>bs'. mcb_chain base m' s bs' top_seg \<and> owned s bs' = held) \<and> kept_but A base s top_seg held m m'
      | Some c \<Rightarrow> program_fits exe bytesRead (ChildSize c) \<longrightarrow>
          (\<exists>bs'. mcb_chain base m' s bs' top_seg \<and>
             owned s bs' = {(unat (ChildSegment c), ChildSegment c, unat (ChildSize c)),
               (unat (EnvironmentSegment c), ChildSegment c, unat (env_paras base req m))} \<union> held) \<and>
          ChildSegment c \<noteq> EnvironmentSegment c \<and> 0x10 \<le> unat (ChildSize c) \<and>
          (\<forall>b\<in>held. fst b \<noteq> unat (ChildSegment c) \<and> fst b \<noteq> unat (EnvironmentSegment c)) \<and>
          kept_but A base s top_seg held m m' \<and>
          DosJftOf base m' (ChildSegment c) = Some (DosMcbSegmentAddress base (ChildSegment c) + 0x18, 20) \<and>
          (0x94 \<le> 16 * s \<longrightarrow> (\<forall>i<12. m' (DosMcbSegmentAddress base (ChildSegment c) + 0x0A + i) = m (base + 0x88 + i))) \<and>
          (\<forall>vs. readable_environment m base held (parent_environment base m req) vs \<longrightarrow> 0 \<notin> set (ExecName req) \<longrightarrow>
             environment_in m' (DosMcbSegmentAddress base (EnvironmentSegment c)) (16 * unat (env_paras base req m)) vs
               (executable_name req)))"

lemma exec_succeeds:
  assumes ch: "mcb_chain base m4 s bs4 top_seg"
    and own: "owned s bs4 = insert (unat child, DOS_PSP_SEG, unat want) (insert (unat env, DOS_PSP_SEG, unat (env_paras base req m)) held)"
    and fresh: "\<forall>b\<in>insert (unat env, DOS_PSP_SEG, unat (env_paras base req m)) held. fst b \<noteq> unat child" "\<forall>b\<in>held. fst b \<noteq> unat env"
    and kept: "kept base s top_seg held m m4"
    and size: "DosExecSize exe bytesRead largest = Some (want, loadHigh)"
    and env: "\<And>vs. readable_environment m base held (parent_environment base m req) vs \<Longrightarrow> 0 \<notin> set (ExecName req) \<Longrightarrow>
      environment_in m4 (DosMcbSegmentAddress base env) (16 * unat (env_paras base req m)) vs (executable_name req)"
  shows "exec_outcome {} base s top_seg held req exe bytesRead m (fst (exec_load base req exe bytesRead env child want loadHigh m4))
    (Some \<lparr>ChildSegment = child, EnvironmentSegment = env, ChildSize = want, ChildImage = program\<rparr>)"
proof -
  let ?m' = "fst (exec_load base req exe bytesRead env child want loadHigh m4)" and ?a = "DosMcbSegmentAddress base env"
  let ?eb = "(unat env, DOS_PSP_SEG, unat (env_paras base req m))" and ?cb = "(unat child, DOS_PSP_SEG, unat want)"
  have diff: "env \<noteq> child" using fresh(1) by auto
  have eb: "?eb \<in> owned s bs4" and cb: "?cb \<in> owned s bs4" unfolding own by simp_all
  { assume fits: "program_fits exe bytesRead want"
    have sized: "0x10 + unat (DosImageParagraphs exe bytesRead) \<le> unat want" if "is_mz exe bytesRead"
      by (rule exec_size_covers(2) [OF that size])
    obtain bs' where l: "mcb_chain base ?m' s bs' top_seg"
      "owned s bs' = {(unat child, child, unat want), (unat env, child, unat (env_paras base req m))} \<union> (owned s bs4 - {?eb, ?cb})"
      "kept base s top_seg (owned s bs4 - {?cb}) m4 ?m'"
      "0x94 \<le> 16 * s \<longrightarrow> (\<forall>i<12. ?m' (DosMcbSegmentAddress base child + 0x0A + i) = m4 (base + 0x88 + i))"
      using exec_load_sound [OF ch eb cb diff fits program_psp [OF fits sized] sized exec_size_high [OF size]] by blast
    have rest: "owned s bs4 - {?eb, ?cb} = held" and sub: "insert ?eb held \<subseteq> owned s bs4 - {?cb}"
      using fresh unfolding own by fastforce+
    note k = kept_subset [OF l(3) sub]
    have same: "?m' x = m4 x" if "?a \<le> x" "x < ?a + 16 * unat (env_paras base req m)" for x
      using k that unfolding kept_def segment_address by (auto simp: distrib_left)
    have "environment_in ?m' ?a (16 * unat (env_paras base req m)) vs (executable_name req)"
      if "readable_environment m base held (parent_environment base m req) vs" "0 \<notin> set (ExecName req)" for vs
      by (rule environment_in_same [OF env [OF that] same])
    moreover have "child \<noteq> 0" "unat child + unat want \<le> 65535"
      using owned_bounds [OF cb] mcb_chain_top [OF ch] by (auto simp: unat_eq_zero [symmetric])
    then have "DosJftOf base ?m' child = Some (DosMcbSegmentAddress base child + 0x18, 20)"
      by (intro exec_load_jft [OF _ fits sized _ exec_size_high [OF size]])
    moreover have "0x10 \<le> unat want" by (rule program_psp [OF fits sized])
    moreover have "kept base s top_seg held m ?m'" by (rule kept_trans [OF kept kept_subset [OF k]]) blast
    moreover have "0x94 \<le> 16 * s \<longrightarrow> (\<forall>i<12. ?m' (DosMcbSegmentAddress base child + 0x0A + i) = m (base + 0x88 + i))"
      using l(4) kept_outside [OF kept] by simp
    moreover note l(1) l(2) [unfolded rest]
    ultimately have "(\<exists>bs'. mcb_chain base ?m' s bs' top_seg \<and>
          owned s bs' = {(unat child, child, unat want), (unat env, child, unat (env_paras base req m))} \<union> held) \<and>
        child \<noteq> env \<and> 0x10 \<le> unat want \<and> (\<forall>b\<in>held. fst b \<noteq> unat child \<and> fst b \<noteq> unat env) \<and>
        kept base s top_seg held m ?m' \<and> DosJftOf base ?m' child = Some (DosMcbSegmentAddress base child + 0x18, 20) \<and>
        (0x94 \<le> 16 * s \<longrightarrow> (\<forall>i<12. ?m' (DosMcbSegmentAddress base child + 0x0A + i) = m (base + 0x88 + i))) \<and>
        (\<forall>vs. readable_environment m base held (parent_environment base m req) vs \<longrightarrow> 0 \<notin> set (ExecName req) \<longrightarrow>
           environment_in ?m' ?a (16 * unat (env_paras base req m)) vs (executable_name req))"
      using fresh diff by auto }
  then show ?thesis unfolding exec_outcome_def by simp
qed

text \<open>The second half of EXEC, with the environment's block allocated and filled and the largest block probed.\<close>

definition exec_rest ::
  "nat \<Rightarrow> u16 \<Rightarrow> exec_request \<Rightarrow> file_buffer \<Rightarrow> u32 \<Rightarrow> u16 \<Rightarrow> u16 \<times> bool \<Rightarrow> mem \<Rightarrow> (mem \<times> exec_child option) option" where
  "exec_rest base firstMcb req exe bytesRead env wh m3 =
     (let (want, loadHigh) = wh
      in if want = 0 then exec_refused base env m3
         else Option.bind (DosMcbAllocate base m3 firstMcb want) (\<lambda>(m4, r).
           case r of
             Inl _ \<Rightarrow> exec_refused base env m4
           | Inr child \<Rightarrow>
               let (m5, program) = exec_load base req exe bytesRead env child want loadHigh m4
               in Some (m5, Some \<lparr>ChildSegment = child, EnvironmentSegment = env, ChildSize = want, ChildImage = program\<rparr>)))"

lemma exec_rest_sound:
  fixes firstMcb :: u16
  defines "s \<equiv> unat firstMcb"
  assumes ch: "mcb_chain base m3 s bs3 top_seg"
    and own: "owned s bs3 = insert (unat env, DOS_PSP_SEG, unat (env_paras base req m)) held"
    and fresh: "\<forall>b\<in>held. fst b \<noteq> unat env" and kept: "kept base s top_seg held m m3"
    and sized: "want \<noteq> 0 \<Longrightarrow> DosExecSize exe bytesRead largest = Some (want, loadHigh)"
    and env: "\<And>vs. readable_environment m base held (parent_environment base m req) vs \<Longrightarrow> 0 \<notin> set (ExecName req) \<Longrightarrow>
      environment_in m3 (DosMcbSegmentAddress base env) (16 * unat (env_paras base req m)) vs (executable_name req)"
  shows "\<exists>m' r. exec_rest base firstMcb req exe bytesRead env (want, loadHigh) m3 = Some (m', r) \<and>
    exec_outcome {} base s top_seg held req exe bytesRead m m' r"
proof (cases "want = 0")
  case True
  with refused_step [OF ch own fresh kept] show ?thesis by (auto simp: exec_rest_def exec_outcome_def)
next
  case False
  let ?e = "(unat env, DOS_PSP_SEG, unat (env_paras base req m))"
  obtain m4 r4 bs4 where a4: "DosMcbAllocate base m3 firstMcb want = Some (m4, r4)"
    "mcb_chain base m4 s bs4 top_seg" "kept base s top_seg (owned s bs3) m3 m4"
    "case r4 of Inl e \<Rightarrow> owned s bs4 = owned s bs3
     | Inr seg \<Rightarrow> owned s bs4 = insert (unat seg, DOS_PSP_SEG, unat want) (owned s bs3) \<and> (\<forall>b\<in>owned s bs3. fst b \<noteq> unat seg)"
    using alloc_step [OF ch [unfolded s_def]] unfolding s_def by blast
  have k4: "kept base s top_seg held m m4" by (rule kept_trans [OF kept kept_subset [OF a4(3)]]) (use own in blast)
  show ?thesis
  proof (cases r4)
    case (Inl e4)
    with a4(4) own have "owned s bs4 = insert ?e held" by simp
    from refused_step [OF a4(2) this fresh k4] show ?thesis
      using False Inl a4(1) by (auto simp: exec_rest_def exec_outcome_def)
  next
    case (Inr child)
    have o4: "owned s bs4 = insert (unat child, DOS_PSP_SEG, unat want) (insert ?e held)"
      "\<forall>b\<in>insert ?e held. fst b \<noteq> unat child" using a4(4) Inr unfolding own by auto
    obtain m5 program where l: "exec_load base req exe bytesRead env child want loadHigh m4 = (m5, program)" by fastforce
    have same: "m4 x = m3 x"
      if "DosMcbSegmentAddress base env \<le> x" "x < DosMcbSegmentAddress base env + 16 * unat (env_paras base req m)" for x
      using a4(3) that unfolding own kept_def segment_address by (auto simp: distrib_left)
    have "exec_outcome {} base s top_seg held req exe bytesRead m (fst (exec_load base req exe bytesRead env child want loadHigh m4))
        (Some \<lparr>ChildSegment = child, EnvironmentSegment = env, ChildSize = want, ChildImage = program\<rparr>)"
      by (rule exec_succeeds [OF a4(2) o4 fresh k4 sized [OF False]]) (rule environment_in_same [OF env same])
    then show ?thesis using False Inr a4(1) l by (auto simp: exec_rest_def)
  qed
qed

lemma exec_prepare_outcome:
  assumes "mcb_chain base m (unat firstMcb) bs top_seg"
  shows "\<exists>m' r. exec_prepare base firstMcb req exe bytesRead m = Some (m', r) \<and>
    exec_outcome {} base (unat firstMcb) top_seg (owned (unat firstMcb) bs) req exe bytesRead m m' r"
proof -
  let ?s = "unat firstMcb" and ?p = "parent_environment base m req" and ?nm = "executable_name req"
  let ?held = "owned ?s bs" and ?paras = "env_paras base req m"
  obtain m1 r1 bs1 where a1: "DosMcbAllocate base m firstMcb ?paras = Some (m1, r1)"
    "mcb_chain base m1 ?s bs1 top_seg" "kept base ?s top_seg ?held m m1"
    "case r1 of Inl e \<Rightarrow> owned ?s bs1 = ?held
     | Inr seg \<Rightarrow> owned ?s bs1 = insert (unat seg, DOS_PSP_SEG, unat ?paras) ?held \<and> (\<forall>b\<in>?held. fst b \<noteq> unat seg)"
    using alloc_step [OF assms] by blast
  show ?thesis
  proof (cases r1)
    case (Inl e)
    with a1 show ?thesis by (auto simp: exec_prepare_def Let_def exec_outcome_def)
  next
    case (Inr env)
    let ?e = "(unat env, DOS_PSP_SEG, unat ?paras)"
    from a1(4) Inr have e: "owned ?s bs1 = insert ?e ?held" "\<forall>b\<in>?held. fst b \<noteq> unat env" by simp_all
    define m2 where "m2 = copy_environment (DosMcbSegmentAddress base env) ?p (environment_length m ?p) ?nm m1"
    note s2 = environment_step [OF a1(2) e a1(3), folded m2_def]
    obtain m3 r3 bs3 where a3: "DosMcbAllocate base m2 firstMcb 0xFFFF = Some (m3, r3)"
      "mcb_chain base m3 ?s bs3 top_seg" "kept base ?s top_seg (owned ?s bs1) m2 m3"
      "case r3 of Inl e \<Rightarrow> owned ?s bs3 = owned ?s bs1
       | Inr seg \<Rightarrow> owned ?s bs3 = insert (unat seg, DOS_PSP_SEG, unat (0xFFFF :: u16)) (owned ?s bs1) \<and> (\<forall>b\<in>owned ?s bs1. fst b \<noteq> unat seg)"
      using alloc_step [OF s2(1)] by blast
    obtain err where r3: "r3 = Inl err" using a3(4) whole_arena_refused [OF a3(2)] by (cases r3) auto
    have o3: "owned ?s bs3 = insert ?e ?held" using a3(4) r3 e(1) by simp
    have k3: "kept base ?s top_seg ?held m m3" by (rule kept_trans [OF s2(2) kept_subset [OF a3(3)]]) (use e(1) in blast)
    have same: "m3 x = m2 x"
      if "DosMcbSegmentAddress base env \<le> x" "x < DosMcbSegmentAddress base env + 16 * unat ?paras" for x
      using a3(3) that unfolding e(1) kept_def segment_address by (auto simp: distrib_left)
    let ?largest = "case r3 of Inl (InsufficientMemory n) \<Rightarrow> n | _ \<Rightarrow> 0"
    let ?size = "if ?largest = 0 then (0, False)
      else case DosExecSize exe bytesRead ?largest of Some wh \<Rightarrow> wh | None \<Rightarrow> (0, False)"
    obtain want loadHigh where size: "?size = (want, loadHigh)" by (cases ?size)
    then have sized: "DosExecSize exe bytesRead ?largest = Some (want, loadHigh)" if "want \<noteq> 0"
      using that by (auto split: if_splits option.splits)
    have "exec_prepare base firstMcb req exe bytesRead m = exec_rest base firstMcb req exe bytesRead env ?size m3"
      unfolding exec_prepare_def exec_rest_def Let_def a1(1) Inr bind.bind_lunit case_prod_conv sum.case m2_def [symmetric] a3(1) ..
    then show ?thesis unfolding size
      using exec_rest_sound [OF a3(2) o3 e(2) k3 sized environment_in_same [OF s2(3) same]] by simp
  qed
qed

subsection \<open>The answers of the call\<close>

definition apart_from_arena :: "nat set \<Rightarrow> nat \<Rightarrow> nat \<Rightarrow> nat \<Rightarrow> (nat \<times> u16 \<times> nat) set \<Rightarrow> bool" where
  \<comment> \<open>every byte of the set is in one of the blocks, or outside the arena\<close>
  "apart_from_arena A base s top_seg held \<longleftrightarrow>
     (\<forall>x\<in>A. (\<exists>(seg, w, n)\<in>held. base + 16 * seg \<le> x \<and> x < base + 16 * (seg + n)) \<or> x < base + 16 * s \<or> base + 16 * top_seg \<le> x)"

lemma apart_headers:
  assumes ch: "mcb_chain base m s bs top_seg" and A: "apart_from_arena A base s top_seg held" and held: "held \<subseteq> owned s bs"
    and t: "t \<in> headers s bs" and k: "(k :: nat) < 5"
  shows "base + 16 * t + k \<notin> A"
proof
  assume "base + 16 * t + k \<in> A"
  moreover have "s \<le> t" "t < top_seg" using headers_bounds [OF t] mcb_chain_top [OF ch] by auto
  ultimately obtain seg w n where "(seg, w, n) \<in> owned s bs" "base + 16 * seg \<le> base + 16 * t + k"
    "base + 16 * t + k < base + 16 * (seg + n)" using A k held unfolding apart_from_arena_def by fastforce
  with data_apart [OF this(1) t] k show False by auto
qed

lemma answers_keep_chain:
  assumes ch: "mcb_chain base m s bs top_seg" and A: "apart_from_arena A base s top_seg held" and held: "held \<subseteq> owned s bs"
    and same: "\<And>x. x \<notin> A \<Longrightarrow> m' x = m x"
  shows "mcb_chain base m' s bs top_seg"
  by (rule chain_cong [OF ch]) (rule same, rule apart_headers [OF ch A held])

lemma answers_kept_but:
  assumes "kept base s top_seg held m m'" "\<And>x. x \<notin> A \<Longrightarrow> m'' x = m' x"
  shows "kept_but A base s top_seg held m m''"
  using assms unfolding kept_but_def kept_def by fastforce

lemma answers_miss_block:
  assumes ch: "mcb_chain base m s bs top_seg" and A: "apart_from_arena A base s top_seg held" and held: "held \<subseteq> owned s bs"
    and b: "(seg, w, n) \<in> owned s bs" "\<forall>b\<in>held. fst b \<noteq> seg" and x: "base + 16 * seg \<le> x" "x < base + 16 * (seg + n)"
  shows "x \<notin> A"
proof
  assume "x \<in> A"
  moreover have "s < seg" "seg + n \<le> top_seg" using owned_bounds [OF b(1)] mcb_chain_top [OF ch] by auto
  ultimately obtain seg' w' n' where h: "(seg', w', n') \<in> held" "base + 16 * seg' \<le> x" "x < base + 16 * (seg' + n')"
    using A x unfolding apart_from_arena_def by fastforce
  then have "(seg', w', n') \<noteq> (seg, w, n)" using b(2) by force
  with owned_disjoint [OF b(1), of "(seg', w', n')"] h held x show False by auto
qed

text \<open>What is true of the memory stays true when the answers go into older blocks or outside the arena.\<close>

lemma outcome_answers:
  assumes out: "exec_outcome {} base s top_seg held req exe bytesRead m m' r" and A: "apart_from_arena A base s top_seg held"
    and same: "\<And>x. x \<notin> A \<Longrightarrow> m'' x = m' x"
  shows "exec_outcome A base s top_seg held req exe bytesRead m m'' r"
proof (cases r)
  case None
  with out answers_keep_chain [OF _ A _ same] answers_kept_but [OF _ same] show ?thesis
    by (fastforce simp: exec_outcome_def)
next
  case (Some c)
  { assume fits: "program_fits exe bytesRead (ChildSize c)"
    let ?p = "DosMcbSegmentAddress base (ChildSegment c)" and ?e = "DosMcbSegmentAddress base (EnvironmentSegment c)"
    let ?paras = "unat (env_paras base req m)"
    from out Some fits obtain bs' where ch: "mcb_chain base m' s bs' top_seg" and own: "owned s bs' =
        {(unat (ChildSegment c), ChildSegment c, unat (ChildSize c)), (unat (EnvironmentSegment c), ChildSegment c, ?paras)} \<union> held"
      and size: "0x10 \<le> unat (ChildSize c)" and fresh: "\<forall>b\<in>held. fst b \<noteq> unat (ChildSegment c) \<and> fst b \<noteq> unat (EnvironmentSegment c)"
      by (auto simp: exec_outcome_def)
    have sub: "held \<subseteq> owned s bs'" unfolding own by blast
    have child: "m'' x = m' x" if "?p \<le> x" "x < ?p + 0x100" for x
      using that size fresh by (intro same answers_miss_block [OF ch A sub, of "unat (ChildSegment c)" "ChildSegment c" "unat (ChildSize c)"])
        (auto simp: own segment_address)
    have env: "m'' x = m' x" if "?e \<le> x" "x < ?e + 16 * ?paras" for x
      using that fresh by (intro same answers_miss_block [OF ch A sub, of "unat (EnvironmentSegment c)" "ChildSegment c" ?paras])
        (auto simp: own segment_address)
    have "mcb_chain base m'' s bs' top_seg" by (rule answers_keep_chain [OF ch A sub same])
    moreover have "kept_but A base s top_seg held m m''"
      using out Some fits by (intro answers_kept_but [OF _ same]) (simp_all add: exec_outcome_def)
    moreover have "DosJftOf base m'' (ChildSegment c) = DosJftOf base m' (ChildSegment c)"
      using child by (simp add: DosJftOf_def DosMcbReadWord_def Let_def)
    moreover have "m'' (?p + 0x0A + i) = m' (?p + 0x0A + i)" if "i < 12" for i using that by (intro child) simp_all
    moreover have "environment_in m'' ?e (16 * ?paras) vs (executable_name req)"
      if "environment_in m' ?e (16 * ?paras) vs (executable_name req)" for vs
      by (rule environment_in_same [OF that env])
    ultimately have "exec_outcome A base s top_seg held req exe bytesRead m m'' r"
      using out Some fits own by (auto simp: exec_outcome_def) }
  then show ?thesis using Some by (auto simp: exec_outcome_def)
qed

lemma outcome_jft:
  assumes out: "exec_outcome {} base s top_seg held req exe bytesRead m m' (Some c)"
  shows "exec_outcome {} base s top_seg held req exe bytesRead m (fst (DosJftExec base psp (ChildSegment c) m' h)) (Some c)"
proof -
  { assume fits: "program_fits exe bytesRead (ChildSize c)"
    let ?m = "fst (DosJftExec base psp (ChildSegment c) m' h)"
    let ?p = "DosMcbSegmentAddress base (ChildSegment c)" and ?e = "DosMcbSegmentAddress base (EnvironmentSegment c)"
    let ?paras = "unat (env_paras base req m)" and ?b = "(unat (ChildSegment c), ChildSegment c, unat (ChildSize c))"
    from out fits obtain bs' where ch: "mcb_chain base m' s bs' top_seg" and own: "owned s bs' =
        {?b, (unat (EnvironmentSegment c), ChildSegment c, ?paras)} \<union> held"
      and size: "0x10 \<le> unat (ChildSize c)" and fresh: "\<forall>b\<in>held. fst b \<noteq> unat (ChildSegment c)"
      and diff: "ChildSegment c \<noteq> EnvironmentSegment c"
      and jft: "DosJftOf base m' (ChildSegment c) = Some (?p + 0x18, 20)" and kept: "kept base s top_seg held m m'"
      by (auto simp: exec_outcome_def)
    note within = jft_exec_within [OF jft, of psp h]
    have b: "?b \<in> owned s bs'" unfolding own by simp
    have "changes_within (base + 16 * unat (ChildSegment c)) (16 * unat (ChildSize c)) m' ?m"
      using within size by (auto simp: changes_within_def segment_address)
    note wr = write_block [OF ch b this]
    have sub: "insert (unat (EnvironmentSegment c), ChildSegment c, ?paras) held \<subseteq> owned s bs' - {?b}"
      using fresh diff unfolding own by (auto simp: word_unat_eq_iff)
    note k = kept_subset [OF wr(2) sub]
    have "kept base s top_seg held m ?m" by (rule kept_trans [OF kept kept_subset [OF k]]) blast
    moreover have psp: "?m x = m' x" if "?p \<le> x" "x < ?p + 0x18 \<or> ?p + 0x2C \<le> x" for x
      using within that by (auto simp: changes_within_def)
    moreover have "DosJftOf base ?m (ChildSegment c) = Some (?p + 0x18, 20)"
      unfolding jft [symmetric] by (simp add: DosJftOf_def DosMcbReadWord_def Let_def psp)
    moreover have "environment_in ?m ?e (16 * ?paras) vs (executable_name req)"
      if "environment_in m' ?e (16 * ?paras) vs (executable_name req)" for vs
      by (rule environment_in_same [OF that]) (use k in \<open>auto simp: kept_def segment_address distrib_left\<close>)
    ultimately have "exec_outcome {} base s top_seg held req exe bytesRead m ?m (Some c)"
      using out fits wr(1) own by (auto simp: exec_outcome_def psp) }
  then show ?thesis by (auto simp: exec_outcome_def)
qed

end
