(* ===== verification/Exec_Call.thy ===== *)
theory Exec_Call
  imports Exec_Contract
begin

text \<open>
  EXEC as its caller sees it: the answers in registers, in the flags on the stack and in the parameter block,
  over what \<open>Exec_Contract\<close> shows of the memory. The answers go where the caller points, so what is true of
  the arena afterwards supposes that this is in a block in use or outside the arena.
\<close>

subsection \<open>The flags on the stack\<close>

lemma carry_elsewhere:
  "x \<noteq> a \<Longrightarrow> x \<noteq> a + 1 \<Longrightarrow> set_carry a m x = m x"
  "x \<noteq> a \<Longrightarrow> x \<noteq> a + 1 \<Longrightarrow> clear_carry a m x = m x"
  by (simp_all add: set_carry_def clear_carry_def DosMcbWriteWord_def)

lemma carry_word:
  "DosMcbReadWord (set_carry a m) a = DosMcbReadWord m a OR 1"
  "DosMcbReadWord (clear_carry a m) a = DosMcbReadWord m a AND NOT 1"
  by (simp_all add: set_carry_def clear_carry_def read_write_word)

lemma exec_answer_elsewhere:
  "x < base + 16 * unat (fst block) + unat (snd block) + 0x0E \<or> base + 16 * unat (fst block) + unat (snd block) + 0x16 \<le> x \<Longrightarrow>
   exec_answer base block program m x = m x"
  by (auto simp: exec_answer_def Let_def DosMcbWriteWord_def)

lemma exec_answer_words:
  fixes base :: nat and block :: "u16 \<times> u16"
  defines "p \<equiv> base + 16 * unat (fst block) + unat (snd block)"
  shows "DosMcbReadWord (exec_answer base block program m) (p + 0x0E) = StackPointer program - 2"
    "DosMcbReadWord (exec_answer base block program m) (p + 0x10) = StackSegment program"
    "DosMcbReadWord (exec_answer base block program m) (p + 0x12) = InstructionPointer program"
    "DosMcbReadWord (exec_answer base block program m) (p + 0x14) = CodeSegment program"
  by (simp_all add: exec_answer_def Let_def p_def read_write_word read_write_word_apart)

subsection \<open>What the call reports\<close>

abbreviation block_address :: "nat \<Rightarrow> exec_call \<Rightarrow> nat" where
  "block_address base call \<equiv> base + 16 * unat (fst (ExecBlock call)) + unat (snd (ExecBlock call))"

definition answer_bytes :: "nat \<Rightarrow> exec_call \<Rightarrow> exec_machine \<Rightarrow> exec_child option \<Rightarrow> nat set" where
  \<comment> \<open>the bytes the call answers in: none when the child runs\<close>
  "answer_bytes base call st r =
     (if r \<noteq> None \<and> ExecMode call = LoadAndGo then {}
      else {flags_address base (Tib st), flags_address base (Tib st) + 1}) \<union>
     (if r \<noteq> None \<and> ExecMode call = LoadOnly then {block_address base call + 0x0E..<block_address base call + 0x16} else {})"

definition exec_report :: "nat \<Rightarrow> exec_call \<Rightarrow> exec_machine \<Rightarrow> exec_machine \<Rightarrow> exec_child option \<Rightarrow> bool" where
  "exec_report base call st st' r \<longleftrightarrow>
     (let flags = DosMcbReadWord (Guest st') (flags_address base (Tib st)); p = block_address base call
      in case r of
           None \<Rightarrow> bit flags 0 \<and> Eax (Tib st') AND 0xFFFF = 8 \<and> Eip (Tib st') = Eip (Tib st) + 3 \<and>
             PspSegment st' = PspSegment st \<and> Frames st' = Frames st \<and> Handles st' = Handles st
         | Some c \<Rightarrow>
             if ExecMode call = LoadOnly
             then \<not> bit flags 0 \<and> Eax (Tib st') AND 0xFFFF = 0 \<and> Eip (Tib st') = Eip (Tib st) + 3 \<and>
               PspSegment st' = ChildSegment c \<and> Frames st' = Frames st \<and> Handles st' = Handles st \<and>
               (range_free (p + 0x0E) 8 (flags_address base (Tib st)) 2 \<longrightarrow>
                 DosMcbReadWord (Guest st') (p + 0x0E) = StackPointer (ChildImage c) - 2 \<and>
                 DosMcbReadWord (Guest st') (p + 0x10) = StackSegment (ChildImage c) \<and>
                 DosMcbReadWord (Guest st') (p + 0x12) = InstructionPointer (ChildImage c) \<and>
                 DosMcbReadWord (Guest st') (p + 0x14) = CodeSegment (ChildImage c))
             else Frames st' = exec_frame_of st c # Frames st \<and> PspSegment st' = ChildSegment c \<and>
               Cs (Tib st') = ucast (CodeSegment (ChildImage c)) \<and> Eip (Tib st') = ucast (InstructionPointer (ChildImage c)) \<and>
               Ss (Tib st') = ucast (StackSegment (ChildImage c)) \<and> Esp (Tib st') = ucast (StackPointer (ChildImage c)) \<and>
               Ds (Tib st') = ucast (ChildSegment c) \<and> Es (Tib st') = ucast (ChildSegment c) \<and>
               HandleDepth (Handles st') = HandleDepth (Handles st) + 1)"

definition exec_starts :: "exec_call \<Rightarrow> file_buffer \<Rightarrow> u32 \<Rightarrow> u16 option \<Rightarrow> exec_machine \<Rightarrow> bool" where
  \<comment> \<open>a program to load for running or debugging, within the nesting limit, that Windows did not take\<close>
  "exec_starts call exe bytesRead windows st \<longleftrightarrow>
     length (Frames st) < EXEC_MAX_DEPTH \<and> ExecMode call \<noteq> Overlay \<and>
     (windows = None \<or> ExecMode call = LoadOnly \<or> fst (DosExeKind exe bytesRead) = ExeDos)"

abbreviation request_of :: "exec_call \<Rightarrow> exec_machine \<Rightarrow> exec_request" where
  "request_of call st \<equiv> (ExecRequest call)\<lparr>ParentPsp := PspSegment st\<rparr>"

lemma exec_begin_prepares:
  assumes "exec_starts call exe bytesRead windows st"
    and "exec_prepare base firstMcb (request_of call st) exe bytesRead (Guest st) = Some (m, r)"
  shows "ExecBegin base firstMcb call (Some (exe, bytesRead)) windows st = Some
    (case r of
       None \<Rightarrow> exec_fail base 8 (st\<lparr>Guest := m\<rparr>)
     | Some c \<Rightarrow> if ExecMode call = LoadOnly
         then exec_done base (st\<lparr>Guest := exec_answer base (ExecBlock call) (ChildImage c) m, PspSegment := ChildSegment c\<rparr>)
         else exec_enter base c (st\<lparr>Guest := m\<rparr>))"
  using assms by (auto simp: ExecBegin_def exec_starts_def)

lemma low_word_answers: "(eax AND 0xFFFF0000 OR 8) AND 0xFFFF = (8 :: u32)" "(eax AND 0xFFFF0000) AND 0xFFFF = (0 :: u32)"
  by (simp_all add: bit.conj_disj_distrib2 and.assoc)

lemma outcome_of_report:
  assumes "exec_starts call exe bytesRead windows st"
    and "exec_prepare base firstMcb (request_of call st) exe bytesRead (Guest st) = Some (m, r)"
    and "ExecBegin base firstMcb call (Some (exe, bytesRead)) windows st = Some st'"
  shows "exec_report base call st st' r"
proof (cases r)
  case None
  have st': "st' = exec_fail base 8 (st\<lparr>Guest := m\<rparr>)"
    using None assms(3) exec_begin_prepares [OF assms(1,2)] by simp
  show ?thesis using None unfolding st'
    by (simp add: exec_report_def exec_fail_def carry_word Let_def low_word_answers VDM_BOP_LENGTH_def bit_simps)
next
  case (Some c)
  show ?thesis
  proof (cases "ExecMode call = LoadOnly")
    case True
    let ?p = "block_address base call" and ?f = "flags_address base (Tib st)"
    let ?m = "exec_answer base (ExecBlock call) (ChildImage c) m"
    have st': "st' = exec_done base (st\<lparr>Guest := ?m, PspSegment := ChildSegment c\<rparr>)"
      using True Some assms(3) exec_begin_prepares [OF assms(1,2)] by simp
    have "DosMcbReadWord (clear_carry ?f ?m) (?p + k) = DosMcbReadWord ?m (?p + k)"
      if "range_free (?p + 0x0E) 8 ?f 2" "0x0E \<le> k" "k \<le> 0x14" for k
      using that by (auto simp: range_free_def DosMcbReadWord_def carry_elsewhere)
    then show ?thesis using True Some exec_answer_words [of base "ExecBlock call" "ChildImage c" m]
      unfolding st' by (simp add: exec_report_def exec_done_def carry_word Let_def low_word_answers VDM_BOP_LENGTH_def bit_simps)
  next
    case False
    then have "st' = exec_enter base c (st\<lparr>Guest := m\<rparr>)"
      using Some assms(3) exec_begin_prepares [OF assms(1,2)] by simp
    then show ?thesis using False Some jft_exec_stack [of base "PspSegment st" "ChildSegment c" m "DosHandlesPush (Handles st)"]
      by (auto simp: exec_report_def exec_enter_def exec_frame_of_def DosHandlesPush_def Let_def split: prod.splits)
  qed
qed

text \<open>
  C4. EXEC gives a child memory of its own and takes nothing else but the bytes of its answers. Let the arena be a well-formed
  chain, and the call load a program to run it or to debug it (AL = 00 or 01) within the nesting limit, one that Windows
  does not take. \<^verbatim>\<open>ExecBegin\<close> returns and reports what it did: a refusal as error 8 with the carry set in the flags on the
  caller's stack; a program only loaded by the entry SS:SP and CS:IP in the caller's parameter block, the carry clear and the
  child's PSP current; a program run by the child's registers and the parent's frame. When those answers (none of them
  when the child runs) go into blocks in use or outside the arena, then: after a refusal the blocks in use are those
  before; and, for a program that fits the block its header asked for, the chain is well formed, the blocks in use
  are those before and two new ones, the child's program and its environment, both owned by the child; but for
  the answers no byte of an older block, nor any outside the arena, has changed; the child's PSP has its job file table and the parent's
  vectors; and the child's environment reads as the parent's variables followed by the name of the program.
\<close>

theorem exec_begin_sound:
  fixes firstMcb :: u16
  assumes "mcb_chain base (Guest st) (unat firstMcb) bs top_seg" and "exec_starts call exe bytesRead windows st"
  shows "\<exists>st' r. ExecBegin base firstMcb call (Some (exe, bytesRead)) windows st = Some st' \<and> exec_report base call st st' r \<and>
    (apart_from_arena (answer_bytes base call st r) base (unat firstMcb) top_seg (owned (unat firstMcb) bs) \<longrightarrow>
     exec_outcome (answer_bytes base call st r) base (unat firstMcb) top_seg (owned (unat firstMcb) bs)
       (request_of call st) exe bytesRead (Guest st) (Guest st') r)"
proof -
  let ?out = "\<lambda>A m' r. exec_outcome A base (unat firstMcb) top_seg (owned (unat firstMcb) bs) (request_of call st) exe bytesRead (Guest st) m' r"
  obtain m r where prep: "exec_prepare base firstMcb (request_of call st) exe bytesRead (Guest st) = Some (m, r)" and out: "?out {} m r"
    using exec_prepare_outcome [OF assms(1)] by blast
  obtain st' where st': "ExecBegin base firstMcb call (Some (exe, bytesRead)) windows st = Some st'"
    using exec_begin_prepares [OF assms(2) prep] by blast
  have "?out (answer_bytes base call st r) (Guest st') r"
    if apart: "apart_from_arena (answer_bytes base call st r) base (unat firstMcb) top_seg (owned (unat firstMcb) bs)"
  proof (cases "r \<noteq> None \<and> ExecMode call \<noteq> LoadOnly")
    case True
    then obtain c where c: "r = Some c" by blast
    have "Guest st' = fst (DosJftExec base (PspSegment st) (ChildSegment c) m (DosHandlesPush (Handles st)))"
      using True c st' exec_begin_prepares [OF assms(2) prep] by (auto simp: exec_enter_def Let_def split: prod.splits)
    moreover have "answer_bytes base call st r = {}"
      using True assms(2) by (cases "ExecMode call") (auto simp: answer_bytes_def exec_starts_def)
    ultimately show ?thesis using outcome_jft [OF out [unfolded c]] c by simp
  next
    case False
    have "Guest st' x = m x" if "x \<notin> answer_bytes base call st r" for x
      using that False st' exec_begin_prepares [OF assms(2) prep]
      by (auto simp: answer_bytes_def exec_fail_def exec_done_def carry_elsewhere exec_answer_elsewhere split: option.splits if_splits)
    from outcome_answers [OF out apart this] show ?thesis .
  qed
  with st' outcome_of_report [OF assms(2) prep st'] show ?thesis by blast
qed

end
