(* ===== verification/Exec_Exit.thy ===== *)
theory Exec_Exit
  imports Exec_Call
begin

text \<open>
  What a program's exit does to the arena: the search for blocks of an owner walks the chain, each pass of
  the exit frees the first of them, and the header of every freed block stays one of the chain's, so that
  the last free, of an environment the passes have freed already, changes nothing. With the theorem on EXEC
  this gives the round trip from a parent's memory through a child and back.
\<close>

subsection \<open>A program's exit\<close>

lemma find_owned_chain:
  "mcb_chain base m s bs top_seg \<Longrightarrow> guard + length bs \<le> 1024 \<Longrightarrow>
   (if \<forall>b\<in>set bs. fst b \<noteq> owner then find_owned base m owner (of_nat s) guard = 0
    else \<exists>xs n ys. bs = xs @ (owner, n) # ys \<and> (\<forall>b\<in>set xs. fst b \<noteq> owner) \<and>
      find_owned base m owner (of_nat s) guard = of_nat (s + span xs + 1))"
proof (induction bs arbitrary: s guard)
  case (Cons b bs)
  obtain w n where b: "b = (w, n)" by fastforce
  note hd = chain_head [OF Cons.prems(1) [unfolded b]]
  have addr: "DosMcbSegmentAddress base (of_nat s) = base + 16 * s" using hd(7) by (rule seg_address)
  have step: "find_owned base m owner (of_nat s) guard =
      (if w = owner then of_nat (s + 1) else if bs = [] then 0
       else find_owned base m owner (of_nat (s + 1 + n)) (Suc guard))"
    using Cons.prems(2) hd sig_before_valid [of bs] unfolding find_owned.simps [of base m owner "of_nat s" guard] Let_def addr
    by (auto simp: sig_before_def ac_simps)
  show ?case
  proof (cases "w = owner")
    case True
    then show ?thesis unfolding b step by (auto intro!: exI [of _ "[]"])
  next
    case False
    show ?thesis
    proof (cases "bs = []")
      case True
      with False show ?thesis unfolding b step by simp
    next
      case False2: False
      have "mcb_chain base m (s + 1 + n) bs top_seg" using Cons.prems(1) False2 unfolding b by simp
      from Cons.IH [OF this, of "Suc guard"] Cons.prems(2) show ?thesis
        unfolding b step using False False2
        by (auto simp: add.assoc intro!: exI [of _ "(w, n) # _"] split: if_splits)
    qed
  qed
qed simp

lemma listed_header: "s + span xs \<in> headers s (xs @ b # ys)"
proof (induction xs arbitrary: s)
  case (Cons a xs)
  from Cons [of "s + 1 + snd a"] show ?case by (simp add: ac_simps)
qed simp

lemma kept_header:
  assumes ch: "mcb_chain base m s (xs @ b # ys) top_seg" and o: "only_paras base {s + span xs} m m'"
  shows "kept base s top_seg (owned s (xs @ b # ys)) m m'"
proof -
  let ?h = "s + span xs"
  have h: "?h \<in> headers s (xs @ b # ys)" by (rule listed_header)
  have same: "m' x = m x" if "x < base + 16 * ?h \<or> base + 16 * ?h + 16 \<le> x" for x
    using o that unfolding only_paras_def by blast
  have "s \<le> ?h \<and> ?h < top_seg" using mcb_chain_top [OF ch] by auto
  moreover have "?h < seg \<or> seg + n \<le> ?h" if "(seg, w, n) \<in> owned s (xs @ b # ys)" for seg w n
    by (rule data_apart [OF that h])
  ultimately show ?thesis
    by (intro kept_within [of _ "base + 16 * ?h" 16]) (fastforce simp: changes_within_def intro!: same)+
qed

lemma absorb_filter: "length (filter (\<lambda>b. fst b = w) (snd (absorb n ys))) \<le> length (filter (\<lambda>b. fst b = w) ys)"
  by (induction n ys rule: absorb.induct) (auto simp: le_SucI)

text \<open>Freeing a block that the list shows, whether in use or free already.\<close>

lemma free_listed:
  assumes ch: "mcb_chain base m s (xs @ (w, n) # ys) top_seg"
  shows "\<exists>m' k ys'. DosMcbFree base m (of_nat (s + span xs + 1)) = Some (m', None) \<and>
    mcb_chain base m' s (xs @ (DOS_MCB_OWNER_FREE, k) # ys') top_seg \<and>
    owned s (xs @ (DOS_MCB_OWNER_FREE, k) # ys') = owned s (xs @ (w, n) # ys) - {(s + span xs + 1, w, n)} \<and>
    kept base s top_seg (owned s (xs @ (w, n) # ys)) m m' \<and> length ys' \<le> length ys \<and>
    (\<forall>v. length (filter (\<lambda>b. fst b = v) ys') \<le> length (filter (\<lambda>b. fst b = v) ys))"
proof -
  obtain k ys' where ab: "absorb n ys = (k, ys')" by fastforce
  obtain m' where m': "DosMcbFree base m (of_nat (s + span xs + 1)) = Some (m', None)"
    "mcb_chain base m' s (xs @ (DOS_MCB_OWNER_FREE, k) # ys') top_seg" "only_paras base {s + span xs} m m'"
    using free_refines [OF ch] ab by auto
  have "owned s (xs @ (DOS_MCB_OWNER_FREE, k) # ys') = owned s xs \<union> owned (s + span xs + 1 + n) ys"
    using free_owned [of s xs n ys] ab by simp
  moreover have "owned s xs \<union> owned (s + span xs + 1 + n) ys = owned s (xs @ (w, n) # ys) - {(s + span xs + 1, w, n)}"
  proof (cases "w = DOS_MCB_OWNER_FREE")
    case True
    have "(s + span xs + 1, w, n) \<notin> owned s (xs @ (w, n) # ys)"
      using owned_split [of "s + span xs + 1" w n s "xs @ (w, n) # ys"] True by blast
    with True show ?thesis by auto
  qed (rule owned_without [symmetric])
  ultimately have "owned s (xs @ (DOS_MCB_OWNER_FREE, k) # ys') = owned s (xs @ (w, n) # ys) - {(s + span xs + 1, w, n)}"
    by (rule trans)
  moreover have "\<forall>v. length (filter (\<lambda>b. fst b = v) ys') \<le> length (filter (\<lambda>b. fst b = v) ys)"
    using absorb_filter [of _ n ys] unfolding ab by simp
  ultimately show ?thesis using m'(1,2) kept_header [OF ch m'(3)] absorb_length [OF ab] by blast
qed

lemma owner_in_chain: "(seg, w, n) \<in> owned s bs \<Longrightarrow> \<exists>b\<in>set bs. fst b = w"
  using owned_split [of seg w n s bs] by force

lemma none_owned: "\<forall>b\<in>set bs. fst b \<noteq> w \<Longrightarrow> (seg, w, n) \<notin> owned s bs"
  using owner_in_chain by blast

definition still_listed :: "nat \<Rightarrow> nat \<Rightarrow> block list \<Rightarrow> bool" where
  \<comment> \<open>the block is free and its header still one of the chain's\<close>
  "still_listed s seg bs \<longleftrightarrow> (\<exists>xs k ys. bs = xs @ (DOS_MCB_OWNER_FREE, k) # ys \<and> seg = s + span xs + 1)"

lemma prefix_before:
  "pre @ rest = xs @ b # ys \<Longrightarrow> \<forall>c\<in>set pre. \<not> P c \<Longrightarrow> P b \<Longrightarrow> \<exists>us. xs = pre @ us"
proof (induction pre arbitrary: xs)
  case (Cons a pre)
  then show ?case by (cases xs) auto
qed simp

lemma free_owned_sound:
  fixes firstMcb owner :: u16
  defines "s \<equiv> unat firstMcb"
  assumes "owner \<noteq> DOS_MCB_OWNER_FREE"
  shows "mcb_chain base m s bs top_seg \<Longrightarrow> length bs \<le> 1024 \<Longrightarrow> length (filter (\<lambda>b. fst b = owner) bs) \<le> passes \<Longrightarrow>
    \<exists>m' bs'. free_owned_blocks passes base firstMcb owner m = Some m' \<and> mcb_chain base m' s bs' top_seg \<and>
      owned s bs' = {b \<in> owned s bs. fst (snd b) \<noteq> owner} \<and> kept base s top_seg (owned s bs') m m' \<and>
      (\<forall>pre rest. bs = pre @ rest \<and> (\<forall>b\<in>set pre. fst b \<noteq> owner) \<longrightarrow> (\<exists>rest'. bs' = pre @ rest')) \<and>
      (\<forall>seg n. (seg, owner, n) \<in> owned s bs \<longrightarrow> still_listed s seg bs')"
proof (induction passes arbitrary: m bs)
  case 0
  then have none: "\<forall>b\<in>set bs. fst b \<noteq> owner" by (simp add: filter_empty_conv)
  then have "owned s bs = {b \<in> owned s bs. fst (snd b) \<noteq> owner}" "(seg, owner, n) \<notin> owned s bs" for seg n
    using none_owned by force+
  then show ?case using 0 by (intro exI [of _ m] exI [of _ bs]) auto
next
  case (Suc passes)
  have find: "if \<forall>b\<in>set bs. fst b \<noteq> owner then find_owned base m owner firstMcb 0 = 0
    else \<exists>xs n ys. bs = xs @ (owner, n) # ys \<and> (\<forall>b\<in>set xs. fst b \<noteq> owner) \<and>
      find_owned base m owner firstMcb 0 = of_nat (s + span xs + 1)"
  proof -
    have first: "of_nat s = firstMcb" by (simp add: s_def)
    have "0 + length bs \<le> 1024" using Suc.prems(2) by simp
    from find_owned_chain [OF Suc.prems(1) this, of owner] show ?thesis unfolding first .
  qed
  show ?case
  proof (cases "\<forall>b\<in>set bs. fst b \<noteq> owner")
    case True
    then have "owned s bs = {b \<in> owned s bs. fst (snd b) \<noteq> owner}" "(seg, owner, n) \<notin> owned s bs" for seg n
      using none_owned by force+
    then show ?thesis using Suc.prems True find by (intro exI [of _ m] exI [of _ bs]) auto
  next
    case False
    obtain xs n ys where xs: "bs = xs @ (owner, n) # ys" "\<forall>b\<in>set xs. fst b \<noteq> owner"
      "find_owned base m owner firstMcb 0 = of_nat (s + span xs + 1)" using find False by auto
    let ?hit = "(s + span xs + 1, owner, n)"
    note ch = Suc.prems(1) [unfolded xs(1)]
    have "s + span xs + 1 \<le> 65535" using mcb_chain_top [OF ch] by simp
    then have hit: "(of_nat (s + span xs + 1) :: u16) \<noteq> 0" by (subst seg_eq [of _ 0, simplified]) auto
    obtain m1 k ys' where f: "DosMcbFree base m (of_nat (s + span xs + 1)) = Some (m1, None)"
      "mcb_chain base m1 s (xs @ (DOS_MCB_OWNER_FREE, k) # ys') top_seg"
      "owned s (xs @ (DOS_MCB_OWNER_FREE, k) # ys') = owned s bs - {?hit}"
      "kept base s top_seg (owned s bs) m m1" "length ys' \<le> length ys"
      "length (filter (\<lambda>b. fst b = owner) ys') \<le> length (filter (\<lambda>b. fst b = owner) ys)"
      using free_listed [OF ch] unfolding xs(1) by blast
    let ?bs1 = "xs @ (DOS_MCB_OWNER_FREE, k) # ys'"
    have "length ?bs1 \<le> 1024" "length (filter (\<lambda>b. fst b = owner) ?bs1) \<le> passes"
      using Suc.prems(2,3) f(5,6) assms(2) unfolding xs(1) by auto
    from Suc.IH [OF f(2) this] obtain m' bs' where r: "free_owned_blocks passes base firstMcb owner m1 = Some m'"
      "mcb_chain base m' s bs' top_seg" "owned s bs' = {b \<in> owned s ?bs1. fst (snd b) \<noteq> owner}"
      "kept base s top_seg (owned s bs') m1 m'"
      "\<forall>pre rest. ?bs1 = pre @ rest \<and> (\<forall>b\<in>set pre. fst b \<noteq> owner) \<longrightarrow> (\<exists>rest'. bs' = pre @ rest')"
      "\<forall>seg n. (seg, owner, n) \<in> owned s ?bs1 \<longrightarrow> still_listed s seg bs'"
      by (elim exE conjE)
    have keeps_prefix: "\<exists>rest'. bs' = pre @ rest'" if "?bs1 = pre @ rest" "\<forall>b\<in>set pre. fst b \<noteq> owner" for pre rest
      using r(5) that by blast
    have owned: "owned s bs' = {b \<in> owned s bs. fst (snd b) \<noteq> owner}" unfolding r(3) f(3) by auto
    have "kept base s top_seg (owned s bs') m m1" by (rule kept_subset [OF f(4)]) (auto simp: owned)
    then have kept: "kept base s top_seg (owned s bs') m m'" using r(4) by (rule kept_trans)
    have pre: "\<exists>rest'. bs' = pre @ rest'" if p: "bs = pre @ rest" "\<forall>b\<in>set pre. fst b \<noteq> owner" for pre rest
    proof -
      have "pre @ rest = xs @ (owner, n) # ys" using p(1) xs(1) by simp
      then obtain us where "xs = pre @ us"
        using prefix_before [of pre rest xs "(owner, n)" ys "\<lambda>b. fst b = owner"] p(2) by auto
      then show ?thesis using keeps_prefix [of pre "us @ (DOS_MCB_OWNER_FREE, k) # ys'"] p(2) by simp
    qed
    have "\<forall>b\<in>set (xs @ [(DOS_MCB_OWNER_FREE, k)]). fst b \<noteq> owner" using xs(2) assms(2) by auto
    from keeps_prefix [OF _ this] obtain rest' where "bs' = xs @ (DOS_MCB_OWNER_FREE, k) # rest'" by auto
    then have "still_listed s (s + span xs + 1) bs'" unfolding still_listed_def by blast
    moreover have "still_listed s seg bs'" if "(seg, owner, j) \<in> owned s bs" "(seg, owner, j) \<noteq> ?hit" for seg j
      using r(6) that f(3) by blast
    ultimately have listed: "still_listed s seg bs'" if "(seg, owner, j) \<in> owned s bs" for seg j
      using that by blast
    show ?thesis
    proof (intro exI conjI)
      show "free_owned_blocks (Suc passes) base firstMcb owner m = Some m'" using xs(3) hit f(1) r(1) by simp
      show "mcb_chain base m' s bs' top_seg" by (rule r(2))
      show "owned s bs' = {b \<in> owned s bs. fst (snd b) \<noteq> owner}" by (rule owned)
      show "kept base s top_seg (owned s bs') m m'" by (rule kept)
      show "\<forall>pre rest. bs = pre @ rest \<and> (\<forall>b\<in>set pre. fst b \<noteq> owner) \<longrightarrow> (\<exists>rest'. bs' = pre @ rest')"
        by (intro allI impI, elim conjE) (rule pre)
      show "\<forall>seg n. (seg, owner, n) \<in> owned s bs \<longrightarrow> still_listed s seg bs'"
        by (intro allI impI) (rule listed)
    qed
  qed
qed

lemma exec_exit_sound:
  fixes firstMcb child :: u16
  defines "s \<equiv> unat firstMcb"
  assumes ch: "mcb_chain base m s bs top_seg" and few: "length bs \<le> 1024" and low: "0x94 \<le> 16 * s"
    and held: "owned s bs = held \<union> mine" "\<forall>b\<in>mine. fst (snd b) = child" "\<forall>b\<in>held. fst (snd b) \<noteq> child"
    and own: "(unat child, child, n) \<in> mine" "(unat env, child, k) \<in> mine" and apart: "child \<noteq> env"
  shows "\<exists>m' bs'. exec_release base firstMcb child env m = Some m' \<and> mcb_chain base m' s bs' top_seg \<and>
    owned s bs' = held \<and> kept base s top_seg held (DosPspRestoreVectors base m child) m'"
proof -
  have cb: "(unat child, child, n) \<in> owned s bs" and eb: "(unat env, child, k) \<in> owned s bs" using held(1) own by auto
  have nz: "child \<noteq> 0" "env \<noteq> 0" using owned_bounds [OF cb] owned_bounds [OF eb] by auto
  then have owner: "child \<noteq> DOS_MCB_OWNER_FREE" by (simp add: DOS_MCB_OWNER_FREE_def)
  define m0 where "m0 = DosPspRestoreVectors base m child"
  have above: "base + 0x94 \<le> DosMcbSegmentAddress base child"
    using owned_bounds [OF cb] low by (simp add: segment_address)
  have "m0 x = m x" if "base + 16 * s \<le> x" for x
    unfolding m0_def restored_vectors [OF above] using that low by (simp add: mem_copied_outside)
  then have ch0: "mcb_chain base m0 s bs top_seg"
    by (intro chain_cong [OF ch]) (use headers_bounds in fastforce)
  obtain xs ys where xs: "bs = xs @ (child, n) # ys" "unat child = s + span xs + 1"
    using owned_split [OF cb] by blast
  obtain m1 j ys' where f: "DosMcbFree base m0 (of_nat (s + span xs + 1)) = Some (m1, None)"
    "mcb_chain base m1 s (xs @ (DOS_MCB_OWNER_FREE, j) # ys') top_seg"
    "owned s (xs @ (DOS_MCB_OWNER_FREE, j) # ys') = owned s bs - {(unat child, child, n)}"
    "kept base s top_seg (owned s bs) m0 m1" "length ys' \<le> length ys"
    using free_listed [OF ch0 [unfolded xs(1)]] unfolding xs by blast
  have free1: "DosMcbFree base m0 child = Some (m1, None)" using f(1) xs(2) by (metis of_nat_unat ucast_id)
  let ?bs1 = "xs @ (DOS_MCB_OWNER_FREE, j) # ys'"
  have len1: "length ?bs1 \<le> 1024" using few f(5) unfolding xs(1) by simp
  have "length (filter (\<lambda>b. fst b = child) ?bs1) \<le> length ?bs1" by (rule length_filter_le)
  then have passes: "length (filter (\<lambda>b. fst b = child) ?bs1) \<le> DOS_MCB_WALK_LIMIT"
    using len1 by (simp only: DOS_MCB_WALK_LIMIT_def)
  obtain m2 bs2 where r: "free_owned_blocks DOS_MCB_WALK_LIMIT base firstMcb child m1 = Some m2"
    "mcb_chain base m2 s bs2 top_seg" "owned s bs2 = {b \<in> owned s ?bs1. fst (snd b) \<noteq> child}"
    "kept base s top_seg (owned s bs2) m1 m2"
    "\<forall>seg n. (seg, child, n) \<in> owned s ?bs1 \<longrightarrow> still_listed s seg bs2"
    using free_owned_sound [OF owner f(2) [unfolded s_def] len1 passes] unfolding s_def by (elim exE conjE)
  have owned2: "owned s bs2 = held" unfolding r(3) f(3) held(1) using held(2,3) own(1) by auto
  have "(unat env, child, k) \<in> owned s ?bs1" unfolding f(3) using eb apart by (auto simp: word_unat_eq_iff)
  then obtain us i vs where us: "bs2 = us @ (DOS_MCB_OWNER_FREE, i) # vs" "unat env = s + span us + 1"
    using r(5) unfolding still_listed_def by blast
  obtain m3 i' vs' where g: "DosMcbFree base m2 (of_nat (s + span us + 1)) = Some (m3, None)"
    "mcb_chain base m3 s (us @ (DOS_MCB_OWNER_FREE, i') # vs') top_seg"
    "owned s (us @ (DOS_MCB_OWNER_FREE, i') # vs') = owned s bs2 - {(s + span us + 1, DOS_MCB_OWNER_FREE, i)}"
    "kept base s top_seg (owned s bs2) m2 m3"
    using free_listed [OF r(2) [unfolded us(1)]] unfolding us(1) by blast
  have free3: "DosMcbFree base m2 env = Some (m3, None)" using g(1) us(2) by (metis of_nat_unat ucast_id)
  have "(x, DOS_MCB_OWNER_FREE, i) \<notin> owned s bs2" for x using owned_split [of x DOS_MCB_OWNER_FREE i s bs2] by blast
  then have owned3: "owned s (us @ (DOS_MCB_OWNER_FREE, i') # vs') = held" unfolding g(3) owned2 [symmetric] by blast
  have "kept base s top_seg held m0 m3"
    using kept_trans [OF kept_trans [OF kept_subset [OF f(4)] r(4) [unfolded owned2]] g(4) [unfolded owned2]] held(1) by blast
  moreover have "exec_release base firstMcb child env m = Some m3"
    by (simp add: exec_release_def nz free1 [unfolded m0_def] r(1) free3)
  ultimately show ?thesis using g(2) owned3 unfolding m0_def by blast
qed

lemma exec_release_unwinds:
  fixes firstMcb :: u16
  defines "s \<equiv> unat firstMcb"
  assumes low: "0x94 \<le> 16 * s" and fits: "program_fits exe bytesRead (ChildSize c)"
    and out: "exec_outcome {} base s top_seg (owned s bs) req exe bytesRead m m1 (Some c)"
    and run: "mcb_chain base m2 s bs2 top_seg" "length bs2 \<le> 1024"
    and held: "owned s bs2 = owned s bs \<union> mine" "\<forall>b\<in>mine. fst (snd b) = ChildSegment c" "\<forall>b\<in>owned s bs. fst (snd b) \<noteq> ChildSegment c"
    and own: "(unat (ChildSegment c), ChildSegment c, n) \<in> mine" "(unat (EnvironmentSegment c), ChildSegment c, k) \<in> mine"
    and same: "\<forall>i<12. m2 (DosMcbSegmentAddress base (ChildSegment c) + 0x0A + i) = m1 (DosMcbSegmentAddress base (ChildSegment c) + 0x0A + i)"
  shows "\<exists>m3 bs3. exec_release base firstMcb (ChildSegment c) (EnvironmentSegment c) m2 = Some m3 \<and>
    mcb_chain base m3 s bs3 top_seg \<and> owned s bs3 = owned s bs \<and>
    (\<forall>(seg, w, n)\<in>owned s bs. \<forall>x. base + 16 * seg \<le> x \<and> x < base + 16 * (seg + n) \<longrightarrow> m3 x = m2 x) \<and>
    (\<forall>i<12. m3 (base + 0x88 + i) = m (base + 0x88 + i))"
proof -
  let ?child = "ChildSegment c" and ?held = "owned s bs"
  have begun: "?child \<noteq> EnvironmentSegment c"
    "\<forall>i<12. m1 (DosMcbSegmentAddress base ?child + 0x0A + i) = m (base + 0x88 + i)"
    using out low fits by (simp_all add: exec_outcome_def)
  obtain m3 bs3 where x: "exec_release base firstMcb ?child (EnvironmentSegment c) m2 = Some m3"
    "mcb_chain base m3 s bs3 top_seg" "owned s bs3 = ?held"
    "kept base s top_seg ?held (DosPspRestoreVectors base m2 ?child) m3"
    using exec_exit_sound [OF run [unfolded s_def] low [unfolded s_def] held(1) [unfolded s_def] held(2)
        held(3) [unfolded s_def] own begun(1)] unfolding s_def by blast
  have "(unat ?child, ?child, n) \<in> owned s bs2" using held(1) own(1) by blast
  then have above: "base + 0x94 \<le> DosMcbSegmentAddress base ?child"
    using owned_bounds [of "(unat ?child, ?child, n)" s bs2] low by (simp add: segment_address)
  have "m3 x = m2 x" if b: "(seg, w, j) \<in> ?held" and "base + 16 * seg \<le> x" "x < base + 16 * (seg + j)" for seg w j x
  proof -
    have "m3 x = DosPspRestoreVectors base m2 ?child x" using x(4) that unfolding kept_def by blast
    also have "\<dots> = m2 x" using owned_bounds [OF b] low that(2)
      unfolding restored_vectors [OF above] by (auto intro: mem_copied_outside)
    finally show ?thesis .
  qed
  moreover have "m3 (base + 0x88 + i) = m (base + 0x88 + i)" if i: "i < 12" for i
  proof -
    have "m3 (base + 0x88 + i) = DosPspRestoreVectors base m2 ?child (base + 0x88 + i)"
      by (rule kept_outside [OF x(4)]) (use low i in simp)
    then show ?thesis using begun(2) same i unfolding restored_vectors [OF above] by (simp add: mem_copied_inside)
  qed
  ultimately show ?thesis using x by blast
qed

subsection \<open>The parent goes on\<close>

definition flag_bytes :: "nat \<Rightarrow> exec_machine \<Rightarrow> nat set" where
  "flag_bytes base st = {flags_address base (Tib st), flags_address base (Tib st) + 1}"

definition parent_resumed :: "nat \<Rightarrow> exec_machine \<Rightarrow> exec_machine \<Rightarrow> exec_machine \<Rightarrow> bool" where
  \<comment> \<open>the caller of EXEC, the child as it ends, the caller as it goes on\<close>
  "parent_resumed base st st2 st3 \<longleftrightarrow>
     PspSegment st3 = PspSegment st \<and> Dta st3 = Dta st \<and> Frames st3 = Frames st \<and>
     Tib st3 = (Tib st)\<lparr>Cs := Cs (Tib st) AND 0xFFFF, Ss := Ss (Tib st) AND 0xFFFF, Ds := Ds (Tib st) AND 0xFFFF,
       Es := Es (Tib st) AND 0xFFFF, Eax := Eax (Tib st) AND 0xFFFF0000, Eip := Eip (Tib st) + 3\<rparr> \<and>
     \<not> bit (DosMcbReadWord (Guest st3) (flags_address base (Tib st))) 0 \<and>
     ChildReturnCode st3 = push_bit 8 (ucast (TermType st2)) OR ucast (ExitCode st2 AND 0xFF)"

definition handles_restored :: "exec_machine \<Rightarrow> exec_machine \<Rightarrow> exec_machine \<Rightarrow> exec_machine \<Rightarrow> nat list \<Rightarrow> bool" where
  \<comment> \<open>with the handles closed; the child may use the stack of tables above its parent's\<close>
  "handles_restored st st1 st2 st3 closed \<longleftrightarrow>
     (HandleDepth (Handles st) < DOS_HANDLE_STACK_DEPTH \<and> length (HandleStack (Handles st)) = DOS_HANDLE_STACK_DEPTH \<and>
      HandleDepth (Handles st2) = HandleDepth (Handles st1) \<and>
      take (HandleDepth (Handles st1)) (HandleStack (Handles st2)) = take (HandleDepth (Handles st1)) (HandleStack (Handles st1)) \<longrightarrow>
       dos_handle_frame.truncate (Handles st3) = dos_handle_frame.truncate (Handles st) \<and>
       HandleDepth (Handles st3) = HandleDepth (Handles st) \<and> set closed \<inter> set (FileHandles (Handles st)) = {})"

lemma flags_of_frame: "flags_address base (FrameRegisters (exec_frame_of st c)) = flags_address base (Tib st)"
  by (simp add: flags_address_def exec_frame_of_def VDM_REG16_def and.assoc)

lemma exec_enter_parts:
  "Frames (exec_enter base c st) = exec_frame_of st c # Frames st"
  "Guest (exec_enter base c st) = fst (DosJftExec base (PspSegment st) (ChildSegment c) (Guest st) (DosHandlesPush (Handles st)))"
  "HandleStack (Handles (exec_enter base c st)) = HandleStack (DosHandlesPush (Handles st))"
  "HandleDepth (Handles (exec_enter base c st)) = HandleDepth (DosHandlesPush (Handles st))"
  using jft_exec_stack [of base "PspSegment st" "ChildSegment c" "Guest st" "DosHandlesPush (Handles st)"]
  by (auto simp: exec_enter_def Let_def split: prod.splits)

lemma exec_enter_runs:
  assumes "exec_starts call exe bytesRead windows st" "ExecMode call = LoadAndGo"
    and "exec_prepare base firstMcb (request_of call st) exe bytesRead (Guest st) = Some (m, Some c)"
  shows "ExecBegin base firstMcb call (Some (exe, bytesRead)) windows st = Some (exec_enter base c (st\<lparr>Guest := m\<rparr>))"
  using exec_begin_prepares [OF assms(1,3)] assms(2) by simp

lemma terminate_resumes:
  assumes frames: "Frames st2 = exec_frame_of st c # Frames st" and leaves: "\<not> IsTsrPending st2"
    and freed: "exec_release base firstMcb (ChildSegment c) (EnvironmentSegment c) (Guest st2) = Some m3"
  shows "\<exists>st3 closed. DosTerminate base firstMcb st2 = Some (st3, True, closed) \<and>
    Guest st3 = clear_carry (flags_address base (Tib st)) m3 \<and> parent_resumed base st st2 st3 \<and>
    (Handles st3, closed) = DosHandlesPop (Handles st2) False"
proof -
  obtain h closed where pop: "DosHandlesPop (Handles st2) False = (h, closed)" by fastforce
  let ?st = "st2\<lparr>Frames := Frames st, Handles := h, TermType := 0,
    ChildReturnCode := push_bit 8 (ucast (TermType st2)) OR ucast (ExitCode st2 AND 0xFF), Guest := m3\<rparr>"
  have "FrameChild (exec_frame_of st c) = ChildSegment c" "FrameEnvironment (exec_frame_of st c) = EnvironmentSegment c"
    by (simp_all add: exec_frame_of_def)
  then have "DosTerminate base firstMcb st2 = Some (exec_resume base (exec_frame_of st c) ?st, True, closed)"
    using leaves by (simp add: DosTerminate_def frames pop freed Let_def)
  moreover have "Guest (exec_resume base (exec_frame_of st c) ?st) = clear_carry (flags_address base (Tib st)) m3"
    by (simp add: exec_resume_def exec_done_def flags_of_frame)
  moreover have "(Handles (exec_resume base (exec_frame_of st c) ?st), closed) = DosHandlesPop (Handles st2) False"
    by (simp add: pop exec_resume_def exec_done_def)
  moreover have "parent_resumed base st st2 (exec_resume base (exec_frame_of st c) ?st)"
    by (simp add: parent_resumed_def exec_resume_def exec_done_def flags_of_frame carry_word bit_simps)
      (simp add: exec_frame_of_def VDM_BOP_LENGTH_def)
  ultimately show ?thesis by blast
qed

text \<open>
  C5. A program's exit gives back exactly what it had, and its parent goes on where it called. Let EXEC (AL = 00) have started a
  child that fits its block, and let the child
  run: it may change its own memory, resize and allocate and free, and have run children of its own that have ended, as long as it
  leaves a well-formed chain of at most 1024 blocks in which the older blocks stand, every other block is its own, its program
  and environment are still there, and the PSP's copies of the vectors are; and let it not stay resident. \<^verbatim>\<open>DosTerminate\<close> returns: the blocks
  in use are those before EXEC, with the bytes the child left in them, and INT 22h, 23h and 24h point where
  they pointed when EXEC was called, and then, the last of all, the carry is cleared in the flags the parent's IRET will restore; when
  that word is in a block in use or outside the arena, the chain stands after it too. The parent has its PSP,
  its DTA and its registers again, with AX = 0 and past the call, the child's return code,
  and, with fewer than eight tables on the stack, its handle table, none of whose handles has been closed.
\<close>

theorem exec_exit_unwinds:
  fixes firstMcb :: u16
  defines "s \<equiv> unat firstMcb"
  assumes "mcb_chain base (Guest st) s bs top_seg" and "0x94 \<le> 16 * s"
    and "exec_starts call exe bytesRead windows st" and "ExecMode call = LoadAndGo"
    and "exec_prepare base firstMcb (request_of call st) exe bytesRead (Guest st) = Some (m0, Some c)"
    and "program_fits exe bytesRead (ChildSize c)"
    and "ExecBegin base firstMcb call (Some (exe, bytesRead)) windows st = Some st1"
    and "Frames st2 = Frames st1" and "\<not> IsTsrPending st2"
    and "mcb_chain base (Guest st2) s bs2 top_seg" and "length bs2 \<le> 1024"
    and "owned s bs2 = owned s bs \<union> mine" and "\<forall>b\<in>mine. fst (snd b) = ChildSegment c"
    and "\<forall>b\<in>owned s bs. fst (snd b) \<noteq> ChildSegment c"
    and "(unat (ChildSegment c), ChildSegment c, n) \<in> mine" and "(unat (EnvironmentSegment c), ChildSegment c, k) \<in> mine"
    and "\<forall>i<12. Guest st2 (DosMcbSegmentAddress base (ChildSegment c) + 0x0A + i) =
      Guest st1 (DosMcbSegmentAddress base (ChildSegment c) + 0x0A + i)"
  shows "\<exists>st3 closed m3 bs3. DosTerminate base firstMcb st2 = Some (st3, True, closed) \<and>
    Guest st3 = clear_carry (flags_address base (Tib st)) m3 \<and> parent_resumed base st st2 st3 \<and>
    handles_restored st st1 st2 st3 closed \<and> mcb_chain base m3 s bs3 top_seg \<and> owned s bs3 = owned s bs \<and>
    (apart_from_arena (flag_bytes base st) base s top_seg (owned s bs) \<longrightarrow> mcb_chain base (Guest st3) s bs3 top_seg) \<and>
    (\<forall>(seg, w, n)\<in>owned s bs. \<forall>x. base + 16 * seg \<le> x \<and> x < base + 16 * (seg + n) \<longrightarrow> m3 x = Guest st2 x) \<and>
    (\<forall>i<12. m3 (base + 0x88 + i) = Guest st (base + 0x88 + i))"
proof -
  let ?held = "owned s bs" and ?flags = "flags_address base (Tib st)"
  let ?out = "\<lambda>m' r. exec_outcome {} base s top_seg ?held (request_of call st) exe bytesRead (Guest st) m' r"
  have "?out m0 (Some c)"
    using exec_prepare_outcome [OF assms(2) [unfolded s_def], of "request_of call st" exe bytesRead] assms(6) unfolding s_def by auto
  note jft = outcome_jft [OF this]
  have st1: "st1 = exec_enter base c (st\<lparr>Guest := m0\<rparr>)" using exec_enter_runs [OF assms(4-6)] assms(8) by simp
  have out: "?out (Guest st1) (Some c)" unfolding st1 exec_enter_parts by (simp add: jft)
  obtain m3 bs3 where x: "exec_release base firstMcb (ChildSegment c) (EnvironmentSegment c) (Guest st2) = Some m3"
    "mcb_chain base m3 s bs3 top_seg" "owned s bs3 = ?held"
    "\<forall>(seg, w, n)\<in>?held. \<forall>x. base + 16 * seg \<le> x \<and> x < base + 16 * (seg + n) \<longrightarrow> m3 x = Guest st2 x"
    "\<forall>i<12. m3 (base + 0x88 + i) = Guest st (base + 0x88 + i)"
    using exec_release_unwinds [OF assms(3,7) [unfolded s_def] out [unfolded s_def] assms(11) [unfolded s_def] assms(12)
        assms(13) [unfolded s_def] assms(14) assms(15) [unfolded s_def] assms(16-18)] unfolding s_def by blast
  have frame: "exec_frame_of (st\<lparr>Guest := m0\<rparr>) c = exec_frame_of st c" by (simp add: exec_frame_of_def)
  have "Frames st2 = exec_frame_of st c # Frames st" using assms(9) unfolding st1 exec_enter_parts frame by simp
  from terminate_resumes [OF this assms(10) x(1)] obtain st3 closed where
    t: "DosTerminate base firstMcb st2 = Some (st3, True, closed)" "Guest st3 = clear_carry ?flags m3"
      "parent_resumed base st st2 st3" and pop: "(Handles st3, closed) = DosHandlesPop (Handles st2) False" by blast
  have "handles_restored st st1 st2 st3 closed"
    using handles_come_back [of "Handles st" "Handles st2" False] unfolding handles_restored_def st1 exec_enter_parts pop [symmetric]
    by simp
  have "mcb_chain base (Guest st3) s bs3 top_seg" if "apart_from_arena (flag_bytes base st) base s top_seg ?held"
    by (rule answers_keep_chain [OF x(2) that]) (auto simp: x(3) t(2) flag_bytes_def carry_elsewhere)
  moreover note \<open>handles_restored st st1 st2 st3 closed\<close>
  ultimately show ?thesis using t x by blast
qed

subsection \<open>A run\<close>

definition roomy :: mem where
  "roomy = DosMcbWriteHeader 0 (\<lambda>_. 0) 0x7E DOS_MCB_LAST DOS_MCB_OWNER_FREE 0x100"

lemma roomy_chain: "mcb_chain 0 roomy (unat (0x7E :: u16)) [(DOS_MCB_OWNER_FREE, 0x100)] 0x17F"
  using DosMcbWriteHeader_at(1) [of "0x7E" 0 "\<lambda>_. 0" DOS_MCB_LAST DOS_MCB_OWNER_FREE "0x100"]
  by (simp add: roomy_def)

definition run_request :: exec_request where
  "run_request = \<lparr>ParentPsp = 0, ExecEnvironment = 1, ExecName = [0x41], ExecPath = [0x41], ExecTailSegment = 0,
     ExecTailOffset = 0, IsInCurrentDirectory = False\<rparr>"

definition ret_program :: file_buffer where
  "ret_program = (\<lambda>_. 0xC3)"

lemma roomy_zero: "x < 0x7E0 \<Longrightarrow> roomy x = 0"
  by (simp add: roomy_def DosMcbWriteHeader_def DosMcbWriteWord_def DosMcbSegmentAddress_def Let_def)

lemma run_environment: "environment_length roomy (parent_environment 0 roomy run_request) = 1"
  "executable_name run_request = [0x41]" "environment_paragraphs 1 [0x41] = 1"
  by (simp_all add: environment_length_def parent_environment_def run_request_def segment_address roomy_zero
      executable_name_def environment_paragraphs_def Let_def)

lemma run_starts: "\<exists>m1 c. exec_prepare 0 0x7E run_request ret_program 2 roomy = Some (m1, Some c) \<and> ChildSize c = 0xFE"
proof -
  let ?p = "parent_environment 0 roomy run_request"
  obtain m1 where a1: "DosMcbAllocate 0 roomy 0x7E 1 = Some (m1, Inr 0x7F)"
    "mcb_chain 0 m1 0x7E [(DOS_PSP_SEG, 1), (DOS_MCB_OWNER_FREE, 0xFE)] 0x17F"
    "only_paras 0 (free_paras 0x7E [(DOS_MCB_OWNER_FREE, 0x100)]) roomy m1"
    using alloc_refines [OF roomy_chain, of 1] by (auto simp: take_block_def)
  define m2 where "m2 = copy_environment (DosMcbSegmentAddress 0 0x7F) ?p 1 [0x41] m1"
  have own: "(0x7F, DOS_PSP_SEG, 1) \<in> owned 0x7E [(DOS_PSP_SEG, 1), (DOS_MCB_OWNER_FREE, 0xFE)]" by simp
  have "changes_within (DosMcbSegmentAddress 0 0x7F) 16 m1 m2"
    unfolding m2_def by (rule copy_environment_within) simp
  then have within: "changes_within (0 + 16 * 0x7F) (16 * 1) m1 m2" by (simp add: segment_address)
  have "mcb_chain 0 m2 0x7E [(DOS_PSP_SEG, 1), (DOS_MCB_OWNER_FREE, 0xFE)] 0x17F"
    by (rule data_write_keeps_chain [OF a1(2) own within])
  then have c2: "mcb_chain 0 m2 (unat (0x7E :: u16)) [(DOS_PSP_SEG, 1), (DOS_MCB_OWNER_FREE, 0xFE)] 0x17F" by simp
  obtain m3 where a3: "DosMcbAllocate 0 m2 0x7E 0xFFFF = Some (m3, Inl (InsufficientMemory 0xFE))"
    "mcb_chain 0 m3 0x7E [(DOS_PSP_SEG, 1), (DOS_MCB_OWNER_FREE, 0xFE)] 0x17F"
    using alloc_refines [OF c2, of "0xFFFF"] by auto
  then have c3: "mcb_chain 0 m3 (unat (0x7E :: u16)) [(DOS_PSP_SEG, 1), (DOS_MCB_OWNER_FREE, 0xFE)] 0x17F" by simp
  obtain m4 where a4: "DosMcbAllocate 0 m3 0x7E 0xFE = Some (m4, Inr 0x81)"
    using alloc_refines [OF c3, of "0xFE"] by (auto simp: take_block_def)
  have size: "DosExecSize ret_program 2 0xFE = Some (0xFE, False)"
    by (simp add: DosExecSize_def is_mz_def ret_program_def)
  show ?thesis
    unfolding exec_prepare_def Let_def run_environment a1(1) bind.bind_lunit case_prod_conv sum.case m2_def [symmetric] a3(1)
    by (simp add: size a4 split: prod.splits)
qed

lemma chain_length: "length bs \<le> span bs"
  by (induction bs) auto

definition run_machine :: exec_machine where
  "run_machine =
     \<lparr>Tib = \<lparr>Eax = 0x4B00, Ebx = 0, Ecx = 0, Edx = 0, Esi = 0, Edi = 0, Ds = 0x50, Es = 0x50, Ebp = 0, Esp = 0x10, Eip = 0x100,
        Eflags = 2, Cs = 0x70, Ss = 0x40\<rparr>,
      Guest = roomy, PspSegment = 0, Dta = (0, 0x80),
      Handles = \<lparr>FileHandles = replicate DOS_MAX_FILES 0, StdOpen = 7, DeviceKind = [1, 1, 1, 0, 2] @ replicate 27 0,
        JftKnown = [1, 1, 1, 0, 2] @ replicate 15 0xFF,
        SftHost = (\<lambda>_. 0), HandleStack = replicate DOS_HANDLE_STACK_DEPTH
          \<lparr>FileHandles = [], StdOpen = 0, DeviceKind = [], JftKnown = []\<rparr>, HandleDepth = 0\<rparr>,
      Frames = [], ChildReturnCode = 0, ExitCode = 0, TermType = 0, IsTsrPending = False, TsrKeep = 0\<rparr>"

definition run_call :: "exec_mode \<Rightarrow> exec_call" where
  "run_call mode = \<lparr>ExecMode = mode, ExecBlock = (0x50, 0), ExecOverlaySegment = 0, ExecOverlayRelocation = 0,
     ExecRequest = run_request\<rparr>"

lemma run_simps: "Guest run_machine = roomy" "request_of (run_call mode) run_machine = run_request"
  "ExecMode (run_call mode) = mode" "flags_address 0 (Tib run_machine) = 0x414" "block_address 0 (run_call mode) = 0x500"
  "mode \<noteq> Overlay \<Longrightarrow> exec_starts (run_call mode) ret_program 2 None run_machine" "\<not> IsTsrPending run_machine"
  by (simp_all add: run_machine_def run_call_def run_request_def exec_starts_def EXEC_MAX_DEPTH_def flags_address_def VDM_REG16_def)

lemma run_answers: "apart_from_arena (answer_bytes 0 (run_call mode) run_machine r) 0 0x7E 0x17F held"
  unfolding answer_bytes_def run_simps by (auto simp: apart_from_arena_def)

lemma exec_begin_sound_witness:
  "\<exists>st' c. ExecBegin 0 0x7E (run_call LoadOnly) (Some (ret_program, 2)) None run_machine = Some st' \<and>
     exec_report 0 (run_call LoadOnly) run_machine st' (Some c) \<and>
     exec_outcome (answer_bytes 0 (run_call LoadOnly) run_machine (Some c)) 0 0x7E 0x17F {} run_request ret_program 2
       roomy (Guest st') (Some c)"
proof -
  obtain m c where run: "exec_prepare 0 0x7E run_request ret_program 2 roomy = Some (m, Some c)" using run_starts by blast
  obtain st' r where st': "ExecBegin 0 0x7E (run_call LoadOnly) (Some (ret_program, 2)) None run_machine = Some st'"
    "exec_report 0 (run_call LoadOnly) run_machine st' r"
    "exec_outcome (answer_bytes 0 (run_call LoadOnly) run_machine r) 0 0x7E 0x17F {} run_request ret_program 2 roomy (Guest st') r"
    using exec_begin_sound [of 0 run_machine "0x7E" "[(DOS_MCB_OWNER_FREE, 0x100)]" "0x17F" "run_call LoadOnly" ret_program 2 None]
      roomy_chain run_answers [of LoadOnly _ "{}"] by (auto simp: run_simps)
  have "ExecBegin 0 0x7E (run_call LoadOnly) (Some (ret_program, 2)) None run_machine =
      Some (exec_done 0 (run_machine\<lparr>Guest := exec_answer 0 (0x50, 0) (ChildImage c) m, PspSegment := ChildSegment c\<rparr>))"
    using exec_begin_prepares [of "run_call LoadOnly" ret_program 2 None run_machine 0 "0x7E" m "Some c"] run
    by (simp add: run_simps) (simp add: run_call_def)
  then have "Eax (Tib st') AND 0xFFFF = 0" using st'(1) by (simp add: exec_done_def low_word_answers)
  then obtain c' where "r = Some c'" using st'(2) by (cases r) (auto simp: exec_report_def Let_def)
  with st' show ?thesis by blast
qed

lemma exec_exit_unwinds_witness:
  "\<exists>st1 st3 closed m3. ExecBegin 0 0x7E (run_call LoadAndGo) (Some (ret_program, 2)) None run_machine = Some st1 \<and>
     DosTerminate 0 0x7E st1 = Some (st3, True, closed) \<and> parent_resumed 0 run_machine st1 st3 \<and>
     handles_restored run_machine st1 st1 st3 closed \<and> Guest st3 = clear_carry 0x414 m3 \<and>
     (\<forall>i<12. m3 (0x88 + i) = roomy (0x88 + i))"
proof -
  obtain m0 c where run: "exec_prepare 0 0x7E run_request ret_program 2 roomy = Some (m0, Some c)" "ChildSize c = 0xFE"
    using run_starts by blast
  have fits: "program_fits ret_program 2 (ChildSize c)" unfolding run(2)
    by (simp add: program_fits_def is_mz_def ret_program_def)
  have prep: "exec_prepare 0 0x7E (request_of (run_call LoadAndGo) run_machine) ret_program 2 (Guest run_machine) = Some (m0, Some c)"
    and starts: "exec_starts (run_call LoadAndGo) ret_program 2 None run_machine" and go: "ExecMode (run_call LoadAndGo) = LoadAndGo"
    and ch: "mcb_chain 0 (Guest run_machine) (unat (0x7E :: u16)) [(DOS_MCB_OWNER_FREE, 0x100)] 0x17F"
    using run roomy_chain by (simp_all add: run_simps)
  define st1 where "st1 = exec_enter 0 c (run_machine\<lparr>Guest := m0\<rparr>)"
  have begin1: "ExecBegin 0 0x7E (run_call LoadAndGo) (Some (ret_program, 2)) None run_machine = Some st1"
    unfolding st1_def by (rule exec_enter_runs [OF starts go prep])
  have "exec_outcome {} 0 (unat (0x7E :: u16)) 0x17F (owned (unat (0x7E :: u16)) [(DOS_MCB_OWNER_FREE, 0x100)])
      run_request ret_program 2 roomy m0 (Some c)"
    using exec_prepare_outcome [OF roomy_chain, of run_request ret_program 2] run(1) by auto
  from outcome_jft [OF this, of 0 "DosHandlesPush (Handles run_machine)"]
  have out: "exec_outcome {} 0 (unat (0x7E :: u16)) 0x17F (owned (unat (0x7E :: u16)) [(DOS_MCB_OWNER_FREE, 0x100)])
      run_request ret_program 2 roomy (Guest st1) (Some c)"
    unfolding st1_def exec_enter_parts by (simp add: run_machine_def)
  then obtain bs2 where b: "mcb_chain 0 (Guest st1) (unat (0x7E :: u16)) bs2 0x17F"
    "owned (unat (0x7E :: u16)) bs2 = {(unat (ChildSegment c), ChildSegment c, unat (ChildSize c)),
       (unat (EnvironmentSegment c), ChildSegment c, unat (env_paras 0 run_request roomy))}"
    using fits unfolding exec_outcome_def by auto
  have few: "length bs2 \<le> 1024" using mcb_chain_top [OF b(1)] chain_length [of bs2] by simp
  have stays: "\<not> IsTsrPending st1" by (simp add: st1_def exec_enter_def run_machine_def Let_def split: prod.splits)
  from exec_exit_unwinds [OF ch _ starts go prep fits begin1 refl stays b(1) few, of
      "{(unat (ChildSegment c), ChildSegment c, unat (ChildSize c)),
        (unat (EnvironmentSegment c), ChildSegment c, unat (env_paras 0 run_request roomy))}"
      "unat (ChildSize c)" "unat (env_paras 0 run_request roomy)"] b(2) begin1
  show ?thesis by (auto simp: run_simps)
qed

end
