(* ===== verification/Dos_Alias.thy ===== *)
theory Dos_Alias
  imports Prelude
begin

text \<open>
  DOS 8.3 aliases for files that have no short name, \<^verbatim>\<open>src/dos/dos_alias.c\<close>: which names DOS accepts,
  the alias made of a long name and a number, and the table that hands aliases out over one directory
  listing and maps them back. A C string is the list of bytes before its zero; the pool of long names is
  kept as the code keeps it, one array of zero-ended strings with the offset of each.
\<close>

subsection \<open>Characters\<close>

definition DosAliasUpper :: "u8 \<Rightarrow> u8" where
  "DosAliasUpper c = (if 0x61 \<le> c \<and> c \<le> 0x7A then c - 0x20 else c)"

definition DosAliasIsBadCharacter :: "u8 \<Rightarrow> bool" where
  "DosAliasIsBadCharacter c \<longleftrightarrow> c \<le> 0x20 \<or>
     c \<in> set [0x22, 0x2A, 0x2B, 0x2C, 0x2F, 0x3A, 0x3B, 0x3C, 0x3D, 0x3E, 0x3F, 0x5B, 0x5C, 0x5D, 0x7C]"

definition DosAliasCharacter :: "u8 \<Rightarrow> u8" where
  "DosAliasCharacter c = (if c \<ge> 0x80 \<or> DosAliasIsBadCharacter c then 0x5F else DosAliasUpper c)"

subsection \<open>Names\<close>

fun DosAliasSameText :: "u8 list \<Rightarrow> u8 list \<Rightarrow> nat option \<Rightarrow> bool" where
  \<comment> \<open>case-blind, over at most the given number of characters of the first; \<open>None\<close> is a length of -1\<close>
  "DosAliasSameText first second (Some 0) = (second = [])"
| "DosAliasSameText [] second len = (second = [])"
| "DosAliasSameText (a # as) [] len = False"
| "DosAliasSameText (a # as) (b # bs) len =
     (DosAliasUpper a = DosAliasUpper b \<and> DosAliasSameText as bs (map_option (\<lambda>n. n - 1) len))"

fun short_name_scan :: "nat \<Rightarrow> nat option \<Rightarrow> u8 list \<Rightarrow> bool" where
  \<comment> \<open>the loop of \<open>DosAliasIsShortName\<close>: the base's length, and the extension's once there is a dot\<close>
  "short_name_scan baseLength extensionLength [] = (baseLength > 0)"
| "short_name_scan baseLength extensionLength (c # cs) =
     (if c = 0x2E then extensionLength = None \<and> short_name_scan baseLength (Some 0) cs
      else if DosAliasIsBadCharacter c then False
      else case extensionLength of
             Some n \<Rightarrow> n + 1 \<le> 3 \<and> short_name_scan baseLength (Some (n + 1)) cs
           | None \<Rightarrow> baseLength + 1 \<le> 8 \<and> short_name_scan (baseLength + 1) None cs)"

definition DosAliasIsShortName :: "u8 list \<Rightarrow> bool" where
  "DosAliasIsShortName name \<longleftrightarrow> name \<noteq> [] \<and> hd name \<noteq> 0x2E \<and> short_name_scan 0 None name"

fun DosAliasLooksLikeAlias :: "u8 list \<Rightarrow> nat \<Rightarrow> bool" where
  "DosAliasLooksLikeAlias (a # b # rest) len \<longleftrightarrow>
     1 < len \<and> ((a = 0x7E \<and> 0x30 \<le> b \<and> b \<le> 0x39) \<or> DosAliasLooksLikeAlias (b # rest) (len - 1))"
| "DosAliasLooksLikeAlias _ len \<longleftrightarrow> False"

subsection \<open>Making an alias\<close>

fun alias_digits :: "nat \<Rightarrow> u8 list" where
  "alias_digits n = (if n < 10 then [0x30 + of_nat n] else alias_digits (n div 10) @ [0x30 + of_nat (n mod 10)])"

declare alias_digits.simps [simp del]

definition alias_part :: "nat \<Rightarrow> u8 list \<Rightarrow> u8 list" where
  \<comment> \<open>at most \<open>room\<close> characters, blanks and dots left out\<close>
  "alias_part room cs = take room (map DosAliasCharacter (filter (\<lambda>c. c \<noteq> 0x20 \<and> c \<noteq> 0x2E) cs))"

definition DosAliasMake :: "u8 list \<Rightarrow> u32 \<Rightarrow> u8 list" where
  "DosAliasMake longName number =
     (let named = dropWhile (\<lambda>c. c = 0x2E \<or> c = 0x20) longName;
          hasDot = 0x2E \<in> set named;
          afterDot = rev (takeWhile (\<lambda>c. c \<noteq> 0x2E) (rev named));
          beforeDot = (if hasDot then take (length named - length afterDot - 1) named else named);
          stem = alias_part 8 beforeDot;
          extension = (if hasDot then alias_part 3 afterDot else []);
          base = (if stem = [] then [0x5F] else stem);
          suffix = 0x7E # alias_digits (if number > 999999 then 999999 else unat number)
      in take (8 - length suffix) base @ suffix @ (if extension = [] then [] else 0x2E # extension))"

subsection \<open>The table of one directory\<close>

record dos_alias_table =
  AliasDirectory :: "u8 list"
  Taken :: "u8 list list"
  NeedyName :: "nat list" \<comment> \<open>offsets into the pool\<close>
  NeedyAlias :: "u8 list list"
  Pool :: "u8 list"
  IsOverflow :: bool

definition DosAliasTableBegin :: "u8 list \<Rightarrow> dos_alias_table" where
  "DosAliasTableBegin directory =
     \<lparr>AliasDirectory = take 299 directory, Taken = [], NeedyName = [], NeedyAlias = [], Pool = [], IsOverflow = False\<rparr>"

definition DosAliasTake :: "dos_alias_table \<Rightarrow> u8 list \<Rightarrow> dos_alias_table" where
  "DosAliasTake table name =
     (if length (Taken table) \<ge> 4096 then table\<lparr>IsOverflow := True\<rparr>
      else table\<lparr>Taken := Taken table @ [map DosAliasUpper (take 12 name)]\<rparr>)"

definition DosAliasTableNote :: "dos_alias_table \<Rightarrow> u8 list \<Rightarrow> u8 list \<Rightarrow> dos_alias_table" where
  \<comment> \<open>an empty short name is a volume that keeps none\<close>
  "DosAliasTableNote table longName shortName =
     (if longName = [0x2E] \<or> longName = [0x2E, 0x2E] then table
      else if shortName \<noteq> [] then DosAliasTake table shortName
      else if DosAliasIsShortName longName then DosAliasTake table longName
      else if length (NeedyName table) \<ge> 2048 \<or> length (Pool table) + length longName + 1 > 65536
      then table\<lparr>IsOverflow := True\<rparr>
      else table\<lparr>NeedyName := NeedyName table @ [length (Pool table)], Pool := Pool table @ longName @ [0],
             NeedyAlias := NeedyAlias table @ [[]]\<rparr>)"

definition pool_string :: "dos_alias_table \<Rightarrow> nat \<Rightarrow> u8 list" where
  \<comment> \<open>the C string at \<open>Pool + NeedyName[entry]\<close>\<close>
  "pool_string table entry = takeWhile (\<lambda>c. c \<noteq> 0) (drop (NeedyName table ! entry) (Pool table))"

definition DosAliasIsTaken :: "dos_alias_table \<Rightarrow> u8 list \<Rightarrow> nat \<Rightarrow> bool" where
  "DosAliasIsTaken table alias assigned \<longleftrightarrow>
     (\<exists>t\<in>set (Taken table). DosAliasSameText t alias None) \<or>
     (\<exists>i<assigned. DosAliasSameText (NeedyAlias table ! i) alias None)"

function alias_search :: "dos_alias_table \<Rightarrow> nat \<Rightarrow> nat \<Rightarrow> u8 list" where
  \<comment> \<open>the numbers from \<open>number\<close> on, up to the largest\<close>
  "alias_search table entry number =
     (let alias = DosAliasMake (pool_string table entry) (of_nat number)
      in if \<not> DosAliasIsTaken table alias entry \<or> number \<ge> 999999 then alias
         else alias_search table entry (Suc number))"
  by pat_completeness auto
termination
  by (relation "measure (\<lambda>(t, e, n). 999999 - n)") auto

declare alias_search.simps [simp del]

definition DosAliasTableFinish :: "dos_alias_table \<Rightarrow> dos_alias_table" where
  "DosAliasTableFinish table =
     fold (\<lambda>entry t. t\<lparr>NeedyAlias := (NeedyAlias t)[entry := alias_search t entry 1]\<rparr>) [0..<length (NeedyName table)] table"

definition DosAliasTableAliasOf :: "dos_alias_table \<Rightarrow> u8 list \<Rightarrow> u8 list option" where
  "DosAliasTableAliasOf table longName =
     (let i = first_from (\<lambda>i. NeedyAlias table ! i \<noteq> [] \<and> DosAliasSameText (pool_string table i) longName None)
                0 (length (NeedyName table))
      in if i < length (NeedyName table) then Some (NeedyAlias table ! i) else None)"

definition DosAliasTableLongOf :: "dos_alias_table \<Rightarrow> u8 list \<Rightarrow> nat option \<Rightarrow> u8 list option" where
  "DosAliasTableLongOf table alias len =
     (let i = first_from (\<lambda>i. NeedyAlias table ! i \<noteq> [] \<and> DosAliasSameText alias (NeedyAlias table ! i) len)
                0 (length (NeedyName table))
      in if i < length (NeedyName table) then Some (pool_string table i) else None)"

definition DosAliasTableIsFor :: "dos_alias_table \<Rightarrow> u8 list \<Rightarrow> bool" where
  "DosAliasTableIsFor table directory = DosAliasSameText (AliasDirectory table) directory None"

end
