(* ===== verification/Alias_Contract.thy ===== *)
theory Alias_Contract
  imports Dos_Alias
begin

text \<open>
  What the alias table promises. An alias is its own upper case and a legal 8.3 name, and its number can be
  read back out of it; so different numbers give one long name different aliases, and among 6145 of them
  one is free of the at most 4096 names and 2047 aliases a directory can have.
\<close>

subsection \<open>Case-blind text\<close>

abbreviation upper :: "u8 list \<Rightarrow> u8 list" where
  "upper \<equiv> map DosAliasUpper"

lemma upper_upper [simp]: "DosAliasUpper (DosAliasUpper c) = DosAliasUpper c"
proof (cases "0x61 \<le> c \<and> c \<le> 0x7A")
  case True
  then have "unat (c - 0x20) = unat c - 0x20" by (subst unat_sub) (auto simp: word_le_nat_alt)
  then have "\<not> 0x61 \<le> c - 0x20" using True by (auto simp: word_le_nat_alt)
  then show ?thesis using True by (simp add: DosAliasUpper_def)
qed (auto simp: DosAliasUpper_def)

lemma same_text_upper: "DosAliasSameText a b None \<longleftrightarrow> upper a = upper b"
  by (induction a b "None :: nat option" rule: DosAliasSameText.induct) auto

lemma same_text_whole: "DosAliasSameText a b (Some (length a)) \<longleftrightarrow> upper a = upper b"
proof (induction a arbitrary: b)
  case (Cons c a)
  then show ?case by (cases b) auto
qed simp

subsection \<open>The characters of an alias\<close>

definition plain :: "u8 \<Rightarrow> bool" where
  \<comment> \<open>a character an alias may hold between its dots\<close>
  "plain c \<longleftrightarrow> \<not> DosAliasIsBadCharacter c \<and> c \<noteq> 0x2E \<and> DosAliasUpper c = c"

lemma upper_good:
  assumes "\<not> DosAliasIsBadCharacter c" "c < 0x80" "c \<noteq> 0x2E"
  shows "plain (DosAliasUpper c)"
proof (cases "0x61 \<le> c \<and> c \<le> 0x7A")
  case True
  then have u: "unat (c - 0x20) = unat c - 0x20" by (subst unat_sub) (auto simp: word_le_nat_alt)
  have "0x41 \<le> unat (c - 0x20)" "unat (c - 0x20) \<le> 0x5A" using True unfolding u by (auto simp: word_le_nat_alt)
  then have "\<not> DosAliasIsBadCharacter (c - 0x20)" "c - 0x20 \<noteq> 0x2E"
    by (auto simp: DosAliasIsBadCharacter_def word_le_nat_alt dest!: arg_cong [where f = unat])
  with True show ?thesis by (simp add: plain_def) (simp add: DosAliasUpper_def)
next
  case False
  then show ?thesis using assms by (auto simp: plain_def DosAliasUpper_def)
qed

lemma alias_character_plain: "c \<noteq> 0x2E \<Longrightarrow> plain (DosAliasCharacter c)"
  using upper_good [of c]
  by (auto simp: DosAliasCharacter_def not_le) (simp_all add: plain_def DosAliasIsBadCharacter_def DosAliasUpper_def)

lemma alias_part_plain: "\<forall>c\<in>set (alias_part n cs). plain c"
  using alias_character_plain by (auto simp: alias_part_def dest!: in_set_takeD)

lemma alias_part_length: "length (alias_part n cs) \<le> n"
  by (simp add: alias_part_def)

lemma digit_facts: "n < 10 \<Longrightarrow> unat (0x30 + of_nat n :: u8) = 0x30 + n"
  by (subst unat_add_lem [THEN iffD1]) (simp_all add: unat_of_nat_small)

lemma digit_plain:
  assumes "n < 10" shows "plain (0x30 + of_nat n) \<and> (0x30 + of_nat n :: u8) \<noteq> 0x7E"
proof -
  have "n \<in> {0, 1, 2, 3, 4, 5, 6, 7, 8, 9}" using assms by auto
  then show ?thesis by (elim insertE) (simp_all add: plain_def DosAliasIsBadCharacter_def DosAliasUpper_def)
qed

lemma alias_digits_plain: "\<forall>c\<in>set (alias_digits n). plain c \<and> c \<noteq> 0x7E"
  by (induction n rule: alias_digits.induct) (subst alias_digits.simps, use digit_plain in auto)

lemma alias_digits_length: "n < 10 ^ k \<Longrightarrow> 0 < k \<Longrightarrow> length (alias_digits n) \<le> k \<and> alias_digits n \<noteq> []"
proof (induction k arbitrary: n)
  case (Suc k)
  show ?case
  proof (cases "n < 10")
    case True
    then show ?thesis by (simp add: alias_digits.simps)
  next
    case False
    then have "0 < k" using Suc.prems(1) by (cases k) auto
    moreover have "n div 10 < 10 ^ k" using Suc.prems(1) by (simp add: div_less_iff_less_mult mult.commute)
    ultimately show ?thesis using Suc.IH [of "n div 10"] False by (subst (1 2) alias_digits.simps) simp
  qed
qed simp

lemma alias_digits_inj: "alias_digits a = alias_digits b \<Longrightarrow> a = b"
proof (induction a arbitrary: b rule: alias_digits.induct)
  case (1 a)
  have one: "length (alias_digits n) = 1 \<longleftrightarrow> n < 10" for n
  proof (cases "n < 10")
    case False
    have "alias_digits (n div 10) \<noteq> []" by (subst alias_digits.simps) simp
    with False show ?thesis by (subst alias_digits.simps) simp
  qed (simp add: alias_digits.simps)
  have last: "last (alias_digits n) = 0x30 + of_nat (n mod 10)" for n
    by (cases "n < 10") (simp_all add: alias_digits.simps [of n])
  have "unat (0x30 + of_nat (a mod 10) :: u8) = unat (0x30 + of_nat (b mod 10) :: u8)"
    using last [of a] last [of b] 1(2) by simp
  then have low: "a mod 10 = b mod 10" using digit_facts [of "a mod 10"] digit_facts [of "b mod 10"] by simp
  show ?case
  proof (cases "a < 10")
    case True
    then have "b < 10" using one [of a] one [of b] 1(2) by simp
    with True low show ?thesis by simp
  next
    case False
    then have "\<not> b < 10" using one [of a] one [of b] 1(2) by simp
    then have "alias_digits (a div 10) = alias_digits (b div 10)"
      using False 1(2) by (subst (asm) (1 2) alias_digits.simps) simp
    from 1(1) [OF False this] low show ?thesis by (metis div_mult_mod_eq)
  qed
qed

subsection \<open>The shape of an alias\<close>

abbreviation alias_suffix :: "nat \<Rightarrow> u8 list" where
  "alias_suffix number \<equiv> 0x7E # alias_digits number"

lemma make_shape:
  "\<exists>base ext. (\<forall>number\<le>999999. DosAliasMake name (of_nat number) =
       take (8 - length (alias_suffix number)) base @ alias_suffix number @ ext) \<and>
     base \<noteq> [] \<and> (\<forall>c\<in>set base. plain c) \<and>
     (ext = [] \<or> (\<exists>e. ext = 0x2E # e \<and> length e \<le> 3 \<and> (\<forall>c\<in>set e. plain c)))"
proof -
  define named where "named = dropWhile (\<lambda>c. c = 0x2E \<or> c = 0x20) name"
  define after where "after = rev (takeWhile (\<lambda>c. c \<noteq> 0x2E) (rev named))"
  define before where "before = (if 0x2E \<in> set named then take (length named - length after - 1) named else named)"
  define ext where "ext = (if 0x2E \<in> set named then alias_part 3 after else [])"
  define base where "base = (if alias_part 8 before = [] then [0x5F] else alias_part 8 before)"
  have "DosAliasMake name (of_nat number) = take (8 - length (alias_suffix number)) base @ alias_suffix number @
      (if ext = [] then [] else 0x2E # ext)" if "number \<le> 999999" for number
  proof -
    have "unat (of_nat number :: u32) = number" using that by (intro unat_of_nat_small) simp
    then have "(if (of_nat number :: u32) > 999999 then 999999 else unat (of_nat number :: u32)) = number"
      using that by (simp add: word_less_nat_alt)
    then show ?thesis unfolding DosAliasMake_def Let_def named_def [symmetric] after_def [symmetric] before_def [symmetric]
        ext_def [symmetric] base_def [symmetric] by (simp only:)
  qed
  moreover have "base \<noteq> []" "\<forall>c\<in>set base. plain c"
    using alias_part_plain [of 8 before]
    by (auto simp: base_def plain_def DosAliasIsBadCharacter_def DosAliasUpper_def)
  moreover have "length ext \<le> 3" "\<forall>c\<in>set ext. plain c"
    using alias_part_plain [of 3 after] alias_part_length [of 3 after] by (auto simp: ext_def)
  ultimately show ?thesis
    by (intro exI [of _ base] exI [of _ "if ext = [] then [] else 0x2E # ext"]) auto
qed

lemma scan_base:
  "\<forall>c\<in>set xs. \<not> DosAliasIsBadCharacter c \<and> c \<noteq> 0x2E \<Longrightarrow> b + length xs \<le> 8 \<Longrightarrow>
   short_name_scan b None (xs @ ys) = short_name_scan (b + length xs) None ys"
  by (induction xs arbitrary: b) auto

lemma scan_extension:
  "\<forall>c\<in>set xs. \<not> DosAliasIsBadCharacter c \<and> c \<noteq> 0x2E \<Longrightarrow> n + length xs \<le> 3 \<Longrightarrow>
   short_name_scan b (Some n) xs = (b > 0)"
  by (induction xs arbitrary: n) auto

lemma looks_after: "DosAliasLooksLikeAlias xs (length xs) \<Longrightarrow> DosAliasLooksLikeAlias (p @ xs) (length (p @ xs))"
proof (induction p)
  case (Cons a p)
  then show ?case by (cases "p @ xs") auto
qed simp

lemma tilde_char [simp]: "\<not> DosAliasIsBadCharacter 0x7E" "DosAliasUpper 0x7E = 0x7E" "DosAliasUpper 0x2E = 0x2E"
  by (simp_all add: DosAliasIsBadCharacter_def DosAliasUpper_def)

lemma digits_head: "\<exists>c cs. alias_digits n = c # cs \<and> 0x30 \<le> c \<and> c \<le> 0x39"
proof (induction n rule: alias_digits.induct)
  case (1 n)
  show ?case
  proof (cases "n < 10")
    case True
    then have "(0x30 :: u8) \<le> 0x30 + of_nat n \<and> 0x30 + of_nat n \<le> (0x39 :: u8)"
      using digit_facts [of n] by (simp add: word_le_nat_alt)
    with True show ?thesis by (simp add: alias_digits.simps)
  next
    case False
    with 1 show ?thesis by (subst alias_digits.simps) auto
  qed
qed

text \<open>
  An alias is a name DOS accepts, of at most twelve characters, in upper case, that looks like an alias.
\<close>

lemma make_legal:
  assumes "number \<le> 999999"
  shows "DosAliasIsShortName (DosAliasMake name (of_nat number))" and "length (DosAliasMake name (of_nat number)) \<le> 12"
    and "upper (DosAliasMake name (of_nat number)) = DosAliasMake name (of_nat number)"
    and "DosAliasLooksLikeAlias (DosAliasMake name (of_nat number)) (length (DosAliasMake name (of_nat number)))"
    and "DosAliasMake name (of_nat number) \<noteq> []"
proof -
  obtain base ext where make: "DosAliasMake name (of_nat number) =
      take (8 - length (alias_suffix number)) base @ alias_suffix number @ ext"
    and base: "base \<noteq> []" "\<forall>c\<in>set base. plain c"
    and ext: "ext = [] \<or> (\<exists>e. ext = 0x2E # e \<and> length e \<le> 3 \<and> (\<forall>c\<in>set e. plain c))"
    using make_shape [of name] assms by blast
  let ?stem = "take (8 - length (alias_suffix number)) base @ alias_suffix number"
  have digits: "length (alias_digits number) \<le> 6" "alias_digits number \<noteq> []"
    using alias_digits_length [of number 6] assms by auto
  have stem: "length ?stem \<le> 8" "?stem \<noteq> []" "hd ?stem \<noteq> 0x2E"
    "\<forall>c\<in>set ?stem. \<not> DosAliasIsBadCharacter c \<and> c \<noteq> 0x2E"
  proof -
    show "length ?stem \<le> 8" using digits by simp
    show "?stem \<noteq> []" by simp
    show all: "\<forall>c\<in>set ?stem. \<not> DosAliasIsBadCharacter c \<and> c \<noteq> 0x2E"
      using base alias_digits_plain [of number] by (auto simp: plain_def dest!: in_set_takeD)
    have "hd ?stem \<in> set ?stem" by (rule hd_in_set) simp
    with all show "hd ?stem \<noteq> 0x2E" by blast
  qed
  have whole: "DosAliasMake name (of_nat number) = ?stem @ ext" using make by simp
  have "short_name_scan 0 None (?stem @ ext)"
    using scan_base [OF stem(4), of 0 ext] stem(1,2) ext scan_extension [of _ 0] by (auto simp: plain_def)
  then show "DosAliasIsShortName (DosAliasMake name (of_nat number))"
    using stem(2,3) unfolding whole DosAliasIsShortName_def hd_append2 [OF stem(2)] append_is_Nil_conv by blast
  show "length (DosAliasMake name (of_nat number)) \<le> 12" using stem(1) ext unfolding whole by auto
  show "upper (DosAliasMake name (of_nat number)) = DosAliasMake name (of_nat number)"
    unfolding make using base ext alias_digits_plain [of number]
    by (auto simp: plain_def intro!: map_idI dest!: in_set_takeD)
  obtain c cs where "alias_digits number = c # cs" "0x30 \<le> c" "c \<le> 0x39" using digits_head by blast
  then have "DosAliasLooksLikeAlias (alias_suffix number @ ext) (length (alias_suffix number @ ext))" by simp
  from looks_after [OF this] show "DosAliasLooksLikeAlias (DosAliasMake name (of_nat number)) (length (DosAliasMake name (of_nat number)))"
    unfolding make .
  show "DosAliasMake name (of_nat number) \<noteq> []" unfolding make by simp
qed

lemma make_inj:
  assumes "a \<le> 999999" "b \<le> 999999" "DosAliasMake name (of_nat a) = DosAliasMake name (of_nat b)"
  shows "a = b"
proof -
  obtain base ext where make: "\<forall>number\<le>999999. DosAliasMake name (of_nat number) =
      take (8 - length (alias_suffix number)) base @ alias_suffix number @ ext" using make_shape [of name] by blast
  have digits: "takeWhile (\<lambda>c. c \<noteq> 0x7E) (rev (xs @ alias_suffix n)) = rev (alias_digits n)" for xs n
  proof -
    have "takeWhile (\<lambda>c. c \<noteq> 0x7E) (rev (alias_digits n) @ 0x7E # rev xs) =
        rev (alias_digits n) @ takeWhile (\<lambda>c. c \<noteq> 0x7E) (0x7E # rev xs)"
      by (rule takeWhile_append2) (use alias_digits_plain [of n] in auto)
    then show ?thesis by simp
  qed
  from make assms have "take (8 - length (alias_suffix a)) base @ alias_suffix a = take (8 - length (alias_suffix b)) base @ alias_suffix b"
    by (simp flip: append_assoc)
  then have "rev (alias_digits a) = rev (alias_digits b)" using digits by metis
  then show ?thesis by (simp add: alias_digits_inj)
qed

subsection \<open>The pool\<close>

abbreviation zero_ended_names :: "u8 list list \<Rightarrow> u8 list" where
  "zero_ended_names ss \<equiv> concat (map (\<lambda>s. s @ [0]) ss)"

definition pool_holds :: "dos_alias_table \<Rightarrow> u8 list list \<Rightarrow> bool" where
  "pool_holds t names \<longleftrightarrow> Pool t = zero_ended_names names \<and> (\<forall>s\<in>set names. 0 \<notin> set s) \<and>
     NeedyName t = map (\<lambda>i. length (zero_ended_names (take i names))) [0..<length names]"

lemma pool_names:
  assumes "pool_holds t names" "i < length names"
  shows "pool_string t i = names ! i"
proof -
  have "zero_ended_names names = zero_ended_names (take i names) @ zero_ended_names (drop i names)"
    by (metis append_take_drop_id concat_append map_append)
  then have "drop (length (zero_ended_names (take i names))) (zero_ended_names names) = zero_ended_names (drop i names)"
    by simp
  also have "drop i names = names ! i # drop (Suc i) names" using assms(2) by (simp add: Cons_nth_drop_Suc)
  finally have rest: "drop (NeedyName t ! i) (Pool t) = names ! i @ 0 # zero_ended_names (drop (Suc i) names)"
    using assms by (simp add: pool_holds_def)
  have "0 \<notin> set (names ! i)" using assms by (simp add: pool_holds_def)
  then have "takeWhile (\<lambda>c. c \<noteq> 0) (names ! i @ 0 # zero_ended_names (drop (Suc i) names)) =
      names ! i @ takeWhile (\<lambda>c. c \<noteq> 0) (0 # zero_ended_names (drop (Suc i) names))"
    by (intro takeWhile_append2) auto
  then show ?thesis unfolding pool_string_def rest by simp
qed

definition table_ok :: "dos_alias_table \<Rightarrow> u8 list list \<Rightarrow> bool" where
  "table_ok t names \<longleftrightarrow> length (Taken t) \<le> 4096 \<and> length names \<le> 2048 \<and> length (NeedyAlias t) = length names \<and>
     pool_holds t names"

definition is_needy :: "u8 list \<times> u8 list \<Rightarrow> bool" where
  "is_needy entry \<longleftrightarrow> fst entry \<noteq> [0x2E] \<and> fst entry \<noteq> [0x2E, 0x2E] \<and> snd entry = [] \<and> \<not> DosAliasIsShortName (fst entry)"

lemma table_begin: "table_ok (DosAliasTableBegin dir) []"
  by (simp add: table_ok_def DosAliasTableBegin_def pool_holds_def)

lemma table_take: "table_ok t names \<Longrightarrow> table_ok (DosAliasTake t nm) names"
  by (auto simp: table_ok_def DosAliasTake_def pool_holds_def)

lemma pool_append:
  assumes "pool_holds t names" "0 \<notin> set nm" "Pool t' = Pool t @ nm @ [0]" "NeedyName t' = NeedyName t @ [length (Pool t)]"
  shows "pool_holds t' (names @ [nm])"
  using assms by (auto simp: pool_holds_def)

lemma table_note:
  assumes "table_ok t names" "0 \<notin> set l"
  shows "\<exists>more. table_ok (DosAliasTableNote t l s) (names @ more) \<and>
    (is_needy (l, s) \<longrightarrow> more = [l] \<or> IsOverflow (DosAliasTableNote t l s))"
proof (cases "is_needy (l, s) \<and> \<not> (length (NeedyName t) \<ge> 2048 \<or> length (Pool t) + length l + 1 > 65536)")
  case True
  then have noted: "DosAliasTableNote t l s = t\<lparr>NeedyName := NeedyName t @ [length (Pool t)], Pool := Pool t @ l @ [0],
      NeedyAlias := NeedyAlias t @ [[]]\<rparr>" by (simp add: DosAliasTableNote_def is_needy_def)
  have "pool_holds (DosAliasTableNote t l s) (names @ [l])"
    using assms unfolding noted table_ok_def by (intro pool_append) auto
  moreover have "length (NeedyName t) = length names" using assms(1) by (simp add: table_ok_def pool_holds_def)
  ultimately show ?thesis using assms(1) True unfolding noted by (intro exI [of _ "[l]"]) (simp add: table_ok_def)
next
  case False
  then have "table_ok (DosAliasTableNote t l s) names \<and> (is_needy (l, s) \<longrightarrow> IsOverflow (DosAliasTableNote t l s))"
    using assms(1) table_take [OF assms(1)]
    by (auto simp: DosAliasTableNote_def is_needy_def) (auto simp: table_ok_def pool_holds_def)
  then show ?thesis by (intro exI [of _ "[]"]) simp
qed

subsection \<open>A free number\<close>

lemma upper_make: "number \<le> 999999 \<Longrightarrow> upper (DosAliasMake name (of_nat number)) = DosAliasMake name (of_nat number)"
  by (rule make_legal(3))

lemma free_number:
  assumes "length (Taken t) \<le> 4096" "entry \<le> 2047"
  shows "\<exists>n. 1 \<le> n \<and> n \<le> 999999 \<and> \<not> DosAliasIsTaken t (DosAliasMake name (of_nat n)) entry"
proof (rule ccontr)
  assume "\<not> ?thesis"
  then have all: "DosAliasIsTaken t (DosAliasMake name (of_nat n)) entry" if "n \<in> {1..6145}" for n using that by auto
  let ?used = "set (map upper (Taken t)) \<union> (\<lambda>i. upper (NeedyAlias t ! i)) ` {..<entry}"
  have "(\<lambda>n. DosAliasMake name (of_nat n)) ` {1..6145} \<subseteq> ?used"
  proof (rule image_subsetI)
    fix n :: nat assume n: "n \<in> {1..6145}"
    from all [OF n] have "(\<exists>x\<in>set (Taken t). upper x = upper (DosAliasMake name (of_nat n))) \<or>
        (\<exists>i<entry. upper (NeedyAlias t ! i) = upper (DosAliasMake name (of_nat n)))"
      by (simp add: DosAliasIsTaken_def same_text_upper)
    moreover have "upper (DosAliasMake name (of_nat n)) = DosAliasMake name (of_nat n)" using n by (intro upper_make) simp
    ultimately show "DosAliasMake name (of_nat n) \<in> ?used"
    proof (elim disjE bexE exE conjE)
      fix x assume "x \<in> set (Taken t)" "upper x = upper (DosAliasMake name (of_nat n))"
      then show ?thesis using \<open>upper (DosAliasMake name (of_nat n)) = _\<close> by (intro UnI1) (simp add: image_iff, metis)
    next
      fix i assume "i < entry" "upper (NeedyAlias t ! i) = upper (DosAliasMake name (of_nat n))"
      then show ?thesis using \<open>upper (DosAliasMake name (of_nat n)) = _\<close>
        by (intro UnI2 image_eqI [of _ _ i]) simp_all
    qed
  qed
  then have "card {1..6145 :: nat} \<le> card ?used"
    by (intro card_inj_on_le [of "\<lambda>n. DosAliasMake name (of_nat n)"]) (auto intro!: inj_onI dest: make_inj [rotated 2])
  also have "\<dots> \<le> card (set (map upper (Taken t))) + card ((\<lambda>i. upper (NeedyAlias t ! i)) ` {..<entry})" by (rule card_Un_le)
  also have "\<dots> \<le> 4096 + 2047"
    using card_length [of "map upper (Taken t)"] card_image_le [of "{..<entry}" "\<lambda>i. upper (NeedyAlias t ! i)"] assms by simp
  finally show False by simp
qed

lemma alias_search_finds:
  assumes "n \<le> m" "m \<le> 999999" "\<not> DosAliasIsTaken t (DosAliasMake (pool_string t entry) (of_nat m)) entry"
  shows "\<exists>k\<ge>n. k \<le> 999999 \<and> alias_search t entry n = DosAliasMake (pool_string t entry) (of_nat k) \<and>
    \<not> DosAliasIsTaken t (DosAliasMake (pool_string t entry) (of_nat k)) entry"
  using assms(1)
proof (induction "m - n" arbitrary: n)
  case 0
  then have "n = m" by simp
  with assms(2,3) show ?case by (subst alias_search.simps) auto
next
  case (Suc d)
  show ?case
  proof (cases "DosAliasIsTaken t (DosAliasMake (pool_string t entry) (of_nat n)) entry")
    case True
    then have less: "n < m" using Suc.hyps(2) by simp
    then have "alias_search t entry n = alias_search t entry (Suc n)"
      using True assms(2) by (subst alias_search.simps) simp
    moreover obtain k where "Suc n \<le> k" "k \<le> 999999" "alias_search t entry (Suc n) = DosAliasMake (pool_string t entry) (of_nat k)"
        "\<not> DosAliasIsTaken t (DosAliasMake (pool_string t entry) (of_nat k)) entry"
    proof -
      have "d = m - Suc n" "Suc n \<le> m" using Suc.hyps(2) less by simp_all
      from Suc.hyps(1) [OF this] show thesis using that by blast
    qed
    ultimately show ?thesis by (auto intro: exI [of _ k])
  next
    case False
    then show ?thesis using Suc.prems assms(2) by (subst alias_search.simps) auto
  qed
qed
subsection \<open>Handing out\<close>

abbreviation finish_entry :: "nat \<Rightarrow> dos_alias_table \<Rightarrow> dos_alias_table" where
  "finish_entry entry t \<equiv> t\<lparr>NeedyAlias := (NeedyAlias t)[entry := alias_search t entry 1]\<rparr>"

definition served :: "dos_alias_table \<Rightarrow> u8 list list \<Rightarrow> nat \<Rightarrow> bool" where
  \<comment> \<open>the first entries have their alias: made of their name, and free when it was given\<close>
  "served t names k \<longleftrightarrow> (\<forall>i<k. (\<exists>n\<ge>1. n \<le> 999999 \<and> NeedyAlias t ! i = DosAliasMake (names ! i) (of_nat n)) \<and>
     \<not> DosAliasIsTaken t (NeedyAlias t ! i) i)"

lemma taken_cong:
  "Taken t = Taken t' \<Longrightarrow> (\<forall>i<k. NeedyAlias t ! i = NeedyAlias t' ! i) \<Longrightarrow> DosAliasIsTaken t a k = DosAliasIsTaken t' a k"
  by (auto simp: DosAliasIsTaken_def)

lemma served_step:
  assumes "table_ok t names" "served t names k" "k < length names"
  shows "served (finish_entry k t) names (Suc k)"
proof -
  have "length (Taken t) \<le> 4096" "k \<le> 2047" and name: "pool_string t k = names ! k" and len: "k < length (NeedyAlias t)"
    using assms pool_names [of t names k] by (auto simp: table_ok_def)
  from free_number [OF this(1,2), of "names ! k"] obtain m where
    "1 \<le> m" "m \<le> 999999" "\<not> DosAliasIsTaken t (DosAliasMake (pool_string t k) (of_nat m)) k"
    unfolding name by blast
  from alias_search_finds [OF this] obtain n where n: "1 \<le> n" "n \<le> 999999"
    "alias_search t k 1 = DosAliasMake (names ! k) (of_nat n)" "\<not> DosAliasIsTaken t (alias_search t k 1) k"
    unfolding name by auto
  show ?thesis unfolding served_def
  proof (intro allI impI)
    fix i assume "i < Suc k"
    have same: "DosAliasIsTaken (finish_entry k t) a i = DosAliasIsTaken t a i" for a
      using \<open>i < Suc k\<close> by (intro taken_cong) auto
    show "(\<exists>n\<ge>1. n \<le> 999999 \<and> NeedyAlias (finish_entry k t) ! i = DosAliasMake (names ! i) (of_nat n)) \<and>
        \<not> DosAliasIsTaken (finish_entry k t) (NeedyAlias (finish_entry k t) ! i) i"
    proof (cases "i = k")
      case True
      with n len show ?thesis unfolding same by auto
    next
      case False
      with \<open>i < Suc k\<close> assms(2) show ?thesis unfolding same by (simp add: served_def)
    qed
  qed
qed

lemma table_ok_entry: "table_ok t names \<Longrightarrow> table_ok (finish_entry k t) names"
  by (simp add: table_ok_def pool_holds_def)

lemma finish_served:
  assumes "table_ok t names"
  shows "table_ok (DosAliasTableFinish t) names \<and> served (DosAliasTableFinish t) names (length names) \<and>
    Taken (DosAliasTableFinish t) = Taken t \<and> IsOverflow (DosAliasTableFinish t) = IsOverflow t \<and>
    AliasDirectory (DosAliasTableFinish t) = AliasDirectory t"
proof -
  have "k \<le> length names \<Longrightarrow> table_ok (fold finish_entry [0..<k] t) names \<and> served (fold finish_entry [0..<k] t) names k \<and>
      Taken (fold finish_entry [0..<k] t) = Taken t \<and> IsOverflow (fold finish_entry [0..<k] t) = IsOverflow t \<and>
      AliasDirectory (fold finish_entry [0..<k] t) = AliasDirectory t" for k
  proof (induction k)
    case 0
    show ?case using assms by (simp add: served_def)
  next
    case (Suc k)
    then show ?case using table_ok_entry [of _ names k] served_step [of _ names k] by simp
  qed
  moreover have "length (NeedyName t) = length names" using assms by (simp add: table_ok_def pool_holds_def)
  ultimately show ?thesis unfolding DosAliasTableFinish_def by simp
qed
subsection \<open>One directory's listing\<close>

abbreviation no_zero :: "(u8 list \<times> u8 list) list \<Rightarrow> bool" where
  "no_zero entries \<equiv> \<forall>(l, s)\<in>set entries. 0 \<notin> set l"

abbreviation note_entry :: "u8 list \<times> u8 list \<Rightarrow> dos_alias_table \<Rightarrow> dos_alias_table" where
  "note_entry entry t \<equiv> DosAliasTableNote t (fst entry) (snd entry)"

definition visible_name :: "u8 list \<times> u8 list \<Rightarrow> u8 list option" where
  \<comment> \<open>the name DOS sees of an entry that needs no alias\<close>
  "visible_name entry = (if fst entry = [0x2E] \<or> fst entry = [0x2E, 0x2E] then None
     else if snd entry \<noteq> [] then Some (snd entry)
     else if DosAliasIsShortName (fst entry) then Some (fst entry) else None)"

definition noted :: "dos_alias_table \<Rightarrow> u8 list list \<Rightarrow> (u8 list \<times> u8 list) set \<Rightarrow> bool" where
  \<comment> \<open>unless it overflowed, the table has every entry: its alias to come or its visible name taken\<close>
  "noted t names entries \<longleftrightarrow> table_ok t names \<and> (\<not> IsOverflow t \<longrightarrow>
     (\<forall>e\<in>entries. (is_needy e \<longrightarrow> fst e \<in> set names) \<and>
        (\<forall>n. visible_name e = Some n \<longrightarrow> upper (take 12 n) \<in> upper ` set (Taken t))))"

lemma note_keeps: "set (Taken t) \<subseteq> set (Taken (DosAliasTableNote t l s)) \<and>
    (IsOverflow t \<longrightarrow> IsOverflow (DosAliasTableNote t l s))"
  by (auto simp: DosAliasTableNote_def DosAliasTake_def)

lemma note_takes:
  assumes "visible_name (l, s) = Some n" "\<not> IsOverflow (DosAliasTableNote t l s)"
  shows "upper (take 12 n) \<in> upper ` set (Taken (DosAliasTableNote t l s))"
  using assms by (auto simp: visible_name_def DosAliasTableNote_def DosAliasTake_def comp_def take_map split: if_splits)

lemma noted_step:
  assumes "noted t names entries" "0 \<notin> set l"
  shows "\<exists>more. noted (DosAliasTableNote t l s) (names @ more) (insert (l, s) entries)"
proof -
  obtain more where more: "table_ok (DosAliasTableNote t l s) (names @ more)"
    "is_needy (l, s) \<longrightarrow> more = [l] \<or> IsOverflow (DosAliasTableNote t l s)"
    using table_note [of t names l s] assms by (auto simp: noted_def)
  have "noted (DosAliasTableNote t l s) (names @ more) (insert (l, s) entries)"
    unfolding noted_def
  proof (intro conjI impI ballI allI)
    show "table_ok (DosAliasTableNote t l s) (names @ more)" by (rule more(1))
  next
    fix e assume "\<not> IsOverflow (DosAliasTableNote t l s)" "e \<in> insert (l, s) entries" "is_needy e"
    then show "fst e \<in> set (names @ more)" using assms(1) more(2) note_keeps [of t l s] by (auto simp: noted_def)
  next
    fix e n assume "\<not> IsOverflow (DosAliasTableNote t l s)" "e \<in> insert (l, s) entries" "visible_name e = Some n"
    then show "upper (take 12 n) \<in> upper ` set (Taken (DosAliasTableNote t l s))"
    proof (cases "e = (l, s)")
      case True
      with \<open>visible_name e = _\<close> \<open>\<not> IsOverflow _\<close> show ?thesis by (intro note_takes) simp_all
    next
      case False
      then have "upper (take 12 n) \<in> upper ` set (Taken t)"
        using assms(1) \<open>visible_name e = _\<close> \<open>\<not> IsOverflow _\<close> \<open>e \<in> _\<close> note_keeps [of t l s] by (auto simp: noted_def)
      with note_keeps [of t l s] show ?thesis by blast
    qed
  qed
  then show ?thesis by blast
qed

lemma noted_fold:
  assumes "noted t names es" "no_zero entries"
  shows "\<exists>more. noted (fold note_entry entries t) (names @ more) (es \<union> set entries)"
  using assms
proof (induction entries arbitrary: t names es)
  case Nil
  then show ?case by (intro exI [of _ "[]"]) simp
next
  case (Cons e entries)
  obtain more where "noted (note_entry e t) (names @ more) (insert e es)"
    using noted_step [of t names es "fst e" "snd e"] Cons.prems by (auto simp: case_prod_unfold)
  from Cons.IH [OF this] Cons.prems(2) obtain more2 where
    "noted (fold note_entry entries (note_entry e t)) ((names @ more) @ more2) (insert e es \<union> set entries)" by auto
  then show ?case by (intro exI [of _ "more @ more2"]) simp
qed

abbreviation alias_listing :: "u8 list \<Rightarrow> (u8 list \<times> u8 list) list \<Rightarrow> dos_alias_table" where
  "alias_listing directory entries \<equiv> DosAliasTableFinish (fold note_entry entries (DosAliasTableBegin directory))"

lemma listing_served:
  assumes "no_zero entries"
  obtains names where "noted (alias_listing directory entries) names (set entries)"
    and "served (alias_listing directory entries) names (length names)"
    and "AliasDirectory (alias_listing directory entries) = take 299 directory"
proof -
  have "noted (DosAliasTableBegin directory) [] {}" using table_begin by (simp add: noted_def)
  from noted_fold [OF this assms] obtain names where n: "noted (fold note_entry entries (DosAliasTableBegin directory)) names (set entries)"
    by auto
  have "AliasDirectory (fold note_entry entries t) = AliasDirectory t" for t
    by (induction entries arbitrary: t) (auto simp: DosAliasTableNote_def DosAliasTake_def)
  then have "AliasDirectory (fold note_entry entries (DosAliasTableBegin directory)) = take 299 directory"
    by (simp add: DosAliasTableBegin_def)
  with n finish_served [of _ names] that show thesis by (auto simp: noted_def)
qed

subsection \<open>Uniqueness\<close>

lemma served_name:
  assumes "served t names k" "i < k"
  shows "DosAliasIsShortName (NeedyAlias t ! i)" "upper (NeedyAlias t ! i) = NeedyAlias t ! i" "NeedyAlias t ! i \<noteq> []"
    "length (NeedyAlias t ! i) \<le> 12" "\<forall>x\<in>set (Taken t). upper x \<noteq> NeedyAlias t ! i"
proof -
  obtain n where "n \<le> 999999" "NeedyAlias t ! i = DosAliasMake (names ! i) (of_nat n)" using assms by (auto simp: served_def)
  then show name: "DosAliasIsShortName (NeedyAlias t ! i)" "upper (NeedyAlias t ! i) = NeedyAlias t ! i"
    "NeedyAlias t ! i \<noteq> []" "length (NeedyAlias t ! i) \<le> 12"
    using make_legal [of n "names ! i"] by metis+
  then show "\<forall>x\<in>set (Taken t). upper x \<noteq> NeedyAlias t ! i"
    using assms by (auto simp: served_def DosAliasIsTaken_def same_text_upper)
qed

lemma served_no_separator:
  assumes "served t names k" "i < k"
  shows "0x5C \<notin> set (NeedyAlias t ! i)"
proof -
  obtain n where n: "n \<le> 999999" "NeedyAlias t ! i = DosAliasMake (names ! i) (of_nat n)" using assms by (auto simp: served_def)
  obtain base ext where "DosAliasMake (names ! i) (of_nat n) = take (8 - length (alias_suffix n)) base @ alias_suffix n @ ext"
    and "\<forall>c\<in>set base. plain c" and "ext = [] \<or> (\<exists>e. ext = 0x2E # e \<and> length e \<le> 3 \<and> (\<forall>c\<in>set e. plain c))"
    using make_shape [of "names ! i"] n(1) by blast
  moreover have "\<not> plain 0x5C" by (simp add: plain_def DosAliasIsBadCharacter_def)
  ultimately show ?thesis using alias_digits_plain [of n] unfolding n(2) by (auto dest!: in_set_takeD)
qed

lemma served_distinct:
  assumes "served t names k" "i < k" "j < k" "i \<noteq> j"
  shows "upper (NeedyAlias t ! i) \<noteq> upper (NeedyAlias t ! j)"
  using assms
proof (induction i j rule: linorder_wlog)
  case (le i j)
  then have "i < j" "\<not> DosAliasIsTaken t (NeedyAlias t ! j) j" by (simp_all add: served_def)
  then show ?case by (auto simp: DosAliasIsTaken_def same_text_upper)
next
  case (sym i j)
  then show ?case by metis
qed

end
