(* ===== verification/Dos_Alias_Cache.thy ===== *)
theory Dos_Alias_Cache
  imports Dos_Alias
begin

text \<open>
  How INT 21h uses the aliases, \<^verbatim>\<open>src/dos/dos_int21.c\<close>: the four cached tables, the alias a directory
  search fills in, the directories the open searches remember, and the two rewritings of a path, alias to
  long name and long name to alias. What Win32 answers is a parameter of each operation: the entries of a
  directory as pairs of long and short name (none where the search fails), the full path of a path, and
  whether a path names a file.
\<close>

type_synonym dir_entries = "u8 list \<Rightarrow> (u8 list \<times> u8 list) list"

subsection \<open>The cached tables\<close>

definition DOS_ALIAS_CACHE_TABLES :: nat where "DOS_ALIAS_CACHE_TABLES = 4"
definition DOS_ALIAS_FIND_SLOTS :: nat where "DOS_ALIAS_FIND_SLOTS = 16"
definition DOS_INT21_PATH_SIZE :: nat where "DOS_INT21_PATH_SIZE = 300"
definition DOS_ALIAS_DIRECTORY_SIZE :: nat where "DOS_ALIAS_DIRECTORY_SIZE = 300"

lemmas dos_alias_sizes = DOS_ALIAS_CACHE_TABLES_def DOS_ALIAS_FIND_SLOTS_def DOS_INT21_PATH_SIZE_def
  DOS_ALIAS_DIRECTORY_SIZE_def

record alias_cache =
  AliasTables :: "dos_alias_table list"
  NextTable :: nat

definition alias_slot :: "alias_cache \<Rightarrow> u8 list \<Rightarrow> nat option" where
  \<comment> \<open>the last table of the directory\<close>
  "alias_slot cache directory =
     fold (\<lambda>index table. if AliasDirectory (AliasTables cache ! index) \<noteq> [] \<and>
                            DosAliasTableIsFor (AliasTables cache ! index) directory then Some index else table)
       [0..<DOS_ALIAS_CACHE_TABLES] None"

definition alias_listing_of :: "dir_entries \<Rightarrow> u8 list \<Rightarrow> dos_alias_table" where
  \<comment> \<open>one enumeration into an empty table\<close>
  "alias_listing_of entries directory =
     DosAliasTableFinish (fold (\<lambda>entry t. DosAliasTableNote t (fst entry) (snd entry))
       (if length directory + 2 \<le> DOS_ALIAS_DIRECTORY_SIZE + 2 then entries directory else [])
       (DosAliasTableBegin directory))"

definition DosAliasTableFor :: "dir_entries \<Rightarrow> alias_cache \<Rightarrow> u8 list \<Rightarrow> bool \<Rightarrow> alias_cache \<times> dos_alias_table" where
  "DosAliasTableFor entries cache directory isRebuild =
     (case alias_slot cache directory of
        Some slot \<Rightarrow>
          if \<not> isRebuild then (cache, AliasTables cache ! slot)
          else let table = alias_listing_of entries directory
               in (cache\<lparr>AliasTables := (AliasTables cache)[slot := table]\<rparr>, table)
      | None \<Rightarrow>
          let slot = NextTable cache; table = alias_listing_of entries directory
          in (cache\<lparr>NextTable := (NextTable cache + 1) mod DOS_ALIAS_CACHE_TABLES,
                   AliasTables := (AliasTables cache)[slot := table]\<rparr>, table))"

subsection \<open>Searches\<close>

definition DosAliasFill ::
  "dir_entries \<Rightarrow> alias_cache \<Rightarrow> u8 list option \<Rightarrow> u8 list \<Rightarrow> u8 list \<Rightarrow> bool \<Rightarrow> alias_cache \<times> u8 list \<times> bool" where
  \<comment> \<open>the short name the search reports of the entry (its 14-byte field), and whether the directory was listed\<close>
  "DosAliasFill entries cache directory longName shortName isListed =
     (case directory of
        None \<Rightarrow> (cache, shortName, isListed)
      | Some dir \<Rightarrow>
          if dir = [] \<or> shortName \<noteq> [] \<or> DosAliasIsShortName longName \<or> longName = [0x2E] \<or> longName = [0x2E, 0x2E]
          then (cache, shortName, isListed)
          else let (cache1, table1) = DosAliasTableFor entries cache dir (\<not> isListed);
                   alias1 = DosAliasTableAliasOf table1 longName;
                   (cache2, alias2) =
                     (if alias1 = None \<and> isListed
                      then let (c, t) = DosAliasTableFor entries cache1 dir True in (c, DosAliasTableAliasOf t longName)
                      else (cache1, alias1))
               in (cache2, (case alias2 of Some alias \<Rightarrow> take 13 alias | None \<Rightarrow> shortName), True))"

record alias_searches =
  FindHandles :: "u64 list"
  FindDirectories :: "u8 list list"
  NextFind :: nat

definition DosAliasRememberFind :: "alias_searches \<Rightarrow> u64 \<Rightarrow> u8 list \<Rightarrow> alias_searches" where
  "DosAliasRememberFind s handle directory =
     s\<lparr>FindHandles := (FindHandles s)[NextFind s := handle],
       FindDirectories := (FindDirectories s)[NextFind s := take (DOS_ALIAS_DIRECTORY_SIZE - 1) directory],
       NextFind := (NextFind s + 1) mod DOS_ALIAS_FIND_SLOTS\<rparr>"

definition DosAliasFindDirectory :: "alias_searches \<Rightarrow> u64 \<Rightarrow> u8 list option" where
  "DosAliasFindDirectory s handle =
     (let index = first_from (\<lambda>i. FindHandles s ! i = handle) 0 DOS_ALIAS_FIND_SLOTS
      in if index < DOS_ALIAS_FIND_SLOTS then Some (FindDirectories s ! index) else None)"

definition DosAliasDirectoryOf :: "(u8 list \<Rightarrow> u8 list) \<Rightarrow> u8 list \<Rightarrow> u8 list option" where
  \<comment> \<open>up to the last separator, made a full path that ends with one\<close>
  "DosAliasDirectoryOf full pattern =
     (let cut = length (dropWhile (\<lambda>c. c \<notin> {0x5C, 0x2F, 0x3A}) (rev pattern));
          part = (if cut = 0 then [0x2E] else take cut pattern);
          directory = full part
      in if cut \<ge> DOS_INT21_PATH_SIZE \<or> directory = [] \<or> length directory \<ge> DOS_ALIAS_DIRECTORY_SIZE - 1 then None
         else if last directory \<noteq> 0x5C then Some (directory @ [0x5C]) else Some directory)"

subsection \<open>Paths\<close>

fun share_length :: "nat \<Rightarrow> nat \<Rightarrow> u8 list \<Rightarrow> nat" where
  \<comment> \<open>the index after the second separator from \<open>index\<close> on, or the end\<close>
  "share_length index separators [] = index"
| "share_length index separators (c # cs) =
     (if c = 0x5C \<and> separators + 1 = 2 then index + 1
      else share_length (index + 1) (if c = 0x5C then separators + 1 else separators) cs)"

definition DosAliasRootLength :: "u8 list \<Rightarrow> nat" where
  "DosAliasRootLength path =
     (if length path \<ge> 2 \<and> path ! 1 = 0x3A then (if length path \<ge> 3 \<and> path ! 2 = 0x5C then 3 else 2)
      else if length path < 2 \<or> path ! 0 \<noteq> 0x5C \<or> path ! 1 \<noteq> 0x5C then 0
      else share_length 2 0 (drop 2 path))"

abbreviation component_of :: "u8 list \<Rightarrow> u8 list" where
  "component_of rest \<equiv> takeWhile (\<lambda>c. c \<noteq> 0x5C) rest"

function path_loop ::
  "('c \<Rightarrow> u8 list \<Rightarrow> u8 list \<Rightarrow> ('c \<times> u8 list option) option) \<Rightarrow> 'c \<Rightarrow> u8 list \<Rightarrow> bool \<Rightarrow> u8 list \<Rightarrow>
   'c \<times> (u8 list \<times> bool) option" where
  \<comment> \<open>the loop both routines have: a component is replaced or kept, a separator copied; \<open>None\<close> where they return\<close>
  "path_loop look cache output isChanged rest =
     (if rest = [] then (cache, Some (output, isChanged))
      else let component = component_of rest
           in case look cache output rest of
                None \<Rightarrow> (cache, None)
              | Some (cache', replaced) \<Rightarrow>
                  let chosen = (case replaced of Some name \<Rightarrow> name | None \<Rightarrow> component);
                      output' = output @ chosen;
                      changed' = (isChanged \<or> replaced \<noteq> None);
                      rest' = drop (length component) rest
                  in if length output + length chosen \<ge> DOS_INT21_PATH_SIZE then (cache', None)
                     else if rest' = [] then (cache', Some (output', changed'))
                     else if length output' + 1 \<ge> DOS_INT21_PATH_SIZE then (cache', None)
                     else path_loop look cache' (output' @ [0x5C]) changed' (tl rest'))"
  by pat_completeness auto
termination
  by (relation "measure (\<lambda>(k, c, out, ch, rest). length rest)") auto

declare path_loop.simps [simp del]

definition resolve_component ::
  "(u8 list \<Rightarrow> bool) \<Rightarrow> dir_entries \<Rightarrow> alias_cache \<Rightarrow> u8 list \<Rightarrow> u8 list \<Rightarrow> (alias_cache \<times> u8 list option) option" where
  "resolve_component exists entries cache output rest =
     (let len = length (component_of rest)
      in if \<not> DosAliasLooksLikeAlias rest len then Some (cache, None)
         else if length output + len \<ge> DOS_INT21_PATH_SIZE then None
         else if exists (output @ component_of rest) \<or> length output \<ge> DOS_ALIAS_DIRECTORY_SIZE then Some (cache, None)
         else let (cache1, table1) = DosAliasTableFor entries cache output False
              in case DosAliasTableLongOf table1 rest (Some len) of
                   Some name \<Rightarrow> Some (cache1, Some name)
                 | None \<Rightarrow> let (cache2, table2) = DosAliasTableFor entries cache1 output True
                           in Some (cache2, DosAliasTableLongOf table2 rest (Some len)))"

definition DosAliasResolvePath ::
  "(u8 list \<Rightarrow> u8 list) \<Rightarrow> (u8 list \<Rightarrow> bool) \<Rightarrow> dir_entries \<Rightarrow> alias_cache \<Rightarrow> u8 list \<Rightarrow> nat \<Rightarrow> alias_cache \<times> u8 list" where
  "DosAliasResolvePath full exists entries cache path capacity =
     (let fullPath = full path; root = DosAliasRootLength fullPath
      in if \<not> DosAliasLooksLikeAlias path (length path) \<or> fullPath = [] \<or> length fullPath \<ge> DOS_INT21_PATH_SIZE
         then (cache, path)
         else case path_loop (resolve_component exists entries) cache (take root fullPath) False (drop root fullPath) of
                (cache', None) \<Rightarrow> (cache', path)
              | (cache', Some (output, isChanged)) \<Rightarrow>
                  (cache', if isChanged \<and> length output < capacity then output else path))"

definition shorten_component ::
  "u8 list \<Rightarrow> dir_entries \<Rightarrow> alias_cache \<Rightarrow> u8 list \<Rightarrow> u8 list \<Rightarrow> (alias_cache \<times> u8 list option) option" where
  "shorten_component path entries cache output rest =
     (let component = component_of rest; start = length path - length rest
      in if length component \<ge> 260 \<or> start \<ge> DOS_INT21_PATH_SIZE then None
         else if \<not> DosAliasIsShortName component \<and> (component = [] \<or> hd component \<noteq> 0x2E) \<and> start < DOS_ALIAS_DIRECTORY_SIZE
         then let (cache1, table) = DosAliasTableFor entries cache (take start path) False
              in Some (cache1, DosAliasTableAliasOf table component)
         else Some (cache, None))"

definition DosAliasShortenPath :: "dir_entries \<Rightarrow> alias_cache \<Rightarrow> u8 list \<Rightarrow> nat \<Rightarrow> alias_cache \<times> u8 list" where
  "DosAliasShortenPath entries cache path capacity =
     (let root = DosAliasRootLength path
      in if root \<ge> DOS_INT21_PATH_SIZE then (cache, path)
         else case path_loop (shorten_component path entries) cache (take root path) False (drop root path) of
                (cache', None) \<Rightarrow> (cache', path)
              | (cache', Some (output, isChanged)) \<Rightarrow>
                  (cache', if isChanged \<and> length output < capacity then output else path))"

end
