(* ===== verification/Alias_Paths.thy ===== *)
theory Alias_Paths
  imports Alias_Contract Dos_Alias_Cache
begin

text \<open>
  The aliases of one listing, and a path that uses one: every alias is a legal name no other name of the
  directory has, the table maps it back to the name it was made of, and a path with the alias a directory
  search showed is rewritten to the long name, unless a file of its own is called by that path.
\<close>

subsection \<open>One listing\<close>

lemma short_scan_length:
  "short_name_scan b e cs \<Longrightarrow> length cs \<le> (case e of None \<Rightarrow> (8 - b) + 4 | Some n \<Rightarrow> 3 - n)"
  by (induction b e cs rule: short_name_scan.induct) (force split: if_splits option.splits)+

lemma short_name_length: "DosAliasIsShortName n \<Longrightarrow> length n \<le> 12"
  using short_scan_length [of 0 None n] by (simp add: DosAliasIsShortName_def)

lemma listing_names:
  assumes "no_zero (entries directory)"
  obtains names where "noted (alias_listing_of entries directory) names
        (set (if length directory \<le> 300 then entries directory else []))"
    and "served (alias_listing_of entries directory) names (length names)"
    and "AliasDirectory (alias_listing_of entries directory) = take 299 directory"
    and "length (NeedyName (alias_listing_of entries directory)) = length names"
    and "\<forall>i<length names. pool_string (alias_listing_of entries directory) i = names ! i"
proof -
  obtain names where n: "noted (alias_listing_of entries directory) names
        (set (if length directory \<le> 300 then entries directory else []))"
    "served (alias_listing_of entries directory) names (length names)"
    "AliasDirectory (alias_listing_of entries directory) = take 299 directory"
    using listing_served [of "if length directory \<le> 300 then entries directory else []" directory] assms
    unfolding alias_listing_of_def dos_alias_sizes by (auto split: if_splits)
  moreover have "length (NeedyName (alias_listing_of entries directory)) = length names"
    using n(1) by (simp add: noted_def table_ok_def pool_holds_def)
  moreover have "\<forall>i<length names. pool_string (alias_listing_of entries directory) i = names ! i"
    using n(1) pool_names by (auto simp: noted_def table_ok_def)
  ultimately show thesis using that by blast
qed

text \<open>
  C23. The 8.3 names of a directory are unique: however many entries a listing has, every alias handed out is
  a legal DOS name of at most twelve characters that differs, without regard to case, from every other alias
  of the listing and, unless the table overflowed, from the short name or the 8.3 long name of every entry.
\<close>

theorem alias_names_unique:
  assumes "\<forall>(l, s)\<in>set (entries directory). 0 \<notin> set l \<and> length s \<le> 12" "length directory \<le> 300"
    and "i < length (NeedyName (alias_listing_of entries directory))"
  shows "DosAliasIsShortName (NeedyAlias (alias_listing_of entries directory) ! i)
    \<and> length (NeedyAlias (alias_listing_of entries directory) ! i) \<le> 12
    \<and> (\<forall>j<length (NeedyName (alias_listing_of entries directory)). j \<noteq> i \<longrightarrow>
         \<not> DosAliasSameText (NeedyAlias (alias_listing_of entries directory) ! i)
             (NeedyAlias (alias_listing_of entries directory) ! j) None)
    \<and> (\<not> IsOverflow (alias_listing_of entries directory) \<longrightarrow>
         (\<forall>entry\<in>set (entries directory). \<forall>n. visible_name entry = Some n \<longrightarrow>
            \<not> DosAliasSameText n (NeedyAlias (alias_listing_of entries directory) ! i) None))"
proof -
  let ?t = "alias_listing_of entries directory"
  have "no_zero (entries directory)" using assms(1) by auto
  from listing_names [where entries = entries and directory = directory, OF this] obtain names where
    n: "noted ?t names (set (entries directory))" "served ?t names (length names)" "length (NeedyName ?t) = length names"
    using assms(2) by auto
  have i: "i < length names" using assms(3) n(3) by simp
  note name = served_name [OF n(2) i]
  show ?thesis
  proof (intro conjI impI allI ballI)
    show "DosAliasIsShortName (NeedyAlias ?t ! i)" "length (NeedyAlias ?t ! i) \<le> 12" by (rule name)+
  next
    fix j assume "j < length (NeedyName ?t)" "j \<noteq> i"
    then show "\<not> DosAliasSameText (NeedyAlias ?t ! i) (NeedyAlias ?t ! j) None"
      using served_distinct [OF n(2) i, of j] n(3) by (simp add: same_text_upper)
  next
    fix entry m assume "\<not> IsOverflow ?t" "entry \<in> set (entries directory)" "visible_name entry = Some m"
    then have taken: "upper (take 12 m) \<in> upper ` set (Taken ?t)" using n(1) by (auto simp: noted_def)
    have "length m \<le> 12" using \<open>visible_name entry = _\<close> \<open>entry \<in> _\<close> assms(1) short_name_length
      by (auto simp: visible_name_def split: if_splits)
    then have "upper m \<in> upper ` set (Taken ?t)" using taken by simp
    then show "\<not> DosAliasSameText m (NeedyAlias ?t ! i) None" using name(2,5) by (auto simp: same_text_upper)
  qed
qed

subsection \<open>There and back\<close>

lemma alias_of_found:
  assumes "served t names (length names)" "length (NeedyName t) = length names"
    "\<forall>i<length names. pool_string t i = names ! i"
  shows "(case DosAliasTableAliasOf t l of
      Some a \<Rightarrow> \<exists>i<length names. a = NeedyAlias t ! i \<and> upper (names ! i) = upper l
    | None \<Rightarrow> \<forall>n\<in>set names. upper n \<noteq> upper l)"
proof -
  let ?p = "\<lambda>i. NeedyAlias t ! i \<noteq> [] \<and> DosAliasSameText (pool_string t i) l None"
  have p: "?p i \<longleftrightarrow> upper (names ! i) = upper l" if "i < length names" for i
    using served_name(3) [OF assms(1) that] assms(3) that by (simp add: same_text_upper)
  show ?thesis
  proof (cases "first_from ?p 0 (length names) < length names")
    case True
    with first_from_holds [OF True] p [OF True] show ?thesis
      unfolding DosAliasTableAliasOf_def Let_def assms(2) by auto
  next
    case False
    then have "\<forall>j<length names. \<not> ?p j" using first_from_full [of ?p "length names"] first_from_le [of ?p 0 "length names"] by simp
    with p False show ?thesis unfolding DosAliasTableAliasOf_def Let_def assms(2) by (auto simp: in_set_conv_nth)
  qed
qed

lemma long_of_alias:
  assumes "served t names (length names)" "length (NeedyName t) = length names"
    "\<forall>i<length names. pool_string t i = names ! i" "i < length names" "upper a = NeedyAlias t ! i"
  shows "DosAliasTableLongOf t a (Some (length a)) = Some (names ! i)"
proof -
  let ?p = "\<lambda>j. NeedyAlias t ! j \<noteq> [] \<and> DosAliasSameText a (NeedyAlias t ! j) (Some (length a))"
  have p: "?p j \<longleftrightarrow> j = i" if "j < length names" for j
  proof (cases "j = i")
    case True
    with served_name(2,3) [OF assms(1,4)] assms(5) show ?thesis by (simp add: same_text_whole)
  next
    case False
    with served_distinct [OF assms(1) that assms(4)] served_name(2) [OF assms(1,4)] assms(5)
    show ?thesis by (simp add: same_text_whole)
  qed
  have "first_from ?p 0 (length names) = i"
  proof (rule ccontr)
    assume other: "first_from ?p 0 (length names) \<noteq> i"
    show False
    proof (cases "first_from ?p 0 (length names) < length names")
      case True
      with first_from_holds [OF True] p [OF True] other show False by blast
    next
      case False
      then have "\<forall>j<length names. \<not> ?p j" using first_from_full [of ?p "length names"] first_from_le [of ?p 0 "length names"] by simp
      with p [OF assms(4)] assms(4) show False by blast
    qed
  qed
  then show ?thesis using assms(2,3,4) by (simp add: DosAliasTableLongOf_def)
qed
text \<open>
  Aliases map back: an alias the table gives a long name is mapped back, in any case the program spells
  it, to the name it was made of; and, unless the table overflowed, every entry that needs an alias has one.
\<close>

theorem alias_round_trip:
  assumes "\<forall>(l, s)\<in>set (entries directory). 0 \<notin> set l" "length directory \<le> 300" "upper spelled = upper shown"
  shows "(DosAliasTableAliasOf (alias_listing_of entries directory) l = Some shown \<longrightarrow>
      (\<exists>n. DosAliasTableLongOf (alias_listing_of entries directory) spelled (Some (length spelled)) = Some n \<and>
           DosAliasSameText n l None))
    \<and> (\<not> IsOverflow (alias_listing_of entries directory) \<and> (l, []) \<in> set (entries directory) \<and>
         l \<noteq> [0x2E] \<and> l \<noteq> [0x2E, 0x2E] \<and> \<not> DosAliasIsShortName l \<longrightarrow>
       DosAliasTableAliasOf (alias_listing_of entries directory) l \<noteq> None)"
proof -
  let ?t = "alias_listing_of entries directory"
  from listing_names [where entries = entries and directory = directory, OF assms(1)] obtain names where
    n: "noted ?t names (set (entries directory))" "served ?t names (length names)"
    "length (NeedyName ?t) = length names" "\<forall>i<length names. pool_string ?t i = names ! i"
    using assms(2) by auto
  note found = alias_of_found [OF n(2,3,4), of l]
  have "\<exists>n. DosAliasTableLongOf ?t spelled (Some (length spelled)) = Some n \<and> DosAliasSameText n l None"
    if "DosAliasTableAliasOf ?t l = Some shown"
  proof -
    from found that obtain i where i: "i < length names" "shown = NeedyAlias ?t ! i" "upper (names ! i) = upper l" by auto
    have "upper spelled = NeedyAlias ?t ! i" using assms(3) i(2) served_name(2) [OF n(2) i(1)] by simp
    from long_of_alias [OF n(2,3,4) i(1) this] i(3) show ?thesis by (simp add: same_text_upper)
  qed
  moreover have "DosAliasTableAliasOf ?t l \<noteq> None" if "\<not> IsOverflow ?t" "(l, []) \<in> set (entries directory)"
    "is_needy (l, [])"
  proof -
    have "l \<in> set names" using n(1) that by (force simp: noted_def)
    with found show ?thesis by (cases "DosAliasTableAliasOf ?t l") auto
  qed
  ultimately show ?thesis by (auto simp: is_needy_def)
qed

subsection \<open>The cache\<close>

lemma slot_last:
  "fold (\<lambda>i r. if p i then Some i else r) [0..<n] None = (if \<exists>i<n. p i then Some (Max {i. i < n \<and> p i}) else None)"
proof (induction n)
  case (Suc n)
  have "{i. i < Suc n \<and> p i} = (if p n then insert n {i. i < n \<and> p i} else {i. i < n \<and> p i})" by (auto simp: less_Suc_eq)
  moreover have "Max (insert n {i. i < n \<and> p i}) = n" by (intro Max_eqI) auto
  ultimately show ?case using Suc by (auto simp: less_Suc_eq)
qed simp

definition is_table :: "alias_cache \<Rightarrow> u8 list \<Rightarrow> nat \<Rightarrow> bool" where
  "is_table cache directory i \<longleftrightarrow> AliasDirectory (AliasTables cache ! i) \<noteq> [] \<and> upper (AliasDirectory (AliasTables cache ! i)) = upper directory"

lemma alias_slot_eq:
  "alias_slot cache directory = (if \<exists>i<4. is_table cache directory i then Some (Max {i. i < 4 \<and> is_table cache directory i}) else None)"
  unfolding alias_slot_def DosAliasTableIsFor_def same_text_upper is_table_def [symmetric] dos_alias_sizes by (rule slot_last)

lemma alias_slot_unset:
  assumes "length (AliasTables cache) = 4" "alias_slot cache directory = None" "k < 4"
    "AliasDirectory table \<noteq> []" "upper (AliasDirectory table) = upper directory"
  shows "alias_slot (cache\<lparr>NextTable := n, AliasTables := (AliasTables cache)[k := table]\<rparr>) directory = Some k"
proof -
  have "is_table (cache\<lparr>NextTable := n, AliasTables := (AliasTables cache)[k := table]\<rparr>) directory i \<longleftrightarrow> i = k" if "i < 4" for i
    using assms that by (auto simp: alias_slot_eq is_table_def nth_list_update split: if_splits)
  then have "{i. i < 4 \<and> is_table (cache\<lparr>NextTable := n, AliasTables := (AliasTables cache)[k := table]\<rparr>) directory i} = {k}"
    using assms(3) by auto
  then show ?thesis unfolding alias_slot_eq by (auto simp: set_eq_iff)
qed

lemma alias_slot_reset:
  assumes "length (AliasTables cache) = 4" "alias_slot cache directory = Some k"
    "AliasDirectory table \<noteq> []" "upper (AliasDirectory table) = upper directory"
  shows "k < 4" "alias_slot (cache\<lparr>AliasTables := (AliasTables cache)[k := table]\<rparr>) directory = Some k"
proof -
  have ex: "\<exists>i<4. is_table cache directory i" and k: "k = Max {i. i < 4 \<and> is_table cache directory i}"
    using assms(2) unfolding alias_slot_eq by (auto split: if_splits)
  have "k \<in> {i. i < 4 \<and> is_table cache directory i}" unfolding k using ex by (intro Max_in) auto
  then have k4: "k < 4" "is_table cache directory k" by auto
  then show "k < 4" by simp
  have "is_table (cache\<lparr>AliasTables := (AliasTables cache)[k := table]\<rparr>) directory i = is_table cache directory i" if "i < 4" for i
    using assms that k4 by (auto simp: is_table_def nth_list_update)
  then have "{i. i < 4 \<and> is_table (cache\<lparr>AliasTables := (AliasTables cache)[k := table]\<rparr>) directory i} =
      {i. i < 4 \<and> is_table cache directory i}" by blast
  then show "alias_slot (cache\<lparr>AliasTables := (AliasTables cache)[k := table]\<rparr>) directory = Some k"
    unfolding alias_slot_eq using ex k by (auto simp: set_eq_iff)
qed

definition cache_ok :: "alias_cache \<Rightarrow> bool" where
  "cache_ok cache \<longleftrightarrow> length (AliasTables cache) = 4 \<and> NextTable cache < 4"

lemma listing_directory:
  assumes "no_zero (entries directory)" "length directory < 300"
  shows "AliasDirectory (alias_listing_of entries directory) = directory"
proof -
  from listing_names [where entries = entries and directory = directory, OF assms(1)]
  have "AliasDirectory (alias_listing_of entries directory) = take 299 directory" by blast
  then show ?thesis using assms(2) by simp
qed

lemma table_for_listed:
  assumes "cache_ok cache" "no_zero (entries directory)" "0 < length directory" "length directory < 300"
    "DosAliasTableFor entries cache directory True = (cache', table)"
  shows "table = alias_listing_of entries directory" "cache_ok cache'"
    "DosAliasTableFor entries' cache' directory False = (cache', table)"
proof -
  have dir: "AliasDirectory (alias_listing_of entries directory) = directory" by (rule listing_directory) fact+
  show "table = alias_listing_of entries directory"
    using assms(5) by (auto simp: DosAliasTableFor_def Let_def split: option.splits)
  show "cache_ok cache'"
    using assms(1,5) by (auto simp: DosAliasTableFor_def Let_def cache_ok_def dos_alias_sizes split: option.splits)
  show "DosAliasTableFor entries' cache' directory False = (cache', table)"
  proof (cases "alias_slot cache directory")
    case None
    with assms(1,3,5) alias_slot_unset [of cache directory "NextTable cache" "alias_listing_of entries directory"] dir show ?thesis
      by (auto simp: DosAliasTableFor_def Let_def cache_ok_def)
  next
    case (Some k)
    with assms(1,3,5) alias_slot_reset [of cache directory k "alias_listing_of entries directory"] dir show ?thesis
      by (auto simp: DosAliasTableFor_def Let_def cache_ok_def)
  qed
qed
subsection \<open>A path that uses an alias\<close>

lemma upper_letter: "0x61 \<le> c \<and> c \<le> 0x7A \<Longrightarrow> 0x41 \<le> DosAliasUpper c \<and> DosAliasUpper c \<le> 0x5A"
proof -
  assume c: "0x61 \<le> c \<and> c \<le> 0x7A"
  then have "unat (c - 0x20) = unat c - 0x20" by (subst unat_sub) (auto simp: word_le_nat_alt)
  then have "0x41 \<le> c - 0x20 \<and> c - 0x20 \<le> 0x5A" using c by (auto simp: word_le_nat_alt)
  with c show ?thesis by (simp add: DosAliasUpper_def)
qed

lemma upper_keeps: "DosAliasUpper c = c \<or> 0x41 \<le> DosAliasUpper c \<and> DosAliasUpper c \<le> 0x5A \<and> 0x61 \<le> c \<and> c \<le> 0x7A"
  using upper_letter [of c] by (auto simp: DosAliasUpper_def)

lemma upper_mark: "DosAliasUpper c = 0x7E \<longleftrightarrow> c = 0x7E" "DosAliasUpper c = 0x5C \<longleftrightarrow> c = 0x5C"
    "0x30 \<le> DosAliasUpper c \<and> DosAliasUpper c \<le> 0x39 \<longleftrightarrow> 0x30 \<le> c \<and> c \<le> 0x39"
  using upper_keeps [of c] by (auto simp: word_le_nat_alt DosAliasUpper_def)

lemma looks_upper: "DosAliasLooksLikeAlias (upper xs) len = DosAliasLooksLikeAlias xs len"
  using upper_mark by (induction xs len rule: DosAliasLooksLikeAlias.induct) auto

lemma looks_tilde: "DosAliasLooksLikeAlias xs len \<Longrightarrow> 0x7E \<in> set (take len xs)"
proof (induction xs len rule: DosAliasLooksLikeAlias.induct)
  case (1 a b rest len)
  then show ?case by (cases len) auto
qed auto

lemma plain_directory_kept:
  assumes "0x7E \<notin> set directory" "directory = [] \<or> last directory = 0x5C" "length prior + length directory < 300"
  shows "path_loop (resolve_component exists entries) cache prior isChanged (directory @ rest) =
    path_loop (resolve_component exists entries) cache (prior @ directory) isChanged rest"
  using assms
proof (induction "length directory" arbitrary: directory prior rule: less_induct)
  case less
  show ?case
  proof (cases "directory = []")
    case False
    then have "0x5C \<in> set directory" using less.prems(2) last_in_set by metis
    then obtain comp more where cut: "directory = comp @ 0x5C # more" "0x5C \<notin> set comp" by (meson split_list_first)
    have comp: "component_of (directory @ rest) = comp" 
      using cut takeWhile_append2 [of comp "\<lambda>c. c \<noteq> 0x5C" "0x5C # more @ rest"] by fastforce
    have "resolve_component exists entries cache prior (directory @ rest) = Some (cache, None)"
    proof -
      have "\<not> DosAliasLooksLikeAlias (directory @ rest) (length comp)"
        using looks_tilde [of "directory @ rest" "length comp"] less.prems(1) cut by auto
      then show ?thesis unfolding resolve_component_def comp Let_def by simp
    qed
    then have "path_loop (resolve_component exists entries) cache prior isChanged (directory @ rest) =
        path_loop (resolve_component exists entries) cache ((prior @ comp) @ [0x5C]) isChanged (more @ rest)"
      using less.prems(3) False comp cut(1) by (subst path_loop.simps) (simp add: dos_alias_sizes)
    also have "\<dots> = path_loop (resolve_component exists entries) cache (((prior @ comp) @ [0x5C]) @ more) isChanged rest"
      using less.prems cut(1) by (intro less.hyps) (auto split: if_splits)
    finally show ?thesis using cut(1) by simp
  qed simp
qed

text \<open>
  C24. A name shown can be opened. A directory search has shown an entry under an alias, and a program makes a path of the
  directory, fully qualified and without a \<open>~\<close> of its own, and that alias, in any case, all within the limits on path lengths. If no file is called by
  that path itself, the path is rewritten to the directory and the entry's long name, out of the table the search left in
  the cache, whatever other entries the directory has by then; if a file is, the path stays as it is
  and means that file. The cache is left as it was.
\<close>

theorem alias_shown_then_resolved:
  assumes "cache_ok cache" "\<forall>(l, s)\<in>set (entries directory). 0 \<notin> set l"
    and "DosAliasFill entries cache (Some directory) longName [] False = (cache', alias, listed)" "alias \<noteq> []"
    and "upper spelled = upper alias" "0x7E \<notin> set directory" "last directory = 0x5C"
    and "DosAliasRootLength (directory @ spelled) \<le> length directory" "full (directory @ spelled) = directory @ spelled"
    and "length directory + length spelled < 300"
    and "length directory + length longName < 300" "length directory + length longName < capacity"
  shows "\<exists>n. DosAliasResolvePath full exists entries' cache' (directory @ spelled) capacity =
      (cache', if exists (directory @ spelled) then directory @ spelled else directory @ n) \<and>
    DosAliasSameText n longName None"
proof -
  let ?t = "alias_listing_of entries directory"
  have "directory \<noteq> []" using assms(3,4) by (auto simp: DosAliasFill_def)
  then obtain table where fresh: "DosAliasTableFor entries cache directory True = (cache', table)"
    and shown: "alias = (case DosAliasTableAliasOf table longName of Some a \<Rightarrow> take 13 a | None \<Rightarrow> [])"
    using assms(3,4) by (auto simp: DosAliasFill_def split: if_splits prod.splits)
  have "table = ?t" and cached: "DosAliasTableFor entries' cache' directory False = (cache', table)"
    using table_for_listed [OF assms(1) _ _ _ fresh] assms(2,10) \<open>directory \<noteq> []\<close> by auto
  from listing_names [where entries = entries and directory = directory, OF assms(2)] obtain names where
    n: "served ?t names (length names)" "length (NeedyName ?t) = length names" "\<forall>i<length names. pool_string ?t i = names ! i"
    by blast
  obtain i where i: "i < length names" "upper (names ! i) = upper longName" "alias = NeedyAlias ?t ! i"
  proof -
    obtain a where a: "DosAliasTableAliasOf ?t longName = Some a" using shown assms(4) \<open>table = ?t\<close>
      by (cases "DosAliasTableAliasOf ?t longName") auto
    with alias_of_found [OF n, of longName] obtain j where j: "j < length names" "a = NeedyAlias ?t ! j" "upper (names ! j) = upper longName"
      by auto
    have "take 13 a = a" using served_name(4) [OF n(1) j(1)] j(2) by simp
    with a j shown \<open>table = ?t\<close> show thesis by (intro that [of j]) auto
  qed
  have spelled: "upper spelled = NeedyAlias ?t ! i" using assms(5) i(3) served_name(2) [OF n(1) i(1)] by simp
  obtain k where "k \<le> 999999" "NeedyAlias ?t ! i = DosAliasMake (names ! i) (of_nat k)" using n(1) i(1) by (auto simp: served_def)
  with make_legal(4) [of k "names ! i"] have looks: "DosAliasLooksLikeAlias spelled (length spelled)"
    by (metis looks_upper spelled length_map)
  have "0x5C \<notin> set (upper spelled)" using served_no_separator [OF n(1) i(1)] spelled by simp
  then have comp: "component_of spelled = spelled" using upper_mark(2) by (auto simp: takeWhile_eq_all_conv image_iff)
  have found: "resolve_component exists entries' cache' directory spelled =
      Some (cache', if exists (directory @ spelled) then None else Some (names ! i))"
    using looks assms(10) cached long_of_alias [OF n i(1) spelled] \<open>table = ?t\<close>
    by (simp add: resolve_component_def comp dos_alias_sizes)
  have "length (names ! i) = length longName" using arg_cong [OF i(2), of length] by simp
  moreover have "spelled \<noteq> []" using looks by auto
  ultimately have loop: "path_loop (resolve_component exists entries') cache' directory False spelled =
      (cache', Some (if exists (directory @ spelled) then (directory @ spelled, False) else (directory @ names ! i, True)))"
    using assms(10,11) found by (subst path_loop.simps) (simp add: comp dos_alias_sizes)
  let ?root = "DosAliasRootLength (directory @ spelled)"
  have "path_loop (resolve_component exists entries') cache' (take ?root directory) False (drop ?root directory @ spelled) =
      path_loop (resolve_component exists entries') cache' (take ?root directory @ drop ?root directory) False spelled"
  proof (rule plain_directory_kept)
    show "0x7E \<notin> set (drop ?root directory)" using assms(6) by (auto dest: in_set_dropD)
    show "drop ?root directory = [] \<or> last (drop ?root directory) = 0x5C"
      using assms(7) by (cases "?root < length directory") (simp_all add: last_drop)
    show "length (take ?root directory) + length (drop ?root directory) < 300" using assms(10) by simp
  qed
  with loop assms(8,9,10,12) looks_after [OF looks, of directory] \<open>length (names ! i) = _\<close> i(2) show ?thesis
    by (auto simp: DosAliasResolvePath_def Let_def same_text_upper dos_alias_sizes)
qed
subsection \<open>At a concrete directory\<close>

definition two_entries :: dir_entries where
  \<comment> \<open>"a b", which needs an alias, and "AB~1", which has the first one made of it\<close>
  "two_entries directory = [([0x61, 0x20, 0x62], []), ([0x41, 0x42, 0x7E, 0x31], [])]"

definition some_root :: "u8 list" where "some_root = [0x5A, 0x3A, 0x5C]"

definition empty_cache :: alias_cache where
  "empty_cache = \<lparr>AliasTables = replicate 4 (DosAliasTableBegin []), NextTable = 0\<rparr>"



lemmas alias_note_eval = DosAliasTableBegin_def DosAliasTableNote_def DosAliasTake_def DosAliasIsShortName_def
  DosAliasIsBadCharacter_def DosAliasUpper_def dos_alias_sizes

lemma two_entries_noted:
  "fold note_entry (two_entries some_root) (DosAliasTableBegin some_root) =
   \<lparr>AliasDirectory = [0x5A, 0x3A, 0x5C], Taken = [[0x41, 0x42, 0x7E, 0x31]],
     NeedyName = [0], NeedyAlias = [[]], Pool = [0x61, 0x20, 0x62, 0], IsOverflow = False\<rparr>"
  by (simp add: alias_note_eval two_entries_def some_root_def)

lemma one_digit: "n < 10 \<Longrightarrow> alias_digits n = [0x30 + of_nat n]"
  by (simp add: alias_digits.simps)

lemma made_names:
  "DosAliasMake [0x61, 0x20, 0x62] 1 = [0x41, 0x42, 0x7E, 0x31]" "DosAliasMake [0x61, 0x20, 0x62] 2 = [0x41, 0x42, 0x7E, 0x32]"
  by (simp_all add: DosAliasMake_def alias_part_def DosAliasCharacter_def DosAliasIsBadCharacter_def DosAliasUpper_def one_digit)

lemma two_entries_table:
  "alias_listing_of two_entries some_root = \<lparr>AliasDirectory = [0x5A, 0x3A, 0x5C], Taken = [[0x41, 0x42, 0x7E, 0x31]],
     NeedyName = [0], NeedyAlias = [[0x41, 0x42, 0x7E, 0x32]], Pool = [0x61, 0x20, 0x62, 0], IsOverflow = False\<rparr>"
proof -
  let ?t = "\<lparr>AliasDirectory = [0x5A, 0x3A, 0x5C], Taken = [[0x41, 0x42, 0x7E, 0x31]],
     NeedyName = [0], NeedyAlias = [[]], Pool = [0x61, 0x20, 0x62, 0], IsOverflow = False\<rparr>"
  have "alias_search ?t 0 2 = [0x41, 0x42, 0x7E, 0x32]"
    by (subst alias_search.simps) (simp add: pool_string_def made_names DosAliasIsTaken_def DosAliasUpper_def)
  then have "alias_search ?t 0 1 = [0x41, 0x42, 0x7E, 0x32]"
    by (subst alias_search.simps) (simp add: pool_string_def made_names DosAliasIsTaken_def DosAliasUpper_def numeral_2_eq_2 [symmetric])
  then show ?thesis using two_entries_noted
    by (simp add: alias_listing_of_def DosAliasTableFinish_def some_root_def dos_alias_sizes)
qed

lemma two_entries_alias:
  "upper l = [0x41, 0x20, 0x42] \<Longrightarrow> DosAliasTableAliasOf (alias_listing_of two_entries some_root) l = Some [0x41, 0x42, 0x7E, 0x32]"
  by (simp add: DosAliasTableAliasOf_def two_entries_table first_from.simps pool_string_def same_text_upper DosAliasUpper_def)

lemma alias_names_unique_witness:
  "DosAliasIsShortName (NeedyAlias (alias_listing_of two_entries some_root) ! 0) \<and>
   \<not> DosAliasSameText [0x41, 0x42, 0x7E, 0x31] (NeedyAlias (alias_listing_of two_entries some_root) ! 0) None"
proof -
  have "\<forall>(l, s)\<in>set (two_entries some_root). 0 \<notin> set l \<and> length s \<le> 12" "length some_root \<le> 300"
    "0 < length (NeedyName (alias_listing_of two_entries some_root))"
    by (simp_all add: two_entries_def two_entries_table) (simp add: some_root_def)
  note unique = alias_names_unique [OF this]
  have "([0x41, 0x42, 0x7E, 0x31], []) \<in> set (two_entries some_root)"
    "visible_name ([0x41, 0x42, 0x7E, 0x31], []) = Some [0x41, 0x42, 0x7E, 0x31]" 
    by (simp_all add: two_entries_def visible_name_def DosAliasIsShortName_def DosAliasIsBadCharacter_def)
  moreover have "\<not> IsOverflow (alias_listing_of two_entries some_root)" by (simp add: two_entries_table)
  ultimately show ?thesis using unique by blast
qed

lemma alias_round_trip_witness:
  "\<exists>n. DosAliasTableLongOf (alias_listing_of two_entries some_root) [0x61, 0x62, 0x7E, 0x32]
       (Some (length [0x61, 0x62, 0x7E, 0x32 :: u8])) = Some n \<and>
     DosAliasSameText n [0x41, 0x20, 0x62] None"
proof -
  have "\<forall>(l, s)\<in>set (two_entries some_root). 0 \<notin> set l" "length some_root \<le> 300"
    "upper [0x61, 0x62, 0x7E, 0x32] = upper [0x41, 0x42, 0x7E, 0x32]"
    "DosAliasTableAliasOf (alias_listing_of two_entries some_root) [0x41, 0x20, 0x62] = Some [0x41, 0x42, 0x7E, 0x32]"
    by (simp_all add: two_entries_def two_entries_alias DosAliasUpper_def) (simp add: some_root_def)
  with alias_round_trip [where entries = two_entries and directory = some_root and l = "[0x41, 0x20, 0x62]"
      and spelled = "[0x61, 0x62, 0x7E, 0x32]" and shown = "[0x41, 0x42, 0x7E, 0x32]"]
  show ?thesis by simp
qed

lemma alias_shown_then_resolved_witness:
  "\<exists>n. DosAliasResolvePath id (\<lambda>p. False) two_entries
      (fst (DosAliasFill two_entries empty_cache (Some some_root) [0x61, 0x20, 0x62] [] False))
      (some_root @ [0x61, 0x62, 0x7E, 0x32]) 300 =
    (fst (DosAliasFill two_entries empty_cache (Some some_root) [0x61, 0x20, 0x62] [] False), some_root @ n) \<and>
    DosAliasSameText n [0x61, 0x20, 0x62] None"
proof -
  note resolved = alias_shown_then_resolved [where exists = "\<lambda>_. False", unfolded if_False]
  show ?thesis
  proof (rule resolved)
  show "cache_ok empty_cache" by (simp add: cache_ok_def empty_cache_def)
  show "\<forall>(l, s)\<in>set (two_entries some_root). 0 \<notin> set l" by (simp add: two_entries_def)
  have "snd (DosAliasFill two_entries empty_cache (Some some_root) [0x61, 0x20, 0x62] [] False) = ([0x41, 0x42, 0x7E, 0x32], True)"

    by (simp add: DosAliasFill_def DosAliasTableFor_def Let_def two_entries_alias DosAliasUpper_def split: option.splits)
       (simp add: some_root_def DosAliasIsShortName_def DosAliasIsBadCharacter_def)
  then show "DosAliasFill two_entries empty_cache (Some some_root) [0x61, 0x20, 0x62] [] False =
      (fst (DosAliasFill two_entries empty_cache (Some some_root) [0x61, 0x20, 0x62] [] False), [0x41, 0x42, 0x7E, 0x32], True)"
    by (metis prod.collapse)
  qed (simp_all add: some_root_def DosAliasUpper_def DosAliasRootLength_def)
qed

text \<open>
  A name that starts with a dot is shown under an alias but is not shortened in a path.
\<close>

definition dotted_entries :: dir_entries where
  "dotted_entries directory = [([0x2E, 0x67, 0x69, 0x74], [])]"

lemma dotted_table:
  "alias_listing_of dotted_entries some_root = \<lparr>AliasDirectory = [0x5A, 0x3A, 0x5C], Taken = [],
     NeedyName = [0], NeedyAlias = [[0x47, 0x49, 0x54, 0x7E, 0x31]], Pool = [0x2E, 0x67, 0x69, 0x74, 0], IsOverflow = False\<rparr>"
proof -
  let ?t = "\<lparr>AliasDirectory = [0x5A, 0x3A, 0x5C], Taken = [], NeedyName = [0], NeedyAlias = [[]],
     Pool = [0x2E, 0x67, 0x69, 0x74, 0], IsOverflow = False\<rparr>"
  have "fold note_entry (dotted_entries some_root) (DosAliasTableBegin some_root) = ?t"
    by (simp add: alias_note_eval dotted_entries_def some_root_def)
  moreover have "DosAliasMake [0x2E, 0x67, 0x69, 0x74] 1 = [0x47, 0x49, 0x54, 0x7E, 0x31]"
    by (simp add: DosAliasMake_def alias_part_def DosAliasCharacter_def DosAliasIsBadCharacter_def DosAliasUpper_def one_digit)
  then have "alias_search ?t 0 1 = [0x47, 0x49, 0x54, 0x7E, 0x31]"
    by (subst alias_search.simps) (simp add: pool_string_def DosAliasIsTaken_def)
  ultimately show ?thesis
    by (simp add: alias_listing_of_def DosAliasTableFinish_def some_root_def dos_alias_sizes)
qed

lemma dotted_name_not_shortened:
  "fst (snd (DosAliasFill dotted_entries empty_cache (Some some_root) [0x2E, 0x67, 0x69, 0x74] [] False)) =
     [0x47, 0x49, 0x54, 0x7E, 0x31]"
  "snd (DosAliasShortenPath dotted_entries empty_cache (some_root @ [0x2E, 0x67, 0x69, 0x74]) 300) =
     some_root @ [0x2E, 0x67, 0x69, 0x74]"
proof -
  have "DosAliasTableAliasOf (alias_listing_of dotted_entries some_root) [0x2E, 0x67, 0x69, 0x74] = Some [0x47, 0x49, 0x54, 0x7E, 0x31]"
    by (simp add: DosAliasTableAliasOf_def dotted_table first_from.simps pool_string_def same_text_upper)
  then show "fst (snd (DosAliasFill dotted_entries empty_cache (Some some_root) [0x2E, 0x67, 0x69, 0x74] [] False)) =
     [0x47, 0x49, 0x54, 0x7E, 0x31]"
    by (simp add: DosAliasFill_def DosAliasTableFor_def Let_def split: option.splits)
       (simp add: some_root_def DosAliasIsShortName_def DosAliasIsBadCharacter_def)
  show "snd (DosAliasShortenPath dotted_entries empty_cache (some_root @ [0x2E, 0x67, 0x69, 0x74]) 300) =
     some_root @ [0x2E, 0x67, 0x69, 0x74]"
    by (simp add: DosAliasShortenPath_def DosAliasRootLength_def some_root_def path_loop.simps shorten_component_def dos_alias_sizes)
qed

end
