(* ===== verification/Spec2Isabelle.thy ===== *)
theory Spec2Isabelle
  imports Vdm_Machine Cmos_Contract X86_Contract V86_Interrupt Vdd_Svc Comm_Drivers Fat_Services Fat_Paths Dos_Mcb_Contract Dos_Extmem Dos_Ems_Api Exec_Exit Alias_Paths
begin

text \<open>
  NTVDMEX is a replacement for the Windows program that runs DOS and 16-bit Windows software. It enters
  virtual-8086 mode through the kernel, catches what the guest cannot do itself (privileged
  instructions, ports, software interrupts), and answers with virtual devices, a DOS written against
  Win32, and thunks for Windows calls. This development models the parts that carry the machine and the
  DOS memory world: the device bus and seven devices on it, the DOS memory managers, the program loader
  with EXEC and exit, the disk-image reader, the aliases of long file names, and the 16-bit interpreter
  with the instruction-length decoder. Paths below are relative to the repository's \<^verbatim>\<open>src\<close> directory.

  \<^bigskip>
  \<^bold>\<open>Conventions.\<close> A C \<^verbatim>\<open>BYTE\<close>, \<^verbatim>\<open>WORD\<close>, \<^verbatim>\<open>DWORD\<close> is a word of its width and wraps as C does; sizes and offsets no
  sum of which reaches 2 to the 32nd are naturals. Guest and host memory is one function from addresses to
  bytes (\<open>mem\<close>), since the guest's linear addresses are the process's own. A struct is a record, an error
  code a datatype, a routine that may not return or may read outside its buffer answers in \<open>option\<close>, and
  \<open>None\<close> is then the failure. Routines of Win32 and callbacks of devices are parameters; where a
  theorem relies on what they do, the hypothesis names it. Definitions keep the names of the code; helper
  definitions that stand for a part of a routine have names in lower case.

  \<^bigskip>
  \<^bold>\<open>The machine.\<close>
  \<open>Prelude\<close> has the shared words, memory, loops and the collections \<open>bit_facts\<close>, \<open>mem_facts\<close> and \<open>scan_facts\<close>.
  \<open>Vdd_Bus\<close> (\<^verbatim>\<open>vdd/vdd_bus.c\<close>) is the claim registry and the dispatch of ports, memory, interrupts and frames;
  its locale \<open>port_device\<close> is the contract a device meets on the bus, \<open>port_slot\<close> the same in a slot of a
  larger machine. \<open>Pic_8259\<close> (\<^verbatim>\<open>vdd/vdd_pic.c\<close>) with \<open>Pic_Priority\<close>; \<open>Pit_8254\<close> (\<^verbatim>\<open>vdd/vdd_pit.c\<close>) with
  \<open>Pit_Contract\<close> and \<open>Pit_Services\<close>; \<open>Dma_8237\<close> (\<^verbatim>\<open>vdd/vdd_dma.c\<close>) with \<open>Dma_Transfer\<close> and \<open>Dma_Software\<close>;
  \<open>Cmos_Rtc\<close> (\<^verbatim>\<open>vdd/vdd_cmos.c\<close>) with \<open>Cmos_Contract\<close>; \<open>Vdd_Comm\<close> (\<^verbatim>\<open>vdd/vdd_comm.c\<close>) with \<open>Comm_Contract\<close> and
  \<open>Comm_Drivers\<close>; \<open>Vdd_Svc\<close> (\<^verbatim>\<open>vdd/vdd_svc.c\<close>), the tables of loaded device drivers. Their register views are
  \<open>Ntvdd_Registers\<close> (\<^verbatim>\<open>vdd/ntvdd.h\<close>) and \<open>Vdm_Registers\<close> (\<^verbatim>\<open>vdm/ntvdm.h\<close>). \<open>Vdm_Machine\<close> puts interrupt controllers, timer
  and DMA on one bus as \<^verbatim>\<open>host/host_startup.c\<close> does, with the latching half of \<^verbatim>\<open>HostIrqSink\<close>. The lemmas show:
  registers stay in range under any sequence of accesses (interpretations of \<open>port_device\<close>); delivery of
  interrupts is a stack ordered by priority; IRQ0 comes once per period; a DMA ring streams in order and a
  software request always ends; clock services and clock registers show one clock; serial input is a queue.

  \<^bigskip>
  \<^bold>\<open>DOS memory.\<close>
  \<open>Dos_Mcb\<close> (\<^verbatim>\<open>dos/dos_mcb.h\<close>) is the arena; \<open>Dos_Mcb_Chain\<close> says what list of blocks the bytes hold, \<open>Dos_Mcb_Refine\<close>
  that each routine implements its operation on that list, \<open>Dos_Mcb_Contract\<close> what callers rely on.
  \<open>Slot_Table\<close> is the locale of handle tables, \<open>Host_Store\<close> what the documentation of \<^verbatim>\<open>VirtualAlloc\<close> promises; on them
  \<open>Dos_Xms\<close>, \<open>Dos_Xms_Contract\<close>, \<open>Dos_Xms_Api\<close> (\<^verbatim>\<open>dos/dos_xms.h\<close>, \<^verbatim>\<open>HostXms\<close> of \<^verbatim>\<open>host/host_dos.c\<close>) and \<open>Dos_Ems\<close>, \<open>Dos_Ems_Contract\<close>,
  \<open>Dos_Ems_Alloc\<close>, \<open>Dos_Ems_Api\<close> (\<^verbatim>\<open>dos/dos_ems.h\<close>, \<^verbatim>\<open>HostEms\<close>) keep their books and their bytes. \<open>Dos_Extmem\<close> (\<^verbatim>\<open>dos/dos_extmem.h\<close>,
  \<^verbatim>\<open>Int15MoveBlockAt\<close> of \<^verbatim>\<open>host/host_bios.c\<close>) confines the BIOS block move.

  \<^bigskip>
  \<^bold>\<open>Programs.\<close>
  \<open>Dos_Env\<close> (\<^verbatim>\<open>dos/dos_env.h\<close>) with \<open>Env_Contract\<close>, which reads the block back as a program does; \<open>Dos_Psp\<close> (\<^verbatim>\<open>dos/dos_psp.h\<close>);
  \<open>Dos_Loader\<close> (\<^verbatim>\<open>dos/dos_loader.h\<close>) with the theorem on relocation; \<open>Dos_Jft\<close>, the handle tables of nested programs in
  \<^verbatim>\<open>dos/dos_int21.c\<close>; \<open>Dos_Exec\<close>, \<^verbatim>\<open>ExecBegin\<close> in its three modes and \<^verbatim>\<open>DosTerminate\<close> in \<^verbatim>\<open>host/host_dos.c\<close>: \<open>exec_prepare\<close> and \<open>exec_release\<close>
  are their work on the arena, and around them stand the registers, the flags on the caller's stack, the parameter block,
  the parent's frame and its handles. \<open>Exec_Contract\<close>, \<open>Exec_Call\<close> and \<open>Exec_Exit\<close> compose all of these over the arena: EXEC takes
  two blocks and touches nothing else but the bytes it answers in, and the exit gives everything back and lets the parent go on.

  \<^bigskip>
  \<^bold>\<open>Files.\<close>
  \<open>Dos_Fatimg\<close> (\<^verbatim>\<open>dos/dos_fatimg.c\<close>) with \<open>Fat_Layout\<close> (what a mount guarantees), \<open>Fat_Contract\<close> (walks and reads against
  lists of entries and clusters), \<open>Fat_Services\<close> and \<open>Fat_Paths\<close>. \<open>Dos_Alias\<close> (\<^verbatim>\<open>dos/dos_alias.c\<close>) and \<open>Dos_Alias_Cache\<close> (its use in
  \<^verbatim>\<open>dos/dos_int21.c\<close>) with \<open>Alias_Contract\<close> and \<open>Alias_Paths\<close>: aliases are legal, unique and map back.

  \<^bigskip>
  \<^bold>\<open>Instructions.\<close>
  \<open>X86_Length\<close> (\<^verbatim>\<open>host/x86len.c\<close>) with \<open>X86_Contract\<close>, a grammar of instructions. \<open>V86_Cpu\<close> and \<open>V86_Step\<close>
  (\<^verbatim>\<open>host/v86cpu.h\<close>, \<^verbatim>\<open>host/v86interp.h\<close>) are the interpreter over a record of host hooks; \<open>V86_Host\<close> (\<^verbatim>\<open>host/host_video.c\<close>,
  \<^verbatim>\<open>host/host_vddsvc.c\<close>) those hooks. \<open>V86_Decline\<close> proves that a declined instruction changed nothing; \<open>V86_Alu\<close>, \<open>V86_Shift\<close>
  and \<open>V86_Multiply\<close> the arithmetic; \<open>V86_Memory\<close> (locale \<open>guest_ram\<close>) and \<open>V86_Interrupt\<close> the stack and INT with IRET.

  \<^bigskip>
  \<^bold>\<open>Bounds and fuel.\<close> Loops with a guard in the code carry that guard: 100000 catch-up turns of the timer, 1000 and
  100000 turns of the clock, 1000h blocks of an arena walk and as many passes of an exit, 1024 headers per
  pass, as many turns of a cluster chain as the volume has clusters, 7FFEh bytes of an environment scan,
  alias numbers up to 999999 (6145 are enough: at most 4096 names are taken and 2047 aliases given), four
  prefixes of an interpreted instruction, and 8 prefixes, 48 bytes and 16 starting points of the length decoder's
  votes. The software DMA loops take 10001h turns as fuel, one more than a 16-bit count can ask for, and
  \<open>dma_software_runs_to_terminal_count\<close> shows they end before. The unguarded loops of the
  arena are partial functions, shown to return on every well-formed chain.

  \<^bigskip>
  \<^bold>\<open>Not modelled.\<close> The INT 21h file functions beyond the aliases, the ISO 9660 reader, disk controllers, CD-ROM and
  network are translations to Win32 handles, whose behaviour would be a parameter of every statement. The
  video adapter and its presentation, sound synthesis, keyboard, mouse and joystick are left out for size: their
  results are pictures, samples and host input. The DPMI host and the protected-mode interpreter change the
  descriptor tables of the running process. Windows on Windows (\<^verbatim>\<open>wow/\<close>) is thunks to Win32. The entry to virtual-8086 mode
  uses undocumented system calls. Of EXEC and the exit, what touches only
  variables of the host is left out: the window title, the DOS version a program is told, the photograph of the machine a forced close
  restores, and with it device resets and the user hooks of loaded drivers; what Windows does with its own programs is an input. Of
  every modelled routine the log lines are left out. Routines run one at a time: the code's
  atomic updates from other threads are sequential here.
\<close>

end
